(* ===== verification/Bl_Prelude.thy ===== *)
theory Bl_Prelude
  imports Main "HOL-Library.Word" "HOL-Library.Monad_Syntax"
begin

text \<open>
  Shared vocabulary of the development: the fixed-width integer types of
  src/include/types.h and src/boot-loader/include/bl-types.h, the flat 32-bit physical
  memory every pointer of the boot loader refers to, little-endian loads and stores, the
  status codes of src/boot-loader/include/error.h, the byte swaps of types.h, the MIN and
  MAX macros, and BL_MEMORY_ALIGN_UP. The generic lemmas on lists, words and memory blocks
  that the component theories use are collected here.

  Conventions. A C function that may fail to return (a loop over memory that never meets
  its end condition, a linked list with a cycle) is modelled with an option result, and
  None means that the call has no result. State is passed explicitly. A pointer is a
  \<^typ>\<open>32 word\<close>; NULL is 0.
\<close>

unbundle bit_operations_syntax

named_theorems mem_simps
named_theorems status_simps

type_synonym u8 = "8 word"
type_synonym u16 = "16 word"
type_synonym u32 = "32 word"
type_synonym u64 = "64 word"
type_synonym addr = "32 word"
type_synonym mem = "32 word \<Rightarrow> 8 word"

subsection \<open>Status codes\<close>

datatype bl_status =
    BL_STATUS_SUCCESS
  | BL_STATUS_FAILURE
  | BL_STATUS_UNSUPPORTED
  | BL_STATUS_INVALID_PARAMETERS
  | BL_STATUS_INSUFFICIENT_RESOURCES
  | BL_STATUS_MEMORY_ALLOCATION_FAILED
  | BL_STATUS_INVALID_MODULE_LIST
  | BL_STATUS_INVALID_MODULE
  | BL_STATUS_MODULE_ALREADY_LOADED
  | BL_STATUS_INVALID_ELF
  | BL_STATUS_INVALID_MODULE_SIZE
  | BL_STATUS_UNKNOWN_SYMBOL
  | BL_STATUS_INVALID_FILE_NAME
  | BL_STATUS_INVALID_FILE_TYPE
  | BL_STATUS_PATH_CONSTRUCTION_FAILED
  | BL_STATUS_INVALID_FILE_SYSTEM
  | BL_STATUS_FILE_NOT_FOUND
  | BL_STATUS_FILE_SYSTEM_ERROR
  | BL_STATUS_DISK_OPERATION_TIMEOUT
  | BL_STATUS_DISK_CONTROLLER_INTERNAL_ERROR
  | BL_STATUS_UNPROPER_DISK
  | BL_STATUS_UNBOOTABLE_DISK
  | BL_STATUS_INACTIVE_PARTITIONS
  | BL_STATUS_UNINITIALIZED_DISK
  | BL_STATUS_UNPROPER_CLUSTER_SIZE
  | BL_STATUS_UNPROPER_DISK_DATA
  | BL_STATUS_USB_INVALID_DEVICE
  | BL_STATUS_USB_INVALID_HOST_CONTROLLER
  | BL_STATUS_USB_INTERNAL_ERROR
  | BL_STATUS_USB_ACTION_NOT_FINISHED
  | BL_STATUS_USB_SHOULD_CHECK_STATUS
  | BL_STATUS_USB_CRC_ERROR
  | BL_STATUS_USB_BITSTUFF_ERROR
  | BL_STATUS_USB_TIMEOUT_ERROR
  | BL_STATUS_USB_NAK_RECEIVED
  | BL_STATUS_USB_BABBLE_DETECTED
  | BL_STATUS_USB_DATA_BUFFER_ERROR
  | BL_STATUS_USB_STALLED
  | BL_STATUS_GRAPHICS_NO_PROTOCOLS
  | BL_STATUS_GRAPHICS_PROTOCOL_UNSUPPORTED
  | BL_STATUS_ITERATOR_END

text \<open>The C test \<open>if (status)\<close>: every code but success is non-zero.\<close>

definition failed :: "bl_status \<Rightarrow> bool" where
  "failed s \<longleftrightarrow> s \<noteq> BL_STATUS_SUCCESS"

subsection \<open>Memory blocks\<close>

text \<open>\<open>mem_get m a n\<close> is the block of \<open>n\<close> bytes at \<open>a\<close>; \<open>mem_put m a bs\<close> stores a block.\<close>

definition mem_get :: "mem \<Rightarrow> addr \<Rightarrow> nat \<Rightarrow> u8 list" where
  "mem_get m a n = map (\<lambda>i. m (a + of_nat i)) [0..<n]"

definition mem_put :: "mem \<Rightarrow> addr \<Rightarrow> u8 list \<Rightarrow> mem" where
  "mem_put m a bs = (\<lambda>x. if unat (x - a) < length bs then bs ! unat (x - a) else m x)"

text \<open>A block that does not run past the end of the address space.\<close>

definition fits :: "addr \<Rightarrow> nat \<Rightarrow> bool" where
  "fits a n \<longleftrightarrow> unat a + n \<le> 2 ^ 32"

definition apart :: "addr \<Rightarrow> nat \<Rightarrow> addr \<Rightarrow> nat \<Rightarrow> bool" where
  "apart a n b k \<longleftrightarrow> unat a + n \<le> unat b \<or> unat b + k \<le> unat a"

subsection \<open>Little-endian integers\<close>

fun le_nat :: "u8 list \<Rightarrow> nat" where
  "le_nat [] = 0"
| "le_nat (b # bs) = unat b + 256 * le_nat bs"

fun to_le :: "nat \<Rightarrow> nat \<Rightarrow> u8 list" where
  "to_le 0 v = []"
| "to_le (Suc n) v = of_nat (v mod 256) # to_le n (v div 256)"

definition ld16 :: "mem \<Rightarrow> addr \<Rightarrow> u16" where
  "ld16 m a = of_nat (le_nat (mem_get m a 2))"

definition ld32 :: "mem \<Rightarrow> addr \<Rightarrow> u32" where
  "ld32 m a = of_nat (le_nat (mem_get m a 4))"

definition ld64 :: "mem \<Rightarrow> addr \<Rightarrow> u64" where
  "ld64 m a = of_nat (le_nat (mem_get m a 8))"

definition st16 :: "mem \<Rightarrow> addr \<Rightarrow> u16 \<Rightarrow> mem" where
  "st16 m a v = mem_put m a (to_le 2 (unat v))"

definition st32 :: "mem \<Rightarrow> addr \<Rightarrow> u32 \<Rightarrow> mem" where
  "st32 m a v = mem_put m a (to_le 4 (unat v))"

definition st64 :: "mem \<Rightarrow> addr \<Rightarrow> u64 \<Rightarrow> mem" where
  "st64 m a v = mem_put m a (to_le 8 (unat v))"

text \<open>Fields of a packed structure held as a byte list (a local variable read from disk).\<close>

definition get8 :: "u8 list \<Rightarrow> nat \<Rightarrow> u8" where
  "get8 bs i = (if i < length bs then bs ! i else 0)"

definition get16 :: "u8 list \<Rightarrow> nat \<Rightarrow> u16" where
  "get16 bs i = of_nat (le_nat (take 2 (drop i bs)))"

definition get32 :: "u8 list \<Rightarrow> nat \<Rightarrow> u32" where
  "get32 bs i = of_nat (le_nat (take 4 (drop i bs)))"

definition get64 :: "u8 list \<Rightarrow> nat \<Rightarrow> u64" where
  "get64 bs i = of_nat (le_nat (take 8 (drop i bs)))"

subsection \<open>Byte swaps and small macros of types.h, utils.h and heap.h\<close>

definition bytes_swap16 :: "u16 \<Rightarrow> u16" where
  "bytes_swap16 val = push_bit 8 (val AND 0xff) OR drop_bit 8 val"

definition bytes_swap32 :: "u32 \<Rightarrow> u32" where
  "bytes_swap32 val =
     push_bit 24 (val AND 0xff) OR
     push_bit 16 (drop_bit 8 val AND 0xff) OR
     push_bit 8 (drop_bit 16 val AND 0xff) OR
     drop_bit 24 val"

definition bytes_swap64 :: "u64 \<Rightarrow> u64" where
  "bytes_swap64 val =
     push_bit 56 (val AND 0xff) OR
     push_bit 48 (drop_bit 8 val AND 0xff) OR
     push_bit 40 (drop_bit 16 val AND 0xff) OR
     push_bit 32 (drop_bit 24 val AND 0xff) OR
     push_bit 24 (drop_bit 32 val AND 0xff) OR
     push_bit 16 (drop_bit 40 val AND 0xff) OR
     push_bit 8 (drop_bit 48 val AND 0xff) OR
     (drop_bit 58 val AND 0xff)"

definition BL_MIN :: "'a::linorder \<Rightarrow> 'a \<Rightarrow> 'a" where
  "BL_MIN a b = (if a > b then b else a)"

definition BL_MAX :: "'a::linorder \<Rightarrow> 'a \<Rightarrow> 'a" where
  "BL_MAX a b = (if a > b then a else b)"

definition BL_MEMORY_ALIGN_UP :: "'a::len word \<Rightarrow> 'a word \<Rightarrow> 'a word" where
  "BL_MEMORY_ALIGN_UP a align = (a + align - 1) AND NOT (align - 1)"

subsection \<open>Words\<close>

lemma unat_lt2p: "unat (w::'a::len word) < 2 ^ LENGTH('a)"
  by (rule unsigned_less)

lemma unat_of_nat_eq: "i < 2 ^ LENGTH('a) \<Longrightarrow> unat (of_nat i :: 'a::len word) = i"
  by (simp add: unat_of_nat)

lemma failed_simps [simp]:
  "\<not> failed BL_STATUS_SUCCESS"
  "s \<noteq> BL_STATUS_SUCCESS \<Longrightarrow> failed s"
  by (simp_all add: failed_def)

lemma length_mem_get [simp]: "length (mem_get m a n) = n"
  by (simp add: mem_get_def)

lemma nth_mem_get [simp]: "i < n \<Longrightarrow> mem_get m a n ! i = m (a + of_nat i)"
  by (simp add: mem_get_def)

lemma mem_get_eqI:
  assumes "\<And>i. i < n \<Longrightarrow> m (a + of_nat i) = m' (b + of_nat i)"
  shows "mem_get m a n = mem_get m' b n"
  using assms by (simp add: list_eq_iff_nth_eq)

lemma mem_get_0 [simp]: "mem_get m a 0 = []"
  by (simp add: mem_get_def)

lemma mem_get_Suc: "mem_get m a (Suc n) = m a # mem_get m (a + 1) n"
  by (rule nth_equalityI) (auto simp: nth_Cons split: nat.split simp: algebra_simps)

lemma mem_get_snoc: "mem_get m a (Suc n) = mem_get m a n @ [m (a + of_nat n)]"
  by (simp add: mem_get_def)

lemma mem_get_add: "mem_get m a (k + n) = mem_get m a k @ mem_get m (a + of_nat k) n"
  by (induction k arbitrary: a) (auto simp: mem_get_Suc algebra_simps)

lemma take_mem_get: "k \<le> n \<Longrightarrow> take k (mem_get m a n) = mem_get m a k"
  by (rule nth_equalityI) auto

lemma drop_mem_get: "drop k (mem_get m a n) = mem_get m (a + of_nat k) (n - k)"
  by (rule nth_equalityI) (auto simp: algebra_simps)

lemma mem_put_Nil [simp]: "mem_put m a [] = m"
  by (simp add: mem_put_def)

lemma mem_put_in:
  "i < length bs \<Longrightarrow> length bs \<le> 2 ^ 32 \<Longrightarrow> mem_put m a bs (a + of_nat i) = bs ! i"
  by (simp add: mem_put_def unat_of_nat_eq)

lemma mem_put_out: "length bs \<le> unat (x - a) \<Longrightarrow> mem_put m a bs x = m x"
  by (simp add: mem_put_def)

lemma mem_get_put_same [mem_simps]:
  "length bs \<le> 2 ^ 32 \<Longrightarrow> n = length bs \<Longrightarrow> mem_get (mem_put m a bs) a n = bs"
  by (rule nth_equalityI) (simp_all add: mem_put_in)

lemma apart_sym: "apart a n b k \<longleftrightarrow> apart b k a n"
  by (auto simp: apart_def)

lemma unat_add_lt: "unat (a::'a::len word) + i < 2 ^ LENGTH('a) \<Longrightarrow> unat (a + of_nat i) = unat a + i"
  by (metis add_lessD1 add.commute unat_add_lem unat_of_nat_eq)

lemma unat_diff_wrap:
  "unat (b - a :: 'a::len word) = (if unat a \<le> unat b then unat b - unat a else unat b + 2 ^ LENGTH('a) - unat a)"
  by (metis unat_sub_if_size word_size)

lemma apart_offset:
  assumes "apart a n b k" "fits a n" "i < k" "fits b k"
  shows "n \<le> unat (b + of_nat i - a)"
proof -
  have b: "unat (b + of_nat i) = unat b + i"
    using assms by (intro unat_add_lt) (simp add: fits_def)
  show ?thesis
    using assms unfolding unat_diff_wrap b by (auto simp: apart_def fits_def)
qed

lemma mem_get_put_apart [mem_simps]:
  assumes "apart a (length bs) b k" "fits a (length bs)" "fits b k"
  shows "mem_get (mem_put m a bs) b k = mem_get m b k"
  by (rule mem_get_eqI) (simp add: mem_put_out apart_offset [OF assms(1,2) _ assms(3)])

lemma mem_put_Cons:
  assumes "length bs < 2 ^ 32" shows "mem_put (m(d := c)) (d + 1) bs = mem_put m d (c # bs)"
proof
  fix x :: addr
  show "mem_put (m(d := c)) (d + 1) bs x = mem_put m d (c # bs) x"
  proof (cases "x = d")
    case True
    then have "unat (x - (d + 1)) = 2 ^ 32 - 1" by (simp add: unsigned_minus_1_eq_mask mask_eq_exp_minus_1)
    then show ?thesis using assms True by (simp add: mem_put_def)
  next
    case False
    then have "x - d \<noteq> 0" by simp
    then have "unat (x - d) = Suc (unat (x - (d + 1)))"
      by (metis Suc_diff_1 diff_diff_add unat_gt_0 unat_minus_one)
    then show ?thesis using False by (simp add: mem_put_def)
  qed
qed

lemma mem_put_snoc:
  assumes "length bs < 2 ^ 32" shows "mem_put (m(d + of_nat (length bs) := c)) d bs = mem_put m d (bs @ [c])"
proof
  fix x :: addr
  have "x = d + of_nat (length bs) \<longleftrightarrow> unat (x - d) = length bs"
  proof
    assume "unat (x - d) = length bs"
    then have "x - d = of_nat (length bs)" by (metis of_nat_unat ucast_id)
    then show "x = d + of_nat (length bs)" by (simp add: algebra_simps)
  qed (use assms in \<open>simp add: unat_of_nat_eq\<close>)
  then show "mem_put (m(d + of_nat (length bs) := c)) d bs x = mem_put m d (bs @ [c]) x"
    by (auto simp: mem_put_def nth_append)
qed

lemma mem_get_upd_apart:
  assumes "\<And>i. i < n \<Longrightarrow> a + of_nat i \<noteq> d" shows "mem_get (m(d := c)) a n = mem_get m a n"
  by (rule mem_get_eqI) (simp add: assms)

subsection \<open>Little-endian round trips\<close>

lemma length_to_le [simp]: "length (to_le n v) = n"
  by (induction n arbitrary: v) auto

lemma le_nat_bound: "le_nat bs < 256 ^ length bs"
proof (induction bs)
  case (Cons b bs)
  have "unat b < 256" using unat_lt2p [of b] by simp
  then show ?case using Cons by simp
qed simp

lemma le_nat_to_le: "le_nat (to_le n v) = v mod 256 ^ n"
proof (induction n arbitrary: v)
  case (Suc n)
  have "v mod (256 * 256 ^ n) = 256 * (v div 256 mod 256 ^ n) + v mod 256"
    by (rule mod_mult2_eq)
  then show ?case using Suc by (simp add: unat_of_nat)
qed simp

lemma to_le_le_nat: "to_le (length bs) (le_nat bs) = bs"
proof (induction bs)
  case (Cons b bs)
  have b: "unat b < 256" using unat_lt2p [of b] by simp
  then have "(unat b + 256 * le_nat bs) mod 256 = unat b"
    and "(unat b + 256 * le_nat bs) div 256 = le_nat bs"
    by simp_all
  then show ?case using Cons by simp
qed simp

lemma ld_st_same [mem_simps]:
  "ld16 (st16 m a v) a = v" "ld32 (st32 m a w) a = w" "ld64 (st64 m a z) a = z"
  using unat_lt2p [of v] unat_lt2p [of w] unat_lt2p [of z]
  by (simp_all add: ld16_def st16_def ld32_def st32_def ld64_def st64_def mem_get_put_same le_nat_to_le)

text \<open>Rewriting that evaluates loads and stores at concrete addresses.\<close>

lemma to_le_numeral: "to_le (numeral k) v = of_nat (v mod 256) # to_le (pred_numeral k) (v div 256)"
  by (subst numeral_eq_Suc [of k]) (rule to_le.simps(2))

lemma mem_get_numeral: "mem_get m a (numeral k) = m a # mem_get m (a + 1) (pred_numeral k)"
  by (subst numeral_eq_Suc [of k]) (rule mem_get_Suc)

lemma mem_put_upd: "length bs < 2 ^ 32 \<Longrightarrow> mem_put m d (c # bs) = mem_put (m(d := c)) (d + 1) bs"
  by (simp add: mem_put_Cons)

lemmas mem_eval = to_le_numeral mem_get_numeral mem_put_upd mem_get_Suc ld16_def ld32_def ld64_def
  st16_def st32_def st64_def

subsection \<open>Alignment\<close>

lemma and_mask_unat: "unat (w AND mask k) = unat (w::'a::len word) mod 2 ^ k"
  by (metis take_bit_eq_mask take_bit_eq_mod unsigned_take_bit_eq)

lemma and_not_mask_unat: "unat (w AND NOT (mask k)) = unat (w::'a::len word) div 2 ^ k * 2 ^ k"
proof -
  have "w = (w AND mask k) OR (w AND NOT (mask k))"
    by (simp add: bit.conj_disj_distrib [symmetric])
  moreover have "(w AND mask k) AND (w AND NOT (mask k)) = 0"
    by (simp add: word_bw_lcs word_bw_assocs)
  ultimately have "w = (w AND mask k) + (w AND NOT (mask k))"
    by (metis word_plus_and_or add.commute add.right_neutral)
  then have "w AND NOT (mask k) = w - (w AND mask k)"
    by (metis add_diff_cancel_left')
  moreover have "unat (w AND mask k) \<le> unat w" by (simp add: and_mask_unat)
  ultimately have "unat (w AND NOT (mask k)) = unat w - unat w mod 2 ^ k"
    by (simp add: unat_sub word_le_nat_alt and_mask_unat)
  then show ?thesis by (simp add: minus_mod_eq_div_mult)
qed

lemma unat_power2: "k < LENGTH('a) \<Longrightarrow> unat (2 ^ k :: 'a::len word) = 2 ^ k"
  by (metis of_nat_numeral of_nat_power power_strict_increasing_iff one_less_numeral_iff semiring_norm(76) unat_of_nat_eq)

lemma align_up_unat:
  assumes "k < LENGTH('a)" and "unat (a::'a::len word) + 2 ^ k \<le> 2 ^ LENGTH('a)"
  shows "unat (BL_MEMORY_ALIGN_UP a (2 ^ k)) = (unat a + 2 ^ k - 1) div 2 ^ k * 2 ^ k"
proof -
  have m: "(2 ^ k - 1 :: 'a word) = mask k" by (simp add: mask_eq_exp_minus_1)
  have "a + 2 ^ k - 1 = a + of_nat (2 ^ k - 1)" by simp
  moreover have "unat a + (2 ^ k - 1) < 2 ^ LENGTH('a)"
    using assms(2) zero_less_power [of "2::nat" k] by linarith
  ultimately have "unat (a + 2 ^ k - 1) = unat a + (2 ^ k - 1)"
    by (simp only: unat_add_lt)
  then show ?thesis
    by (simp add: BL_MEMORY_ALIGN_UP_def m and_not_mask_unat)
qed

lemma align_up_ge:
  assumes "k < LENGTH('a)" and "unat (a::'a::len word) + 2 ^ k \<le> 2 ^ LENGTH('a)"
  shows "unat a \<le> unat (BL_MEMORY_ALIGN_UP a (2 ^ k))"
    and "unat (BL_MEMORY_ALIGN_UP a (2 ^ k)) < unat a + 2 ^ k"
    and "2 ^ k dvd unat (BL_MEMORY_ALIGN_UP a (2 ^ k))"
proof -
  let ?p = "2 ^ k :: nat" and ?s = "unat a + 2 ^ k - 1"
  have p: "0 < ?p" by simp
  have s: "?s div ?p * ?p + ?s mod ?p = ?s" by (rule div_mult_mod_eq)
  have "?s mod ?p < ?p" using p by simp
  then show "unat a \<le> unat (BL_MEMORY_ALIGN_UP a (2 ^ k))"
    and "unat (BL_MEMORY_ALIGN_UP a (2 ^ k)) < unat a + 2 ^ k"
    unfolding align_up_unat [OF assms] using s p by linarith+
  show "2 ^ k dvd unat (BL_MEMORY_ALIGN_UP a (2 ^ k))"
    unfolding align_up_unat [OF assms] by simp
qed

text \<open>The C idiom \<open>n & (n - 1)\<close> is zero exactly on zero and the powers of two.\<close>

lemma and_pred_nat: "0 < n \<Longrightarrow> (n::nat) AND (n - 1) = 0 \<Longrightarrow> \<exists>k. n = 2 ^ k"
proof (induction n rule: less_induct)
  case (less n)
  show ?case
  proof (cases "odd n")
    case True
    then obtain q where q: "n = 2 * q + 1" by (elim oddE)
    have "n AND (n - 1) = 2 * (q AND q)" by (subst and_rec) (simp add: q)
    with less.prems have "n = 2 ^ 0" by (simp add: q)
    then show ?thesis ..
  next
    case False
    then obtain q where q: "n = 2 * q" using evenE by blast
    have "(n - 1) div 2 = q - 1" using q by simp
    then have "n AND (n - 1) = 2 * (q AND (q - 1))" by (subst and_rec) (simp add: q)
    moreover have "0 < q" "q < n" using less.prems(1) q by simp_all
    ultimately obtain k where "q = 2 ^ k" using less by force
    then have "n = 2 ^ Suc k" by (simp add: q)
    then show ?thesis ..
  qed
qed

lemma and_pred_power2:
  assumes "n \<noteq> 0" and "(n::'a::len word) AND (n - 1) = 0"
  shows "\<exists>k < LENGTH('a). n = 2 ^ k"
proof -
  have "unat n AND (unat n - 1) = 0"
    using assms by (metis unsigned_and_eq unat_minus_one unsigned_0)
  then obtain k where k: "unat n = 2 ^ k"
    using and_pred_nat assms(1) unat_gt_0 by blast
  then have "k < LENGTH('a)" using unat_lt2p [of n] by simp
  moreover from this have "n = 2 ^ k" using k by (metis unat_power2 word_unat_eq_iff)
  ultimately show ?thesis by blast
qed

lemma power2_and_pred: "k < LENGTH('a) \<Longrightarrow> (2 ^ k :: 'a::len word) AND (2 ^ k - 1) = 0"
  by (rule bit_word_eqI) (auto simp: bit_simps mask_eq_exp_minus_1 [symmetric])

lemma aligned_test: "k < LENGTH('a) \<Longrightarrow> (a::'a::len word) AND (2 ^ k - 1) = 0 \<longleftrightarrow> 2 ^ k dvd unat a"
  by (simp add: mask_eq_exp_minus_1 [symmetric] and_mask_dvd_nat)

lemma ld_put_apart [mem_simps]:
  "apart a (length bs) b 2 \<Longrightarrow> fits a (length bs) \<Longrightarrow> fits b 2 \<Longrightarrow> ld16 (mem_put m a bs) b = ld16 m b"
  "apart a (length bs) b 4 \<Longrightarrow> fits a (length bs) \<Longrightarrow> fits b 4 \<Longrightarrow> ld32 (mem_put m a bs) b = ld32 m b"
  "apart a (length bs) b 8 \<Longrightarrow> fits a (length bs) \<Longrightarrow> fits b 8 \<Longrightarrow> ld64 (mem_put m a bs) b = ld64 m b"
  by (simp_all add: ld16_def ld32_def ld64_def mem_get_put_apart)

lemma power2_nonzero: "k < LENGTH('a) \<Longrightarrow> (2 ^ k :: 'a::len word) \<noteq> 0"
  by (metis unat_power2 unsigned_0 power_not_zero zero_neq_numeral)

lemma unat_countdown: "n \<noteq> 1 \<Longrightarrow> unat (n - 2) < unat (n - 1 :: 'a::len word)"
  using measure_unat [of "n - 1"] by simp

lemma unat_Suc_less: "i < n \<Longrightarrow> unat (i + 1 :: 'a::len word) = unat i + 1"
  using unat_add_lt [of i 1] unat_lt2p [of n] by (simp add: word_less_nat_alt)

lemma unat_countup: "i < n \<Longrightarrow> unat n - unat (i + 1 :: 'a::len word) < unat n - unat i"
  by (simp add: unat_Suc_less word_less_nat_alt)

subsection \<open>Byte order\<close>

lemma nth_to_le: "i < n \<Longrightarrow> to_le n v ! i = of_nat (v div 256 ^ i)"
proof (induction n arbitrary: i v)
  case (Suc n)
  then show ?case
    by (cases i) (auto simp: div_mult2_eq word_unat_eq_iff unat_of_nat)
qed simp

lemma nth_to_le_word: "i < n \<Longrightarrow> to_le n (unat w) ! i = ucast (drop_bit (8 * i) w)"
proof -
  assume i: "i < n"
  have "unat (drop_bit (8 * i) w) = unat w div 256 ^ i"
    by (simp only: unat_drop_bit_eq) (simp add: drop_bit_eq_div power_mult)
  then show ?thesis
    using i by (metis nth_to_le of_nat_unat)
qed

lemma byte_mask:
  "(0xff :: u16) = mask 8" "(0xff :: u32) = mask 8" "(0xff :: u64) = mask 8"
  by (simp_all add: mask_eq_exp_minus_1)

lemma bytes_swap16_bytes: "to_le 2 (unat (bytes_swap16 v)) = rev (to_le 2 (unat v))"
proof (rule nth_equalityI)
  fix i assume "i < length (to_le 2 (unat (bytes_swap16 v)))"
  then have "i = 0 \<or> i = 1" by auto
  then show "to_le 2 (unat (bytes_swap16 v)) ! i = rev (to_le 2 (unat v)) ! i"
    by (elim disjE) (auto simp: rev_nth nth_to_le_word bytes_swap16_def byte_mask bit_simps intro!: bit_word_eqI)
qed simp

lemma bytes_swap32_bytes: "to_le 4 (unat (bytes_swap32 v)) = rev (to_le 4 (unat v))"
proof (rule nth_equalityI)
  fix i assume "i < length (to_le 4 (unat (bytes_swap32 v)))"
  then have "i = 0 \<or> i = 1 \<or> i = 2 \<or> i = 3" by auto
  then show "to_le 4 (unat (bytes_swap32 v)) ! i = rev (to_le 4 (unat v)) ! i"
    by (elim disjE) (auto simp: rev_nth nth_to_le_word bytes_swap32_def byte_mask bit_simps intro!: bit_word_eqI)
qed simp

lemma to_le_eqD:
  fixes a b :: "'a :: len word"
  assumes "to_le n (unat a) = to_le n (unat b)" "LENGTH('a) = 8 * n"
  shows "a = b"
proof -
  have e: "(256 :: nat) ^ n = 2 ^ LENGTH('a)" by (simp add: assms(2) power_mult)
  have "unat a mod 256 ^ n = unat b mod 256 ^ n" using arg_cong [OF assms(1), of le_nat] by (simp only: le_nat_to_le)
  then show ?thesis using unat_lt2p [of a] unat_lt2p [of b] by (simp add: e word_unat_eq_iff)
qed

end
