(* ===== verification/Bl_Utils.thy ===== *)
theory Bl_Utils
  imports Bl_Prelude
begin

text \<open>
  Arithmetic helpers of src/boot-loader/core/utils: the 64-bit restoring division of
  divmod64.c, used because the i386 build links no \<open>__udivdi3\<close>, and the exact base-2
  logarithm of log2.c, used to turn divisions by sector and cluster sizes into shifts.
  \<open>bl_divmod64_correct\<close> shows that the shift-and-subtract loop is unsigned division for
  every non-zero divisor, and \<open>bl_log2_iff\<close> and \<open>bl_log2_neg\<close> give the results of the
  logarithm on every input.
\<close>

unbundle bit_operations_syntax

text \<open>\<open>for (i = 0; i < 64; i++)\<close> of bl_divmod64; the first argument counts the rounds left.\<close>

fun bl_divmod64_loop :: "nat \<Rightarrow> u64 \<Rightarrow> u64 \<Rightarrow> u64 \<Rightarrow> u64 \<Rightarrow> u64 \<times> u64" where
  "bl_divmod64_loop 0 n d q r = (q, r)"
| "bl_divmod64_loop (Suc i) n d q r =
     (let r1 = push_bit 1 r;
          r2 = (if n AND push_bit 63 1 \<noteq> 0 then r1 OR 1 else r1);
          q1 = push_bit 1 q;
          n1 = push_bit 1 n
      in if r2 \<ge> d then bl_divmod64_loop i n1 d (q1 OR 1) (r2 - d)
         else bl_divmod64_loop i n1 d q1 r2)"

text \<open>
  The results are stored through \<open>q\<close> and \<open>r\<close> when these are not NULL; the model returns
  the pair of values.
\<close>

definition bl_divmod64 :: "u64 \<Rightarrow> u64 \<Rightarrow> u64 \<times> u64" where
  "bl_divmod64 n d = bl_divmod64_loop 64 n d 0 0"

text \<open>
  \<open>for (i = 0; (n & 1) == 0; i++) n >>= 1\<close>. The loop is entered with \<open>n \<noteq> 0\<close> only and a
  non-zero even number stays non-zero when halved, so the conjunct \<open>n \<noteq> 0\<close> of the guard is
  always true; it gives the recursion its termination argument.
\<close>

function bl_log2_loop :: "u32 \<Rightarrow> int \<Rightarrow> int" where
  "bl_log2_loop n i = (if n \<noteq> 0 \<and> n AND 1 = 0 then bl_log2_loop (drop_bit 1 n) (i + 1) else i)"
  by pat_completeness auto
termination
proof (relation "measure (\<lambda>(n, i). unat n)")
  fix n :: u32 and i :: int
  assume "n \<noteq> 0 \<and> n AND 1 = 0"
  then have "0 < unat n" by (simp add: unat_gt_0)
  then show "((drop_bit 1 n, i + 1), n, i) \<in> measure (\<lambda>(n, i). unat n)"
    by (simp add: drop_bit_Suc unat_div)
qed simp
declare bl_log2_loop.simps [simp del]

definition bl_log2 :: "u32 \<Rightarrow> int" where
  "bl_log2 n = (if n = 0 then -1 else if n AND (n - 1) \<noteq> 0 then -1 else bl_log2_loop n 0)"

text \<open>The remainder register after shifting in the top bit of the numerator.\<close>

definition rem_shift :: "u64 \<Rightarrow> u64 \<Rightarrow> u64" where
  "rem_shift n r = (if n AND push_bit 63 1 \<noteq> 0 then push_bit 1 r OR 1 else push_bit 1 r)"

lemma bl_divmod64_loop_Suc:
  "bl_divmod64_loop (Suc i) n d q r =
     (if d \<le> rem_shift n r
      then bl_divmod64_loop i (push_bit 1 n) d (push_bit 1 q OR 1) (rem_shift n r - d)
      else bl_divmod64_loop i (push_bit 1 n) d (push_bit 1 q) (rem_shift n r))"
  by (simp add: Let_def rem_shift_def)

declare bl_divmod64_loop.simps(2) [simp del]

lemma unat_shl1: "unat (push_bit 1 (w::u64)) = (2 * unat w) mod 2 ^ 64"
  by (simp add: unat_word_ariths mult.commute)

lemma unat_or1_even: "even (unat w) \<Longrightarrow> unat (w OR 1 :: u64) = unat w + 1"
  unfolding unsigned_or_eq unsigned_1 by (simp add: or_Suc_0_eq)

lemma top_bit: "(n AND push_bit 63 1 \<noteq> 0) \<longleftrightarrow> 2 ^ 63 \<le> unat (n :: u64)"
proof -
  have "(n AND push_bit 63 1 \<noteq> 0) \<longleftrightarrow> bit n 63"
    by (simp only: push_bit_of_1 and_exp_eq_0_iff_not_bit not_not)
  also have "\<dots> \<longleftrightarrow> bit (unat n) 63"
    by (simp add: bit_unsigned_iff)
  also have "\<dots> \<longleftrightarrow> odd (unat n div 2 ^ 63)"
    by (rule bit_iff_odd)
  also have "\<dots> \<longleftrightarrow> 2 ^ 63 \<le> unat n"
  proof -
    have "unat n < 2 ^ 64" using unat_lt2p [of n] by simp
    then have "unat n div 2 ^ 63 = (if 2 ^ 63 \<le> unat n then 1 else 0)"
      by (auto simp: div_nat_eqI)
    then show ?thesis by simp
  qed
  finally show ?thesis .
qed

text \<open>Restoring division: one step of the schoolbook algorithm on naturals.\<close>

lemma divmod_step:
  assumes "d \<noteq> (0::nat)" "N = Q * d + R" "R < d"
  shows "2 * R + b \<ge> d \<Longrightarrow> b \<le> 1 \<Longrightarrow> 2 * N + b = (2 * Q + 1) * d + (2 * R + b - d) \<and> 2 * R + b - d < d"
    and "2 * R + b < d \<Longrightarrow> 2 * N + b = (2 * Q) * d + (2 * R + b)"
  using assms by (auto simp: algebra_simps)

definition top_digit :: "u64 \<Rightarrow> nat" where
  "top_digit n = (if 2 ^ 63 \<le> unat n then 1 else 0)"

lemma top_digit_le: "top_digit n \<le> 1"
  by (simp add: top_digit_def)

text \<open>Shifting the numerator moves its top digit into the partial value.\<close>

lemma shift_in:
  assumes "Suc k \<le> 64"
  shows "N * 2 ^ Suc k + unat n div 2 ^ (64 - Suc k) =
    (2 * N + top_digit n) * 2 ^ k + unat (push_bit 1 n) div 2 ^ (64 - k)"
proof -
  define b where "b = top_digit n"
  define low where "low = unat n - b * 2 ^ 63"
  have n: "unat n = b * 2 ^ 63 + low" and low: "low < 2 ^ 63"
    using unat_lt2p [of n] by (auto simp: b_def low_def top_digit_def)
  have n1: "unat (push_bit 1 n) = 2 * low"
    unfolding unat_shl1 n using low top_digit_le [of n] by (cases b) (auto simp: b_def)
  have e: "(2::nat) ^ 63 = 2 ^ k * 2 ^ (63 - k)" using assms by (simp flip: power_add)
  have "unat n div 2 ^ (63 - k) = (low + 2 ^ (63 - k) * (b * 2 ^ k)) div 2 ^ (63 - k)"
    unfolding n e by (simp add: algebra_simps)
  also have "\<dots> = b * 2 ^ k + low div 2 ^ (63 - k)"
    by (subst div_mult_self2) auto
  finally have a: "unat n div 2 ^ (63 - k) = b * 2 ^ k + low div 2 ^ (63 - k)" .
  have "64 - k = Suc (63 - k)" using assms by simp
  then have "2 * low div 2 ^ (64 - k) = low div 2 ^ (63 - k)" by simp
  then show ?thesis unfolding n1 b_def [symmetric] using a by (simp add: algebra_simps)
qed

lemma unat_rem_shift:
  assumes "2 * unat (r::u64) + top_digit n < 2 ^ 64"
  shows "unat (rem_shift n r) = 2 * unat r + top_digit n"
proof -
  have r1: "unat (push_bit 1 r) = 2 * unat r"
    unfolding unat_shl1 using assms by simp
  then have "unat (push_bit 1 r OR 1) = 2 * unat r + 1"
    using unat_or1_even [of "push_bit 1 r"] by simp
  then show ?thesis unfolding rem_shift_def top_bit top_digit_def using r1 by auto
qed

lemma bl_divmod64_loop_correct:
  assumes "k \<le> 64" "d \<noteq> 0" "N = unat q * unat d + unat r" "unat r < unat d"
    and "N * 2 ^ k + unat n div 2 ^ (64 - k) < 2 ^ 64"
  shows "bl_divmod64_loop k n d q r =
    (of_nat ((N * 2 ^ k + unat n div 2 ^ (64 - k)) div unat d),
     of_nat ((N * 2 ^ k + unat n div 2 ^ (64 - k)) mod unat d))"
  using assms
proof (induction k arbitrary: n q r N)
  case 0
  have "unat n div 2 ^ 64 = 0" using unat_lt2p [of n] by simp
  then show ?case using 0 by simp
next
  case (Suc k)
  define b where "b = top_digit n"
  let ?N = "2 * N + b"
  let ?T = "N * 2 ^ Suc k + unat n div 2 ^ (64 - Suc k)"
  have T: "?T = ?N * 2 ^ k + unat (push_bit 1 n) div 2 ^ (64 - k)"
    unfolding b_def by (rule shift_in) (rule Suc.prems)
  have Nlt: "?N < 2 ^ 64"
  proof -
    have "?N \<le> ?N * 2 ^ k" by simp
    then show ?thesis using Suc.prems(5) T by linarith
  qed
  define r2 where "r2 = rem_shift n r"
  have rN: "unat r \<le> N" using Suc.prems(3) by simp
  have r2: "unat r2 = 2 * unat r + b"
    unfolding r2_def b_def by (rule unat_rem_shift) (use rN Nlt in \<open>simp add: b_def\<close>)
  have qN: "unat q \<le> N"
  proof -
    have "0 < unat d" using Suc.prems(2) by (simp add: unat_gt_0)
    then have "unat q \<le> unat q * unat d" by simp
    then show ?thesis using Suc.prems(3) by linarith
  qed
  have q1: "unat (push_bit 1 q) = 2 * unat q"
    unfolding unat_shl1 using qN Nlt by simp
  have dn: "unat d \<noteq> 0" using Suc.prems(2) by (simp add: unat_eq_0)
  note step = divmod_step [OF dn Suc.prems(3,4), of b]
  have lim: "?N * 2 ^ k + unat (push_bit 1 n) div 2 ^ (64 - k) < 2 ^ 64"
    using Suc.prems(5) T by simp
  show ?case
  proof (cases "d \<le> r2")
    case True
    then have ge: "unat d \<le> 2 * unat r + b" using r2 by (simp add: word_le_nat_alt)
    have b1: "b \<le> 1" unfolding b_def by (rule top_digit_le)
    have "unat (push_bit 1 q OR 1) = 2 * unat q + 1"
      using unat_or1_even [of "push_bit 1 q"] q1 by simp
    moreover have "unat (r2 - d) = 2 * unat r + b - unat d"
      using True r2 by (simp add: unat_sub)
    ultimately have "bl_divmod64_loop k (push_bit 1 n) d (push_bit 1 q OR 1) (r2 - d) =
      (of_nat ((?N * 2 ^ k + unat (push_bit 1 n) div 2 ^ (64 - k)) div unat d),
       of_nat ((?N * 2 ^ k + unat (push_bit 1 n) div 2 ^ (64 - k)) mod unat d))"
      using Suc.prems step(1) [OF ge b1] lim by (intro Suc.IH) simp_all
    then show ?thesis using True unfolding T bl_divmod64_loop_Suc r2_def by (simp only: if_True simp_thms)
  next
    case False
    then have lt: "2 * unat r + b < unat d" using r2 by (simp add: word_le_nat_alt)
    have "bl_divmod64_loop k (push_bit 1 n) d (push_bit 1 q) r2 =
      (of_nat ((?N * 2 ^ k + unat (push_bit 1 n) div 2 ^ (64 - k)) div unat d),
       of_nat ((?N * 2 ^ k + unat (push_bit 1 n) div 2 ^ (64 - k)) mod unat d))"
      using Suc.prems step(2) [OF lt] lim lt q1 r2 by (intro Suc.IH) simp_all
    then show ?thesis using False unfolding T bl_divmod64_loop_Suc r2_def by (simp only: if_False simp_thms)
  qed
qed
lemma bl_divmod64_correct: "d \<noteq> 0 \<Longrightarrow> bl_divmod64 n d = (n div d, n mod d)"
  using bl_divmod64_loop_correct [of 64 d 0 0 0 n] unat_lt2p [of n]
  by (simp add: bl_divmod64_def word_arith_nat_div word_arith_nat_mod unat_gt_0)


lemma bl_divmod64_loop_zero:
  assumes "k \<le> 64" "unat q = 2 ^ (64 - k) - 1" "unat r * 2 ^ k + unat n div 2 ^ (64 - k) < 2 ^ 64"
  shows "bl_divmod64_loop k n 0 q r = (-1, of_nat (unat r * 2 ^ k + unat n div 2 ^ (64 - k)))"
  using assms
proof (induction k arbitrary: n q r)
  case 0
  have "unat n div 2 ^ 64 = 0" using unat_lt2p [of n] by simp
  moreover have "q = -1" using 0 by (simp add: word_unat_eq_iff unsigned_minus_1_eq_mask mask_eq_exp_minus_1)
  ultimately show ?case using 0 by simp
next
  case (Suc k)
  define r2 where "r2 = rem_shift n r"
  have T: "unat r * 2 ^ Suc k + unat n div 2 ^ (64 - Suc k) =
    (2 * unat r + top_digit n) * 2 ^ k + unat (push_bit 1 n) div 2 ^ (64 - k)"
    by (rule shift_in) (rule Suc.prems)
  have "2 * unat r + top_digit n \<le> (2 * unat r + top_digit n) * 2 ^ k" by simp
  then have "2 * unat r + top_digit n < 2 ^ 64" using Suc.prems(3) T by linarith
  then have r2: "unat r2 = 2 * unat r + top_digit n" unfolding r2_def by (rule unat_rem_shift)
  have e: "(2::nat) ^ (64 - k) = 2 * 2 ^ (64 - Suc k)"
    using Suc.prems(1) by (simp add: Suc_diff_le flip: power_Suc)
  have "(2::nat) ^ (64 - Suc k) \<le> 2 ^ 63" using Suc.prems(1) by (intro power_increasing) simp_all
  then have "2 * unat q < 2 ^ 64" using Suc.prems(2) by simp
  then have "unat (push_bit 1 q) = 2 * unat q" unfolding unat_shl1 by simp
  then have "unat (push_bit 1 q OR 1) = 2 * unat q + 1"
    using unat_or1_even [of "push_bit 1 q"] by simp
  also have "\<dots> = 2 ^ (64 - k) - 1"
    using Suc.prems(2) one_le_power [of "2::nat" "64 - Suc k"] unfolding e by linarith
  finally have "bl_divmod64_loop k (push_bit 1 n) 0 (push_bit 1 q OR 1) r2 =
    (-1, of_nat (unat r2 * 2 ^ k + unat (push_bit 1 n) div 2 ^ (64 - k)))"
    using Suc.prems(1,3) T r2 by (intro Suc.IH) simp_all
  then show ?case unfolding T r2 [symmetric] bl_divmod64_loop_Suc r2_def [symmetric] by (simp only: word_zero_le if_True simp_thms diff_zero)
qed

lemma bl_divmod64_zero: "bl_divmod64 n 0 = (-1, n)"
  using bl_divmod64_loop_zero [of 64 0 0 n] unat_lt2p [of n] by (simp add: bl_divmod64_def)

lemma bl_log2_loop_power2: "k < 32 \<Longrightarrow> bl_log2_loop (2 ^ k) i = i + int k"
proof (induction k arbitrary: i)
  case 0
  then show ?case by (simp add: bl_log2_loop.simps)
next
  case (Suc k)
  have "drop_bit 1 (2 ^ Suc k :: u32) = 2 ^ k"
    using Suc.prems by (intro bit_word_eqI) (auto simp: bit_simps)
  moreover have "(2 ^ Suc k :: u32) AND 1 = 0" by (rule bit_word_eqI) (auto simp: bit_simps)
  moreover have "(2 ^ Suc k :: u32) \<noteq> 0" using Suc.prems by (simp add: power2_nonzero del: power_Suc)
  ultimately show ?case using Suc by (subst bl_log2_loop.simps) simp
qed

lemma bl_log2_power2: "k < 32 \<Longrightarrow> bl_log2 (2 ^ k) = int k"
proof -
  assume k: "k < 32"
  then have "(2 ^ k :: u32) \<noteq> 0" by (simp add: power2_nonzero del: power_Suc)
  then show ?thesis
    using k power2_and_pred [of k, where ?'a = 32] bl_log2_loop_power2 [OF k]
    by (simp add: bl_log2_def)
qed

lemma bl_log2_iff: "bl_log2 n = int k \<longleftrightarrow> k < 32 \<and> n = 2 ^ k"
proof
  assume l: "bl_log2 n = int k"
  then have "n \<noteq> 0" "n AND (n - 1) = 0" by (auto simp: bl_log2_def split: if_splits)
  then obtain j where "j < 32" "n = 2 ^ j" using and_pred_power2 [of n] by force
  with l bl_log2_power2 [of j] show "k < 32 \<and> n = 2 ^ k" by simp
qed (auto simp: bl_log2_power2)

lemma bl_log2_neg: "bl_log2 n = -1 \<longleftrightarrow> (\<forall>k<32. n \<noteq> 2 ^ k)"
proof (cases "\<exists>k<32. n = 2 ^ k")
  case True
  then show ?thesis using bl_log2_power2 by auto
next
  case False
  then show ?thesis
    using and_pred_power2 [of n] by (auto simp: bl_log2_def)
qed

end
