(* ===== verification/Bl_String.thy ===== *)
theory Bl_String
  imports Bl_Utils
begin

text \<open>
  The freestanding C library of src/boot-loader/core/utils/string.c, over the flat memory:
  string copies and comparisons, memory copies, length, search, case conversion. The
  functions that allocate (bl_strdup, bl_strndup) and the tokenizer bl_strtok, which keeps
  a static pointer, are in the theory on tokens, after the heap.

  A \<open>char\<close> is signed on i386, so a character difference is computed on \<^const>\<open>sint\<close>. A loop
  that scans memory for a NUL byte may run forever when there is none: such a function has
  an option result. A loop that also counts a \<open>bl_size_t\<close> down always stops and is total.
\<close>

unbundle bit_operations_syntax

subsection \<open>Copies\<close>

partial_function (option) bl_strcpy_loop :: "mem \<Rightarrow> addr \<Rightarrow> addr \<Rightarrow> mem option" where
  "bl_strcpy_loop m dest src =
     (let c = m src; m' = m(dest := c)
      in if c \<noteq> 0 then bl_strcpy_loop m' (dest + 1) (src + 1) else Some m')"

definition bl_strcpy :: "mem \<Rightarrow> addr \<Rightarrow> addr \<Rightarrow> (addr \<times> mem) option" where
  "bl_strcpy m dest src =
     (if dest = 0 \<or> src = 0 then Some (0, m)
      else map_option (\<lambda>m'. (dest, m')) (bl_strcpy_loop m dest src))"

function bl_strncpy_loop :: "mem \<Rightarrow> addr \<Rightarrow> addr \<Rightarrow> u32 \<Rightarrow> mem" where
  "bl_strncpy_loop m dest src n =
     (let c = m src; m' = m(dest := c)
      in if c \<noteq> 0 \<and> n - 1 \<noteq> 0 then bl_strncpy_loop m' (dest + 1) (src + 1) (n - 1) else m')"
  by pat_completeness auto
termination
  by (relation "measure (\<lambda>(m, dest, src, n). unat (n - 1))") (auto intro: measure_unat unat_countdown)

definition bl_strncpy :: "mem \<Rightarrow> addr \<Rightarrow> addr \<Rightarrow> u32 \<Rightarrow> addr \<times> mem" where
  "bl_strncpy m dest src n =
     (if dest = 0 \<or> src = 0 then (0, m) else (dest, bl_strncpy_loop m dest src n))"

subsection \<open>Comparisons\<close>

text \<open>The NULL checks shared by the comparison functions.\<close>

definition null_order :: "addr \<Rightarrow> addr \<Rightarrow> int option" where
  "null_order s1 s2 =
     (if s1 = 0 \<and> s2 = 0 then Some 0 else if s1 = 0 then Some (-1) else if s2 = 0 then Some 1 else None)"

partial_function (option) bl_strcmp_loop :: "mem \<Rightarrow> addr \<Rightarrow> addr \<Rightarrow> int option" where
  "bl_strcmp_loop m s1 s2 =
     (if m s1 = m s2 \<and> m s1 \<noteq> 0 \<and> m s2 \<noteq> 0 then bl_strcmp_loop m (s1 + 1) (s2 + 1)
      else Some (sint (m s1) - sint (m s2)))"

definition bl_strcmp :: "mem \<Rightarrow> addr \<Rightarrow> addr \<Rightarrow> int option" where
  "bl_strcmp m s1 s2 =
     (case null_order s1 s2 of Some r \<Rightarrow> Some r | None \<Rightarrow> bl_strcmp_loop m s1 s2)"

partial_function (option) bl_wcscmp_loop :: "mem \<Rightarrow> addr \<Rightarrow> addr \<Rightarrow> int option" where
  "bl_wcscmp_loop m s1 s2 =
     (if ld16 m s1 = ld16 m s2 \<and> ld16 m s1 \<noteq> 0 \<and> ld16 m s2 \<noteq> 0 then bl_wcscmp_loop m (s1 + 2) (s2 + 2)
      else Some (uint (ld16 m s1) - uint (ld16 m s2)))"

definition bl_wcscmp :: "mem \<Rightarrow> addr \<Rightarrow> addr \<Rightarrow> int option" where
  "bl_wcscmp m s1 s2 =
     (case null_order s1 s2 of Some r \<Rightarrow> Some r | None \<Rightarrow> bl_wcscmp_loop m s1 s2)"

function bl_strncmp_loop :: "mem \<Rightarrow> addr \<Rightarrow> addr \<Rightarrow> u32 \<Rightarrow> int" where
  "bl_strncmp_loop m s1 s2 n =
     (if m s1 = m s2 \<and> m s1 \<noteq> 0 \<and> m s2 \<noteq> 0 \<and> n - 1 \<noteq> 0
      then bl_strncmp_loop m (s1 + 1) (s2 + 1) (n - 1)
      else sint (m s1) - sint (m s2))"
  by pat_completeness auto
termination
  by (relation "measure (\<lambda>(m, s1, s2, n). unat (n - 1))") (auto intro: measure_unat unat_countdown)

text \<open>In bl_strncmp and its kin a zero length is tested together with two NULL pointers.\<close>

definition bl_strncmp :: "mem \<Rightarrow> addr \<Rightarrow> addr \<Rightarrow> u32 \<Rightarrow> int" where
  "bl_strncmp m s1 s2 n =
     (if n = 0 then 0
      else case null_order s1 s2 of Some r \<Rightarrow> r | None \<Rightarrow> bl_strncmp_loop m s1 s2 n)"

function bl_wcsncmp_loop :: "mem \<Rightarrow> addr \<Rightarrow> addr \<Rightarrow> u32 \<Rightarrow> int" where
  "bl_wcsncmp_loop m s1 s2 n =
     (if ld16 m s1 = ld16 m s2 \<and> ld16 m s1 \<noteq> 0 \<and> ld16 m s2 \<noteq> 0 \<and> n - 1 \<noteq> 0
      then bl_wcsncmp_loop m (s1 + 2) (s2 + 2) (n - 1)
      else uint (ld16 m s1) - uint (ld16 m s2))"
  by pat_completeness auto
termination
  by (relation "measure (\<lambda>(m, s1, s2, n). unat (n - 1))") (auto intro: measure_unat unat_countdown)

definition bl_wcsncmp :: "mem \<Rightarrow> addr \<Rightarrow> addr \<Rightarrow> u32 \<Rightarrow> int" where
  "bl_wcsncmp m s1 s2 n =
     (if n = 0 then 0
      else case null_order s1 s2 of Some r \<Rightarrow> r | None \<Rightarrow> bl_wcsncmp_loop m s1 s2 n)"

definition bl_toupper :: "int \<Rightarrow> int" where
  "bl_toupper c = (if c \<ge> 97 \<and> c \<le> 122 then c - 0x20 else c)"

definition bl_tolower :: "int \<Rightarrow> int" where
  "bl_tolower c = (if c \<ge> 65 \<and> c \<le> 90 then c + 0x20 else c)"

partial_function (option) bl_strcasecmp_loop :: "mem \<Rightarrow> addr \<Rightarrow> addr \<Rightarrow> int option" where
  "bl_strcasecmp_loop m s1 s2 =
     (if bl_tolower (sint (m s1)) = bl_tolower (sint (m s2)) \<and> m s1 \<noteq> 0 \<and> m s2 \<noteq> 0
      then bl_strcasecmp_loop m (s1 + 1) (s2 + 1)
      else Some (sint (m s1) - sint (m s2)))"

definition bl_strcasecmp :: "mem \<Rightarrow> addr \<Rightarrow> addr \<Rightarrow> int option" where
  "bl_strcasecmp m s1 s2 =
     (case null_order s1 s2 of Some r \<Rightarrow> Some r | None \<Rightarrow> bl_strcasecmp_loop m s1 s2)"

function bl_strncasecmp_loop :: "mem \<Rightarrow> addr \<Rightarrow> addr \<Rightarrow> u32 \<Rightarrow> int" where
  "bl_strncasecmp_loop m s1 s2 n =
     (if bl_tolower (sint (m s1)) = bl_tolower (sint (m s2)) \<and> m s1 \<noteq> 0 \<and> m s2 \<noteq> 0 \<and> n - 1 \<noteq> 0
      then bl_strncasecmp_loop m (s1 + 1) (s2 + 1) (n - 1)
      else sint (m s1) - sint (m s2))"
  by pat_completeness auto
termination
  by (relation "measure (\<lambda>(m, s1, s2, n). unat (n - 1))") (auto intro: measure_unat unat_countdown)

definition bl_strncasecmp :: "mem \<Rightarrow> addr \<Rightarrow> addr \<Rightarrow> u32 \<Rightarrow> int" where
  "bl_strncasecmp m s1 s2 n =
     (if n = 0 then 0
      else case null_order s1 s2 of Some r \<Rightarrow> r | None \<Rightarrow> bl_strncasecmp_loop m s1 s2 n)"

subsection \<open>Memory blocks\<close>

text \<open>\<open>while (--n) *d++ = c;\<close> decrements before the test.\<close>

function bl_memset_loop :: "mem \<Rightarrow> addr \<Rightarrow> u8 \<Rightarrow> u32 \<Rightarrow> mem" where
  "bl_memset_loop m d c n =
     (if n - 1 \<noteq> 0 then bl_memset_loop (m(d := c)) (d + 1) c (n - 1) else m)"
  by pat_completeness auto
termination
  by (relation "measure (\<lambda>(m, d, c, n). unat (n - 1))") (auto intro: measure_unat unat_countdown)

definition bl_memset :: "mem \<Rightarrow> addr \<Rightarrow> u8 \<Rightarrow> u32 \<Rightarrow> addr \<times> mem" where
  "bl_memset m s c n = (if s = 0 then (0, m) else (s, bl_memset_loop m s c n))"

function bl_memcpy_up :: "mem \<Rightarrow> addr \<Rightarrow> addr \<Rightarrow> u32 \<Rightarrow> mem" where
  "bl_memcpy_up m d s n =
     (if n \<noteq> 0 then bl_memcpy_up (m(d := m s)) (d + 1) (s + 1) (n - 1) else m)"
  by pat_completeness auto
termination
  by (relation "measure (\<lambda>(m, d, s, n). unat n)") (auto intro: measure_unat unat_countdown)

function bl_memcpy_down :: "mem \<Rightarrow> addr \<Rightarrow> addr \<Rightarrow> u32 \<Rightarrow> mem" where
  "bl_memcpy_down m d s n =
     (if n \<noteq> 0 then bl_memcpy_down (m(d - 1 := m (s - 1))) (d - 1) (s - 1) (n - 1) else m)"
  by pat_completeness auto
termination
  by (relation "measure (\<lambda>(m, d, s, n). unat n)") (auto intro: measure_unat unat_countdown)

definition bl_memcpy :: "mem \<Rightarrow> addr \<Rightarrow> addr \<Rightarrow> u32 \<Rightarrow> addr \<times> mem" where
  "bl_memcpy m dest src n =
     (if dest = 0 \<or> src = 0 then (0, m)
      else if src > dest then (dest, bl_memcpy_up m dest src n)
      else (dest, bl_memcpy_down m (dest + n) (src + n) n))"

function bl_memcmp_loop :: "mem \<Rightarrow> addr \<Rightarrow> addr \<Rightarrow> u32 \<Rightarrow> u32 \<Rightarrow> int" where
  "bl_memcmp_loop m m1 m2 i n =
     (if i < n then
        (if m m1 < m m2 then -1 else if m m1 > m m2 then 1
         else bl_memcmp_loop m (m1 + 1) (m2 + 1) (i + 1) n)
      else 0)"
  by pat_completeness auto
termination
  by (relation "measure (\<lambda>(m, m1, m2, i, n). unat n - unat i)") (auto intro: unat_countup)

definition bl_memcmp :: "mem \<Rightarrow> addr \<Rightarrow> addr \<Rightarrow> u32 \<Rightarrow> int" where
  "bl_memcmp m m1 m2 n = bl_memcmp_loop m m1 m2 0 n"

subsection \<open>Lengths, search and case conversion\<close>

partial_function (option) bl_strlen_loop :: "mem \<Rightarrow> addr \<Rightarrow> u32 \<Rightarrow> u32 option" where
  "bl_strlen_loop m s len =
     (if m (s + len) \<noteq> 0 then bl_strlen_loop m s (len + 1) else Some len)"

definition bl_strlen :: "mem \<Rightarrow> addr \<Rightarrow> u32 option" where
  "bl_strlen m s = (if s = 0 then Some 0 else bl_strlen_loop m s 0)"

function bl_strnlen_loop :: "mem \<Rightarrow> addr \<Rightarrow> u32 \<Rightarrow> u32 \<Rightarrow> u32" where
  "bl_strnlen_loop m s maxlen len =
     (if m (s + len) \<noteq> 0
      then (if len + 1 = maxlen then maxlen else bl_strnlen_loop m s maxlen (len + 1))
      else len)"
  by pat_completeness auto
termination
proof (relation "measure (\<lambda>(m, s, maxlen, len). unat (maxlen - len - 1))")
  fix maxlen len :: u32
  assume "len + 1 \<noteq> maxlen"
  then have "maxlen - len - 1 \<noteq> 0" by (simp add: algebra_simps)
  then have "unat (maxlen - len - 1 - 1) < unat (maxlen - len - 1)" by (rule measure_unat)
  then show "\<And>m s. ((m, s, maxlen, len + 1), m, s, maxlen, len)
      \<in> measure (\<lambda>(m, s, maxlen, len). unat (maxlen - len - 1))"
    by (simp add: algebra_simps)
qed simp

definition bl_strnlen :: "mem \<Rightarrow> addr \<Rightarrow> u32 \<Rightarrow> u32" where
  "bl_strnlen m s maxlen = (if s = 0 then 0 else bl_strnlen_loop m s maxlen 0)"

text \<open>
  \<open>bl_strchr\<close> compares \<open>s[i]\<close>, a signed char, with the int \<open>c\<close>; the index \<open>i\<close> is an int
  added to the pointer, so the address is \<open>s + i\<close>.
\<close>

partial_function (option) bl_strchr_loop :: "mem \<Rightarrow> addr \<Rightarrow> int \<Rightarrow> u32 \<Rightarrow> addr option" where
  "bl_strchr_loop m s c i =
     (if m (s + i) \<noteq> 0
      then (if sint (m (s + i)) = c then Some (s + i) else bl_strchr_loop m s c (i + 1))
      else Some 0)"

definition bl_strchr :: "mem \<Rightarrow> addr \<Rightarrow> int \<Rightarrow> addr option" where
  "bl_strchr m s c =
     (if s = 0 then Some 0
      else if c = 0 then map_option (\<lambda>len. s + len) (bl_strlen m s)
      else bl_strchr_loop m s c 0)"

partial_function (option) bl_string_map_loop :: "(int \<Rightarrow> int) \<Rightarrow> mem \<Rightarrow> addr \<Rightarrow> mem option" where
  "bl_string_map_loop f m str =
     (if m str \<noteq> 0 then bl_string_map_loop f (m(str := word_of_int (f (sint (m str))))) (str + 1)
      else Some m)"

definition bl_string_toupper :: "mem \<Rightarrow> addr \<Rightarrow> (addr \<times> mem) option" where
  "bl_string_toupper m str = map_option (\<lambda>m'. (str, m')) (bl_string_map_loop bl_toupper m str)"

definition bl_string_tolower :: "mem \<Rightarrow> addr \<Rightarrow> (addr \<times> mem) option" where
  "bl_string_tolower m str = map_option (\<lambda>m'. (str, m')) (bl_string_map_loop bl_tolower m str)"

definition bl_isprint :: "int \<Rightarrow> bool" where
  "bl_isprint c \<longleftrightarrow> c \<ge> 32 \<and> 126 \<ge> c"

function bl_convert_utf16_to_utf8_loop :: "mem \<Rightarrow> addr \<Rightarrow> addr \<Rightarrow> u32 \<Rightarrow> u32 \<Rightarrow> mem" where
  "bl_convert_utf16_to_utf8_loop m dest src i n =
     (if i < n then
        (let w = ld16 m (src + 2 * i)
         in if w \<le> 0x7f
            then bl_convert_utf16_to_utf8_loop (m(dest := ucast w)) (dest + 1) src (i + 1) n
            else bl_convert_utf16_to_utf8_loop m dest src (i + 1) n)
      else m)"
  by pat_completeness auto
termination
  by (relation "measure (\<lambda>(m, dest, src, i, n). unat n - unat i)") (auto intro: unat_countup)

definition bl_convert_utf16_to_utf8 :: "mem \<Rightarrow> addr \<Rightarrow> addr \<Rightarrow> u32 \<Rightarrow> mem" where
  "bl_convert_utf16_to_utf8 m dest src n = bl_convert_utf16_to_utf8_loop m dest src 0 n"

subsection \<open>NUL-terminated strings\<close>

primrec cstr :: "mem \<Rightarrow> addr \<Rightarrow> u8 list \<Rightarrow> bool" where
  "cstr m s [] \<longleftrightarrow> m s = 0"
| "cstr m s (c # cs) \<longleftrightarrow> m s = c \<and> c \<noteq> 0 \<and> cstr m (s + 1) cs"

lemma cstr_unique: "cstr m s cs \<Longrightarrow> cstr m s ds \<Longrightarrow> cs = ds"
proof (induction cs arbitrary: s ds)
  case Nil
  then show ?case by (cases ds) auto
next
  case (Cons c cs)
  then show ?case by (cases ds) auto
qed

lemma cstr_no_zero: "cstr m s cs \<Longrightarrow> 0 \<notin> set cs"
  by (induction cs arbitrary: s) auto

lemma cstr_mem_get: "cstr m s cs \<longleftrightarrow> 0 \<notin> set cs \<and> mem_get m s (Suc (length cs)) = cs @ [0]"
  by (induction cs arbitrary: s) (auto simp: mem_get_Suc)

lemma nul_cstr: "m (s + of_nat k) = 0 \<Longrightarrow> \<exists>cs. cstr m s cs \<and> length cs \<le> k"
proof (induction k arbitrary: s)
  case 0
  then have "cstr m s [] \<and> length ([]::u8 list) \<le> 0" by simp
  then show ?case by blast
next
  case (Suc k)
  show ?case
  proof (cases "m s = 0")
    case True
    then have "cstr m s [] \<and> length ([]::u8 list) \<le> Suc k" by simp
    then show ?thesis by blast
  next
    case False
    have "m ((s + 1) + of_nat k) = 0" using Suc.prems by (simp add: algebra_simps)
    then obtain cs where "cstr m (s + 1) cs" "length cs \<le> k" using Suc.IH by blast
    then have "cstr m s (m s # cs) \<and> length (m s # cs) \<le> Suc k" using False by simp
    then show ?thesis by blast
  qed
qed

lemma bl_strlen_loop_cstr:
  "cstr m (s + len) cs \<Longrightarrow> bl_strlen_loop m s len = Some (len + of_nat (length cs))"
proof (induction cs arbitrary: len)
  case Nil
  then show ?case by (simp add: bl_strlen_loop.simps)
next
  case (Cons c cs)
  then have "bl_strlen_loop m s (len + 1) = Some (len + 1 + of_nat (length cs))"
    by (intro Cons.IH) (simp add: algebra_simps)
  with Cons.prems show ?case by (simp add: bl_strlen_loop.simps [of m s len] algebra_simps)
qed

lemma bl_strlen_cstr: "cstr m s cs \<Longrightarrow> s \<noteq> 0 \<Longrightarrow> bl_strlen m s = Some (of_nat (length cs))"
  using bl_strlen_loop_cstr [of m s 0 cs] by (simp add: bl_strlen_def)

lemma bl_strlen_loop_nul: 
  assumes ret: "bl_strlen_loop m s len = Some r" shows "m (s + r) = 0"
proof (rule bl_strlen_loop.raw_induct [where P = "\<lambda>m s len r. m (s + r) = 0", OF _ ret])
  fix f m s len r
  assume IH: "\<And>m s len r. f m s len = Some r \<Longrightarrow> m (s + r) = (0::u8)"
    and eq: "(if m (s + len) \<noteq> 0 then f m s (len + 1) else Some len) = Some r"
  from eq show "m (s + r) = (0::u8)"
    by (cases "m (s + len) = 0") (auto dest: IH)
qed

lemma bl_strlen_returns_iff:
  "(\<exists>len. bl_strlen m s = Some len) \<longleftrightarrow> s = 0 \<or> (\<exists>a. m a = 0)"
proof (cases "s = 0")
  case True
  then show ?thesis by (simp add: bl_strlen_def)
next
  case False
  have "\<exists>len. bl_strlen m s = Some len" if "m a = 0" for a
  proof -
    have "m (s + of_nat (unat (a - s))) = 0" using that by simp
    then obtain cs where "cstr m s cs" using nul_cstr by blast
    then show ?thesis using bl_strlen_cstr False by blast
  qed
  then show ?thesis using False bl_strlen_loop_nul by (metis bl_strlen_def)
qed

fun strdiff :: "u8 list \<Rightarrow> u8 list \<Rightarrow> int" where
  "strdiff [] [] = 0"
| "strdiff (a # as) [] = sint a"
| "strdiff [] (b # bs) = - sint b"
| "strdiff (a # as) (b # bs) = (if a = b then strdiff as bs else sint a - sint b)"

lemma sint_eq_0: "sint (a::u8) = 0 \<longleftrightarrow> a = 0"
  by (metis signed_0 word_eq_iff_signed)

lemma strdiff_eq_0: "0 \<notin> set as \<Longrightarrow> 0 \<notin> set bs \<Longrightarrow> strdiff as bs = 0 \<longleftrightarrow> as = bs"
  by (induction as bs rule: strdiff.induct) (auto simp: sint_eq_0 word_eq_iff_signed [symmetric])

lemma bl_strcmp_loop_cstr:
  "cstr m s1 as \<Longrightarrow> cstr m s2 bs \<Longrightarrow> bl_strcmp_loop m s1 s2 = Some (strdiff as bs)"
  by (induction as bs arbitrary: s1 s2 rule: strdiff.induct) (simp_all add: bl_strcmp_loop.simps)

lemma null_order_None: "s1 \<noteq> 0 \<Longrightarrow> s2 \<noteq> 0 \<Longrightarrow> null_order s1 s2 = None"
  by (simp add: null_order_def)

lemma bl_strcmp_cstr:
  "cstr m s1 as \<Longrightarrow> cstr m s2 bs \<Longrightarrow> s1 \<noteq> 0 \<Longrightarrow> s2 \<noteq> 0 \<Longrightarrow> bl_strcmp m s1 s2 = Some (strdiff as bs)"
  by (simp add: bl_strcmp_def null_order_None bl_strcmp_loop_cstr)

declare bl_strncmp_loop.simps [simp del] bl_strncasecmp_loop.simps [simp del]
  bl_strncpy_loop.simps [simp del] bl_memset_loop.simps [simp del] bl_memcpy_up.simps [simp del]
  bl_memcpy_down.simps [simp del] bl_memcmp_loop.simps [simp del] bl_strnlen_loop.simps [simp del]
  bl_wcsncmp_loop.simps [simp del] bl_convert_utf16_to_utf8_loop.simps [simp del]

lemma take_unat_Cons: "n \<noteq> 0 \<Longrightarrow> take (unat (n::u32)) (c # cs) = c # take (unat (n - 1)) cs"
  by (cases "unat n") (auto simp: unat_minus_one unat_eq_0)

lemma bl_strncmp_loop_cstr:
  "cstr m s1 as \<Longrightarrow> cstr m s2 bs \<Longrightarrow> n \<noteq> 0 \<Longrightarrow>
   bl_strncmp_loop m s1 s2 n = strdiff (take (unat n) as) (take (unat n) bs)"
proof (induction as bs arbitrary: s1 s2 n rule: strdiff.induct)
  case (4 a as b bs)
  then show ?case
    by (subst bl_strncmp_loop.simps) (auto simp: take_unat_Cons)
qed (auto simp: take_unat_Cons bl_strncmp_loop.simps)

lemma bl_strncmp_cstr:
  "cstr m s1 as \<Longrightarrow> cstr m s2 bs \<Longrightarrow> s1 \<noteq> 0 \<Longrightarrow> s2 \<noteq> 0 \<Longrightarrow>
   bl_strncmp m s1 s2 n = strdiff (take (unat n) as) (take (unat n) bs)"
  by (simp add: bl_strncmp_def null_order_None bl_strncmp_loop_cstr)

text \<open>Case-insensitive comparison, through the lower-case image of a string.\<close>

definition lower :: "u8 list \<Rightarrow> int list" where
  "lower cs = map (\<lambda>c. bl_tolower (sint c)) cs"

lemma bl_tolower_eq_0: "bl_tolower c = 0 \<longleftrightarrow> c = 0"
  by (auto simp: bl_tolower_def)

lemma bl_strcasecmp_loop_cstr:
  "cstr m s1 as \<Longrightarrow> cstr m s2 bs \<Longrightarrow>
   \<exists>r. bl_strcasecmp_loop m s1 s2 = Some r \<and> (r = 0 \<longleftrightarrow> lower as = lower bs)"
proof (induction as bs arbitrary: s1 s2 rule: list_induct2')
  case (4 a as b bs)
  show ?case
  proof (cases "bl_tolower (sint a) = bl_tolower (sint b)")
    case True
    with "4.prems" have "bl_strcasecmp_loop m s1 s2 = bl_strcasecmp_loop m (s1 + 1) (s2 + 1)"
      by (simp add: bl_strcasecmp_loop.simps [of m s1 s2])
    with "4.prems" True show ?thesis
      using "4.IH" [of "s1 + 1" "s2 + 1"] by (auto simp: lower_def)
  next
    case False
    with "4.prems" show ?thesis
      by (auto simp: bl_strcasecmp_loop.simps [of m s1 s2] lower_def)
  qed
qed (auto simp: bl_strcasecmp_loop.simps lower_def sint_eq_0)

subsection \<open>Block operations\<close>

lemma bl_memcpy_up_correct:
  "unat n = k \<Longrightarrow> d < s \<Longrightarrow> fits s k \<Longrightarrow> bl_memcpy_up m d s n = mem_put m d (mem_get m s k)"
proof (induction k arbitrary: m d s n)
  case 0
  then have "n = 0" by (simp add: unat_eq_0)
  then show ?case by (simp add: bl_memcpy_up.simps)
next
  case (Suc k)
  then have n: "n \<noteq> 0" by auto
  have k: "Suc k < 2 ^ 32" using unat_lt2p [of n] Suc.prems(1) by simp
  have ds: "unat d < unat s" using Suc.prems(2) by (simp add: word_less_nat_alt)
  show ?case
  proof (cases k)
    case 0
    then have "n = 1" using Suc.prems(1) by (simp add: word_unat_eq_iff)
    then show ?thesis using 0
      by (simp add: bl_memcpy_up.simps mem_get_Suc mem_put_Cons [of "[]", simplified])
  next
    case (Suc j)
    have s1: "unat (s + 1) = unat s + 1"
      using Suc.prems(3) Suc unat_add_lt [of s 1] by (simp add: fits_def)
    have d1: "unat (d + 1) = unat d + 1"
      using Suc.prems(3) ds unat_add_lt [of d 1] by (simp add: fits_def)
    have "bl_memcpy_up (m(d := m s)) (d + 1) (s + 1) (n - 1) =
        mem_put (m(d := m s)) (d + 1) (mem_get (m(d := m s)) (s + 1) k)"
      using Suc.prems n ds s1 d1 by (intro Suc.IH) (simp_all add: unat_minus_one fits_def word_less_nat_alt)
    moreover have "mem_get (m(d := m s)) (s + 1) k = mem_get m (s + 1) k"
    proof (rule mem_get_upd_apart)
      fix i assume "i < k"
      then have "unat (s + 1 + of_nat i) = unat s + 1 + i"
        using s1 Suc.prems(3) unat_add_lt [of "s + 1" i] by (simp add: fits_def)
      then show "s + 1 + of_nat i \<noteq> d" using ds by auto
    qed
    ultimately show ?thesis using n k
      by (simp add: bl_memcpy_up.simps [of m d s n] mem_put_Cons mem_get_Suc)
  qed
qed

lemma bl_memcpy_down_correct:
  "unat n = k \<Longrightarrow> s \<le> d \<Longrightarrow> fits d k \<Longrightarrow>
   bl_memcpy_down m (d + n) (s + n) n = mem_put m d (mem_get m s k)"
proof (induction k arbitrary: m n)
  case 0
  then have "n = 0" by (simp add: unat_eq_0)
  then show ?case by (simp add: bl_memcpy_down.simps)
next
  case (Suc k)
  then have n: "n \<noteq> 0" by auto
  have k: "Suc k < 2 ^ 32" using unat_lt2p [of n] Suc.prems(1) by simp
  have n1: "n - 1 = of_nat k" using Suc.prems(1) n k by (simp add: word_unat_eq_iff unat_minus_one unat_of_nat_eq)
  have sd: "unat s \<le> unat d" using Suc.prems(2) by (simp add: word_le_nat_alt)
  let ?m = "m(d + of_nat k := m (s + of_nat k))"
  have "bl_memcpy_down ?m (d + (n - 1)) (s + (n - 1)) (n - 1) = mem_put ?m d (mem_get ?m s k)"
    using Suc.prems n by (intro Suc.IH) (simp_all add: unat_minus_one fits_def)
  moreover have "mem_get ?m s k = mem_get m s k"
  proof (rule mem_get_upd_apart)
    fix i assume i: "i < k"
    then have "unat (s + of_nat i) = unat s + i"
      using Suc.prems(3) sd unat_add_lt [of s i] by (simp add: fits_def)
    moreover have "unat (d + of_nat k) = unat d + k"
      using Suc.prems(3) unat_add_lt [of d k] by (simp add: fits_def)
    ultimately show "s + of_nat i \<noteq> d + of_nat k" using i sd by auto
  qed
  moreover have e: "d + n - 1 = d + of_nat k" "s + n - 1 = s + of_nat k"
    unfolding add_diff_eq [symmetric] n1 by (rule refl)+
  ultimately show ?case
    unfolding bl_memcpy_down.simps [of m "d + n" "s + n" n] e mem_get_snoc n1
    using n k mem_put_snoc [of "mem_get m s k" m d "m (s + of_nat k)"] by simp
qed

lemma bl_memcpy_correct:
  assumes "dest \<noteq> 0" "src \<noteq> 0" "fits dest (unat n)" "fits src (unat n)"
  shows "bl_memcpy m dest src n = (dest, mem_put m dest (mem_get m src (unat n)))"
  using assms bl_memcpy_up_correct [OF refl, of dest src n m] bl_memcpy_down_correct [OF refl, of src dest n m]
  by (simp add: bl_memcpy_def)

lemma bl_memset_loop_correct:
  "unat (n - 1) = k \<Longrightarrow> bl_memset_loop m d c n = mem_put m d (replicate k c)"
proof (induction k arbitrary: m d n)
  case 0
  then have "n - 1 = 0" by (simp add: unat_eq_0)
  then show ?case by (simp add: bl_memset_loop.simps)
next
  case (Suc k)
  then have n: "n - 1 \<noteq> 0" by auto
  have "bl_memset_loop (m(d := c)) (d + 1) c (n - 1) = mem_put (m(d := c)) (d + 1) (replicate k c)"
    using Suc.prems n unat_minus_one [of "n - 1"] by (intro Suc.IH) simp
  moreover have "Suc k < 2 ^ 32" using unat_lt2p [of "n - 1"] Suc.prems by simp
  ultimately show ?case using n by (simp add: bl_memset_loop.simps [of m d c n] mem_put_Cons)
qed

lemma bl_memset_correct:
  "s \<noteq> 0 \<Longrightarrow> bl_memset m s c n = (s, mem_put m s (replicate (unat (n - 1)) c))"
  by (simp add: bl_memset_def bl_memset_loop_correct)

lemma bl_memcmp_loop_eq:
  "unat n - unat i = k \<Longrightarrow> bl_memcmp_loop m p q i n = 0 \<longleftrightarrow> mem_get m p k = mem_get m q k"
proof (induction k arbitrary: p q i)
  case 0
  then show ?case by (simp add: bl_memcmp_loop.simps word_less_nat_alt)
next
  case (Suc k)
  then have i: "i < n" by (simp add: word_less_nat_alt)
  then have "unat n - unat (i + 1) = k" using Suc.prems by (simp add: unat_Suc_less)
  then show ?case using i Suc.IH [of "i + 1" "p + 1" "q + 1"]
    by (auto simp: bl_memcmp_loop.simps [of m p q i n] mem_get_Suc)
qed

lemma bl_memcmp_eq_0: "bl_memcmp m p q n = 0 \<longleftrightarrow> mem_get m p (unat n) = mem_get m q (unat n)"
  using bl_memcmp_loop_eq [of n 0 "unat n" m p q] by (simp add: bl_memcmp_def)

text \<open>A bounded copy stores the bytes up to the first NUL, or the first \<open>n\<close> bytes.\<close>

lemma bl_strncpy_loop_correct:
  assumes "0 \<notin> set (mem_get m src k)" "m (src + of_nat k) = 0 \<or> unat n = Suc k"
    "Suc k \<le> unat n" "apart dest (Suc k) src (Suc k)" "fits dest (Suc k)" "fits src (Suc k)"
  shows "bl_strncpy_loop m dest src n = mem_put m dest (mem_get m src (Suc k))"
  using assms
proof (induction k arbitrary: m dest src n)
  case 0
  then have "m src = 0 \<or> unat n = unat (1::u32)" by simp
  then have "m src = 0 \<or> n = 1" by (simp only: word_unat_eq_iff)
  then show ?case
    by (auto simp: bl_strncpy_loop.simps [of m dest src n] mem_get_Suc mem_put_Cons [of "[]", simplified] Let_def)
next
  case (Suc k)
  have n: "n \<noteq> 0" "n - 1 \<noteq> 0" using Suc.prems(3) by (auto simp: word_unat_eq_iff unat_minus_one)
  have c: "m src \<noteq> 0" and rest: "0 \<notin> set (mem_get m (src + 1) k)"
    using Suc.prems(1) by (auto simp: mem_get_Suc)
  have a1: "unat (src + 1) = unat src + 1" "unat (dest + 1) = unat dest + 1"
    using Suc.prems(5,6) unat_add_lt [of src 1] unat_add_lt [of dest 1] by (simp_all add: fits_def)
  let ?m = "m(dest := m src)"
  have keep: "\<And>i. i < Suc k \<Longrightarrow> src + 1 + of_nat i \<noteq> dest"
  proof -
    fix i assume i: "i < Suc k"
    have "unat (src + 1 + of_nat i) = unat src + 1 + i"
      using a1 i Suc.prems(6) unat_add_lt [of "src + 1" i] by (simp add: fits_def)
    then show "src + 1 + of_nat i \<noteq> dest" using Suc.prems(4) i by (auto simp: apart_def)
  qed
  have g: "mem_get ?m (src + 1) (Suc k) = mem_get m (src + 1) (Suc k)"
    by (rule mem_get_upd_apart) (rule keep)
  have g': "mem_get ?m (src + 1) k = mem_get m (src + 1) k"
    by (rule mem_get_upd_apart) (rule keep, simp)
  have "bl_strncpy_loop ?m (dest + 1) (src + 1) (n - 1) = mem_put ?m (dest + 1) (mem_get ?m (src + 1) (Suc k))"
  proof (rule Suc.IH)
    show "0 \<notin> set (mem_get ?m (src + 1) k)" using rest g' by simp
    show "?m (src + 1 + of_nat k) = 0 \<or> unat (n - 1) = Suc k"
      using Suc.prems(2) n keep [of k] by (auto simp: unat_minus_one algebra_simps)
    show "Suc k \<le> unat (n - 1)" using Suc.prems(3) n by (simp add: unat_minus_one)
    show "apart (dest + 1) (Suc k) (src + 1) (Suc k)" "fits (dest + 1) (Suc k)" "fits (src + 1) (Suc k)"
      using Suc.prems a1 by (auto simp: apart_def fits_def)
  qed
  moreover have "Suc k < 2 ^ 32" using unat_lt2p [of n] Suc.prems(3) by simp
  ultimately show ?case
    using n c g by (simp add: bl_strncpy_loop.simps [of m dest src n] mem_put_Cons mem_get_Suc [of m src] Let_def)
qed

end
