(* ===== verification/Bl_Heap.thy ===== *)
theory Bl_Heap
  imports Bl_String
begin

text \<open>
  The boot loader's allocator, src/boot-loader/core/memory/heap.c: a singly linked list of
  block headers that lives in memory itself, searched first-fit and extended at its end.

  The operations are modelled on the flat memory, header field by header field. The second
  half relates them to an abstract list of blocks: \<open>heap_inv\<close> says that memory holds a list
  of disjoint blocks in ascending order, and every operation preserves it and acts on the
  list as the abstract operation does.
\<close>

unbundle bit_operations_syntax

record heap_st =
  mem :: mem
  bl_heap :: addr
  occupied_blocks :: u32
  free_blocks :: u32

definition BL_HEAP_BLOCK_HEAD_USED_MAGIC :: u32 where
  "BL_HEAP_BLOCK_HEAD_USED_MAGIC = 0x44455355"

definition BL_HEAP_BLOCK_HEAD_FREE_MAGIC :: u32 where
  "BL_HEAP_BLOCK_HEAD_FREE_MAGIC = 0x45455246"

definition BL_HEAP_MEM_ALIGN :: u32 where
  "BL_HEAP_MEM_ALIGN = push_bit 4 1"

text \<open>struct bl_heap_block_head: next, magic, size, four bytes of padding; 16 bytes.\<close>

definition bh_next :: "mem \<Rightarrow> addr \<Rightarrow> addr" where
  "bh_next m q = ld32 m q"

definition bh_magic :: "mem \<Rightarrow> addr \<Rightarrow> u32" where
  "bh_magic m q = ld32 m (q + 4)"

definition bh_size :: "mem \<Rightarrow> addr \<Rightarrow> u32" where
  "bh_size m q = ld32 m (q + 8)"

definition sizeof_block_head :: u32 where
  "sizeof_block_head = 16"

subsection \<open>Initialisation\<close>

definition bl_heap_init_bios :: "'a heap_st_scheme \<Rightarrow> 'a heap_st_scheme" where
  "bl_heap_init_bios s = (if bl_heap s \<noteq> 0 then s else s\<lparr>bl_heap := 0x100000\<rparr>)"

definition BL_MODULE_LIST_HEADER_MAGIC :: u64 where
  "BL_MODULE_LIST_HEADER_MAGIC = 0x54534c444f4d4c42"

definition BL_MODULE_HEADER_MAGIC :: u64 where
  "BL_MODULE_HEADER_MAGIC = 0x000000444f4d4c42"

text \<open>
  The walk over the module headers (magic, size: 12 bytes, followed by the module) when the
  heap starts behind the modules. The result is the address behind the last module, or None
  when a header has a wrong magic.
\<close>

fun bl_heap_skip_modules :: "mem \<Rightarrow> addr \<Rightarrow> nat \<Rightarrow> addr option" where
  "bl_heap_skip_modules m md 0 = Some md"
| "bl_heap_skip_modules m md (Suc i) =
     (if ld64 m md \<noteq> BL_MODULE_HEADER_MAGIC then None
      else bl_heap_skip_modules m (md + 12 + ld32 m (md + 8)) i)"

definition bl_heap_init_uefi :: "addr \<Rightarrow> 'a heap_st_scheme \<Rightarrow> 'a heap_st_scheme" where
  "bl_heap_init_uefi modules_start s =
     (if bl_heap s \<noteq> 0 then s
      else if ld64 (mem s) modules_start = BL_MODULE_LIST_HEADER_MAGIC then
        (case bl_heap_skip_modules (mem s) (modules_start + 16) (unat (ld32 (mem s) (modules_start + 8))) of
           None \<Rightarrow> s
         | Some md \<Rightarrow> s\<lparr>bl_heap := BL_MEMORY_ALIGN_UP md BL_HEAP_MEM_ALIGN\<rparr>)
      else s\<lparr>bl_heap := BL_MEMORY_ALIGN_UP modules_start BL_HEAP_MEM_ALIGN\<rparr>)"

subsection \<open>Allocation\<close>

text \<open>
  The search loop of \<open>__bl_heap_alloc_align\<close>: it stops at a free block that fits, at a block
  whose magic is neither value, or at the last block of the list.
\<close>

datatype heap_walk = Reuse addr | Corrupt | Last addr

partial_function (option) heap_search :: "mem \<Rightarrow> u32 \<Rightarrow> u32 \<Rightarrow> addr \<Rightarrow> addr \<Rightarrow> heap_walk option" where
  "heap_search m sz align q p =
     (if p \<noteq> 0 then
        (if bh_magic m q = BL_HEAP_BLOCK_HEAD_FREE_MAGIC then
           (if (q + sizeof_block_head) AND (align - 1) = 0 \<and> bh_size m q \<ge> sz
            then Some (Reuse q)
            else heap_search m sz align p (bh_next m p))
         else if bh_magic m q \<noteq> BL_HEAP_BLOCK_HEAD_USED_MAGIC then Some Corrupt
         else heap_search m sz align p (bh_next m p))
      else Some (Last q))"

text \<open>The address handed out behind the last block \<open>q\<close>.\<close>

definition heap_fresh :: "mem \<Rightarrow> u32 \<Rightarrow> addr \<Rightarrow> addr" where
  "heap_fresh m align q =
     (let alloc = BL_MEMORY_ALIGN_UP ((q + sizeof_block_head) + bh_size m q + sizeof_block_head) BL_HEAP_MEM_ALIGN
      in if alloc AND (align - 1) \<noteq> 0 then BL_MEMORY_ALIGN_UP alloc align else alloc)"

definition bl_heap_alloc_align_list ::
    "'a heap_st_scheme \<Rightarrow> addr \<Rightarrow> u32 \<Rightarrow> u32 \<Rightarrow> (addr \<times> 'a heap_st_scheme) option" where
  "bl_heap_alloc_align_list s ptr sz align =
     (case heap_search (mem s) sz align ptr (bh_next (mem s) ptr) of
        None \<Rightarrow> None
      | Some (Reuse q) \<Rightarrow>
          Some (q + sizeof_block_head, s\<lparr>mem := st32 (mem s) (q + 4) BL_HEAP_BLOCK_HEAD_USED_MAGIC\<rparr>)
      | Some Corrupt \<Rightarrow> Some (0, s)
      | Some (Last q) \<Rightarrow>
          (let alloc = heap_fresh (mem s) align q;
               p = alloc - sizeof_block_head;
               m1 = st32 (mem s) (p + 4) BL_HEAP_BLOCK_HEAD_USED_MAGIC;
               m2 = st32 m1 (p + 8) sz;
               m3 = st32 m2 p 0;
               m4 = st32 m3 q p
           in Some (alloc, s\<lparr>mem := m4\<rparr>)))"

text \<open>
  The header of the first block is built in a local variable and copied; its padding is
  uninitialised, so the model leaves the four padding bytes of memory as they are.
\<close>

definition bl_heap_alloc_align ::
    "'a heap_st_scheme \<Rightarrow> u32 \<Rightarrow> u32 \<Rightarrow> (addr \<times> 'a heap_st_scheme) option" where
  "bl_heap_alloc_align s sz align0 =
     (if bl_heap s = 0 then Some (0, s)
      else let align = (if align0 = 0 then 1 else align0)
      in if align AND (align - 1) \<noteq> 0 then Some (0, s)
      else if occupied_blocks s = 0 \<and> free_blocks s = 0 then
        (let h = (if bl_heap s AND (align - 1) \<noteq> 0 then BL_MEMORY_ALIGN_UP (bl_heap s) align else bl_heap s);
             m1 = st32 (mem s) h 0;
             m2 = st32 m1 (h + 4) BL_HEAP_BLOCK_HEAD_USED_MAGIC;
             m3 = st32 m2 (h + 8) sz
         in Some (h + sizeof_block_head,
                  s\<lparr>bl_heap := h, occupied_blocks := occupied_blocks s + 1, mem := m3\<rparr>))
      else bl_heap_alloc_align_list s (bl_heap s) sz align)"

definition bl_heap_alloc :: "'a heap_st_scheme \<Rightarrow> u32 \<Rightarrow> (addr \<times> 'a heap_st_scheme) option" where
  "bl_heap_alloc s sz = bl_heap_alloc_align s sz 1"

definition bl_heap_free :: "'a heap_st_scheme \<Rightarrow> addr \<Rightarrow> u32 \<Rightarrow> 'a heap_st_scheme" where
  "bl_heap_free s block sz =
     (if block AND (BL_HEAP_MEM_ALIGN - 1) \<noteq> 0 then s
      else let p = block - sizeof_block_head
      in if bh_magic (mem s) p = BL_HEAP_BLOCK_HEAD_USED_MAGIC
         then s\<lparr>mem := st32 (mem s) (p + 4) BL_HEAP_BLOCK_HEAD_FREE_MAGIC,
                free_blocks := free_blocks s + 1\<rparr>
         else s)"

subsection \<open>The abstract heap\<close>

datatype hblock = HBlock (hb_addr: addr) (hb_size: nat) (hb_used: bool)

definition hb_data :: "hblock \<Rightarrow> addr" where
  "hb_data b = hb_addr b + 16"

definition hb_end :: "hblock \<Rightarrow> nat" where
  "hb_end b = unat (hb_addr b) + 16 + hb_size b"

fun chain :: "mem \<Rightarrow> addr \<Rightarrow> hblock list \<Rightarrow> addr \<Rightarrow> bool" where
  "chain m q [] r \<longleftrightarrow> q = r"
| "chain m q (b # bs) r \<longleftrightarrow>
     q = hb_addr b \<and> q \<noteq> 0 \<and> unat (bh_size m q) = hb_size b \<and>
     bh_magic m q = (if hb_used b then BL_HEAP_BLOCK_HEAD_USED_MAGIC else BL_HEAP_BLOCK_HEAD_FREE_MAGIC) \<and>
     chain m (bh_next m q) bs r"

definition block_ok :: "hblock \<Rightarrow> bool" where
  "block_ok b \<longleftrightarrow> hb_addr b \<noteq> 0 \<and> 16 dvd unat (hb_addr b) \<and> hb_end b \<le> 2 ^ 32"

definition layout :: "hblock list \<Rightarrow> bool" where
  "layout bs \<longleftrightarrow> (\<forall>b\<in>set bs. block_ok b) \<and> sorted_wrt (\<lambda>b c. hb_end b \<le> unat (hb_addr c)) bs"

definition heap_inv :: "'a heap_st_scheme \<Rightarrow> hblock list \<Rightarrow> bool" where
  "heap_inv s bs \<longleftrightarrow>
     bl_heap s \<noteq> 0 \<and> 16 dvd unat (bl_heap s) \<and>
     (if bs = [] then occupied_blocks s = 0 \<and> free_blocks s = 0
      else occupied_blocks s \<noteq> 0 \<and> chain (mem s) (bl_heap s) bs 0 \<and> layout bs)"

text \<open>First fit, never on the last block; then the block is reused, else one is appended.\<close>

definition hb_fits :: "nat \<Rightarrow> nat \<Rightarrow> hblock \<Rightarrow> bool" where
  "hb_fits sz align b \<longleftrightarrow> \<not> hb_used b \<and> sz \<le> hb_size b \<and> align dvd unat (hb_data b)"

fun first_fit :: "nat \<Rightarrow> nat \<Rightarrow> hblock list \<Rightarrow> hblock option" where
  "first_fit sz align [] = None"
| "first_fit sz align [b] = None"
| "first_fit sz align (b # c # bs) = (if hb_fits sz align b then Some b else first_fit sz align (c # bs))"

definition set_used :: "bool \<Rightarrow> addr \<Rightarrow> hblock list \<Rightarrow> hblock list" where
  "set_used u a bs = map (\<lambda>b. if hb_addr b = a then HBlock (hb_addr b) (hb_size b) u else b) bs"

text \<open>The least multiple of \<open>k\<close> that is at least \<open>n\<close>.\<close>

definition round_up :: "nat \<Rightarrow> nat \<Rightarrow> nat" where
  "round_up n k = (n + k - 1) div k * k"

definition fresh_data :: "addr \<Rightarrow> nat \<Rightarrow> hblock list \<Rightarrow> nat" where
  "fresh_data h align bs =
     (if bs = [] then round_up (unat h) align + 16
      else round_up (round_up (hb_end (last bs) + 16) 16) align)"

definition abs_alloc :: "addr \<Rightarrow> nat \<Rightarrow> nat \<Rightarrow> hblock list \<Rightarrow> addr \<times> hblock list" where
  "abs_alloc h sz align bs =
     (case first_fit sz align bs of
        Some b \<Rightarrow> (hb_data b, set_used True (hb_addr b) bs)
      | None \<Rightarrow> (of_nat (fresh_data h align bs),
                bs @ [HBlock (of_nat (fresh_data h align bs - 16)) sz True]))"

text \<open>
  The request can be served inside the address space. The code itself has no such check: it
  hands out whatever address the wrapped sum gives.
\<close>

definition heap_room :: "addr \<Rightarrow> nat \<Rightarrow> nat \<Rightarrow> hblock list \<Rightarrow> bool" where
  "heap_room h sz align bs \<longleftrightarrow>
     first_fit sz align bs \<noteq> None \<or>
     (fresh_data h align bs < 2 ^ 32 \<and> fresh_data h align bs + sz \<le> 2 ^ 32)"

subsection \<open>The search\<close>

lemma magics_differ [simp]: "BL_HEAP_BLOCK_HEAD_USED_MAGIC \<noteq> BL_HEAP_BLOCK_HEAD_FREE_MAGIC"
  "BL_HEAP_BLOCK_HEAD_FREE_MAGIC \<noteq> BL_HEAP_BLOCK_HEAD_USED_MAGIC"
  by (simp_all add: BL_HEAP_BLOCK_HEAD_USED_MAGIC_def BL_HEAP_BLOCK_HEAD_FREE_MAGIC_def)

lemma heap_search_end: "heap_search m sz align q 0 = Some (Last q)"
  by (subst heap_search.simps) simp

lemma heap_search_step:
  assumes "p \<noteq> 0"
    and "bh_magic m q = (if u then BL_HEAP_BLOCK_HEAD_USED_MAGIC else BL_HEAP_BLOCK_HEAD_FREE_MAGIC)"
  shows "heap_search m sz align q p =
     (if \<not> u \<and> (q + sizeof_block_head) AND (align - 1) = 0 \<and> bh_size m q \<ge> sz then Some (Reuse q)
      else heap_search m sz align p (bh_next m p))"
  using assms by (subst heap_search.simps) auto

lemma heap_search_chain:
  assumes "chain m q (b # bs) 0" and "k < 32"
  shows "heap_search m sz (2 ^ k) q (bh_next m q) =
           Some (case first_fit (unat sz) (2 ^ k) (b # bs) of
                   Some c \<Rightarrow> Reuse (hb_addr c) | None \<Rightarrow> Last (hb_addr (last (b # bs))))"
  using assms(1)
proof (induction bs arbitrary: b q)
  case Nil
  then have "q = hb_addr b" "bh_next m q = 0" by auto
  then show ?case by (simp add: heap_search_end)
next
  case (Cons c bs)
  from Cons.prems have c: "chain m (bh_next m q) (c # bs) 0" and q: "q = hb_addr b"
    and n: "bh_next m q \<noteq> 0" and sz: "unat (bh_size m q) = hb_size b"
    and u: "bh_magic m q = (if hb_used b then BL_HEAP_BLOCK_HEAD_USED_MAGIC else BL_HEAP_BLOCK_HEAD_FREE_MAGIC)"
    by auto
  have "\<not> hb_used b \<and> (q + sizeof_block_head) AND (2 ^ k - 1) = 0 \<and> sz \<le> bh_size m q \<longleftrightarrow>
          hb_fits (unat sz) (2 ^ k) b"
    using aligned_test [of k "q + 16"] assms(2) sz q
    by (auto simp: hb_fits_def sizeof_block_head_def hb_data_def word_le_nat_alt)
  then show ?case
    unfolding heap_search_step [OF n u] Cons.IH [OF c] by (simp add: q split: option.split)
qed

lemma first_fit_Some: "first_fit sz align bs = Some b \<Longrightarrow> b \<in> set bs \<and> hb_fits sz align b"
  by (induction sz align bs rule: first_fit.induct) (auto split: if_splits)

subsection \<open>Lists of headers in memory\<close>

lemma chain_append: "chain m q (bs @ cs) r \<longleftrightarrow> (\<exists>p. chain m q bs p \<and> chain m p cs r)"
  by (induction bs arbitrary: q) auto

lemma header_words:
  "bh_next m a = of_nat (le_nat (take 4 (mem_get m a 12)))"
  "bh_magic m a = of_nat (le_nat (take 4 (drop 4 (mem_get m a 12))))"
  "bh_size m a = of_nat (le_nat (take 4 (drop 8 (mem_get m a 12))))"
  by (simp_all add: bh_next_def bh_magic_def bh_size_def ld32_def drop_mem_get take_mem_get)

lemma header_cong:
  assumes "mem_get m' a 12 = mem_get m a 12"
  shows "bh_next m' a = bh_next m a" "bh_magic m' a = bh_magic m a" "bh_size m' a = bh_size m a"
  by (simp_all only: header_words assms)

lemma chain_frame:
  "(\<And>b. b \<in> set bs \<Longrightarrow> mem_get m' (hb_addr b) 12 = mem_get m (hb_addr b) 12) \<Longrightarrow>
     chain m' q bs r \<longleftrightarrow> chain m q bs r"
  by (induction bs arbitrary: q) (auto simp: header_cong [of m' _ m])

lemma header_fits: "block_ok b \<Longrightarrow> fits (hb_addr b) 16"
  by (auto simp: block_ok_def hb_end_def fits_def)

text \<open>A store into one field of a header leaves the other fields as they are.\<close>

lemma header_put:
  assumes "fits p 16"
  shows "bh_next (st32 m p v) p = v" "bh_magic (st32 m p v) p = bh_magic m p"
    "bh_size (st32 m p v) p = bh_size m p"
    "bh_next (st32 m (p + 4) v) p = bh_next m p" "bh_magic (st32 m (p + 4) v) p = v"
    "bh_size (st32 m (p + 4) v) p = bh_size m p"
    "bh_next (st32 m (p + 8) v) p = bh_next m p" "bh_magic (st32 m (p + 8) v) p = bh_magic m p"
    "bh_size (st32 m (p + 8) v) p = v"
proof -
  have u: "unat (p + 4) = unat p + 4" "unat (p + 8) = unat p + 8"
    using assms unat_add_lt [of p 4] unat_add_lt [of p 8] by (auto simp: fits_def)
  note d = bh_next_def bh_size_def bh_magic_def
  note a = ld_put_apart(2) apart_def fits_def
  show "bh_next (st32 m p v) p = v" "bh_magic (st32 m (p + 4) v) p = v" "bh_size (st32 m (p + 8) v) p = v"
    by (simp_all add: d ld_st_same)
  show "bh_magic (st32 m p v) p = bh_magic m p" "bh_size (st32 m p v) p = bh_size m p"
    "bh_next (st32 m (p + 4) v) p = bh_next m p" "bh_size (st32 m (p + 4) v) p = bh_size m p"
    "bh_next (st32 m (p + 8) v) p = bh_next m p" "bh_magic (st32 m (p + 8) v) p = bh_magic m p"
    using u assms by (simp_all add: st32_def d a)
qed

lemma layout_apart:
  assumes "layout bs" "b \<in> set bs" "c \<in> set bs" "hb_addr b \<noteq> hb_addr c"
  shows "apart (hb_addr b) (16 + hb_size b) (hb_addr c) (16 + hb_size c)"
proof -
  from assms(2,3) obtain i j where ij: "i < length bs" "j < length bs" "bs ! i = b" "bs ! j = c"
    by (metis in_set_conv_nth)
  have s: "\<And>i j. i < j \<Longrightarrow> j < length bs \<Longrightarrow> hb_end (bs ! i) \<le> unat (hb_addr (bs ! j))"
    using assms(1) by (simp add: layout_def sorted_wrt_iff_nth_less)
  have "i \<noteq> j" using ij assms(4) by auto
  then have "i < j \<or> j < i" by auto
  then show ?thesis
    using s [of i j] s [of j i] ij unfolding apart_def hb_end_def by auto
qed

lemma layout_distinct: "layout bs \<Longrightarrow> distinct (map hb_addr bs)"
  unfolding layout_def
  by (induction bs) (force simp: hb_end_def)+

lemma block_fits: "block_ok b \<Longrightarrow> fits (hb_addr b) (16 + hb_size b)"
  by (auto simp: block_ok_def hb_end_def fits_def)

text \<open>A store into the header of a block leaves everything apart from that header alone.\<close>

lemma header_store_frame:
  assumes "fits p 16" "apart p 16 a n" "fits a n"
  shows "mem_get (st32 m p v) a n = mem_get m a n"
    "mem_get (st32 m (p + 4) v) a n = mem_get m a n"
    "mem_get (st32 m (p + 8) v) a n = mem_get m a n"
  using assms unat_add_lt [of p 4] unat_add_lt [of p 8]
  by (auto simp: st32_def fits_def apart_def intro!: mem_get_put_apart)

lemma apart_prefix: "apart a n b k \<Longrightarrow> n' \<le> n \<Longrightarrow> k' \<le> k \<Longrightarrow> apart a n' b k'"
  by (auto simp: apart_def)

lemma layout_frame:
  assumes "layout bs" "b \<in> set bs" "c \<in> set bs" "hb_addr b \<noteq> hb_addr c" "n \<le> 16 + hb_size c"
  shows "mem_get (st32 m (hb_addr b) v) (hb_addr c) n = mem_get m (hb_addr c) n"
    "mem_get (st32 m (hb_addr b + 4) v) (hb_addr c) n = mem_get m (hb_addr c) n"
proof -
  have "apart (hb_addr b) 16 (hb_addr c) n"
    using layout_apart [OF assms(1-4)] assms(5) by (auto intro: apart_prefix)
  moreover have "fits (hb_addr b) 16" "fits (hb_addr c) n"
    using assms by (auto simp: layout_def dest!: block_fits simp: fits_def)
  ultimately show "mem_get (st32 m (hb_addr b) v) (hb_addr c) n = mem_get m (hb_addr c) n"
    "mem_get (st32 m (hb_addr b + 4) v) (hb_addr c) n = mem_get m (hb_addr c) n"
    by (simp_all add: header_store_frame)
qed

lemma set_used_id: "a \<notin> hb_addr ` set bs \<Longrightarrow> set_used u a bs = bs"
  by (induction bs) (auto simp: set_used_def)

lemma set_used_Nil [simp]: "set_used u a bs = [] \<longleftrightarrow> bs = []"
  by (simp add: set_used_def)

lemma chain_set_used:
  assumes "chain m q bs r" "layout bs" "b \<in> set bs"
  shows "chain (st32 m (hb_addr b + 4) (if u then BL_HEAP_BLOCK_HEAD_USED_MAGIC else BL_HEAP_BLOCK_HEAD_FREE_MAGIC))
           q (set_used u (hb_addr b) bs) r"
proof -
  let ?m = "st32 m (hb_addr b + 4) (if u then BL_HEAP_BLOCK_HEAD_USED_MAGIC else BL_HEAP_BLOCK_HEAD_FREE_MAGIC)"
  obtain xs ys where bs: "bs = xs @ b # ys" using split_list [OF assms(3)] by blast
  have d: "hb_addr b \<notin> hb_addr ` set xs" "hb_addr b \<notin> hb_addr ` set ys"
    using layout_distinct [OF assms(2)] by (auto simp: bs)
  have ok: "block_ok b" using assms(2,3) by (simp add: layout_def)
  have "mem_get ?m (hb_addr c) 12 = mem_get m (hb_addr c) 12" if "c \<in> set xs \<union> set ys" for c
    using that d by (intro layout_frame(2) [OF assms(2,3)]) (auto simp: bs)
  then have "chain ?m p xs s \<longleftrightarrow> chain m p xs s" "chain ?m p ys s \<longleftrightarrow> chain m p ys s" for p s
    by (auto intro!: chain_frame)
  moreover have "set_used u (hb_addr b) bs = xs @ HBlock (hb_addr b) (hb_size b) u # ys"
    using set_used_id [OF d(1)] set_used_id [OF d(2)] by (simp add: bs set_used_def)
  moreover have "chain m q xs (hb_addr b)" "chain m (bh_next m (hb_addr b)) ys r"
      "hb_addr b \<noteq> 0" "unat (bh_size m (hb_addr b)) = hb_size b"
    using assms(1) by (auto simp: bs chain_append)
  ultimately show ?thesis
    by (simp add: chain_append header_put [OF header_fits [OF ok]])
qed

lemma layout_map:
  assumes "\<And>b. hb_addr (f b) = hb_addr b" "\<And>b. hb_end (f b) = hb_end b"
  shows "layout (map f bs) \<longleftrightarrow> layout bs"
  by (simp add: layout_def block_ok_def sorted_wrt_map assms)

lemma layout_set_used [simp]: "layout (set_used u a bs) \<longleftrightarrow> layout bs"
  unfolding set_used_def by (rule layout_map) (simp_all add: hb_end_def)

lemma chain_snoc:
  assumes "chain m q (xs @ [l]) 0" "layout (xs @ [l, HBlock p n True])" "unat sz = n"
  shows "chain (st32 (st32 (st32 (st32 m (p + 4) BL_HEAP_BLOCK_HEAD_USED_MAGIC) (p + 8) sz) p 0) (hb_addr l) p)
           q (xs @ [l, HBlock p n True]) 0"
    (is "chain ?m _ _ _")
proof -
  let ?b = "HBlock p n True" and ?bs = "xs @ [l, HBlock p n True]"
  let ?m3 = "st32 (st32 (st32 m (p + 4) BL_HEAP_BLOCK_HEAD_USED_MAGIC) (p + 8) sz) p 0"
  have ok: "block_ok l" "block_ok ?b" using assms(2) by (auto simp: layout_def)
  have d: "hb_addr l \<noteq> p" "hb_addr l \<notin> hb_addr ` set xs" "p \<notin> hb_addr ` set xs"
    using layout_distinct [OF assms(2)] by auto
  have p: "mem_get ?m3 (hb_addr c) 12 = mem_get m (hb_addr c) 12" if "c \<in> set xs \<union> {l}" for c
  proof -
    have "apart p 16 (hb_addr c) 12"
      using layout_apart [OF assms(2), of ?b c] that d by (fastforce intro: apart_prefix)
    moreover have "fits p 16" "fits (hb_addr c) 12"
      using that assms(2) header_fits [of ?b] header_fits [of c] by (auto simp: layout_def fits_def)
    ultimately show ?thesis by (simp add: header_store_frame)
  qed
  have l: "mem_get ?m (hb_addr c) 12 = mem_get ?m3 (hb_addr c) 12" if "c \<in> set xs \<union> {?b}" for c
    using that d by (intro layout_frame(1) [OF assms(2)]) auto
  have "chain ?m q xs s \<longleftrightarrow> chain m q xs s" for s
    using p l by (intro chain_frame) simp
  moreover have "bh_magic ?m (hb_addr l) = bh_magic m (hb_addr l)"
      "bh_size ?m (hb_addr l) = bh_size m (hb_addr l)" "bh_next ?m (hb_addr l) = p"
    using p [of l] header_fits [OF ok(1)] by (simp_all add: header_put header_cong [of ?m3 _ m])
  moreover have "bh_magic ?m p = BL_HEAP_BLOCK_HEAD_USED_MAGIC" "bh_size ?m p = sz" "bh_next ?m p = 0"
    using l [of ?b] header_fits [OF ok(2)] by (simp_all add: header_put header_cong [of ?m _ ?m3])
  ultimately show ?thesis
    using assms(1,3) ok by (auto simp: chain_append block_ok_def)
qed

subsection \<open>Rounding\<close>

lemma round_up_ge: "0 < k \<Longrightarrow> n \<le> round_up n k"
proof -
  assume "0 < k"
  have "(n + k - 1) div k * k + (n + k - 1) mod k = n + k - 1" by (rule div_mult_mod_eq)
  moreover have "(n + k - 1) mod k < k" using \<open>0 < k\<close> by simp
  ultimately show ?thesis unfolding round_up_def by linarith
qed

lemma round_up_dvd [simp]: "k dvd round_up n k"
  by (simp add: round_up_def)

lemma round_up_id: "k dvd n \<Longrightarrow> 0 < k \<Longrightarrow> round_up n k = n"
proof -
  assume "k dvd n" "0 < k"
  then obtain c where "n = k * c" by blast
  then have "(n + k - 1) div k = c + (k - 1) div k"
    using \<open>0 < k\<close> by (metis Nat.add_diff_assoc Suc_leI add.commute div_mult_self2 One_nat_def nat_less_le)
  then show ?thesis using \<open>0 < k\<close> \<open>n = k * c\<close> by (simp add: round_up_def)
qed

lemma round_up_keeps_dvd: "2 ^ j dvd n \<Longrightarrow> 2 ^ j dvd round_up n (2 ^ k)"
proof (cases "j \<le> k")
  case True
  then show ?thesis by (meson dvd_trans le_imp_power_dvd round_up_dvd)
next
  case False
  assume "2 ^ j dvd n"
  moreover have "(2::nat) ^ k dvd n"
    using False by (meson calculation dvd_trans le_imp_power_dvd nat_le_linear)
  ultimately show ?thesis by (simp add: round_up_id)
qed

lemma round_up_room: "round_up n (2 ^ k) < 2 ^ l \<Longrightarrow> k \<le> l \<Longrightarrow> n + 2 ^ k \<le> 2 ^ l"
proof -
  assume r: "round_up n (2 ^ k) < 2 ^ l" and "k \<le> l"
  define c where "c = (n + 2 ^ k - 1) div 2 ^ k"
  have l: "(2::nat) ^ l = 2 ^ (l - k) * 2 ^ k" using \<open>k \<le> l\<close> by (simp flip: power_add)
  have "c * 2 ^ k < 2 ^ (l - k) * 2 ^ k" using r by (simp add: round_up_def c_def l)
  then have "Suc c \<le> 2 ^ (l - k)" by simp
  then have "Suc c * 2 ^ k \<le> 2 ^ l" unfolding l by (rule mult_le_mono1)
  moreover have "n \<le> c * 2 ^ k" using round_up_ge [of "2 ^ k" n] by (simp add: round_up_def c_def)
  ultimately show ?thesis by simp
qed

lemma align_up_round_up:
  assumes "k < 32" "round_up (unat a) (2 ^ k) < 2 ^ 32"
  shows "unat (BL_MEMORY_ALIGN_UP (a::u32) (2 ^ k)) = round_up (unat a) (2 ^ k)"
  using align_up_unat [of k a] round_up_room [of "unat a" k 32] assms by (simp add: round_up_def)

text \<open>Aligning only an address that is not aligned yet is the same as aligning always.\<close>

lemma align_if_needed:
  assumes "k < 32" "round_up (unat (a::u32)) (2 ^ k) < 2 ^ 32"
  shows "unat (if a AND (2 ^ k - 1) \<noteq> 0 then BL_MEMORY_ALIGN_UP a (2 ^ k) else a) = round_up (unat a) (2 ^ k)"
  using aligned_test [of k a] assms by (simp add: align_up_round_up round_up_id)

lemma heap_fresh_unat:
  assumes "k < 32" "round_up (round_up (hb_end b + 16) 16) (2 ^ k) < 2 ^ 32"
    and "unat (bh_size m (hb_addr b)) = hb_size b"
  shows "unat (heap_fresh m (2 ^ k) (hb_addr b)) = round_up (round_up (hb_end b + 16) 16) (2 ^ k)"
proof -
  let ?a = "(hb_addr b + sizeof_block_head) + bh_size m (hb_addr b) + sizeof_block_head"
  have r: "round_up (hb_end b + 16) 16 < 2 ^ 32" and e: "hb_end b + 16 < 2 ^ 32"
    using assms(2) round_up_ge [of "2 ^ k" "round_up (hb_end b + 16) 16"] round_up_ge [of 16 "hb_end b + 16"]
    by simp_all
  have "bh_size m (hb_addr b) = of_nat (hb_size b)"
    using assms(3) by (metis of_nat_unat ucast_id)
  then have "?a = of_nat (hb_end b + 16)"
    by (simp add: hb_end_def sizeof_block_head_def)
  then have u: "unat ?a = hb_end b + 16" using e by (simp add: unat_of_nat_eq del: of_nat_add)
  moreover have "BL_HEAP_MEM_ALIGN = 2 ^ 4" by (simp add: BL_HEAP_MEM_ALIGN_def)
  ultimately have "unat (BL_MEMORY_ALIGN_UP ?a BL_HEAP_MEM_ALIGN) = round_up (hb_end b + 16) 16"
    using r align_up_round_up [of 4 ?a] by simp
  then show ?thesis
    using assms(1,2) by (simp add: heap_fresh_def align_if_needed Let_def)
qed

subsection \<open>Allocation refines first fit\<close>

lemma layout_snoc:
  assumes "layout bs" "bs \<noteq> []" "block_ok b" "hb_end (last bs) \<le> unat (hb_addr b)"
  shows "layout (bs @ [b])"
proof -
  have "hb_end c \<le> unat (hb_addr b)" if "c \<in> set bs" for c
  proof (cases "c = last bs")
    case False
    obtain xs where bs: "bs = xs @ [last bs]" using assms(2) by (metis append_butlast_last_id)
    then have "c \<in> set xs" using that False by (metis rotate1.simps(2) set_ConsD set_rotate1)
    moreover have "\<forall>x\<in>set xs. hb_end x \<le> unat (hb_addr (last bs))"
      using assms(1) bs by (metis layout_def list.set_intros(1) sorted_wrt_append)
    ultimately show ?thesis using assms(4) by (force simp: hb_end_def)
  qed (use assms(4) in simp)
  then show ?thesis
    using assms by (auto simp: layout_def sorted_wrt_append)
qed

lemma fresh_block_ok:
  assumes "layout bs" "bs \<noteq> []" "fresh_data h (2 ^ k) bs < 2 ^ 32" "fresh_data h (2 ^ k) bs + sz \<le> 2 ^ 32"
  defines "p \<equiv> of_nat (fresh_data h (2 ^ k) bs - 16)"
  shows "layout (bs @ [HBlock p sz u])"
proof -
  let ?f = "fresh_data h (2 ^ k) bs"
  have ge: "hb_end (last bs) + 16 \<le> ?f"
    using round_up_ge [of 16 "hb_end (last bs) + 16"]
      round_up_ge [of "2 ^ k" "round_up (hb_end (last bs) + 16) 16"] assms(2)
    by (simp add: fresh_data_def)
  have p: "unat p = ?f - 16" unfolding p_def using assms(3) by (intro unat_of_nat_eq) simp
  have "2 ^ 4 dvd ?f"
    using assms(2) round_up_keeps_dvd [of 4 "round_up (hb_end (last bs) + 16) (2 ^ 4)" k]
    by (simp add: fresh_data_def)
  then have "16 dvd unat p" by (simp add: p)
  moreover have "0 < unat p" using p ge by (auto simp: hb_end_def)
  moreover have "unat p + 16 + sz \<le> 2 ^ 32" using p ge assms(4) by simp
  ultimately have "block_ok (HBlock p sz u)"
    by (auto simp: block_ok_def hb_end_def)
  then show ?thesis
    using assms(1,2) ge p by (intro layout_snoc) auto
qed

definition payload_kept :: "'a heap_st_scheme \<Rightarrow> 'a heap_st_scheme \<Rightarrow> hblock list \<Rightarrow> bool" where
  "payload_kept s s' bs \<longleftrightarrow>
     (\<forall>b\<in>set bs. mem_get (mem s') (hb_data b) (hb_size b) = mem_get (mem s) (hb_data b) (hb_size b))"

lemma payload_fits:
  assumes "block_ok b" "0 < n" "n \<le> hb_size b"
  shows "unat (hb_data b) = unat (hb_addr b) + 16" "fits (hb_data b) n"
  using assms unat_add_lt [of "hb_addr b" 16]
  by (auto simp: block_ok_def hb_end_def hb_data_def fits_def)

lemma header_store_payload:
  assumes "fits p 16" "block_ok b" "apart p 16 (hb_addr b) (16 + hb_size b) \<or> p = hb_addr b"
  shows "mem_get (st32 m p v) (hb_data b) (hb_size b) = mem_get m (hb_data b) (hb_size b)"
    "mem_get (st32 m (p + 4) v) (hb_data b) (hb_size b) = mem_get m (hb_data b) (hb_size b)"
    "mem_get (st32 m (p + 8) v) (hb_data b) (hb_size b) = mem_get m (hb_data b) (hb_size b)"
proof -
  have "apart p 16 (hb_data b) (hb_size b)" "fits (hb_data b) (hb_size b)" if "hb_size b \<noteq> 0"
    using assms(3) payload_fits [OF assms(2)] that by (auto simp: apart_def)
  then show "mem_get (st32 m p v) (hb_data b) (hb_size b) = mem_get m (hb_data b) (hb_size b)"
    "mem_get (st32 m (p + 4) v) (hb_data b) (hb_size b) = mem_get m (hb_data b) (hb_size b)"
    "mem_get (st32 m (p + 8) v) (hb_data b) (hb_size b) = mem_get m (hb_data b) (hb_size b)"
    using header_store_frame [OF assms(1), of "hb_data b" "hb_size b"]
    by (cases "hb_size b = 0"; simp)+
qed

lemma layout_apart_or_same:
  assumes "layout bs" "b \<in> set bs" "c \<in> set bs"
  shows "apart (hb_addr b) 16 (hb_addr c) (16 + hb_size c) \<or> hb_addr b = hb_addr c"
  using layout_apart [OF assms] by (auto intro: apart_prefix)

lemma alloc_first:
  assumes "heap_inv s []" "k < 32" "heap_room (bl_heap s) (unat sz) (2 ^ k) []"
  shows "\<exists>s'. bl_heap_alloc_align s sz (2 ^ k) = Some (fst (abs_alloc (bl_heap s) (unat sz) (2 ^ k) []), s') \<and>
           heap_inv s' (snd (abs_alloc (bl_heap s) (unat sz) (2 ^ k) [])) \<and> heap_st.more s' = heap_st.more s"
proof -
  define h where "h = (if bl_heap s AND (2 ^ k - 1) \<noteq> 0 then BL_MEMORY_ALIGN_UP (bl_heap s) (2 ^ k) else bl_heap s)"
  define r where "r = round_up (unat (bl_heap s)) (2 ^ k)"
  have inv: "bl_heap s \<noteq> 0" "16 dvd unat (bl_heap s)" "occupied_blocks s = 0" "free_blocks s = 0"
    using assms(1) by (simp_all add: heap_inv_def)
  have room: "r + 16 < 2 ^ 32" "r + 16 + unat sz \<le> 2 ^ 32"
    using assms(3) by (simp_all add: heap_room_def fresh_data_def r_def)
  have h: "unat h = r"
    using align_if_needed [of k "bl_heap s"] assms(2) room by (simp add: h_def r_def)
  then have hn: "h = of_nat r" by (metis of_nat_unat ucast_id)
  have "unat (bl_heap s) \<le> r" using round_up_ge [of "2 ^ k" "unat (bl_heap s)"] by (simp add: r_def)
  then have nz: "0 < r" using inv(1) unat_gt_0 by (metis le_zero_eq neq0_conv)
  then have hz: "h \<noteq> 0" using h by auto
  have al: "2 ^ 4 dvd r" unfolding r_def using inv(2) by (intro round_up_keeps_dvd) simp
  have ok: "block_ok (HBlock h (unat sz) True)"
    using room al hz h by (simp add: block_ok_def hb_end_def)
  have f: "fits h 16" using room h by (simp add: fits_def)
  let ?s' = "s\<lparr>bl_heap := h, occupied_blocks := occupied_blocks s + 1,
                mem := st32 (st32 (st32 (mem s) h 0) (h + 4) BL_HEAP_BLOCK_HEAD_USED_MAGIC) (h + 8) sz\<rparr>"
  have "bl_heap_alloc_align s sz (2 ^ k) = Some (h + 16, ?s')"
    using inv assms(2) power2_nonzero [of k, where 'a=32] power2_and_pred [of k, where 'a=32]
    unfolding bl_heap_alloc_align_def by (simp add: h_def [symmetric] sizeof_block_head_def)
  moreover have "abs_alloc (bl_heap s) (unat sz) (2 ^ k) [] = (h + 16, [HBlock h (unat sz) True])"
    by (simp add: abs_alloc_def fresh_data_def r_def [symmetric] hn)
  moreover have "heap_inv ?s' [HBlock h (unat sz) True]"
    using inv hz ok al h by (simp add: heap_inv_def layout_def header_put [OF f])
  ultimately show ?thesis by simp
qed

lemma alloc_append:
  assumes "heap_inv s bs" "bs \<noteq> []" "k < 32"
    and room: "fresh_data (bl_heap s) (2 ^ k) bs < 2 ^ 32" "fresh_data (bl_heap s) (2 ^ k) bs + unat sz \<le> 2 ^ 32"
    and none: "first_fit (unat sz) (2 ^ k) bs = None"
    and run: "bl_heap_alloc_align s sz (2 ^ k) = bl_heap_alloc_align_list s (bl_heap s) sz (2 ^ k)"
    and srch: "heap_search (mem s) sz (2 ^ k) (bl_heap s) (bh_next (mem s) (bl_heap s)) = Some (Last (hb_addr (last bs)))"
  shows "\<exists>s'. bl_heap_alloc_align s sz (2 ^ k) = Some (fst (abs_alloc (bl_heap s) (unat sz) (2 ^ k) bs), s') \<and>
           heap_inv s' (snd (abs_alloc (bl_heap s) (unat sz) (2 ^ k) bs)) \<and>
           heap_st.more s' = heap_st.more s \<and> payload_kept s s' bs"
proof -
  have inv: "bl_heap s \<noteq> 0" "16 dvd unat (bl_heap s)" "occupied_blocks s \<noteq> 0"
      "chain (mem s) (bl_heap s) bs 0" "layout bs"
    using assms(1,2) by (simp_all add: heap_inv_def)
  define f where "f = fresh_data (bl_heap s) (2 ^ k) bs"
  define p :: addr where "p = of_nat (f - 16)"
  obtain xs l where bs: "bs = xs @ [l]" using assms(2) by (metis append_butlast_last_id)
  let ?b = "HBlock p (unat sz) True"
  have lay: "layout (xs @ [l, ?b])"
    using fresh_block_ok [OF inv(5) assms(2) room, of True] by (simp add: bs p_def f_def)
  have "unat (bh_size (mem s) (hb_addr l)) = hb_size l"
    using inv(4) by (auto simp: bs chain_append)
  then have "unat (heap_fresh (mem s) (2 ^ k) (hb_addr l)) = f"
    using heap_fresh_unat [of k l "mem s"] assms(2,3) room(1) by (simp add: fresh_data_def f_def bs)
  then have fresh: "heap_fresh (mem s) (2 ^ k) (hb_addr l) = of_nat f" by (metis of_nat_unat ucast_id)
  have "16 \<le> f"
    using round_up_ge [of 16 "hb_end l + 16"] round_up_ge [of "2 ^ k" "round_up (hb_end l + 16) 16"]
    by (simp add: f_def fresh_data_def bs)
  then have p: "of_nat f - sizeof_block_head = p" by (simp add: p_def sizeof_block_head_def of_nat_diff)
  let ?s' = "s\<lparr>mem := st32 (st32 (st32 (st32 (mem s) (p + 4) BL_HEAP_BLOCK_HEAD_USED_MAGIC) (p + 8) sz) p 0)
                   (hb_addr l) p\<rparr>"
  have "bl_heap_alloc_align s sz (2 ^ k) = Some (of_nat f, ?s')"
    using srch by (simp add: run bl_heap_alloc_align_list_def bs fresh p Let_def)
  moreover have "abs_alloc (bl_heap s) (unat sz) (2 ^ k) bs = (of_nat f, xs @ [l, ?b])"
    using none by (simp add: abs_alloc_def f_def p_def bs)
  moreover have "heap_inv ?s' (xs @ [l, ?b])"
    using inv chain_snoc [of "mem s" "bl_heap s" xs l p "unat sz" sz] lay by (simp add: heap_inv_def bs)
  moreover have "payload_kept s ?s' bs"
  proof -
    have m: "l \<in> set (xs @ [l, ?b])" "?b \<in> set (xs @ [l, ?b])" by simp_all
    have "fits p 16" "fits (hb_addr l) 16"
      using header_fits [of ?b] header_fits [of l] lay by (simp_all add: layout_def)
    moreover have "apart p 16 (hb_addr c) (16 + hb_size c) \<or> p = hb_addr c"
      "apart (hb_addr l) 16 (hb_addr c) (16 + hb_size c) \<or> hb_addr l = hb_addr c" "block_ok c"
      if "c \<in> set bs" for c
      using layout_apart_or_same [OF lay m(2), of c] layout_apart_or_same [OF lay m(1), of c] that lay
      by (auto simp: bs layout_def)
    ultimately show ?thesis by (simp add: payload_kept_def header_store_payload)
  qed
  ultimately show ?thesis by auto
qed

lemma alloc_list:
  assumes "heap_inv s bs" "bs \<noteq> []" "k < 32" "heap_room (bl_heap s) (unat sz) (2 ^ k) bs"
  shows "\<exists>s'. bl_heap_alloc_align s sz (2 ^ k) = Some (fst (abs_alloc (bl_heap s) (unat sz) (2 ^ k) bs), s') \<and>
           heap_inv s' (snd (abs_alloc (bl_heap s) (unat sz) (2 ^ k) bs)) \<and>
           heap_st.more s' = heap_st.more s \<and> payload_kept s s' bs"
proof -
  have inv: "bl_heap s \<noteq> 0" "16 dvd unat (bl_heap s)" "occupied_blocks s \<noteq> 0"
      "chain (mem s) (bl_heap s) bs 0" "layout bs"
    using assms(1,2) by (simp_all add: heap_inv_def)
  have srch: "heap_search (mem s) sz (2 ^ k) (bl_heap s) (bh_next (mem s) (bl_heap s)) =
      Some (case first_fit (unat sz) (2 ^ k) bs of
              Some c \<Rightarrow> Reuse (hb_addr c) | None \<Rightarrow> Last (hb_addr (last bs)))"
  proof -
    obtain c cs where "bs = c # cs" using assms(2) by (cases bs) auto
    with heap_search_chain [of "mem s" "bl_heap s" c cs k sz] inv(4) assms(3)
    show ?thesis by (simp only:)
  qed
  have run: "bl_heap_alloc_align s sz (2 ^ k) = bl_heap_alloc_align_list s (bl_heap s) sz (2 ^ k)"
    using inv assms(3) power2_nonzero [of k, where 'a=32] power2_and_pred [of k, where 'a=32]
    by (simp add: bl_heap_alloc_align_def)
  show ?thesis
  proof (cases "first_fit (unat sz) (2 ^ k) bs")
    case (Some b)
    then have b: "b \<in> set bs" using first_fit_Some by blast
    let ?s' = "s\<lparr>mem := st32 (mem s) (hb_addr b + 4) BL_HEAP_BLOCK_HEAD_USED_MAGIC\<rparr>"
    have "bl_heap_alloc_align s sz (2 ^ k) = Some (hb_data b, ?s')"
      by (simp add: run bl_heap_alloc_align_list_def srch Some hb_data_def sizeof_block_head_def)
    moreover have "heap_inv ?s' (set_used True (hb_addr b) bs)"
      using inv chain_set_used [OF inv(4,5) b, of True] assms(2) by (simp add: heap_inv_def)
    moreover have "payload_kept s ?s' bs"
      using inv(5) b layout_apart_or_same [OF inv(5) b]
      by (auto simp: payload_kept_def layout_def intro!: header_store_payload(2) header_fits)
    ultimately show ?thesis by (simp add: abs_alloc_def Some)
  next
    case None
    then show ?thesis using alloc_append [OF assms(1-3) _ _ None run] srch assms(4)
      by (simp add: heap_room_def None)
  qed
qed

lemma payload_kept_Nil [simp]: "payload_kept s s' []"
  by (simp add: payload_kept_def)

theorem alloc_align_refines:
  assumes "heap_inv s bs" "k < 32" "heap_room (bl_heap s) (unat sz) (2 ^ k) bs"
  shows "\<exists>s'. bl_heap_alloc_align s sz (2 ^ k) = Some (fst (abs_alloc (bl_heap s) (unat sz) (2 ^ k) bs), s') \<and>
           heap_inv s' (snd (abs_alloc (bl_heap s) (unat sz) (2 ^ k) bs)) \<and>
           heap_st.more s' = heap_st.more s \<and> payload_kept s s' bs"
  using alloc_first [of s k sz] alloc_list [of s bs k sz] assms by (cases "bs = []") auto

text \<open>An alignment that is not a power of two is refused, zero counts as one.\<close>

lemma alloc_align_rejects:
  assumes "align \<noteq> 0" "\<And>k. k < 32 \<Longrightarrow> align \<noteq> 2 ^ k"
  shows "bl_heap_alloc_align s sz align = Some (0, s)"
  using assms and_pred_power2 [of align] by (auto simp: bl_heap_alloc_align_def Let_def)

lemma alloc_align_zero: "bl_heap_alloc_align s sz 0 = bl_heap_alloc s sz"
  by (simp add: bl_heap_alloc_def bl_heap_alloc_align_def)

subsection \<open>Release\<close>

lemma hb_data_dvd: "block_ok b \<Longrightarrow> 16 dvd unat (hb_data b)"
  by (auto simp: block_ok_def hb_data_def unat_word_ariths(1) intro!: dvd_mod)

lemma hb_data_aligned: "block_ok b \<Longrightarrow> hb_data b AND (BL_HEAP_MEM_ALIGN - 1) = 0"
  using aligned_test [of 4 "hb_data b"] hb_data_dvd [of b] by (simp add: BL_HEAP_MEM_ALIGN_def)

lemma chain_magic: "chain m q bs r \<Longrightarrow> b \<in> set bs \<Longrightarrow>
    bh_magic m (hb_addr b) = (if hb_used b then BL_HEAP_BLOCK_HEAD_USED_MAGIC else BL_HEAP_BLOCK_HEAD_FREE_MAGIC)"
  by (induction bs arbitrary: q) auto

lemma set_used_same:
  assumes "layout bs" "b \<in> set bs" shows "set_used (hb_used b) (hb_addr b) bs = bs"
proof -
  have "c = b" if "c \<in> set bs" "hb_addr c = hb_addr b" for c
    using that assms layout_distinct by (metis distinct_map inj_onD)
  then show ?thesis by (auto simp: set_used_def intro!: map_idI) (metis hblock.collapse)
qed

theorem free_refines:
  fixes sz :: u32
  assumes "heap_inv s bs" "b \<in> set bs"
  defines "s' \<equiv> bl_heap_free s (hb_data b) sz"
  shows "heap_inv s' (set_used False (hb_addr b) bs) \<and> heap_st.more s' = heap_st.more s \<and> payload_kept s s' bs"
proof -
  have inv: "chain (mem s) (bl_heap s) bs 0" "layout bs" using assms by (auto simp: heap_inv_def split: if_splits)
  have ok: "block_ok b" using inv(2) assms(2) by (simp add: layout_def)
  have p: "hb_data b - sizeof_block_head = hb_addr b" by (simp add: hb_data_def sizeof_block_head_def)
  show ?thesis
  proof (cases "hb_used b")
    case True
    then have s': "s' = s\<lparr>mem := st32 (mem s) (hb_addr b + 4) BL_HEAP_BLOCK_HEAD_FREE_MAGIC, free_blocks := free_blocks s + 1\<rparr>"
      using hb_data_aligned [OF ok] chain_magic [OF inv(1) assms(2)]
      by (simp add: s'_def bl_heap_free_def p Let_def)
    have "payload_kept s s' bs"
      using inv(2) assms(2) layout_apart_or_same [OF inv(2) assms(2)]
      by (auto simp: s' payload_kept_def layout_def intro!: header_store_payload(2) header_fits)
    then show ?thesis
      using assms(1) chain_set_used [OF inv assms(2), of False] assms(2)
      by (auto simp: s' heap_inv_def split: if_splits)
  next
    case False
    then have "s' = s"
      using hb_data_aligned [OF ok] chain_magic [OF inv(1) assms(2)]
      by (simp add: s'_def bl_heap_free_def p Let_def)
    then show ?thesis using assms(1) set_used_same [OF inv(2) assms(2)] False by (simp add: payload_kept_def)
  qed
qed

subsection \<open>Live allocations\<close>

definition live :: "hblock list \<Rightarrow> (addr \<times> nat) set" where
  "live bs = (\<lambda>b. (hb_data b, hb_size b)) ` {b \<in> set bs. hb_used b}"

lemma hb_data_eq [simp]: "hb_data b = hb_data c \<longleftrightarrow> hb_addr b = hb_addr c"
  by (simp add: hb_data_def)

lemma hb_data_unat:
  "block_ok b \<Longrightarrow> unat (hb_data b) = unat (hb_addr b) + 16 \<or> (hb_data b = 0 \<and> hb_size b = 0)"
proof (cases "hb_addr b = - 16")
  case False
  assume "block_ok b"
  then have "unat (hb_addr b) + 16 \<le> 2 ^ 32" by (simp add: block_ok_def hb_end_def)
  moreover have "unat (hb_addr b) + 16 \<noteq> 2 ^ 32"
  proof
    assume "unat (hb_addr b) + 16 = 2 ^ 32"
    then have "unat (hb_addr b) = unat (- 16 :: u32)" by simp
    then show False using False word_unat_eq_iff by blast
  qed
  ultimately show ?thesis using unat_add_lt [of "hb_addr b" 16] by (simp add: hb_data_def)
qed (simp add: hb_data_def block_ok_def hb_end_def)

lemma live_apart:
  assumes "layout bs" "(a, n) \<in> live bs" "(b, k) \<in> live bs" "a \<noteq> b"
  shows "apart a n b k"
proof -
  obtain x y where x: "x \<in> set bs" "a = hb_data x" "n = hb_size x"
    and y: "y \<in> set bs" "b = hb_data y" "k = hb_size y"
    using assms(2,3) by (auto simp: live_def)
  with layout_apart [OF assms(1), of x y] assms(4)
  have "apart (hb_addr x) (16 + hb_size x) (hb_addr y) (16 + hb_size y)" by simp
  moreover have "block_ok x" "block_ok y" using x y assms(1) by (simp_all add: layout_def)
  ultimately show ?thesis
    using hb_data_unat [of x] hb_data_unat [of y] by (auto simp: x y apart_def)
qed

lemma live_fits:
  assumes "layout bs" "(a, n) \<in> live bs"
  shows "fits a n"
proof -
  obtain x where x: "x \<in> set bs" "a = hb_data x" "n = hb_size x"
    using assms(2) by (auto simp: live_def)
  then have "block_ok x" using assms(1) by (simp add: layout_def)
  then show ?thesis
    using hb_data_unat [of x] by (auto simp: x fits_def block_ok_def hb_end_def)
qed

lemma layout_inj: "layout bs \<Longrightarrow> b \<in> set bs \<Longrightarrow> c \<in> set bs \<Longrightarrow> hb_addr b = hb_addr c \<Longrightarrow> b = c"
  using layout_distinct by (metis distinct_map inj_onD)

lemma live_simps [simp]:
  "live [] = {}"
  "live (b # bs) = (if hb_used b then insert (hb_data b, hb_size b) (live bs) else live bs)"
  "live (bs @ cs) = live bs \<union> live cs"
  by (auto simp: live_def)

lemma live_addr: "hb_addr b \<notin> hb_addr ` set bs \<Longrightarrow> (hb_data b, n) \<notin> live bs"
  by (auto simp: live_def)

lemma set_used_split:
  assumes "layout bs" "b \<in> set bs"
  obtains xs ys where "bs = xs @ b # ys" "set_used u (hb_addr b) bs = xs @ HBlock (hb_addr b) (hb_size b) u # ys"
    "hb_addr b \<notin> hb_addr ` set xs" "hb_addr b \<notin> hb_addr ` set ys"
proof -
  obtain xs ys where bs: "bs = xs @ b # ys" using split_list [OF assms(2)] by blast
  have d: "hb_addr b \<notin> hb_addr ` set xs" "hb_addr b \<notin> hb_addr ` set ys"
    using layout_distinct [OF assms(1)] by (auto simp: bs)
  show thesis
    using that [OF bs _ d] set_used_id [OF d(1)] set_used_id [OF d(2)] by (simp add: bs set_used_def)
qed

lemma live_set_used:
  assumes "layout bs" "b \<in> set bs"
  shows "live (set_used True (hb_addr b) bs) = insert (hb_data b, hb_size b) (live bs)"
    and "live (set_used False (hb_addr b) bs) = live bs - {(hb_data b, hb_size b)}"
  by (rule set_used_split [OF assms, where u = True]; auto simp: hb_data_def)
     (rule set_used_split [OF assms, where u = False]; simp add: hb_data_def;
      use live_addr in \<open>force simp: hb_data_def\<close>)

definition heap_live :: "'a heap_st_scheme \<Rightarrow> (addr \<times> nat) set \<Rightarrow> bool" where
  "heap_live s B \<longleftrightarrow> (\<exists>bs. heap_inv s bs \<and> B = live bs)"

definition alloc_room :: "'a heap_st_scheme \<Rightarrow> u32 \<Rightarrow> u32 \<Rightarrow> bool" where
  "alloc_room s sz align \<longleftrightarrow>
     (\<exists>k < 32. align = 2 ^ k \<and> (\<forall>bs. heap_inv s bs \<longrightarrow> heap_room (bl_heap s) (unat sz) (2 ^ k) bs))"

definition heap_write :: "'a heap_st_scheme \<Rightarrow> addr \<Rightarrow> u8 list \<Rightarrow> 'a heap_st_scheme" where
  "heap_write s a bs = s\<lparr>mem := mem_put (mem s) a bs\<rparr>"

definition block_size :: "'a heap_st_scheme \<Rightarrow> addr \<Rightarrow> nat" where
  "block_size s a = unat (bh_size (mem s) (a - sizeof_block_head))"

lemma heap_inv_layout: "heap_inv s bs \<Longrightarrow> layout bs"
  by (cases "bs = []") (auto simp: heap_inv_def layout_def)

lemma heap_inv_chain: "heap_inv s bs \<Longrightarrow> b \<in> set bs \<Longrightarrow> chain (mem s) (bl_heap s) bs 0"
  by (cases "bs = []") (auto simp: heap_inv_def)

lemma chain_size: "chain m q bs r \<Longrightarrow> b \<in> set bs \<Longrightarrow> unat (bh_size m (hb_addr b)) = hb_size b"
  by (induction bs arbitrary: q) auto

lemma block_size_eq: "heap_inv s bs \<Longrightarrow> b \<in> set bs \<Longrightarrow> block_size s (hb_data b) = hb_size b"
  using chain_size [OF heap_inv_chain] by (simp add: block_size_def hb_data_def sizeof_block_head_def)

text \<open>The allocated block is a new one, and it is the only change to the set of live blocks.\<close>

lemma abs_alloc_live:
  assumes "layout bs" "0 < align"
    and "abs_alloc h sz align bs = (a, bs')" "layout bs'"
  shows "\<exists>b \<in> set bs'. hb_data b = a \<and> sz \<le> hb_size b \<and> live bs' = insert (a, hb_size b) (live bs) \<and>
           (\<forall>k. (a, k) \<notin> live bs)"
proof (cases "first_fit sz align bs")
  case (Some b)
  then have b: "b \<in> set bs" "hb_fits sz align b" using first_fit_Some by blast+
  have bs': "a = hb_data b" "bs' = set_used True (hb_addr b) bs" using assms(3) by (auto simp: abs_alloc_def Some)
  have "HBlock (hb_addr b) (hb_size b) True \<in> set bs'" using b by (force simp: bs' set_used_def)
  moreover have "(a, k) \<notin> live bs" for k
    using layout_inj [OF assms(1) _ b(1)] b(2) by (auto simp: bs' live_def hb_fits_def)
  ultimately show ?thesis
    using live_set_used(1) [OF assms(1) b(1)] b(2)
    by (intro bexI [of _ "HBlock (hb_addr b) (hb_size b) True"]) (auto simp: bs' hb_fits_def hb_data_def)
next
  case None
  let ?f = "fresh_data h align bs"
  let ?b = "HBlock (of_nat (?f - 16)) sz True"
  have bs': "a = of_nat ?f" "bs' = bs @ [?b]" using assms(3) by (auto simp: abs_alloc_def None)
  have "16 \<le> ?f"
    using round_up_ge [of 16 "hb_end (last bs) + 16"] round_up_ge [of align "round_up (hb_end (last bs) + 16) 16"]
      assms(2) by (auto simp: fresh_data_def)
  then have a: "a = hb_data ?b" by (simp add: bs' hb_data_def of_nat_diff)
  moreover have "live bs' = insert (a, sz) (live bs)" unfolding bs'(2) a by simp
  moreover have "(a, k) \<notin> live bs" for k
    unfolding a by (rule live_addr) (use layout_distinct [OF assms(4)] in \<open>simp add: bs'(2)\<close>)
  ultimately show ?thesis by (intro bexI [of _ ?b]) (auto simp: bs')
qed

subsection \<open>The allocator interface\<close>

text \<open>
  What the other components rely on: the live blocks are disjoint and inside the address
  space; an allocation that has room adds one block of at least the requested size and
  leaves the contents of the others alone; a release takes one block away; a store into a
  live block leaves the allocator's own data alone.
\<close>

locale allocator =
  fixes live_inv :: "'s \<Rightarrow> (addr \<times> nat) set \<Rightarrow> bool"
    and memory :: "'s \<Rightarrow> mem"
    and store :: "'s \<Rightarrow> addr \<Rightarrow> u8 list \<Rightarrow> 's"
    and alloc :: "'s \<Rightarrow> u32 \<Rightarrow> u32 \<Rightarrow> (addr \<times> 's) option"
    and release :: "'s \<Rightarrow> addr \<Rightarrow> u32 \<Rightarrow> 's"
    and size_at :: "'s \<Rightarrow> addr \<Rightarrow> nat"
    and room :: "'s \<Rightarrow> u32 \<Rightarrow> u32 \<Rightarrow> bool"
  assumes blocks_apart: "live_inv s B \<Longrightarrow> (a, n) \<in> B \<Longrightarrow> (b, k) \<in> B \<Longrightarrow> a \<noteq> b \<Longrightarrow> apart a n b k"
    and blocks_fit: "live_inv s B \<Longrightarrow> (a, n) \<in> B \<Longrightarrow> fits a n"
    and alloc_adds: "live_inv s B \<Longrightarrow> room s sz align \<Longrightarrow>
        \<exists>a s'. alloc s sz align = Some (a, s') \<and> unat sz \<le> size_at s' a \<and> (\<forall>k. (a, k) \<notin> B) \<and>
          live_inv s' (insert (a, size_at s' a) B) \<and>
          (\<forall>(b, k) \<in> B. mem_get (memory s') b k = mem_get (memory s) b k)"
    and release_removes: "live_inv s B \<Longrightarrow> (a, n) \<in> B \<Longrightarrow>
        live_inv (release s a sz) (B - {(a, n)}) \<and>
        (\<forall>(b, k) \<in> B. mem_get (memory (release s a sz)) b k = mem_get (memory s) b k)"
    and store_inside: "live_inv s B \<Longrightarrow> (a, n) \<in> B \<Longrightarrow> length bs \<le> n \<Longrightarrow> live_inv (store s a bs) B"
    and memory_store: "memory (store s a bs) = mem_put (memory s) a bs"
begin

lemma store_keeps:
  assumes "live_inv s B" "(a, n) \<in> B" "(b, k) \<in> B" "a \<noteq> b" "length bs \<le> n"
  shows "mem_get (memory (store s a bs)) b k = mem_get (memory s) b k"
proof -
  have "apart a (length bs) b k" using blocks_apart [OF assms(1-4)] assms(5) by (auto intro: apart_prefix)
  moreover have "fits a (length bs)" "fits b k"
    using blocks_fit [OF assms(1,2)] blocks_fit [OF assms(1,3)] assms(5) by (auto simp: fits_def)
  ultimately show ?thesis by (simp add: memory_store mem_get_put_apart)
qed

text \<open>A buffer that was filled is still there after the next allocation.\<close>

lemma fill_then_alloc:
  assumes "live_inv s B" "room s sz align" "alloc s sz align = Some (a, s1)" "length bs = unat sz"
    and "room (store s1 a bs) sz2 align2" "alloc (store s1 a bs) sz2 align2 = Some (b, s2)"
  shows "mem_get (memory s2) a (unat sz) = bs \<and> apart a (unat sz) b (unat sz2)"
proof -
  obtain n where n: "unat sz \<le> n" "live_inv s1 (insert (a, n) B)"
    using alloc_adds [OF assms(1,2)] assms(3) by auto
  then have l: "live_inv (store s1 a bs) (insert (a, n) B)"
    using store_inside assms(4) by (metis insertI1)
  let ?k = "size_at s2 b"
  have k: "unat sz2 \<le> ?k" "(b, n) \<notin> insert (a, n) B" "live_inv s2 (insert (b, ?k) (insert (a, n) B))"
      "mem_get (memory s2) a n = mem_get (memory (store s1 a bs)) a n"
    using alloc_adds [OF l assms(5)] assms(6) by auto
  have "take (unat sz) (mem_get (memory s2) a n) = take (unat sz) (mem_get (mem_put (memory s1) a bs) a n)"
    using k(4) by (simp add: memory_store)
  then have "mem_get (memory s2) a (unat sz) = bs"
    using n(1) assms(4) unat_lt2p [of sz] by (simp add: take_mem_get mem_get_put_same)
  moreover have "apart a n b ?k" using blocks_apart [OF k(3)] k(2) by blast
  ultimately show ?thesis using n(1) k(1) by (auto intro: apart_prefix)
qed

end

lemma heap_write_inv:
  assumes "heap_inv s bs" "b \<in> set bs" "length d \<le> hb_size b"
  shows "heap_inv (heap_write s (hb_data b) d) bs"
proof (cases "d = []")
  case False
  have inv: "chain (mem s) (bl_heap s) bs 0" "layout bs"
    using heap_inv_chain [OF assms(1,2)] heap_inv_layout [OF assms(1)] by auto
  have f: "unat (hb_data b) = unat (hb_addr b) + 16" "fits (hb_data b) (length d)"
    using payload_fits [of b "length d"] inv(2) assms(2,3) False by (auto simp: layout_def)
  have "mem_get (mem_put (mem s) (hb_data b) d) (hb_addr c) 12 = mem_get (mem s) (hb_addr c) 12"
    if c: "c \<in> set bs" for c
  proof (rule mem_get_put_apart)
    show "apart (hb_data b) (length d) (hb_addr c) 12"
      using layout_apart [OF inv(2) assms(2) c] f assms(3) by (cases "hb_addr b = hb_addr c") (auto simp: apart_def)
    show "fits (hb_addr c) 12" using header_fits [of c] c inv(2) by (auto simp: layout_def fits_def)
  qed (rule f(2))
  then have "chain (mem_put (mem s) (hb_data b) d) (bl_heap s) bs 0"
    using chain_frame [of bs "mem_put (mem s) (hb_data b) d" "mem s" "bl_heap s" 0] inv(1) by simp
  then show ?thesis using assms(1) by (auto simp: heap_inv_def heap_write_def)
qed (use assms in \<open>simp add: heap_write_def\<close>)

lemma payload_live:
  "payload_kept s s' bs \<Longrightarrow> \<forall>(b, k) \<in> live bs. mem_get (mem s') b k = mem_get (mem s) b k"
  by (auto simp: payload_kept_def live_def)

lemma alloc_adds_live:
  assumes "heap_live s B" "alloc_room s sz align"
  shows "\<exists>a s'. bl_heap_alloc_align s sz align = Some (a, s') \<and> unat sz \<le> block_size s' a \<and>
           (\<forall>k. (a, k) \<notin> B) \<and> heap_live s' (insert (a, block_size s' a) B) \<and>
           (\<forall>(b, k) \<in> B. mem_get (mem s') b k = mem_get (mem s) b k)"
proof -
  obtain bs k where bs: "heap_inv s bs" "B = live bs" and k: "k < 32" "align = 2 ^ k"
      "heap_room (bl_heap s) (unat sz) (2 ^ k) bs"
    using assms by (auto simp: heap_live_def alloc_room_def)
  obtain a bs' where A: "abs_alloc (bl_heap s) (unat sz) (2 ^ k) bs = (a, bs')" by (cases "abs_alloc (bl_heap s) (unat sz) (2 ^ k) bs")
  obtain s' where s': "bl_heap_alloc_align s sz align = Some (a, s')" "heap_inv s' bs'" "payload_kept s s' bs"
    using alloc_align_refines [OF bs(1) k(1,3)] k(2) by (auto simp: A)
  obtain b where b: "b \<in> set bs'" "hb_data b = a" "unat sz \<le> hb_size b" "live bs' = insert (a, hb_size b) (live bs)"
      "\<forall>k. (a, k) \<notin> live bs"
    using abs_alloc_live [OF heap_inv_layout [OF bs(1)] _ A heap_inv_layout [OF s'(2)]] by auto
  have "block_size s' a = hb_size b" using block_size_eq [OF s'(2) b(1)] b(2) by simp
  moreover have "heap_live s' (insert (a, hb_size b) B)" using s'(2) b(4) bs(2) by (auto simp: heap_live_def)
  ultimately show ?thesis using s'(1) b payload_live [OF s'(3)] bs(2) by auto
qed

interpretation heap: allocator heap_live mem heap_write bl_heap_alloc_align bl_heap_free block_size alloc_room
proof
  fix s :: "'a heap_st_scheme" and B a n b k bs and sz align :: u32
  assume l: "heap_live s B"
  then obtain hs where hs: "heap_inv s hs" "B = live hs" by (auto simp: heap_live_def)
  show "(a, n) \<in> B \<Longrightarrow> (b, k) \<in> B \<Longrightarrow> a \<noteq> b \<Longrightarrow> apart a n b k"
    using live_apart [OF heap_inv_layout [OF hs(1)]] hs(2) by blast
  show "(a, n) \<in> B \<Longrightarrow> fits a n"
    using live_fits [OF heap_inv_layout [OF hs(1)]] hs(2) by blast
  show "alloc_room s sz align \<Longrightarrow>
        \<exists>a s'. bl_heap_alloc_align s sz align = Some (a, s') \<and> unat sz \<le> block_size s' a \<and> (\<forall>k. (a, k) \<notin> B) \<and>
          heap_live s' (insert (a, block_size s' a) B) \<and> (\<forall>(b, k) \<in> B. mem_get (mem s') b k = mem_get (mem s) b k)"
    by (rule alloc_adds_live [OF l])
  assume "(a, n) \<in> B"
  then obtain c where c: "c \<in> set hs" "a = hb_data c" "n = hb_size c" using hs(2) by (auto simp: live_def)
  show "heap_live (bl_heap_free s a sz) (B - {(a, n)}) \<and>
        (\<forall>(b, k) \<in> B. mem_get (mem (bl_heap_free s a sz)) b k = mem_get (mem s) b k)"
  proof
    note f = free_refines [OF hs(1) c(1), of sz]
    have "live (set_used False (hb_addr c) hs) = B - {(a, n)}"
      using live_set_used(2) [OF heap_inv_layout [OF hs(1)] c(1)] by (simp add: hs(2) c)
    with f show "heap_live (bl_heap_free s a sz) (B - {(a, n)})"
      unfolding heap_live_def c(2) by (intro exI [of _ "set_used False (hb_addr c) hs"]) simp
    show "\<forall>(b, k) \<in> B. mem_get (mem (bl_heap_free s a sz)) b k = mem_get (mem s) b k"
      unfolding hs(2) c(2) by (rule payload_live) (use f in simp)
  qed
  show "length bs \<le> n \<Longrightarrow> heap_live (heap_write s a bs) B"
    using heap_write_inv [OF hs(1) c(1)] by (auto simp: heap_live_def hs(2) c)
qed (simp add: heap_write_def)

subsection \<open>Memory determines the blocks\<close>

lemma chain_unique: "chain m q bs 0 \<Longrightarrow> chain m q cs 0 \<Longrightarrow> bs = cs"
proof (induction bs arbitrary: q cs)
  case Nil
  then show ?case by (cases cs) auto
next
  case (Cons b bs)
  then obtain c cs' where cs: "cs = c # cs'" by (cases cs) auto
  have "hb_used b = hb_used c" "hb_addr b = hb_addr c" "hb_size b = hb_size c"
    using Cons.prems by (auto simp: cs split: if_splits)
  moreover have "chain m (bh_next m q) bs 0" "chain m (bh_next m q) cs' 0"
    using Cons.prems by (auto simp: cs)
  then have "bs = cs'" by (rule Cons.IH)
  ultimately show ?case by (simp add: cs hblock.expand)
qed

lemma heap_inv_unique: "heap_inv s bs \<Longrightarrow> heap_inv s cs \<Longrightarrow> bs = cs"
  by (auto simp: heap_inv_def split: if_splits dest: chain_unique)

lemma alloc_roomI:
  assumes "heap_inv s bs" "k < 32" "heap_room (bl_heap s) (unat sz) (2 ^ k) bs" "align = 2 ^ k"
  shows "alloc_room s sz align"
  unfolding alloc_room_def using assms heap_inv_unique by blast

subsection \<open>Runs of other clients\<close>

text \<open>
  Everything that can happen to the heap while the owner of the block at \<open>a\<close> does nothing:
  allocations, releases of other blocks and stores into other live blocks, in any order.
\<close>

inductive others_run :: "addr \<Rightarrow> 'a heap_st_scheme \<times> (addr \<times> nat) set \<Rightarrow>
    'a heap_st_scheme \<times> (addr \<times> nat) set \<Rightarrow> bool" for a where
  run_refl: "others_run a x x"
| run_alloc: "others_run a x (s, B) \<Longrightarrow> alloc_room s sz align \<Longrightarrow> bl_heap_alloc_align s sz align = Some (b, s') \<Longrightarrow>
    others_run a x (s', insert (b, block_size s' b) B)"
| run_free: "others_run a x (s, B) \<Longrightarrow> (b, n) \<in> B \<Longrightarrow> b \<noteq> a \<Longrightarrow>
    others_run a x (bl_heap_free s b sz, B - {(b, n)})"
| run_write: "others_run a x (s, B) \<Longrightarrow> (b, n) \<in> B \<Longrightarrow> b \<noteq> a \<Longrightarrow> length d \<le> n \<Longrightarrow>
    others_run a x (heap_write s b d, B)"

lemma others_run_keeps:
  assumes "others_run a x y" "heap_live (fst x) (snd x)" "(a, n) \<in> snd x"
  shows "heap_live (fst y) (snd y) \<and> (a, n) \<in> snd y \<and> mem_get (mem (fst y)) a n = mem_get (mem (fst x)) a n"
  using assms
proof (induction rule: others_run.induct)
  case (run_alloc x s B sz align b s')
  then have IH: "heap_live s B" "(a, n) \<in> B" "mem_get (mem s) a n = mem_get (mem (fst x)) a n" by simp_all
  from heap.alloc_adds [OF IH(1) run_alloc(2)] run_alloc(3)
  have "heap_live s' (insert (b, block_size s' b) B)" "\<forall>(b, k) \<in> B. mem_get (mem s') b k = mem_get (mem s) b k"
    by auto
  with IH show ?case by auto
next
  case (run_free x s B b k sz)
  then have IH: "heap_live s B" "(a, n) \<in> B" "mem_get (mem s) a n = mem_get (mem (fst x)) a n" by simp_all
  with heap.release_removes [OF IH(1) run_free(2), of sz] run_free(3) show ?case by auto
next
  case (run_write x s B b k d)
  then have IH: "heap_live s B" "(a, n) \<in> B" "mem_get (mem s) a n = mem_get (mem (fst x)) a n" by simp_all
  with heap.store_inside [OF IH(1) run_write(2,4)] heap.store_keeps [OF IH(1) run_write(2) IH(2) run_write(3,4)]
  show ?case by simp
qed simp

text \<open>Alignment: every block but one served from an empty heap.\<close>

lemma abs_alloc_aligned:
  assumes "bs \<noteq> []" "heap_room h sz (2 ^ k) bs" "k < 32"
  shows "2 ^ k dvd unat (fst (abs_alloc h sz (2 ^ k) bs))"
proof (cases "first_fit sz (2 ^ k) bs")
  case None
  then have "unat (of_nat (fresh_data h (2 ^ k) bs) :: addr) = fresh_data h (2 ^ k) bs"
    using assms(2) by (intro unat_of_nat_eq) (simp add: heap_room_def)
  then show ?thesis using assms(1) None by (simp add: abs_alloc_def fresh_data_def)
qed (auto simp: abs_alloc_def hb_fits_def dest!: first_fit_Some)

lemma abs_alloc_aligned16:
  assumes "layout (snd (abs_alloc h sz align bs))" "0 < align"  "layout bs"
  shows "16 dvd unat (fst (abs_alloc h sz align bs))"
proof -
  obtain a bs' where A: "abs_alloc h sz align bs = (a, bs')" by (cases "abs_alloc h sz align bs")
  with abs_alloc_live [OF assms(3,2) A] assms(1) obtain b where "b \<in> set bs'" "hb_data b = a" by auto
  then show ?thesis using hb_data_dvd [of b] assms(1) by (auto simp: A layout_def)
qed

subsection \<open>A budget of address space\<close>

text \<open>
  The allocator has no limit of its own, so a client's success is a matter of how much
  address space is left above the last block. \<open>heap_ok s B L\<close>: the live blocks are \<open>L\<close> and
  \<open>B\<close> bytes are left. One allocation costs its size and at most 48 bytes.
\<close>

definition heap_top :: "addr \<Rightarrow> hblock list \<Rightarrow> nat" where
  "heap_top h bs = (if bs = [] then unat h else hb_end (last bs))"

definition heap_ok :: "'a heap_st_scheme \<Rightarrow> nat \<Rightarrow> (addr \<times> nat) set \<Rightarrow> bool" where
  "heap_ok s B L \<longleftrightarrow> (\<exists>bs. heap_inv s bs \<and> L = live bs \<and> heap_top (bl_heap s) bs + B \<le> 2 ^ 32)"

lemma heap_ok_live: "heap_ok s B L \<Longrightarrow> heap_live s L"
  by (auto simp: heap_ok_def heap_live_def)

lemma heap_ok_mono: "heap_ok s B L \<Longrightarrow> B' \<le> B \<Longrightarrow> heap_ok s B' L"
  unfolding heap_ok_def by fastforce

lemma round_up_less: "0 < k \<Longrightarrow> round_up n k < n + k"
proof -
  assume "0 < k"
  have "(n + k - 1) div k * k \<le> n + k - 1" by (rule div_times_less_eq_dividend)
  then show ?thesis using \<open>0 < k\<close> unfolding round_up_def by linarith
qed

lemma fresh_data_bounds:
  assumes "bs \<noteq> []" shows "hb_end (last bs) + 16 \<le> fresh_data h 1 bs" "fresh_data h 1 bs \<le> hb_end (last bs) + 31"
proof -
  have "round_up n 1 = n" for n by (simp add: round_up_def)
  then show "hb_end (last bs) + 16 \<le> fresh_data h 1 bs" "fresh_data h 1 bs \<le> hb_end (last bs) + 31"
    using assms round_up_ge [of 16 "hb_end (last bs) + 16"] round_up_less [of 16 "hb_end (last bs) + 16"]
    by (simp_all add: fresh_data_def)
qed

lemma fresh_data_first: "fresh_data h 1 [] = unat h + 16"
  by (simp add: fresh_data_def round_up_def)

lemma layout_below_top:
  assumes "layout bs" "b \<in> set bs" shows "hb_end b \<le> heap_top h bs"
proof (cases "b = last bs")
  case False
  obtain xs where bs: "bs = xs @ [last bs]" using assms(2) by (metis append_butlast_last_id empty_iff list.set(1))
  then have "b \<in> set xs" using assms(2) False by (metis UnE set_append set_ConsD empty_iff list.set(1))
  moreover have "\<forall>x\<in>set xs. hb_end x \<le> unat (hb_addr (last bs))"
    using assms(1) bs by (metis layout_def list.set_intros(1) sorted_wrt_append)
  ultimately show ?thesis using assms(2) by (fastforce simp: heap_top_def hb_end_def)
qed (use assms in \<open>auto simp: heap_top_def\<close>)

lemma abs_alloc_top:
  assumes "heap_top h bs + sz + 48 + B \<le> 2 ^ 32"
  shows "heap_room h sz 1 bs" "heap_top h (snd (abs_alloc h sz 1 bs)) + B + 16 \<le> 2 ^ 32"
proof -
  let ?f = "fresh_data h 1 bs"
  have f: "heap_top h bs + 16 \<le> ?f" "?f \<le> heap_top h bs + 31"
    using fresh_data_bounds [of bs h] fresh_data_first [of h] by (cases "bs = []"; simp add: heap_top_def)+
  then show "heap_room h sz 1 bs" using assms by (simp add: heap_room_def)
  show "heap_top h (snd (abs_alloc h sz 1 bs)) + B + 16 \<le> 2 ^ 32"
  proof (cases "first_fit sz 1 bs")
    case None
    have "unat (of_nat (?f - 16) :: addr) = ?f - 16" using f assms by (intro unat_of_nat_eq) simp
    then show ?thesis using f assms by (simp add: abs_alloc_def None heap_top_def hb_end_def del: One_nat_def)
  next
    case (Some b)
    then have "bs \<noteq> []" by auto
    moreover have "hb_end (last (set_used True (hb_addr b) bs)) = hb_end (last bs)"
      using calculation by (simp add: set_used_def last_map hb_end_def)
    ultimately show ?thesis using assms by (simp add: abs_alloc_def Some heap_top_def del: One_nat_def)
  qed
qed

lemma heap_ok_alloc:
  assumes "heap_ok s (B + unat sz + 48) L"
  shows "\<exists>a s'. bl_heap_alloc s sz = Some (a, s') \<and> a \<noteq> 0 \<and> unat sz \<le> block_size s' a \<and>
    heap_ok s' B (insert (a, block_size s' a) L) \<and> (\<forall>k. (a, k) \<notin> L) \<and>
    (\<forall>(b, k) \<in> L. mem_get (mem s') b k = mem_get (mem s) b k) \<and> heap_st.more s' = heap_st.more s"
proof -
  obtain bs where bs: "heap_inv s bs" "L = live bs" "heap_top (bl_heap s) bs + unat sz + 48 + B \<le> 2 ^ 32"
    using assms by (auto simp: heap_ok_def algebra_simps)
  note top = abs_alloc_top [OF bs(3)]
  obtain a bs' where A: "abs_alloc (bl_heap s) (unat sz) 1 bs = (a, bs')" by (cases "abs_alloc (bl_heap s) (unat sz) 1 bs")
  obtain s' where s': "bl_heap_alloc s sz = Some (a, s')" "heap_inv s' bs'" "payload_kept s s' bs"
      "heap_st.more s' = heap_st.more s"
    using alloc_align_refines [of s bs 0 sz] bs(1) top(1) by (auto simp: A bl_heap_alloc_def simp del: One_nat_def)
  obtain b where b: "b \<in> set bs'" "hb_data b = a" "unat sz \<le> hb_size b" "live bs' = insert (a, hb_size b) (live bs)"
      "\<forall>k. (a, k) \<notin> live bs"
    using abs_alloc_live [OF heap_inv_layout [OF bs(1)] _ A heap_inv_layout [OF s'(2)]] by auto
  have h: "heap_top (bl_heap s') bs' + B + 16 \<le> 2 ^ 32"
    using top(2) b(1) by (auto simp: A heap_top_def simp del: One_nat_def)
  have size: "block_size s' a = hb_size b" using block_size_eq [OF s'(2) b(1)] b(2) by simp
  have "hb_end b + 16 \<le> 2 ^ 32"
    using layout_below_top [OF heap_inv_layout [OF s'(2)] b(1), of "bl_heap s'"] h by simp
  then have "unat a = unat (hb_addr b) + 16"
    using unat_add_lt [of "hb_addr b" 16] by (simp add: b(2) [symmetric] hb_data_def hb_end_def)
  then have "a \<noteq> 0" by auto
  then show ?thesis
    using s' b size h bs(2) payload_live [OF s'(3)] by (auto simp: heap_ok_def)
qed

lemma heap_ok_free:
  assumes "heap_ok s B L" "(a, n) \<in> L"
  shows "heap_ok (bl_heap_free s a sz) B (L - {(a, n)}) \<and>
    (\<forall>(b, k) \<in> L. mem_get (mem (bl_heap_free s a sz)) b k = mem_get (mem s) b k) \<and>
    heap_st.more (bl_heap_free s a sz) = heap_st.more s"
proof -
  obtain bs where bs: "heap_inv s bs" "L = live bs" "heap_top (bl_heap s) bs + B \<le> 2 ^ 32"
    using assms(1) by (auto simp: heap_ok_def)
  obtain b where b: "b \<in> set bs" "a = hb_data b" "n = hb_size b" using assms(2) bs(2) by (auto simp: live_def)
  note f = free_refines [OF bs(1) b(1), of sz]
  have "bl_heap (bl_heap_free s a sz) = bl_heap s" by (simp add: bl_heap_free_def Let_def)
  moreover have "hb_end (last (set_used False (hb_addr b) bs)) = hb_end (last bs)"
    using b(1) by (subst set_used_def, subst last_map) (auto simp: hb_end_def)
  ultimately have "heap_top (bl_heap (bl_heap_free s a sz)) (set_used False (hb_addr b) bs) + B \<le> 2 ^ 32"
    using bs(3) by (simp add: heap_top_def split: if_splits)
  moreover have "live (set_used False (hb_addr b) bs) = L - {(a, n)}"
    using live_set_used(2) [OF heap_inv_layout [OF bs(1)] b(1)] by (simp add: bs(2) b)
  ultimately have "heap_ok (bl_heap_free s a sz) B (L - {(a, n)})"
    unfolding heap_ok_def using f b(2) by metis
  moreover have "\<forall>(b, k) \<in> L. mem_get (mem (bl_heap_free s a sz)) b k = mem_get (mem s) b k"
    unfolding bs(2) b(2) by (rule payload_live) (use f in simp)
  ultimately show ?thesis using f b(2) by simp
qed

lemma heap_ok_write:
  assumes "heap_ok s B L" "(a, n) \<in> L" "length d \<le> n"
  shows "heap_ok (heap_write s a d) B L"
proof -
  obtain bs where bs: "heap_inv s bs" "L = live bs" "heap_top (bl_heap s) bs + B \<le> 2 ^ 32"
    using assms(1) by (auto simp: heap_ok_def)
  obtain b where b: "b \<in> set bs" "a = hb_data b" "n = hb_size b" using assms(2) bs(2) by (auto simp: live_def)
  have "heap_inv (heap_write s a d) bs" using heap_write_inv [OF bs(1) b(1)] assms(3) b by simp
  then show ?thesis using bs by (auto simp: heap_ok_def heap_write_def)
qed

end
