(* ===== verification/Bl_Print.thy ===== *)
theory Bl_Print
  imports Bl_Heap
begin

text \<open>
  Text output: the number printers of src/boot-loader/core/video/print.c, which send one
  string per digit to an output callback, and the text-mode console of
  src/boot-loader/core/video/screen.c, which writes to video memory and moves the cursor
  through the CRT controller's ports.

  A string handed to the printers is the list of its bytes before the terminator.
\<close>

unbundle bit_operations_syntax

definition ascii :: "string \<Rightarrow> u8 list" where
  "ascii s = map (\<lambda>c. of_nat (of_char c)) s"

type_synonym 's callback = "(u8 list \<Rightarrow> 's \<Rightarrow> 's) option"

definition bl_print_str :: "'s callback \<Rightarrow> u8 list \<Rightarrow> 's \<Rightarrow> 's" where
  "bl_print_str callback str s = (case callback of None \<Rightarrow> s | Some f \<Rightarrow> f str s)"

subsection \<open>Hexadecimal\<close>

definition hex_char :: "u8 \<Rightarrow> u8" where
  "hex_char digit = (if digit < 0xA then 0x30 + digit else 0x61 + digit - 0xA)"

text \<open>The loop of BL_PRINT_HEX with \<open>k\<close> digits to go (\<open>bits\<close> is 4 * k - 4).\<close>

fun bl_print_hex_loop :: "'s callback \<Rightarrow> 'a::len word \<Rightarrow> nat \<Rightarrow> bool \<Rightarrow> 's \<Rightarrow> 's" where
  "bl_print_hex_loop callback number 0 zero s = s"
| "bl_print_hex_loop callback number (Suc k) zero s =
     (let digit = ucast (drop_bit (4 * k) number AND 0xf) :: u8
      in if digit = 0 \<and> \<not> zero then bl_print_hex_loop callback number k zero s
         else bl_print_hex_loop callback number k True (bl_print_str callback [hex_char digit] s))"

definition BL_PRINT_HEX :: "'s callback \<Rightarrow> 'a::len word \<Rightarrow> 's \<Rightarrow> 's" where
  "BL_PRINT_HEX callback number s =
     (if number = 0 then bl_print_str callback [0x30] s
      else bl_print_hex_loop callback number (LENGTH('a) div 4) False s)"

definition bl_print_hex :: "'s callback \<Rightarrow> u32 \<Rightarrow> 's \<Rightarrow> 's" where
  "bl_print_hex = BL_PRINT_HEX"

definition bl_print_hex64 :: "'s callback \<Rightarrow> u64 \<Rightarrow> 's \<Rightarrow> 's" where
  "bl_print_hex64 = BL_PRINT_HEX"

subsection \<open>Decimal\<close>

function bl_decimal_reverse :: "u32 \<Rightarrow> u32 \<Rightarrow> u32" where
  "bl_decimal_reverse number reverse =
     (if number = 0 then reverse
      else bl_decimal_reverse (number div 10) (10 * reverse + number mod 10))"
  by pat_completeness auto
termination
  by (relation "measure (\<lambda>(n, r). unat n)") (auto simp: unat_div_distrib unat_gt_0 intro!: div_less_dividend)

function bl_decimal_emit :: "'s callback \<Rightarrow> u32 \<Rightarrow> 's \<Rightarrow> 's" where
  "bl_decimal_emit callback reverse s =
     (if reverse = 0 then s
      else bl_decimal_emit callback (reverse div 10)
             (bl_print_str callback [0x30 + ucast (reverse mod 10)] s))"
  by pat_completeness auto
termination
  by (relation "measure (\<lambda>(c, n, s). unat n)") (auto simp: unat_div_distrib unat_gt_0 intro!: div_less_dividend)

declare bl_decimal_reverse.simps [simp del] bl_decimal_emit.simps [simp del]

definition bl_print_decimal :: "'s callback \<Rightarrow> u32 \<Rightarrow> 's \<Rightarrow> 's" where
  "bl_print_decimal callback number s = bl_decimal_emit callback (bl_decimal_reverse number 0) s"

lemma divmod64_ten_less:
  "(number::u64) \<noteq> 0 \<Longrightarrow> unat (fst (bl_divmod64 number 10)) < unat number"
  by (simp add: bl_divmod64_correct unat_div_distrib unat_gt_0)

function bl_decimal64_reverse :: "u64 \<Rightarrow> u64 \<Rightarrow> u64" where
  "bl_decimal64_reverse number reverse =
     (if number = 0 then reverse
      else bl_decimal64_reverse (fst (bl_divmod64 number 10)) (10 * reverse + snd (bl_divmod64 number 10)))"
  by pat_completeness auto
termination
  by (relation "measure (\<lambda>(n, r). unat n)") (auto simp: divmod64_ten_less)

function bl_decimal64_emit :: "'s callback \<Rightarrow> u64 \<Rightarrow> 's \<Rightarrow> 's" where
  "bl_decimal64_emit callback reverse s =
     (if reverse = 0 then s
      else bl_decimal64_emit callback (fst (bl_divmod64 reverse 10))
             (bl_print_str callback [0x30 + ucast (snd (bl_divmod64 reverse 10))] s))"
  by pat_completeness auto
termination
  by (relation "measure (\<lambda>(c, n, s). unat n)") (auto simp: divmod64_ten_less)

declare bl_decimal64_reverse.simps [simp del] bl_decimal64_emit.simps [simp del]

definition bl_print_decimal64 :: "'s callback \<Rightarrow> u64 \<Rightarrow> 's \<Rightarrow> 's" where
  "bl_print_decimal64 callback number s = bl_decimal64_emit callback (bl_decimal64_reverse number 0) s"

subsection \<open>The text screen\<close>

record screen_st =
  vidmem :: mem
  bl_rows :: int
  bl_cols :: int
  ports :: "(u16 \<times> u8) list"

definition bl_vidport :: u16 where
  "bl_vidport = 0x3d4"

definition bl_screen_char :: "u8 \<Rightarrow> screen_st \<Rightarrow> screen_st" where
  "bl_screen_char c s =
     (if c = 0xa then s\<lparr>bl_cols := 0, bl_rows := bl_rows s + 1\<rparr>
      else let s1 = s\<lparr>vidmem := (vidmem s)(0xb8000 + of_int ((bl_cols s + 80 * bl_rows s) * 2) := c),
                      bl_cols := bl_cols s + 1\<rparr>
           in if bl_cols s1 \<ge> 80 then s1\<lparr>bl_cols := 0, bl_rows := bl_rows s1 + 1\<rparr> else s1)"

definition bl_outb :: "u8 \<Rightarrow> u16 \<Rightarrow> screen_st \<Rightarrow> screen_st" where
  "bl_outb v port s = s\<lparr>ports := ports s @ [(port, v)]\<rparr>"

definition bl_screen_puts :: "u8 list \<Rightarrow> screen_st \<Rightarrow> screen_st" where
  "bl_screen_puts str s =
     (let s1 = fold bl_screen_char str s;
          pos = (bl_cols s1 + 80 * bl_rows s1) * 2
      in bl_outb (of_int (pos div 2)) (bl_vidport + 1)
           (bl_outb 15 bl_vidport
             (bl_outb (of_int (pos div 2 ^ 9)) (bl_vidport + 1)
               (bl_outb 14 bl_vidport s1))))"

definition bl_screen_puthex :: "u64 \<Rightarrow> screen_st \<Rightarrow> screen_st" where
  "bl_screen_puthex number s = BL_PRINT_HEX (Some bl_screen_puts) number s"

definition bl_screen_puts_field :: "u8 list \<Rightarrow> u8 list \<Rightarrow> screen_st \<Rightarrow> screen_st" where
  "bl_screen_puts_field str info s =
     bl_screen_puts [0xa] (bl_screen_puts info (bl_screen_puts (ascii '' : '') (bl_screen_puts str s)))"

definition bl_screen_puthex_field :: "u8 list \<Rightarrow> u64 \<Rightarrow> screen_st \<Rightarrow> screen_st" where
  "bl_screen_puthex_field str number s =
     bl_screen_puts [0xa] (bl_screen_puthex number (bl_screen_puts (ascii '' : '') (bl_screen_puts str s)))"

subsection \<open>What the printers print\<close>

text \<open>The callback that collects the text.\<close>

definition collect :: "u8 list callback" where
  "collect = Some (\<lambda>str out. out @ str)"

lemma print_collect [simp]: "bl_print_str collect str out = out @ str"
  by (simp add: bl_print_str_def collect_def)

definition hex_str :: "nat \<Rightarrow> nat \<Rightarrow> u8 list" where
  "hex_str n k = map (\<lambda>i. hex_char (of_nat (n div 16 ^ i mod 16))) (rev [0..<k])"

lemma hex_str_Suc [simp]: "hex_str n (Suc k) = hex_char (of_nat (n div 16 ^ k mod 16)) # hex_str n k"
  by (simp add: hex_str_def)

lemma hex_str_0 [simp]: "hex_str n 0 = []"
  by (simp add: hex_str_def)

lemma hex_digit_of:
  "(ucast (drop_bit (4 * k) (number::'a::len word) AND 0xf) :: u8) = of_nat (unat number div 16 ^ k mod 16)"
proof -
  have "(0xf :: 'a word) = mask 4" by (simp add: mask_eq_exp_minus_1)
  then have "unat (drop_bit (4 * k) number AND 0xf) = unat number div 16 ^ k mod 16"
    by (simp only: and_mask_unat unat_drop_bit_eq) (simp add: drop_bit_eq_div power_mult)
  then show ?thesis by (metis of_nat_unat)
qed

lemma all_nibbles: "list_all P [0..<16] \<Longrightarrow> n < 16 \<Longrightarrow> P n"
  by (simp add: list_all_iff)

lemma hex_char_zero: "n < 16 \<Longrightarrow> hex_char (of_nat n) = 0x30 \<longleftrightarrow> n = 0"
  by (rule all_nibbles [where P = "\<lambda>n. hex_char (of_nat n) = 0x30 \<longleftrightarrow> n = 0"]) code_simp

lemma of_nat_small_zero: "n < 16 \<Longrightarrow> (of_nat n :: u8) = 0 \<longleftrightarrow> n = 0"
  by (simp add: word_unat_eq_iff unat_of_nat_eq)

lemma hex_char_0: "hex_char 0 = 0x30"
  by (simp add: hex_char_def)

lemma bl_print_hex_loop_eq:
  "bl_print_hex_loop collect number k zero out =
     out @ (if zero then hex_str (unat number) k else dropWhile (\<lambda>c. c = 0x30) (hex_str (unat number) k))"
  by (induction k arbitrary: zero out) (auto simp: hex_digit_of Let_def hex_char_zero of_nat_small_zero hex_char_0)

text \<open>Reading the digits back.\<close>

definition hex_val :: "u8 \<Rightarrow> nat" where
  "hex_val c = (if c < 0x61 then unat (c - 0x30) else unat (c - 0x61) + 10)"

definition hex_read :: "u8 list \<Rightarrow> nat" where
  "hex_read cs = foldl (\<lambda>n c. 16 * n + hex_val c) 0 cs"

lemma hex_val_char: "n < 16 \<Longrightarrow> hex_val (hex_char (of_nat n)) = n"
  by (rule all_nibbles [where P = "\<lambda>n. hex_val (hex_char (of_nat n)) = n"]) code_simp

lemma hex_read_str: "foldl (\<lambda>n c. 16 * n + hex_val c) a (hex_str n k) = a * 16 ^ k + n mod 16 ^ k"
proof (induction k arbitrary: a)
  case (Suc k)
  have "n mod 16 ^ Suc k = 16 ^ k * (n div 16 ^ k mod 16) + n mod 16 ^ k"
    by (metis mod_mult2_eq power_Suc2)
  then show ?case by (simp add: hex_val_char Suc add_mult_distrib)
qed simp

lemma hex_read_dropWhile: "hex_read (dropWhile (\<lambda>c. c = 0x30) cs) = hex_read cs"
  by (induction cs) (auto simp: hex_read_def hex_val_def)

lemma BL_PRINT_HEX_reads:
  assumes "4 dvd LENGTH('a)"
  shows "hex_read (BL_PRINT_HEX collect (number::'a::len word) []) = unat number"
proof -
  obtain c where "LENGTH('a) = 4 * c" using assms by blast
  then have "(16::nat) ^ (LENGTH('a) div 4) = 2 ^ LENGTH('a)"
    by (simp add: power_mult)
  then show ?thesis
    using unat_lt2p [of number]
    by (auto simp: BL_PRINT_HEX_def bl_print_hex_loop_eq hex_read_dropWhile)
       (simp_all add: hex_read_def hex_read_str, simp_all add: hex_val_def)
qed

lemma hd_dropWhile_hex: "xs = dropWhile (\<lambda>c. c = 0x30) cs \<Longrightarrow> xs \<noteq> [] \<Longrightarrow> hd xs \<noteq> (0x30::u8)"
  using hd_dropWhile by blast

subsection \<open>Decimal digits\<close>

fun lsb_digits :: "nat \<Rightarrow> nat list" where
  "lsb_digits n = (if n = 0 then [] else n mod 10 # lsb_digits (n div 10))"

declare lsb_digits.simps [simp del]

fun rev_value :: "nat \<Rightarrow> nat \<Rightarrow> nat" where
  "rev_value n r = (if n = 0 then r else rev_value (n div 10) (10 * r + n mod 10))"

declare rev_value.simps [simp del]

lemma lsb_digits_0 [simp]: "lsb_digits 0 = []"
  by (subst lsb_digits.simps) simp

lemma lsb_digits_cons: "0 < 10 * r + d \<Longrightarrow> d < 10 \<Longrightarrow> lsb_digits (10 * r + d) = d # lsb_digits r"
  by (subst lsb_digits.simps) simp

lemma rev_value_digits:
  "0 < r \<or> n mod 10 \<noteq> 0 \<Longrightarrow> lsb_digits (rev_value n r) = rev (lsb_digits n) @ lsb_digits r"
proof (induction n r rule: rev_value.induct)
  case (1 n r)
  show ?case
  proof (cases "n = 0")
    case False
    then have "lsb_digits (rev_value n r) = rev (lsb_digits (n div 10)) @ lsb_digits (10 * r + n mod 10)"
      using 1 by (subst rev_value.simps) auto
    then show ?thesis
      using False 1(2) lsb_digits_cons [of r "n mod 10"] by (subst (2) lsb_digits.simps) auto
  qed (use 1(2) in \<open>simp add: rev_value.simps\<close>)
qed

lemma rev_value_ge: "r \<le> rev_value n r"
proof (induction n r rule: rev_value.induct)
  case (1 n r)
  then show ?case by (subst rev_value.simps) auto
qed

lemma nat_le_mult_power10: "n \<le> n * (10::nat) ^ k"
  using mult_le_mono2 [of 1 "10 ^ k" n] by simp

lemma rev_value_bound: "n < 10 ^ k \<Longrightarrow> rev_value n r < (r + 1) * 10 ^ k"
proof (induction k arbitrary: n r)
  case (Suc k)
  show ?case
  proof (cases "n = 0")
    case False
    have "rev_value (n div 10) (10 * r + n mod 10) < (10 * r + n mod 10 + 1) * 10 ^ k"
      using Suc by (intro Suc.IH) (simp add: less_mult_imp_div_less mult.commute)
    also have "\<dots> \<le> (10 * r + 10) * 10 ^ k" by (intro mult_le_mono1) simp
    finally show ?thesis using False by (subst rev_value.simps) (simp add: algebra_simps)
  next
    case True
    have "r + 1 \<le> (r + 1) * 10 ^ Suc k" by (rule nat_le_mult_power10)
    then have "r < (r + 1) * 10 ^ Suc k" by linarith
    with True show ?thesis by (simp add: rev_value.simps del: power_Suc)
  qed
qed (simp add: rev_value.simps)

lemma bl_decimal_reverse_nat:
  "rev_value (unat n) (unat r) < 2 ^ 32 \<Longrightarrow> unat (bl_decimal_reverse n r) = rev_value (unat n) (unat r)"
proof (induction n r rule: bl_decimal_reverse.induct)
  case (1 n r)
  show ?case
  proof (cases "n = 0")
    case False
    let ?r = "10 * unat r + unat n mod 10"
    have n: "unat n \<noteq> 0" using False by (simp add: unat_eq_zero)
    have step: "rev_value (unat n) (unat r) = rev_value (unat n div 10) ?r"
      using n by (subst rev_value.simps) simp
    then have "?r < 2 ^ 32" using 1(2) rev_value_ge [of ?r "unat n div 10"] by simp
    then have "unat (10 * r + n mod 10) = ?r"
      by (simp add: unat_word_ariths unat_mod_distrib mod_add_left_eq mod_simps)
    moreover have "unat (n div 10) = unat n div 10" by (simp add: unat_div_distrib)
    ultimately show ?thesis using 1 False step by (subst bl_decimal_reverse.simps) simp
  qed (simp add: bl_decimal_reverse.simps rev_value.simps)
qed

lemma bl_decimal_emit_eq:
  "bl_decimal_emit collect r out = out @ map (\<lambda>d. 0x30 + of_nat d) (lsb_digits (unat r))"
proof (induction "unat r" arbitrary: r out rule: less_induct)
  case less
  show ?case
  proof (cases "r = 0")
    case False
    then have n: "unat r \<noteq> 0" by (simp add: unat_eq_zero)
    have d: "unat (r div 10) = unat r div 10" by (simp add: unat_div_distrib)
    have "unat (r mod 10) = unat r mod 10" by (simp add: unat_mod_distrib)
    then have "(ucast (r mod 10) :: u8) = of_nat (unat r mod 10)" by (metis of_nat_unat)
    then show ?thesis
      using less [of "r div 10"] n d False
      by (subst bl_decimal_emit.simps, subst lsb_digits.simps) simp
  qed (simp add: bl_decimal_emit.simps)
qed

theorem bl_print_decimal_digits:
  assumes "unat n < 10 ^ 9" "unat n mod 10 \<noteq> 0"
  shows "bl_print_decimal collect n [] = map (\<lambda>d. 0x30 + of_nat d) (rev (lsb_digits (unat n)))"
proof -
  have "rev_value (unat n) 0 < 2 ^ 32" using rev_value_bound [OF assms(1), of 0] by simp
  then have "unat (bl_decimal_reverse n 0) = rev_value (unat n) 0"
    using bl_decimal_reverse_nat [of n 0] by simp
  then show ?thesis
    using rev_value_digits [of 0 "unat n"] assms(2) by (simp add: bl_print_decimal_def bl_decimal_emit_eq)
qed

text \<open>The reversal loses trailing zeros.\<close>

lemma bl_print_decimal_times10: "bl_decimal_reverse (n * 10) 0 = bl_decimal_reverse n 0" if "unat n * 10 < 2 ^ 32"
proof -
  have "unat (n * 10) = unat n * 10" using that by (simp add: unat_word_ariths)
  then have d: "n * 10 div 10 = n" and m: "n * 10 mod 10 = 0"
    by (simp_all add: word_unat_eq_iff unat_div_distrib unat_mod_distrib)
  show ?thesis
  proof (cases "n * 10 = 0")
    case True
    then show ?thesis using d by simp
  next
    case False
    then show ?thesis by (subst bl_decimal_reverse.simps) (simp add: d m)
  qed
qed

subsection \<open>The cursor\<close>

definition screen_ok :: "screen_st \<Rightarrow> bool" where
  "screen_ok s \<longleftrightarrow> 0 \<le> bl_cols s \<and> bl_cols s < 80 \<and> 0 \<le> bl_rows s"

definition cursor :: "screen_st \<Rightarrow> int" where
  "cursor s = bl_cols s + 80 * bl_rows s"

lemma bl_screen_char_ok: "screen_ok s \<Longrightarrow> screen_ok (bl_screen_char c s)"
  by (auto simp: screen_ok_def bl_screen_char_def Let_def)

lemma bl_screen_char_cursor:
  "screen_ok s \<Longrightarrow> c \<noteq> 0xa \<Longrightarrow> cursor (bl_screen_char c s) = cursor s + 1"
  by (auto simp: screen_ok_def bl_screen_char_def cursor_def Let_def)

lemma bl_screen_newline:
  "screen_ok s \<Longrightarrow> cursor (bl_screen_char 0xa s) = (cursor s div 80 + 1) * 80"
  by (auto simp: screen_ok_def bl_screen_char_def cursor_def)

lemma bl_screen_fold_ok: "screen_ok s \<Longrightarrow> screen_ok (fold bl_screen_char str s)"
  by (induction str arbitrary: s) (auto simp: bl_screen_char_ok)

lemma bl_screen_fold_cursor:
  "screen_ok s \<Longrightarrow> 0xa \<notin> set str \<Longrightarrow> cursor (fold bl_screen_char str s) = cursor s + int (length str)"
  by (induction str arbitrary: s) (auto simp: bl_screen_char_ok bl_screen_char_cursor)

end
