(* ===== verification/Bl_Elf.thy ===== *)
theory Bl_Elf
  imports Bl_Print
begin

text \<open>
  The module loader: the walk over the module list of
  src/boot-loader/core/loader/loader.c, the exported symbols of loader/symbols.c and the
  32-bit ELF loader of loader/elf/elf.c, on the structures of src/include/elf/elf32.h and
  core/include/loader/module.h.

  Modules, section headers, symbols and relocations are read from and written to the flat
  memory. The module's own code is not part of the boot loader: \<open>mod->init()\<close> is the
  parameter \<open>run\<close> of the load operations. The addresses the linker provides (the symbol
  tables, the image start and the two string literals compared with symbol names) are the
  fields of \<open>link_map\<close>. A loop bound and a section header are read once per iteration.
\<close>

unbundle bit_operations_syntax

subsection \<open>ELF structures\<close>

record Elf32_Ehdr =
  e_ident :: "u8 list"
  e_type :: u16
  e_machine :: u16
  e_version :: u32
  e_shoff :: u32
  e_shentsize :: u16
  e_shnum :: u16
  e_shstrndx :: u16

definition rd_Ehdr :: "mem \<Rightarrow> addr \<Rightarrow> Elf32_Ehdr" where
  "rd_Ehdr m a = \<lparr>e_ident = mem_get m a 16, e_type = ld16 m (a + 16), e_machine = ld16 m (a + 18),
     e_version = ld32 m (a + 20), e_shoff = ld32 m (a + 32), e_shentsize = ld16 m (a + 46),
     e_shnum = ld16 m (a + 48), e_shstrndx = ld16 m (a + 50)\<rparr>"

record Elf32_Shdr =
  sh_name :: u32
  sh_type :: u32
  sh_flags :: u32
  sh_addr :: u32
  sh_offset :: u32
  sh_size :: u32
  sh_link :: u32
  sh_info :: u32
  sh_addralign :: u32
  sh_entsize :: u32

definition rd_Shdr :: "mem \<Rightarrow> addr \<Rightarrow> Elf32_Shdr" where
  "rd_Shdr m a = \<lparr>sh_name = ld32 m a, sh_type = ld32 m (a + 4), sh_flags = ld32 m (a + 8),
     sh_addr = ld32 m (a + 12), sh_offset = ld32 m (a + 16), sh_size = ld32 m (a + 20),
     sh_link = ld32 m (a + 24), sh_info = ld32 m (a + 28), sh_addralign = ld32 m (a + 32),
     sh_entsize = ld32 m (a + 36)\<rparr>"

definition sizeof_Shdr :: u32 where "sizeof_Shdr = 40"

definition sizeof_Sym :: u32 where "sizeof_Sym = 16"

definition sizeof_Rel :: u32 where "sizeof_Rel = 8"

record Elf32_Sym =
  st_name :: u32
  st_value :: u32
  st_size :: u32
  st_info :: u8
  st_other :: u8
  st_shndx :: u16

definition rd_Sym :: "mem \<Rightarrow> addr \<Rightarrow> Elf32_Sym" where
  "rd_Sym m a = \<lparr>st_name = ld32 m a, st_value = ld32 m (a + 4), st_size = ld32 m (a + 8),
     st_info = m (a + 12), st_other = m (a + 13), st_shndx = ld16 m (a + 14)\<rparr>"

record Elf32_Rel =
  r_offset :: u32
  r_info :: u32

definition rd_Rel :: "mem \<Rightarrow> addr \<Rightarrow> Elf32_Rel" where
  "rd_Rel m a = \<lparr>r_offset = ld32 m a, r_info = ld32 m (a + 4)\<rparr>"

definition SHT_PROGBITS :: u32 where "SHT_PROGBITS = 1"
definition SHT_SYMTAB :: u32 where "SHT_SYMTAB = 2"
definition SHT_NOBITS :: u32 where "SHT_NOBITS = 8"
definition SHT_REL :: u32 where "SHT_REL = 9"
definition SHF_ALLOC :: u32 where "SHF_ALLOC = push_bit 1 1"
definition SHN_UNDEF :: u16 where "SHN_UNDEF = 0"

definition STT_NOTYPE :: u8 where "STT_NOTYPE = 0"
definition STT_OBJECT :: u8 where "STT_OBJECT = 1"
definition STT_FUNC :: u8 where "STT_FUNC = 2"
definition STT_SECTION :: u8 where "STT_SECTION = 3"
definition STT_FILE :: u8 where "STT_FILE = 4"

definition R_386_32 :: u32 where "R_386_32 = 1"
definition R_386_PC32 :: u32 where "R_386_PC32 = 2"
definition R_386_16 :: u32 where "R_386_16 = 20"
definition R_386_PC16 :: u32 where "R_386_PC16 = 21"

definition ELF32_ST_TYPE :: "u8 \<Rightarrow> u8" where
  "ELF32_ST_TYPE val = val AND 0xf"

definition ELF32_ST_INFO :: "u8 \<Rightarrow> u8 \<Rightarrow> u8" where
  "ELF32_ST_INFO b t = push_bit 4 b + (t AND 0xf)"

definition ELF32_R_SYM :: "u32 \<Rightarrow> u32" where
  "ELF32_R_SYM val = drop_bit 8 val"

definition ELF32_R_TYPE :: "u32 \<Rightarrow> u32" where
  "ELF32_R_TYPE val = val AND 0xff"

subsection \<open>Loaded modules\<close>

text \<open>
  struct bl_module: name[64], count at 64, segments at 68, init at 72, uninit at 76, next at
  80; struct bl_segment: address, size, index (16 bits) and two bytes of padding.
\<close>

definition BL_MODULE_MAX_NAME_LEN :: u32 where "BL_MODULE_MAX_NAME_LEN = 64"

definition sizeof_module :: u32 where "sizeof_module = 84"

definition sizeof_segment :: u32 where "sizeof_segment = 12"

datatype print_item = Text string | Str_at addr

record loader_st = heap_st +
  bl_mod_list :: addr
  bl_mods :: addr
  console_log :: "print_item list"

datatype export_type = BL_EXPORT_TYPE_UNKNOWN | BL_EXPORT_TYPE_FUNC | BL_EXPORT_TYPE_VAR

record export_symbol =
  ex_address :: addr
  ex_type :: u32
  ex_name :: addr

fun export_num :: "export_type \<Rightarrow> u32" where
  "export_num BL_EXPORT_TYPE_UNKNOWN = -1"
| "export_num BL_EXPORT_TYPE_FUNC = 0"
| "export_num BL_EXPORT_TYPE_VAR = 1"

record link_map =
  bl_executable :: bool
  bl_symtab_start :: addr
  bl_symtab_end :: addr
  bl_hash_start :: addr
  bl_dynsym_start :: addr
  bl_dynstr_start :: addr
  bl_image_start :: addr
  str_mod_name :: addr
  str_initialize :: addr
  str_uninitialize :: addr

definition bl_print_strs :: "print_item list \<Rightarrow> loader_st \<Rightarrow> loader_st" where
  "bl_print_strs ps s = s\<lparr>console_log := console_log s @ ps\<rparr>"

subsection \<open>Exported symbols\<close>

partial_function (option) bl_symbols_scan :: "mem \<Rightarrow> addr \<Rightarrow> addr \<Rightarrow> addr \<Rightarrow> (bl_status \<times> export_symbol option) option" where
  "bl_symbols_scan m name p fin =
     (if p \<noteq> fin then
        (if bl_strncmp m (ld32 m (p + 8)) name BL_MODULE_MAX_NAME_LEN = 0
         then Some (BL_STATUS_SUCCESS, Some \<lparr>ex_address = ld32 m p, ex_type = ld32 m (p + 4), ex_name = ld32 m (p + 8)\<rparr>)
         else bl_symbols_scan m name (p + 12) fin)
      else Some (BL_STATUS_UNKNOWN_SYMBOL, None))"

definition bl_symbols_find_executable :: "link_map \<Rightarrow> mem \<Rightarrow> addr \<Rightarrow> (bl_status \<times> export_symbol option) option" where
  "bl_symbols_find_executable lk m name =
     (if name = 0 then Some (BL_STATUS_INVALID_PARAMETERS, None)
      else bl_symbols_scan m name (bl_symtab_start lk) (bl_symtab_end lk))"

definition elf_hash_step :: "u32 \<Rightarrow> u8 \<Rightarrow> u32" where
  "elf_hash_step h0 c =
     (let h = push_bit 4 h0 + ucast c;
          g = h AND 0xf0000000;
          h' = (if g \<noteq> 0 then h XOR drop_bit 24 g else h)
      in h' AND NOT g)"

partial_function (option) bl_symbols_elf_hash_loop :: "mem \<Rightarrow> addr \<Rightarrow> u32 \<Rightarrow> u32 option" where
  "bl_symbols_elf_hash_loop m name h =
     (if m name \<noteq> 0 then bl_symbols_elf_hash_loop m (name + 1) (elf_hash_step h (m name)) else Some h)"

definition bl_symbols_elf_hash :: "mem \<Rightarrow> addr \<Rightarrow> u32 option" where
  "bl_symbols_elf_hash m name = bl_symbols_elf_hash_loop m name 0"

definition hash_info :: "link_map \<Rightarrow> mem \<Rightarrow> u32 \<Rightarrow> u32" where
  "hash_info lk m i = ld32 m (bl_hash_start lk + 8 + 4 * i)"

definition hash_nbucket :: "link_map \<Rightarrow> mem \<Rightarrow> u32" where
  "hash_nbucket lk m = ld32 m (bl_hash_start lk)"

partial_function (option) bl_symbols_chain :: "link_map \<Rightarrow> mem \<Rightarrow> addr \<Rightarrow> u32 \<Rightarrow> addr option" where
  "bl_symbols_chain lk m name i =
     (if i \<noteq> 0 then
        (let smb = bl_dynsym_start lk + sizeof_Sym * i
         in case bl_strcmp m (bl_dynstr_start lk + st_name (rd_Sym m smb)) name of
              None \<Rightarrow> None
            | Some r \<Rightarrow> if r = 0 then Some smb
                        else bl_symbols_chain lk m name (hash_info lk m (i + hash_nbucket lk m)))
      else Some 0)"

definition bl_symbols_elf_find_symbol :: "link_map \<Rightarrow> mem \<Rightarrow> addr \<Rightarrow> addr option" where
  "bl_symbols_elf_find_symbol lk m name = do {
     h \<leftarrow> bl_symbols_elf_hash m name;
     if hash_nbucket lk m = 0 then None
     else bl_symbols_chain lk m name (hash_info lk m (h mod hash_nbucket lk m)) }"

definition bl_symbols_find_shared :: "link_map \<Rightarrow> mem \<Rightarrow> addr \<Rightarrow> (bl_status \<times> export_symbol option) option" where
  "bl_symbols_find_shared lk m name =
     (if name = 0 then Some (BL_STATUS_INVALID_PARAMETERS, None)
      else do {
        smb \<leftarrow> bl_symbols_elf_find_symbol lk m name;
        if smb = 0 then Some (BL_STATUS_UNKNOWN_SYMBOL, None)
        else let e = rd_Sym m smb; t = ELF32_ST_TYPE (st_info e);
                 ex = (\<lambda>ty. \<lparr>ex_address = st_value e, ex_type = export_num ty, ex_name = bl_dynstr_start lk + st_name e\<rparr>)
             in if t = STT_FUNC then Some (BL_STATUS_SUCCESS, Some (ex BL_EXPORT_TYPE_FUNC))
                else if t = STT_OBJECT then Some (BL_STATUS_SUCCESS, Some (ex BL_EXPORT_TYPE_VAR))
                else Some (BL_STATUS_UNKNOWN_SYMBOL, None) })"

definition bl_symbols_find :: "link_map \<Rightarrow> mem \<Rightarrow> addr \<Rightarrow> (bl_status \<times> export_symbol option) option" where
  "bl_symbols_find lk m name =
     (if bl_executable lk then bl_symbols_find_executable lk m name else bl_symbols_find_shared lk m name)"

subsection \<open>elf.c\<close>

definition bl_elf_check :: "mem \<Rightarrow> addr \<Rightarrow> u32 \<Rightarrow> bl_status" where
  "bl_elf_check m elf sz =
     (let h = rd_Ehdr m elf
      in if e_ident h ! 0 \<noteq> 0x7f \<or> e_ident h ! 1 \<noteq> 0x45 \<or> e_ident h ! 2 \<noteq> 0x4c \<or> e_ident h ! 3 \<noteq> 0x46 \<or>
            e_ident h ! 4 \<noteq> 1 \<or> e_ident h ! 5 \<noteq> 1 \<or> e_ident h ! 6 \<noteq> 1 \<or>
            e_type h \<noteq> 1 \<or> e_machine h \<noteq> 3 \<or> e_version h \<noteq> 1
         then BL_STATUS_INVALID_ELF
         else if sz \<noteq> e_shoff h + ucast (e_shnum h) * ucast (e_shentsize h)
         then BL_STATUS_INVALID_MODULE_SIZE
         else BL_STATUS_SUCCESS)"

definition section_at :: "mem \<Rightarrow> addr \<Rightarrow> nat \<Rightarrow> Elf32_Shdr" where
  "section_at m elf i = rd_Shdr m (elf + e_shoff (rd_Ehdr m elf) + sizeof_Shdr * of_nat i)"

definition elf_shnum :: "mem \<Rightarrow> addr \<Rightarrow> nat" where
  "elf_shnum m elf = unat (e_shnum (rd_Ehdr m elf))"

definition sections :: "mem \<Rightarrow> addr \<Rightarrow> Elf32_Shdr list" where
  "sections m elf = map (section_at m elf) [0..<elf_shnum m elf]"

definition is_alloc :: "Elf32_Shdr \<Rightarrow> bool" where
  "is_alloc sh \<longleftrightarrow> sh_flags sh AND SHF_ALLOC \<noteq> 0 \<and> sh_size sh \<noteq> 0"

text \<open>The first loop of \<open>bl_elf_load_image\<close>: image size, alignment, number of segments.\<close>

fun image_extent :: "Elf32_Shdr list \<Rightarrow> u32 \<Rightarrow> u32 \<Rightarrow> nat \<Rightarrow> u32 \<times> u32 \<times> nat" where
  "image_extent [] image_size alignment count = (image_size, alignment, count)"
| "image_extent (sh # shs) image_size alignment count =
     image_extent shs (BL_MEMORY_ALIGN_UP image_size alignment + sh_size sh)
       (if sh_addralign sh > alignment then sh_addralign sh else alignment)
       (if is_alloc sh then count + 1 else count)"

text \<open>The second loop, with the segment number \<open>j\<close> and the next free address.\<close>

definition put_segment :: "mem \<Rightarrow> addr \<Rightarrow> nat \<Rightarrow> u16 \<Rightarrow> addr \<Rightarrow> u32 \<Rightarrow> mem" where
  "put_segment m segments j index address sz =
     (let a = segments + sizeof_segment * of_nat j
      in st32 (st32 (st16 m (a + 8) index) a address) (a + 4) sz)"

definition load_section :: "mem \<Rightarrow> addr \<Rightarrow> Elf32_Shdr \<Rightarrow> addr \<Rightarrow> mem" where
  "load_section m elf sh image_ptr =
     (if sh_type sh = SHT_PROGBITS then snd (bl_memcpy m image_ptr (elf + sh_offset sh) (sh_size sh))
      else if sh_type sh = SHT_NOBITS then snd (bl_memset m image_ptr 0 (sh_size sh))
      else m)"

function load_sections :: "mem \<Rightarrow> addr \<Rightarrow> addr \<Rightarrow> nat \<Rightarrow> nat \<Rightarrow> addr \<Rightarrow> mem" where
  "load_sections m elf md i j image_ptr =
     (if i < elf_shnum m elf then
        (let sh = section_at m elf i
         in if is_alloc sh then
              (let p = BL_MEMORY_ALIGN_UP image_ptr (sh_addralign sh);
                   m1 = load_section m elf sh p;
                   m2 = put_segment m1 (ld32 m1 (md + 68)) j (of_nat i) p (sh_size sh)
               in load_sections m2 elf md (i + 1) (j + 1) (p + sh_size sh))
            else load_sections m elf md (i + 1) j image_ptr)
      else m)"
  by pat_completeness auto
termination
proof (relation "measure (\<lambda>(m, elf, md, i, j, p). 65536 - i)")
  fix m :: mem and elf and i :: nat
  assume "i < elf_shnum m elf"
  then have "i < 65536" using unat_lt2p [of "e_shnum (rd_Ehdr m elf)"] by (simp add: elf_shnum_def)
  then show "((y, elf, md', i + 1, j', p'), m, elf, md, i, j, p) \<in> measure (\<lambda>(m, elf, md, i, j, p). 65536 - i)"
    for y md' j' p' md j p by simp
  then show "((y, elf, md', i + 1, j', p'), m, elf, md, i, j, p) \<in> measure (\<lambda>(m, elf, md, i, j, p). 65536 - i)"
    for y md' j' p' md j p by simp
qed simp

declare load_sections.simps [simp del]

definition bl_elf_load_image :: "addr \<Rightarrow> addr \<Rightarrow> loader_st \<Rightarrow> (bl_status \<times> loader_st) option" where
  "bl_elf_load_image elf md s =
     (case image_extent (sections (mem s) elf) 0 1 0 of (image_size, alignment, count) \<Rightarrow> do {
        let s1 = s\<lparr>mem := st32 (mem s) (md + 64) (of_nat count)\<rparr>;
        (segments, s2) \<leftarrow> bl_heap_alloc s1 (of_nat count * sizeof_segment);
        let s3 = s2\<lparr>mem := st32 (mem s2) (md + 68) segments\<rparr>;
        if segments = 0 then Some (BL_STATUS_MEMORY_ALLOCATION_FAILED, s3)
        else do {
          (image_ptr, s4) \<leftarrow> bl_heap_alloc_align s3 image_size alignment;
          if image_ptr = 0 then
            Some (BL_STATUS_MEMORY_ALLOCATION_FAILED, bl_heap_free s4 segments (of_nat count * sizeof_segment))
          else Some (BL_STATUS_SUCCESS, s4\<lparr>mem := load_sections (mem s4) elf md 0 0 image_ptr\<rparr>) } })"

fun section_by_name_loop :: "mem \<Rightarrow> addr \<Rightarrow> addr \<Rightarrow> addr \<Rightarrow> nat list \<Rightarrow> addr" where
  "section_by_name_loop m elf strings name [] = 0"
| "section_by_name_loop m elf strings name (i # is) =
     (if bl_strncmp m (strings + sh_name (section_at m elf i)) name BL_MODULE_MAX_NAME_LEN = 0
      then elf + sh_offset (section_at m elf i)
      else section_by_name_loop m elf strings name is)"

definition bl_elf_section_by_name :: "mem \<Rightarrow> addr \<Rightarrow> addr \<Rightarrow> addr" where
  "bl_elf_section_by_name m elf name =
     (let h = rd_Ehdr m elf;
          strtab = rd_Shdr m (elf + e_shoff h + ucast (e_shstrndx h) * ucast (e_shentsize h))
      in section_by_name_loop m elf (elf + sh_offset strtab) name [0..<elf_shnum m elf])"

definition mod_count :: "mem \<Rightarrow> addr \<Rightarrow> nat" where
  "mod_count m md = nat (sint (ld32 m (md + 64)))"

definition segment_at :: "mem \<Rightarrow> addr \<Rightarrow> nat \<Rightarrow> addr" where
  "segment_at m md i = ld32 m (md + 68) + sizeof_segment * of_nat i"

fun section_by_index_loop :: "mem \<Rightarrow> addr \<Rightarrow> u16 \<Rightarrow> nat list \<Rightarrow> addr" where
  "section_by_index_loop m md index [] = 0"
| "section_by_index_loop m md index (i # is) =
     (if ld16 m (segment_at m md i + 8) = index then ld32 m (segment_at m md i)
      else section_by_index_loop m md index is)"

definition bl_elf_section_by_index :: "mem \<Rightarrow> addr \<Rightarrow> u16 \<Rightarrow> addr" where
  "bl_elf_section_by_index m md index = section_by_index_loop m md index [0..<mod_count m md]"

definition set_st_value :: "addr \<Rightarrow> u32 \<Rightarrow> loader_st \<Rightarrow> loader_st" where
  "set_st_value smb v s = s\<lparr>mem := st32 (mem s) (smb + 4) v\<rparr>"

definition bl_elf_resolve_symbol :: "link_map \<Rightarrow> addr \<Rightarrow> addr \<Rightarrow> addr \<Rightarrow> loader_st \<Rightarrow> (bl_status \<times> loader_st) option" where
  "bl_elf_resolve_symbol lk smb name md s =
     (let e = rd_Sym (mem s) smb;
          t = ELF32_ST_TYPE (st_info e);
          base = bl_elf_section_by_index (mem s) md (st_shndx e)
      in if t = STT_FUNC then do {
           let s1 = set_st_value smb (st_value e + base) s;
           r1 \<leftarrow> bl_strcmp (mem s1) name (str_initialize lk);
           let s2 = (if r1 = 0 then s1\<lparr>mem := st32 (mem s1) (md + 72) (ld32 (mem s1) (smb + 4))\<rparr> else s1);
           r2 \<leftarrow> bl_strcmp (mem s2) name (str_uninitialize lk);
           let s3 = (if r2 = 0 then s2\<lparr>mem := st32 (mem s2) (md + 76) (ld32 (mem s2) (smb + 4))\<rparr> else s2);
           Some (BL_STATUS_SUCCESS, s3) }
         else if t = STT_NOTYPE \<or> t = STT_OBJECT then
           (if st_name e \<noteq> 0 \<and> st_shndx e = SHN_UNDEF then do {
              (status, ex) \<leftarrow> bl_symbols_find lk (mem s) name;
              case ex of
                None \<Rightarrow> Some (status, bl_print_strs [Text ''`'', Str_at name,
                          Text ([CHR 0x27] @ '' is either unexported or doesn'' @ [CHR 0x27] @ ''t exist'' @ [CHR 0x0a])] s)
              | Some x \<Rightarrow>
                  (let s1 = set_st_value smb (if bl_executable lk then ex_address x else ex_address x + bl_image_start lk) s
                   in Some (BL_STATUS_SUCCESS,
                        if ex_type x = export_num BL_EXPORT_TYPE_FUNC
                        then s1\<lparr>mem := (mem s1)(smb + 12 := ELF32_ST_INFO (ELF32_ST_TYPE (mem s1 (smb + 12))) STT_FUNC)\<rparr>
                        else s1)) }
            else Some (BL_STATUS_SUCCESS, set_st_value smb (st_value e + base) s))
         else if t = STT_SECTION then Some (BL_STATUS_SUCCESS, set_st_value smb base s)
         else if t = STT_FILE then Some (BL_STATUS_SUCCESS, set_st_value smb 0 s)
         else Some (BL_STATUS_INVALID_ELF, s))"

fun resolve_symbols :: "link_map \<Rightarrow> addr \<Rightarrow> addr \<Rightarrow> addr \<Rightarrow> nat list \<Rightarrow> loader_st \<Rightarrow> (bl_status \<times> loader_st) option" where
  "resolve_symbols lk symtab strings md [] s = Some (BL_STATUS_SUCCESS, s)"
| "resolve_symbols lk symtab strings md (j # js) s = do {
     let smb = symtab + sizeof_Sym * of_nat j;
     (status, s1) \<leftarrow> bl_elf_resolve_symbol lk smb (strings + st_name (rd_Sym (mem s) smb)) md s;
     if failed status then Some (status, s1) else resolve_symbols lk symtab strings md js s1 }"

fun load_symbols_loop :: "link_map \<Rightarrow> addr \<Rightarrow> addr \<Rightarrow> nat list \<Rightarrow> loader_st \<Rightarrow> (bl_status \<times> loader_st) option" where
  "load_symbols_loop lk elf md [] s = Some (BL_STATUS_SUCCESS, s)"
| "load_symbols_loop lk elf md (i # is) s =
     (let sh = section_at (mem s) elf i; h = rd_Ehdr (mem s) elf
      in if sh_type sh \<noteq> SHT_SYMTAB then load_symbols_loop lk elf md is s
         else if sh_entsize sh = 0 then None
         else do {
           let strtab = rd_Shdr (mem s) (elf + e_shoff h + sh_link sh * ucast (e_shentsize h));
           (status, s1) \<leftarrow> resolve_symbols lk (elf + sh_offset sh) (elf + sh_offset strtab) md
                             [0..<unat (sh_size sh div sh_entsize sh)] s;
           if failed status then Some (status, s1) else load_symbols_loop lk elf md is s1 })"

definition bl_elf_load_symbols :: "link_map \<Rightarrow> addr \<Rightarrow> addr \<Rightarrow> loader_st \<Rightarrow> (bl_status \<times> loader_st) option" where
  "bl_elf_load_symbols lk elf md s = load_symbols_loop lk elf md [0..<elf_shnum (mem s) elf] s"

text \<open>One relocation: \<open>place\<close> is the patched address, \<open>value\<close> the symbol's value.\<close>

definition relocate_one :: "mem \<Rightarrow> u32 \<Rightarrow> addr \<Rightarrow> u32 \<Rightarrow> mem" where
  "relocate_one m type place val =
     (if type = R_386_16 then st16 m place (ld16 m place + ucast val)
      else if type = R_386_PC16 then st16 m place (ld16 m place + ucast (val - place))
      else if type = R_386_32 then st32 m place (ld32 m place + val)
      else if type = R_386_PC32 then st32 m place (ld32 m place + (val - place))
      else m)"

fun relocate_loop :: "addr \<Rightarrow> addr \<Rightarrow> addr \<Rightarrow> nat list \<Rightarrow> mem \<Rightarrow> mem" where
  "relocate_loop applied rels symtab [] m = m"
| "relocate_loop applied rels symtab (i # is) m =
     (let r = rd_Rel m (rels + sizeof_Rel * of_nat i)
      in relocate_loop applied rels symtab is
           (relocate_one m (ELF32_R_TYPE (r_info r)) (applied + r_offset r)
              (st_value (rd_Sym m (symtab + sizeof_Sym * ELF32_R_SYM (r_info r))))))"

definition bl_elf_relocate_section :: "addr \<Rightarrow> addr \<Rightarrow> Elf32_Shdr \<Rightarrow> Elf32_Shdr \<Rightarrow> loader_st \<Rightarrow> (bl_status \<times> loader_st) option" where
  "bl_elf_relocate_section md elf rel_section sym_section s =
     (if sh_entsize rel_section = 0 then None
      else Some (BL_STATUS_SUCCESS,
        s\<lparr>mem := relocate_loop (bl_elf_section_by_index (mem s) md (ucast (sh_info rel_section)))
                  (elf + sh_offset rel_section) (elf + sh_offset sym_section)
                  [0..<unat (sh_size rel_section div sh_entsize rel_section)] (mem s)\<rparr>))"

fun relocate_symbols_loop :: "addr \<Rightarrow> addr \<Rightarrow> nat list \<Rightarrow> loader_st \<Rightarrow> (bl_status \<times> loader_st) option" where
  "relocate_symbols_loop elf md [] s = Some (BL_STATUS_SUCCESS, s)"
| "relocate_symbols_loop elf md (i # is) s =
     (let sh = section_at (mem s) elf i
      in if sh_type sh = SHT_REL then do {
           (status, s1) \<leftarrow> bl_elf_relocate_section md elf sh (section_at (mem s) elf (unat (sh_link sh))) s;
           if failed status then Some (status, s1) else relocate_symbols_loop elf md is s1 }
         else relocate_symbols_loop elf md is s)"

definition bl_elf_relocate_symbols :: "addr \<Rightarrow> addr \<Rightarrow> loader_st \<Rightarrow> (bl_status \<times> loader_st) option" where
  "bl_elf_relocate_symbols elf md s = relocate_symbols_loop elf md [0..<elf_shnum (mem s) elf] s"

subsection \<open>loader.c\<close>

definition bl_loader_set_module_list :: "addr \<Rightarrow> loader_st \<Rightarrow> loader_st" where
  "bl_loader_set_module_list ptr s =
     (if ptr \<noteq> 0 \<and> bl_mod_list s = 0 then s\<lparr>bl_mod_list := ptr\<rparr> else s)"

partial_function (option) get_module_loop :: "mem \<Rightarrow> addr \<Rightarrow> addr \<Rightarrow> addr option" where
  "get_module_loop m name md =
     (if md \<noteq> 0 then
        (if bl_strncmp m md name BL_MODULE_MAX_NAME_LEN = 0 then Some md
         else get_module_loop m name (ld32 m (md + 80)))
      else Some 0)"

definition bl_loader_get_module :: "loader_st \<Rightarrow> addr \<Rightarrow> addr option" where
  "bl_loader_get_module s name = get_module_loop (mem s) name (bl_mods s)"

text \<open>What \<open>bl_elf_load\<close> does between the allocation of the module and its registration.\<close>

definition elf_load_steps :: "link_map \<Rightarrow> addr \<Rightarrow> addr \<Rightarrow> loader_st \<Rightarrow> (bl_status \<times> loader_st) option" where
  "elf_load_steps lk elf md s = do {
     (st1, s1) \<leftarrow> bl_elf_load_image elf md s;
     if failed st1 then Some (st1, s1) else do {
     (st2, s2) \<leftarrow> bl_elf_load_symbols lk elf md s1;
     if failed st2 then Some (st2, s2) else do {
     (st3, s3) \<leftarrow> bl_elf_relocate_symbols elf md s2;
     if failed st3 then Some (st3, s3)
     else if ld32 (mem s3) (md + 72) = 0 then Some (BL_STATUS_INVALID_ELF, s3)
     else Some (BL_STATUS_SUCCESS, s3) } } }"

definition new_module :: "addr \<Rightarrow> addr \<Rightarrow> loader_st \<Rightarrow> loader_st" where
  "new_module md name s =
     (let m1 = snd (bl_strncpy (mem s) md name BL_MODULE_MAX_NAME_LEN)
      in s\<lparr>mem := st32 (st32 (st32 m1 (md + 72) 0) (md + 76) 0) (md + 80) 0\<rparr>)"

definition bl_elf_load :: "link_map \<Rightarrow> (addr \<Rightarrow> loader_st \<Rightarrow> loader_st option) \<Rightarrow> addr \<Rightarrow> u32 \<Rightarrow> loader_st \<Rightarrow> (bl_status \<times> loader_st) option" where
  "bl_elf_load lk run elf sz s =
     (let status = bl_elf_check (mem s) elf sz
      in if failed status then Some (status, s)
      else let name = bl_elf_section_by_name (mem s) elf (str_mod_name lk)
      in if name = 0 then Some (BL_STATUS_INVALID_ELF,
           bl_print_strs [Text (''.bl_mod_name ELF section doesn'' @ [CHR 0x27] @ ''t exist'' @ [CHR 0x0a])] s)
      else do {
        old \<leftarrow> bl_loader_get_module s name;
        if old \<noteq> 0 then Some (BL_STATUS_MODULE_ALREADY_LOADED, s)
        else do {
          (md, s1) \<leftarrow> bl_heap_alloc s sizeof_module;
          if md = 0 then Some (BL_STATUS_MEMORY_ALLOCATION_FAILED, s1)
          else do {
            (st, s2) \<leftarrow> elf_load_steps lk elf md (new_module md name s1);
            if failed st then Some (st, bl_heap_free s2 md sizeof_module)
            else do {
              s3 \<leftarrow> run (ld32 (mem s2) (md + 72)) s2;
              Some (BL_STATUS_SUCCESS, s3\<lparr>mem := st32 (mem s3) (md + 80) (bl_mods s3), bl_mods := md\<rparr>) } } } })"

fun loader_init_loop :: "link_map \<Rightarrow> (addr \<Rightarrow> loader_st \<Rightarrow> loader_st option) \<Rightarrow> nat \<Rightarrow> addr \<Rightarrow> loader_st \<Rightarrow> (bl_status \<times> loader_st) option" where
  "loader_init_loop lk run 0 md s = Some (BL_STATUS_SUCCESS, s)"
| "loader_init_loop lk run (Suc n) md s =
     (if ld64 (mem s) md \<noteq> BL_MODULE_HEADER_MAGIC then Some (BL_STATUS_INVALID_MODULE, s)
      else do {
        (status, s1) \<leftarrow> bl_elf_load lk run (md + 12) (ld32 (mem s) (md + 8)) s;
        if failed status then Some (status, s1)
        else loader_init_loop lk run n (md + 12 + ld32 (mem s1) (md + 8)) s1 })"

definition bl_loader_init :: "link_map \<Rightarrow> (addr \<Rightarrow> loader_st \<Rightarrow> loader_st option) \<Rightarrow> loader_st \<Rightarrow> (bl_status \<times> loader_st) option" where
  "bl_loader_init lk run s =
     (if bl_mod_list s = 0 \<or> ld64 (mem s) (bl_mod_list s) \<noteq> BL_MODULE_LIST_HEADER_MAGIC
      then Some (BL_STATUS_INVALID_MODULE_LIST, s)
      else loader_init_loop lk run (unat (ld32 (mem s) (bl_mod_list s + 8))) (bl_mod_list s + 16) s)"

subsection \<open>Where the image is placed\<close>

text \<open>
  The reference placement: every section that occupies memory starts at the next multiple of
  its alignment behind the previous one.
\<close>

fun place :: "(nat \<times> Elf32_Shdr) list \<Rightarrow> nat \<Rightarrow> (nat \<times> nat \<times> Elf32_Shdr) list" where
  "place [] p = []"
| "place ((i, sh) # xs) p =
     (if is_alloc sh then
        (let q = round_up p (unat (sh_addralign sh)) in (i, q, sh) # place xs (q + unat (sh_size sh)))
      else place xs p)"

fun place_end :: "(nat \<times> Elf32_Shdr) list \<Rightarrow> nat \<Rightarrow> nat" where
  "place_end [] p = p"
| "place_end ((i, sh) # xs) p =
     (if is_alloc sh then place_end xs (round_up p (unat (sh_addralign sh)) + unat (sh_size sh))
      else place_end xs p)"

definition align_ok :: "Elf32_Shdr \<Rightarrow> bool" where
  "align_ok sh \<longleftrightarrow> sh_addralign sh \<noteq> 0 \<and> sh_addralign sh AND (sh_addralign sh - 1) = 0"

lemma align_okE:
  assumes "align_ok sh" obtains k where "k < 32" "sh_addralign sh = 2 ^ k" "unat (sh_addralign sh) = 2 ^ k"
  using assms and_pred_power2 [of "sh_addralign sh"] unat_power2 [where 'a=32] by (auto simp: align_ok_def)

lemma align_ok_pos: "align_ok sh \<Longrightarrow> 0 < unat (sh_addralign sh)"
  by (simp add: align_ok_def unat_gt_0)

lemma place_end_ge: "\<forall>(i, sh) \<in> set xs. align_ok sh \<Longrightarrow> p \<le> place_end xs p"
proof (induction xs p rule: place_end.induct)
  case (2 i sh xs p)
  then show ?case
    using round_up_ge [of "unat (sh_addralign sh)" p] align_ok_pos [of sh] by (auto intro: order_trans)
qed simp

lemma place_inside:
  "\<forall>(i, sh) \<in> set xs. align_ok sh \<Longrightarrow> (i, q, sh) \<in> set (place xs p) \<Longrightarrow>
     p \<le> q \<and> q + unat (sh_size sh) \<le> place_end xs p \<and> unat (sh_addralign sh) dvd q \<and> is_alloc sh"
proof (induction xs p rule: place.induct)
  case (2 k s xs p)
  let ?q = "round_up p (unat (sh_addralign s))"
  have ge: "p \<le> ?q" using 2(3) align_ok_pos [of s] by (auto intro: round_up_ge)
  have rest: "\<forall>(i, sh) \<in> set xs. align_ok sh" using 2(3) by simp
  show ?case
  proof (cases "is_alloc s")
    case True
    then consider "(i, q, sh) = (k, ?q, s)" | "(i, q, sh) \<in> set (place xs (?q + unat (sh_size s)))"
      using 2(4) by (auto simp: Let_def)
    then show ?thesis
      using 2(1) [OF True refl rest] place_end_ge [OF rest, of "?q + unat (sh_size s)"] True ge
      by cases auto
  next
    case False
    then show ?thesis using 2(2) [OF False rest] 2(4) by simp
  qed
qed simp

text \<open>Placed sections do not overlap.\<close>

lemma place_disjoint:
  "\<forall>(i, sh) \<in> set xs. align_ok sh \<Longrightarrow>
     sorted_wrt (\<lambda>(i, q, sh) (i', q', sh'). q + unat (sh_size sh) \<le> q') (place xs p)"
proof (induction xs p rule: place.induct)
  case (2 k s xs p)
  have rest: "\<forall>(i, sh) \<in> set xs. align_ok sh" using 2(3) by simp
  show ?case
    using 2(1) [OF _ refl rest] 2(2) [OF _ rest] place_inside [OF rest]
    by (auto simp: Let_def)
qed simp

subsection \<open>Reading the headers back after a store elsewhere\<close>

lemma mem_get_part:
  assumes "mem_get m' a n = mem_get m a n" "k + j \<le> n"
  shows "mem_get m' (a + of_nat k) j = mem_get m (a + of_nat k) j"
proof -
  have "take j (drop k (mem_get m' a n)) = take j (drop k (mem_get m a n))" using assms(1) by simp
  then show ?thesis using assms(2) by (simp add: drop_mem_get take_mem_get)
qed

lemma Ehdr_cong: "mem_get m' elf n = mem_get m elf n \<Longrightarrow> 52 \<le> n \<Longrightarrow> rd_Ehdr m' elf = rd_Ehdr m elf"
  using mem_get_part [of m' elf n m 0 16] mem_get_part [of m' elf n m 16 2] mem_get_part [of m' elf n m 18 2]
    mem_get_part [of m' elf n m 20 4] mem_get_part [of m' elf n m 32 4] mem_get_part [of m' elf n m 46 2]
    mem_get_part [of m' elf n m 48 2] mem_get_part [of m' elf n m 50 2]
  by (simp add: rd_Ehdr_def ld16_def ld32_def)

lemma Shdr_cong:
  assumes "mem_get m' a 40 = mem_get m a 40" shows "rd_Shdr m' a = rd_Shdr m a"
  using mem_get_part [OF assms, of 0 4] mem_get_part [OF assms, of 4 4] mem_get_part [OF assms, of 8 4]
    mem_get_part [OF assms, of 12 4] mem_get_part [OF assms, of 16 4] mem_get_part [OF assms, of 20 4]
    mem_get_part [OF assms, of 24 4] mem_get_part [OF assms, of 28 4] mem_get_part [OF assms, of 32 4]
    mem_get_part [OF assms, of 36 4]
  by (simp add: rd_Shdr_def ld32_def)

text \<open>The file holds its section table.\<close>

definition elf_whole :: "mem \<Rightarrow> addr \<Rightarrow> nat \<Rightarrow> bool" where
  "elf_whole m elf n \<longleftrightarrow> 52 \<le> n \<and> unat (e_shoff (rd_Ehdr m elf)) + 40 * elf_shnum m elf \<le> n"

lemma elf_cong:
  assumes "mem_get m' elf n = mem_get m elf n" "elf_whole m elf n"
  shows "elf_shnum m' elf = elf_shnum m elf"
    and "i < elf_shnum m elf \<Longrightarrow> section_at m' elf i = section_at m elf i"
    and "elf_whole m' elf n"
proof -
  have E: "rd_Ehdr m' elf = rd_Ehdr m elf" using assms by (intro Ehdr_cong) (auto simp: elf_whole_def)
  then show n: "elf_shnum m' elf = elf_shnum m elf" by (simp add: elf_shnum_def)
  show "elf_whole m' elf n" using assms(2) by (simp add: elf_whole_def E n)
  assume i: "i < elf_shnum m elf"
  let ?o = "unat (e_shoff (rd_Ehdr m elf)) + 40 * i"
  have "elf + e_shoff (rd_Ehdr m elf) + sizeof_Shdr * of_nat i = elf + of_nat ?o"
    by (simp add: sizeof_Shdr_def)
  moreover have "?o + 40 \<le> n" using assms(2) i by (simp add: elf_whole_def)
  ultimately show "section_at m' elf i = section_at m elf i"
    unfolding section_at_def E using mem_get_part [OF assms(1), of ?o 40] by (intro Shdr_cong) (simp add: add.assoc)
qed

subsection \<open>The image loader\<close>

lemma put_segment_frame:
  assumes "a = segments + sizeof_segment * of_nat j" "fits a 12" "apart a 12 r n" "fits r n"
  shows "mem_get (put_segment m segments j index q sz) r n = mem_get m r n"
  using assms unat_add_lt [of a 4] unat_add_lt [of a 8]
  unfolding put_segment_def Let_def st32_def st16_def assms(1) [symmetric]
  by (subst mem_get_put_apart; (subst mem_get_put_apart; (subst mem_get_put_apart)?)?) (auto simp: fits_def apart_def)

lemma put_segment_read:
  fixes m :: mem and index :: u16 and q sz :: u32
  assumes "a = segments + sizeof_segment * of_nat j" "fits a 12"
  defines "m' \<equiv> put_segment m segments j index q sz"
  shows "ld32 m' a = q" "ld32 m' (a + 4) = sz" "ld16 m' (a + 8) = index"
proof -
  have u: "unat (a + 4) = unat a + 4" "unat (a + 8) = unat a + 8"
    using assms(2) unat_add_lt [of a 4] unat_add_lt [of a 8] by (auto simp: fits_def)
  have m': "m' = st32 (st32 (st16 m (a + 8) index) a q) (a + 4) sz"
    by (simp add: m'_def put_segment_def assms(1) Let_def)
  show "ld32 m' (a + 4) = sz" by (simp add: m' ld_st_same)
  have "ld32 m' a = ld32 (st32 (st16 m (a + 8) index) a q) a"
    using u assms(2) unfolding m' by (subst (2) st32_def) (simp add: ld_put_apart apart_def fits_def)
  then show "ld32 m' a = q" by (simp add: ld_st_same)
  have "ld16 m' (a + 8) = ld16 (st16 m (a + 8) index) (a + 8)"
    using u assms(2) unfolding m' st32_def by (simp add: ld_put_apart apart_def fits_def)
  then show "ld16 m' (a + 8) = index" by (simp add: ld_st_same)
qed

lemma load_section_put:
  assumes "q \<noteq> 0" "elf + sh_offset sh \<noteq> 0" "fits q (unat (sh_size sh))" "fits (elf + sh_offset sh) (unat (sh_size sh))"
    "is_alloc sh"
  obtains d where "load_section m elf sh q = mem_put m q d" "length d \<le> unat (sh_size sh)"
    "sh_type sh = SHT_PROGBITS \<Longrightarrow> d = mem_get m (elf + sh_offset sh) (unat (sh_size sh))"
proof -
  have "unat (sh_size sh - 1) \<le> unat (sh_size sh)"
    using assms(5) by (simp add: is_alloc_def unat_minus_one)
  let ?d = "if sh_type sh = SHT_PROGBITS then mem_get m (elf + sh_offset sh) (unat (sh_size sh))
            else if sh_type sh = SHT_NOBITS then replicate (unat (sh_size sh - 1)) 0 else []"
  show thesis
  proof (rule that [of ?d])
    show "load_section m elf sh q = mem_put m q ?d"
      using assms by (simp add: load_section_def bl_memcpy_correct bl_memset_correct)
    show "length ?d \<le> unat (sh_size sh)" using \<open>unat (sh_size sh - 1) \<le> unat (sh_size sh)\<close> by simp
  qed simp
qed

text \<open>Segment record \<open>k\<close> of a module whose segment array is at \<open>seg\<close>.\<close>

definition segment_is :: "mem \<Rightarrow> addr \<Rightarrow> nat \<Rightarrow> nat \<times> nat \<times> Elf32_Shdr \<Rightarrow> bool" where
  "segment_is m seg k = (\<lambda>(i, q, sh).
     let a = seg + sizeof_segment * of_nat k
     in ld32 m a = of_nat q \<and> ld32 m (a + 4) = sh_size sh \<and> ld16 m (a + 8) = of_nat i)"

definition loaded :: "mem \<Rightarrow> mem \<Rightarrow> addr \<Rightarrow> nat \<times> nat \<times> Elf32_Shdr \<Rightarrow> bool" where
  "loaded m m' elf = (\<lambda>(i, q, sh). sh_type sh = SHT_PROGBITS \<longrightarrow>
     mem_get m' (of_nat q) (unat (sh_size sh)) = mem_get m (elf + sh_offset sh) (unat (sh_size sh)))"

definition indexed_sections :: "mem \<Rightarrow> addr \<Rightarrow> nat \<Rightarrow> (nat \<times> Elf32_Shdr) list" where
  "indexed_sections m elf i = map (\<lambda>k. (k, section_at m elf k)) [i..<elf_shnum m elf]"

lemma indexed_sections_Cons:
  "i < elf_shnum m elf \<Longrightarrow> indexed_sections m elf i = (i, section_at m elf i) # indexed_sections m elf (i + 1)"
  by (simp add: indexed_sections_def upt_conv_Cons)

lemma indexed_sections_Nil: "elf_shnum m elf \<le> i \<Longrightarrow> indexed_sections m elf i = []"
  by (simp add: indexed_sections_def)

lemma indexed_sections_cong:
  assumes "mem_get m' elf n = mem_get m elf n" "elf_whole m elf n"
  shows "indexed_sections m' elf i = indexed_sections m elf i"
  unfolding indexed_sections_def elf_cong(1) [OF assms]
  by (rule map_cong) (auto simp: elf_cong(2) [OF assms])

text \<open>
  The regions the loader works on: the file, the module structure, the segment array with
  room for \<open>cnt\<close> records, and the image up to \<open>hi\<close>. They do not overlap.
\<close>

definition regions_ok :: "addr \<Rightarrow> nat \<Rightarrow> addr \<Rightarrow> addr \<Rightarrow> nat \<Rightarrow> addr \<Rightarrow> nat \<Rightarrow> bool" where
  "regions_ok elf n md seg cnt p hi \<longleftrightarrow>
     elf \<noteq> 0 \<and> p \<noteq> 0 \<and> fits elf n \<and> fits md 84 \<and> fits seg (12 * cnt) \<and> hi < 2 ^ 32 \<and> unat p \<le> hi \<and>
     apart elf n seg (12 * cnt) \<and> apart elf n p (hi - unat p) \<and>
     apart md 84 seg (12 * cnt) \<and> apart md 84 p (hi - unat p) \<and> apart seg (12 * cnt) p (hi - unat p)"

definition sections_ok :: "mem \<Rightarrow> addr \<Rightarrow> nat \<Rightarrow> bool" where
  "sections_ok m elf n \<longleftrightarrow> elf_whole m elf n \<and>
     (\<forall>(i, sh) \<in> set (indexed_sections m elf 0). align_ok sh \<and>
        (is_alloc sh \<longrightarrow> unat (sh_offset sh) + unat (sh_size sh) \<le> n))"

definition outside :: "nat \<Rightarrow> nat \<Rightarrow> addr \<Rightarrow> nat \<Rightarrow> bool" where
  "outside lo hi r l \<longleftrightarrow> unat r + l \<le> lo \<or> hi \<le> unat r"

lemma load_step:
  assumes ok: "sections_ok m elf n" "regions_ok elf n md seg cnt p hi" "ld32 m (md + 68) = seg"
    and i: "i < elf_shnum m elf" "sh = section_at m elf i" "is_alloc sh"
    and q: "q = round_up (unat p) (unat (sh_addralign sh))" "q + unat (sh_size sh) \<le> hi" and j: "j < cnt"
    and P: "P = BL_MEMORY_ALIGN_UP p (sh_addralign sh)"
    and m1: "m1 = load_section m elf sh P"
    and m2: "m2 = put_segment m1 (ld32 m1 (md + 68)) j (of_nat i) P (sh_size sh)"
  shows "unat (P + sh_size sh) = q + unat (sh_size sh)" "of_nat q = P"
    and "segment_is m2 seg j (i, q, sh)" "loaded m m2 elf (i, q, sh)"
    and "\<And>r l. fits r l \<Longrightarrow> outside (unat p) hi r l \<Longrightarrow> outside (unat seg + 12 * j) (unat seg + 12 * cnt) r l \<Longrightarrow>
           mem_get m2 r l = mem_get m r l"
    and "regions_ok elf n md seg cnt (P + sh_size sh) hi"
proof -
  have "(i, sh) \<in> set (indexed_sections m elf 0)" using i by (auto simp: indexed_sections_def)
  then have al: "align_ok sh" and off: "unat (sh_offset sh) + unat (sh_size sh) \<le> n"
    using ok(1) i(3) by (auto simp: sections_ok_def)
  note reg = ok(2) [unfolded regions_ok_def]
  have sz: "0 < unat (sh_size sh)" using i(3) by (simp add: is_alloc_def unat_gt_0)
  have qp: "unat p \<le> q" unfolding q(1) using align_ok_pos [OF al] by (rule round_up_ge)
  obtain k where k: "k < 32" "sh_addralign sh = 2 ^ k" "unat (sh_addralign sh) = 2 ^ k" by (rule align_okE [OF al])
  have "q < 2 ^ 32" using q(2) reg sz by linarith
  then have uP: "unat P = q" using align_up_round_up [of k p] k q(1) by (simp add: P)
  then show nP: "of_nat q = P" by (metis of_nat_unat ucast_id)
  have P0: "P \<noteq> 0" using uP qp reg unat_gt_0 by (metis le_zero_eq unat_eq_zero)
  have fP: "fits P (unat (sh_size sh))" using uP q(2) reg by (simp add: fits_def)
  show uE: "unat (P + sh_size sh) = q + unat (sh_size sh)"
    using uP q(2) reg unat_add_lem [of P "sh_size sh"] by simp
  have eo: "unat (elf + sh_offset sh) = unat elf + unat (sh_offset sh)"
    using reg off sz unat_add_lem [of elf "sh_offset sh"] by (simp add: fits_def)
  then have e0: "elf + sh_offset sh \<noteq> 0" using reg unat_eq_zero by (metis add_is_0)
  have fe: "fits (elf + sh_offset sh) (unat (sh_size sh))" using eo off reg by (simp add: fits_def)
  obtain d where d: "m1 = mem_put m P d" "length d \<le> unat (sh_size sh)"
      "sh_type sh = SHT_PROGBITS \<Longrightarrow> d = mem_get m (elf + sh_offset sh) (unat (sh_size sh))"
    using load_section_put [OF P0 e0 fP fe i(3)] m1 by metis
  have f1: "mem_get m1 r l = mem_get m r l" if "fits r l" "outside q (q + unat (sh_size sh)) r l" for r l
    unfolding d(1) using that uP d(2) fP by (intro mem_get_put_apart) (auto simp: apart_def outside_def fits_def)
  have md68: "unat (md + 68) = unat md + 68" using reg unat_add_lt [of md 68] by (simp add: fits_def)
  have "mem_get m1 (md + 68) 4 = mem_get m (md + 68) 4"
    using reg md68 qp q(2) by (intro f1) (auto simp: fits_def outside_def apart_def)
  then have s1: "ld32 m1 (md + 68) = seg" using ok(3) by (simp add: ld32_def)
  let ?a = "seg + sizeof_segment * of_nat j"
  have ua: "unat ?a = unat seg + 12 * j"
    using reg j unat_add_lt [of seg "12 * j"] by (simp add: sizeof_segment_def fits_def)
  have fa: "fits ?a 12" using ua reg j by (simp add: fits_def)
  show "segment_is m2 seg j (i, q, sh)"
    using put_segment_read [OF refl fa] by (simp add: segment_is_def m2 s1 Let_def nP)
  have f2: "mem_get m2 r l = mem_get m1 r l" if "fits r l" "outside (unat ?a) (unat ?a + 12) r l" for r l
    unfolding m2 s1 using that by (intro put_segment_frame [OF refl fa]) (auto simp: apart_def outside_def)
  show "mem_get m2 r l = mem_get m r l"
    if "fits r l" "outside (unat p) hi r l" "outside (unat seg + 12 * j) (unat seg + 12 * cnt) r l" for r l
  proof -
    have "mem_get m2 r l = mem_get m1 r l" using that ua j by (intro f2) (auto simp: outside_def)
    also have "\<dots> = mem_get m r l" using that qp q(2) by (intro f1) (auto simp: outside_def)
    finally show ?thesis .
  qed
  show "loaded m m2 elf (i, q, sh)"
  proof -
    have "mem_get m2 P (unat (sh_size sh)) = mem_get m1 P (unat (sh_size sh))"
      using reg uP qp q(2) ua j fP by (intro f2) (auto simp: outside_def apart_def)
    moreover have "mem_get m1 P (unat (sh_size sh)) = d" if "sh_type sh = SHT_PROGBITS"
      using d(3) [OF that] unat_lt2p [of "sh_size sh"] by (simp add: d(1) mem_get_put_same)
    ultimately show ?thesis using d(3) by (simp add: loaded_def nP)
  qed
  show "regions_ok elf n md seg cnt (P + sh_size sh) hi"
    using reg uE qp q(2) sz unfolding regions_ok_def by (auto simp: apart_def)
qed

definition load_post :: "mem \<Rightarrow> addr \<Rightarrow> addr \<Rightarrow> addr \<Rightarrow> nat \<Rightarrow> nat \<Rightarrow> nat \<Rightarrow> nat \<Rightarrow> addr \<Rightarrow> bool" where
  "load_post m elf md seg cnt hi i j p \<longleftrightarrow>
     (let m' = load_sections m elf md i j p; pl = place (indexed_sections m elf i) (unat p)
      in (\<forall>k < length pl. segment_is m' seg (j + k) (pl ! k)) \<and> (\<forall>x \<in> set pl. loaded m m' elf x) \<and>
         (\<forall>r l. fits r l \<longrightarrow> outside (unat p) hi r l \<longrightarrow> outside (unat seg + 12 * j) (unat seg + 12 * cnt) r l \<longrightarrow>
            mem_get m' r l = mem_get m r l))"

lemma segment_is_cong:
  assumes "mem_get m' (seg + sizeof_segment * of_nat k) 12 = mem_get m (seg + sizeof_segment * of_nat k) 12"
  shows "segment_is m' seg k x = segment_is m seg k x"
  using mem_get_part [OF assms, of 0 4] mem_get_part [OF assms, of 4 4] mem_get_part [OF assms, of 8 2]
  by (simp add: segment_is_def ld32_def ld16_def)

lemma place_subset: "(i, q, sh) \<in> set (place xs p) \<Longrightarrow> (i, sh) \<in> set xs \<and> is_alloc sh"
  by (induction xs p rule: place.induct) (auto simp: Let_def split: if_splits)

lemma loaded_from_file:
  assumes "mem_get m2 elf n = mem_get m elf n" "sections_ok m elf n"
    "x \<in> set (place (indexed_sections m elf i) p)"
  shows "mem_get m2 (elf + sh_offset (snd (snd x))) (unat (sh_size (snd (snd x)))) =
         mem_get m (elf + sh_offset (snd (snd x))) (unat (sh_size (snd (snd x))))"
proof -
  obtain k q sh where x: "x = (k, q, sh)" by (cases x)
  then have "(k, sh) \<in> set (indexed_sections m elf i)" "is_alloc sh" using place_subset assms(3) by blast+
  then have "unat (sh_offset sh) + unat (sh_size sh) \<le> n"
    using assms(2) by (auto simp: sections_ok_def indexed_sections_def)
  then show ?thesis using mem_get_part [OF assms(1), of "unat (sh_offset sh)" "unat (sh_size sh)"] by (simp add: x)
qed

lemma load_sections_step:
  assumes ok: "sections_ok m elf n" "regions_ok elf n md seg cnt p hi" "ld32 m (md + 68) = seg"
    and fit: "place_end (indexed_sections m elf i) (unat p) \<le> hi"
      "j + length (place (indexed_sections m elf i) (unat p)) \<le> cnt"
    and i: "i < elf_shnum m elf" "is_alloc (section_at m elf i)"
    and IH: "\<And>m2 p2. elf_shnum m2 elf = elf_shnum m elf \<Longrightarrow> sections_ok m2 elf n \<Longrightarrow>
      regions_ok elf n md seg cnt p2 hi \<Longrightarrow> ld32 m2 (md + 68) = seg \<Longrightarrow>
      place_end (indexed_sections m2 elf (i + 1)) (unat p2) \<le> hi \<Longrightarrow>
      j + 1 + length (place (indexed_sections m2 elf (i + 1)) (unat p2)) \<le> cnt \<Longrightarrow>
      load_post m2 elf md seg cnt hi (i + 1) (j + 1) p2"
  shows "load_post m elf md seg cnt hi i j p"
proof -
  define sh where "sh = section_at m elf i"
  define q where "q = round_up (unat p) (unat (sh_addralign sh))"
  define P where "P = BL_MEMORY_ALIGN_UP p (sh_addralign sh)"
  define m1 where "m1 = load_section m elf sh P"
  define m2 where "m2 = put_segment m1 (ld32 m1 (md + 68)) j (of_nat i) P (sh_size sh)"
  let ?xs = "indexed_sections m elf (i + 1)" and ?p2 = "P + sh_size sh" and ?m' = "load_sections m elf md i j p"
  have al: "is_alloc sh" using i(2) by (simp add: sh_def)
  have ix: "indexed_sections m elf i = (i, sh) # ?xs" using indexed_sections_Cons [OF i(1)] by (simp add: sh_def)
  have aok: "\<forall>(i, sh) \<in> set ?xs. align_ok sh"
    using ok(1) by (auto simp: sections_ok_def indexed_sections_def)
  have fit2: "place_end ?xs (q + unat (sh_size sh)) \<le> hi" "j + 1 + length (place ?xs (q + unat (sh_size sh))) \<le> cnt"
    using fit al by (simp_all add: ix q_def Let_def)
  have "q + unat (sh_size sh) \<le> hi" "j < cnt"
    using place_end_ge [OF aok, of "q + unat (sh_size sh)"] fit2 by simp_all
  note step = load_step [OF ok i(1) sh_def al q_def this P_def m1_def m2_def]
  note reg = ok(2) [unfolded regions_ok_def]
  have same: "mem_get m2 elf n = mem_get m elf n"
    using reg by (intro step(5)) (auto simp: outside_def apart_def)
  have "unat (md + 68) = unat md + 68" using reg unat_add_lt [of md 68] by (simp add: fits_def)
  then have "mem_get m2 (md + 68) 4 = mem_get m (md + 68) 4"
    using reg by (intro step(5)) (auto simp: outside_def apart_def fits_def)
  then have seg2: "ld32 m2 (md + 68) = seg" using ok(3) by (simp add: ld32_def)
  have whole: "elf_whole m elf n" using ok(1) by (simp add: sections_ok_def)
  note cong = indexed_sections_cong [OF same whole]
  have ok2: "sections_ok m2 elf n" using ok(1) elf_cong(3) [OF same whole] by (simp add: sections_ok_def cong)
  have post: "load_post m2 elf md seg cnt hi (i + 1) (j + 1) ?p2"
    using IH [OF elf_cong(1) [OF same whole] ok2 step(6) seg2] fit2 by (simp add: cong step(1))
  have run: "?m' = load_sections m2 elf md (i + 1) (j + 1) ?p2"
    using i by (subst load_sections.simps) (simp add: sh_def P_def m1_def m2_def Let_def)
  have pl: "place (indexed_sections m elf i) (unat p) = (i, q, sh) # place ?xs (q + unat (sh_size sh))"
    using al by (simp add: ix q_def Let_def)
  have A: "\<forall>k < length (place ?xs (q + unat (sh_size sh))). segment_is ?m' seg (j + 1 + k) (place ?xs (q + unat (sh_size sh)) ! k)"
    and B: "\<forall>x \<in> set (place ?xs (q + unat (sh_size sh))). loaded m2 ?m' elf x"
    and C: "\<And>r l. fits r l \<Longrightarrow> outside (q + unat (sh_size sh)) hi r l \<Longrightarrow>
        outside (unat seg + 12 * (j + 1)) (unat seg + 12 * cnt) r l \<Longrightarrow> mem_get ?m' r l = mem_get m2 r l"
    using post by (simp_all add: load_post_def Let_def cong step(1) run)
  let ?a = "seg + sizeof_segment * of_nat j"
  have ua: "unat ?a = unat seg + 12 * j"
    using reg \<open>j < cnt\<close> unat_add_lt [of seg "12 * j"] by (simp add: sizeof_segment_def fits_def)
  have "q < 2 ^ 32" using \<open>q + unat (sh_size sh) \<le> hi\<close> reg by linarith
  then have uP: "unat P = q" unfolding step(2) [symmetric] by (intro unat_of_nat_eq) simp
  have "(i, sh) \<in> set (indexed_sections m elf 0)" using i by (auto simp: indexed_sections_def sh_def)
  then have "align_ok sh" using ok(1) by (auto simp: sections_ok_def)
  then have qp: "unat p \<le> q" unfolding q_def by (intro round_up_ge align_ok_pos)
  have "mem_get ?m' ?a 12 = mem_get m2 ?a 12"
    using ua reg \<open>j < cnt\<close> \<open>q + unat (sh_size sh) \<le> hi\<close> qp by (intro C) (auto simp: outside_def fits_def apart_def)
  then have s0: "segment_is ?m' seg j (i, q, sh)" using step(3) segment_is_cong by blast
  have "mem_get ?m' P (unat (sh_size sh)) = mem_get m2 P (unat (sh_size sh))"
    using uP reg \<open>q + unat (sh_size sh) \<le> hi\<close> qp by (intro C) (auto simp: outside_def fits_def apart_def)
  then have l0: "loaded m ?m' elf (i, q, sh)" using step(4) by (simp add: loaded_def step(2))
  have "loaded m ?m' elf x" if "x \<in> set (place ?xs (q + unat (sh_size sh)))" for x
    using bspec [OF B that] loaded_from_file [OF same ok(1) that] by (cases x) (auto simp: loaded_def)
  moreover have "mem_get ?m' r l = mem_get m r l"
    if "fits r l" "outside (unat p) hi r l" "outside (unat seg + 12 * j) (unat seg + 12 * cnt) r l" for r l
    using C [of r l] step(5) [of r l] that qp by (auto simp: outside_def)
  moreover have "segment_is ?m' seg (j + k) (((i, q, sh) # place ?xs (q + unat (sh_size sh))) ! k)"
    if "k < Suc (length (place ?xs (q + unat (sh_size sh))))" for k
    using that A s0 by (cases k) auto
  ultimately show ?thesis
    using l0 unfolding load_post_def Let_def pl by simp
qed

lemma load_sections_correct:
  assumes "sections_ok m elf n" "regions_ok elf n md seg cnt p hi" "ld32 m (md + 68) = seg"
    "place_end (indexed_sections m elf i) (unat p) \<le> hi"
    "j + length (place (indexed_sections m elf i) (unat p)) \<le> cnt"
  shows "load_post m elf md seg cnt hi i j p"
  using assms
proof (induction "elf_shnum m elf - i" arbitrary: m i j p)
  case 0
  then have "load_sections m elf md i j p = m" by (subst load_sections.simps) simp
  then show ?case using 0 by (simp add: load_post_def indexed_sections_Nil)
next
  case (Suc x)
  from Suc.hyps(2) have i: "i < elf_shnum m elf" by simp
  let ?sh = "section_at m elf i"
  show ?case
  proof (cases "is_alloc ?sh")
    case False
    then have "load_sections m elf md i j p = load_sections m elf md (i + 1) j p"
      using i by (subst load_sections.simps) simp
    then show ?thesis
      using Suc.hyps(1) [of m "i + 1" p j] Suc.hyps(2) Suc.prems False
      by (simp add: indexed_sections_Cons [OF i] load_post_def)
  next
    case True
    show ?thesis by (rule load_sections_step [OF Suc.prems i True]) (use Suc.hyps in auto)
  qed
qed

subsection \<open>Sections by index\<close>

lemma section_by_index_loop_eq:
  "section_by_index_loop m md index ks =
     (case find (\<lambda>k. ld16 m (segment_at m md k + 8) = index) ks of
        Some k \<Rightarrow> ld32 m (segment_at m md k) | None \<Rightarrow> 0)"
  by (induction ks) auto

lemma find_upt:
  assumes "k < n" "P k" "\<And>j. j < n \<Longrightarrow> P j \<Longrightarrow> j = k"
  shows "find P [0..<n] = Some k"
  using assms by (subst find_Some_iff) (metis add.left_neutral diff_zero length_upt less_trans nat_neq_iff nth_upt)

lemma section_by_index_segments:
  assumes "\<forall>k < length pl. segment_is m (ld32 m (md + 68)) k (pl ! k)" "mod_count m md = length pl"
    "distinct (map fst pl)" "\<forall>(i, q, sh) \<in> set pl. i < 65536"
  shows "(i, q, sh) \<in> set pl \<Longrightarrow> bl_elf_section_by_index m md (of_nat i) = of_nat q"
    and "i < 65536 \<Longrightarrow> i \<notin> fst ` set pl \<Longrightarrow> bl_elf_section_by_index m md (of_nat i) = 0"
proof -
  have rec: "ld16 m (segment_at m md k + 8) = of_nat (fst (pl ! k))"
      "ld32 m (segment_at m md k) = of_nat (fst (snd (pl ! k)))" if "k < length pl" for k
    using spec [OF assms(1), of k] that by (simp_all add: segment_is_def segment_at_def Let_def case_prod_unfold)
  have small: "fst x < 65536" if "x \<in> set pl" for x using assms(4) that by (cases x) auto
  have inj: "(of_nat a :: u16) = of_nat b \<longleftrightarrow> a = b" if "a < 65536" "b < 65536" for a b
    using that by (simp add: word_unat_eq_iff unat_of_nat_eq)
  show "bl_elf_section_by_index m md (of_nat i) = of_nat q" if mem: "(i, q, sh) \<in> set pl"
  proof -
    obtain k where k: "k < length pl" "pl ! k = (i, q, sh)" using mem unfolding in_set_conv_nth by blast
    have "find (\<lambda>k. ld16 m (segment_at m md k + 8) = of_nat i) [0..<mod_count m md] = Some k"
    proof (rule find_upt)
      fix j assume j: "j < mod_count m md" "ld16 m (segment_at m md j + 8) = of_nat i"
      then have "fst (pl ! j) = i"
        using rec(1) inj small [of "pl ! j"] small [OF mem] assms(2) by simp
      then show "j = k"
        using assms(2,3) j k by (metis fst_conv length_map nth_eq_iff_index_eq nth_map)
    qed (use k rec assms(2) in simp_all)
    then show ?thesis using rec(2) [OF k(1)] k by (simp add: bl_elf_section_by_index_def section_by_index_loop_eq)
  qed
  show "bl_elf_section_by_index m md (of_nat i) = 0" if "i < 65536" "i \<notin> fst ` set pl"
  proof -
    have "find (\<lambda>k. ld16 m (segment_at m md k + 8) = of_nat i) [0..<mod_count m md] = None"
      unfolding find_None_iff
    proof
      assume "\<exists>k. k \<in> set [0..<mod_count m md] \<and> ld16 m (segment_at m md k + 8) = of_nat i"
      then obtain k where k: "k < length pl" "ld16 m (segment_at m md k + 8) = of_nat i" using assms(2) by auto
      then have "fst (pl ! k) = i" using rec(1) inj small [of "pl ! k"] that(1) by simp
      then show False using that(2) k(1) nth_mem by blast
    qed
    then show ?thesis by (simp add: bl_elf_section_by_index_def section_by_index_loop_eq)
  qed
qed

subsection \<open>Relocation\<close>

lemma relocate_one_frame:
  "fits x 4 \<Longrightarrow> apart x 4 r l \<Longrightarrow> fits r l \<Longrightarrow> mem_get (relocate_one m ty x v) r l = mem_get m r l"
  by (auto simp: relocate_one_def st16_def st32_def fits_def apart_def intro!: mem_get_put_apart)

lemma relocate_one_value:
  "ld32 (relocate_one m R_386_32 x v) x = ld32 m x + v"
  "ld32 (relocate_one m R_386_PC32 x v) x = ld32 m x + v - x"
  "ld16 (relocate_one m R_386_16 x v) x = ld16 m x + ucast v"
  "ld16 (relocate_one m R_386_PC16 x v) x = ld16 m x + ucast (v - x)"
  by (simp_all add: relocate_one_def ld_st_same R_386_16_def R_386_PC16_def R_386_32_def R_386_PC32_def)

definition rel_type :: "mem \<Rightarrow> addr \<Rightarrow> nat \<Rightarrow> u32" where
  "rel_type m rels i = ELF32_R_TYPE (r_info (rd_Rel m (rels + sizeof_Rel * of_nat i)))"

definition rel_place :: "mem \<Rightarrow> addr \<Rightarrow> addr \<Rightarrow> nat \<Rightarrow> addr" where
  "rel_place m applied rels i = applied + r_offset (rd_Rel m (rels + sizeof_Rel * of_nat i))"

definition rel_symbol :: "mem \<Rightarrow> addr \<Rightarrow> addr \<Rightarrow> nat \<Rightarrow> addr" where
  "rel_symbol m rels symtab i = symtab + sizeof_Sym * ELF32_R_SYM (r_info (rd_Rel m (rels + sizeof_Rel * of_nat i)))"

definition rel_value :: "mem \<Rightarrow> addr \<Rightarrow> addr \<Rightarrow> nat \<Rightarrow> u32" where
  "rel_value m rels symtab i = st_value (rd_Sym m (rel_symbol m rels symtab i))"

lemma relocate_loop_Cons:
  "relocate_loop applied rels symtab (i # is) m =
     relocate_loop applied rels symtab is
       (relocate_one m (rel_type m rels i) (rel_place m applied rels i) (rel_value m rels symtab i))"
  by (simp add: rel_type_def rel_place_def rel_value_def rel_symbol_def Let_def)

text \<open>
  The patched fields overlap neither each other nor the relocation table nor the symbol
  table (\<open>len\<close> bytes), and every entry names a symbol of the table.
\<close>

definition rels_ok :: "mem \<Rightarrow> addr \<Rightarrow> addr \<Rightarrow> addr \<Rightarrow> nat \<Rightarrow> nat \<Rightarrow> bool" where
  "rels_ok m applied rels symtab n len \<longleftrightarrow>
     fits rels (8 * n) \<and> fits symtab len \<and>
     (\<forall>i < n. fits (rel_place m applied rels i) 4 \<and> apart (rel_place m applied rels i) 4 rels (8 * n) \<and>
        apart (rel_place m applied rels i) 4 symtab len \<and>
        16 * unat (ELF32_R_SYM (r_info (rd_Rel m (rels + sizeof_Rel * of_nat i)))) + 16 \<le> len \<and>
        (\<forall>j < n. i \<noteq> j \<longrightarrow> apart (rel_place m applied rels i) 4 (rel_place m applied rels j) 4))"

lemma rd_Rel_cong: "mem_get m' a 8 = mem_get m a 8 \<Longrightarrow> rd_Rel m' a = rd_Rel m a"
  using mem_get_part [of m' a 8 m 0 4] mem_get_part [of m' a 8 m 4 4]
  by (simp add: rd_Rel_def ld32_def)

lemma rels_cong:
  assumes "rels_ok m applied rels symtab n len" "i < n"
    "mem_get m' rels (8 * n) = mem_get m rels (8 * n)" "mem_get m' symtab len = mem_get m symtab len"
  shows "rd_Rel m' (rels + sizeof_Rel * of_nat i) = rd_Rel m (rels + sizeof_Rel * of_nat i)"
    "rel_value m' rels symtab i = rel_value m rels symtab i"
proof -
  have "mem_get m' (rels + of_nat (8 * i)) 8 = mem_get m (rels + of_nat (8 * i)) 8"
    using assms(2) by (intro mem_get_part [OF assms(3)]) simp
  then show r: "rd_Rel m' (rels + sizeof_Rel * of_nat i) = rd_Rel m (rels + sizeof_Rel * of_nat i)"
    by (intro rd_Rel_cong) (simp add: sizeof_Rel_def)
  let ?k = "ELF32_R_SYM (r_info (rd_Rel m (rels + sizeof_Rel * of_nat i)))"
  have "mem_get m' (symtab + of_nat (16 * unat ?k + 4)) 4 = mem_get m (symtab + of_nat (16 * unat ?k + 4)) 4"
    using assms(1,2) by (intro mem_get_part [OF assms(4)]) (auto simp: rels_ok_def)
  then show "rel_value m' rels symtab i = rel_value m rels symtab i"
    by (simp add: rel_value_def rel_symbol_def r rd_Sym_def ld32_def sizeof_Sym_def add.assoc)
qed

definition rel_applied :: "mem \<Rightarrow> mem \<Rightarrow> addr \<Rightarrow> addr \<Rightarrow> addr \<Rightarrow> nat \<Rightarrow> bool" where
  "rel_applied m m' applied rels symtab i \<longleftrightarrow>
     (let x = rel_place m applied rels i; v = rel_value m rels symtab i; t = rel_type m rels i
      in (t = R_386_32 \<longrightarrow> ld32 m' x = ld32 m x + v) \<and>
         (t = R_386_PC32 \<longrightarrow> ld32 m' x = ld32 m x + v - x) \<and>
         (t = R_386_16 \<longrightarrow> ld16 m' x = ld16 m x + ucast v) \<and>
         (t = R_386_PC16 \<longrightarrow> ld16 m' x = ld16 m x + ucast (v - x)))"

lemma field_cong:
  assumes "mem_get m' x 4 = mem_get m x 4" shows "ld32 m' x = ld32 m x" "ld16 m' x = ld16 m x"
  using mem_get_part [OF assms, of 0 4] mem_get_part [OF assms, of 0 2] by (simp_all add: ld32_def ld16_def)

lemma relocate_loop_correct:
  assumes "rels_ok m applied rels symtab n len" "set js \<subseteq> {..<n}" "distinct js"
  defines "m' \<equiv> relocate_loop applied rels symtab js m"
  shows "(\<forall>i \<in> set js. rel_applied m m' applied rels symtab i) \<and>
    (\<forall>r l. fits r l \<longrightarrow> (\<forall>i \<in> set js. apart (rel_place m applied rels i) 4 r l) \<longrightarrow> mem_get m' r l = mem_get m r l)"
  using assms(1-3) unfolding m'_def
proof (induction js arbitrary: m)
  case (Cons j js)
  let ?x = "rel_place m applied rels"
  define m1 where "m1 = relocate_one m (rel_type m rels j) (?x j) (rel_value m rels symtab j)"
  let ?m' = "relocate_loop applied rels symtab js m1"
  have run: "relocate_loop applied rels symtab (j # js) m = ?m'" by (simp add: relocate_loop_Cons m1_def del: relocate_loop.simps)
  note ok = Cons.prems(1) [unfolded rels_ok_def]
  have j: "j < n" "fits (?x j) 4" using Cons.prems(2) ok by auto
  have f1: "mem_get m1 r l = mem_get m r l" if "fits r l" "apart (?x j) 4 r l" for r l
    unfolding m1_def using that j by (intro relocate_one_frame)
  have tabs: "mem_get m1 rels (8 * n) = mem_get m rels (8 * n)" "mem_get m1 symtab len = mem_get m symtab len"
    using ok j(1) by (auto intro!: f1)
  have same: "rd_Rel m1 (rels + sizeof_Rel * of_nat i) = rd_Rel m (rels + sizeof_Rel * of_nat i)"
      "rel_value m1 rels symtab i = rel_value m rels symtab i" "rel_place m1 applied rels i = ?x i"
      "rel_type m1 rels i = rel_type m rels i" if "i < n" for i
    using rels_cong [OF Cons.prems(1) that tabs] by (simp_all add: rel_place_def rel_type_def)
  have ok1: "rels_ok m1 applied rels symtab n len" using ok by (simp add: rels_ok_def same)
  have js: "set js \<subseteq> {..<n}" "distinct js" "j \<notin> set js" using Cons.prems by auto
  from Cons.IH [OF ok1 js(1,2)]
  have A: "\<forall>i \<in> set js. rel_applied m1 ?m' applied rels symtab i"
    and F: "\<And>r l. fits r l \<Longrightarrow> \<forall>i \<in> set js. apart (?x i) 4 r l \<Longrightarrow> mem_get ?m' r l = mem_get m1 r l"
    using js(1) same(3) by (auto simp: subset_iff)
  have keep: "mem_get m1 (?x i) 4 = mem_get m (?x i) 4" if "i \<in> set js" for i
    using that js ok j by (intro f1) auto
  have "rel_applied m ?m' applied rels symtab i" if "i \<in> set js" for i
    using A that js(1) field_cong [OF keep [OF that]] by (auto simp: rel_applied_def same subset_iff Let_def)
  moreover have "mem_get ?m' (?x j) 4 = mem_get m1 (?x j) 4"
    using ok j js by (intro F) auto
  note fj = field_cong [OF this]
  have "rel_applied m m1 applied rels symtab j"
    by (auto simp: rel_applied_def Let_def m1_def relocate_one_value)
  then have "rel_applied m ?m' applied rels symtab j"
    by (simp add: rel_applied_def Let_def fj)
  moreover have "mem_get ?m' r l = mem_get m r l" if "fits r l" "\<forall>i \<in> set (j # js). apart (?x i) 4 r l" for r l
    using F [of r l] f1 [of r l] that by simp
  ultimately show ?case unfolding run by simp
qed simp

subsection \<open>The symbol hash\<close>

lemma elf_hash_step_top: "n \<ge> 28 \<Longrightarrow> \<not> bit (elf_hash_step h c) n"
proof -
  assume n: "n \<ge> 28"
  have F: "(0xf0000000 :: u32) = push_bit 28 (mask 4)" by (simp add: mask_eq_exp_minus_1)
  show ?thesis
    unfolding elf_hash_step_def Let_def F using n by (auto simp: bit_simps)
qed

lemma elf_hash_step_bound: "elf_hash_step h c < 2 ^ 28"
proof -
  have "take_bit 28 (elf_hash_step h c) = elf_hash_step h c"
    by (rule bit_word_eqI) (metis bit_take_bit_iff elf_hash_step_top not_less)
  then have "unat (elf_hash_step h c) < 2 ^ 28"
    by (metis unsigned_take_bit_eq take_bit_nat_less_exp)
  then show ?thesis by (simp add: word_less_nat_alt)
qed

subsection \<open>Modules\<close>

lemma heap_alloc_more: "bl_heap_alloc_align s sz align = Some (a, s') \<Longrightarrow> heap_st.more s' = heap_st.more s"
  by (auto simp: bl_heap_alloc_align_def bl_heap_alloc_align_list_def Let_def
           split: if_splits option.splits heap_walk.splits)

lemma heap_free_more: "heap_st.more (bl_heap_free s a sz) = heap_st.more s"
  by (simp add: bl_heap_free_def Let_def)

lemma loader_fields:
  "heap_st.more s = heap_st.more (t::loader_st) \<Longrightarrow>
     bl_mods s = bl_mods t \<and> bl_mod_list s = bl_mod_list t \<and> console_log s = console_log t"
  by (cases s; cases t) simp

named_theorems keeps_mods

lemma alloc_mods [keeps_mods]: "bl_heap_alloc_align s sz align = Some (a, s') \<Longrightarrow> bl_mods s' = bl_mods (s::loader_st)"
  using loader_fields [OF heap_alloc_more] by blast

lemma free_mods [simp]: "bl_mods (bl_heap_free s a sz) = bl_mods (s::loader_st)"
  using loader_fields [OF heap_free_more] by blast

lemma load_image_mods [keeps_mods]: "bl_elf_load_image elf md s = Some (st, s') \<Longrightarrow> bl_mods s' = bl_mods s"
  by (auto simp: bl_elf_load_image_def bl_heap_alloc_def Let_def
           split: prod.splits if_splits bind_splits dest!: alloc_mods)

lemma resolve_symbol_mods [keeps_mods]:
  "bl_elf_resolve_symbol lk x name md s = Some (st, s') \<Longrightarrow> bl_mods s' = bl_mods s"
  by (auto simp: bl_elf_resolve_symbol_def Let_def set_st_value_def bl_print_strs_def
           split: if_splits option.splits bind_splits)

lemma resolve_symbols_mods [keeps_mods]:
  "resolve_symbols lk symtab strings md js s = Some (st, s') \<Longrightarrow> bl_mods s' = bl_mods s"
  by (induction js arbitrary: s) (auto simp: Let_def split: if_splits bind_splits dest!: resolve_symbol_mods)

lemma load_symbols_mods [keeps_mods]: "load_symbols_loop lk elf md is s = Some (st, s') \<Longrightarrow> bl_mods s' = bl_mods s"
  by (induction "is" arbitrary: s) (auto simp: Let_def split: if_splits bind_splits dest!: resolve_symbols_mods)

lemma relocate_symbols_mods [keeps_mods]: "relocate_symbols_loop elf md is s = Some (st, s') \<Longrightarrow> bl_mods s' = bl_mods s"
  by (induction "is" arbitrary: s)
     (auto simp: Let_def bl_elf_relocate_section_def split: if_splits bind_splits)

lemma elf_load_steps_mods [keeps_mods]: "elf_load_steps lk elf md s = Some (st, s') \<Longrightarrow> bl_mods s' = bl_mods s"
  by (auto simp: elf_load_steps_def bl_elf_load_symbols_def bl_elf_relocate_symbols_def
           split: if_splits bind_splits
           dest!: load_image_mods load_symbols_mods relocate_symbols_mods)

lemma bl_elf_load_failed:
  assumes "bl_elf_load lk run elf sz s = Some (st, s')" "failed st"
  shows "bl_mods s' = bl_mods s"
  using assms
  by (auto simp: bl_elf_load_def Let_def bl_print_strs_def bl_heap_alloc_def new_module_def
           split: if_splits bind_splits dest!: alloc_mods elf_load_steps_mods)

text \<open>The list of loaded modules, and the search by name.\<close>

fun module_list :: "mem \<Rightarrow> addr \<Rightarrow> (addr \<times> u8 list) list \<Rightarrow> bool" where
  "module_list m p [] \<longleftrightarrow> p = 0"
| "module_list m p ((a, name) # ms) \<longleftrightarrow>
     p = a \<and> p \<noteq> 0 \<and> cstr m p name \<and> length name < 64 \<and> module_list m (ld32 m (p + 80)) ms"

lemma strncmp_names:
  assumes "cstr m a as" "cstr m b bs" "a \<noteq> 0" "b \<noteq> 0" "length as < 64" "length bs < 64"
  shows "bl_strncmp m a b BL_MODULE_MAX_NAME_LEN = 0 \<longleftrightarrow> as = bs"
  using assms cstr_no_zero [OF assms(1)] cstr_no_zero [OF assms(2)]
  by (simp add: bl_strncmp_cstr BL_MODULE_MAX_NAME_LEN_def strdiff_eq_0)

lemma get_module_loop_find:
  assumes "module_list m p ms" "cstr m n name" "n \<noteq> 0" "length name < 64"
  shows "get_module_loop m n p = Some (case find (\<lambda>(a, x). x = name) ms of Some (a, x) \<Rightarrow> a | None \<Rightarrow> 0)"
  using assms(1)
proof (induction ms arbitrary: p)
  case Nil
  then show ?case by (subst get_module_loop.simps) simp
next
  case (Cons x ms)
  obtain a nm where x: "x = (a, nm)" by (cases x)
  with Cons.prems have p: "p \<noteq> 0" "cstr m p nm" "length nm < 64" "p = a" "module_list m (ld32 m (p + 80)) ms" by auto
  from strncmp_names [OF p(2) assms(2) p(1) assms(3) p(3) assms(4)]
  show ?case using p Cons.IH [OF p(5)] by (subst get_module_loop.simps) (simp add: x)
qed

lemma module_list_nonnull: "module_list m p ms \<Longrightarrow> (a, nm) \<in> set ms \<Longrightarrow> a \<noteq> 0"
  by (induction ms arbitrary: p) auto

lemma find_name: "nm \<in> snd ` set ms \<Longrightarrow> \<exists>a. find (\<lambda>(a, x). x = nm) ms = Some (a, nm)"
  by (induction ms) auto

lemma bl_elf_load_twice:
  assumes "module_list (mem s) (bl_mods s) ms" "bl_elf_check (mem s) elf sz = BL_STATUS_SUCCESS"
    and name: "name = bl_elf_section_by_name (mem s) elf (str_mod_name lk)" "name \<noteq> 0"
    and "cstr (mem s) name nm" "length nm < 64" "nm \<in> snd ` set ms"
  shows "bl_elf_load lk run elf sz s = Some (BL_STATUS_MODULE_ALREADY_LOADED, s)"
proof -
  obtain a where a: "find (\<lambda>(a, x). x = nm) ms = Some (a, nm)"
    using find_name [OF assms(7)] by blast
  then have "(a, nm) \<in> set ms" by (metis (no_types, lifting) find_Some_iff nth_mem)
  then have "a \<noteq> 0" by (rule module_list_nonnull [OF assms(1)])
  then have "bl_loader_get_module s name = Some a"
    using get_module_loop_find [OF assms(1,5,4,6)] a by (simp add: bl_loader_get_module_def)
  then show ?thesis
    using assms(2) name \<open>a \<noteq> 0\<close> by (simp add: bl_elf_load_def)
qed

text \<open>
  The image size adds up sizes rounded with the largest alignment seen so far, before the
  alignment of the section itself is taken into account, so it can be too small.
\<close>

definition small_image :: "Elf32_Shdr list" where
  "small_image =
     [\<lparr>sh_name = 0, sh_type = 1, sh_flags = 2, sh_addr = 0, sh_offset = 52, sh_size = 1, sh_link = 0, sh_info = 0,
       sh_addralign = 1, sh_entsize = 0\<rparr>,
      \<lparr>sh_name = 0, sh_type = 1, sh_flags = 2, sh_addr = 0, sh_offset = 53, sh_size = 4, sh_link = 0, sh_info = 0,
       sh_addralign = 16, sh_entsize = 0\<rparr>]"

lemma image_extent_too_small:
  "image_extent small_image 0 1 0 = (5, 16, 2)"
  "place_end (zip [0..<2] small_image) 0x100020 = 0x100020 + 20"
  by (simp_all add: small_image_def is_alloc_def SHF_ALLOC_def BL_MEMORY_ALIGN_UP_def round_up_def upt_rec)

text \<open>A section whose alignment is 0, which ELF allows, is placed at address 0.\<close>

lemma align_up_zero: "BL_MEMORY_ALIGN_UP (a::u32) 0 = 0"
  by (simp add: BL_MEMORY_ALIGN_UP_def)

end
