(* ===== verification/Bl_Storage.thy ===== *)
theory Bl_Storage
  imports Bl_Elf
begin

text \<open>
  Storage: the registries and the sector-to-byte read of
  src/boot-loader/core/storage/storage.c and disk-controller.c, the partition-table probe
  of core/partition-table/partition-table.c and the MBR and GPT readers of
  modules/partition-table.

  The lists the drivers register in are HOL lists, newest first, as the code's push-front
  gives them; partitions, devices and controllers are records. A controller's \<open>read\<close> is a
  function from the first sector and the sector count to a status and the bytes it put into
  the buffer. Allocation goes through the heap of Bl_Heap.
\<close>

unbundle bit_operations_syntax

definition BL_STORAGE_SECTOR_SIZE :: u32 where "BL_STORAGE_SECTOR_SIZE = 512"

datatype bl_disk_controller_t =
    BL_DISK_CONTROLLER_TYPE_PATA
  | BL_DISK_CONTROLLER_TYPE_AHCI
  | BL_DISK_CONTROLLER_TYPE_USB_SCSI

datatype bl_storage_t = BL_STORAGE_TYPE_HARD_DRIVE | BL_STORAGE_TYPE_USB_DRIVE

record bl_partition =
  lba :: u64
  sectors_n :: u64

definition sizeof_partition :: u32 where "sizeof_partition = 20"

text \<open>The fields of struct bl_storage_device but its controller and link.\<close>

record device_info =
  dev_type :: bl_storage_t
  sector_size :: u32
  sector_count :: u64
  partitions :: "bl_partition list"
  dev_data :: addr

type_synonym 'a reader = "u64 \<Rightarrow> u64 \<Rightarrow> 'a heap_st_scheme \<Rightarrow> (bl_status \<times> u8 list \<times> 'a heap_st_scheme) option"

record 'a controller =
  ctl_type :: bl_disk_controller_t
  ctl_read :: "device_info \<Rightarrow> 'a reader"
  ctl_get_info :: "(device_info \<Rightarrow> 'a heap_st_scheme \<Rightarrow> (bl_status \<times> device_info \<times> 'a heap_st_scheme) option) option"

type_synonym 'a device = "device_info \<times> 'a controller option"

type_synonym 'a table_iterate = "'a device \<Rightarrow> 'a heap_st_scheme \<Rightarrow> (bl_status \<times> 'a device \<times> 'a heap_st_scheme) option"

record 'a storage_st =
  storage_devices :: "'a device list"
  controller_list :: "'a controller list"
  partition_tables :: "'a table_iterate list"

subsection \<open>Registries\<close>

definition bl_storage_device_register :: "'a device \<Rightarrow> 'a storage_st \<Rightarrow> 'a storage_st" where
  "bl_storage_device_register disk st = st\<lparr>storage_devices := disk # storage_devices st\<rparr>"

definition bl_disk_controller_register :: "'a controller \<Rightarrow> 'a storage_st \<Rightarrow> 'a storage_st" where
  "bl_disk_controller_register c st = st\<lparr>controller_list := c # controller_list st\<rparr>"

definition bl_partition_table_register :: "'a table_iterate \<Rightarrow> 'a storage_st \<Rightarrow> 'a storage_st" where
  "bl_partition_table_register t st = st\<lparr>partition_tables := t # partition_tables st\<rparr>"

definition bl_storage_device_unregister :: "'a device \<Rightarrow> 'a storage_st \<Rightarrow> 'a storage_st" where
  "bl_storage_device_unregister disk st = st"

definition bl_disk_controller_unregister :: "'a controller \<Rightarrow> 'a storage_st \<Rightarrow> 'a storage_st" where
  "bl_disk_controller_unregister c st = st"

definition bl_partition_table_unregister :: "'a table_iterate \<Rightarrow> 'a storage_st \<Rightarrow> 'a storage_st" where
  "bl_partition_table_unregister t st = st"

fun list_get :: "'b list \<Rightarrow> int \<Rightarrow> int \<Rightarrow> 'b option" where
  "list_get [] i index = None"
| "list_get (x # xs) i index = (if i = index then Some x else list_get xs (i + 1) index)"

definition bl_storage_device_get :: "int \<Rightarrow> 'a storage_st \<Rightarrow> 'a device option" where
  "bl_storage_device_get index st = (if index < 0 then None else list_get (storage_devices st) 0 index)"

definition bl_storage_partition_get :: "device_info \<Rightarrow> int \<Rightarrow> bl_partition option" where
  "bl_storage_partition_get disk index = (if index < 0 then None else list_get (partitions disk) 0 index)"

fun match_type_loop :: "bl_disk_controller_t \<Rightarrow> 'a controller list \<Rightarrow> 'a controller option" where
  "match_type_loop t [] = None"
| "match_type_loop t (c # cs) = (if t = ctl_type c then Some c else match_type_loop t cs)"

definition bl_disk_controller_match_type :: "bl_disk_controller_t \<Rightarrow> 'a storage_st \<Rightarrow> 'a controller option" where
  "bl_disk_controller_match_type t st = match_type_loop t (controller_list st)"

subsection \<open>Probing\<close>

fun partition_table_probe_loop ::
    "'a table_iterate list \<Rightarrow> 'a device \<Rightarrow> 'a heap_st_scheme \<Rightarrow> (bl_status \<times> 'a device \<times> 'a heap_st_scheme) option" where
  "partition_table_probe_loop [] disk s = Some (BL_STATUS_UNPROPER_DISK, disk, s)"
| "partition_table_probe_loop (iterate # ts) disk s = do {
     (status, disk1, s1) \<leftarrow> iterate disk s;
     if \<not> failed status then Some (BL_STATUS_SUCCESS, disk1, s1)
     else partition_table_probe_loop ts disk1 s1 }"

definition bl_partition_table_probe ::
    "'a storage_st \<Rightarrow> 'a device \<Rightarrow> 'a heap_st_scheme \<Rightarrow> (bl_status \<times> 'a device \<times> 'a heap_st_scheme) option" where
  "bl_partition_table_probe st disk s = partition_table_probe_loop (partition_tables st) disk s"

text \<open>
  The loop of \<open>bl_storage_probe\<close>. A disk without a controller when no USB controller is
  registered makes the \<open>continue\<close> repeat the same iteration forever: no result.
\<close>

fun storage_probe_loop ::
    "'a storage_st \<Rightarrow> 'a device list \<Rightarrow> 'a heap_st_scheme \<Rightarrow> (bl_status \<times> 'a device list \<times> 'a heap_st_scheme) option" where
  "storage_probe_loop st [] s = Some (BL_STATUS_SUCCESS, [], s)"
| "storage_probe_loop st ((info, ctl) # ds) s = do {
     c \<leftarrow> (case ctl of Some c \<Rightarrow> Some c | None \<Rightarrow> bl_disk_controller_match_type BL_DISK_CONTROLLER_TYPE_USB_SCSI st);
     (status, info1, s1) \<leftarrow> (case ctl_get_info c of
        Some get_info \<Rightarrow> get_info info s | None \<Rightarrow> Some (BL_STATUS_SUCCESS, info, s));
     if failed status then Some (status, (info1, Some c) # ds, s1)
     else do {
       (_, disk2, s2) \<leftarrow> bl_partition_table_probe st (info1, Some c) s1;
       (status3, ds3, s3) \<leftarrow> storage_probe_loop st ds s2;
       Some (status3, disk2 # ds3, s3) } }"

definition bl_storage_probe :: "'a storage_st \<Rightarrow> 'a heap_st_scheme \<Rightarrow> (bl_status \<times> 'a storage_st \<times> 'a heap_st_scheme) option" where
  "bl_storage_probe st s = do {
     (status, ds, s1) \<leftarrow> storage_probe_loop st (storage_devices st) s;
     Some (status, st\<lparr>storage_devices := ds\<rparr>, s1) }"

definition dump_device :: "'s callback \<Rightarrow> device_info \<Rightarrow> 's \<Rightarrow> 's" where
  "dump_device cb d s =
     bl_print_str cb [0xa] (bl_print_hex64 cb (ucast (sector_size d) * sector_count d) (bl_print_str cb (ascii ''Total size (bytes): '')
       (bl_print_str cb (ascii '' '') (bl_print_hex cb (sector_size d) (bl_print_str cb (ascii ''Sector size: '')
         (bl_print_str cb (ascii '' '') (bl_print_hex64 cb (sector_count d) (bl_print_str cb (ascii ''Sectors: '')
           (bl_print_str cb (ascii ''Disk: '') s)))))))))"

definition bl_storage_dump_devices :: "'s callback \<Rightarrow> 'a storage_st \<Rightarrow> 's \<Rightarrow> 's" where
  "bl_storage_dump_devices cb st s = fold (\<lambda>d. dump_device cb (fst d)) (storage_devices st) s"

subsection \<open>Reading bytes\<close>

definition bl_storage_device_read ::
    "'a device \<Rightarrow> u64 \<Rightarrow> u32 \<Rightarrow> u32 \<Rightarrow> 'a heap_st_scheme \<Rightarrow> (bl_status \<times> u8 list \<times> 'a heap_st_scheme) option" where
  "bl_storage_device_read disk start sz off s =
     (let sectors_size = BL_MEMORY_ALIGN_UP (off + sz) BL_STORAGE_SECTOR_SIZE
      in do {
        (raw, s1) \<leftarrow> bl_heap_alloc s sectors_size;
        if raw = 0 then Some (BL_STATUS_MEMORY_ALLOCATION_FAILED, [], s1)
        else do {
          c \<leftarrow> snd disk;
          (status, bytes, s2) \<leftarrow> ctl_read c (fst disk) start (ucast (sectors_size div BL_STORAGE_SECTOR_SIZE)) s1;
          let s3 = s2\<lparr>mem := mem_put (mem s2) raw bytes\<rparr>;
          let s4 = bl_heap_free s3 raw sectors_size;
          if failed status then Some (status, [], s4)
          else Some (status, mem_get (mem s3) (raw + off) (unat sz), s4) } })"

subsection \<open>The master boot record\<close>

definition BL_MBR_SIGNATURE :: u16 where "BL_MBR_SIGNATURE = 0xaa55"
definition BL_MBR_PARTITION_TYPE_NONE :: u8 where "BL_MBR_PARTITION_TYPE_NONE = 0"
definition BL_MBR_PARTITION_TYPE_GPT_DISK :: u8 where "BL_MBR_PARTITION_TYPE_GPT_DISK = 0xee"

record bl_mbr_partition_entry =
  active_flag :: u8
  partition_type :: u8
  mbr_start :: u32
  mbr_length :: u32

definition mbr_entry :: "u8 list \<Rightarrow> nat \<Rightarrow> bl_mbr_partition_entry" where
  "mbr_entry mbr i = (let o' = 446 + 16 * i
     in \<lparr>active_flag = get8 mbr o', partition_type = get8 mbr (o' + 4),
         mbr_start = get32 mbr (o' + 8), mbr_length = get32 mbr (o' + 12)\<rparr>)"

definition sizeof_mbr :: u32 where "sizeof_mbr = 512"

definition mbr_signature :: "u8 list \<Rightarrow> u16" where
  "mbr_signature mbr = get16 mbr 510"

text \<open>Allocating one partition structure and pushing it onto the disk's list.\<close>

definition add_partition :: "bl_partition \<Rightarrow> 'a device \<Rightarrow> 'a heap_st_scheme \<Rightarrow> (bool \<times> 'a device \<times> 'a heap_st_scheme) option" where
  "add_partition p disk s = do {
     (a, s1) \<leftarrow> bl_heap_alloc s sizeof_partition;
     if a = 0 then Some (False, disk, s1)
     else Some (True, ((fst disk)\<lparr>partitions := p # partitions (fst disk)\<rparr>, snd disk), s1) }"

fun mbr_loop :: "u8 list \<Rightarrow> nat list \<Rightarrow> 'a device \<Rightarrow> 'a heap_st_scheme \<Rightarrow> (bl_status \<times> 'a device \<times> 'a heap_st_scheme) option" where
  "mbr_loop mbr [] disk s = Some (BL_STATUS_SUCCESS, disk, s)"
| "mbr_loop mbr (i # is) disk s =
     (let e = mbr_entry mbr i
      in if partition_type e = BL_MBR_PARTITION_TYPE_NONE then mbr_loop mbr is disk s
         else do {
           (ok, disk1, s1) \<leftarrow> add_partition \<lparr>lba = ucast (mbr_start e), sectors_n = ucast (mbr_length e)\<rparr> disk s;
           if \<not> ok then Some (BL_STATUS_MEMORY_ALLOCATION_FAILED, disk1, s1)
           else mbr_loop mbr is disk1 s1 })"

definition bl_mbr_iterate :: "'a table_iterate" where
  "bl_mbr_iterate disk s = do {
     (status, mbr, s1) \<leftarrow> bl_storage_device_read disk 0 sizeof_mbr 0 s;
     if failed status then Some (status, disk, s1)
     else if mbr_signature mbr \<noteq> BL_MBR_SIGNATURE then Some (BL_STATUS_UNSUPPORTED, disk, s1)
     else mbr_loop mbr [0, 1, 2, 3] disk s1 }"

subsection \<open>GUID partition tables\<close>

definition BL_GPT_SIGNATURE :: "u8 list" where
  "BL_GPT_SIGNATURE = ascii ''EFI PART''"

definition sizeof_gpt_header :: u32 where "sizeof_gpt_header = 92"
definition sizeof_gpt_entry :: u32 where "sizeof_gpt_entry = 128"

record bl_gpt_header =
  gpt_signature :: "u8 list"
  partitions_lba :: u64
  partitions_count :: u32
  partition_entry_size :: u32

definition rd_gpt_header :: "u8 list \<Rightarrow> bl_gpt_header" where
  "rd_gpt_header bs = \<lparr>gpt_signature = take 8 bs, partitions_lba = get64 bs 72,
     partitions_count = get32 bs 80, partition_entry_size = get32 bs 84\<rparr>"

record bl_gpt_partition_entry =
  partition_type_guid :: "u8 list"
  first_lba :: u64
  last_lba :: u64

definition rd_gpt_entry :: "u8 list \<Rightarrow> bl_gpt_partition_entry" where
  "rd_gpt_entry bs = \<lparr>partition_type_guid = take 16 bs, first_lba = get64 bs 32, last_lba = get64 bs 40\<rparr>"

definition BL_GPT_UNUSED_ENTRY :: "u8 list" where
  "BL_GPT_UNUSED_ENTRY = replicate 16 0"

fun gpt_loop :: "bl_gpt_header \<Rightarrow> nat \<Rightarrow> u64 \<Rightarrow> 'a device \<Rightarrow> 'a heap_st_scheme \<Rightarrow> (bl_status \<times> 'a device \<times> 'a heap_st_scheme) option" where
  "gpt_loop gpt 0 entry_offset disk s = Some (BL_STATUS_SUCCESS, disk, s)"
| "gpt_loop gpt (Suc n) entry_offset disk s = do {
     (status, bs, s1) \<leftarrow> bl_storage_device_read disk (partitions_lba gpt + entry_offset div ucast BL_STORAGE_SECTOR_SIZE)
        sizeof_gpt_entry (ucast (entry_offset mod ucast BL_STORAGE_SECTOR_SIZE)) s;
     if failed status then Some (status, disk, s1)
     else let entry = rd_gpt_entry bs; next_offset = entry_offset + ucast (partition_entry_size gpt)
     in if partition_type_guid entry = BL_GPT_UNUSED_ENTRY then gpt_loop gpt n next_offset disk s1
     else do {
       (ok, disk1, s2) \<leftarrow> add_partition \<lparr>lba = first_lba entry, sectors_n = last_lba entry - first_lba entry\<rparr> disk s1;
       if \<not> ok then Some (BL_STATUS_MEMORY_ALLOCATION_FAILED, disk1, s2)
       else gpt_loop gpt n next_offset disk1 s2 } }"

definition bl_gpt_iterate :: "'a table_iterate" where
  "bl_gpt_iterate disk s = do {
     (status, mbr, s1) \<leftarrow> bl_storage_device_read disk 0 sizeof_mbr 0 s;
     if failed status then Some (status, disk, s1)
     else if mbr_signature mbr \<noteq> BL_MBR_SIGNATURE then Some (BL_STATUS_UNSUPPORTED, disk, s1)
     else if \<forall>i \<in> {0, 1, 2, 3}. partition_type (mbr_entry mbr i) \<noteq> BL_MBR_PARTITION_TYPE_GPT_DISK
     then Some (BL_STATUS_UNSUPPORTED, disk, s1)
     else do {
       (status2, bs, s2) \<leftarrow> bl_storage_device_read disk 1 sizeof_gpt_header 0 s1;
       if failed status2 then Some (status2, disk, s2)
       else let gpt = rd_gpt_header bs
       in if gpt_signature gpt \<noteq> BL_GPT_SIGNATURE then Some (BL_STATUS_UNSUPPORTED, disk, s2)
       else gpt_loop gpt (unat (partitions_count gpt)) 0 disk s2 } }"

subsection \<open>Registries as an interface\<close>

text \<open>
  Every registry of the boot loader pushes to the front of a list, and every look-up takes
  the first entry that satisfies a test; so the entry registered last wins.
\<close>

lemma find_append: "find P (xs @ ys) = (case find P xs of Some x \<Rightarrow> Some x | None \<Rightarrow> find P ys)"
  by (induction xs) auto

locale registry =
  fixes entries :: "'r \<Rightarrow> 'd list" and enter :: "'d \<Rightarrow> 'r \<Rightarrow> 'r"
  assumes entries_enter: "entries (enter d r) = d # entries r"
begin

lemma entries_fold: "entries (fold enter ds r) = rev ds @ entries r"
  by (induction ds arbitrary: r) (simp_all add: entries_enter)

lemma find_after_enter: "find P (entries (enter d r)) = (if P d then Some d else find P (entries r))"
  by (simp add: entries_enter)

lemma last_entered_wins:
  assumes "d \<in> set ds" "P d"
  shows "\<exists>xs e ys. ds = xs @ e # ys \<and> P e \<and> (\<forall>y \<in> set ys. \<not> P y) \<and> find P (entries (fold enter ds r)) = Some e"
proof -
  obtain xs e ys where s: "ds = xs @ e # ys" "P e" "\<forall>y \<in> set ys. \<not> P y"
    using split_list_last_prop [of ds P] assms by blast
  have "find P (rev ys) = None" using s(3) by (simp add: find_None_iff)
  then have "find P (rev ys @ e # rev xs @ entries r) = Some e"
    using s(2) by (simp add: find_append)
  then have "find P (entries (fold enter ds r)) = Some e" unfolding entries_fold s(1) by simp
  then show ?thesis using s by blast
qed

end

interpretation disks: registry storage_devices bl_storage_device_register
  by unfold_locales (simp add: bl_storage_device_register_def)

interpretation controllers: registry controller_list bl_disk_controller_register
  by unfold_locales (simp add: bl_disk_controller_register_def)

interpretation tables: registry partition_tables bl_partition_table_register
  by unfold_locales (simp add: bl_partition_table_register_def)

lemma match_type_find: "match_type_loop t cs = find (\<lambda>c. t = ctl_type c) cs"
  by (induction cs) auto

lemma list_get_nth: "i \<le> index \<Longrightarrow>
    list_get xs i index = (if nat (index - i) < length xs then Some (xs ! nat (index - i)) else None)"
proof (induction xs arbitrary: i)
  case (Cons x xs)
  have "nat (index - (i + 1)) = nat (index - i) - 1" by arith
  then show ?case
    using Cons by (cases "i = index") (auto simp: nth_Cons' nat_less_iff)
qed simp

subsection \<open>Reading a disk\<close>

text \<open>A disk whose controller returns the bytes of \<open>D\<close>, 512 per sector.\<close>

definition disk_reads :: "'a device \<Rightarrow> (nat \<Rightarrow> u8) \<Rightarrow> bool" where
  "disk_reads disk D \<longleftrightarrow> (\<exists>c. snd disk = Some c \<and>
     (\<forall>info start n s. ctl_read c info start n s =
        Some (BL_STATUS_SUCCESS, map (\<lambda>i. D (512 * unat start + i)) [0..<512 * unat n], s)))"

definition disk_bytes :: "(nat \<Rightarrow> u8) \<Rightarrow> nat \<Rightarrow> nat \<Rightarrow> u8 list" where
  "disk_bytes D a n = map (\<lambda>i. D (a + i)) [0..<n]"

lemma sectors_size_bounds:
  assumes "unat off + unat sz + 512 \<le> 2 ^ 32"
  defines "ss \<equiv> BL_MEMORY_ALIGN_UP (off + sz) BL_STORAGE_SECTOR_SIZE"
  shows "unat off + unat sz \<le> unat ss" "unat ss < unat off + unat sz + 512"
    "512 * unat (ucast (ss div BL_STORAGE_SECTOR_SIZE) :: u64) = unat ss"
proof -
  have u: "unat (off + sz) = unat off + unat sz" using assms(1) unat_add_lem [of off sz] by simp
  have s: "ss = BL_MEMORY_ALIGN_UP (off + sz) (2 ^ 9)" by (simp add: ss_def BL_STORAGE_SECTOR_SIZE_def)
  note b = align_up_ge [of 9 "off + sz"]
  show "unat off + unat sz \<le> unat ss" "unat ss < unat off + unat sz + 512"
    using b(1,2) assms(1) by (simp_all add: u s)
  have "512 dvd unat ss" using b(3) assms(1) by (simp add: u s)
  moreover have "unat (ucast (ss div BL_STORAGE_SECTOR_SIZE) :: u64) = unat ss div 512"
    using unat_lt2p [of ss]
    by (simp add: BL_STORAGE_SECTOR_SIZE_def unsigned_ucast_eq take_bit_eq_mod unat_div_distrib)
  ultimately show "512 * unat (ucast (ss div BL_STORAGE_SECTOR_SIZE) :: u64) = unat ss" by simp
qed

lemma storage_device_read_ok:
  assumes "disk_reads disk D" "heap_ok s (B + unat off + unat sz + 560) L" "unat off + unat sz + 512 \<le> 2 ^ 32"
  shows "\<exists>s'. bl_storage_device_read disk start sz off s =
      Some (BL_STATUS_SUCCESS, disk_bytes D (512 * unat start + unat off) (unat sz), s') \<and>
    heap_ok s' B L \<and> (\<forall>(b, k) \<in> L. mem_get (mem s') b k = mem_get (mem s) b k) \<and> heap_st.more s' = heap_st.more s"
proof -
  define ss where "ss = BL_MEMORY_ALIGN_UP (off + sz) BL_STORAGE_SECTOR_SIZE"
  note ss = sectors_size_bounds [OF assms(3), folded ss_def]
  obtain c where c: "snd disk = Some c" "\<And>info start n s. ctl_read c info start n s =
      Some (BL_STATUS_SUCCESS, map (\<lambda>i. D (512 * unat start + i)) [0..<512 * unat n], s)"
    using assms(1) by (auto simp: disk_reads_def)
  have "heap_ok s (B + unat ss + 48) L" using heap_ok_mono [OF assms(2)] ss(2) by simp
  then obtain raw s1 where raw: "bl_heap_alloc s ss = Some (raw, s1)" "raw \<noteq> 0" "unat ss \<le> block_size s1 raw"
      "heap_ok s1 B (insert (raw, block_size s1 raw) L)" "\<forall>k. (raw, k) \<notin> L"
      "\<forall>(b, k) \<in> L. mem_get (mem s1) b k = mem_get (mem s) b k" "heap_st.more s1 = heap_st.more s"
    using heap_ok_alloc by blast
  let ?n = "block_size s1 raw" and ?bytes = "map (\<lambda>i. D (512 * unat start + i)) [0..<unat ss]"
  define s3 where "s3 = heap_write s1 raw ?bytes"
  have s3: "heap_ok s3 B (insert (raw, ?n) L)"
    unfolding s3_def using raw(3) by (intro heap_ok_write [OF raw(4), of raw ?n]) simp_all
  define s4 where "s4 = bl_heap_free s3 raw ss"
  have "insert (raw, ?n) L - {(raw, ?n)} = L" using raw(5) by blast
  then have s4: "heap_ok s4 B L" "\<forall>(b, k) \<in> L. mem_get (mem s4) b k = mem_get (mem s3) b k" "heap_st.more s4 = heap_st.more s3"
    using heap_ok_free [OF s3, of raw ?n ss] unfolding s4_def by auto
  have keep: "mem_get (mem s3) b k = mem_get (mem s1) b k" if "(b, k) \<in> L" for b k
    unfolding s3_def using that raw(3,5) heap.store_keeps [OF heap_ok_live [OF raw(4)], of raw ?n b k ?bytes] by auto
  have "mem_get (mem s3) raw (unat ss) = ?bytes"
    unfolding s3_def heap_write_def using unat_lt2p [of ss] by (simp add: mem_get_put_same)
  then have "take (unat sz) (drop (unat off) (mem_get (mem s3) raw (unat ss))) = take (unat sz) (drop (unat off) ?bytes)"
    by simp
  moreover have "take (unat sz) (drop (unat off) (mem_get (mem s3) raw (unat ss))) = mem_get (mem s3) (raw + off) (unat sz)"
    using ss(1) by (simp add: drop_mem_get take_mem_get)
  moreover have "take (unat sz) (drop (unat off) ?bytes) = disk_bytes D (512 * unat start + unat off) (unat sz)"
    using ss(1) by (intro nth_equalityI) (auto simp: disk_bytes_def algebra_simps)
  ultimately have "bl_storage_device_read disk start sz off s =
      Some (BL_STATUS_SUCCESS, disk_bytes D (512 * unat start + unat off) (unat sz), s4)"
    using raw(1,2) c by (simp add: bl_storage_device_read_def ss_def [symmetric] ss(3) s4_def s3_def heap_write_def Let_def)
  moreover have "heap_st.more s4 = heap_st.more s" using s4(3) raw(7) by (simp add: s3_def heap_write_def)
  ultimately show ?thesis using s4(1,2) keep raw(6) by fastforce
qed

lemma unat_sizes [simp]:
  "unat sizeof_partition = 20" "unat sizeof_mbr = 512" "unat sizeof_gpt_header = 92" "unat sizeof_gpt_entry = 128"
  by (simp_all add: sizeof_partition_def sizeof_mbr_def sizeof_gpt_header_def sizeof_gpt_entry_def)

lemma add_partition_ok:
  assumes "heap_ok s (B + 68) L"
  shows "\<exists>s' a n. add_partition p disk s =
      Some (True, ((fst disk)\<lparr>partitions := p # partitions (fst disk)\<rparr>, snd disk), s') \<and> heap_ok s' B (insert (a, n) L) \<and>
      (\<forall>(b, k) \<in> L. mem_get (mem s') b k = mem_get (mem s) b k)"
proof -
  have "heap_ok s (B + unat sizeof_partition + 48) L" using assms by (simp add: ac_simps)
  from heap_ok_alloc [OF this] show ?thesis by (fastforce simp: add_partition_def)
qed

subsection \<open>What the partition readers find\<close>

definition mbr_partition :: "bl_mbr_partition_entry \<Rightarrow> bl_partition" where
  "mbr_partition e = \<lparr>lba = ucast (mbr_start e), sectors_n = ucast (mbr_length e)\<rparr>"

definition mbr_used :: "bl_mbr_partition_entry \<Rightarrow> bool" where
  "mbr_used e \<longleftrightarrow> partition_type e \<noteq> BL_MBR_PARTITION_TYPE_NONE"

definition with_partitions :: "'a device \<Rightarrow> bl_partition list \<Rightarrow> 'a device" where
  "with_partitions disk ps = ((fst disk)\<lparr>partitions := ps @ partitions (fst disk)\<rparr>, snd disk)"

lemma with_partitions_simps [simp]:
  "with_partitions disk [] = disk"
  "with_partitions ((fst disk)\<lparr>partitions := p # partitions (fst disk)\<rparr>, snd disk) ps = with_partitions disk (ps @ [p])"
  "snd (with_partitions disk ps) = snd disk"
  by (cases disk; simp add: with_partitions_def)+

lemma mbr_loop_ok:
  assumes "heap_ok s (B + 68 * length is) L"
  shows "\<exists>s' L'. mbr_loop mbr is disk s = Some (BL_STATUS_SUCCESS,
      with_partitions disk (rev (map mbr_partition (filter mbr_used (map (mbr_entry mbr) is)))), s') \<and>
      heap_ok s' B L' \<and> L \<subseteq> L' \<and> (\<forall>(b, k) \<in> L. mem_get (mem s') b k = mem_get (mem s) b k)"
  using assms
proof (induction "is" arbitrary: disk s L)
  case Nil
  then show ?case by auto
next
  case (Cons i "is")
  let ?e = "mbr_entry mbr i" and ?ps = "rev (map mbr_partition (filter mbr_used (map (mbr_entry mbr) is)))"
  show ?case
  proof (cases "mbr_used ?e")
    case False
    have "heap_ok s (B + 68 * length is) L" using heap_ok_mono [OF Cons.prems] by simp
    from Cons.IH [OF this, of disk] show ?thesis using False by (simp add: mbr_used_def Let_def)
  next
    case True
    let ?d1 = "((fst disk)\<lparr>partitions := mbr_partition ?e # partitions (fst disk)\<rparr>, snd disk)"
    have "heap_ok s ((B + 68 * length is) + 68) L" using Cons.prems by (simp add: algebra_simps)
    from add_partition_ok [OF this, of "mbr_partition ?e" disk] obtain s1 a n where
      1: "add_partition (mbr_partition ?e) disk s = Some (True, ?d1, s1)"
        "heap_ok s1 (B + 68 * length is) (insert (a, n) L)" "\<forall>(b, k) \<in> L. mem_get (mem s1) b k = mem_get (mem s) b k"
      by blast
    from Cons.IH [OF 1(2), of ?d1] obtain s' L' where
      2: "mbr_loop mbr is ?d1 s1 = Some (BL_STATUS_SUCCESS, with_partitions ?d1 ?ps, s')"
        "heap_ok s' B L'" "insert (a, n) L \<subseteq> L'" "\<forall>(b, k) \<in> insert (a, n) L. mem_get (mem s') b k = mem_get (mem s1) b k"
      by blast
    have "mbr_loop mbr (i # is) disk s = mbr_loop mbr is ?d1 s1"
      using True 1(1) by (simp add: mbr_used_def mbr_partition_def Let_def)
    then show ?thesis using 1(3) 2 True by fastforce
  qed
qed

lemma mbr_iterate_ok:
  assumes "disk_reads disk D" "heap_ok s (B + 1344) L"
  defines "mbr \<equiv> disk_bytes D 0 512"
  shows "\<exists>s' L'. bl_mbr_iterate disk s =
      (if mbr_signature mbr \<noteq> BL_MBR_SIGNATURE then Some (BL_STATUS_UNSUPPORTED, disk, s')
       else Some (BL_STATUS_SUCCESS,
         with_partitions disk (rev (map mbr_partition (filter mbr_used (map (mbr_entry mbr) [0, 1, 2, 3])))), s')) \<and>
      heap_ok s' B L' \<and> L \<subseteq> L' \<and> (\<forall>(b, k) \<in> L. mem_get (mem s') b k = mem_get (mem s) b k)"
proof -
  have b: "heap_ok s ((B + 272) + unat (0 :: u32) + unat sizeof_mbr + 560) L"
    using assms(2) by (simp add: ac_simps)
  obtain s1 where s1: "bl_storage_device_read disk 0 sizeof_mbr 0 s = Some (BL_STATUS_SUCCESS, mbr, s1)"
      "heap_ok s1 (B + 272) L" "\<forall>(b, k) \<in> L. mem_get (mem s1) b k = mem_get (mem s) b k"
    using storage_device_read_ok [OF assms(1) b, of 0] by (auto simp: mbr_def)
  obtain s' L' where l: "mbr_loop mbr [0, 1, 2, 3] disk s1 = Some (BL_STATUS_SUCCESS,
      with_partitions disk (rev (map mbr_partition (filter mbr_used (map (mbr_entry mbr) [0, 1, 2, 3])))), s')"
      "heap_ok s' B L'" "L \<subseteq> L'" "\<forall>(b, k) \<in> L. mem_get (mem s') b k = mem_get (mem s1) b k"
    using mbr_loop_ok [of s1 B "[0, 1, 2, 3]" L mbr disk] s1(2) by auto
  show ?thesis
  proof (cases "mbr_signature mbr = BL_MBR_SIGNATURE")
    case True
    then show ?thesis using s1 l by (intro exI [of _ s'] exI [of _ L']) (fastforce simp: bl_mbr_iterate_def)
  next
    case False
    then show ?thesis
      using s1 heap_ok_mono [OF s1(2), of B] by (intro exI [of _ s1] exI [of _ L]) (simp add: bl_mbr_iterate_def)
  qed
qed

text \<open>GPT: entry \<open>i\<close> lies \<open>i\<close> times the entry size behind the first sector of the array.\<close>

definition gpt_entry_at :: "(nat \<Rightarrow> u8) \<Rightarrow> bl_gpt_header \<Rightarrow> nat \<Rightarrow> bl_gpt_partition_entry" where
  "gpt_entry_at D gpt off = rd_gpt_entry (disk_bytes D (512 * unat (partitions_lba gpt) + off) 128)"

definition gpt_used :: "bl_gpt_partition_entry \<Rightarrow> bool" where
  "gpt_used e \<longleftrightarrow> partition_type_guid e \<noteq> BL_GPT_UNUSED_ENTRY"

definition gpt_partition :: "bl_gpt_partition_entry \<Rightarrow> bl_partition" where
  "gpt_partition e = \<lparr>lba = first_lba e, sectors_n = last_lba e - first_lba e\<rparr>"

definition gpt_entries :: "(nat \<Rightarrow> u8) \<Rightarrow> bl_gpt_header \<Rightarrow> nat \<Rightarrow> nat \<Rightarrow> bl_gpt_partition_entry list" where
  "gpt_entries D gpt n off = map (\<lambda>i. gpt_entry_at D gpt (off + i * unat (partition_entry_size gpt))) [0..<n]"

lemma gpt_entries_Suc:
  "gpt_entries D gpt (Suc n) off = gpt_entry_at D gpt off # gpt_entries D gpt n (off + unat (partition_entry_size gpt))"
  by (simp add: gpt_entries_def upt_conv_Cons map_Suc_upt [symmetric] algebra_simps del: upt_Suc)

lemma disk_reads_with: "disk_reads disk D \<Longrightarrow> snd d = snd disk \<Longrightarrow> disk_reads d D"
  by (simp add: disk_reads_def)

lemma gpt_read_entry:
  assumes "disk_reads disk D" "heap_ok s (B + 1200) L" "unat (partitions_lba gpt) + unat off < 2 ^ 64"
  shows "\<exists>s'. bl_storage_device_read disk (partitions_lba gpt + off div ucast BL_STORAGE_SECTOR_SIZE)
      sizeof_gpt_entry (ucast (off mod ucast BL_STORAGE_SECTOR_SIZE)) s =
      Some (BL_STATUS_SUCCESS, disk_bytes D (512 * unat (partitions_lba gpt) + unat off) 128, s') \<and>
    heap_ok s' B L \<and> (\<forall>(b, k) \<in> L. mem_get (mem s') b k = mem_get (mem s) b k)"
proof -
  let ?o = "ucast (off mod ucast BL_STORAGE_SECTOR_SIZE) :: u32" and ?l = "partitions_lba gpt + off div ucast BL_STORAGE_SECTOR_SIZE"
  have o: "unat ?o = unat off mod 512"
    by (simp add: BL_STORAGE_SECTOR_SIZE_def unsigned_ucast_eq take_bit_eq_mod unat_mod_distrib)
  have "unat (off div ucast BL_STORAGE_SECTOR_SIZE) = unat off div 512"
    by (simp add: BL_STORAGE_SECTOR_SIZE_def unat_div_distrib)
  then have l: "unat ?l = unat (partitions_lba gpt) + unat off div 512"
    using assms(3) unat_add_lem [of "partitions_lba gpt" "off div ucast BL_STORAGE_SECTOR_SIZE"]
      div_le_dividend [of "unat off" 512] by simp
  have a: "512 * unat ?l + unat ?o = 512 * unat (partitions_lba gpt) + unat off"
    unfolding l o by simp
  have "unat off mod 512 < 512" by simp
  then have "heap_ok s (B + unat ?o + unat sizeof_gpt_entry + 560) L"
    using heap_ok_mono [OF assms(2)] by (simp add: o)
  from storage_device_read_ok [OF assms(1) this, of ?l] show ?thesis unfolding a using \<open>unat off mod 512 < 512\<close> by (auto simp: o)
qed

lemma gpt_loop_ok:
  assumes "disk_reads disk D" "heap_ok s (B + 1268 * n) L"
    "unat (partitions_lba gpt) + unat off + n * unat (partition_entry_size gpt) < 2 ^ 64"
  shows "\<exists>s' L'. gpt_loop gpt n off disk s = Some (BL_STATUS_SUCCESS,
      with_partitions disk (rev (map gpt_partition (filter gpt_used (gpt_entries D gpt n (unat off))))), s') \<and>
      heap_ok s' B L' \<and> L \<subseteq> L' \<and> (\<forall>(b, k) \<in> L. mem_get (mem s') b k = mem_get (mem s) b k)"
  using assms
proof (induction n arbitrary: off disk s L)
  case 0
  then show ?case by (auto simp: gpt_entries_def)
next
  case (Suc n)
  let ?e = "gpt_entry_at D gpt (unat off)" and ?off = "off + ucast (partition_entry_size gpt) :: u64"
  have "heap_ok s ((B + 1268 * n + 68) + 1200) L" using Suc.prems(2) by (simp add: algebra_simps)
  from gpt_read_entry [OF Suc.prems(1) this, of gpt off] Suc.prems(3) obtain s1 where
    1: "bl_storage_device_read disk (partitions_lba gpt + off div ucast BL_STORAGE_SECTOR_SIZE)
        sizeof_gpt_entry (ucast (off mod ucast BL_STORAGE_SECTOR_SIZE)) s =
        Some (BL_STATUS_SUCCESS, disk_bytes D (512 * unat (partitions_lba gpt) + unat off) 128, s1)"
      "heap_ok s1 (B + 1268 * n + 68) L" "\<forall>(b, k) \<in> L. mem_get (mem s1) b k = mem_get (mem s) b k"
    by auto
  have u: "unat (ucast (partition_entry_size gpt) :: u64) = unat (partition_entry_size gpt)"
    using unat_lt2p [of "partition_entry_size gpt"] by (simp add: unsigned_ucast_eq take_bit_eq_mod)
  have o: "unat ?off = unat off + unat (partition_entry_size gpt)"
    using Suc.prems(3) unat_add_lem [of off "ucast (partition_entry_size gpt)"] by (simp add: u)
  have b: "unat (partitions_lba gpt) + unat ?off + n * unat (partition_entry_size gpt) < 2 ^ 64"
    using Suc.prems(3) by (simp add: o)
  show ?case
  proof (cases "gpt_used ?e")
    case False
    have "heap_ok s1 (B + 1268 * n) L" using heap_ok_mono [OF 1(2)] by simp
    from Suc.IH [OF Suc.prems(1) this b] 1 False show ?thesis
      by (fastforce simp: gpt_entries_Suc o gpt_used_def gpt_entry_at_def Let_def)
  next
    case True
    let ?d1 = "((fst disk)\<lparr>partitions := gpt_partition ?e # partitions (fst disk)\<rparr>, snd disk)"
    from add_partition_ok [OF 1(2), of "gpt_partition ?e" disk] obtain s2 a m where
      2: "add_partition (gpt_partition ?e) disk s1 = Some (True, ?d1, s2)" "heap_ok s2 (B + 1268 * n) (insert (a, m) L)"
        "\<forall>(b, k) \<in> L. mem_get (mem s2) b k = mem_get (mem s1) b k" by blast
    have "gpt_loop gpt (Suc n) off disk s = gpt_loop gpt n ?off ?d1 s2"
      using True 1(1) 2(1) by (simp add: gpt_used_def gpt_partition_def gpt_entry_at_def Let_def)
    moreover from Suc.IH [OF disk_reads_with [OF Suc.prems(1), of ?d1] 2(2) b] obtain s' L' where
      "gpt_loop gpt n ?off ?d1 s2 = Some (BL_STATUS_SUCCESS,
         with_partitions ?d1 (rev (map gpt_partition (filter gpt_used (gpt_entries D gpt n (unat ?off))))), s')"
      "heap_ok s' B L'" "insert (a, m) L \<subseteq> L'" "\<forall>(b, k) \<in> insert (a, m) L. mem_get (mem s') b k = mem_get (mem s2) b k"
      by auto
    ultimately show ?thesis using 1(3) 2(3) True by (fastforce simp: gpt_entries_Suc o)
  qed
qed

lemma gpt_iterate_ok:
  assumes "disk_reads disk D" "mbr_signature (disk_bytes D 0 512) = BL_MBR_SIGNATURE"
    "\<exists>i \<in> {0, 1, 2, 3}. partition_type (mbr_entry (disk_bytes D 0 512) i) = BL_MBR_PARTITION_TYPE_GPT_DISK"
  defines "gpt \<equiv> rd_gpt_header (disk_bytes D 512 92)"
  assumes "heap_ok s (B + 1268 * unat (partitions_count gpt) + 1724) L" "gpt_signature gpt = BL_GPT_SIGNATURE"
    "unat (partitions_lba gpt) + unat (partitions_count gpt) * unat (partition_entry_size gpt) < 2 ^ 64"
  shows "\<exists>s' L'. bl_gpt_iterate disk s = Some (BL_STATUS_SUCCESS,
      with_partitions disk (rev (map gpt_partition (filter gpt_used (gpt_entries D gpt (unat (partitions_count gpt)) 0)))), s') \<and>
      heap_ok s' B L' \<and> L \<subseteq> L' \<and> (\<forall>(b, k) \<in> L. mem_get (mem s') b k = mem_get (mem s) b k)"
proof -
  let ?n = "1268 * unat (partitions_count gpt)"
  have b: "heap_ok s ((B + ?n + 652) + unat (0 :: u32) + unat sizeof_mbr + 560) L"
    using assms(5) by (simp add: ac_simps)
  from storage_device_read_ok [OF assms(1) this, of 0] obtain s1 where
    1: "bl_storage_device_read disk 0 sizeof_mbr 0 s = Some (BL_STATUS_SUCCESS, disk_bytes D 0 512, s1)"
      "heap_ok s1 (B + ?n + 652) L" "\<forall>(b, k) \<in> L. mem_get (mem s1) b k = mem_get (mem s) b k"
    by auto
  have b: "heap_ok s1 ((B + ?n) + unat (0 :: u32) + unat sizeof_gpt_header + 560) L"
    using 1(2) by (simp add: ac_simps)
  from storage_device_read_ok [OF assms(1) this, of 1] obtain s2 where
    2: "bl_storage_device_read disk 1 sizeof_gpt_header 0 s1 = Some (BL_STATUS_SUCCESS, disk_bytes D 512 92, s2)"
      "heap_ok s2 (B + ?n) L" "\<forall>(b, k) \<in> L. mem_get (mem s2) b k = mem_get (mem s1) b k"
    by auto
  from gpt_loop_ok [OF assms(1) 2(2), of gpt 0] assms(7) obtain s' L' where
    3: "gpt_loop gpt (unat (partitions_count gpt)) 0 disk s2 = Some (BL_STATUS_SUCCESS,
      with_partitions disk (rev (map gpt_partition (filter gpt_used (gpt_entries D gpt (unat (partitions_count gpt)) 0)))), s')"
      "heap_ok s' B L'" "L \<subseteq> L'" "\<forall>(b, k) \<in> L. mem_get (mem s') b k = mem_get (mem s2) b k"
    by auto
  have "bl_gpt_iterate disk s = gpt_loop gpt (unat (partitions_count gpt)) 0 disk s2"
    using 1(1) 2(1) assms(2,3,6) by (auto simp: bl_gpt_iterate_def gpt_def Let_def)
  then show ?thesis using 3 1(3) 2(3) by (intro exI [of _ s'] exI [of _ L']) fastforce
qed

text \<open>The bytes of a read as the readers take them apart.\<close>

lemma take_drop_disk: "a + n \<le> k \<Longrightarrow> take n (drop a (disk_bytes D b k)) = disk_bytes D (b + a) n"
  by (rule nth_equalityI) (simp_all add: disk_bytes_def ac_simps)

lemma take_disk: "n \<le> k \<Longrightarrow> take n (disk_bytes D b k) = disk_bytes D b n"
  using take_drop_disk [of 0 n k D b] by simp

lemma get8_disk: "a < k \<Longrightarrow> get8 (disk_bytes D b k) a = D (b + a)"
  by (simp add: disk_bytes_def get8_def)

lemma disk_bytes_small:
  "disk_bytes D a 2 = [D a, D (a + 1)]" "disk_bytes D a 4 = [D a, D (a + 1), D (a + 2), D (a + 3)]"
  "disk_bytes D a 8 = [D a, D (a + 1), D (a + 2), D (a + 3), D (a + 4), D (a + 5), D (a + 6), D (a + 7)]"
  by (simp_all add: disk_bytes_def upt_rec eval_nat_numeral)

lemmas disk_eval = take_drop_disk take_disk get8_disk disk_bytes_small get16_def get32_def get64_def

end
