(* ===== verification/Bl_Tokens.thy ===== *)
theory Bl_Tokens
  imports Bl_Storage
begin

text \<open>
  The allocating string functions and the tokenizer of
  src/boot-loader/core/utils/string.c: bl_strdup, bl_strndup, bl_isdelim and bl_strtok with
  its static pointer. \<open>strtok_step\<close> describes one call on a terminated string, and
  \<open>strtok_tokens\<close> the sequence of calls that splits a whole string.
\<close>

unbundle bit_operations_syntax

record tok_st = heap_st +
  bl_strtok_str :: addr

definition bl_strdup :: "addr \<Rightarrow> 'a heap_st_scheme \<Rightarrow> (addr \<times> 'a heap_st_scheme) option" where
  "bl_strdup p s =
     (if p = 0 then Some (0, s)
      else do {
        l \<leftarrow> bl_strlen (mem s) p;
        let len = l + 1;
        (res, s1) \<leftarrow> bl_heap_alloc s len;
        if res = 0 then Some (0, s1)
        else case bl_memcpy ((mem s1)(res + len := 0)) res p len of (r, m2) \<Rightarrow> Some (r, s1\<lparr>mem := m2\<rparr>) })"

definition bl_strndup :: "addr \<Rightarrow> u32 \<Rightarrow> 'a heap_st_scheme \<Rightarrow> (addr \<times> 'a heap_st_scheme) option" where
  "bl_strndup p n s =
     (if p = 0 then Some (0, s)
      else do {
        l \<leftarrow> bl_strlen (mem s) p;
        let len = (if l + 1 > n then n + 1 else l + 1);
        (res, s1) \<leftarrow> bl_heap_alloc s len;
        if res = 0 then Some (0, s1)
        else case bl_memcpy ((mem s1)(res + len := 0)) res p len of (r, m2) \<Rightarrow> Some (r, s1\<lparr>mem := m2\<rparr>) })"

partial_function (option) bl_isdelim_loop :: "mem \<Rightarrow> u8 \<Rightarrow> addr \<Rightarrow> bool option" where
  "bl_isdelim_loop m c delim =
     (if m delim \<noteq> 0 then (if c = m delim then Some True else bl_isdelim_loop m c (delim + 1))
      else Some False)"

definition bl_isdelim :: "mem \<Rightarrow> u8 \<Rightarrow> addr \<Rightarrow> bool option" where
  "bl_isdelim m c delim = bl_isdelim_loop m c delim"

partial_function (option) strtok_skip :: "mem \<Rightarrow> addr \<Rightarrow> addr \<Rightarrow> addr option" where
  "strtok_skip m delim p =
     (case bl_isdelim m (m p) delim of
        None \<Rightarrow> None
      | Some b \<Rightarrow> if b then strtok_skip m delim (p + 1) else Some p)"

partial_function (option) strtok_end :: "mem \<Rightarrow> addr \<Rightarrow> addr \<Rightarrow> addr option" where
  "strtok_end m delim p =
     (if m p \<noteq> 0 then
        (case bl_isdelim m (m p) delim of
           None \<Rightarrow> None
         | Some b \<Rightarrow> if b then Some p else strtok_end m delim (p + 1))
      else Some p)"

definition bl_strtok :: "addr \<Rightarrow> addr \<Rightarrow> 'a tok_st_scheme \<Rightarrow> (addr \<times> 'a tok_st_scheme) option" where
  "bl_strtok p delim s0 =
     (let s = (if p \<noteq> 0 then s0\<lparr>bl_strtok_str := p\<rparr> else s0)
      in if delim = 0 then Some (bl_strtok_str s, s)
      else do {
        q \<leftarrow> strtok_skip (mem s) delim (bl_strtok_str s);
        let s1 = s\<lparr>bl_strtok_str := q\<rparr>;
        if mem s1 q = 0 then Some (0, s1)
        else do {
          e \<leftarrow> strtok_end (mem s1) delim q;
          Some (q, s1\<lparr>mem := (mem s1)(e := 0), bl_strtok_str := e + 1\<rparr>) } })"

subsection \<open>One call\<close>

lemma bl_isdelim_cstr: "cstr m d ds \<Longrightarrow> bl_isdelim m c d = Some (c \<in> set ds)"
  unfolding bl_isdelim_def
  by (induction ds arbitrary: d) (subst bl_isdelim_loop.simps, auto)+

lemma strtok_skip_cstr:
  assumes "cstr m d ds" "cstr m p w"
  shows "strtok_skip m d p = Some (p + of_nat (length (takeWhile (\<lambda>c. c \<in> set ds) w)))"
  using assms(2)
proof (induction w arbitrary: p)
  case Nil
  then show ?case using cstr_no_zero [OF assms(1)] by (subst strtok_skip.simps) (simp add: bl_isdelim_cstr [OF assms(1)])
next
  case (Cons c w)
  then show ?case by (subst strtok_skip.simps) (simp add: bl_isdelim_cstr [OF assms(1)] add.assoc [symmetric])
qed

lemma strtok_end_cstr:
  assumes "cstr m d ds" "cstr m p w"
  shows "strtok_end m d p = Some (p + of_nat (length (takeWhile (\<lambda>c. c \<notin> set ds) w)))"
  using assms(2)
proof (induction w arbitrary: p)
  case Nil
  then show ?case by (subst strtok_end.simps) simp
next
  case (Cons c w)
  then show ?case by (subst strtok_end.simps) (simp add: bl_isdelim_cstr [OF assms(1)] add.assoc [symmetric])
qed

lemma cstr_append: "cstr m p (v @ w) \<longleftrightarrow> 0 \<notin> set v \<and> mem_get m p (length v) = v \<and> cstr m (p + of_nat (length v)) w"
  by (induction v arbitrary: p) (auto simp: mem_get_Suc add.assoc [symmetric])

subsection \<open>Splitting a string\<close>

function tokens :: "('a \<Rightarrow> bool) \<Rightarrow> 'a list \<Rightarrow> 'a list list" where
  "tokens P w =
     (let t = dropWhile P w
      in if t = [] then [] else takeWhile (\<lambda>c. \<not> P c) t # tokens P (tl (dropWhile (\<lambda>c. \<not> P c) t)))"
  by pat_completeness auto
termination
proof (relation "measure (\<lambda>(P, w). length w)")
  fix P :: "'a \<Rightarrow> bool" and w t :: "'a list"
  assume "t = dropWhile P w" "t \<noteq> []"
  then have "length t \<le> length w" "0 < length t" by (simp_all add: length_dropWhile_le)
  then show "((P, tl (dropWhile (\<lambda>c. \<not> P c) t)), P, w) \<in> measure (\<lambda>(P, w). length w)"
    using length_dropWhile_le [of "\<lambda>c. \<not> P c" t] by (simp add: less_eq_Suc_le)
qed simp

declare tokens.simps [simp del]

lemma tokens_Nil: "tokens P w = [] \<Longrightarrow> dropWhile P w = []"
  by (subst (asm) tokens.simps) (metis list.distinct(1))

lemma tokens_Cons:
  assumes "tokens P w = v # ws"
  shows "dropWhile P w \<noteq> []" "v = takeWhile (\<lambda>c. \<not> P c) (dropWhile P w)"
    "ws = tokens P (tl (dropWhile (\<lambda>c. \<not> P c) (dropWhile P w)))" "v \<noteq> []"
proof -
  have t: "(if dropWhile P w = [] then [] else takeWhile (\<lambda>c. \<not> P c) (dropWhile P w) #
      tokens P (tl (dropWhile (\<lambda>c. \<not> P c) (dropWhile P w)))) = v # ws"
    using assms by (subst (asm) tokens.simps) (simp only: Let_def)
  then show n: "dropWhile P w \<noteq> []" by (metis list.distinct(1))
  from t n show v: "v = takeWhile (\<lambda>c. \<not> P c) (dropWhile P w)"
    and "ws = tokens P (tl (dropWhile (\<lambda>c. \<not> P c) (dropWhile P w)))" by (metis list.inject)+
  show "v \<noteq> []" using n hd_dropWhile [OF n] unfolding v by (cases "dropWhile P w") simp_all
qed

lemma mem_get_upd_out:
  assumes "fits p n" "unat x < unat p \<or> unat p + n \<le> unat x"
  shows "mem_get (m(x := c)) p n = mem_get m p n"
proof -
  have "m(x := c) = mem_put m x [c]" using mem_put_upd [of "[]" m x c] by simp
  moreover have "fits x 1" using unat_lt2p [of x] by (simp add: fits_def)
  ultimately show ?thesis using assms by (auto simp: apart_def intro!: mem_get_put_apart)
qed

lemma cstr_upd_out:
  assumes "cstr m p w" "fits p (Suc (length w))" "unat x < unat p \<or> unat p + Suc (length w) \<le> unat x"
  shows "cstr (m(x := c)) p w"
  using assms(1) mem_get_upd_out [OF assms(2,3)] by (simp add: cstr_mem_get)

lemma cstr_upd_end:
  assumes "cstr m p (v @ w)" "fits p (length v + 1)"
  shows "cstr (m(p + of_nat (length v) := 0)) p v"
proof -
  have "unat (p + of_nat (length v)) = unat p + length v" using assms(2) by (intro unat_add_lt) (simp add: fits_def)
  then have "mem_get (m(p + of_nat (length v) := 0)) p (length v) = mem_get m p (length v)"
    using assms(2) by (intro mem_get_upd_out) (auto simp: fits_def)
  then show ?thesis using assms(1) cstr_append [of _ p v "[]"] by (auto simp: cstr_append)
qed

text \<open>
  The string left to split is \<open>w\<close> at the static pointer, behind its terminator is one more
  zero byte (bl_strndup stores it), and the delimiters are elsewhere.
\<close>

definition tok_extent :: "u8 list \<Rightarrow> nat" where
  "tok_extent w = length w + (if w = [] then 1 else 2)"

definition tok_inv :: "'a tok_st_scheme \<Rightarrow> u8 list \<Rightarrow> addr \<Rightarrow> u8 list \<Rightarrow> bool" where
  "tok_inv s w d ds \<longleftrightarrow>
     cstr (mem s) (bl_strtok_str s) w \<and>
     (w \<noteq> [] \<longrightarrow> bl_strtok_str s \<noteq> 0 \<and> mem s (bl_strtok_str s + of_nat (length w) + 1) = 0) \<and>
     fits (bl_strtok_str s) (tok_extent w) \<and>
     d \<noteq> 0 \<and> cstr (mem s) d ds \<and> fits d (Suc (length ds)) \<and> apart d (Suc (length ds)) (bl_strtok_str s) (tok_extent w)"

lemma tok_step_none:
  assumes "tok_inv s w d ds" "dropWhile (\<lambda>c. c \<in> set ds) w = []"
  shows "\<exists>s'. bl_strtok 0 d s = Some (0, s') \<and> mem s' = mem s"
proof -
  have c: "cstr (mem s) d ds" "cstr (mem s) (bl_strtok_str s) w" "d \<noteq> 0" using assms(1) by (simp_all add: tok_inv_def)
  have w: "takeWhile (\<lambda>c. c \<in> set ds) w = w" using assms(2) by (metis append_Nil2 takeWhile_dropWhile_id)
  have "mem s (bl_strtok_str s + of_nat (length w)) = 0" using c(2) cstr_append [of _ _ w "[]"] by simp
  then show ?thesis using c(3) strtok_skip_cstr [OF c(1,2)] unfolding w by (simp add: bl_strtok_def)
qed

lemma tok_step_some:
  assumes inv: "tok_inv s w d ds"
    and t: "t = dropWhile (\<lambda>c. c \<in> set ds) w" "t \<noteq> []"
    and v: "v = takeWhile (\<lambda>c. c \<notin> set ds) t" and r: "r = tl (dropWhile (\<lambda>c. c \<notin> set ds) t)"
  shows "\<exists>q e s'. bl_strtok 0 d s = Some (q, s') \<and> q \<noteq> 0 \<and> cstr (mem s') q v \<and> tok_inv s' r d ds \<and>
    mem s' = (mem s)(e := 0) \<and> unat (bl_strtok_str s) \<le> unat q \<and> unat q + length v = unat e \<and>
    unat e < unat (bl_strtok_str s') \<and> unat (bl_strtok_str s') + tok_extent r \<le> unat (bl_strtok_str s) + tok_extent w"
proof -
  let ?p = "bl_strtok_str s"
  have wn: "w \<noteq> []" using t by auto
  have c: "cstr (mem s) d ds" "cstr (mem s) ?p w" "d \<noteq> 0" "fits ?p (length w + 2)"
    "apart d (Suc (length ds)) ?p (length w + 2)" "fits d (Suc (length ds))" "?p \<noteq> 0" "mem s (?p + of_nat (length w) + 1) = 0"
    using inv wn by (simp_all add: tok_inv_def tok_extent_def)
  let ?u = "takeWhile (\<lambda>c. c \<in> set ds) w" and ?z = "dropWhile (\<lambda>c. c \<notin> set ds) t"
  have w: "w = ?u @ t" "t = v @ ?z" by (simp_all add: t(1) v)
  then have len: "length w = length ?u + length v + length ?z" by (metis length_append add.assoc)
  define q where "q = ?p + of_nat (length ?u)"
  define e where "e = q + of_nat (length v)"
  have uq: "unat q = unat ?p + length ?u"
    unfolding q_def using c(4) len by (intro unat_add_lt) (simp add: fits_def)
  have ue: "unat e = unat q + length v"
    unfolding e_def using uq c(4) len by (intro unat_add_lt) (simp add: fits_def)
  have ue1: "unat (e + 1) = unat e + 1"
    using ue uq c(4) len unat_add_lt [of e 1] by (simp add: fits_def)
  have q_nz: "q \<noteq> 0" using uq c(7) by (auto simp: unat_eq_zero)
  have ct: "cstr (mem s) q t" unfolding q_def using c(2) cstr_append [of "mem s" ?p ?u t] w(1) by metis
  have q0: "mem s q \<noteq> 0" using ct t(2) by (cases t) auto
  have "strtok_end (mem s) d q = Some e" using strtok_end_cstr [OF c(1) ct] by (simp add: e_def v)
  then have run: "bl_strtok 0 d s = Some (q, s\<lparr>mem := (mem s)(e := 0), bl_strtok_str := e + 1\<rparr>)" (is "_ = Some (q, ?s)")
    using c(3) q0 strtok_skip_cstr [OF c(1,2)] by (simp add: bl_strtok_def q_def)
  have fq: "fits q (length v + 1)" using uq c(4) len by (simp add: fits_def)
  have cv: "cstr (mem ?s) q v" using cstr_upd_end [OF _ fq, of "mem s" ?z] ct w(2) by (simp add: e_def)
  have cz: "cstr (mem s) e ?z" using cstr_append [of "mem s" q v ?z] ct w(2) by (simp add: e_def)
  have cd: "cstr (mem ?s) d ds"
    using cstr_upd_out [OF c(1,6), of e 0] c(5) uq ue len by (auto simp: apart_def)
  have ne: "e + 1 \<noteq> e" "e + 1 \<noteq> 0" using ue1 by auto
  have "tok_inv ?s r d ds"
  proof (cases ?z)
    case Nil
    then have "length w = length ?u + length v" using len by (simp only: list.size)
    then have "e + 1 = ?p + of_nat (length w) + 1" by (simp only: e_def q_def of_nat_add add.assoc)
    moreover have rn: "r = []" unfolding r Nil by simp
    ultimately have "cstr (mem ?s) (e + 1) r" using c(8) ne by simp
    then show ?thesis
      using rn cd c ue1 ue uq \<open>length w = length ?u + length v\<close>
      by (simp add: tok_inv_def tok_extent_def fits_def) (auto simp: apart_def)
  next
    case (Cons y ys)
    have ry: "r = ys" "cstr (mem s) (e + 1) ys" using r cz unfolding Cons by simp_all
    have lr: "length w = length ?u + length v + 1 + length r" using len unfolding Cons ry(1) by simp
    have f1: "fits (e + 1) (Suc (length r))" using ue1 ue uq lr c(4) by (simp add: fits_def)
    then have "cstr (mem ?s) (e + 1) r"
      using cstr_upd_out [OF ry(2) [folded ry(1)] f1, of e 0] ue1 by simp
    moreover have "e + 1 + of_nat (length r) + 1 = ?p + of_nat (length w) + 1"
      using lr by (simp add: e_def q_def)
    moreover have "?p + of_nat (length w) + 1 \<noteq> e"
    proof -
      have "unat (?p + of_nat (length w + 1)) = unat ?p + (length w + 1)"
        using c(4) by (intro unat_add_lt) (simp add: fits_def)
      then show ?thesis using ue uq lr by (auto simp: add.assoc)
    qed
    ultimately show ?thesis
      using cd c ne f1 ue1 ue uq lr by (simp add: tok_inv_def tok_extent_def fits_def) (auto simp: apart_def)
  qed
  moreover have "unat (bl_strtok_str ?s) + tok_extent r \<le> unat ?p + tok_extent w"
  proof -
    have lr: "length r = length ?z - 1" by (simp add: r)
    have "tok_extent r \<le> length ?z + 1"
    proof (cases "r = []")
      case False
      then have "0 < length ?z" using lr by (metis length_greater_0_conv list.size(3) zero_diff)
      then show ?thesis using lr False by (simp add: tok_extent_def)
    qed (simp add: tok_extent_def)
    moreover have "unat (bl_strtok_str ?s) = unat ?p + length ?u + length v + 1" using ue1 ue uq by simp
    moreover have "tok_extent w = length ?u + length v + length ?z + 2" using wn len by (simp only: tok_extent_def if_False)
    ultimately show ?thesis by linarith
  qed
  ultimately show ?thesis using run q_nz cv uq ue ue1 by (intro exI [of _ q] exI [of _ e] exI [of _ ?s]) simp
qed

subsection \<open>All calls\<close>

fun strtok_all :: "nat \<Rightarrow> addr \<Rightarrow> 'a tok_st_scheme \<Rightarrow> (addr list \<times> 'a tok_st_scheme) option" where
  "strtok_all 0 d s = None"
| "strtok_all (Suc n) d s = do {
     (q, s1) \<leftarrow> bl_strtok 0 d s;
     if q = 0 then Some ([], s1)
     else do { (qs, s2) \<leftarrow> strtok_all n d s1; Some (q # qs, s2) } }"

lemma strtok_all_tokens:
  assumes "tok_inv s w d ds" "length w < n"
  shows "\<exists>qs s'. strtok_all n d s = Some (qs, s') \<and> list_all2 (cstr (mem s')) qs (tokens (\<lambda>c. c \<in> set ds) w) \<and>
    (\<forall>x. unat x < unat (bl_strtok_str s) \<longrightarrow> mem s' x = mem s x)"
  using assms
proof (induction n arbitrary: s w)
  case (Suc n)
  let ?t = "dropWhile (\<lambda>c. c \<in> set ds) w"
  show ?case
  proof (cases "?t = []")
    case True
    with tok_step_none [OF Suc.prems(1)] show ?thesis by (subst tokens.simps) auto
  next
    case False
    let ?v = "takeWhile (\<lambda>c. c \<notin> set ds) ?t" and ?r = "tl (dropWhile (\<lambda>c. c \<notin> set ds) ?t)"
    from tok_step_some [OF Suc.prems(1) refl False refl refl] obtain q e s1 where
      1: "bl_strtok 0 d s = Some (q, s1)" "q \<noteq> 0" "cstr (mem s1) q ?v" "tok_inv s1 ?r d ds" "mem s1 = (mem s)(e := 0)"
        "unat (bl_strtok_str s) \<le> unat q" "unat q + length ?v = unat e" "unat e < unat (bl_strtok_str s1)"
      by blast
    have "length ?r < length w"
      using False length_dropWhile_le [of "\<lambda>c. c \<notin> set ds" ?t] length_dropWhile_le [of "\<lambda>c. c \<in> set ds" w]
      by (cases ?t) (auto simp: less_eq_Suc_le)
    then have "length ?r < n" using Suc.prems(2) by simp
    from Suc.IH [OF 1(4) this] obtain qs s' where
      2: "strtok_all n d s1 = Some (qs, s')" "list_all2 (cstr (mem s')) qs (tokens (\<lambda>c. c \<in> set ds) ?r)"
        "\<forall>x. unat x < unat (bl_strtok_str s1) \<longrightarrow> mem s' x = mem s1 x" by blast
    have "mem s' (q + of_nat i) = mem s1 (q + of_nat i)" if "i < Suc (length ?v)" for i
    proof -
      have "unat (q + of_nat i) = unat q + i" using 1(7) that unat_lt2p [of e] by (intro unat_add_lt) simp
      then show ?thesis using 2(3) 1(7,8) that by simp
    qed
    then have "mem_get (mem s') q (Suc (length ?v)) = mem_get (mem s1) q (Suc (length ?v))" by (rule mem_get_eqI)
    then have "cstr (mem s') q ?v" using 1(3) by (simp add: cstr_mem_get)
    then have "list_all2 (cstr (mem s')) (q # qs) (tokens (\<lambda>c. c \<in> set ds) w)"
      using 2(2) False by (subst tokens.simps) (simp add: Let_def)
    moreover have "\<forall>x. unat x < unat (bl_strtok_str s) \<longrightarrow> mem s' x = mem s x"
      using 2(3) 1(5-8) by fastforce
    ultimately show ?thesis using 1(1,2) 2(1) by auto
  qed
qed simp

subsection \<open>Copies\<close>

text \<open>Between two live blocks there is always the header of the second.\<close>

lemma heap_ok_gap:
  assumes "heap_ok s B L" "(a, n) \<in> L" "(b, k) \<in> L" "a \<noteq> b" "0 < n" "0 < k"
  shows "unat a + n + 16 \<le> unat b \<or> unat b + k + 16 \<le> unat a"
proof -
  obtain bs where bs: "heap_inv s bs" "L = live bs" using assms(1) by (auto simp: heap_ok_def)
  obtain x y where x: "x \<in> set bs" "a = hb_data x" "n = hb_size x" and y: "y \<in> set bs" "b = hb_data y" "k = hb_size y"
    using assms(2,3) by (auto simp: bs(2) live_def)
  have "apart (hb_addr x) (16 + hb_size x) (hb_addr y) (16 + hb_size y)"
    using layout_apart [OF heap_inv_layout [OF bs(1)] x(1) y(1)] assms(4) x y by simp
  moreover have "unat a = unat (hb_addr x) + 16" "unat b = unat (hb_addr y) + 16"
    using payload_fits(1) [of x n] payload_fits(1) [of y k] heap_inv_layout [OF bs(1)] x y assms(5,6)
    by (auto simp: layout_def)
  ultimately show ?thesis using x y by (auto simp: apart_def)
qed

lemma strdup_copies:
  assumes "heap_ok s (B + length cs + 49) L" "(p, k) \<in> L" "cstr (mem s) p cs" "length cs < k" "length cs + 1 < 2 ^ 32" "p \<noteq> 0"
  shows "\<exists>r s'. bl_strdup p s = Some (r, s') \<and> r \<noteq> 0 \<and> cstr (mem s') r cs \<and> mem s' (r + of_nat (length cs) + 1) = 0"
proof -
  let ?n = "length cs + 1" and ?len = "of_nat (length cs) + 1 :: u32"
  have len: "unat ?len = ?n" 
  proof -
    have "unat (of_nat ?n :: u32) = ?n" using assms(5) by (intro unat_of_nat_eq) simp
    moreover have "(of_nat ?n :: u32) = ?len" by simp
    ultimately show ?thesis by metis
  qed
  have "heap_ok s (B + unat ?len + 48) L" using assms(1) unfolding len by (simp add: algebra_simps)
  from heap_ok_alloc [OF this] obtain r s1 where
    1: "bl_heap_alloc s ?len = Some (r, s1)" "r \<noteq> 0" "unat ?len \<le> block_size s1 r" "heap_ok s1 B (insert (r, block_size s1 r) L)"
      "\<forall>k. (r, k) \<notin> L" "\<forall>(b, k) \<in> L. mem_get (mem s1) b k = mem_get (mem s) b k" by blast
  let ?b = "block_size s1 r"
  have ne: "r \<noteq> p" using 1(5) assms(2) by auto
  have fr: "fits r ?b" "fits p k"
    using heap.blocks_fit [OF heap_ok_live [OF 1(4)]] assms(2) by blast+
  have gap: "unat r + ?b + 16 \<le> unat p \<or> unat p + k + 16 \<le> unat r"
    using heap_ok_gap [OF 1(4), of r ?b p k] assms(2,4) ne 1(3) len by simp
  let ?x = "r + ?len"
  have "take ?n (mem_get (mem s1) p k) = take ?n (mem_get (mem s) p k)" using 1(6) assms(2) by fastforce
  then have src: "mem_get (mem s1) p ?n = cs @ [0]" using assms(3,4) by (simp add: take_mem_get cstr_mem_get)
  have x_out: "mem_get ((mem s1)(?x := 0)) p ?n = mem_get (mem s1) p ?n"
  proof (cases "unat r + ?n < 2 ^ 32")
    case True
    then have "unat ?x = unat r + ?n" using unat_add_lem [of r ?len] len by simp
    then show ?thesis using gap 1(3) len fr(2) assms(4) by (intro mem_get_upd_out) (auto simp: fits_def)
  next
    case False
    then have e: "unat r + ?n = 2 ^ 32" using fr(1) 1(3) len by (simp add: fits_def)
    have "?x = of_nat (unat r + ?n)" by (simp add: add.assoc add.commute)
    also have "\<dots> = 0" unfolding e by (simp only: word_of_nat_eq_0_iff) simp
    finally have "?x = 0" .
    then show ?thesis using assms(6) fr(2) assms(4) by (intro mem_get_upd_out) (auto simp: fits_def unat_gt_0)
  qed
  have "bl_memcpy ((mem s1)(?x := 0)) r p ?len = (r, mem_put ((mem s1)(?x := 0)) r (cs @ [0]))"
    using bl_memcpy_correct [of r p ?len "(mem s1)(?x := 0)"] 1(2,3) assms(4,6) fr len x_out src
    by (simp add: fits_def)
  moreover have "bl_strlen (mem s) p = Some (of_nat (length cs))" using assms(3,6) by (rule bl_strlen_cstr)
  ultimately have run: "bl_strdup p s = Some (r, s1\<lparr>mem := mem_put ((mem s1)(?x := 0)) r (cs @ [0])\<rparr>)"
    using 1(1,2) assms(6) by (simp add: bl_strdup_def)
  have "mem_get (mem_put ((mem s1)(?x := 0)) r (cs @ [0])) r ?n = cs @ [0]"
    using assms(5) by (intro mem_get_put_same) simp_all
  then have "cstr (mem_put ((mem s1)(?x := 0)) r (cs @ [0])) r cs"
    using cstr_no_zero [OF assms(3)] by (simp add: cstr_mem_get)
  moreover have "mem_put ((mem s1)(?x := 0)) r (cs @ [0]) ?x = 0"
    using mem_put_out [of "cs @ [0]" ?x r] len by simp
  ultimately show ?thesis using run 1(2) by (auto simp: add.assoc)
qed

end
