(* ===== verification/Bl_Keyboard.thy ===== *)
theory Bl_Keyboard
  imports Bl_Storage
begin

text \<open>
  Keyboards: the registry and selection of src/boot-loader/core/keyboard/keyboard.c, the
  layout tables of keyboard/layout.c and the PS/2 driver of modules/keyboard/ps2-kbd.

  Port input and output are the parameter \<open>io\<close>, a device state with an \<open>inb\<close> and an \<open>outb\<close>.
  The second half relates the scan-code state machine to key events: a keyboard reports
  the press of a key by its scan code and its release by 0xf0 and the code, and
  \<open>getchar_next_typed\<close> says that the driver hands out the characters typed, in order.
\<close>

unbundle bit_operations_syntax

record 'd port_io =
  io_inb :: "u16 \<Rightarrow> 'd \<Rightarrow> u8 \<times> 'd"
  io_outb :: "u8 \<Rightarrow> u16 \<Rightarrow> 'd \<Rightarrow> 'd"

subsection \<open>layout.c\<close>

definition bl_keyboard_layout :: "u8 list" where
  "bl_keyboard_layout =
    [0, 0, 0, 0, 97, 98, 99, 100, 101, 102, 103, 104, 105, 106, 107, 108,
    109, 110, 111, 112, 113, 114, 115, 116, 117, 118, 119, 120, 121, 122, 49, 50,
    51, 52, 53, 54, 55, 56, 57, 48, 10, 27, 8, 9, 32, 45, 61, 91,
    93, 92, 35, 59, 39, 96, 44, 46, 47]
    @ replicate 199 0"

definition bl_keyboard_layout_shift :: "u8 list" where
  "bl_keyboard_layout_shift =
    [0, 0, 0, 0, 65, 66, 67, 68, 69, 70, 71, 72, 73, 74, 75, 76,
    77, 78, 79, 80, 81, 82, 115, 84, 85, 86, 87, 88, 89, 90, 33, 64,
    35, 36, 37, 94, 38, 42, 40, 41, 10, 27, 8, 9, 32, 95, 43, 123,
    125, 124, 126, 58, 34, 126, 60, 62, 63]
    @ replicate 199 0"

definition bl_keyboard_layout_lookup :: "int \<Rightarrow> int" where
  "bl_keyboard_layout_lookup key = uint (bl_keyboard_layout ! nat (key mod 256))"

definition bl_keyboard_layout_lookup_shift :: "int \<Rightarrow> int" where
  "bl_keyboard_layout_lookup_shift key = uint (bl_keyboard_layout_shift ! nat (key mod 256))"

subsection \<open>keyboard.c\<close>

datatype bl_keyboard_t = BL_KEYBOARD_PS2 | BL_KEYBOARD_USB

text \<open>A keyboard's own data: its type and the driver's pointer.\<close>

record kbd_info =
  kbd_type :: bl_keyboard_t
  kbd_data :: addr

record 'd keyboard_controller =
  kc_type :: bl_keyboard_t
  kc_initialize :: "(kbd_info \<Rightarrow> 'd \<Rightarrow> (bl_status \<times> 'd) option) option"
  kc_getchar :: "(kbd_info \<Rightarrow> 'd \<Rightarrow> (int \<times> 'd) option) option"

record 'd keyboard_st =
  bl_kbds :: "kbd_info list"
  bl_active_kbd :: "(kbd_info \<times> 'd keyboard_controller) option"
  bl_kbd_ctrls :: "'d keyboard_controller list"

definition bl_keyboard_register :: "kbd_info \<Rightarrow> 'd keyboard_st \<Rightarrow> 'd keyboard_st" where
  "bl_keyboard_register kbd st = st\<lparr>bl_kbds := kbd # bl_kbds st\<rparr>"

definition bl_keyboard_unregister :: "kbd_info \<Rightarrow> 'd keyboard_st \<Rightarrow> 'd keyboard_st" where
  "bl_keyboard_unregister kbd st = st"

definition bl_keyboard_controller_register :: "'d keyboard_controller \<Rightarrow> 'd keyboard_st \<Rightarrow> 'd keyboard_st" where
  "bl_keyboard_controller_register c st = st\<lparr>bl_kbd_ctrls := c # bl_kbd_ctrls st\<rparr>"

definition bl_keyboard_controller_unregister :: "'d keyboard_controller \<Rightarrow> 'd keyboard_st \<Rightarrow> 'd keyboard_st" where
  "bl_keyboard_controller_unregister c st = st"

definition bl_keyboard_getchar :: "'d keyboard_st \<Rightarrow> 'd \<Rightarrow> (int \<times> 'd) option" where
  "bl_keyboard_getchar st d =
     (case bl_active_kbd st of
        None \<Rightarrow> Some (-1, d)
      | Some (kbd, c) \<Rightarrow> (case kc_getchar c of None \<Rightarrow> None | Some getchar \<Rightarrow> getchar kbd d))"

fun keyboard_match_loop :: "bl_keyboard_t \<Rightarrow> 'd keyboard_controller list \<Rightarrow> 'd keyboard_controller option" where
  "keyboard_match_loop t [] = None"
| "keyboard_match_loop t (c # cs) = (if kc_type c = t then Some c else keyboard_match_loop t cs)"

definition bl_keyboard_controller_match_type :: "bl_keyboard_t \<Rightarrow> 'd keyboard_st \<Rightarrow> 'd keyboard_controller option" where
  "bl_keyboard_controller_match_type t st = keyboard_match_loop t (bl_kbd_ctrls st)"

fun keyboard_scan_loop :: "bl_keyboard_t \<Rightarrow> 'd keyboard_st \<Rightarrow> kbd_info list \<Rightarrow> 'd \<Rightarrow>
    ((kbd_info \<times> 'd keyboard_controller) option \<times> 'd) option" where
  "keyboard_scan_loop t st [] d = Some (None, d)"
| "keyboard_scan_loop t st (kbd # ks) d =
     (if kbd_type kbd = t then
        (case bl_keyboard_controller_match_type t st of
           None \<Rightarrow> keyboard_scan_loop t st ks d
         | Some c \<Rightarrow>
             (case (kc_initialize c, kc_getchar c) of
                (Some initialize, Some _) \<Rightarrow> do {
                  (status, d1) \<leftarrow> initialize kbd d;
                  if \<not> failed status then Some (Some (kbd, c), d1) else keyboard_scan_loop t st ks d1 }
              | _ \<Rightarrow> keyboard_scan_loop t st ks d))
      else keyboard_scan_loop t st ks d)"

definition bl_keyboard_scan_type :: "bl_keyboard_t \<Rightarrow> 'd keyboard_st \<Rightarrow> 'd \<Rightarrow>
    ((kbd_info \<times> 'd keyboard_controller) option \<times> 'd) option" where
  "bl_keyboard_scan_type t st d = keyboard_scan_loop t st (bl_kbds st) d"

definition bl_keyboard_init :: "'d keyboard_st \<Rightarrow> 'd \<Rightarrow> (bl_status \<times> 'd keyboard_st \<times> 'd) option" where
  "bl_keyboard_init st d = do {
     (k, d1) \<leftarrow> bl_keyboard_scan_type BL_KEYBOARD_USB st d;
     (case k of
        Some kbd \<Rightarrow> Some (BL_STATUS_SUCCESS, st\<lparr>bl_active_kbd := Some kbd\<rparr>, d1)
      | None \<Rightarrow> do {
          (k2, d2) \<leftarrow> bl_keyboard_scan_type BL_KEYBOARD_PS2 st d1;
          (case k2 of
             Some kbd \<Rightarrow> Some (BL_STATUS_SUCCESS, st\<lparr>bl_active_kbd := Some kbd\<rparr>, d2)
           | None \<Rightarrow> Some (BL_STATUS_UNSUPPORTED, st, d2)) }) }"

subsection \<open>The PS/2 driver\<close>

definition BL_PS2_KEYBOARD_UNPRINTABLE_KEY :: u32 where
  "BL_PS2_KEYBOARD_UNPRINTABLE_KEY = 0xff000000"

definition BL_KEY_LSHIFT :: u32 where
  "BL_KEY_LSHIFT = 0x12 OR BL_PS2_KEYBOARD_UNPRINTABLE_KEY"

definition BL_KEY_RSHIFT :: u32 where
  "BL_KEY_RSHIFT = 0x59 OR BL_PS2_KEYBOARD_UNPRINTABLE_KEY"

definition scan_code_set2 :: "u32 list" where
  "scan_code_set2 =
    [0, 0, 0, 0, 0, 0, 0, 0, 0, 0, 0, 0, 0, 9, 96, 0,
    0, 0, BL_KEY_LSHIFT, 0, 0, 113, 49, 0, 0, 0, 122, 115, 97, 119, 50, 0,
    0, 99, 120, 100, 101, 52, 51, 0, 0, 32, 118, 102, 116, 114, 53, 0,
    0, 110, 98, 104, 103, 121, 54, 0, 0, 0, 109, 106, 117, 55, 56, 0,
    0, 44, 107, 105, 111, 48, 57, 0, 0, 46, 47, 108, 59, 112, 45, 0,
    0, 0, 39, 0, 91, 61, 0, 0, 0, BL_KEY_RSHIFT, 10, 93, 0, 92, 0, 0,
    0, 0, 0, 0, 0, 0, 0, 0, 0, 0, 0, 0, 0, 0, 0, 0,
    0, 0, 0, 0, 0, 0, 0, 0, 0, 0, 0, 0, 0, 0, 0, 0]
    @ replicate 128 0"

definition scan_code_set2_with_shift :: "u32 list" where
  "scan_code_set2_with_shift =
    [0, 0, 0, 0, 0, 0, 0, 0, 0, 0, 0, 0, 0, 9, 96, 0,
    0, 0, BL_KEY_LSHIFT, 0, 0, 81, 33, 0, 0, 0, 90, 83, 65, 87, 64, 0,
    0, 67, 88, 68, 69, 36, 35, 0, 0, 32, 86, 70, 84, 82, 37, 0,
    0, 78, 66, 72, 71, 89, 94, 0, 0, 0, 77, 74, 85, 38, 42, 0,
    0, 60, 75, 73, 79, 41, 40, 0, 0, 62, 63, 76, 58, 80, 95, 0,
    0, 0, 34, 0, 123, 43, 0, 0, 0, BL_KEY_RSHIFT, 10, 125, 0, 124, 0, 0,
    0, 0, 0, 0, 0, 0, 0, 0, 0, 0, 0, 0, 0, 0, 0, 0,
    0, 0, 0, 0, 0, 0, 0, 0, 0, 0, 0, 0, 0, 0, 0, 0]
    @ replicate 128 0"

record ps2_st =
  key_released :: bool
  lshift_pressed :: bool
  rshift_pressed :: bool

definition BL_PS2_KEYBOARD_NO_KEY :: int where "BL_PS2_KEYBOARD_NO_KEY = -1"

definition PS2_DATA :: u16 where "PS2_DATA = 0x60"
definition PS2_STATUS :: u16 where "PS2_STATUS = 0x64"
definition PS2_COMMAND :: u16 where "PS2_COMMAND = 0x64"

definition bl_ps2_keyboard_has_output :: "'d port_io \<Rightarrow> 'd \<Rightarrow> bool \<times> 'd" where
  "bl_ps2_keyboard_has_output io d = (case io_inb io PS2_STATUS d of (v, d1) \<Rightarrow> (v AND 0x01 \<noteq> 0, d1))"

text \<open>What \<open>bl_ps2_keyboard_get_key\<close> does with a scan code.\<close>

definition ps2_scan_code :: "u8 \<Rightarrow> ps2_st \<Rightarrow> int \<times> ps2_st" where
  "ps2_scan_code scan_code s =
     (if scan_code = 0xff then (BL_PS2_KEYBOARD_NO_KEY, s)
      else if scan_code = 0xf0 then (BL_PS2_KEYBOARD_NO_KEY, s\<lparr>key_released := True\<rparr>)
      else let key = scan_code_set2 ! unat scan_code
      in if key AND BL_PS2_KEYBOARD_UNPRINTABLE_KEY \<noteq> 0 then
           (let s1 = (if key = BL_KEY_LSHIFT then s\<lparr>lshift_pressed := \<not> lshift_pressed s\<rparr>
                      else if key = BL_KEY_RSHIFT then s\<lparr>rshift_pressed := \<not> rshift_pressed s\<rparr> else s)
            in (BL_PS2_KEYBOARD_NO_KEY, s1\<lparr>key_released := False\<rparr>))
         else if \<not> key_released s then
           (uint (if lshift_pressed s \<or> rshift_pressed s then scan_code_set2_with_shift ! unat scan_code else key), s)
         else (BL_PS2_KEYBOARD_NO_KEY, s\<lparr>key_released := False\<rparr>))"

definition bl_ps2_keyboard_get_key :: "'d port_io \<Rightarrow> ps2_st \<times> 'd \<Rightarrow> int \<times> ps2_st \<times> 'd" where
  "bl_ps2_keyboard_get_key io = (\<lambda>(s, d).
     (case bl_ps2_keyboard_has_output io d of (full, d1) \<Rightarrow>
        if \<not> full then (BL_PS2_KEYBOARD_NO_KEY, s, d1)
        else (case io_inb io PS2_DATA d1 of (scan_code, d2) \<Rightarrow>
               (case ps2_scan_code scan_code s of (c, s1) \<Rightarrow> (c, s1, d2)))))"

partial_function (option) ps2_getchar_loop :: "'d port_io \<Rightarrow> ps2_st \<times> 'd \<Rightarrow> (int \<times> ps2_st \<times> 'd) option" where
  "ps2_getchar_loop io sd =
     (case bl_ps2_keyboard_get_key io sd of
        (c, s1, d1) \<Rightarrow> if c \<noteq> BL_PS2_KEYBOARD_NO_KEY \<and> c > 0 then Some (c, s1, d1) else ps2_getchar_loop io (s1, d1))"

definition bl_ps2_keyboard_getchar :: "'d port_io \<Rightarrow> kbd_info \<Rightarrow> ps2_st \<times> 'd \<Rightarrow> (int \<times> ps2_st \<times> 'd) option" where
  "bl_ps2_keyboard_getchar io kbd sd =
     (if kbd_type kbd \<noteq> BL_KEYBOARD_PS2 then Some (-1, sd) else ps2_getchar_loop io sd)"

partial_function (option) ps2_wait_for_input :: "'d port_io \<Rightarrow> 'd \<Rightarrow> 'd option" where
  "ps2_wait_for_input io d =
     (case io_inb io PS2_STATUS d of (v, d1) \<Rightarrow> if v AND 0x02 \<noteq> 0 then ps2_wait_for_input io d1 else Some d1)"

partial_function (option) ps2_wait_for_output :: "'d port_io \<Rightarrow> 'd \<Rightarrow> 'd option" where
  "ps2_wait_for_output io d =
     (case io_inb io PS2_STATUS d of (v, d1) \<Rightarrow> if v AND 0x01 = 0 then ps2_wait_for_output io d1 else Some d1)"

definition bl_ps2_keyboard_command :: "'d port_io \<Rightarrow> u8 \<Rightarrow> 'd \<Rightarrow> 'd option" where
  "bl_ps2_keyboard_command io command d = ps2_wait_for_output io (io_outb io command PS2_COMMAND d)"

definition bl_ps2_keyboard_set_general_mode :: "'d port_io \<Rightarrow> 'd \<Rightarrow> 'd option" where
  "bl_ps2_keyboard_set_general_mode io d = do {
     d1 \<leftarrow> ps2_wait_for_input io d;
     d2 \<leftarrow> ps2_wait_for_output io (io_outb io 0x20 PS2_COMMAND d1);
     let (c, d3) = io_inb io PS2_DATA d2;
     let c1 = (c AND NOT (push_bit 0 1)) AND NOT (push_bit 6 1);
     d4 \<leftarrow> ps2_wait_for_input io d3;
     Some (io_outb io c1 PS2_DATA (io_outb io 0x60 PS2_COMMAND d4)) }"

definition bl_ps2_keyboard_interface_test :: "'d port_io \<Rightarrow> 'd \<Rightarrow> (bl_status \<times> 'd) option" where
  "bl_ps2_keyboard_interface_test io d = do {
     d1 \<leftarrow> bl_ps2_keyboard_command io 0xab d;
     let (v, d2) = io_inb io PS2_DATA d1;
     Some (if v \<noteq> 0 then BL_STATUS_FAILURE else BL_STATUS_SUCCESS, d2) }"

definition bl_ps2_keyboard_self_test :: "'d port_io \<Rightarrow> 'd \<Rightarrow> (bl_status \<times> 'd) option" where
  "bl_ps2_keyboard_self_test io d = do {
     d1 \<leftarrow> bl_ps2_keyboard_command io 0xaa d;
     let (v, d2) = io_inb io PS2_DATA d1;
     Some (if v \<noteq> 0x55 then BL_STATUS_FAILURE else BL_STATUS_SUCCESS, d2) }"

definition bl_ps2_keyboard_initialize :: "'d port_io \<Rightarrow> kbd_info \<Rightarrow> ps2_st \<times> 'd \<Rightarrow> (bl_status \<times> ps2_st \<times> 'd) option" where
  "bl_ps2_keyboard_initialize io kbd = (\<lambda>(s, d). do {
     (status, d1) \<leftarrow> bl_ps2_keyboard_self_test io d;
     if failed status then Some (status, s, d1)
     else do {
       (status2, d2) \<leftarrow> bl_ps2_keyboard_interface_test io d1;
       if failed status2 then Some (status2, s, d2)
       else do { d3 \<leftarrow> bl_ps2_keyboard_set_general_mode io d2; Some (BL_STATUS_SUCCESS, s, d3) } } })"

definition ps2_keyboard_controller :: "'d port_io \<Rightarrow> (ps2_st \<times> 'd) keyboard_controller" where
  "ps2_keyboard_controller io = \<lparr>kc_type = BL_KEYBOARD_PS2, kc_initialize = Some (bl_ps2_keyboard_initialize io),
     kc_getchar = Some (bl_ps2_keyboard_getchar io)\<rparr>"

text \<open>The module's initialisation: nothing is registered when the allocation fails.\<close>

definition ps2_module_init :: "'d port_io \<Rightarrow> (ps2_st \<times> 'd) keyboard_st \<Rightarrow> 'a heap_st_scheme \<Rightarrow>
    ((ps2_st \<times> 'd) keyboard_st \<times> 'a heap_st_scheme) option" where
  "ps2_module_init io st s = do {
     (kbd, s1) \<leftarrow> bl_heap_alloc s 16;
     if kbd = 0 then Some (st, s1)
     else Some (bl_keyboard_register \<lparr>kbd_type = BL_KEYBOARD_PS2, kbd_data = 0\<rparr>
                  (bl_keyboard_controller_register (ps2_keyboard_controller io) st), s1) }"

subsection \<open>Key events\<close>

datatype kbd_event = Press u8 | Release u8

fun event_codes :: "kbd_event \<Rightarrow> u8 list" where
  "event_codes (Press k) = [k]"
| "event_codes (Release k) = [0xf0, k]"

definition code_lshift :: u8 where "code_lshift = 0x12"
definition code_rshift :: u8 where "code_rshift = 0x59"

definition is_shift :: "u8 \<Rightarrow> bool" where
  "is_shift k \<longleftrightarrow> k = code_lshift \<or> k = code_rshift"

text \<open>The character a key gives while the keys of \<open>D\<close> are down.\<close>

definition key_char :: "u8 \<Rightarrow> u8 set \<Rightarrow> int" where
  "key_char k D = uint ((if code_lshift \<in> D \<or> code_rshift \<in> D then scan_code_set2_with_shift else scan_code_set2) ! unat k)"

fun typed :: "kbd_event list \<Rightarrow> u8 set \<Rightarrow> int list" where
  "typed [] D = []"
| "typed (Press k # es) D =
     (if is_shift k \<or> key_char k D = 0 then typed es (insert k D) else key_char k D # typed es (insert k D))"
| "typed (Release k # es) D = typed es (D - {k})"

text \<open>A shift key is pressed only when it is up (its automatic repetition is excluded) and
  released only when it is down; any other key may repeat.\<close>

fun events_ok :: "kbd_event list \<Rightarrow> u8 set \<Rightarrow> bool" where
  "events_ok [] D = True"
| "events_ok (Press k # es) D \<longleftrightarrow> k < 0x80 \<and> (is_shift k \<longrightarrow> k \<notin> D) \<and> events_ok es (insert k D)"
| "events_ok (Release k # es) D \<longleftrightarrow> k < 0x80 \<and> (is_shift k \<longrightarrow> k \<in> D) \<and> events_ok es (D - {k})"

definition ps2_tracks :: "ps2_st \<Rightarrow> u8 set \<Rightarrow> bool" where
  "ps2_tracks s D \<longleftrightarrow> \<not> key_released s \<and> (lshift_pressed s \<longleftrightarrow> code_lshift \<in> D) \<and> (rshift_pressed s \<longleftrightarrow> code_rshift \<in> D)"

text \<open>What the driver relies on of the keyboard controller: bit 0 of the status port says
  whether a byte is pending, and the data port hands out the bytes in order.\<close>

definition ps2_port :: "'d port_io \<Rightarrow> ('d \<Rightarrow> u8 list) \<Rightarrow> bool" where
  "ps2_port io pending \<longleftrightarrow>
     (\<forall>d. (fst (io_inb io PS2_STATUS d) AND 0x01 \<noteq> 0 \<longleftrightarrow> pending d \<noteq> []) \<and>
          pending (snd (io_inb io PS2_STATUS d)) = pending d) \<and>
     (\<forall>d c cs. pending d = c # cs \<longrightarrow> fst (io_inb io PS2_DATA d) = c \<and> pending (snd (io_inb io PS2_DATA d)) = cs)"

lemma unprintable_values:
  "BL_KEY_LSHIFT AND BL_PS2_KEYBOARD_UNPRINTABLE_KEY \<noteq> 0" "BL_KEY_RSHIFT AND BL_PS2_KEYBOARD_UNPRINTABLE_KEY \<noteq> 0"
  "BL_KEY_LSHIFT \<noteq> BL_KEY_RSHIFT"
  by (simp_all add: BL_KEY_LSHIFT_def BL_KEY_RSHIFT_def BL_PS2_KEYBOARD_UNPRINTABLE_KEY_def)

lemma unprintable_small: "x < 256 \<Longrightarrow> x AND BL_PS2_KEYBOARD_UNPRINTABLE_KEY = 0" for x :: u32
proof -
  assume "x < 256"
  then have "x = take_bit 8 x"
    by (simp add: word_unat_eq_iff unsigned_take_bit_eq word_less_nat_alt take_bit_nat_eq_self)
  then have "x AND BL_PS2_KEYBOARD_UNPRINTABLE_KEY = take_bit 8 x AND BL_PS2_KEYBOARD_UNPRINTABLE_KEY" by simp
  also have "\<dots> = x AND (mask 8 AND BL_PS2_KEYBOARD_UNPRINTABLE_KEY)" by (simp add: take_bit_eq_mask ac_simps)
  also have "\<dots> = 0" by (simp add: mask_eq_exp_minus_1 BL_PS2_KEYBOARD_UNPRINTABLE_KEY_def)
  finally show ?thesis .
qed

lemma table_scan:
  "list_all (\<lambda>(i, x). if i = 18 then x = BL_KEY_LSHIFT else if i = 89 then x = BL_KEY_RSHIFT else x < 256)
     (List.enumerate 0 (take 128 scan_code_set2))"
  by (simp add: scan_code_set2_def)

lemma table_entry:
  assumes "i < 128"
  shows "if i = 18 then scan_code_set2 ! i = BL_KEY_LSHIFT else if i = 89 then scan_code_set2 ! i = BL_KEY_RSHIFT
    else scan_code_set2 ! i < 256"
proof -
  have "length scan_code_set2 = 256" by (simp add: scan_code_set2_def)
  then have "(i, scan_code_set2 ! i) \<in> set (List.enumerate 0 (take 128 scan_code_set2))"
    using assms by (simp add: in_set_enumerate_eq)
  then show ?thesis using table_scan by (auto simp: list_all_iff)
qed

lemma unat_small8: "k < 0x80 \<Longrightarrow> unat k < 128" for k :: u8
  by (simp add: word_less_nat_alt)

lemma unat_eq18: "unat k = 18 \<longleftrightarrow> k = code_lshift" for k :: u8
  by (simp add: code_lshift_def word_unat_eq_iff)

lemma unat_eq89: "unat k = 89 \<longleftrightarrow> k = code_rshift" for k :: u8
  by (simp add: code_rshift_def word_unat_eq_iff)

lemma table_keys:
  assumes "k < 0x80"
  shows "scan_code_set2 ! unat code_lshift = BL_KEY_LSHIFT" "scan_code_set2 ! unat code_rshift = BL_KEY_RSHIFT"
    "\<not> is_shift k \<Longrightarrow> scan_code_set2 ! unat k AND BL_PS2_KEYBOARD_UNPRINTABLE_KEY = 0"
  using table_entry [of 18] table_entry [of 89] table_entry [OF unat_small8 [OF assms]]
  by (auto simp: is_shift_def unat_eq18 unat_eq89 code_lshift_def code_rshift_def intro!: unprintable_small
      simp flip: word_unat_eq_iff split: if_splits)

lemma shift_codes: "code_lshift \<noteq> code_rshift"
  by (simp add: code_lshift_def code_rshift_def)

lemma not_marker: "k < 0x80 \<Longrightarrow> k \<noteq> 0xff \<and> k \<noteq> 0xf0" for k :: u8
  by (auto simp: word_less_nat_alt)

text \<open>A make code, and the make code after the release marker.\<close>

lemma scan_press:
  assumes "ps2_tracks s D" "k < 0x80" "is_shift k \<Longrightarrow> k \<notin> D"
  shows "\<exists>s'. ps2_scan_code k s = (if is_shift k then BL_PS2_KEYBOARD_NO_KEY else key_char k D, s') \<and> ps2_tracks s' (insert k D)"
  using assms not_marker [OF assms(2)] table_keys [OF assms(2)] unprintable_values shift_codes
  by (cases "k = code_lshift"; cases "k = code_rshift")
     (auto simp: ps2_scan_code_def ps2_tracks_def is_shift_def key_char_def Let_def)

lemma scan_release:
  assumes "ps2_tracks s D" "k < 0x80" "is_shift k \<Longrightarrow> k \<in> D"
  shows "\<exists>s1 s'. ps2_scan_code 0xf0 s = (BL_PS2_KEYBOARD_NO_KEY, s1) \<and> ps2_scan_code k s1 = (BL_PS2_KEYBOARD_NO_KEY, s') \<and>
    ps2_tracks s' (D - {k})"
  using assms not_marker [OF assms(2)] table_keys [OF assms(2)] unprintable_values shift_codes
  by (cases "k = code_lshift"; cases "k = code_rshift")
     (auto simp: ps2_scan_code_def ps2_tracks_def is_shift_def key_char_def Let_def)

lemma get_key_pending:
  assumes "ps2_port io pending" "pending d = c # cs"
  shows "\<exists>d'. bl_ps2_keyboard_get_key io (s, d) = (fst (ps2_scan_code c s), snd (ps2_scan_code c s), d') \<and> pending d' = cs"
proof -
  obtain v d1 where d1: "io_inb io PS2_STATUS d = (v, d1)" by fastforce
  with assms have v: "v AND 0x01 \<noteq> 0" "pending d1 = c # cs" unfolding ps2_port_def by (metis fst_conv snd_conv list.distinct(1))+
  obtain d2 where "io_inb io PS2_DATA d1 = (c, d2)" "pending d2 = cs"
    using assms(1) v(2) unfolding ps2_port_def by (metis prod.collapse)
  with d1 v show ?thesis
    by (simp add: bl_ps2_keyboard_get_key_def bl_ps2_keyboard_has_output_def split: prod.split)
qed

lemma getchar_step:
  assumes "ps2_port io pending" "pending d = c # cs" "ps2_scan_code c s = (r, s1)"
  shows "\<exists>d1. pending d1 = cs \<and> ps2_getchar_loop io (s, d) = (if r > 0 then Some (r, s1, d1) else ps2_getchar_loop io (s1, d1))"
proof -
  obtain d1 where "bl_ps2_keyboard_get_key io (s, d) = (r, s1, d1)" "pending d1 = cs"
    using get_key_pending [OF assms(1,2), of s] assms(3) by auto
  then show ?thesis
    by (auto simp: ps2_getchar_loop.simps [of io "(s, d)"] BL_PS2_KEYBOARD_NO_KEY_def intro!: exI [of _ d1])
qed

lemma getchar_next_typed:
  assumes "ps2_port io pending" "ps2_tracks s D" "events_ok es D" "typed es D = c # cs"
    "pending d = concat (map event_codes es)"
  shows "\<exists>s' d' es' D'. ps2_getchar_loop io (s, d) = Some (c, s', d') \<and> pending d' = concat (map event_codes es') \<and>
    ps2_tracks s' D' \<and> events_ok es' D' \<and> typed es' D' = cs"
  using assms(2-)
proof (induction es D arbitrary: s d rule: typed.induct)
  case (2 k es D)
  obtain s' where s': "ps2_scan_code k s = (if is_shift k then BL_PS2_KEYBOARD_NO_KEY else key_char k D, s')" "ps2_tracks s' (insert k D)"
    using scan_press [OF 2(3)] 2(4) by auto
  obtain d1 where d1: "pending d1 = concat (map event_codes es)" "ps2_getchar_loop io (s, d) =
      (if (if is_shift k then BL_PS2_KEYBOARD_NO_KEY else key_char k D) > 0 then Some (if is_shift k then BL_PS2_KEYBOARD_NO_KEY else key_char k D, s', d1)
       else ps2_getchar_loop io (s', d1))"
    using getchar_step [OF assms(1) _ s'(1), of d] 2(6) by auto
  have pos: "key_char k D \<ge> 0" by (simp add: key_char_def)
  show ?case
  proof (cases "is_shift k \<or> key_char k D = 0")
    case True
    then have "ps2_getchar_loop io (s, d) = ps2_getchar_loop io (s', d1)"
      using d1(2) pos by (auto simp: BL_PS2_KEYBOARD_NO_KEY_def)
    then show ?thesis using 2(1) [OF True s'(2) _ _ d1(1)] 2(4,5) True by simp
  next
    case False
    then have "ps2_getchar_loop io (s, d) = Some (key_char k D, s', d1)" using d1(2) pos by auto
    then show ?thesis using False 2(4,5) s'(2) d1(1) by auto
  qed
next
  case (3 k es D)
  obtain s1 s' where s': "ps2_scan_code 0xf0 s = (BL_PS2_KEYBOARD_NO_KEY, s1)" "ps2_scan_code k s1 = (BL_PS2_KEYBOARD_NO_KEY, s')"
      "ps2_tracks s' (D - {k})"
    using scan_release [OF 3(2), of k] 3(3) by auto
  obtain d1 where d1: "pending d1 = k # concat (map event_codes es)" "ps2_getchar_loop io (s, d) = ps2_getchar_loop io (s1, d1)"
    using getchar_step [OF assms(1) _ s'(1), of d] 3(5) by (auto simp: BL_PS2_KEYBOARD_NO_KEY_def)
  obtain d2 where d2: "pending d2 = concat (map event_codes es)" "ps2_getchar_loop io (s1, d1) = ps2_getchar_loop io (s', d2)"
    using getchar_step [OF assms(1) d1(1) s'(2)] by (auto simp: BL_PS2_KEYBOARD_NO_KEY_def)
  show ?case using 3(1) [OF s'(3) _ _ d2(1)] 3(3,4) d1(2) d2(2) by simp
qed simp

text \<open>The automatic repetition of a held shift key toggles the flag.\<close>

lemma shift_repeat:
  assumes "ps2_tracks s D" "code_lshift \<in> D"
  shows "\<not> lshift_pressed (snd (ps2_scan_code code_lshift s))"
  using assms not_marker [of code_lshift] table_keys [of code_lshift] unprintable_values
  by (simp add: ps2_scan_code_def ps2_tracks_def Let_def code_lshift_def)

subsection \<open>The registries\<close>

interpretation keyboards: registry bl_kbds bl_keyboard_register
  by unfold_locales (simp add: bl_keyboard_register_def)

interpretation keyboard_controllers: registry bl_kbd_ctrls bl_keyboard_controller_register
  by unfold_locales (simp add: bl_keyboard_controller_register_def)

lemma keyboard_match_find: "keyboard_match_loop t cs = find (\<lambda>c. kc_type c = t) cs"
  by (induction cs) auto

text \<open>The selection: the device found has the type asked for, is a registered keyboard and
  its driver initialised it.\<close>

lemma scan_loop_found:
  assumes "keyboard_scan_loop t st ks d = Some (Some (kbd, c), d')"
  shows "kbd \<in> set ks \<and> kbd_type kbd = t \<and> bl_keyboard_controller_match_type t st = Some c \<and> kc_getchar c \<noteq> None \<and>
    (\<exists>ini d0. kc_initialize c = Some ini \<and> ini kbd d0 = Some (BL_STATUS_SUCCESS, d'))"
  using assms
proof (induction ks arbitrary: d)
  case (Cons k ks)
  show ?case
  proof (cases "kbd_type k = t \<and> bl_keyboard_controller_match_type t st \<noteq> None")
    case False
    then show ?thesis using Cons by (auto split: if_splits)
  next
    case True
    then obtain c1 where c1: "bl_keyboard_controller_match_type t st = Some c1" by auto
    show ?thesis
    proof (cases "kc_initialize c1 \<noteq> None \<and> kc_getchar c1 \<noteq> None")
      case False
      then show ?thesis using Cons True c1 by (auto split: option.splits)
    next
      case t2: True
      then obtain ini where ini: "kc_initialize c1 = Some ini" by auto
      obtain status d1 where i: "ini k d = Some (status, d1)"
        using Cons.prems True c1 t2 ini by (auto simp: bind_eq_Some_conv split: option.splits)
      show ?thesis
        using Cons.IH [of d1] Cons.prems True c1 t2 ini i
        by (auto simp: failed_def split: if_splits)
    qed
  qed
qed simp

lemma keyboard_init_active:
  assumes "bl_keyboard_init st d = Some (BL_STATUS_SUCCESS, st', d')"
  shows "\<exists>kbd c t. bl_active_kbd st' = Some (kbd, c) \<and> kbd \<in> set (bl_kbds st) \<and> kbd_type kbd = t \<and>
    bl_keyboard_controller_match_type t st = Some c \<and> kc_getchar c \<noteq> None \<and>
    (\<exists>ini d0. kc_initialize c = Some ini \<and> ini kbd d0 = Some (BL_STATUS_SUCCESS, d'))"
  using assms scan_loop_found
  by (fastforce simp: bl_keyboard_init_def bl_keyboard_scan_type_def bind_eq_Some_conv split: option.splits)

end
