(* ===== verification/Bl_Fs.thy ===== *)
theory Bl_Fs
  imports Bl_Tokens Bl_Keyboard
begin

text \<open>
  The file-system layer: the registry and the mount of src/boot-loader/core/fs/fs.c and the
  path iteration, open, close and list of core/fs/file.c.

  A node of the path (struct bl_file_tree_node) is its heap address and the data the file
  system keeps for it; the \<open>prev\<close> links make the stack a list, the innermost directory first,
  the root last. A file system's operations are functions on the state, \<open>None\<close> where the
  code has a null pointer. \<open>path_loop_resolves\<close>: the loop walks the components of the path
  as \<open>resolve\<close> does.
\<close>

unbundle bit_operations_syntax

type_synonym 'f tree_node = "addr \<times> 'f"

type_synonym ('f, 'a) fs_close = "'f \<Rightarrow> 'a tok_st_scheme \<Rightarrow> (bl_status \<times> 'a tok_st_scheme) option"

type_synonym ('f, 'a) dir_callback =
  "addr \<Rightarrow> bool \<Rightarrow> 'f \<Rightarrow> 'a tok_st_scheme \<Rightarrow> (bl_status \<times> 'f tree_node option \<times> 'a tok_st_scheme) option"

record ('i, 'f, 'a) bl_fs =
  fs_mount :: "('a tok_st_ext device \<Rightarrow> bl_partition \<Rightarrow> 'a tok_st_scheme \<Rightarrow> (bl_status \<times> 'i option \<times> 'a tok_st_scheme) option) option"
  fs_umount :: "('i \<Rightarrow> 'a tok_st_scheme \<Rightarrow> (bl_status \<times> 'a tok_st_scheme) option) option"
  fs_open :: "('i \<Rightarrow> addr \<Rightarrow> 'a tok_st_scheme \<Rightarrow> (bl_status \<times> (addr \<times> 'f) option \<times> 'a tok_st_scheme) option) option"
  fs_close :: "('f, 'a) fs_close option"
  fs_ls :: "('f \<Rightarrow> 'a tok_st_scheme \<Rightarrow> (bl_status \<times> 'a tok_st_scheme) option) option"

text \<open>A handle: its address, the file system and the file system's own information.\<close>

record ('i, 'f, 'a) bl_fs_handle =
  handle_addr :: addr
  handle_fs :: "('i, 'f, 'a) bl_fs"
  handle_info :: 'i

record ('i, 'f, 'a) bl_file =
  file_addr :: addr
  file_handle :: "('i, 'f, 'a) bl_fs_handle"
  file_fdata :: 'f

record ('i, 'f, 'a) fs_st =
  bl_fs_list :: "('i, 'f, 'a) bl_fs list"

definition sizeof_fs_handle :: u32 where "sizeof_fs_handle = 8"
definition sizeof_tree_node :: u32 where "sizeof_tree_node = 8"

subsection \<open>fs.c\<close>

definition bl_fs_register :: "('i, 'f, 'a) bl_fs \<Rightarrow> ('i, 'f, 'a) fs_st \<Rightarrow> ('i, 'f, 'a) fs_st" where
  "bl_fs_register fs st = st\<lparr>bl_fs_list := fs # bl_fs_list st\<rparr>"

definition bl_fs_unregister :: "('i, 'f, 'a) bl_fs \<Rightarrow> ('i, 'f, 'a) fs_st \<Rightarrow> ('i, 'f, 'a) fs_st" where
  "bl_fs_unregister fs st = st"

fun try_mount_loop :: "('i, 'f, 'a) bl_fs list \<Rightarrow> 'a tok_st_ext device \<Rightarrow> bl_partition \<Rightarrow> 'a tok_st_scheme \<Rightarrow>
    ((('i, 'f, 'a) bl_fs \<times> 'i) option \<times> 'a tok_st_scheme) option" where
  "try_mount_loop [] disk prt s = Some (None, s)"
| "try_mount_loop (fs # rest) disk prt s =
     (case fs_mount fs of
        None \<Rightarrow> try_mount_loop rest disk prt s
      | Some mount \<Rightarrow> do {
          (status, info, s1) \<leftarrow> mount disk prt s;
          if \<not> failed status then do { i \<leftarrow> info; Some (Some (fs, i), s1) }
          else try_mount_loop rest disk prt s1 })"

definition bl_fs_try_mount :: "('i, 'f, 'a) fs_st \<Rightarrow> 'a tok_st_ext device \<Rightarrow> bl_partition \<Rightarrow> 'a tok_st_scheme \<Rightarrow>
    (('i, 'f, 'a) bl_fs_handle option \<times> 'a tok_st_scheme) option" where
  "bl_fs_try_mount st disk prt s = do {
     (a, s1) \<leftarrow> bl_heap_alloc s sizeof_fs_handle;
     if a = 0 then Some (None, s1)
     else do {
       (r, s2) \<leftarrow> try_mount_loop (bl_fs_list st) disk prt s1;
       Some (map_option (\<lambda>(fs, i). \<lparr>handle_addr = a, handle_fs = fs, handle_info = i\<rparr>) r, s2) } }"

subsection \<open>Path iteration\<close>

text \<open>The addresses of the three string constants of \<open>bl_file_iterate_path\<close>.\<close>

record path_strings =
  bl_path_delimiter :: addr
  bl_current_directory :: addr
  bl_previous_directory :: addr

text \<open>One iteration: \<open>Some status\<close> leaves the loop, otherwise it goes on with the next name.\<close>

definition path_step ::
    "path_strings \<Rightarrow> ('f, 'a) fs_close \<Rightarrow> ('f, 'a) dir_callback \<Rightarrow> addr \<Rightarrow> u32 \<Rightarrow> addr \<Rightarrow> 'f tree_node list \<Rightarrow>
     'a tok_st_scheme \<Rightarrow> (bl_status option \<times> addr \<times> 'f tree_node list \<times> 'a tok_st_scheme) option" where
  "path_step ps close callback path len filename stack s = do {
     (next_filename, s1) \<leftarrow> bl_strtok 0 (bl_path_delimiter ps) s;
     let directory = (next_filename \<noteq> 0 \<or> mem s1 (path + (len - 1)) = 0x2f);
     up \<leftarrow> bl_strcmp (mem s1) filename (bl_previous_directory ps);
     if up = 0 then
       (case stack of
          (node, f) # n # ns \<Rightarrow> do {
            (_, s2) \<leftarrow> close f s1;
            Some (None, next_filename, n # ns, bl_heap_free s2 node sizeof_tree_node) }
        | _ \<Rightarrow> Some (None, next_filename, stack, s1))
     else do {
       here \<leftarrow> bl_strcmp (mem s1) filename (bl_current_directory ps);
       if here \<noteq> 0 then do {
         (status, node, s2) \<leftarrow> callback filename directory (snd (hd stack)) s1;
         if failed status then Some (Some status, next_filename, stack, s2)
         else do { n \<leftarrow> node; Some (None, next_filename, n # stack, s2) } }
       else Some (None, next_filename, stack, s1) } }"

partial_function (option) path_loop ::
    "path_strings \<Rightarrow> ('f, 'a) fs_close \<Rightarrow> ('f, 'a) dir_callback \<Rightarrow> addr \<Rightarrow> u32 \<Rightarrow> addr \<Rightarrow> 'f tree_node list \<Rightarrow>
     'a tok_st_scheme \<Rightarrow> (bl_status \<times> 'f tree_node list \<times> 'a tok_st_scheme) option" where
  "path_loop ps close callback path len filename stack s =
     (if filename = 0 then Some (BL_STATUS_SUCCESS, stack, s)
      else do {
        (r, next_filename, stack1, s1) \<leftarrow> path_step ps close callback path len filename stack s;
        (case r of
           Some status \<Rightarrow> Some (status, stack1, s1)
         | None \<Rightarrow> path_loop ps close callback path len next_filename stack1 s1) })"

text \<open>The exit path: every node under the top one is closed and released, then the top one is
  released.\<close>

fun path_exit_loop :: "('f, 'a) fs_close \<Rightarrow> 'f tree_node list \<Rightarrow> 'a tok_st_scheme \<Rightarrow> 'a tok_st_scheme option" where
  "path_exit_loop close [] s = Some s"
| "path_exit_loop close ((node, f) # ns) s = do {
     (_, s1) \<leftarrow> close f s;
     path_exit_loop close ns (bl_heap_free s1 node sizeof_tree_node) }"

definition bl_file_iterate_path ::
    "path_strings \<Rightarrow> ('f, 'a) fs_close \<Rightarrow> addr \<Rightarrow> 'f tree_node \<Rightarrow> ('f, 'a) dir_callback \<Rightarrow> 'a tok_st_scheme \<Rightarrow>
     (bl_status \<times> 'f option \<times> 'a tok_st_scheme) option" where
  "bl_file_iterate_path ps close path root callback s =
     (if path = 0 then Some (BL_STATUS_INVALID_PARAMETERS, None, s)
      else do {
        len \<leftarrow> bl_strlen (mem s) path;
        (copy_path, s1) \<leftarrow> bl_strndup path len s;
        if copy_path = 0 then Some (BL_STATUS_FAILURE, None, s1)
        else do {
          (filename, s2) \<leftarrow> bl_strtok copy_path (bl_path_delimiter ps) s1;
          (status, stack, s3) \<leftarrow> path_loop ps close callback path len filename [root] s2;
          s4 \<leftarrow> path_exit_loop close (tl stack) s3;
          let s5 = bl_heap_free s4 (fst (hd stack)) sizeof_tree_node;
          Some (status, if failed status then None else Some (snd (hd stack)), bl_heap_free s5 copy_path len) } })"

subsection \<open>Files\<close>

definition bl_file_open :: "('i, 'f, 'a) bl_fs_handle option \<Rightarrow> addr \<Rightarrow> 'a tok_st_scheme \<Rightarrow>
    (('i, 'f, 'a) bl_file option \<times> 'a tok_st_scheme) option" where
  "bl_file_open handle path s =
     (if path = 0 \<or> mem s path \<noteq> 0x2f then Some (None, s)
      else case handle of
        None \<Rightarrow> Some (None, s)
      | Some h \<Rightarrow> (case (fs_open (handle_fs h), fs_close (handle_fs h)) of
            (Some fopen, Some _) \<Rightarrow> do {
              (status, f, s1) \<leftarrow> fopen (handle_info h) path s;
              if failed status then Some (None, s1)
              else do { (a, fdata) \<leftarrow> f; Some (Some \<lparr>file_addr = a, file_handle = h, file_fdata = fdata\<rparr>, s1) } }
          | _ \<Rightarrow> Some (None, s)))"

definition bl_file_close :: "('i, 'f, 'a) bl_file option \<Rightarrow> 'a tok_st_scheme \<Rightarrow> 'a tok_st_scheme option" where
  "bl_file_close f s =
     (case f of
        None \<Rightarrow> Some s
      | Some fl \<Rightarrow> (case fs_close (handle_fs (file_handle fl)) of
            None \<Rightarrow> Some s
          | Some close \<Rightarrow> map_option snd (close (file_fdata fl) s)))"

definition bl_file_ls :: "('i, 'f, 'a) bl_fs_handle option \<Rightarrow> addr \<Rightarrow> 'a tok_st_scheme \<Rightarrow> (bl_status \<times> 'a tok_st_scheme) option" where
  "bl_file_ls handle path s =
     (if path = 0 \<or> mem s path \<noteq> 0x2f then Some (BL_STATUS_INVALID_PARAMETERS, s)
      else case handle of
        None \<Rightarrow> Some (BL_STATUS_INVALID_PARAMETERS, s)
      | Some h \<Rightarrow> (case fs_ls (handle_fs h) of
            None \<Rightarrow> Some (BL_STATUS_INVALID_PARAMETERS, s)
          | Some ls \<Rightarrow> do {
              (f, s1) \<leftarrow> bl_file_open handle path s;
              case f of
                None \<Rightarrow> Some (BL_STATUS_FILE_NOT_FOUND, s1)
              | Some fl \<Rightarrow> do {
                  (status, s2) \<leftarrow> ls (file_fdata fl) s1;
                  s3 \<leftarrow> bl_file_close f s2;
                  Some (status, s3) } }))"

subsection \<open>What the iteration computes\<close>

text \<open>
  The walk over the components: \<open>stack\<close> are the directories entered, the innermost first;
  \<open>look f w dir\<close> is the entry of the directory \<open>f\<close> named \<open>w\<close>, or the failure.
\<close>

definition dot :: "u8 list" where "dot = [0x2e]"
definition dotdot :: "u8 list" where "dotdot = [0x2e, 0x2e]"

definition resolve_one :: "('f \<Rightarrow> u8 list \<Rightarrow> bool \<Rightarrow> bl_status + 'f) \<Rightarrow> bool \<Rightarrow> u8 list \<Rightarrow> 'f list \<Rightarrow> bl_status + 'f list" where
  "resolve_one look directory w stack =
     (if w = dotdot then Inr (if tl stack = [] then stack else tl stack)
      else if w = dot then Inr stack
      else case look (hd stack) w directory of Inl e \<Rightarrow> Inl e | Inr f \<Rightarrow> Inr (f # stack))"

fun resolve :: "('f \<Rightarrow> u8 list \<Rightarrow> bool \<Rightarrow> bl_status + 'f) \<Rightarrow> bool \<Rightarrow> u8 list list \<Rightarrow> 'f list \<Rightarrow> bl_status + 'f list" where
  "resolve look trailing [] stack = Inr stack"
| "resolve look trailing (w # ws) stack =
     (case resolve_one look (ws \<noteq> [] \<or> trailing) w stack of
        Inl e \<Rightarrow> Inl e
      | Inr stack1 \<Rightarrow> resolve look trailing ws stack1)"

definition regions_kept :: "(addr \<times> nat) list \<Rightarrow> 'a tok_st_scheme \<Rightarrow> 'a tok_st_scheme \<Rightarrow> bool" where
  "regions_kept R s s' \<longleftrightarrow> bl_strtok_str s' = bl_strtok_str s \<and> (\<forall>(p, k) \<in> set R. mem_get (mem s') p k = mem_get (mem s) p k)"

text \<open>The word a release stores in the header of the node's block is outside the regions.\<close>

definition node_apart :: "(addr \<times> nat) list \<Rightarrow> addr \<Rightarrow> bool" where
  "node_apart R a \<longleftrightarrow> fits (a - 12) 4 \<and> (\<forall>(p, k) \<in> set R. apart (a - 12) 4 p k)"

text \<open>
  What the iteration relies on of a file system: under an invariant \<open>I\<close> of its own, its
  callback and its \<open>close\<close> return, leave the strings \<open>R\<close> and the tokenizer alone and keep
  \<open>I\<close>, which also survives the writes of the iteration itself; and the callback answers as
  \<open>look\<close> does.
\<close>

definition fs_env :: "('a tok_st_scheme \<Rightarrow> bool) \<Rightarrow> (addr \<times> nat) list \<Rightarrow> ('f, 'a) fs_close \<Rightarrow> ('f, 'a) dir_callback \<Rightarrow>
    ('f \<Rightarrow> u8 list \<Rightarrow> bool \<Rightarrow> bl_status + 'f) \<Rightarrow> bool" where
  "fs_env I R close callback look \<longleftrightarrow>
     (\<forall>s f q w dir. I s \<longrightarrow> q \<noteq> 0 \<longrightarrow> cstr (mem s) q w \<longrightarrow>
        (\<exists>s'. I s' \<and> regions_kept R s s' \<and>
           (case look f w dir of
              Inl e \<Rightarrow> failed e \<and> (\<exists>n. callback q dir f s = Some (e, n, s'))
            | Inr f' \<Rightarrow> \<exists>a. callback q dir f s = Some (BL_STATUS_SUCCESS, Some (a, f'), s') \<and> node_apart R a))) \<and>
     (\<forall>s f. I s \<longrightarrow> (\<exists>st s'. close f s = Some (st, s') \<and> I s' \<and> regions_kept R s s')) \<and>
     (\<forall>s a. I s \<longrightarrow> node_apart R a \<longrightarrow> I (bl_heap_free s a sizeof_tree_node)) \<and>
     (\<forall>s x p. I s \<longrightarrow> unat (fst (hd R)) \<le> unat x \<longrightarrow> unat x < unat (fst (hd R)) + snd (hd R) \<longrightarrow>
        I (s\<lparr>mem := (mem s)(x := 0), bl_strtok_str := p\<rparr>)) \<and>
     (\<forall>s p. I s \<longrightarrow> I (s\<lparr>bl_strtok_str := p\<rparr>))"

definition path_regions :: "path_strings \<Rightarrow> addr \<Rightarrow> u8 list \<Rightarrow> addr \<Rightarrow> (addr \<times> nat) list" where
  "path_regions ps path cs copy =
     [(copy, length cs + 2), (bl_path_delimiter ps, 2), (bl_current_directory ps, 2), (bl_previous_directory ps, 3),
      (path, length cs + 1)]"

text \<open>The constants and the caller's path are where they are, away from the copy.\<close>

definition path_static :: "path_strings \<Rightarrow> addr \<Rightarrow> u8 list \<Rightarrow> addr \<Rightarrow> 'a tok_st_scheme \<Rightarrow> bool" where
  "path_static ps path cs copy s \<longleftrightarrow>
     cstr (mem s) (bl_path_delimiter ps) [0x2f] \<and> cstr (mem s) (bl_current_directory ps) dot \<and>
     cstr (mem s) (bl_previous_directory ps) dotdot \<and> cstr (mem s) path cs \<and>
     0 \<notin> {bl_path_delimiter ps, bl_current_directory ps, bl_previous_directory ps, path, copy} \<and>
     (\<forall>(p, k) \<in> set (path_regions ps path cs copy). fits p k) \<and>
     (\<forall>(p, k) \<in> set (tl (path_regions ps path cs copy)). apart p k copy (length cs + 2))"

text \<open>The loop's invariant: the current name, and the rest of the copy for the tokenizer.\<close>

definition walk_inv :: "path_strings \<Rightarrow> addr \<Rightarrow> u8 list \<Rightarrow> addr \<Rightarrow> 'a tok_st_scheme \<Rightarrow> addr \<Rightarrow> u8 list \<Rightarrow> u8 list \<Rightarrow> bool" where
  "walk_inv ps path cs copy s q v w \<longleftrightarrow>
     path_static ps path cs copy s \<and> tok_inv s w (bl_path_delimiter ps) [0x2f] \<and>
     q \<noteq> 0 \<and> v \<noteq> [] \<and> cstr (mem s) q v \<and> unat copy \<le> unat q \<and> unat q + length v < unat (bl_strtok_str s) \<and>
     unat (bl_strtok_str s) + tok_extent w \<le> unat copy + length cs + 2"

lemma cstr_kept: "cstr m p w \<Longrightarrow> mem_get m' p (Suc (length w)) = mem_get m p (Suc (length w)) \<Longrightarrow> cstr m' p w"
  by (simp add: cstr_mem_get)

lemma regions_kept_static:
  assumes "path_static ps path cs copy s" "regions_kept (path_regions ps path cs copy) s s'"
  shows "path_static ps path cs copy s'"
  using assms
  by (auto simp: path_static_def regions_kept_def path_regions_def cstr_mem_get dot_def dotdot_def eval_nat_numeral)

lemma mem_get_sub:
  assumes "mem_get m' p n = mem_get m p n" "unat p \<le> unat q" "unat q + k \<le> unat p + n"
  shows "mem_get m' q k = mem_get m q k"
proof -
  let ?i = "unat q - unat p"
  have q: "q = p + of_nat ?i" using assms(2) by (simp add: of_nat_diff)
  have "take k (drop ?i (mem_get m' p n)) = take k (drop ?i (mem_get m p n))" using assms(1) by simp
  moreover have "k \<le> n - ?i" using assms(2,3) by linarith
  ultimately show ?thesis unfolding drop_mem_get q [symmetric] by (simp add: take_mem_get)
qed

lemma regions_kept_walk:
  assumes "walk_inv ps path cs copy s q v w" "regions_kept (path_regions ps path cs copy) s s'"
  shows "walk_inv ps path cs copy s' q v w"
proof -
  have k: "mem_get (mem s') copy (length cs + 2) = mem_get (mem s) copy (length cs + 2)" "bl_strtok_str s' = bl_strtok_str s"
    using assms(2) by (auto simp: regions_kept_def path_regions_def)
  let ?p = "bl_strtok_str s"
  have b: "unat copy \<le> unat ?p" "unat ?p + tok_extent w \<le> unat copy + (length cs + 2)" "unat copy \<le> unat q"
      "unat q + Suc (length v) \<le> unat copy + (length cs + 2)"
    using assms(1) by (auto simp: walk_inv_def)
  have t: "mem_get (mem s') ?p (tok_extent w) = mem_get (mem s) ?p (tok_extent w)" by (rule mem_get_sub [OF k(1) b(1,2)])
  have v: "mem_get (mem s') q (Suc (length v)) = mem_get (mem s) q (Suc (length v))" by (rule mem_get_sub [OF k(1) b(3,4)])
  have st: "path_static ps path cs copy s'" using regions_kept_static [OF _ assms(2)] assms(1) by (simp add: walk_inv_def)
  have "cstr (mem s') ?p w \<and> (w \<noteq> [] \<longrightarrow> mem s' (?p + of_nat (length w) + 1) = 0)"
  proof (cases "w = []")
    case True
    then show ?thesis using t assms(1) by (auto simp: walk_inv_def tok_inv_def tok_extent_def mem_get_Suc)
  next
    case False
    have "mem_get (mem s') ?p (length w + 2) = mem_get (mem s) ?p (length w + 2)" using t False by (simp add: tok_extent_def)
    then have e: "mem_get (mem s') ?p (Suc (length w)) = mem_get (mem s) ?p (Suc (length w))"
        "mem s' (?p + of_nat (Suc (length w))) = mem s (?p + of_nat (Suc (length w)))"
      using mem_get_snoc [of _ ?p "Suc (length w)"] by auto
    then show ?thesis
      using False assms(1) cstr_kept [of "mem s" ?p w "mem s'"] by (auto simp: walk_inv_def tok_inv_def add.commute add.left_commute)
  qed
  then show ?thesis
    using st v k(2) assms(1) cstr_kept [OF _ v]
    by (auto simp: walk_inv_def tok_inv_def path_static_def)
qed

lemma free_kept: "node_apart R a \<Longrightarrow> \<forall>(p, k) \<in> set R. fits p k \<Longrightarrow> regions_kept R s (bl_heap_free s a sz)"
proof -
  assume "node_apart R a" "\<forall>(p, k) \<in> set R. fits p k"
  then have "\<forall>(p, k) \<in> set R. mem_get (st32 (mem s) (a - 12) x) p k = mem_get (mem s) p k" for x
    by (auto simp: node_apart_def st32_def intro!: mem_get_put_apart)
  then show ?thesis
    by (auto simp: regions_kept_def bl_heap_free_def Let_def sizeof_block_head_def algebra_simps)
qed

lemma bl_strtok_frame: "bl_strtok p d s = Some (q, s') \<Longrightarrow> s' = s\<lparr>mem := mem s', bl_strtok_str := bl_strtok_str s'\<rparr>"
  by (auto simp: bl_strtok_def Let_def bind_eq_Some_conv split: if_splits)

lemma bl_strtok_start: "p \<noteq> 0 \<Longrightarrow> bl_strtok p d s = bl_strtok 0 d (s\<lparr>bl_strtok_str := p\<rparr>)"
  by (simp add: bl_strtok_def)

text \<open>The static strings survive a zero stored into the copy.\<close>

lemma static_upd:
  assumes "path_static ps path cs copy s" "mem s' = (mem s)(e := 0)" "unat copy \<le> unat e" "unat e < unat copy + length cs + 2"
  shows "path_static ps path cs copy s'"
proof -
  have k: "mem_get (mem s') p k = mem_get (mem s) p k" if "(p, k) \<in> set (tl (path_regions ps path cs copy))" for p k
  proof -
    have "fits p k" "apart p k copy (length cs + 2)"
      using assms(1) that by (auto simp: path_static_def path_regions_def)
    then show ?thesis
      unfolding assms(2) using assms(3,4) by (intro mem_get_upd_out) (auto simp: apart_def)
  qed
  from k [of "bl_path_delimiter ps" 2] k [of "bl_current_directory ps" 2] k [of "bl_previous_directory ps" 3]
    k [of path "length cs + 1"] show ?thesis
    using assms(1) by (auto simp: path_static_def path_regions_def cstr_mem_get dot_def dotdot_def eval_nat_numeral)
qed

abbreviation slash :: "u8 \<Rightarrow> bool" where "slash \<equiv> (\<lambda>c. c \<in> set [0x2f])"

text \<open>One call of the tokenizer from the loop.\<close>

lemma walk_last:
  assumes "walk_inv ps path cs copy s q v w" "tokens slash w = []"
  shows "\<exists>p. bl_strtok 0 (bl_path_delimiter ps) s = Some (0, s\<lparr>bl_strtok_str := p\<rparr>)"
proof -
  have "dropWhile slash w = []" using assms(2) by (rule tokens_Nil)
  with tok_step_none [of s w _ "[0x2f]"] assms(1) obtain s' where
    s': "bl_strtok 0 (bl_path_delimiter ps) s = Some (0, s')" "mem s' = mem s" unfolding walk_inv_def by blast
  with bl_strtok_frame [OF s'(1)] show ?thesis by auto
qed

lemma walk_next:
  assumes "walk_inv ps path cs copy s q v w" "tokens slash w = v' # ws"
  shows "\<exists>q' e p w'. bl_strtok 0 (bl_path_delimiter ps) s = Some (q', s\<lparr>mem := (mem s)(e := 0), bl_strtok_str := p\<rparr>) \<and>
    walk_inv ps path cs copy (s\<lparr>mem := (mem s)(e := 0), bl_strtok_str := p\<rparr>) q' v' w' \<and> tokens slash w' = ws \<and>
    cstr ((mem s)(e := 0)) q v \<and> unat copy \<le> unat e \<and> unat e < unat copy + (length cs + 2)"
proof -
  let ?t = "dropWhile slash w" and ?w = "tl (dropWhile (\<lambda>c. \<not> slash c) (dropWhile slash w))"
  note T = tokens_Cons [OF assms(2)]
  note W = assms(1) [unfolded walk_inv_def]
  from tok_step_some [OF W [THEN conjunct2, THEN conjunct1] refl T(1) refl refl] obtain q' e s' where
    1: "bl_strtok 0 (bl_path_delimiter ps) s = Some (q', s')" "q' \<noteq> 0" "cstr (mem s') q' v'" "tok_inv s' ?w (bl_path_delimiter ps) [0x2f]"
      "mem s' = (mem s)(e := 0)" "unat (bl_strtok_str s) \<le> unat q'" "unat q' + length v' = unat e" "unat e < unat (bl_strtok_str s')"
      "unat (bl_strtok_str s') + tok_extent ?w \<le> unat (bl_strtok_str s) + tok_extent w"
    unfolding T(2) by blast
  have s': "s' = s\<lparr>mem := (mem s)(e := 0), bl_strtok_str := bl_strtok_str s'\<rparr>" using bl_strtok_frame [OF 1(1)] 1(5) by simp
  let ?s' = "s\<lparr>mem := (mem s)(e := 0), bl_strtok_str := bl_strtok_str s'\<rparr>"
  have e: "unat copy \<le> unat e" "unat e < unat copy + (length cs + 2)" "unat q + length v < unat e"
    using 1(6-9) W by auto
  have st: "path_static ps path cs copy s'" using static_upd [OF _ 1(5) e(1)] e(2) W by auto
  have fq: "fits q (Suc (length v))"
    using W e(2,3) by (auto simp: fits_def path_static_def path_regions_def)
  have "cstr ((mem s)(e := 0)) q v" using cstr_upd_out [OF _ fq, of "mem s" e 0] W e(3) by auto
  moreover have eq: "?s' = s'" using s' by (rule sym)
  moreover have "walk_inv ps path cs copy s' q' v' ?w"
    using st 1 e(1) W T(4) unfolding walk_inv_def by auto
  ultimately show ?thesis using 1(1) T(3) e(1,2)
    by - (rule exI [of _ q'], rule exI [of _ e], rule exI [of _ "bl_strtok_str s'"], rule exI [of _ ?w], unfold eq, simp)
qed

text \<open>The names still to come: the current one at \<open>q\<close>, the others in the tokenizer.\<close>

definition names_left :: "path_strings \<Rightarrow> addr \<Rightarrow> u8 list \<Rightarrow> addr \<Rightarrow> 'a tok_st_scheme \<Rightarrow> addr \<Rightarrow> u8 list list \<Rightarrow> bool" where
  "names_left ps path cs copy s q ts \<longleftrightarrow>
     (case ts of [] \<Rightarrow> q = 0 | v # ws \<Rightarrow> \<exists>w. walk_inv ps path cs copy s q v w \<and> tokens slash w = ws)"

lemma names_left_kept:
  "names_left ps path cs copy s q ts \<Longrightarrow> regions_kept (path_regions ps path cs copy) s s' \<Longrightarrow> names_left ps path cs copy s' q ts"
  by (auto simp: names_left_def dest: regions_kept_walk split: list.splits)

lemma names_next:
  assumes env: "fs_env I (path_regions ps path cs copy) close callback look"
    and q: "names_left ps path cs copy s q (v # ws)" and "I s"
  shows "\<exists>nf s1. bl_strtok 0 (bl_path_delimiter ps) s = Some (nf, s1) \<and> I s1 \<and> cstr (mem s1) q v \<and> q \<noteq> 0 \<and>
    path_static ps path cs copy s1 \<and> cs \<noteq> [] \<and> names_left ps path cs copy s1 nf ws \<and> (nf \<noteq> 0 \<longleftrightarrow> ws \<noteq> [])"
proof -
  obtain w where w: "walk_inv ps path cs copy s q v w" "tokens slash w = ws" using q by (auto simp: names_left_def)
  have W: "q \<noteq> 0" "cs \<noteq> []" "cstr (mem s) q v" "path_static ps path cs copy s"
    using w(1) by (cases v; auto simp: walk_inv_def tok_extent_def split: if_splits)+
  show ?thesis
  proof (cases ws)
    case Nil
    then obtain p where p: "bl_strtok 0 (bl_path_delimiter ps) s = Some (0, s\<lparr>bl_strtok_str := p\<rparr>)"
      using walk_last [OF w(1)] w(2) by auto
    moreover have "I (s\<lparr>bl_strtok_str := p\<rparr>)" using env \<open>I s\<close> by (simp add: fs_env_def)
    ultimately show ?thesis using W Nil by (auto simp: names_left_def path_static_def)
  next
    case (Cons v' ws')
    then obtain q' e p w' where
      n: "bl_strtok 0 (bl_path_delimiter ps) s = Some (q', s\<lparr>mem := (mem s)(e := 0), bl_strtok_str := p\<rparr>)"
        "walk_inv ps path cs copy (s\<lparr>mem := (mem s)(e := 0), bl_strtok_str := p\<rparr>) q' v' w'" "tokens slash w' = ws'"
        "cstr ((mem s)(e := 0)) q v" "unat copy \<le> unat e" "unat e < unat copy + (length cs + 2)"
      using walk_next [OF w(1)] w(2) by blast
    have "I (s\<lparr>mem := (mem s)(e := 0), bl_strtok_str := p\<rparr>)"
      using env \<open>I s\<close> n(5,6) by (simp add: fs_env_def path_regions_def)
    then show ?thesis using n W Cons by (auto simp: names_left_def walk_inv_def)
  qed
qed

lemma last_char: "cstr m p cs \<Longrightarrow> cs \<noteq> [] \<Longrightarrow> m (p + (of_nat (length cs) - 1)) = last cs"
proof -
  assume c: "cstr m p cs" "cs \<noteq> []"
  then obtain n where n: "length cs = Suc n" by (cases cs) auto
  have "mem_get m p (Suc (length cs)) = cs @ [0]" using c(1) by (simp add: cstr_mem_get)
  then have "(cs @ [0]) ! n = m (p + of_nat n)" using n by (metis nth_mem_get lessI less_Suc_eq)
  then show ?thesis using n c(2) by (simp add: nth_append last_conv_nth)
qed

lemma path_step_resolves:
  assumes env: "fs_env I (path_regions ps path cs copy) close callback look"
    and q: "names_left ps path cs copy s q (v # ws)" and I: "I s"
    and st: "stack \<noteq> []" "\<forall>n \<in> set stack. node_apart (path_regions ps path cs copy) (fst n)"
  shows "\<exists>r nf stack1 s1. path_step ps close callback path (of_nat (length cs)) q stack s = Some (r, nf, stack1, s1) \<and> I s1 \<and>
    stack1 \<noteq> [] \<and> (\<forall>n \<in> set stack1. node_apart (path_regions ps path cs copy) (fst n)) \<and>
    (case resolve_one look (ws \<noteq> [] \<or> last cs = 0x2f) v (map snd stack) of
       Inl e \<Rightarrow> r = Some e \<and> failed e
     | Inr fs \<Rightarrow> r = None \<and> map snd stack1 = fs \<and> names_left ps path cs copy s1 nf ws)"
proof -
  let ?R = "path_regions ps path cs copy"
  obtain nf s1 where
    n: "bl_strtok 0 (bl_path_delimiter ps) s = Some (nf, s1)" "I s1" "cstr (mem s1) q v" "q \<noteq> 0" "path_static ps path cs copy s1"
      "cs \<noteq> []" "names_left ps path cs copy s1 nf ws" "nf \<noteq> 0 \<longleftrightarrow> ws \<noteq> []"
    using names_next [OF env q I] by blast
  have dir: "(nf \<noteq> 0 \<or> mem s1 (path + (of_nat (length cs) - 1)) = 0x2f) = (ws \<noteq> [] \<or> last cs = 0x2f)"
    using last_char [of "mem s1" path cs] n(5,6,8) by (simp add: path_static_def)
  have cmp: "bl_strcmp (mem s1) q (bl_previous_directory ps) = Some (strdiff v dotdot)"
      "bl_strcmp (mem s1) q (bl_current_directory ps) = Some (strdiff v dot)"
      "strdiff v dotdot = 0 \<longleftrightarrow> v = dotdot" "strdiff v dot = 0 \<longleftrightarrow> v = dot"
    using n(3-5) by (auto simp: path_static_def dot_def dotdot_def intro!: bl_strcmp_cstr strdiff_eq_0 cstr_no_zero)
  have fit: "\<forall>(p, k) \<in> set ?R. fits p k" using n(5) by (simp add: path_static_def)
  consider "v = dotdot" | "v = dot" "v \<noteq> dotdot" | "v \<noteq> dot" "v \<noteq> dotdot" by blast
  then show ?thesis
  proof cases
    case 1
    show ?thesis
    proof (cases "tl stack")
      case Nil
      then obtain x where "stack = [x]" using st(1) by (cases stack) auto
      then show ?thesis using 1 n dir cmp st by (simp add: path_step_def resolve_one_def)
    next
      case (Cons m ms)
      then obtain node f where sf: "stack = (node, f) # m # ms" by (metis list.collapse st(1) surj_pair)
      obtain x s2 where c: "close f s1 = Some (x, s2)" "I s2" "regions_kept ?R s1 s2"
        using env n(2) unfolding fs_env_def by blast
      let ?s3 = "bl_heap_free s2 node sizeof_tree_node"
      have a: "node_apart ?R node" using st(2) sf by simp
      have "I ?s3" using env c(2) a by (simp add: fs_env_def)
      moreover have "names_left ps path cs copy ?s3 nf ws"
        using names_left_kept [OF names_left_kept [OF n(7) c(3)] free_kept [OF a fit]] .
      ultimately show ?thesis using 1 n dir cmp st sf c by (simp add: path_step_def resolve_one_def)
    qed
  next
    case 2
    then show ?thesis using n dir cmp st by (simp add: path_step_def resolve_one_def)
  next
    case 3
    obtain s2 where c: "I s2" "regions_kept ?R s1 s2" "case look (snd (hd stack)) v (ws \<noteq> [] \<or> last cs = 0x2f) of
              Inl e \<Rightarrow> failed e \<and> (\<exists>nd. callback q (ws \<noteq> [] \<or> last cs = 0x2f) (snd (hd stack)) s1 = Some (e, nd, s2))
            | Inr f' \<Rightarrow> \<exists>a. callback q (ws \<noteq> [] \<or> last cs = 0x2f) (snd (hd stack)) s1 = Some (BL_STATUS_SUCCESS, Some (a, f'), s2) \<and> node_apart ?R a"
      using env n(2-4) unfolding fs_env_def by blast
    have h: "hd (map snd stack) = snd (hd stack)" using st(1) by (simp add: hd_map)
    show ?thesis
      using 3 n dir cmp st c h names_left_kept [OF n(7) c(2)]
      by (cases "look (snd (hd stack)) v (ws \<noteq> [] \<or> last cs = 0x2f)") (auto simp: path_step_def resolve_one_def)
  qed
qed

lemma path_loop_resolves:
  assumes env: "fs_env I (path_regions ps path cs copy) close callback look"
    and "names_left ps path cs copy s q ts" "I s"
    and "stack \<noteq> []" "\<forall>n \<in> set stack. node_apart (path_regions ps path cs copy) (fst n)"
  shows "\<exists>r stack1 s1. path_loop ps close callback path (of_nat (length cs)) q stack s = Some (r, stack1, s1) \<and> I s1 \<and>
    stack1 \<noteq> [] \<and> (\<forall>n \<in> set stack1. node_apart (path_regions ps path cs copy) (fst n)) \<and>
    (case resolve look (last cs = 0x2f) ts (map snd stack) of
       Inl e \<Rightarrow> r = e \<and> failed e
     | Inr fs \<Rightarrow> r = BL_STATUS_SUCCESS \<and> map snd stack1 = fs)"
  using assms(2-)
proof (induction ts arbitrary: s q stack)
  case Nil
  then show ?case by (auto simp: names_left_def path_loop.simps)
next
  case (Cons v ws)
  have q: "q \<noteq> 0" using Cons.prems(1) by (auto simp: names_left_def walk_inv_def)
  obtain r nf stack1 s1 where
    1: "path_step ps close callback path (of_nat (length cs)) q stack s = Some (r, nf, stack1, s1)" "I s1"
      "stack1 \<noteq> []" "\<forall>n \<in> set stack1. node_apart (path_regions ps path cs copy) (fst n)"
    and r: "case resolve_one look (ws \<noteq> [] \<or> last cs = 0x2f) v (map snd stack) of
       Inl e \<Rightarrow> r = Some e \<and> failed e
     | Inr fs \<Rightarrow> r = None \<and> map snd stack1 = fs \<and> names_left ps path cs copy s1 nf ws"
    using path_step_resolves [OF env Cons.prems] by blast
  show ?case
  proof (cases "resolve_one look (ws \<noteq> [] \<or> last cs = 0x2f) v (map snd stack)")
    case (Inl e)
    then show ?thesis using r 1 q by (subst path_loop.simps) auto
  next
    case (Inr fs)
    then have "names_left ps path cs copy s1 nf ws" "map snd stack1 = fs" "r = None" using r by auto
    then show ?thesis using Cons.IH [of s1 nf stack1] 1 q Inr by (subst path_loop.simps) simp
  qed
qed

lemma path_exit_returns:
  assumes env: "fs_env I R close callback look" and "I s" "\<forall>n \<in> set ns. node_apart R (fst n)"
  shows "\<exists>s'. path_exit_loop close ns s = Some s' \<and> I s'"
  using assms(2-)
proof (induction ns arbitrary: s)
  case (Cons n ns)
  obtain node f where n: "n = (node, f)" by (cases n)
  obtain x s1 where c: "close f s = Some (x, s1)" "I s1" using env Cons.prems(1) unfolding fs_env_def by blast
  moreover have "I (bl_heap_free s1 node sizeof_tree_node)" using env c(2) Cons.prems(2) n by (simp add: fs_env_def)
  ultimately show ?case using Cons.IH Cons.prems(2) n by simp
qed simp

text \<open>The whole function, from the state after the copy was made.\<close>

lemma tokens_start:
  assumes "path_static ps path cs copy s" "cstr (mem s) copy cs" "mem s (copy + of_nat (length cs) + 1) = 0"
  shows "tok_inv (s\<lparr>bl_strtok_str := copy\<rparr>) cs (bl_path_delimiter ps) [0x2f]"
  using assms by (auto simp: tok_inv_def path_static_def path_regions_def tok_extent_def fits_def apart_def)

lemma names_start:
  assumes env: "fs_env I (path_regions ps path cs copy) close callback look" and "I s"
    and st: "path_static ps path cs copy s" and c: "cstr (mem s) copy cs" "mem s (copy + of_nat (length cs) + 1) = 0"
  shows "\<exists>nf s1. bl_strtok copy (bl_path_delimiter ps) s = Some (nf, s1) \<and> I s1 \<and> names_left ps path cs copy s1 nf (tokens slash cs)"
proof -
  let ?s = "s\<lparr>bl_strtok_str := copy\<rparr>" and ?d = "bl_path_delimiter ps"
  have start: "bl_strtok copy ?d s = bl_strtok 0 ?d ?s" using bl_strtok_start st by (auto simp: path_static_def)
  note inv = tokens_start [OF st c]
  show ?thesis
  proof (cases "tokens slash cs")
    case Nil
    from tok_step_none [OF inv tokens_Nil [OF Nil]] obtain s' where
      s': "bl_strtok 0 ?d ?s = Some (0, s')" "mem s' = mem s" by auto
    then have "s' = s\<lparr>bl_strtok_str := bl_strtok_str s'\<rparr>" using bl_strtok_frame [OF s'(1)] by simp
    then have "I s'" using env \<open>I s\<close> unfolding fs_env_def by metis
    then show ?thesis using start s' Nil by (auto simp: names_left_def)
  next
    case (Cons v ws)
    note T = tokens_Cons [OF Cons]
    let ?w = "tl (dropWhile (\<lambda>c. \<not> slash c) (dropWhile slash cs))"
    from tok_step_some [OF inv refl T(1) refl refl] obtain q e s' where
      1: "bl_strtok 0 ?d ?s = Some (q, s')" "q \<noteq> 0" "cstr (mem s') q v" "tok_inv s' ?w ?d [0x2f]" "mem s' = (mem s)(e := 0)"
        "unat copy \<le> unat q" "unat q + length v = unat e" "unat e < unat (bl_strtok_str s')"
        "unat (bl_strtok_str s') + tok_extent ?w \<le> unat copy + tok_extent cs"
      unfolding T(2) by auto
    have b: "tok_extent cs = length cs + 2" using T(1) by (auto simp: tok_extent_def)
    have e: "unat copy \<le> unat e" "unat e < unat copy + (length cs + 2)" using 1(6-9) b by auto
    have "s' = s\<lparr>mem := (mem s)(e := 0), bl_strtok_str := bl_strtok_str s'\<rparr>" using bl_strtok_frame [OF 1(1)] 1(5) by simp
    moreover have "I (s\<lparr>mem := (mem s)(e := 0), bl_strtok_str := bl_strtok_str s'\<rparr>)"
      using env \<open>I s\<close> e by (simp add: fs_env_def path_regions_def)
    ultimately have "I s'" by metis
    moreover have "path_static ps path cs copy s'" using static_upd [OF st 1(5) e(1)] e(2) by simp
    then have "walk_inv ps path cs copy s' q v ?w" using 1 T(4) b by (simp add: walk_inv_def)
    ultimately show ?thesis using start 1(1) Cons T(3) by (auto simp: names_left_def)
  qed
qed

lemma iterate_path_resolves:
  assumes "cstr (mem s) path cs" "bl_strndup path (of_nat (length cs)) s = Some (copy, s1)"
    and st: "path_static ps path cs copy s1" and c: "cstr (mem s1) copy cs" "mem s1 (copy + of_nat (length cs) + 1) = 0"
    and env: "fs_env I (path_regions ps path cs copy) close callback look" "I s1"
    and root: "node_apart (path_regions ps path cs copy) (fst root)"
  shows "\<exists>r fd s'. bl_file_iterate_path ps close path root callback s = Some (r, fd, s') \<and>
    (case resolve look (last cs = 0x2f) (tokens slash cs) [snd root] of
       Inl e \<Rightarrow> r = e \<and> failed e \<and> fd = None
     | Inr fs \<Rightarrow> r = BL_STATUS_SUCCESS \<and> fd = Some (hd fs))"
proof -
  have nz: "path \<noteq> 0" "copy \<noteq> 0" using st by (auto simp: path_static_def)
  obtain nf s2 where 2: "bl_strtok copy (bl_path_delimiter ps) s1 = Some (nf, s2)" "I s2" "names_left ps path cs copy s2 nf (tokens slash cs)"
    using names_start [OF env st c] by blast
  obtain r stack s3 where 3: "path_loop ps close callback path (of_nat (length cs)) nf [root] s2 = Some (r, stack, s3)" "I s3"
      "stack \<noteq> []" "\<forall>n \<in> set stack. node_apart (path_regions ps path cs copy) (fst n)"
      "case resolve look (last cs = 0x2f) (tokens slash cs) (map snd [root]) of
         Inl e \<Rightarrow> r = e \<and> failed e | Inr fs \<Rightarrow> r = BL_STATUS_SUCCESS \<and> map snd stack = fs"
    using path_loop_resolves [OF env(1) 2(3,2), of "[root]"] root by auto
  have "\<forall>n \<in> set (tl stack). node_apart (path_regions ps path cs copy) (fst n)"
    using 3(3,4) by (cases stack) auto
  then obtain s4 where 4: "path_exit_loop close (tl stack) s3 = Some s4" using path_exit_returns [OF env(1) 3(2)] by blast
  have "bl_file_iterate_path ps close path root callback s = Some (r, if failed r then None else Some (snd (hd stack)),
      bl_heap_free (bl_heap_free s4 (fst (hd stack)) sizeof_tree_node) copy (of_nat (length cs)))"
    using nz assms(1,2) 2(1) 3(1) 4 by (simp add: bl_file_iterate_path_def bl_strlen_cstr)
  moreover have "case resolve look (last cs = 0x2f) (tokens slash cs) [snd root] of
       Inl e \<Rightarrow> r = e \<and> failed e \<and> (if failed r then None else Some (snd (hd stack))) = None
     | Inr fs \<Rightarrow> r = BL_STATUS_SUCCESS \<and> (if failed r then None else Some (snd (hd stack))) = Some (hd fs)"
    using 3(3,5) by (auto simp: hd_map failed_simps split: sum.splits)
  ultimately show ?thesis by blast
qed

subsection \<open>The registry\<close>

interpretation file_systems: registry bl_fs_list bl_fs_register
  by unfold_locales (simp add: bl_fs_register_def)


end
