(* ===== verification/Bl_Ntfs.thy ===== *)
theory Bl_Ntfs
  imports Bl_Fs
begin

text \<open>
  The NTFS driver of src/boot-loader/modules/fs/ntfs/ntfs.c, with the structures of ntfs.h.

  MFT records and index nodes are heap blocks: the code's pointers into them are addresses
  and its field accesses are loads at the offsets of the packed structures. The driver's own
  structures, struct bl_ntfs_info and struct bl_ntfs_file_data, are records with the address
  of their block. What is printed goes through the callback of the environment, which also
  has the addresses of the wide string $I30 and of the constants of the path iteration.
\<close>

unbundle bit_operations_syntax

subsection \<open>Structures\<close>

definition BL_NTFS_OEM :: "u8 list" where "BL_NTFS_OEM = ascii ''NTFS    ''"
definition BL_NTFS_INDX :: "u8 list" where "BL_NTFS_INDX = ascii ''INDX''"
definition BL_NTFS_FILE_ROOT :: u64 where "BL_NTFS_FILE_ROOT = 5"
definition BL_NTFS_ATTR_FILE_NAME :: u32 where "BL_NTFS_ATTR_FILE_NAME = 0x30"
definition BL_NTFS_ATTR_INDEX_ROOT :: u32 where "BL_NTFS_ATTR_INDEX_ROOT = 0x90"
definition BL_NTFS_ATTR_INDEX_ALLOCATION :: u32 where "BL_NTFS_ATTR_INDEX_ALLOCATION = 0xa0"
definition BL_NTFS_ATTR_END :: u32 where "BL_NTFS_ATTR_END = 0xffffffff"
definition BL_NTFS_FILE_FLAGS_SYSTEM :: u32 where "BL_NTFS_FILE_FLAGS_SYSTEM = 0x4"
definition BL_NTFS_FILE_FLAGS_ARCHIVE :: u32 where "BL_NTFS_FILE_FLAGS_ARCHIVE = 0x20"
definition BL_NTFS_FILE_FLAGS_COMPRESSED :: u32 where "BL_NTFS_FILE_FLAGS_COMPRESSED = 0x800"
definition BL_NTFS_FILE_FLAGS_ENCRYPTED :: u32 where "BL_NTFS_FILE_FLAGS_ENCRYPTED = 0x4000"
definition BL_NTFS_FILE_FLAGS_DIRECTORY :: u32 where "BL_NTFS_FILE_FLAGS_DIRECTORY = 0x10000000"
definition BL_NTFS_INDEX_ENTRY_PARENT :: u8 where "BL_NTFS_INDEX_ENTRY_PARENT = 1"
definition BL_NTFS_INDEX_ENTRY_LAST_ENTRY :: u8 where "BL_NTFS_INDEX_ENTRY_LAST_ENTRY = 2"

definition MFT_RECORD :: "u64 \<Rightarrow> u64" where
  "MFT_RECORD record = record AND (push_bit 48 1 - 1)"

text \<open>struct bl_ntfs_vbr, read into a local variable: the fields the driver uses.\<close>

record bl_ntfs_vbr =
  vbr_oem :: "u8 list"
  bytes_per_sector :: u16
  sectors_per_cluster :: u8
  mft_lcn :: u64
  clusters_per_mft_record :: u8
  vbr_signature :: u16

definition sizeof_ntfs_vbr :: u32 where "sizeof_ntfs_vbr = 512"

definition rd_ntfs_vbr :: "u8 list \<Rightarrow> bl_ntfs_vbr" where
  "rd_ntfs_vbr bs = \<lparr>vbr_oem = take 8 (drop 3 bs), bytes_per_sector = get16 bs 11, sectors_per_cluster = get8 bs 13,
     mft_lcn = get64 bs 48, clusters_per_mft_record = get8 bs 64, vbr_signature = get16 bs 510\<rparr>"

text \<open>Fields of the structures in memory.\<close>

definition mft_attributes_offset :: "mem \<Rightarrow> addr \<Rightarrow> u16" where "mft_attributes_offset m r = ld16 m (r + 20)"

definition attr_type :: "mem \<Rightarrow> addr \<Rightarrow> u32" where "attr_type m a = ld32 m a"
definition attr_total_size :: "mem \<Rightarrow> addr \<Rightarrow> u32" where "attr_total_size m a = ld32 m (a + 4)"
definition attr_nonresident_flag :: "mem \<Rightarrow> addr \<Rightarrow> u8" where "attr_nonresident_flag m a = m (a + 8)"
definition attr_name_length :: "mem \<Rightarrow> addr \<Rightarrow> u8" where "attr_name_length m a = m (a + 9)"
definition attr_resident_offset :: "mem \<Rightarrow> addr \<Rightarrow> u16" where "attr_resident_offset m a = ld16 m (a + 20)"
definition attr_data_run_offset :: "mem \<Rightarrow> addr \<Rightarrow> u16" where "attr_data_run_offset m a = ld16 m (a + 32)"

definition iroot_attribute_type :: "mem \<Rightarrow> addr \<Rightarrow> u32" where "iroot_attribute_type m r = ld32 m r"
definition iroot_index_record_size :: "mem \<Rightarrow> addr \<Rightarrow> u32" where "iroot_index_record_size m r = ld32 m (r + 8)"

definition entry_undefined :: "mem \<Rightarrow> addr \<Rightarrow> u64" where "entry_undefined m e = ld64 m e"
definition entry_total_size :: "mem \<Rightarrow> addr \<Rightarrow> u16" where "entry_total_size m e = ld16 m (e + 8)"
definition entry_flags :: "mem \<Rightarrow> addr \<Rightarrow> u8" where "entry_flags m e = m (e + 12)"
definition entry_data :: "addr \<Rightarrow> addr" where "entry_data e = e + 16"

definition fname_creation_time :: "mem \<Rightarrow> addr \<Rightarrow> u64" where "fname_creation_time m f = ld64 m (f + 8)"
definition fname_flags :: "mem \<Rightarrow> addr \<Rightarrow> u32" where "fname_flags m f = ld32 m (f + 56)"
definition fname_length :: "mem \<Rightarrow> addr \<Rightarrow> u8" where "fname_length m f = m (f + 64)"

text \<open>\<open>(char)filename->filename[i]\<close>: the low byte of the code unit.\<close>

definition fname_char :: "mem \<Rightarrow> addr \<Rightarrow> u32 \<Rightarrow> u8" where
  "fname_char m f i = ucast (ld16 m (f + 66 + 2 * i))"

definition BL_NTFS_IS_DIRECTORY :: "mem \<Rightarrow> addr \<Rightarrow> u32" where
  "BL_NTFS_IS_DIRECTORY m f = fname_flags m f AND BL_NTFS_FILE_FLAGS_DIRECTORY"

record 'a ntfs_info =
  nt_addr :: addr
  nt_lba :: u64
  nt_disk :: "'a tok_st_ext device"
  nt_sector_size :: u16
  nt_cluster_size :: u32
  nt_mft_lba :: u64
  nt_mft_record_size :: u16
  nt_mft_root :: addr
  nt_iroot :: addr

record 'a ntfs_file_data =
  nf_addr :: addr
  nf_dir :: u32
  nf_iroot :: addr
  nf_rootdir :: bool
  nf_mft_record :: addr
  nf_info :: "'a ntfs_info"

definition sizeof_ntfs_info :: u32 where "sizeof_ntfs_info = 40"
definition sizeof_ntfs_file_data :: u32 where "sizeof_ntfs_file_data = 20"
definition sizeof_file :: u32 where "sizeof_file = 12"

record 'a ntfs_env =
  ne_paths :: path_strings
  BL_NTFS_I30 :: addr
  ne_print :: "'a tok_st_scheme callback"

subsection \<open>Addresses on the disk\<close>

text \<open>A 64-bit shift by an \<open>int\<close>: out of range it is undefined in C; the i386 code takes the
  count modulo 64.\<close>

definition shl64 :: "u64 \<Rightarrow> int \<Rightarrow> u64" where
  "shl64 v k = push_bit (nat (k mod 64)) v"

definition bl_ntfs_lcn_to_lba :: "'a ntfs_info \<Rightarrow> u64 \<Rightarrow> u64" where
  "bl_ntfs_lcn_to_lba info lcn = nt_lba info + shl64 lcn (bl_log2 (nt_cluster_size info div ucast (nt_sector_size info)))"

definition bl_ntfs_mft_record_lba :: "'a ntfs_info \<Rightarrow> u64 \<Rightarrow> u64" where
  "bl_ntfs_mft_record_lba info record = nt_mft_lba info +
     shl64 (MFT_RECORD record) (bl_log2 (ucast (nt_mft_record_size info) div ucast (nt_sector_size info)))"

definition bl_ntfs_attribute_first :: "mem \<Rightarrow> addr \<Rightarrow> addr" where
  "bl_ntfs_attribute_first m mft_record = mft_record + ucast (mft_attributes_offset m mft_record)"

definition bl_ntfs_attribute_next :: "mem \<Rightarrow> addr \<Rightarrow> addr" where
  "bl_ntfs_attribute_next m attr = attr + attr_total_size m attr"

definition bl_ntfs_attribute_end :: "mem \<Rightarrow> addr \<Rightarrow> bool" where
  "bl_ntfs_attribute_end m attr \<longleftrightarrow> attr_type m attr = BL_NTFS_ATTR_END"

definition bl_ntfs_get_resident_attribute :: "mem \<Rightarrow> addr \<Rightarrow> addr" where
  "bl_ntfs_get_resident_attribute m attr = attr + ucast (attr_resident_offset m attr)"

definition bl_ntfs_get_child_vcn :: "mem \<Rightarrow> addr \<Rightarrow> u64" where
  "bl_ntfs_get_child_vcn m entry = ld64 m (entry + ucast (entry_total_size m entry) - 8)"

definition bl_ntfs_iroot_get_first_entry :: "mem \<Rightarrow> addr \<Rightarrow> addr" where
  "bl_ntfs_iroot_get_first_entry m iroot = iroot + 16 + ld32 m (iroot + 16)"

definition bl_ntfs_ialloc_get_first_entry :: "mem \<Rightarrow> addr \<Rightarrow> addr" where
  "bl_ntfs_ialloc_get_first_entry m ialloc = ialloc + 24 + ld32 m (ialloc + 24)"

definition bl_ntfs_get_next_entry :: "mem \<Rightarrow> addr \<Rightarrow> addr" where
  "bl_ntfs_get_next_entry m entry = entry + ucast (entry_total_size m entry)"

text \<open>
  \<open>(1 << (8 * length)) - 1\<close> is computed in a 32-bit \<open>int\<close>. From length 4 on the shift is
  undefined in C; the i386 instruction takes the count modulo 32.
\<close>

definition bl_ntfs_read_bytes :: "mem \<Rightarrow> addr \<Rightarrow> u8 \<Rightarrow> u64" where
  "bl_ntfs_read_bytes m ptr len =
     (if len > 8 \<or> len = 0 then -1
      else ld64 m ptr AND scast (push_bit (8 * unat len mod 32) 1 - 1 :: u32))"

partial_function (option) vcn_loop :: "mem \<Rightarrow> addr \<Rightarrow> u64 \<Rightarrow> u64 \<Rightarrow> u64 \<Rightarrow> u64 option" where
  "vcn_loop m run vcn cluster offset' =
     (if m run = 0 then Some (-1)
      else let run_length = m run AND 0x7;
               run_offset = drop_bit 4 (m run) AND 0x7;
               len = bl_ntfs_read_bytes m (run + 1) run_length;
               cluster1 = cluster + len;
               offset1 = offset' + bl_ntfs_read_bytes m (run + 1 + ucast run_length) run_offset
           in if vcn \<le> cluster1 then Some (offset1 + vcn - (cluster1 - len))
              else vcn_loop m (run + 1 + ucast run_length + ucast run_offset) vcn cluster1 offset1)"

definition bl_ntfs_vcn_to_lcn :: "mem \<Rightarrow> addr \<Rightarrow> u64 \<Rightarrow> u64 option" where
  "bl_ntfs_vcn_to_lcn m attr vcn = vcn_loop m (attr + ucast (attr_data_run_offset m attr)) (MFT_RECORD vcn) 0 0"

subsection \<open>Names\<close>

fun print_filename_loop :: "'s callback \<Rightarrow> mem \<Rightarrow> addr \<Rightarrow> nat \<Rightarrow> u32 \<Rightarrow> 's \<Rightarrow> 's" where
  "print_filename_loop cb m f 0 i s = s"
| "print_filename_loop cb m f (Suc n) i s = print_filename_loop cb m f n (i + 1) (bl_print_str cb [fname_char m f i] s)"

definition bl_ntfs_print_filename :: "'s callback \<Rightarrow> mem \<Rightarrow> addr \<Rightarrow> 's \<Rightarrow> 's" where
  "bl_ntfs_print_filename cb m f s = print_filename_loop cb m f (unat (fname_length m f)) 0 s"

function ntfs_strcmp_loop :: "mem \<Rightarrow> addr \<Rightarrow> addr \<Rightarrow> u32 \<Rightarrow> u8 \<Rightarrow> int" where
  "ntfs_strcmp_loop m name f i len =
     (if bl_toupper (sint (m (name + i))) = bl_toupper (sint (fname_char m f i)) \<and> len - 1 \<noteq> 0
      then ntfs_strcmp_loop m name f (i + 1) (len - 1)
      else bl_toupper (sint (m (name + i))) - bl_toupper (sint (fname_char m f i)))"
  by pat_completeness auto
termination
  by (relation "measure (\<lambda>(m, name, f, i, len). unat (len - 1))") (auto intro: unat_countdown)

declare ntfs_strcmp_loop.simps [simp del]

definition bl_ntfs_strcmp :: "mem \<Rightarrow> addr \<Rightarrow> addr \<Rightarrow> int" where
  "bl_ntfs_strcmp m name f = ntfs_strcmp_loop m name f 0 (fname_length m f)"

definition bl_ntfs_check_attribute_name :: "mem \<Rightarrow> addr \<Rightarrow> addr \<Rightarrow> bl_status" where
  "bl_ntfs_check_attribute_name m attr index =
     (if attr_name_length m attr = 0 then BL_STATUS_UNSUPPORTED
      else let name = (if attr_nonresident_flag m attr \<noteq> 0 then attr + 64 else attr + 24)
      in if bl_wcsncmp m index name (ucast (attr_name_length m attr)) = 0 then BL_STATUS_SUCCESS
         else BL_STATUS_FAILURE)"

subsection \<open>Attributes and records\<close>

text \<open>\<open>bl_storage_device_read\<close> into a buffer in memory.\<close>

definition read_into :: "'a device \<Rightarrow> addr \<Rightarrow> u64 \<Rightarrow> u32 \<Rightarrow> u32 \<Rightarrow> 'a heap_st_scheme \<Rightarrow> (bl_status \<times> 'a heap_st_scheme) option" where
  "read_into disk buf start sz off s = do {
     (status, bytes, s1) \<leftarrow> bl_storage_device_read disk start sz off s;
     Some (status, if failed status then s1 else s1\<lparr>mem := mem_put (mem s1) buf bytes\<rparr>) }"

text \<open>The address returned is 0 where the code returns a null pointer.\<close>

definition bl_ntfs_get_index_allocation :: "'a ntfs_env \<Rightarrow> addr \<Rightarrow> (u64 \<times> 'a ntfs_info) option \<Rightarrow> 'a tok_st_scheme \<Rightarrow>
    (addr \<times> 'a tok_st_scheme) option" where
  "bl_ntfs_get_index_allocation env attr data s =
     (if failed (bl_ntfs_check_attribute_name (mem s) attr (BL_NTFS_I30 env)) then Some (0, s)
      else case data of
        None \<Rightarrow> Some (0, s)
      | Some (vcn, info) \<Rightarrow> do {
          lcn \<leftarrow> bl_ntfs_vcn_to_lcn (mem s) attr vcn;
          let sz = iroot_index_record_size (mem s) (nt_iroot info);
          (index, s1) \<leftarrow> bl_heap_alloc s sz;
          if index = 0 then Some (0, s1)
          else do {
            (status, s2) \<leftarrow> read_into (nt_disk info) index (bl_ntfs_lcn_to_lba info lcn) (iroot_index_record_size (mem s1) (nt_iroot info)) 0 s1;
            if failed status \<or> mem_get (mem s2) index 4 \<noteq> BL_NTFS_INDX
            then Some (0, bl_heap_free s2 index (iroot_index_record_size (mem s2) (nt_iroot info)))
            else Some (index, s2) } })"

definition bl_ntfs_get_index_root :: "'a ntfs_env \<Rightarrow> mem \<Rightarrow> addr \<Rightarrow> addr" where
  "bl_ntfs_get_index_root env m attr =
     (if failed (bl_ntfs_check_attribute_name m attr (BL_NTFS_I30 env)) then 0
      else bl_ntfs_get_resident_attribute m attr)"

definition bl_ntfs_get_filename :: "mem \<Rightarrow> addr \<Rightarrow> addr" where
  "bl_ntfs_get_filename m attr = bl_ntfs_get_resident_attribute m attr"

text \<open>The loop stops at the first attribute of the type, or at the end marker (0).\<close>

partial_function (option) attribute_loop :: "mem \<Rightarrow> addr \<Rightarrow> u32 \<Rightarrow> addr option option" where
  "attribute_loop m attr type =
     (if bl_ntfs_attribute_end m attr then Some None
      else if attr_type m attr = type then Some (Some attr)
      else attribute_loop m (bl_ntfs_attribute_next m attr) type)"

definition bl_ntfs_get_mft_record_attribute :: "'a ntfs_env \<Rightarrow> addr \<Rightarrow> u32 \<Rightarrow> (u64 \<times> 'a ntfs_info) option \<Rightarrow> 'a tok_st_scheme \<Rightarrow>
    (addr \<times> 'a tok_st_scheme) option" where
  "bl_ntfs_get_mft_record_attribute env mft_record type data s = do {
     r \<leftarrow> attribute_loop (mem s) (bl_ntfs_attribute_first (mem s) mft_record) type;
     (case r of
        None \<Rightarrow> Some (0, s)
      | Some attr \<Rightarrow>
          if attr_nonresident_flag (mem s) attr \<noteq> 0 then
            (if type = BL_NTFS_ATTR_INDEX_ALLOCATION then bl_ntfs_get_index_allocation env attr data s else Some (0, s))
          else if type = BL_NTFS_ATTR_FILE_NAME then Some (bl_ntfs_get_filename (mem s) attr, s)
          else if type = BL_NTFS_ATTR_INDEX_ROOT then Some (bl_ntfs_get_index_root env (mem s) attr, s)
          else Some (0, s)) }"

definition bl_ntfs_read_mft :: "'a ntfs_info \<Rightarrow> addr \<Rightarrow> u64 \<Rightarrow> 'a tok_st_scheme \<Rightarrow> (bl_status \<times> 'a tok_st_scheme) option" where
  "bl_ntfs_read_mft info mft_record record s =
     read_into (nt_disk info) mft_record (bl_ntfs_mft_record_lba info record) (ucast (nt_mft_record_size info)) 0 s"

definition bl_ntfs_read_child_node :: "'a ntfs_env \<Rightarrow> addr \<Rightarrow> addr \<Rightarrow> 'a ntfs_info \<Rightarrow> 'a tok_st_scheme \<Rightarrow> (addr \<times> 'a tok_st_scheme) option" where
  "bl_ntfs_read_child_node env entry mft_dir info s =
     (if entry_flags (mem s) entry AND BL_NTFS_INDEX_ENTRY_PARENT = 0 then Some (0, s)
      else bl_ntfs_get_mft_record_attribute env mft_dir BL_NTFS_ATTR_INDEX_ALLOCATION
             (Some (bl_ntfs_get_child_vcn (mem s) entry, info)) s)"

subsection \<open>Looking up a name in a directory\<close>

text \<open>
  The loop over the index entries: \<open>index\<close> is the node read last (0 for the root node, which
  is in the MFT record). It ends at the matching entry, or with 0.
\<close>

definition ntfs_descend :: "'a ntfs_env \<Rightarrow> 'a ntfs_info \<Rightarrow> addr \<Rightarrow> addr \<Rightarrow> addr \<Rightarrow> 'a tok_st_scheme \<Rightarrow> (addr \<times> 'a tok_st_scheme) option" where
  "ntfs_descend env info mft_dir entry index s = do {
     (child, s1) \<leftarrow> bl_ntfs_read_child_node env entry mft_dir info s;
     Some (child, if child \<noteq> 0 \<and> index \<noteq> 0
       then bl_heap_free s1 index (iroot_index_record_size (mem s1) (nt_iroot info)) else s1) }"

partial_function (option) index_loop :: "'a ntfs_env \<Rightarrow> 'a ntfs_info \<Rightarrow> addr \<Rightarrow> addr \<Rightarrow> addr \<Rightarrow> addr \<Rightarrow> 'a tok_st_scheme \<Rightarrow>
    (addr \<times> addr \<times> 'a tok_st_scheme) option" where
  "index_loop env info mft_dir name entry index s =
     (let flags = entry_flags (mem s) entry;
          parent = flags AND BL_NTFS_INDEX_ENTRY_PARENT \<noteq> 0;
          last_entry = flags AND BL_NTFS_INDEX_ENTRY_LAST_ENTRY \<noteq> 0;
          res = bl_ntfs_strcmp (mem s) name (entry_data entry)
      in if parent \<and> (last_entry \<or> res < 0) then do {
           (child, s1) \<leftarrow> ntfs_descend env info mft_dir entry index s;
           if child = 0 then Some (0, 0, s1)
           else index_loop env info mft_dir name (bl_ntfs_ialloc_get_first_entry (mem s1) child) child s1 }
         else if \<not> parent \<and> last_entry then Some (0, index, s)
         else if res = 0 then Some (entry, index, s)
         else index_loop env info mft_dir name (bl_ntfs_get_next_entry (mem s) entry) index s)"

text \<open>A C string's bytes, for the print callback.\<close>

definition c_string :: "mem \<Rightarrow> addr \<Rightarrow> u8 list option" where
  "c_string m p = map_option (\<lambda>n. mem_get m p (unat n)) (bl_strlen m p)"

definition free_if :: "addr \<Rightarrow> u32 \<Rightarrow> 'a heap_st_scheme \<Rightarrow> 'a heap_st_scheme" where
  "free_if p sz s = (if p \<noteq> 0 then bl_heap_free s p sz else s)"

text \<open>The part after the label \<open>_match\<close>: the status, the new node, and the record's buffer.\<close>

definition ntfs_match :: "'a ntfs_env \<Rightarrow> 'a ntfs_info \<Rightarrow> bool \<Rightarrow> addr \<Rightarrow> 'a tok_st_scheme \<Rightarrow>
    (bl_status \<times> 'a ntfs_file_data tree_node option \<times> addr \<times> 'a tok_st_scheme) option" where
  "ntfs_match env info directory entry s =
     (let filename = entry_data entry
      in if directory \<and> BL_NTFS_IS_DIRECTORY (mem s) filename = 0 then Some (BL_STATUS_INVALID_FILE_TYPE, None, 0, s)
      else do {
        (node, s1) \<leftarrow> bl_heap_alloc s sizeof_tree_node;
        if node = 0 then Some (BL_STATUS_MEMORY_ALLOCATION_FAILED, None, 0, s1)
        else do {
          (fd, s2) \<leftarrow> bl_heap_alloc s1 sizeof_ntfs_file_data;
          if fd = 0 then Some (BL_STATUS_MEMORY_ALLOCATION_FAILED, None, 0, bl_heap_free s2 node sizeof_tree_node)
          else do {
            (rec, s3) \<leftarrow> bl_heap_alloc s2 (ucast (nt_mft_record_size info));
            if rec = 0 then
              Some (BL_STATUS_MEMORY_ALLOCATION_FAILED, None, 0,
                bl_heap_free (bl_heap_free s3 fd sizeof_ntfs_file_data) node sizeof_tree_node)
            else do {
              (status, s4) \<leftarrow> bl_ntfs_read_mft info rec (entry_undefined (mem s3) entry) s3;
              if failed status then
                Some (status, None, rec, bl_heap_free (bl_heap_free s4 fd sizeof_ntfs_file_data) node sizeof_tree_node)
              else do {
                (iroot, s5) \<leftarrow> (if BL_NTFS_IS_DIRECTORY (mem s4) filename \<noteq> 0
                   then bl_ntfs_get_mft_record_attribute env rec BL_NTFS_ATTR_INDEX_ROOT None s4 else Some (0, s4));
                Some (BL_STATUS_SUCCESS,
                  Some (node, \<lparr>nf_addr = fd, nf_dir = BL_NTFS_IS_DIRECTORY (mem s2) filename, nf_iroot = iroot, nf_rootdir = False,
                    nf_mft_record = rec, nf_info = info\<rparr>), rec, s5) } } } } })"

definition bl_ntfs_iterate_directory_callback :: "'a ntfs_env \<Rightarrow> ('a ntfs_file_data, 'a) dir_callback" where
  "bl_ntfs_iterate_directory_callback env name directory fdata s =
     (if nf_dir fdata = 0 then Some (BL_STATUS_INVALID_FILE_TYPE, None, s)
      else let info = nf_info fdata
      in do {
        (entry, index, s1) \<leftarrow> index_loop env info (nf_mft_record fdata) name (bl_ntfs_iroot_get_first_entry (mem s) (nf_iroot fdata)) 0 s;
        (status, node, rec, s2) \<leftarrow>
          (if entry = 0 then do {
             str \<leftarrow> c_string (mem s1) name;
             Some (BL_STATUS_FILE_NOT_FOUND, None, 0,
               bl_print_str (ne_print env) (ascii '' - File not found'' @ [0xa]) (bl_print_str (ne_print env) str s1)) }
           else ntfs_match env info directory entry s1);
        let s3 = free_if rec (ucast (nt_mft_record_size info)) s2;
        Some (status, node, free_if index (iroot_index_record_size (mem s3) (nt_iroot info)) s3) })"

subsection \<open>Opening and closing\<close>

definition bl_ntfs_close :: "('a ntfs_file_data, 'a) fs_close" where
  "bl_ntfs_close fdata s =
     (let s1 = (if \<not> nf_rootdir fdata then bl_heap_free s (nf_mft_record fdata) (ucast (nt_mft_record_size (nf_info fdata))) else s)
      in Some (BL_STATUS_SUCCESS, s1\<lparr>mem := snd (bl_memset (mem s1) (nf_addr fdata) 0 sizeof_ntfs_file_data)\<rparr>))"

definition bl_ntfs_open :: "'a ntfs_env \<Rightarrow> 'a ntfs_info \<Rightarrow> addr \<Rightarrow> 'a tok_st_scheme \<Rightarrow>
    (bl_status \<times> (addr \<times> 'a ntfs_file_data) option \<times> 'a tok_st_scheme) option" where
  "bl_ntfs_open env info path s = do {
     (root, s1) \<leftarrow> bl_heap_alloc s sizeof_tree_node;
     if root = 0 then Some (BL_STATUS_MEMORY_ALLOCATION_FAILED, None, s1)
     else do {
       (fd, s2) \<leftarrow> bl_heap_alloc s1 sizeof_ntfs_file_data;
       if fd = 0 then Some (BL_STATUS_MEMORY_ALLOCATION_FAILED, None, s2)
       else do {
         (status, fdata, s3) \<leftarrow> bl_file_iterate_path (ne_paths env) bl_ntfs_close path
            (root, \<lparr>nf_addr = fd, nf_dir = 1, nf_iroot = nt_iroot info, nf_rootdir = True, nf_mft_record = nt_mft_root info, nf_info = info\<rparr>)
            (bl_ntfs_iterate_directory_callback env) s2;
         if failed status then Some (status, None, s3)
         else do {
           (f, s4) \<leftarrow> bl_heap_alloc s3 sizeof_file;
           if f = 0 then Some (BL_STATUS_MEMORY_ALLOCATION_FAILED, None, s4)
           else do { fd1 \<leftarrow> fdata; Some (BL_STATUS_SUCCESS, Some (f, fd1), s4) } } } } }"

subsection \<open>Listing\<close>

definition bl_ntfs_dump_file_type :: "'s callback \<Rightarrow> mem \<Rightarrow> addr \<Rightarrow> 's \<Rightarrow> 's" where
  "bl_ntfs_dump_file_type cb m f s =
     fold (\<lambda>(flag, str). if fname_flags m f AND flag \<noteq> 0 then bl_print_str cb (ascii str) else id)
       [(BL_NTFS_FILE_FLAGS_SYSTEM, '' SYSTEM ''), (BL_NTFS_FILE_FLAGS_ARCHIVE, '' ARCHIVE ''),
        (BL_NTFS_FILE_FLAGS_COMPRESSED, '' COMPRESSED ''), (BL_NTFS_FILE_FLAGS_ENCRYPTED, '' ENCRYPTED ''),
        (BL_NTFS_FILE_FLAGS_DIRECTORY, '' DIRECTORY '')] s"

definition IS_LEAP_YEAR :: "u32 \<Rightarrow> bool" where
  "IS_LEAP_YEAR yy \<longleftrightarrow> (yy mod 4 = 0 \<and> yy mod 100 \<noteq> 0) \<or> yy mod 400 = 0"

partial_function (option) year_loop :: "u64 \<Rightarrow> u64 \<Rightarrow> u32 \<Rightarrow> (u64 \<times> u32) option" where
  "year_loop days d yy =
     (let d1 = d + (if IS_LEAP_YEAR yy then 366 else 365)
      in if d1 > days then Some (d1, yy) else year_loop days d1 (yy + 1))"

definition month_lengths :: "u32 \<Rightarrow> u64 list" where
  "month_lengths yy = [31, if IS_LEAP_YEAR yy then 29 else 28, 31, 30, 31, 30, 31, 31, 30, 31, 30, 31]"

text \<open>The loop over the months, \<open>left\<close> is \<open>(bl_uint32_t)(d - days)\<close>, \<open>n\<close> the rounds left; at
  \<open>i = 0\<close> the test fails, since \<open>left\<close> is positive.\<close>

fun month_loop :: "'s callback \<Rightarrow> u64 list \<Rightarrow> u32 \<Rightarrow> nat \<Rightarrow> nat \<Rightarrow> u64 \<Rightarrow> 's \<Rightarrow> 's" where
  "month_loop cb ml left 0 i mmdd s = s"
| "month_loop cb ml left (Suc n) i mmdd s =
     (if mmdd \<ge> ucast left then
        bl_print_str cb (ascii '','') (bl_print_decimal cb (ucast (ucast left - (mmdd - ml ! (i - 1))))
          (bl_print_str cb (ascii ''/'') (bl_print_decimal cb (of_nat (i + 1)) s)))
      else month_loop cb ml left n (i + 1) (mmdd + ml ! i) s)"

definition bl_ntfs_dump_file_time :: "'s callback \<Rightarrow> u64 \<Rightarrow> 's \<Rightarrow> 's option" where
  "bl_ntfs_dump_file_time cb time s =
     (let (secs, ns) = bl_divmod64 time 10000000; (days, hhmmss) = bl_divmod64 secs 86400
      in do {
        (d, yy) \<leftarrow> year_loop days 0 1601;
        let s1 = bl_print_str cb (ascii ''/'') (bl_print_decimal cb yy s);
        let s2 = month_loop cb (month_lengths yy) (ucast (d - days)) 12 0 0 s1;
        let h = (ucast hhmmss :: u32);
        let s3 = bl_print_str cb (ascii '':'') (bl_print_decimal cb (h div 3600) s2);
        let s4 = bl_print_str cb (ascii '':'') (bl_print_decimal cb ((h mod 3600) div 60) s3);
        let s5 = bl_print_str cb (ascii ''.'') (bl_print_decimal cb (h mod 60) s4);
        Some (bl_print_decimal64 cb ns s5) })"

definition bl_ntfs_dump_file_info :: "'a ntfs_env \<Rightarrow> addr \<Rightarrow> 'a tok_st_scheme \<Rightarrow> 'a tok_st_scheme option" where
  "bl_ntfs_dump_file_info env filename s =
     (let cb = ne_print env;
          s1 = bl_ntfs_print_filename cb (mem s) filename (bl_print_str cb (ascii ''[-] '') s);
          s2 = bl_print_str cb (ascii ''C: '') (bl_ntfs_dump_file_type cb (mem s) filename s1)
      in do {
        s3 \<leftarrow> bl_ntfs_dump_file_time cb (fname_creation_time (mem s) filename) s2;
        Some (bl_print_str cb [0xa] s3) })"

partial_function (option) bl_ntfs_b_tree_recursion :: "'a ntfs_env \<Rightarrow> addr \<Rightarrow> 'a ntfs_info \<Rightarrow> addr \<Rightarrow> 'a tok_st_scheme \<Rightarrow>
    'a tok_st_scheme option" where
  "bl_ntfs_b_tree_recursion env mft_dir info entry s =
     (if entry_flags (mem s) entry AND BL_NTFS_INDEX_ENTRY_PARENT \<noteq> 0 then do {
        (index, s1) \<leftarrow> bl_ntfs_read_child_node env entry mft_dir info s;
        if index = 0 then Some s1
        else bl_ntfs_b_tree_recursion env mft_dir info (bl_ntfs_ialloc_get_first_entry (mem s1) index) s1 }
      else if entry_flags (mem s) entry AND BL_NTFS_INDEX_ENTRY_LAST_ENTRY \<noteq> 0 then Some s
      else do {
        s1 \<leftarrow> bl_ntfs_dump_file_info env (entry_data entry) s;
        bl_ntfs_b_tree_recursion env mft_dir info (bl_ntfs_get_next_entry (mem s1) entry) s1 })"

definition bl_ntfs_ls :: "'a ntfs_env \<Rightarrow> 'a ntfs_file_data \<Rightarrow> 'a tok_st_scheme \<Rightarrow> (bl_status \<times> 'a tok_st_scheme) option" where
  "bl_ntfs_ls env fdata s = do {
     s2 \<leftarrow> (if nf_dir fdata \<noteq> 0 then
         bl_ntfs_b_tree_recursion env (nf_mft_record fdata) (nf_info fdata) (bl_ntfs_iroot_get_first_entry (mem s) (nf_iroot fdata)) s
       else do {
         (f, s1) \<leftarrow> bl_ntfs_get_mft_record_attribute env (nf_mft_record fdata) BL_NTFS_ATTR_FILE_NAME None s;
         bl_ntfs_dump_file_info env f s1 });
     Some (BL_STATUS_SUCCESS, s2) }"

subsection \<open>Mounting\<close>

text \<open>\<open>clusters\<close> is signed: a positive count of clusters, or the negated logarithm of a size in
  bytes (\<open>1 << n\<close> in a 32-bit \<open>int\<close>, count modulo 32); the field stored into has 16 bits.\<close>

definition ntfs_record_size :: "u8 \<Rightarrow> u32 \<Rightarrow> u16" where
  "ntfs_record_size c cluster_size =
     (if sint c > 0 then ucast (ucast c * cluster_size) else ucast (push_bit (nat (- sint c mod 32)) 1 :: u32))"

definition bl_ntfs_check_ntfs :: "'a ntfs_env \<Rightarrow> 'a tok_st_ext device \<Rightarrow> bl_partition \<Rightarrow> addr \<Rightarrow> 'a tok_st_scheme \<Rightarrow>
    (bl_status \<times> 'a ntfs_info option \<times> 'a tok_st_scheme) option" where
  "bl_ntfs_check_ntfs env disk prt a s = do {
     (status, bytes, s1) \<leftarrow> bl_storage_device_read disk (lba prt) sizeof_ntfs_vbr 0 s;
     if failed status then Some (status, None, s1)
     else let vbr = rd_ntfs_vbr bytes
     in if vbr_oem vbr \<noteq> BL_NTFS_OEM \<or> vbr_signature vbr \<noteq> BL_MBR_SIGNATURE \<or>
           bl_log2 (ucast (bytes_per_sector vbr)) = -1 \<or> bl_log2 (ucast (sectors_per_cluster vbr)) = -1
     then Some (BL_STATUS_INVALID_FILE_SYSTEM, None, s1)
     else let cluster_size = ucast (sectors_per_cluster vbr) * ucast (bytes_per_sector vbr) :: u32;
              info0 = \<lparr>nt_addr = a, nt_lba = lba prt, nt_disk = disk, nt_sector_size = bytes_per_sector vbr,
                nt_cluster_size = cluster_size, nt_mft_lba = 0,
                nt_mft_record_size = ntfs_record_size (clusters_per_mft_record vbr) cluster_size, nt_mft_root = 0, nt_iroot = 0\<rparr>;
              info1 = info0\<lparr>nt_mft_lba := bl_ntfs_lcn_to_lba info0 (mft_lcn vbr)\<rparr>
     in do {
       (rec, s2) \<leftarrow> bl_heap_alloc s1 (ucast (nt_mft_record_size info1));
       let info2 = info1\<lparr>nt_mft_root := rec\<rparr>;
       if rec = 0 then Some (BL_STATUS_MEMORY_ALLOCATION_FAILED, None, s2)
       else do {
         (status2, s3) \<leftarrow> bl_ntfs_read_mft info2 rec BL_NTFS_FILE_ROOT s2;
         if failed status2 then Some (status2, None, s3)
         else do {
           (iroot, s4) \<leftarrow> bl_ntfs_get_mft_record_attribute env rec BL_NTFS_ATTR_INDEX_ROOT None s3;
           if iroot = 0 \<or> iroot_attribute_type (mem s4) iroot \<noteq> BL_NTFS_ATTR_FILE_NAME
           then Some (BL_STATUS_UNSUPPORTED, None, s4)
           else Some (BL_STATUS_SUCCESS, Some (info2\<lparr>nt_iroot := iroot\<rparr>), s4) } } } }"

definition bl_ntfs_mount :: "'a ntfs_env \<Rightarrow> 'a tok_st_ext device \<Rightarrow> bl_partition \<Rightarrow> 'a tok_st_scheme \<Rightarrow>
    (bl_status \<times> 'a ntfs_info option \<times> 'a tok_st_scheme) option" where
  "bl_ntfs_mount env disk prt s = do {
     (a, s1) \<leftarrow> bl_heap_alloc s sizeof_ntfs_info;
     if a = 0 then Some (BL_STATUS_MEMORY_ALLOCATION_FAILED, None, s1)
     else bl_ntfs_check_ntfs env disk prt a s1 }"

definition bl_ntfs_umount :: "'a ntfs_info \<Rightarrow> 'a tok_st_scheme \<Rightarrow> (bl_status \<times> 'a tok_st_scheme) option" where
  "bl_ntfs_umount info s =
     (let s1 = free_if (nt_mft_root info) (ucast (nt_mft_record_size info)) s
      in Some (BL_STATUS_SUCCESS, s1\<lparr>mem := snd (bl_memset (mem s1) (nt_addr info) 0 sizeof_ntfs_info)\<rparr>))"

definition bl_ntfs_fs :: "'a ntfs_env \<Rightarrow> ('a ntfs_info, 'a ntfs_file_data, 'a) bl_fs" where
  "bl_ntfs_fs env = \<lparr>fs_mount = Some (bl_ntfs_mount env), fs_umount = Some bl_ntfs_umount, fs_open = Some (bl_ntfs_open env),
     fs_close = Some bl_ntfs_close, fs_ls = Some (bl_ntfs_ls env)\<rparr>"

definition ntfs_module_init :: "'a ntfs_env \<Rightarrow> ('a ntfs_info, 'a ntfs_file_data, 'a) fs_st \<Rightarrow> ('a ntfs_info, 'a ntfs_file_data, 'a) fs_st" where
  "ntfs_module_init env st = bl_fs_register (bl_ntfs_fs env) st"

subsection \<open>Clusters and data runs\<close>

lemma lcn_to_lba_scaled:
  assumes "nt_cluster_size info div ucast (nt_sector_size info) = 2 ^ k" "k < 32"
  shows "bl_ntfs_lcn_to_lba info lcn = nt_lba info + 2 ^ k * lcn"
  using assms by (simp add: bl_ntfs_lcn_to_lba_def shl64_def bl_log2_power2 push_bit_eq_mult mult.commute)

lemma le_nat_append: "le_nat (xs @ ys) = le_nat xs + 256 ^ length xs * le_nat ys"
  by (induction xs) (simp_all add: algebra_simps)

lemma ld64_low_bytes:
  assumes "k \<le> 8" shows "unat (ld64 m p) mod 256 ^ k = le_nat (mem_get m p k)"
proof -
  have "mem_get m p 8 = mem_get m p k @ mem_get m (p + of_nat k) (8 - k)"
    using mem_get_add [of m p k "8 - k"] assms by simp
  moreover have "unat (ld64 m p) = le_nat (mem_get m p 8)"
    using le_nat_bound [of "mem_get m p 8"] by (simp add: ld64_def unat_of_nat_eq)
  ultimately have "unat (ld64 m p) mod 256 ^ k = le_nat (mem_get m p k) mod 256 ^ k"
    by (simp add: le_nat_append)
  then show ?thesis using le_nat_bound [of "mem_get m p k"] by simp
qed

text \<open>From one to three bytes \<open>read_bytes\<close> reads a little-endian number.\<close>

lemma read_bytes_value:
  assumes "1 \<le> unat len" "unat len \<le> 3"
  shows "unat (bl_ntfs_read_bytes m p len) = le_nat (mem_get m p (unat len))"
proof -
  have l: "unat len \<in> {1, 2, 3}" using assms by auto
  then have "len \<in> {1, 2, 3}" by (auto simp: word_unat_eq_iff)
  then have "bl_ntfs_read_bytes m p len = ld64 m p AND mask (8 * unat len)"
    by (auto simp: bl_ntfs_read_bytes_def mask_eq_exp_minus_1)
  then have "unat (bl_ntfs_read_bytes m p len) = unat (ld64 m p) mod 2 ^ (8 * unat len)" by (simp add: and_mask_unat)
  also have "(2::nat) ^ (8 * unat len) = 256 ^ unat len" by (simp add: power_mult)
  finally show ?thesis using ld64_low_bytes [of "unat len" m p] assms by simp
qed

lemma read_bytes_four: "bl_ntfs_read_bytes m p 4 = 0"
  by (simp add: bl_ntfs_read_bytes_def)

text \<open>A data run: the sizes of the two numbers, the length and the offset in clusters.\<close>

datatype run = Run (run_lsize: nat) (run_osize: nat) (run_len: nat) (run_delta: nat)

definition run_ok :: "run \<Rightarrow> bool" where
  "run_ok r \<longleftrightarrow> run_lsize r \<in> {1, 2, 3} \<and> run_osize r \<in> {1, 2, 3} \<and> 0 < run_len r \<and> run_len r < 256 ^ run_lsize r \<and> run_delta r < 256 ^ run_osize r"

fun encode_runs :: "run list \<Rightarrow> u8 list" where
  "encode_runs [] = [0]"
| "encode_runs (r # rs) = of_nat (run_lsize r + 16 * run_osize r) # to_le (run_lsize r) (run_len r) @ to_le (run_osize r) (run_delta r) @ encode_runs rs"

text \<open>The cluster that holds cluster \<open>v\<close> of the stream.\<close>

fun runs_lookup :: "run list \<Rightarrow> nat \<Rightarrow> nat \<Rightarrow> nat option" where
  "runs_lookup [] base v = None"
| "runs_lookup (r # rs) base v =
     (if v < run_len r then Some (base + run_delta r + v) else runs_lookup rs (base + run_delta r) (v - run_len r))"

text \<open>The first clusters of the runs after the first.\<close>

fun run_starts :: "run list \<Rightarrow> nat \<Rightarrow> nat set" where
  "run_starts [] n = {}"
| "run_starts (r # rs) n = insert (n + run_len r) (run_starts rs (n + run_len r))"

lemma unat_eqD: "unat x = n \<Longrightarrow> x = of_nat n" "unat x = n \<Longrightarrow> ucast x = of_nat n" for x :: "'a::len word"
  by auto

lemma run_header:
  assumes "run_ok r" "c = (of_nat (run_lsize r + 16 * run_osize r) :: u8)"
  shows "c \<noteq> 0" "unat (c AND 0x7) = run_lsize r" "unat (drop_bit 4 c AND 0x7) = run_osize r"
  using assms by (auto simp: run_ok_def)

lemma mem_get_split:
  "mem_get m p (length xs + n) = xs @ ys \<Longrightarrow> length ys = n \<Longrightarrow> mem_get m p (length xs) = xs \<and> mem_get m (p + of_nat (length xs)) n = ys"
  by (simp add: mem_get_add)

lemma run_decode:
  assumes "run_ok r" "mem_get m p (length (encode_runs (r # rs))) = encode_runs (r # rs)"
  shows "m p \<noteq> 0" "unat (bl_ntfs_read_bytes m (p + 1) (m p AND 0x7)) = run_len r"
    "unat (bl_ntfs_read_bytes m (p + 1 + ucast (m p AND 0x7)) (drop_bit 4 (m p) AND 0x7)) = run_delta r"
    "mem_get m (p + 1 + ucast (m p AND 0x7) + ucast (drop_bit 4 (m p) AND 0x7)) (length (encode_runs rs)) = encode_runs rs"
proof -
  have h: "m p = of_nat (run_lsize r + 16 * run_osize r)"
    and t: "mem_get m (p + 1) (run_lsize r + (run_osize r + length (encode_runs rs))) =
      to_le (run_lsize r) (run_len r) @ to_le (run_osize r) (run_delta r) @ encode_runs rs"
    using assms(2) by (simp_all add: mem_get_Suc add.assoc)
  note H = run_header [OF assms(1) h]
  show "m p \<noteq> 0" by (rule H(1))
  have u: "(ucast (m p AND 0x7) :: u32) = of_nat (run_lsize r)" "(ucast (drop_bit 4 (m p) AND 0x7) :: u32) = of_nat (run_osize r)"
    using unat_eqD(2) [OF H(2)] unat_eqD(2) [OF H(3)] by simp_all
  from t have 1: "mem_get m (p + 1) (run_lsize r) = to_le (run_lsize r) (run_len r)"
      "mem_get m (p + 1 + of_nat (run_lsize r)) (run_osize r) = to_le (run_osize r) (run_delta r)"
      "mem_get m (p + 1 + of_nat (run_lsize r) + of_nat (run_osize r)) (length (encode_runs rs)) = encode_runs rs"
    by (simp_all add: mem_get_add)
  have ok: "1 \<le> run_lsize r" "run_lsize r \<le> 3" "1 \<le> run_osize r" "run_osize r \<le> 3" "run_len r < 256 ^ run_lsize r"
      "run_delta r < 256 ^ run_osize r"
    using assms(1) by (auto simp: run_ok_def)
  show "unat (bl_ntfs_read_bytes m (p + 1) (m p AND 0x7)) = run_len r"
    using read_bytes_value [of "m p AND 0x7" m "p + 1"] ok H(2) 1(1) by (simp add: le_nat_to_le)
  show "unat (bl_ntfs_read_bytes m (p + 1 + ucast (m p AND 0x7)) (drop_bit 4 (m p) AND 0x7)) = run_delta r"
    using read_bytes_value [of "drop_bit 4 (m p) AND 0x7" m] ok H(3) 1(2) by (simp add: le_nat_to_le u)
  show "mem_get m (p + 1 + ucast (m p AND 0x7) + ucast (drop_bit 4 (m p) AND 0x7)) (length (encode_runs rs)) = encode_runs rs"
    using 1(3) by (simp only: u)
qed

lemma vcn_loop_runs:
  assumes "\<forall>r \<in> set rs. run_ok r" "mem_get m p (length (encode_runs rs)) = encode_runs rs"
    "n + sum_list (map run_len rs) < 2 ^ 63" "b + sum_list (map run_delta rs) < 2 ^ 63"
    "n \<le> v" "v < 2 ^ 63" "v \<notin> run_starts rs n"
  shows "vcn_loop m p (of_nat v) (of_nat n) (of_nat b) = Some (case runs_lookup rs b (v - n) of None \<Rightarrow> -1 | Some l \<Rightarrow> of_nat l)"
  using assms
proof (induction rs arbitrary: p n b)
  case Nil
  then show ?case by (subst vcn_loop.simps) (simp add: mem_get_Suc)
next
  case (Cons r rs)
  have ok: "run_ok r" using Cons.prems(1) by simp
  note D = run_decode [OF ok Cons.prems(2)]
  let ?l = "bl_ntfs_read_bytes m (p + 1) (m p AND 0x7)"
  have l: "?l = of_nat (run_len r)" "bl_ntfs_read_bytes m (p + 1 + ucast (m p AND 0x7)) (drop_bit 4 (m p) AND 0x7) = of_nat (run_delta r)"
    using unat_eqD(1) [OF D(2)] unat_eqD(1) [OF D(3)] by simp_all
  have b: "n + run_len r < 2 ^ 63" "b + run_delta r < 2 ^ 63" using Cons.prems(3,4) by simp_all
  have le: "(of_nat v :: u64) \<le> of_nat n + of_nat (run_len r) \<longleftrightarrow> v \<le> n + run_len r"
  proof -
    have "unat (of_nat v :: u64) = v" "unat (of_nat (n + run_len r) :: u64) = n + run_len r"
      using b Cons.prems(6) by (intro unat_of_nat_eq; simp)+
    then show ?thesis by (simp add: word_le_nat_alt)
  qed
  show ?case
  proof (cases "v < n + run_len r")
    case True
    then have "v - n < run_len r" using Cons.prems(5) by simp
    moreover have "(of_nat (b + run_delta r + (v - n)) :: u64) = of_nat b + of_nat (run_delta r) + of_nat v - of_nat n"
      using Cons.prems(5) by (simp add: of_nat_diff)
    ultimately show ?thesis
      using True D(1) l le by (subst vcn_loop.simps) (simp add: Let_def)
  next
    case False
    then have F: "n + run_len r \<le> v" "\<not> v \<le> n + run_len r" "\<not> v - n < run_len r" using Cons.prems(7) by auto
    have "vcn_loop m (p + 1 + ucast (m p AND 0x7) + ucast (drop_bit 4 (m p) AND 0x7)) (of_nat v) (of_nat (n + run_len r)) (of_nat (b + run_delta r)) =
        Some (case runs_lookup rs (b + run_delta r) (v - (n + run_len r)) of None \<Rightarrow> -1 | Some l \<Rightarrow> of_nat l)"
      using Cons.prems F(1) by (intro Cons.IH D(4)) auto
    then show ?thesis using F Cons.prems(5) D(1) l le by (subst vcn_loop.simps) (simp add: Let_def)
  qed
qed

lemma vcn_to_lcn_runs:
  assumes "\<forall>r \<in> set rs. run_ok r" "mem_get m (attr + ucast (attr_data_run_offset m attr)) (length (encode_runs rs)) = encode_runs rs"
    "sum_list (map run_len rs) < 2 ^ 63" "sum_list (map run_delta rs) < 2 ^ 63" "v < 2 ^ 48" "v \<notin> run_starts rs 0"
  shows "bl_ntfs_vcn_to_lcn m attr (of_nat v) = Some (case runs_lookup rs 0 v of None \<Rightarrow> -1 | Some l \<Rightarrow> of_nat l)"
proof -
  have "unat (of_nat v :: u64) = v" using assms(5) by (intro unat_of_nat_eq) simp
  then have "unat (MFT_RECORD (of_nat v)) = v"
    using assms(5) and_mask_unat [of "of_nat v :: u64" 48] by (simp add: MFT_RECORD_def mask_eq_exp_minus_1)
  then have "MFT_RECORD (of_nat v) = of_nat v" by (rule unat_eqD(1))
  then show ?thesis
    using vcn_loop_runs [OF assms(1,2), of 0 0 v] assms(3-6) by (simp add: bl_ntfs_vcn_to_lcn_def)
qed

text \<open>At the first cluster of the second run the code stays in the first one.\<close>

lemma vcn_second_run:
  assumes "run_ok r" "mem_get m (attr + ucast (attr_data_run_offset m attr)) (length (encode_runs (r # rs))) = encode_runs (r # rs)"
    "run_len r < 2 ^ 24"
  shows "bl_ntfs_vcn_to_lcn m attr (of_nat (run_len r)) = Some (of_nat (run_delta r + run_len r))"
proof -
  let ?p = "attr + ucast (attr_data_run_offset m attr)" and ?v = "of_nat (run_len r) :: u64"
  note D = run_decode [OF assms(1,2)]
  have u: "unat ?v = run_len r" using assms(3) by (intro unat_of_nat_eq) simp
  then have "unat (MFT_RECORD ?v) = run_len r"
    using assms(3) and_mask_unat [of ?v 48] by (simp add: MFT_RECORD_def mask_eq_exp_minus_1)
  then have "MFT_RECORD ?v = ?v" by (rule unat_eqD(1))
  moreover have "bl_ntfs_read_bytes m (?p + 1) (m ?p AND 0x7) = ?v" "bl_ntfs_read_bytes m (?p + 1 + ucast (m ?p AND 0x7)) (drop_bit 4 (m ?p) AND 0x7) = of_nat (run_delta r)"
    using unat_eqD(1) [OF D(2)] unat_eqD(1) [OF D(3)] by simp_all
  ultimately show ?thesis
    using D(1) by (simp add: bl_ntfs_vcn_to_lcn_def vcn_loop.simps [of m ?p] Let_def)
qed

subsection \<open>Names\<close>

definition fname_bytes :: "mem \<Rightarrow> addr \<Rightarrow> u8 list" where
  "fname_bytes m f = map (\<lambda>i. fname_char m f (of_nat i)) [0..<unat (fname_length m f)]"

definition upper :: "u8 list \<Rightarrow> int list" where
  "upper w = map (\<lambda>c. bl_toupper (sint c)) w"

lemma upper_zero: "bl_toupper (sint (c::u8)) = 0 \<longleftrightarrow> c = 0"
  using sint_eq_0 [of c] by (auto simp: bl_toupper_def)

lemma ntfs_strcmp_loop_zero:
  assumes "unat len = Suc n"
  shows "ntfs_strcmp_loop m name f i len = 0 \<longleftrightarrow>
    (\<forall>k \<le> n. bl_toupper (sint (m (name + i + of_nat k))) = bl_toupper (sint (fname_char m f (i + of_nat k))))"
  using assms
proof (induction n arbitrary: i len)
  case 0
  then have "len = 1" by (simp add: word_unat_eq_iff)
  then show ?case by (subst ntfs_strcmp_loop.simps) simp
next
  case (Suc n)
  have n0: "len \<noteq> 0" "len \<noteq> 1" using Suc.prems by auto
  have "unat (len - 1) = Suc n" using Suc.prems n0 by (simp add: unat_minus_one)
  note IH = Suc.IH [OF this, of "i + 1"]
  have split: "(\<forall>k \<le> Suc n. P k) \<longleftrightarrow> P 0 \<and> (\<forall>k \<le> n. P (Suc k))" for P :: "nat \<Rightarrow> bool"
    by (metis Suc_le_mono le0 not0_implies_Suc)
  let ?P = "\<lambda>k. bl_toupper (sint (m (name + i + of_nat k))) = bl_toupper (sint (fname_char m f (i + of_nat k)))"
  have IH': "ntfs_strcmp_loop m name f (i + 1) (len - 1) = 0 \<longleftrightarrow> (\<forall>k \<le> n. ?P (Suc k))"
    by (subst IH) (simp add: algebra_simps)
  have "ntfs_strcmp_loop m name f i len = 0 \<longleftrightarrow> ?P 0 \<and> ntfs_strcmp_loop m name f (i + 1) (len - 1) = 0"
    using n0 by (subst ntfs_strcmp_loop.simps) auto
  then show ?case unfolding IH' split [of ?P] .
qed

text \<open>The comparison succeeds when the entry's name is a prefix of the name, up to case.\<close>

lemma ntfs_strcmp_prefix:
  assumes "cstr m name w" "fname_length m f \<noteq> 0" "0 \<notin> set (fname_bytes m f)"
  shows "bl_ntfs_strcmp m name f = 0 \<longleftrightarrow>
    length (fname_bytes m f) \<le> length w \<and> upper (take (length (fname_bytes m f)) w) = upper (fname_bytes m f)"
proof -
  let ?n = "unat (fname_length m f)"
  obtain n where n: "?n = Suc n" using assms(2) by (metis not0_implies_Suc unat_eq_zero)
  have len: "length (fname_bytes m f) = Suc n" by (simp add: fname_bytes_def n)
  have nz: "fname_char m f (of_nat k) \<noteq> 0" if "k \<le> n" for k
    using assms(3) that unfolding fname_bytes_def n by (metis (no_types, lifting) image_eqI less_Suc_eq_le list.set_map atLeast_upt lessThan_iff)
  have w: "m (name + of_nat k) = (w @ [0]) ! k" if "k \<le> length w" for k
    using assms(1) that nth_mem_get [of k "Suc (length w)" m name] by (simp add: cstr_mem_get)
  have "bl_ntfs_strcmp m name f = 0 \<longleftrightarrow>
      (\<forall>k \<le> n. bl_toupper (sint (m (name + of_nat k))) = bl_toupper (sint (fname_char m f (of_nat k))))"
    using ntfs_strcmp_loop_zero [OF n, of m name f 0] by (simp add: bl_ntfs_strcmp_def)
  also have "\<dots> \<longleftrightarrow> Suc n \<le> length w \<and> (\<forall>k \<le> n. bl_toupper (sint (w ! k)) = bl_toupper (sint (fname_char m f (of_nat k))))"
  proof (cases "Suc n \<le> length w")
    case True
    then show ?thesis by (auto simp: w nth_append)
  next
    case False
    then have "length w \<le> n" by simp
    then have "bl_toupper (sint (m (name + of_nat (length w)))) \<noteq> bl_toupper (sint (fname_char m f (of_nat (length w))))"
      using nz [of "length w"] upper_zero [of 0] upper_zero by (simp add: w)
    then show ?thesis using False \<open>length w \<le> n\<close> by blast
  qed
  also have "\<dots> \<longleftrightarrow> Suc n \<le> length w \<and> upper (take (Suc n) w) = upper (fname_bytes m f)"
    by (auto simp: upper_def list_eq_iff_nth_eq fname_bytes_def n less_Suc_eq_le simp del: upt_Suc)
  finally show ?thesis by (simp add: len)
qed

text \<open>A node without children, as the addresses of its entries; \<open>e\<close> is the first.\<close>

fun leaf_entries :: "mem \<Rightarrow> addr \<Rightarrow> addr list \<Rightarrow> bool" where
  "leaf_entries m e [] \<longleftrightarrow> entry_flags m e AND BL_NTFS_INDEX_ENTRY_PARENT = 0 \<and> entry_flags m e AND BL_NTFS_INDEX_ENTRY_LAST_ENTRY \<noteq> 0"
| "leaf_entries m e (x # xs) \<longleftrightarrow> x = e \<and> e \<noteq> 0 \<and> entry_flags m e AND BL_NTFS_INDEX_ENTRY_PARENT = 0 \<and>
     entry_flags m e AND BL_NTFS_INDEX_ENTRY_LAST_ENTRY = 0 \<and> leaf_entries m (bl_ntfs_get_next_entry m e) xs"

lemma index_loop_leaf:
  assumes "leaf_entries (mem s) e es"
  shows "index_loop env info mft_dir name e index s =
    Some (case find (\<lambda>x. bl_ntfs_strcmp (mem s) name (entry_data x) = 0) es of None \<Rightarrow> 0 | Some x \<Rightarrow> x, index, s)"
  using assms
proof (induction es arbitrary: e)
  case Nil
  then show ?case by (subst index_loop.simps) (simp add: Let_def)
next
  case (Cons x xs)
  then show ?case by (subst index_loop.simps) (auto simp: Let_def)
qed

subsection \<open>A successful look-up\<close>

lemma read_into_ok:
  assumes "disk_reads disk D" "heap_ok s (B + unat off + unat sz + 560) L" "unat off + unat sz + 512 \<le> 2 ^ 32" "(buf, k) \<in> L" "unat sz \<le> k"
  shows "\<exists>s'. read_into disk buf start sz off s = Some (BL_STATUS_SUCCESS, s') \<and> heap_ok s' B L \<and>
    mem_get (mem s') buf (unat sz) = disk_bytes D (512 * unat start + unat off) (unat sz) \<and>
    (\<forall>(b, j) \<in> L. b \<noteq> buf \<longrightarrow> mem_get (mem s') b j = mem_get (mem s) b j)"
proof -
  let ?d = "disk_bytes D (512 * unat start + unat off) (unat sz)"
  obtain s1 where 1: "bl_storage_device_read disk start sz off s = Some (BL_STATUS_SUCCESS, ?d, s1)" "heap_ok s1 B L"
      "\<forall>(b, j) \<in> L. mem_get (mem s1) b j = mem_get (mem s) b j"
    using storage_device_read_ok [OF assms(1-3), of start] by blast
  have len: "length ?d = unat sz" by (simp add: disk_bytes_def)
  have "heap_ok (heap_write s1 buf ?d) B L" using heap_ok_write [OF 1(2) assms(4)] assms(5) len by simp
  moreover have "mem_get (mem (heap_write s1 buf ?d)) b j = mem_get (mem s) b j" if "(b, j) \<in> L" "b \<noteq> buf" for b j
    using heap.store_keeps [OF heap_ok_live [OF 1(2)] assms(4) that(1)] that 1(3) assms(5) len by auto
  moreover have "mem_get (mem (heap_write s1 buf ?d)) buf (unat sz) = ?d"
    using unat_lt2p [of sz] mem_get_put_same [of ?d] len by (simp add: heap_write_def)
  ultimately show ?thesis
    using 1(1) by (intro exI [of _ "heap_write s1 buf ?d"]) (auto simp: read_into_def heap_write_def)
qed

text \<open>A field inside a live block is kept by what keeps the block.\<close>

lemma ld32_inside:
  assumes "mem_get m' p k = mem_get m p k" "unat p \<le> unat q" "unat q + 4 \<le> unat p + k"
  shows "ld32 m' q = ld32 m q"
  using mem_get_sub [OF assms] by (simp add: ld32_def)

lemma ntfs_match_file:
  assumes "disk_reads (nt_disk info) D" "heap_ok s (B + 2 * unat (nt_mft_record_size info) + 800) L"
    and f: "(p, k) \<in> L" "unat p \<le> unat (entry_data e + 56)" "unat (entry_data e + 56) + 4 \<le> unat p + k"
      "BL_NTFS_IS_DIRECTORY (mem s) (entry_data e) = 0"
  shows "\<exists>node k1 fd k2 rec k3 s'. ntfs_match env info False e s = Some (BL_STATUS_SUCCESS,
        Some (node, \<lparr>nf_addr = fd, nf_dir = 0, nf_iroot = 0, nf_rootdir = False, nf_mft_record = rec, nf_info = info\<rparr>), rec, s') \<and>
    rec \<noteq> 0 \<and> heap_ok s' B (insert (rec, k3) (insert (fd, k2) (insert (node, k1) L))) \<and>
    (\<forall>j. (rec, j) \<notin> insert (fd, k2) (insert (node, k1) L)) \<and> unat (nt_mft_record_size info) \<le> k3 \<and>
    (\<forall>(b, j) \<in> L. mem_get (mem s') b j = mem_get (mem s) b j)"
proof -
  let ?n = "ucast (nt_mft_record_size info) :: u32"
  have n: "unat ?n = unat (nt_mft_record_size info)" "unat ?n < 2 ^ 16"
    using unat_lt2p [of "nt_mft_record_size info"] by (simp_all add: unsigned_ucast_eq take_bit_eq_mod)
  have "heap_ok s ((B + 2 * unat ?n + 676) + unat sizeof_tree_node + 48) L"
    by (rule heap_ok_mono [OF assms(2)]) (simp add: n(1) sizeof_tree_node_def)
  from heap_ok_alloc [OF this] obtain node s1 where
    1: "bl_heap_alloc s sizeof_tree_node = Some (node, s1)" "node \<noteq> 0" "heap_ok s1 (B + 2 * unat ?n + 676) (insert (node, block_size s1 node) L)"
      "\<forall>k. (node, k) \<notin> L" "\<forall>(b, k) \<in> L. mem_get (mem s1) b k = mem_get (mem s) b k" by blast
  let ?L1 = "insert (node, block_size s1 node) L"
  have "heap_ok s1 ((B + 2 * unat ?n + 608) + unat sizeof_ntfs_file_data + 48) ?L1"
    by (rule heap_ok_mono [OF 1(3)]) (simp add: sizeof_ntfs_file_data_def)
  from heap_ok_alloc [OF this] obtain fd s2 where
    2: "bl_heap_alloc s1 sizeof_ntfs_file_data = Some (fd, s2)" "fd \<noteq> 0" "heap_ok s2 (B + 2 * unat ?n + 608) (insert (fd, block_size s2 fd) ?L1)"
      "\<forall>k. (fd, k) \<notin> ?L1" "\<forall>(b, k) \<in> ?L1. mem_get (mem s2) b k = mem_get (mem s1) b k" by blast
  let ?L2 = "insert (fd, block_size s2 fd) ?L1"
  have "heap_ok s2 ((B + unat ?n + 560) + unat ?n + 48) ?L2" by (rule heap_ok_mono [OF 2(3)]) simp
  from heap_ok_alloc [OF this] obtain rec s3 where
    3: "bl_heap_alloc s2 ?n = Some (rec, s3)" "rec \<noteq> 0" "unat ?n \<le> block_size s3 rec" "heap_ok s3 (B + unat ?n + 560) (insert (rec, block_size s3 rec) ?L2)"
      "\<forall>k. (rec, k) \<notin> ?L2" "\<forall>(b, k) \<in> ?L2. mem_get (mem s3) b k = mem_get (mem s2) b k" by blast
  let ?L3 = "insert (rec, block_size s3 rec) ?L2"
  let ?start = "bl_ntfs_mft_record_lba info (entry_undefined (mem s3) e)"
  have "heap_ok s3 (B + unat (0::u32) + unat ?n + 560) ?L3" "unat (0::u32) + unat ?n + 512 \<le> 2 ^ 32" using 3(4) n(2) by simp_all
  from read_into_ok [OF assms(1) this, of rec "block_size s3 rec" ?start] 3(3) obtain s4 where
    4: "read_into (nt_disk info) rec ?start ?n 0 s3 = Some (BL_STATUS_SUCCESS, s4)" "heap_ok s4 B ?L3"
      "\<forall>(b, j) \<in> ?L3. b \<noteq> rec \<longrightarrow> mem_get (mem s4) b j = mem_get (mem s3) b j" by auto
  have keep: "mem_get (mem s2) b j = mem_get (mem s) b j \<and> mem_get (mem s4) b j = mem_get (mem s) b j" if "(b, j) \<in> L" for b j
  proof -
    have "b \<noteq> rec" using that 3(5) by blast
    then show ?thesis using that 1(5) 2(5) 3(6) 4(3) by fastforce
  qed
  have dir: "BL_NTFS_IS_DIRECTORY (mem s2) (entry_data e) = 0" "BL_NTFS_IS_DIRECTORY (mem s4) (entry_data e) = 0"
  proof -
    note k = keep [OF f(1)]
    have "ld32 (mem s2) (entry_data e + 56) = ld32 (mem s) (entry_data e + 56)"
      by (rule ld32_inside [OF conjunct1 [OF k] f(2,3)])
    moreover have "ld32 (mem s4) (entry_data e + 56) = ld32 (mem s) (entry_data e + 56)"
      by (rule ld32_inside [OF conjunct2 [OF k] f(2,3)])
    ultimately show "BL_NTFS_IS_DIRECTORY (mem s2) (entry_data e) = 0" "BL_NTFS_IS_DIRECTORY (mem s4) (entry_data e) = 0"
      using f(4) by (simp_all add: BL_NTFS_IS_DIRECTORY_def fname_flags_def)
  qed
  have "ntfs_match env info False e s = Some (BL_STATUS_SUCCESS,
        Some (node, \<lparr>nf_addr = fd, nf_dir = 0, nf_iroot = 0, nf_rootdir = False, nf_mft_record = rec, nf_info = info\<rparr>), rec, s4)"
    using 1(1,2) 2(1,2) 3(1,2) 4(1) dir by (simp add: ntfs_match_def bl_ntfs_read_mft_def)
  moreover have "\<forall>(b, j) \<in> L. mem_get (mem s4) b j = mem_get (mem s) b j" using keep by blast
  moreover have "\<forall>j. (rec, j) \<notin> ?L2" "unat (nt_mft_record_size info) \<le> block_size s3 rec" using 3(3,5) n(1) by simp_all
  ultimately show ?thesis using 3(2) 4(2)
    by - (rule exI [of _ node], rule exI [of _ "block_size s1 node"], rule exI [of _ fd], rule exI [of _ "block_size s2 fd"],
        rule exI [of _ rec], rule exI [of _ "block_size s3 rec"], rule exI [of _ s4], intro conjI, assumption+)
qed

text \<open>
  The whole callback, for a file in a directory whose index has one node: the node returned
  refers to the record at \<open>rec\<close>, and the block at \<open>rec\<close> has been released.
\<close>

lemma callback_file:
  assumes "nf_dir fdata \<noteq> 0" "leaf_entries (mem s) (bl_ntfs_iroot_get_first_entry (mem s) (nf_iroot fdata)) es"
    and "find (\<lambda>x. bl_ntfs_strcmp (mem s) name (entry_data x) = 0) es = Some e" "e \<noteq> 0"
    and "disk_reads (nt_disk (nf_info fdata)) D" "heap_ok s (B + 2 * unat (nt_mft_record_size (nf_info fdata)) + 800) L"
    and "(p, k) \<in> L" "unat p \<le> unat (entry_data e + 56)" "unat (entry_data e + 56) + 4 \<le> unat p + k"
      "BL_NTFS_IS_DIRECTORY (mem s) (entry_data e) = 0"
  shows "\<exists>node fd s' L'. bl_ntfs_iterate_directory_callback env name False fdata s = Some (BL_STATUS_SUCCESS, Some (node, fd), s') \<and>
    heap_ok s' B L' \<and> L \<subseteq> L' \<and> (\<exists>j. (node, j) \<in> L') \<and> (\<exists>j. (nf_addr fd, j) \<in> L') \<and> nf_rootdir fd = False \<and>
    (\<forall>j. (nf_mft_record fd, j) \<notin> L')"
proof -
  let ?info = "nf_info fdata"
  obtain node k1 fd k2 rec k3 s1 where m: "ntfs_match env ?info False e s = Some (BL_STATUS_SUCCESS,
        Some (node, \<lparr>nf_addr = fd, nf_dir = 0, nf_iroot = 0, nf_rootdir = False, nf_mft_record = rec, nf_info = ?info\<rparr>), rec, s1)"
    "rec \<noteq> 0" "heap_ok s1 B (insert (rec, k3) (insert (fd, k2) (insert (node, k1) L)))"
    "\<forall>j. (rec, j) \<notin> insert (fd, k2) (insert (node, k1) L)"
    using ntfs_match_file [OF assms(5-10), of env] by blast
  let ?L = "insert (fd, k2) (insert (node, k1) L)"
  have "insert (rec, k3) ?L - {(rec, k3)} = ?L" using m(4) by blast
  then have ok: "heap_ok (bl_heap_free s1 rec (ucast (nt_mft_record_size ?info))) B ?L"
    using heap_ok_free [OF m(3), of rec k3] by simp
  have "bl_ntfs_iterate_directory_callback env name False fdata s = Some (BL_STATUS_SUCCESS,
        Some (node, \<lparr>nf_addr = fd, nf_dir = 0, nf_iroot = 0, nf_rootdir = False, nf_mft_record = rec, nf_info = ?info\<rparr>),
        bl_heap_free s1 rec (ucast (nt_mft_record_size ?info)))"
    using index_loop_leaf [OF assms(2), of env ?info "nf_mft_record fdata" name 0] assms(1,3,4) m(1,2)
    by (simp add: bl_ntfs_iterate_directory_callback_def free_if_def Let_def)
  then show ?thesis using ok m(4) by fastforce
qed

lemma callback_not_found:
  assumes "nf_dir fdata \<noteq> 0" "leaf_entries (mem s) (bl_ntfs_iroot_get_first_entry (mem s) (nf_iroot fdata)) es"
    and "find (\<lambda>x. bl_ntfs_strcmp (mem s) name (entry_data x) = 0) es = None" "cstr (mem s) name w" "name \<noteq> 0"
  shows "\<exists>s'. bl_ntfs_iterate_directory_callback env name directory fdata s = Some (BL_STATUS_FILE_NOT_FOUND, None, s')"
  using index_loop_leaf [OF assms(2), of env "nf_info fdata" "nf_mft_record fdata" name 0] assms(1,3,4,5)
  by (simp add: bl_ntfs_iterate_directory_callback_def free_if_def Let_def c_string_def bl_strlen_cstr)

subsection \<open>Dates\<close>

fun days_to :: "nat \<Rightarrow> nat" where
  "days_to 0 = 0"
| "days_to (Suc n) = days_to n + (if IS_LEAP_YEAR (1601 + of_nat n) then 366 else 365)"

lemma days_to_bounds: "365 * n \<le> days_to n" "days_to n \<le> 366 * n"
  by (induction n) auto

text \<open>The year loop ends in the year that holds the day, with the days up to its end.\<close>

lemma year_loop_from:
  assumes "days_to n \<le> unat days" "unat days < 2 ^ 40"
  shows "\<exists>k. year_loop days (of_nat (days_to n)) (1601 + of_nat n) = Some (of_nat (days_to (Suc k)), 1601 + of_nat k) \<and>
    days_to k \<le> unat days \<and> unat days < days_to (Suc k)"
  using assms
proof (induction "unat days - days_to n" arbitrary: n rule: less_induct)
  case less
  have d: "of_nat (days_to n) + (if IS_LEAP_YEAR (1601 + of_nat n) then 366 else 365) = (of_nat (days_to (Suc n)) :: u64)" by simp
  have "days_to (Suc n) < 2 ^ 64" using less.prems by simp
  then have u: "unat (of_nat (days_to (Suc n)) :: u64) = days_to (Suc n)" by (intro unat_of_nat_eq) simp
  show ?case
  proof (cases "unat days < days_to (Suc n)")
    case True
    then have "days < of_nat (days_to (Suc n))" unfolding word_less_nat_alt u .
    then show ?thesis using True less.prems(1) unfolding year_loop.simps [of days "of_nat (days_to n)"] d Let_def by auto
  next
    case False
    then have "\<not> days < of_nat (days_to (Suc n))" unfolding word_less_nat_alt u .
    then have "year_loop days (of_nat (days_to n)) (1601 + of_nat n) = year_loop days (of_nat (days_to (Suc n))) (1601 + of_nat (Suc n))"
      unfolding year_loop.simps [of days "of_nat (days_to n)"] d Let_def by (simp add: add.commute add.left_commute)
    moreover have "unat days - days_to (Suc n) < unat days - days_to n" using False by auto
    ultimately show ?thesis using less.hyps [of "Suc n"] less.prems(2) False by (metis not_less)
  qed
qed

lemma year_loop_returns:
  assumes "unat days < 2 ^ 40"
  shows "\<exists>k. year_loop days 0 1601 = Some (of_nat (days_to (Suc k)), 1601 + of_nat k) \<and>
    days_to k \<le> unat days \<and> unat days < days_to (Suc k)"
  using year_loop_from [of 0 days] assms by simp

lemma dump_file_time_returns: "\<exists>s'. bl_ntfs_dump_file_time cb time s = Some s'"
proof -
  let ?secs = "fst (bl_divmod64 time 10000000)"
  have "unat ?secs = unat time div 10000000" by (simp add: bl_divmod64_correct unat_div_distrib)
  then have "unat (fst (bl_divmod64 ?secs 86400)) = unat time div 10000000 div 86400" by (simp add: bl_divmod64_correct unat_div_distrib)
  moreover have "unat time < 2 ^ 64" using unat_lt2p [of time] by simp
  ultimately have "unat (fst (bl_divmod64 ?secs 86400)) < 2 ^ 40" by simp
  from year_loop_returns [OF this] show ?thesis
    by (auto simp: bl_ntfs_dump_file_time_def Let_def split: prod.splits)
qed

text \<open>What is left of the year is taken for the day of the year, and one month too many is
  counted: the last 31 days of a year come out in month 2, its first ones not at all.\<close>

lemma twelve: "(12::nat) = Suc (Suc (Suc (Suc (Suc (Suc (Suc (Suc (Suc (Suc (Suc (Suc 0)))))))))))"
  by simp

lemma month_loop_last_days:
  assumes "0 < left'" "left' \<le> 31"
  shows "month_loop cb (month_lengths yy) left' 12 0 0 s =
    bl_print_str cb (ascii '','') (bl_print_decimal cb left' (bl_print_str cb (ascii ''/'') (bl_print_decimal cb 2 s)))"
proof -
  have l: "0 < unat left'" "unat left' \<le> 31" using assms by (simp_all add: word_less_nat_alt word_le_nat_alt)
  have u: "unat (ucast left' :: u64) = unat left'"
    using unat_lt2p [of left'] by (simp add: unsigned_ucast_eq take_bit_eq_mod)
  have c: "\<not> (0::u64) \<ge> ucast left'" "(31::u64) \<ge> ucast left'" using l u by (auto simp: word_le_nat_alt)
  have d: "(ucast (ucast left' :: u64) :: u32) = left'" 
  proof -
    have "(ucast (ucast left' :: u64) :: u32) = of_nat (unat (ucast left' :: u64))" by simp
    then show ?thesis unfolding u by simp
  qed
  show ?thesis unfolding twelve month_loop.simps(2) [of cb _ left' _ 0] using c d
    by (subst month_loop.simps) (simp add: month_lengths_def)
qed

lemma month_loop_first_days:
  assumes "336 \<le> left'"
  shows "month_loop cb (month_lengths yy) left' 12 0 0 s = s"
proof -
  have l: "336 \<le> unat left'" using assms by (simp add: word_le_nat_alt)
  have u: "unat (ucast left' :: u64) = unat left'"
    using unat_lt2p [of left'] by (simp add: unsigned_ucast_eq take_bit_eq_mod)
  have c: "\<not> x \<ge> ucast left'" if "unat x \<le> 335" for x :: u64 using l u that by (auto simp: word_le_nat_alt)
  have "(ucast left' :: u64) \<noteq> 0" using u l by auto
  then show ?thesis by (cases "IS_LEAP_YEAR yy") (simp_all add: twelve month_lengths_def c)
qed

end
