(* ===== verification/Bl_Ext.thy ===== *)
theory Bl_Ext
  imports Bl_Ntfs
begin

text \<open>
  The ext2/3/4 driver of src/boot-loader/modules/fs/ext/ext.c, with the structures of ext.h:
  mounting, the location and reading of inodes and blocks, and the directory callback as far
  as it is written. The group descriptors and the root's inode are heap blocks. A division
  by a zero field of the disk is a fault of the processor: no result.
\<close>

unbundle bit_operations_syntax

subsection \<open>Structures\<close>

definition BL_EXT_MAGIC :: u16 where "BL_EXT_MAGIC = 0xef53"
definition BL_EXT_SUPER_BLOCK_OFFSET :: u32 where "BL_EXT_SUPER_BLOCK_OFFSET = 0x400"
definition BL_EXT_FEATURE_INCOMPAT_EXTENTS :: u32 where "BL_EXT_FEATURE_INCOMPAT_EXTENTS = 0x40"

text \<open>\<open>1024 << log_block_size\<close> in a 32-bit \<open>int\<close>; the i386 code takes the count modulo 32.\<close>

definition BL_EXT_BLOCK_SIZE :: "u32 \<Rightarrow> u32" where
  "BL_EXT_BLOCK_SIZE log_block_size = push_bit (unat log_block_size mod 32) 1024"

record bl_ext_super_block =
  sb_blocks_count :: u32
  sb_log_block_size :: u32
  sb_blocks_per_group :: u32
  sb_inodes_per_group :: u32
  sb_magic :: u16
  sb_inode_size :: u16
  sb_feature_compat :: u32
  sb_feature_incompat :: u32
  sb_feature_ro_compat :: u32

definition rd_ext_super_block :: "u8 list \<Rightarrow> bl_ext_super_block" where
  "rd_ext_super_block bs = \<lparr>sb_blocks_count = get32 bs 4, sb_log_block_size = get32 bs 24, sb_blocks_per_group = get32 bs 32,
     sb_inodes_per_group = get32 bs 40, sb_magic = get16 bs 56, sb_inode_size = get16 bs 88, sb_feature_compat = get32 bs 92,
     sb_feature_incompat = get32 bs 96, sb_feature_ro_compat = get32 bs 100\<rparr>"

definition sizeof_ext_super_block :: u32 where "sizeof_ext_super_block = 1024"
definition sizeof_ext_group_descriptor :: u32 where "sizeof_ext_group_descriptor = 32"
definition sizeof_ext_inode :: u32 where "sizeof_ext_inode = 128"
definition sizeof_ext_info :: u32 where "sizeof_ext_info = 52"
definition sizeof_ext_file_data :: u32 where "sizeof_ext_file_data = 8"
definition sizeof_ext_extent_header :: u32 where "sizeof_ext_extent_header = 12"

definition group_inode_table :: "mem \<Rightarrow> addr \<Rightarrow> u32 \<Rightarrow> u32" where
  "group_inode_table m groups i = ld32 m (groups + sizeof_ext_group_descriptor * i + 8)"

definition inode_eheader :: "addr \<Rightarrow> addr" where "inode_eheader inode = inode + 40"
definition eheader_magic :: "mem \<Rightarrow> addr \<Rightarrow> u16" where "eheader_magic m h = ld16 m h"

datatype ext_type = BL_EXT2_TYPE | BL_EXT3_TYPE | BL_EXT4_TYPE

record 'a ext_info =
  ei_addr :: addr
  ei_type :: ext_type
  ei_lba :: u64
  ei_disk :: "'a tok_st_ext device"
  ei_block_size :: u32
  ei_blocks_count :: u32
  ei_blocks_per_group :: u32
  ei_inode_size :: u16
  ei_inodes_per_group :: u32
  ei_groups_count :: u32
  ei_groups :: addr

record 'a ext_file_data =
  ef_addr :: addr
  ef_inode :: addr
  ef_info :: "'a ext_info"

record 'a ext_env =
  ee_paths :: path_strings
  ee_print :: "'a tok_st_scheme callback"

subsection \<open>Locations\<close>

definition bl_ext_inode_index_block_group :: "'a ext_info \<Rightarrow> u32 \<Rightarrow> u32" where
  "bl_ext_inode_index_block_group info inode_number = (inode_number - 1) mod ei_inodes_per_group info"

definition bl_ext_inode_offset_to_sectors :: "'a ext_info \<Rightarrow> u32 \<Rightarrow> u32" where
  "bl_ext_inode_offset_to_sectors info inode_number =
     (ucast (ei_inode_size info) * bl_ext_inode_index_block_group info inode_number) div BL_STORAGE_SECTOR_SIZE"

definition bl_ext_inode_sector_offset :: "'a ext_info \<Rightarrow> u32 \<Rightarrow> u32" where
  "bl_ext_inode_sector_offset info inode_number =
     (ucast (ei_inode_size info) * bl_ext_inode_index_block_group info inode_number) mod BL_STORAGE_SECTOR_SIZE"

definition bl_ext_block_to_lba :: "'a ext_info \<Rightarrow> u32 \<Rightarrow> u32" where
  "bl_ext_block_to_lba info block = ucast (ei_lba info + ucast (block * ei_block_size info div BL_STORAGE_SECTOR_SIZE))"

definition bl_ext_inode_block_group :: "'a ext_info \<Rightarrow> u32 \<Rightarrow> u32" where
  "bl_ext_inode_block_group info inode_number = (inode_number - 1) div ei_inodes_per_group info"

definition bl_ext_get_inode :: "'a ext_info \<Rightarrow> u32 \<Rightarrow> addr \<Rightarrow> 'a tok_st_scheme \<Rightarrow> (bl_status \<times> 'a tok_st_scheme) option" where
  "bl_ext_get_inode info inode_number inode s =
     (if ei_inodes_per_group info = 0 then None
      else let block_group = bl_ext_inode_block_group info inode_number
      in read_into (ei_disk info) inode
           (ucast (bl_ext_block_to_lba info (group_inode_table (mem s) (ei_groups info) block_group) +
                   bl_ext_inode_offset_to_sectors info inode_number))
           sizeof_ext_inode (bl_ext_inode_sector_offset info inode_number) s)"

definition bl_ext_get_block :: "'a ext_info \<Rightarrow> u32 \<Rightarrow> addr \<Rightarrow> 'a tok_st_scheme \<Rightarrow> (bl_status \<times> 'a tok_st_scheme) option" where
  "bl_ext_get_block info block data s =
     read_into (ei_disk info) data (ucast (bl_ext_block_to_lba info block)) (ei_block_size info) 0 s"

definition bl_ext4_get_first_extent_node :: "addr \<Rightarrow> addr" where
  "bl_ext4_get_first_extent_node eheader = eheader + sizeof_ext_extent_header"

subsection \<open>Directories\<close>

definition bl_ext4_iterate_directory :: "'a ext_env \<Rightarrow> 'a ext_file_data \<Rightarrow> 'a tok_st_scheme \<Rightarrow> bl_status \<times> 'a tok_st_scheme" where
  "bl_ext4_iterate_directory env fdata s =
     (BL_STATUS_SUCCESS, bl_print_str (ee_print env) [0xa]
        (bl_print_hex (ee_print env) (ucast (eheader_magic (mem s) (inode_eheader (ef_inode fdata)))) s))"

definition bl_ext_iterate_directory_callback :: "'a ext_env \<Rightarrow> ('a ext_file_data, 'a) dir_callback" where
  "bl_ext_iterate_directory_callback env name directory fdata s =
     (if ei_type (ef_info fdata) = BL_EXT4_TYPE then do {
        str \<leftarrow> c_string (mem s) name;
        let s1 = bl_print_str (ee_print env) [0xa] (bl_print_str (ee_print env) str s);
        let (status, s2) = bl_ext4_iterate_directory env fdata s1;
        Some (if failed status then status else BL_STATUS_FAILURE, None, s2) }
      else Some (BL_STATUS_FAILURE, None, s))"

definition bl_ext_close :: "('a ext_file_data, 'a) fs_close" where
  "bl_ext_close fdata s = Some (BL_STATUS_SUCCESS, s)"

definition bl_ext_open :: "'a ext_env \<Rightarrow> 'a ext_info \<Rightarrow> addr \<Rightarrow> 'a tok_st_scheme \<Rightarrow>
    (bl_status \<times> (addr \<times> 'a ext_file_data) option \<times> 'a tok_st_scheme) option" where
  "bl_ext_open env info path s = do {
     (root, s1) \<leftarrow> bl_heap_alloc s sizeof_tree_node;
     if root = 0 then Some (BL_STATUS_MEMORY_ALLOCATION_FAILED, None, s1)
     else do {
       (fd, s2) \<leftarrow> bl_heap_alloc s1 sizeof_ext_file_data;
       if fd = 0 then Some (BL_STATUS_MEMORY_ALLOCATION_FAILED, None, s2)
       else do {
         (inode, s3) \<leftarrow> bl_heap_alloc s2 sizeof_ext_inode;
         if inode = 0 then Some (BL_STATUS_MEMORY_ALLOCATION_FAILED, None, s3)
         else do {
           (status, s4) \<leftarrow> bl_ext_get_inode info 2 inode s3;
           if failed status then Some (status, None, s4)
           else do {
             (status2, fdata, s5) \<leftarrow> bl_file_iterate_path (ee_paths env) bl_ext_close path
               (root, \<lparr>ef_addr = fd, ef_inode = inode, ef_info = info\<rparr>) (bl_ext_iterate_directory_callback env) s4;
             if failed status2 then Some (status2, None, s5)
             else do {
               (f, s6) \<leftarrow> bl_heap_alloc s5 sizeof_file;
               if f = 0 then Some (BL_STATUS_MEMORY_ALLOCATION_FAILED, None, s6)
               else do { fd1 \<leftarrow> fdata; Some (BL_STATUS_SUCCESS, Some (f, fd1), s6) } } } } } } }"

subsection \<open>Mounting\<close>

definition bl_ext_check_ext :: "'a ext_env \<Rightarrow> 'a tok_st_ext device \<Rightarrow> bl_partition \<Rightarrow> addr \<Rightarrow> 'a tok_st_scheme \<Rightarrow>
    (bl_status \<times> 'a ext_info option \<times> 'a tok_st_scheme) option" where
  "bl_ext_check_ext env disk prt a s = do {
     (status, bytes, s1) \<leftarrow> bl_storage_device_read disk (lba prt + ucast (BL_EXT_SUPER_BLOCK_OFFSET div BL_STORAGE_SECTOR_SIZE))
        sizeof_ext_super_block 0 s;
     if failed status then Some (status, None, s1)
     else let sblock = rd_ext_super_block bytes
     in if sb_magic sblock \<noteq> BL_EXT_MAGIC then Some (BL_STATUS_INVALID_FILE_SYSTEM, None, s1)
     else if sb_inode_size sblock \<noteq> 0x80 \<and> sb_inode_size sblock \<noteq> 0x100 then Some (BL_STATUS_INVALID_FILE_SYSTEM, None, s1)
     else if sb_inode_size sblock = 0x100 \<and> sb_feature_incompat sblock AND BL_EXT_FEATURE_INCOMPAT_EXTENTS = 0
     then Some (BL_STATUS_UNSUPPORTED, None, s1)
     else if sb_blocks_per_group sblock = 0 then None
     else let block_size = BL_EXT_BLOCK_SIZE (sb_log_block_size sblock);
              groups_count = sb_blocks_count sblock div sb_blocks_per_group sblock +
                (if sb_blocks_count sblock mod sb_blocks_per_group sblock > 0 then 1 else 0)
     in do {
       (groups, s2) \<leftarrow> bl_heap_alloc s1 (groups_count * sizeof_ext_group_descriptor);
       if groups = 0 then Some (BL_STATUS_MEMORY_ALLOCATION_FAILED, None, s2)
       else do {
         (status2, s3) \<leftarrow> read_into disk groups (lba prt + ucast (block_size div BL_STORAGE_SECTOR_SIZE))
            (groups_count * sizeof_ext_group_descriptor) 0 s2;
         if failed status2 then Some (status2, None, s3)
         else let cb = ee_print env
         in Some (BL_STATUS_SUCCESS,
              Some \<lparr>ei_addr = a, ei_type = (if sb_inode_size sblock = 0x80 then BL_EXT2_TYPE else BL_EXT4_TYPE), ei_lba = lba prt,
                ei_disk = disk, ei_block_size = block_size, ei_blocks_count = sb_blocks_count sblock,
                ei_blocks_per_group = sb_blocks_per_group sblock, ei_inode_size = sb_inode_size sblock,
                ei_inodes_per_group = sb_inodes_per_group sblock, ei_groups_count = groups_count, ei_groups = groups\<rparr>,
              bl_print_str cb [0xa] (bl_print_hex cb (sb_feature_ro_compat sblock) (bl_print_str cb (ascii '' '')
                (bl_print_hex cb (sb_feature_incompat sblock) (bl_print_str cb (ascii '' '')
                  (bl_print_hex cb (sb_feature_compat sblock) s3)))))) } } }"

definition bl_ext_mount :: "'a ext_env \<Rightarrow> 'a tok_st_ext device \<Rightarrow> bl_partition \<Rightarrow> 'a tok_st_scheme \<Rightarrow>
    (bl_status \<times> 'a ext_info option \<times> 'a tok_st_scheme) option" where
  "bl_ext_mount env disk prt s = do {
     (a, s1) \<leftarrow> bl_heap_alloc s sizeof_ext_info;
     if a = 0 then Some (BL_STATUS_MEMORY_ALLOCATION_FAILED, None, s1)
     else bl_ext_check_ext env disk prt a s1 }"

definition ext_fs :: "'a ext_env \<Rightarrow> ('a ext_info, 'a ext_file_data, 'a) bl_fs" where
  "ext_fs env = \<lparr>fs_mount = Some (bl_ext_mount env), fs_umount = None, fs_open = Some (bl_ext_open env),
     fs_close = Some bl_ext_close, fs_ls = None\<rparr>"

definition ext_module_init :: "'a ext_env \<Rightarrow> ('a ext_info, 'a ext_file_data, 'a) fs_st \<Rightarrow> ('a ext_info, 'a ext_file_data, 'a) fs_st" where
  "ext_module_init env st = bl_fs_register (ext_fs env) st"

subsection \<open>Where an inode is\<close>

text \<open>The geometry a mounted file system has: blocks are whole sectors, and the disk
  addresses of the blocks fit the 32-bit arithmetic of the driver.\<close>

definition ext_block_fits :: "'a ext_info \<Rightarrow> u32 \<Rightarrow> bool" where
  "ext_block_fits info block \<longleftrightarrow> 512 dvd unat (ei_block_size info) \<and> unat block * unat (ei_block_size info) < 2 ^ 32 \<and>
     unat (ei_lba info) + unat block * unat (ei_block_size info) div 512 < 2 ^ 32"

lemma unat_ucast_32_64: "unat (ucast (x::u32) :: u64) = unat x"
  using unat_lt2p [of x] by (simp add: unsigned_ucast_eq take_bit_eq_mod)

lemma unat_ucast_64_32: "unat (x::u64) < 2 ^ 32 \<Longrightarrow> unat (ucast x :: u32) = unat x"
  by (simp add: unsigned_ucast_eq take_bit_eq_mod)

lemma block_to_lba_value:
  assumes "ext_block_fits info block"
  shows "512 * unat (bl_ext_block_to_lba info block) = 512 * unat (ei_lba info) + unat block * unat (ei_block_size info)"
proof -
  let ?o = "block * ei_block_size info div BL_STORAGE_SECTOR_SIZE"
  have m: "unat (block * ei_block_size info) = unat block * unat (ei_block_size info)"
    using assms unat_mult_lem [of block "ei_block_size info"] by (simp add: ext_block_fits_def)
  then have o: "unat ?o = unat block * unat (ei_block_size info) div 512"
    by (simp add: unat_div_distrib BL_STORAGE_SECTOR_SIZE_def)
  have "unat (ei_lba info + ucast ?o) = unat (ei_lba info) + unat ?o"
    using assms unat_add_lem [of "ei_lba info" "ucast ?o"] by (simp add: ext_block_fits_def unat_ucast_32_64 o)
  then have "unat (bl_ext_block_to_lba info block) = unat (ei_lba info) + unat block * unat (ei_block_size info) div 512"
    using assms unat_ucast_64_32 [of "ei_lba info + ucast ?o"] by (simp add: bl_ext_block_to_lba_def ext_block_fits_def o)
  moreover have "512 dvd unat block * unat (ei_block_size info)" using assms by (simp add: ext_block_fits_def)
  ultimately show ?thesis by (simp add: algebra_simps)
qed

lemma get_inode_ok:
  assumes "disk_reads (ei_disk info) D" "heap_ok s (B + 1200) L" "(buf, k) \<in> L" "128 \<le> k"
    and g: "ei_inodes_per_group info \<noteq> 0" "it = group_inode_table (mem s) (ei_groups info) ((n - 1) div ei_inodes_per_group info)"
    and fit: "ext_block_fits info it"
    and idx: "o' = unat (ei_inode_size info) * (unat (n - 1) mod unat (ei_inodes_per_group info))" "o' < 2 ^ 32"
      "unat (bl_ext_block_to_lba info it) + o' div 512 < 2 ^ 32"
  shows "\<exists>s'. bl_ext_get_inode info n buf s = Some (BL_STATUS_SUCCESS, s') \<and> heap_ok s' B L \<and>
    mem_get (mem s') buf 128 = disk_bytes D (512 * unat (ei_lba info) + unat it * unat (ei_block_size info) + o') 128 \<and>
    (\<forall>(b, j) \<in> L. b \<noteq> buf \<longrightarrow> mem_get (mem s') b j = mem_get (mem s) b j)"
proof -
  let ?i = "bl_ext_inode_index_block_group info n"
  have sz: "unat (ucast (ei_inode_size info) :: u32) = unat (ei_inode_size info)"
    using unat_lt2p [of "ei_inode_size info"] by (simp add: unsigned_ucast_eq take_bit_eq_mod)
  have i: "unat ?i = unat (n - 1) mod unat (ei_inodes_per_group info)" by (simp add: bl_ext_inode_index_block_group_def unat_mod_distrib)
  have p: "unat (ucast (ei_inode_size info) * ?i) = o'"
    using idx(1,2) unat_mult_lem [of "ucast (ei_inode_size info) :: u32" ?i] by (simp add: sz i)
  have o: "unat (bl_ext_inode_offset_to_sectors info n) = o' div 512" "unat (bl_ext_inode_sector_offset info n) = o' mod 512"
    using p by (simp_all add: bl_ext_inode_offset_to_sectors_def bl_ext_inode_sector_offset_def unat_div_distrib unat_mod_distrib BL_STORAGE_SECTOR_SIZE_def)
  let ?start = "bl_ext_block_to_lba info it + bl_ext_inode_offset_to_sectors info n"
  have st: "unat ?start = unat (bl_ext_block_to_lba info it) + o' div 512"
    using idx(3) o(1) unat_add_lem [of "bl_ext_block_to_lba info it" "bl_ext_inode_offset_to_sectors info n"] by simp
  have "heap_ok s (B + unat (bl_ext_inode_sector_offset info n) + unat sizeof_ext_inode + 560) L"
    by (rule heap_ok_mono [OF assms(2)]) (use o(2) in \<open>simp add: sizeof_ext_inode_def\<close>)
  moreover have "unat (bl_ext_inode_sector_offset info n) + unat sizeof_ext_inode + 512 \<le> 2 ^ 32"
    using o(2) by (simp add: sizeof_ext_inode_def)
  ultimately obtain s' where s': "read_into (ei_disk info) buf (ucast ?start) sizeof_ext_inode (bl_ext_inode_sector_offset info n) s = Some (BL_STATUS_SUCCESS, s')"
      "heap_ok s' B L" "mem_get (mem s') buf (unat sizeof_ext_inode) =
        disk_bytes D (512 * unat (ucast ?start :: u64) + unat (bl_ext_inode_sector_offset info n)) (unat sizeof_ext_inode)"
      "\<forall>(b, j) \<in> L. b \<noteq> buf \<longrightarrow> mem_get (mem s') b j = mem_get (mem s) b j"
    using read_into_ok [OF assms(1), of s B _ sizeof_ext_inode L buf k "ucast ?start"] assms(3,4) by (auto simp: sizeof_ext_inode_def)
  have "512 * unat (ucast ?start :: u64) + unat (bl_ext_inode_sector_offset info n) =
      512 * unat (ei_lba info) + unat it * unat (ei_block_size info) + (512 * (o' div 512) + o' mod 512)"
    unfolding unat_ucast_32_64 st o(2) using block_to_lba_value [OF fit] by (simp add: algebra_simps)
  then have "mem_get (mem s') buf 128 = disk_bytes D (512 * unat (ei_lba info) + unat it * unat (ei_block_size info) + o') 128"
    using s'(3) by (simp add: sizeof_ext_inode_def)
  then show ?thesis
    using s' g by (simp add: bl_ext_get_inode_def bl_ext_inode_block_group_def Let_def)
qed

text \<open>Beyond four gigabytes the product wraps: the block is taken for one at the start of the partition.\<close>

lemma block_to_lba_wraps:
  assumes "ei_block_size info = 2 ^ k" "9 \<le> k" "k < 32"
  shows "bl_ext_block_to_lba info (2 ^ (32 - k)) = ucast (ei_lba info)"
proof -
  have "(2 ^ (32 - k) * 2 ^ k :: u32) = 2 ^ 32" using assms(3) by (simp flip: power_add)
  also have "\<dots> = 0" by simp
  finally show ?thesis by (simp add: bl_ext_block_to_lba_def assms(1))
qed

lemma ext_callback_fails:
  assumes "bl_ext_iterate_directory_callback env name directory fdata s = Some (status, node, s')"
  shows "failed status \<and> node = None"
  using assms by (auto simp: bl_ext_iterate_directory_callback_def bl_ext4_iterate_directory_def bind_eq_Some_conv Let_def split: if_splits)

lemma ext_callback_returns:
  assumes "cstr (mem s) name w" "name \<noteq> 0"
  shows "\<exists>s'. bl_ext_iterate_directory_callback env name directory fdata s = Some (BL_STATUS_FAILURE, None, s')"
  using assms by (simp add: bl_ext_iterate_directory_callback_def bl_ext4_iterate_directory_def c_string_def bl_strlen_cstr Let_def)

text \<open>With blocks of 1024 bytes the table of group descriptors is read from the sectors of the
  super block.\<close>

lemma print_hex_silent [simp]: "BL_PRINT_HEX None n s = s"
proof -
  have "bl_print_hex_loop None n k z s = s" for k z
    by (induction k arbitrary: z) (simp_all add: Let_def bl_print_str_def)
  then show ?thesis by (simp add: BL_PRINT_HEX_def bl_print_str_def)
qed

lemma check_ext_small_blocks:
  assumes "disk_reads disk D" "heap_ok s (B + 4096 + 64 * unat groups) L"
    and sb: "sblock = rd_ext_super_block (disk_bytes D (512 * unat (lba prt) + 1024) 1024)"
      "sb_magic sblock = BL_EXT_MAGIC" "sb_inode_size sblock = 0x80" "sb_blocks_per_group sblock \<noteq> 0" "sb_log_block_size sblock = 0"
    and g: "groups = sb_blocks_count sblock div sb_blocks_per_group sblock +
        (if sb_blocks_count sblock mod sb_blocks_per_group sblock > 0 then 1 else 0)" "32 * unat groups < 2 ^ 24"
    and "unat (lba prt) + 2 < 2 ^ 64" "ee_print env = None"
  shows "\<exists>info s'. bl_ext_check_ext env disk prt a s = Some (BL_STATUS_SUCCESS, Some info, s') \<and>
    mem_get (mem s') (ei_groups info) (32 * unat groups) = disk_bytes D (512 * unat (lba prt) + 1024) (32 * unat groups)"
proof -
  let ?n = "groups * sizeof_ext_group_descriptor" and ?start = "lba prt + ucast (BL_EXT_SUPER_BLOCK_OFFSET div BL_STORAGE_SECTOR_SIZE)"
  have start: "unat ?start = unat (lba prt) + 2"
    using assms(10) unat_add_lem [of "lba prt" 2] by (simp add: BL_EXT_SUPER_BLOCK_OFFSET_def BL_STORAGE_SECTOR_SIZE_def)
  have n: "unat ?n = 32 * unat groups"
    using g(2) unat_mult_lem [of groups sizeof_ext_group_descriptor] by (simp add: sizeof_ext_group_descriptor_def)
  have "heap_ok s ((B + 2 * unat ?n + 2000) + unat (0::u32) + unat sizeof_ext_super_block + 560) L"
    by (rule heap_ok_mono [OF assms(2)]) (simp add: n sizeof_ext_super_block_def)
  moreover have u: "unat sizeof_ext_super_block = 1024" by (simp add: sizeof_ext_super_block_def)
  moreover have start': "512 * unat ?start = 512 * unat (lba prt) + 1024" using start by simp
  ultimately obtain s1 where
    1: "bl_storage_device_read disk ?start sizeof_ext_super_block 0 s = Some (BL_STATUS_SUCCESS, disk_bytes D (512 * unat (lba prt) + 1024) 1024, s1)"
      "heap_ok s1 (B + 2 * unat ?n + 2000) L"
    using storage_device_read_ok [OF assms(1), of s "B + 2 * unat ?n + 2000" 0 sizeof_ext_super_block L ?start] by auto
  have "heap_ok s1 ((B + unat ?n + 1900) + unat ?n + 48) L" by (rule heap_ok_mono [OF 1(2)]) simp
  from heap_ok_alloc [OF this] obtain gr s2 where
    2: "bl_heap_alloc s1 ?n = Some (gr, s2)" "gr \<noteq> 0" "unat ?n \<le> block_size s2 gr" "heap_ok s2 (B + unat ?n + 1900) (insert (gr, block_size s2 gr) L)"
    by blast
  have "heap_ok s2 (B + unat (0::u32) + unat ?n + 560) (insert (gr, block_size s2 gr) L)" by (rule heap_ok_mono [OF 2(4)]) simp
  moreover have "unat (0::u32) + unat ?n + 512 \<le> 2 ^ 32" using g(2) n by simp
  ultimately obtain s3 where
    3: "read_into disk gr ?start ?n 0 s2 = Some (BL_STATUS_SUCCESS, s3)"
      "mem_get (mem s3) gr (32 * unat groups) = disk_bytes D (512 * unat (lba prt) + 1024) (32 * unat groups)"
    using read_into_ok [OF assms(1), of s2 B 0 ?n "insert (gr, block_size s2 gr) L" gr "block_size s2 gr" ?start] 2(3) start' n by auto
  have b: "BL_EXT_BLOCK_SIZE 0 div BL_STORAGE_SECTOR_SIZE = BL_EXT_SUPER_BLOCK_OFFSET div BL_STORAGE_SECTOR_SIZE"
    by (simp add: BL_EXT_BLOCK_SIZE_def BL_STORAGE_SECTOR_SIZE_def BL_EXT_SUPER_BLOCK_OFFSET_def)
  show ?thesis
    using 1(1) 2(1,2) 3 sb(2-5) assms(11) unfolding bl_ext_check_ext_def
    by (simp add: sb(1) [symmetric] g(1) [symmetric] b Let_def bl_print_str_def bl_print_hex_def)
qed

end
