(* ===== verification/Bl_Usb.thy ===== *)
theory Bl_Usb
  imports Bl_Ext
begin

text \<open>
  The USB core: src/boot-loader/core/bus/usb/usb.c, usb-hub.c and usb-traversal.c with the
  structures of core/include/usb/usb.h.

  Devices, hubs, host controllers and traversals are blocks of memory, and the code's
  field accesses are loads and stores at the offsets of the i386 layout. The functions of a host
  controller driver are a record found by the address the controller structure holds. A
  transfer is given the contents of the caller's buffer and returns what the buffer holds
  afterwards; a buffer on the stack starts with the bytes \<open>ue_stack\<close> gives for its
  size. Keyboards and disks found are pushed on the lists \<open>usb_kbds\<close> and \<open>usb_disks\<close>, as their
  layers do. \<open>usb_bbb_tag\<close> is the counter of the mass storage driver.
\<close>

unbundle bit_operations_syntax

subsection \<open>State and environment\<close>

record 'd usb_st = heap_st +
  usb_hw :: 'd
  bl_usb_buses :: u32
  bl_usb_host_controllers :: addr
  bl_root_hubs :: addr
  usb_kbds :: "kbd_info list"
  usb_disks :: "device_info list"
  usb_bbb_tag :: u32

record bl_usb_setup_data =
  su_request_type :: u8
  su_request :: u8
  su_value :: u16
  su_index :: u16
  su_length :: u16

text \<open>The driver's functions: the controller comes first, then the arguments in the code's
  order. The enumerations of speeds are words; an \<open>int\<close> is a word too.\<close>

record 's hc_funcs =
  hc_port_connected :: "addr \<Rightarrow> u32 \<Rightarrow> 's \<Rightarrow> (bool \<times> 's) option"
  hc_port_get_speed :: "addr \<Rightarrow> u32 \<Rightarrow> 's \<Rightarrow> (u32 \<times> 's) option"
  hc_port_reset :: "addr \<Rightarrow> u32 \<Rightarrow> 's \<Rightarrow> 's option"
  hc_port_init :: "addr \<Rightarrow> u32 \<Rightarrow> u32 \<Rightarrow> 's \<Rightarrow> (u32 \<times> 's) option"
  hc_control :: "addr \<Rightarrow> u32 \<Rightarrow> u32 \<Rightarrow> u32 \<Rightarrow> bl_usb_setup_data \<Rightarrow> u8 list \<Rightarrow> u32 \<Rightarrow> 's \<Rightarrow> (u8 list \<times> 's) option"
  hc_bulk :: "addr \<Rightarrow> u32 \<Rightarrow> addr \<Rightarrow> u32 \<Rightarrow> u32 \<Rightarrow> u8 list \<Rightarrow> u32 \<Rightarrow> 's \<Rightarrow> (u8 list \<times> 's) option"
  hc_interrupt :: "(addr \<Rightarrow> u32 \<Rightarrow> addr \<Rightarrow> u32 \<Rightarrow> u32 \<Rightarrow> u8 list \<Rightarrow> u32 \<Rightarrow> 's \<Rightarrow> (addr \<times> 's) option) option"
  hc_check_status :: "(addr \<Rightarrow> 's \<Rightarrow> (bl_status \<times> u8 list \<times> 's) option) option"

record 's usb_env =
  ue_funcs :: "addr \<Rightarrow> 's hc_funcs"
  ue_stack :: "nat \<Rightarrow> u8 list"
  ue_sleep :: "u32 \<Rightarrow> 's \<Rightarrow> 's"
  ue_print :: "'s callback"

subsection \<open>Structures\<close>

text \<open>struct bl_usb_device.\<close>

definition dev_address :: "mem \<Rightarrow> addr \<Rightarrow> u32" where "dev_address m d = ld32 m d"
definition dev_speed :: "mem \<Rightarrow> addr \<Rightarrow> u32" where "dev_speed m d = ld32 m (d + 4)"
definition dev_port :: "mem \<Rightarrow> addr \<Rightarrow> u32" where "dev_port m d = ld32 m (d + 8)"
definition dev_parent_hub :: "mem \<Rightarrow> addr \<Rightarrow> addr" where "dev_parent_hub m d = ld32 m (d + 12)"
definition dev_desc :: "addr \<Rightarrow> addr" where "dev_desc d = d + 16"
definition dev_config :: "addr \<Rightarrow> addr" where "dev_config d = d + 34"
definition dev_interfaces :: "mem \<Rightarrow> addr \<Rightarrow> addr" where "dev_interfaces m d = ld32 m (d + 44)"
definition dev_controller :: "mem \<Rightarrow> addr \<Rightarrow> addr" where "dev_controller m d = ld32 m (d + 48)"
definition dev_kind :: "mem \<Rightarrow> addr \<Rightarrow> u32" where "dev_kind m d = ld32 m (d + 52)"
definition dev_specific :: "addr \<Rightarrow> addr" where "dev_specific d = d + 56"
definition sizeof_usb_device :: u32 where "sizeof_usb_device = 88"
definition sizeof_usb_specific :: u32 where "sizeof_usb_specific = 32"

definition BL_USB_HUB_DEVICE :: u32 where "BL_USB_HUB_DEVICE = 1"
definition BL_USB_STORAGE_DEVICE :: u32 where "BL_USB_STORAGE_DEVICE = 2"
definition BL_USB_KEYBOARD_DEVICE :: u32 where "BL_USB_KEYBOARD_DEVICE = 3"

text \<open>The descriptors, at their address.\<close>

definition desc_length :: "mem \<Rightarrow> addr \<Rightarrow> u8" where "desc_length m p = m p"
definition desc_type :: "mem \<Rightarrow> addr \<Rightarrow> u8" where "desc_type m p = m (p + 1)"

definition dd_device_class :: "mem \<Rightarrow> addr \<Rightarrow> u8" where "dd_device_class m p = m (p + 4)"
definition dd_max_packet_size :: "mem \<Rightarrow> addr \<Rightarrow> u8" where "dd_max_packet_size m p = m (p + 7)"
definition dd_vendor_id :: "mem \<Rightarrow> addr \<Rightarrow> u16" where "dd_vendor_id m p = ld16 m (p + 8)"
definition dd_product_id :: "mem \<Rightarrow> addr \<Rightarrow> u16" where "dd_product_id m p = ld16 m (p + 10)"
definition dd_manufacturer_str :: "mem \<Rightarrow> addr \<Rightarrow> u8" where "dd_manufacturer_str m p = m (p + 14)"
definition dd_product_str :: "mem \<Rightarrow> addr \<Rightarrow> u8" where "dd_product_str m p = m (p + 15)"
definition dd_serial_number_str :: "mem \<Rightarrow> addr \<Rightarrow> u8" where "dd_serial_number_str m p = m (p + 16)"
definition dd_configurations_count :: "mem \<Rightarrow> addr \<Rightarrow> u8" where "dd_configurations_count m p = m (p + 17)"
definition sizeof_device_descriptor :: u32 where "sizeof_device_descriptor = 18"

definition cd_total_length :: "mem \<Rightarrow> addr \<Rightarrow> u16" where "cd_total_length m p = ld16 m (p + 2)"
definition cd_interfaces_count :: "mem \<Rightarrow> addr \<Rightarrow> u8" where "cd_interfaces_count m p = m (p + 4)"
definition sizeof_configuration_descriptor :: u32 where "sizeof_configuration_descriptor = 9"

definition id_interface_number :: "mem \<Rightarrow> addr \<Rightarrow> u8" where "id_interface_number m p = m (p + 2)"
definition id_num_endpoints :: "mem \<Rightarrow> addr \<Rightarrow> u8" where "id_num_endpoints m p = m (p + 4)"
definition id_interface_class :: "mem \<Rightarrow> addr \<Rightarrow> u8" where "id_interface_class m p = m (p + 5)"
definition id_interface_subclass :: "mem \<Rightarrow> addr \<Rightarrow> u8" where "id_interface_subclass m p = m (p + 6)"
definition id_interface_protocol :: "mem \<Rightarrow> addr \<Rightarrow> u8" where "id_interface_protocol m p = m (p + 7)"
definition sizeof_interface_descriptor :: u32 where "sizeof_interface_descriptor = 9"

definition ed_endpoint_address :: "mem \<Rightarrow> addr \<Rightarrow> u8" where "ed_endpoint_address m p = m (p + 2)"
definition ed_attributes :: "mem \<Rightarrow> addr \<Rightarrow> u8" where "ed_attributes m p = m (p + 3)"
definition ed_max_packet_size :: "mem \<Rightarrow> addr \<Rightarrow> u16" where "ed_max_packet_size m p = ld16 m (p + 4)"
definition ed_interval :: "mem \<Rightarrow> addr \<Rightarrow> u8" where "ed_interval m p = m (p + 6)"
definition sizeof_endpoint_descriptor :: u32 where "sizeof_endpoint_descriptor = 7"

definition sizeof_hid_descriptor :: u32 where "sizeof_hid_descriptor = 9"
definition sizeof_hub_descriptor :: u32 where "sizeof_hub_descriptor = 7"
definition sizeof_hub_port_status :: u32 where "sizeof_hub_port_status = 4"

text \<open>struct bl_usb_interface: its descriptor and the pointer to its endpoints.\<close>

definition interface_at :: "mem \<Rightarrow> addr \<Rightarrow> u32 \<Rightarrow> addr" where "interface_at m d i = dev_interfaces m d + 16 * i"
definition interface_endpoints :: "mem \<Rightarrow> addr \<Rightarrow> addr" where "interface_endpoints m ifc = ld32 m (ifc + 12)"
definition endpoint_at :: "mem \<Rightarrow> addr \<Rightarrow> u32 \<Rightarrow> addr" where
  "endpoint_at m ifc j = interface_endpoints m ifc + sizeof_endpoint_descriptor * j"

text \<open>struct bl_usb_hub and struct bl_usb_host_controller.\<close>

definition hub_ports :: "mem \<Rightarrow> addr \<Rightarrow> u32" where "hub_ports m h = ld32 m h"
definition hub_devices :: "mem \<Rightarrow> addr \<Rightarrow> addr" where "hub_devices m h = ld32 m (h + 4)"
definition hub_port_chain :: "addr \<Rightarrow> addr" where "hub_port_chain h = h + 8"
definition hub_device :: "mem \<Rightarrow> addr \<Rightarrow> addr" where "hub_device m h = ld32 m (h + 16)"
definition hub_next :: "mem \<Rightarrow> addr \<Rightarrow> addr" where "hub_next m h = ld32 m (h + 20)"
definition sizeof_usb_hub :: u32 where "sizeof_usb_hub = 24"

definition hc_kind :: "mem \<Rightarrow> addr \<Rightarrow> u32" where "hc_kind m c = ld32 m c"
definition hc_bus :: "mem \<Rightarrow> addr \<Rightarrow> u32" where "hc_bus m c = ld32 m (c + 4)"
definition hc_devices_count :: "mem \<Rightarrow> addr \<Rightarrow> u32" where "hc_devices_count m c = ld32 m (c + 8)"
definition hc_funcs_ptr :: "mem \<Rightarrow> addr \<Rightarrow> addr" where "hc_funcs_ptr m c = ld32 m (c + 12)"
definition hc_root_hub :: "addr \<Rightarrow> addr" where "hc_root_hub c = c + 16"
definition hc_next :: "mem \<Rightarrow> addr \<Rightarrow> addr" where "hc_next m c = ld32 m (c + 44)"

definition BL_USB_HC_UHCI :: u32 where "BL_USB_HC_UHCI = 0"
definition BL_USB_HC_OHCI :: u32 where "BL_USB_HC_OHCI = 1"
definition BL_USB_HC_EHCI :: u32 where "BL_USB_HC_EHCI = 2"
definition BL_USB_HC_XHCI :: u32 where "BL_USB_HC_XHCI = 3"

definition BL_USB_LOW_SPEED :: u32 where "BL_USB_LOW_SPEED = 0"
definition BL_USB_FULL_SPEED :: u32 where "BL_USB_FULL_SPEED = 1"
definition BL_USB_HIGH_SPEED :: u32 where "BL_USB_HIGH_SPEED = 2"

definition BL_USB_DESCRIPTOR_TYPE_DEVICE :: u32 where "BL_USB_DESCRIPTOR_TYPE_DEVICE = 1"
definition BL_USB_DESCRIPTOR_TYPE_CONFIG :: u32 where "BL_USB_DESCRIPTOR_TYPE_CONFIG = 2"
definition BL_USB_DESCRIPTOR_TYPE_STRING :: u32 where "BL_USB_DESCRIPTOR_TYPE_STRING = 3"
definition BL_USB_DESCRIPTOR_TYPE_INTERFACE :: u8 where "BL_USB_DESCRIPTOR_TYPE_INTERFACE = 4"
definition BL_USB_DESCRIPTOR_TYPE_ENDPOINT :: u8 where "BL_USB_DESCRIPTOR_TYPE_ENDPOINT = 5"
definition BL_USB_DESCRIPTOR_TYPE_HID :: u8 where "BL_USB_DESCRIPTOR_TYPE_HID = 0x21"
definition BL_USB_DESCRIPTOR_TYPE_HUB :: u32 where "BL_USB_DESCRIPTOR_TYPE_HUB = 0x29"

definition BL_USB_SETUP_REQUEST_TYPE_RECIPIENT_DEVICE :: u32 where "BL_USB_SETUP_REQUEST_TYPE_RECIPIENT_DEVICE = push_bit 0 0"
definition BL_USB_SETUP_REQUEST_TYPE_RECIPIENT_INTERFACE :: u32 where "BL_USB_SETUP_REQUEST_TYPE_RECIPIENT_INTERFACE = push_bit 0 1"
definition BL_USB_SETUP_REQUEST_TYPE_RECIPIENT_OTHER :: u32 where "BL_USB_SETUP_REQUEST_TYPE_RECIPIENT_OTHER = push_bit 0 3"
definition BL_USB_SETUP_REQUEST_TYPE_STANDARD :: u32 where "BL_USB_SETUP_REQUEST_TYPE_STANDARD = push_bit 5 0"
definition BL_USB_SETUP_REQUEST_TYPE_CLASS :: u32 where "BL_USB_SETUP_REQUEST_TYPE_CLASS = push_bit 5 1"
definition BL_USB_SETUP_REQUEST_TYPE_HOST_TO_DEVICE :: u32 where "BL_USB_SETUP_REQUEST_TYPE_HOST_TO_DEVICE = push_bit 7 0"
definition BL_USB_SETUP_REQUEST_TYPE_DEVICE_TO_HOST :: u32 where "BL_USB_SETUP_REQUEST_TYPE_DEVICE_TO_HOST = push_bit 7 1"

definition BL_USB_REQUEST_TYPE_SET_ADDRESS :: u32 where "BL_USB_REQUEST_TYPE_SET_ADDRESS = 5"
definition BL_USB_REQUEST_TYPE_GET_DESCRIPTOR :: u32 where "BL_USB_REQUEST_TYPE_GET_DESCRIPTOR = 6"
definition BL_USB_REQUEST_TYPE_SET_CONFIGURATION :: u32 where "BL_USB_REQUEST_TYPE_SET_CONFIGURATION = 9"
definition BL_USB_HUB_REQUEST_TYPE_GET_STATUS :: u32 where "BL_USB_HUB_REQUEST_TYPE_GET_STATUS = 0"
definition BL_USB_HUB_REQUEST_TYPE_CLEAR_FEATURE :: u32 where "BL_USB_HUB_REQUEST_TYPE_CLEAR_FEATURE = 1"
definition BL_USB_HUB_REQUEST_TYPE_SET_FEATURE :: u32 where "BL_USB_HUB_REQUEST_TYPE_SET_FEATURE = 3"
definition BL_USB_HUB_REQUEST_TYPE_GET_DESCRIPTOR :: u32 where "BL_USB_HUB_REQUEST_TYPE_GET_DESCRIPTOR = 6"

definition BL_USB_HUB_PORT_STATUS_CONNECT_STATUS :: u16 where "BL_USB_HUB_PORT_STATUS_CONNECT_STATUS = push_bit 0 1"
definition BL_USB_HUB_PORT_STATUS_LOW_SPEED_DEVICE :: u16 where "BL_USB_HUB_PORT_STATUS_LOW_SPEED_DEVICE = push_bit 9 1"
definition BL_USB_HUB_PORT_STATUS_HIGH_SPEED_DEVICE :: u16 where "BL_USB_HUB_PORT_STATUS_HIGH_SPEED_DEVICE = push_bit 10 1"
definition BL_USB_HUB_PORT_CHANGE_CONNECT_STATUS :: u16 where "BL_USB_HUB_PORT_CHANGE_CONNECT_STATUS = push_bit 0 1"
definition BL_USB_HUB_PORT_CHANGE_RESET :: u16 where "BL_USB_HUB_PORT_CHANGE_RESET = push_bit 4 1"
definition BL_USB_HUB_FEATURE_PORT_RESET :: u32 where "BL_USB_HUB_FEATURE_PORT_RESET = 4"
definition BL_USB_HUB_FEATURE_C_PORT_CONNECTION :: u32 where "BL_USB_HUB_FEATURE_C_PORT_CONNECTION = 0x10"
definition BL_USB_HUB_FEATURE_C_PORT_RESET :: u32 where "BL_USB_HUB_FEATURE_C_PORT_RESET = 0x14"

subsection \<open>Traversals\<close>

text \<open>struct bl_usb_traversal: head, tail and the array of hubs.\<close>

definition sizeof_usb_traversal :: u32 where "sizeof_usb_traversal = 516"
definition tr_head :: "mem \<Rightarrow> addr \<Rightarrow> u32" where "tr_head m t = ld32 m t"
definition tr_tail :: "mem \<Rightarrow> addr \<Rightarrow> u32" where "tr_tail m t = ld32 m (t + 4)"
definition tr_hub_at :: "addr \<Rightarrow> u32 \<Rightarrow> addr" where "tr_hub_at t i = t + 8 + 4 * i"

definition bl_usb_traversal_is_empty :: "mem \<Rightarrow> addr \<Rightarrow> bool" where
  "bl_usb_traversal_is_empty m traversal \<longleftrightarrow> tr_head m traversal = tr_tail m traversal"

definition bl_usb_traversal_push :: "addr \<Rightarrow> addr \<Rightarrow> mem \<Rightarrow> mem" where
  "bl_usb_traversal_push traversal hub m =
     (if tr_tail m traversal <s 127 - 1
      then let i = tr_tail m traversal; m1 = st32 m (traversal + 4) (i + 1) in st32 m1 (tr_hub_at traversal i) hub
      else m)"

definition bl_usb_traversal_pop :: "addr \<Rightarrow> mem \<Rightarrow> addr \<times> mem" where
  "bl_usb_traversal_pop traversal m =
     (if tr_head m traversal <s tr_tail m traversal
      then let i = tr_head m traversal; m1 = st32 m traversal (i + 1) in (ld32 m1 (tr_hub_at traversal i), m1)
      else (0, m))"

fun traversal_clear :: "addr \<Rightarrow> nat \<Rightarrow> u32 \<Rightarrow> mem \<Rightarrow> mem" where
  "traversal_clear t 0 i m = m"
| "traversal_clear t (Suc n) i m = traversal_clear t n (i + 1) (st32 m (tr_hub_at t i) 0)"

definition bl_usb_traversal_init :: "'a heap_st_scheme \<Rightarrow> (addr \<times> 'a heap_st_scheme) option" where
  "bl_usb_traversal_init s = do {
     (t, s1) \<leftarrow> bl_heap_alloc s sizeof_usb_traversal;
     if t = 0 then Some (0, s1)
     else Some (t, s1\<lparr>mem := traversal_clear t 127 0 (st32 (st32 (mem s1) (t + 4) 0) t 0)\<rparr>) }"

definition bl_usb_traversal_uninit :: "addr \<Rightarrow> 'a heap_st_scheme \<Rightarrow> 'a heap_st_scheme" where
  "bl_usb_traversal_uninit t s = bl_heap_free s t sizeof_usb_traversal"

subsection \<open>Transfers\<close>

definition funcs_of :: "'d usb_st usb_env \<Rightarrow> 'd usb_st \<Rightarrow> addr \<Rightarrow> 'd usb_st hc_funcs" where
  "funcs_of env s controller = ue_funcs env (hc_funcs_ptr (mem s) controller)"

definition bl_usb_setup_data_fill :: "u32 \<Rightarrow> u32 \<Rightarrow> u32 \<Rightarrow> u32 \<Rightarrow> u32 \<Rightarrow> bl_usb_setup_data" where
  "bl_usb_setup_data_fill rtype request value index length' =
     \<lparr>su_request_type = ucast rtype, su_request = ucast request, su_value = ucast value, su_index = ucast index,
      su_length = ucast length'\<rparr>"

definition bl_usb_control_transfer :: "'d usb_st usb_env \<Rightarrow> addr \<Rightarrow> u8 list \<Rightarrow> u32 \<Rightarrow> u32 \<Rightarrow> u32 \<Rightarrow> u32 \<Rightarrow> u32 \<Rightarrow> 'd usb_st \<Rightarrow>
    (u8 list \<times> 'd usb_st) option" where
  "bl_usb_control_transfer env device data rtype request value index length' s =
     hc_control (funcs_of env s (dev_controller (mem s) device)) (dev_controller (mem s) device)
       (ucast (dd_max_packet_size (mem s) (dev_desc device))) (dev_address (mem s) device) (dev_speed (mem s) device)
       (bl_usb_setup_data_fill rtype request value index length') data length' s"

text \<open>A transfer whose buffer is in memory, at \<open>p\<close>.\<close>

definition control_transfer_mem :: "'d usb_st usb_env \<Rightarrow> addr \<Rightarrow> addr \<Rightarrow> u32 \<Rightarrow> u32 \<Rightarrow> u32 \<Rightarrow> u32 \<Rightarrow> u32 \<Rightarrow> 'd usb_st \<Rightarrow>
    'd usb_st option" where
  "control_transfer_mem env device p rtype request value index length' s = do {
     (buf, s1) \<leftarrow> bl_usb_control_transfer env device (mem_get (mem s) p (unat length')) rtype request value index length' s;
     Some (s1\<lparr>mem := mem_put (mem s1) p buf\<rparr>) }"

definition bl_usb_get_descriptor :: "'d usb_st usb_env \<Rightarrow> addr \<Rightarrow> u32 \<Rightarrow> u32 \<Rightarrow> u32 \<Rightarrow> u32 \<Rightarrow> u32 \<Rightarrow> 'd usb_st \<Rightarrow>
    (u8 list \<times> 'd usb_st) option" where
  "bl_usb_get_descriptor env device flags type index language length' s =
     bl_usb_control_transfer env device (ue_stack env (unat length')) (BL_USB_SETUP_REQUEST_TYPE_DEVICE_TO_HOST OR flags)
       BL_USB_REQUEST_TYPE_GET_DESCRIPTOR (push_bit 8 type OR (index AND 0xff)) language length' s"

definition get_descriptor_mem :: "'d usb_st usb_env \<Rightarrow> addr \<Rightarrow> u32 \<Rightarrow> u32 \<Rightarrow> u32 \<Rightarrow> u32 \<Rightarrow> addr \<Rightarrow> u32 \<Rightarrow> 'd usb_st \<Rightarrow>
    'd usb_st option" where
  "get_descriptor_mem env device flags type index language p length' s =
     control_transfer_mem env device p (BL_USB_SETUP_REQUEST_TYPE_DEVICE_TO_HOST OR flags)
       BL_USB_REQUEST_TYPE_GET_DESCRIPTOR (push_bit 8 type OR (index AND 0xff)) language length' s"

definition bl_usb_bulk_transfer :: "'d usb_st usb_env \<Rightarrow> addr \<Rightarrow> u32 \<Rightarrow> u8 list \<Rightarrow> u32 \<Rightarrow> 'd usb_st \<Rightarrow> (u8 list \<times> 'd usb_st) option" where
  "bl_usb_bulk_transfer env device direction data length' s =
     (let endp = (if direction \<noteq> 0 then dev_specific device + 20 else dev_specific device + 12)
      in hc_bulk (funcs_of env s (dev_controller (mem s) device)) (dev_controller (mem s) device)
           (dev_address (mem s) device) endp (dev_speed (mem s) device) direction data length' s)"

text \<open>A call through a null pointer has no result.\<close>

definition bl_usb_interrupt_transfer :: "'d usb_st usb_env \<Rightarrow> addr \<Rightarrow> addr \<Rightarrow> u8 list \<Rightarrow> u32 \<Rightarrow> 'd usb_st \<Rightarrow> (addr \<times> 'd usb_st) option" where
  "bl_usb_interrupt_transfer env device endp data length' s = do {
     f \<leftarrow> hc_interrupt (funcs_of env s (dev_controller (mem s) device));
     f (dev_controller (mem s) device) (dev_address (mem s) device) endp (dev_speed (mem s) device)
       (if ed_endpoint_address (mem s) (ld32 (mem s) (endp + 4)) AND 0x80 \<noteq> 0 then 0 else 1) data length' s }"

definition bl_usb_check_transfer_status :: "'d usb_st usb_env \<Rightarrow> addr \<Rightarrow> addr \<Rightarrow> 'd usb_st \<Rightarrow> (bl_status \<times> u8 list \<times> 'd usb_st) option" where
  "bl_usb_check_transfer_status env device info s = do {
     f \<leftarrow> hc_check_status (funcs_of env s (dev_controller (mem s) device));
     f info s }"

subsection \<open>Identifying a device\<close>

partial_function (option) find_interface_loop :: "mem \<Rightarrow> addr \<Rightarrow> u32 \<Rightarrow> u32 option" where
  "find_interface_loop m config_data off =
     (if desc_type m (config_data + off) \<noteq> BL_USB_DESCRIPTOR_TYPE_INTERFACE
      then find_interface_loop m config_data (off + ucast (desc_length m (config_data + off)))
      else Some off)"

partial_function (option) endpoints_loop :: "addr \<Rightarrow> addr \<Rightarrow> addr \<Rightarrow> u32 \<Rightarrow> u32 \<Rightarrow> mem \<Rightarrow> (u32 \<times> mem) option" where
  "endpoints_loop config_data interface ifc j off m =
     (if j < ucast (id_num_endpoints m interface) then
        (let endpoint = config_data + off
         in if desc_type m endpoint = BL_USB_DESCRIPTOR_TYPE_ENDPOINT then
              (let m1 = snd (bl_memcpy m (endpoint_at m ifc j) endpoint sizeof_endpoint_descriptor)
               in endpoints_loop config_data interface ifc (j + 1) (off + ucast (desc_length m1 endpoint)) m1)
            else endpoints_loop config_data interface ifc j (off + ucast (desc_length m endpoint)) m)
      else Some (off, m))"

text \<open>The body of the loop over the interfaces; \<open>False\<close> is the early return.\<close>

definition identify_interface :: "addr \<Rightarrow> addr \<Rightarrow> u32 \<Rightarrow> u32 \<Rightarrow> 'a heap_st_scheme \<Rightarrow> (bool \<times> u32 \<times> 'a heap_st_scheme) option" where
  "identify_interface device config_data i off s = do {
     off1 \<leftarrow> find_interface_loop (mem s) config_data off;
     let interface = config_data + off1;
     let s1 = s\<lparr>mem := snd (bl_memcpy (mem s) (interface_at (mem s) device i) interface sizeof_interface_descriptor)\<rparr>;
     (endpoints, s2) \<leftarrow> bl_heap_alloc s1 (ucast (id_num_endpoints (mem s1) interface) * sizeof_endpoint_descriptor);
     let s3 = s2\<lparr>mem := st32 (mem s2) (interface_at (mem s2) device i + 12) endpoints\<rparr>;
     if endpoints = 0 then Some (False, off1, s3)
     else do {
       (off2, m) \<leftarrow> endpoints_loop config_data interface (interface_at (mem s3) device i) 0
         (off1 + ucast (desc_length (mem s3) interface)) (mem s3);
       Some (True, off2, s3\<lparr>mem := m\<rparr>) } }"

text \<open>The \<open>n\<close> interfaces from the \<open>i\<close>th on.\<close>

fun interfaces_loop :: "addr \<Rightarrow> addr \<Rightarrow> nat \<Rightarrow> u32 \<Rightarrow> u32 \<Rightarrow> 'a heap_st_scheme \<Rightarrow> (bool \<times> 'a heap_st_scheme) option" where
  "interfaces_loop device config_data 0 i off s = Some (True, s)"
| "interfaces_loop device config_data (Suc n) i off s = do {
     (done, off1, s1) \<leftarrow> identify_interface device config_data i off s;
     if done then interfaces_loop device config_data n (i + 1) off1 s1 else Some (False, s1) }"

text \<open>What follows the configuration descriptor \<open>config\<close>.\<close>

definition identify_configuration :: "'d usb_st usb_env \<Rightarrow> addr \<Rightarrow> u8 list \<Rightarrow> 'd usb_st \<Rightarrow> 'd usb_st option" where
  "identify_configuration env device config s =
     (let total_length = ucast (get16 config 2); interfaces_count = get8 config 4
      in do {
        (config_data, s1) \<leftarrow> bl_heap_alloc s total_length;
        if config_data = 0 then Some s1
        else do {
          s2 \<leftarrow> get_descriptor_mem env device 0 BL_USB_DESCRIPTOR_TYPE_CONFIG 0 0 config_data total_length s1;
          (interfaces, s3) \<leftarrow> bl_heap_alloc s2 (ucast interfaces_count * sizeof_interface_descriptor);
          let s4 = s3\<lparr>mem := st32 (mem s3) (device + 44) interfaces\<rparr>;
          if interfaces = 0 then Some s4
          else do {
            (done, s5) \<leftarrow> interfaces_loop device config_data (unat interfaces_count) 0 (ucast (get8 config 0)) s4;
            Some (if done then bl_heap_free s5 config_data total_length else s5) } } })"

definition bl_usb_identify_device :: "'d usb_st usb_env \<Rightarrow> addr \<Rightarrow> 'd usb_st \<Rightarrow> 'd usb_st option" where
  "bl_usb_identify_device env device s = do {
     s1 \<leftarrow> get_descriptor_mem env device 0 BL_USB_DESCRIPTOR_TYPE_DEVICE 0 0 (dev_desc device) 8
       (s\<lparr>mem := (mem s)(dev_desc device + 7 := 0)\<rparr>);
     s2 \<leftarrow> get_descriptor_mem env device 0 BL_USB_DESCRIPTOR_TYPE_DEVICE 0 0 (dev_desc device) sizeof_device_descriptor s1;
     if dd_configurations_count (mem s2) (dev_desc device) \<noteq> 1 then Some s2
     else do {
       (config, s3) \<leftarrow> bl_usb_get_descriptor env device 0 BL_USB_DESCRIPTOR_TYPE_CONFIG 0 0 sizeof_configuration_descriptor s2;
       identify_configuration env device config (s3\<lparr>mem := mem_put (mem s3) (dev_config device) config\<rparr>) } }"

subsection \<open>Dumps\<close>

definition char_string :: "u8 \<Rightarrow> u8 list" where
  "char_string c = (if c = 0 then [] else [c])"

fun index_string_loop :: "'s callback \<Rightarrow> ('s \<Rightarrow> mem) \<Rightarrow> addr \<Rightarrow> nat \<Rightarrow> u32 \<Rightarrow> 's \<Rightarrow> 's" where
  "index_string_loop cb memory desc 0 i s = s"
| "index_string_loop cb memory desc (Suc n) i s =
     index_string_loop cb memory desc n (i + 1) (bl_print_str cb (char_string (ucast (ld16 (memory s) (desc + 2 + 2 * i) AND 0xff))) s)"

definition bl_usb_dump_index_string :: "'d usb_st usb_env \<Rightarrow> addr \<Rightarrow> u8 \<Rightarrow> 'd usb_st \<Rightarrow> 'd usb_st option" where
  "bl_usb_dump_index_string env device index s =
     (if index = 0 then Some s
      else do {
        (desc, s1) \<leftarrow> bl_usb_get_descriptor env device 0 BL_USB_DESCRIPTOR_TYPE_STRING (ucast index) 0x0409 2 s;
        let len = get8 desc 0;
        (desc_ptr, s2) \<leftarrow> bl_heap_alloc s1 (ucast len);
        if desc_ptr = 0 then Some s2
        else do {
          s3 \<leftarrow> get_descriptor_mem env device 0 BL_USB_DESCRIPTOR_TYPE_STRING (ucast index) 0x0409 desc_ptr (ucast len) s2;
          let s4 = index_string_loop (ue_print env) mem desc_ptr ((unat len - 2) div 2) 0 s3;
          let s5 = bl_print_str (ue_print env) [0xa] s4;
          Some (bl_heap_free s5 desc_ptr (ucast len)) } })"

text \<open>The counts the loops compare with are read once: printing leaves the device alone.\<close>

definition dump_endpoint :: "('d usb_st) callback \<Rightarrow> addr \<Rightarrow> u32 \<Rightarrow> u32 \<Rightarrow> 'd usb_st \<Rightarrow> 'd usb_st" where
  "dump_endpoint cb device i j s =
     (let ep = (\<lambda>s. endpoint_at (mem s) (interface_at (mem s) device i) j);
          s1 = bl_print_str cb (ascii ''Endpoint Address: '') s;
          s2 = bl_print_str cb [0xa] (bl_print_hex cb (ucast (ed_endpoint_address (mem s1) (ep s1))) s1);
          s3 = bl_print_str cb (ascii ''Attributes: '') s2;
          s4 = bl_print_str cb [0xa] (bl_print_hex cb (ucast (ed_attributes (mem s3) (ep s3))) s3);
          s5 = bl_print_str cb (ascii ''Max Packet size: '') s4
      in bl_print_str cb [0xa] (bl_print_hex cb (ucast (ed_max_packet_size (mem s5) (ep s5))) s5))"

definition dump_endpoints :: "('d usb_st) callback \<Rightarrow> addr \<Rightarrow> 'd usb_st \<Rightarrow> 'd usb_st" where
  "dump_endpoints cb device s =
     fold (\<lambda>i s. fold (\<lambda>j. dump_endpoint cb device (of_nat i) (of_nat j))
        [0..<unat (id_num_endpoints (mem s) (interface_at (mem s) device (of_nat i)))] s)
       [0..<unat (cd_interfaces_count (mem s) (dev_config device))] s"

definition bl_usb_dump_device_info :: "'d usb_st usb_env \<Rightarrow> addr \<Rightarrow> 'd usb_st \<Rightarrow> 'd usb_st option" where
  "bl_usb_dump_device_info env device s = do {
     s1 \<leftarrow> bl_usb_dump_index_string env device (dd_manufacturer_str (mem s) (dev_desc device)) s;
     s2 \<leftarrow> bl_usb_dump_index_string env device (dd_product_str (mem s1) (dev_desc device)) s1;
     s3 \<leftarrow> bl_usb_dump_index_string env device (dd_serial_number_str (mem s2) (dev_desc device)) s2;
     Some (dump_endpoints (ue_print env) device s3) }"

partial_function (option) port_chain_loop :: "('d usb_st) callback \<Rightarrow> addr \<Rightarrow> 'd usb_st \<Rightarrow> 'd usb_st option" where
  "port_chain_loop cb p s =
     (if mem s p \<noteq> 0 then port_chain_loop cb (p + 1) (bl_print_str cb (ascii ''.'') (bl_print_hex cb (scast (mem s p)) s))
      else Some s)"

definition bl_usb_dump_device_id :: "('d usb_st) callback \<Rightarrow> addr \<Rightarrow> 'd usb_st \<Rightarrow> 'd usb_st option" where
  "bl_usb_dump_device_id cb device s =
     (let kind = dev_kind (mem s) device;
          s1 = (if kind = BL_USB_HUB_DEVICE then bl_print_str cb (ascii ''Hub - '') s
                else if kind = BL_USB_STORAGE_DEVICE then bl_print_str cb (ascii ''Storage - '') s
                else if kind = BL_USB_KEYBOARD_DEVICE then bl_print_str cb (ascii ''Keyboard - '') s else s);
          s2 = bl_print_str cb (ascii ''. '') (bl_print_hex cb (dev_address (mem s1) device) (bl_print_str cb (ascii ''Address:'') s1));
          s3 = bl_print_str cb (ascii ''Port:'') s2
      in do {
        s4 \<leftarrow> (if kind = BL_USB_HUB_DEVICE then port_chain_loop cb (hub_port_chain (ld32 (mem s3) (dev_specific device))) s3
          else do {
            s31 \<leftarrow> port_chain_loop cb (hub_port_chain (dev_parent_hub (mem s3) device)) s3;
            Some (bl_print_str cb (ascii ''.'') (bl_print_hex cb (dev_port (mem s31) device) s31)) });
        let s5 = bl_print_str cb (ascii ''Vendor:'') (bl_print_str cb (ascii '' '') s4);
        let s6 = bl_print_str cb (ascii ''. '') (bl_print_hex cb (ucast (dd_vendor_id (mem s5) (dev_desc device))) s5);
        let s7 = bl_print_str cb (ascii ''Product:'') s6;
        Some (bl_print_str cb (ascii ''.'' @ [0xa]) (bl_print_hex cb (ucast (dd_product_id (mem s7) (dev_desc device))) s7)) })"

partial_function (option) dump_hub_loop :: "('d usb_st) callback \<Rightarrow> addr \<Rightarrow> addr \<Rightarrow> u32 \<Rightarrow> 'd usb_st \<Rightarrow> 'd usb_st option" where
  "dump_hub_loop cb traversal hub i s =
     (if i <s hub_ports (mem s) hub then
        (let device = ld32 (mem s) (hub_devices (mem s) hub + 4 * i)
         in if device = 0 then dump_hub_loop cb traversal hub (i + 1) s
            else do {
              s1 \<leftarrow> bl_usb_dump_device_id cb device s;
              let s2 = (if dev_kind (mem s1) device = BL_USB_HUB_DEVICE
                        then s1\<lparr>mem := bl_usb_traversal_push traversal (ld32 (mem s1) (dev_specific device)) (mem s1)\<rparr> else s1);
              dump_hub_loop cb traversal hub (i + 1) s2 })
      else Some s)"

partial_function (option) dump_traversal_loop :: "('d usb_st) callback \<Rightarrow> addr \<Rightarrow> 'd usb_st \<Rightarrow> 'd usb_st option" where
  "dump_traversal_loop cb traversal s =
     (if bl_usb_traversal_is_empty (mem s) traversal then Some s
      else case bl_usb_traversal_pop traversal (mem s) of (hub, m) \<Rightarrow> do {
        s1 \<leftarrow> dump_hub_loop cb traversal hub 0 (s\<lparr>mem := m\<rparr>);
        dump_traversal_loop cb traversal s1 })"

definition bl_usb_dump_host_controller_devices :: "('d usb_st) callback \<Rightarrow> addr \<Rightarrow> 'd usb_st \<Rightarrow> 'd usb_st option" where
  "bl_usb_dump_host_controller_devices cb hc s = do {
     (traversal, s1) \<leftarrow> bl_usb_traversal_init s;
     s2 \<leftarrow> dump_traversal_loop cb traversal (s1\<lparr>mem := bl_usb_traversal_push traversal (hc_root_hub hc) (mem s1)\<rparr>);
     Some (bl_usb_traversal_uninit traversal s2) }"

definition hc_type_name :: "u32 \<Rightarrow> u8 list option" where
  "hc_type_name kind =
     (if kind = BL_USB_HC_UHCI then Some (ascii '' - UHCI (1.5 Mb/s|12 Mb/s) :'' @ [0xa])
      else if kind = BL_USB_HC_OHCI then Some (ascii '' - OHCI (1.5 Mb/s|12 Mb/s) :'' @ [0xa])
      else if kind = BL_USB_HC_EHCI then Some (ascii '' - EHCI (480 Mb/s) :'' @ [0xa])
      else if kind = BL_USB_HC_XHCI then Some (ascii '' - XHCI (5000 Mb/s) :'' @ [0xa])
      else None)"

partial_function (option) usb_dump_loop :: "('d usb_st) callback \<Rightarrow> addr \<Rightarrow> 'd usb_st \<Rightarrow> 'd usb_st option" where
  "usb_dump_loop cb hc s =
     (if hc = 0 then Some s
      else do {
        let s1 = bl_print_hex cb (hc_bus (mem s) hc) (bl_print_str cb (ascii ''Bus : '') s);
        s2 \<leftarrow> bl_usb_dump_host_controller_devices cb hc
          (case hc_type_name (hc_kind (mem s1) hc) of None \<Rightarrow> s1 | Some name \<Rightarrow> bl_print_str cb name s1);
        usb_dump_loop cb (hc_next (mem s2) hc) s2 })"

definition bl_usb_dump :: "('d usb_st) callback \<Rightarrow> 'd usb_st \<Rightarrow> 'd usb_st option" where
  "bl_usb_dump cb s = usb_dump_loop cb (bl_usb_host_controllers s) s"

subsection \<open>Keyboards, disks and hubs\<close>

text \<open>The search for the interface: at an interface of another number the code does not advance.\<close>

partial_function (option) hid_interface_loop :: "mem \<Rightarrow> addr \<Rightarrow> addr \<Rightarrow> u32 \<Rightarrow> u32 option" where
  "hid_interface_loop m config_data interface off =
     (if desc_type m (config_data + off) = BL_USB_DESCRIPTOR_TYPE_INTERFACE then
        (if id_interface_number m (config_data + off) = id_interface_number m interface then Some off
         else hid_interface_loop m config_data interface off)
      else hid_interface_loop m config_data interface (off + ucast (desc_length m (config_data + off))))"

partial_function (option) hid_descriptor_loop :: "mem \<Rightarrow> addr \<Rightarrow> u32 \<Rightarrow> u32 option" where
  "hid_descriptor_loop m config_data off =
     (if desc_type m (config_data + off) = BL_USB_DESCRIPTOR_TYPE_HID then Some off
      else hid_descriptor_loop m config_data (off + ucast (desc_length m (config_data + off))))"

definition bl_usb_get_hid_info :: "'d usb_st usb_env \<Rightarrow> addr \<Rightarrow> 'd usb_st \<Rightarrow> (bl_status \<times> 'd usb_st) option" where
  "bl_usb_get_hid_info env device s =
     (let interface = interface_at (mem s) device (ld32 (mem s) (dev_specific device));
          total_length = (\<lambda>s. ucast (cd_total_length (mem s) (dev_config device)) :: u32)
      in do {
        (config_data, s1) \<leftarrow> bl_heap_alloc s (total_length s);
        if config_data = 0 then Some (BL_STATUS_MEMORY_ALLOCATION_FAILED, s1)
        else do {
          s2 \<leftarrow> get_descriptor_mem env device 0 BL_USB_DESCRIPTOR_TYPE_CONFIG 0 0 config_data (total_length s1) s1;
          off \<leftarrow> hid_interface_loop (mem s2) config_data interface (ucast (desc_length (mem s2) (dev_config device)));
          off1 \<leftarrow> hid_descriptor_loop (mem s2) config_data (off + ucast (desc_length (mem s2) (config_data + off)));
          let s3 = s2\<lparr>mem := snd (bl_memcpy (mem s2) (dev_specific device + 4) (config_data + off1) sizeof_hid_descriptor)\<rparr>;
          Some (BL_STATUS_SUCCESS, bl_heap_free s3 config_data (total_length s3)) } })"

definition bl_usb_hub_get_hub_descriptor :: "'d usb_st usb_env \<Rightarrow> addr \<Rightarrow> 'd usb_st \<Rightarrow> (u8 list \<times> 'd usb_st) option" where
  "bl_usb_hub_get_hub_descriptor env device s =
     bl_usb_control_transfer env device (ue_stack env (unat sizeof_hub_descriptor))
       (BL_USB_SETUP_REQUEST_TYPE_RECIPIENT_DEVICE OR BL_USB_SETUP_REQUEST_TYPE_CLASS OR BL_USB_SETUP_REQUEST_TYPE_DEVICE_TO_HOST)
       BL_USB_HUB_REQUEST_TYPE_GET_DESCRIPTOR (push_bit 8 BL_USB_DESCRIPTOR_TYPE_HUB) 0 sizeof_hub_descriptor s"

partial_function (option) port_chain_end :: "mem \<Rightarrow> addr \<Rightarrow> addr option" where
  "port_chain_end m p = (if m p \<noteq> 0 then port_chain_end m (p + 1) else Some p)"

definition bl_usb_check_hub :: "'d usb_st usb_env \<Rightarrow> addr \<Rightarrow> 'd usb_st \<Rightarrow> 'd usb_st option" where
  "bl_usb_check_hub env device s = do {
     (hub, s1) \<leftarrow> bl_heap_alloc s sizeof_usb_hub;
     if hub = 0 then Some s1
     else do {
       (descriptor, s2) \<leftarrow> bl_usb_hub_get_hub_descriptor env device s1;
       let s3 = s2\<lparr>mem := st32 (st32 (mem s2) hub (ucast (get8 descriptor 2))) (hub + 16) device\<rparr>;
       (devices, s4) \<leftarrow> bl_heap_alloc s3 (hub_ports (mem s3) hub * sizeof_usb_hub);
       let s5 = s4\<lparr>mem := st32 (mem s4) (hub + 4) devices\<rparr>;
       if devices = 0 then Some (bl_heap_free s5 hub sizeof_usb_hub)
       else do {
         let m6 = st32 (st32 (mem s5) (device + 52) BL_USB_HUB_DEVICE) (dev_specific device) hub;
         let m7 = snd (bl_memcpy m6 (hub_port_chain hub) (hub_port_chain (dev_parent_hub m6 device)) 5);
         p \<leftarrow> port_chain_end m7 (hub_port_chain hub);
         Some (s5\<lparr>mem := m7(p := ucast (dev_port m7 device))\<rparr>) } } }"

text \<open>struct bl_keyboard: type, data, the link; a keyboard claimed is registered.\<close>

definition sizeof_keyboard :: u32 where "sizeof_keyboard = 12"
definition sizeof_storage_device :: u32 where "sizeof_storage_device = 40"

definition bl_usb_claim_keyboard :: "addr \<Rightarrow> 'd usb_st \<Rightarrow> (bl_status \<times> 'd usb_st) option" where
  "bl_usb_claim_keyboard device s = do {
     (kbd, s1) \<leftarrow> bl_heap_alloc s sizeof_keyboard;
     if kbd = 0 then Some (BL_STATUS_MEMORY_ALLOCATION_FAILED, s1)
     else Some (BL_STATUS_SUCCESS, s1\<lparr>
       mem := st32 (st32 (st32 (st32 (mem s1) kbd 1) (kbd + 4) device) (kbd + 8) 0) (dev_specific device + 28) kbd,
       usb_kbds := \<lparr>kbd_type = BL_KEYBOARD_USB, kbd_data = device\<rparr> # usb_kbds s1\<rparr>) }"

fun check_keyboard_loop :: "'d usb_st usb_env \<Rightarrow> addr \<Rightarrow> nat \<Rightarrow> u32 \<Rightarrow> 'd usb_st \<Rightarrow> (bl_status \<times> 'd usb_st) option" where
  "check_keyboard_loop env device 0 i s = Some (BL_STATUS_USB_INVALID_DEVICE, s)"
| "check_keyboard_loop env device (Suc n) i s =
     (let ifc = interface_at (mem s) device i
      in if id_interface_class (mem s) ifc \<noteq> 0x3 \<or> id_interface_protocol (mem s) ifc \<noteq> 0x1
         then check_keyboard_loop env device n (i + 1) s
         else do {
           let s1 = s\<lparr>mem := st32 (mem s) (device + 52) BL_USB_KEYBOARD_DEVICE\<rparr>;
           let s2 = s1\<lparr>mem := st32 (mem s1) (dev_specific device) (ucast (id_interface_number (mem s1) (interface_at (mem s1) device i)))\<rparr>;
           (status, s3) \<leftarrow> bl_usb_get_hid_info env device s2;
           if failed status then Some (status, s3)
           else bl_usb_claim_keyboard device s3 })"

definition bl_usb_check_keyboard :: "'d usb_st usb_env \<Rightarrow> addr \<Rightarrow> 'd usb_st \<Rightarrow> (bl_status \<times> 'd usb_st) option" where
  "bl_usb_check_keyboard env device s =
     check_keyboard_loop env device (unat (cd_interfaces_count (mem s) (dev_config device))) 0 s"

text \<open>
  The claimed disk's other fields are what the heap block holds. The list of partitions and the
  controller are pointers: the model has a result only where both words are zero.
\<close>

definition bl_usb_claim_storage_device :: "addr \<Rightarrow> 'd usb_st \<Rightarrow> (bl_status \<times> 'd usb_st) option" where
  "bl_usb_claim_storage_device device s = do {
     (disk, s1) \<leftarrow> bl_heap_alloc s sizeof_storage_device;
     if disk = 0 then Some (BL_STATUS_MEMORY_ALLOCATION_FAILED, s1)
     else if ld32 (mem s1) (disk + 24) \<noteq> 0 \<or> ld32 (mem s1) (disk + 28) \<noteq> 0 then None
     else Some (BL_STATUS_SUCCESS, s1\<lparr>
       mem := st32 (st32 (st32 (mem s1) disk 1) (disk + 32) device) (disk + 36) 0,
       usb_disks := \<lparr>dev_type = BL_STORAGE_TYPE_USB_DRIVE, sector_size = ld32 (mem s1) (disk + 12),
         sector_count = ld64 (mem s1) (disk + 16), partitions = [], dev_data = device\<rparr> # usb_disks s1\<rparr>) }"

fun check_storage_loop :: "addr \<Rightarrow> nat \<Rightarrow> u32 \<Rightarrow> 'd usb_st \<Rightarrow> (bl_status \<times> 'd usb_st) option" where
  "check_storage_loop device 0 i s = Some (BL_STATUS_USB_INVALID_DEVICE, s)"
| "check_storage_loop device (Suc n) i s =
     (let ifc = interface_at (mem s) device i
      in if id_interface_class (mem s) ifc \<noteq> 0x8 then check_storage_loop device n (i + 1) s
         else let s1 = s\<lparr>mem := st32 (mem s) (device + 52) BL_USB_STORAGE_DEVICE\<rparr>;
                  s2 = s1\<lparr>mem := st32 (mem s1) (dev_specific device + 8) (ucast (id_interface_number (mem s1) (interface_at (mem s1) device i)))\<rparr>
              in bl_usb_claim_storage_device device s2)"

definition bl_usb_check_storage_device :: "addr \<Rightarrow> 'd usb_st \<Rightarrow> (bl_status \<times> 'd usb_st) option" where
  "bl_usb_check_storage_device device s = check_storage_loop device (unat (cd_interfaces_count (mem s) (dev_config device))) 0 s"

definition bl_usb_device_register_specific_info :: "'d usb_st usb_env \<Rightarrow> addr \<Rightarrow> 'd usb_st \<Rightarrow> 'd usb_st option" where
  "bl_usb_device_register_specific_info env device s =
     (let device_class = dd_device_class (mem s) (dev_desc device)
      in if device_class = 0 then do {
           (status, s1) \<leftarrow> bl_usb_check_keyboard env device s;
           if failed status then map_option snd (bl_usb_check_storage_device device s1) else Some s1 }
         else if device_class = 9 then bl_usb_check_hub env device s
         else Some s)"

subsection \<open>Registering a device\<close>

definition bl_usb_device_register :: "'d usb_st usb_env \<Rightarrow> addr \<Rightarrow> u32 \<Rightarrow> 'd usb_st \<Rightarrow> (addr \<times> 'd usb_st) option" where
  "bl_usb_device_register env hc speed s = do {
     (device, s1) \<leftarrow> bl_heap_alloc s sizeof_usb_device;
     if device = 0 then Some (0, s1)
     else do {
       let m2 = snd (bl_memset (mem s1) (dev_specific device) 0 sizeof_usb_specific);
       let m3 = st32 (st32 m2 (device + 4) speed) (device + 48) hc;
       let m4 = (if hc_kind m3 hc = BL_USB_HC_XHCI then st32 m3 device (hc_devices_count m3 hc) else m3);
       s5 \<leftarrow> bl_usb_identify_device env device (s1\<lparr>mem := m4\<rparr>);
       let controller = dev_controller (mem s5) device;
       s6 \<leftarrow> (if hc_kind (mem s5) controller \<noteq> BL_USB_HC_XHCI then do {
           let m = st32 (mem s5) device 0;
           let count = hc_devices_count m controller + 1;
           let s51 = s5\<lparr>mem := st32 m (controller + 8) count\<rparr>;
           (_, s52) \<leftarrow> bl_usb_control_transfer env device [] BL_USB_SETUP_REQUEST_TYPE_HOST_TO_DEVICE BL_USB_REQUEST_TYPE_SET_ADDRESS count 0 0 s51;
           let s53 = ue_sleep env 2 s52;
           Some (s53\<lparr>mem := st32 (mem s53) device (hc_devices_count (mem s53) (dev_controller (mem s53) device))\<rparr>) }
         else Some s5);
       (_, s7) \<leftarrow> bl_usb_control_transfer env device []
         (BL_USB_SETUP_REQUEST_TYPE_HOST_TO_DEVICE OR BL_USB_SETUP_REQUEST_TYPE_STANDARD OR BL_USB_SETUP_REQUEST_TYPE_RECIPIENT_DEVICE)
         BL_USB_REQUEST_TYPE_SET_CONFIGURATION 1 0 0 s6;
       s8 \<leftarrow> bl_usb_dump_device_info env device s7;
       Some (device, s8) } }"

subsection \<open>Hubs\<close>

text \<open>The status of a port: its two halves, from a local variable.\<close>

definition bl_usb_hub_get_port_status :: "'d usb_st usb_env \<Rightarrow> addr \<Rightarrow> u32 \<Rightarrow> 'd usb_st \<Rightarrow> ((u16 \<times> u16) \<times> 'd usb_st) option" where
  "bl_usb_hub_get_port_status env device port s = do {
     (info, s1) \<leftarrow> bl_usb_control_transfer env device (ue_stack env (unat sizeof_hub_port_status))
       (BL_USB_SETUP_REQUEST_TYPE_RECIPIENT_OTHER OR BL_USB_SETUP_REQUEST_TYPE_CLASS OR BL_USB_SETUP_REQUEST_TYPE_DEVICE_TO_HOST)
       BL_USB_HUB_REQUEST_TYPE_GET_STATUS 0 port sizeof_hub_port_status s;
     Some ((get16 info 0, get16 info 2), s1) }"

definition bl_usb_hub_clear_port_feature :: "'d usb_st usb_env \<Rightarrow> addr \<Rightarrow> u32 \<Rightarrow> u32 \<Rightarrow> 'd usb_st \<Rightarrow> 'd usb_st option" where
  "bl_usb_hub_clear_port_feature env device port feature s =
     map_option snd (bl_usb_control_transfer env device []
       (BL_USB_SETUP_REQUEST_TYPE_RECIPIENT_OTHER OR BL_USB_SETUP_REQUEST_TYPE_CLASS OR BL_USB_SETUP_REQUEST_TYPE_HOST_TO_DEVICE)
       BL_USB_HUB_REQUEST_TYPE_CLEAR_FEATURE feature port 0 s)"

definition bl_usb_hub_set_port_feature :: "'d usb_st usb_env \<Rightarrow> addr \<Rightarrow> u32 \<Rightarrow> u32 \<Rightarrow> 'd usb_st \<Rightarrow> 'd usb_st option" where
  "bl_usb_hub_set_port_feature env device port feature s =
     map_option snd (bl_usb_control_transfer env device []
       (BL_USB_SETUP_REQUEST_TYPE_RECIPIENT_OTHER OR BL_USB_SETUP_REQUEST_TYPE_CLASS OR BL_USB_SETUP_REQUEST_TYPE_HOST_TO_DEVICE)
       BL_USB_HUB_REQUEST_TYPE_SET_FEATURE feature port 0 s)"

fun reset_port_loop :: "'d usb_st usb_env \<Rightarrow> addr \<Rightarrow> u32 \<Rightarrow> nat \<Rightarrow> 'd usb_st \<Rightarrow> (bool \<times> 'd usb_st) option" where
  "reset_port_loop env device port 0 s = Some (False, s)"
| "reset_port_loop env device port (Suc n) s = do {
     ((status, change), s1) \<leftarrow> bl_usb_hub_get_port_status env device port s;
     if change AND BL_USB_HUB_PORT_CHANGE_RESET \<noteq> 0 then Some (True, s1)
     else reset_port_loop env device port n (ue_sleep env 10 s1) }"

definition bl_usb_hub_reset_port :: "'d usb_st usb_env \<Rightarrow> addr \<Rightarrow> u32 \<Rightarrow> 'd usb_st \<Rightarrow> 'd usb_st option" where
  "bl_usb_hub_reset_port env device port s = do {
     s1 \<leftarrow> bl_usb_hub_set_port_feature env device port BL_USB_HUB_FEATURE_PORT_RESET s;
     (done, s2) \<leftarrow> reset_port_loop env device port 10 s1;
     if \<not> done then Some s2
     else bl_usb_hub_clear_port_feature env device port BL_USB_HUB_FEATURE_C_PORT_RESET s2 }"

definition bl_usb_hub_get_port_device_speed :: "'d usb_st usb_env \<Rightarrow> addr \<Rightarrow> u32 \<Rightarrow> 'd usb_st \<Rightarrow> (u32 \<times> 'd usb_st) option" where
  "bl_usb_hub_get_port_device_speed env device port s = do {
     ((status, change), s1) \<leftarrow> bl_usb_hub_get_port_status env device port s;
     Some (if status AND BL_USB_HUB_PORT_STATUS_LOW_SPEED_DEVICE \<noteq> 0 then BL_USB_LOW_SPEED
           else if status AND BL_USB_HUB_PORT_STATUS_HIGH_SPEED_DEVICE \<noteq> 0 then BL_USB_HIGH_SPEED
           else BL_USB_FULL_SPEED, s1) }"

definition bl_usb_hub_link_device :: "addr \<Rightarrow> addr \<Rightarrow> u32 \<Rightarrow> mem \<Rightarrow> mem" where
  "bl_usb_hub_link_device hub device port m =
     (let m1 = st32 (st32 m (device + 8) port) (device + 12) hub
      in st32 m1 (hub_devices m1 hub + 4 * (port - 1)) device)"

text \<open>One connected port of a hub: reset, register, link; a hub found is queued.\<close>

definition poll_connected :: "'d usb_st usb_env \<Rightarrow> addr \<Rightarrow> addr \<Rightarrow> u32 \<Rightarrow> 'd usb_st \<Rightarrow> 'd usb_st option" where
  "poll_connected env traversal hub i s = do {
     s1 \<leftarrow> bl_usb_hub_reset_port env (hub_device (mem s) hub) i s;
     (speed, s2) \<leftarrow> bl_usb_hub_get_port_device_speed env (hub_device (mem s1) hub) i s1;
     (port_device, s3) \<leftarrow> bl_usb_device_register env (dev_controller (mem s2) (hub_device (mem s2) hub)) speed s2;
     if port_device = 0 then Some s3
     else do {
       s4 \<leftarrow> bl_usb_device_register_specific_info env port_device (s3\<lparr>mem := bl_usb_hub_link_device hub port_device i (mem s3)\<rparr>);
       Some (if dev_kind (mem s4) port_device = BL_USB_HUB_DEVICE
             then s4\<lparr>mem := bl_usb_traversal_push traversal (ld32 (mem s4) (dev_specific port_device)) (mem s4)\<rparr> else s4) } }"

definition poll_port :: "'d usb_st usb_env \<Rightarrow> addr \<Rightarrow> addr \<Rightarrow> u32 \<Rightarrow> 'd usb_st \<Rightarrow> 'd usb_st option" where
  "poll_port env traversal hub i s = do {
     ((status, change), s1) \<leftarrow> bl_usb_hub_get_port_status env (hub_device (mem s) hub) i s;
     if change AND BL_USB_HUB_PORT_CHANGE_CONNECT_STATUS \<noteq> 0 then do {
       s2 \<leftarrow> bl_usb_hub_clear_port_feature env (hub_device (mem s1) hub) i BL_USB_HUB_FEATURE_C_PORT_CONNECTION s1;
       if status AND BL_USB_HUB_PORT_STATUS_CONNECT_STATUS \<noteq> 0 then poll_connected env traversal hub i s2 else Some s2 }
     else Some s1 }"

partial_function (option) poll_ports_loop :: "'d usb_st usb_env \<Rightarrow> addr \<Rightarrow> addr \<Rightarrow> u32 \<Rightarrow> 'd usb_st \<Rightarrow> 'd usb_st option" where
  "poll_ports_loop env traversal hub i s =
     (if i \<le>s hub_ports (mem s) hub then do {
        s1 \<leftarrow> poll_port env traversal hub i s;
        poll_ports_loop env traversal hub (i + 1) s1 }
      else Some s)"

partial_function (option) poll_traversal_loop :: "'d usb_st usb_env \<Rightarrow> addr \<Rightarrow> 'd usb_st \<Rightarrow> 'd usb_st option" where
  "poll_traversal_loop env traversal s =
     (if bl_usb_traversal_is_empty (mem s) traversal then Some s
      else case bl_usb_traversal_pop traversal (mem s) of (hub, m) \<Rightarrow> do {
        s1 \<leftarrow> poll_ports_loop env traversal hub 1 (s\<lparr>mem := m\<rparr>);
        poll_traversal_loop env traversal s1 })"

definition bl_usb_hub_poll :: "'d usb_st usb_env \<Rightarrow> addr \<Rightarrow> 'd usb_st \<Rightarrow> 'd usb_st option" where
  "bl_usb_hub_poll env hub s = do {
     (traversal, s1) \<leftarrow> bl_usb_traversal_init s;
     s2 \<leftarrow> poll_traversal_loop env traversal (s1\<lparr>mem := bl_usb_traversal_push traversal hub (mem s1)\<rparr>);
     Some (bl_usb_traversal_uninit traversal s2) }"

definition root_device_set :: "addr \<Rightarrow> u32 \<Rightarrow> addr \<Rightarrow> mem \<Rightarrow> mem" where
  "root_device_set hc i device m = st32 m (hub_devices m (hc_root_hub hc) + 4 * i) device"

text \<open>Preparing port \<open>i\<close>: a result is the speed of the device, 2^32 - 1 for none.\<close>

definition root_port_speed :: "'d usb_st usb_env \<Rightarrow> addr \<Rightarrow> u32 \<Rightarrow> 'd usb_st \<Rightarrow> (u32 \<times> 'd usb_st) option" where
  "root_port_speed env hc i s =
     (if hc_kind (mem s) hc = BL_USB_HC_XHCI then
        (let count = hc_devices_count (mem s) hc + 1
         in hc_port_init (funcs_of env s hc) hc i count (s\<lparr>mem := st32 (mem s) (hc + 8) count\<rparr>))
      else do {
        (speed, s1) \<leftarrow> hc_port_get_speed (funcs_of env s hc) hc i s;
        s2 \<leftarrow> hc_port_reset (funcs_of env s1 hc) hc i s1;
        Some (speed, s2) })"

definition root_port :: "'d usb_st usb_env \<Rightarrow> addr \<Rightarrow> u32 \<Rightarrow> 'd usb_st \<Rightarrow> 'd usb_st option" where
  "root_port env hc i s = do {
     (connected, s1) \<leftarrow> hc_port_connected (funcs_of env s hc) hc i s;
     if \<not> connected then Some (s1\<lparr>mem := root_device_set hc i 0 (mem s1)\<rparr>)
     else do {
       (speed, s2) \<leftarrow> root_port_speed env hc i s1;
       if speed = -1 then Some (s2\<lparr>mem := root_device_set hc i 0 (mem s2)\<rparr>)
       else do {
         (device, s3) \<leftarrow> bl_usb_device_register env hc speed s2;
         if device \<noteq> 0
         then bl_usb_device_register_specific_info env device
                (s3\<lparr>mem := bl_usb_hub_link_device (hc_root_hub hc) device (i + 1) (mem s3)\<rparr>)
         else Some (s3\<lparr>mem := root_device_set hc i 0 (mem s3)\<rparr>) } } }"

fun root_ports_loop :: "'d usb_st usb_env \<Rightarrow> addr \<Rightarrow> nat \<Rightarrow> u32 \<Rightarrow> 'd usb_st \<Rightarrow> 'd usb_st option" where
  "root_ports_loop env hc 0 i s = Some s"
| "root_ports_loop env hc (Suc n) i s = do {
     s1 \<leftarrow> root_port env hc i s;
     root_ports_loop env hc n (i + 1) s1 }"

definition bl_usb_hub_root_register :: "'d usb_st usb_env \<Rightarrow> addr \<Rightarrow> 'd usb_st \<Rightarrow> 'd usb_st option" where
  "bl_usb_hub_root_register env hc s =
     (let s1 = s\<lparr>mem := st32 (mem s) (hc_root_hub hc + 16) 0\<rparr>; ports = hub_ports (mem s1) (hc_root_hub hc)
      in do {
        (devices, s2) \<leftarrow> bl_heap_alloc s1 (ports * sizeof_usb_device);
        let s3 = s2\<lparr>mem := st32 (mem s2) (hc_root_hub hc + 4) devices\<rparr>;
        if devices = 0 then Some s3
        else do {
          s4 \<leftarrow> root_ports_loop env hc (nat (sint ports)) 0
            (s3\<lparr>mem := snd (bl_memset (mem s3) (hub_port_chain (hc_root_hub hc)) 0 5)\<rparr>);
          Some (s4\<lparr>mem := st32 (mem s4) (hc_root_hub hc + 20) (bl_root_hubs s4), bl_root_hubs := hc_root_hub hc\<rparr>) } })"

partial_function (option) poll_root_loop :: "'d usb_st usb_env \<Rightarrow> addr \<Rightarrow> u32 \<Rightarrow> 'd usb_st \<Rightarrow> 'd usb_st option" where
  "poll_root_loop env root_hub i s =
     (if i <s hub_ports (mem s) root_hub then
        (let device = ld32 (mem s) (hub_devices (mem s) root_hub + 4 * i)
         in if dev_kind (mem s) device = BL_USB_HUB_DEVICE then do {
              s1 \<leftarrow> bl_usb_hub_poll env (ld32 (mem s) (dev_specific device)) s;
              poll_root_loop env root_hub (i + 1) s1 }
            else poll_root_loop env root_hub (i + 1) s)
      else Some s)"

partial_function (option) usb_poll_loop :: "'d usb_st usb_env \<Rightarrow> addr \<Rightarrow> 'd usb_st \<Rightarrow> 'd usb_st option" where
  "usb_poll_loop env root_hub s =
     (if root_hub = 0 then Some s
      else do {
        s1 \<leftarrow> poll_root_loop env root_hub 0 s;
        usb_poll_loop env (hub_next (mem s1) root_hub) s1 })"

definition bl_usb_poll :: "'d usb_st usb_env \<Rightarrow> 'd usb_st \<Rightarrow> 'd usb_st option" where
  "bl_usb_poll env s = usb_poll_loop env (bl_root_hubs s) s"

subsection \<open>Host controllers\<close>

partial_function (option) usb_setup_loop :: "'d usb_st usb_env \<Rightarrow> addr \<Rightarrow> 'd usb_st \<Rightarrow> 'd usb_st option" where
  "usb_setup_loop env hc s =
     (if hc = 0 then Some s
      else do {
        let s1 = s\<lparr>bl_usb_buses := bl_usb_buses s + 1, mem := st32 (st32 (mem s) (hc + 4) (bl_usb_buses s + 1)) (hc + 8) 0\<rparr>;
        s2 \<leftarrow> bl_usb_hub_root_register env hc s1;
        usb_setup_loop env (hc_next (mem s2) hc) s2 })"

definition bl_usb_setup :: "'d usb_st usb_env \<Rightarrow> 'd usb_st \<Rightarrow> 'd usb_st option" where
  "bl_usb_setup env s = usb_setup_loop env (bl_usb_host_controllers s) s"

definition bl_usb_host_controller_register :: "addr \<Rightarrow> 'd usb_st \<Rightarrow> 'd usb_st" where
  "bl_usb_host_controller_register hc s =
     s\<lparr>mem := st32 (mem s) (hc + 44) (bl_usb_host_controllers s), bl_usb_host_controllers := hc\<rparr>"

definition bl_usb_host_controller_unregister :: "addr \<Rightarrow> 'd usb_st \<Rightarrow> 'd usb_st" where
  "bl_usb_host_controller_unregister hc s = s"

subsection \<open>A traversal is a queue\<close>

lemma st32_apart [mem_simps]:
  assumes "apart a 4 b k" "fits a 4" "fits b k"
  shows "mem_get (st32 m a v) b k = mem_get m b k" "k = 4 \<Longrightarrow> ld32 (st32 m a v) b = ld32 m b"
  using mem_get_put_apart [of a "to_le 4 (unat v)" b k m] assms by (simp_all add: st32_def ld32_def)

text \<open>\<open>q\<close> are the hubs waiting, \<open>n\<close> is the number of pushes so far; the array takes 126 of them.\<close>

definition traversal_queue :: "mem \<Rightarrow> addr \<Rightarrow> addr list \<Rightarrow> nat \<Rightarrow> bool" where
  "traversal_queue m t q n \<longleftrightarrow> fits t 516 \<and> unat (tr_tail m t) = n \<and> unat (tr_head m t) + length q = n \<and> n \<le> 126 \<and>
     (\<forall>i < length q. ld32 m (tr_hub_at t (of_nat (unat (tr_head m t) + i))) = q ! i)"

lemma tr_hub_at_unat: "fits t 516 \<Longrightarrow> i \<le> 126 \<Longrightarrow> unat (tr_hub_at t (of_nat i)) = unat t + 8 + 4 * i"
proof -
  assume a: "fits t 516" "i \<le> 126"
  have "tr_hub_at t (of_nat i) = t + of_nat (8 + 4 * i)" by (simp add: tr_hub_at_def)
  also have "unat \<dots> = unat t + (8 + 4 * i)" using a by (intro unat_add_lt) (simp add: fits_def)
  finally show ?thesis by simp
qed

lemma tr_tail_unat: "fits t 516 \<Longrightarrow> unat (t + 4) = unat t + 4"
  using unat_add_lt [of t 4] by (simp add: fits_def)

lemma traversal_apart:
  assumes "fits t 516" "i \<le> 126"
  shows "apart (tr_hub_at t (of_nat i)) 4 t 4" "apart (tr_hub_at t (of_nat i)) 4 (t + 4) 4" "apart t 4 (t + 4) 4" "apart (t + 4) 4 t 4"
    "apart t 4 (tr_hub_at t (of_nat i)) 4" "apart (t + 4) 4 (tr_hub_at t (of_nat i)) 4"
    "fits (tr_hub_at t (of_nat i)) 4" "fits (t + 4) 4" "fits t 4"
    "j \<le> 126 \<Longrightarrow> i \<noteq> j \<Longrightarrow> apart (tr_hub_at t (of_nat i)) 4 (tr_hub_at t (of_nat j)) 4"
  using assms by (auto simp: apart_def fits_def tr_hub_at_unat tr_tail_unat)

lemma small_sless: "i \<le> 127 \<Longrightarrow> j \<le> 127 \<Longrightarrow> (of_nat i <s (of_nat j :: u32)) = (i < j)"
proof -
  assume a: "i \<le> 127" "j \<le> 127"
  have "sint (of_nat k :: u32) = int k" if "k \<le> 127" for k :: nat
    using that by (simp add: sint_uint take_bit_eq_mod signed_take_bit_eq_take_bit_shift unsigned_of_nat)
  then show ?thesis using a by (simp add: word_sless_alt)
qed

lemma traversal_words:
  assumes "traversal_queue m t q n"
  obtains h where "tr_tail m t = of_nat n" "tr_head m t = of_nat h" "h + length q = n" "fits t 516" "n \<le> 126"
    "\<And>i. i < length q \<Longrightarrow> ld32 m (tr_hub_at t (of_nat (h + i))) = q ! i"
proof
  show "tr_tail m t = of_nat n" "tr_head m t = of_nat (unat (tr_head m t))" using assms by (auto simp: traversal_queue_def)
qed (use assms in \<open>auto simp: traversal_queue_def\<close>)

lemma traversal_queueI:
  assumes "fits t 516" "tr_tail m t = of_nat n" "tr_head m t = of_nat h" "h + length q = n" "n \<le> 126"
    "\<And>i. i < length q \<Longrightarrow> ld32 m (tr_hub_at t (of_nat (h + i))) = q ! i"
  shows "traversal_queue m t q n"
proof -
  have u: "unat (of_nat n :: u32) = n" "unat (of_nat h :: u32) = h" using assms(4,5) by (simp_all add: unat_of_nat_eq)
  then show ?thesis using assms by (auto simp: traversal_queue_def)
qed

lemma traversal_empty:
  assumes "traversal_queue m t q n"
  shows "bl_usb_traversal_is_empty m t \<longleftrightarrow> q = []"
proof -
  have "unat (tr_head m t) = unat (tr_tail m t) \<longleftrightarrow> q = []" using assms by (auto simp: traversal_queue_def)
  then show ?thesis by (simp add: bl_usb_traversal_is_empty_def word_unat_eq_iff)
qed

lemma traversal_push:
  assumes "traversal_queue m t q n"
  shows "traversal_queue (bl_usb_traversal_push t hub m) t (if n < 126 then q @ [hub] else q) (min 126 (n + 1))"
proof -
  obtain h where w: "tr_tail m t = of_nat n" "tr_head m t = of_nat h" "h + length q = n" "fits t 516" "n \<le> 126"
      "\<And>i. i < length q \<Longrightarrow> ld32 m (tr_hub_at t (of_nat (h + i))) = q ! i"
    using traversal_words [OF assms] by blast
  note a = traversal_apart [OF w(4)]
  show ?thesis
  proof (cases "n < 126")
    case False
    then show ?thesis using w assms small_sless [of n 126] by (simp add: bl_usb_traversal_push_def min_def)
  next
    case True
    let ?m1 = "st32 m (t + 4) (of_nat n + 1)"
    let ?m = "st32 ?m1 (tr_hub_at t (of_nat n)) hub"
    have p: "bl_usb_traversal_push t hub m = ?m"
      using w True small_sless [of n 126] by (simp add: bl_usb_traversal_push_def Let_def)
    have "tr_tail ?m t = of_nat (n + 1)" "tr_head ?m t = of_nat h"
      using a [of n] w True by (simp_all add: tr_tail_def tr_head_def st32_apart(2) ld_st_same add.commute)
    moreover have "ld32 ?m (tr_hub_at t (of_nat (h + i))) = (q @ [hub]) ! i" if "i < length (q @ [hub])" for i
    proof (cases "i = length q")
      case True
      then show ?thesis using w(3) by (simp add: ld_st_same nth_append)
    next
      case False
      then have i: "i < length q" "h + i \<noteq> n" "h + i \<le> 126" using that w(3,5) by auto
      have "ld32 ?m (tr_hub_at t (of_nat (h + i))) = ld32 m (tr_hub_at t (of_nat (h + i)))"
        using a(6,7,8) [OF i(3)] a(7) [OF w(5)] a(10) [OF w(5) i(3) i(2) [symmetric]] by (simp only: st32_apart(2))
      then show ?thesis using w(6) [OF i(1)] i by (simp add: nth_append)
    qed
    ultimately show ?thesis
      unfolding p using w True by (intro traversal_queueI [where h = h]) auto
  qed
qed

lemma traversal_pop:
  assumes "traversal_queue m t q n"
  shows "(case q of [] \<Rightarrow> bl_usb_traversal_pop t m = (0, m)
    | h # q' \<Rightarrow> fst (bl_usb_traversal_pop t m) = h \<and> traversal_queue (snd (bl_usb_traversal_pop t m)) t q' n)"
proof -
  obtain h where w: "tr_tail m t = of_nat n" "tr_head m t = of_nat h" "h + length q = n" "fits t 516" "n \<le> 126"
      "\<And>i. i < length q \<Longrightarrow> ld32 m (tr_hub_at t (of_nat (h + i))) = q ! i"
    using traversal_words [OF assms] by blast
  note a = traversal_apart [OF w(4)]
  show ?thesis
  proof (cases q)
    case Nil
    then show ?thesis using w by (simp add: bl_usb_traversal_pop_def word_sless_alt)
  next
    case (Cons x q')
    let ?m = "st32 m t (of_nat h + 1)"
    have l: "h < n" "h \<le> 126" using w Cons by auto
    have p: "bl_usb_traversal_pop t m = (ld32 ?m (tr_hub_at t (of_nat h)), ?m)"
      using w l small_sless [of h n] by (simp add: bl_usb_traversal_pop_def Let_def)
    have k: "ld32 ?m (tr_hub_at t (of_nat i)) = ld32 m (tr_hub_at t (of_nat i))" if "i \<le> 126" for i
      using a(5,7,9) [OF that] by (simp only: st32_apart(2))
    have "ld32 ?m (tr_hub_at t (of_nat h)) = x" using k [OF l(2)] w(6) [of 0] Cons by simp
    moreover have "tr_tail ?m t = of_nat n" "tr_head ?m t = of_nat (h + 1)"
      using a [of 0] w by (simp_all add: tr_tail_def tr_head_def st32_apart(2) ld_st_same add.commute)
    moreover have "ld32 ?m (tr_hub_at t (of_nat (h + 1 + i))) = q' ! i" if "i < length q'" for i
      using that k [of "h + 1 + i"] w(6) [of "Suc i"] w(3,5) Cons by simp
    ultimately show ?thesis
      unfolding p using w Cons by (auto intro!: traversal_queueI [where h = "h + 1"])
  qed
qed

subsection \<open>Stores inside a block\<close>

text \<open>Memories that differ only in the \<open>n\<close> bytes at \<open>a\<close>.\<close>

definition same_outside :: "addr \<Rightarrow> nat \<Rightarrow> mem \<Rightarrow> mem \<Rightarrow> bool" where
  "same_outside a n m m' \<longleftrightarrow> (\<forall>x. n \<le> unat (x - a) \<longrightarrow> m' x = m x)"

lemma same_outside_refl [simp]: "same_outside a n m m"
  by (simp add: same_outside_def)

lemma same_outside_trans: "same_outside a n m m1 \<Longrightarrow> same_outside a n m1 m2 \<Longrightarrow> same_outside a n m m2"
  by (simp add: same_outside_def)

lemma same_outside_put:
  assumes "k + length bs \<le> n"
  shows "same_outside a n m (mem_put m (a + of_nat k) bs)"
  unfolding same_outside_def
proof (intro allI impI)
  fix x assume x: "n \<le> unat (x - a)"
  have "x - a = of_nat k + (x - (a + of_nat k))" by simp
  have "k < 2 ^ 32" using x assms unat_lt2p [of "x - a"] by simp
  then have "unat (of_nat k :: addr) = k" by (intro unat_of_nat_eq) simp
  then have "unat (x - a - of_nat k) = unat (x - a) - k" using x assms by (simp add: unat_sub word_le_nat_alt)
  then show "mem_put m (a + of_nat k) bs x = m x" using x assms by (intro mem_put_out) (simp add: diff_diff_eq)
qed

lemma same_outside_st32: "k + 4 \<le> n \<Longrightarrow> same_outside a n m (st32 m (a + of_nat k) v)"
  by (simp add: st32_def same_outside_put)

lemma same_outside_get:
  assumes "same_outside a n m m'" "apart a n b k" "fits a n" "fits b k"
  shows "mem_get m' b k = mem_get m b k"
  by (rule mem_get_eqI) (use assms apart_offset [OF assms(2,3) _ assms(4)] in \<open>simp add: same_outside_def\<close>)

lemma same_outside_write: "same_outside a n m m' \<Longrightarrow> n \<le> 2 ^ 32 \<Longrightarrow> m' = mem_put m a (mem_get m' a n)"
proof
  fix x assume s: "same_outside a n m m'" "n \<le> 2 ^ 32"
  show "m' x = mem_put m a (mem_get m' a n) x"
    using s by (cases "n \<le> unat (x - a)") (auto simp: same_outside_def mem_put_def mem_get_def)
qed

lemma heap_ok_inside:
  assumes "heap_ok s B L" "(a, n) \<in> L" "same_outside a n (mem s) m'"
  shows "heap_ok (s\<lparr>mem := m'\<rparr>) B L" "\<forall>(b, k) \<in> L. b \<noteq> a \<longrightarrow> mem_get m' b k = mem_get (mem s) b k"
proof -
  have f: "fits a n" "\<forall>(b, k) \<in> L. fits b k" using heap.blocks_fit [OF heap_ok_live [OF assms(1)]] assms(2) by auto
  have w: "m' = mem_put (mem s) a (mem_get m' a n)" by (rule same_outside_write [OF assms(3)]) (use f in \<open>simp add: fits_def\<close>)
  then have "s\<lparr>mem := m'\<rparr> = heap_write s a (mem_get m' a n)" by (simp add: heap_write_def)
  then show "heap_ok (s\<lparr>mem := m'\<rparr>) B L" using heap_ok_write [OF assms(1,2), of "mem_get m' a n"] by simp
  show "\<forall>(b, k) \<in> L. b \<noteq> a \<longrightarrow> mem_get m' b k = mem_get (mem s) b k"
    using heap.blocks_apart [OF heap_ok_live [OF assms(1)]] assms(2,3) f by (auto intro!: same_outside_get)
qed

subsection \<open>A fresh traversal\<close>

lemma traversal_clear_keeps:
  assumes "fits t 516" "i + n \<le> 127"
  shows "same_outside t 516 m (traversal_clear t n (of_nat i) m) \<and> tr_head (traversal_clear t n (of_nat i) m) t = tr_head m t \<and>
    tr_tail (traversal_clear t n (of_nat i) m) t = tr_tail m t"
  using assms(2)
proof (induction n arbitrary: i m)
  case (Suc n)
  let ?m = "st32 m (tr_hub_at t (of_nat i)) 0"
  have i: "i \<le> 126" "Suc i + n \<le> 127" using Suc.prems by auto
  have c: "traversal_clear t (Suc n) (of_nat i) m = traversal_clear t n (of_nat (Suc i)) ?m" by (simp add: add.commute)
  have "tr_hub_at t (of_nat i) = t + of_nat (8 + 4 * i)" by (simp add: tr_hub_at_def)
  then have o: "same_outside t 516 m ?m" using same_outside_st32 [of "8 + 4 * i" 516 t m 0] i by simp
  have "tr_head ?m t = tr_head m t" "tr_tail ?m t = tr_tail m t"
    using traversal_apart [OF assms(1) i(1)] by (simp_all add: tr_head_def tr_tail_def st32_apart(2))
  then show ?case unfolding c using Suc.IH [OF i(2), of ?m] same_outside_trans [OF o] by auto
qed simp

lemma traversal_init_ok:
  assumes "heap_ok s (B + 564) L"
  shows "\<exists>t k s'. bl_usb_traversal_init s = Some (t, s') \<and> heap_ok s' B (insert (t, k) L) \<and> 516 \<le> k \<and>
    (\<forall>j. (t, j) \<notin> L) \<and> traversal_queue (mem s') t [] 0 \<and> heap_st.more s' = heap_st.more s \<and>
    (\<forall>(b, j) \<in> L. mem_get (mem s') b j = mem_get (mem s) b j)"
proof -
  have "unat sizeof_usb_traversal = 516" by (simp add: sizeof_usb_traversal_def)
  then have "heap_ok s (B + unat sizeof_usb_traversal + 48) L" using assms by (simp add: add.commute)
  from heap_ok_alloc [OF this] obtain t s1 where
    1: "bl_heap_alloc s sizeof_usb_traversal = Some (t, s1)" "t \<noteq> 0" "516 \<le> block_size s1 t"
      "heap_ok s1 B (insert (t, block_size s1 t) L)" "\<forall>k. (t, k) \<notin> L"
      "\<forall>(b, k) \<in> L. mem_get (mem s1) b k = mem_get (mem s) b k" "heap_st.more s1 = heap_st.more s"
    by (auto simp: sizeof_usb_traversal_def)
  let ?k = "block_size s1 t"
  let ?start = "st32 (st32 (mem s1) (t + 4) 0) t 0"
  let ?m = "traversal_clear t 127 (of_nat 0) ?start"
  have f: "fits t 516" using heap.blocks_fit [OF heap_ok_live [OF 1(4)], of t ?k] 1(3) by (simp add: fits_def)
  note a = traversal_apart [OF f, of 0, simplified]
  have w: "tr_head ?start t = 0" "tr_tail ?start t = 0"
    using a by (simp_all add: tr_head_def tr_tail_def ld_st_same st32_apart(2))
  have c: "same_outside t 516 ?start ?m" "tr_head ?m t = tr_head ?start t" "tr_tail ?m t = tr_tail ?start t"
    using traversal_clear_keeps [OF f, of 0 127 ?start] by auto
  have "same_outside t 516 (mem s1) ?start"
    using same_outside_st32 [of 4 516 t "mem s1" 0] same_outside_st32 [of 0 516 t "st32 (mem s1) (t + 4) 0" 0]
    by (auto intro: same_outside_trans)
  then have "same_outside t 516 (mem s1) ?m" using c(1) by (auto intro: same_outside_trans)
  then have o: "same_outside t ?k (mem s1) ?m" using 1(3) by (auto simp: same_outside_def)
  note h = heap_ok_inside [OF 1(4) insertI1 o]
  have "traversal_queue ?m t [] 0"
    by (rule traversal_queueI [where h = 0]) (use f w c(2,3) in simp_all)
  moreover have "bl_usb_traversal_init s = Some (t, s1\<lparr>mem := ?m\<rparr>)" using 1(1,2) by (simp add: bl_usb_traversal_init_def)
  moreover have "\<forall>(b, j) \<in> L. mem_get ?m b j = mem_get (mem s) b j"
    using h(2) 1(5,6) by fastforce
  ultimately show ?thesis using h(1) 1(3,5,7)
    by - (rule exI [of _ t], rule exI [of _ ?k], rule exI [of _ "s1\<lparr>mem := ?m\<rparr>"], simp)
qed

subsection \<open>Lists of descriptors\<close>

text \<open>Every descriptor starts with its length and its type.\<close>

definition is_interface :: "u8 list \<Rightarrow> bool" where "is_interface d \<longleftrightarrow> d ! 1 = BL_USB_DESCRIPTOR_TYPE_INTERFACE"
definition is_endpoint :: "u8 list \<Rightarrow> bool" where "is_endpoint d \<longleftrightarrow> d ! 1 = BL_USB_DESCRIPTOR_TYPE_ENDPOINT"

definition desc_ok :: "u8 list \<Rightarrow> bool" where
  "desc_ok d \<longleftrightarrow> 2 \<le> length d \<and> length d < 256 \<and> d ! 0 = of_nat (length d) \<and>
     (is_interface d \<longrightarrow> 9 \<le> length d) \<and> (is_endpoint d \<longrightarrow> 7 \<le> length d)"

definition descriptors_at :: "mem \<Rightarrow> addr \<Rightarrow> u8 list list \<Rightarrow> bool" where
  "descriptors_at m p ds \<longleftrightarrow> (\<forall>d \<in> set ds. desc_ok d) \<and> mem_get m p (length (concat ds)) = concat ds"

fun take_endpoints :: "nat \<Rightarrow> u8 list list \<Rightarrow> (u8 list list \<times> u8 list list) option" where
  "take_endpoints 0 ds = Some ([], ds)"
| "take_endpoints (Suc n) [] = None"
| "take_endpoints (Suc n) (d # ds) =
     (if is_endpoint d then map_option (\<lambda>(es, rest). (d # es, rest)) (take_endpoints n ds) else take_endpoints (Suc n) ds)"

text \<open>An interface and as many endpoints as it says, \<open>n\<close> times.\<close>

fun parse_interfaces :: "nat \<Rightarrow> u8 list list \<Rightarrow> (u8 list \<times> u8 list list) list option" where
  "parse_interfaces 0 ds = Some []"
| "parse_interfaces (Suc n) ds =
     (case dropWhile (\<lambda>d. \<not> is_interface d) ds of
        [] \<Rightarrow> None
      | d # rest \<Rightarrow> (case take_endpoints (unat (d ! 4)) rest of
            None \<Rightarrow> None
          | Some (es, rest') \<Rightarrow> map_option ((#) (d, es)) (parse_interfaces n rest')))"

lemma descriptors_Cons:
  assumes "descriptors_at m p (d # ds)"
  shows "desc_ok d" "mem_get m p (length d) = d" "ucast (desc_length m p) = (of_nat (length d) :: u32)" "desc_type m p = d ! 1"
    "descriptors_at m (p + of_nat (length d)) ds"
proof -
  have e: "mem_get m p (length d) = d" "mem_get m (p + of_nat (length d)) (length (concat ds)) = concat ds"
    using assms by (auto simp: descriptors_at_def mem_get_add)
  then show "mem_get m p (length d) = d" "descriptors_at m (p + of_nat (length d)) ds" "desc_ok d"
    using assms by (auto simp: descriptors_at_def)
  then have l: "2 \<le> length d" "length d < 256" "d ! 0 = of_nat (length d)" by (auto simp: desc_ok_def)
  have n: "m (p + of_nat i) = d ! i" if "i < length d" for i
  proof -
    have "mem_get m p (length d) ! i = d ! i" using e(1) by (rule arg_cong)
    then show ?thesis using that by simp
  qed
  have "unat (of_nat (length d) :: u8) = length d" using l by (intro unat_of_nat_eq) simp
  moreover have "desc_length m p = of_nat (length d)" using n [of 0] l by (cases d) (auto simp: desc_length_def)
  ultimately have "unat (desc_length m p) = length d" by simp
  then show "ucast (desc_length m p) = (of_nat (length d) :: u32)" by (rule unat_eqD(2))
  show "desc_type m p = d ! 1" using n [of 1] l by (simp add: desc_type_def)
qed

lemma find_interface_first:
  assumes "descriptors_at m (config_data + off) ds" "\<exists>d \<in> set ds. is_interface d"
  defines "skip \<equiv> length (concat (takeWhile (\<lambda>d. \<not> is_interface d) ds))"
  shows "find_interface_loop m config_data off = Some (off + of_nat skip) \<and>
    descriptors_at m (config_data + (off + of_nat skip)) (dropWhile (\<lambda>d. \<not> is_interface d) ds)"
  using assms(1,2) unfolding skip_def
proof (induction ds arbitrary: off)
  case (Cons d ds)
  note c = descriptors_Cons [OF Cons.prems(1)]
  show ?case
  proof (cases "is_interface d")
    case True
    then show ?thesis using c Cons.prems(1) by (subst find_interface_loop.simps) (simp add: is_interface_def)
  next
    case False
    have "descriptors_at m (config_data + (off + of_nat (length d))) ds" using c(5) by (simp add: add.assoc)
    from Cons.IH [OF this] False Cons.prems(2) show ?thesis
      using c by (subst find_interface_loop.simps) (simp add: is_interface_def add.assoc)
  qed
qed simp

lemma same_outside_descriptors:
  assumes "descriptors_at m p ds" "same_outside a n m m'" "apart a n p (length (concat ds))" "fits a n" "fits p (length (concat ds))"
  shows "descriptors_at m' p ds"
  using assms same_outside_get [OF assms(2-5)] by (simp add: descriptors_at_def)

lemma memcpy_inside:
  assumes "dest \<noteq> 0" "src \<noteq> 0" "fits dest (unat n)" "fits src (unat n)" "dest = a + of_nat k" "k + unat n \<le> l" "fits a l"
  shows "same_outside a l m (snd (bl_memcpy m dest src n))" "mem_get (snd (bl_memcpy m dest src n)) dest (unat n) = mem_get m src (unat n)"
    "mem_get (snd (bl_memcpy m dest src n)) a k = mem_get m a k"
proof -
  have b: "snd (bl_memcpy m dest src n) = mem_put m dest (mem_get m src (unat n))" using bl_memcpy_correct [OF assms(1-4)] by simp
  show "same_outside a l m (snd (bl_memcpy m dest src n))"
    unfolding b using same_outside_put [of k "mem_get m src (unat n)" l a m] assms(5,6) by simp
  show "mem_get (snd (bl_memcpy m dest src n)) dest (unat n) = mem_get m src (unat n)"
    unfolding b using unat_lt2p [of n] by (simp add: mem_get_put_same)
  show "mem_get (snd (bl_memcpy m dest src n)) a k = mem_get m a k"
  proof (cases "k = 0 \<or> n = 0")
    case False
    then have "0 < unat n" by (simp add: unat_gt_0)
    then have "unat dest = unat a + k" unfolding assms(5) using assms(6,7) by (intro unat_add_lt) (simp add: fits_def)
    then show ?thesis unfolding b using assms(3,6,7) by (intro mem_get_put_apart) (auto simp: apart_def fits_def)
  qed (auto simp: b)
qed

lemma same_outside_byte: "same_outside a n m m' \<Longrightarrow> apart a n p 1 \<Longrightarrow> fits a n \<Longrightarrow> fits p 1 \<Longrightarrow> m' p = m p"
  using same_outside_get [of a n m m' p 1] by (simp add: mem_get_Suc)

lemma same_outside_ld32: "same_outside a n m m' \<Longrightarrow> apart a n p 4 \<Longrightarrow> fits a n \<Longrightarrow> fits p 4 \<Longrightarrow> ld32 m' p = ld32 m p"
  using same_outside_get [of a n m m' p 4] by (simp add: ld32_def)

text \<open>The loop copies the next \<open>n\<close> endpoint descriptors into the array at \<open>E\<close>, from place \<open>j\<close> on.\<close>

lemma endpoints_loop_ok:
  assumes "descriptors_at m (config_data + off) ds" "take_endpoints n ds = Some (es, rest)" "j + n = N" "N < 256"
    and "id_num_endpoints m interface = of_nat N" "interface_endpoints m ifc = E" "E \<noteq> 0" "fits E k" "7 * N \<le> k"
    and "apart E k (ifc + 12) 4" "fits (ifc + 12) 4" "apart E k (interface + 4) 1" "fits (interface + 4) 1"
    and "config_data + off \<noteq> 0" "apart E k (config_data + off) (length (concat ds))" "unat (config_data + off) + length (concat ds) < 2 ^ 32"
  shows "\<exists>off' m'. endpoints_loop config_data interface ifc (of_nat j) off m = Some (off', m') \<and> same_outside E k m m' \<and>
    mem_get m' E (7 * j) = mem_get m E (7 * j) \<and> mem_get m' (E + of_nat (7 * j)) (7 * n) = concat (map (take 7) es) \<and>
    (\<exists>skip. off' = off + of_nat (length (concat skip)) \<and> ds = skip @ rest) \<and> descriptors_at m' (config_data + off') rest"
  using assms
proof (induction n ds arbitrary: es off j m rule: take_endpoints.induct)
  case (1 ds)
  then have "\<not> (of_nat j :: u32) < ucast (id_num_endpoints m interface)"
    by (simp add: word_less_nat_alt unat_of_nat_eq unsigned_ucast_eq take_bit_eq_mod)
  then show ?case using 1 by (subst endpoints_loop.simps) auto
next
  case (2 n)
  then show ?case by simp
next
  case (3 n d ds)
  note c = descriptors_Cons [OF "3.prems"(1)]
  let ?p = "config_data + off" and ?off = "off + of_nat (length d)"
  have jN: "(of_nat j :: u32) < ucast (id_num_endpoints m interface)"
    using "3.prems"(3-5) by (simp add: word_less_nat_alt unat_of_nat_eq unsigned_ucast_eq take_bit_eq_mod)
  have q: "config_data + ?off = ?p + of_nat (length d)" by simp
  have u: "unat (config_data + ?off) = unat ?p + length d"
    unfolding q using "3.prems"(16) by (intro unat_add_lt) simp
  have nz: "config_data + ?off \<noteq> 0" using u "3.prems"(14) by (metis add_is_0 unat_eq_zero)
  have ap: "apart E k (config_data + ?off) (length (concat ds))" using "3.prems"(15) by (auto simp: apart_def u)
  have ft: "unat (config_data + ?off) + length (concat ds) < 2 ^ 32" using "3.prems"(16) by (simp add: u)
  have cd: "descriptors_at m (config_data + ?off) ds" using c(5) unfolding q .
  show ?case
  proof (cases "is_endpoint d")
    case False
    then have t: "take_endpoints (Suc n) ds = Some (es, rest)" using "3.prems"(2) by simp
    from "3.IH"(2) [OF False cd t "3.prems"(3-13) nz ap ft] obtain off' m' skip where
      r: "endpoints_loop config_data interface ifc (of_nat j) ?off m = Some (off', m')" "same_outside E k m m'"
        "mem_get m' E (7 * j) = mem_get m E (7 * j)" "mem_get m' (E + of_nat (7 * j)) (7 * Suc n) = concat (map (take 7) es)"
        "off' = ?off + of_nat (length (concat skip))" "ds = skip @ rest" "descriptors_at m' (config_data + off') rest" by blast
    have "endpoints_loop config_data interface ifc (of_nat j) off m = Some (off', m')"
      using jN c(3,4) False r(1) by (subst endpoints_loop.simps) (simp add: is_endpoint_def Let_def)
    moreover have "off' = off + of_nat (length (concat (d # skip)))" using r(5) by (simp add: add.assoc)
    moreover have "d # ds = (d # skip) @ rest" using r(6) by simp
    ultimately show ?thesis using r(2-4,7) by blast
  next
    case True
    then obtain es' where es: "es = d # es'" "take_endpoints n ds = Some (es', rest)" using "3.prems"(2) by auto
    let ?m = "snd (bl_memcpy m (endpoint_at m ifc (of_nat j)) ?p sizeof_endpoint_descriptor)"
    have E: "endpoint_at m ifc (of_nat j) = E + of_nat (7 * j)" 
      using "3.prems"(6) by (simp add: endpoint_at_def sizeof_endpoint_descriptor_def)
    have d7: "7 \<le> length d" using c(1) True by (simp add: desc_ok_def)
    have Eu: "unat (E + of_nat (7 * j)) = unat E + 7 * j" using "3.prems"(3,8,9) by (intro unat_add_lt) (auto simp: fits_def)
    have En: "E + of_nat (7 * j) \<noteq> 0" using Eu "3.prems"(7) by (metis add_is_0 unat_eq_zero)
    have sz: "unat sizeof_endpoint_descriptor = 7" by (simp add: sizeof_endpoint_descriptor_def)
    have fE: "fits (E + of_nat (7 * j)) 7" "fits ?p 7"
      unfolding fits_def Eu using "3.prems"(3,8,9,16) d7 by (auto simp: fits_def)
    have kj: "7 * j + 7 \<le> k" using "3.prems"(3,9) by auto
    have cp: "same_outside E k m ?m" "mem_get ?m (E + of_nat (7 * j)) 7 = mem_get m ?p 7" "mem_get ?m E (7 * j) = mem_get m E (7 * j)"
      using memcpy_inside [of "E + of_nat (7 * j)" ?p sizeof_endpoint_descriptor E "7 * j" k m] En "3.prems"(8,14) fE kj sz E by auto
    have fc: "fits ?p (length (concat (d # ds)))" using "3.prems"(16) by (simp add: fits_def)
    have "descriptors_at ?m ?p (d # ds)" by (rule same_outside_descriptors [OF "3.prems"(1) cp(1) "3.prems"(15,8) fc])
    note c1 = descriptors_Cons [OF this]
    have cd1: "descriptors_at ?m (config_data + ?off) ds" using c1(5) unfolding q .
    have num: "id_num_endpoints ?m interface = of_nat N"
      using same_outside_byte [OF cp(1) "3.prems"(12,8,13)] "3.prems"(5) by (simp add: id_num_endpoints_def)
    have ie: "interface_endpoints ?m ifc = E"
      using same_outside_ld32 [OF cp(1) "3.prems"(10,8,11)] "3.prems"(6) by (simp add: interface_endpoints_def)
    have jn: "Suc j + n = N" using "3.prems"(3) by simp
    from "3.IH"(1) [OF True cd1 es(2) jn "3.prems"(4) num ie "3.prems"(7-13) nz ap ft] obtain off' m' skip where
      r: "endpoints_loop config_data interface ifc (of_nat (Suc j)) ?off ?m = Some (off', m')" "same_outside E k ?m m'"
        "mem_get m' E (7 * Suc j) = mem_get ?m E (7 * Suc j)" "mem_get m' (E + of_nat (7 * Suc j)) (7 * n) = concat (map (take 7) es')"
        "off' = ?off + of_nat (length (concat skip))" "ds = skip @ rest" "descriptors_at m' (config_data + off') rest" by blast
    have "endpoints_loop config_data interface ifc (of_nat j) off m = Some (off', m')"
      using jN c(4) c1(3) True r(1) by (subst endpoints_loop.simps) (simp add: is_endpoint_def Let_def add.commute)
    moreover have "same_outside E k m m'" by (rule same_outside_trans [OF cp(1) r(2)])
    moreover have s7: "7 * Suc j = 7 * j + 7" by simp
    have g: "mem_get m' E (7 * j) = mem_get ?m E (7 * j)" "mem_get m' (E + of_nat (7 * j)) 7 = mem_get ?m (E + of_nat (7 * j)) 7"
      using r(3) unfolding s7 mem_get_add by simp_all
    have "mem_get m ?p 7 = take 7 d" using c(2) d7 by (metis take_mem_get)
    then have "mem_get m' (E + of_nat (7 * j)) (7 * Suc n) = concat (map (take 7) es)"
      using g(2) cp(2) r(4) mem_get_add [of m' "E + of_nat (7 * j)" 7 "7 * n"] by (simp add: es(1) algebra_simps)
    moreover have "off' = off + of_nat (length (concat (d # skip)))" using r(5) by (simp add: add.assoc)
    moreover have "d # ds = (d # skip) @ rest" using r(6) by simp
    ultimately show ?thesis using r(7) g(1) cp(3) by metis
  qed
qed

lemma heap_ok_below:
  assumes "heap_ok s B L" "(a, n) \<in> L"
  shows "unat a + n + B \<le> 2 ^ 32" "0 < B \<Longrightarrow> a \<noteq> 0"
proof -
  obtain bs where bs: "heap_inv s bs" "L = live bs" "heap_top (bl_heap s) bs + B \<le> 2 ^ 32"
    using assms(1) by (auto simp: heap_ok_def)
  obtain b where b: "b \<in> set bs" "a = hb_data b" "n = hb_size b" using assms(2) bs(2) by (auto simp: live_def)
  have e: "hb_end b + B \<le> 2 ^ 32" using layout_below_top [OF heap_inv_layout [OF bs(1)] b(1), of "bl_heap s"] bs(3) by simp
  have f: "fits a n" using heap.blocks_fit [OF heap_ok_live [OF assms(1)] assms(2)] .
  show "unat a + n + B \<le> 2 ^ 32"
  proof (cases "unat (hb_addr b) + 16 < 2 ^ 32")
    case True
    then have "unat a = unat (hb_addr b) + 16" using unat_add_lt [of "hb_addr b" 16] by (simp add: b hb_data_def)
    then show ?thesis using e b by (simp add: hb_end_def)
  next
    case False
    then have "B = 0" using e by (simp add: hb_end_def)
    then show ?thesis using f by (simp add: fits_def)
  qed
  show "a \<noteq> 0" if "0 < B"
  proof -
    have "unat (hb_addr b) + 16 < 2 ^ 32" using e that by (simp add: hb_end_def)
    then have "unat a = unat (hb_addr b) + 16" using unat_add_lt [of "hb_addr b" 16] by (simp add: b hb_data_def)
    then show ?thesis by auto
  qed
qed

lemma take_endpoints_split:
  "take_endpoints n ds = Some (es, rest) \<Longrightarrow> length es = n \<and> set es \<subseteq> set ds \<and> (\<exists>skip. ds = skip @ rest)"
proof (induction n ds arbitrary: es rule: take_endpoints.induct)
  case (3 n d ds)
  show ?case
  proof (cases "is_endpoint d")
    case True
    then obtain es' where "es = d # es'" "take_endpoints n ds = Some (es', rest)" using "3.prems" by auto
    then show ?thesis using "3.IH"(1) [OF True, of es'] by (auto intro: exI [of _ "d # _"])
  next
    case False
    then have "take_endpoints (Suc n) ds = Some (es, rest)" using "3.prems" by simp
    from "3.IH"(2) [OF False this] show ?thesis by (auto intro: exI [of _ "d # _"])
  qed
qed auto

text \<open>The interface at \<open>p\<close>: its descriptor, and its endpoints in a live block.\<close>

definition interface_in :: "(addr \<times> nat) set \<Rightarrow> mem \<Rightarrow> addr \<Rightarrow> u8 list \<times> u8 list list \<Rightarrow> bool" where
  "interface_in L m p x \<longleftrightarrow> mem_get m p 9 = take 9 (fst x) \<and>
     (\<exists>k. (ld32 m (p + 12), k) \<in> L \<and> 7 * length (snd x) \<le> k \<and>
        mem_get m (ld32 m (p + 12)) (7 * length (snd x)) = concat (map (take 7) (snd x)))"

lemma block_get:
  assumes "mem_get m' b k = mem_get m b k" "i + n \<le> k"
  shows "mem_get m' (b + of_nat i) n = mem_get m (b + of_nat i) n"
proof -
  have "take n (drop i (mem_get m' b k)) = take n (drop i (mem_get m b k))" using assms(1) by simp
  moreover have "n \<le> k - i" using assms(2) by simp
  ultimately show ?thesis unfolding drop_mem_get by (simp add: take_mem_get)
qed

lemma block_ld32: "mem_get m' b k = mem_get m b k \<Longrightarrow> i + 4 \<le> k \<Longrightarrow> ld32 m' (b + of_nat i) = ld32 m (b + of_nat i)"
  unfolding ld32_def using block_get [of m' b k m i 4] by simp

lemma descriptors_block:
  assumes "mem_get m' b k = mem_get m b k" "unat off + length (concat ds) \<le> k" "descriptors_at m (b + off) ds"
  shows "descriptors_at m' (b + off) ds"
  using assms block_get [OF assms(1,2)] by (simp add: descriptors_at_def)

lemma descriptors_byte:
  assumes "descriptors_at m p (d # ds)" "i < length d" shows "m (p + of_nat i) = d ! i"
proof -
  have "mem_get m p (length d) ! i = d ! i" using descriptors_Cons(2) [OF assms(1)] by simp
  then show ?thesis using assms(2) by simp
qed

lemma apart_within:
  assumes "apart a n b k" "unat b \<le> unat c" "unat c + j \<le> unat b + k" shows "apart a n c j"
  using assms by (auto simp: apart_def)

lemma identify_interface_ok:
  assumes h: "heap_ok s (Suc B + 7 * length es + 48) L" "(device, kd) \<in> L" "48 \<le> kd" "(arr, ka) \<in> L" "(config_data, kc) \<in> L"
      "arr \<noteq> device" "arr \<noteq> config_data" "dev_interfaces (mem s) device = arr" "16 * Suc i \<le> ka"
    and d: "descriptors_at (mem s) (config_data + off) ds" "dropWhile (\<lambda>d. \<not> is_interface d) ds = d # ds'"
      "take_endpoints (unat (d ! 4)) ds' = Some (es, rest)" "unat off + length (concat ds) \<le> kc"
  shows "\<exists>s' E k off'. identify_interface device config_data (of_nat i) off s = Some (True, off', s') \<and>
    heap_ok s' (Suc B) (insert (E, k) L) \<and> (\<forall>j. (E, j) \<notin> L) \<and>
    (\<forall>(b, j) \<in> L. b \<noteq> arr \<longrightarrow> mem_get (mem s') b j = mem_get (mem s) b j) \<and>
    mem_get (mem s') arr (16 * i) = mem_get (mem s) arr (16 * i) \<and>
    interface_in (insert (E, k) L) (mem s') (arr + of_nat (16 * i)) (d, es) \<and> ld32 (mem s') (arr + of_nat (16 * i) + 12) = E \<and>
    descriptors_at (mem s') (config_data + off') rest \<and> unat off' + length (concat rest) \<le> kc"
proof -
  let ?skip = "concat (takeWhile (\<lambda>d. \<not> is_interface d) ds)" and ?ifc = "arr + of_nat (16 * i)" and ?N = "unat (d ! 4)"
  let ?off1 = "off + of_nat (length ?skip)"
  let ?p = "config_data + ?off1"
  have di: "is_interface d" using d(2) by (metis dropWhile_eq_Cons_conv)
  have split: "concat ds = ?skip @ concat (d # ds')" using d(2) by (metis concat_append takeWhile_dropWhile_id)
  have "\<exists>d \<in> set ds. is_interface d" using d(2) di by (metis list.set_intros(1) set_dropWhileD)
  from find_interface_first [OF d(1) this] have fi: "find_interface_loop (mem s) config_data off = Some ?off1" and
    da: "descriptors_at (mem s) ?p (d # ds')" by (auto simp: d(2))
  note c = descriptors_Cons [OF da]
  note fit = heap_ok_below [OF h(1)] and sep = heap.blocks_apart [OF heap_ok_live [OF h(1)]]
  have len: "length es = ?N" "?N < 256" using take_endpoints_split [OF d(3)] unat_lt2p [of "d ! 4"] by auto
  have d9: "9 \<le> length d" using c(1) di by (simp add: desc_ok_def)
  have f: "unat config_data + kc < 2 ^ 32" "unat arr + ka < 2 ^ 32" "config_data \<noteq> 0" "arr \<noteq> 0"
    using fit(1) [OF h(5)] fit(1) [OF h(4)] fit(2) [OF h(5)] fit(2) [OF h(4)] by auto
  have ou: "unat ?off1 = unat off + length ?skip" "unat ?off1 + length (concat (d # ds')) \<le> kc"
    using unat_add_lt [of off "length ?skip"] d(4) f(1) split by auto
  have pu: "unat ?p = unat config_data + unat ?off1"
    using unat_add_lt [of config_data "unat ?off1"] ou(2) f(1) by simp
  have iu: "unat ?ifc = unat arr + 16 * i" using f(2) h(9) by (intro unat_add_lt) simp
  have nz: "?p \<noteq> 0" "?ifc \<noteq> 0" using pu iu f(3,4) by (metis add_is_0 unat_eq_zero)+
  have ia: "interface_at m device (of_nat i) = ?ifc" if "dev_interfaces m device = arr" for m using that by (simp add: interface_at_def)
  have ac: "apart arr ka config_data kc" using sep [OF h(4,5,7)] .
  have sz: "unat sizeof_interface_descriptor = 9" by (simp add: sizeof_interface_descriptor_def)
  let ?m1 = "snd (bl_memcpy (mem s) ?ifc ?p sizeof_interface_descriptor)"
  have "same_outside arr ka (mem s) ?m1" "mem_get ?m1 ?ifc 9 = mem_get (mem s) ?p 9" "mem_get ?m1 arr (16 * i) = mem_get (mem s) arr (16 * i)"
    using memcpy_inside [of ?ifc ?p sizeof_interface_descriptor arr "16 * i" ka "mem s"] nz iu pu ou(2) f(1,2) h(9) d9 sz by (simp_all add: fits_def)
  note 1 = this
  note h1 = heap_ok_inside [OF h(1,4) 1(1)]
  let ?s1 = "s\<lparr>mem := ?m1\<rparr>"
  have cb: "mem_get ?m1 config_data kc = mem_get (mem s) config_data kc" using h1(2) h(5,7) by auto
  have d1: "descriptors_at ?m1 ?p (d # ds')" by (rule descriptors_block [OF cb ou(2) da])
  have num: "id_num_endpoints ?m1 ?p = d ! 4" using descriptors_byte [OF d1, of 4] d9 by (simp add: id_num_endpoints_def)
  have esz: "unat (ucast (d ! 4) * sizeof_endpoint_descriptor) = 7 * ?N"
  proof -
    have "ucast (d ! 4) * sizeof_endpoint_descriptor = (of_nat (7 * ?N) :: u32)" by (simp add: sizeof_endpoint_descriptor_def)
    moreover have "unat (of_nat (7 * ?N) :: u32) = 7 * ?N" using len(2) by (intro unat_of_nat_eq) simp
    ultimately show ?thesis by simp
  qed
  have "heap_ok ?s1 (Suc B + unat (ucast (d ! 4) * sizeof_endpoint_descriptor) + 48) L" using h1(1) esz len(1) by simp
  from heap_ok_alloc [OF this] obtain E s2 where
    2: "bl_heap_alloc ?s1 (ucast (d ! 4) * sizeof_endpoint_descriptor) = Some (E, s2)" "E \<noteq> 0" "7 * ?N \<le> block_size s2 E"
      "heap_ok s2 (Suc B) (insert (E, block_size s2 E) L)" "\<forall>k. (E, k) \<notin> L"
      "\<forall>(b, k) \<in> L. mem_get (mem s2) b k = mem_get ?m1 b k"
    using esz by auto
  let ?k = "block_size s2 E" and ?L = "insert (E, block_size s2 E) L"
  have dev2: "dev_interfaces (mem s2) device = arr"
  proof -
    have "mem_get (mem s2) device kd = mem_get (mem s) device kd" using 2(6) h1(2) h(2,6) by fastforce
    then show ?thesis using block_ld32 [of "mem s2" device kd "mem s" 44] h(3,8) by (simp add: dev_interfaces_def)
  qed
  have i12: "?ifc + 12 = arr + of_nat (16 * i + 12)" by simp
  have iu12: "unat (?ifc + 12) = unat arr + (16 * i + 12)" unfolding i12 using f(2) h(9) by (intro unat_add_lt) simp
  let ?m3 = "st32 (mem s2) (?ifc + 12) E"
  have so3: "same_outside arr ka (mem s2) ?m3" unfolding i12 using h(9) by (intro same_outside_st32) simp
  have arrL: "(arr, ka) \<in> ?L" using h(4) by simp
  note h3 = heap_ok_inside [OF 2(4) arrL so3]
  let ?s3 = "s2\<lparr>mem := ?m3\<rparr>"
  note sep3 = heap.blocks_apart [OF heap_ok_live [OF h3(1)]] and fit3 = heap_ok_below [OF h3(1)]
  have Ene: "E \<noteq> arr" "E \<noteq> config_data" "E \<noteq> device" using 2(5) h(2,4,5) by auto
  have fE: "fits E ?k" using fit3(1) [of E ?k] by (simp add: fits_def)
  have aE: "apart E ?k arr ka" "apart E ?k config_data kc" using sep3 [of E ?k arr ka] sep3 [of E ?k config_data kc] h(4,5) Ene by auto
  have dev3: "dev_interfaces ?m3 device = arr"
  proof -
    have "mem_get ?m3 device kd = mem_get (mem s2) device kd" using h3(2) h(2,6) by auto
    then show ?thesis using block_ld32 [of ?m3 device kd "mem s2" 44] h(3) dev2 by (simp add: dev_interfaces_def)
  qed
  have cb3: "mem_get ?m3 config_data kc = mem_get ?m1 config_data kc" using h3(2) 2(6) h(5,7) by fastforce
  have d3: "descriptors_at ?m3 ?p (d # ds')" by (rule descriptors_block [OF cb3 ou(2) d1])
  note c3 = descriptors_Cons [OF d3]
  let ?off2 = "?off1 + of_nat (length d)"
  have q: "config_data + ?off2 = ?p + of_nat (length d)" by simp
  have qu: "unat (config_data + ?off2) = unat ?p + length d" unfolding q using pu ou(2) f(1) by (intro unat_add_lt) simp
  have d3': "descriptors_at ?m3 (config_data + ?off2) ds'" using c3(5) unfolding q .
  have nz2: "config_data + ?off2 \<noteq> 0" using qu pu f(3) by (metis add_is_0 unat_eq_zero)
  have num3: "id_num_endpoints ?m3 ?p = of_nat ?N" using descriptors_byte [OF d3, of 4] d9 by (simp add: id_num_endpoints_def)
  have ie3: "interface_endpoints ?m3 ?ifc = E" by (simp add: interface_endpoints_def ld_st_same)
  have pu4: "unat (?p + 4) = unat ?p + 4" using unat_add_lt [of ?p 4] pu ou(2) f(1) d9 by simp
  have r1: "apart E ?k (?ifc + 12) 4" by (rule apart_within [OF aE(1)]) (use iu12 h(9) in simp_all)
  have r2: "fits (?ifc + 12) 4" using iu12 f(2) h(9) by (simp add: fits_def)
  have r3: "apart E ?k (?p + 4) 1" by (rule apart_within [OF aE(2)]) (use pu4 pu ou(2) d9 in simp_all)
  have r4: "fits (?p + 4) 1" using pu4 pu f(1) ou(2) d9 by (simp add: fits_def)
  have r5: "apart E ?k (config_data + ?off2) (length (concat ds'))" by (rule apart_within [OF aE(2)]) (use qu pu ou(2) in simp_all)
  have r6: "unat (config_data + ?off2) + length (concat ds') < 2 ^ 32" using qu pu ou(2) f(1) by simp
  from endpoints_loop_ok [OF d3' d(3) _ len(2) num3 ie3 2(2) fE 2(3) r1 r2 r3 r4 nz2 r5 r6, of 0] obtain off' m4 skip' where
    4: "endpoints_loop config_data ?p ?ifc 0 ?off2 ?m3 = Some (off', m4)" "same_outside E ?k ?m3 m4"
      "mem_get m4 E (7 * ?N) = concat (map (take 7) es)" "off' = ?off2 + of_nat (length (concat skip'))" "ds' = skip' @ rest"
      "descriptors_at m4 (config_data + off') rest" by auto
  have so4: "same_outside E ?k (mem ?s3) m4" using 4(2) by simp
  note h4 = heap_ok_inside [OF h3(1) insertI1 so4]
  let ?s4 = "?s3\<lparr>mem := m4\<rparr>"
  have keep: "mem_get m4 b j = mem_get (mem s) b j" if "(b, j) \<in> L" "b \<noteq> arr" for b j
    using h4(2) h3(2) 2(5,6) h1(2) that by fastforce
  have run: "identify_interface device config_data (of_nat i) off s = Some (True, off', ?s4)"
    using fi 2(1,2) num 4(1) c3(3) by (simp add: identify_interface_def Let_def ia [OF h(8)] ia [OF dev2] ia [OF dev3] del: of_nat_mult of_nat_add)
  have a4: "mem_get m4 arr ka = mem_get ?m3 arr ka" using h4(2) arrL Ene(1) by auto
  have a2: "mem_get (mem s2) arr ka = mem_get ?m1 arr ka" using 2(6) h(4) by auto
  have st: "mem_get ?m3 arr (16 * i) = mem_get (mem s2) arr (16 * i)" "mem_get ?m3 ?ifc 9 = mem_get (mem s2) ?ifc 9"
    using iu iu12 f(2) h(9) r2 by (intro st32_apart(1); simp add: apart_def fits_def)+
  have pre: "mem_get m4 arr (16 * i) = mem_get (mem s) arr (16 * i)"
    using block_get [OF a4, of 0 "16 * i"] block_get [OF a2, of 0 "16 * i"] st(1) 1(3) h(9) by simp
  have "mem_get m4 ?ifc 9 = mem_get (mem s) ?p 9"
    using block_get [OF a4, of "16 * i" 9] block_get [OF a2, of "16 * i" 9] st(2) 1(2) h(9) by simp
  moreover have "mem_get (mem s) ?p 9 = take 9 d" using c(2) d9 by (metis take_mem_get)
  moreover have ldE: "ld32 m4 (?ifc + 12) = E"
    using block_ld32 [OF a4, of "16 * i + 12"] h(9) unfolding i12 by (simp add: ld_st_same)
  ultimately have ii: "interface_in ?L m4 ?ifc (d, es)" using 2(3) 4(3) len(1) by (auto simp: interface_in_def)
  have "unat off' + length (concat rest) \<le> kc"
  proof -
    have "unat ?off2 = unat ?off1 + length d" using ou(2) f(1) by (intro unat_add_lt) simp
    then have "unat off' = unat ?off1 + length d + length (concat skip')"
      unfolding 4(4) using ou(2) f(1) 4(5) by (subst unat_add_lt) simp_all
    then show ?thesis using ou(2) 4(5) by simp
  qed
  then show ?thesis using run h4(1) 2(5) keep pre ii ldE 4(6)
    by - (rule exI [of _ ?s4], rule exI [of _ E], rule exI [of _ ?k], rule exI [of _ off'], auto)
qed

definition endpoint_rooms :: "(u8 list \<times> u8 list list) list \<Rightarrow> nat" where
  "endpoint_rooms ifs = sum_list (map (\<lambda>x. 7 * length (snd x) + 48) ifs)"

lemma interface_in_keeps:
  assumes "interface_in L m (arr + of_nat (16 * i)) x" "L \<subseteq> L'" "\<forall>(b, j) \<in> L. b \<noteq> arr \<longrightarrow> mem_get m' b j = mem_get m b j"
    and "mem_get m' arr (16 * Suc i) = mem_get m arr (16 * Suc i)" "ld32 m (arr + of_nat (16 * i) + 12) \<noteq> arr"
  shows "interface_in L' m' (arr + of_nat (16 * i)) x"
proof -
  let ?E = "ld32 m (arr + of_nat (16 * i) + 12)"
  have p: "mem_get m' (arr + of_nat (16 * i)) 9 = mem_get m (arr + of_nat (16 * i)) 9"
    using block_get [OF assms(4), of "16 * i" 9] by simp
  have "ld32 m' (arr + of_nat (16 * i + 12)) = ld32 m (arr + of_nat (16 * i + 12))" using block_ld32 [OF assms(4), of "16 * i + 12"] by simp
  then have e: "ld32 m' (arr + of_nat (16 * i) + 12) = ?E" by (simp add: add.assoc)
  obtain k where k: "(?E, k) \<in> L" "7 * length (snd x) \<le> k" "mem_get m ?E (7 * length (snd x)) = concat (map (take 7) (snd x))"
    "mem_get m (arr + of_nat (16 * i)) 9 = take 9 (fst x)" using assms(1) by (auto simp: interface_in_def)
  have "mem_get m' ?E k = mem_get m ?E k" using assms(3,5) k(1) by auto
  from block_get [OF this, of 0 "7 * length (snd x)"] have "mem_get m' ?E (7 * length (snd x)) = concat (map (take 7) (snd x))"
    using k(2,3) by simp
  then show ?thesis using k p assms(2) unfolding interface_in_def e by auto
qed

text \<open>
  The loop fills the array with the interfaces of the descriptors, provided the array has
  room for \<open>i + n\<close> of them.
\<close>

lemma interfaces_loop_ok:
  assumes "heap_ok s (Suc B + endpoint_rooms ifs) L" "(device, kd) \<in> L" "48 \<le> kd" "(arr, ka) \<in> L" "(config_data, kc) \<in> L"
      "arr \<noteq> device" "arr \<noteq> config_data" "dev_interfaces (mem s) device = arr" "16 * (i + n) \<le> ka"
    and "descriptors_at (mem s) (config_data + off) ds" "parse_interfaces n ds = Some ifs" "unat off + length (concat ds) \<le> kc"
  shows "\<exists>s' L'. interfaces_loop device config_data n (of_nat i) off s = Some (True, s') \<and> heap_ok s' (Suc B) L' \<and> L \<subseteq> L' \<and>
    (\<forall>(b, j) \<in> L. b \<noteq> arr \<longrightarrow> mem_get (mem s') b j = mem_get (mem s) b j) \<and>
    mem_get (mem s') arr (16 * i) = mem_get (mem s) arr (16 * i) \<and>
    (\<forall>x < n. interface_in L' (mem s') (arr + of_nat (16 * (i + x))) (ifs ! x))"
  using assms
proof (induction n arbitrary: s L ifs i off ds)
  case 0
  then show ?case by (intro exI [of _ s] exI [of _ L]) (simp add: endpoint_rooms_def)
next
  case (Suc n)
  obtain d ds' where d: "dropWhile (\<lambda>d. \<not> is_interface d) ds = d # ds'"
    using Suc.prems(11) by (auto split: list.splits)
  with Suc.prems(11) obtain es rest ifs' where p: "take_endpoints (unat (d ! 4)) ds' = Some (es, rest)" "parse_interfaces n rest = Some ifs'"
      "ifs = (d, es) # ifs'"
    by (auto split: option.splits)
  have "heap_ok s (Suc (B + endpoint_rooms ifs') + 7 * length es + 48) L"
    using Suc.prems(1) by (simp add: p(3) endpoint_rooms_def ac_simps)
  from identify_interface_ok [OF this Suc.prems(2-8) _ Suc.prems(10) d p(1) Suc.prems(12), of i] Suc.prems(9) obtain s1 E k off1 where
    1: "identify_interface device config_data (of_nat i) off s = Some (True, off1, s1)"
      "heap_ok s1 (Suc (B + endpoint_rooms ifs')) (insert (E, k) L)" "\<forall>j. (E, j) \<notin> L"
      "\<forall>(b, j) \<in> L. b \<noteq> arr \<longrightarrow> mem_get (mem s1) b j = mem_get (mem s) b j"
      "mem_get (mem s1) arr (16 * i) = mem_get (mem s) arr (16 * i)"
      "interface_in (insert (E, k) L) (mem s1) (arr + of_nat (16 * i)) (d, es)" "ld32 (mem s1) (arr + of_nat (16 * i) + 12) = E"
      "descriptors_at (mem s1) (config_data + off1) rest" "unat off1 + length (concat rest) \<le> kc" by auto
  have "mem_get (mem s1) device kd = mem_get (mem s) device kd" using 1(4) Suc.prems(2,6) by auto
  then have dev: "dev_interfaces (mem s1) device = arr"
    using block_ld32 [of "mem s1" device kd "mem s" 44] Suc.prems(3,8) by (simp add: dev_interfaces_def)
  have h1: "heap_ok s1 (Suc B + endpoint_rooms ifs') (insert (E, k) L)" using 1(2) by simp
  have sz: "16 * (Suc i + n) \<le> ka" using Suc.prems(9) by simp
  from Suc.IH [OF h1 _ Suc.prems(3) _ _ Suc.prems(6,7) dev sz 1(8) p(2) 1(9)] Suc.prems(2,4,5) obtain s' L' where
    2: "interfaces_loop device config_data n (of_nat (Suc i)) off1 s1 = Some (True, s')" "heap_ok s' (Suc B) L'" "insert (E, k) L \<subseteq> L'"
      "\<forall>(b, j) \<in> insert (E, k) L. b \<noteq> arr \<longrightarrow> mem_get (mem s') b j = mem_get (mem s1) b j"
      "mem_get (mem s') arr (16 * Suc i) = mem_get (mem s1) arr (16 * Suc i)"
      "\<forall>x < n. interface_in L' (mem s') (arr + of_nat (16 * (Suc i + x))) (ifs' ! x)" by auto
  have run: "interfaces_loop device config_data (Suc n) (of_nat i) off s = Some (True, s')" using 1(1) 2(1) by (simp add: add.commute)
  have ne: "ld32 (mem s1) (arr + of_nat (16 * i) + 12) \<noteq> arr" using 1(3,7) Suc.prems(4) by auto
  have "interface_in L' (mem s') (arr + of_nat (16 * i)) (d, es)" by (rule interface_in_keeps [OF 1(6) 2(3,4,5) ne])
  then have "\<forall>x < Suc n. interface_in L' (mem s') (arr + of_nat (16 * (i + x))) (ifs ! x)"
    using 2(6) by (auto simp: p(3) less_Suc_eq_0_disj ac_simps)
  moreover have "\<forall>(b, j) \<in> L. b \<noteq> arr \<longrightarrow> mem_get (mem s') b j = mem_get (mem s) b j" using 1(4) 2(4) by fastforce
  moreover have "mem_get (mem s') arr (16 * i) = mem_get (mem s) arr (16 * i)"
    using block_get [OF 2(5), of 0 "16 * i"] 1(5) by simp
  ultimately show ?case using run 2(2,3) by blast
qed

subsection \<open>The HID descriptor\<close>

text \<open>At an interface of another number the search does not return: of the interfaces of a
  device, only the first can be the keyboard's.\<close>

lemma hid_interface_stuck:
  assumes "desc_type m (config_data + off) = BL_USB_DESCRIPTOR_TYPE_INTERFACE"
    "id_interface_number m (config_data + off) \<noteq> id_interface_number m interface"
  shows "hid_interface_loop m config_data interface off = None"
proof -
  have "\<not> (desc_type m (config_data + x) = BL_USB_DESCRIPTOR_TYPE_INTERFACE \<and>
      id_interface_number m (config_data + x) \<noteq> id_interface_number m i)"
    if "hid_interface_loop m config_data i x = Some y" for i x y
    using that
  proof (induction rule: hid_interface_loop.raw_induct [rotated, consumes 1])
    case (1 f m cd i x y)
    then show ?case by (auto split: if_splits)
  qed
  then show ?thesis using assms by (cases "hid_interface_loop m config_data interface off") auto
qed

lemma hid_interface_first:
  assumes "descriptors_at m (config_data + off) ds" "dropWhile (\<lambda>d. \<not> is_interface d) ds = d # ds'"
  shows "hid_interface_loop m config_data interface off =
    (if d ! 2 = id_interface_number m interface
     then Some (off + of_nat (length (concat (takeWhile (\<lambda>d. \<not> is_interface d) ds)))) else None)"
  using assms
proof (induction ds arbitrary: off)
  case (Cons x ds)
  note c = descriptors_Cons [OF Cons.prems(1)]
  show ?case
  proof (cases "is_interface x")
    case True
    then have d: "d = x" using Cons.prems(2) by simp
    have "9 \<le> length x" using c(1) True by (simp add: desc_ok_def)
    then have n: "id_interface_number m (config_data + off) = d ! 2"
      using descriptors_byte [OF Cons.prems(1), of 2] by (simp add: id_interface_number_def d)
    have t: "desc_type m (config_data + off) = BL_USB_DESCRIPTOR_TYPE_INTERFACE" using c(4) True by (simp add: is_interface_def)
    show ?thesis
    proof (cases "d ! 2 = id_interface_number m interface")
      case True
      then show ?thesis using n t \<open>is_interface x\<close> by (subst hid_interface_loop.simps) simp
    next
      case False
      then show ?thesis using hid_interface_stuck [OF t] n by simp
    qed
  next
    case False
    have "descriptors_at m (config_data + (off + of_nat (length x))) ds" using c(5) by (simp add: add.assoc)
    from Cons.IH [OF this] False Cons.prems(2) show ?thesis
      using c(3,4) by (subst hid_interface_loop.simps) (simp add: is_interface_def add.assoc)
  qed
qed simp

subsection \<open>Runs of a traversal\<close>

datatype traversal_op = Tr_Push addr | Tr_Pop

fun traversal_run :: "addr \<Rightarrow> traversal_op list \<Rightarrow> mem \<Rightarrow> addr list \<times> mem" where
  "traversal_run t [] m = ([], m)"
| "traversal_run t (Tr_Push hub # ops) m = traversal_run t ops (bl_usb_traversal_push t hub m)"
| "traversal_run t (Tr_Pop # ops) m =
     (case bl_usb_traversal_pop t m of (hub, m1) \<Rightarrow> (case traversal_run t ops m1 of (hubs, m2) \<Rightarrow> (hub # hubs, m2)))"

text \<open>The contract: a queue whose first 126 pushes count; popping the empty queue gives no hub.\<close>

fun queue_run :: "traversal_op list \<Rightarrow> addr list \<Rightarrow> nat \<Rightarrow> addr list" where
  "queue_run [] q n = []"
| "queue_run (Tr_Push hub # ops) q n = queue_run ops (if n < 126 then q @ [hub] else q) (min 126 (n + 1))"
| "queue_run (Tr_Pop # ops) q n = (case q of [] \<Rightarrow> 0 # queue_run ops [] n | hub # q' \<Rightarrow> hub # queue_run ops q' n)"

lemma traversal_run_ok: "traversal_queue m t q n \<Longrightarrow> fst (traversal_run t ops m) = queue_run ops q n"
proof (induction ops arbitrary: m q n)
  case C: (Cons x ops)
  show ?case
  proof (cases x)
    case (Tr_Push hub)
    from C.IH [OF traversal_push [OF C.prems]] show ?thesis by (simp only: Tr_Push traversal_run.simps queue_run.simps)
  next
    case Tr_Pop
    obtain hub m1 where p: "bl_usb_traversal_pop t m = (hub, m1)" by (cases "bl_usb_traversal_pop t m")
    obtain hubs m2 where r: "traversal_run t ops m1 = (hubs, m2)" by (cases "traversal_run t ops m1")
    have run: "fst (traversal_run t (x # ops) m) = hub # fst (traversal_run t ops m1)" by (simp add: Tr_Pop p r)
    show ?thesis
    proof (cases q)
      case Nil
      then have "hub = 0" "m1 = m" using traversal_pop [OF C.prems] p by simp_all
      then show ?thesis using C.IH [OF C.prems] run Nil by (simp add: Tr_Pop)
    next
      case (Cons h q')
      then have q: "hub = h" "traversal_queue m1 t q' n" using traversal_pop [OF C.prems] p by simp_all
      show ?thesis using C.IH [OF q(2)] run q(1) Cons by (simp add: Tr_Pop)
    qed
  qed
qed simp

subsection \<open>Reading the keyboard's HID descriptor\<close>

definition is_hid :: "u8 list \<Rightarrow> bool" where "is_hid d \<longleftrightarrow> d ! 1 = BL_USB_DESCRIPTOR_TYPE_HID"

lemma hid_descriptor_first:
  assumes "descriptors_at m (config_data + off) ds" "dropWhile (\<lambda>d. \<not> is_hid d) ds = d # ds'"
  shows "hid_descriptor_loop m config_data off = Some (off + of_nat (length (concat (takeWhile (\<lambda>d. \<not> is_hid d) ds))))"
  using assms
proof (induction ds arbitrary: off)
  case (Cons x ds)
  note c = descriptors_Cons [OF Cons.prems(1)]
  show ?case
  proof (cases "is_hid x")
    case True
    then show ?thesis using c(4) by (subst hid_descriptor_loop.simps) (simp add: is_hid_def)
  next
    case False
    have "descriptors_at m (config_data + (off + of_nat (length x))) ds" using c(5) by (simp add: add.assoc)
    from Cons.IH [OF this] False Cons.prems(2) show ?thesis
      using c(3,4) by (subst hid_descriptor_loop.simps) (simp add: is_hid_def add.assoc)
  qed
qed simp

lemma descriptors_append:
  "descriptors_at m p (xs @ ys) \<Longrightarrow> descriptors_at m (p + of_nat (length (concat xs))) ys"
  by (auto simp: descriptors_at_def mem_get_add)

text \<open>The driver reads the configuration's descriptors \<open>cs\<close>, into the buffer it is given and
  leaving the live blocks of the heap alone.\<close>

definition config_read :: "'d usb_st usb_env \<Rightarrow> addr \<Rightarrow> u8 list \<Rightarrow> bool" where
  "config_read env device cs \<longleftrightarrow> (\<forall>data s B L. heap_ok s B L \<longrightarrow>
     (\<exists>s'. bl_usb_control_transfer env device data (BL_USB_SETUP_REQUEST_TYPE_DEVICE_TO_HOST OR 0) BL_USB_REQUEST_TYPE_GET_DESCRIPTOR
        (push_bit 8 BL_USB_DESCRIPTOR_TYPE_CONFIG OR (0 AND 0xff)) 0 (of_nat (length cs)) s = Some (cs, s') \<and>
        heap_ok s' B L \<and> (\<forall>(b, k) \<in> L. mem_get (mem s') b k = mem_get (mem s) b k)))"

lemma config_read_into:
  assumes "config_read env device cs" "heap_ok s B L" "(p, k) \<in> L" "length cs \<le> k"
  shows "\<exists>s'. get_descriptor_mem env device 0 BL_USB_DESCRIPTOR_TYPE_CONFIG 0 0 p (of_nat (length cs)) s = Some s' \<and> heap_ok s' B L \<and>
    mem_get (mem s') p (length cs) = cs \<and> (\<forall>(b, j) \<in> L. b \<noteq> p \<longrightarrow> mem_get (mem s') b j = mem_get (mem s) b j)"
proof -
  let ?data = "mem_get (mem s) p (unat (of_nat (length cs) :: u32))"
  obtain s1 where 1: "bl_usb_control_transfer env device ?data (BL_USB_SETUP_REQUEST_TYPE_DEVICE_TO_HOST OR 0) BL_USB_REQUEST_TYPE_GET_DESCRIPTOR
        (push_bit 8 BL_USB_DESCRIPTOR_TYPE_CONFIG OR (0 AND 0xff)) 0 (of_nat (length cs)) s = Some (cs, s1)"
      "heap_ok s1 B L" "\<forall>(b, k) \<in> L. mem_get (mem s1) b k = mem_get (mem s) b k"
    using assms(1,2) unfolding config_read_def by blast
  have f: "fits p k" using heap.blocks_fit [OF heap_ok_live [OF assms(2)] assms(3)] .
  have "same_outside p k (mem s1) (mem_put (mem s1) p cs)" using same_outside_put [of 0 cs k p "mem s1"] assms(4) by simp
  note 2 = heap_ok_inside [OF 1(2) assms(3) this]
  have "mem_get (mem_put (mem s1) p cs) p (length cs) = cs" using f assms(4) by (simp add: mem_get_put_same fits_def)
  then show ?thesis
    using 1(1) 1(3) 2 by (fastforce simp: get_descriptor_mem_def control_transfer_mem_def simp del: or.right_neutral)
qed

lemma block_byte: "mem_get m' b k = mem_get m b k \<Longrightarrow> i < k \<Longrightarrow> m' (b + of_nat i) = m (b + of_nat i)"
  using block_get [of m' b k m i 1] by (simp add: mem_get_Suc)

text \<open>The configuration's own descriptor, then the interfaces' and their parts.\<close>

lemma get_hid_info_ok:
  fixes n :: nat
  assumes cr: "config_read env device (concat (config # ds))" and h: "heap_ok s (Suc B + n + 48) L"
    and n: "n = length (concat (config # ds))" "n < 2 ^ 16"
    and dev: "(device, kd) \<in> L" "88 \<le> kd" "cd_total_length (mem s) (dev_config device) = of_nat n"
      "mem s (dev_config device) = of_nat (length config)"
    and arr: "(arr, ka) \<in> L" "arr \<noteq> device" "dev_interfaces (mem s) device = arr" "ld32 (mem s) (dev_specific device) = of_nat i" "16 * Suc i \<le> ka"
      "id_interface_number (mem s) (arr + of_nat (16 * i)) = num"
    and ds: "\<forall>d \<in> set (config # ds). desc_ok d" "dropWhile (\<lambda>d. \<not> is_interface d) ds = d # ds'"
      "dropWhile (\<lambda>d. \<not> is_hid d) ds' = hid # rest" "9 \<le> length hid"
  shows "if d ! 2 = num
    then \<exists>s'. bl_usb_get_hid_info env device s = Some (BL_STATUS_SUCCESS, s') \<and> heap_ok s' (Suc B) L \<and>
      mem_get (mem s') (dev_specific device + 4) 9 = take 9 hid
    else bl_usb_get_hid_info env device s = None"
proof -
  let ?cs = "concat (config # ds)"
  have tl: "unat (of_nat n :: u32) = n" using n(2) by (intro unat_of_nat_eq) simp
  have tl16: "ucast (of_nat n :: u16) = (of_nat n :: u32)"
    using n(2) by (simp add: word_unat_eq_iff unsigned_ucast_eq unat_of_nat take_bit_eq_mod)
  obtain cd s1 where a: "bl_heap_alloc s (of_nat n) = Some (cd, s1)" "cd \<noteq> 0" "n \<le> block_size s1 cd"
      "heap_ok s1 (Suc B) (insert (cd, block_size s1 cd) L)" "\<forall>k. (cd, k) \<notin> L"
      "\<forall>(b, k) \<in> L. mem_get (mem s1) b k = mem_get (mem s) b k"
    using heap_ok_alloc [of s "Suc B" "of_nat n" L] h unfolding tl by auto
  define k where "k = block_size s1 cd"
  let ?L = "insert (cd, k) L"
  note a = a [folded k_def]
  have ne: "cd \<noteq> device" "cd \<noteq> arr" using a(5) dev(1) arr(1) by auto
  obtain s2 where 2: "get_descriptor_mem env device 0 BL_USB_DESCRIPTOR_TYPE_CONFIG 0 0 cd (of_nat n) s1 = Some s2" "heap_ok s2 (Suc B) ?L"
      "mem_get (mem s2) cd (length ?cs) = ?cs" "\<forall>(b, j) \<in> ?L. b \<noteq> cd \<longrightarrow> mem_get (mem s2) b j = mem_get (mem s1) b j"
    using config_read_into [OF cr a(4) insertI1] a(3) n(1) by auto
  have d1: "mem_get (mem s1) device kd = mem_get (mem s) device kd" using a(6) dev(1) by auto
  have d2: "mem_get (mem s2) device kd = mem_get (mem s) device kd" using 2(4) dev(1) ne d1 by auto
  have "mem_get (mem s2) arr ka = mem_get (mem s1) arr ka" using 2(4) arr(1) ne by auto
  also have "\<dots> = mem_get (mem s) arr ka" using a(6) arr(1) by auto
  finally have num: "id_interface_number (mem s2) (arr + of_nat (16 * i)) = num"
    using block_byte [of "mem s2" arr ka "mem s" "16 * i + 2"] arr(5,6) by (simp add: id_interface_number_def ac_simps)
  have len: "desc_length (mem s2) (dev_config device) = of_nat (length config)"
    using block_byte [OF d2, of 34] dev(2,4) by (simp add: desc_length_def dev_config_def)
  have total: "cd_total_length m (dev_config device) = of_nat n" if "mem_get m device 60 = mem_get (mem s) device 60" for m
    using block_get [OF that, of 36 2] dev(2,3) by (simp add: cd_total_length_def dev_config_def ld16_def add.assoc)
  have all: "descriptors_at (mem s2) cd (config # ds)" using 2(3) ds(1) by (simp add: descriptors_at_def)
  define pre where "pre = config # takeWhile (\<lambda>d. \<not> is_interface d) ds"
  have split: "config # ds = pre @ d # ds'" using takeWhile_dropWhile_id [of "\<lambda>d. \<not> is_interface d" ds] ds(2) by (simp add: pre_def)
  define off where "off = length (concat pre)"
  have at: "descriptors_at (mem s2) (cd + of_nat off) (d # ds')"
    using descriptors_append [of "mem s2" cd pre "d # ds'"] all unfolding split off_def by blast
  have look: "hid_interface_loop (mem s2) cd (arr + of_nat (16 * i)) (of_nat (length config)) = (if d ! 2 = num then Some (of_nat off) else None)"
    using hid_interface_first [OF descriptors_Cons(5) [OF all] ds(2), of "arr + of_nat (16 * i)"] unfolding num by (simp add: off_def pre_def)
  have len': "ucast (desc_length (mem s2) (dev_config device)) = (of_nat (length config) :: u32)"
  proof -
    have c: "config \<noteq> []" "config ! 0 = of_nat (length config)" using ds(1) by (auto simp: desc_ok_def)
    then have "mem s2 cd = of_nat (length config)" using descriptors_byte [OF all, of 0] by simp
    then show ?thesis using descriptors_Cons(3) [OF all] len by (simp add: desc_length_def)
  qed
  have prefix: "mem_get m device 60 = mem_get (mem s) device 60" if "mem_get m device kd = mem_get (mem s) device kd" for m
    using block_get [OF that, of 0 60] dev(2) by simp
  have t0: "cd_total_length (mem s) (dev_config device) = of_nat n" "cd_total_length (mem s1) (dev_config device) = of_nat n"
    using total [OF prefix [OF d1]] total [OF refl] by simp_all
  note start = bl_usb_get_hid_info_def Let_def t0 tl16 a(1,2) 2(1) interface_at_def arr(3,4) len'
  show ?thesis
  proof (cases "d ! 2 = num")
    case False
    then show ?thesis using look by (simp add: start)
  next
    case True
    let ?pre = "pre @ d # takeWhile (\<lambda>d. \<not> is_hid d) ds'"
    have split2: "config # ds = ?pre @ hid # rest"
      using takeWhile_dropWhile_id [of "\<lambda>d. \<not> is_hid d" ds'] ds(3) split by simp
    define off1 where "off1 = length (concat ?pre)"
    have at1: "descriptors_at (mem s2) (cd + of_nat off1) (hid # rest)"
      using descriptors_append [of "mem s2" cd ?pre "hid # rest"] all unfolding split2 off1_def by blast
    have n1: "off1 + length hid \<le> n" "0 < off1"
      using n(1) ds(1) unfolding off1_def split2 by (auto simp: pre_def desc_ok_def)
    have nxt: "descriptors_at (mem s2) (cd + (of_nat off + of_nat (length d))) ds'"
      using descriptors_Cons(5) [OF at] by (simp add: add.assoc)
    have hid: "hid_descriptor_loop (mem s2) cd (of_nat off + ucast (desc_length (mem s2) (cd + of_nat off))) = Some (of_nat off1)"
      using hid_descriptor_first [OF nxt ds(3)] descriptors_Cons(3) [OF at] by (simp add: off_def off1_def add.assoc)
    have h9: "mem_get (mem s2) (cd + of_nat off1) 9 = take 9 hid"
      using take_mem_get [OF ds(4), of "mem s2" "cd + of_nat off1"] descriptors_Cons(2) [OF at1] by simp
    let ?m = "snd (bl_memcpy (mem s2) (dev_specific device + 4) (cd + of_nat off1) sizeof_hid_descriptor)"
    have u: "unat (cd + of_nat off1) = unat cd + off1" "unat (device + of_nat 60) = unat device + 60" "fits device kd" "fits cd k"
      using heap.blocks_fit [OF heap_ok_live [OF 2(2)]] dev(1,2) n1 a(3) n(2)
        heap_ok_below(1) [OF 2(2), of cd k] heap_ok_below(1) [OF 2(2), of device kd]
      by (auto intro!: unat_add_lt unat_add_lt [of device 60, simplified])
    have ptr: "dev_specific device + 4 = device + of_nat 60" by (simp add: dev_specific_def)
    have nz: "device + of_nat 60 \<noteq> 0" "cd + of_nat off1 \<noteq> 0" using u(1,2) n1(2) by (metis add_is_0 neq0_conv unat_0 zero_neq_numeral, metis add_is_0 neq0_conv unat_0)
    have cpy: "same_outside device kd (mem s2) ?m" "mem_get ?m (dev_specific device + 4) 9 = take 9 hid"
      "mem_get ?m device 60 = mem_get (mem s2) device 60"
      using memcpy_inside [of "device + of_nat 60" "cd + of_nat off1" sizeof_hid_descriptor device 60 kd "mem s2"] u nz n1 a(3) ds(4) dev(2) h9
      unfolding ptr by (simp_all add: sizeof_hid_descriptor_def fits_def)
    have dl: "(device, kd) \<in> ?L" using dev(1) by simp
    note 3 = heap_ok_inside [OF 2(2) dl cpy(1)]
    let ?s4 = "bl_heap_free (s2\<lparr>mem := ?m\<rparr>) cd (of_nat n)"
    note f = heap_ok_free [OF 3(1), of cd k "of_nat n"]
    have L: "?L - {(cd, k)} = L" using a(5) by auto
    have "mem_get (mem ?s4) device kd = mem_get ?m device kd" using f dev(1) by auto
    from block_get [OF this, of 60 9] have keep: "mem_get (mem ?s4) (dev_specific device + 4) 9 = take 9 hid"
      using cpy(2) dev(2) unfolding ptr by simp
    have "cd_total_length ?m (dev_config device) = of_nat n" using total [of ?m] cpy(3) prefix [OF d2] by simp
    then have "bl_usb_get_hid_info env device s = Some (BL_STATUS_SUCCESS, ?s4)"
      using True look hid by (simp add: start)
    then show ?thesis using f L keep True by auto
  qed
qed
end
