(* ===== verification/Bl_UsbDrivers.thy ===== *)
theory Bl_UsbDrivers
  imports Bl_Usb
begin

text \<open>
  The USB class drivers: src/boot-loader/modules/keyboard/usb-kbd/usb-keyboard.c and
  modules/storage/usb-scsi/usb-scsi.c, on the USB core of Bl_Usb.

  The command and status blocks of the mass storage driver are local variables, byte lists here;
  what \<open>bl_memset\<close> leaves of them, the last byte, comes from \<open>ue_stack\<close>.
\<close>

unbundle bit_operations_syntax

subsection \<open>The keyboard\<close>

definition BL_USB_MODIFIER_KEY_LEFT_SHIFT :: u8 where "BL_USB_MODIFIER_KEY_LEFT_SHIFT = push_bit 1 1"
definition BL_USB_MODIFIER_KEY_RIGHT_SHIFT :: u8 where "BL_USB_MODIFIER_KEY_RIGHT_SHIFT = push_bit 5 1"
definition BL_USB_HID_REQUEST_TYPE_SET_IDLE :: u32 where "BL_USB_HID_REQUEST_TYPE_SET_IDLE = 0xa"
definition BL_USB_HID_REQUEST_TYPE_SET_PROTOCOL :: u32 where "BL_USB_HID_REQUEST_TYPE_SET_PROTOCOL = 0xb"

text \<open>specific.keyboard: the interface, the HID descriptor's country code, the endpoint.\<close>

definition kb_interface :: "mem \<Rightarrow> addr \<Rightarrow> u32" where "kb_interface m d = ld32 m (dev_specific d)"
definition kb_country_code :: "mem \<Rightarrow> addr \<Rightarrow> u8" where "kb_country_code m d = m (dev_specific d + 8)"
definition kb_endp :: "addr \<Rightarrow> addr" where "kb_endp d = dev_specific d + 16"

partial_function (option) wait_endpoint_loop :: "'d usb_st usb_env \<Rightarrow> addr \<Rightarrow> addr \<Rightarrow> 'd usb_st \<Rightarrow> (u8 list \<times> 'd usb_st) option" where
  "wait_endpoint_loop env device info s =
     (case bl_usb_check_transfer_status env device info s of
        None \<Rightarrow> None
      | Some (status, report, s1) \<Rightarrow>
          if status = BL_STATUS_USB_ACTION_NOT_FINISHED
          then wait_endpoint_loop env device info
                 (ue_sleep env (ucast (ed_interval (mem s1) (ld32 (mem s1) (kb_endp device + 4)))) s1)
          else Some (report, s1))"

text \<open>The key and the modifiers of the report.\<close>

definition bl_usb_keyboard_wait_endpoint :: "'d usb_st usb_env \<Rightarrow> addr \<Rightarrow> 'd usb_st \<Rightarrow> ((u8 \<times> u8) \<times> 'd usb_st) option" where
  "bl_usb_keyboard_wait_endpoint env device s = do {
     (info, s1) \<leftarrow> bl_usb_interrupt_transfer env device (kb_endp device) (ue_stack env 8) 8 s;
     (report, s2) \<leftarrow> wait_endpoint_loop env device info s1;
     Some ((get8 report 2, get8 report 0), s2) }"

definition bl_usb_keyboard_make_char :: "int \<Rightarrow> u8 \<Rightarrow> int" where
  "bl_usb_keyboard_make_char key modifier_key =
     (if modifier_key AND BL_USB_MODIFIER_KEY_LEFT_SHIFT \<noteq> 0 \<or> modifier_key AND BL_USB_MODIFIER_KEY_RIGHT_SHIFT \<noteq> 0
      then bl_keyboard_layout_lookup_shift key else bl_keyboard_layout_lookup key)"

definition bl_usb_keyboard_getchar :: "'d usb_st usb_env \<Rightarrow> kbd_info \<Rightarrow> 'd usb_st \<Rightarrow> (int \<times> 'd usb_st) option" where
  "bl_usb_keyboard_getchar env kbd s = do {
     ((key, modifier_key), s1) \<leftarrow> bl_usb_keyboard_wait_endpoint env (kbd_data kbd) s;
     Some (if key \<noteq> 0 then bl_usb_keyboard_make_char (uint key) modifier_key else -1, s1) }"

definition keyboard_interface_request :: "'d usb_st usb_env \<Rightarrow> u32 \<Rightarrow> addr \<Rightarrow> addr \<Rightarrow> 'd usb_st \<Rightarrow> 'd usb_st option" where
  "keyboard_interface_request env request device interface s =
     map_option snd (bl_usb_control_transfer env device []
       (BL_USB_SETUP_REQUEST_TYPE_RECIPIENT_INTERFACE OR BL_USB_SETUP_REQUEST_TYPE_CLASS OR BL_USB_SETUP_REQUEST_TYPE_HOST_TO_DEVICE)
       request 0 (ucast (id_interface_number (mem s) interface)) 0 s)"

definition bl_usb_keyboard_set_boot_protocol :: "'d usb_st usb_env \<Rightarrow> addr \<Rightarrow> addr \<Rightarrow> 'd usb_st \<Rightarrow> 'd usb_st option" where
  "bl_usb_keyboard_set_boot_protocol env = keyboard_interface_request env BL_USB_HID_REQUEST_TYPE_SET_PROTOCOL"

definition bl_usb_keyboard_set_idle_request :: "'d usb_st usb_env \<Rightarrow> addr \<Rightarrow> addr \<Rightarrow> 'd usb_st \<Rightarrow> 'd usb_st option" where
  "bl_usb_keyboard_set_idle_request env = keyboard_interface_request env BL_USB_HID_REQUEST_TYPE_SET_IDLE"

definition bl_usb_keyboard_configure :: "'d usb_st usb_env \<Rightarrow> addr \<Rightarrow> addr \<Rightarrow> 'd usb_st \<Rightarrow> 'd usb_st option" where
  "bl_usb_keyboard_configure env device interface s = do {
     s1 \<leftarrow> bl_usb_keyboard_set_boot_protocol env device interface s;
     bl_usb_keyboard_set_idle_request env device interface s1 }"

text \<open>The first IN interrupt endpoint; none leaves the structure as it is.\<close>

fun keyboard_endpoint_loop :: "addr \<Rightarrow> addr \<Rightarrow> nat \<Rightarrow> u32 \<Rightarrow> mem \<Rightarrow> mem" where
  "keyboard_endpoint_loop device interface 0 i m = m"
| "keyboard_endpoint_loop device interface (Suc n) i m =
     (let ep = endpoint_at m interface i
      in if ed_endpoint_address m ep AND push_bit 7 1 \<noteq> 0 \<and> ed_attributes m ep = 0x3
         then (let m1 = st32 m (kb_endp device) 0 in st32 m1 (kb_endp device + 4) (endpoint_at m1 interface i))
         else keyboard_endpoint_loop device interface n (i + 1) m)"

definition bl_usb_keyboard_initialize :: "'d usb_st usb_env \<Rightarrow> kbd_info \<Rightarrow> 'd usb_st \<Rightarrow> (bl_status \<times> 'd usb_st) option" where
  "bl_usb_keyboard_initialize env kbd s =
     (let device = kbd_data kbd; funcs = funcs_of env s (dev_controller (mem s) device);
          interface = interface_at (mem s) device (kb_interface (mem s) device)
      in if hc_interrupt funcs = None \<or> hc_check_status funcs = None then Some (BL_STATUS_UNSUPPORTED, s)
         else if id_interface_class (mem s) interface \<noteq> 0x3 \<or> id_interface_subclass (mem s) interface \<noteq> 0x1 \<or>
           id_interface_protocol (mem s) interface \<noteq> 0x1 then Some (BL_STATUS_USB_INVALID_DEVICE, s)
         else if kb_country_code (mem s) device \<noteq> 0 then Some (BL_STATUS_USB_INVALID_DEVICE, s)
         else do {
           s1 \<leftarrow> bl_usb_keyboard_configure env device interface
             (s\<lparr>mem := keyboard_endpoint_loop device interface (unat (id_num_endpoints (mem s) interface)) 0 (mem s)\<rparr>);
           Some (BL_STATUS_SUCCESS, s1) })"

definition usb_keyboard_controller :: "'d usb_st usb_env \<Rightarrow> 'd usb_st keyboard_controller" where
  "usb_keyboard_controller env = \<lparr>kc_type = BL_KEYBOARD_USB, kc_initialize = Some (bl_usb_keyboard_initialize env),
     kc_getchar = Some (bl_usb_keyboard_getchar env)\<rparr>"

definition usb_keyboard_module_init :: "'d usb_st usb_env \<Rightarrow> 'd usb_st keyboard_st \<Rightarrow> 'd usb_st keyboard_st" where
  "usb_keyboard_module_init env st = bl_keyboard_controller_register (usb_keyboard_controller env) st"

subsection \<open>Mass storage\<close>

definition BL_SCSI_COMMAND_SENSE_DATA :: u8 where "BL_SCSI_COMMAND_SENSE_DATA = 0x03"
definition BL_SCSI_COMMAND_INQUIRY :: u8 where "BL_SCSI_COMMAND_INQUIRY = 0x12"
definition BL_SCSI_COMMAND_READ_CAPACITY10 :: u8 where "BL_SCSI_COMMAND_READ_CAPACITY10 = 0x25"
definition BL_SCSI_COMMAND_READ10 :: u8 where "BL_SCSI_COMMAND_READ10 = 0x28"
definition BL_SCSI_COMMAND_READ_CAPACITY16 :: u8 where "BL_SCSI_COMMAND_READ_CAPACITY16 = 0x9e"
definition BL_USB_BBB_CBW_SIGNATURE :: u32 where "BL_USB_BBB_CBW_SIGNATURE = 0x43425355"

definition sizeof_cbw :: nat where "sizeof_cbw = 31"
definition sizeof_csw :: nat where "sizeof_csw = 13"

text \<open>A local structure of \<open>n\<close> bytes after \<open>bl_memset (&x, 0, sizeof (x))\<close>: the last byte is not stored.\<close>

definition cleared_local :: "'s usb_env \<Rightarrow> nat \<Rightarrow> u8 list" where
  "cleared_local env n = replicate (n - 1) 0 @ [get8 (ue_stack env n) (n - 1)]"

text \<open>Storing a field of a local structure.\<close>

definition put_field :: "nat \<Rightarrow> u8 list \<Rightarrow> u8 list \<Rightarrow> u8 list" where
  "put_field i bs xs = take i xs @ bs @ drop (i + length bs) xs"

definition bl_usb_scsi_bbb_init_cbw :: "'s usb_env \<Rightarrow> u32 \<Rightarrow> u8 \<Rightarrow> u32 \<Rightarrow> u8 list \<Rightarrow> u8 \<Rightarrow> u32 \<Rightarrow> u8 list" where
  "bl_usb_scsi_bbb_init_cbw env tag lun direction cmd cb_length length' =
     (let c0 = cleared_local env sizeof_cbw;
          c1 = put_field 0 (to_le 4 (unat BL_USB_BBB_CBW_SIGNATURE)) c0;
          c2 = put_field 4 (to_le 4 (unat tag)) c1;
          c3 = put_field 8 (to_le 4 (unat length')) c2;
          c4 = put_field 12 [if direction \<noteq> 0 then 0 else push_bit 7 1, lun, cb_length] c3
      in put_field 15 (take (unat cb_length) cmd) c4)"

definition bl_usb_scsi_bbb_execute_command :: "'d usb_st usb_env \<Rightarrow> addr \<Rightarrow> u32 \<Rightarrow> u8 list \<Rightarrow> u8 \<Rightarrow> u8 list \<Rightarrow> u32 \<Rightarrow> 'd usb_st \<Rightarrow>
    (bl_status \<times> u8 list \<times> 'd usb_st) option" where
  "bl_usb_scsi_bbb_execute_command env device direction cmd cb_length buf length' s =
     (let s0 = s\<lparr>usb_bbb_tag := usb_bbb_tag s + 1\<rparr>;
          cbw = bl_usb_scsi_bbb_init_cbw env (usb_bbb_tag s0) 0 direction cmd cb_length length'
      in do {
        (_, s1) \<leftarrow> bl_usb_bulk_transfer env device 1 cbw (of_nat sizeof_cbw) s0;
        (data, s2) \<leftarrow> bl_usb_bulk_transfer env device direction buf length' s1;
        (_, s3) \<leftarrow> bl_usb_bulk_transfer env device 0 (ue_stack env sizeof_csw) (of_nat sizeof_csw) s2;
        Some (BL_STATUS_SUCCESS, data, s3) })"

text \<open>The commands: opcode first, the other fields at their offsets.\<close>

definition bl_usb_scsi_sense_data :: "'d usb_st usb_env \<Rightarrow> addr \<Rightarrow> 'd usb_st \<Rightarrow> (bl_status \<times> 'd usb_st) option" where
  "bl_usb_scsi_sense_data env device s = do {
     let cmd = put_field 4 [18] (put_field 1 [push_bit 5 0] (put_field 0 [BL_SCSI_COMMAND_SENSE_DATA] (cleared_local env 6)));
     (status, _, s1) \<leftarrow> bl_usb_scsi_bbb_execute_command env device 0 cmd 6 (ue_stack env 18) 18 s;
     Some (status, s1) }"

definition scsi_read10_command :: "'s usb_env \<Rightarrow> u64 \<Rightarrow> u64 \<Rightarrow> u8 list" where
  "scsi_read10_command env lba' sectors' =
     put_field 7 (to_le 2 (unat (bytes_swap16 (ucast (sectors' AND 0xffff)))))
       (put_field 2 (to_le 4 (unat (bytes_swap32 (ucast (lba' AND 0xffffffff)))))
         (put_field 0 [BL_SCSI_COMMAND_READ10] (cleared_local env 10)))"

definition bl_usb_scsi_read10 :: "'d usb_st usb_env \<Rightarrow> addr \<Rightarrow> u8 list \<Rightarrow> u64 \<Rightarrow> u64 \<Rightarrow> u32 \<Rightarrow> 'd usb_st \<Rightarrow>
    (bl_status \<times> u8 list \<times> 'd usb_st) option" where
  "bl_usb_scsi_read10 env device buf lba' sectors' length' s = do {
     (status, data, s1) \<leftarrow> bl_usb_scsi_bbb_execute_command env device 0 (scsi_read10_command env lba' sectors') 10 buf length' s;
     if failed status then Some (status, data, s1)
     else do {
       (status1, s2) \<leftarrow> bl_usb_scsi_sense_data env device s1;
       if failed status1 then Some (status1, data, s2) else Some (BL_STATUS_SUCCESS, data, s2) } }"

definition bl_usb_scsi_read :: "'d usb_st usb_env \<Rightarrow> device_info \<Rightarrow> u8 list \<Rightarrow> u64 \<Rightarrow> u64 \<Rightarrow> 'd usb_st \<Rightarrow>
    (bl_status \<times> u8 list \<times> 'd usb_st) option" where
  "bl_usb_scsi_read env disk buf lba' sectors' s = do {
     (status, data, s1) \<leftarrow> bl_usb_scsi_read10 env (dev_data disk) buf lba' sectors' (ucast (sectors' * ucast (sector_size disk))) s;
     if failed status then Some (status, data, s1) else Some (BL_STATUS_SUCCESS, data, s1) }"

definition scsi_capacity16 :: "'d usb_st usb_env \<Rightarrow> addr \<Rightarrow> u64 \<Rightarrow> u32 \<Rightarrow> 'd usb_st \<Rightarrow> ((bl_status \<times> u64 \<times> u32) \<times> 'd usb_st) option" where
  "scsi_capacity16 env device count0 size0 s = do {
     let cmd = put_field 10 (to_le 4 (unat (bytes_swap32 32)))
       (put_field 1 [push_bit 5 0] (put_field 0 [BL_SCSI_COMMAND_READ_CAPACITY16] (cleared_local env 16)));
     (status, data2, s1) \<leftarrow> bl_usb_scsi_bbb_execute_command env device 0 cmd 16 (ue_stack env 32) 32 s;
     if failed status then Some ((status, count0, size0), s1)
     else do {
       (status1, s2) \<leftarrow> bl_usb_scsi_sense_data env device s1;
       if failed status1 then Some ((status1, count0, size0), s2)
       else Some ((BL_STATUS_SUCCESS, bytes_swap64 (get64 data2 0) + 1, bytes_swap32 (get32 data2 8)), s2) } }"

text \<open>The sector count and size, as they were where the command fails.\<close>

definition bl_usb_scsi_get_size :: "'d usb_st usb_env \<Rightarrow> addr \<Rightarrow> u64 \<Rightarrow> u32 \<Rightarrow> 'd usb_st \<Rightarrow> ((bl_status \<times> u64 \<times> u32) \<times> 'd usb_st) option" where
  "bl_usb_scsi_get_size env device count0 size0 s = do {
     let cmd = put_field 1 [push_bit 5 0] (put_field 0 [BL_SCSI_COMMAND_READ_CAPACITY10] (cleared_local env 10));
     (status, data1, s1) \<leftarrow> bl_usb_scsi_bbb_execute_command env device 0 cmd 10 (ue_stack env 8) 8 s;
     if failed status then Some ((status, count0, size0), s1)
     else do {
       (status1, s2) \<leftarrow> bl_usb_scsi_sense_data env device s1;
       if failed status1 then Some ((status1, count0, size0), s2)
       else if get32 data1 0 < 0xffffffff
       then Some ((BL_STATUS_SUCCESS, ucast (bytes_swap32 (get32 data1 0) + 1), bytes_swap32 (get32 data1 4)), s2)
       else scsi_capacity16 env device count0 size0 s2 } }"

definition bl_usb_scsi_inquiry :: "'d usb_st usb_env \<Rightarrow> addr \<Rightarrow> 'd usb_st \<Rightarrow> (bl_status \<times> 'd usb_st) option" where
  "bl_usb_scsi_inquiry env device s = do {
     let cmd = put_field 0 [BL_SCSI_COMMAND_INQUIRY, push_bit 5 0, 0, 0, 36, 0] (cleared_local env 6);
     (status, _, s1) \<leftarrow> bl_usb_scsi_bbb_execute_command env device 0 cmd 6 (ue_stack env 36) 36 s;
     if failed status then Some (status, s1)
     else do {
       (status1, s2) \<leftarrow> bl_usb_scsi_sense_data env device s1;
       if failed status1 then Some (status1, s2) else Some (BL_STATUS_SUCCESS, s2) } }"

text \<open>specific.storage: the endpoints. The first IN and the first OUT bulk endpoint are taken.\<close>

definition st_interface :: "mem \<Rightarrow> addr \<Rightarrow> u32" where "st_interface m d = ld32 m (dev_specific d + 8)"
definition st_in_endp :: "addr \<Rightarrow> addr" where "st_in_endp d = dev_specific d + 12"
definition st_out_endp :: "addr \<Rightarrow> addr" where "st_out_endp d = dev_specific d + 20"
definition endp_descriptor :: "mem \<Rightarrow> addr \<Rightarrow> addr" where "endp_descriptor m e = ld32 m (e + 4)"

definition endp_set :: "addr \<Rightarrow> addr \<Rightarrow> mem \<Rightarrow> mem" where "endp_set e descriptor m = st32 (st32 m e 0) (e + 4) descriptor"

fun storage_endpoints_loop :: "addr \<Rightarrow> addr \<Rightarrow> nat \<Rightarrow> u32 \<Rightarrow> mem \<Rightarrow> mem" where
  "storage_endpoints_loop device interface 0 i m = m"
| "storage_endpoints_loop device interface (Suc n) i m =
     (let ep = endpoint_at m interface i;
          m1 = (if endp_descriptor m (st_in_endp device) = 0 \<and> ed_endpoint_address m ep AND push_bit 7 1 \<noteq> 0 \<and> ed_attributes m ep = 0x2
                then endp_set (st_in_endp device) ep m else m);
          ep1 = endpoint_at m1 interface i;
          m2 = (if endp_descriptor m1 (st_out_endp device) = 0 \<and> ed_endpoint_address m1 ep1 AND push_bit 7 1 = 0 \<and> ed_attributes m1 ep1 = 0x2
                then endp_set (st_out_endp device) ep1 m1 else m1)
      in storage_endpoints_loop device interface n (i + 1) m2)"

definition bl_usb_scsi_validate_device :: "addr \<Rightarrow> mem \<Rightarrow> bl_status \<times> mem" where
  "bl_usb_scsi_validate_device device m =
     (let interface = interface_at m device (st_interface m device)
      in if id_interface_class m interface \<noteq> 0x8 \<or> id_interface_subclass m interface \<noteq> 0x6 then (BL_STATUS_USB_INVALID_DEVICE, m)
         else if id_interface_protocol m interface \<noteq> 0x50 then (BL_STATUS_USB_INVALID_DEVICE, m)
         else let m1 = st32 m (dev_specific device) 0;
                  m2 = storage_endpoints_loop device interface (unat (id_num_endpoints m1 interface)) 0 m1
              in if endp_descriptor m2 (st_in_endp device) = 0 \<or> endp_descriptor m2 (st_out_endp device) = 0
                 then (BL_STATUS_USB_INVALID_DEVICE, m2) else (BL_STATUS_SUCCESS, m2))"

definition bl_usb_scsi_get_luns :: "'d usb_st usb_env \<Rightarrow> addr \<Rightarrow> 'd usb_st \<Rightarrow> 'd usb_st option" where
  "bl_usb_scsi_get_luns env device s = do {
     (max_lun, s1) \<leftarrow> bl_usb_control_transfer env device (ue_stack env 1)
       (BL_USB_SETUP_REQUEST_TYPE_DEVICE_TO_HOST OR BL_USB_SETUP_REQUEST_TYPE_CLASS OR BL_USB_SETUP_REQUEST_TYPE_RECIPIENT_INTERFACE)
       0xfe 0 (st_interface (mem s) device) 1 s;
     Some (s1\<lparr>mem := st32 (mem s1) (dev_specific device + 4) (ucast (get8 max_lun 0))\<rparr>) }"

definition bl_usb_scsi_get_info :: "'d usb_st usb_env \<Rightarrow> device_info \<Rightarrow> 'd usb_st \<Rightarrow> (bl_status \<times> device_info \<times> 'd usb_st) option" where
  "bl_usb_scsi_get_info env disk s =
     (let device = dev_data disk
      in case bl_usb_scsi_validate_device device (mem s) of
        (status, m) \<Rightarrow> if failed status then Some (status, disk, s\<lparr>mem := m\<rparr>)
          else do {
            s1 \<leftarrow> bl_usb_scsi_get_luns env device (s\<lparr>mem := m\<rparr>);
            (status1, s2) \<leftarrow> bl_usb_scsi_inquiry env device s1;
            if failed status1 then Some (status1, disk, s2)
            else do {
              ((status2, count, size'), s3) \<leftarrow> bl_usb_scsi_get_size env device (sector_count disk) (sector_size disk) s2;
              Some (if failed status2 then status2 else BL_STATUS_SUCCESS, disk\<lparr>sector_count := count, sector_size := size'\<rparr>, s3) } })"

text \<open>The controller for the storage layer, whose fresh buffer holds \<open>ue_stack\<close>'s bytes.\<close>

definition usb_scsi_controller :: "'d usb_st usb_env \<Rightarrow> ('d, unit) usb_st_ext controller" where
  "usb_scsi_controller env = \<lparr>ctl_type = BL_DISK_CONTROLLER_TYPE_USB_SCSI,
     ctl_read = (\<lambda>disk lba' n s. bl_usb_scsi_read env disk (ue_stack env (512 * unat n)) lba' n s),
     ctl_get_info = Some (bl_usb_scsi_get_info env)\<rparr>"

definition usb_scsi_module_init :: "'d usb_st usb_env \<Rightarrow> ('d, unit) usb_st_ext storage_st \<Rightarrow> 'd usb_st \<Rightarrow>
    (('d, unit) usb_st_ext storage_st \<times> 'd usb_st) option" where
  "usb_scsi_module_init env st s = do {
     (a, s1) \<leftarrow> bl_heap_alloc s 12;
     Some (if a = 0 then st else bl_disk_controller_register (usb_scsi_controller env) st, s1) }"

subsection \<open>What the mass storage driver asks of the device\<close>

lemma length_put_field [simp]: "i + length bs \<le> length xs \<Longrightarrow> length (put_field i bs xs) = length xs"
  by (simp add: put_field_def)

lemma nth_put_field:
  "i + length bs \<le> length xs \<Longrightarrow> j < length xs \<Longrightarrow>
   put_field i bs xs ! j = (if i \<le> j \<and> j < i + length bs then bs ! (j - i) else xs ! j)"
  by (auto simp: put_field_def nth_append min_def)

lemma length_cleared_local [simp]: "0 < n \<Longrightarrow> length (cleared_local env n) = n"
  by (simp add: cleared_local_def)

lemma nth_cleared_local: "j + 1 < n \<Longrightarrow> cleared_local env n ! j = 0"
  by (auto simp: cleared_local_def nth_append)

text \<open>What a bulk-only device is: it takes a command block, then sends the data, then the status.
  \<open>R\<close> says which phase the device behind the state is in; the driver may change anything the relation
  does not fix.\<close>

datatype bbb_phase = BBB_Idle | BBB_Data "u8 list" | BBB_Status

definition be_nat :: "u8 list \<Rightarrow> nat" where "be_nat bs = le_nat (rev bs)"

definition read10_lba :: "u8 list \<Rightarrow> nat" where "read10_lba cdb = be_nat (take 4 (drop 2 cdb))"
definition read10_blocks :: "u8 list \<Rightarrow> nat" where "read10_blocks cdb = be_nat (take 2 (drop 7 cdb))"

text \<open>The well-formed command block wrappers of the bulk-only transport for a command that sends
  \<open>n\<close> bytes to the host, and the command they hold.\<close>

definition cbw_ok :: "u8 list \<Rightarrow> nat \<Rightarrow> u8 list \<Rightarrow> bool" where
  "cbw_ok cbw n cdb \<longleftrightarrow> length cbw = 31 \<and> get32 cbw 0 = BL_USB_BBB_CBW_SIGNATURE \<and> unat (get32 cbw 8) = n \<and>
     get8 cbw 12 = 0x80 \<and> get8 cbw 13 = 0 \<and> get8 cbw 14 = of_nat (length cdb) \<and> 0 < length cdb \<and> length cdb \<le> 16 \<and>
     take (length cdb) (drop 15 cbw) = cdb"

text \<open>The answers of a disk with the bytes \<open>D\<close> in \<open>N\<close> blocks of 512 bytes.\<close>

definition bbb_answer :: "(nat \<Rightarrow> u8) \<Rightarrow> nat \<Rightarrow> u8 list \<Rightarrow> nat \<Rightarrow> u8 list \<Rightarrow> bool" where
  "bbb_answer D N cdb n data \<longleftrightarrow>
     (hd cdb = BL_SCSI_COMMAND_READ10 \<longrightarrow> n = 512 * read10_blocks cdb \<longrightarrow> data = disk_bytes D (512 * read10_lba cdb) n) \<and>
     (hd cdb = BL_SCSI_COMMAND_READ_CAPACITY10 \<longrightarrow> n = 8 \<longrightarrow>
        data = rev (to_le 4 (min (N - 1) (2 ^ 32 - 1))) @ rev (to_le 4 512))"

definition bulk_only_disk :: "'d usb_st usb_env \<Rightarrow> addr \<Rightarrow> (bbb_phase \<Rightarrow> 'd usb_st \<Rightarrow> bool) \<Rightarrow> (nat \<Rightarrow> u8) \<Rightarrow> nat \<Rightarrow> bool" where
  "bulk_only_disk env device R D N \<longleftrightarrow>
     (\<forall>s tag. R BBB_Idle s \<longrightarrow> R BBB_Idle (s\<lparr>usb_bbb_tag := tag\<rparr>)) \<and>
     (\<forall>s cbw n cdb. R BBB_Idle s \<longrightarrow> cbw_ok cbw n cdb \<longrightarrow>
        (\<exists>out s'. bl_usb_bulk_transfer env device 1 cbw 31 s = Some (out, s') \<and> R (BBB_Data cdb) s')) \<and>
     (\<forall>s cdb buf n. R (BBB_Data cdb) s \<longrightarrow>
        (\<exists>data s'. bl_usb_bulk_transfer env device 0 buf n s = Some (data, s') \<and> R BBB_Status s' \<and>
           bbb_answer D N cdb (unat n) data)) \<and>
     (\<forall>s buf. R BBB_Status s \<longrightarrow>
        (\<exists>out s'. bl_usb_bulk_transfer env device 0 buf 13 s = Some (out, s') \<and> R BBB_Idle s'))"

lemma unat_mod32: "unat (x :: u32) mod 4294967296 = unat x"
  using unat_lt2p [of x] by simp

lemma low_words: "unat (ucast (l AND 0xffffffff :: u64) :: u32) = unat l mod 2 ^ 32"
  "unat (ucast (n AND 0xffff :: u64) :: u16) = unat n mod 2 ^ 16"
  using and_mask_unat [of l 32] and_mask_unat [of n 16]
  by (simp_all add: unsigned_ucast_eq take_bit_eq_mod mask_eq_exp_minus_1)

lemma max_u32: "(-1 :: u32) = 0xffffffff"
  by simp

lemma get32_to_le:
  "get32 (to_le 4 (unat v) @ ys) 0 = v" "length xs = 4 \<Longrightarrow> get32 (xs @ to_le 4 (unat v)) 4 = v"
  by (simp_all add: get32_def le_nat_to_le unat_mod32)

lemma cbw_well_formed:
  assumes "length cmd = unat cl" "0 < unat cl" "unat cl \<le> 16"
  shows "cbw_ok (bl_usb_scsi_bbb_init_cbw env tag 0 0 cmd cl len) (unat len) cmd"
proof -
  define c where "c = bl_usb_scsi_bbb_init_cbw env tag 0 0 cmd cl len"
  have [simp]: "length (cleared_local env sizeof_cbw) = 31" by (simp add: sizeof_cbw_def)
  have l: "length c = 31" using assms by (simp add: c_def bl_usb_scsi_bbb_init_cbw_def Let_def)
  have n: "c ! j = (if 15 \<le> j \<and> j < 15 + unat cl then cmd ! (j - 15)
      else if 12 \<le> j \<and> j < 15 then [0x80, 0, cl] ! (j - 12)
      else if 8 \<le> j \<and> j < 12 then to_le 4 (unat len) ! (j - 8)
      else if 4 \<le> j \<and> j < 8 then to_le 4 (unat tag) ! (j - 4)
      else if j < 4 then to_le 4 (unat BL_USB_BBB_CBW_SIGNATURE) ! j else cleared_local env sizeof_cbw ! j)"
    if "j < 31" for j
    using that assms by (simp add: c_def bl_usb_scsi_bbb_init_cbw_def Let_def nth_put_field push_bit_eq_mult)
  have f: "take 4 (drop 0 c) = to_le 4 (unat BL_USB_BBB_CBW_SIGNATURE)" "take 4 (drop 8 c) = to_le 4 (unat len)"
    by (intro nth_equalityI; simp add: l n)+
  have "take (length cmd) (drop 15 c) = cmd" using assms l by (intro nth_equalityI) (simp_all add: n)
  then show ?thesis
    using f assms l n [of 12] n [of 13] n [of 14]
    by (simp add: cbw_ok_def c_def [symmetric] get32_def get8_def le_nat_to_le BL_USB_BBB_CBW_SIGNATURE_def unat_of_nat unat_mod32)
qed

lemma execute_command_ok:
  assumes B: "bulk_only_disk env device R D N" and R: "R BBB_Idle s"
    and cmd: "length cmd = unat cl" "0 < unat cl" "unat cl \<le> 16"
  shows "\<exists>data s'. bl_usb_scsi_bbb_execute_command env device 0 cmd cl buf len s = Some (BL_STATUS_SUCCESS, data, s') \<and>
    R BBB_Idle s' \<and> bbb_answer D N cmd (unat len) data"
proof -
  let ?s0 = "s\<lparr>usb_bbb_tag := usb_bbb_tag s + 1\<rparr>"
  let ?cbw = "bl_usb_scsi_bbb_init_cbw env (usb_bbb_tag ?s0) 0 0 cmd cl len"
  have "R BBB_Idle ?s0" using B R unfolding bulk_only_disk_def by blast
  then obtain o1 s1 where 1: "bl_usb_bulk_transfer env device 1 ?cbw 31 ?s0 = Some (o1, s1)" "R (BBB_Data cmd) s1"
    using B cbw_well_formed [OF cmd] unfolding bulk_only_disk_def by blast
  then obtain data s2 where 2: "bl_usb_bulk_transfer env device 0 buf len s1 = Some (data, s2)" "R BBB_Status s2"
      "bbb_answer D N cmd (unat len) data"
    using B unfolding bulk_only_disk_def by blast
  then obtain o3 s3 where 3: "bl_usb_bulk_transfer env device 0 (ue_stack env sizeof_csw) 13 s2 = Some (o3, s3)" "R BBB_Idle s3"
    using B unfolding bulk_only_disk_def by blast
  show ?thesis
    using 1(1) 2 3 by (simp add: bl_usb_scsi_bbb_execute_command_def Let_def sizeof_cbw_def sizeof_csw_def)
qed

lemma read10_command_fields:
  "length (scsi_read10_command env l n) = 10" "hd (scsi_read10_command env l n) = BL_SCSI_COMMAND_READ10"
  "read10_lba (scsi_read10_command env l n) = unat l mod 2 ^ 32" "read10_blocks (scsi_read10_command env l n) = unat n mod 2 ^ 16"
proof -
  let ?c = "scsi_read10_command env l n"
  show len: "length ?c = 10" by (simp add: scsi_read10_command_def)
  have nth: "?c ! j = (if 7 \<le> j \<and> j < 9 then to_le 2 (unat (bytes_swap16 (ucast (n AND 0xffff)))) ! (j - 7)
      else if 2 \<le> j \<and> j < 6 then to_le 4 (unat (bytes_swap32 (ucast (l AND 0xffffffff)))) ! (j - 2)
      else if j = 0 then BL_SCSI_COMMAND_READ10 else cleared_local env 10 ! j)" if "j < 10" for j
    using that by (simp add: scsi_read10_command_def nth_put_field)
  show "hd ?c = BL_SCSI_COMMAND_READ10" using len nth [of 0] by (cases ?c) simp_all
  have "take 4 (drop 2 ?c) = to_le 4 (unat (bytes_swap32 (ucast (l AND 0xffffffff))))"
    by (intro nth_equalityI) (simp_all add: len nth)
  then show "read10_lba ?c = unat l mod 2 ^ 32"
    by (simp add: read10_lba_def be_nat_def bytes_swap32_bytes le_nat_to_le low_words)
  have "take 2 (drop 7 ?c) = to_le 2 (unat (bytes_swap16 (ucast (n AND 0xffff))))"
    by (intro nth_equalityI) (simp_all add: len nth)
  then show "read10_blocks ?c = unat n mod 2 ^ 16"
    by (simp add: read10_blocks_def be_nat_def bytes_swap16_bytes le_nat_to_le low_words)
qed

lemma sense_data_ok:
  assumes "bulk_only_disk env device R D N" "R BBB_Idle s"
  shows "\<exists>s'. bl_usb_scsi_sense_data env device s = Some (BL_STATUS_SUCCESS, s') \<and> R BBB_Idle s'"
proof -
  define cmd where "cmd = put_field 4 [18] (put_field 1 [push_bit 5 0] (put_field 0 [BL_SCSI_COMMAND_SENSE_DATA] (cleared_local env 6)))"
  have "length cmd = unat (6 :: u8)" by (simp add: cmd_def)
  then show ?thesis
    using execute_command_ok [OF assms, of cmd 6 "ue_stack env 18" 18]
    unfolding bl_usb_scsi_sense_data_def Let_def cmd_def [symmetric] by auto
qed

lemma scsi_read_ok:
  assumes "bulk_only_disk env (dev_data disk) R D N" "R BBB_Idle s" "sector_size disk = 512" "unat n < 2 ^ 16"
  shows "\<exists>s'. bl_usb_scsi_read env disk buf l n s =
      Some (BL_STATUS_SUCCESS, disk_bytes D (512 * (unat l mod 2 ^ 32)) (512 * unat n), s') \<and> R BBB_Idle s'"
proof -
  let ?len = "ucast (n * ucast (sector_size disk)) :: u32"
  have n: "unat (n * 512) = 512 * unat n" using assms(4) by (subst unat_mult_lem [THEN iffD1]) simp_all
  then have len: "unat ?len = 512 * unat n" using assms(3,4) by (simp add: unsigned_ucast_eq take_bit_eq_mod)
  obtain data s1 where 1: "bl_usb_scsi_bbb_execute_command env (dev_data disk) 0 (scsi_read10_command env l n) 10 buf ?len s =
      Some (BL_STATUS_SUCCESS, data, s1)" "R BBB_Idle s1" "bbb_answer D N (scsi_read10_command env l n) (unat ?len) data"
    using execute_command_ok [OF assms(1,2), of "scsi_read10_command env l n" 10 buf ?len]
    by (auto simp: read10_command_fields)
  obtain s2 where 2: "bl_usb_scsi_sense_data env (dev_data disk) s1 = Some (BL_STATUS_SUCCESS, s2)" "R BBB_Idle s2"
    using sense_data_ok [OF assms(1) 1(2)] by blast
  have "data = disk_bytes D (512 * (unat l mod 2 ^ 32)) (512 * unat n)"
    using 1(3) len assms(4) by (simp add: bbb_answer_def read10_command_fields)
  then show ?thesis
    using 1(1) 2 by (simp add: bl_usb_scsi_read_def bl_usb_scsi_read10_def failed_def)
qed

lemma scsi_get_size_ok:
  assumes "bulk_only_disk env device R D N" "R BBB_Idle s" "0 < N" "N < 2 ^ 32"
  shows "\<exists>s'. bl_usb_scsi_get_size env device c z s = Some ((BL_STATUS_SUCCESS, of_nat N, 512), s') \<and> R BBB_Idle s'"
proof -
  define cmd where "cmd = put_field 1 [push_bit 5 0] (put_field 0 [BL_SCSI_COMMAND_READ_CAPACITY10] (cleared_local env 10))"
  have cmd: "length cmd = unat (10 :: u8)" by (simp add: cmd_def)
  have "cmd ! 0 = BL_SCSI_COMMAND_READ_CAPACITY10" by (simp add: cmd_def nth_put_field)
  then have hd: "hd cmd = BL_SCSI_COMMAND_READ_CAPACITY10" using cmd by (cases cmd) simp_all
  obtain data s1 where 1: "bl_usb_scsi_bbb_execute_command env device 0 cmd 10 (ue_stack env 8) 8 s =
      Some (BL_STATUS_SUCCESS, data, s1)" "R BBB_Idle s1" "bbb_answer D N cmd 8 data"
    using execute_command_ok [OF assms(1,2), of cmd 10 "ue_stack env 8" 8] cmd by auto
  obtain s2 where 2: "bl_usb_scsi_sense_data env device s1 = Some (BL_STATUS_SUCCESS, s2)" "R BBB_Idle s2"
    using sense_data_ok [OF assms(1) 1(2)] by blast
  have data: "data = rev (to_le 4 (N - 1)) @ rev (to_le 4 512)" using 1(3) hd assms(4) by (simp add: bbb_answer_def min_absorb1)
  define w :: u32 where "w = of_nat (N - 1)"
  have w: "unat w = N - 1" using assms(4) by (simp add: w_def unat_of_nat_eq)
  have "data = to_le 4 (unat (bytes_swap32 w)) @ to_le 4 (unat (bytes_swap32 512))"
    using w by (simp add: data bytes_swap32_bytes)
  then have swap: "get32 data 0 = bytes_swap32 w" "get32 data 4 = bytes_swap32 512"
    by (simp_all add: get32_to_le)
  have "bytes_swap32 w \<noteq> 0xffffffff"
  proof
    assume "bytes_swap32 w = 0xffffffff"
    then have "rev (to_le 4 (unat w)) = to_le 4 (unat (0xffffffff :: u32))" using bytes_swap32_bytes [of w] by simp
    then have "w = 0xffffffff" by (intro to_le_eqD [of 4]) (simp_all add: to_le_numeral)
    then show False using w assms(4) by simp
  qed
  then have "get32 data 0 < 0xffffffff" using word_order.not_eq_extremum [of "bytes_swap32 w"] swap(1) by (simp add: max_u32)
  moreover have "bytes_swap32 (bytes_swap32 v) = v" for v
    by (rule to_le_eqD [of 4]) (simp_all add: bytes_swap32_bytes)
  moreover have "ucast (w + 1) = (of_nat N :: u64)"
  proof -
    have "w + 1 = of_nat N" using assms(3) by (simp add: w_def)
    then show ?thesis using assms(4) by (simp add: word_unat_eq_iff unsigned_ucast_eq unat_of_nat take_bit_eq_mod)
  qed
  ultimately show ?thesis
    using 1(1) 2 swap unfolding bl_usb_scsi_get_size_def Let_def cmd_def [symmetric] by (simp add: failed_def)
qed

text \<open>The status block is read and not looked at: a command that returns reports success.\<close>

lemma execute_command_status:
  "bl_usb_scsi_bbb_execute_command env device dir cmd cl buf len s = Some (status, data, s') \<Longrightarrow> status = BL_STATUS_SUCCESS"
  by (auto simp: bl_usb_scsi_bbb_execute_command_def Let_def bind_eq_Some_conv)

lemma sense_data_status: "bl_usb_scsi_sense_data env device s = Some (status, s') \<Longrightarrow> status = BL_STATUS_SUCCESS"
  by (auto simp: bl_usb_scsi_sense_data_def Let_def bind_eq_Some_conv dest: execute_command_status)

lemma scsi_read_status: "bl_usb_scsi_read env disk buf l n s = Some (status, data, s') \<Longrightarrow> status = BL_STATUS_SUCCESS"
  by (auto simp: bl_usb_scsi_read_def bl_usb_scsi_read10_def bind_eq_Some_conv split: if_splits
      dest: execute_command_status sense_data_status)
subsection \<open>What \<open>getchar\<close> returns\<close>

lemma layout_chars: "i < 256 \<Longrightarrow> bl_keyboard_layout ! i < 127 \<and> bl_keyboard_layout_shift ! i < 127"
proof -
  have "list_all (\<lambda>x. x < 127) bl_keyboard_layout" "list_all (\<lambda>x. x < 127) bl_keyboard_layout_shift"
    "length bl_keyboard_layout = 256" "length bl_keyboard_layout_shift = 256"
    by (simp_all add: bl_keyboard_layout_def bl_keyboard_layout_shift_def list_all_iff)
  then show "i < 256 \<Longrightarrow> bl_keyboard_layout ! i < 127 \<and> bl_keyboard_layout_shift ! i < 127"
    by (simp add: list_all_length)
qed

lemma scan_code_chars: "i < 256 \<Longrightarrow> scan_code_set2 ! i AND BL_PS2_KEYBOARD_UNPRINTABLE_KEY = 0 \<Longrightarrow>
  scan_code_set2 ! i < 127 \<and> scan_code_set2_with_shift ! i < 127"
proof -
  have "list_all (\<lambda>(x, y). x AND BL_PS2_KEYBOARD_UNPRINTABLE_KEY = 0 \<longrightarrow> x < 127 \<and> y < 127) (zip scan_code_set2 scan_code_set2_with_shift)"
    "length scan_code_set2 = 256" "length scan_code_set2_with_shift = 256"
    by (simp_all add: scan_code_set2_def scan_code_set2_with_shift_def list_all_iff BL_KEY_LSHIFT_def BL_KEY_RSHIFT_def
        BL_PS2_KEYBOARD_UNPRINTABLE_KEY_def)
  then show "i < 256 \<Longrightarrow> scan_code_set2 ! i AND BL_PS2_KEYBOARD_UNPRINTABLE_KEY = 0 \<Longrightarrow>
      scan_code_set2 ! i < 127 \<and> scan_code_set2_with_shift ! i < 127"
    by (simp add: list_all_length)
qed

lemma ps2_scan_code_type: "fst (ps2_scan_code code s) < 127"
proof -
  have "unat code < 256" using unat_lt2p [of code] by simp
  from scan_code_chars [OF this] show ?thesis
    by (auto simp: ps2_scan_code_def BL_PS2_KEYBOARD_NO_KEY_def Let_def word_less_def)
qed

lemma ps2_getchar_loop_type:
  assumes "ps2_getchar_loop io sd = Some r" shows "0 < fst r \<and> fst r < 127"
  using assms
proof (induction rule: ps2_getchar_loop.raw_induct [rotated, consumes 1])
  case (1 f io sd r)
  obtain c s1 d1 where g: "bl_ps2_keyboard_get_key io sd = (c, s1, d1)" by (cases "bl_ps2_keyboard_get_key io sd")
  have "c < 127"
    using g ps2_scan_code_type by (auto simp: bl_ps2_keyboard_get_key_def BL_PS2_KEYBOARD_NO_KEY_def split: prod.splits if_splits)
      (metis fst_conv)
  then show ?case using 1 by (auto simp: g split: if_splits)
qed

lemma usb_getchar_type:
  assumes "bl_usb_keyboard_getchar env kbd s = Some (c, s')" shows "c = -1 \<or> 0 \<le> c \<and> c < 127"
proof -
  have "0 \<le> bl_keyboard_layout_lookup k \<and> bl_keyboard_layout_lookup k < 127" 
    "0 \<le> bl_keyboard_layout_lookup_shift k \<and> bl_keyboard_layout_lookup_shift k < 127" for k
    using layout_chars [of "nat (k mod 256)"] by (auto simp: bl_keyboard_layout_lookup_def bl_keyboard_layout_lookup_shift_def word_less_def)
  then show ?thesis using assms
    by (auto simp: bl_usb_keyboard_getchar_def bl_usb_keyboard_make_char_def bind_eq_Some_conv)
qed
end
