(* ===== verification/Bl_Pci.thy ===== *)
theory Bl_Pci
  imports Bl_UsbDrivers
begin

text \<open>
  The PCI bus: src/boot-loader/core/bus/pci/pci.c and include/pci/pci.h, over the port
  instructions of include/io.h, which are a record of functions on the state.
\<close>

unbundle bit_operations_syntax

record 's ports =
  p_inb :: "u16 \<Rightarrow> 's \<Rightarrow> u8 \<times> 's"
  p_inw :: "u16 \<Rightarrow> 's \<Rightarrow> u16 \<times> 's"
  p_inl :: "u16 \<Rightarrow> 's \<Rightarrow> u32 \<times> 's"
  p_outb :: "u8 \<Rightarrow> u16 \<Rightarrow> 's \<Rightarrow> 's"
  p_outw :: "u16 \<Rightarrow> u16 \<Rightarrow> 's \<Rightarrow> 's"
  p_outl :: "u32 \<Rightarrow> u16 \<Rightarrow> 's \<Rightarrow> 's"

subsection \<open>Configuration space\<close>

definition BL_PCI_CONFIG_REG_VENDOR_ID :: u32 where "BL_PCI_CONFIG_REG_VENDOR_ID = 0x00"
definition BL_PCI_CONFIG_REG_DEVICE_ID :: u32 where "BL_PCI_CONFIG_REG_DEVICE_ID = 0x02"
definition BL_PCI_CONFIG_REG_PROG_IF :: u32 where "BL_PCI_CONFIG_REG_PROG_IF = 0x09"
definition BL_PCI_CONFIG_REG_SUBCLASS :: u32 where "BL_PCI_CONFIG_REG_SUBCLASS = 0x0a"
definition BL_PCI_CONFIG_REG_BASECLASS :: u32 where "BL_PCI_CONFIG_REG_BASECLASS = 0x0b"
definition BL_PCI_CONFIG_REG_HEADER_TYPE :: u32 where "BL_PCI_CONFIG_REG_HEADER_TYPE = 0x0e"
definition BL_PCI_NBUSES :: nat where "BL_PCI_NBUSES = 256"
definition BL_PCI_NDEVICES :: nat where "BL_PCI_NDEVICES = 32"
definition BL_PCI_NFUNCTIONS :: nat where "BL_PCI_NFUNCTIONS = 8"
definition BL_PCI_CONFIG_ADDRESS :: u16 where "BL_PCI_CONFIG_ADDRESS = 0xcf8"
definition BL_PCI_CONFIG_DATA :: u16 where "BL_PCI_CONFIG_DATA = 0xcfc"

record bl_pci_index =
  pci_bus :: u32
  pci_dev :: u32
  pci_func :: u32

definition BL_PCI_MAKE_CONFIG_ADDRESS :: "u8 \<Rightarrow> u8 \<Rightarrow> u8 \<Rightarrow> u8 \<Rightarrow> u32" where
  "BL_PCI_MAKE_CONFIG_ADDRESS bus dev func reg =
     push_bit 31 1 OR push_bit 16 (ucast bus) OR push_bit 11 (ucast dev) OR push_bit 8 (ucast func) OR ucast reg"

text \<open>The arguments are truncated to bytes, as the parameters of the reads are.\<close>

definition bl_pci_read_config_byte :: "'s ports \<Rightarrow> bl_pci_index \<Rightarrow> u32 \<Rightarrow> 's \<Rightarrow> u8 \<times> 's" where
  "bl_pci_read_config_byte io i reg s =
     p_inb io (BL_PCI_CONFIG_DATA + (ucast (ucast reg :: u8) AND 3))
       (p_outl io (BL_PCI_MAKE_CONFIG_ADDRESS (ucast (pci_bus i)) (ucast (pci_dev i)) (ucast (pci_func i)) (ucast reg)) BL_PCI_CONFIG_ADDRESS s)"

definition bl_pci_read_config_word :: "'s ports \<Rightarrow> bl_pci_index \<Rightarrow> u32 \<Rightarrow> 's \<Rightarrow> u16 \<times> 's" where
  "bl_pci_read_config_word io i reg s =
     p_inw io (BL_PCI_CONFIG_DATA + (ucast (ucast reg :: u8) AND 2))
       (p_outl io (BL_PCI_MAKE_CONFIG_ADDRESS (ucast (pci_bus i)) (ucast (pci_dev i)) (ucast (pci_func i)) (ucast reg)) BL_PCI_CONFIG_ADDRESS s)"

definition bl_pci_read_config_long :: "'s ports \<Rightarrow> bl_pci_index \<Rightarrow> u32 \<Rightarrow> 's \<Rightarrow> u32 \<times> 's" where
  "bl_pci_read_config_long io i reg s =
     p_inl io BL_PCI_CONFIG_DATA
       (p_outl io (BL_PCI_MAKE_CONFIG_ADDRESS (ucast (pci_bus i)) (ucast (pci_dev i)) (ucast (pci_func i)) (ucast reg)) BL_PCI_CONFIG_ADDRESS s)"

subsection \<open>Enumeration\<close>

definition bl_pci_dump_device :: "'s ports \<Rightarrow> 's callback \<Rightarrow> bl_pci_index \<Rightarrow> 's \<Rightarrow> 's" where
  "bl_pci_dump_device io cb i s0 =
     (let (vendor, s1) = bl_pci_read_config_word io i BL_PCI_CONFIG_REG_VENDOR_ID s0;
          (device_id, s2) = bl_pci_read_config_word io i BL_PCI_CONFIG_REG_DEVICE_ID s1;
          (cls, s3) = bl_pci_read_config_byte io i BL_PCI_CONFIG_REG_BASECLASS s2;
          (subclass, s4) = bl_pci_read_config_byte io i BL_PCI_CONFIG_REG_SUBCLASS s3;
          (prog_if, s5) = bl_pci_read_config_byte io i BL_PCI_CONFIG_REG_PROG_IF s4;
          s6 = bl_print_hex cb (ucast vendor) (bl_print_str cb (ascii ''Vendor: '') s5);
          s7 = bl_print_hex cb (ucast device_id) (bl_print_str cb (ascii ''  Device id: '') s6);
          s8 = bl_print_hex cb (ucast cls) (bl_print_str cb (ascii ''  Class: '') s7);
          s9 = bl_print_hex cb (ucast subclass) (bl_print_str cb (ascii ''  Subclass: '') s8);
          s10 = bl_print_hex cb (ucast prog_if) (bl_print_str cb (ascii ''  PROG-IF: '') s9)
      in bl_print_str cb [0xa] s10)"

type_synonym 's pci_hook = "bl_pci_index \<Rightarrow> 's \<Rightarrow> (bl_status \<times> 's) option"

text \<open>The last \<open>n\<close> functions of a device.\<close>

fun func_loop :: "'s ports \<Rightarrow> 's callback \<Rightarrow> 's pci_hook option \<Rightarrow> bool \<Rightarrow> u32 \<Rightarrow> u32 \<Rightarrow> nat \<Rightarrow> u32 \<Rightarrow> 's \<Rightarrow> 's option" where
  "func_loop io cb hook dump bus dev 0 func s = Some s"
| "func_loop io cb hook dump bus dev (Suc n) func s =
     (let i = \<lparr>pci_bus = bus, pci_dev = dev, pci_func = func\<rparr>;
          (vendor, s1) = bl_pci_read_config_word io i BL_PCI_CONFIG_REG_VENDOR_ID s
      in if vendor = 0xffff then func_loop io cb hook dump bus dev n (func + 1) s1
         else do {
           let s2 = (if dump then bl_pci_dump_device io cb i s1 else s1);
           s3 \<leftarrow> (case hook of None \<Rightarrow> Some s2 | Some h \<Rightarrow> map_option snd (h i s2));
           if func = 0 then
             (case bl_pci_read_config_byte io i BL_PCI_CONFIG_REG_HEADER_TYPE s3 of
                (header, s4) \<Rightarrow> if header AND 0x80 = 0 then Some s4 else func_loop io cb hook dump bus dev n (func + 1) s4)
           else func_loop io cb hook dump bus dev n (func + 1) s3 })"

fun dev_loop :: "'s ports \<Rightarrow> 's callback \<Rightarrow> 's pci_hook option \<Rightarrow> bool \<Rightarrow> u32 \<Rightarrow> nat \<Rightarrow> u32 \<Rightarrow> 's \<Rightarrow> 's option" where
  "dev_loop io cb hook dump bus 0 dev s = Some s"
| "dev_loop io cb hook dump bus (Suc n) dev s = do {
     s1 \<leftarrow> func_loop io cb hook dump bus dev BL_PCI_NFUNCTIONS 0 s;
     dev_loop io cb hook dump bus n (dev + 1) s1 }"

fun bus_loop :: "'s ports \<Rightarrow> 's callback \<Rightarrow> 's pci_hook option \<Rightarrow> bool \<Rightarrow> nat \<Rightarrow> u32 \<Rightarrow> 's \<Rightarrow> 's option" where
  "bus_loop io cb hook dump 0 bus s = Some s"
| "bus_loop io cb hook dump (Suc n) bus s = do {
     s1 \<leftarrow> dev_loop io cb hook dump bus BL_PCI_NDEVICES 0 s;
     bus_loop io cb hook dump n (bus + 1) s1 }"

definition bl_pci_discover_devices :: "'s ports \<Rightarrow> 's callback \<Rightarrow> 's pci_hook option \<Rightarrow> bool \<Rightarrow> 's \<Rightarrow> 's option" where
  "bl_pci_discover_devices io cb hook dump s = bus_loop io cb hook dump BL_PCI_NBUSES 0 s"

definition bl_pci_iterate_devices :: "'s ports \<Rightarrow> 's callback \<Rightarrow> 's pci_hook option \<Rightarrow> 's \<Rightarrow> 's option" where
  "bl_pci_iterate_devices io cb hook s = bl_pci_discover_devices io cb hook False s"

definition bl_pci_dump_devices :: "'s ports \<Rightarrow> 's callback \<Rightarrow> 's \<Rightarrow> 's option" where
  "bl_pci_dump_devices io cb s = bl_pci_discover_devices io cb None True s"

text \<open>-1 stands for any value; the others are compared with the byte read.\<close>

definition check_class_byte :: "'s ports \<Rightarrow> bl_pci_index \<Rightarrow> int \<Rightarrow> u32 \<Rightarrow> 's \<Rightarrow> bool \<times> 's" where
  "check_class_byte io i want reg s =
     (if want = -1 then (True, s)
      else case bl_pci_read_config_byte io i reg s of (v, s1) \<Rightarrow> (want = uint v, s1))"

definition bl_pci_check_device_class :: "'s ports \<Rightarrow> bl_pci_index \<Rightarrow> int \<Rightarrow> int \<Rightarrow> int \<Rightarrow> 's \<Rightarrow> bl_status \<times> 's" where
  "bl_pci_check_device_class io i cls subclass interface s =
     (case check_class_byte io i cls BL_PCI_CONFIG_REG_BASECLASS s of
        (False, s1) \<Rightarrow> (BL_STATUS_FAILURE, s1)
      | (True, s1) \<Rightarrow> (case check_class_byte io i subclass BL_PCI_CONFIG_REG_SUBCLASS s1 of
            (False, s2) \<Rightarrow> (BL_STATUS_FAILURE, s2)
          | (True, s2) \<Rightarrow> (case check_class_byte io i interface BL_PCI_CONFIG_REG_PROG_IF s2 of
                (False, s3) \<Rightarrow> (BL_STATUS_FAILURE, s3)
              | (True, s3) \<Rightarrow> (BL_STATUS_SUCCESS, s3))))"

subsection \<open>The functions found\<close>

text \<open>
  The configuration mechanism: a write of the address register selects the double word, whose
  bytes the data ports give; \<open>cfg\<close> is the configuration space. The ports leave \<open>obs\<close>, what an
  observer sees of the state, alone.
\<close>

type_synonym pci_space = "nat \<Rightarrow> nat \<Rightarrow> nat \<Rightarrow> nat \<Rightarrow> u8"

definition cfg_addr :: "nat \<Rightarrow> nat \<Rightarrow> nat \<Rightarrow> nat \<Rightarrow> u32" where
  "cfg_addr b d f r = BL_PCI_MAKE_CONFIG_ADDRESS (of_nat b) (of_nat d) (of_nat f) (of_nat r)"

definition pci_mechanism :: "'s ports \<Rightarrow> ('s \<Rightarrow> 'o) \<Rightarrow> pci_space \<Rightarrow> bool" where
  "pci_mechanism io obs cfg \<longleftrightarrow> (\<forall>s b d f r. b < 256 \<longrightarrow> d < 32 \<longrightarrow> f < 8 \<longrightarrow> r < 256 \<longrightarrow>
     (let s1 = p_outl io (cfg_addr b d f r) BL_PCI_CONFIG_ADDRESS s
      in fst (p_inb io (BL_PCI_CONFIG_DATA + of_nat (r mod 4)) s1) = cfg b d f r \<and>
         obs (snd (p_inb io (BL_PCI_CONFIG_DATA + of_nat (r mod 4)) s1)) = obs s \<and>
         (even r \<longrightarrow> fst (p_inw io (BL_PCI_CONFIG_DATA + of_nat (r mod 4)) s1) = ucast (cfg b d f r) OR push_bit 8 (ucast (cfg b d f (r + 1)))) \<and>
         (even r \<longrightarrow> obs (snd (p_inw io (BL_PCI_CONFIG_DATA + of_nat (r mod 4)) s1)) = obs s)))"

definition cfg_word :: "pci_space \<Rightarrow> nat \<Rightarrow> nat \<Rightarrow> nat \<Rightarrow> nat \<Rightarrow> u16" where
  "cfg_word cfg b d f r = ucast (cfg b d f r) OR push_bit 8 (ucast (cfg b d f (r + 1)))"

definition pci_present :: "pci_space \<Rightarrow> nat \<Rightarrow> nat \<Rightarrow> nat \<Rightarrow> bool" where
  "pci_present cfg b d f \<longleftrightarrow> cfg_word cfg b d f 0 \<noteq> 0xffff"

definition single_function :: "pci_space \<Rightarrow> nat \<Rightarrow> nat \<Rightarrow> bool" where
  "single_function cfg b d \<longleftrightarrow> pci_present cfg b d 0 \<and> cfg b d 0 0x0e AND 0x80 = 0"

definition dev_functions :: "pci_space \<Rightarrow> nat \<Rightarrow> nat \<Rightarrow> nat list" where
  "dev_functions cfg b d = filter (pci_present cfg b d) (if single_function cfg b d then [0] else [0..<8])"

definition pci_index :: "nat \<Rightarrow> nat \<Rightarrow> nat \<Rightarrow> bl_pci_index" where
  "pci_index b d f = \<lparr>pci_bus = of_nat b, pci_dev = of_nat d, pci_func = of_nat f\<rparr>"

definition dev_indices :: "pci_space \<Rightarrow> nat \<Rightarrow> nat \<Rightarrow> bl_pci_index list" where
  "dev_indices cfg b d = map (pci_index b d) (dev_functions cfg b d)"

definition pci_devices :: "pci_space \<Rightarrow> bl_pci_index list" where
  "pci_devices cfg = concat (map (\<lambda>b. concat (map (dev_indices cfg b) [0..<32])) [0..<256])"

text \<open>A hook whose effect on the observed part is \<open>h\<close>.\<close>

definition hook_does :: "'s pci_hook \<Rightarrow> ('s \<Rightarrow> 'o) \<Rightarrow> (bl_pci_index \<Rightarrow> 'o \<Rightarrow> 'o) \<Rightarrow> bool" where
  "hook_does hook obs h \<longleftrightarrow> (\<forall>i s. \<exists>status s'. hook i s = Some (status, s') \<and> obs s' = h i (obs s))"

lemma byte_of_nat: "ucast (of_nat n :: u32) = (of_nat n :: u8)"
  by (simp add: word_unat_eq_iff unsigned_ucast_eq unsigned_of_nat)

lemma reg_port: "ucast (of_nat r :: u8) AND 3 = (of_nat (r mod 4) :: u16)"
  "even r \<Longrightarrow> ucast (of_nat r :: u8) AND 2 = (of_nat (r mod 4) :: u16)"
proof -
  have m: "(3 :: u16) = mask 2" by (simp add: mask_eq_exp_minus_1)
  have "unat (ucast (of_nat r :: u8) AND 3 :: u16) = r mod 4"
    unfolding m by (simp only: and_mask_unat) (simp add: unsigned_ucast_eq unsigned_of_nat take_bit_eq_mod mod_mod_cancel)
  then show 1: "ucast (of_nat r :: u8) AND 3 = (of_nat (r mod 4) :: u16)"
    by (simp add: word_unat_eq_iff unsigned_of_nat take_bit_eq_mod)
  assume "even r"
  have "ucast (of_nat r :: u8) AND 2 = (ucast (of_nat r :: u8) AND 3 :: u16)"
  proof (rule bit_eqI)
    fix n
    have "\<not> bit (of_nat r :: u8) 0" using \<open>even r\<close> by (simp add: bit_0)
    then have "\<not> bit (ucast (of_nat r :: u8) :: u16) 0" by (simp only: bit_ucast_iff) simp
    then show "bit (ucast (of_nat r :: u8) AND 2 :: u16) n = bit (ucast (of_nat r :: u8) AND 3 :: u16) n"
      unfolding m by (cases n) (auto simp: bit_and_iff bit_mask_iff bit_2_iff bit_1_iff)
  qed
  then show "ucast (of_nat r :: u8) AND 2 = (of_nat (r mod 4) :: u16)" using 1 by simp
qed

lemma read_word_ok:
  assumes "pci_mechanism io obs cfg" "b < 256" "d < 32" "f < 8" "r < 256" "even r"
  obtains s' where "bl_pci_read_config_word io (pci_index b d f) (of_nat r) s = (cfg_word cfg b d f r, s')" "obs s' = obs s"
proof -
  have "bl_pci_read_config_word io (pci_index b d f) (of_nat r) s =
      p_inw io (BL_PCI_CONFIG_DATA + of_nat (r mod 4)) (p_outl io (cfg_addr b d f r) BL_PCI_CONFIG_ADDRESS s)"
    unfolding bl_pci_read_config_word_def pci_index_def bl_pci_index.simps byte_of_nat reg_port(2) [OF assms(6)] cfg_addr_def ..
  then show ?thesis
    using assms by (intro that [of "snd (bl_pci_read_config_word io (pci_index b d f) (of_nat r) s)"])
      (simp_all add: prod_eq_iff pci_mechanism_def Let_def cfg_word_def)
qed

lemma read_byte_ok:
  assumes "pci_mechanism io obs cfg" "b < 256" "d < 32" "f < 8" "r < 256"
  obtains s' where "bl_pci_read_config_byte io (pci_index b d f) (of_nat r) s = (cfg b d f r, s')" "obs s' = obs s"
proof -
  have "bl_pci_read_config_byte io (pci_index b d f) (of_nat r) s =
      p_inb io (BL_PCI_CONFIG_DATA + of_nat (r mod 4)) (p_outl io (cfg_addr b d f r) BL_PCI_CONFIG_ADDRESS s)"
    unfolding bl_pci_read_config_byte_def pci_index_def bl_pci_index.simps byte_of_nat reg_port(1) cfg_addr_def ..
  then show ?thesis
    using assms by (intro that [of "snd (bl_pci_read_config_byte io (pci_index b d f) (of_nat r) s)"])
      (simp_all add: prod_eq_iff pci_mechanism_def Let_def)
qed

text \<open>The functions from \<open>f\<close> on, for a device that is not known to have a single one.\<close>

lemma func_loop_rest:
  assumes m: "pci_mechanism io obs cfg" "b < 256" "d < 32" and h: "hook_does hook obs h" and "0 < f" "f + n = 8"
  shows "\<exists>s'. func_loop io cb (Some hook) False (of_nat b) (of_nat d) n (of_nat f) s = Some s' \<and>
    obs s' = fold h (map (pci_index b d) (filter (pci_present cfg b d) [f..<8])) (obs s)"
  using assms(5,6)
proof (induction n arbitrary: f s)
  case (Suc n)
  then have f: "f < 8" "of_nat f \<noteq> (0 :: u32)" by (auto simp: word_unat_eq_iff unsigned_of_nat take_bit_eq_mod)
  obtain s1 where 1: "bl_pci_read_config_word io (pci_index b d f) 0 s = (cfg_word cfg b d f 0, s1)" "obs s1 = obs s"
    using read_word_ok [OF m f(1), of 0 s] by auto
  obtain st s2 where 2: "hook (pci_index b d f) s1 = Some (st, s2)" "obs s2 = h (pci_index b d f) (obs s1)"
    using h unfolding hook_does_def by blast
  have absent: "cfg_word cfg b d f 0 = 0xffff \<longleftrightarrow> \<not> pci_present cfg b d f" by (simp add: pci_present_def)
  have r: "[f..<8] = f # [Suc f..<8]" using f(1) by (simp add: upt_conv_Cons)
  obtain s3 where 3: "func_loop io cb (Some hook) False (of_nat b) (of_nat d) n (of_nat (Suc f)) s1 = Some s3"
      "obs s3 = fold h (map (pci_index b d) (filter (pci_present cfg b d) [Suc f..<8])) (obs s1)"
    using Suc.IH [of "Suc f" s1] Suc.prems by auto
  obtain s4 where 4: "func_loop io cb (Some hook) False (of_nat b) (of_nat d) n (of_nat (Suc f)) s2 = Some s4"
      "obs s4 = fold h (map (pci_index b d) (filter (pci_present cfg b d) [Suc f..<8])) (obs s2)"
    using Suc.IH [of "Suc f" s2] Suc.prems by auto
  show ?case
    using 1 2 3 4 f(2) absent unfolding r
    by (simp add: Let_def pci_index_def [symmetric] BL_PCI_CONFIG_REG_VENDOR_ID_def add.commute)
qed (simp add: add.commute)

lemma func_loop_ok:
  assumes m: "pci_mechanism io obs cfg" "b < 256" "d < 32" and h: "hook_does hook obs h"
  shows "\<exists>s'. func_loop io cb (Some hook) False (of_nat b) (of_nat d) BL_PCI_NFUNCTIONS 0 s = Some s' \<and>
    obs s' = fold h (dev_indices cfg b d) (obs s)"
proof -
  obtain s1 where 1: "bl_pci_read_config_word io (pci_index b d 0) 0 s = (cfg_word cfg b d 0 0, s1)" "obs s1 = obs s"
    using read_word_ok [OF m, of 0 0 s] by auto
  obtain st s2 where 2: "hook (pci_index b d 0) s1 = Some (st, s2)" "obs s2 = h (pci_index b d 0) (obs s1)"
    using h unfolding hook_does_def by blast
  obtain s3 where 3: "bl_pci_read_config_byte io (pci_index b d 0) 0x0e s2 = (cfg b d 0 0x0e, s3)" "obs s3 = obs s2"
    using read_byte_ok [OF m, of 0 "0x0e" s2] by auto
  have r: "[0..<8] = 0 # [Suc 0..<8]" by (simp add: upt_conv_Cons)
  have n: "BL_PCI_NFUNCTIONS = Suc 7" by (simp add: BL_PCI_NFUNCTIONS_def)
  obtain s4 where 4: "func_loop io cb (Some hook) False (of_nat b) (of_nat d) 7 1 s1 = Some s4"
      "obs s4 = fold h (map (pci_index b d) (filter (pci_present cfg b d) [Suc 0..<8])) (obs s1)"
    using func_loop_rest [OF m h, of 1 7 cb s1] by auto
  obtain s5 where 5: "func_loop io cb (Some hook) False (of_nat b) (of_nat d) 7 1 s3 = Some s5"
      "obs s5 = fold h (map (pci_index b d) (filter (pci_present cfg b d) [Suc 0..<8])) (obs s3)"
    using func_loop_rest [OF m h, of 1 7 cb s3] by auto
  have i: "\<lparr>pci_bus = of_nat b, pci_dev = of_nat d, pci_func = 0\<rparr> = pci_index b d 0" by (simp add: pci_index_def)
  show ?thesis
    using 1 2 3 4 5 unfolding n func_loop.simps i dev_indices_def dev_functions_def r
    by (simp add: Let_def BL_PCI_CONFIG_REG_VENDOR_ID_def BL_PCI_CONFIG_REG_HEADER_TYPE_def pci_present_def single_function_def)
qed

lemma dev_loop_ok:
  assumes m: "pci_mechanism io obs cfg" "b < 256" and h: "hook_does hook obs h" and "d + n = 32"
  shows "\<exists>s'. dev_loop io cb (Some hook) False (of_nat b) n (of_nat d) s = Some s' \<and>
    obs s' = fold h (concat (map (dev_indices cfg b) [d..<32])) (obs s)"
  using assms(4)
proof (induction n arbitrary: d s)
  case (Suc n)
  then have d: "d < 32" "[d..<32] = d # [Suc d..<32]" by (auto simp: upt_conv_Cons)
  obtain s1 where 1: "func_loop io cb (Some hook) False (of_nat b) (of_nat d) BL_PCI_NFUNCTIONS 0 s = Some s1"
      "obs s1 = fold h (dev_indices cfg b d) (obs s)"
    using func_loop_ok [OF m d(1) h] by blast
  obtain s2 where "dev_loop io cb (Some hook) False (of_nat b) n (of_nat (Suc d)) s1 = Some s2"
      "obs s2 = fold h (concat (map (dev_indices cfg b) [Suc d..<32])) (obs s1)"
    using Suc.IH [of "Suc d" s1] Suc.prems by auto
  then show ?case using 1 by (simp add: d(2) add.commute)
qed (simp add: add.commute)

lemma bus_loop_ok:
  assumes m: "pci_mechanism io obs cfg" and h: "hook_does hook obs h" and "b + n = 256"
  shows "\<exists>s'. bus_loop io cb (Some hook) False n (of_nat b) s = Some s' \<and>
    obs s' = fold h (concat (map (\<lambda>b. concat (map (dev_indices cfg b) [0..<32])) [b..<256])) (obs s)"
  using assms(3)
proof (induction n arbitrary: b s)
  case (Suc n)
  then have b: "b < 256" "[b..<256] = b # [Suc b..<256]" by (auto simp: upt_conv_Cons)
  obtain s1 where 1: "dev_loop io cb (Some hook) False (of_nat b) BL_PCI_NDEVICES 0 s = Some s1"
      "obs s1 = fold h (concat (map (dev_indices cfg b) [0..<32])) (obs s)"
    using dev_loop_ok [OF m b(1) h, of 0 BL_PCI_NDEVICES] by (auto simp: BL_PCI_NDEVICES_def)
  obtain s2 where "bus_loop io cb (Some hook) False n (of_nat (Suc b)) s1 = Some s2"
      "obs s2 = fold h (concat (map (\<lambda>b. concat (map (dev_indices cfg b) [0..<32])) [Suc b..<256])) (obs s1)"
    using Suc.IH [of "Suc b" s1] Suc.prems by auto
  then show ?case using 1 by (simp add: b(2) add.commute)
qed (simp add: add.commute)

lemma iterate_devices_ok:
  assumes "pci_mechanism io obs cfg" "hook_does hook obs h"
  shows "\<exists>s'. bl_pci_iterate_devices io cb (Some hook) s = Some s' \<and> obs s' = fold h (pci_devices cfg) (obs s)"
  using bus_loop_ok [OF assms, of 0 BL_PCI_NBUSES cb s]
  by (auto simp: bl_pci_iterate_devices_def bl_pci_discover_devices_def pci_devices_def BL_PCI_NBUSES_def)

lemma or_shift_add: "(2 ^ k * x) OR y = 2 ^ k * x + y" if "y < 2 ^ k" for k x y :: nat
proof (rule disjunctive_add_eq_or [symmetric], rule bit_eqI)
  fix n
  have "\<not> bit y n" if "k \<le> n" using \<open>y < 2 ^ k\<close> that
    by (simp add: bit_iff_odd_drop_bit drop_bit_eq_div) (metis div_less even_zero less_le_trans one_less_numeral_iff power_increasing_iff semiring_norm(76))
  then show "bit ((2 ^ k * x) AND y) n = bit 0 n"
    by (auto simp: bit_and_iff bit_iff_odd_drop_bit [of "2 ^ k * x"] push_bit_eq_mult [symmetric] mult.commute [of _ x] bit_push_bit_iff)
qed

text \<open>The address register tells the double words of all functions apart.\<close>

lemma cfg_addr_sum:
  assumes "b < 256" "d < 32" "f < 8" "r < 256"
  shows "unat (cfg_addr b d f r) = 2 ^ 31 + 2 ^ 16 * b + 2 ^ 11 * d + 2 ^ 8 * f + r"
proof -
  have u: "(ucast (of_nat n :: u8) :: u32) = of_nat n" if "n < 256" for n
    using that by (simp add: word_unat_eq_iff unsigned_ucast_eq unsigned_of_nat take_bit_eq_mod)
  have p: "(push_bit k (of_nat n) :: u32) = of_nat (2 ^ k * n)" for k n by (simp add: push_bit_of_nat push_bit_eq_mult mult.commute)
  have "cfg_addr b d f r = of_nat (2 ^ 31 + 2 ^ 16 * b + 2 ^ 11 * d + 2 ^ 8 * f + r)"
  proof -
    have "2 ^ 8 * f OR r = 2 ^ 8 * f + r" "2 ^ 11 * d OR (2 ^ 8 * f + r) = 2 ^ 11 * d + (2 ^ 8 * f + r)"
      "2 ^ 16 * b OR (2 ^ 11 * d + (2 ^ 8 * f + r)) = 2 ^ 16 * b + (2 ^ 11 * d + (2 ^ 8 * f + r))"
      "2 ^ 31 * 1 OR (2 ^ 16 * b + (2 ^ 11 * d + (2 ^ 8 * f + r))) = 2 ^ 31 * 1 + (2 ^ 16 * b + (2 ^ 11 * d + (2 ^ 8 * f + r)))"
      using assms by (intro or_shift_add; simp)+
    moreover have "cfg_addr b d f r = of_nat (2 ^ 31 * 1 OR (2 ^ 16 * b OR (2 ^ 11 * d OR (2 ^ 8 * f OR r))))"
      using assms unfolding cfg_addr_def BL_PCI_MAKE_CONFIG_ADDRESS_def of_nat_or_eq p [symmetric]
      by (simp add: u or.assoc)
    ultimately show ?thesis by (simp only: mult_1_right add.assoc)
  qed
  moreover have "2 ^ 31 + 2 ^ 16 * b + 2 ^ 11 * d + 2 ^ 8 * f + r < 2 ^ 32" using assms by simp
  ultimately show ?thesis by (simp only: unsigned_of_nat take_bit_eq_mod) simp
qed

text \<open>Which functions are found.\<close>

lemma dev_functions_bound: "f \<in> set (dev_functions cfg b d) \<Longrightarrow> f < 8"
  by (auto simp: dev_functions_def split: if_splits)

lemma pci_devices_mem:
  assumes "b < 256" "d < 32" "f < 8"
  shows "pci_index b d f \<in> set (pci_devices cfg) \<longleftrightarrow> pci_present cfg b d f \<and> (f = 0 \<or> \<not> single_function cfg b d)"
proof -
  have inj: "of_nat x = (of_nat y :: u32) \<longleftrightarrow> x = y" if "x < 256" "y < 256" for x y
    using that by (simp add: word_unat_eq_iff unsigned_of_nat take_bit_eq_mod)
  have "pci_index b d f = pci_index b' d' f' \<longleftrightarrow> b = b' \<and> d = d' \<and> f = f'" if "b' < 256" "d' < 32" "f' < 8" for b' d' f'
    using that assms by (simp add: pci_index_def inj)
  note eq = this
  have mem: "x \<in> set (pci_devices cfg) \<longleftrightarrow> (\<exists>b'<256. \<exists>d'<32. x \<in> set (dev_indices cfg b' d'))" for x
    unfolding pci_devices_def by (auto simp: Bex_def)
  have idx: "x \<in> set (dev_indices cfg b' d') \<longleftrightarrow> (\<exists>f'. f' \<in> set (dev_functions cfg b' d') \<and> x = pci_index b' d' f')" for x b' d'
    unfolding dev_indices_def by auto
  have "pci_index b d f \<in> set (pci_devices cfg) \<longleftrightarrow>
      (\<exists>b' d' f'. b' < 256 \<and> d' < 32 \<and> f' \<in> set (dev_functions cfg b' d') \<and> pci_index b d f = pci_index b' d' f')"
    unfolding mem idx by blast
  also have "\<dots> \<longleftrightarrow> (\<exists>b' d' f'. b' < 256 \<and> d' < 32 \<and> f' < 8 \<and> f' \<in> set (dev_functions cfg b' d') \<and> b = b' \<and> d = d' \<and> f = f')"
    using eq dev_functions_bound by blast
  also have "\<dots> \<longleftrightarrow> f \<in> set (dev_functions cfg b d)" using assms by blast
  also have "\<dots> \<longleftrightarrow> pci_present cfg b d f \<and> (f = 0 \<or> \<not> single_function cfg b d)"
    using assms by (auto simp: dev_functions_def)
  finally show ?thesis .
qed

end
