(* ===== verification/Bl_Pata.thy ===== *)
theory Bl_Pata
  imports Bl_Pci
begin

text \<open>
  The parallel ATA driver: src/boot-loader/modules/storage/pata/pata.c, over the port
  instructions. Devices are blocks of memory; a buffer is given as the bytes it holds and returned as the bytes
  it holds afterwards. \<open>pe_stack\<close> gives the bytes of a fresh buffer, \<open>pe_sleep\<close> is \<open>bl_time_sleep\<close>.
\<close>

unbundle bit_operations_syntax

record 'd pata_st = heap_st +
  pata_hw :: 'd
  bl_pata_device_list :: addr

record 's pata_env =
  pe_io :: "'s ports"
  pe_sleep :: "u64 \<Rightarrow> 's \<Rightarrow> 's"
  pe_stack :: "nat \<Rightarrow> u8 list"
  pe_print :: "'s callback"

definition BL_PATA_PRIMARY_PORT :: u16 where "BL_PATA_PRIMARY_PORT = 0x1f0"
definition BL_PATA_SECONDARY_PORT :: u16 where "BL_PATA_SECONDARY_PORT = 0x170"
definition BL_PATA_REG_STATUS_ERR :: u8 where "BL_PATA_REG_STATUS_ERR = push_bit 0 1"
definition BL_PATA_REG_STATUS_DRQ :: u8 where "BL_PATA_REG_STATUS_DRQ = push_bit 3 1"
definition BL_PATA_REG_STATUS_BSY :: u8 where "BL_PATA_REG_STATUS_BSY = push_bit 7 1"
definition BL_PATA_REG__READ__DPATA :: u16 where "BL_PATA_REG__READ__DPATA = 0x0"
definition BL_PATA_REG__READ__STATUS :: u16 where "BL_PATA_REG__READ__STATUS = 0x7"
definition BL_PATA_REG__WRITE__FEATURES :: u16 where "BL_PATA_REG__WRITE__FEATURES = 0x1"
definition BL_PATA_REG__WRITE__SECTOR_COUNT :: u16 where "BL_PATA_REG__WRITE__SECTOR_COUNT = 0x2"
definition BL_PATA_REG__WRITE__LBA_LOW :: u16 where "BL_PATA_REG__WRITE__LBA_LOW = 0x3"
definition BL_PATA_REG__WRITE__LBA_MID :: u16 where "BL_PATA_REG__WRITE__LBA_MID = 0x4"
definition BL_PATA_REG__WRITE__LBA_HIGH :: u16 where "BL_PATA_REG__WRITE__LBA_HIGH = 0x5"
definition BL_PATA_REG__WRITE__LBA48_LOW :: u16 where "BL_PATA_REG__WRITE__LBA48_LOW = 0x3"
definition BL_PATA_REG__WRITE__LBA48_MID :: u16 where "BL_PATA_REG__WRITE__LBA48_MID = 0x4"
definition BL_PATA_REG__WRITE__LBA48_HIGH :: u16 where "BL_PATA_REG__WRITE__LBA48_HIGH = 0x5"
definition BL_PATA_REG__WRITE__DEVICE :: u16 where "BL_PATA_REG__WRITE__DEVICE = 0x6"
definition BL_PATA_REG__WRITE__COMMAND :: u16 where "BL_PATA_REG__WRITE__COMMAND = 0x7"
definition BL_PATA_CMD_IDENTIFY_DEVICE :: u8 where "BL_PATA_CMD_IDENTIFY_DEVICE = 0xec"
definition BL_PATA_CMD_READ_SECTORS :: u8 where "BL_PATA_CMD_READ_SECTORS = 0x20"

definition BL_PATA_REG_DEVICE_SET :: "u32 \<Rightarrow> u32 \<Rightarrow> u32" where
  "BL_PATA_REG_DEVICE_SET lba' type = push_bit 7 1 OR push_bit 6 (lba' AND 1) OR push_bit 5 1 OR push_bit 4 (type AND 1) OR 0"

definition BL_PCI_CONFIG_REG_BAR0 :: u32 where "BL_PCI_CONFIG_REG_BAR0 = 0x10"
definition BL_PCI_CONFIG_REG_BAR1 :: u32 where "BL_PCI_CONFIG_REG_BAR1 = 0x14"
definition BL_PCI_BASE_CLASS_STORAGE :: int where "BL_PCI_BASE_CLASS_STORAGE = 0x01"
definition BL_PCI_SUBCLASS_STORAGE_IDE :: int where "BL_PCI_SUBCLASS_STORAGE_IDE = 0x01"

text \<open>struct bl_pata_device: the port, the type, presence, the identification and the link.\<close>

definition pd_io :: "mem \<Rightarrow> addr \<Rightarrow> u16" where "pd_io m d = ld16 m d"
definition pd_type :: "mem \<Rightarrow> addr \<Rightarrow> u32" where "pd_type m d = ld32 m (d + 4)"
definition pd_id :: "addr \<Rightarrow> addr" where "pd_id d = d + 12"
definition pd_sectors_lba48 :: "mem \<Rightarrow> addr \<Rightarrow> u64" where "pd_sectors_lba48 m d = ld64 m (pd_id d + 200)"
definition pd_next :: "mem \<Rightarrow> addr \<Rightarrow> addr" where "pd_next m d = ld32 m (d + 524)"
definition sizeof_pata_device :: u32 where "sizeof_pata_device = 528"
definition sizeof_pata_identification :: nat where "sizeof_pata_identification = 512"

definition bl_pata_device_add :: "addr \<Rightarrow> 'd pata_st \<Rightarrow> 'd pata_st" where
  "bl_pata_device_add device s = s\<lparr>mem := st32 (mem s) (device + 524) (bl_pata_device_list s), bl_pata_device_list := device\<rparr>"

subsection \<open>Commands\<close>

definition bl_pata_write_reg :: "'d pata_st pata_env \<Rightarrow> addr \<Rightarrow> u16 \<Rightarrow> u8 \<Rightarrow> 'd pata_st \<Rightarrow> 'd pata_st" where
  "bl_pata_write_reg env device reg val s = p_outb (pe_io env) val (pd_io (mem s) device + reg) s"

definition bl_pata_read_reg :: "'d pata_st pata_env \<Rightarrow> addr \<Rightarrow> u16 \<Rightarrow> 'd pata_st \<Rightarrow> u8 \<times> 'd pata_st" where
  "bl_pata_read_reg env device reg s = p_inb (pe_io env) (pd_io (mem s) device + reg) s"

definition bl_pata_read_data :: "'d pata_st pata_env \<Rightarrow> addr \<Rightarrow> 'd pata_st \<Rightarrow> u16 \<times> 'd pata_st" where
  "bl_pata_read_data env device s = p_inw (pe_io env) (pd_io (mem s) device + BL_PATA_REG__READ__DPATA) s"

text \<open>The timeout of 100 counts down before the first test: 99 polls.\<close>

fun pata_wait_loop :: "'d pata_st pata_env \<Rightarrow> addr \<Rightarrow> nat \<Rightarrow> 'd pata_st \<Rightarrow> bl_status \<times> 'd pata_st" where
  "pata_wait_loop env device 0 s = (BL_STATUS_DISK_OPERATION_TIMEOUT, s)"
| "pata_wait_loop env device (Suc n) s =
     (case bl_pata_read_reg env device BL_PATA_REG__READ__STATUS s of
        (v, s1) \<Rightarrow> if v AND BL_PATA_REG_STATUS_BSY = 0 then (BL_STATUS_SUCCESS, s1)
          else pata_wait_loop env device n (pe_sleep env 1 s1))"

definition bl_pata_wait_ready :: "'d pata_st pata_env \<Rightarrow> addr \<Rightarrow> 'd pata_st \<Rightarrow> bl_status \<times> 'd pata_st" where
  "bl_pata_wait_ready env device s = pata_wait_loop env device 99 s"

fun read_words :: "'d pata_st pata_env \<Rightarrow> addr \<Rightarrow> nat \<Rightarrow> 'd pata_st \<Rightarrow> u8 list \<times> 'd pata_st" where
  "read_words env device 0 s = ([], s)"
| "read_words env device (Suc n) s =
     (case bl_pata_read_data env device s of
        (w, s1) \<Rightarrow> (case read_words env device n s1 of (bs, s2) \<Rightarrow> (to_le 2 (unat w) @ bs, s2)))"

definition bl_pata_buffer_read_sector :: "'d pata_st pata_env \<Rightarrow> addr \<Rightarrow> 'd pata_st \<Rightarrow> u8 list \<times> 'd pata_st" where
  "bl_pata_buffer_read_sector env device s = read_words env device (unat BL_STORAGE_SECTOR_SIZE div 2) s"

text \<open>The sectors from the \<open>i\<close>th on; an error bit without a data request ends the loop.\<close>

fun pata_sectors_loop :: "'d pata_st pata_env \<Rightarrow> addr \<Rightarrow> nat \<Rightarrow> nat \<Rightarrow> u8 \<Rightarrow> u8 list \<Rightarrow> 'd pata_st \<Rightarrow> bl_status \<times> u8 list \<times> 'd pata_st" where
  "pata_sectors_loop env device 0 i read_status buf s = (BL_STATUS_SUCCESS, buf, s)"
| "pata_sectors_loop env device (Suc n) i read_status buf s =
     (if read_status AND (BL_PATA_REG_STATUS_DRQ OR BL_PATA_REG_STATUS_ERR) = BL_PATA_REG_STATUS_ERR
      then (BL_STATUS_SUCCESS, buf, s)
      else (case bl_pata_buffer_read_sector env device s of
        (bs, s1) \<Rightarrow>
          let buf1 = put_field (i * unat BL_STORAGE_SECTOR_SIZE) bs buf
          in (case bl_pata_wait_ready env device s1 of
            (status, s2) \<Rightarrow> if failed status then (status, buf1, s2)
              else (case bl_pata_read_reg env device BL_PATA_REG__READ__STATUS s2 of
                (v, s3) \<Rightarrow> pata_sectors_loop env device n (i + 1) v buf1 s3))))"

definition pata_set_registers :: "'d pata_st pata_env \<Rightarrow> addr \<Rightarrow> u64 \<Rightarrow> u64 \<Rightarrow> 'd pata_st \<Rightarrow> 'd pata_st" where
  "pata_set_registers env device lba' sectors s =
     (let w = bl_pata_write_reg env device;
          s1 = w BL_PATA_REG__WRITE__FEATURES 0 s;
          s2 = w BL_PATA_REG__WRITE__SECTOR_COUNT (ucast (drop_bit 8 sectors AND 0xff)) s1;
          s3 = w BL_PATA_REG__WRITE__LBA48_LOW (ucast (drop_bit 24 lba' AND 0xff)) s2;
          s4 = w BL_PATA_REG__WRITE__LBA48_MID (ucast (drop_bit 32 lba' AND 0xff)) s3;
          s5 = w BL_PATA_REG__WRITE__LBA48_HIGH (ucast (drop_bit 40 lba' AND 0xff)) s4;
          s6 = w BL_PATA_REG__WRITE__SECTOR_COUNT (ucast (sectors AND 0xff)) s5;
          s7 = w BL_PATA_REG__WRITE__LBA_LOW (ucast (lba' AND 0xff)) s6;
          s8 = w BL_PATA_REG__WRITE__LBA_MID (ucast (drop_bit 8 lba' AND 0xff)) s7;
          s9 = w BL_PATA_REG__WRITE__LBA_HIGH (ucast (drop_bit 16 lba' AND 0xff)) s8
      in w BL_PATA_REG__WRITE__DEVICE (ucast (BL_PATA_REG_DEVICE_SET 1 (pd_type (mem s9) device))) s9)"

definition bl_pata_device_command :: "'d pata_st pata_env \<Rightarrow> addr \<Rightarrow> u8 \<Rightarrow> u8 list \<Rightarrow> u64 \<Rightarrow> u64 \<Rightarrow> u64 \<Rightarrow> 'd pata_st \<Rightarrow>
    bl_status \<times> u8 list \<times> 'd pata_st" where
  "bl_pata_device_command env device command buf buf_sectors lba' sectors s =
     (let s1 = bl_pata_write_reg env device BL_PATA_REG__WRITE__COMMAND command (pata_set_registers env device lba' sectors s)
      in (case bl_pata_wait_ready env device s1 of
        (status, s2) \<Rightarrow> if failed status then (status, buf, s2)
          else (case bl_pata_read_reg env device BL_PATA_REG__READ__STATUS s2 of
            (v, s3) \<Rightarrow> pata_sectors_loop env device (unat buf_sectors) 0 v buf s3)))"

definition bl_pata_read :: "'d pata_st pata_env \<Rightarrow> device_info \<Rightarrow> u8 list \<Rightarrow> u64 \<Rightarrow> u64 \<Rightarrow> 'd pata_st \<Rightarrow> bl_status \<times> u8 list \<times> 'd pata_st" where
  "bl_pata_read env disk buf lba' sectors s =
     (case bl_pata_device_command env (dev_data disk) BL_PATA_CMD_READ_SECTORS buf sectors lba' sectors s of
        (status, buf1, s1) \<Rightarrow> if failed status then (status, buf1, s1) else (BL_STATUS_SUCCESS, buf1, s1))"

subsection \<open>Detection\<close>

fun pata_connected_loop :: "'d pata_st pata_env \<Rightarrow> addr \<Rightarrow> nat \<Rightarrow> 'd pata_st \<Rightarrow> bl_status \<times> 'd pata_st" where
  "pata_connected_loop env device 0 s = (BL_STATUS_FAILURE, s)"
| "pata_connected_loop env device (Suc n) s =
     (case bl_pata_read_reg env device BL_PATA_REG__READ__STATUS s of
        (v, s1) \<Rightarrow> if v AND BL_PATA_REG_STATUS_BSY = 0 \<and> v AND BL_PATA_REG_STATUS_DRQ \<noteq> 0 then (BL_STATUS_SUCCESS, s1)
          else pata_connected_loop env device n (pe_sleep env 1 s1))"

definition bl_pata_device_connected :: "'d pata_st pata_env \<Rightarrow> addr \<Rightarrow> 'd pata_st \<Rightarrow> bl_status \<times> 'd pata_st" where
  "bl_pata_device_connected env device s =
     (let s1 = bl_pata_write_reg env device BL_PATA_REG__WRITE__DEVICE (ucast (BL_PATA_REG_DEVICE_SET 1 (pd_type (mem s) device))) s;
          s2 = pe_sleep env 1 s1;
          s3 = bl_pata_write_reg env device BL_PATA_REG__WRITE__COMMAND BL_PATA_CMD_IDENTIFY_DEVICE s2;
          s4 = pe_sleep env 1 s3
      in (case bl_pata_read_reg env device BL_PATA_REG__READ__STATUS s4 of
        (v, s5) \<Rightarrow> if v = 0 then (BL_STATUS_FAILURE, s5) else pata_connected_loop env device 49 s5))"

text \<open>The identification goes to the device's own structure.\<close>

definition bl_pata_identify_device :: "'d pata_st pata_env \<Rightarrow> addr \<Rightarrow> 'd pata_st \<Rightarrow> bl_status \<times> 'd pata_st" where
  "bl_pata_identify_device env device s =
     (case bl_pata_device_command env device BL_PATA_CMD_IDENTIFY_DEVICE
         (mem_get (mem s) (pd_id device) sizeof_pata_identification) 1 0 0 s of
        (status, buf, s1) \<Rightarrow> (status, s1\<lparr>mem := mem_put (mem s1) (pd_id device) buf\<rparr>))"

definition bl_pata_check_channel_device :: "'d pata_st pata_env \<Rightarrow> u32 \<Rightarrow> u16 \<Rightarrow> 'd pata_st \<Rightarrow> (bl_status \<times> 'd pata_st) option" where
  "bl_pata_check_channel_device env type io s = do {
     (device, s1) \<leftarrow> bl_heap_alloc s sizeof_pata_device;
     if device = 0 then Some (BL_STATUS_MEMORY_ALLOCATION_FAILED, s1)
     else Some (
       let s2 = s1\<lparr>mem := st16 (st32 (mem s1) (device + 4) type) device io\<rparr>
       in case bl_pata_device_connected env device s2 of
         (status, s3) \<Rightarrow> if failed status then (status, bl_heap_free s3 device sizeof_pata_device)
           else case bl_pata_identify_device env device (s3\<lparr>mem := st32 (mem s3) (device + 8) 1\<rparr>) of
             (status1, s4) \<Rightarrow> if failed status1 then (status1, bl_heap_free s4 device sizeof_pata_device)
               else (BL_STATUS_SUCCESS, bl_pata_device_add device s4)) }"

definition bl_pata_get_port :: "nat \<Rightarrow> u16" where
  "bl_pata_get_port channel = (if channel = 0 then BL_PATA_PRIMARY_PORT else if channel = 1 then BL_PATA_SECONDARY_PORT else -1)"

fun pata_channel_loop :: "'d pata_st pata_env \<Rightarrow> bl_pci_index \<Rightarrow> nat \<Rightarrow> nat \<Rightarrow> 'd pata_st \<Rightarrow> (bl_status \<times> 'd pata_st) option" where
  "pata_channel_loop env i 0 channel s = Some (BL_STATUS_SUCCESS, s)"
| "pata_channel_loop env i (Suc n) channel s =
     (let offset = of_nat (channel * 2 * 4);
          (bar, s1) = bl_pci_read_config_long (pe_io env) i (BL_PCI_CONFIG_REG_BAR0 + offset) s;
          (control_bar, s2) = bl_pci_read_config_long (pe_io env) i (BL_PCI_CONFIG_REG_BAR1 + offset) s1
      in if bar \<noteq> 0 \<or> control_bar \<noteq> 0 then pata_channel_loop env i n (channel + 1) s2
         else do {
           (status, s3) \<leftarrow> bl_pata_check_channel_device env 0 (bl_pata_get_port channel) s2;
           if failed status then Some (status, s3) else pata_channel_loop env i n (channel + 1) s3 })"

definition bl_pata_pci_initialize :: "'d pata_st pata_env \<Rightarrow> 'd pata_st pci_hook" where
  "bl_pata_pci_initialize env i s =
     (case bl_pci_check_device_class (pe_io env) i BL_PCI_BASE_CLASS_STORAGE BL_PCI_SUBCLASS_STORAGE_IDE (-1) s of
        (status, s1) \<Rightarrow> if failed status then Some (status, s1) else pata_channel_loop env i 2 0 s1)"

definition pata_functions :: "'d pata_st pata_env \<Rightarrow> ('d, unit) pata_st_ext controller" where
  "pata_functions env = \<lparr>ctl_type = BL_DISK_CONTROLLER_TYPE_PATA,
     ctl_read = (\<lambda>disk lba' n s. Some (bl_pata_read env disk (pe_stack env (512 * unat n)) lba' n s)), ctl_get_info = None\<rparr>"

partial_function (option) pata_register_loop :: "'d pata_st pata_env \<Rightarrow> addr \<Rightarrow> ('d, unit) pata_st_ext storage_st \<Rightarrow> 'd pata_st \<Rightarrow>
    (('d, unit) pata_st_ext storage_st \<times> 'd pata_st) option" where
  "pata_register_loop env device st s =
     (if device = 0 then Some (st, s)
      else do {
        (disk, s1) \<leftarrow> bl_heap_alloc s sizeof_storage_device;
        if disk = 0 then Some (st, s1)
        else pata_register_loop env (pd_next (mem s1) device)
          (bl_storage_device_register (\<lparr>dev_type = BL_STORAGE_TYPE_HARD_DRIVE, sector_size = BL_STORAGE_SECTOR_SIZE,
             sector_count = pd_sectors_lba48 (mem s1) device, partitions = [], dev_data = device\<rparr>, Some (pata_functions env)) st) s1 })"

definition pata_module_init :: "'d pata_st pata_env \<Rightarrow> ('d, unit) pata_st_ext storage_st \<Rightarrow> 'd pata_st \<Rightarrow>
    (('d, unit) pata_st_ext storage_st \<times> 'd pata_st) option" where
  "pata_module_init env st s = do {
     s1 \<leftarrow> bl_pci_iterate_devices (pe_io env) (pe_print env) (Some (bl_pata_pci_initialize env)) s;
     (controller, s2) \<leftarrow> bl_heap_alloc s1 12;
     if controller = 0 then Some (st, s2)
     else pata_register_loop env (bl_pata_device_list s2) (bl_disk_controller_register (pata_functions env) st) s2 }"

subsection \<open>What the driver asks of the drive\<close>

text \<open>
  The task file of an ATA drive: the last value written to each register, the words it has ready and
  the number of polls until it is no longer busy.
\<close>

record ata_view =
  ata_reg :: "nat \<Rightarrow> u8"
  ata_words :: "u16 list"
  ata_busy :: nat

definition ata_lba28 :: "(nat \<Rightarrow> u8) \<Rightarrow> nat" where
  "ata_lba28 r = unat (r 3) + 2 ^ 8 * unat (r 4) + 2 ^ 16 * unat (r 5) + 2 ^ 24 * (unat (r 6) mod 16)"

definition ata_count :: "(nat \<Rightarrow> u8) \<Rightarrow> nat" where
  "ata_count r = (if r 2 = 0 then 256 else unat (r 2))"

definition disk_words :: "(nat \<Rightarrow> u8) \<Rightarrow> nat \<Rightarrow> nat \<Rightarrow> u16 list" where
  "disk_words D a n = map (\<lambda>i. of_nat (unat (D (a + 2 * i)) + 256 * unat (D (a + 2 * i + 1)))) [0..<n]"

text \<open>
  The protocol of the command READ SECTORS (20h): 28 bits of block number in the registers and the
  device register's low bits, addressing by blocks, drive 0; the words of each sector come after at most 98 busy
  polls. The ports and the timer change the hardware only.
\<close>

definition ata_drive :: "'d pata_st pata_env \<Rightarrow> u16 \<Rightarrow> ('d \<Rightarrow> ata_view) \<Rightarrow> (nat \<Rightarrow> u8) \<Rightarrow> bool" where
  "ata_drive env base view D \<longleftrightarrow>
     (\<forall>s r v. 1 \<le> r \<longrightarrow> r \<le> 6 \<longrightarrow> ata_words (view (pata_hw s)) = [] \<longrightarrow>
        (\<exists>h. p_outb (pe_io env) v (base + of_nat r) s = s\<lparr>pata_hw := h\<rparr> \<and> ata_words (view h) = [] \<and>
           ata_reg (view h) = (ata_reg (view (pata_hw s)))(r := v))) \<and>
     (\<forall>s. ata_words (view (pata_hw s)) = [] \<longrightarrow> ata_reg (view (pata_hw s)) 6 AND 0x50 = 0x40 \<longrightarrow>
        (\<exists>h. p_outb (pe_io env) BL_PATA_CMD_READ_SECTORS (base + 7) s = s\<lparr>pata_hw := h\<rparr> \<and> ata_busy (view h) \<le> 98 \<and>
           ata_words (view h) = disk_words D (512 * ata_lba28 (ata_reg (view (pata_hw s)))) (256 * ata_count (ata_reg (view (pata_hw s)))))) \<and>
     (\<forall>s. \<exists>v h. p_inb (pe_io env) (base + 7) s = (v, s\<lparr>pata_hw := h\<rparr>) \<and> ata_words (view h) = ata_words (view (pata_hw s)) \<and>
        (v AND BL_PATA_REG_STATUS_BSY = 0 \<longleftrightarrow> ata_busy (view (pata_hw s)) = 0) \<and> v AND BL_PATA_REG_STATUS_ERR = 0 \<and>
        ata_busy (view h) = ata_busy (view (pata_hw s)) - 1) \<and>
     (\<forall>s w ws. ata_words (view (pata_hw s)) = w # ws \<longrightarrow> ata_busy (view (pata_hw s)) = 0 \<longrightarrow>
        (\<exists>h. p_inw (pe_io env) base s = (w, s\<lparr>pata_hw := h\<rparr>) \<and> ata_words (view h) = ws \<and>
           ata_busy (view h) \<le> (if length ws mod 256 = 0 then 98 else 0))) \<and>
     (\<forall>s n. \<exists>h. pe_sleep env n s = s\<lparr>pata_hw := h\<rparr> \<and> view h = view (pata_hw s))"

lemma ata_clauses:
  assumes "ata_drive env base view D"
  shows "1 \<le> r \<Longrightarrow> r \<le> 6 \<Longrightarrow> ata_words (view (pata_hw s)) = [] \<Longrightarrow>
      \<exists>h. p_outb (pe_io env) v (base + of_nat r) s = s\<lparr>pata_hw := h\<rparr> \<and> ata_words (view h) = [] \<and>
        ata_reg (view h) = (ata_reg (view (pata_hw s)))(r := v)"
    "ata_words (view (pata_hw s)) = [] \<Longrightarrow> ata_reg (view (pata_hw s)) 6 AND 0x50 = 0x40 \<Longrightarrow>
      \<exists>h. p_outb (pe_io env) BL_PATA_CMD_READ_SECTORS (base + 7) s = s\<lparr>pata_hw := h\<rparr> \<and> ata_busy (view h) \<le> 98 \<and>
        ata_words (view h) = disk_words D (512 * ata_lba28 (ata_reg (view (pata_hw s)))) (256 * ata_count (ata_reg (view (pata_hw s))))"
    "\<exists>v h. p_inb (pe_io env) (base + 7) s = (v, s\<lparr>pata_hw := h\<rparr>) \<and> ata_words (view h) = ata_words (view (pata_hw s)) \<and>
      (v AND BL_PATA_REG_STATUS_BSY = 0 \<longleftrightarrow> ata_busy (view (pata_hw s)) = 0) \<and> v AND BL_PATA_REG_STATUS_ERR = 0 \<and>
      ata_busy (view h) = ata_busy (view (pata_hw s)) - 1"
    "ata_words (view (pata_hw s)) = w # ws \<Longrightarrow> ata_busy (view (pata_hw s)) = 0 \<Longrightarrow>
      \<exists>h. p_inw (pe_io env) base s = (w, s\<lparr>pata_hw := h\<rparr>) \<and> ata_words (view h) = ws \<and>
        ata_busy (view h) \<le> (if length ws mod 256 = 0 then 98 else 0)"
    "\<exists>h. pe_sleep env n s = s\<lparr>pata_hw := h\<rparr> \<and> view h = view (pata_hw s)"
  using assms unfolding ata_drive_def by (elim conjE; simp only: HOL.simp_thms)+

lemma ata_register:
  assumes "ata_drive env base view D" "pd_io (mem s) device = base" "1 \<le> r" "r \<le> 6" "ata_words (view (pata_hw s)) = []"
  shows "\<exists>h. bl_pata_write_reg env device (of_nat r) v s = s\<lparr>pata_hw := h\<rparr> \<and> ata_words (view h) = [] \<and>
    ata_reg (view h) = (ata_reg (view (pata_hw s)))(r := v)"
  using ata_clauses(1) [OF assms(1,3-5), of v] assms(2) by (simp add: bl_pata_write_reg_def)

lemma ata_status:
  assumes "ata_drive env base view D" "pd_io (mem s) device = base"
  shows "\<exists>v h. bl_pata_read_reg env device BL_PATA_REG__READ__STATUS s = (v, s\<lparr>pata_hw := h\<rparr>) \<and>
    ata_words (view h) = ata_words (view (pata_hw s)) \<and>
    (v AND BL_PATA_REG_STATUS_BSY = 0 \<longleftrightarrow> ata_busy (view (pata_hw s)) = 0) \<and> v AND BL_PATA_REG_STATUS_ERR = 0 \<and>
    ata_busy (view h) = ata_busy (view (pata_hw s)) - 1"
  using ata_clauses(3) [OF assms(1), of s] assms(2) by (simp add: bl_pata_read_reg_def BL_PATA_REG__READ__STATUS_def)

lemma ata_wait:
  assumes "ata_drive env base view D" "pd_io (mem s) device = base" "ata_busy (view (pata_hw s)) < n"
  shows "\<exists>h. pata_wait_loop env device n s = (BL_STATUS_SUCCESS, s\<lparr>pata_hw := h\<rparr>) \<and> ata_busy (view h) = 0 \<and>
    ata_words (view h) = ata_words (view (pata_hw s))"
  using assms(2,3)
proof (induction n arbitrary: s)
  case (Suc n)
  obtain v h where v: "bl_pata_read_reg env device BL_PATA_REG__READ__STATUS s = (v, s\<lparr>pata_hw := h\<rparr>)"
      "ata_words (view h) = ata_words (view (pata_hw s))"
      "v AND BL_PATA_REG_STATUS_BSY = 0 \<longleftrightarrow> ata_busy (view (pata_hw s)) = 0" "ata_busy (view h) = ata_busy (view (pata_hw s)) - 1"
    using ata_status [OF assms(1) Suc.prems(1)] by (elim exE conjE) (rule that)
  obtain h1 where h1: "pe_sleep env 1 (s\<lparr>pata_hw := h\<rparr>) = s\<lparr>pata_hw := h1\<rparr>" "view h1 = view h"
    using ata_clauses(5) [OF assms(1), of 1 "s\<lparr>pata_hw := h\<rparr>"] by auto
  show ?case
  proof (cases "ata_busy (view (pata_hw s)) = 0")
    case True
    then show ?thesis using v by auto
  next
    case False
    then have "ata_busy (view h1) < n" using Suc.prems(2) v(4) h1(2) by simp
    with False obtain h2 where "pata_wait_loop env device n (s\<lparr>pata_hw := h1\<rparr>) = (BL_STATUS_SUCCESS, s\<lparr>pata_hw := h2\<rparr>)"
        "ata_busy (view h2) = 0" "ata_words (view h2) = ata_words (view h1)"
      using Suc.IH [of "s\<lparr>pata_hw := h1\<rparr>"] Suc.prems v(4) h1(2) by auto
    then show ?thesis using False v h1 by auto
  qed
qed simp

lemma read_words_ok:
  assumes "ata_drive env base view D" "pd_io (mem s) device = base" "ata_words (view (pata_hw s)) = ws @ rest" "length ws \<le> 256"
    "256 dvd length rest" "ata_busy (view (pata_hw s)) = 0"
  shows "\<exists>h. read_words env device (length ws) s = (concat (map (\<lambda>w. to_le 2 (unat w)) ws), s\<lparr>pata_hw := h\<rparr>) \<and>
    ata_words (view h) = rest \<and> ata_busy (view h) \<le> 98"
  using assms(2-4,6)
proof (induction ws arbitrary: s)
  case Nil
  then show ?case by (intro exI [of _ "pata_hw s"]) simp
next
  case (Cons w ws)
  obtain h where h: "p_inw (pe_io env) base s = (w, s\<lparr>pata_hw := h\<rparr>)" "ata_words (view h) = ws @ rest"
      "ata_busy (view h) \<le> (if length (ws @ rest) mod 256 = 0 then 98 else 0)"
    using ata_clauses(4) [OF assms(1), of s w "ws @ rest"] Cons.prems by auto
  have r: "bl_pata_read_data env device s = (w, s\<lparr>pata_hw := h\<rparr>)"
    using h(1) Cons.prems(1) by (simp add: bl_pata_read_data_def BL_PATA_REG__READ__DPATA_def)
  show ?case
  proof (cases "ws = []")
    case True
    then show ?thesis using r h by (auto split: if_splits)
  next
    case False
    have "length (ws @ rest) mod 256 \<noteq> 0"
    proof
      assume "length (ws @ rest) mod 256 = 0"
      then have "256 dvd length ws" using assms(5) by (metis dvd_add_left_iff length_append mod_0_imp_dvd)
      then have "256 \<le> length ws" using False by (intro dvd_imp_le) auto
      then show False using Cons.prems(3) by simp
    qed
    then have "ata_busy (view h) = 0" using h(3) by simp
    then obtain h1 where "read_words env device (length ws) (s\<lparr>pata_hw := h\<rparr>) = (concat (map (\<lambda>w. to_le 2 (unat w)) ws), s\<lparr>pata_hw := h1\<rparr>)"
        "ata_words (view h1) = rest" "ata_busy (view h1) \<le> 98"
      using Cons.IH [of "s\<lparr>pata_hw := h\<rparr>"] Cons.prems h(2) by auto
    then show ?thesis using r by auto
  qed
qed

lemma disk_words_bytes: "concat (map (\<lambda>w. to_le 2 (unat w)) (disk_words D a n)) = disk_bytes D a (2 * n)"
proof (induction n)
  case (Suc n)
  let ?x = "D (a + 2 * n)" and ?y = "D (a + 2 * n + 1)"
  have "unat ?x < 256" "unat ?y < 256" using unat_lt2p [of ?x] unat_lt2p [of ?y] by simp_all
  then have u: "unat (of_nat (unat ?x + 256 * unat ?y) :: u16) = unat ?x + 256 * unat ?y" by (intro unat_of_nat_eq) simp
  have "to_le 2 (unat (of_nat (unat ?x + 256 * unat ?y) :: u16)) = [?x, ?y]" unfolding u using \<open>unat ?x < 256\<close> \<open>unat ?y < 256\<close> by (simp add: to_le_numeral)
  then show ?case using Suc unfolding disk_words_def disk_bytes_def by (simp del: of_nat_add of_nat_mult)
qed (simp add: disk_words_def disk_bytes_def)

lemma disk_words_add: "disk_words D a (m + n) = disk_words D a m @ disk_words D (a + 2 * m) n"
  by (rule nth_equalityI) (auto simp: disk_words_def nth_append algebra_simps simp del: of_nat_add of_nat_mult)

lemma disk_bytes_add: "disk_bytes D a (m + n) = disk_bytes D a m @ disk_bytes D (a + m) n"
  by (rule nth_equalityI) (auto simp: disk_bytes_def nth_append)

lemma no_error: "v AND BL_PATA_REG_STATUS_ERR = 0 \<Longrightarrow>
  v AND (BL_PATA_REG_STATUS_DRQ OR BL_PATA_REG_STATUS_ERR) \<noteq> BL_PATA_REG_STATUS_ERR"
proof
  assume v: "v AND BL_PATA_REG_STATUS_ERR = 0" "v AND (BL_PATA_REG_STATUS_DRQ OR BL_PATA_REG_STATUS_ERR) = BL_PATA_REG_STATUS_ERR"
  have "bit (BL_PATA_REG_STATUS_ERR :: u8) 0" by (simp add: BL_PATA_REG_STATUS_ERR_def)
  then have "bit v 0" using v(2) by (metis bit_and_iff)
  then have "bit (v AND BL_PATA_REG_STATUS_ERR) 0" by (simp only: bit_and_iff) (simp add: BL_PATA_REG_STATUS_ERR_def)
  then show False using v(1) by simp
qed

lemma pata_sectors_ok:
  assumes "ata_drive env base view D" "pd_io (mem s) device = base" "ata_words (view (pata_hw s)) = disk_words D a (256 * n)"
    "ata_busy (view (pata_hw s)) = 0" "length buf = 512 * (i + n)" "v AND BL_PATA_REG_STATUS_ERR = 0"
  shows "\<exists>h. pata_sectors_loop env device n i v buf s =
      (BL_STATUS_SUCCESS, take (512 * i) buf @ disk_bytes D a (512 * n), s\<lparr>pata_hw := h\<rparr>) \<and> ata_words (view h) = []"
  using assms(2-)
proof (induction n arbitrary: s a buf i v)
  case 0
  then show ?case by (intro exI [of _ "pata_hw s"]) (simp add: disk_words_def disk_bytes_def)
next
  case (Suc n)
  let ?ws = "disk_words D a 256" and ?rest = "disk_words D (a + 512) (256 * n)"
  have len: "length ?ws = 256" "256 dvd length ?rest" by (simp_all add: disk_words_def)
  have sp: "disk_words D a (256 * Suc n) = ?ws @ ?rest" using disk_words_add [of D a 256 "256 * n"] by simp
  obtain h where h: "read_words env device 256 s = (disk_bytes D a 512, s\<lparr>pata_hw := h\<rparr>)" "ata_words (view h) = ?rest" "ata_busy (view h) \<le> 98"
    using read_words_ok [OF assms(1) Suc.prems(1), of ?ws ?rest] Suc.prems(2,3) len disk_words_bytes [of D a 256] unfolding sp by auto
  obtain h1 where h1: "pata_wait_loop env device 99 (s\<lparr>pata_hw := h\<rparr>) = (BL_STATUS_SUCCESS, s\<lparr>pata_hw := h1\<rparr>)"
      "ata_busy (view h1) = 0" "ata_words (view h1) = ?rest"
    using ata_wait [OF assms(1), of "s\<lparr>pata_hw := h\<rparr>" device 99] Suc.prems(1) h(2,3) by auto
  obtain v' h2 where h2: "bl_pata_read_reg env device BL_PATA_REG__READ__STATUS (s\<lparr>pata_hw := h1\<rparr>) = (v', s\<lparr>pata_hw := h2\<rparr>)"
      "ata_words (view h2) = ?rest" "v' AND BL_PATA_REG_STATUS_ERR = 0" "ata_busy (view h2) = 0"
    using ata_status [OF assms(1), of "s\<lparr>pata_hw := h1\<rparr>" device] Suc.prems(1) h1(2,3) by auto
  let ?buf = "put_field (i * 512) (disk_bytes D a 512) buf"
  have db: "length (disk_bytes D a 512) = 512" by (simp add: disk_bytes_def)
  have buf: "length ?buf = 512 * (Suc i + n)" "take (512 * Suc i) ?buf = take (512 * i) buf @ disk_bytes D a 512"
    using Suc.prems(4) db by (auto simp: put_field_def ac_simps)
  obtain h3 where h3: "pata_sectors_loop env device n (Suc i) v' ?buf (s\<lparr>pata_hw := h2\<rparr>) =
      (BL_STATUS_SUCCESS, take (512 * Suc i) ?buf @ disk_bytes D (a + 512) (512 * n), s\<lparr>pata_hw := h3\<rparr>)" "ata_words (view h3) = []"
    using Suc.IH [of "s\<lparr>pata_hw := h2\<rparr>" "a + 512" ?buf "Suc i" v'] Suc.prems(1) h2 buf(1) by auto
  have "disk_bytes D a (512 * Suc n) = disk_bytes D a 512 @ disk_bytes D (a + 512) (512 * n)"
    using disk_bytes_add [of D a 512 "512 * n"] by simp
  then show ?case
    using h h1 h2 h3 no_error [OF Suc.prems(5)] unfolding buf(2)
    by (intro exI [of _ h3]) (simp add: bl_pata_buffer_read_sector_def bl_pata_wait_ready_def BL_STORAGE_SECTOR_SIZE_def failed_def Let_def)
qed


text \<open>The registers when the command is written.\<close>

lemma pata_registers_ok:
  assumes "ata_drive env base view D" "pd_io (mem s) device = base" "pd_type (mem s) device = 0" "ata_words (view (pata_hw s)) = []"
  shows "\<exists>h. pata_set_registers env device l n s = s\<lparr>pata_hw := h\<rparr> \<and> ata_words (view h) = [] \<and>
    ata_reg (view h) 2 = ucast (n AND 0xff) \<and> ata_reg (view h) 3 = ucast (l AND 0xff) \<and>
    ata_reg (view h) 4 = ucast (drop_bit 8 l AND 0xff) \<and> ata_reg (view h) 5 = ucast (drop_bit 16 l AND 0xff) \<and> ata_reg (view h) 6 = 0xe0"
proof -
  have w: "\<exists>h'. bl_pata_write_reg env device (of_nat r) v (s\<lparr>pata_hw := h\<rparr>) = s\<lparr>pata_hw := h'\<rparr> \<and> ata_words (view h') = [] \<and>
      ata_reg (view h') = (ata_reg (view h))(r := v)" if "1 \<le> r" "r \<le> 6" "ata_words (view h) = []" for r v h
    using ata_register [OF assms(1), of "s\<lparr>pata_hw := h\<rparr>" device r v] assms(2) that by simp
  have s0: "s\<lparr>pata_hw := pata_hw s\<rparr> = s" by simp
  obtain h1 where h1: "bl_pata_write_reg env device 1 0 s = s\<lparr>pata_hw := h1\<rparr>" "ata_words (view h1) = []"
    using w [of 1 "pata_hw s" 0] assms(4) by auto
  obtain h2 where h2: "bl_pata_write_reg env device 2 (ucast (drop_bit 8 n AND 0xff)) (s\<lparr>pata_hw := h1\<rparr>) = s\<lparr>pata_hw := h2\<rparr>" "ata_words (view h2) = []"
    using w [of 2 h1 "ucast (drop_bit 8 n AND 0xff)"] h1 by auto
  obtain h3 where h3: "bl_pata_write_reg env device 3 (ucast (drop_bit 24 l AND 0xff)) (s\<lparr>pata_hw := h2\<rparr>) = s\<lparr>pata_hw := h3\<rparr>" "ata_words (view h3) = []"
    using w [of 3 h2 "ucast (drop_bit 24 l AND 0xff)"] h2 by auto
  obtain h4 where h4: "bl_pata_write_reg env device 4 (ucast (drop_bit 32 l AND 0xff)) (s\<lparr>pata_hw := h3\<rparr>) = s\<lparr>pata_hw := h4\<rparr>" "ata_words (view h4) = []"
    using w [of 4 h3 "ucast (drop_bit 32 l AND 0xff)"] h3 by auto
  obtain h5 where h5: "bl_pata_write_reg env device 5 (ucast (drop_bit 40 l AND 0xff)) (s\<lparr>pata_hw := h4\<rparr>) = s\<lparr>pata_hw := h5\<rparr>" "ata_words (view h5) = []"
    using w [of 5 h4 "ucast (drop_bit 40 l AND 0xff)"] h4 by auto
  obtain h6 where h6: "bl_pata_write_reg env device 2 (ucast (n AND 0xff)) (s\<lparr>pata_hw := h5\<rparr>) = s\<lparr>pata_hw := h6\<rparr>" "ata_words (view h6) = []"
      "ata_reg (view h6) = (ata_reg (view h5))(2 := ucast (n AND 0xff))"
    using w [of 2 h5 "ucast (n AND 0xff)"] h5 by auto
  obtain h7 where h7: "bl_pata_write_reg env device 3 (ucast (l AND 0xff)) (s\<lparr>pata_hw := h6\<rparr>) = s\<lparr>pata_hw := h7\<rparr>" "ata_words (view h7) = []"
      "ata_reg (view h7) = (ata_reg (view h6))(3 := ucast (l AND 0xff))"
    using w [of 3 h6 "ucast (l AND 0xff)"] h6 by auto
  obtain h8 where h8: "bl_pata_write_reg env device 4 (ucast (drop_bit 8 l AND 0xff)) (s\<lparr>pata_hw := h7\<rparr>) = s\<lparr>pata_hw := h8\<rparr>" "ata_words (view h8) = []"
      "ata_reg (view h8) = (ata_reg (view h7))(4 := ucast (drop_bit 8 l AND 0xff))"
    using w [of 4 h7 "ucast (drop_bit 8 l AND 0xff)"] h7 by auto
  obtain h9 where h9: "bl_pata_write_reg env device 5 (ucast (drop_bit 16 l AND 0xff)) (s\<lparr>pata_hw := h8\<rparr>) = s\<lparr>pata_hw := h9\<rparr>" "ata_words (view h9) = []"
      "ata_reg (view h9) = (ata_reg (view h8))(5 := ucast (drop_bit 16 l AND 0xff))"
    using w [of 5 h8 "ucast (drop_bit 16 l AND 0xff)"] h8 by auto
  obtain h10 where h10: "bl_pata_write_reg env device 6 0xe0 (s\<lparr>pata_hw := h9\<rparr>) = s\<lparr>pata_hw := h10\<rparr>" "ata_words (view h10) = []"
      "ata_reg (view h10) = (ata_reg (view h9))(6 := 0xe0)"
    using w [of 6 h9 "0xe0"] h9 by auto
  have d: "(ucast (BL_PATA_REG_DEVICE_SET 1 0) :: u8) = 0xe0" by (simp add: BL_PATA_REG_DEVICE_SET_def)
  show ?thesis
    using h1 h2 h3 h4 h5 h6 h7 h8 h9 h10 assms(3)
    by (intro exI [of _ h10]) (simp add: pata_set_registers_def Let_def d
        BL_PATA_REG__WRITE__FEATURES_def BL_PATA_REG__WRITE__SECTOR_COUNT_def BL_PATA_REG__WRITE__LBA48_LOW_def
        BL_PATA_REG__WRITE__LBA48_MID_def BL_PATA_REG__WRITE__LBA48_HIGH_def BL_PATA_REG__WRITE__LBA_LOW_def
        BL_PATA_REG__WRITE__LBA_MID_def BL_PATA_REG__WRITE__LBA_HIGH_def BL_PATA_REG__WRITE__DEVICE_def)
qed

lemma low_byte: "unat (ucast (v AND 0xff :: u64) :: u8) = unat v mod 256"
  using and_mask_unat [of v 8] by (simp add: unsigned_ucast_eq take_bit_eq_mod mask_eq_exp_minus_1)

lemma ata_lba24:
  assumes "r 3 = ucast (l AND 0xff :: u64)" "r 4 = ucast (drop_bit 8 l AND 0xff :: u64)" "r 5 = ucast (drop_bit 16 l AND 0xff :: u64)" "r 6 = 0xe0"
  shows "ata_lba28 r = unat l mod 2 ^ 24"
proof -
  have "unat l mod (2 ^ 16 * 2 ^ 8) = 2 ^ 16 * (unat l div 2 ^ 16 mod 2 ^ 8) + unat l mod 2 ^ 16" by (rule mod_mult2_eq)
  moreover have "unat l mod (2 ^ 8 * 2 ^ 8) = 2 ^ 8 * (unat l div 2 ^ 8 mod 2 ^ 8) + unat l mod 2 ^ 8" by (rule mod_mult2_eq)
  moreover have "unat (drop_bit k l) = unat l div 2 ^ k" for k
    by (simp only: unat_drop_bit_eq) (simp add: drop_bit_eq_div)
  ultimately show ?thesis unfolding ata_lba28_def assms low_byte by simp
qed

text \<open>The sectors read are those of the low 24 bits of the block number.\<close>

lemma pata_read_ok:
  assumes "ata_drive env base view D" "pd_io (mem s) (dev_data disk) = base" "pd_type (mem s) (dev_data disk) = 0"
    "ata_words (view (pata_hw s)) = []" "0 < n" "unat n \<le> 256" "length buf = 512 * unat n"
  shows "\<exists>h. bl_pata_read env disk buf l n s =
      (BL_STATUS_SUCCESS, disk_bytes D (512 * (unat l mod 2 ^ 24)) (512 * unat n), s\<lparr>pata_hw := h\<rparr>) \<and> ata_words (view h) = []"
proof -
  let ?d = "dev_data disk"
  obtain h where h: "pata_set_registers env ?d l n s = s\<lparr>pata_hw := h\<rparr>" "ata_words (view h) = []"
      "ata_reg (view h) 2 = ucast (n AND 0xff)" "ata_reg (view h) 3 = ucast (l AND 0xff)" "ata_reg (view h) 4 = ucast (drop_bit 8 l AND 0xff)"
      "ata_reg (view h) 5 = ucast (drop_bit 16 l AND 0xff)" "ata_reg (view h) 6 = 0xe0"
    using pata_registers_ok [OF assms(1-4), of l n] by auto
  have lba: "ata_lba28 (ata_reg (view h)) = unat l mod 2 ^ 24" by (rule ata_lba24 [OF h(4-7)])
  have "0 < unat n" using assms(5) by (simp add: unat_gt_0 word_neq_0_conv)
  have count: "ata_count (ata_reg (view h)) = unat n"
  proof (cases "unat n = 256")
    case True
    then have "unat (ata_reg (view h) 2) = 0" unfolding h(3) low_byte by simp
    then show ?thesis using True by (simp add: ata_count_def unat_eq_0)
  next
    case False
    then have "unat (ata_reg (view h) 2) = unat n" unfolding h(3) low_byte using assms(6) by simp
    then show ?thesis using \<open>0 < unat n\<close> by (auto simp: ata_count_def)
  qed
  have "ata_reg (view h) 6 AND 0x50 = 0x40" using h(7) by simp
  then obtain h1 where h1: "p_outb (pe_io env) BL_PATA_CMD_READ_SECTORS (base + 7) (s\<lparr>pata_hw := h\<rparr>) = s\<lparr>pata_hw := h1\<rparr>"
      "ata_busy (view h1) \<le> 98" "ata_words (view h1) = disk_words D (512 * (unat l mod 2 ^ 24)) (256 * unat n)"
    using ata_clauses(2) [OF assms(1), of "s\<lparr>pata_hw := h\<rparr>"] h(2) lba count by auto
  obtain h2 where h2: "pata_wait_loop env ?d 99 (s\<lparr>pata_hw := h1\<rparr>) = (BL_STATUS_SUCCESS, s\<lparr>pata_hw := h2\<rparr>)" "ata_busy (view h2) = 0"
      "ata_words (view h2) = ata_words (view h1)"
    using ata_wait [OF assms(1), of "s\<lparr>pata_hw := h1\<rparr>" ?d 99] assms(2) h1(2) by auto
  obtain v h3 where h3: "bl_pata_read_reg env ?d BL_PATA_REG__READ__STATUS (s\<lparr>pata_hw := h2\<rparr>) = (v, s\<lparr>pata_hw := h3\<rparr>)"
      "ata_words (view h3) = ata_words (view h2)" "v AND BL_PATA_REG_STATUS_ERR = 0" "ata_busy (view h3) = 0"
    using ata_status [OF assms(1), of "s\<lparr>pata_hw := h2\<rparr>" ?d] assms(2) h2(2) by auto
  obtain h4 where h4: "pata_sectors_loop env ?d (unat n) 0 v buf (s\<lparr>pata_hw := h3\<rparr>) =
      (BL_STATUS_SUCCESS, disk_bytes D (512 * (unat l mod 2 ^ 24)) (512 * unat n), s\<lparr>pata_hw := h4\<rparr>)" "ata_words (view h4) = []"
    using pata_sectors_ok [OF assms(1), of "s\<lparr>pata_hw := h3\<rparr>" ?d "512 * (unat l mod 2 ^ 24)" "unat n" buf 0 v] assms(2,7) h1(3) h2(3) h3 by auto
  have "bl_pata_write_reg env ?d BL_PATA_REG__WRITE__COMMAND BL_PATA_CMD_READ_SECTORS (s\<lparr>pata_hw := h\<rparr>) = s\<lparr>pata_hw := h1\<rparr>"
    using h1(1) assms(2) by (simp add: bl_pata_write_reg_def BL_PATA_REG__WRITE__COMMAND_def)
  then show ?thesis
    using h(1) h2(1) h3(1) h4 by (intro exI [of _ h4]) (simp add: bl_pata_read_def bl_pata_device_command_def bl_pata_wait_ready_def failed_def)
qed

end
