(* ===== verification/Bl_Font.thy ===== *)
theory Bl_Font
  imports Bl_Pata
begin

text \<open>
  The bitmap font: src/boot-loader/core/gui/font.c. A glyph is 16 rows of 8 pixels, the leftmost
  one in the highest bit. The entries below 0x20 and the last one are zero.
\<close>

unbundle bit_operations_syntax

definition BL_FONT_CHARACTER_WIDTH :: u32 where "BL_FONT_CHARACTER_WIDTH = 8"
definition BL_FONT_CHARACTER_HEIGHT :: u32 where "BL_FONT_CHARACTER_HEIGHT = 16"
definition BL_FONT_ASCII_CHARACTERS :: nat where "BL_FONT_ASCII_CHARACTERS = 128"

definition bl_font_lookup_table2 :: "u64 list" where
  "bl_font_lookup_table2 = [
     0x0000000000000000, 0xffff000000000000, 0x0000ffff00000000, 0xffffffff00000000,
     0x00000000ffff0000, 0xffff0000ffff0000, 0x0000ffffffff0000, 0xffffffffffff0000,
     0x000000000000ffff, 0xffff00000000ffff, 0x0000ffff0000ffff, 0xffffffff0000ffff,
     0x00000000ffffffff, 0xffff0000ffffffff, 0x0000ffffffffffff, 0xffffffffffffffff]"

definition bl_font_lookup_table4 :: "u64 list" where
  "bl_font_lookup_table4 = [0x0000000000000000, 0xffffffff00000000, 0x00000000ffffffff, 0xffffffffffffffff]"

text \<open>The characters 0x20 to 0x3f, 0x40 to 0x5f and 0x60 to 0x7e.\<close>

definition font_marks_digits :: "u8 list list" where
  "font_marks_digits = [
   [0x00, 0x00, 0x00, 0x00, 0x00, 0x00, 0x00, 0x00, 0x00, 0x00, 0x00, 0x00, 0x00, 0x00, 0x00, 0x00],
   [0x00, 0x00, 0x00, 0x18, 0x18, 0x18, 0x18, 0x18, 0x18, 0x00, 0x00, 0x18, 0x18, 0x00, 0x00, 0x00],
   [0x00, 0x00, 0x00, 0x44, 0x44, 0x44, 0x44, 0x00, 0x00, 0x00, 0x00, 0x00, 0x00, 0x00, 0x00, 0x00],
   [0x00, 0x00, 0x00, 0x24, 0x24, 0x7e, 0x24, 0x24, 0x24, 0x24, 0x7e, 0x24, 0x24, 0x00, 0x00, 0x00],
   [0x00, 0x00, 0x08, 0x3f, 0x29, 0x28, 0x28, 0x28, 0x3e, 0x0b, 0x0b, 0x2b, 0x3e, 0x08, 0x00, 0x00],
   [0x00, 0x00, 0x00, 0x67, 0x66, 0x0c, 0x0c, 0x18, 0x18, 0x30, 0x30, 0x67, 0x67, 0x00, 0x00, 0x00],
   [0x00, 0x00, 0x00, 0x3c, 0x42, 0x42, 0x44, 0x28, 0x10, 0x28, 0x49, 0x45, 0x7f, 0x00, 0x00, 0x00],
   [0x00, 0x00, 0x00, 0x08, 0x08, 0x08, 0x08, 0x00, 0x00, 0x00, 0x00, 0x00, 0x00, 0x00, 0x00, 0x00],
   [0x00, 0x00, 0x00, 0x0f, 0x18, 0x30, 0x60, 0x60, 0x60, 0x60, 0x30, 0x18, 0x0f, 0x00, 0x00, 0x00],
   [0x00, 0x00, 0x00, 0xf0, 0x18, 0x0c, 0x06, 0x06, 0x06, 0x06, 0x0c, 0x18, 0xf0, 0x00, 0x00, 0x00],
   [0x00, 0x00, 0x00, 0x18, 0x7e, 0x18, 0x18, 0x66, 0x00, 0x00, 0x00, 0x00, 0x00, 0x00, 0x00, 0x00],
   [0x00, 0x00, 0x00, 0x00, 0x00, 0x18, 0x18, 0x7e, 0x18, 0x18, 0x00, 0x00, 0x00, 0x00, 0x00, 0x00],
   [0x00, 0x00, 0x00, 0x00, 0x00, 0x00, 0x00, 0x00, 0x00, 0x18, 0x18, 0x18, 0x30, 0x00, 0x00, 0x00],
   [0x00, 0x00, 0x00, 0x00, 0x00, 0x00, 0x00, 0x7e, 0x00, 0x00, 0x00, 0x00, 0x00, 0x00, 0x00, 0x00],
   [0x00, 0x00, 0x00, 0x00, 0x00, 0x00, 0x00, 0x00, 0x00, 0x00, 0x00, 0x18, 0x18, 0x00, 0x00, 0x00],
   [0x00, 0x00, 0x00, 0x07, 0x06, 0x0c, 0x0c, 0x18, 0x18, 0x30, 0x30, 0x60, 0x60, 0x00, 0x00, 0x00],
   [0x00, 0x00, 0x00, 0x3c, 0x42, 0x42, 0x42, 0x42, 0x42, 0x42, 0x42, 0x42, 0x3c, 0x00, 0x00, 0x00],
   [0x00, 0x00, 0x00, 0x06, 0x0a, 0x12, 0x02, 0x02, 0x02, 0x02, 0x02, 0x02, 0x02, 0x00, 0x00, 0x00],
   [0x00, 0x00, 0x00, 0x7e, 0x02, 0x02, 0x02, 0x7e, 0x40, 0x40, 0x40, 0x40, 0x7e, 0x00, 0x00, 0x00],
   [0x00, 0x00, 0x00, 0x7e, 0x02, 0x02, 0x02, 0x7e, 0x02, 0x02, 0x02, 0x02, 0x7e, 0x00, 0x00, 0x00],
   [0x00, 0x00, 0x00, 0x06, 0x0a, 0x12, 0x22, 0x7f, 0x02, 0x02, 0x02, 0x02, 0x02, 0x00, 0x00, 0x00],
   [0x00, 0x00, 0x00, 0x7e, 0x40, 0x40, 0x40, 0x7e, 0x02, 0x02, 0x02, 0x02, 0x7e, 0x00, 0x00, 0x00],
   [0x00, 0x00, 0x00, 0x7e, 0x40, 0x40, 0x40, 0x7e, 0x42, 0x42, 0x42, 0x42, 0x7e, 0x00, 0x00, 0x00],
   [0x00, 0x00, 0x00, 0x7e, 0x02, 0x02, 0x02, 0x02, 0x02, 0x02, 0x02, 0x02, 0x02, 0x00, 0x00, 0x00],
   [0x00, 0x00, 0x00, 0x7e, 0x42, 0x42, 0x42, 0x7e, 0x42, 0x42, 0x42, 0x42, 0x7e, 0x00, 0x00, 0x00],
   [0x00, 0x00, 0x00, 0x7e, 0x42, 0x42, 0x42, 0x7e, 0x02, 0x02, 0x02, 0x02, 0x7e, 0x00, 0x00, 0x00],
   [0x00, 0x00, 0x00, 0x00, 0x00, 0x18, 0x18, 0x00, 0x00, 0x00, 0x18, 0x18, 0x00, 0x00, 0x00, 0x00],
   [0x00, 0x00, 0x00, 0x00, 0x00, 0x18, 0x18, 0x00, 0x00, 0x18, 0x18, 0x18, 0x30, 0x00, 0x00, 0x00],
   [0x00, 0x00, 0x00, 0x00, 0x00, 0x07, 0x1c, 0x70, 0x70, 0x1c, 0x07, 0x00, 0x00, 0x00, 0x00, 0x00],
   [0x00, 0x00, 0x00, 0x00, 0x00, 0x00, 0x7e, 0x00, 0x00, 0x7e, 0x00, 0x00, 0x00, 0x00, 0x00, 0x00],
   [0x00, 0x00, 0x00, 0x00, 0x00, 0x70, 0x1c, 0x07, 0x07, 0x1c, 0x70, 0x00, 0x00, 0x00, 0x00, 0x00],
   [0x00, 0x00, 0x00, 0x3e, 0x63, 0x43, 0x03, 0x0e, 0x0c, 0x00, 0x00, 0x0c, 0x0c, 0x00, 0x00, 0x00]]"

definition font_upper :: "u8 list list" where
  "font_upper = [
   [0x00, 0x00, 0x00, 0x3e, 0x41, 0x41, 0x4f, 0x49, 0x49, 0x49, 0x49, 0x49, 0x4f, 0x00, 0x00, 0x00],
   [0x00, 0x00, 0x08, 0x14, 0x22, 0x41, 0x41, 0x7f, 0x41, 0x41, 0x41, 0x41, 0x41, 0x00, 0x00, 0x00],
   [0x00, 0x00, 0x7e, 0x41, 0x41, 0x41, 0x7e, 0x42, 0x41, 0x41, 0x41, 0x41, 0x7e, 0x00, 0x00, 0x00],
   [0x00, 0x00, 0x3c, 0x42, 0x40, 0x40, 0x40, 0x40, 0x40, 0x40, 0x40, 0x42, 0x3c, 0x00, 0x00, 0x00],
   [0x00, 0x00, 0x7c, 0x42, 0x41, 0x41, 0x41, 0x41, 0x41, 0x41, 0x41, 0x42, 0x7c, 0x00, 0x00, 0x00],
   [0x00, 0x00, 0x7e, 0x40, 0x40, 0x40, 0x40, 0x7e, 0x40, 0x40, 0x40, 0x40, 0x7e, 0x00, 0x00, 0x00],
   [0x00, 0x00, 0x7e, 0x40, 0x40, 0x40, 0x40, 0x7e, 0x40, 0x40, 0x40, 0x40, 0x40, 0x00, 0x00, 0x00],
   [0x00, 0x00, 0x3e, 0x41, 0x40, 0x40, 0x40, 0x47, 0x41, 0x41, 0x41, 0x41, 0x3e, 0x00, 0x00, 0x00],
   [0x00, 0x00, 0x41, 0x41, 0x41, 0x41, 0x41, 0x7f, 0x41, 0x41, 0x41, 0x41, 0x41, 0x00, 0x00, 0x00],
   [0x00, 0x00, 0x1c, 0x08, 0x08, 0x08, 0x08, 0x08, 0x08, 0x08, 0x08, 0x08, 0x1c, 0x00, 0x00, 0x00],
   [0x00, 0x00, 0x3f, 0x01, 0x01, 0x01, 0x01, 0x01, 0x01, 0x01, 0x41, 0x41, 0x3e, 0x00, 0x00, 0x00],
   [0x00, 0x00, 0x41, 0x42, 0x44, 0x48, 0x50, 0x60, 0x50, 0x48, 0x44, 0x42, 0x41, 0x00, 0x00, 0x00],
   [0x00, 0x00, 0x40, 0x40, 0x40, 0x40, 0x40, 0x40, 0x40, 0x40, 0x40, 0x40, 0x7f, 0x00, 0x00, 0x00],
   [0x00, 0x00, 0x41, 0x63, 0x55, 0x49, 0x41, 0x41, 0x41, 0x41, 0x41, 0x41, 0x41, 0x00, 0x00, 0x00],
   [0x00, 0x00, 0x41, 0x41, 0x41, 0x61, 0x51, 0x49, 0x45, 0x43, 0x41, 0x41, 0x41, 0x00, 0x00, 0x00],
   [0x00, 0x00, 0x3e, 0x41, 0x41, 0x41, 0x41, 0x41, 0x41, 0x41, 0x41, 0x41, 0x3e, 0x00, 0x00, 0x00],
   [0x00, 0x00, 0x7e, 0x41, 0x41, 0x41, 0x41, 0x7e, 0x40, 0x40, 0x40, 0x40, 0x40, 0x00, 0x00, 0x00],
   [0x00, 0x00, 0x3e, 0x41, 0x41, 0x41, 0x41, 0x41, 0x41, 0x41, 0x41, 0x51, 0x49, 0x3e, 0x02, 0x00],
   [0x00, 0x00, 0x7e, 0x41, 0x41, 0x41, 0x41, 0x7e, 0x41, 0x41, 0x41, 0x41, 0x41, 0x00, 0x00, 0x00],
   [0x00, 0x00, 0x3f, 0x40, 0x40, 0x40, 0x40, 0x3e, 0x01, 0x01, 0x01, 0x01, 0x7e, 0x00, 0x00, 0x00],
   [0x00, 0x00, 0x7f, 0x08, 0x08, 0x08, 0x08, 0x08, 0x08, 0x08, 0x08, 0x08, 0x08, 0x00, 0x00, 0x00],
   [0x00, 0x00, 0x41, 0x41, 0x41, 0x41, 0x41, 0x41, 0x41, 0x41, 0x41, 0x41, 0x3e, 0x00, 0x00, 0x00],
   [0x00, 0x00, 0x41, 0x41, 0x41, 0x41, 0x41, 0x41, 0x41, 0x41, 0x22, 0x14, 0x08, 0x00, 0x00, 0x00],
   [0x00, 0x00, 0x41, 0x41, 0x41, 0x41, 0x41, 0x41, 0x41, 0x49, 0x55, 0x63, 0x41, 0x00, 0x00, 0x00],
   [0x00, 0x00, 0x41, 0x22, 0x14, 0x14, 0x14, 0x08, 0x14, 0x14, 0x14, 0x22, 0x41, 0x00, 0x00, 0x00],
   [0x00, 0x00, 0x41, 0x22, 0x14, 0x08, 0x08, 0x08, 0x08, 0x08, 0x08, 0x08, 0x08, 0x00, 0x00, 0x00],
   [0x00, 0x00, 0x7f, 0x01, 0x01, 0x02, 0x04, 0x08, 0x10, 0x20, 0x40, 0x40, 0x7f, 0x00, 0x00, 0x00],
   [0x00, 0x00, 0x00, 0x38, 0x20, 0x20, 0x20, 0x20, 0x20, 0x20, 0x20, 0x20, 0x38, 0x00, 0x00, 0x00],
   [0x00, 0x00, 0x00, 0x20, 0x20, 0x10, 0x10, 0x08, 0x08, 0x04, 0x04, 0x02, 0x02, 0x00, 0x00, 0x00],
   [0x00, 0x00, 0x00, 0x1c, 0x04, 0x04, 0x04, 0x04, 0x04, 0x04, 0x04, 0x04, 0x1c, 0x00, 0x00, 0x00],
   [0x00, 0x00, 0x00, 0x08, 0x14, 0x22, 0x41, 0x00, 0x00, 0x00, 0x00, 0x00, 0x00, 0x00, 0x00, 0x00],
   [0x00, 0x00, 0x00, 0x00, 0x00, 0x00, 0x00, 0x00, 0x00, 0x00, 0x00, 0x00, 0x7e, 0x00, 0x00, 0x00]]"

definition font_lower :: "u8 list list" where
  "font_lower = [
   [0x00, 0x00, 0x20, 0x10, 0x00, 0x00, 0x00, 0x00, 0x00, 0x00, 0x00, 0x00, 0x00, 0x00, 0x00, 0x00],
   [0x00, 0x00, 0x00, 0x00, 0x00, 0x00, 0x3c, 0x02, 0x02, 0x3e, 0x42, 0x42, 0x3e, 0x00, 0x00, 0x00],
   [0x00, 0x00, 0x00, 0x00, 0x40, 0x40, 0x40, 0x7c, 0x42, 0x42, 0x42, 0x42, 0x7c, 0x00, 0x00, 0x00],
   [0x00, 0x00, 0x00, 0x00, 0x00, 0x00, 0x3e, 0x40, 0x40, 0x40, 0x40, 0x40, 0x3e, 0x00, 0x00, 0x00],
   [0x00, 0x00, 0x00, 0x00, 0x02, 0x02, 0x02, 0x3e, 0x42, 0x42, 0x42, 0x42, 0x3e, 0x00, 0x00, 0x00],
   [0x00, 0x00, 0x00, 0x00, 0x00, 0x00, 0x3c, 0x42, 0x42, 0x7e, 0x40, 0x40, 0x3e, 0x00, 0x00, 0x00],
   [0x00, 0x00, 0x00, 0x00, 0x1c, 0x20, 0x20, 0x20, 0x7c, 0x20, 0x20, 0x20, 0x20, 0x00, 0x00, 0x00],
   [0x00, 0x00, 0x00, 0x00, 0x00, 0x00, 0x3e, 0x42, 0x42, 0x42, 0x42, 0x3e, 0x02, 0x02, 0x7c, 0x00],
   [0x00, 0x00, 0x00, 0x40, 0x40, 0x40, 0x40, 0x7c, 0x42, 0x42, 0x42, 0x42, 0x42, 0x00, 0x00, 0x00],
   [0x00, 0x00, 0x00, 0x00, 0x00, 0x08, 0x08, 0x00, 0x08, 0x08, 0x08, 0x08, 0x08, 0x00, 0x00, 0x00],
   [0x00, 0x00, 0x00, 0x00, 0x00, 0x04, 0x04, 0x00, 0x04, 0x04, 0x04, 0x04, 0x04, 0x04, 0x38, 0x00],
   [0x00, 0x00, 0x00, 0x00, 0x44, 0x48, 0x50, 0x60, 0x60, 0x50, 0x48, 0x44, 0x42, 0x00, 0x00, 0x00],
   [0x00, 0x00, 0x00, 0x00, 0x10, 0x10, 0x10, 0x10, 0x10, 0x10, 0x10, 0x10, 0x08, 0x00, 0x00, 0x00],
   [0x00, 0x00, 0x00, 0x00, 0x00, 0x00, 0x7e, 0x49, 0x49, 0x49, 0x49, 0x49, 0x49, 0x00, 0x00, 0x00],
   [0x00, 0x00, 0x00, 0x00, 0x00, 0x00, 0x7c, 0x42, 0x42, 0x42, 0x42, 0x42, 0x42, 0x00, 0x00, 0x00],
   [0x00, 0x00, 0x00, 0x00, 0x00, 0x00, 0x3c, 0x42, 0x42, 0x42, 0x42, 0x42, 0x3c, 0x00, 0x00, 0x00],
   [0x00, 0x00, 0x00, 0x00, 0x00, 0x00, 0x7c, 0x42, 0x42, 0x42, 0x42, 0x7c, 0x40, 0x40, 0x40, 0x00],
   [0x00, 0x00, 0x00, 0x00, 0x00, 0x00, 0x3e, 0x42, 0x42, 0x42, 0x42, 0x3e, 0x02, 0x02, 0x02, 0x00],
   [0x00, 0x00, 0x00, 0x00, 0x00, 0x00, 0x7c, 0x40, 0x40, 0x40, 0x40, 0x40, 0x40, 0x00, 0x00, 0x00],
   [0x00, 0x00, 0x00, 0x00, 0x00, 0x00, 0x3e, 0x40, 0x40, 0x3c, 0x02, 0x02, 0x7c, 0x00, 0x00, 0x00],
   [0x00, 0x00, 0x00, 0x00, 0x20, 0x20, 0x7e, 0x20, 0x20, 0x20, 0x20, 0x20, 0x1e, 0x00, 0x00, 0x00],
   [0x00, 0x00, 0x00, 0x00, 0x00, 0x00, 0x42, 0x42, 0x42, 0x42, 0x42, 0x42, 0x3e, 0x00, 0x00, 0x00],
   [0x00, 0x00, 0x00, 0x00, 0x00, 0x00, 0x41, 0x41, 0x22, 0x22, 0x14, 0x14, 0x08, 0x00, 0x00, 0x00],
   [0x00, 0x00, 0x00, 0x00, 0x00, 0x00, 0x41, 0x41, 0x41, 0x49, 0x55, 0x63, 0x41, 0x00, 0x00, 0x00],
   [0x00, 0x00, 0x00, 0x00, 0x00, 0x00, 0x41, 0x22, 0x14, 0x08, 0x14, 0x22, 0x41, 0x00, 0x00, 0x00],
   [0x00, 0x00, 0x00, 0x00, 0x00, 0x00, 0x41, 0x41, 0x41, 0x21, 0x12, 0x0c, 0x08, 0x10, 0x60, 0x00],
   [0x00, 0x00, 0x00, 0x00, 0x00, 0x00, 0x7f, 0x02, 0x04, 0x08, 0x10, 0x20, 0x7f, 0x00, 0x00, 0x00],
   [0x00, 0x00, 0x00, 0x1c, 0x20, 0x20, 0x20, 0x40, 0x40, 0x20, 0x20, 0x20, 0x1c, 0x00, 0x00, 0x00],
   [0x00, 0x00, 0x08, 0x08, 0x08, 0x08, 0x08, 0x08, 0x08, 0x08, 0x08, 0x08, 0x08, 0x08, 0x00, 0x00],
   [0x00, 0x00, 0x00, 0x38, 0x04, 0x04, 0x04, 0x02, 0x02, 0x04, 0x04, 0x04, 0x38, 0x00, 0x00, 0x00],
   [0x00, 0x00, 0x00, 0x00, 0x00, 0x00, 0x00, 0x24, 0x58, 0x00, 0x00, 0x00, 0x00, 0x00, 0x00, 0x00]]"

definition bl_font :: "u8 list list" where
  "bl_font = replicate 32 (replicate 16 0) @ font_marks_digits @ font_upper @ font_lower @ [replicate 16 0]"

lemma length_bl_font: "length bl_font = BL_FONT_ASCII_CHARACTERS"
  by (simp add: bl_font_def font_marks_digits_def font_upper_def font_lower_def BL_FONT_ASCII_CHARACTERS_def)

lemma length_glyph: "c < 128 \<Longrightarrow> length (bl_font ! c) = 16"
proof -
  assume "c < 128"
  have "\<forall>g \<in> set bl_font. length g = 16" by (simp add: bl_font_def font_marks_digits_def font_upper_def font_lower_def)
  then show ?thesis using \<open>c < 128\<close> length_bl_font by (simp add: BL_FONT_ASCII_CHARACTERS_def)
qed

lemma table2_all:
  "\<forall>n \<in> set [0..<16]. \<forall>k \<in> set [0..<4]. (ucast (drop_bit (16 * k) (bl_font_lookup_table2 ! n)) :: u16) = (if bit n (3 - k) then 0xffff else 0)"
  by code_simp

text \<open>The masks: pixel \<open>k\<close> is set if bit \<open>3 - k\<close> of the half row is.\<close>

lemma table2_pixel:
  "n < 16 \<Longrightarrow> k < 4 \<Longrightarrow> (ucast (drop_bit (16 * k) (bl_font_lookup_table2 ! n)) :: u16) = (if bit n (3 - k) then 0xffff else 0)"
  using table2_all by simp

text \<open>Printable characters look different.\<close>

lemma font_printable_distinct: "distinct (font_marks_digits @ font_upper @ font_lower)"
  by code_simp

end
