(* ===== verification/Bl_Video.thy ===== *)
theory Bl_Video
  imports Bl_Font
begin

text \<open>
  Graphics: src/boot-loader/core/video/fb.c, alpha-blending.c and video.c. Pixels are bytes of
  the memory, in the frame buffer, the double buffer and the renderer (a background that is drawn first). The drivers
  that set the mode are records of functions; the cache set-up of the BIOS build is
  the argument \<open>mtrr\<close>.
\<close>

unbundle bit_operations_syntax

type_synonym bl_video_color_t = u32

record bl_video_color_mask =
  cm_position :: u8
  cm_mask_size :: u8

record bl_video_info =
  vi_width :: u32
  vi_height :: u32
  vi_pitch :: u32
  vi_frame_buffer :: addr
  vi_video_memory_size :: u32
  vi_bits_per_pixel :: u8
  vi_bytes_per_pixel :: u8
  vi_red :: bl_video_color_mask
  vi_green :: bl_video_color_mask
  vi_blue :: bl_video_color_mask
  vi_reserved :: bl_video_color_mask

record fb_st = heap_st +
  fb_info :: bl_video_info
  fb_renderer :: addr
  fb_dirty_x :: u32
  fb_dirty_y :: u32
  fb_dirty_w :: u32
  fb_dirty_h :: u32
  fb_double_buffer :: addr

subsection \<open>Colours\<close>

text \<open>The shift instructions of the i386 take the count modulo 32.\<close>

definition COLOR_LSHIFT :: "u32 \<Rightarrow> u8 \<Rightarrow> u32" where
  "COLOR_LSHIFT v pos = push_bit (unat pos mod 32) v"

definition COLOR_RSHIFT :: "u32 \<Rightarrow> u8 \<Rightarrow> u32" where
  "COLOR_RSHIFT v pos = drop_bit (unat pos mod 32) v"

definition COLOR_MASK :: "u32 \<Rightarrow> u8 \<Rightarrow> u32" where
  "COLOR_MASK v sz = v AND (push_bit (unat sz mod 32) 1 - 1)"

definition bl_fb_prepare_color :: "bl_video_info \<Rightarrow> u8 \<Rightarrow> u8 \<Rightarrow> u8 \<Rightarrow> u8 \<Rightarrow> bl_video_color_t" where
  "bl_fb_prepare_color info r g b reserved =
     COLOR_LSHIFT (COLOR_MASK (ucast r) (cm_mask_size (vi_red info))) (cm_position (vi_red info)) OR
     COLOR_LSHIFT (COLOR_MASK (ucast g) (cm_mask_size (vi_green info))) (cm_position (vi_green info)) OR
     COLOR_LSHIFT (COLOR_MASK (ucast b) (cm_mask_size (vi_blue info))) (cm_position (vi_blue info)) OR
     COLOR_LSHIFT (COLOR_MASK (ucast reserved) (cm_mask_size (vi_reserved info))) (cm_position (vi_reserved info))"

definition get_component :: "bl_video_color_mask \<Rightarrow> bl_video_color_t \<Rightarrow> u8" where
  "get_component c color = ucast (COLOR_MASK (COLOR_RSHIFT color (cm_position c)) (cm_mask_size c))"

definition bl_fb_get_red :: "bl_video_info \<Rightarrow> bl_video_color_t \<Rightarrow> u8" where
  "bl_fb_get_red info = get_component (vi_red info)"

definition bl_fb_get_green :: "bl_video_info \<Rightarrow> bl_video_color_t \<Rightarrow> u8" where
  "bl_fb_get_green info = get_component (vi_green info)"

definition bl_fb_get_blue :: "bl_video_info \<Rightarrow> bl_video_color_t \<Rightarrow> u8" where
  "bl_fb_get_blue info = get_component (vi_blue info)"

definition bl_fb_get_reserved :: "bl_video_info \<Rightarrow> bl_video_color_t \<Rightarrow> u8" where
  "bl_fb_get_reserved info = get_component (vi_reserved info)"

text \<open>One component of the blend: \<open>a\<close> and its complement weigh \<open>c1\<close> and \<open>c2\<close>.\<close>

definition blend_component :: "u8 \<Rightarrow> u8 \<Rightarrow> u8 \<Rightarrow> u8" where
  "blend_component a c1 c2 =
     ucast (drop_bit 16 (ucast c1 * (push_bit 8 (ucast a) + ucast a) +
       ucast c2 * (push_bit 8 (ucast a XOR 0xff) + (ucast a XOR 0xff)) :: u32))"

text \<open>The colour and the flag \<open>ignore\<close>.\<close>

definition bl_alpha_blend_color :: "bl_video_info \<Rightarrow> bl_video_color_t \<Rightarrow> bl_video_color_t \<Rightarrow> u8 \<Rightarrow> bl_video_color_t \<times> bool" where
  "bl_alpha_blend_color info color1 color2 alpha =
     (if alpha = 0 then (0, True)
      else if alpha = 0xff then (color1, False)
      else (bl_fb_prepare_color info
         (blend_component alpha (bl_fb_get_red info color1) (bl_fb_get_red info color2))
         (blend_component alpha (bl_fb_get_green info color1) (bl_fb_get_green info color2))
         (blend_component alpha (bl_fb_get_blue info color1) (bl_fb_get_blue info color2)) alpha, False))"

subsection \<open>The dirty area\<close>

definition bl_fb_get_target_ptr :: "'a fb_st_scheme \<Rightarrow> addr" where
  "bl_fb_get_target_ptr s = (if fb_renderer s \<noteq> 0 then fb_renderer s else if fb_double_buffer s \<noteq> 0 then fb_double_buffer s else 0)"

definition BL_FB_INVALID_POS :: u32 where "BL_FB_INVALID_POS = NOT 0"

definition bl_fb_reset_dirty_area :: "'a fb_st_scheme \<Rightarrow> 'a fb_st_scheme" where
  "bl_fb_reset_dirty_area s = s\<lparr>fb_dirty_x := BL_FB_INVALID_POS, fb_dirty_y := BL_FB_INVALID_POS,
     fb_dirty_w := BL_FB_INVALID_POS, fb_dirty_h := BL_FB_INVALID_POS\<rparr>"

text \<open>One axis: the new start, and the new extent.\<close>

definition dirty_start :: "u32 \<Rightarrow> u32 \<Rightarrow> u32" where
  "dirty_start x dirty_x = (if x < dirty_x \<or> dirty_x = BL_FB_INVALID_POS then x else dirty_x)"

definition dirty_extent :: "u32 \<Rightarrow> u32 \<Rightarrow> u32 \<Rightarrow> u32 \<Rightarrow> u32" where
  "dirty_extent x w dirty_x dirty_w =
     (if dirty_w = BL_FB_INVALID_POS then w
      else if x < dirty_x then (if x + w < dirty_x + dirty_w then dirty_x + dirty_w - x else w)
      else if x + w > dirty_x + dirty_w then x + w - dirty_x else dirty_w)"

definition bl_fb_update_dirty_area :: "u32 \<Rightarrow> u32 \<Rightarrow> u32 \<Rightarrow> u32 \<Rightarrow> 'a fb_st_scheme \<Rightarrow> 'a fb_st_scheme" where
  "bl_fb_update_dirty_area x y w h s =
     s\<lparr>fb_dirty_x := dirty_start x (fb_dirty_x s), fb_dirty_y := dirty_start y (fb_dirty_y s),
       fb_dirty_w := dirty_extent x w (fb_dirty_x s) (fb_dirty_w s),
       fb_dirty_h := dirty_extent y h (fb_dirty_y s) (fb_dirty_h s)\<rparr>"

subsection \<open>Pixels\<close>

text \<open>The offset of a pixel in any of the buffers.\<close>

definition pixel_offset :: "bl_video_info \<Rightarrow> u32 \<Rightarrow> u32 \<Rightarrow> u32" where
  "pixel_offset info x y = y * vi_pitch info + x * ucast (vi_bytes_per_pixel info)"

definition bl_fb_get_pixel_ptr :: "bl_video_info \<Rightarrow> mem \<Rightarrow> addr \<Rightarrow> u32 \<Rightarrow> u32 \<Rightarrow> bl_video_color_t" where
  "bl_fb_get_pixel_ptr info m src x y =
     (let ptr = src + pixel_offset info x y
      in if vi_bits_per_pixel info = 15 \<or> vi_bits_per_pixel info = 16 then ucast (ld16 m ptr)
         else if vi_bits_per_pixel info = 24 then ucast (m ptr) OR push_bit 8 (ucast (m (ptr + 1))) OR push_bit 16 (ucast (m (ptr + 2)))
         else if vi_bits_per_pixel info = 32 then ld32 m ptr
         else 0)"

definition bl_fb_get_pixel :: "u32 \<Rightarrow> u32 \<Rightarrow> 'a fb_st_scheme \<Rightarrow> bl_video_color_t" where
  "bl_fb_get_pixel x y s = bl_fb_get_pixel_ptr (fb_info s) (mem s) (bl_fb_get_target_ptr s) x y"

definition put_pixel24 :: "bl_video_color_t \<Rightarrow> addr \<Rightarrow> mem \<Rightarrow> mem" where
  "put_pixel24 color dst m = m(dst := ucast (color AND 0xff), dst + 1 := ucast (drop_bit 8 color AND 0xff), dst + 2 := ucast (drop_bit 16 color AND 0xff))"

definition bl_fb_set_pixel :: "bl_video_color_t \<Rightarrow> u32 \<Rightarrow> u32 \<Rightarrow> 'a fb_st_scheme \<Rightarrow> 'a fb_st_scheme" where
  "bl_fb_set_pixel color x y s =
     (let info = fb_info s; dst = bl_fb_get_target_ptr s + pixel_offset info x y
      in if vi_bits_per_pixel info = 15 \<or> vi_bits_per_pixel info = 16 then s\<lparr>mem := st16 (mem s) dst (ucast (color AND 0xffff))\<rparr>
         else if vi_bits_per_pixel info = 24 then s\<lparr>mem := put_pixel24 color dst (mem s)\<rparr>
         else if vi_bits_per_pixel info = 32 then s\<lparr>mem := st32 (mem s) dst color\<rparr>
         else s)"

text \<open>The rows of a glyph in the three pixel sizes.\<close>

definition glyph_half16 :: "bl_video_info \<Rightarrow> u64 \<Rightarrow> u64 \<Rightarrow> addr \<Rightarrow> u32 \<Rightarrow> mem \<Rightarrow> u64" where
  "glyph_half16 info fg mask1 src k m =
     (fg AND mask1) OR
     ((push_bit 0 (ucast (bl_fb_get_pixel_ptr info m src k 0)) OR
       push_bit 16 (ucast (bl_fb_get_pixel_ptr info m src (k + 1) 0)) OR
       push_bit 32 (ucast (bl_fb_get_pixel_ptr info m src (k + 2) 0)) OR
       push_bit 48 (ucast (bl_fb_get_pixel_ptr info m src (k + 3) 0))) AND NOT mask1)"

definition glyph_row16 :: "bl_video_info \<Rightarrow> bl_video_color_t \<Rightarrow> u8 \<Rightarrow> addr \<Rightarrow> addr \<Rightarrow> mem \<Rightarrow> mem" where
  "glyph_row16 info white g src dst m =
     (let w = ucast white :: u64;
          fg = push_bit 48 w OR push_bit 32 w OR push_bit 16 w OR w;
          mask1 = bl_font_lookup_table2 ! unat (drop_bit 4 g AND 0xf);
          mask2 = bl_font_lookup_table2 ! unat (g AND 0xf);
          m1 = st64 m dst (glyph_half16 info fg mask1 src 0 m)
      in st64 m1 (dst + 8) (glyph_half16 info fg mask2 src 4 m1))"

fun glyph_pixels24 :: "bl_video_info \<Rightarrow> u8 \<Rightarrow> addr \<Rightarrow> addr \<Rightarrow> nat \<Rightarrow> mem \<Rightarrow> mem" where
  "glyph_pixels24 info g src dst 0 m = m"
| "glyph_pixels24 info g src dst (Suc j) m =
     (let p = dst + of_nat (7 - j) * 3
      in glyph_pixels24 info g src dst j
           (if bit g j then m(p := 0xff, p + 1 := 0xff, p + 2 := 0xff)
            else put_pixel24 (bl_fb_get_pixel_ptr info m src 0 0) p m))"

definition glyph_pair32 :: "bl_video_info \<Rightarrow> u64 \<Rightarrow> u8 \<Rightarrow> addr \<Rightarrow> u32 \<Rightarrow> mem \<Rightarrow> u64" where
  "glyph_pair32 info fg bits src k m =
     (let mask1 = bl_font_lookup_table4 ! unat (bits AND 3)
      in (fg AND mask1) OR
         ((push_bit 32 (ucast (bl_fb_get_pixel_ptr info m src k 0)) OR ucast (bl_fb_get_pixel_ptr info m src (k + 1) 0)) AND NOT mask1))"

definition glyph_row32 :: "bl_video_info \<Rightarrow> bl_video_color_t \<Rightarrow> u8 \<Rightarrow> addr \<Rightarrow> addr \<Rightarrow> mem \<Rightarrow> mem" where
  "glyph_row32 info white g src dst m =
     (let fg = push_bit 32 (ucast white) OR ucast white;
          m1 = st64 m dst (glyph_pair32 info fg (drop_bit 6 g) src 0 m);
          m2 = st64 m1 (dst + 8) (glyph_pair32 info fg (drop_bit 4 g) src 2 m1);
          m3 = st64 m2 (dst + 16) (glyph_pair32 info fg (drop_bit 2 g) src 4 m2)
      in st64 m3 (dst + 24) (glyph_pair32 info fg g src 6 m3))"

definition glyph_row :: "bl_video_info \<Rightarrow> bl_video_color_t \<Rightarrow> u8 \<Rightarrow> addr \<Rightarrow> addr \<Rightarrow> mem \<Rightarrow> mem" where
  "glyph_row info white g src dst m =
     (if vi_bytes_per_pixel info = 2 then glyph_row16 info white g src dst m
      else if vi_bytes_per_pixel info = 3 then glyph_pixels24 info g src dst 8 m
      else if vi_bytes_per_pixel info = 4 then glyph_row32 info white g src dst m
      else m)"

fun glyph_rows :: "bl_video_info \<Rightarrow> bl_video_color_t \<Rightarrow> u8 list \<Rightarrow> addr \<Rightarrow> addr \<Rightarrow> mem \<Rightarrow> mem" where
  "glyph_rows info white [] src dst m = m"
| "glyph_rows info white (g # gs) src dst m =
     glyph_rows info white gs (src + vi_pitch info) (dst + vi_pitch info) (glyph_row info white g src dst m)"

definition bl_fb_blit_glyph :: "u8 \<Rightarrow> addr \<Rightarrow> u32 \<Rightarrow> u32 \<Rightarrow> 'a fb_st_scheme \<Rightarrow> 'a fb_st_scheme" where
  "bl_fb_blit_glyph c blit_bg x y s =
     (if sint c < 0x20 then s
      else let s1 = bl_fb_update_dirty_area x y BL_FONT_CHARACTER_WIDTH BL_FONT_CHARACTER_HEIGHT s;
               info = fb_info s1;
               white = bl_fb_prepare_color info 0xff 0xff 0xff 0xff
           in s1\<lparr>mem := glyph_rows info white (bl_font ! unat c) (blit_bg + pixel_offset info x y)
                  (bl_fb_get_target_ptr s1 + pixel_offset info x y) (mem s1)\<rparr>)"

subsection \<open>Copies and rectangles\<close>

fun copy_rows :: "bl_video_info \<Rightarrow> nat \<Rightarrow> u32 \<Rightarrow> addr \<Rightarrow> addr \<Rightarrow> mem \<Rightarrow> mem" where
  "copy_rows info 0 len src dst m = m"
| "copy_rows info (Suc n) len src dst m =
     copy_rows info n len (src + vi_pitch info) (dst + vi_pitch info) (snd (bl_memcpy m dst src len))"

definition bl_fb_update_from_double_buffer :: "'a fb_st_scheme \<Rightarrow> 'a fb_st_scheme" where
  "bl_fb_update_from_double_buffer s =
     (let info = fb_info s; x = fb_dirty_x s; y = fb_dirty_y s; w = fb_dirty_w s; h = fb_dirty_h s
      in if x = BL_FB_INVALID_POS \<or> y = BL_FB_INVALID_POS \<or> w = BL_FB_INVALID_POS \<or> h = BL_FB_INVALID_POS then s
         else bl_fb_reset_dirty_area (s\<lparr>mem := copy_rows info (unat h) (w * ucast (vi_bytes_per_pixel info))
                (bl_fb_get_target_ptr s + pixel_offset info x y) (vi_frame_buffer info + pixel_offset info x y) (mem s)\<rparr>))"

text \<open>A row of \<open>n\<close> pixels, and rows of them; \<open>pitch\<close> is what is left of a line. The pointer is carried through.\<close>

fun fill_row :: "nat \<Rightarrow> (addr \<Rightarrow> mem \<Rightarrow> mem) \<Rightarrow> u32 \<Rightarrow> addr \<Rightarrow> mem \<Rightarrow> addr \<times> mem" where
  "fill_row 0 put step dst m = (dst, m)"
| "fill_row (Suc n) put step dst m = fill_row n put step (dst + step) (put dst m)"

fun fill_rows :: "nat \<Rightarrow> nat \<Rightarrow> (addr \<Rightarrow> mem \<Rightarrow> mem) \<Rightarrow> u32 \<Rightarrow> u32 \<Rightarrow> addr \<Rightarrow> mem \<Rightarrow> mem" where
  "fill_rows 0 w put step pitch dst m = m"
| "fill_rows (Suc h) w put step pitch dst m =
     (case fill_row w put step dst m of (dst1, m1) \<Rightarrow> fill_rows h w put step pitch (dst1 + pitch) m1)"

definition bl_fb_fill_rectangle_16bits :: "addr \<Rightarrow> bl_video_color_t \<Rightarrow> u32 \<Rightarrow> u32 \<Rightarrow> u32 \<Rightarrow> mem \<Rightarrow> mem" where
  "bl_fb_fill_rectangle_16bits dst color pitch w h m =
     fill_rows (unat h) (unat w) (\<lambda>d m. st16 m d (ucast (color AND 0xffff))) 2 pitch dst m"

definition bl_fb_fill_rectangle_24bits :: "addr \<Rightarrow> bl_video_color_t \<Rightarrow> u32 \<Rightarrow> u32 \<Rightarrow> u32 \<Rightarrow> mem \<Rightarrow> mem" where
  "bl_fb_fill_rectangle_24bits dst color pitch w h m = fill_rows (unat h) (unat w) (put_pixel24 color) 3 pitch dst m"

definition bl_fb_fill_rectangle_32bits :: "addr \<Rightarrow> bl_video_color_t \<Rightarrow> u32 \<Rightarrow> u32 \<Rightarrow> u32 \<Rightarrow> mem \<Rightarrow> mem" where
  "bl_fb_fill_rectangle_32bits dst color pitch w h m = fill_rows (unat h) (unat w) (\<lambda>d m. st32 m d color) 4 pitch dst m"

definition bl_fb_fill_rectangle_ptr :: "bl_video_info \<Rightarrow> addr \<Rightarrow> bl_video_color_t \<Rightarrow> u32 \<Rightarrow> u32 \<Rightarrow> u32 \<Rightarrow> u32 \<Rightarrow> mem \<Rightarrow> mem" where
  "bl_fb_fill_rectangle_ptr info ptr color x y w h m =
     (if ptr = 0 then m
      else let dst = ptr + pixel_offset info x y; pitch = vi_pitch info - ucast (vi_bytes_per_pixel info) * w
           in if vi_bytes_per_pixel info = 2 then bl_fb_fill_rectangle_16bits dst color pitch w h m
              else if vi_bytes_per_pixel info = 3 then bl_fb_fill_rectangle_24bits dst color pitch w h m
              else if vi_bytes_per_pixel info = 4 then bl_fb_fill_rectangle_32bits dst color pitch w h m
              else m)"

definition bl_fb_fill_rectangle :: "bl_video_color_t \<Rightarrow> u32 \<Rightarrow> u32 \<Rightarrow> u32 \<Rightarrow> u32 \<Rightarrow> 'a fb_st_scheme \<Rightarrow> 'a fb_st_scheme" where
  "bl_fb_fill_rectangle color x y w h s =
     (let ptr = bl_fb_get_target_ptr s
      in if ptr = 0 then s
         else let s1 = bl_fb_update_dirty_area x y w h s
              in s1\<lparr>mem := bl_fb_fill_rectangle_ptr (fb_info s1) ptr color x y w h (mem s1)\<rparr>)"

definition bl_fb_get_width :: "'a fb_st_scheme \<Rightarrow> u32" where "bl_fb_get_width s = vi_width (fb_info s)"
definition bl_fb_get_height :: "'a fb_st_scheme \<Rightarrow> u32" where "bl_fb_get_height s = vi_height (fb_info s)"
definition bl_fb_get_bpp :: "'a fb_st_scheme \<Rightarrow> u32" where "bl_fb_get_bpp s = ucast (vi_bytes_per_pixel (fb_info s))"

definition bl_fb_set_render_ptr :: "addr \<Rightarrow> 'a fb_st_scheme \<Rightarrow> 'a fb_st_scheme" where
  "bl_fb_set_render_ptr ptr s = (if ptr \<noteq> 0 then s\<lparr>fb_renderer := ptr\<rparr> else s)"

definition bl_fb_switch_from_renderer :: "'a fb_st_scheme \<Rightarrow> 'a fb_st_scheme" where
  "bl_fb_switch_from_renderer s =
     (if fb_renderer s = 0 then s
      else let ptr = fb_renderer s; s1 = s\<lparr>fb_renderer := 0\<rparr>
           in s1\<lparr>mem := copy_rows (fb_info s1) (unat (bl_fb_get_height s1)) (bl_fb_get_width s1 * ucast (vi_bytes_per_pixel (fb_info s1)))
                  ptr (bl_fb_get_target_ptr s1) (mem s1)\<rparr>)"

subsection \<open>Drivers\<close>

datatype bl_video_t = BL_VIDEO_TYPE_INVALID | BL_VIDEO_TYPE_VBE_GRAPHICS | BL_VIDEO_TYPE_GOP_GRAPHICS

record 's bl_video_driver =
  vd_type :: bl_video_t
  vd_init :: "'s \<Rightarrow> bl_status \<times> 's"
  vd_uninit :: "'s \<Rightarrow> 's"
  vd_set_video :: "'s \<Rightarrow> bl_status \<times> 's"
  vd_get_info :: "bl_video_info \<Rightarrow> 's \<Rightarrow> (bl_status \<times> bl_video_info) \<times> 's"

text \<open>The list of drivers and the chosen one.\<close>

record 's video_st =
  bl_video_drivers_list :: "'s bl_video_driver list"
  video :: "'s bl_video_driver option"

definition bl_fb_init :: "(bl_video_info \<Rightarrow> 'a fb_st_scheme \<Rightarrow> 'a fb_st_scheme) \<Rightarrow> 'a fb_st_scheme bl_video_driver option \<Rightarrow>
    'a fb_st_scheme \<Rightarrow> (bl_status \<times> 'a fb_st_scheme) option" where
  "bl_fb_init mtrr v s =
     (case v of None \<Rightarrow> Some (BL_STATUS_INVALID_PARAMETERS, s)
      | Some d \<Rightarrow> (case vd_get_info d (fb_info s) s of
          ((status, info), s1) \<Rightarrow>
            let s2 = s1\<lparr>fb_info := info\<rparr>
            in if failed status then Some (status, s2)
               else do {
                 let s3 = bl_fb_reset_dirty_area ((mtrr info s2)\<lparr>fb_renderer := 0\<rparr>);
                 (p, s4) \<leftarrow> bl_heap_alloc s3 (bl_fb_get_width s3 * bl_fb_get_height s3 * bl_fb_get_bpp s3);
                 let s5 = s4\<lparr>fb_double_buffer := p\<rparr>;
                 Some (if p = 0 then BL_STATUS_MEMORY_ALLOCATION_FAILED else BL_STATUS_SUCCESS, s5) }))"

definition bl_video_get_width :: "'a fb_st_scheme \<Rightarrow> u32" where "bl_video_get_width s = bl_fb_get_width s"
definition bl_video_get_height :: "'a fb_st_scheme \<Rightarrow> u32" where "bl_video_get_height s = bl_fb_get_height s"
definition bl_video_get_bpp :: "'a fb_st_scheme \<Rightarrow> u32" where "bl_video_get_bpp s = bl_fb_get_bpp s"

definition bl_video_fill_rectangle :: "bl_video_color_t \<Rightarrow> u32 \<Rightarrow> u32 \<Rightarrow> u32 \<Rightarrow> u32 \<Rightarrow> 'a fb_st_scheme \<Rightarrow> 'a fb_st_scheme" where
  "bl_video_fill_rectangle color x y w h s = bl_fb_fill_rectangle color x y w h s"

definition bl_video_update_from_double_buffer :: "'a fb_st_scheme \<Rightarrow> 'a fb_st_scheme" where
  "bl_video_update_from_double_buffer s = bl_fb_update_from_double_buffer s"

text \<open>The types a build supports: VBE for the BIOS, GOP for UEFI.\<close>

definition bl_video_type_supported :: "bl_video_t list \<Rightarrow> bl_video_t \<Rightarrow> bl_status" where
  "bl_video_type_supported vids t = (if t \<in> set vids then BL_STATUS_SUCCESS else BL_STATUS_UNSUPPORTED)"

fun video_probe_loop :: "bl_video_t list \<Rightarrow> 's bl_video_driver list \<Rightarrow> 's \<Rightarrow> 's bl_video_driver option \<times> 's" where
  "video_probe_loop vids [] s = (None, s)"
| "video_probe_loop vids (d # ds) s =
     (if failed (bl_video_type_supported vids (vd_type d)) then video_probe_loop vids ds s
      else case vd_init d s of
        (status, s1) \<Rightarrow> if failed status then video_probe_loop vids ds s1
          else case vd_set_video d s1 of
            (status1, s2) \<Rightarrow> if failed status1 then video_probe_loop vids ds (vd_uninit d s2) else (Some d, s2))"

definition bl_video_driver_probe :: "(bl_video_info \<Rightarrow> 'a fb_st_scheme \<Rightarrow> 'a fb_st_scheme) \<Rightarrow> bl_video_t list \<Rightarrow>
    'a fb_st_scheme video_st \<Rightarrow> 'a fb_st_scheme \<Rightarrow> (bl_status \<times> 'a fb_st_scheme video_st \<times> 'a fb_st_scheme) option" where
  "bl_video_driver_probe mtrr vids v s =
     (case video_probe_loop vids (bl_video_drivers_list v) s of
        (found, s1) \<Rightarrow>
          let v1 = (case found of None \<Rightarrow> v | Some d \<Rightarrow> v\<lparr>video := Some d\<rparr>)
          in (case video v1 of None \<Rightarrow> Some (BL_STATUS_GRAPHICS_NO_PROTOCOLS, v1, s1)
              | Some d \<Rightarrow> map_option (\<lambda>(status, s2). (status, v1, s2)) (bl_fb_init mtrr (Some d) s1)))"

definition bl_video_driver_register :: "'s bl_video_driver option \<Rightarrow> 's video_st \<Rightarrow> 's video_st" where
  "bl_video_driver_register d v = (case d of None \<Rightarrow> v | Some d' \<Rightarrow> v\<lparr>bl_video_drivers_list := d' # bl_video_drivers_list v\<rparr>)"

definition bl_video_driver_unregister :: "'s bl_video_driver option \<Rightarrow> 's video_st \<Rightarrow> 's video_st" where
  "bl_video_driver_unregister d v = v"

interpretation video_drivers: registry bl_video_drivers_list "\<lambda>d. bl_video_driver_register (Some d)"
  by unfold_locales (simp add: bl_video_driver_register_def)

end
