(* ===== verification/Bl_Pixels.thy ===== *)
theory Bl_Pixels
  imports Bl_Video
begin

text \<open>
  Properties of src/boot-loader/core/video/fb.c: what the drawing operations write, how the dirty area grows, and
  that an update makes the frame buffer show what was drawn into the double buffer.
\<close>

unbundle bit_operations_syntax

subsection \<open>Rows of bytes\<close>

text \<open>Rows written at a fixed distance.\<close>

fun put_rows :: "u32 \<Rightarrow> addr \<Rightarrow> u8 list list \<Rightarrow> mem \<Rightarrow> mem" where
  "put_rows p dst [] m = m"
| "put_rows p dst (l # ls) m = put_rows p (dst + p) ls (mem_put m dst l)"

lemma put_rows_at:
  assumes "0 < unat p" "\<forall>l \<in> set ls. length l \<le> unat p" "unat p * length ls \<le> 2 ^ 32"
  shows "put_rows p dst ls m a =
    (let o' = unat (a - dst) in if o' div unat p < length ls \<and> o' mod unat p < length (ls ! (o' div unat p))
     then ls ! (o' div unat p) ! (o' mod unat p) else m a)"
  using assms(2,3)
proof (induction ls arbitrary: dst m)
  case (Cons l ls)
  let ?o = "unat (a - dst)"
  have IH: "put_rows p (dst + p) ls (mem_put m dst l) a =
    (let o' = unat (a - (dst + p)) in if o' div unat p < length ls \<and> o' mod unat p < length (ls ! (o' div unat p))
     then ls ! (o' div unat p) ! (o' mod unat p) else mem_put m dst l a)"
    using Cons.prems by (intro Cons.IH) auto
  have w: "unat (a - (dst + p)) = (if unat p \<le> ?o then ?o - unat p else ?o + 2 ^ 32 - unat p)"
    using unat_diff_wrap [of "a - dst" p] by (simp add: diff_diff_eq)
  have l: "length l \<le> unat p" using Cons.prems by simp
  show ?case
  proof (cases "unat p \<le> ?o")
    case True
    then have d: "(?o - unat p) div unat p = ?o div unat p - 1" "(?o - unat p) mod unat p = ?o mod unat p" "0 < ?o div unat p"
      using assms(1) by (simp_all add: le_div_geq le_mod_geq)
    have "mem_put m dst l a = m a" using True l by (intro mem_put_out) simp
    then show ?thesis using True d by (cases "?o div unat p") (auto simp: IH w Let_def)
  next
    case False
    have "length ls \<le> (?o + 2 ^ 32 - unat p) div unat p"
    proof -
      have "unat p * length ls \<le> ?o + 2 ^ 32 - unat p" using Cons.prems(2) by simp
      then show ?thesis using assms(1) by (metis div_le_mono nonzero_mult_div_cancel_left not_less0)
    qed
    then show ?thesis using False by (simp add: IH w Let_def) (simp add: mem_put_def)
  qed
qed (simp add: Let_def)

lemma no_hit:
  fixes p h X L a :: nat
  assumes "p * h \<le> a + X" "X + L \<le> p" "0 < p"
  shows "\<not> (a div p < h \<and> a mod p < L)"
proof
  assume h: "a div p < h \<and> a mod p < L"
  then have "p * (a div p + 1) \<le> p * h" by (intro mult_le_mono2) simp
  moreover have "a = p * (a div p) + a mod p" by simp
  ultimately have "p \<le> a mod p + X" using assms(1) by (simp only: distrib_left mult_1_right)
  then show False using h assms(2) by simp
qed

text \<open>
  Whether a byte at column \<open>c\<close> and line \<open>j\<close> of a buffer lies in the rectangle of bytes at \<open>X\<close>, \<open>y\<close> with
  size \<open>L\<close>, \<open>h\<close>, seen from the rectangle's first byte.
\<close>

lemma rect_hit:
  fixes p X y L h c j :: nat
  assumes "0 < p" "X + L \<le> p" "c < p" "y + h \<le> H" "j < H" "p * H \<le> 2 ^ 32" "a - dst = (of_nat (p * j + c) - of_nat (p * y + X) :: u32)"
  shows "unat (a - dst) div p < h \<and> unat (a - dst) mod p < L \<longleftrightarrow> y \<le> j \<and> j < y + h \<and> X \<le> c \<and> c < X + L"
    and "y \<le> j \<and> j < y + h \<and> X \<le> c \<and> c < X + L \<Longrightarrow> unat (a - dst) div p = j - y \<and> unat (a - dst) mod p = c - X"
proof -
  let ?o = "unat (a - dst)"
  have pj: "p * j + c < p * H"
  proof -
    have "p * (j + 1) \<le> p * H" using assms(5) by (intro mult_le_mono2) simp
    then show ?thesis using assms(3) by simp
  qed
  have hit: "?o div p = j - y \<and> ?o mod p = c - X" if yj: "y \<le> j" and Xc: "X \<le> c"
  proof -
    obtain d where d: "j = y + d" using yj by (auto simp: le_iff_add)
    obtain e where e: "c = X + e" using Xc by (auto simp: le_iff_add)
    have "of_nat (p * j + c) - of_nat (p * y + X) = (of_nat (p * d + e) :: u32)"
      unfolding d e by (simp add: algebra_simps)
    moreover have "p * d + e < 2 ^ 32" using pj assms(6) unfolding d e by (simp add: distrib_left)
    then have "unat (of_nat (p * d + e) :: u32) = p * d + e" by (intro unat_of_nat_eq) simp
    ultimately have "?o = p * d + e" unfolding assms(7) by (simp only:)
    moreover have "e < p" using assms(3) e by simp
    ultimately show ?thesis using d e assms(1) by simp
  qed
  show "y \<le> j \<and> j < y + h \<and> X \<le> c \<and> c < X + L \<Longrightarrow> ?o div p = j - y \<and> ?o mod p = c - X" using hit by blast
  show "?o div p < h \<and> ?o mod p < L \<longleftrightarrow> y \<le> j \<and> j < y + h \<and> X \<le> c \<and> c < X + L"
  proof (cases "y \<le> j \<and> X \<le> c")
    case True
    then show ?thesis using hit by auto
  next
    case False
    have "\<not> (?o div p < h \<and> ?o mod p < L)" if "0 < h"
    proof -
      have "p * y + p * h \<le> p * H" using mult_le_mono2 [OF assms(4), of p] by (simp add: distrib_left)
      moreover have "p \<le> p * h" using that by simp
      ultimately have yX: "p * y + X \<le> 2 ^ 32" "p * h \<le> 2 ^ 32 - (p * y + X) + X" using assms(2,6) by linarith+
      have "unat (of_nat (p * j + c) :: u32) = p * j + c" using pj assms(6) by (intro unat_of_nat_eq) simp
      moreover have "unat (of_nat (p * y + X) :: u32) = p * y + X" if "p * y + X < 2 ^ 32" using that by (intro unat_of_nat_eq) simp
      moreover have "p * j + c < 2 ^ 32" using pj assms(6) by simp
      ultimately have o: "?o = (if p * y + X \<le> p * j + c then p * j + c - (p * y + X) else p * j + c + 2 ^ 32 - (p * y + X))"
        using unat_diff_wrap [of "of_nat (p * j + c) :: u32" "of_nat (p * y + X)"] assms(7) yX(1)
        by (cases "p * y + X = 2 ^ 32") (simp_all del: of_nat_add of_nat_mult)
      show ?thesis
      proof (cases "p * y + X \<le> p * j + c")
        case True
        have "y < j"
        proof (rule ccontr)
          assume "\<not> y < j"
          then have "y = j \<or> j + 1 \<le> y" by auto
          then show False
          proof
            assume "j + 1 \<le> y"
            then have "p * (j + 1) \<le> p * y" by (rule mult_le_mono2)
            then show False using True assms(3) by simp
          qed (use True False in simp)
        qed
        from this obtain d where d: "j = Suc (y + d)" by (auto simp: less_iff_Suc_add)
        have cX: "c < X" using False \<open>y < j\<close> by simp
        have "?o = p * d + (p + c - X)" using o True cX assms(2) unfolding d by (simp add: distrib_left)
        moreover have "p + c - X < p" using cX assms(1) by simp
        ultimately have "?o mod p = p + c - X" by simp
        then show ?thesis using assms(2) by linarith
      next
        case F: False
        then have "p * h \<le> ?o + X" using o yX(2) by simp
        then show ?thesis using no_hit assms(1,2) by blast
      qed
    qed
    then show ?thesis using False by auto
  qed
qed

lemma put_rows_rect:
  assumes "0 < unat p" "X + L \<le> unat p" "\<forall>l \<in> set ls. length l = L" "y + length ls \<le> H" "unat p * H \<le> 2 ^ 32" "c < unat p" "j < H"
  shows "put_rows p (base + of_nat (unat p * y + X)) ls m (base + of_nat (unat p * j + c)) =
    (if y \<le> j \<and> j < y + length ls \<and> X \<le> c \<and> c < X + L then ls ! (j - y) ! (c - X) else m (base + of_nat (unat p * j + c)))"
proof -
  let ?a = "base + of_nat (unat p * j + c)" and ?d = "base + of_nat (unat p * y + X)"
  have e: "?a - ?d = of_nat (unat p * j + c) - of_nat (unat p * y + X)" by simp
  note hit = rect_hit [OF assms(1,2,6,4,7,5) e]
  have "unat p * length ls \<le> unat p * H" by (rule mult_le_mono2) (use assms(4) in simp)
  then have "unat p * length ls \<le> 2 ^ 32" using assms(5) by (rule le_trans)
  then have at: "put_rows p ?d ls m ?a = (let o' = unat (?a - ?d) in if o' div unat p < length ls \<and> o' mod unat p < length (ls ! (o' div unat p))
     then ls ! (o' div unat p) ! (o' mod unat p) else m ?a)"
    using assms(1-3) by (intro put_rows_at) auto
  have "(unat (?a - ?d) div unat p < length ls \<and> unat (?a - ?d) mod unat p < length (ls ! (unat (?a - ?d) div unat p))) =
      (unat (?a - ?d) div unat p < length ls \<and> unat (?a - ?d) mod unat p < L)" using assms(3) by auto
  then show ?thesis unfolding at Let_def using hit by (simp del: of_nat_add of_nat_mult)
qed

lemma put_rows_other:
  assumes "0 < unat p" "X + L \<le> unat p" "\<forall>l \<in> set ls. length l = L" "y + length ls \<le> H" "fits base (unat p * H)" "fits b (unat p * H)"
    "apart base (unat p * H) b (unat p * H)" "q < unat p * H"
  shows "put_rows p (base + of_nat (unat p * y + X)) ls m (b + of_nat q) = m (b + of_nat q)"
proof (cases "ls = []")
  case False
  let ?a = "b + of_nat q" and ?d = "base + of_nat (unat p * y + X)" and ?h = "length ls"
  have yh: "unat p * y + unat p * ?h \<le> unat p * H" using mult_le_mono2 [OF assms(4), of "unat p"] by (simp add: distrib_left)
  have "unat p \<le> unat p * ?h" using False by (simp add: Suc_le_eq)
  then have yX: "unat p * y + X \<le> unat p * H" using yh assms(2) by linarith
  have a: "unat ?a = unat b + q" using assms(6,8) by (intro unat_add_lt) (simp add: fits_def)
  have "unat p * ?h \<le> unat (?a - ?d) + X"
  proof (cases "unat base + (unat p * y + X) < 2 ^ 32")
    case True
    then have d: "unat ?d = unat base + (unat p * y + X)" by (intro unat_add_lt) simp
    show ?thesis using assms(5-8) yh yX unfolding unat_diff_wrap a d by (auto simp: fits_def apart_def)
  next
    case F: False
    then have "unat base + (unat p * y + X) = 2 ^ 32" using assms(5) yX by (simp add: fits_def)
    moreover have "?d = of_nat (unat base + (unat p * y + X))" by simp
    ultimately have "?d = 0" by (simp del: of_nat_add of_nat_mult)
    then show ?thesis using assms(5-8) yh yX F a by (auto simp: fits_def apart_def)
  qed
  note no = no_hit [OF this assms(2,1)]
  have "unat p * length ls \<le> 2 ^ 32" using yh assms(5) by (simp add: fits_def)
  then have at: "put_rows p ?d ls m ?a = (let o' = unat (?a - ?d) in if o' div unat p < length ls \<and> o' mod unat p < length (ls ! (o' div unat p))
     then ls ! (o' div unat p) ! (o' mod unat p) else m ?a)"
    using assms(1-3) by (intro put_rows_at) auto
  then show ?thesis unfolding at Let_def using no assms(3) by auto
qed simp


subsection \<open>What the drawing operations write\<close>

lemma mem_put_append:
  assumes "length bs + length cs \<le> 2 ^ 32"
  shows "mem_put (mem_put m d bs) (d + of_nat (length bs)) cs = mem_put m d (bs @ cs)"
proof
  fix x :: addr
  let ?o = "unat (x - d)"
  have w: "unat (x - (d + of_nat (length bs))) = (if length bs \<le> ?o then ?o - length bs else ?o + 2 ^ 32 - length bs)" if "length bs < 2 ^ 32"
    using unat_diff_wrap [of "x - d" "of_nat (length bs)"] that by (simp add: diff_diff_eq unat_of_nat_eq)
  show "mem_put (mem_put m d bs) (d + of_nat (length bs)) cs x = mem_put m d (bs @ cs) x"
  proof (cases "length bs < 2 ^ 32")
    case True
    then show ?thesis using assms unfolding mem_put_def w [OF True] by (auto simp: nth_append)
  next
    case False
    then have "length cs = 0" using assms by linarith
    then show ?thesis by simp
  qed
qed

lemma fill_row_put:
  assumes "n * length bs \<le> 2 ^ 32"
  shows "fill_row n (\<lambda>d m. mem_put m d bs) (of_nat (length bs)) dst m =
    (dst + of_nat (n * length bs), mem_put m dst (concat (replicate n bs)))"
  using assms
proof (induction n arbitrary: dst m)
  case (Suc n)
  have l: "length (concat (replicate n bs)) = n * length bs" by (simp add: length_concat sum_list_replicate)
  have "mem_put (mem_put m dst bs) (dst + of_nat (length bs)) (concat (replicate n bs)) = mem_put m dst (bs @ concat (replicate n bs))"
    using Suc.prems l by (intro mem_put_append) simp
  then show ?case using Suc by (simp add: algebra_simps)
qed simp

lemma fill_rows_put:
  assumes "w * length bs \<le> 2 ^ 32" "pitch = p - of_nat (w * length bs)"
  shows "fill_rows h w (\<lambda>d m. mem_put m d bs) (of_nat (length bs)) pitch dst m =
    put_rows p dst (replicate h (concat (replicate w bs))) m"
proof (induction h arbitrary: dst m)
  case (Suc h)
  have "dst + of_nat (w * length bs) + pitch = dst + p" for dst using assms(2) by simp
  then show ?case unfolding fill_rows.simps fill_row_put [OF assms(1)] prod.case Suc.IH by (simp only: replicate.simps put_rows.simps)
qed simp

lemma put_pixel24_put: "put_pixel24 color d m = mem_put m d [ucast (color AND 0xff), ucast (drop_bit 8 color AND 0xff), ucast (drop_bit 16 color AND 0xff)]"
  by (simp add: put_pixel24_def mem_put_upd add.assoc)

lemma ucast_low: "(ucast (w AND 0xff :: u32) :: u8) = ucast w"
  unfolding byte_mask by (rule bit_word_eqI) (auto simp: bit_simps)

lemma low24_bytes: "to_le 3 (unat color) = [ucast (color AND 0xff), ucast (drop_bit 8 color AND 0xff), ucast (drop_bit 16 color AND 0xff :: u32)]"
proof (rule nth_equalityI)
  fix i assume "i < length (to_le 3 (unat color))"
  then have i: "i < 3" by simp
  then have "i = 0 \<or> i = 1 \<or> i = 2" by auto
  then show "to_le 3 (unat color) ! i = [ucast (color AND 0xff), ucast (drop_bit 8 color AND 0xff), ucast (drop_bit 16 color AND 0xff)] ! i"
    unfolding nth_to_le_word [OF i] ucast_low by auto
qed simp

lemma low16_bytes: "to_le 2 (unat (ucast (color AND 0xffff :: u32) :: u16)) = to_le 2 (unat color)"
proof (rule nth_equalityI)
  fix i assume "i < length (to_le 2 (unat (ucast (color AND 0xffff) :: u16)))"
  then have i: "i < 2" by simp
  have m: "(0xffff :: u32) = mask 16" by (simp add: mask_eq_exp_minus_1)
  have "(ucast (drop_bit (8 * i) (ucast (color AND mask 16) :: u16)) :: u8) = ucast (drop_bit (8 * i) color)"
    using i by (intro bit_word_eqI) (auto simp: bit_simps)
  then show "to_le 2 (unat (ucast (color AND 0xffff) :: u16)) ! i = to_le 2 (unat color) ! i"
    unfolding nth_to_le_word [OF i] m .
qed simp

text \<open>The bytes of a pixel.\<close>

definition color_bytes :: "bl_video_info \<Rightarrow> bl_video_color_t \<Rightarrow> u8 list" where
  "color_bytes info color = to_le (unat (vi_bytes_per_pixel info)) (unat color)"

lemma fill_rectangle_ptr_put:
  assumes "vi_bytes_per_pixel info \<in> {2, 3, 4}" "ptr \<noteq> 0" "unat w * unat (vi_bytes_per_pixel info) \<le> 2 ^ 32"
  shows "bl_fb_fill_rectangle_ptr info ptr color x y w h m =
    put_rows (vi_pitch info) (ptr + pixel_offset info x y) (replicate (unat h) (concat (replicate (unat w) (color_bytes info color)))) m"
proof -
  let ?b = "color_bytes info color" and ?bpp = "vi_bytes_per_pixel info"
  have l: "length ?b = unat ?bpp" by (simp add: color_bytes_def)
  have s: "ucast ?bpp = (of_nat (length ?b) :: u32)" using l by simp
  have p: "vi_pitch info - ucast ?bpp * w = vi_pitch info - of_nat (unat w * length ?b)" using l by (simp add: mult.commute)
  note f = fill_rows_put [OF assms(3) [folded l] refl, where p = "vi_pitch info"]
  have b2: "?bpp = 2 \<Longrightarrow> st16 m d (ucast (color AND 0xffff)) = mem_put m d ?b" for m d
    by (simp add: color_bytes_def st16_def low16_bytes)
  have b3: "?bpp = 3 \<Longrightarrow> put_pixel24 color = (\<lambda>d m. mem_put m d ?b)"
    by (rule ext)+ (simp add: color_bytes_def put_pixel24_put low24_bytes)
  have b4: "?bpp = 4 \<Longrightarrow> st32 m d color = mem_put m d ?b" for m d
    by (simp add: color_bytes_def st32_def)
  show ?thesis
    using assms(1,2) unfolding bl_fb_fill_rectangle_ptr_def Let_def bl_fb_fill_rectangle_16bits_def bl_fb_fill_rectangle_24bits_def
      bl_fb_fill_rectangle_32bits_def p
    by (auto simp: b2 b3 b4 f [symmetric] s [symmetric] simp del: of_nat_mult)
qed

lemma glyph_pixels24_put:
  "j \<le> 8 \<Longrightarrow> \<exists>bs. length bs = 3 * j \<and> glyph_pixels24 info g src dst j m = mem_put m (dst + of_nat (8 - j) * 3) bs"
proof (induction j arbitrary: m)
  case (Suc j)
  let ?p = "dst + of_nat (7 - j) * 3 :: addr"
  have "\<exists>b. length b = 3 \<and> (if bit g j then m(?p := 0xff, ?p + 1 := 0xff, ?p + 2 := 0xff)
      else put_pixel24 (bl_fb_get_pixel_ptr info m src 0 0) ?p m) = mem_put m ?p b"
  proof (cases "bit g j")
    case True
    then show ?thesis by (intro exI [of _ "[0xff, 0xff, 0xff]"]) (simp add: mem_put_upd add.assoc)
  next
    case False
    then show ?thesis unfolding put_pixel24_put by (intro exI conjI) auto
  qed
  then obtain b where b: "length b = 3" "(if bit g j then m(?p := 0xff, ?p + 1 := 0xff, ?p + 2 := 0xff)
      else put_pixel24 (bl_fb_get_pixel_ptr info m src 0 0) ?p m) = mem_put m ?p b" by blast
  obtain bs where bs: "length bs = 3 * j" "glyph_pixels24 info g src dst j (mem_put m ?p b) = mem_put (mem_put m ?p b) (dst + of_nat (8 - j) * 3) bs"
    using Suc by auto
  have "8 - j = Suc (7 - j)" using Suc.prems by simp
  then have "dst + of_nat (8 - j) * 3 = ?p + of_nat (length b)" using b(1) by (simp add: distrib_right)
  moreover have "mem_put (mem_put m ?p b) (?p + of_nat (length b)) bs = mem_put m ?p (b @ bs)"
    using b(1) bs(1) Suc.prems by (intro mem_put_append) simp
  ultimately have "glyph_pixels24 info g src dst (Suc j) m = mem_put m ?p (b @ bs)"
    unfolding glyph_pixels24.simps Let_def b(2) bs(2) by (simp only:)
  moreover have "8 - Suc j = 7 - j" by simp
  ultimately show ?case using b(1) bs(1) by (intro exI [of _ "b @ bs"]) simp
qed simp

lemma st64_twice: "st64 (st64 m d v) (d + 8) w = mem_put m d (to_le 8 (unat v) @ to_le 8 (unat w))"
  using mem_put_append [of "to_le 8 (unat v)" "to_le 8 (unat w)" m d] by (simp add: st64_def)

lemma glyph_row_put:
  assumes "vi_bytes_per_pixel info \<in> {2, 3, 4}"
  shows "\<exists>bs. length bs = 8 * unat (vi_bytes_per_pixel info) \<and> glyph_row info white g src dst m = mem_put m dst bs"
proof -
  have 3: "\<exists>bs. length bs = 24 \<and> glyph_pixels24 info g src dst 8 m = mem_put m dst bs" using glyph_pixels24_put [of 8] by simp
  have 4: "\<exists>bs. length bs = 32 \<and> st64 (st64 (st64 (st64 m dst a) (dst + 8) b) (dst + 16) c) (dst + 24) d = mem_put m dst bs" for a b c d
  proof -
    have "dst + 24 = dst + 16 + 8" "dst + 16 = dst + of_nat 16" by simp_all
    then have "st64 (st64 (st64 (st64 m dst a) (dst + 8) b) (dst + 16) c) (dst + 24) d =
        mem_put (mem_put m dst (to_le 8 (unat a) @ to_le 8 (unat b))) (dst + of_nat 16) (to_le 8 (unat c) @ to_le 8 (unat d))"
      by (simp only: st64_twice)
    then show ?thesis using mem_put_append [of "to_le 8 (unat a) @ to_le 8 (unat b)" "to_le 8 (unat c) @ to_le 8 (unat d)" m dst]
      by (intro exI [of _ "(to_le 8 (unat a) @ to_le 8 (unat b)) @ to_le 8 (unat c) @ to_le 8 (unat d)"]) simp
  qed
  have 2: "\<exists>bs. length bs = 16 \<and> st64 (st64 m dst a) (dst + 8) b = mem_put m dst bs" for a b
    unfolding st64_twice by (intro exI [of _ "to_le 8 (unat a) @ to_le 8 (unat b)"]) simp
  show ?thesis
    using assms 2 3 4 by (auto simp: glyph_row_def glyph_row16_def glyph_row32_def Let_def)
qed

lemma glyph_rows_put:
  assumes "vi_bytes_per_pixel info \<in> {2, 3, 4}"
  shows "\<exists>ls. length ls = length gs \<and> (\<forall>l \<in> set ls. length l = 8 * unat (vi_bytes_per_pixel info)) \<and>
    glyph_rows info white gs src dst m = put_rows (vi_pitch info) dst ls m"
proof (induction gs arbitrary: src dst m)
  case (Cons g gs)
  obtain bs where bs: "length bs = 8 * unat (vi_bytes_per_pixel info)" "glyph_row info white g src dst m = mem_put m dst bs"
    using glyph_row_put [OF assms] by blast
  obtain ls where "length ls = length gs" "\<forall>l \<in> set ls. length l = 8 * unat (vi_bytes_per_pixel info)"
      "glyph_rows info white gs (src + vi_pitch info) (dst + vi_pitch info) (mem_put m dst bs) = put_rows (vi_pitch info) (dst + vi_pitch info) ls (mem_put m dst bs)"
    using Cons.IH by blast
  then show ?case using bs by (intro exI [of _ "bs # ls"]) simp
qed simp

subsection \<open>The screen\<close>

text \<open>
  A buffer holds lines of \<open>pitch\<close> bytes. \<open>fb_geometry\<close>: the pixels of a line fit it, and both buffers lie
  apart and inside the address space.
\<close>

abbreviation bpp :: "bl_video_info \<Rightarrow> nat" where "bpp info \<equiv> unat (vi_bytes_per_pixel info)"
abbreviation pitch :: "bl_video_info \<Rightarrow> nat" where "pitch info \<equiv> unat (vi_pitch info)"
abbreviation width :: "bl_video_info \<Rightarrow> nat" where "width info \<equiv> unat (vi_width info)"
abbreviation height :: "bl_video_info \<Rightarrow> nat" where "height info \<equiv> unat (vi_height info)"

definition buffer_ok :: "bl_video_info \<Rightarrow> addr \<Rightarrow> bool" where
  "buffer_ok info b \<longleftrightarrow> b \<noteq> 0 \<and> fits b (pitch info * height info)"

definition fb_geometry :: "'a fb_st_scheme \<Rightarrow> bool" where
  "fb_geometry s \<longleftrightarrow> (let i = fb_info s in
     vi_bytes_per_pixel i \<in> {2, 3, 4} \<and> bpp i * width i \<le> pitch i \<and> 0 < width i \<and> fb_renderer s = 0 \<and>
     vi_width i \<noteq> BL_FB_INVALID_POS \<and> vi_height i \<noteq> BL_FB_INVALID_POS \<and>
     buffer_ok i (vi_frame_buffer i) \<and> buffer_ok i (fb_double_buffer s) \<and>
     apart (fb_double_buffer s) (pitch i * height i) (vi_frame_buffer i) (pitch i * height i))"

definition in_screen :: "bl_video_info \<Rightarrow> u32 \<Rightarrow> u32 \<Rightarrow> u32 \<Rightarrow> u32 \<Rightarrow> bool" where
  "in_screen i x y w h \<longleftrightarrow> unat x + unat w \<le> width i \<and> unat y + unat h \<le> height i"

lemma pixel_offset_nat: "pixel_offset i x y = of_nat (pitch i * unat y + bpp i * unat x)"
  by (simp add: pixel_offset_def mult.commute)

text \<open>The pixels of a rectangle, and the bytes of a pixel in a buffer.\<close>

definition rect :: "u32 \<Rightarrow> u32 \<Rightarrow> u32 \<Rightarrow> u32 \<Rightarrow> (nat \<times> nat) set" where
  "rect x y w h = {unat x..<unat x + unat w} \<times> {unat y..<unat y + unat h}"

definition pixel_bytes :: "bl_video_info \<Rightarrow> mem \<Rightarrow> addr \<Rightarrow> nat \<times> nat \<Rightarrow> u8 list" where
  "pixel_bytes i m b q = mem_get m (b + of_nat (pitch i * snd q + bpp i * fst q)) (bpp i)"

text \<open>Rows written into a rectangle of a buffer.\<close>

lemma rect_column:
  assumes "k < (b :: nat)" shows "b * x \<le> b * c + k \<and> b * c + k < b * x + b * w \<longleftrightarrow> x \<le> c \<and> c < x + w"
proof -
  have "b * c + k < b * d \<longleftrightarrow> c < d" for d
  proof
    show "b * c + k < b * d" if "c < d"
    proof -
      have "b * Suc c \<le> b * d" using that by (intro mult_le_mono2) simp
      then show ?thesis using assms by simp
    qed
    show "c < d" if "b * c + k < b * d"
    proof (rule ccontr)
      assume "\<not> c < d"
      then have "b * d \<le> b * c" by (intro mult_le_mono2) simp
      then show False using that by linarith
    qed
  qed
  then show ?thesis by (metis distrib_left linorder_not_less)
qed

lemma put_rows_pixels:
  assumes "0 < pitch i" "0 < bpp i" "bpp i * width i \<le> pitch i" "fits b (pitch i * height i)" "in_screen i x y w h"
    "length ls = unat h" "\<forall>l \<in> set ls. length l = bpp i * unat w" "c < width i" "j < height i"
  shows "pixel_bytes i (put_rows (vi_pitch i) (b + pixel_offset i x y) ls m) b (c, j) =
    (if (c, j) \<in> rect x y w h then take (bpp i) (drop (bpp i * (c - unat x)) (ls ! (j - unat y))) else pixel_bytes i m b (c, j))"
proof (rule nth_equalityI)
  show "length (pixel_bytes i (put_rows (vi_pitch i) (b + pixel_offset i x y) ls m) b (c, j)) =
    length (if (c, j) \<in> rect x y w h then take (bpp i) (drop (bpp i * (c - unat x)) (ls ! (j - unat y))) else pixel_bytes i m b (c, j))"
  proof (cases "(c, j) \<in> rect x y w h")
    case True
    then obtain e where "length (ls ! (j - unat y)) = bpp i * unat w" "c = unat x + e" "e < unat w"
      using assms(6,7) by (auto simp: rect_def le_iff_add)
    moreover then have "bpp i * Suc e \<le> bpp i * unat w" by (intro mult_le_mono2) simp
    ultimately show ?thesis using True by (simp add: pixel_bytes_def)
  qed (simp add: pixel_bytes_def)
next
  fix k assume "k < length (pixel_bytes i (put_rows (vi_pitch i) (b + pixel_offset i x y) ls m) b (c, j))"
  then have k: "k < bpp i" by (simp add: pixel_bytes_def)
  let ?c = "bpp i * c + k"
  have "bpp i * Suc c \<le> bpp i * width i" using assms(8) by (intro mult_le_mono2) simp
  then have cp: "?c < pitch i" using k assms(3) by simp
  have "bpp i * (unat x + unat w) \<le> bpp i * width i" using assms(5) by (intro mult_le_mono2) (simp add: in_screen_def)
  then have xw: "bpp i * unat x + bpp i * unat w \<le> pitch i" using assms(3) by (simp add: distrib_left)
  have yh: "unat y + length ls \<le> height i" using assms(5,6) by (simp add: in_screen_def)
  have sz: "pitch i * height i \<le> 2 ^ 32" using assms(4) by (simp add: fits_def)
  have a: "b + of_nat (pitch i * j + bpp i * c) + of_nat k = b + of_nat (pitch i * j + ?c)" by (simp add: add.assoc)
  have "put_rows (vi_pitch i) (b + of_nat (pitch i * unat y + bpp i * unat x)) ls m (b + of_nat (pitch i * j + ?c)) =
    (if unat y \<le> j \<and> j < unat y + length ls \<and> bpp i * unat x \<le> ?c \<and> ?c < bpp i * unat x + bpp i * unat w
     then ls ! (j - unat y) ! (?c - bpp i * unat x) else m (b + of_nat (pitch i * j + ?c)))"
    by (rule put_rows_rect [OF assms(1) xw assms(7) yh sz cp assms(9)])
  moreover have "(unat y \<le> j \<and> j < unat y + length ls \<and> bpp i * unat x \<le> ?c \<and> ?c < bpp i * unat x + bpp i * unat w) \<longleftrightarrow> (c, j) \<in> rect x y w h"
    using rect_column [OF k, of "unat x" c "unat w"] assms(6) by (auto simp: rect_def)
  moreover have "ls ! (j - unat y) ! (?c - bpp i * unat x) = take (bpp i) (drop (bpp i * (c - unat x)) (ls ! (j - unat y))) ! k" if r: "(c, j) \<in> rect x y w h"
  proof -
    from r obtain e where e: "length (ls ! (j - unat y)) = bpp i * unat w" "c = unat x + e" "e < unat w"
      using assms(6,7) by (auto simp: rect_def le_iff_add)
    have "bpp i * Suc e \<le> bpp i * unat w" using e(3) by (intro mult_le_mono2) simp
    then show ?thesis using e k by (simp add: distrib_left)
  qed
  ultimately show "pixel_bytes i (put_rows (vi_pitch i) (b + pixel_offset i x y) ls m) b (c, j) ! k =
    (if (c, j) \<in> rect x y w h then take (bpp i) (drop (bpp i * (c - unat x)) (ls ! (j - unat y))) else pixel_bytes i m b (c, j)) ! k"
    using k unfolding pixel_bytes_def pixel_offset_nat fst_conv snd_conv nth_mem_get [OF k] a if_distrib [of "\<lambda>l. l ! k"] by (simp del: of_nat_add of_nat_mult)
qed

lemma put_rows_other_pixels:
  assumes "0 < pitch i" "bpp i * width i \<le> pitch i" "fits b (pitch i * height i)" "fits d (pitch i * height i)"
    "apart b (pitch i * height i) d (pitch i * height i)" "in_screen i x y w h"
    "length ls = unat h" "\<forall>l \<in> set ls. length l = bpp i * unat w"
  shows "mem_get (put_rows (vi_pitch i) (b + pixel_offset i x y) ls m) d (pitch i * height i) = mem_get m d (pitch i * height i)"
proof (rule mem_get_eqI)
  fix q assume q: "q < pitch i * height i"
  have "bpp i * (unat x + unat w) \<le> bpp i * width i" using assms(6) by (intro mult_le_mono2) (simp add: in_screen_def)
  then have xw: "bpp i * unat x + bpp i * unat w \<le> pitch i" using assms(2) by (simp add: distrib_left)
  have yh: "unat y + length ls \<le> height i" using assms(6,7) by (simp add: in_screen_def)
  show "put_rows (vi_pitch i) (b + pixel_offset i x y) ls m (d + of_nat q) = m (d + of_nat q)"
    unfolding pixel_offset_nat by (rule put_rows_other [OF assms(1) xw assms(8) yh assms(3,4,5) q])
qed

lemma buffer_at:
  assumes "buffer_ok i d" "o' < pitch i * height i"
  shows "unat (d + of_nat o') = unat d + o'" "d + of_nat o' \<noteq> 0"
proof -
  show 1: "unat (d + of_nat o') = unat d + o'" using assms by (intro unat_add_lt) (simp add: buffer_ok_def fits_def)
  have "0 < unat d" using assms(1) by (simp add: buffer_ok_def unat_gt_0)
  then show "d + of_nat o' \<noteq> 0" using 1 by (metis add_gr_0 neq0_conv unsigned_0)
qed

lemma row_in_buffer:
  fixes p :: nat
  assumes "j < H" "X + L \<le> p" shows "p * j + X + L \<le> p * H"
proof -
  have "p * Suc j \<le> p * H" using assms(1) by (intro mult_le_mono2) simp
  then show ?thesis using assms(2) by simp
qed

text \<open>Copying lines of one buffer to another one.\<close>

lemma copy_rows_put:
  assumes "0 < pitch i" "buffer_ok i a" "buffer_ok i d" "apart d (pitch i * height i) a (pitch i * height i)"
    "X + unat len \<le> pitch i" "y + n \<le> height i" "0 < len"
  shows "copy_rows i n len (a + of_nat (pitch i * y + X)) (d + of_nat (pitch i * y + X)) m =
    put_rows (vi_pitch i) (d + of_nat (pitch i * y + X)) (map (\<lambda>j. mem_get m (a + of_nat (pitch i * (y + j) + X)) (unat len)) [0..<n]) m"
  using assms(6)
proof (induction n arbitrary: y m)
  case (Suc n)
  let ?p = "pitch i" and ?o = "pitch i * y + X"
  let ?m = "mem_put m (d + of_nat ?o) (mem_get m (a + of_nat ?o) (unat len))"
  have len: "0 < unat len" using assms(7) by (simp add: unat_gt_0 word_neq_0_conv)
  have r: "?p * j + X + unat len \<le> ?p * height i" if "j < height i" for j using that assms(5) by (rule row_in_buffer)
  have o: "?o + unat len \<le> ?p * height i" using r [of y] Suc.prems by simp
  note da = buffer_at [OF assms(3), of ?o] and aa = buffer_at [OF assms(2), of ?o]
  have f: "fits a (?p * height i)" "fits d (?p * height i)" using assms(2,3) by (simp_all add: buffer_ok_def)
  have cp: "bl_memcpy m (d + of_nat ?o) (a + of_nat ?o) len = (d + of_nat ?o, ?m)"
    using da aa o len f by (intro bl_memcpy_correct) (simp_all add: fits_def del: of_nat_add of_nat_mult)
  have step: "b + of_nat ?o + vi_pitch i = b + of_nat (?p * Suc y + X)" for b :: addr by simp
  have keep: "mem_get ?m (a + of_nat (?p * (Suc y + j) + X)) (unat len) = mem_get m (a + of_nat (?p * (Suc y + j) + X)) (unat len)" if "j < n" for j
  proof (rule mem_get_put_apart)
    have rj: "?p * (Suc y + j) + X + unat len \<le> ?p * height i" using r [of "Suc y + j"] that Suc.prems by simp
    note ja = buffer_at [OF assms(2), of "?p * (Suc y + j) + X"]
    show "apart (d + of_nat ?o) (length (mem_get m (a + of_nat ?o) (unat len))) (a + of_nat (?p * (Suc y + j) + X)) (unat len)"
      using assms(4) da(1) ja(1) o rj len unfolding apart_def by (simp del: of_nat_add of_nat_mult) linarith
    show "fits (d + of_nat ?o) (length (mem_get m (a + of_nat ?o) (unat len)))"
      using da(1) o len f(2) by (simp add: fits_def del: of_nat_add of_nat_mult)
    show "fits (a + of_nat (?p * (Suc y + j) + X)) (unat len)"
      using ja(1) rj len f(1) by (simp add: fits_def del: of_nat_add of_nat_mult)
  qed
  have "map (\<lambda>j. mem_get ?m (a + of_nat (?p * (Suc y + j) + X)) (unat len)) [0..<n] =
      map (\<lambda>j. mem_get m (a + of_nat (?p * (y + j) + X)) (unat len)) (map Suc [0..<n])"
    using keep by (auto simp del: of_nat_add of_nat_mult)
  then have rows: "map (\<lambda>j. mem_get m (a + of_nat (?p * (y + j) + X)) (unat len)) [0..<Suc n] =
      mem_get m (a + of_nat ?o) (unat len) # map (\<lambda>j. mem_get ?m (a + of_nat (?p * (Suc y + j) + X)) (unat len)) [0..<n]"
    unfolding map_Suc_upt by (simp add: upt_conv_Cons del: upt_Suc)
  have "Suc y + n \<le> height i" using Suc.prems by simp
  then show ?case unfolding copy_rows.simps cp snd_conv step rows put_rows.simps by (rule Suc.IH)
qed simp

subsection \<open>The dirty area\<close>

definition dirty_none :: "'a fb_st_scheme \<Rightarrow> bool" where
  "dirty_none s \<longleftrightarrow> fb_dirty_x s = BL_FB_INVALID_POS \<and> fb_dirty_y s = BL_FB_INVALID_POS \<and>
     fb_dirty_w s = BL_FB_INVALID_POS \<and> fb_dirty_h s = BL_FB_INVALID_POS"

definition dirty_ok :: "'a fb_st_scheme \<Rightarrow> bool" where
  "dirty_ok s \<longleftrightarrow> dirty_none s \<or> in_screen (fb_info s) (fb_dirty_x s) (fb_dirty_y s) (fb_dirty_w s) (fb_dirty_h s)"

definition dirty_rect :: "'a fb_st_scheme \<Rightarrow> (nat \<times> nat) set" where
  "dirty_rect s = (if dirty_none s then {} else rect (fb_dirty_x s) (fb_dirty_y s) (fb_dirty_w s) (fb_dirty_h s))"

lemma invalid_pos: "unat BL_FB_INVALID_POS = 2 ^ 32 - 1"
proof -
  have "(NOT 0 :: u32) = mask 32" by (simp add: mask_eq_exp_minus_1)
  then have "unat (NOT 0 :: u32) = unat (mask 32 :: u32)" by (rule arg_cong)
  also have "\<dots> = 2 ^ 32 - 1" using and_mask_unat [of "mask 32 :: u32" 32] by (simp add: mask_eq_exp_minus_1)
  finally show ?thesis unfolding BL_FB_INVALID_POS_def .
qed

lemma below_invalid: "unat a \<le> unat W \<Longrightarrow> W \<noteq> BL_FB_INVALID_POS \<Longrightarrow> unat a < 2 ^ 32 - 1 \<and> a \<noteq> BL_FB_INVALID_POS"
  using unat_lt2p [of W] invalid_pos by (auto simp: word_unat_eq_iff)

text \<open>Along one axis the area grows to the smallest interval that holds both.\<close>

lemma dirty_axis:
  assumes "unat x + unat w \<le> unat W" "unat dx + unat dw \<le> unat W" "W \<noteq> BL_FB_INVALID_POS"
  shows "unat (dirty_start x dx) = min (unat x) (unat dx)"
    "unat (dirty_start x dx) + unat (dirty_extent x w dx dw) = max (unat x + unat w) (unat dx + unat dw)"
proof -
  have W: "unat W < 2 ^ 32 - 1" using below_invalid [OF order_refl assms(3)] by simp
  have n: "dx \<noteq> BL_FB_INVALID_POS" "dw \<noteq> BL_FB_INVALID_POS"
    using below_invalid [of dx W] below_invalid [of dw W] assms(2,3) by simp_all
  have s: "unat (x + w) = unat x + unat w" "unat (dx + dw) = unat dx + unat dw"
    using assms(1,2) W by (intro unat_plus_if' [THEN trans]; simp)+
  show 1: "unat (dirty_start x dx) = min (unat x) (unat dx)"
    using n by (auto simp: dirty_start_def word_less_nat_alt)
  show "unat (dirty_start x dx) + unat (dirty_extent x w dx dw) = max (unat x + unat w) (unat dx + unat dw)"
  proof (cases "unat x < unat dx")
    case True
    have "unat (dx + dw - x) = unat dx + unat dw - unat x" using True s by (simp add: unat_diff_wrap)
    then show ?thesis using 1 True n s by (auto simp: dirty_extent_def word_less_nat_alt)
  next
    case False
    have "unat (x + w - dx) = unat x + unat w - unat dx" using False s by (simp add: unat_diff_wrap)
    then show ?thesis using 1 False n s by (auto simp: dirty_extent_def word_less_nat_alt)
  qed
qed

lemma update_dirty_fields [simp]:
  "mem (bl_fb_update_dirty_area x y w h s) = mem s" "fb_info (bl_fb_update_dirty_area x y w h s) = fb_info s"
  "fb_renderer (bl_fb_update_dirty_area x y w h s) = fb_renderer s" "fb_double_buffer (bl_fb_update_dirty_area x y w h s) = fb_double_buffer s"
  by (simp_all add: bl_fb_update_dirty_area_def)

lemma update_dirty_ok:
  assumes "fb_geometry s" "dirty_ok s" "in_screen (fb_info s) x y w h"
  shows "dirty_ok (bl_fb_update_dirty_area x y w h s)" "rect x y w h \<union> dirty_rect s \<subseteq> dirty_rect (bl_fb_update_dirty_area x y w h s)"
    "\<not> dirty_none (bl_fb_update_dirty_area x y w h s)"
proof -
  let ?s = "bl_fb_update_dirty_area x y w h s" and ?i = "fb_info s"
  have WH: "vi_width ?i \<noteq> BL_FB_INVALID_POS" "vi_height ?i \<noteq> BL_FB_INVALID_POS" using assms(1) by (simp_all add: fb_geometry_def Let_def)
  have xy: "unat x + unat w \<le> width ?i" "unat y + unat h \<le> height ?i" using assms(3) by (simp_all add: in_screen_def)
  have "dirty_ok ?s \<and> \<not> dirty_none ?s \<and> rect x y w h \<union> dirty_rect s \<subseteq> dirty_rect ?s"
  proof (cases "dirty_none s")
    case True
    then have "fb_dirty_x ?s = x" "fb_dirty_y ?s = y" "fb_dirty_w ?s = w" "fb_dirty_h ?s = h"
      by (simp_all add: bl_fb_update_dirty_area_def dirty_none_def dirty_start_def dirty_extent_def)
    moreover have "x \<noteq> BL_FB_INVALID_POS" using below_invalid [of x "vi_width ?i"] xy(1) WH(1) by simp
    ultimately show ?thesis using assms(3) True by (simp add: dirty_ok_def dirty_rect_def dirty_none_def)
  next
    case False
    then have d: "unat (fb_dirty_x s) + unat (fb_dirty_w s) \<le> width ?i" "unat (fb_dirty_y s) + unat (fb_dirty_h s) \<le> height ?i"
      using assms(2) by (simp_all add: dirty_ok_def in_screen_def)
    note ax = dirty_axis [OF xy(1) d(1) WH(1)] and ay = dirty_axis [OF xy(2) d(2) WH(2)]
    have i: "in_screen ?i (fb_dirty_x ?s) (fb_dirty_y ?s) (fb_dirty_w ?s) (fb_dirty_h ?s)"
      using ax(2) ay(2) xy d by (simp add: in_screen_def bl_fb_update_dirty_area_def)
    moreover have "\<not> dirty_none ?s" using i below_invalid [of "fb_dirty_x ?s" "vi_width ?i"] WH(1) by (auto simp: in_screen_def dirty_none_def)
    moreover have "rect x y w h \<union> dirty_rect s \<subseteq> rect (fb_dirty_x ?s) (fb_dirty_y ?s) (fb_dirty_w ?s) (fb_dirty_h ?s)"
      using ax ay False by (auto simp: rect_def dirty_rect_def bl_fb_update_dirty_area_def)
    ultimately show ?thesis by (simp add: dirty_ok_def dirty_rect_def)
  qed
  then show "dirty_ok ?s" "rect x y w h \<union> dirty_rect s \<subseteq> dirty_rect ?s" "\<not> dirty_none ?s" by simp_all
qed

subsection \<open>Frame buffer and double buffer\<close>

text \<open>
  The drawing operations, the rectangle each one touches, and the invariant: of the pixels in \<open>A\<close>, those outside the
  dirty area look the same in both buffers.
\<close>

datatype fb_op = Fill bl_video_color_t u32 u32 u32 u32 | Glyph u8 addr u32 u32

fun fb_run :: "fb_op \<Rightarrow> 'a fb_st_scheme \<Rightarrow> 'a fb_st_scheme" where
  "fb_run (Fill color x y w h) s = bl_fb_fill_rectangle color x y w h s"
| "fb_run (Glyph c bg x y) s = bl_fb_blit_glyph c bg x y s"

fun op_rect :: "fb_op \<Rightarrow> (nat \<times> nat) set" where
  "op_rect (Fill color x y w h) = rect x y w h"
| "op_rect (Glyph c bg x y) = (if sint c < 0x20 then {} else rect x y 8 16)"

fun op_in_screen :: "bl_video_info \<Rightarrow> fb_op \<Rightarrow> bool" where
  "op_in_screen i (Fill color x y w h) \<longleftrightarrow> in_screen i x y w h"
| "op_in_screen i (Glyph c bg x y) \<longleftrightarrow> in_screen i x y 8 16"

definition same_pixel :: "'a fb_st_scheme \<Rightarrow> nat \<times> nat \<Rightarrow> bool" where
  "same_pixel s q \<longleftrightarrow> pixel_bytes (fb_info s) (mem s) (vi_frame_buffer (fb_info s)) q =
     pixel_bytes (fb_info s) (mem s) (fb_double_buffer s) q"

definition fb_inv :: "'a fb_st_scheme \<Rightarrow> (nat \<times> nat) set \<Rightarrow> bool" where
  "fb_inv s A \<longleftrightarrow> fb_geometry s \<and> dirty_ok s \<and> A \<subseteq> {0..<width (fb_info s)} \<times> {0..<height (fb_info s)} \<and>
     (\<forall>q \<in> A. q \<notin> dirty_rect s \<longrightarrow> same_pixel s q)"

lemma geometry_facts:
  assumes "fb_geometry s"
  shows "vi_bytes_per_pixel (fb_info s) \<in> {2, 3, 4}" "0 < bpp (fb_info s)" "0 < pitch (fb_info s)" "bpp (fb_info s) * width (fb_info s) \<le> pitch (fb_info s)"
    "buffer_ok (fb_info s) (vi_frame_buffer (fb_info s))" "buffer_ok (fb_info s) (fb_double_buffer s)"
    "apart (fb_double_buffer s) (pitch (fb_info s) * height (fb_info s)) (vi_frame_buffer (fb_info s)) (pitch (fb_info s) * height (fb_info s))"
    "bl_fb_get_target_ptr s = fb_double_buffer s" "fb_renderer s = 0" "fb_double_buffer s \<noteq> 0"
proof -
  show 1: "vi_bytes_per_pixel (fb_info s) \<in> {2, 3, 4}" "bpp (fb_info s) * width (fb_info s) \<le> pitch (fb_info s)"
    "buffer_ok (fb_info s) (vi_frame_buffer (fb_info s))" "buffer_ok (fb_info s) (fb_double_buffer s)"
    "apart (fb_double_buffer s) (pitch (fb_info s) * height (fb_info s)) (vi_frame_buffer (fb_info s)) (pitch (fb_info s) * height (fb_info s))"
    "fb_renderer s = 0"
    using assms by (auto simp: fb_geometry_def Let_def)
  show b: "0 < bpp (fb_info s)" using 1(1) by auto
  have "0 < width (fb_info s)" using assms by (simp add: fb_geometry_def Let_def)
  then have "0 < bpp (fb_info s) * width (fb_info s)" using b by simp
  then show "0 < pitch (fb_info s)" using 1(2) by linarith
  show "fb_double_buffer s \<noteq> 0" using 1(4) by (simp add: buffer_ok_def)
  then show "bl_fb_get_target_ptr s = fb_double_buffer s" using 1(6) by (simp add: bl_fb_get_target_ptr_def)
qed

lemma pixel_in_buffer:
  assumes "bpp i * width i \<le> pitch i" "c < width i" "j < height i"
  shows "pitch i * j + bpp i * c + bpp i \<le> pitch i * height i"
proof -
  have "bpp i * Suc c \<le> bpp i * width i" using assms(2) by (intro mult_le_mono2) simp
  then show ?thesis using row_in_buffer [OF assms(3), of "bpp i * c" "bpp i" "pitch i"] assms(1) by simp
qed

lemma pixel_bytes_cong:
  assumes "mem_get m d (pitch i * height i) = mem_get m' d (pitch i * height i)" "bpp i * width i \<le> pitch i" "c < width i" "j < height i"
  shows "pixel_bytes i m d (c, j) = pixel_bytes i m' d (c, j)"
proof -
  let ?o = "pitch i * j + bpp i * c"
  have "take (bpp i) (drop ?o (mem_get m d (pitch i * height i))) = take (bpp i) (drop ?o (mem_get m' d (pitch i * height i)))"
    using assms(1) by simp
  then show ?thesis using pixel_in_buffer [OF assms(2-4)] by (simp add: drop_mem_get take_mem_get pixel_bytes_def del: of_nat_add of_nat_mult)
qed

text \<open>An operation that writes rows into its rectangle of the double buffer and marks it.\<close>

lemma fb_inv_write:
  assumes "fb_inv s A" "in_screen (fb_info s) x y w h" "length ls = unat h" "\<forall>l \<in> set ls. length l = bpp (fb_info s) * unat w"
    "s' = (bl_fb_update_dirty_area x y w h s)\<lparr>mem := put_rows (vi_pitch (fb_info s)) (fb_double_buffer s + pixel_offset (fb_info s) x y) ls (mem s)\<rparr>"
  shows "fb_inv s' (A \<union> rect x y w h)" "fb_info s' = fb_info s"
proof -
  let ?i = "fb_info s" and ?u = "bl_fb_update_dirty_area x y w h s"
  have g: "fb_geometry s" "dirty_ok s" using assms(1) by (simp_all add: fb_inv_def)
  note gf = geometry_facts [OF g(1)] and u = update_dirty_ok [OF g assms(2)]
  show i: "fb_info s' = fb_info s" by (simp add: assms(5))
  have dr: "dirty_rect s' = dirty_rect ?u" "dirty_ok s' = dirty_ok ?u" unfolding assms(5) by (simp_all add: dirty_rect_def dirty_none_def dirty_ok_def)
  have f: "fits (fb_double_buffer s) (pitch ?i * height ?i)" "fits (vi_frame_buffer ?i) (pitch ?i * height ?i)"
    using gf(5,6) by (simp_all add: buffer_ok_def)
  have geo: "fb_geometry s'" using g(1) by (simp add: assms(5) fb_geometry_def Let_def)
  have sub: "rect x y w h \<subseteq> {0..<width ?i} \<times> {0..<height ?i}" using assms(2) by (auto simp: rect_def in_screen_def)
  have "same_pixel s' q" if q: "q \<in> A \<union> rect x y w h" "q \<notin> dirty_rect s'" for q
  proof -
    obtain c j where cj: "q = (c, j)" by (cases q)
    have n: "q \<notin> rect x y w h" "q \<notin> dirty_rect s" using q(2) u(2) unfolding dr by auto
    then have "q \<in> A" using q(1) by simp
    then have same: "same_pixel s q" and b: "c < width ?i" "j < height ?i" using assms(1) n(2) unfolding fb_inv_def cj by auto
    have "pixel_bytes ?i (mem s') (fb_double_buffer s) q = pixel_bytes ?i (mem s) (fb_double_buffer s) q"
      using put_rows_pixels [OF gf(3,2,4) f(1) assms(2,3,4) b] n(1) unfolding cj assms(5) by simp
    moreover have "pixel_bytes ?i (mem s') (vi_frame_buffer ?i) q = pixel_bytes ?i (mem s) (vi_frame_buffer ?i) q"
      unfolding cj assms(5) by (rule pixel_bytes_cong [OF _ gf(4) b])
        (simp add: put_rows_other_pixels [OF gf(3,4) f(1,2) gf(7) assms(2-4)])
    ultimately show ?thesis using same unfolding same_pixel_def i by (simp add: assms(5))
  qed
  then show "fb_inv s' (A \<union> rect x y w h)"
    using assms(1) geo u(1) sub unfolding fb_inv_def dr i by auto
qed

lemma sint_u8: "sint (c :: u8) = (if unat c < 128 then int (unat c) else int (unat c) - 256)"
proof -
  define n where "n = unat c"
  have n: "n < 256" "c = of_nat n" using unat_lt2p [of c] by (simp_all add: n_def)
  have "(int n + 128) mod 256 - 128 = (if n < 128 then int n else int n - 256)"
  proof (cases "n < 128")
    case False
    have "(int n + 128) mod 256 = (int n - 128 + 256) mod 256" by (simp add: add.commute)
    also have "\<dots> = int n - 128" unfolding mod_add_self2 using False n(1) by (intro mod_pos_pos_trivial) simp_all
    finally show ?thesis using False by simp
  qed simp
  then show ?thesis unfolding n_def [symmetric] unfolding n(2)
    using n(1) by (simp add: sint_uint take_bit_eq_mod signed_take_bit_eq_take_bit_shift unsigned_of_nat)
qed

lemma printable_ascii: "\<not> sint c < 0x20 \<Longrightarrow> unat (c :: u8) < 128"
proof (rule ccontr)
  assume c: "\<not> sint c < 0x20" "\<not> unat c < 128"
  then have "sint c = int (unat c) - 256" using sint_u8 [of c] by (simp only: if_False)
  moreover have "unat c < 256" using unat_lt2p [of c] by simp
  ultimately show False using c(1) by linarith
qed

lemma unat_ucast_u32: "unat (ucast (b :: u8) :: u32) = unat b"
  using unat_lt2p [of b] by (simp add: unsigned_ucast_eq take_bit_eq_mod)

lemma fb_run_inv:
  assumes "fb_inv s A" "op_in_screen (fb_info s) op"
  shows "fb_inv (fb_run op s) (A \<union> op_rect op) \<and> fb_info (fb_run op s) = fb_info s"
proof (cases op)
  case (Fill color x y w h)
  let ?i = "fb_info s"
  note gf = geometry_facts [of s]
  have g: "fb_geometry s" using assms(1) by (simp add: fb_inv_def)
  have "bpp ?i * unat w \<le> bpp ?i * width ?i" using assms(2) Fill by (intro mult_le_mono2) (simp add: in_screen_def)
  then have "bpp ?i * unat w \<le> pitch ?i" using gf(4) [OF g] by (rule le_trans)
  then have "bpp ?i * unat w \<le> 2 ^ 32" using unat_lt2p [of "vi_pitch ?i"] by simp
  then have "unat w * bpp ?i \<le> 2 ^ 32" by (simp only: mult.commute)
  note put = fill_rectangle_ptr_put [OF gf(1) [OF g] gf(10) [OF g] this, of color x y h "mem s"]
  have e: "fb_run op s = (bl_fb_update_dirty_area x y w h s)\<lparr>mem := put_rows (vi_pitch ?i) (fb_double_buffer s + pixel_offset ?i x y)
      (replicate (unat h) (concat (replicate (unat w) (color_bytes ?i color)))) (mem s)\<rparr>"
    unfolding Fill using put gf(8,10) [OF g] by (simp add: bl_fb_fill_rectangle_def Let_def)
  show ?thesis using fb_inv_write [OF assms(1) _ _ _ e] assms(2) unfolding Fill
    by (simp add: length_concat sum_list_replicate color_bytes_def)
next
  case (Glyph c bg x y)
  let ?i = "fb_info s"
  have g: "fb_geometry s" using assms(1) by (simp add: fb_inv_def)
  note gf = geometry_facts [OF g]
  show ?thesis
  proof (cases "sint c < 0x20")
    case True
    then show ?thesis using assms(1) Glyph by (simp add: bl_fb_blit_glyph_def)
  next
    case False
    then have "unat c < 128" by (rule printable_ascii)
    obtain ls where ls: "length ls = length (bl_font ! unat c)" "\<forall>l \<in> set ls. length l = 8 * bpp ?i"
        "glyph_rows ?i (bl_fb_prepare_color ?i 0xff 0xff 0xff 0xff) (bl_font ! unat c) (bg + pixel_offset ?i x y) (fb_double_buffer s + pixel_offset ?i x y) (mem s) =
         put_rows (vi_pitch ?i) (fb_double_buffer s + pixel_offset ?i x y) ls (mem s)"
      using glyph_rows_put [OF gf(1)] by blast
    have t: "bl_fb_get_target_ptr (bl_fb_update_dirty_area x y w h s) = fb_double_buffer s" for w h
      using gf(9,10) by (simp add: bl_fb_get_target_ptr_def)
    have e: "fb_run op s = (bl_fb_update_dirty_area x y 8 16 s)\<lparr>mem := put_rows (vi_pitch ?i) (fb_double_buffer s + pixel_offset ?i x y) ls (mem s)\<rparr>"
      using False ls(3) t by (simp add: Glyph bl_fb_blit_glyph_def Let_def BL_FONT_CHARACTER_WIDTH_def BL_FONT_CHARACTER_HEIGHT_def)
    show ?thesis
      using fb_inv_write [OF assms(1) _ _ _ e] ls(1,2) length_glyph [OF \<open>unat c < 128\<close>] False assms(2) unfolding Glyph by (simp add: mult.commute)
  qed
qed

lemma fb_runs_inv:
  "fb_inv s A \<Longrightarrow> \<forall>op \<in> set ops. op_in_screen (fb_info s) op \<Longrightarrow>
   fb_inv (fold fb_run ops s) (A \<union> (\<Union>op \<in> set ops. op_rect op)) \<and> fb_info (fold fb_run ops s) = fb_info s"
proof (induction ops arbitrary: s A)
  case (Cons op ops)
  have 1: "fb_inv (fb_run op s) (A \<union> op_rect op)" "fb_info (fb_run op s) = fb_info s" using fb_run_inv [of s A op] Cons.prems by simp_all
  then show ?case using Cons.IH [OF 1(1)] Cons.prems(2) by (simp add: Un_assoc)
qed simp

lemma copy_rows_0: "copy_rows i n 0 src dst m = m"
  by (induction n arbitrary: src dst) (simp_all add: bl_memcpy_def bl_memcpy_up.simps bl_memcpy_down.simps)

lemma put_rows_Nil: "put_rows p dst (replicate n []) m = m"
  by (induction n arbitrary: dst) simp_all

text \<open>The update makes the pixels of the dirty area the same and leaves the others.\<close>

lemma update_shows:
  assumes "fb_inv s A"
  shows "(\<forall>q \<in> A. same_pixel (bl_fb_update_from_double_buffer s) q) \<and> dirty_none (bl_fb_update_from_double_buffer s) \<and>
    fb_inv (bl_fb_update_from_double_buffer s) A \<and> fb_info (bl_fb_update_from_double_buffer s) = fb_info s \<and>
    mem_get (mem (bl_fb_update_from_double_buffer s)) (fb_double_buffer s) (pitch (fb_info s) * height (fb_info s)) =
    mem_get (mem s) (fb_double_buffer s) (pitch (fb_info s) * height (fb_info s))"
proof (cases "dirty_none s")
  case True
  then have "bl_fb_update_from_double_buffer s = s" by (simp add: bl_fb_update_from_double_buffer_def dirty_none_def)
  then show ?thesis using True assms by (auto simp: fb_inv_def dirty_rect_def)
next
  case False
  let ?i = "fb_info s" and ?x = "fb_dirty_x s" and ?y = "fb_dirty_y s" and ?w = "fb_dirty_w s" and ?h = "fb_dirty_h s"
  let ?d = "fb_double_buffer s" and ?f = "vi_frame_buffer ?i" and ?len = "fb_dirty_w s * ucast (vi_bytes_per_pixel ?i) :: u32"
  let ?s = "bl_fb_update_from_double_buffer s"
  have g: "fb_geometry s" using assms by (simp add: fb_inv_def)
  note gf = geometry_facts [OF g]
  have sc: "in_screen ?i ?x ?y ?w ?h" using assms False by (simp add: fb_inv_def dirty_ok_def)
  have WH: "vi_width ?i \<noteq> BL_FB_INVALID_POS" "vi_height ?i \<noteq> BL_FB_INVALID_POS" using g by (simp_all add: fb_geometry_def Let_def)
  have v: "?x \<noteq> BL_FB_INVALID_POS" "?w \<noteq> BL_FB_INVALID_POS" "?y \<noteq> BL_FB_INVALID_POS" "?h \<noteq> BL_FB_INVALID_POS"
    using below_invalid [OF _ WH(1), of ?x] below_invalid [OF _ WH(1), of ?w] below_invalid [OF _ WH(2), of ?y] below_invalid [OF _ WH(2), of ?h] sc
    by (simp_all add: in_screen_def)
  have "bpp ?i * (unat ?x + unat ?w) \<le> bpp ?i * width ?i" using sc by (intro mult_le_mono2) (simp add: in_screen_def)
  then have xw: "bpp ?i * unat ?x + bpp ?i * unat ?w \<le> pitch ?i" using gf(4) by (simp add: distrib_left)
  then have "unat ?w * bpp ?i < 2 ^ 32" using unat_lt2p [of "vi_pitch ?i"] by (simp add: mult.commute)
  then have len: "unat ?len = bpp ?i * unat ?w" by (simp add: unat_word_ariths unat_ucast_u32 mult.commute)
  have yh: "unat ?y + unat ?h \<le> height ?i" using sc by (simp add: in_screen_def)
  define ls where "ls = (if ?len = 0 then replicate (unat ?h) [] else map (\<lambda>j. mem_get (mem s) (?d + of_nat (pitch ?i * (unat ?y + j) + bpp ?i * unat ?x)) (bpp ?i * unat ?w)) [0..<unat ?h])"
  have f: "fits ?d (pitch ?i * height ?i)" "fits ?f (pitch ?i * height ?i)" using gf(5,6) by (simp_all add: buffer_ok_def)
  have cp: "copy_rows ?i (unat ?h) ?len (?d + pixel_offset ?i ?x ?y) (?f + pixel_offset ?i ?x ?y) (mem s) =
      put_rows (vi_pitch ?i) (?f + pixel_offset ?i ?x ?y) ls (mem s)"
  proof (cases "?len = 0")
    case True
    then have "ls = replicate (unat ?h) []" by (simp add: ls_def)
    then show ?thesis unfolding True by (simp add: copy_rows_0 put_rows_Nil)
  next
    case F: False
    have "X + unat ?len \<le> pitch ?i" if "X = bpp ?i * unat ?x" for X using xw that by (simp add: len)
    then show ?thesis
      using copy_rows_put [OF gf(3,6,5) _ _ yh, of "bpp ?i * unat ?x" ?len "mem s"] gf(7) F unfolding apart_sym [of ?d] pixel_offset_nat ls_def
      by (simp add: len word_neq_0_conv [symmetric] del: of_nat_add of_nat_mult)
  qed
  have lsl: "length ls = unat ?h" "\<forall>l \<in> set ls. length l = bpp ?i * unat ?w" using len by (auto simp: ls_def)
  have e: "?s = bl_fb_reset_dirty_area (s\<lparr>mem := put_rows (vi_pitch ?i) (?f + pixel_offset ?i ?x ?y) ls (mem s)\<rparr>)"
    using v cp gf(8) by (simp add: bl_fb_update_from_double_buffer_def Let_def)
  have fields: "fb_info ?s = ?i" "fb_double_buffer ?s = ?d" "fb_renderer ?s = fb_renderer s" "dirty_none ?s"
    "mem ?s = put_rows (vi_pitch ?i) (?f + pixel_offset ?i ?x ?y) ls (mem s)"
    unfolding e by (simp_all add: bl_fb_reset_dirty_area_def dirty_none_def)
  have db: "mem_get (mem ?s) ?d (pitch ?i * height ?i) = mem_get (mem s) ?d (pitch ?i * height ?i)"
    unfolding fields(5) using gf(7) by (intro put_rows_other_pixels [OF gf(3,4) f(2,1) _ sc lsl]) (simp add: apart_sym)
  have same: "same_pixel ?s q" if q: "q \<in> A" for q
  proof -
    obtain c j where cj: "q = (c, j)" by (cases q)
    have b: "c < width ?i" "j < height ?i" using assms q unfolding fb_inv_def cj by auto
    have fb: "pixel_bytes ?i (mem ?s) ?f q = (if q \<in> rect ?x ?y ?w ?h then take (bpp ?i) (drop (bpp ?i * (c - unat ?x)) (ls ! (j - unat ?y))) else pixel_bytes ?i (mem s) ?f q)"
      unfolding fields(5) cj by (rule put_rows_pixels [OF gf(3,2,4) f(2) sc lsl b])
    have dd: "pixel_bytes ?i (mem ?s) ?d q = pixel_bytes ?i (mem s) ?d q" unfolding cj by (rule pixel_bytes_cong [OF db gf(4) b])
    show ?thesis
    proof (cases "q \<in> rect ?x ?y ?w ?h")
      case False
      then have "same_pixel s q" using assms q \<open>\<not> dirty_none s\<close> by (simp add: fb_inv_def dirty_rect_def)
      then show ?thesis using fb dd False by (simp add: same_pixel_def fields)
    next
      case True
      then obtain a e where ae: "c = unat ?x + a" "a < unat ?w" "j = unat ?y + e" "e < unat ?h" unfolding cj by (auto simp: rect_def le_iff_add)
      then have "?len \<noteq> 0" using len gf(2) by (metis mult_is_0 not_less0 unsigned_0)
      then have "ls ! e = mem_get (mem s) (?d + of_nat (pitch ?i * j + bpp ?i * unat ?x)) (bpp ?i * unat ?w)"
        using ae by (simp add: ls_def del: of_nat_add of_nat_mult)
      moreover have "bpp ?i * Suc a \<le> bpp ?i * unat ?w" using ae(2) by (intro mult_le_mono2) simp
      ultimately have "take (bpp ?i) (drop (bpp ?i * a) (ls ! e)) = pixel_bytes ?i (mem s) ?d q"
        unfolding cj by (simp add: drop_mem_get take_mem_get pixel_bytes_def ae algebra_simps)
      then show ?thesis using fb dd True ae unfolding same_pixel_def fields by simp
    qed
  qed
  have "fb_geometry ?s" using g by (simp add: fb_geometry_def Let_def fields)
  then have "fb_inv ?s A" using assms same fields(1,4) by (simp add: fb_inv_def dirty_ok_def dirty_rect_def)
  then show ?thesis using same db fields by simp
qed

lemma updated_pixels:
  assumes "fb_inv s A" "q \<in> A"
  shows "pixel_bytes (fb_info s) (mem (bl_fb_update_from_double_buffer s)) (vi_frame_buffer (fb_info s)) q =
    pixel_bytes (fb_info s) (mem s) (fb_double_buffer s) q"
proof -
  let ?s = "bl_fb_update_from_double_buffer s"
  note u = update_shows [OF assms(1)]
  have d: "fb_double_buffer ?s = fb_double_buffer s" "fb_info ?s = fb_info s"
    by (simp_all add: bl_fb_update_from_double_buffer_def Let_def bl_fb_reset_dirty_area_def)
  obtain c j where q: "q = (c, j)" "c < width (fb_info s)" "j < height (fb_info s)" using assms by (cases q) (auto simp: fb_inv_def)
  have g: "bpp (fb_info s) * width (fb_info s) \<le> pitch (fb_info s)" using assms(1) by (intro geometry_facts(4)) (simp add: fb_inv_def)
  have "pixel_bytes (fb_info s) (mem ?s) (vi_frame_buffer (fb_info s)) q = pixel_bytes (fb_info s) (mem ?s) (fb_double_buffer s) q"
    using u assms(2) d by (simp add: same_pixel_def)
  also have "\<dots> = pixel_bytes (fb_info s) (mem s) (fb_double_buffer s) q"
    unfolding q(1) using u by (intro pixel_bytes_cong [OF _ g q(2,3)]) simp
  finally show ?thesis .
qed

end
