(* ===== verification/Bl_Glyphs.thy ===== *)
theory Bl_Glyphs
  imports Bl_Pixels
begin

text \<open>
  Properties of src/boot-loader/core/video/fb.c: pixels and colours read back, filled rectangles, and glyphs with 16 bits for a pixel.
\<close>

unbundle bit_operations_syntax

subsection \<open>Pixels read back\<close>

definition pixel_format :: "bl_video_info \<Rightarrow> bool" where
  "pixel_format i \<longleftrightarrow> (vi_bits_per_pixel i, vi_bytes_per_pixel i) \<in> {(15, 2), (16, 2), (24, 3), (32, 4)}"

lemma get_pixel_bytes:
  assumes "pixel_format i"
  shows "bl_fb_get_pixel_ptr i m b x y = of_nat (le_nat (pixel_bytes i m b (unat x, unat y)))"
proof -
  let ?p = "b + of_nat (pitch i * unat y + bpp i * unat x)"
  have n24: "(ucast (a :: u8) OR push_bit 8 (ucast b') OR push_bit 16 (ucast c) :: u32) = of_nat (unat a + 256 * (unat b' + 256 * unat c))" for a b' c :: u8
  proof -
    have bd: "unat a < 2 ^ 8" "unat b' < 2 ^ 8" using unat_lt2p [of a] unat_lt2p [of b'] by simp_all
    have "2 ^ 8 * unat b' OR unat a = 2 ^ 8 * unat b' + unat a" "2 ^ 16 * unat c OR (2 ^ 8 * unat b' + unat a) = 2 ^ 16 * unat c + (2 ^ 8 * unat b' + unat a)"
      using bd by (intro or_shift_add; simp)+
    then have "2 ^ 16 * unat c OR (2 ^ 8 * unat b' OR unat a) = unat a + 256 * (unat b' + 256 * unat c)" by simp
    then have "of_nat (unat a + 256 * (unat b' + 256 * unat c)) = (of_nat (2 ^ 16 * unat c) OR (of_nat (2 ^ 8 * unat b') OR of_nat (unat a)) :: u32)"
      by (simp only: of_nat_or_eq [symmetric])
    also have "\<dots> = push_bit 16 (ucast c) OR (push_bit 8 (ucast b') OR ucast a)"
      by (simp add: push_bit_eq_mult mult.commute)
    finally show ?thesis by (simp only: or.commute or.left_commute or.assoc)
  qed
  have m3: "mem_get m a 3 = [m a, m (a + 1), m (a + 2)]" for a by (simp add: numeral_3_eq_3 mem_get_Suc) (simp add: add.commute)
  have u16: "(ucast (ld16 m a) :: u32) = of_nat (le_nat (mem_get m a 2))" for a
    using le_nat_bound [of "mem_get m a 2"] by (simp add: ld16_def word_unat_eq_iff unsigned_ucast_eq unsigned_of_nat take_bit_eq_mod)
  show ?thesis
    using assms unfolding pixel_format_def bl_fb_get_pixel_ptr_def pixel_offset_nat pixel_bytes_def fst_conv snd_conv Let_def
    by (auto simp: u16 n24 ld32_def m3 simp del: of_nat_add of_nat_mult)
qed

lemma take_drop_replicate: "a < n \<Longrightarrow> take (length b) (drop (length b * a) (concat (replicate n b))) = b"
proof (induction n arbitrary: a)
  case (Suc n)
  then show ?case by (cases a) auto
qed simp

text \<open>A filled rectangle shows the colour; the rest of the target stays.\<close>

lemma fill_rectangle_pixels:
  assumes "fb_geometry s" "pixel_format (fb_info s)" "in_screen (fb_info s) x y w h" "unat c < width (fb_info s)" "unat j < height (fb_info s)"
  shows "bl_fb_get_pixel c j (bl_fb_fill_rectangle color x y w h s) =
    (if (unat c, unat j) \<in> rect x y w h then of_nat (unat color mod 256 ^ bpp (fb_info s)) else bl_fb_get_pixel c j s)"
proof -
  let ?i = "fb_info s" and ?d = "fb_double_buffer s"
  note gf = geometry_facts [OF assms(1)]
  have "bpp ?i * unat w \<le> bpp ?i * width ?i" using assms(3) by (intro mult_le_mono2) (simp add: in_screen_def)
  then have "bpp ?i * unat w \<le> pitch ?i" using gf(4) by (rule le_trans)
  then have "bpp ?i * unat w \<le> 2 ^ 32" using unat_lt2p [of "vi_pitch ?i"] by simp
  then have "unat w * bpp ?i \<le> 2 ^ 32" by (simp only: mult.commute)
  note put = fill_rectangle_ptr_put [OF gf(1,10) this, of color x y h "mem s"]
  let ?ls = "replicate (unat h) (concat (replicate (unat w) (color_bytes ?i color)))"
  let ?s = "bl_fb_fill_rectangle color x y w h s"
  have e: "?s = (bl_fb_update_dirty_area x y w h s)\<lparr>mem := put_rows (vi_pitch ?i) (?d + pixel_offset ?i x y) ?ls (mem s)\<rparr>"
    using put gf(8,10) by (simp add: bl_fb_fill_rectangle_def Let_def)
  then have f: "fb_info ?s = ?i" "bl_fb_get_target_ptr ?s = ?d" "mem ?s = put_rows (vi_pitch ?i) (?d + pixel_offset ?i x y) ?ls (mem s)"
    using gf(9,10) by (simp_all add: bl_fb_get_target_ptr_def)
  have fit: "fits ?d (pitch ?i * height ?i)" using gf(6) by (simp add: buffer_ok_def)
  have px: "pixel_bytes ?i (mem ?s) ?d (unat c, unat j) = (if (unat c, unat j) \<in> rect x y w h
      then take (bpp ?i) (drop (bpp ?i * (unat c - unat x)) (?ls ! (unat j - unat y))) else pixel_bytes ?i (mem s) ?d (unat c, unat j))"
    unfolding f(3) by (rule put_rows_pixels [OF gf(3,2,4) fit assms(3) _ _ assms(4,5)]) (auto simp: length_concat sum_list_replicate color_bytes_def)
  have "take (bpp ?i) (drop (bpp ?i * (unat c - unat x)) (?ls ! (unat j - unat y))) = color_bytes ?i color" if "(unat c, unat j) \<in> rect x y w h"
  proof -
    from that obtain a e where "unat c = unat x + a" "a < unat w" "unat j = unat y + e" "e < unat h" by (auto simp: rect_def le_iff_add)
    then show ?thesis using take_drop_replicate [of a "unat w" "color_bytes ?i color"] by (simp add: color_bytes_def)
  qed
  then show ?thesis
    using px unfolding bl_fb_get_pixel_def f(1,2) get_pixel_bytes [OF assms(2)] gf(8) by (simp add: color_bytes_def le_nat_to_le)
qed

subsection \<open>Colours\<close>

lemma COLOR_MASK_take_bit: "COLOR_MASK v sz = take_bit (unat sz mod 32) v"
  by (simp add: COLOR_MASK_def take_bit_eq_mask mask_eq_decr_exp push_bit_eq_mult)

text \<open>The bits a component takes.\<close>

definition component_bits :: "bl_video_color_mask \<Rightarrow> nat set" where
  "component_bits c = {unat (cm_position c)..<unat (cm_position c) + unat (cm_mask_size c)}"

definition component_ok :: "bl_video_color_mask \<Rightarrow> bool" where
  "component_ok c \<longleftrightarrow> unat (cm_mask_size c) \<le> 8 \<and> unat (cm_position c) + unat (cm_mask_size c) \<le> 32"

definition colors_ok :: "bl_video_info \<Rightarrow> bool" where
  "colors_ok i \<longleftrightarrow> (\<forall>c \<in> {vi_red i, vi_green i, vi_blue i, vi_reserved i}. component_ok c) \<and>
     component_bits (vi_red i) \<inter> component_bits (vi_green i) = {} \<and> component_bits (vi_red i) \<inter> component_bits (vi_blue i) = {} \<and>
     component_bits (vi_red i) \<inter> component_bits (vi_reserved i) = {} \<and> component_bits (vi_green i) \<inter> component_bits (vi_blue i) = {} \<and>
     component_bits (vi_green i) \<inter> component_bits (vi_reserved i) = {} \<and> component_bits (vi_blue i) \<inter> component_bits (vi_reserved i) = {}"

lemma component_bit:
  assumes "component_ok c"
  shows "bit (COLOR_LSHIFT (COLOR_MASK (ucast r) (cm_mask_size c)) (cm_position c)) n \<longleftrightarrow>
    n \<in> component_bits c \<and> bit (r :: u8) (n - unat (cm_position c))"
proof (cases "unat (cm_mask_size c) = 0")
  case True
  then show ?thesis by (simp add: COLOR_LSHIFT_def COLOR_MASK_take_bit component_bits_def)
next
  case False
  then have "unat (cm_position c) mod 32 = unat (cm_position c)" "unat (cm_mask_size c) mod 32 = unat (cm_mask_size c)"
    using assms by (simp_all add: component_ok_def)
  moreover have "n < 32" if "n \<in> component_bits c" using that assms by (auto simp: component_bits_def component_ok_def)
  ultimately show ?thesis using assms
    by (auto simp: COLOR_LSHIFT_def COLOR_MASK_take_bit component_bits_def component_ok_def bit_simps dest: bit_imp_le_length)
qed

lemma get_component_bit:
  assumes "component_ok c" "n < 8"
  shows "bit (get_component c color) n \<longleftrightarrow> n < unat (cm_mask_size c) \<and> bit color (unat (cm_position c) + n)"
proof (cases "unat (cm_mask_size c) = 0")
  case True
  then show ?thesis by (simp add: get_component_def COLOR_MASK_take_bit)
next
  case False
  then have "unat (cm_position c) mod 32 = unat (cm_position c)" "unat (cm_mask_size c) mod 32 = unat (cm_mask_size c)"
    using assms by (simp_all add: component_ok_def)
  then show ?thesis using assms(2) by (auto simp: get_component_def COLOR_MASK_take_bit COLOR_RSHIFT_def bit_simps dest: bit_imp_le_length)
qed

lemma prepared_components:
  assumes "colors_ok i"
  shows "bl_fb_get_red i (bl_fb_prepare_color i r g b a) = take_bit (unat (cm_mask_size (vi_red i))) r"
    "bl_fb_get_green i (bl_fb_prepare_color i r g b a) = take_bit (unat (cm_mask_size (vi_green i))) g"
    "bl_fb_get_blue i (bl_fb_prepare_color i r g b a) = take_bit (unat (cm_mask_size (vi_blue i))) b"
    "bl_fb_get_reserved i (bl_fb_prepare_color i r g b a) = take_bit (unat (cm_mask_size (vi_reserved i))) a"
proof -
  let ?c = "bl_fb_prepare_color i r g b a"
  have ok: "component_ok (vi_red i)" "component_ok (vi_green i)" "component_ok (vi_blue i)" "component_ok (vi_reserved i)"
    using assms by (simp_all add: colors_ok_def)
  have bits: "bit ?c n \<longleftrightarrow> n \<in> component_bits (vi_red i) \<and> bit r (n - unat (cm_position (vi_red i))) \<or>
      n \<in> component_bits (vi_green i) \<and> bit g (n - unat (cm_position (vi_green i))) \<or>
      n \<in> component_bits (vi_blue i) \<and> bit b (n - unat (cm_position (vi_blue i))) \<or>
      n \<in> component_bits (vi_reserved i) \<and> bit a (n - unat (cm_position (vi_reserved i)))" for n
    by (auto simp: bl_fb_prepare_color_def bit_or_iff component_bit ok)
  have at: "unat (cm_position c) + n \<in> component_bits c \<longleftrightarrow> n < unat (cm_mask_size c)" for c n by (auto simp: component_bits_def)
  have step: "get_component c ?c = take_bit (unat (cm_mask_size c)) v"
    if "component_ok c" "\<And>n. n \<in> component_bits c \<Longrightarrow> bit ?c n = bit v (n - unat (cm_position c))" for c and v :: u8
  proof (rule bit_word_eqI)
    fix n assume "n < LENGTH(8)"
    then have n: "n < 8" by simp
    show "bit (get_component c ?c) n = bit (take_bit (unat (cm_mask_size c)) v) n"
      using that(2) [of "unat (cm_position c) + n"] at [of c n] unfolding get_component_bit [OF that(1) n] bit_take_bit_iff by auto
  qed
  show "bl_fb_get_red i ?c = take_bit (unat (cm_mask_size (vi_red i))) r" unfolding bl_fb_get_red_def
    by (rule step [OF ok(1)]) (use assms in \<open>auto simp: bits colors_ok_def\<close>)
  show "bl_fb_get_green i ?c = take_bit (unat (cm_mask_size (vi_green i))) g" unfolding bl_fb_get_green_def
    by (rule step [OF ok(2)]) (use assms in \<open>auto simp: bits colors_ok_def\<close>)
  show "bl_fb_get_blue i ?c = take_bit (unat (cm_mask_size (vi_blue i))) b" unfolding bl_fb_get_blue_def
    by (rule step [OF ok(3)]) (use assms in \<open>auto simp: bits colors_ok_def\<close>)
  show "bl_fb_get_reserved i ?c = take_bit (unat (cm_mask_size (vi_reserved i))) a" unfolding bl_fb_get_reserved_def
    by (rule step [OF ok(4)]) (use assms in \<open>auto simp: bits colors_ok_def\<close>)
qed

subsection \<open>Glyphs with 16 bits for a pixel\<close>

definition lane :: "nat \<Rightarrow> u64 \<Rightarrow> u16" where "lane k v = ucast (drop_bit (16 * k) v)"

lemma lane_simps:
  "k < 4 \<Longrightarrow> lane k (a AND b) = lane k a AND lane k b" "k < 4 \<Longrightarrow> lane k (a OR b) = lane k a OR lane k b"
  "k < 4 \<Longrightarrow> lane k (NOT a) = NOT (lane k a)"
  unfolding lane_def by (auto intro!: bit_word_eqI simp: bit_simps)

lemma lane_push:
  assumes "unat (w :: u32) < 2 ^ 16" "k < 4"
  shows "lane k (push_bit (16 * j) (ucast w)) = (if j = k then ucast w else 0)"
proof (rule bit_word_eqI)
  fix n assume "n < LENGTH(16)"
  then have n: "n < 16" by simp
  have hi: "\<not> bit w b" if "16 \<le> b" for b
  proof -
    have "w AND mask 16 = w" using assms(1) by (simp only: word_unat_eq_iff and_mask_unat) simp
    then show ?thesis using that by (metis bit_and_iff bit_mask_iff not_less)
  qed
  consider "j = k" | "j < k" | "k < j" by linarith
  then show "bit (lane k (push_bit (16 * j) (ucast w))) n = bit (if j = k then ucast w else 0 :: u16) n"
  proof cases
    case 2
    then have "16 \<le> 16 * k + n - 16 * j" by linarith
    then show ?thesis using 2 hi by (simp add: lane_def bit_simps)
  next
    case 3
    then have "16 * k + n < 16 * j" using n by linarith
    then show ?thesis using 3 by (simp add: lane_def bit_simps)
  qed (use n assms(2) in \<open>simp add: lane_def bit_simps\<close>)
qed

lemma lane_bytes: "k < 4 \<Longrightarrow> take 2 (drop (2 * k) (to_le 8 (unat v))) = to_le 2 (unat (lane k v))"
proof (rule nth_equalityI)
  fix i assume k: "k < 4" and "i < length (take 2 (drop (2 * k) (to_le 8 (unat v))))"
  then have i: "i < 2" by simp
  have "(ucast (drop_bit (8 * (2 * k + i)) v) :: u8) = ucast (drop_bit (8 * i) (lane k v))"
    using i by (intro bit_word_eqI) (auto simp: lane_def bit_simps algebra_simps)
  then show "take 2 (drop (2 * k) (to_le 8 (unat v))) ! i = to_le 2 (unat (lane k v)) ! i"
    using i k by (simp add: nth_to_le_word)
qed simp

lemma half16_lane:
  assumes "unat (white :: u32) < 2 ^ 16" "\<And>q. unat (bl_fb_get_pixel_ptr i m src q 0) < 2 ^ 16" "n < 16" "k < 4"
    "fg = push_bit 48 (ucast white) OR push_bit 32 (ucast white) OR push_bit 16 (ucast white) OR ucast white"
  shows "lane k (glyph_half16 i fg (bl_font_lookup_table2 ! n) src k0 m) =
    (if bit n (3 - k) then ucast white else ucast (bl_fb_get_pixel_ptr i m src (k0 + of_nat k) 0))"
proof -
  have z: "lane k (ucast w) = (if k = 0 then ucast w else 0)" if "unat (w :: u32) < 2 ^ 16" for w
    using lane_push [OF that assms(4), of 0] by auto
  have p: "lane k (push_bit 16 (ucast w)) = (if k = 1 then ucast w else 0)" "lane k (push_bit 32 (ucast w)) = (if k = 2 then ucast w else 0)"
    "lane k (push_bit 48 (ucast w)) = (if k = 3 then ucast w else 0)" if "unat (w :: u32) < 2 ^ 16" for w
    using lane_push [OF that assms(4), of 1] lane_push [OF that assms(4), of 2] lane_push [OF that assms(4), of 3] by auto
  have m: "lane k (bl_font_lookup_table2 ! n) = (if bit n (3 - k) then NOT 0 else 0)"
    using table2_pixel [OF assms(3,4)] by (simp add: lane_def)
  have k: "k = 0 \<or> k = 1 \<or> k = 2 \<or> k = 3" using assms(4) by auto
  have f: "lane k fg = ucast white"
    unfolding assms(5) lane_simps [OF assms(4)] z [OF assms(1)] p [OF assms(1)] using k by auto
  have b: "lane k (push_bit 0 (ucast (bl_fb_get_pixel_ptr i m src k0 0)) OR push_bit 16 (ucast (bl_fb_get_pixel_ptr i m src (k0 + 1) 0)) OR
       push_bit 32 (ucast (bl_fb_get_pixel_ptr i m src (k0 + 2) 0)) OR push_bit 48 (ucast (bl_fb_get_pixel_ptr i m src (k0 + 3) 0))) =
      ucast (bl_fb_get_pixel_ptr i m src (k0 + of_nat k) 0)"
    unfolding lane_simps [OF assms(4)] push_bit_0_id id_apply z [OF assms(2)] p [OF assms(2)] using k by auto
  show ?thesis unfolding glyph_half16_def lane_simps(1,2,3) [OF assms(4)] f b [unfolded lane_simps [OF assms(4)]] m
    using f b unfolding lane_simps [OF assms(4)] by auto
qed

lemma pixel_from_corner: "bl_fb_get_pixel_ptr i m (bg + pixel_offset i x y) c 0 = bl_fb_get_pixel_ptr i m bg (x + c) y"
proof -
  have "bg + pixel_offset i x y + pixel_offset i c 0 = bg + pixel_offset i (x + c) y" by (simp add: pixel_offset_def algebra_simps)
  then show ?thesis by (simp only: bl_fb_get_pixel_ptr_def)
qed

lemma nibble_bits: "k < 4 \<Longrightarrow> bit (unat (drop_bit 4 (g :: u8) AND 0xf)) (3 - k) = bit g (7 - k)" "k < 4 \<Longrightarrow> bit (unat (g AND 0xf)) (3 - k) = bit g (3 - k)"
  "unat (drop_bit 4 g AND 0xf) < 16" "unat (g AND 0xf) < 16"
proof -
  have f: "(0xf :: u8) = mask 4" by (simp add: mask_eq_exp_minus_1)
  show "unat (drop_bit 4 g AND 0xf) < 16" "unat (g AND 0xf) < 16" unfolding f and_mask_unat by simp_all
  show "bit (unat (drop_bit 4 g AND 0xf)) (3 - k) = bit g (7 - k)" if "k < 4"
    using that unfolding f by (auto simp: bit_unsigned_iff bit_simps)
  show "bit (unat (g AND 0xf)) (3 - k) = bit g (3 - k)" if "k < 4"
    using that unfolding f by (auto simp: bit_unsigned_iff bit_simps)
qed

text \<open>What a row of the glyph should show.\<close>

definition glyph_pixel :: "bl_video_info \<Rightarrow> bl_video_color_t \<Rightarrow> mem \<Rightarrow> addr \<Rightarrow> u8 \<Rightarrow> u32 \<Rightarrow> u32 \<Rightarrow> nat \<Rightarrow> bl_video_color_t" where
  "glyph_pixel i white m bg g x y c = (if bit g (7 - c) then white else bl_fb_get_pixel_ptr i m bg (x + of_nat c) y)"

lemma glyph_row16_bytes:
  assumes "vi_bytes_per_pixel i = 2" "pixel_format i" "unat white < 2 ^ 16"
    "\<And>c v. unat c < 8 \<Longrightarrow> bl_fb_get_pixel_ptr i (st64 m dst v) bg (x + c) y = bl_fb_get_pixel_ptr i m bg (x + c) y"
  shows "\<exists>bs. length bs = 16 \<and> glyph_row16 i white g (bg + pixel_offset i x y) dst m = mem_put m dst bs \<and>
    (\<forall>c<8. take 2 (drop (2 * c) bs) = to_le 2 (unat (glyph_pixel i white m bg g x y c)))"
proof -
  let ?src = "bg + pixel_offset i x y"
  let ?fg = "push_bit 48 (ucast white) OR push_bit 32 (ucast white) OR push_bit 16 (ucast white) OR ucast white :: u64"
  define v1 where "v1 = glyph_half16 i ?fg (bl_font_lookup_table2 ! unat (drop_bit 4 g AND 0xf)) ?src 0 m"
  define v2 where "v2 = glyph_half16 i ?fg (bl_font_lookup_table2 ! unat (g AND 0xf)) ?src 4 (st64 m dst v1)"
  let ?bs = "to_le 8 (unat v1) @ to_le 8 (unat v2)"
  have small: "unat (bl_fb_get_pixel_ptr i m' src q r) < 2 ^ 16" for m' src q r
    unfolding get_pixel_bytes [OF assms(2)] using le_nat_bound [of "pixel_bytes i m' src (unat q, unat r)"] assms(1)
    by (simp add: pixel_bytes_def unsigned_of_nat take_bit_eq_mod)
  have row: "glyph_row16 i white g ?src dst m = mem_put m dst ?bs"
    unfolding glyph_row16_def Let_def v1_def [symmetric] v2_def [symmetric] st64_twice ..
  have c16: "unat (ucast w :: u16) = unat w" if "unat (w :: u32) < 2 ^ 16" for w
    using that by (simp add: unsigned_ucast_eq take_bit_eq_mod)
  have g16: "unat (glyph_pixel i white m bg g x y c) < 2 ^ 16" for c using small assms(3) by (simp add: glyph_pixel_def)
  have "take 2 (drop (2 * c) ?bs) = to_le 2 (unat (glyph_pixel i white m bg g x y c))" if c: "c < 8" for c
  proof (cases "c < 4")
    case True
    have "lane c v1 = ucast (glyph_pixel i white m bg g x y c)"
      unfolding v1_def half16_lane [OF assms(3) small nibble_bits(3) True refl] nibble_bits(1) [OF True] pixel_from_corner glyph_pixel_def by simp
    then show ?thesis using lane_bytes [OF True, of v1] True c16 [OF g16, of c] by simp
  next
    case False
    then obtain k where k: "c = 4 + k" "k < 4" using c by (metis le_iff_add not_less nat_add_left_cancel_less numeral_Bit0)
    have "7 - c = 3 - k" using k by simp
    moreover have "unat (of_nat (4 + k) :: u32) < 8" using k(2) by (simp add: unsigned_of_nat take_bit_eq_mod del: of_nat_add)
    then have "bl_fb_get_pixel_ptr i (st64 m dst v1) bg (x + of_nat (4 + k)) y = bl_fb_get_pixel_ptr i m bg (x + of_nat (4 + k)) y" by (rule assms(4))
    ultimately have "lane k v2 = ucast (glyph_pixel i white m bg g x y c)"
      unfolding v2_def half16_lane [OF assms(3) small nibble_bits(4) k(2) refl] nibble_bits(2) [OF k(2)] pixel_from_corner glyph_pixel_def k(1) by simp
    moreover have "take 2 (drop (2 * c) ?bs) = take 2 (drop (2 * k) (to_le 8 (unat v2)))" using k by simp
    ultimately show ?thesis using lane_bytes [OF k(2), of v2] c16 [OF g16, of c] by simp
  qed
  then show ?thesis using row by (intro exI [of _ ?bs]) simp
qed

text \<open>A background apart from the target keeps its pixels while a row is written.\<close>

lemma background_kept:
  assumes "buffer_ok i bg" "buffer_ok i d" "apart d (pitch i * height i) bg (pitch i * height i)" "bpp i * width i \<le> pitch i"
    "X + length bs \<le> pitch i" "y < height i" "pixel_format i" "unat c < width i" "unat j < height i" "bs \<noteq> []"
  shows "bl_fb_get_pixel_ptr i (mem_put m (d + of_nat (pitch i * y + X)) bs) bg c j = bl_fb_get_pixel_ptr i m bg c j"
proof -
  have r: "pitch i * y + X + length bs \<le> pitch i * height i" by (rule row_in_buffer [OF assms(6,5)])
  moreover have "0 < length bs" using assms(10) by simp
  ultimately have u: "unat (d + of_nat (pitch i * y + X)) = unat d + (pitch i * y + X)"
    by (intro buffer_at(1) [OF assms(2)]) linarith
  have "mem_get (mem_put m (d + of_nat (pitch i * y + X)) bs) bg (pitch i * height i) = mem_get m bg (pitch i * height i)"
  proof (rule mem_get_put_apart)
    show "apart (d + of_nat (pitch i * y + X)) (length bs) bg (pitch i * height i)"
      using assms(3) r unfolding apart_def u by linarith
    show "fits (d + of_nat (pitch i * y + X)) (length bs)" using assms(2) r unfolding fits_def u buffer_ok_def by linarith
    show "fits bg (pitch i * height i)" using assms(1) by (simp add: buffer_ok_def)
  qed
  from pixel_bytes_cong [OF this assms(4,8,9)] show ?thesis unfolding get_pixel_bytes [OF assms(7)] by simp
qed

lemma glyph_rows16:
  assumes "vi_bytes_per_pixel i = 2" "pixel_format i" "unat white < 2 ^ 16" "buffer_ok i bg" "buffer_ok i d"
    "apart d (pitch i * height i) bg (pitch i * height i)" "bpp i * width i \<le> pitch i" "unat x + 8 \<le> width i"
    "unat y + length gs \<le> height i"
  shows "\<exists>ls. length ls = length gs \<and> (\<forall>l \<in> set ls. length l = 16) \<and>
    glyph_rows i white gs (bg + pixel_offset i x y) (d + pixel_offset i x y) m = put_rows (vi_pitch i) (d + pixel_offset i x y) ls m \<and>
    (\<forall>r<length gs. \<forall>c<8. take 2 (drop (2 * c) (ls ! r)) = to_le 2 (unat (glyph_pixel i white m bg (gs ! r) x (y + of_nat r) c)))"
  using assms(9)
proof (induction gs arbitrary: y m)
  case (Cons g gs)
  let ?dst = "d + pixel_offset i x y"
  have y: "unat y < height i" using Cons.prems by simp
  have X: "bpp i * unat x + 16 \<le> pitch i"
  proof -
    have "bpp i * (unat x + 8) \<le> bpp i * width i" using assms(8) by (rule mult_le_mono2)
    then show ?thesis using assms(1,7) by simp
  qed
  have xc: "unat (x + c) < width i" if "unat c < 8" for c
  proof -
    have "unat x + unat c < 2 ^ 32" using assms(8) that unat_lt2p [of "vi_width i"] by simp
    then have "unat (x + c) = unat x + unat c" by (simp add: unat_word_ariths)
    then show ?thesis using assms(8) that by simp
  qed
  have kept: "bl_fb_get_pixel_ptr i (mem_put m' ?dst bs) bg (x + c) j = bl_fb_get_pixel_ptr i m' bg (x + c) j"
    if "unat c < 8" "unat j < height i" "length bs \<le> 16" "bs \<noteq> []" for m' bs c j
    using background_kept [OF assms(4-7) _ y assms(2) xc [OF that(1)] that(2,4), of "bpp i * unat x" m'] X that(3) unfolding pixel_offset_nat by simp
  have k64: "bl_fb_get_pixel_ptr i (st64 m ?dst v) bg (x + c) y = bl_fb_get_pixel_ptr i m bg (x + c) y" if "unat c < 8" for c v
  proof -
    have "to_le 8 (unat v) \<noteq> []" by (metis length_to_le list.size(3) zero_neq_numeral)
    then show ?thesis unfolding st64_def by (intro kept [OF that y]) simp_all
  qed
  obtain bs where bs: "length bs = 16" "glyph_row16 i white g (bg + pixel_offset i x y) ?dst m = mem_put m ?dst bs"
      "\<forall>c<8. take 2 (drop (2 * c) bs) = to_le 2 (unat (glyph_pixel i white m bg g x y c))"
    using glyph_row16_bytes [OF assms(1-3) k64] by blast
  have ne: "bs \<noteq> []" using bs(1) by auto
  have step: "b + pixel_offset i x y + vi_pitch i = b + pixel_offset i x (y + 1)" for b by (simp add: pixel_offset_def algebra_simps)
  have y1: "unat (y + 1) = unat y + 1 \<or> gs = []"
  proof (cases "gs = []")
    case False
    then have "unat y + 1 < 2 ^ 32" using Cons.prems unat_lt2p [of "vi_height i"] by (cases gs) simp_all
    then show ?thesis by (simp add: unat_word_ariths)
  qed simp
  show ?case
  proof (cases "gs = []")
    case True
    then show ?thesis using bs assms(1) by (intro exI [of _ "[bs]"]) (simp add: glyph_row_def)
  next
    case False
    then have len: "unat (y + 1) + length gs \<le> height i" using y1 Cons.prems by simp
    from Cons.IH [OF this, of "mem_put m ?dst bs"] obtain ls where ls: "length ls = length gs" "\<forall>l \<in> set ls. length l = 16"
        "glyph_rows i white gs (bg + pixel_offset i x (y + 1)) (d + pixel_offset i x (y + 1)) (mem_put m ?dst bs) =
         put_rows (vi_pitch i) (d + pixel_offset i x (y + 1)) ls (mem_put m ?dst bs)"
        "\<forall>r<length gs. \<forall>c<8. take 2 (drop (2 * c) (ls ! r)) =
          to_le 2 (unat (glyph_pixel i white (mem_put m ?dst bs) bg (gs ! r) x (y + 1 + of_nat r) c))"
      by blast
    have px: "take 2 (drop (2 * c) ((bs # ls) ! r)) = to_le 2 (unat (glyph_pixel i white m bg ((g # gs) ! r) x (y + of_nat r) c))"
      if r: "r < Suc (length gs)" and c: "c < 8" for r c
    proof (cases r)
      case (Suc q)
      then have q: "q < length gs" using r by simp
      have "unat (of_nat (Suc q) :: u32) = Suc q" using q Cons.prems unat_lt2p [of "vi_height i"] by (intro unat_of_nat_eq) simp
      moreover have "unat y + Suc q < 2 ^ 32" using q Cons.prems unat_lt2p [of "vi_height i"] by simp
      ultimately have j: "unat (y + of_nat (Suc q)) < height i" using q Cons.prems by (simp add: unat_word_ariths del: of_nat_Suc)
      have "unat (of_nat c :: u32) < 8" using c by (simp add: unsigned_of_nat take_bit_eq_mod)
      then have "glyph_pixel i white (mem_put m ?dst bs) bg (gs ! q) x (y + of_nat (Suc q)) c = glyph_pixel i white m bg (gs ! q) x (y + of_nat (Suc q)) c"
        unfolding glyph_pixel_def using kept [OF _ j, of "of_nat c" bs m] bs(1) ne by (auto simp del: of_nat_Suc)
      moreover have yq: "y + 1 + of_nat q = y + of_nat (Suc q)" by simp
      moreover have "take 2 (drop (2 * c) (ls ! q)) =
          to_le 2 (unat (glyph_pixel i white (mem_put m ?dst bs) bg (gs ! q) x (y + of_nat (Suc q)) c))"
        using ls(4) q c unfolding yq [symmetric] by blast
      ultimately show ?thesis using Suc by (simp del: of_nat_Suc)
    qed (use bs(3) c in simp)
    show ?thesis
      using bs(1,2) ls(1-3) px assms(1) by (intro exI [of _ "bs # ls"]) (simp add: glyph_row_def step All_less_Suc2)
  qed
qed simp

text \<open>A glyph shows its bits in white over the background.\<close>

lemma blit_glyph_pixels:
  assumes "fb_geometry s" "pixel_format (fb_info s)" "vi_bytes_per_pixel (fb_info s) = 2"
    "unat (bl_fb_prepare_color (fb_info s) 0xff 0xff 0xff 0xff) < 2 ^ 16" "buffer_ok (fb_info s) bg"
    "apart (fb_double_buffer s) (pitch (fb_info s) * height (fb_info s)) bg (pitch (fb_info s) * height (fb_info s))"
    "in_screen (fb_info s) x y 8 16" "\<not> sint ch < 0x20" "c < 8" "r < 16"
  shows "bl_fb_get_pixel (x + of_nat c) (y + of_nat r) (bl_fb_blit_glyph ch bg x y s) =
    (if bit (bl_font ! unat ch ! r) (7 - c) then bl_fb_prepare_color (fb_info s) 0xff 0xff 0xff 0xff
     else bl_fb_get_pixel_ptr (fb_info s) (mem s) bg (x + of_nat c) (y + of_nat r))"
proof -
  let ?i = "fb_info s" and ?d = "fb_double_buffer s" and ?white = "bl_fb_prepare_color (fb_info s) 0xff 0xff 0xff 0xff"
  let ?s = "bl_fb_blit_glyph ch bg x y s" and ?gs = "bl_font ! unat ch"
  note gf = geometry_facts [OF assms(1)]
  have len: "length ?gs = 16" by (rule length_glyph [OF printable_ascii [OF assms(8)]])
  have xy: "unat x + 8 \<le> width ?i" "unat y + length ?gs \<le> height ?i" using assms(7) len by (simp_all add: in_screen_def)
  obtain ls where ls: "length ls = length ?gs" "\<forall>l \<in> set ls. length l = 16"
      "glyph_rows ?i ?white ?gs (bg + pixel_offset ?i x y) (?d + pixel_offset ?i x y) (mem s) = put_rows (vi_pitch ?i) (?d + pixel_offset ?i x y) ls (mem s)"
      "\<forall>r<length ?gs. \<forall>c<8. take 2 (drop (2 * c) (ls ! r)) = to_le 2 (unat (glyph_pixel ?i ?white (mem s) bg (?gs ! r) x (y + of_nat r) c))"
    using glyph_rows16 [OF assms(3,2,4,5) gf(6) assms(6) gf(4) xy, of "mem s"] by blast
  have t: "bl_fb_get_target_ptr (bl_fb_update_dirty_area x y w h s) = ?d" for w h using gf(9,10) by (simp add: bl_fb_get_target_ptr_def)
  have e: "?s = (bl_fb_update_dirty_area x y 8 16 s)\<lparr>mem := put_rows (vi_pitch ?i) (?d + pixel_offset ?i x y) ls (mem s)\<rparr>"
    using assms(8) ls(3) t by (simp add: bl_fb_blit_glyph_def Let_def BL_FONT_CHARACTER_WIDTH_def BL_FONT_CHARACTER_HEIGHT_def)
  have fld: "fb_info ?s = ?i" "bl_fb_get_target_ptr ?s = ?d" "mem ?s = put_rows (vi_pitch ?i) (?d + pixel_offset ?i x y) ls (mem s)"
    unfolding e using gf(9,10) by (simp_all add: bl_fb_get_target_ptr_def)
  have fit: "fits ?d (pitch ?i * height ?i)" using gf(6) by (simp add: buffer_ok_def)
  have ux: "unat (x + of_nat c) = unat x + c" using xy(1) assms(9) unat_lt2p [of "vi_width ?i"] by (intro unat_add_lt) simp
  have uy: "unat (y + of_nat r) = unat y + r" using xy(2) len assms(10) unat_lt2p [of "vi_height ?i"] by (intro unat_add_lt) simp
  have b: "unat x + c < width ?i" "unat y + r < height ?i" using xy len assms(9,10) by simp_all
  have in_r: "(unat x + c, unat y + r) \<in> rect x y 8 16" using assms(9,10) by (simp add: rect_def)
  have "pixel_bytes ?i (mem ?s) ?d (unat x + c, unat y + r) = take 2 (drop (2 * c) (ls ! r))"
    using put_rows_pixels [OF gf(3,2,4) fit assms(7) _ _ b, of ls "mem s"] ls(1,2) len in_r assms(3) unfolding fld(3) by simp
  also have "\<dots> = to_le 2 (unat (glyph_pixel ?i ?white (mem s) bg (?gs ! r) x (y + of_nat r) c))" using ls(4) len assms(9,10) by simp
  finally have px: "pixel_bytes ?i (mem ?s) ?d (unat x + c, unat y + r) = to_le 2 (unat (glyph_pixel ?i ?white (mem s) bg (?gs ! r) x (y + of_nat r) c))" .
  have "unat (bl_fb_get_pixel_ptr ?i (mem s) bg (x + of_nat c) (y + of_nat r)) < 2 ^ 16"
    unfolding get_pixel_bytes [OF assms(2)] using le_nat_bound [of "pixel_bytes ?i (mem s) bg (unat (x + of_nat c), unat (y + of_nat r))"] assms(3)
    by (simp add: pixel_bytes_def unsigned_of_nat take_bit_eq_mod)
  then have "unat (glyph_pixel ?i ?white (mem s) bg (?gs ! r) x (y + of_nat r) c) < 2 ^ 16" using assms(4) by (simp add: glyph_pixel_def)
  then have "bl_fb_get_pixel (x + of_nat c) (y + of_nat r) ?s = glyph_pixel ?i ?white (mem s) bg (?gs ! r) x (y + of_nat r) c"
    unfolding bl_fb_get_pixel_def fld(1,2) get_pixel_bytes [OF assms(2)] ux uy px by (simp add: le_nat_to_le)
  then show ?thesis by (simp add: glyph_pixel_def)
qed

end
