(* ===== verification/Bl_Gui.thy ===== *)
theory Bl_Gui
  imports Bl_Glyphs
begin

text \<open>
  The graphical shell window: src/boot-loader/core/gui/bitmap.c and gui-app.c. The structure of
  the window is a record; its page vectors are memory. A string handed to the window is the list of its bytes
  before the terminator. \<open>gui0\<close> stands for the content of the fresh block the structure is allocated in.
\<close>

unbundle bit_operations_syntax

record bl_gui_shell_line =
  sl_line :: u32
  sl_column :: u32

record bl_gui_shell_content =
  updated_line :: bl_gui_shell_line
  current_line :: bl_gui_shell_line
  vector :: addr

text \<open>\<open>gui_active\<close> is the index 1 of the pages.\<close>

record bl_gui =
  background :: addr
  shell_x :: u32
  shell_y :: u32
  shell_w :: u32
  shell_h :: u32
  prompt_x :: u32
  prompt_y :: u32
  prompt_w :: u32
  prompt_h :: u32
  rows :: u32
  cols :: u32
  should_scroll :: bool
  scroll :: u32
  viewed_lines :: u32
  gui_active :: bool
  page0 :: bl_gui_shell_content
  page1 :: bl_gui_shell_content

record gui_st = fb_st +
  bl_gui_app :: "bl_gui option"
  gui_prepared :: bool
  gui_output :: bool

definition sizeof_gui :: u32 where "sizeof_gui = 100"

subsection \<open>Backgrounds\<close>

definition background_color :: "bl_video_info \<Rightarrow> nat \<Rightarrow> nat \<Rightarrow> bl_video_color_t" where
  "background_color info j i = bl_fb_prepare_color info
     (if j = 0 then 0x7f else of_nat (i * 2)) (if j = 1 then 0x7f else of_nat i) (if j = 2 then 0x7f else of_nat i) 0x7f"

text \<open>Three rows of 32 rectangles.\<close>

definition bl_bitmap_set_background_image_default :: "'a fb_st_scheme \<Rightarrow> 'a fb_st_scheme" where
  "bl_bitmap_set_background_image_default s =
     (let x = bl_fb_get_width s; y = bl_fb_get_height s
      in fold (\<lambda>j. fold (\<lambda>i s. bl_video_fill_rectangle (background_color (fb_info s) j i)
             (of_nat i * (x div 32)) (of_nat j * (y div 3)) (x div 32) (y div 3) s) [0..<32]) [0..<3] s)"

definition bl_bitmap_set_background :: "bool \<Rightarrow> 'a fb_st_scheme \<Rightarrow> (bl_status \<times> addr \<times> 'a fb_st_scheme) option" where
  "bl_bitmap_set_background ptr s =
     (if \<not> ptr then Some (BL_STATUS_INVALID_PARAMETERS, 0, s)
      else do {
        (p, s1) \<leftarrow> bl_heap_alloc s (bl_video_get_width s * bl_video_get_height s * bl_video_get_bpp s);
        if p = 0 then Some (BL_STATUS_MEMORY_ALLOCATION_FAILED, p, s1)
        else Some (BL_STATUS_SUCCESS, p, bl_bitmap_set_background_image_default (bl_fb_set_render_ptr p s1)) })"

fun blend_column :: "nat \<Rightarrow> u32 \<Rightarrow> u32 \<Rightarrow> 'a fb_st_scheme \<Rightarrow> 'a fb_st_scheme" where
  "blend_column 0 x y s = s"
| "blend_column (Suc n) x y s =
     (let (color, dummy) = bl_alpha_blend_color (fb_info s) (bl_fb_prepare_color (fb_info s) 0xf 0xf 0xf 0xf) (bl_fb_get_pixel x y s) 0xa0
      in blend_column n x (y + 1) (bl_fb_set_pixel color x y s))"

fun blend_columns :: "nat \<Rightarrow> nat \<Rightarrow> u32 \<Rightarrow> u32 \<Rightarrow> 'a fb_st_scheme \<Rightarrow> 'a fb_st_scheme" where
  "blend_columns 0 h x y s = s"
| "blend_columns (Suc n) h x y s = blend_columns n h (x + 1) y (blend_column h x y s)"

text \<open>The position and size, and the screen.\<close>

definition bl_bitmap_blit_shell_background :: "'a fb_st_scheme \<Rightarrow> (u32 \<times> u32 \<times> u32 \<times> u32) \<times> 'a fb_st_scheme" where
  "bl_bitmap_blit_shell_background s =
     (let x = bl_video_get_width s div 20; y = bl_video_get_height s div 20;
          w = bl_video_get_width s * 9 div 10; h = bl_video_get_height s * 9 div 10;
          h' = h - h mod BL_FONT_CHARACTER_HEIGHT
      in ((x, y, w, h'), blend_columns (unat w) (unat h') x y s))"

definition bl_bitmap_set_shell_dimensions :: "'a fb_st_scheme \<Rightarrow> (u32 \<times> u32 \<times> u32 \<times> u32) \<times> 'a fb_st_scheme" where
  "bl_bitmap_set_shell_dimensions s = bl_bitmap_blit_shell_background s"

definition bl_bitmap_blit_prompt_background :: "'a fb_st_scheme \<Rightarrow> (u32 \<times> u32 \<times> u32 \<times> u32) \<times> 'a fb_st_scheme" where
  "bl_bitmap_blit_prompt_background s =
     (let x = bl_video_get_width s div 20; y = bl_video_get_height s * 16 div 20;
          w = bl_video_get_width s * 9 div 10; h = bl_video_get_height s div 10
      in ((x, y, w, h), blend_columns (unat w) (unat h) x y s))"

definition bl_bitmap_set_prompt_dimensions :: "'a fb_st_scheme \<Rightarrow> (u32 \<times> u32 \<times> u32 \<times> u32) \<times> 'a fb_st_scheme" where
  "bl_bitmap_set_prompt_dimensions s = bl_bitmap_blit_prompt_background s"

definition first_line :: bl_gui_shell_line where "first_line = \<lparr>sl_line = 0, sl_column = 0\<rparr>"

definition bl_bitmap_reset_page_vector :: "bl_gui_shell_content \<Rightarrow> u32 \<Rightarrow> u32 \<Rightarrow> 'a fb_st_scheme \<Rightarrow> bl_gui_shell_content \<times> 'a fb_st_scheme" where
  "bl_bitmap_reset_page_vector page rws cls s =
     (if vector page = 0 then (page, s)
      else (page\<lparr>updated_line := first_line, current_line := first_line\<rparr>,
            s\<lparr>mem := snd (bl_memset (mem s) (vector page) 0 ((rws + 1) * cls))\<rparr>))"

definition bl_bitmap_init_page_vector :: "bl_gui_shell_content \<Rightarrow> u32 \<Rightarrow> u32 \<Rightarrow> 'a fb_st_scheme \<Rightarrow>
    (bl_status \<times> bl_gui_shell_content \<times> 'a fb_st_scheme) option" where
  "bl_bitmap_init_page_vector page rws cls s = do {
     (p, s1) \<leftarrow> bl_heap_alloc s ((rws + 1) * cls);
     let page1 = page\<lparr>vector := p\<rparr>;
     if p = 0 then Some (BL_STATUS_MEMORY_ALLOCATION_FAILED, page1, s1)
     else (case bl_bitmap_reset_page_vector page1 rws cls s1 of (page2, s2) \<Rightarrow> Some (BL_STATUS_SUCCESS, page2, s2)) }"

subsection \<open>Pages\<close>

definition bl_gui_app_shell_pos :: "bl_gui \<Rightarrow> bl_gui_shell_line \<Rightarrow> u32" where
  "bl_gui_app_shell_pos g l = sl_line l * cols g + sl_column l"

definition bl_gui_app_change_page :: "bl_gui \<Rightarrow> u32 \<Rightarrow> bool" where
  "bl_gui_app_change_page g line_index \<longleftrightarrow> line_index + 1 = viewed_lines g"

definition gui_page :: "bl_gui \<Rightarrow> bl_gui_shell_content" where
  "gui_page g = (if gui_active g then page1 g else page0 g)"

definition set_page :: "bl_gui_shell_content \<Rightarrow> bl_gui \<Rightarrow> bl_gui" where
  "set_page p g = (if gui_active g then g\<lparr>page1 := p\<rparr> else g\<lparr>page0 := p\<rparr>)"

definition bl_gui_app_swap_pages :: "bl_gui \<Rightarrow> 'a fb_st_scheme \<Rightarrow> bl_gui \<times> 'a fb_st_scheme" where
  "bl_gui_app_swap_pages g s =
     (let g1 = g\<lparr>gui_active := \<not> gui_active g\<rparr>
      in case bl_bitmap_reset_page_vector (gui_page g1) (rows g1) (cols g1) s of (p, s1) \<Rightarrow> (set_page p g1, s1))"

text \<open>One character: stored in the line, or the next line and, behind the last one, the other page.\<close>

definition update_pages_char :: "u8 \<Rightarrow> bl_gui \<Rightarrow> 'a fb_st_scheme \<Rightarrow> bl_gui \<times> 'a fb_st_scheme" where
  "update_pages_char c g s =
     (let page = gui_page g; cur = current_line page
      in if sl_column cur + 1 < cols g \<and> c \<noteq> 0xa then
           (set_page (page\<lparr>current_line := cur\<lparr>sl_column := sl_column cur + 1\<rparr>\<rparr>) g,
            s\<lparr>mem := (mem s)(vector page + bl_gui_app_shell_pos g cur := c)\<rparr>)
         else let cur' = \<lparr>sl_line = sl_line cur + 1, sl_column = 0\<rparr>; g1 = set_page (page\<lparr>current_line := cur'\<rparr>) g
              in if sl_line cur' = rows g then bl_gui_app_swap_pages (g1\<lparr>should_scroll := True\<rparr>) s else (g1, s))"

fun update_pages_loop :: "u8 list \<Rightarrow> bl_gui \<Rightarrow> 'a fb_st_scheme \<Rightarrow> bl_gui \<times> 'a fb_st_scheme" where
  "update_pages_loop [] g s = (g, s)"
| "update_pages_loop (c # cs) g s = (case update_pages_char c g s of (g1, s1) \<Rightarrow> update_pages_loop cs g1 s1)"

definition bl_gui_app_update_pages :: "u8 list \<Rightarrow> 'a gui_st_scheme \<Rightarrow> 'a gui_st_scheme" where
  "bl_gui_app_update_pages str s =
     (case bl_gui_app s of None \<Rightarrow> s
      | Some g \<Rightarrow> if vector (page0 g) = 0 \<or> vector (page1 g) = 0 then s
          else case update_pages_loop str g s of (g1, s1) \<Rightarrow> s1\<lparr>bl_gui_app := Some g1\<rparr>)"

text \<open>The glyph at a position; the division by the number of columns may trap.\<close>

definition blit_at :: "bl_gui \<Rightarrow> u8 \<Rightarrow> u32 \<Rightarrow> 'a fb_st_scheme \<Rightarrow> 'a fb_st_scheme option" where
  "blit_at g c pos s =
     (if cols g = 0 then None
      else Some (bl_fb_blit_glyph c (background g) (shell_x g + pos mod cols g * BL_FONT_CHARACTER_WIDTH)
                   (shell_y g + pos div cols g * BL_FONT_CHARACTER_HEIGHT) s))"

fun clean_loop :: "bl_gui \<Rightarrow> nat \<Rightarrow> u32 \<Rightarrow> 'a fb_st_scheme \<Rightarrow> 'a fb_st_scheme option" where
  "clean_loop g 0 pos s = Some s"
| "clean_loop g (Suc n) pos s = do { s1 \<leftarrow> blit_at g 0x20 pos s; clean_loop g n (pos + 1) s1 }"

definition bl_gui_app_clean_shell_screen :: "bl_gui \<Rightarrow> 'a fb_st_scheme \<Rightarrow> 'a fb_st_scheme option" where
  "bl_gui_app_clean_shell_screen g s =
     (let pos = bl_gui_app_shell_pos g \<lparr>sl_line = 0, sl_column = 0\<rparr>;
          end_pos = bl_gui_app_shell_pos g \<lparr>sl_line = rows g - 1, sl_column = cols g - 1\<rparr>
      in clean_loop g (unat end_pos - unat pos) pos s)"

partial_function (option) flush_loop :: "bl_gui \<Rightarrow> addr \<Rightarrow> u32 \<Rightarrow> u32 \<Rightarrow> 'a fb_st_scheme \<Rightarrow> 'a fb_st_scheme option" where
  "flush_loop g v pos end_pos s =
     (if pos < end_pos then do {
        s1 \<leftarrow> blit_at g (mem s (v + pos)) pos s;
        let pos1 = pos + 1;
        flush_loop g v (if mem s1 (v + pos1) = 0 then pos1 + (cols g - pos1 mod cols g) else pos1) end_pos s1 }
      else Some s)"

definition bl_gui_app_flush_page_buffers :: "'a gui_st_scheme \<Rightarrow> 'a gui_st_scheme option" where
  "bl_gui_app_flush_page_buffers s =
     (case bl_gui_app s of None \<Rightarrow> Some s
      | Some g \<Rightarrow> if vector (page0 g) = 0 \<or> vector (page1 g) = 0 then Some s
          else do {
            (g1, s1) \<leftarrow> (if should_scroll g then map_option (Pair (g\<lparr>should_scroll := False\<rparr>)) (bl_gui_app_clean_shell_screen (g\<lparr>should_scroll := False\<rparr>) s)
                        else Some (g, s));
            let page = gui_page g1;
            s2 \<leftarrow> flush_loop g1 (vector page) (bl_gui_app_shell_pos g1 (updated_line page)) (bl_gui_app_shell_pos g1 (current_line page)) s1;
            Some (s2\<lparr>bl_gui_app := Some (set_page (page\<lparr>updated_line := current_line page\<rparr>) g1)\<rparr>) })"

definition bl_gui_app_print_str :: "u8 list \<Rightarrow> 'a gui_st_scheme \<Rightarrow> 'a gui_st_scheme option" where
  "bl_gui_app_print_str str s = do {
     s1 \<leftarrow> bl_gui_app_flush_page_buffers (bl_gui_app_update_pages str s);
     Some (if gui_prepared s1 then bl_video_update_from_double_buffer s1 else s1) }"

definition BOOT_LOADER_PROLOGUE :: "u8 list" where
  "BOOT_LOADER_PROLOGUE = ascii ''~~~Boot Loader Shell~~~'' @ [0xa]"

fun prologue_spaces :: "nat \<Rightarrow> 'a gui_st_scheme \<Rightarrow> 'a gui_st_scheme option" where
  "prologue_spaces 0 s = Some s"
| "prologue_spaces (Suc n) s = do { s1 \<leftarrow> bl_gui_app_print_str [0x20] s; prologue_spaces n s1 }"

text \<open>The size of the string counts its terminator.\<close>

definition bl_gui_app_print_prologue :: "bl_gui \<Rightarrow> 'a gui_st_scheme \<Rightarrow> 'a gui_st_scheme option" where
  "bl_gui_app_print_prologue g s = do {
     s1 \<leftarrow> bl_gui_app_print_str [0xa] s;
     s2 \<leftarrow> prologue_spaces (unat ((cols g - of_nat (length BOOT_LOADER_PROLOGUE + 1)) div 2)) s1;
     bl_gui_app_print_str BOOT_LOADER_PROLOGUE s2 }"

text \<open>The window's fields, up to the pages.\<close>

definition gui_layout :: "addr \<Rightarrow> u32 \<times> u32 \<times> u32 \<times> u32 \<Rightarrow> bl_gui \<Rightarrow> bl_gui" where
  "gui_layout bg d g = (case d of (x, y, w, h) \<Rightarrow>
     g\<lparr>background := bg, shell_x := x, shell_y := y, shell_w := w, shell_h := h,
       rows := h div BL_FONT_CHARACTER_HEIGHT, cols := w div BL_FONT_CHARACTER_WIDTH,
       should_scroll := False, scroll := 0, viewed_lines := 1, gui_active := False\<rparr>)"

definition bl_gui_app_setup :: "bl_gui \<Rightarrow> 'a gui_st_scheme \<Rightarrow> 'a gui_st_scheme option" where
  "bl_gui_app_setup gui0 s =
     (if bl_gui_app s \<noteq> None then Some s
      else do {
        (p, s1) \<leftarrow> bl_heap_alloc s sizeof_gui;
        if p = 0 then Some s1
        else do {
          (status, bg, s2) \<leftarrow> bl_bitmap_set_background True s1;
          if failed status then Some (s2\<lparr>bl_gui_app := Some (gui0\<lparr>background := bg\<rparr>)\<rparr>)
          else do {
            let (d, s3) = bl_bitmap_set_shell_dimensions s2;
            let g = gui_layout bg d gui0;
            (status0, p0, s4) \<leftarrow> bl_bitmap_init_page_vector (page0 g) (rows g) (cols g) s3;
            if failed status0 then Some (s4\<lparr>bl_gui_app := Some (g\<lparr>page0 := p0\<rparr>)\<rparr>)
            else do {
              (status1, p1, s5) \<leftarrow> bl_bitmap_init_page_vector (page1 g) (rows g) (cols g) s4;
              let g1 = g\<lparr>page0 := p0, page1 := p1\<rparr>;
              if failed status1 then Some (s5\<lparr>bl_gui_app := Some g1\<rparr>)
              else do {
                s6 \<leftarrow> bl_gui_app_print_prologue g1 (bl_fb_switch_from_renderer (s5\<lparr>bl_gui_app := Some g1, gui_output := True\<rparr>));
                Some (bl_video_update_from_double_buffer (s6\<lparr>gui_prepared := True\<rparr>)) } } } } })"

subsection \<open>The pages stay in their vectors\<close>

definition vec_size :: "bl_gui \<Rightarrow> nat" where
  "vec_size g = (unat (rows g) + 1) * unat (cols g)"

definition line_ok :: "bl_gui \<Rightarrow> bl_gui_shell_line \<Rightarrow> bool" where
  "line_ok g l \<longleftrightarrow> sl_line l < rows g \<and> sl_column l < cols g"

text \<open>A page vector: a block of its own, apart from both screen buffers.\<close>

definition vector_ok :: "bl_gui \<Rightarrow> 'a fb_st_scheme \<Rightarrow> addr \<Rightarrow> bool" where
  "vector_ok g s v \<longleftrightarrow> v \<noteq> 0 \<and> fits v (vec_size g) \<and>
     apart v (vec_size g) (fb_double_buffer s) (pitch (fb_info s) * height (fb_info s)) \<and>
     apart v (vec_size g) (vi_frame_buffer (fb_info s)) (pitch (fb_info s) * height (fb_info s))"

text \<open>The window lies in the screen; the active page is inside its lines.\<close>

definition gui_frame :: "bl_gui \<Rightarrow> 'a fb_st_scheme \<Rightarrow> bool" where
  "gui_frame g s \<longleftrightarrow> rows g \<noteq> 0 \<and> cols g \<noteq> 0 \<and> vec_size g < 2 ^ 32 \<and>
     vector_ok g s (vector (page0 g)) \<and> vector_ok g s (vector (page1 g)) \<and>
     unat (shell_x g) + 8 * unat (cols g) \<le> width (fb_info s) \<and> unat (shell_y g) + 16 * unat (rows g) \<le> height (fb_info s)"

definition gui_ok :: "bl_gui \<Rightarrow> 'a fb_st_scheme \<Rightarrow> bool" where
  "gui_ok g s \<longleftrightarrow> gui_frame g s \<and> line_ok g (current_line (gui_page g))"

definition only_vectors :: "bl_gui \<Rightarrow> mem \<Rightarrow> mem \<Rightarrow> bool" where
  "only_vectors g m m' \<longleftrightarrow> (\<forall>a. m' a \<noteq> m a \<longrightarrow> (\<exists>p \<in> {page0 g, page1 g}. unat (a - vector p) < vec_size g))"

text \<open>What an operation on the pages keeps of the window.\<close>

definition same_window :: "bl_gui \<Rightarrow> bl_gui \<Rightarrow> bool" where
  "same_window g g' \<longleftrightarrow> rows g' = rows g \<and> cols g' = cols g \<and> shell_x g' = shell_x g \<and> shell_y g' = shell_y g \<and> background g' = background g \<and>
     vector (page0 g') = vector (page0 g) \<and> vector (page1 g') = vector (page1 g)"

lemma same_window_refl [simp]: "same_window g g"
  by (simp add: same_window_def)

lemma same_window_trans: "same_window g g' \<Longrightarrow> same_window g' g'' \<Longrightarrow> same_window g g''"
  by (simp add: same_window_def)

lemma only_vectors_refl [simp]: "only_vectors g m m"
  by (simp add: only_vectors_def)

lemma only_vectors_trans: "only_vectors g m m' \<Longrightarrow> same_window g g' \<Longrightarrow> only_vectors g' m' m'' \<Longrightarrow> only_vectors g m m''"
  unfolding only_vectors_def same_window_def vec_size_def by (metis insertE insertI1 insertI2 singletonD)

lemma gui_ok_cong: "gui_ok g s \<Longrightarrow> fb_info s' = fb_info s \<Longrightarrow> fb_double_buffer s' = fb_double_buffer s \<Longrightarrow> gui_ok g s'"
  by (simp add: gui_ok_def gui_frame_def vector_ok_def)

lemma gui_frame_window: "gui_frame g s \<Longrightarrow> same_window g g' \<Longrightarrow> gui_frame g' s"
  by (simp add: gui_frame_def same_window_def vector_ok_def vec_size_def)

lemma line_pos:
  assumes "line_ok g l" "vec_size g < 2 ^ 32"
  shows "unat (bl_gui_app_shell_pos g l) = unat (sl_line l) * unat (cols g) + unat (sl_column l)"
    "unat (bl_gui_app_shell_pos g l) < unat (rows g) * unat (cols g)"
proof -
  have l: "unat (sl_line l) < unat (rows g)" "unat (sl_column l) < unat (cols g)" using assms(1) by (simp_all add: line_ok_def word_less_nat_alt)
  have "Suc (unat (sl_line l)) * unat (cols g) \<le> unat (rows g) * unat (cols g)" using l(1) by (intro mult_le_mono1) simp
  then have b: "unat (sl_line l) * unat (cols g) + unat (sl_column l) < unat (rows g) * unat (cols g)" using l(2) by simp
  moreover have "unat (rows g) * unat (cols g) < 2 ^ 32" using assms(2) by (simp add: vec_size_def)
  ultimately show "unat (bl_gui_app_shell_pos g l) = unat (sl_line l) * unat (cols g) + unat (sl_column l)"
    unfolding bl_gui_app_shell_pos_def by (simp add: unat_word_ariths)
  then show "unat (bl_gui_app_shell_pos g l) < unat (rows g) * unat (cols g)" using b by simp
qed

lemma set_page_simps [simp]:
  "rows (set_page p g) = rows g" "cols (set_page p g) = cols g" "shell_x (set_page p g) = shell_x g" "shell_y (set_page p g) = shell_y g"
  "gui_active (set_page p g) = gui_active g" "background (set_page p g) = background g" "gui_page (set_page p g) = p"
  by (simp_all add: set_page_def gui_page_def)

lemma set_page_window: "vector p = vector (gui_page g) \<Longrightarrow> same_window g (set_page p g)"
  by (simp add: same_window_def gui_page_def set_page_def)

lemma set_page_ok:
  assumes "gui_frame g s" "vector p = vector (gui_page g)" "line_ok g (current_line p)"
  shows "gui_ok (set_page p g) s" "same_window g (set_page p g)"
  using assms gui_frame_window [OF assms(1) set_page_window [OF assms(2)]] set_page_window [OF assms(2)]
  by (simp_all add: gui_ok_def line_ok_def)

lemma gui_page_mem: "gui_page g \<in> {page0 g, page1 g}"
  by (simp add: gui_page_def)

lemma swap_pages_ok:
  assumes "gui_frame g s" "bl_gui_app_swap_pages g s = (g', s')"
  shows "gui_ok g' s'" "same_window g g'" "only_vectors g (mem s) (mem s')" "s' = s\<lparr>mem := mem s'\<rparr>"
proof -
  let ?g = "g\<lparr>gui_active := \<not> gui_active g\<rparr>"
  let ?n = "(rows g + 1) * cols g"
  have w: "same_window g ?g" by (simp add: same_window_def)
  have ok: "gui_frame ?g s" by (rule gui_frame_window [OF assms(1) w])
  have v: "vector_ok ?g s (vector (gui_page ?g))" using ok gui_page_mem [of ?g] by (auto simp: gui_frame_def)
  then have v0: "vector (gui_page ?g) \<noteq> 0" by (simp add: vector_ok_def)
  define p where "p = (gui_page ?g)\<lparr>updated_line := first_line, current_line := first_line\<rparr>"
  have e: "g' = set_page p ?g" "s' = s\<lparr>mem := mem_put (mem s) (vector (gui_page ?g)) (replicate (unat (?n - 1)) 0)\<rparr>"
    using assms(2) v0 by (simp_all add: bl_gui_app_swap_pages_def Let_def bl_bitmap_reset_page_vector_def bl_memset_correct p_def)
  have "line_ok ?g first_line" using ok by (simp add: line_ok_def first_line_def gui_frame_def word_neq_0_conv)
  then have sp: "gui_ok g' s" "same_window ?g g'" unfolding e(1) by (intro set_page_ok [OF ok]; simp add: p_def)+
  show "gui_ok g' s'" using sp(1) by (rule gui_ok_cong) (simp_all add: e)
  show "same_window g g'" by (rule same_window_trans [OF w sp(2)])
  have "unat ?n = vec_size g"
  proof -
    have nz: "unat (cols g) \<noteq> 0" and vs: "vec_size g < 2 ^ 32" using assms(1) by (simp_all add: gui_frame_def unat_eq_0)
    have "(unat (rows g) + 1) * 1 \<le> vec_size g" unfolding vec_size_def using nz by (intro mult_le_mono2) simp
    then have "unat (rows g + 1) = unat (rows g) + 1" using vs by (simp add: unat_word_ariths)
    then show ?thesis using vs by (simp add: unat_word_ariths vec_size_def)
  qed
  moreover have "0 < vec_size g" using assms(1) by (simp add: gui_frame_def vec_size_def unat_gt_0 unat_eq_0)
  ultimately have "unat (?n - 1) \<le> vec_size g" by (metis le_less less_imp_diff_less unat_eq_zero unat_minus_one neq0_conv diff_le_self unsigned_0)
  then show "only_vectors g (mem s) (mem s')"
    unfolding e(2) only_vectors_def using gui_page_mem [of ?g] by (auto simp: mem_put_def split: if_splits)
  show "s' = s\<lparr>mem := mem s'\<rparr>" by (simp add: e)
qed

lemma update_pages_char_ok:
  assumes "gui_ok g s" "update_pages_char c g s = (g', s')"
  shows "gui_ok g' s' \<and> same_window g g' \<and> only_vectors g (mem s) (mem s') \<and> s' = s\<lparr>mem := mem s'\<rparr>"
proof -
  let ?p = "gui_page g" and ?cur = "current_line (gui_page g)"
  have l: "line_ok g ?cur" and fr: "gui_frame g s" using assms(1) by (simp_all add: gui_ok_def)
  have vs: "vec_size g < 2 ^ 32" using fr by (simp add: gui_frame_def)
  show ?thesis
  proof (cases "sl_column ?cur + 1 < cols g \<and> c \<noteq> 0xa")
    case True
    let ?p' = "?p\<lparr>current_line := ?cur\<lparr>sl_column := sl_column ?cur + 1\<rparr>\<rparr>"
    have e: "g' = set_page ?p' g" "s' = s\<lparr>mem := (mem s)(vector ?p + bl_gui_app_shell_pos g ?cur := c)\<rparr>"
      using assms(2) True by (simp_all add: update_pages_char_def Let_def)
    have sp: "gui_ok g' s" "same_window g g'" unfolding e(1) using l True by (intro set_page_ok [OF fr]; simp add: line_ok_def)+
    have "unat (bl_gui_app_shell_pos g ?cur) < vec_size g" using line_pos(2) [OF l vs] by (simp add: vec_size_def)
    then have "only_vectors g (mem s) (mem s')" unfolding only_vectors_def e(2) using gui_page_mem [of g] by (auto split: if_splits)
    then show ?thesis using sp gui_ok_cong [OF sp(1), of s'] by (simp add: e(2))
  next
    case False
    let ?cur' = "\<lparr>sl_line = sl_line ?cur + 1, sl_column = 0\<rparr>"
    let ?g = "set_page (?p\<lparr>current_line := ?cur'\<rparr>) g"
    have u: "update_pages_char c g s = (if sl_line ?cur + 1 = rows g then bl_gui_app_swap_pages (?g\<lparr>should_scroll := True\<rparr>) s else (?g, s))"
      using False unfolding update_pages_char_def Let_def by (simp only: if_False) simp
    have lt: "sl_line ?cur < rows g" "0 < cols g" using l fr by (simp_all add: line_ok_def gui_frame_def word_neq_0_conv)
    show ?thesis
    proof (cases "sl_line ?cur + 1 = rows g")
      case F: False
      have "unat (sl_line ?cur + 1) = unat (sl_line ?cur) + 1" by (rule unat_Suc_less [OF lt(1)])
      then have "sl_line ?cur + 1 < rows g" using lt(1) F by (simp add: word_less_nat_alt word_unat_eq_iff)
      then have sp: "gui_ok ?g s" "same_window g ?g" using lt by (intro set_page_ok [OF fr]; simp add: line_ok_def)+
      then show ?thesis using u assms(2) F by auto
    next
      case True
      have sw: "bl_gui_app_swap_pages (?g\<lparr>should_scroll := True\<rparr>) s = (g', s')" using u assms(2) True by simp
      have w: "same_window g (?g\<lparr>should_scroll := True\<rparr>)" using set_page_window [of "?p\<lparr>current_line := ?cur'\<rparr>" g] by (simp add: same_window_def)
      note sp = swap_pages_ok [OF gui_frame_window [OF fr w] sw]
      have "only_vectors g (mem s) (mem s')" by (rule only_vectors_trans [OF only_vectors_refl w sp(3)])
      then show ?thesis using sp(1,4) same_window_trans [OF w sp(2)] by blast
    qed
  qed
qed

lemma update_pages_loop_ok:
  assumes "gui_ok g s" "update_pages_loop cs g s = (g', s')"
  shows "gui_ok g' s' \<and> same_window g g' \<and> only_vectors g (mem s) (mem s') \<and> s' = s\<lparr>mem := mem s'\<rparr>"
  using assms
proof (induction cs arbitrary: g s)
  case (Cons c cs)
  obtain g1 s1 where 1: "update_pages_char c g s = (g1, s1)" by (cases "update_pages_char c g s")
  note k = update_pages_char_ok [OF Cons.prems(1) 1]
  have "update_pages_loop cs g1 s1 = (g', s')" using Cons.prems(2) 1 by simp
  with k have IH: "gui_ok g' s' \<and> same_window g1 g' \<and> only_vectors g1 (mem s1) (mem s') \<and> s' = s1\<lparr>mem := mem s'\<rparr>"
    using Cons.IH by blast
  then have "only_vectors g (mem s) (mem s')" using k only_vectors_trans by blast
  moreover have "s' = s\<lparr>mem := mem s'\<rparr>" using IH k by (metis heap_st.surjective heap_st.update_convs(1))
  ultimately show ?case using IH k same_window_trans by blast
qed simp

text \<open>The screen buffers do not notice.\<close>

lemma only_vectors_region:
  assumes "only_vectors g m m'" "vector_ok g s (vector (page0 g))" "vector_ok g s (vector (page1 g))"
    "b = fb_double_buffer s \<or> b = vi_frame_buffer (fb_info s)" "fits b (pitch (fb_info s) * height (fb_info s))"
  shows "mem_get m' b (pitch (fb_info s) * height (fb_info s)) = mem_get m b (pitch (fb_info s) * height (fb_info s))"
proof (rule mem_get_eqI)
  fix q assume q: "q < pitch (fb_info s) * height (fb_info s)"
  have "vec_size g \<le> unat (b + of_nat q - v)" if "v = vector (page0 g) \<or> v = vector (page1 g)" for v
    by (rule apart_offset [OF _ _ q assms(5)]) (use that assms(2-4) in \<open>auto simp: vector_ok_def\<close>)
  then show "m' (b + of_nat q) = m (b + of_nat q)" using assms(1) unfolding only_vectors_def by (metis insertE linorder_not_less singletonD)
qed

lemma fb_inv_cong:
  assumes "fb_inv s A" "fb_info s' = fb_info s" "fb_renderer s' = fb_renderer s" "fb_double_buffer s' = fb_double_buffer s"
    "fb_dirty_x s' = fb_dirty_x s" "fb_dirty_y s' = fb_dirty_y s" "fb_dirty_w s' = fb_dirty_w s" "fb_dirty_h s' = fb_dirty_h s"
    "\<And>b. b = fb_double_buffer s \<or> b = vi_frame_buffer (fb_info s) \<Longrightarrow>
      mem_get (mem s') b (pitch (fb_info s) * height (fb_info s)) = mem_get (mem s) b (pitch (fb_info s) * height (fb_info s))"
  shows "fb_inv s' A"
proof -
  have g: "fb_geometry s" "fb_geometry s'" using assms(1-4) by (simp_all add: fb_inv_def fb_geometry_def)
  note gf = geometry_facts [OF g(1)]
  have d: "dirty_ok s' = dirty_ok s" "dirty_rect s' = dirty_rect s" using assms(2,5-8) by (simp_all add: dirty_ok_def dirty_rect_def dirty_none_def)
  have "same_pixel s' q = same_pixel s q" if "q \<in> A" for q
  proof -
    obtain c j where cj: "q = (c, j)" by (cases q)
    then have b: "c < width (fb_info s)" "j < height (fb_info s)" using assms(1) that by (auto simp: fb_inv_def)
    show ?thesis unfolding same_pixel_def assms(2,4) cj
      using pixel_bytes_cong [OF assms(9) gf(4) b, of "fb_double_buffer s"] pixel_bytes_cong [OF assms(9) gf(4) b, of "vi_frame_buffer (fb_info s)"] by simp
  qed
  then show ?thesis using assms(1,2) g(2) d by (auto simp: fb_inv_def)
qed

subsection \<open>Printing\<close>

lemma fb_inv_mono: "fb_inv s B \<Longrightarrow> A \<subseteq> B \<Longrightarrow> fb_inv s A"
  by (auto simp: fb_inv_def)

text \<open>What drawing changes of a state.\<close>

definition drawn :: "'a fb_st_scheme \<Rightarrow> 'a fb_st_scheme \<Rightarrow> bool" where
  "drawn s s' \<longleftrightarrow> fb_info s' = fb_info s \<and> fb_double_buffer s' = fb_double_buffer s \<and> fb_st.more s' = fb_st.more s"

lemma drawn_refl [simp]: "drawn s s"
  by (simp add: drawn_def)

lemma drawn_trans: "drawn s s' \<Longrightarrow> drawn s' s'' \<Longrightarrow> drawn s s''"
  by (simp add: drawn_def)

lemma blit_drawn: "drawn s (bl_fb_blit_glyph c bg x y s)"
  by (simp add: drawn_def bl_fb_blit_glyph_def Let_def bl_fb_update_dirty_area_def)

lemma gui_frame_cong: "gui_frame g s \<Longrightarrow> drawn s s' \<Longrightarrow> gui_frame g s'"
  by (simp add: gui_frame_def vector_ok_def drawn_def)

lemma blit_at_ok:
  assumes "gui_frame g s" "fb_inv s A" "unat pos < unat (rows g) * unat (cols g)"
  shows "\<exists>s'. blit_at g c pos s = Some s' \<and> fb_inv s' A \<and> drawn s s'"
proof -
  let ?x = "shell_x g + pos mod cols g * 8" and ?y = "shell_y g + pos div cols g * 16" and ?i = "fb_info s"
  let ?s = "bl_fb_blit_glyph c (background g) ?x ?y s"
  have nz: "unat (cols g) \<noteq> 0" using assms(1) by (simp add: gui_frame_def unat_eq_0)
  have c: "unat (pos mod cols g) < unat (cols g)" "unat (pos div cols g) < unat (rows g)"
    using nz assms(3) by (simp_all add: unat_mod_distrib unat_div_distrib less_mult_imp_div_less)
  have sh: "unat (shell_x g) + 8 * unat (cols g) \<le> width ?i" "unat (shell_y g) + 16 * unat (rows g) \<le> height ?i"
    using assms(1) by (simp_all add: gui_frame_def)
  have "unat (shell_x g) + unat (pos mod cols g) * 8 < 2 ^ 32" "unat (shell_y g) + unat (pos div cols g) * 16 < 2 ^ 32"
    using c sh unat_lt2p [of "vi_width ?i"] unat_lt2p [of "vi_height ?i"] by simp_all
  then have "unat ?x = unat (shell_x g) + unat (pos mod cols g) * 8" "unat ?y = unat (shell_y g) + unat (pos div cols g) * 16"
    by (simp_all add: unat_word_ariths)
  then have "in_screen ?i ?x ?y 8 16" using c sh by (simp add: in_screen_def)
  then have "fb_inv ?s (A \<union> op_rect (Glyph c (background g) ?x ?y))"
    using fb_run_inv [OF assms(2), of "Glyph c (background g) ?x ?y"] by simp
  then have "fb_inv ?s A" by (rule fb_inv_mono) simp
  moreover have "blit_at g c pos s = Some ?s"
    using assms(1) by (simp add: blit_at_def gui_frame_def BL_FONT_CHARACTER_WIDTH_def BL_FONT_CHARACTER_HEIGHT_def)
  ultimately show ?thesis using blit_drawn by blast
qed

lemma clean_loop_ok:
  assumes "gui_frame g s" "fb_inv s A" "unat pos + n \<le> unat (rows g) * unat (cols g)"
  shows "\<exists>s'. clean_loop g n pos s = Some s' \<and> fb_inv s' A \<and> drawn s s'"
  using assms
proof (induction n arbitrary: pos s)
  case (Suc n)
  have p: "unat pos < unat (rows g) * unat (cols g)" using Suc.prems(3) by simp
  obtain s1 where 1: "blit_at g 0x20 pos s = Some s1" "fb_inv s1 A" "drawn s s1" using blit_at_ok [OF Suc.prems(1,2) p] by blast
  have "unat (rows g) * unat (cols g) < 2 ^ 32" using Suc.prems(1) by (simp add: gui_frame_def vec_size_def)
  then have "unat (pos + 1) = unat pos + 1" using p by (simp add: unat_word_ariths)
  then obtain s2 where "clean_loop g n (pos + 1) s1 = Some s2" "fb_inv s2 A" "drawn s1 s2"
    using Suc.IH [OF gui_frame_cong [OF Suc.prems(1) 1(3)] 1(2), of "pos + 1"] Suc.prems(3) by auto
  then show ?case using 1 drawn_trans by auto
qed simp

lemma clean_shell_screen_ok:
  assumes "gui_frame g s" "fb_inv s A"
  shows "\<exists>s'. bl_gui_app_clean_shell_screen g s = Some s' \<and> fb_inv s' A \<and> drawn s s'"
proof -
  let ?l = "\<lparr>sl_line = rows g - 1, sl_column = cols g - 1\<rparr>"
  have nz: "rows g \<noteq> 0" "cols g \<noteq> 0" and vs: "vec_size g < 2 ^ 32" using assms(1) by (simp_all add: gui_frame_def)
  have "line_ok g ?l" using nz by (simp add: line_ok_def word_less_nat_alt unat_minus_one unat_gt_0 unat_eq_0)
  then have "unat (bl_gui_app_shell_pos g ?l) < unat (rows g) * unat (cols g)" using vs by (rule line_pos(2))
  then show ?thesis
    unfolding bl_gui_app_clean_shell_screen_def Let_def by (intro clean_loop_ok [OF assms]) (simp add: bl_gui_app_shell_pos_def)
qed

text \<open>The flush returns: each step moves on, and never beyond the vector.\<close>

lemma flush_loop_ok:
  assumes "gui_frame g s" "fb_inv s A" "unat end_pos < unat (rows g) * unat (cols g)"
  shows "\<exists>s'. flush_loop g v pos end_pos s = Some s' \<and> fb_inv s' A \<and> drawn s s'"
  using assms
proof (induction "unat end_pos - unat pos" arbitrary: pos s rule: less_induct)
  case less
  show ?case
  proof (cases "pos < end_pos")
    case False
    then show ?thesis using less.prems(2) by (intro exI [of _ s]) (simp add: flush_loop.simps)
  next
    case True
    then have pe: "unat pos < unat end_pos" by (simp add: word_less_nat_alt)
    have p: "unat pos < unat (rows g) * unat (cols g)" using pe less.prems(3) by simp
    obtain s1 where 1: "blit_at g (mem s (v + pos)) pos s = Some s1" "fb_inv s1 A" "drawn s s1" using blit_at_ok [OF less.prems(1,2) p] by blast
    let ?q = "pos + 1 + (cols g - (pos + 1) mod cols g)"
    have vs: "unat (rows g) * unat (cols g) + unat (cols g) < 2 ^ 32" using less.prems(1) by (simp add: gui_frame_def vec_size_def)
    then have p1: "unat (pos + 1) = unat pos + 1" using p by (simp add: unat_word_ariths)
    have nz: "unat (cols g) \<noteq> 0" using less.prems(1) by (simp add: gui_frame_def unat_eq_0)
    have "unat ((pos + 1) mod cols g) < unat (cols g)" using nz by (simp add: unat_mod_distrib)
    then have d: "unat (cols g - (pos + 1) mod cols g) = unat (cols g) - unat ((pos + 1) mod cols g)" by (simp add: unat_diff_wrap)
    have "unat ?q = unat pos + 1 + (unat (cols g) - unat ((pos + 1) mod cols g))"
      using p vs unfolding unat_word_ariths(1) [of "pos + 1"] p1 d by simp
    then have q: "unat pos < unat ?q" by simp
    define r where "r = (if mem s1 (v + (pos + 1)) = 0 then ?q else pos + 1)"
    have "unat pos < unat r" using q p1 by (simp add: r_def)
    then have "unat end_pos - unat r < unat end_pos - unat pos" using pe by linarith
    then obtain s2 where "flush_loop g v r end_pos s1 = Some s2" "fb_inv s2 A" "drawn s1 s2"
      using less.hyps [OF _ gui_frame_cong [OF less.prems(1) 1(3)] 1(2) less.prems(3)] by blast
    then show ?thesis using True 1 drawn_trans by (subst flush_loop.simps) (auto simp: r_def Let_def)
  qed
qed

lemma drawn_gui:
  assumes "drawn s s'"
  shows "bl_gui_app s' = bl_gui_app s" "gui_prepared s' = gui_prepared s" "gui_output s' = gui_output s"
  using assms by (cases s; cases s'; simp add: drawn_def)+

lemma gui_ok_gui [simp]: "gui_ok g (s\<lparr>bl_gui_app := x\<rparr>) = gui_ok g s" "gui_frame g (s\<lparr>bl_gui_app := x\<rparr>) = gui_frame g s"
  by (simp_all add: gui_ok_def gui_frame_def vector_ok_def)

lemma fb_inv_gui [simp]: "fb_inv (s\<lparr>bl_gui_app := x\<rparr>) A = fb_inv s A"
  by (simp add: fb_inv_def fb_geometry_def dirty_ok_def dirty_rect_def dirty_none_def same_pixel_def)

lemma flush_ok:
  assumes "bl_gui_app s = Some g" "gui_ok g s" "fb_inv s A"
  shows "\<exists>s' g'. bl_gui_app_flush_page_buffers s = Some s' \<and> bl_gui_app s' = Some g' \<and> gui_ok g' s' \<and> fb_inv s' A \<and>
    gui_prepared s' = gui_prepared s \<and> gui_output s' = gui_output s \<and> same_window g g'"
proof -
  define g1 where "g1 = g\<lparr>should_scroll := False\<rparr>"
  have fr: "gui_frame g s" and l: "line_ok g (current_line (gui_page g))" using assms(2) by (simp_all add: gui_ok_def)
  have vz: "vector (page0 g) \<noteq> 0" "vector (page1 g) \<noteq> 0" using fr by (simp_all add: gui_frame_def vector_ok_def)
  have w: "same_window g g1" by (simp add: g1_def same_window_def)
  have "\<exists>h s1. (if should_scroll g then map_option (Pair (g\<lparr>should_scroll := False\<rparr>)) (bl_gui_app_clean_shell_screen (g\<lparr>should_scroll := False\<rparr>) s)
      else Some (g, s)) = Some (h, s1) \<and> fb_inv s1 A \<and> drawn s s1 \<and> same_window g h \<and> gui_page h = gui_page g"
  proof (cases "should_scroll g")
    case True
    obtain s1 where "bl_gui_app_clean_shell_screen g1 s = Some s1" "fb_inv s1 A" "drawn s s1"
      using clean_shell_screen_ok [OF gui_frame_window [OF fr w] assms(3)] by blast
    then show ?thesis using True w by (simp add: g1_def gui_page_def)
  qed (use assms(3) in simp)
  then obtain h s1 where h: "(if should_scroll g then map_option (Pair (g\<lparr>should_scroll := False\<rparr>)) (bl_gui_app_clean_shell_screen (g\<lparr>should_scroll := False\<rparr>) s)
      else Some (g, s)) = Some (h, s1)" "fb_inv s1 A" "drawn s s1" "same_window g h" "gui_page h = gui_page g" by blast
  have lh: "line_ok h (current_line (gui_page h))" using l h(4,5) by (simp add: line_ok_def same_window_def)
  have fh: "gui_frame h s1" by (rule gui_frame_cong [OF gui_frame_window [OF fr h(4)] h(3)])
  have vs: "vec_size h < 2 ^ 32" using fh by (simp add: gui_frame_def)
  obtain s2 where s2: "flush_loop h (vector (gui_page h)) (bl_gui_app_shell_pos h (updated_line (gui_page h))) (bl_gui_app_shell_pos h (current_line (gui_page h))) s1 = Some s2"
      "fb_inv s2 A" "drawn s1 s2"
    using flush_loop_ok [OF fh h(2) line_pos(2) [OF lh vs]] by blast
  let ?p = "(gui_page h)\<lparr>updated_line := current_line (gui_page h)\<rparr>"
  note sp = set_page_ok [OF gui_frame_cong [OF fh s2(3)], of ?p]
  have "bl_gui_app_flush_page_buffers s = Some (s2\<lparr>bl_gui_app := Some (set_page ?p h)\<rparr>)"
    unfolding bl_gui_app_flush_page_buffers_def assms(1) option.case using vz h(1) s2(1) by (simp add: Let_def)
  then show ?thesis
    using sp lh s2(2) drawn_gui [OF drawn_trans [OF h(3) s2(3)]] same_window_trans [OF h(4)] by simp
qed

lemma update_pages_ok:
  assumes "bl_gui_app s = Some g" "gui_ok g s" "fb_inv s A"
  shows "\<exists>g'. bl_gui_app (bl_gui_app_update_pages str s) = Some g' \<and> gui_ok g' (bl_gui_app_update_pages str s) \<and> same_window g g' \<and>
    fb_inv (bl_gui_app_update_pages str s) A \<and> gui_prepared (bl_gui_app_update_pages str s) = gui_prepared s \<and>
    only_vectors g (mem s) (mem (bl_gui_app_update_pages str s))"
proof -
  obtain g1 s1 where 1: "update_pages_loop str g s = (g1, s1)" by (cases "update_pages_loop str g s")
  have k: "gui_ok g1 s1" "same_window g g1" "only_vectors g (mem s) (mem s1)" and s1: "s1 = s\<lparr>mem := mem s1\<rparr>"
    using update_pages_loop_ok [OF assms(2) 1] by auto
  have fr: "gui_frame g s" using assms(2) by (simp add: gui_ok_def)
  then have vz: "vector (page0 g) \<noteq> 0" "vector (page1 g) \<noteq> 0" and v: "vector_ok g s (vector (page0 g))" "vector_ok g s (vector (page1 g))"
    by (simp_all add: gui_frame_def vector_ok_def)
  have geo: "fb_geometry s" using assms(3) by (simp add: fb_inv_def)
  have fits: "fits b (pitch (fb_info s) * height (fb_info s))" if "b = fb_double_buffer s \<or> b = vi_frame_buffer (fb_info s)" for b
    using that geometry_facts(5,6) [OF geo] by (auto simp: buffer_ok_def)
  have "fb_inv (s\<lparr>mem := mem s1\<rparr>) A"
    by (rule fb_inv_cong [OF assms(3)]) (simp_all add: only_vectors_region [OF k(3) v _ fits])
  then have "fb_inv s1 A" using s1 by simp
  moreover have "gui_prepared s1 = gui_prepared s" by (subst s1) simp
  moreover have "bl_gui_app_update_pages str s = s1\<lparr>bl_gui_app := Some g1\<rparr>"
    using assms(1) vz 1 by (simp add: bl_gui_app_update_pages_def)
  ultimately show ?thesis using k by simp
qed

lemma print_str_ok:
  assumes "bl_gui_app s = Some g" "gui_ok g s" "fb_inv s A" "gui_prepared s"
  shows "\<exists>s' g'. bl_gui_app_print_str str s = Some s' \<and> bl_gui_app s' = Some g' \<and> gui_ok g' s' \<and> same_window g g' \<and> gui_prepared s' \<and>
    fb_inv s' A \<and> dirty_none s' \<and> (\<forall>q \<in> A. same_pixel s' q)"
proof -
  let ?u = "bl_gui_app_update_pages str s"
  obtain g1 where 1: "bl_gui_app ?u = Some g1" "gui_ok g1 ?u" "same_window g g1" "fb_inv ?u A" "gui_prepared ?u"
    using update_pages_ok [OF assms(1-3)] assms(4) by auto
  obtain s2 g2 where 2: "bl_gui_app_flush_page_buffers ?u = Some s2" "bl_gui_app s2 = Some g2" "gui_ok g2 s2" "fb_inv s2 A" "gui_prepared s2" "same_window g1 g2"
    using flush_ok [OF 1(1,2,4)] 1(5) by auto
  let ?s = "bl_fb_update_from_double_buffer s2"
  have d: "bl_gui_app ?s = bl_gui_app s2" "gui_prepared ?s = gui_prepared s2" "fb_double_buffer ?s = fb_double_buffer s2" "fb_info ?s = fb_info s2"
    by (simp_all add: bl_fb_update_from_double_buffer_def Let_def bl_fb_reset_dirty_area_def)
  have "bl_gui_app_print_str str s = Some ?s" using 2(1,5) by (simp add: bl_gui_app_print_str_def bl_video_update_from_double_buffer_def)
  moreover have "gui_ok g2 ?s" using 2(3) d(4,3) by (rule gui_ok_cong)
  ultimately show ?thesis using update_shows [OF 2(4)] d 2 same_window_trans [OF 1(3) 2(6)] by simp
qed

end
