(* ===== verification/Bl_Shell.thy ===== *)
theory Bl_Shell
  imports Bl_Gui
begin

text \<open>
  The shell: src/boot-loader/core/shell. The commands work over the state of the tokenizer; the
  addresses of the string constants and of the static array of arguments are the record \<open>shell_env\<close>,
  with the output callback, the ports the PCI list reads and the dump of the USB devices as the
  command sees it. The chosen disk, partition and file system are the record \<open>operated\<close>.
\<close>

unbundle bit_operations_syntax

record shell_st = tok_st +
  bl_last_result :: u32
  bl_argv :: "addr list"

record 's bl_command_info =
  ci_command :: addr
  ci_help :: addr
  ci_execute :: "nat \<Rightarrow> addr list \<Rightarrow> 's \<Rightarrow> (u32 \<times> 's) option"

record 's shell_env =
  se_arguments :: addr
  se_delimiter :: addr
  se_names :: "addr list"
  se_helps :: "addr list"
  se_print :: "'s callback"
  se_ports :: "'s ports"
  se_usb_dump :: "'s \<Rightarrow> 's option"

definition BL_SHELL_BUFFER_LENGTH :: nat where "BL_SHELL_BUFFER_LENGTH = 32"
definition BL_COMMAND_TOTAL :: nat where "BL_COMMAND_TOTAL = 6"
definition BL_ARGUMENTS :: nat where "BL_ARGUMENTS = 4"

subsection \<open>The commands\<close>

definition bl_command_help :: "nat \<Rightarrow> addr list \<Rightarrow> 's \<Rightarrow> (u32 \<times> 's) option" where
  "bl_command_help argc argv s = Some (0, s)"

definition bl_command_true :: "nat \<Rightarrow> addr list \<Rightarrow> 's \<Rightarrow> (u32 \<times> 's) option" where
  "bl_command_true argc argv s = Some (0, s)"

definition bl_command_false :: "nat \<Rightarrow> addr list \<Rightarrow> 's \<Rightarrow> (u32 \<times> 's) option" where
  "bl_command_false argc argv s = Some (1, s)"

definition bl_command_last_result :: "'a shell_st_scheme shell_env \<Rightarrow> nat \<Rightarrow> addr list \<Rightarrow> 'a shell_st_scheme \<Rightarrow> (u32 \<times> 'a shell_st_scheme) option" where
  "bl_command_last_result env argc argv s = Some (0, bl_print_hex (se_print env) (bl_last_result s) s)"

definition bl_command_pci_list :: "'s shell_env \<Rightarrow> nat \<Rightarrow> addr list \<Rightarrow> 's \<Rightarrow> (u32 \<times> 's) option" where
  "bl_command_pci_list env argc argv s = map_option (Pair 0) (bl_pci_dump_devices (se_ports env) (se_print env) s)"

definition bl_command_usb_list :: "'s shell_env \<Rightarrow> nat \<Rightarrow> addr list \<Rightarrow> 's \<Rightarrow> (u32 \<times> 's) option" where
  "bl_command_usb_list env argc argv s = map_option (Pair 0) (se_usb_dump env s)"

definition shell_storage_list :: "'s callback \<Rightarrow> 'a storage_st \<Rightarrow> nat \<Rightarrow> addr list \<Rightarrow> 's \<Rightarrow> (u32 \<times> 's) option" where
  "shell_storage_list cb st argc argv s = Some (0, bl_storage_dump_devices cb st s)"

text \<open>The strings of the table.\<close>

definition command_names :: "u8 list list" where
  "command_names = map ascii [''help'', ''true'', ''false'', ''last-result'', ''pci-list'', ''usb-list'']"

definition command_helps :: "u8 list list" where
  "command_helps = map ascii [''Display helpful information about shell commands.'', ''Returns successfull result.'',
     ''Returns unsuccessfull result.'', ''Show the result of the last executed command.'',
     ''Display current attached PCI devices.'', ''Display attached USB devices.'']"

definition bl_commands :: "'a shell_st_scheme shell_env \<Rightarrow> 'a shell_st_scheme bl_command_info list" where
  "bl_commands env = map (\<lambda>(c, h, f). \<lparr>ci_command = c, ci_help = h, ci_execute = f\<rparr>)
     (zip (se_names env) (zip (se_helps env)
       [bl_command_help, bl_command_true, bl_command_false, bl_command_last_result env, bl_command_pci_list env, bl_command_usb_list env]))"

subsection \<open>Running a line\<close>

definition argument_addr :: "addr \<Rightarrow> nat \<Rightarrow> addr" where
  "argument_addr a i = a + of_nat (i * (BL_SHELL_BUFFER_LENGTH + 1))"

definition bl_command_setup :: "'a shell_st_scheme shell_env \<Rightarrow> 'a shell_st_scheme \<Rightarrow> 'a shell_st_scheme" where
  "bl_command_setup env s =
     s\<lparr>mem := snd (bl_memset (mem s) (se_arguments env) 0 (of_nat (BL_ARGUMENTS * (BL_SHELL_BUFFER_LENGTH + 1)))),
       bl_argv := map (argument_addr (se_arguments env)) [0..<BL_ARGUMENTS]\<rparr>"

text \<open>The copies of the tokens, while there is room: \<open>n\<close> is what is left of \<open>BL_ARGUMENTS\<close>.\<close>

fun arguments_loop :: "'s shell_env \<Rightarrow> nat \<Rightarrow> nat \<Rightarrow> addr \<Rightarrow> 'a shell_st_scheme \<Rightarrow> (nat \<times> 'a shell_st_scheme) option" where
  "arguments_loop env 0 argc prt s = Some (argc, s)"
| "arguments_loop env (Suc n) argc prt s =
     (if prt = 0 then Some (argc, s)
      else do {
        (prt1, s1) \<leftarrow> bl_strtok 0 (se_delimiter env)
          (s\<lparr>mem := snd (bl_strncpy (mem s) (argument_addr (se_arguments env) argc) prt (of_nat BL_SHELL_BUFFER_LENGTH))\<rparr>);
        arguments_loop env n (argc + 1) prt1 s1 })"

text \<open>The first command with the name; a match returns without the release of the copy.\<close>

fun command_loop :: "'a shell_st_scheme shell_env \<Rightarrow> 'a shell_st_scheme bl_command_info list \<Rightarrow> nat \<Rightarrow> addr \<Rightarrow> u32 \<Rightarrow> 'a shell_st_scheme \<Rightarrow> 'a shell_st_scheme option" where
  "command_loop env [] argc copy_command len s = Some (bl_heap_free s copy_command len)"
| "command_loop env (c # cs) argc copy_command len s =
     (if bl_strncmp (mem s) (bl_argv s ! 0) (ci_command c) (of_nat BL_SHELL_BUFFER_LENGTH) = 0 then do {
        (r, s1) \<leftarrow> ci_execute c argc (bl_argv s) (bl_print_str (se_print env) [0xa] s);
        Some (s1\<lparr>bl_last_result := r\<rparr>) }
      else command_loop env cs argc copy_command len s)"

definition bl_command_run :: "'a shell_st_scheme shell_env \<Rightarrow> addr \<Rightarrow> 'a shell_st_scheme \<Rightarrow> 'a shell_st_scheme option" where
  "bl_command_run env command s = do {
     len \<leftarrow> bl_strlen (mem s) command;
     if len = 0 then Some s
     else do {
       (copy_command, s1) \<leftarrow> bl_strndup command len s;
       if copy_command = 0 then Some s1
       else do {
         (prt, s2) \<leftarrow> bl_strtok copy_command (se_delimiter env) s1;
         (argc, s3) \<leftarrow> arguments_loop env BL_ARGUMENTS 0 prt s2;
         command_loop env (bl_commands env) argc copy_command len s3 } } }"

subsection \<open>The disk, the partition and the file system\<close>

record ('i, 'f, 'a) operated =
  operated_fs_handle :: "('i, 'f, 'a) bl_fs_handle option"
  disk_index :: int
  operated_disk :: "'a tok_st_ext device option"
  partition_index :: int
  operated_partition :: "bl_partition option"

definition operated0 :: "('i, 'f, 'a) operated" where
  "operated0 = \<lparr>operated_fs_handle = None, disk_index = -1, operated_disk = None, partition_index = -1, operated_partition = None\<rparr>"

definition bl_shell_print_prompt :: "'s callback \<Rightarrow> ('i, 'f, 'a) operated \<Rightarrow> 's \<Rightarrow> 's" where
  "bl_shell_print_prompt cb p s =
     (let number = (\<lambda>i s. if i \<noteq> -1 then bl_print_hex cb (of_int i) s else s);
          s1 = bl_print_str cb [0xa] s;
          s2 = bl_print_str cb (ascii '']'') (number (disk_index p) (bl_print_str cb (ascii ''['') s1));
          s3 = bl_print_str cb (ascii '']'') (number (partition_index p) (bl_print_str cb (ascii ''['') s2))
      in bl_print_str cb (ascii ''> '') s3)"

definition bl_shell_set_disk :: "'a tok_st_ext storage_st \<Rightarrow> int \<Rightarrow> ('i, 'f, 'a) operated \<Rightarrow> ('i, 'f, 'a) operated" where
  "bl_shell_set_disk st index p =
     (if disk_index p = index then p
      else case bl_storage_device_get index st of
        None \<Rightarrow> p
      | Some disk \<Rightarrow> p\<lparr>disk_index := index, operated_disk := Some disk, operated_partition := None\<rparr>)"

definition bl_shell_set_partition :: "('i, 'f, 'a) fs_st \<Rightarrow> int \<Rightarrow> ('i, 'f, 'a) operated \<Rightarrow> 'a tok_st_scheme \<Rightarrow>
    (('i, 'f, 'a) operated \<times> 'a tok_st_scheme) option" where
  "bl_shell_set_partition fs index p s =
     (case operated_disk p of
        None \<Rightarrow> Some (p\<lparr>operated_partition := None\<rparr>, s)
      | Some disk \<Rightarrow>
          if partition_index p = index then Some (p, s)
          else case bl_storage_partition_get (fst disk) index of
            None \<Rightarrow> Some (p\<lparr>operated_partition := None\<rparr>, s)
          | Some prt \<Rightarrow> do {
              (h, s1) \<leftarrow> bl_fs_try_mount fs disk prt s;
              let p1 = p\<lparr>operated_fs_handle := h\<rparr>;
              Some (if h = None then p1 else p1\<lparr>partition_index := index, operated_partition := Some prt\<rparr>, s1) })"

text \<open>\<open>home\<close> is the address of the path the entry point opens.\<close>

definition bl_shell_entry_point :: "'a shell_st_scheme shell_env \<Rightarrow> addr \<Rightarrow> 'a shell_st_ext tok_st_ext storage_st \<Rightarrow> ('i, 'f, 'a shell_st_ext) fs_st \<Rightarrow>
    ('i, 'f, 'a shell_st_ext) operated \<Rightarrow> 'a shell_st_scheme \<Rightarrow> (('i, 'f, 'a shell_st_ext) operated \<times> 'a shell_st_scheme) option" where
  "bl_shell_entry_point env home st fs p s = do {
     let s1 = bl_storage_dump_devices (se_print env) st (bl_command_setup env s);
     (p1, s2) \<leftarrow> bl_shell_set_partition fs 1 (bl_shell_set_disk st 1 p) s1;
     (f, s3) \<leftarrow> bl_file_open (operated_fs_handle p1) home s2;
     Some (p1, bl_shell_print_prompt (se_print env) p1 s3) }"

subsection \<open>The arguments of a line\<close>

text \<open>The four slots hold terminated strings; the byte behind the longest one stays zero.\<close>

definition args_ok :: "mem \<Rightarrow> addr \<Rightarrow> u8 list list \<Rightarrow> bool" where
  "args_ok m a olds \<longleftrightarrow> a \<noteq> 0 \<and> fits a 132 \<and> length olds = 4 \<and>
     (\<forall>j<4. cstr m (argument_addr a j) (olds ! j) \<and> length (olds ! j) \<le> 32 \<and> m (argument_addr a j + 32) = 0)"

definition off_range :: "addr \<Rightarrow> nat \<Rightarrow> addr \<Rightarrow> bool" where
  "off_range a n x \<longleftrightarrow> unat x < unat a \<or> unat a + n \<le> unat x"

lemma slot_addr: "fits a 132 \<Longrightarrow> j < 4 \<Longrightarrow> k \<le> 32 \<Longrightarrow> unat (argument_addr a j + of_nat k) = unat a + 33 * j + k"
proof -
  assume "fits a 132" "j < 4" "k \<le> 32"
  then have "unat (a + of_nat (33 * j + k)) = unat a + (33 * j + k)" by (intro unat_add_lt) (simp add: fits_def)
  moreover have "argument_addr a j + of_nat k = a + of_nat (33 * j + k)" by (simp add: argument_addr_def BL_SHELL_BUFFER_LENGTH_def mult.commute)
  ultimately show ?thesis by (simp only: add.assoc)
qed

lemma mem_get_same: "fits p n \<Longrightarrow> \<forall>x. unat p \<le> unat x \<and> unat x < unat p + n \<longrightarrow> m' x = m x \<Longrightarrow> mem_get m' p n = mem_get m p n"
proof (rule mem_get_eqI)
  fix i assume a: "fits p n" "\<forall>x. unat p \<le> unat x \<and> unat x < unat p + n \<longrightarrow> m' x = m x" "i < n"
  then have "unat (p + of_nat i) = unat p + i" by (intro unat_add_lt) (simp add: fits_def)
  then show "m' (p + of_nat i) = m (p + of_nat i)" using a by simp
qed

lemma cstr_same: "cstr m p w \<Longrightarrow> fits p (Suc (length w)) \<Longrightarrow> \<forall>x. unat p \<le> unat x \<and> unat x < unat p + Suc (length w) \<longrightarrow> m' x = m x \<Longrightarrow> cstr m' p w"
  using mem_get_same [of p "Suc (length w)" m' m] by (simp add: cstr_mem_get)

lemma copy_argument:
  assumes "args_ok m a olds" "j < 4" "cstr m q v" "q \<noteq> 0" "fits q (Suc (length v))" "apart a 132 q (Suc (length v))"
    "m' = snd (bl_strncpy m (argument_addr a j) q (of_nat BL_SHELL_BUFFER_LENGTH))"
  shows "args_ok m' a (olds[j := take 32 v])" "\<forall>x. off_range a 132 x \<longrightarrow> m' x = m x"
proof -
  have f: "a \<noteq> 0" "fits a 132" "length olds = 4" using assms(1) by (simp_all add: args_ok_def)
  let ?d = "argument_addr a j"
  have ud: "unat ?d = unat a + 33 * j" using slot_addr [OF f(2) assms(2), of 0] by simp
  have d0: "?d \<noteq> 0" using ud f(1) by (metis add_is_0 unat_0 unat_eq_0)
  define k where "k = min (length v) 31"
  have kv: "k \<le> length v" "k \<le> 31" by (simp_all add: k_def)
  let ?bs = "take (Suc k) (v @ [0])"
  have g: "mem_get m q (Suc (length v)) = v @ [0]" "0 \<notin> set v" using assms(3) by (simp_all add: cstr_mem_get)
  have "mem_get m q (Suc k) = take (Suc k) (mem_get m q (Suc (length v)))" using kv by (simp add: take_mem_get)
  then have src: "mem_get m q (Suc k) = ?bs" using g by simp
  have "mem_get m q k = take k (mem_get m q (Suc (length v)))" using kv by (simp add: take_mem_get)
  then have z: "0 \<notin> set (mem_get m q k)" using g kv set_take_subset [of k v] by auto
  have e: "m (q + of_nat k) = 0 \<or> unat (of_nat BL_SHELL_BUFFER_LENGTH :: u32) = Suc k"
  proof (cases "length v \<le> 31")
    case True
    then have "k = length v" by (simp add: k_def)
    then show ?thesis using assms(3) cstr_append [of m q v "[]"] by simp
  qed (simp add: k_def BL_SHELL_BUFFER_LENGTH_def)
  have ap: "apart ?d (Suc k) q (Suc k)" using assms(2,6) kv ud by (auto simp: apart_def)
  have fd: "fits ?d (Suc k)" "fits q (Suc k)" using assms(2,5) f(2) ud kv by (simp_all add: fits_def)
  have m': "m' = mem_put m ?d ?bs"
    unfolding assms(7) using bl_strncpy_loop_correct [OF z e _ ap fd] kv d0 assms(4) src
    by (simp add: bl_strncpy_def BL_SHELL_BUFFER_LENGTH_def)
  have lb: "length ?bs = Suc k" using kv by simp
  have out: "m' x = m x" if "unat x < unat ?d \<or> unat ?d + Suc k \<le> unat x" for x
  proof -
    have "\<not> unat (x - ?d) < Suc k"
    proof
      assume lt: "unat (x - ?d) < Suc k"
      have "unat x = unat ?d + unat (x - ?d)" using lt fd(1) unat_add_lt [of ?d "unat (x - ?d)"] by (simp add: fits_def)
      then show False using that lt by linarith
    qed
    then show ?thesis unfolding m' using mem_put_out [of ?bs x ?d] lb by simp
  qed
  show o: "\<forall>x. off_range a 132 x \<longrightarrow> m' x = m x" using out ud assms(2) kv by (auto simp: off_range_def)
  have self: "cstr m' ?d (take 32 v)"
  proof (cases "length v \<le> 31")
    case True
    then have "?bs = v @ [0]" "take 32 v = v" by (simp_all add: k_def)
    moreover have "mem_get m' ?d (Suc k) = ?bs" unfolding m' using lb kv by (intro mem_get_put_same) simp_all
    ultimately show ?thesis using g(2) True by (simp add: cstr_mem_get k_def)
  next
    case False
    then have b: "?bs = take 32 v" "Suc k = 32" by (simp_all add: k_def)
    have "m (?d + 32) = 0" using assms(1,2) by (simp add: args_ok_def)
    then have "m' (?d + 32) = 0" using out [of "?d + 32"] slot_addr [OF f(2) assms(2), of 32] ud b(2) by simp
    moreover have "mem_get m' ?d (Suc k) = ?bs" unfolding m' using lb kv by (intro mem_get_put_same) simp_all
    ultimately have "cstr m' ?d (take 32 v @ [])" unfolding cstr_append using b False g(2) set_take_subset [of 32 v]
      by (auto simp: min_def)
    then show ?thesis by simp
  qed
  have end0: "m' (?d + 32) = 0"
    using out [of "?d + 32"] slot_addr [OF f(2) assms(2), of 32] ud kv assms(1,2) by (simp add: args_ok_def)
  have other: "cstr m' (argument_addr a i) (olds ! i) \<and> m' (argument_addr a i + 32) = 0" if i: "i < 4" "i \<noteq> j" for i
  proof -
    have old: "cstr m (argument_addr a i) (olds ! i)" "length (olds ! i) \<le> 32" "m (argument_addr a i + 32) = 0"
      using assms(1) i by (simp_all add: args_ok_def)
    have ui: "unat (argument_addr a i) = unat a + 33 * i" using slot_addr [OF f(2) i(1), of 0] by simp
    have apart_slot: "33 * i + 33 \<le> 33 * j \<or> 33 * j + 33 \<le> 33 * i" using i(2) by linarith
    have "cstr m' (argument_addr a i) (olds ! i)"
      by (rule cstr_same [OF old(1)]) (use apart_slot ui ud kv old(2) f(2) i(1) in \<open>auto simp: fits_def intro!: out\<close>)
    moreover have "m' (argument_addr a i + 32) = m (argument_addr a i + 32)"
      using out [of "argument_addr a i + 32"] slot_addr [OF f(2) i(1), of 32] apart_slot ud kv by auto
    ultimately show ?thesis using old(3) by simp
  qed
  show "args_ok m' a (olds[j := take 32 v])"
    using f self end0 other assms(1,2) by (auto simp: args_ok_def nth_list_update)
qed

text \<open>A write away from the string and the delimiters does not disturb the tokenizer.\<close>

lemma tok_inv_write:
  assumes "tok_inv s w d ds" "\<forall>x. off_range a n x \<longrightarrow> m' x = mem s x"
    "apart a n d (Suc (length ds))" "apart a n (bl_strtok_str s) (tok_extent w)"
  shows "tok_inv (s\<lparr>mem := m'\<rparr>) w d ds"
proof -
  have t: "cstr (mem s) (bl_strtok_str s) w" "fits (bl_strtok_str s) (tok_extent w)" "cstr (mem s) d ds" "fits d (Suc (length ds))"
    using assms(1) by (simp_all add: tok_inv_def)
  have e: "Suc (length w) \<le> tok_extent w" by (simp add: tok_extent_def)
  have 1: "cstr m' (bl_strtok_str s) w"
    by (rule cstr_same [OF t(1)]) (use t(2) e assms(2,4) in \<open>auto simp: fits_def off_range_def apart_def\<close>)
  have 2: "cstr m' d ds"
    by (rule cstr_same [OF t(3,4)]) (use assms(2,3) in \<open>auto simp: off_range_def apart_def\<close>)
  have 3: "m' (bl_strtok_str s + of_nat (length w) + 1) = mem s (bl_strtok_str s + of_nat (length w) + 1)" if "w \<noteq> []"
  proof -
    have "unat (bl_strtok_str s + of_nat (length w + 1)) = unat (bl_strtok_str s) + (length w + 1)"
      using t(2) that by (intro unat_add_lt) (simp add: fits_def tok_extent_def)
    then have "off_range a n (bl_strtok_str s + of_nat (length w + 1))"
      using assms(4) that by (auto simp: off_range_def apart_def tok_extent_def)
    then show ?thesis using assms(2) by (simp add: ac_simps)
  qed
  show ?thesis using assms(1) 1 2 3 by (simp add: tok_inv_def)
qed

text \<open>The state of the loop: the token at hand and those that are left, all in the copy of the line.\<close>

definition token_at :: "'a tok_st_scheme \<Rightarrow> addr \<Rightarrow> nat \<Rightarrow> addr \<Rightarrow> u8 list \<Rightarrow> addr \<Rightarrow> u8 list list \<Rightarrow> bool" where
  "token_at s c N d ds q ws \<longleftrightarrow> (case ws of [] \<Rightarrow> q = 0
     | v # vs \<Rightarrow> \<exists>r. vs = tokens (\<lambda>x. x \<in> set ds) r \<and> tok_inv s r d ds \<and> q \<noteq> 0 \<and> cstr (mem s) q v \<and> unat c \<le> unat q \<and>
         unat q + length v < unat (bl_strtok_str s) \<and> unat (bl_strtok_str s) + tok_extent r \<le> unat c + N)"

lemma strtok_frame: "bl_strtok q d s = Some (r, s') \<Longrightarrow> s' = s\<lparr>mem := mem s', bl_strtok_str := bl_strtok_str s'\<rparr>"
  by (auto simp: bl_strtok_def Let_def split: if_splits Option.bind_splits)

lemma args_ok_same:
  assumes "args_ok m a olds" "\<forall>x. unat a \<le> unat x \<and> unat x < unat a + 132 \<longrightarrow> m' x = m x"
  shows "args_ok m' a olds"
proof -
  have f: "fits a 132" using assms(1) by (simp add: args_ok_def)
  have "cstr m' (argument_addr a j) (olds ! j) \<and> length (olds ! j) \<le> 32 \<and> m' (argument_addr a j + 32) = 0" if j: "j < 4" for j
  proof -
    have old: "cstr m (argument_addr a j) (olds ! j)" "length (olds ! j) \<le> 32" "m (argument_addr a j + 32) = 0"
      using assms(1) j by (simp_all add: args_ok_def)
    have u: "unat (argument_addr a j) = unat a + 33 * j" "unat (argument_addr a j + 32) = unat a + 33 * j + 32"
      using slot_addr [OF f j, of 0] slot_addr [OF f j, of 32] by simp_all
    have "cstr m' (argument_addr a j) (olds ! j)"
      by (rule cstr_same [OF old(1)]) (use u old(2) f j assms(2) in \<open>auto simp: fits_def\<close>)
    then show ?thesis using old u(2) j assms(2) by simp
  qed
  then show ?thesis using assms(1) by (simp add: args_ok_def)
qed

lemma strtok_token_at:
  assumes "tok_inv s w d ds" "unat c \<le> unat (bl_strtok_str s)" "unat (bl_strtok_str s) + tok_extent w \<le> unat c + N"
  shows "\<exists>q s'. bl_strtok 0 d s = Some (q, s') \<and> token_at s' c N d ds q (tokens (\<lambda>x. x \<in> set ds) w) \<and>
    (\<forall>x. off_range c N x \<longrightarrow> mem s' x = mem s x) \<and> s' = s\<lparr>mem := mem s', bl_strtok_str := bl_strtok_str s'\<rparr>"
proof (cases "dropWhile (\<lambda>x. x \<in> set ds) w = []")
  case True
  obtain s' where 1: "bl_strtok 0 d s = Some (0, s')" "mem s' = mem s" using tok_step_none [OF assms(1) True] by blast
  have "s' = s\<lparr>mem := mem s', bl_strtok_str := bl_strtok_str s'\<rparr>" using strtok_frame [OF 1(1)] .
  moreover have "tokens (\<lambda>x. x \<in> set ds) w = []" using True by (subst tokens.simps) simp
  ultimately show ?thesis using 1 by (auto simp: token_at_def)
next
  case False
  let ?t = "dropWhile (\<lambda>x. x \<in> set ds) w"
  let ?v = "takeWhile (\<lambda>x. x \<notin> set ds) ?t" and ?r = "tl (dropWhile (\<lambda>x. x \<notin> set ds) ?t)"
  from tok_step_some [OF assms(1) refl False refl refl] obtain q e s1 where
    1: "bl_strtok 0 d s = Some (q, s1)" "q \<noteq> 0" "cstr (mem s1) q ?v" "tok_inv s1 ?r d ds" "mem s1 = (mem s)(e := 0)"
      "unat (bl_strtok_str s) \<le> unat q" "unat q + length ?v = unat e" "unat e < unat (bl_strtok_str s1)"
      "unat (bl_strtok_str s1) + tok_extent ?r \<le> unat (bl_strtok_str s) + tok_extent w"
    by blast
  have "tokens (\<lambda>x. x \<in> set ds) w = ?v # tokens (\<lambda>x. x \<in> set ds) ?r" using False by (subst tokens.simps) (simp add: Let_def)
  moreover have "\<not> off_range c N e" using 1(6-9) assms(2,3) by (auto simp: off_range_def)
  then have "\<forall>x. off_range c N x \<longrightarrow> mem s1 x = mem s x" unfolding 1(5) by (metis fun_upd_other)
  moreover have "\<exists>r. tokens (\<lambda>x. x \<in> set ds) ?r = tokens (\<lambda>x. x \<in> set ds) r \<and> tok_inv s1 r d ds \<and> q \<noteq> 0 \<and> cstr (mem s1) q ?v \<and> unat c \<le> unat q \<and>
         unat q + length ?v < unat (bl_strtok_str s1) \<and> unat (bl_strtok_str s1) + tok_extent r \<le> unat c + N"
    using 1(2-4) 1(6-9) assms(2,3) by (intro exI [of _ ?r] conjI refl) linarith+
  ultimately show ?thesis using 1(1) strtok_frame [OF 1(1)] by (auto simp: token_at_def)
qed

text \<open>The slots after the words \<open>ws\<close> of a line.\<close>

definition new_args :: "u8 list list \<Rightarrow> nat \<Rightarrow> nat \<Rightarrow> u8 list list \<Rightarrow> u8 list list" where
  "new_args olds argc n ws = take argc olds @ map (take BL_SHELL_BUFFER_LENGTH) (take n ws) @ drop (argc + length (take n ws)) olds"

lemma new_args_Cons: "argc < length olds \<Longrightarrow> new_args (olds[argc := take 32 v]) (Suc argc) n ws = new_args olds argc (Suc n) (v # ws)"
  by (simp add: new_args_def take_Suc_conv_app_nth BL_SHELL_BUFFER_LENGTH_def)

lemma arguments_loop_ok:
  assumes "token_at s c N d ds q ws" "args_ok (mem s) a olds" "argc + n = 4"
    "fits c N" "apart a 132 c N" "apart a 132 d (Suc (length ds))" "apart c N d (Suc (length ds))"
    "se_arguments env = a" "se_delimiter env = d"
  shows "\<exists>s'. arguments_loop env n argc q s = Some (argc + length (take n ws), s') \<and> args_ok (mem s') a (new_args olds argc n ws) \<and>
    (\<forall>x. off_range c N x \<longrightarrow> off_range a 132 x \<longrightarrow> mem s' x = mem s x) \<and> s' = s\<lparr>mem := mem s', bl_strtok_str := bl_strtok_str s'\<rparr>"
  using assms(1-3)
proof (induction n arbitrary: argc q s olds ws)
  case 0
  then show ?case by (simp add: new_args_def args_ok_def)
next
  case (Suc n)
  show ?case
  proof (cases ws)
    case Nil
    then show ?thesis using Suc.prems by (simp add: token_at_def new_args_def)
  next
    case (Cons v vs)
    then obtain r where r: "vs = tokens (\<lambda>x. x \<in> set ds) r" "tok_inv s r d ds" "q \<noteq> 0" "cstr (mem s) q v" "unat c \<le> unat q"
        "unat q + length v < unat (bl_strtok_str s)" "unat (bl_strtok_str s) + tok_extent r \<le> unat c + N"
      using Suc.prems(1) by (auto simp: token_at_def)
    have j: "argc < 4" "argc < length olds" using Suc.prems(2,3) by (auto simp: args_ok_def)
    let ?m = "snd (bl_strncpy (mem s) (argument_addr a argc) q (of_nat BL_SHELL_BUFFER_LENGTH))" and ?s = "s\<lparr>mem := snd (bl_strncpy (mem s) (argument_addr a argc) q (of_nat BL_SHELL_BUFFER_LENGTH))\<rparr>"
    have fq: "fits q (Suc (length v))" "apart a 132 q (Suc (length v))"
      using r(5-7) assms(4,5) by (auto simp: fits_def apart_def)
    note cp = copy_argument [OF Suc.prems(2) j(1) r(4,3) fq refl]
    have ti: "tok_inv ?s r d ds"
      by (rule tok_inv_write [OF r(2) cp(2) assms(6)]) (use r(5-7) assms(5) in \<open>auto simp: apart_def\<close>)
    have "unat c \<le> unat (bl_strtok_str ?s)" "unat (bl_strtok_str ?s) + tok_extent r \<le> unat c + N" using r(5-7) by simp_all
    from strtok_token_at [OF ti this] obtain q1 s1 where
      1: "bl_strtok 0 d ?s = Some (q1, s1)" "token_at s1 c N d ds q1 vs" "\<forall>x. off_range c N x \<longrightarrow> mem s1 x = ?m x"
        "s1 = ?s\<lparr>mem := mem s1, bl_strtok_str := bl_strtok_str s1\<rparr>" unfolding r(1) by auto
    have "args_ok (mem s1) a (olds[argc := take 32 v])"
      by (rule args_ok_same [OF cp(1)]) (use 1(3) assms(5) in \<open>auto simp: off_range_def apart_def\<close>)
    from Suc.IH [OF 1(2) this, of "Suc argc"] Suc.prems(3) obtain s' where
      2: "arguments_loop env n (argc + 1) q1 s1 = Some (argc + 1 + length (take n vs), s')"
        "args_ok (mem s') a (new_args (olds[argc := take 32 v]) (Suc argc) n vs)"
        "\<forall>x. off_range c N x \<longrightarrow> off_range a 132 x \<longrightarrow> mem s' x = mem s1 x" "s' = s1\<lparr>mem := mem s', bl_strtok_str := bl_strtok_str s'\<rparr>" by auto
    have "s' = s\<lparr>mem := mem s', bl_strtok_str := bl_strtok_str s'\<rparr>" using 2(4) 1(4) by (cases s', cases s1, cases s) simp
    moreover have "\<forall>x. off_range c N x \<longrightarrow> off_range a 132 x \<longrightarrow> mem s' x = mem s x" using 2(3) 1(3) cp(2) by auto
    moreover have "arguments_loop env (Suc n) argc q s = Some (argc + length (take (Suc n) ws), s')"
      using r(3) 1(1) 2(1) Cons assms(8,9) by simp
    ultimately show ?thesis using 2(2) new_args_Cons [OF j(2)] Cons by auto
  qed
qed

subsection \<open>The command of a line\<close>

definition command_named :: "'a shell_st_scheme shell_env \<Rightarrow> u8 list \<Rightarrow> 'a shell_st_scheme bl_command_info option" where
  "command_named env w = map_option snd (find (\<lambda>(n, c). n = w) (zip command_names (bl_commands env)))"

text \<open>The constants of the table and the delimiter are in memory, away from the line and the slots.\<close>

definition shell_static :: "'s shell_env \<Rightarrow> addr \<Rightarrow> nat \<Rightarrow> mem \<Rightarrow> bool" where
  "shell_static env c N m \<longleftrightarrow> length (se_names env) = BL_COMMAND_TOTAL \<and> length (se_helps env) = BL_COMMAND_TOTAL \<and>
     se_delimiter env \<noteq> 0 \<and> fits c N \<and> apart (se_arguments env) 132 c N \<and>
     (\<forall>(p, w) \<in> set ((se_delimiter env, [0x20]) # zip (se_names env) command_names).
        p \<noteq> 0 \<and> cstr m p w \<and> fits p (Suc (length w)) \<and> apart c N p (Suc (length w)) \<and> apart (se_arguments env) 132 p (Suc (length w)))"

definition run_command :: "'a shell_st_scheme shell_env \<Rightarrow> 'a shell_st_scheme bl_command_info \<Rightarrow> nat \<Rightarrow> 'a shell_st_scheme \<Rightarrow> 'a shell_st_scheme option" where
  "run_command env c argc s = do {
     (r, s1) \<leftarrow> ci_execute c argc (bl_argv s) (bl_print_str (se_print env) [0xa] s);
     Some (s1\<lparr>bl_last_result := r\<rparr>) }"

lemma names_short: "n \<in> set command_names \<Longrightarrow> length n \<le> 32"
  by (auto simp: command_names_def ascii_def)

lemma strncmp_name:
  assumes "cstr m p w" "cstr m q n" "p \<noteq> 0" "q \<noteq> 0" "length w \<le> 32" "length n \<le> 32"
  shows "bl_strncmp m p q (of_nat BL_SHELL_BUFFER_LENGTH) = 0 \<longleftrightarrow> n = w"
proof -
  have "take 32 w = w" "take 32 n = n" using assms(5,6) by simp_all
  then show ?thesis using bl_strncmp_cstr [OF assms(1-4), of 32] strdiff_eq_0 [OF cstr_no_zero [OF assms(1)] cstr_no_zero [OF assms(2)]]
    by (auto simp: BL_SHELL_BUFFER_LENGTH_def)
qed

lemma command_loop_find:
  assumes "cstr (mem s) (bl_argv s ! 0) w" "bl_argv s ! 0 \<noteq> 0" "length w \<le> 32"
    "list_all2 (\<lambda>n c. ci_command c \<noteq> 0 \<and> cstr (mem s) (ci_command c) n \<and> length n \<le> 32) ns cs"
  shows "command_loop env cs argc p len s = (case find (\<lambda>(n, c). n = w) (zip ns cs) of
    None \<Rightarrow> Some (bl_heap_free s p len) | Some (n, c) \<Rightarrow> run_command env c argc s)"
  using assms(4)
proof (induction ns cs rule: list_all2_induct)
  case (Cons n ns c cs)
  then show ?case using strncmp_name [OF assms(1) _ assms(2) _ assms(3), of "ci_command c" n] by (simp add: run_command_def)
qed simp

lemma bl_commands_list:
  assumes "length (se_names env) = BL_COMMAND_TOTAL" "length (se_helps env) = BL_COMMAND_TOTAL"
  shows "length (bl_commands env) = BL_COMMAND_TOTAL" "i < BL_COMMAND_TOTAL \<Longrightarrow> ci_command (bl_commands env ! i) = se_names env ! i"
  using assms by (simp_all add: bl_commands_def BL_COMMAND_TOTAL_def)

lemma command_loop_ok:
  assumes "shell_static env c N (mem s)" "args_ok (mem s) (se_arguments env) (w # ws)" "bl_argv s = map (argument_addr (se_arguments env)) [0..<4]"
  shows "command_loop env (bl_commands env) argc p len s = (case command_named env w of
    None \<Rightarrow> Some (bl_heap_free s p len) | Some c \<Rightarrow> run_command env c argc s)"
proof -
  have l: "length (se_names env) = BL_COMMAND_TOTAL" "length (se_helps env) = BL_COMMAND_TOTAL" using assms(1) by (simp_all add: shell_static_def)
  have ln: "length command_names = BL_COMMAND_TOTAL" by (simp add: command_names_def BL_COMMAND_TOTAL_def)
  have "list_all2 (\<lambda>n c. ci_command c \<noteq> 0 \<and> cstr (mem s) (ci_command c) n \<and> length n \<le> 32) command_names (bl_commands env)"
  proof (rule list_all2_all_nthI)
    fix i assume "i < length command_names"
    then have i: "i < BL_COMMAND_TOTAL" using ln by simp
    have "(se_names env ! i, command_names ! i) \<in> set (zip (se_names env) command_names)" using i l(1) ln by (auto simp: in_set_zip)
    then show "ci_command (bl_commands env ! i) \<noteq> 0 \<and> cstr (mem s) (ci_command (bl_commands env ! i)) (command_names ! i) \<and> length (command_names ! i) \<le> 32"
      unfolding bl_commands_list(2) [OF l i] using assms(1) names_short [of "command_names ! i"] i ln by (auto simp: shell_static_def)
  qed (simp add: ln bl_commands_list(1) [OF l])
  moreover have "argument_addr (se_arguments env) 0 = se_arguments env" by (simp add: argument_addr_def)
  then have "bl_argv s ! 0 = se_arguments env" using assms(3) by (simp add: upt_rec)
  moreover have "cstr (mem s) (se_arguments env) w" "length w \<le> 32" "se_arguments env \<noteq> 0"
    using assms(2) \<open>argument_addr (se_arguments env) 0 = se_arguments env\<close> unfolding args_ok_def by (metis nth_Cons_0 zero_less_numeral)+
  ultimately show ?thesis using command_loop_find [of s w command_names "bl_commands env" env argc p len]
    by (auto simp: command_named_def split: option.splits)
qed

lemma shell_static_same:
  assumes "shell_static env c N m" "\<forall>x. off_range c N x \<longrightarrow> off_range (se_arguments env) 132 x \<longrightarrow> m' x = m x"
  shows "shell_static env c N m'"
proof -
  have "cstr m' p w" if "cstr m p w" "fits p (Suc (length w))" "apart c N p (Suc (length w))" "apart (se_arguments env) 132 p (Suc (length w))" for p w
    by (rule cstr_same [OF that(1,2)]) (use that(3,4) assms(2) in \<open>auto simp: off_range_def apart_def\<close>)
  then show ?thesis using assms(1) unfolding shell_static_def by blast
qed

lemma command_run_ok:
  assumes "cstr (mem s) p cs" "p \<noteq> 0" "cs \<noteq> []" "length cs + 2 < 2 ^ 32"
    and "bl_strndup p (of_nat (length cs)) s = Some (copy, s1)" "copy \<noteq> 0" "cstr (mem s1) copy cs" "mem s1 (copy + of_nat (length cs) + 1) = 0"
    and "shell_static env copy (length cs + 2) (mem s1)" "args_ok (mem s1) (se_arguments env) olds"
    and "bl_argv s1 = map (argument_addr (se_arguments env)) [0..<4]"
  shows "\<exists>s2. let words = tokens (\<lambda>x. x = 0x20) cs; args = new_args olds 0 BL_ARGUMENTS words
    in args_ok (mem s2) (se_arguments env) args \<and> bl_argv s2 = bl_argv s1 \<and> bl_last_result s2 = bl_last_result s1 \<and>
       bl_command_run env p s = (case command_named env (hd args) of
         None \<Rightarrow> Some (bl_heap_free s2 copy (of_nat (length cs)))
       | Some c \<Rightarrow> run_command env c (min BL_ARGUMENTS (length words)) s2)"
proof -
  let ?a = "se_arguments env" and ?d = "se_delimiter env" and ?N = "length cs + 2" and ?len = "of_nat (length cs) :: u32"
  have st: "?d \<noteq> 0" "cstr (mem s1) ?d [0x20]" "fits ?d 2" "apart copy ?N ?d 2" "apart ?a 132 ?d 2" "fits copy ?N" "apart ?a 132 copy ?N"
    using assms(9) by (simp_all add: shell_static_def numeral_2_eq_2)
  let ?s1 = "s1\<lparr>bl_strtok_str := copy\<rparr>"
  have ti: "tok_inv ?s1 cs ?d [0x20]"
    using assms(3,6-8) st by (simp add: tok_inv_def tok_extent_def numeral_2_eq_2 apart_sym)
  have first: "bl_strtok copy ?d s1 = bl_strtok 0 ?d ?s1" using assms(6) by (simp add: bl_strtok_def)
  have "unat copy \<le> unat (bl_strtok_str ?s1)" "unat (bl_strtok_str ?s1) + tok_extent cs \<le> unat copy + ?N" using assms(3) by (simp_all add: tok_extent_def)
  from strtok_token_at [OF ti this] obtain q s2 where
    2: "bl_strtok copy ?d s1 = Some (q, s2)" "token_at s2 copy ?N ?d [0x20] q (tokens (\<lambda>x. x = 0x20) cs)" "\<forall>x. off_range copy ?N x \<longrightarrow> mem s2 x = mem s1 x"
      "s2 = ?s1\<lparr>mem := mem s2, bl_strtok_str := bl_strtok_str s2\<rparr>" unfolding first by auto
  have a2: "args_ok (mem s2) ?a olds"
    by (rule args_ok_same [OF assms(10)]) (use 2(3) st(7) in \<open>auto simp: off_range_def apart_def\<close>)
  obtain s3 where
    3: "arguments_loop env BL_ARGUMENTS 0 q s2 = Some (length (take BL_ARGUMENTS (tokens (\<lambda>x. x = 0x20) cs)), s3)"
      "args_ok (mem s3) ?a (new_args olds 0 BL_ARGUMENTS (tokens (\<lambda>x. x = 0x20) cs))"
      "\<forall>x. off_range copy ?N x \<longrightarrow> off_range ?a 132 x \<longrightarrow> mem s3 x = mem s2 x" "s3 = s2\<lparr>mem := mem s3, bl_strtok_str := bl_strtok_str s3\<rparr>"
    using arguments_loop_ok [OF 2(2) a2, of 0 4 env] st by (auto simp: BL_ARGUMENTS_def numeral_2_eq_2)
  have e: "bl_argv s3 = bl_argv s1" "bl_last_result s3 = bl_last_result s1"
    by (subst 3(4), subst 2(4), simp)+
  have s3: "shell_static env copy ?N (mem s3)"
    by (rule shell_static_same [OF assms(9)]) (use 3(3) 2(3) in simp)
  obtain w ws where w: "new_args olds 0 BL_ARGUMENTS (tokens (\<lambda>x. x = 0x20) cs) = w # ws"
    using 3(2) by (cases "new_args olds 0 BL_ARGUMENTS (tokens (\<lambda>x. x = 0x20) cs)") (auto simp: args_ok_def)
  have len: "bl_strlen (mem s) p = Some ?len" "?len \<noteq> 0"
  proof -
    show "bl_strlen (mem s) p = Some ?len" using assms(1,2) by (rule bl_strlen_cstr)
    have "unat ?len = length cs" using assms(4) by (intro unat_of_nat_eq) simp
    then show "?len \<noteq> 0" using assms(3) by (metis length_0_conv unat_0)
  qed
  have "bl_command_run env p s = command_loop env (bl_commands env) (length (take BL_ARGUMENTS (tokens (\<lambda>x. x = 0x20) cs))) copy ?len s3"
    using len assms(5,6) 2(1) 3(1) by (simp add: bl_command_run_def)
  also have "\<dots> = (case command_named env w of None \<Rightarrow> Some (bl_heap_free s3 copy ?len)
      | Some c \<Rightarrow> run_command env c (length (take BL_ARGUMENTS (tokens (\<lambda>x. x = 0x20) cs))) s3)"
    by (rule command_loop_ok [OF s3 3(2) [unfolded w]]) (simp add: e(1) assms(11))
  also have "length (take BL_ARGUMENTS (tokens (\<lambda>x. x = 0x20) cs)) = min BL_ARGUMENTS (length (tokens (\<lambda>x. x = 0x20) cs))" by simp
  finally show ?thesis using 3(2) e w by (intro exI [of _ s3]) (simp add: Let_def)
qed

subsection \<open>The chosen disk and partition\<close>

text \<open>The chosen partition is one of the chosen disk.\<close>

definition operated_ok :: "('i, 'f, 'a) operated \<Rightarrow> bool" where
  "operated_ok p \<longleftrightarrow> (case operated_partition p of None \<Rightarrow> True
     | Some prt \<Rightarrow> (case operated_disk p of None \<Rightarrow> False | Some d \<Rightarrow> bl_storage_partition_get (fst d) (partition_index p) = Some prt))"

lemma set_disk_ok: "operated_ok p \<Longrightarrow> operated_ok (bl_shell_set_disk st index p)"
  by (auto simp: operated_ok_def bl_shell_set_disk_def split: option.splits)

lemma set_partition_ok: "operated_ok p \<Longrightarrow> bl_shell_set_partition fs index p s = Some (p', s') \<Longrightarrow> operated_ok p'"
  by (auto simp: operated_ok_def bl_shell_set_partition_def Let_def split: option.splits if_splits Option.bind_splits)

text \<open>A change of the disk keeps the index of the partition: the same index on the new disk is taken for chosen, and
  the mounted file system stays that of the old disk.\<close>

lemma new_disk_keeps_mount:
  assumes "bl_storage_device_get j st = Some d" "disk_index p \<noteq> j"
  shows "bl_shell_set_partition fs (partition_index p) (bl_shell_set_disk st j p) s =
    Some (p\<lparr>disk_index := j, operated_disk := Some d, operated_partition := None\<rparr>, s)"
  using assms by (simp add: bl_shell_set_disk_def bl_shell_set_partition_def)

text \<open>A partition that cannot be mounted leaves the shell without a file system.\<close>

lemma failed_mount_drops_handle:
  assumes "operated_disk p = Some d" "partition_index p \<noteq> i" "bl_storage_partition_get (fst d) i = Some prt" "bl_fs_try_mount fs d prt s = Some (None, s')"
  shows "bl_shell_set_partition fs i p s = Some (p\<lparr>operated_fs_handle := None\<rparr>, s')"
  using assms by (simp add: bl_shell_set_partition_def)

end
