(* ===== verification/Bl_Ahci.thy ===== *)
theory Bl_Ahci
  imports Bl_Shell
begin

text \<open>
  The AHCI driver: src/boot-loader/modules/storage/ahci. The registers of the controller are memory-mapped: \<open>ae_read\<close>
  and \<open>ae_write\<close> access them and let the controller act on the whole state, since it reads the command
  tables and writes the buffers in memory; so does the timer \<open>ae_sleep\<close>. The structures of the driver are memory.
  Pointers and bounds that the driver keeps in its own structures are read once in a function. \<open>ae_buffer\<close> is the address of the
  buffer the storage layer hands over, which the model of that layer returns as bytes.
\<close>

unbundle bit_operations_syntax

record 'd ahci_st = heap_st +
  ahci_hw :: 'd
  bl_ahci_device_list :: addr

record 's ahci_env =
  ae_io :: "'s ports"
  ae_read :: "addr \<Rightarrow> 's \<Rightarrow> u32 \<times> 's"
  ae_write :: "addr \<Rightarrow> u32 \<Rightarrow> 's \<Rightarrow> 's"
  ae_sleep :: "u64 \<Rightarrow> 's \<Rightarrow> 's"
  ae_print :: "'s callback"
  ae_buffer :: addr

definition BL_AHCI_PCI_BAR5_RTE :: u32 where "BL_AHCI_PCI_BAR5_RTE = push_bit 0 1"
definition BL_AHCI_PCI_BAR5_TP :: u32 where "BL_AHCI_PCI_BAR5_TP = push_bit 1 1"
definition BL_AHCI_PCI_BAR5_PF :: u32 where "BL_AHCI_PCI_BAR5_PF = push_bit 2 1"
definition BL_AHCI_PCI_BAR5_BA :: u32 where "BL_AHCI_PCI_BAR5_BA = 0xfffff000"
definition BL_AHCI_CAP_NP :: u32 where "BL_AHCI_CAP_NP = 0x1f"
definition BL_AHCI_CAP_NCS :: "u32 \<Rightarrow> u32" where "BL_AHCI_CAP_NCS cap = drop_bit 8 cap AND 0x1f"
definition BL_AHCI_GHC_HR :: u32 where "BL_AHCI_GHC_HR = push_bit 0 1"
definition BL_AHCI_GHC_AE :: u32 where "BL_AHCI_GHC_AE = push_bit 31 1"
definition BL_AHCI_PORT_IS_TFES :: u32 where "BL_AHCI_PORT_IS_TFES = push_bit 30 1"
definition BL_AHCI_PORT_CMD_ST :: u32 where "BL_AHCI_PORT_CMD_ST = push_bit 0 1"
definition BL_AHCI_PORT_CMD_FRE :: u32 where "BL_AHCI_PORT_CMD_FRE = push_bit 4 1"
definition BL_AHCI_PORT_CMD_FR :: u32 where "BL_AHCI_PORT_CMD_FR = push_bit 14 1"
definition BL_AHCI_PORT_CMD_CR :: u32 where "BL_AHCI_PORT_CMD_CR = push_bit 15 1"
definition BL_AHCI_PORT_TFD_STS_DRQ :: u32 where "BL_AHCI_PORT_TFD_STS_DRQ = push_bit 3 1"
definition BL_AHCI_PORT_TFD_STS_BSY :: u32 where "BL_AHCI_PORT_TFD_STS_BSY = push_bit 7 1"
definition BL_AHCI_PORT_SSTS_DET_PRESENT_PHYS :: u32 where "BL_AHCI_PORT_SSTS_DET_PRESENT_PHYS = 3"
definition BL_AHCI_PORT_STSS_DET :: "u32 \<Rightarrow> u32" where "BL_AHCI_PORT_STSS_DET ssts = ssts AND 0xf"
definition BL_AHCI_PRDT_MAX_DBC :: u64 where "BL_AHCI_PRDT_MAX_DBC = 0x400000"
definition BL_AHCI_PRDT_ENTRIES :: u64 where "BL_AHCI_PRDT_ENTRIES = 8"
definition BL_AHCI_FIS_TYPE_REGISTER_HOST_TO_DEVICE :: u8 where "BL_AHCI_FIS_TYPE_REGISTER_HOST_TO_DEVICE = 0x27"
definition BL_SATA_COMMAND_IDENTIFY :: u8 where "BL_SATA_COMMAND_IDENTIFY = 0xec"
definition BL_SATA_COMMAND_READ_SECTORS_DMA_EXT :: u8 where "BL_SATA_COMMAND_READ_SECTORS_DMA_EXT = 0x25"
definition BL_PCI_SUBCLASS_STORAGE_SATA :: int where "BL_PCI_SUBCLASS_STORAGE_SATA = 0x06"
definition BL_PCI_PROG_IF_STORAGE_SATA_AHCI :: int where "BL_PCI_PROG_IF_STORAGE_SATA_AHCI = 0x01"
definition BL_PCI_CONFIG_REG_BAR5 :: u32 where "BL_PCI_CONFIG_REG_BAR5 = 0x24"

subsection \<open>Structures\<close>

definition ahc_ghc :: "mem \<Rightarrow> addr \<Rightarrow> addr" where "ahc_ghc m c = ld32 m c"
definition ahc_number_of_ports :: "mem \<Rightarrow> addr \<Rightarrow> u32" where "ahc_number_of_ports m c = ld32 m (c + 4)"
definition ahc_ports :: "mem \<Rightarrow> addr \<Rightarrow> addr" where "ahc_ports m c = ld32 m (c + 8)"
definition ahc_port_regs :: "mem \<Rightarrow> addr \<Rightarrow> addr" where "ahc_port_regs m c = ld32 m (c + 12)"
definition ahc_command_slots :: "mem \<Rightarrow> addr \<Rightarrow> u32" where "ahc_command_slots m c = ld32 m (c + 16)"
definition sizeof_ahci_controller :: u32 where "sizeof_ahci_controller = 20"

definition ahp_implemented :: "mem \<Rightarrow> addr \<Rightarrow> u32" where "ahp_implemented m p = ld32 m p"
definition ahp_regs :: "mem \<Rightarrow> addr \<Rightarrow> addr" where "ahp_regs m p = ld32 m (p + 4)"
definition ahp_command_list :: "mem \<Rightarrow> addr \<Rightarrow> addr" where "ahp_command_list m p = ld32 m (p + 8)"
definition ahp_command_table :: "mem \<Rightarrow> addr \<Rightarrow> addr" where "ahp_command_table m p = ld32 m (p + 12)"
definition sizeof_ahci_port :: u32 where "sizeof_ahci_port = 20"

definition ahd_id :: "addr \<Rightarrow> addr" where "ahd_id d = d"
definition ahd_port :: "mem \<Rightarrow> addr \<Rightarrow> addr" where "ahd_port m d = ld32 m (d + 512)"
definition ahd_controller :: "mem \<Rightarrow> addr \<Rightarrow> addr" where "ahd_controller m d = ld32 m (d + 516)"
definition ahd_next :: "mem \<Rightarrow> addr \<Rightarrow> addr" where "ahd_next m d = ld32 m (d + 520)"
definition ahd_sectors_lba48 :: "mem \<Rightarrow> addr \<Rightarrow> u64" where "ahd_sectors_lba48 m d = ld64 m (ahd_id d + 200)"
definition sizeof_ahci_device :: u32 where "sizeof_ahci_device = 524"

text \<open>Registers: the generic ones and those of a port, 0x80 bytes each.\<close>

definition ghc_cap :: "addr \<Rightarrow> addr" where "ghc_cap g = g"
definition ghc_ghc :: "addr \<Rightarrow> addr" where "ghc_ghc g = g + 4"
definition ghc_pi :: "addr \<Rightarrow> addr" where "ghc_pi g = g + 0xc"
definition sizeof_port_registers :: nat where "sizeof_port_registers = 0x80"
definition pxclb :: "addr \<Rightarrow> addr" where "pxclb r = r"
definition pxfb :: "addr \<Rightarrow> addr" where "pxfb r = r + 8"
definition pxis :: "addr \<Rightarrow> addr" where "pxis r = r + 0x10"
definition pxcmd :: "addr \<Rightarrow> addr" where "pxcmd r = r + 0x18"
definition pxtfd :: "addr \<Rightarrow> addr" where "pxtfd r = r + 0x20"
definition pxssts :: "addr \<Rightarrow> addr" where "pxssts r = r + 0x28"
definition pxserr :: "addr \<Rightarrow> addr" where "pxserr r = r + 0x30"
definition pxsact :: "addr \<Rightarrow> addr" where "pxsact r = r + 0x34"
definition pxci :: "addr \<Rightarrow> addr" where "pxci r = r + 0x38"

text \<open>A command header and its table; the fields of the header are the flags, \<open>prdtl\<close> and \<open>ctba\<close>.\<close>

definition sizeof_command_header :: nat where "sizeof_command_header = 32"
definition sizeof_command_table :: nat where "sizeof_command_table = 256"
definition sizeof_received_fis :: u32 where "sizeof_received_fis = 256"
definition sizeof_fis_host_to_device :: nat where "sizeof_fis_host_to_device = 20"
definition ch_prdtl :: "addr \<Rightarrow> addr" where "ch_prdtl h = h + 2"
definition ch_ctba :: "addr \<Rightarrow> addr" where "ch_ctba h = h + 8"
definition ct_prdt :: "addr \<Rightarrow> nat \<Rightarrow> addr" where "ct_prdt t i = t + 0x80 + of_nat (16 * i)"

definition bl_ahci_device_add :: "addr \<Rightarrow> 'd ahci_st \<Rightarrow> 'd ahci_st" where
  "bl_ahci_device_add device s = s\<lparr>mem := st32 (mem s) (device + 520) (bl_ahci_device_list s), bl_ahci_device_list := device\<rparr>"

text \<open>A register changed in place.\<close>

definition ahci_modify :: "'s ahci_env \<Rightarrow> addr \<Rightarrow> (u32 \<Rightarrow> u32) \<Rightarrow> 's \<Rightarrow> 's" where
  "ahci_modify env a f s = (case ae_read env a s of (v, s1) \<Rightarrow> ae_write env a (f v) s1)"

subsection \<open>Commands\<close>

fun free_slot_loop :: "nat \<Rightarrow> nat \<Rightarrow> u32 \<Rightarrow> nat option" where
  "free_slot_loop 0 i slots = None"
| "free_slot_loop (Suc n) i slots = (if slots AND 1 = 0 then Some i else free_slot_loop n (i + 1) (drop_bit 1 slots))"

definition bl_ahci_find_free_command_slot :: "'d ahci_st ahci_env \<Rightarrow> addr \<Rightarrow> 'd ahci_st \<Rightarrow> nat option \<times> 'd ahci_st" where
  "bl_ahci_find_free_command_slot env device s =
     (let regs = ahp_regs (mem s) (ahd_port (mem s) device);
          (sact, s1) = ae_read env (pxsact regs) s;
          (ci, s2) = ae_read env (pxci regs) s1
      in (free_slot_loop (unat (ahc_command_slots (mem s2) (ahd_controller (mem s2) device))) 0 (sact OR ci), s2))"

definition prdt_sectors :: u64 where "prdt_sectors = BL_AHCI_PRDT_MAX_DBC div ucast BL_STORAGE_SECTOR_SIZE"

definition ahci_prdtl :: "u64 \<Rightarrow> u16" where
  "ahci_prdtl sectors = ucast (sectors div prdt_sectors + (if sectors mod prdt_sectors > 0 then 1 else 0))"

text \<open>The entries from the \<open>i\<close>th on; \<open>dbc\<close> has 22 bits, \<open>i\<close> is bit 31 of the same word.\<close>

fun prdt_loop :: "addr \<Rightarrow> addr \<Rightarrow> nat \<Rightarrow> nat \<Rightarrow> u64 \<Rightarrow> u64 \<Rightarrow> mem \<Rightarrow> mem" where
  "prdt_loop t buf 0 i count off m = m"
| "prdt_loop t buf (Suc n) i count off m =
     (let e = ct_prdt t i;
          m1 = st32 m e (ucast (ucast buf + off));
          read_size = ucast (BL_MIN count prdt_sectors * ucast BL_STORAGE_SECTOR_SIZE) :: u32;
          m2 = st32 m1 (e + 12) ((ld32 m1 (e + 12) AND NOT 0x3fffff) OR ((read_size - 1) AND 0x3fffff));
          m3 = st32 m2 (e + 12) (ld32 m2 (e + 12) OR push_bit 31 1)
      in prdt_loop t buf n (i + 1) (count - prdt_sectors) (off + ucast read_size) m3)"

text \<open>The command FIS at the start of the table.\<close>

definition ahci_fis :: "u8 \<Rightarrow> u64 \<Rightarrow> u64 \<Rightarrow> addr \<Rightarrow> mem \<Rightarrow> mem" where
  "ahci_fis command lba' sectors t m =
     (let m1 = m(t := BL_AHCI_FIS_TYPE_REGISTER_HOST_TO_DEVICE);
          m2 = m1(t + 1 := m1 (t + 1) OR 0x80);
          m3 = m2(t + 2 := command)
      in if m3 (t + 2) = BL_SATA_COMMAND_READ_SECTORS_DMA_EXT then
           m3(t + 4 := ucast (lba' AND 0xff), t + 5 := ucast (drop_bit 8 lba' AND 0xff), t + 6 := ucast (drop_bit 16 lba' AND 0xff),
              t + 8 := ucast (drop_bit 24 lba' AND 0xff), t + 9 := ucast (drop_bit 32 lba' AND 0xff), t + 10 := ucast (drop_bit 40 lba' AND 0xff),
              t + 12 := ucast (sectors AND 0xff), t + 13 := ucast (drop_bit 8 sectors AND 0xff), t + 7 := push_bit 6 1)
         else m3)"

text \<open>The header and the table of a slot: command length, direction, entries, and the cleared table with them.\<close>

definition ahci_set_slot :: "u8 \<Rightarrow> addr \<Rightarrow> u64 \<Rightarrow> u64 \<Rightarrow> addr \<Rightarrow> addr \<Rightarrow> mem \<Rightarrow> mem" where
  "ahci_set_slot command buf lba' sectors h t m =
     (let m1 = st16 m h ((ld16 m h AND NOT 0x1f) OR of_nat (sizeof_fis_host_to_device div 4));
          m2 = st16 m1 h (ld16 m1 h AND NOT 0x40);
          m3 = st16 m2 (ch_prdtl h) (ahci_prdtl sectors);
          m4 = snd (bl_memset m3 t 0 (of_nat sizeof_command_table));
          m5 = prdt_loop t buf (unat (ld16 m4 (ch_prdtl h))) 0 sectors 0 m4
      in ahci_fis command lba' sectors t m5)"

text \<open>The timeout of 100 counts down before the first test: 99 polls.\<close>

fun ahci_wait_loop :: "'s ahci_env \<Rightarrow> addr \<Rightarrow> u32 \<Rightarrow> nat \<Rightarrow> 's \<Rightarrow> 's" where
  "ahci_wait_loop env a bits 0 s = s"
| "ahci_wait_loop env a bits (Suc n) s =
     (case ae_read env a s of (v, s1) \<Rightarrow> if v AND bits = 0 then s1 else ahci_wait_loop env a bits n (ae_sleep env 1 s1))"

definition bl_ahci_do_command :: "'d ahci_st ahci_env \<Rightarrow> addr \<Rightarrow> u8 \<Rightarrow> addr \<Rightarrow> u64 \<Rightarrow> u64 \<Rightarrow> 'd ahci_st \<Rightarrow> bl_status \<times> 'd ahci_st" where
  "bl_ahci_do_command env device command buf lba' sectors s =
     (if sectors > BL_AHCI_PRDT_ENTRIES * prdt_sectors then (BL_STATUS_INVALID_PARAMETERS, s)
      else case bl_ahci_find_free_command_slot env device s of
        (None, s1) \<Rightarrow> (BL_STATUS_INSUFFICIENT_RESOURCES, s1)
      | (Some slot, s1) \<Rightarrow>
          let port = ahd_port (mem s1) device;
              regs = ahp_regs (mem s1) port;
              h = ahp_command_list (mem s1) port + of_nat (sizeof_command_header * slot);
              t = ahp_command_table (mem s1) port + of_nat (sizeof_command_table * slot);
              s2 = s1\<lparr>mem := ahci_set_slot command buf lba' sectors h t (mem s1)\<rparr>;
              s3 = ahci_modify env (pxci regs) (\<lambda>v. v OR push_bit slot 1) s2;
              s4 = ahci_wait_loop env (pxci regs) (push_bit slot 1) 99 s3;
              (ci, s5) = ae_read env (pxci regs) s4
          in if ci AND push_bit slot 1 \<noteq> 0 then (BL_STATUS_DISK_OPERATION_TIMEOUT, s5)
             else case ae_read env (pxis regs) s5 of
               (is, s6) \<Rightarrow> if is AND BL_AHCI_PORT_IS_TFES \<noteq> 0 then (BL_STATUS_DISK_CONTROLLER_INTERNAL_ERROR, s6)
                 else (BL_STATUS_SUCCESS, s6))"

definition bl_ahci_read :: "'d ahci_st ahci_env \<Rightarrow> device_info \<Rightarrow> addr \<Rightarrow> u64 \<Rightarrow> u64 \<Rightarrow> 'd ahci_st \<Rightarrow> bl_status \<times> 'd ahci_st" where
  "bl_ahci_read env disk buf lba' sectors s =
     (case bl_ahci_do_command env (dev_data disk) BL_SATA_COMMAND_READ_SECTORS_DMA_EXT buf lba' sectors s of
        (status, s1) \<Rightarrow> if failed status then (status, s1) else (BL_STATUS_SUCCESS, s1))"

definition bl_ahci_identify_device :: "'d ahci_st ahci_env \<Rightarrow> addr \<Rightarrow> 'd ahci_st \<Rightarrow> bl_status \<times> 'd ahci_st" where
  "bl_ahci_identify_device env device s =
     (case bl_ahci_do_command env device BL_SATA_COMMAND_IDENTIFY (ahd_id device) 0 1 s of
        (status, s1) \<Rightarrow> if failed status then (status, s1) else (BL_STATUS_SUCCESS, s1))"

subsection \<open>Detection\<close>

definition ahci_port_addr :: "addr \<Rightarrow> nat \<Rightarrow> addr" where "ahci_port_addr prts i = prts + of_nat (unat sizeof_ahci_port * i)"
definition port_registers :: "addr \<Rightarrow> nat \<Rightarrow> addr" where "port_registers regs i = regs + of_nat (sizeof_port_registers * i)"

text \<open>The ports from the \<open>i\<close>th on; the status register decides before the link is looked at.\<close>

fun detect_loop :: "'d ahci_st ahci_env \<Rightarrow> addr \<Rightarrow> nat \<Rightarrow> nat \<Rightarrow> 'd ahci_st \<Rightarrow> (bl_status \<times> 'd ahci_st) option" where
  "detect_loop env ahci 0 i s = Some (BL_STATUS_SUCCESS, s)"
| "detect_loop env ahci (Suc n) i s =
     (let port = ahci_port_addr (ahc_ports (mem s) ahci) i; r = port_registers (ahc_port_regs (mem s) ahci) i
      in if ahp_implemented (mem s) port = 0 then detect_loop env ahci n (i + 1) s
         else case ae_read env (pxtfd r) s of
           (tfd, s1) \<Rightarrow>
             if tfd AND (BL_AHCI_PORT_TFD_STS_DRQ OR BL_AHCI_PORT_TFD_STS_BSY) \<noteq> 0 then detect_loop env ahci n (i + 1) s1
             else case ae_read env (pxssts r) s1 of
               (ssts, s2) \<Rightarrow>
                 if BL_AHCI_PORT_STSS_DET ssts \<noteq> BL_AHCI_PORT_SSTS_DET_PRESENT_PHYS then detect_loop env ahci n (i + 1) s2
                 else do {
                   (device, s4) \<leftarrow> bl_heap_alloc (ahci_modify env (pxcmd r) (\<lambda>v. v OR BL_AHCI_PORT_CMD_ST) s2) sizeof_ahci_device;
                   if device = 0 then Some (BL_STATUS_MEMORY_ALLOCATION_FAILED, s4)
                   else detect_loop env ahci n (i + 1) (bl_ahci_device_add device
                     (snd (bl_ahci_identify_device env device (s4\<lparr>mem := st32 (st32 (mem s4) (device + 512) port) (device + 516) ahci\<rparr>)))) })"

definition bl_ahci_detect_devices :: "'d ahci_st ahci_env \<Rightarrow> addr \<Rightarrow> 'd ahci_st \<Rightarrow> (bl_status \<times> 'd ahci_st) option" where
  "bl_ahci_detect_devices env ahci s = detect_loop env ahci (unat (ahc_number_of_ports (mem s) ahci)) 0 s"

text \<open>A port is stopped if it runs; \<open>None\<close> goes on with the next one.\<close>

definition ahci_stop_port :: "'s ahci_env \<Rightarrow> addr \<Rightarrow> 's \<Rightarrow> bl_status option \<times> 's" where
  "ahci_stop_port env r s =
     (case ae_read env (pxcmd r) s of
        (cmd, s1) \<Rightarrow>
          if cmd AND (BL_AHCI_PORT_CMD_ST OR BL_AHCI_PORT_CMD_FRE OR BL_AHCI_PORT_CMD_FR OR BL_AHCI_PORT_CMD_CR) = 0 then (None, s1)
          else case ae_read env (pxcmd r) (ae_sleep env 500 (ahci_modify env (pxcmd r) (\<lambda>v. v AND NOT BL_AHCI_PORT_CMD_ST) s1)) of
            (cmd1, s2) \<Rightarrow>
              if cmd1 AND BL_AHCI_PORT_CMD_CR \<noteq> 0 then (Some BL_STATUS_DISK_CONTROLLER_INTERNAL_ERROR, s2)
              else case ae_read env (pxcmd r) s2 of
                (cmd2, s3) \<Rightarrow>
                  if cmd2 AND BL_AHCI_PORT_CMD_FRE = 0 then (None, s3)
                  else case ae_read env (pxcmd r) (ae_sleep env 500 (ahci_modify env (pxcmd r) (\<lambda>v. v AND NOT BL_AHCI_PORT_CMD_FRE) s3)) of
                    (cmd3, s4) \<Rightarrow> (if cmd3 AND BL_AHCI_PORT_CMD_FR \<noteq> 0 then Some BL_STATUS_DISK_CONTROLLER_INTERNAL_ERROR else None, s4))"

fun stop_ports_loop :: "'d ahci_st ahci_env \<Rightarrow> addr \<Rightarrow> nat \<Rightarrow> nat \<Rightarrow> 'd ahci_st \<Rightarrow> bl_status option \<times> 'd ahci_st" where
  "stop_ports_loop env ahci 0 i s = (None, s)"
| "stop_ports_loop env ahci (Suc n) i s =
     (let port = ahci_port_addr (ahc_ports (mem s) ahci) i
      in case ae_read env (ghc_pi (ahc_ghc (mem s) ahci)) s of
        (pi', s1) \<Rightarrow>
          if pi' AND push_bit i 1 = 0 then stop_ports_loop env ahci n (i + 1) (s1\<lparr>mem := st32 (mem s1) port 0\<rparr>)
          else case ahci_stop_port env (port_registers (ahc_port_regs (mem s1) ahci) i) s1 of
            (Some status, s2) \<Rightarrow> (Some status, s2)
          | (None, s2) \<Rightarrow> stop_ports_loop env ahci n (i + 1) (s2\<lparr>mem := st32 (mem s2) port 1\<rparr>))"

fun tables_loop :: "addr \<Rightarrow> addr \<Rightarrow> nat \<Rightarrow> nat \<Rightarrow> mem \<Rightarrow> mem" where
  "tables_loop cl ct 0 j m = m"
| "tables_loop cl ct (Suc n) j m =
     tables_loop cl ct n (j + 1) (st32 m (ch_ctba (cl + of_nat (sizeof_command_header * j))) (ct + of_nat (sizeof_command_table * j)))"

text \<open>The command list, the tables and the received FIS of the ports.\<close>

fun setup_ports_loop :: "'d ahci_st ahci_env \<Rightarrow> addr \<Rightarrow> nat \<Rightarrow> nat \<Rightarrow> 'd ahci_st \<Rightarrow> (bl_status option \<times> 'd ahci_st) option" where
  "setup_ports_loop env ahci 0 i s = Some (None, s)"
| "setup_ports_loop env ahci (Suc n) i s =
     (let port = ahci_port_addr (ahc_ports (mem s) ahci) i; r = port_registers (ahc_port_regs (mem s) ahci) i; slots = ahc_command_slots (mem s) ahci
      in if ahp_implemented (mem s) port = 0 then setup_ports_loop env ahci n (i + 1) s
         else do {
           (cl, s1) \<leftarrow> bl_heap_alloc_align (s\<lparr>mem := st32 (mem s) (port + 4) r\<rparr>) (slots * of_nat sizeof_command_header) 0x400;
           let s2 = s1\<lparr>mem := st32 (mem s1) (port + 8) cl\<rparr>;
           if cl = 0 then Some (Some BL_STATUS_MEMORY_ALLOCATION_FAILED, s2)
           else do {
             (ct, s3) \<leftarrow> bl_heap_alloc_align (ae_write env (pxclb r) cl s2) (slots * of_nat sizeof_command_table) 0x400;
             let s4 = s3\<lparr>mem := st32 (mem s3) (port + 12) ct\<rparr>;
             if ct = 0 then Some (Some BL_STATUS_MEMORY_ALLOCATION_FAILED, s4)
             else do {
               (fis, s5) \<leftarrow> bl_heap_alloc_align (s4\<lparr>mem := tables_loop cl ct (unat slots) 0 (mem s4)\<rparr>) sizeof_received_fis 0x1000;
               let s6 = s5\<lparr>mem := st32 (mem s5) (port + 16) fis\<rparr>;
               if fis = 0 then Some (Some BL_STATUS_MEMORY_ALLOCATION_FAILED, s6)
               else setup_ports_loop env ahci n (i + 1)
                 (ahci_modify env (pxcmd r) (\<lambda>v. v OR BL_AHCI_PORT_CMD_FRE) (ae_write env (pxfb r) fis s6)) } } })"

fun clear_errors_loop :: "'d ahci_st ahci_env \<Rightarrow> addr \<Rightarrow> nat \<Rightarrow> nat \<Rightarrow> 'd ahci_st \<Rightarrow> 'd ahci_st" where
  "clear_errors_loop env ahci 0 i s = s"
| "clear_errors_loop env ahci (Suc n) i s =
     clear_errors_loop env ahci n (i + 1)
       (if ahp_implemented (mem s) (ahci_port_addr (ahc_ports (mem s) ahci) i) = 0 then s
        else ahci_modify env (pxserr (port_registers (ahc_port_regs (mem s) ahci) i)) (\<lambda>v. v) s)"

definition bl_ahci_controller_init :: "'d ahci_st ahci_env \<Rightarrow> addr \<Rightarrow> 'd ahci_st \<Rightarrow> (bl_status \<times> 'd ahci_st) option" where
  "bl_ahci_controller_init env ahci s =
     (let g = ahc_ghc (mem s) ahci;
          s1 = ahci_modify env (ghc_ghc g) (\<lambda>v. v OR BL_AHCI_GHC_HR) (ahci_modify env (ghc_ghc g) (\<lambda>v. v OR BL_AHCI_GHC_AE) s);
          (v, s2) = ae_read env (ghc_ghc g) (ahci_wait_loop env (ghc_ghc g) BL_AHCI_GHC_HR 999 s1)
      in if v AND BL_AHCI_GHC_HR \<noteq> 0 then Some (BL_STATUS_DISK_CONTROLLER_INTERNAL_ERROR, s2)
         else do {
           let (cap, s3) = ae_read env (ghc_cap g) (ahci_modify env (ghc_ghc g) (\<lambda>v. v OR BL_AHCI_GHC_AE) s2);
           let np = 1 + (cap AND BL_AHCI_CAP_NP);
           (prts, s4) \<leftarrow> bl_heap_alloc (s3\<lparr>mem := st32 (mem s3) (ahci + 4) np\<rparr>) (np * sizeof_ahci_port);
           let s5 = s4\<lparr>mem := st32 (mem s4) (ahci + 8) prts\<rparr>;
           if prts = 0 then Some (BL_STATUS_MEMORY_ALLOCATION_FAILED, s5)
           else (case stop_ports_loop env ahci (unat np) 0 (s5\<lparr>mem := st32 (mem s5) (ahci + 12) (g + 0x100)\<rparr>) of
             (Some status, s6) \<Rightarrow> Some (status, s6)
           | (None, s6) \<Rightarrow> do {
               let (cap1, s7) = ae_read env (ghc_cap g) s6;
               (r, s8) \<leftarrow> setup_ports_loop env ahci (unat np) 0 (s7\<lparr>mem := st32 (mem s7) (ahci + 16) (1 + BL_AHCI_CAP_NCS cap1)\<rparr>);
               (case r of Some status \<Rightarrow> Some (status, s8)
                | None \<Rightarrow> do {
                    (status, s9) \<leftarrow> bl_ahci_detect_devices env ahci (clear_errors_loop env ahci (unat np) 0 s8);
                    Some (if failed status then status else BL_STATUS_SUCCESS, s9) }) }) })"

definition bl_ahci_pci_initialize :: "'d ahci_st ahci_env \<Rightarrow> 'd ahci_st pci_hook" where
  "bl_ahci_pci_initialize env i s =
     (case bl_pci_check_device_class (ae_io env) i BL_PCI_BASE_CLASS_STORAGE BL_PCI_SUBCLASS_STORAGE_SATA BL_PCI_PROG_IF_STORAGE_SATA_AHCI s of
        (status, s1) \<Rightarrow> if failed status then Some (status, s1)
          else case bl_pci_read_config_long (ae_io env) i BL_PCI_CONFIG_REG_BAR5 s1 of
            (base, s2) \<Rightarrow>
              if base AND (BL_AHCI_PCI_BAR5_RTE OR BL_AHCI_PCI_BAR5_TP OR BL_AHCI_PCI_BAR5_PF) \<noteq> 0
              then Some (BL_STATUS_DISK_CONTROLLER_INTERNAL_ERROR, s2)
              else do {
                (ahci, s3) \<leftarrow> bl_heap_alloc s2 sizeof_ahci_controller;
                if ahci = 0 then Some (BL_STATUS_MEMORY_ALLOCATION_FAILED, s3)
                else do {
                  (status1, s4) \<leftarrow> bl_ahci_controller_init env ahci (s3\<lparr>mem := st32 (mem s3) ahci (base AND BL_AHCI_PCI_BAR5_BA)\<rparr>);
                  Some (if failed status1 then status1 else BL_STATUS_SUCCESS, s4) } })"

definition ahci_functions :: "'d ahci_st ahci_env \<Rightarrow> ('d, unit) ahci_st_ext controller" where
  "ahci_functions env = \<lparr>ctl_type = BL_DISK_CONTROLLER_TYPE_AHCI,
     ctl_read = (\<lambda>disk lba' n s. case bl_ahci_read env disk (ae_buffer env) lba' n s of
       (status, s1) \<Rightarrow> Some (status, mem_get (mem s1) (ae_buffer env) (512 * unat n), s1)), ctl_get_info = None\<rparr>"

partial_function (option) ahci_register_loop :: "'d ahci_st ahci_env \<Rightarrow> addr \<Rightarrow> ('d, unit) ahci_st_ext storage_st \<Rightarrow> 'd ahci_st \<Rightarrow>
    (('d, unit) ahci_st_ext storage_st \<times> 'd ahci_st) option" where
  "ahci_register_loop env device st s =
     (if device = 0 then Some (st, s)
      else do {
        (disk, s1) \<leftarrow> bl_heap_alloc s sizeof_storage_device;
        if disk = 0 then Some (st, s1)
        else ahci_register_loop env (ahd_next (mem s1) device)
          (bl_storage_device_register (\<lparr>dev_type = BL_STORAGE_TYPE_HARD_DRIVE, sector_size = BL_STORAGE_SECTOR_SIZE,
             sector_count = ahd_sectors_lba48 (mem s1) device, partitions = [], dev_data = device\<rparr>, Some (ahci_functions env)) st) s1 })"

definition ahci_module_init :: "'d ahci_st ahci_env \<Rightarrow> ('d, unit) ahci_st_ext storage_st \<Rightarrow> 'd ahci_st \<Rightarrow>
    (('d, unit) ahci_st_ext storage_st \<times> 'd ahci_st) option" where
  "ahci_module_init env st s = do {
     s1 \<leftarrow> bl_pci_iterate_devices (ae_io env) (ae_print env) (Some (bl_ahci_pci_initialize env)) s;
     (controller, s2) \<leftarrow> bl_heap_alloc s1 12;
     if controller = 0 then Some (st, s2)
     else ahci_register_loop env (bl_ahci_device_list s2) (bl_disk_controller_register (ahci_functions env) st) s2 }"

subsection \<open>What the controller finds in memory\<close>

text \<open>An entry of the table: where, and how many bytes. The FIS names 48 bits of block number and a count, where 0 stands for 65536.\<close>

definition prd :: "mem \<Rightarrow> addr \<Rightarrow> nat \<Rightarrow> addr \<times> nat" where
  "prd m t i = (ld32 m (ct_prdt t i), unat (ld32 m (ct_prdt t i + 12) AND mask 22) + 1)"

definition fis_lba :: "mem \<Rightarrow> addr \<Rightarrow> nat" where
  "fis_lba m t = le_nat [m (t + 4), m (t + 5), m (t + 6), m (t + 8), m (t + 9), m (t + 10)]"

definition fis_count :: "mem \<Rightarrow> addr \<Rightarrow> nat" where
  "fis_count m t = (let n = le_nat [m (t + 12), m (t + 13)] in if n = 0 then 65536 else n)"

text \<open>The header asks for a read with a FIS of five words, the FIS for READ DMA EXT by blocks.\<close>

definition hba_read_command :: "mem \<Rightarrow> addr \<Rightarrow> bool" where
  "hba_read_command m h \<longleftrightarrow> (let t = ld32 m (ch_ctba h)
     in ld16 m h AND 0x5f = 5 \<and> m t = 0x27 \<and> bit (m (t + 1)) 7 \<and> m (t + 2) = 0x25 \<and> bit (m (t + 7)) 6)"

fun scatter :: "(addr \<times> nat) list \<Rightarrow> u8 list \<Rightarrow> mem \<Rightarrow> mem" where
  "scatter [] bs m = m"
| "scatter ((a, n) # es) bs m = scatter es (drop n bs) (mem_put m a (take n bs))"

definition hba_read :: "(nat \<Rightarrow> u8) \<Rightarrow> addr \<Rightarrow> mem \<Rightarrow> mem" where
  "hba_read D h m = (let t = ld32 m (ch_ctba h)
     in scatter (map (prd m t) [0..<unat (ld16 m (ch_prdtl h))]) (disk_bytes D (512 * fis_lba m t) (512 * fis_count m t)) m)"

subsection \<open>Frames\<close>

lemma mem_put_frame: "fits a (length bs) \<Longrightarrow> off_range a (length bs) x \<Longrightarrow> mem_put m a bs x = m x"
  using unat_lt2p [of x] by (intro mem_put_out) (auto simp: off_range_def fits_def unat_diff_wrap)

lemma st_frame:
  "fits a 2 \<Longrightarrow> off_range a 2 x \<Longrightarrow> st16 m a v x = m x" "fits a 4 \<Longrightarrow> off_range a 4 x \<Longrightarrow> st32 m a w x = m x"
  using mem_put_frame [of a "to_le 2 (unat v)" x] mem_put_frame [of a "to_le 4 (unat w)" x] by (simp_all add: st16_def st32_def)

lemma ld_same:
  "fits a 2 \<Longrightarrow> \<forall>x. \<not> off_range a 2 x \<longrightarrow> m' x = m x \<Longrightarrow> ld16 m' a = ld16 m a"
  "fits a 4 \<Longrightarrow> \<forall>x. \<not> off_range a 4 x \<longrightarrow> m' x = m x \<Longrightarrow> ld32 m' a = ld32 m a"
  using mem_get_same [of a 2 m' m] mem_get_same [of a 4 m' m] by (simp_all add: ld16_def ld32_def off_range_def not_less not_le)

lemma table_addr: "fits t n \<Longrightarrow> k < n \<Longrightarrow> unat (t + of_nat k) = unat t + k"
  by (intro unat_add_lt) (simp add: fits_def)

lemma prdt_addr: "fits t 256 \<Longrightarrow> i < 8 \<Longrightarrow> k < 16 \<Longrightarrow> unat (ct_prdt t i + of_nat k) = unat t + 128 + 16 * i + k"
proof -
  assume a: "fits t 256" "i < 8" "k < 16"
  have "ct_prdt t i + of_nat k = t + of_nat (128 + 16 * i + k)" by (simp add: ct_prdt_def)
  then show ?thesis using table_addr [OF a(1), of "128 + 16 * i + k"] a(2,3) by (simp only: add.assoc)
qed

lemma prd_same:
  assumes "fits t 256" "i < 8" "\<forall>x. unat t + 128 + 16 * i \<le> unat x \<and> unat x < unat t + 128 + 16 * i + 16 \<longrightarrow> m' x = m x"
  shows "prd m' t i = prd m t i"
proof -
  have u: "unat (ct_prdt t i) = unat t + 128 + 16 * i" "unat (ct_prdt t i + 12) = unat t + 128 + 16 * i + 12"
    using prdt_addr [OF assms(1,2), of 0] prdt_addr [OF assms(1,2), of 12] by simp_all
  have "ld32 m' (ct_prdt t i) = ld32 m (ct_prdt t i)" "ld32 m' (ct_prdt t i + 12) = ld32 m (ct_prdt t i + 12)"
    by (rule ld_same(2); use u assms in \<open>auto simp: fits_def off_range_def\<close>)+
  then show ?thesis by (simp add: prd_def)
qed

lemma dbc_field: "(((x AND NOT (mask 22)) OR (y AND mask 22)) OR push_bit 31 1) AND mask 22 = (y AND mask 22 :: u32)"
  by (rule bit_eqI) (simp only: bit_and_iff bit_or_iff bit_not_iff bit_mask_iff bit_push_bit_iff, auto)

lemma prdt_sectors_eq: "prdt_sectors = 8192"
  by (simp add: prdt_sectors_def BL_AHCI_PRDT_MAX_DBC_def BL_STORAGE_SECTOR_SIZE_def)

text \<open>One entry.\<close>

lemma prdt_entry:
  assumes "fits t 256" "i < 8" "0 < c" "c \<le> 8192"
    "m' = st32 (st32 (st32 m (ct_prdt t i) b) (ct_prdt t i + 12) ((x AND NOT 0x3fffff) OR ((of_nat (512 * c) - 1) AND 0x3fffff)))
      (ct_prdt t i + 12) (((x AND NOT 0x3fffff) OR ((of_nat (512 * c) - 1) AND 0x3fffff)) OR push_bit 31 1)"
  shows "prd m' t i = (b, 512 * c)" "off_range (ct_prdt t i) 16 z \<Longrightarrow> m' z = m z"
proof -
  let ?e = "ct_prdt t i"
  have u: "unat ?e = unat t + 128 + 16 * i" "unat (?e + 12) = unat t + 128 + 16 * i + 12"
    using prdt_addr [OF assms(1,2), of 0] prdt_addr [OF assms(1,2), of 12] by simp_all
  have f: "fits ?e 4" "fits (?e + 12) 4" using u assms(1,2) by (simp_all add: fits_def)
  show "m' z = m z" if "off_range ?e 16 z"
    unfolding assms(5) using that u by (simp add: st_frame f off_range_def) (auto simp: st_frame f off_range_def)
  have k: "(0x3fffff :: u32) = mask 22" by (simp add: mask_eq_exp_minus_1)
  have y: "unat (of_nat (512 * c) - 1 :: u32) = 512 * c - 1"
  proof -
    have "unat (of_nat (512 * c) :: u32) = 512 * c" using assms(4) by (intro unat_of_nat_eq) simp
    then show ?thesis using assms(3) unat_minus_one [of "of_nat (512 * c) :: u32"] by (metis mult_is_0 not_gr_zero unat_0 zero_neq_numeral)
  qed
  have 1: "ld32 m' ?e = b"
  proof -
    have "ld32 m' ?e = ld32 (st32 m ?e b) ?e"
      unfolding assms(5) by (rule ld_same(2) [OF f(1)]) (use u in \<open>auto simp: st_frame f off_range_def\<close>)
    then show ?thesis by (simp add: ld_st_same)
  qed
  have 2: "unat (ld32 m' (?e + 12) AND mask 22) = 512 * c - 1"
    unfolding assms(5) ld_st_same k dbc_field and_mask_unat y using assms(3,4) by (intro mod_less) simp
  show "prd m' t i = (b, 512 * c)" using 1 2 assms(3) by (simp add: prd_def)
qed

lemma ucast_of_nat_down: "(ucast (of_nat n :: u64) :: u32) = of_nat n"
  by (simp add: word_unat_eq_iff unsigned_ucast_eq unsigned_of_nat take_bit_eq_mod mod_mod_cancel)

lemma ucast_of_nat_up: "n < 2 ^ 32 \<Longrightarrow> (ucast (of_nat n :: u32) :: u64) = of_nat n"
  by (simp add: word_unat_eq_iff unsigned_ucast_eq unsigned_of_nat take_bit_eq_mod)

lemma prdt_loop_ok:
  assumes "fits t 256" "i + n \<le> 8" "N \<le> 65536" "\<forall>k<n. 8192 * (i + k) < N"
    "n = 0 \<or> count = of_nat (N - 8192 * i) \<and> off = of_nat (0x400000 * i)"
  shows "(\<forall>x. unat x < unat t + 128 + 16 * i \<or> unat t + 128 + 16 * (i + n) \<le> unat x \<longrightarrow> prdt_loop t buf n i count off m x = m x) \<and>
    (\<forall>j. i \<le> j \<and> j < i + n \<longrightarrow> prd (prdt_loop t buf n i count off m) t j = (buf + of_nat (0x400000 * j), 512 * min 8192 (N - 8192 * j)))"
  using assms(2,4,5)
proof (induction n arbitrary: i count off m)
  case (Suc n)
  let ?e = "ct_prdt t i" and ?c = "min 8192 (N - 8192 * i)"
  have i: "i < 8" "8192 * i < N" using Suc.prems(1,2) by auto
  have co: "count = of_nat (N - 8192 * i)" "off = of_nat (0x400000 * i)" using Suc.prems(3) by simp_all
  have uc: "unat count = N - 8192 * i" unfolding co(1) using assms(3) by (intro unat_of_nat_eq) simp
  have "ucast buf + off = (of_nat (unat buf + 0x400000 * i) :: u64)" unfolding co(2) of_nat_add by simp
  then have b: "(ucast (ucast buf + off) :: u32) = buf + of_nat (0x400000 * i)"
    using ucast_of_nat_down [of "unat buf + 0x400000 * i"] by (simp only: of_nat_add of_nat_unat ucast_id)
  have mn: "BL_MIN count prdt_sectors = of_nat ?c"
    using uc unfolding BL_MIN_def prdt_sectors_eq by (auto simp: word_less_nat_alt co(1) min_def)
  have "BL_MIN count prdt_sectors * ucast BL_STORAGE_SECTOR_SIZE = of_nat (512 * ?c)"
    unfolding mn by (simp add: BL_STORAGE_SECTOR_SIZE_def mult.commute)
  then have rs: "(ucast (BL_MIN count prdt_sectors * ucast BL_STORAGE_SECTOR_SIZE) :: u32) = of_nat (512 * ?c)"
    using ucast_of_nat_down [of "512 * ?c"] by (simp only:)
  define m1 where "m1 = st32 m ?e (buf + of_nat (0x400000 * i))"
  define m3 where "m3 = st32 (st32 m1 (?e + 12) ((ld32 m1 (?e + 12) AND NOT 0x3fffff) OR ((of_nat (512 * ?c) - 1) AND 0x3fffff)))
      (?e + 12) (((ld32 m1 (?e + 12) AND NOT 0x3fffff) OR ((of_nat (512 * ?c) - 1) AND 0x3fffff)) OR push_bit 31 1)"
  have run: "prdt_loop t buf (Suc n) i count off m = prdt_loop t buf n (i + 1) (count - prdt_sectors) (off + ucast (of_nat (512 * ?c) :: u32)) m3"
    unfolding prdt_loop.simps Let_def rs b m3_def m1_def ld_st_same ..
  note entry = prdt_entry [OF assms(1) i(1), of ?c m3 m "buf + of_nat (0x400000 * i)" "ld32 m1 (?e + 12)", folded m1_def, OF _ _ m3_def]
  have e: "prd m3 t i = (buf + of_nat (0x400000 * i), 512 * ?c)" "\<And>z. off_range ?e 16 z \<Longrightarrow> m3 z = m z"
    using entry i(2) by simp_all
  have nx: "n = 0 \<or> count - prdt_sectors = of_nat (N - 8192 * (i + 1)) \<and> off + ucast (of_nat (512 * ?c) :: u32) = of_nat (0x400000 * (i + 1))"
  proof (cases "n = 0")
    case False
    then have "8192 * (i + 1) < N" using Suc.prems(2) by (auto dest: spec [of _ 1])
    then have 8: "?c = 8192" "N - 8192 * i = (N - 8192 * (i + 1)) + 8192" by simp_all
    have "count - prdt_sectors = of_nat (N - 8192 * (i + 1))" unfolding co(1) 8(2) prdt_sectors_eq of_nat_add by simp
    moreover have "off + ucast (of_nat (512 * ?c) :: u32) = of_nat (0x400000 * i) + of_nat 0x400000"
      unfolding co(2) 8(1) using ucast_of_nat_up [of "512 * 8192"] by simp
    moreover have "(0x400000 :: nat) * (i + 1) = 0x400000 * i + 0x400000" by simp
    ultimately show ?thesis by (simp only: of_nat_add simp_thms)
  qed simp
  have IH: "\<forall>x. unat x < unat t + 128 + 16 * (i + 1) \<or> unat t + 128 + 16 * (i + 1 + n) \<le> unat x \<longrightarrow> prdt_loop t buf (Suc n) i count off m x = m3 x"
      "\<forall>j. i + 1 \<le> j \<and> j < i + 1 + n \<longrightarrow> prd (prdt_loop t buf (Suc n) i count off m) t j = (buf + of_nat (0x400000 * j), 512 * min 8192 (N - 8192 * j))"
    using Suc.IH [of "i + 1" "count - prdt_sectors" "off + ucast (of_nat (512 * ?c) :: u32)" m3] Suc.prems(1,2) nx unfolding run by auto
  have u: "unat ?e = unat t + 128 + 16 * i" using prdt_addr [OF assms(1) i(1), of 0] by simp
  have "prd (prdt_loop t buf (Suc n) i count off m) t i = prd m3 t i"
    by (rule prd_same [OF assms(1) i(1)]) (use IH(1) in auto)
  then have "prd (prdt_loop t buf (Suc n) i count off m) t j = (buf + of_nat (0x400000 * j), 512 * min 8192 (N - 8192 * j))"
    if "i \<le> j" "j < i + Suc n" for j
    using IH(2) e(1) that by (cases "j = i") auto
  moreover have "prdt_loop t buf (Suc n) i count off m x = m x"
    if "unat x < unat t + 128 + 16 * i \<or> unat t + 128 + 16 * (i + Suc n) \<le> unat x" for x
  proof -
    have "prdt_loop t buf (Suc n) i count off m x = m3 x" using IH(1) that by auto
    moreover have "off_range ?e 16 x" using that u by (auto simp: off_range_def)
    ultimately show ?thesis using e(2) by simp
  qed
  ultimately show ?case by blast
qed auto

subsection \<open>A slot set up for a read\<close>

definition prdt_entries :: "nat \<Rightarrow> nat" where "prdt_entries n = (n + 8191) div 8192"

lemma prdt_entries_eq: "prdt_entries N = N div 8192 + (if N mod 8192 > 0 then 1 else 0)"
proof -
  let ?q = "N div 8192" and ?r = "N mod 8192"
  have "N + 8191 = 8192 * ?q + (?r + 8191)" by simp
  then have "(N + 8191) div 8192 = ?q + (?r + 8191) div 8192" by (metis div_mult_self4 zero_neq_numeral add.commute)
  moreover have "(?r + 8191) div 8192 = (if ?r > 0 then 1 else 0)"
  proof (cases "?r > 0")
    case True
    then have "?r + 8191 = 8192 + (?r - 1)" by simp
    moreover have "?r - 1 < 8192" using mod_less_divisor [of 8192 N] by simp
    ultimately show ?thesis using True by (simp del: mod_less_divisor)
  qed simp
  ultimately show ?thesis unfolding prdt_entries_def by simp
qed

lemma prdt_entries_bounds:
  "N \<le> 65536 \<Longrightarrow> prdt_entries N \<le> 8" "k < prdt_entries N \<Longrightarrow> 8192 * k < N" "N \<le> 8192 * prdt_entries N" "8192 * prdt_entries N < N + 8192"
proof -
  show "prdt_entries N \<le> 8" if "N \<le> 65536" using div_le_mono [of "N + 8191" "65536 + 8191" 8192] that unfolding prdt_entries_def by simp
  show "8192 * k < N" if "k < prdt_entries N"
    using less_eq_div_iff_mult_less_eq [of 8192 "Suc k" "N + 8191"] that unfolding prdt_entries_def by simp
  have "8192 * prdt_entries N + (N + 8191) mod 8192 = N + 8191" unfolding prdt_entries_def by simp
  moreover have "(N + 8191) mod 8192 \<le> 8191" using mod_less_divisor [of 8192 "N + 8191"] by linarith
  ultimately show "N \<le> 8192 * prdt_entries N" "8192 * prdt_entries N < N + 8192" by linarith+
qed

lemma ahci_prdtl_unat: "unat n \<le> 65536 \<Longrightarrow> unat (ahci_prdtl n) = prdt_entries (unat n)"
proof -
  assume n: "unat n \<le> 65536"
  define N where "N = unat n"
  have "n = of_nat N" by (simp add: N_def)
  have N: "N \<le> 65536" using n by (simp add: N_def)
  have d: "unat (n div 8192) = N div 8192" "unat (n mod 8192) = N mod 8192" by (simp_all add: N_def unat_div unat_mod)
  have "n mod 8192 > 0 \<longleftrightarrow> N mod 8192 > 0" using d(2) by (metis unat_gt_0 word_neq_0_conv)
  then have "unat (n div 8192 + (if n mod 8192 > 0 then 1 else 0)) = N div 8192 + (if N mod 8192 > 0 then 1 else 0)"
    using d(1) N by (auto simp: unat_word_ariths)
  moreover have "N div 8192 + (if N mod 8192 > 0 then 1 else 0) = prdt_entries N" by (rule prdt_entries_eq [symmetric])
  moreover have "prdt_entries N \<le> 8" using prdt_entries_bounds(1) [OF N] .
  ultimately show ?thesis unfolding ahci_prdtl_def prdt_sectors_eq N_def [symmetric] by (simp add: unsigned_ucast_eq take_bit_eq_mod)
qed

lemma byte_of: "(ucast (v AND 0xff :: u64) :: u8) = of_nat (unat v mod 256)"
  using low_byte [of v] by (simp add: word_unat_eq_iff unsigned_of_nat take_bit_eq_mod)

lemma unat_drop_bit: "unat (drop_bit k v :: u64) = unat v div 2 ^ k"
  by (simp only: unat_drop_bit_eq) (simp add: drop_bit_eq_div)

lemma fis_bytes:
  assumes "m' = ahci_fis 0x25 l n t m"
  shows "fis_lba m' t = unat l mod 2 ^ 48" "le_nat [m' (t + 12), m' (t + 13)] = unat n mod 65536"
    "m' t = 0x27" "bit (m' (t + 1)) 7" "m' (t + 2) = 0x25" "bit (m' (t + 7)) 6"
proof -
  have b: "m' (t + 4) = of_nat (unat l mod 256)" "m' (t + 5) = of_nat (unat l div 2 ^ 8 mod 256)" "m' (t + 6) = of_nat (unat l div 2 ^ 16 mod 256)"
    "m' (t + 8) = of_nat (unat l div 2 ^ 24 mod 256)" "m' (t + 9) = of_nat (unat l div 2 ^ 32 mod 256)" "m' (t + 10) = of_nat (unat l div 2 ^ 40 mod 256)"
    "m' (t + 12) = of_nat (unat n mod 256)" "m' (t + 13) = of_nat (unat n div 2 ^ 8 mod 256)"
    unfolding assms ahci_fis_def Let_def byte_of unat_drop_bit by (simp_all add: BL_SATA_COMMAND_READ_SECTORS_DMA_EXT_def)
  have "to_le 6 (unat l) = [m' (t + 4), m' (t + 5), m' (t + 6), m' (t + 8), m' (t + 9), m' (t + 10)]"
    unfolding b by (simp add: to_le_numeral div_mult2_eq [symmetric])
  then show "fis_lba m' t = unat l mod 2 ^ 48" unfolding fis_lba_def using le_nat_to_le [of 6 "unat l"] by (simp only:) simp
  have "to_le 2 (unat n) = [m' (t + 12), m' (t + 13)]" unfolding b by (simp add: to_le_numeral)
  then show "le_nat [m' (t + 12), m' (t + 13)] = unat n mod 65536" using le_nat_to_le [of 2 "unat n"] by (simp only:) simp
  show "m' t = 0x27" "m' (t + 2) = 0x25" "bit (m' (t + 7)) 6"
    unfolding assms ahci_fis_def Let_def by (simp_all add: BL_SATA_COMMAND_READ_SECTORS_DMA_EXT_def BL_AHCI_FIS_TYPE_REGISTER_HOST_TO_DEVICE_def)
  have "m' (t + 1) = m (t + 1) OR 0x80"
    unfolding assms ahci_fis_def Let_def by (simp add: BL_SATA_COMMAND_READ_SECTORS_DMA_EXT_def)
  then show "bit (m' (t + 1)) 7" by (simp only: bit_or_iff) simp
qed

lemma fis_frame: "fits t 256 \<Longrightarrow> off_range t 14 x \<Longrightarrow> ahci_fis c l n t m x = m x"
proof -
  assume a: "fits t 256" "off_range t 14 x"
  have "x \<noteq> t + of_nat k" if "k < 14" for k using table_addr [OF a(1), of k] a(2) that by (auto simp: off_range_def)
  from this [of 0] this [of 1] this [of 2] this [of 4] this [of 5] this [of 6] this [of 7] this [of 8] this [of 9] this [of 10] this [of 12] this [of 13]
  show ?thesis unfolding ahci_fis_def Let_def by simp
qed

lemma header_flags: "(((x AND NOT 0x1f) OR 5) AND NOT 0x40) AND 0x5f = (5 :: u16)"
  by (simp add: word_bw_assocs word_ao_dist)

lemma set_slot_ok:
  assumes "fits h 32" "fits t 256" "t \<noteq> 0" "apart h 32 t 256" "ld32 m (ch_ctba h) = t" "0 < n" "unat n \<le> 65536"
    "m' = ahci_set_slot BL_SATA_COMMAND_READ_SECTORS_DMA_EXT buf l n h t m"
  shows "ld32 m' (ch_ctba h) = t" "hba_read_command m' h" "unat (ld16 m' (ch_prdtl h)) = prdt_entries (unat n)"
    "fis_lba m' t = unat l mod 2 ^ 48" "fis_count m' t = unat n"
    "\<forall>j<prdt_entries (unat n). prd m' t j = (buf + of_nat (0x400000 * j), 512 * min 8192 (unat n - 8192 * j))"
    "\<forall>x. off_range h 4 x \<longrightarrow> off_range t 256 x \<longrightarrow> m' x = m x"
proof -
  define m2 where "m2 = st16 (st16 m h ((ld16 m h AND NOT 0x1f) OR 5)) h (((ld16 m h AND NOT 0x1f) OR 5) AND NOT 0x40)"
  define m3 where "m3 = st16 m2 (ch_prdtl h) (ahci_prdtl n)"
  define m4 where "m4 = mem_put m3 t (replicate 255 0)"
  define m5 where "m5 = prdt_loop t buf (prdt_entries (unat n)) 0 n 0 m4"
  have uh: "unat (h + 2) = unat h + 2" "unat (h + 8) = unat h + 8" using table_addr [OF assms(1), of 2] table_addr [OF assms(1), of 8] by simp_all
  have fh: "fits h 2" "fits (h + 2) 2" "fits (h + 8) 4" using assms(1) uh by (simp_all add: fits_def)
  have fr2: "m2 x = m x" if "off_range h 2 x" for x unfolding m2_def using that by (simp add: st_frame(1) [OF fh(1)])
  have fr3: "m3 x = m2 x" if "off_range (h + 2) 2 x" for x unfolding m3_def ch_prdtl_def using that by (simp add: st_frame(1) [OF fh(2)])
  have fr4: "m4 x = m3 x" if "off_range t 256 x" for x
    unfolding m4_def by (rule mem_put_frame) (use assms(2) that in \<open>auto simp: fits_def off_range_def\<close>)
  have N: "prdt_entries (unat n) \<le> 8" "\<forall>k<prdt_entries (unat n). 8192 * (0 + k) < unat n"
    using prdt_entries_bounds(1) [OF assms(7)] prdt_entries_bounds(2) by simp_all
  note pl = prdt_loop_ok [OF assms(2) _ assms(7) N(2), of n 0 buf m4]
  have fr5: "m5 x = m4 x" if "unat x < unat t + 128 \<or> unat t + 256 \<le> unat x" for x
    unfolding m5_def using pl that N(1) by auto
  have l4: "ld16 m4 (ch_prdtl h) = ahci_prdtl n"
  proof -
    have "ld16 m4 (h + 2) = ld16 m3 (h + 2)"
      by (rule ld_same(1) [OF fh(2)]) (use assms(4) uh fr4 in \<open>auto simp: off_range_def apart_def\<close>)
    then show ?thesis by (simp add: m3_def ch_prdtl_def ld_st_same)
  qed
  have m': "m' = ahci_fis 0x25 l n t m5"
    unfolding assms(8) ahci_set_slot_def Let_def m5_def m4_def m3_def m2_def BL_SATA_COMMAND_READ_SECTORS_DMA_EXT_def
    using bl_memset_correct [OF assms(3), of m3 0 256] l4 ahci_prdtl_unat [OF assms(7)]
    by (simp add: sizeof_command_table_def sizeof_fis_host_to_device_def ld_st_same m4_def m3_def m2_def)
  have fr6: "m' x = m5 x" if "off_range t 14 x" for x unfolding m' using fis_frame [OF assms(2) that] .
  have low: "m' x = m3 x" if "off_range t 256 x" for x
  proof -
    have "off_range t 14 x" "unat x < unat t + 128 \<or> unat t + 256 \<le> unat x" using that by (auto simp: off_range_def)
    then show ?thesis using fr6 fr5 fr4 that by simp
  qed
  show "\<forall>x. off_range h 4 x \<longrightarrow> off_range t 256 x \<longrightarrow> m' x = m x"
    using low fr3 fr2 uh by (auto simp: off_range_def)
  show ct: "ld32 m' (ch_ctba h) = t"
  proof -
    have "ld32 m' (h + 8) = ld32 m (h + 8)"
      by (rule ld_same(2) [OF fh(3)]) (use assms(4) uh low fr3 fr2 in \<open>auto simp: off_range_def apart_def\<close>)
    then show ?thesis using assms(5) by (simp add: ch_ctba_def)
  qed
  show "unat (ld16 m' (ch_prdtl h)) = prdt_entries (unat n)"
  proof -
    have "ld16 m' (h + 2) = ld16 m3 (h + 2)"
      by (rule ld_same(1) [OF fh(2)]) (use assms(4) uh low in \<open>auto simp: off_range_def apart_def\<close>)
    then show ?thesis using ahci_prdtl_unat [OF assms(7)] by (simp add: m3_def ch_prdtl_def ld_st_same)
  qed
  have "ld16 m' h = ld16 m2 h"
    by (rule ld_same(1) [OF fh(1)]) (use assms(4) uh low fr3 in \<open>auto simp: off_range_def apart_def\<close>)
  then have "ld16 m' h AND 0x5f = 5" using header_flags by (simp only: m2_def ld_st_same)
  then show "hba_read_command m' h" unfolding hba_read_command_def ct Let_def using fis_bytes(3-6) [OF m'] by simp
  show "fis_lba m' t = unat l mod 2 ^ 48" by (rule fis_bytes(1) [OF m'])
  have "0 < unat n" using assms(6) by (simp add: unat_gt_0 word_neq_0_conv)
  then show "fis_count m' t = unat n" unfolding fis_count_def fis_bytes(2) [OF m'] Let_def using assms(7) by (cases "unat n = 65536") auto
  have "prd m' t j = prd m5 t j" if "j < 8" for j
    by (rule prd_same [OF assms(2) that]) (auto simp: off_range_def intro!: fr6)
  then show "\<forall>j<prdt_entries (unat n). prd m' t j = (buf + of_nat (0x400000 * j), 512 * min 8192 (unat n - 8192 * j))"
    using pl N(1) unfolding m5_def by auto
qed

subsection \<open>The transfer\<close>

lemma scatter_entries:
  assumes "length bs = 512 * N" "512 * N \<le> 2 ^ 32" "8192 * k < N + 8192"
  shows "i \<le> k \<Longrightarrow> N \<le> 8192 * k \<Longrightarrow>
    scatter (map (\<lambda>j. (buf + of_nat (0x400000 * j), 512 * min 8192 (N - 8192 * j))) [i..<k]) (drop (0x400000 * i) bs) m =
    mem_put m (buf + of_nat (0x400000 * i)) (drop (0x400000 * i) bs)"
proof (induction "k - i" arbitrary: i m)
  case 0
  then show ?case using assms(1) by simp
next
  case (Suc d)
  then have i: "i < k" by simp
  let ?c = "512 * min 8192 (N - 8192 * i)" and ?r = "drop (0x400000 * i) bs"
  have sp: "[i..<k] = i # [Suc i..<k]" using i by (simp add: upt_conv_Cons)
  have "8192 * i < N" using assms(3) i by linarith
  have IH: "scatter (map (\<lambda>j. (buf + of_nat (0x400000 * j), 512 * min 8192 (N - 8192 * j))) [Suc i..<k]) (drop (0x400000 * Suc i) bs) m' =
    mem_put m' (buf + of_nat (0x400000 * Suc i)) (drop (0x400000 * Suc i) bs)" for m'
    using Suc.hyps(1) [of "Suc i"] Suc.hyps(2) Suc.prems i by simp
  show ?case
  proof (cases "Suc i = k")
    case True
    then have "length ?r \<le> ?c" using assms(1) Suc.prems(2) by simp
    then show ?thesis unfolding sp using True by simp
  next
    case False
    then have "Suc (Suc i) \<le> k" using i by simp
    then have "8192 * Suc (Suc i) \<le> 8192 * k" by (rule mult_le_mono2)
    then have "8192 * Suc i < N" using assms(3) by simp
    then have c: "?c = 0x400000" "0x400000 * Suc i \<le> length bs" using assms(1) by simp_all
    have dr: "drop ?c ?r = drop (0x400000 * Suc i) bs" unfolding c(1) by (simp add: add.commute)
    have lt: "length (take ?c ?r) = 0x400000" unfolding c(1) using c(2) by simp
    have ad: "buf + of_nat (0x400000 * Suc i) = buf + of_nat (0x400000 * i) + of_nat (length (take ?c ?r))" unfolding lt by simp
    have "length (take ?c ?r) + length (drop ?c ?r) \<le> 2 ^ 32" using assms(1,2) by simp
    then show ?thesis unfolding sp list.map scatter.simps dr IH ad unfolding dr [symmetric] by (simp only: mem_put_append append_take_drop_id)
  qed
qed

subsection \<open>What the driver asks of the controller\<close>

text \<open>The commands that are issued, and the number of milliseconds until they are done.\<close>

record hba_view =
  hba_ci :: u32
  hba_left :: nat

text \<open>The state when the command of a slot is done, or still has \<open>left\<close> to go.\<close>

definition hba_progress :: "('d \<Rightarrow> hba_view) \<Rightarrow> (nat \<Rightarrow> u8) \<Rightarrow> addr \<Rightarrow> nat \<Rightarrow> nat \<Rightarrow> 'd ahci_st \<Rightarrow> 'd ahci_st \<Rightarrow> bool" where
  "hba_progress view D cl slot left s s' \<longleftrightarrow> (\<exists>h. hba_left (view h) = left \<and> hba_ci (view h) = (if left = 0 then 0 else push_bit slot 1) \<and>
     s' = s\<lparr>mem := (if left = 0 then hba_read D (cl + of_nat (sizeof_command_header * slot)) (mem s) else mem s), ahci_hw := h\<rparr>)"

text \<open>
  A port with a disk \<open>D\<close>: a read command issued in a slot is carried out within 98 ms, the data is in memory when the bit of the slot is
  cleared, and no task file error is pending; reading registers changes the hardware only.
\<close>

definition ahci_hba :: "'d ahci_st ahci_env \<Rightarrow> addr \<Rightarrow> addr \<Rightarrow> ('d \<Rightarrow> hba_view) \<Rightarrow> (nat \<Rightarrow> u8) \<Rightarrow> bool" where
  "ahci_hba env regs cl view D \<longleftrightarrow>
     (\<forall>s. \<exists>h. ae_read env (pxsact regs) s = (0, s\<lparr>ahci_hw := h\<rparr>) \<and> view h = view (ahci_hw s)) \<and>
     (\<forall>s. \<exists>h. ae_read env (pxci regs) s = (hba_ci (view (ahci_hw s)), s\<lparr>ahci_hw := h\<rparr>) \<and> view h = view (ahci_hw s)) \<and>
     (\<forall>s. hba_ci (view (ahci_hw s)) = 0 \<longrightarrow>
        (\<exists>v h. ae_read env (pxis regs) s = (v, s\<lparr>ahci_hw := h\<rparr>) \<and> v AND BL_AHCI_PORT_IS_TFES = 0 \<and> view h = view (ahci_hw s))) \<and>
     (\<forall>s slot. slot < 32 \<longrightarrow> hba_ci (view (ahci_hw s)) = 0 \<longrightarrow> hba_read_command (mem s) (cl + of_nat (sizeof_command_header * slot)) \<longrightarrow>
        (\<exists>left \<le> 98. hba_progress view D cl slot left s (ae_write env (pxci regs) (push_bit slot 1) s))) \<and>
     (\<forall>s slot left. slot < 32 \<longrightarrow> hba_ci (view (ahci_hw s)) = push_bit slot 1 \<longrightarrow> hba_left (view (ahci_hw s)) = Suc left \<longrightarrow>
        hba_progress view D cl slot left s (ae_sleep env 1 s))"

lemma ahci_mem_first [simp]: "s\<lparr>ahci_hw := h, mem := m\<rparr> = s\<lparr>mem := m, ahci_hw := h\<rparr>"
  by simp

lemma hba_clauses:
  assumes "ahci_hba env regs cl view D"
  shows "\<exists>h. ae_read env (pxsact regs) s = (0, s\<lparr>ahci_hw := h\<rparr>) \<and> view h = view (ahci_hw s)"
    "\<exists>h. ae_read env (pxci regs) s = (hba_ci (view (ahci_hw s)), s\<lparr>ahci_hw := h\<rparr>) \<and> view h = view (ahci_hw s)"
    "hba_ci (view (ahci_hw s)) = 0 \<Longrightarrow> \<exists>v h. ae_read env (pxis regs) s = (v, s\<lparr>ahci_hw := h\<rparr>) \<and> v AND BL_AHCI_PORT_IS_TFES = 0 \<and> view h = view (ahci_hw s)"
    "slot < 32 \<Longrightarrow> hba_ci (view (ahci_hw s)) = 0 \<Longrightarrow> hba_read_command (mem s) (cl + of_nat (sizeof_command_header * slot)) \<Longrightarrow>
      \<exists>left \<le> 98. hba_progress view D cl slot left s (ae_write env (pxci regs) (push_bit slot 1) s)"
    "slot < 32 \<Longrightarrow> hba_ci (view (ahci_hw s)) = push_bit slot 1 \<Longrightarrow> hba_left (view (ahci_hw s)) = Suc left \<Longrightarrow>
      hba_progress view D cl slot left s (ae_sleep env 1 s)"
  using assms unfolding ahci_hba_def by (elim conjE; simp only: HOL.simp_thms)+

lemma slot_bit: "slot < 32 \<Longrightarrow> push_bit slot (1 :: u32) \<noteq> 0"
proof
  assume "slot < 32" "push_bit slot (1 :: u32) = 0"
  then have "bit (push_bit slot (1 :: u32)) slot = bit (0 :: u32) slot" by simp
  then show False using \<open>slot < 32\<close> by (simp only: bit_push_bit_iff) simp
qed

text \<open>The polls see the command done.\<close>

lemma hba_wait:
  assumes "ahci_hba env regs cl view D" "slot < 32"
  shows "hba_progress view D cl slot left s0 s \<Longrightarrow> left < n \<Longrightarrow>
    \<exists>h. ahci_wait_loop env (pxci regs) (push_bit slot 1) n s = s0\<lparr>mem := hba_read D (cl + of_nat (sizeof_command_header * slot)) (mem s0), ahci_hw := h\<rparr> \<and>
      hba_ci (view h) = 0"
proof (induction n arbitrary: s left)
  case (Suc n)
  obtain h where h: "hba_left (view h) = left" "hba_ci (view h) = (if left = 0 then 0 else push_bit slot 1)"
      "s = s0\<lparr>mem := (if left = 0 then hba_read D (cl + of_nat (sizeof_command_header * slot)) (mem s0) else mem s0), ahci_hw := h\<rparr>"
    using Suc.prems(1) by (auto simp: hba_progress_def)
  obtain h1 where h1: "ae_read env (pxci regs) s = (hba_ci (view h), s\<lparr>ahci_hw := h1\<rparr>)" "view h1 = view h"
    using hba_clauses(2) [OF assms(1), of s] h(3) by auto
  show ?case
  proof (cases left)
    case 0
    then show ?thesis using h h1 by (intro exI [of _ h1]) simp
  next
    case (Suc k)
    have ci: "hba_ci (view h) = push_bit slot 1" using h(2) Suc by simp
    have e: "s\<lparr>ahci_hw := h1\<rparr> = s0\<lparr>ahci_hw := h1\<rparr>" using h(3) Suc by simp
    have "hba_progress view D cl slot k (s0\<lparr>ahci_hw := h1\<rparr>) (ae_sleep env 1 (s0\<lparr>ahci_hw := h1\<rparr>))"
      using hba_clauses(5) [OF assms, of "s0\<lparr>ahci_hw := h1\<rparr>" k] h1(2) ci h(1) Suc by simp
    then have p: "hba_progress view D cl slot k s0 (ae_sleep env 1 (s0\<lparr>ahci_hw := h1\<rparr>))" by (cases k) (auto simp: hba_progress_def)
    have "ahci_wait_loop env (pxci regs) (push_bit slot 1) (Suc n) s = ahci_wait_loop env (pxci regs) (push_bit slot 1) n (ae_sleep env 1 (s0\<lparr>ahci_hw := h1\<rparr>))"
      using h1(1) ci slot_bit [OF assms(2)] e by simp
    then show ?thesis using Suc.IH [OF p] Suc.prems(2) Suc by simp
  qed
qed simp

text \<open>The driver, the port and its structures, and the buffer.\<close>

definition ahci_ready :: "addr \<Rightarrow> addr \<Rightarrow> nat \<Rightarrow> ('d \<Rightarrow> hba_view) \<Rightarrow> 'd ahci_st \<Rightarrow> bool" where
  "ahci_ready device buf len view s \<longleftrightarrow>
     (let m = mem s; port = ahd_port m device; cl = ahp_command_list m port; ct = ahp_command_table m port
      in hba_ci (view (ahci_hw s)) = 0 \<and> ahc_command_slots m (ahd_controller m device) \<noteq> 0 \<and> ld32 m (ch_ctba cl) = ct \<and> ct \<noteq> 0 \<and>
         fits cl 32 \<and> fits ct 256 \<and> fits buf len \<and> apart cl 32 ct 256 \<and> apart buf len cl 32 \<and> apart buf len ct 256)"

lemma ahci_read_ok:
  assumes "ahci_hba env (ahp_regs (mem s) (ahd_port (mem s) (dev_data disk))) (ahp_command_list (mem s) (ahd_port (mem s) (dev_data disk))) view D"
    "ahci_ready (dev_data disk) buf (512 * unat n) view s" "0 < n" "unat n \<le> 65536"
  shows "\<exists>s'. bl_ahci_read env disk buf l n s = (BL_STATUS_SUCCESS, s') \<and>
    mem_get (mem s') buf (512 * unat n) = disk_bytes D (512 * (unat l mod 2 ^ 48)) (512 * unat n) \<and>
    (\<forall>x. off_range (ahp_command_list (mem s) (ahd_port (mem s) (dev_data disk))) 4 x \<longrightarrow>
       off_range (ahp_command_table (mem s) (ahd_port (mem s) (dev_data disk))) 256 x \<longrightarrow> off_range buf (512 * unat n) x \<longrightarrow> mem s' x = mem s x)"
proof -
  let ?d = "dev_data disk" and ?N = "unat n"
  let ?p = "ahd_port (mem s) ?d" 
  let ?cl = "ahp_command_list (mem s) ?p" and ?ct = "ahp_command_table (mem s) ?p" and ?regs = "ahp_regs (mem s) ?p"
  have r: "hba_ci (view (ahci_hw s)) = 0" "ahc_command_slots (mem s) (ahd_controller (mem s) ?d) \<noteq> 0" "ld32 (mem s) (ch_ctba ?cl) = ?ct" "?ct \<noteq> 0"
      "fits ?cl 32" "fits ?ct 256" "fits buf (512 * ?N)" "apart ?cl 32 ?ct 256" "apart buf (512 * ?N) ?cl 32" "apart buf (512 * ?N) ?ct 256"
    using assms(2) by (simp_all add: ahci_ready_def Let_def)
  obtain h1 where h1: "ae_read env (pxsact ?regs) s = (0, s\<lparr>ahci_hw := h1\<rparr>)" "view h1 = view (ahci_hw s)"
    using hba_clauses(1) [OF assms(1)] by blast
  obtain h2 where h2: "ae_read env (pxci ?regs) (s\<lparr>ahci_hw := h1\<rparr>) = (0, s\<lparr>ahci_hw := h2\<rparr>)" "view h2 = view (ahci_hw s)"
    using hba_clauses(2) [OF assms(1), of "s\<lparr>ahci_hw := h1\<rparr>"] h1(2) r(1) by auto
  have slot: "bl_ahci_find_free_command_slot env ?d s = (Some 0, s\<lparr>ahci_hw := h2\<rparr>)"
  proof -
    obtain k where "unat (ahc_command_slots (mem s) (ahd_controller (mem s) ?d)) = Suc k" using r(2) by (metis not0_implies_Suc unat_eq_0)
    then show ?thesis using h1(1) h2(1) by (simp add: bl_ahci_find_free_command_slot_def Let_def)
  qed
  define m' where "m' = ahci_set_slot BL_SATA_COMMAND_READ_SECTORS_DMA_EXT buf l n ?cl ?ct (mem s)"
  note so = set_slot_ok [OF r(5,6,4,8,3) assms(3,4) m'_def]
  let ?s2 = "s\<lparr>mem := m', ahci_hw := h2\<rparr>"
  obtain h3 where h3: "ae_read env (pxci ?regs) ?s2 = (0, ?s2\<lparr>ahci_hw := h3\<rparr>)" "view h3 = view (ahci_hw s)"
    using hba_clauses(2) [OF assms(1), of ?s2] h2(2) r(1) by auto
  let ?s3 = "s\<lparr>mem := m', ahci_hw := h3\<rparr>"
  have z: "(of_nat (sizeof_command_header * 0) :: u32) = 0" by simp
  obtain left where left: "left \<le> 98" "hba_progress view D ?cl 0 left ?s3 (ae_write env (pxci ?regs) (push_bit 0 1) ?s3)"
    using hba_clauses(4) [OF assms(1), of 0 ?s3] so(2) h3(2) r(1) by auto
  obtain h4 where h4: "ahci_wait_loop env (pxci ?regs) (push_bit 0 1) 99 (ae_write env (pxci ?regs) (push_bit 0 1) ?s3) =
      s\<lparr>mem := hba_read D ?cl m', ahci_hw := h4\<rparr>" "hba_ci (view h4) = 0"
    using hba_wait [OF assms(1) _ left(2), of 99] left(1) by auto
  let ?s4 = "s\<lparr>mem := hba_read D ?cl m', ahci_hw := h4\<rparr>"
  obtain h5 where h5: "ae_read env (pxci ?regs) ?s4 = (0, ?s4\<lparr>ahci_hw := h5\<rparr>)" "hba_ci (view h5) = 0"
    using hba_clauses(2) [OF assms(1), of ?s4] h4(2) by auto
  let ?s5 = "s\<lparr>mem := hba_read D ?cl m', ahci_hw := h5\<rparr>"
  obtain v h6 where h6: "ae_read env (pxis ?regs) ?s5 = (v, ?s5\<lparr>ahci_hw := h6\<rparr>)" "v AND BL_AHCI_PORT_IS_TFES = 0"
    using hba_clauses(3) [OF assms(1), of ?s5] h5(2) by auto
  let ?s6 = "s\<lparr>mem := hba_read D ?cl m', ahci_hw := h6\<rparr>"
  have "\<not> BL_AHCI_PRDT_ENTRIES * prdt_sectors < n"
    using assms(4) by (simp add: BL_AHCI_PRDT_ENTRIES_def prdt_sectors_eq word_less_nat_alt)
  then have run: "bl_ahci_read env disk buf l n s = (BL_STATUS_SUCCESS, ?s6)"
    using slot h3(1) h4(1) h5(1) h6
    by (simp add: bl_ahci_read_def bl_ahci_do_command_def Let_def ahci_modify_def m'_def [symmetric] failed_def z)
  let ?B = "disk_bytes D (512 * (unat l mod 2 ^ 48)) (512 * ?N)"
  have lb: "length ?B = 512 * ?N" by (simp add: disk_bytes_def)
  have es: "map (prd m' ?ct) [0..<prdt_entries ?N] = map (\<lambda>j. (buf + of_nat (0x400000 * j), 512 * min 8192 (?N - 8192 * j))) [0..<prdt_entries ?N]"
    using so(6) by (intro map_cong refl) simp
  have sc: "scatter (map (\<lambda>j. (buf + of_nat (0x400000 * j), 512 * min 8192 (?N - 8192 * j))) [0..<prdt_entries ?N]) ?B m' = mem_put m' buf ?B"
    using scatter_entries [OF lb _ prdt_entries_bounds(4), of 0 buf m'] prdt_entries_bounds(3) r(7) by (simp add: fits_def)
  have hb: "hba_read D ?cl m' = mem_put m' buf ?B"
    unfolding hba_read_def Let_def so(1,3,4,5) es by (rule sc)
  have "mem_get (mem ?s6) buf (512 * ?N) = ?B" unfolding hb using r(7) lb by (simp add: mem_get_put_same fits_def)
  moreover have "mem ?s6 x = mem s x" if "off_range ?cl 4 x" "off_range ?ct 256 x" "off_range buf (512 * ?N) x" for x
    using so(7) that mem_put_frame [of buf ?B x m'] r(7) unfolding hb lb by simp
  ultimately show ?thesis using run by blast
qed

end
