(* ===== verification/Bl_Hci.thy ===== *)
theory Bl_Hci
  imports Bl_Ahci
begin

text \<open>
  What the USB host controller drivers of src/boot-loader/modules/usb share. A driver works on the state of the USB core; the lists of
  controllers the drivers keep are in its hardware part. The environment gives the port instructions, the memory-mapped registers by
  width and the timer: each lets the controller act on the whole state, since it works through the schedules in memory and moves the data of the
  transfers. \<open>hi_funcs\<close> is the address of the driver's table of functions. A transfer of the core is given the contents of the
  caller's objects: \<open>hi_setup\<close> and \<open>hi_data\<close> are where the set-up packet and the buffer are in memory.
  A descriptor that a driver has not linked yet is written at once. An \<open>int\<close> is a word compared with its sign.
\<close>

unbundle bit_operations_syntax

record 'd hci_hw =
  uhci_list :: addr
  ohci_list :: addr
  ehci_list :: addr
  bl_xhci_list :: addr
  hci_dev :: 'd

type_synonym 'd hci_st = "'d hci_hw usb_st"

record 's hci_env =
  hi_io :: "'s ports"
  hi_read8 :: "addr \<Rightarrow> 's \<Rightarrow> u8 \<times> 's"
  hi_read16 :: "addr \<Rightarrow> 's \<Rightarrow> u16 \<times> 's"
  hi_read :: "addr \<Rightarrow> 's \<Rightarrow> u32 \<times> 's"
  hi_write :: "addr \<Rightarrow> u32 \<Rightarrow> 's \<Rightarrow> 's"
  hi_sleep :: "u64 \<Rightarrow> 's \<Rightarrow> 's"
  hi_print :: "'s callback"
  hi_funcs :: addr
  hi_setup :: addr
  hi_data :: addr

text \<open>A register changed in place, and the poll of one: the count is decremented before the first test.\<close>

definition hci_modify :: "'s hci_env \<Rightarrow> addr \<Rightarrow> (u32 \<Rightarrow> u32) \<Rightarrow> 's \<Rightarrow> 's" where
  "hci_modify env a f s = (case hi_read env a s of (v, s1) \<Rightarrow> hi_write env a (f v) s1)"

fun hci_wait_loop :: "'s hci_env \<Rightarrow> addr \<Rightarrow> u32 \<Rightarrow> nat \<Rightarrow> 's \<Rightarrow> 's" where
  "hci_wait_loop env a bits 0 s = s"
| "hci_wait_loop env a bits (Suc n) s =
     (case hi_read env a s of (v, s1) \<Rightarrow> if v AND bits = 0 then s1 else hci_wait_loop env a bits n (hi_sleep env 1 s1))"

definition BL_PCI_BASE_CLASS_SERIAL :: int where "BL_PCI_BASE_CLASS_SERIAL = 0x0c"
definition BL_PCI_SUBCLASS_SERIAL_USB :: int where "BL_PCI_SUBCLASS_SERIAL_USB = 0x03"
definition BL_PCI_CONFIG_REG_60H :: u32 where "BL_PCI_CONFIG_REG_60H = 0x60"

subsection \<open>Packets\<close>

definition BL_USB_PID_TOKEN_OUT :: u32 where "BL_USB_PID_TOKEN_OUT = 0x1"
definition BL_USB_PID_TOKEN_IN :: u32 where "BL_USB_PID_TOKEN_IN = 0x9"
definition BL_USB_PID_TOKEN_SETUP :: u32 where "BL_USB_PID_TOKEN_SETUP = 0xd"

definition bl_usb_pid_format_check :: "u8 \<Rightarrow> u8" where
  "bl_usb_pid_format_check pid = (pid AND 0xf) OR push_bit 4 (NOT pid)"

text \<open>The first byte of the set-up packet is the type of the request.\<close>

definition bl_usb_direction_pid :: "mem \<Rightarrow> addr \<Rightarrow> u32" where
  "bl_usb_direction_pid m setup =
     (if ucast (m setup) AND BL_USB_SETUP_REQUEST_TYPE_DEVICE_TO_HOST \<noteq> 0 then BL_USB_PID_TOKEN_IN else BL_USB_PID_TOKEN_OUT)"

definition bl_usb_status_pid :: "u32 \<Rightarrow> u32" where
  "bl_usb_status_pid data_pid = (if data_pid = BL_USB_PID_TOKEN_OUT then BL_USB_PID_TOKEN_IN else BL_USB_PID_TOKEN_OUT)"

definition BL_USB_TRANSFER_CONTROL :: u32 where "BL_USB_TRANSFER_CONTROL = 0"
definition BL_USB_TRANSFER_BULK :: u32 where "BL_USB_TRANSFER_BULK = 1"
definition BL_USB_SUPER_SPEED :: u32 where "BL_USB_SUPER_SPEED = 3"
definition BL_USB_SUPER_SPEED_PLUS :: u32 where "BL_USB_SUPER_SPEED_PLUS = 4"

definition sizeof_setup_data :: u32 where "sizeof_setup_data = 8"

definition int_min :: "u32 \<Rightarrow> u32 \<Rightarrow> u32" where "int_min a b = (if a <s b then a else b)"
definition int_not :: "u32 \<Rightarrow> u32" where "int_not t = (if t = 0 then 1 else 0)"

subsection \<open>Structures of the core\<close>

definition hc_data :: "mem \<Rightarrow> addr \<Rightarrow> addr" where "hc_data m hc = ld32 m (hc + 40)"
definition sizeof_host_controller :: u32 where "sizeof_host_controller = 48"
definition endp_toggle :: "mem \<Rightarrow> addr \<Rightarrow> u32" where "endp_toggle m endp = ld32 m endp"
definition endp_descriptor :: "mem \<Rightarrow> addr \<Rightarrow> addr" where "endp_descriptor m endp = ld32 m (endp + 4)"

definition setup_bytes :: "bl_usb_setup_data \<Rightarrow> u8 list" where
  "setup_bytes su = [su_request_type su, su_request su] @ to_le 2 (unat (su_value su)) @ to_le 2 (unat (su_index su)) @ to_le 2 (unat (su_length su))"

text \<open>The object of the core for a controller: its type, its functions and the driver's structure; and the number of ports of its root hub.\<close>

definition hc_fill :: "u32 \<Rightarrow> addr \<Rightarrow> addr \<Rightarrow> addr \<Rightarrow> mem \<Rightarrow> mem" where
  "hc_fill type funcs data hc m = st32 (st32 (st32 m hc type) (hc + 12) funcs) (hc + 40) data"

definition hc_set_ports :: "addr \<Rightarrow> u32 \<Rightarrow> mem \<Rightarrow> mem" where "hc_set_ports hc n m = st32 m (hc_root_hub hc) n"

subsection \<open>Descriptors in use\<close>

text \<open>The first of the descriptors from \<open>i\<close> on whose flag \<open>used\<close>, at \<open>off\<close>, is clear.\<close>

fun find_unused :: "mem \<Rightarrow> addr \<Rightarrow> nat \<Rightarrow> addr \<Rightarrow> nat \<Rightarrow> nat \<Rightarrow> addr option" where
  "find_unused m base size' off 0 i = None"
| "find_unused m base size' off (Suc n) i =
     (let d = base + of_nat (size' * i) in if ld32 m (d + off) = 0 then Some d else find_unused m base size' off n (i + 1))"

definition alloc_unused :: "addr \<Rightarrow> nat \<Rightarrow> addr \<Rightarrow> nat \<Rightarrow> mem \<Rightarrow> addr \<times> mem" where
  "alloc_unused base size' off n m =
     (case find_unused m base size' off n 0 of None \<Rightarrow> (0, m) | Some d \<Rightarrow> (d, st32 m (d + off) 1))"

text \<open>A pool of \<open>n\<close> descriptors of \<open>size'\<close> bytes, the flag of one of them, and its address.\<close>

definition desc_at :: "addr \<Rightarrow> nat \<Rightarrow> nat \<Rightarrow> addr" where "desc_at base size' i = base + of_nat (size' * i)"

definition desc_flag :: "nat \<Rightarrow> addr \<Rightarrow> addr \<Rightarrow> mem \<Rightarrow> nat \<Rightarrow> u32" where
  "desc_flag size' off base m i = ld32 m (desc_at base size' i + off)"

lemma mult_step_le: "i < n \<Longrightarrow> c * i + c \<le> c * (n :: nat)"
  by (metis Suc_leI mult_Suc_right add.commute mult_le_mono2)

lemma mult_step_cases: "i \<noteq> j \<Longrightarrow> c * i + c \<le> c * j \<or> c * j + c \<le> c * (i :: nat)"
  by (metis linorder_neqE_nat mult_step_le)

locale descriptor_pool =
  fixes size' :: nat and off :: addr and n :: nat
  assumes flag_inside: "unat off + 4 \<le> size'"
begin

lemma addr_offset:
  assumes "fits base (size' * n)" "i < n" "k < size'"
  shows "unat (desc_at base size' i + of_nat k) = unat base + size' * i + k"
proof -
  have "desc_at base size' i + of_nat k = base + of_nat (size' * i + k)" by (simp add: desc_at_def)
  moreover have "unat base + (size' * i + k) < 2 ^ 32"
    using assms mult_step_le [OF assms(2), of size'] by (simp add: fits_def)
  ultimately show ?thesis using unat_add_lt [of base "size' * i + k"] by (simp add: add.assoc)
qed

lemma addr_unat:
  assumes "fits base (size' * n)" "i < n"
  shows "unat (desc_at base size' i) = unat base + size' * i"
  using addr_offset [OF assms, of 0] flag_inside by simp

lemma flag_addr:
  assumes "fits base (size' * n)" "i < n"
  shows "unat (desc_at base size' i + off) = unat base + size' * i + unat off" "fits (desc_at base size' i + off) 4"
proof -
  show "unat (desc_at base size' i + off) = unat base + size' * i + unat off"
    using addr_offset [OF assms, of "unat off"] flag_inside by simp
  then show "fits (desc_at base size' i + off) 4"
    using assms(1) flag_inside mult_step_le [OF assms(2), of size'] by (simp add: fits_def)
qed

text \<open>A word of one descriptor is off every other descriptor, and off the other parts of its own.\<close>

lemma word_off:
  assumes "fits base (size' * n)" "i < n" "j < n" "\<not> off_range (desc_at base size' i + of_nat k) 4 x" "k + 4 \<le> size'" "o' < size'" "o' + l \<le> size'"
    "i \<noteq> j \<or> k + 4 \<le> o' \<or> o' + l \<le> k"
  shows "off_range (desc_at base size' j + of_nat o') l x" "\<not> off_range base (size' * n) x"
proof -
  have u: "unat (desc_at base size' i + of_nat k) = unat base + size' * i + k" "unat (desc_at base size' j + of_nat o') = unat base + size' * j + o'"
    using addr_offset [OF assms(1,2), of k] addr_offset [OF assms(1,3), of o'] assms(5,6) by auto
  have x: "unat base + size' * i + k \<le> unat x" "unat x < unat base + size' * i + k + 4" using assms(4) u by (auto simp: off_range_def)
  show "off_range (desc_at base size' j + of_nat o') l x"
    using x assms(5,7,8) mult_step_cases [of i j size'] unfolding off_range_def u(2) by (cases "i = j") auto
  show "\<not> off_range base (size' * n) x" using x assms(5) mult_step_le [OF assms(2), of size'] by (auto simp: off_range_def)
qed

lemma word_fits:
  assumes "fits base (size' * n)" "i < n" "k + 4 \<le> size'"
  shows "fits (desc_at base size' i + of_nat k) 4"
  using addr_offset [OF assms(1,2), of k] assms mult_step_le [OF assms(2), of size'] by (simp add: fits_def)

lemma flag_same:
  assumes "fits base (size' * n)" "i < n"
    "\<forall>x. unat base + size' * i + unat off \<le> unat x \<and> unat x < unat base + size' * i + unat off + 4 \<longrightarrow> m' x = m x"
  shows "desc_flag size' off base m' i = desc_flag size' off base m i"
  unfolding desc_flag_def using flag_addr [OF assms(1,2)] assms(3) by (intro ld_same(2)) (auto simp: off_range_def)

lemma flag_store:
  assumes "fits base (size' * n)" "i < n" "j < n"
  shows "desc_flag size' off base (st32 m (desc_at base size' i + off) v) j = (if j = i then v else desc_flag size' off base m j)"
proof (cases "j = i")
  case False
  then show ?thesis
    using flag_same [OF assms(1,3), of "st32 m (desc_at base size' i + off) v" m] flag_addr [OF assms(1,2)] mult_step_cases [OF False, of size'] flag_inside
    by (auto simp: st_frame off_range_def)
qed (simp add: desc_flag_def ld_st_same)

lemma find_unused_first:
  "\<exists>j<k. desc_flag size' off base m (i + j) = 0 \<Longrightarrow>
   \<exists>j<k. desc_flag size' off base m (i + j) = 0 \<and> find_unused m base size' off k i = Some (desc_at base size' (i + j))"
proof (induction k arbitrary: i)
  case (Suc k)
  show ?case
  proof (cases "desc_flag size' off base m i = 0")
    case True
    then show ?thesis by (intro exI [of _ 0]) (simp add: desc_flag_def desc_at_def Let_def)
  next
    case False
    then obtain j where "j < k" "desc_flag size' off base m (Suc i + j) = 0"
      using Suc.prems by (metis add_0_right add_Suc_right add_Suc less_Suc_eq_0_disj)
    then obtain j' where "j' < k" "desc_flag size' off base m (Suc i + j') = 0" "find_unused m base size' off k (Suc i) = Some (desc_at base size' (Suc i + j'))"
      using Suc.IH [of "Suc i"] by blast
    then show ?thesis using False by (intro exI [of _ "Suc j'"]) (simp add: desc_flag_def desc_at_def Let_def)
  qed
qed simp

lemma find_unused_none: "\<forall>j<k. desc_flag size' off base m (i + j) \<noteq> 0 \<Longrightarrow> find_unused m base size' off k i = None"
proof (induction k arbitrary: i)
  case (Suc k)
  have "\<forall>j<k. desc_flag size' off base m (Suc i + j) \<noteq> 0" using Suc.prems by (metis Suc_mono add_Suc add_Suc_right)
  then show ?case using Suc.IH [of "Suc i"] Suc.prems by (auto simp: desc_flag_def desc_at_def Let_def)
qed simp

lemma alloc_takes:
  assumes "fits base (size' * n)" "base \<noteq> 0" "\<exists>i<n. desc_flag size' off base m i = 0"
  shows "\<exists>i<n. desc_flag size' off base m i = 0 \<and> desc_at base size' i \<noteq> 0 \<and>
    alloc_unused base size' off n m = (desc_at base size' i, st32 m (desc_at base size' i + off) 1)"
proof -
  obtain i where i: "i < n" "desc_flag size' off base m i = 0" "find_unused m base size' off n 0 = Some (desc_at base size' i)"
    using find_unused_first [of n base m 0] assms(3) by auto
  have "0 < unat base" using assms(2) by (simp add: unat_gt_0)
  then have "desc_at base size' i \<noteq> 0" using addr_unat [OF assms(1) i(1)] by (metis add_gr_0 less_not_refl3 unat_0)
  then show ?thesis using i by (intro exI [of _ i]) (simp add: alloc_unused_def)
qed

lemma alloc_exhausted: "\<forall>i<n. desc_flag size' off base m i \<noteq> 0 \<Longrightarrow> alloc_unused base size' off n m = (0, m)"
  using find_unused_none [of n base m 0] by (simp add: alloc_unused_def)

end

end
