(* ===== verification/Bl_Uhci.thy ===== *)
theory Bl_Uhci
  imports Bl_Hci
begin

text \<open>
  The UHCI driver: src/boot-loader/modules/usb/uhci. Its registers are I/O ports. The buffer of the interrupt transfer, whose status is asked for later,
  is the keyboard's report of 8 bytes: no other driver starts one.
\<close>

unbundle bit_operations_syntax

definition BL_UHCI_PCI_BAR4_RTE :: u32 where "BL_UHCI_PCI_BAR4_RTE = 0x01"
definition BL_UHCI_PCI_BAR4_BASE_ADDRESS :: u32 where "BL_UHCI_PCI_BAR4_BASE_ADDRESS = 0xffe0"
definition BL_PCI_CONFIG_REG_BAR4 :: u32 where "BL_PCI_CONFIG_REG_BAR4 = 0x20"
definition BL_PCI_PROG_IF_SERIAL_USB_UHCI :: int where "BL_PCI_PROG_IF_SERIAL_USB_UHCI = 0x00"
definition BL_UHCI_IO_REG_USBCMD :: u16 where "BL_UHCI_IO_REG_USBCMD = 0x00"
definition BL_UHCI_IO_REG_FRNUM :: u16 where "BL_UHCI_IO_REG_FRNUM = 0x06"
definition BL_UHCI_IO_REG_FRBASEADD :: u16 where "BL_UHCI_IO_REG_FRBASEADD = 0x08"
definition BL_UHCI_IO_REG_SOFMOD :: u16 where "BL_UHCI_IO_REG_SOFMOD = 0x0c"
definition BL_UHCI_IO_REG_PORTSC1 :: u16 where "BL_UHCI_IO_REG_PORTSC1 = 0x10"
definition BL_UHCI_IO_REG_PORTSC2 :: u16 where "BL_UHCI_IO_REG_PORTSC2 = 0x12"
definition BL_UHCI_USBCMD_STOP :: u16 where "BL_UHCI_USBCMD_STOP = push_bit 0 0"
definition BL_UHCI_USBCMD_RUN :: u16 where "BL_UHCI_USBCMD_RUN = push_bit 0 1"
definition BL_UHCI_USBCMD_HCRESET :: u16 where "BL_UHCI_USBCMD_HCRESET = push_bit 1 1"
definition BL_UHCI_PORTSC_CURRENT_CONNECT_STATUS :: u16 where "BL_UHCI_PORTSC_CURRENT_CONNECT_STATUS = push_bit 0 1"
definition BL_UHCI_PORTSC_PORT_ENABLED :: u16 where "BL_UHCI_PORTSC_PORT_ENABLED = push_bit 2 1"
definition BL_UHCI_PORTSC_LOW_SPEED_DEVICE :: u16 where "BL_UHCI_PORTSC_LOW_SPEED_DEVICE = push_bit 8 1"
definition BL_UHCI_PORTSC_PORT_RESET :: u16 where "BL_UHCI_PORTSC_PORT_RESET = push_bit 9 1"
definition BL_UHCI_FRAME_LIST_POINTER_Q :: u32 where "BL_UHCI_FRAME_LIST_POINTER_Q = push_bit 1 1"

subsection \<open>Structures\<close>

definition sizeof_uhci_td :: nat where "sizeof_uhci_td = 32"
definition td_link_pointer :: "addr \<Rightarrow> addr" where "td_link_pointer td = td"
definition td_control_status :: "addr \<Rightarrow> addr" where "td_control_status td = td + 4"
definition td_token :: "addr \<Rightarrow> addr" where "td_token td = td + 8"
definition td_buffer_pointer :: "addr \<Rightarrow> addr" where "td_buffer_pointer td = td + 12"
definition td_used :: "addr \<Rightarrow> addr" where "td_used td = td + 16"

definition sizeof_uhci_qh :: nat where "sizeof_uhci_qh = 16"
definition qh_head_link_pointer :: "addr \<Rightarrow> addr" where "qh_head_link_pointer qh = qh"
definition qh_element_link_pointer :: "addr \<Rightarrow> addr" where "qh_element_link_pointer qh = qh + 4"
definition qh_used :: "addr \<Rightarrow> addr" where "qh_used qh = qh + 8"
definition qh_original_element :: "addr \<Rightarrow> addr" where "qh_original_element qh = qh + 12"

definition BL_UHCI_TD_LINK_POINTER_T :: u32 where "BL_UHCI_TD_LINK_POINTER_T = push_bit 0 1"
definition BL_UHCI_TD_LINK_POINTER_VF :: u32 where "BL_UHCI_TD_LINK_POINTER_VF = push_bit 2 1"
definition BL_UHCI_TD_LINK_POINTER_NEXT :: "mem \<Rightarrow> addr \<Rightarrow> addr" where
  "BL_UHCI_TD_LINK_POINTER_NEXT m td = ld32 m (td_link_pointer td) AND NOT 0xf"
definition BL_UHCI_TD_CONTROL_STATUS_BITSTUFF_ERROR :: u32 where "BL_UHCI_TD_CONTROL_STATUS_BITSTUFF_ERROR = push_bit 17 1"
definition BL_UHCI_TD_CONTROL_STATUS_TIMEOUT_ERROR :: u32 where "BL_UHCI_TD_CONTROL_STATUS_TIMEOUT_ERROR = push_bit 18 1"
definition BL_UHCI_TD_CONTROL_STATUS_NAK_RECEIVED :: u32 where "BL_UHCI_TD_CONTROL_STATUS_NAK_RECEIVED = push_bit 19 1"
definition BL_UHCI_TD_CONTROL_STATUS_BABBLE_DETECTED :: u32 where "BL_UHCI_TD_CONTROL_STATUS_BABBLE_DETECTED = push_bit 20 1"
definition BL_UHCI_TD_CONTROL_STATUS_DATA_BUFFER_ERROR :: u32 where "BL_UHCI_TD_CONTROL_STATUS_DATA_BUFFER_ERROR = push_bit 21 1"
definition BL_UHCI_TD_CONTROL_STATUS_STALLED :: u32 where "BL_UHCI_TD_CONTROL_STATUS_STALLED = push_bit 22 1"
definition BL_UHCI_TD_CONTROL_STATUS_ACTIVE :: u32 where "BL_UHCI_TD_CONTROL_STATUS_ACTIVE = push_bit 23 1"
definition BL_UHCI_TD_CONTROL_STATUS_LOW_SPEED_DEVICE :: u32 where "BL_UHCI_TD_CONTROL_STATUS_LOW_SPEED_DEVICE = push_bit 26 1"
definition BL_UHCI_TD_CONTROL_STATUS_ACTUAL_LENGTH :: "u32 \<Rightarrow> u32" where
  "BL_UHCI_TD_CONTROL_STATUS_ACTUAL_LENGTH length' = (length' - 1) AND 0x7ff"
definition BL_UHCI_TD_CONTROL_STATUS :: "u32 \<Rightarrow> u32" where "BL_UHCI_TD_CONTROL_STATUS control_status = control_status AND 0xff0000"
definition BL_UHCI_TD_CONTROL_STATUS_C_ERR :: "u32 \<Rightarrow> u32" where "BL_UHCI_TD_CONTROL_STATUS_C_ERR count = push_bit 27 (count AND 0x3)"
definition BL_UHCI_TD_TOKEN_DEVICE_ADDRESS :: "u32 \<Rightarrow> u32" where "BL_UHCI_TD_TOKEN_DEVICE_ADDRESS address = push_bit 8 address"
definition BL_UHCI_TD_TOKEN_ENDPOINT :: "u32 \<Rightarrow> u32" where "BL_UHCI_TD_TOKEN_ENDPOINT endpoint = push_bit 15 endpoint"
definition BL_UHCI_TD_TOKEN_TOGGLE :: "u32 \<Rightarrow> u32" where "BL_UHCI_TD_TOKEN_TOGGLE toggle = push_bit 19 toggle"
definition BL_UHCI_TD_TOKEN_MAXIMUM_LENGTH :: "u32 \<Rightarrow> u32" where
  "BL_UHCI_TD_TOKEN_MAXIMUM_LENGTH length' = push_bit 21 ((length' - 1) AND 0x7ff)"
definition BL_UHCI_QH_HEAD_LINK_POINTER_T :: u32 where "BL_UHCI_QH_HEAD_LINK_POINTER_T = push_bit 0 1"
definition BL_UHCI_QH_HEAD_LINK_POINTER_Q :: u32 where "BL_UHCI_QH_HEAD_LINK_POINTER_Q = push_bit 1 1"
definition BL_UHCI_QH_ELEMENT_LINK_POINTER_T :: u32 where "BL_UHCI_QH_ELEMENT_LINK_POINTER_T = push_bit 0 1"
definition BL_UHCI_QH_ELEMENT_LINK_POINTER :: "mem \<Rightarrow> addr \<Rightarrow> addr" where
  "BL_UHCI_QH_ELEMENT_LINK_POINTER m qh = ld32 m (qh_element_link_pointer qh) AND NOT 0xf"

definition BL_UHCI_NUM_TD :: nat where "BL_UHCI_NUM_TD = 1024"
definition BL_UHCI_NUM_QH :: nat where "BL_UHCI_NUM_QH = 256"

definition uh_io :: "mem \<Rightarrow> addr \<Rightarrow> u16" where "uh_io m u = ld16 m u"
definition uh_framelist_ptrs :: "mem \<Rightarrow> addr \<Rightarrow> addr" where "uh_framelist_ptrs m u = ld32 m (u + 4)"
definition uh_tds :: "mem \<Rightarrow> addr \<Rightarrow> addr" where "uh_tds m u = ld32 m (u + 8)"
definition uh_qhs :: "mem \<Rightarrow> addr \<Rightarrow> addr" where "uh_qhs m u = ld32 m (u + 12)"
definition uh_next :: "mem \<Rightarrow> addr \<Rightarrow> addr" where "uh_next m u = ld32 m (u + 16)"
definition sizeof_uhci_controller :: u32 where "sizeof_uhci_controller = 20"

definition BL_UHCI_REG :: "mem \<Rightarrow> addr \<Rightarrow> u16 \<Rightarrow> u16" where "BL_UHCI_REG m uhci reg = uh_io m uhci + reg"

definition bl_uhci_controller_add :: "addr \<Rightarrow> 'd hci_st \<Rightarrow> 'd hci_st" where
  "bl_uhci_controller_add uhci s = s\<lparr>mem := st32 (mem s) (uhci + 16) (uhci_list (usb_hw s)), usb_hw := (usb_hw s)\<lparr>uhci_list := uhci\<rparr>\<rparr>"

subsection \<open>Ports\<close>

definition bl_uhci_port_to_reg :: "u32 \<Rightarrow> u16" where
  "bl_uhci_port_to_reg port =
     (if port = 0 then BL_UHCI_IO_REG_PORTSC1 else if port = 1 then BL_UHCI_IO_REG_PORTSC2 else 0)"

definition uhci_port :: "mem \<Rightarrow> addr \<Rightarrow> u32 \<Rightarrow> u16" where
  "uhci_port m hc port = BL_UHCI_REG m (hc_data m hc) (bl_uhci_port_to_reg port)"

definition bl_uhci_port_device_connected :: "'d hci_st hci_env \<Rightarrow> addr \<Rightarrow> u32 \<Rightarrow> 'd hci_st \<Rightarrow> bool \<times> 'd hci_st" where
  "bl_uhci_port_device_connected env hc port s =
     (case p_inw (hi_io env) (uhci_port (mem s) hc port) s of
        (v, s1) \<Rightarrow> (v AND BL_UHCI_PORTSC_CURRENT_CONNECT_STATUS \<noteq> 0, s1))"

definition bl_uhci_port_device_get_speed :: "'d hci_st hci_env \<Rightarrow> addr \<Rightarrow> u32 \<Rightarrow> 'd hci_st \<Rightarrow> u32 \<times> 'd hci_st" where
  "bl_uhci_port_device_get_speed env hc port s =
     (case p_inw (hi_io env) (uhci_port (mem s) hc port) s of
        (v, s1) \<Rightarrow> (if v AND BL_UHCI_PORTSC_LOW_SPEED_DEVICE \<noteq> 0 then BL_USB_LOW_SPEED else BL_USB_FULL_SPEED, s1))"

definition uhci_port_modify :: "'s ports \<Rightarrow> u16 \<Rightarrow> (u16 \<Rightarrow> u16) \<Rightarrow> 's \<Rightarrow> 's" where
  "uhci_port_modify io p f s = (case p_inw io p s of (status, s1) \<Rightarrow> p_outw io (f status) p s1)"

definition bl_uhci_port_reset :: "'d hci_st hci_env \<Rightarrow> addr \<Rightarrow> u32 \<Rightarrow> 'd hci_st \<Rightarrow> 'd hci_st" where
  "bl_uhci_port_reset env hc port s =
     (let p = uhci_port (mem s) hc port;
          s1 = hi_sleep env 50 (uhci_port_modify (hi_io env) p (\<lambda>v. v OR BL_UHCI_PORTSC_PORT_RESET) s);
          s2 = uhci_port_modify (hi_io env) p (\<lambda>v. v AND NOT BL_UHCI_PORTSC_PORT_RESET) s1
      in uhci_port_modify (hi_io env) p (\<lambda>v. v OR BL_UHCI_PORTSC_PORT_ENABLED) s2)"

subsection \<open>Transfer descriptors\<close>

definition bl_uhci_alloc_qh :: "addr \<Rightarrow> mem \<Rightarrow> addr \<times> mem" where
  "bl_uhci_alloc_qh uhci m = alloc_unused (uh_qhs m uhci) sizeof_uhci_qh (qh_used 0) BL_UHCI_NUM_QH m"

definition bl_uhci_alloc_td :: "addr \<Rightarrow> mem \<Rightarrow> addr \<times> mem" where
  "bl_uhci_alloc_td uhci m = alloc_unused (uh_tds m uhci) sizeof_uhci_td (td_used 0) BL_UHCI_NUM_TD m"

definition uhci_control_status :: "u32 \<Rightarrow> u32 \<Rightarrow> u32" where
  "uhci_control_status speed sz =
     (((BL_UHCI_TD_CONTROL_STATUS_ACTUAL_LENGTH sz OR BL_UHCI_TD_CONTROL_STATUS_ACTIVE) OR
       (if speed = BL_USB_LOW_SPEED then BL_UHCI_TD_CONTROL_STATUS_LOW_SPEED_DEVICE else 0)) OR BL_UHCI_TD_CONTROL_STATUS_C_ERR 3)"

definition uhci_token :: "u32 \<Rightarrow> u8 \<Rightarrow> u8 \<Rightarrow> u32 \<Rightarrow> u32 \<Rightarrow> u32" where
  "uhci_token pid address endpoint toggle sz =
     ((((ucast (bl_usb_pid_format_check (ucast pid)) OR BL_UHCI_TD_TOKEN_DEVICE_ADDRESS (ucast address)) OR
        BL_UHCI_TD_TOKEN_ENDPOINT (ucast endpoint)) OR BL_UHCI_TD_TOKEN_TOGGLE toggle) OR BL_UHCI_TD_TOKEN_MAXIMUM_LENGTH sz)"

definition bl_uhci_init_td :: "addr \<Rightarrow> u32 \<Rightarrow> u32 \<Rightarrow> u8 \<Rightarrow> u8 \<Rightarrow> u32 \<Rightarrow> u32 \<Rightarrow> addr \<Rightarrow> mem \<Rightarrow> addr \<times> mem" where
  "bl_uhci_init_td uhci speed pid address endpoint toggle sz buffer m =
     (case bl_uhci_alloc_td uhci m of
        (td, m1) \<Rightarrow> if td = 0 then (0, m1)
          else let m2 = st32 m1 (td_link_pointer td) BL_UHCI_TD_LINK_POINTER_T;
                   m3 = st32 m2 (td_control_status td) (uhci_control_status speed sz);
                   m4 = st32 m3 (td_token td) (uhci_token pid address endpoint toggle sz)
               in (td, st32 m4 (td_buffer_pointer td) buffer))"

partial_function (option) bl_uhci_free_td_list :: "addr \<Rightarrow> mem \<Rightarrow> mem option" where
  "bl_uhci_free_td_list td m =
     (let m1 = st32 m (td_used td) 0
      in if ld32 m1 (td_link_pointer td) AND BL_UHCI_TD_LINK_POINTER_T \<noteq> 0 then Some m1
         else bl_uhci_free_td_list (BL_UHCI_TD_LINK_POINTER_NEXT m1 td) m1)"

subsection \<open>The end of a transfer\<close>

definition bl_uhci_transfer_status :: "mem \<Rightarrow> addr \<Rightarrow> bl_status" where
  "bl_uhci_transfer_status m qh =
     (let c = BL_UHCI_TD_CONTROL_STATUS (ld32 m (td_control_status (BL_UHCI_QH_ELEMENT_LINK_POINTER m qh)))
      in if c = BL_UHCI_TD_CONTROL_STATUS_BITSTUFF_ERROR then BL_STATUS_USB_BITSTUFF_ERROR
         else if c = BL_UHCI_TD_CONTROL_STATUS_TIMEOUT_ERROR then BL_STATUS_USB_TIMEOUT_ERROR
         else if c = BL_UHCI_TD_CONTROL_STATUS_NAK_RECEIVED then BL_STATUS_USB_NAK_RECEIVED
         else if c = BL_UHCI_TD_CONTROL_STATUS_BABBLE_DETECTED then BL_STATUS_USB_BABBLE_DETECTED
         else if c = BL_UHCI_TD_CONTROL_STATUS_DATA_BUFFER_ERROR then BL_STATUS_USB_DATA_BUFFER_ERROR
         else if c = BL_UHCI_TD_CONTROL_STATUS_STALLED then BL_STATUS_USB_STALLED
         else BL_STATUS_SUCCESS)"

definition bl_uhci_transfer_finished :: "addr \<Rightarrow> mem \<Rightarrow> (bl_status \<times> mem) option" where
  "bl_uhci_transfer_finished qh m =
     (if ld32 m (qh_element_link_pointer qh) AND BL_UHCI_QH_ELEMENT_LINK_POINTER_T \<noteq> 0
      then if BL_UHCI_QH_ELEMENT_LINK_POINTER m qh \<noteq> 0 then Some (BL_STATUS_USB_SHOULD_CHECK_STATUS, m)
           else do {
             m1 \<leftarrow> bl_uhci_free_td_list (ld32 m (qh_original_element qh)) m;
             Some (BL_STATUS_SUCCESS, st32 m1 (qh_used qh) 0) }
      else Some (BL_STATUS_USB_ACTION_NOT_FINISHED, m))"

definition bl_uhci_check_transfer_status :: "addr \<Rightarrow> 'd hci_st \<Rightarrow> (bl_status \<times> 'd hci_st) option" where
  "bl_uhci_check_transfer_status info s = do {
     (status, m) \<leftarrow> bl_uhci_transfer_finished info (mem s);
     Some (if status = BL_STATUS_USB_SHOULD_CHECK_STATUS then bl_uhci_transfer_status m info else status, s\<lparr>mem := m\<rparr>) }"

text \<open>The polls that are left: the count is decremented before the first of them.\<close>

fun uhci_timeout_loop :: "'d hci_st hci_env \<Rightarrow> addr \<Rightarrow> nat \<Rightarrow> 'd hci_st \<Rightarrow> (bl_status \<times> 'd hci_st) option" where
  "uhci_timeout_loop env qh 0 s = Some (bl_uhci_transfer_status (mem s) qh, s)"
| "uhci_timeout_loop env qh (Suc n) s = do {
     (status, m) \<leftarrow> bl_uhci_transfer_finished qh (mem s);
     let s1 = s\<lparr>mem := m\<rparr>;
     if \<not> failed status then Some (status, s1)
     else if status = BL_STATUS_USB_SHOULD_CHECK_STATUS then Some (bl_uhci_transfer_status m qh, s1)
     else uhci_timeout_loop env qh n (hi_sleep env 1 s1) }"

definition bl_uhci_check_transfer_timeout :: "'d hci_st hci_env \<Rightarrow> addr \<Rightarrow> nat \<Rightarrow> 'd hci_st \<Rightarrow> (bl_status \<times> 'd hci_st) option" where
  "bl_uhci_check_transfer_timeout env qh timeout s = uhci_timeout_loop env qh (timeout - 1) s"

subsection \<open>Transfers\<close>

text \<open>The data stage of a control transfer: the last descriptor, or 0 when none is left, and the toggle.\<close>

partial_function (option) uhci_data_loop :: "addr \<Rightarrow> u32 \<Rightarrow> u32 \<Rightarrow> u8 \<Rightarrow> u32 \<Rightarrow> addr \<Rightarrow> addr \<Rightarrow> u32 \<Rightarrow> u32 \<Rightarrow> u32 \<Rightarrow> mem \<Rightarrow> (addr \<times> mem) option" where
  "uhci_data_loop uhci speed pid address packet_size data td toggle length' off m =
     (if \<not> 0 <s length' then Some (td, m)
      else case bl_uhci_init_td uhci speed pid address 0 (int_not toggle) (int_min length' packet_size) (data + off) m of
        (td1, m1) \<Rightarrow> if td1 = 0 then Some (0, m1)
          else uhci_data_loop uhci speed pid address packet_size data td1 (int_not toggle) (length' - packet_size) (off + packet_size)
            (st32 m1 (td_link_pointer td) (td1 OR BL_UHCI_TD_LINK_POINTER_VF)))"

text \<open>The descriptors of a control transfer, linked: the first of them, or 0 when none is left.\<close>

definition uhci_control_tds :: "addr \<Rightarrow> u32 \<Rightarrow> u8 \<Rightarrow> u32 \<Rightarrow> addr \<Rightarrow> addr \<Rightarrow> u32 \<Rightarrow> mem \<Rightarrow> (addr \<times> mem) option" where
  "uhci_control_tds uhci speed address packet_size setup data length' m =
     (case bl_uhci_init_td uhci speed BL_USB_PID_TOKEN_SETUP address 0 0 sizeof_setup_data setup m of
        (td_head, m1) \<Rightarrow> if td_head = 0 then Some (0, m1)
          else do {
            let data_pid = bl_usb_direction_pid m1 setup;
            (td_prev, m2) \<leftarrow> uhci_data_loop uhci speed data_pid address packet_size data td_head 0 length' 0 m1;
            if td_prev = 0 then Some (0, m2)
            else case bl_uhci_init_td uhci speed (bl_usb_status_pid data_pid) address 0 1 0 0 m2 of
              (td, m3) \<Rightarrow> if td = 0 then Some (0, m3)
                else Some (td_head, st32 m3 (td_link_pointer td_prev) (td OR BL_UHCI_TD_LINK_POINTER_VF)) })"

definition uhci_start :: "addr \<Rightarrow> addr \<Rightarrow> mem \<Rightarrow> mem" where
  "uhci_start qh td_head m = st32 (st32 m (qh_original_element qh) td_head) (qh_element_link_pointer qh) td_head"

definition bl_uhci_control_transfer :: "'d hci_st hci_env \<Rightarrow> addr \<Rightarrow> u32 \<Rightarrow> u32 \<Rightarrow> u32 \<Rightarrow> addr \<Rightarrow> addr \<Rightarrow> u32 \<Rightarrow> 'd hci_st \<Rightarrow>
    (bl_status \<times> 'd hci_st) option" where
  "bl_uhci_control_transfer env hc packet_size0 address speed setup data length' s =
     (let uhci = hc_data (mem s) hc; packet_size = (if packet_size0 = 0 then 8 else packet_size0)
      in case bl_uhci_alloc_qh uhci (mem s) of
        (qh, m1) \<Rightarrow> if qh = 0 then Some (BL_STATUS_USB_INTERNAL_ERROR, s\<lparr>mem := m1\<rparr>)
          else do {
            (td_head, m2) \<leftarrow> uhci_control_tds uhci speed (ucast address) packet_size setup data length' m1;
            if td_head = 0 then Some (BL_STATUS_USB_INTERNAL_ERROR, s\<lparr>mem := m2\<rparr>)
            else bl_uhci_check_transfer_timeout env qh 100 (s\<lparr>mem := uhci_start qh td_head m2\<rparr>) })"

text \<open>The packets of a bulk or interrupt transfer: the first descriptor and the toggle, or nothing when no descriptor is left.\<close>

partial_function (option) uhci_packets_loop :: "addr \<Rightarrow> u32 \<Rightarrow> u32 \<Rightarrow> u8 \<Rightarrow> addr \<Rightarrow> u32 \<Rightarrow> addr \<Rightarrow> addr \<Rightarrow> addr \<Rightarrow> u32 \<Rightarrow> u32 \<Rightarrow> u32 \<Rightarrow> mem \<Rightarrow>
    ((addr \<times> u32) option \<times> mem) option" where
  "uhci_packets_loop uhci speed pid address endp packet_size data td_head td toggle length' off m =
     (if \<not> 0 <s length' then Some (Some (td_head, toggle), m)
      else case bl_uhci_init_td uhci speed pid address (ed_endpoint_address m (endp_descriptor m endp)) toggle (int_min length' packet_size) (data + off) m of
        (td1, m1) \<Rightarrow> if td1 = 0 then Some (None, m1)
          else uhci_packets_loop uhci speed pid address endp packet_size data (if td_head = 0 then td1 else td_head) td1 (int_not toggle)
            (length' - packet_size) (off + packet_size)
            (if td_head = 0 then m1 else st32 m1 (td_link_pointer td) (td1 OR BL_UHCI_TD_LINK_POINTER_VF)))"

definition bl_uhci_bulk_interrupt_transfers :: "addr \<Rightarrow> u32 \<Rightarrow> addr \<Rightarrow> u32 \<Rightarrow> u32 \<Rightarrow> addr \<Rightarrow> u32 \<Rightarrow> mem \<Rightarrow> (addr \<times> mem) option" where
  "bl_uhci_bulk_interrupt_transfers hc address endp speed direction data length' m =
     (let uhci = hc_data m hc
      in case bl_uhci_alloc_qh uhci m of
        (qh, m1) \<Rightarrow> if qh = 0 then Some (0, m1)
          else do {
            (r, m2) \<leftarrow> uhci_packets_loop uhci speed (if direction \<noteq> 0 then BL_USB_PID_TOKEN_OUT else BL_USB_PID_TOKEN_IN) (ucast address) endp
              (ucast (ed_max_packet_size m1 (endp_descriptor m1 endp))) data 0 0 (endp_toggle m1 endp) length' 0 m1;
            case r of None \<Rightarrow> Some (0, m2)
            | Some (td_head, toggle) \<Rightarrow> Some (qh, uhci_start qh td_head (st32 m2 endp toggle)) })"

definition bl_uhci_bulk_transfer :: "'d hci_st hci_env \<Rightarrow> addr \<Rightarrow> u32 \<Rightarrow> addr \<Rightarrow> u32 \<Rightarrow> u32 \<Rightarrow> addr \<Rightarrow> u32 \<Rightarrow> 'd hci_st \<Rightarrow> 'd hci_st option" where
  "bl_uhci_bulk_transfer env hc address endp speed direction data length' s =
     (if length' = 0 then Some s
      else do {
        (qh, m) \<leftarrow> bl_uhci_bulk_interrupt_transfers hc address endp speed direction data length' (mem s);
        (_, s1) \<leftarrow> bl_uhci_check_transfer_timeout env qh 100 (s\<lparr>mem := m\<rparr>);
        Some s1 })"

definition bl_uhci_interrupt_transfer :: "'d hci_st hci_env \<Rightarrow> addr \<Rightarrow> u32 \<Rightarrow> addr \<Rightarrow> u32 \<Rightarrow> u32 \<Rightarrow> addr \<Rightarrow> u32 \<Rightarrow> 'd hci_st \<Rightarrow>
    (addr \<times> 'd hci_st) option" where
  "bl_uhci_interrupt_transfer env hc address endp speed direction data length' s =
     (if length' = 0 then Some (0, s)
      else do {
        (qh, m) \<leftarrow> bl_uhci_bulk_interrupt_transfers hc address endp speed direction data length' (mem s);
        Some (qh, hi_sleep env (ucast (ed_interval m (endp_descriptor m endp))) (s\<lparr>mem := m\<rparr>)) })"

subsection \<open>Controllers\<close>

text \<open>A block that a structure points to is freed, and the pointer cleared.\<close>

definition free_member :: "addr \<Rightarrow> u32 \<Rightarrow> 'a heap_st_scheme \<Rightarrow> 'a heap_st_scheme" where
  "free_member p sz s =
     (if ld32 (mem s) p = 0 then s else let s1 = bl_heap_free s (ld32 (mem s) p) sz in s1\<lparr>mem := st32 (mem s1) p 0\<rparr>)"

definition bl_uhci_controller_uninit :: "'d hci_st hci_env \<Rightarrow> addr \<Rightarrow> 'd hci_st \<Rightarrow> 'd hci_st" where
  "bl_uhci_controller_uninit env uhci s =
     (if uhci = 0 then s
      else let s1 = p_outw (hi_io env) BL_UHCI_USBCMD_STOP (BL_UHCI_REG (mem s) uhci BL_UHCI_IO_REG_USBCMD) s;
               s2 = free_member (uhci + 4) 0x1000 s1;
               s3 = free_member (uhci + 12) (of_nat (BL_UHCI_NUM_QH * sizeof_uhci_qh)) s2;
               s4 = free_member (uhci + 8) (of_nat (BL_UHCI_NUM_TD * sizeof_uhci_td)) s3
           in bl_heap_free s4 uhci sizeof_uhci_controller)"

fun uhci_qhs_loop :: "addr \<Rightarrow> nat \<Rightarrow> nat \<Rightarrow> mem \<Rightarrow> mem" where
  "uhci_qhs_loop qhs 0 i m = m"
| "uhci_qhs_loop qhs (Suc n) i m =
     (let qh = qhs + of_nat (sizeof_uhci_qh * i);
          m1 = st32 m (qh_head_link_pointer qh) ((qhs + of_nat (sizeof_uhci_qh * (i + 1))) OR BL_UHCI_QH_HEAD_LINK_POINTER_Q);
          m2 = st32 m1 (qh_element_link_pointer qh) BL_UHCI_QH_ELEMENT_LINK_POINTER_T
      in uhci_qhs_loop qhs n (i + 1) (st32 m2 (qh_used qh) 0))"

fun uhci_tds_loop :: "addr \<Rightarrow> nat \<Rightarrow> nat \<Rightarrow> mem \<Rightarrow> mem" where
  "uhci_tds_loop tds 0 i m = m"
| "uhci_tds_loop tds (Suc n) i m = uhci_tds_loop tds n (i + 1) (st32 m (td_used (tds + of_nat (sizeof_uhci_td * i))) 0)"

fun frames_loop :: "addr \<Rightarrow> u32 \<Rightarrow> nat \<Rightarrow> nat \<Rightarrow> mem \<Rightarrow> mem" where
  "frames_loop frames v 0 i m = m"
| "frames_loop frames v (Suc n) i m = frames_loop frames v n (i + 1) (st32 m (frames + of_nat (4 * i)) v)"

definition bl_uhci_init_data_structures :: "'d hci_st hci_env \<Rightarrow> addr \<Rightarrow> 'd hci_st \<Rightarrow> (bl_status \<times> 'd hci_st) option" where
  "bl_uhci_init_data_structures env uhci s = do {
     (frames, s0) \<leftarrow> bl_heap_alloc_align s 0x1000 0x1000;
     let s1 = s0\<lparr>mem := st32 (mem s0) (uhci + 4) frames\<rparr>;
     if frames = 0 then Some (BL_STATUS_MEMORY_ALLOCATION_FAILED, s1)
     else do {
       (qhs, s2) \<leftarrow> bl_heap_alloc_align s1 (of_nat (BL_UHCI_NUM_QH * sizeof_uhci_qh)) 0x1000;
       let s3 = s2\<lparr>mem := st32 (mem s2) (uhci + 12) qhs\<rparr>;
       if qhs = 0 then Some (BL_STATUS_MEMORY_ALLOCATION_FAILED, s3)
       else do {
         let m4 = uhci_qhs_loop qhs (BL_UHCI_NUM_QH - 1) 0 (mem s3);
         let m5 = st32 m4 (qh_head_link_pointer (qhs + of_nat (sizeof_uhci_qh * (BL_UHCI_NUM_QH - 1)))) BL_UHCI_QH_HEAD_LINK_POINTER_T;
         (tds, s6) \<leftarrow> bl_heap_alloc_align (s3\<lparr>mem := m5\<rparr>) (of_nat (BL_UHCI_NUM_TD * sizeof_uhci_td)) 0x1000;
         let s7 = s6\<lparr>mem := st32 (mem s6) (uhci + 8) tds\<rparr>;
         if tds = 0 then Some (BL_STATUS_MEMORY_ALLOCATION_FAILED, s7)
         else do {
           let m8 = frames_loop frames (qhs OR BL_UHCI_FRAME_LIST_POINTER_Q) 1024 0 (uhci_tds_loop tds BL_UHCI_NUM_TD 0 (mem s7));
           let s9 = p_outb (hi_io env) 64 (BL_UHCI_REG m8 uhci BL_UHCI_IO_REG_SOFMOD) (s7\<lparr>mem := m8\<rparr>);
           let s10 = p_outl (hi_io env) (uh_framelist_ptrs (mem s9) uhci) (BL_UHCI_REG (mem s9) uhci BL_UHCI_IO_REG_FRBASEADD) s9;
           Some (BL_STATUS_SUCCESS, p_outw (hi_io env) 0 (BL_UHCI_REG (mem s10) uhci BL_UHCI_IO_REG_FRNUM) s10) } } } }"

definition uhci_command :: "'d hci_st hci_env \<Rightarrow> addr \<Rightarrow> u16 \<Rightarrow> 'd hci_st \<Rightarrow> 'd hci_st" where
  "uhci_command env uhci v s = p_outw (hi_io env) v (BL_UHCI_REG (mem s) uhci BL_UHCI_IO_REG_USBCMD) s"

definition bl_uhci_controller_init :: "'d hci_st hci_env \<Rightarrow> addr \<Rightarrow> 'd hci_st \<Rightarrow> (bl_status \<times> 'd hci_st) option" where
  "bl_uhci_controller_init env uhci s = do {
     let s1 = uhci_command env uhci BL_UHCI_USBCMD_STOP (hi_sleep env 50 (uhci_command env uhci BL_UHCI_USBCMD_HCRESET s));
     (status, s2) \<leftarrow> bl_uhci_init_data_structures env uhci s1;
     if failed status then Some (status, s2)
     else Some (BL_STATUS_SUCCESS, uhci_command env uhci BL_UHCI_USBCMD_RUN s2) }"

definition bl_uhci_pci_init :: "'d hci_st hci_env \<Rightarrow> 'd hci_st pci_hook" where
  "bl_uhci_pci_init env i s =
     (case bl_pci_check_device_class (hi_io env) i BL_PCI_BASE_CLASS_SERIAL BL_PCI_SUBCLASS_SERIAL_USB BL_PCI_PROG_IF_SERIAL_USB_UHCI s of
        (status, s1) \<Rightarrow> if failed status then Some (status, s1)
          else case bl_pci_read_config_long (hi_io env) i BL_PCI_CONFIG_REG_BAR4 s1 of
            (base, s2) \<Rightarrow>
              if base AND BL_UHCI_PCI_BAR4_RTE = 0 \<or> base AND BL_UHCI_PCI_BAR4_BASE_ADDRESS = 0 then Some (BL_STATUS_USB_INVALID_DEVICE, s2)
              else do {
                (uhci, s3) \<leftarrow> bl_heap_alloc s2 sizeof_uhci_controller;
                if uhci = 0 then Some (BL_STATUS_MEMORY_ALLOCATION_FAILED, s3)
                else do {
                  (status1, s4) \<leftarrow> bl_uhci_controller_init env uhci (s3\<lparr>mem := st16 (mem s3) uhci (ucast (base AND BL_UHCI_PCI_BAR4_BASE_ADDRESS))\<rparr>);
                  if failed status1 then Some (status1, bl_uhci_controller_uninit env uhci s4)
                  else Some (BL_STATUS_SUCCESS, bl_uhci_controller_add uhci s4) } })"

definition uhci_functions :: "'d hci_st hci_env \<Rightarrow> 'd hci_st hc_funcs" where
  "uhci_functions env = \<lparr>
     hc_port_connected = (\<lambda>hc port s. Some (bl_uhci_port_device_connected env hc port s)),
     hc_port_get_speed = (\<lambda>hc port s. Some (bl_uhci_port_device_get_speed env hc port s)),
     hc_port_reset = (\<lambda>hc port s. Some (bl_uhci_port_reset env hc port s)),
     hc_port_init = (\<lambda>_ _ _ _. None),
     hc_control = (\<lambda>hc packet_size address speed su data n s. do {
       (_, s1) \<leftarrow> bl_uhci_control_transfer env hc packet_size address speed (hi_setup env) (hi_data env) n
         (s\<lparr>mem := mem_put (mem_put (mem s) (hi_setup env) (setup_bytes su)) (hi_data env) data\<rparr>);
       Some (mem_get (mem s1) (hi_data env) (length data), s1) }),
     hc_bulk = (\<lambda>hc address endp speed direction data n s. do {
       s1 \<leftarrow> bl_uhci_bulk_transfer env hc address endp speed direction (hi_data env) n (s\<lparr>mem := mem_put (mem s) (hi_data env) data\<rparr>);
       Some (mem_get (mem s1) (hi_data env) (length data), s1) }),
     hc_interrupt = Some (\<lambda>hc address endp speed direction data n s.
       bl_uhci_interrupt_transfer env hc address endp speed direction (hi_data env) n (s\<lparr>mem := mem_put (mem s) (hi_data env) data\<rparr>)),
     hc_check_status = Some (\<lambda>info s. do {
       (status, s1) \<leftarrow> bl_uhci_check_transfer_status info s;
       Some (status, mem_get (mem s1) (hi_data env) 8, s1) })\<rparr>"

partial_function (option) uhci_register_loop :: "'d hci_st hci_env \<Rightarrow> addr \<Rightarrow> 'd hci_st \<Rightarrow> 'd hci_st option" where
  "uhci_register_loop env uhci s =
     (if uhci = 0 then Some s
      else do {
        (hc, s1) \<leftarrow> bl_heap_alloc s sizeof_host_controller;
        if hc = 0 then Some s1
        else do {
          let s2 = bl_usb_host_controller_register hc (s1\<lparr>mem := hc_set_ports hc 2 (hc_fill BL_USB_HC_UHCI (hi_funcs env) uhci hc (mem s1))\<rparr>);
          uhci_register_loop env (uh_next (mem s2) uhci) s2 } })"

definition uhci_module_init :: "'d hci_st hci_env \<Rightarrow> 'd hci_st \<Rightarrow> 'd hci_st option" where
  "uhci_module_init env s = do {
     s1 \<leftarrow> bl_pci_iterate_devices (hi_io env) (hi_print env) (Some (bl_uhci_pci_init env)) s;
     uhci_register_loop env (uhci_list (usb_hw s1)) s1 }"

end
