(* ===== verification/Bl_UhciTransfers.thy ===== *)
theory Bl_UhciTransfers
  imports Bl_Uhci
begin

text \<open>
  Transfers of the UHCI driver: the pools of descriptors, the chain that a control transfer builds, what a controller makes of it, and the descriptors
  returned to the pools; and the schedule that the initialisation builds.
\<close>

unbundle bit_operations_syntax

subsection \<open>Descriptors\<close>

record usb_token =
  tok_pid :: u8
  tok_address :: nat
  tok_endpoint :: nat
  tok_toggle :: bool
  tok_length :: nat
  tok_low :: bool

definition uhci_td_token :: "mem \<Rightarrow> addr \<Rightarrow> usb_token" where
  "uhci_td_token m td = (let t = ld32 m (td_token td) in
     \<lparr>tok_pid = ucast t, tok_address = unat (drop_bit 8 t AND mask 7), tok_endpoint = unat (drop_bit 15 t AND mask 4), tok_toggle = bit t 19,
      tok_length = (unat (drop_bit 21 t) + 1) mod 2048, tok_low = bit (ld32 m (td_control_status td)) 26\<rparr>)"

lemma high_bit_clear: "unat (x :: 'a::len word) < 2 ^ k \<Longrightarrow> k \<le> j \<Longrightarrow> \<not> bit x j"
proof -
  assume a: "unat x < 2 ^ k" "k \<le> j"
  have "unat (take_bit k x) = unat x" using a(1) by (simp only: unsigned_take_bit_eq) (simp add: take_bit_nat_eq_self)
  then have "take_bit k x = x" by (simp only: word_unat_eq_iff)
  then show ?thesis using a(2) by (metis bit_take_bit_iff linorder_not_le)
qed

lemma uhci_token_fields:
  fixes pid sz :: u32 and address endpoint :: u8
  assumes "unat address < 128" "unat endpoint < 16" "toggle = (if b then 1 else 0)" "unat sz \<le> 1280"
  defines "t \<equiv> uhci_token pid address endpoint toggle sz"
  shows "(ucast t :: u8) = bl_usb_pid_format_check (ucast pid)" "drop_bit 8 t AND mask 7 = ucast address" "drop_bit 15 t AND mask 4 = ucast endpoint"
    "bit t 19 = b" "(unat (drop_bit 21 t) + 1) mod 2048 = unat sz"
proof -
  have h: "\<And>j. 7 \<le> j \<Longrightarrow> \<not> bit address j" "\<And>j. 4 \<le> j \<Longrightarrow> \<not> bit endpoint j"
    using high_bit_clear [of address 7] high_bit_clear [of endpoint 4] assms(1,2) by auto
  have g: "\<And>j. 1 \<le> j \<Longrightarrow> \<not> bit toggle j" "bit toggle 0 = b" using assms(3) by (auto simp: bit_1_iff)
  have h': "\<And>j. bit address j \<Longrightarrow> j < 7" "\<And>j. bit endpoint j \<Longrightarrow> j < 4" using h by (meson not_le)+
  note u = t_def uhci_token_def BL_UHCI_TD_TOKEN_DEVICE_ADDRESS_def BL_UHCI_TD_TOKEN_ENDPOINT_def BL_UHCI_TD_TOKEN_TOGGLE_def BL_UHCI_TD_TOKEN_MAXIMUM_LENGTH_def
  have l8: "\<And>j. 8 \<le> j \<Longrightarrow> \<not> bit (w :: u8) j" for w using bit_imp_le_length by fastforce
  have k: "(0x7ff :: u32) = mask 11" by (simp add: mask_eq_exp_minus_1)
  show "(ucast t :: u8) = bl_usb_pid_format_check (ucast pid)"
    unfolding u k by (rule bit_eqI) (auto simp: bit_ucast_iff bit_or_iff bit_and_iff bit_push_bit_iff)
  show "drop_bit 8 t AND mask 7 = ucast address"
    unfolding u k by (rule bit_eqI) (auto simp: bit_ucast_iff bit_or_iff bit_and_iff bit_mask_iff bit_drop_bit_eq bit_push_bit_iff l8 h dest: h')
  show "drop_bit 15 t AND mask 4 = ucast endpoint"
    unfolding u k by (rule bit_eqI) (auto simp: bit_ucast_iff bit_or_iff bit_and_iff bit_mask_iff bit_drop_bit_eq bit_push_bit_iff l8 h g dest: h')
  show "bit t 19 = b"
    unfolding u k using g by (auto simp: bit_ucast_iff bit_or_iff bit_and_iff bit_mask_iff bit_push_bit_iff l8 h dest: h')
  have "drop_bit 21 t = (sz - 1) AND mask 11"
    unfolding u k by (rule bit_eqI) (auto simp: bit_ucast_iff bit_or_iff bit_and_iff bit_mask_iff bit_drop_bit_eq bit_push_bit_iff l8 h g dest: h')
  then have d: "unat (drop_bit 21 t) = unat (sz - 1) mod 2048" by (simp add: and_mask_unat)
  show "(unat (drop_bit 21 t) + 1) mod 2048 = unat sz"
  proof (cases "sz = 0")
    case False
    then have "unat (sz - 1) = unat sz - 1" "0 < unat sz" by (simp_all add: unat_minus_one unat_gt_0)
    then show ?thesis unfolding d using assms(4) by simp
  next
    case True
    have "unat (- 1 :: u32) = 4294967295" by (simp add: unsigned_minus_1_eq_mask mask_eq_exp_minus_1)
    then show ?thesis unfolding d using True by simp
  qed
qed

lemma uhci_status_fields:
  "bit (uhci_control_status speed sz) 26 = (speed = BL_USB_LOW_SPEED)" "bit (uhci_control_status speed sz) 23"
proof -
  have k: "(0x7ff :: u32) = mask 11" by (simp add: mask_eq_exp_minus_1)
  note u = uhci_control_status_def BL_UHCI_TD_CONTROL_STATUS_ACTUAL_LENGTH_def BL_UHCI_TD_CONTROL_STATUS_ACTIVE_def
    BL_UHCI_TD_CONTROL_STATUS_LOW_SPEED_DEVICE_def BL_UHCI_TD_CONTROL_STATUS_C_ERR_def
  show "bit (uhci_control_status speed sz) 26 = (speed = BL_USB_LOW_SPEED)" "bit (uhci_control_status speed sz) 23"
    unfolding u k by (simp_all only: bit_or_iff bit_and_iff bit_mask_iff bit_push_bit_iff) simp_all
qed

definition uhci_packet :: "mem \<Rightarrow> addr \<Rightarrow> usb_token \<times> addr" where
  "uhci_packet m td = (uhci_td_token m td, ld32 m (td_buffer_pointer td))"

definition uhci_td_at :: "addr \<Rightarrow> nat \<Rightarrow> addr" where "uhci_td_at tds i = desc_at tds sizeof_uhci_td i"
definition uhci_qh_at :: "addr \<Rightarrow> nat \<Rightarrow> addr" where "uhci_qh_at qhs i = desc_at qhs sizeof_uhci_qh i"
definition uhci_td_flag :: "addr \<Rightarrow> mem \<Rightarrow> nat \<Rightarrow> u32" where "uhci_td_flag tds m i = ld32 m (td_used (uhci_td_at tds i))"
definition uhci_qh_flag :: "addr \<Rightarrow> mem \<Rightarrow> nat \<Rightarrow> u32" where "uhci_qh_flag qhs m i = ld32 m (qh_used (uhci_qh_at qhs i))"

interpretation uhci_td: descriptor_pool sizeof_uhci_td "td_used 0" BL_UHCI_NUM_TD
  by unfold_locales (simp add: td_used_def sizeof_uhci_td_def)

interpretation uhci_qh: descriptor_pool sizeof_uhci_qh "qh_used 0" BL_UHCI_NUM_QH
  by unfold_locales (simp add: qh_used_def sizeof_uhci_qh_def)

lemma uhci_flags: "desc_flag sizeof_uhci_td (td_used 0) tds m i = uhci_td_flag tds m i" "desc_flag sizeof_uhci_qh (qh_used 0) qhs m i = uhci_qh_flag qhs m i"
  by (simp_all add: desc_flag_def uhci_td_flag_def uhci_qh_flag_def td_used_def qh_used_def uhci_td_at_def uhci_qh_at_def add.commute)

lemmas uhci_sizes = sizeof_uhci_td_def sizeof_uhci_qh_def BL_UHCI_NUM_TD_def BL_UHCI_NUM_QH_def

lemma uhci_td_unat:
  assumes "fits tds 32768" "i < 1024"
  shows "unat (uhci_td_at tds i) = unat tds + 32 * i" "k < 32 \<Longrightarrow> unat (uhci_td_at tds i + of_nat k) = unat tds + 32 * i + k"
  using uhci_td.addr_unat [of tds i] uhci_td.addr_offset [of tds i k] assms by (simp_all add: uhci_td_at_def uhci_sizes)

lemma uhci_qh_unat:
  assumes "fits qhs 4096" "i < 256"
  shows "unat (uhci_qh_at qhs i) = unat qhs + 16 * i" "k < 16 \<Longrightarrow> unat (uhci_qh_at qhs i + of_nat k) = unat qhs + 16 * i + k"
  using uhci_qh.addr_unat [of qhs i] uhci_qh.addr_offset [of qhs i k] assms by (simp_all add: uhci_qh_at_def uhci_sizes)

text \<open>Words of a descriptor.\<close>

lemma ld32_store_other: "unat a + 4 \<le> unat b \<or> unat b + 4 \<le> unat a \<Longrightarrow> fits a 4 \<Longrightarrow> fits b 4 \<Longrightarrow> ld32 (st32 m a v) b = ld32 m b"
  by (rule st32_apart(2)) (simp_all add: apart_def)

lemma td_words:
  assumes "fits tds 32768" "i < 1024" "td = uhci_td_at tds i"
  shows "unat td = unat tds + 32 * i" "unat (td + 4) = unat tds + 32 * i + 4" "unat (td + 8) = unat tds + 32 * i + 8"
    "unat (td + 12) = unat tds + 32 * i + 12" "unat (td + 16) = unat tds + 32 * i + 16" "unat td + 32 \<le> 2 ^ 32"
  using uhci_td_unat [OF assms(1,2)] uhci_td_unat(2) [OF assms(1,2), of 4] uhci_td_unat(2) [OF assms(1,2), of 8]
    uhci_td_unat(2) [OF assms(1,2), of 12] uhci_td_unat(2) [OF assms(1,2), of 16] assms by (simp_all add: fits_def)

lemma init_td_ok:
  assumes "fits tds 32768" "tds \<noteq> 0" "uh_tds m uhci = tds" "\<exists>i<1024. uhci_td_flag tds m i = 0"
    "unat address < 128" "unat endpoint < 16" "toggle = (if b then 1 else 0)" "unat sz \<le> 1280"
  shows "\<exists>i<1024. \<exists>m'. bl_uhci_init_td uhci speed pid address endpoint toggle sz buffer m = (uhci_td_at tds i, m') \<and> uhci_td_flag tds m i = 0 \<and>
    uhci_td_at tds i \<noteq> 0 \<and> (\<forall>x. off_range (uhci_td_at tds i) 20 x \<longrightarrow> m' x = m x) \<and> ld32 m' (uhci_td_at tds i) = 1 \<and>
    bit (ld32 m' (td_control_status (uhci_td_at tds i))) 23 \<and> uhci_td_flag tds m' i = 1 \<and>
    uhci_packet m' (uhci_td_at tds i) = (\<lparr>tok_pid = bl_usb_pid_format_check (ucast pid), tok_address = unat address, tok_endpoint = unat endpoint,
      tok_toggle = b, tok_length = unat sz, tok_low = (speed = BL_USB_LOW_SPEED)\<rparr>, buffer)"
proof -
  obtain i where i: "i < 1024" "uhci_td_flag tds m i = 0" "uhci_td_at tds i \<noteq> 0"
      "bl_uhci_alloc_td uhci m = (uhci_td_at tds i, st32 m (td_used (uhci_td_at tds i)) 1)"
    using uhci_td.alloc_takes [of tds m] assms(1-4) unfolding uhci_flags bl_uhci_alloc_td_def
    by (auto simp: uhci_sizes uhci_td_at_def td_used_def add.commute)
  let ?d = "uhci_td_at tds i"
  define c where "c = uhci_control_status speed sz"
  define t where "t = uhci_token pid address endpoint toggle sz"
  define m' where "m' = st32 (st32 (st32 (st32 (st32 m (?d + 16) 1) ?d 1) (?d + 4) c) (?d + 8) t) (?d + 12) buffer"
  note u = td_words [OF assms(1) i(1) refl]
  have run: "bl_uhci_init_td uhci speed pid address endpoint toggle sz buffer m = (?d, m')"
    unfolding bl_uhci_init_td_def i(4) using i(3)
    by (simp add: m'_def c_def t_def td_used_def td_link_pointer_def td_control_status_def td_token_def td_buffer_pointer_def BL_UHCI_TD_LINK_POINTER_T_def)
  have f: "fits ?d 4" "fits (?d + 4) 4" "fits (?d + 8) 4" "fits (?d + 12) 4" "fits (?d + 16) 4" using u by (simp_all add: fits_def)
  have w: "ld32 m' ?d = 1" "ld32 m' (?d + 4) = c" "ld32 m' (?d + 8) = t" "ld32 m' (?d + 12) = buffer" "ld32 m' (?d + 16) = 1"
    unfolding m'_def by (simp_all add: ld32_store_other f u ld_st_same)
  have fr: "m' x = m x" if "off_range ?d 20 x" for x
    using that u unfolding m'_def by (auto simp: st_frame f off_range_def)
  note tf = uhci_token_fields [OF assms(5-8), of pid, folded t_def]
  have "unat (ucast address :: u32) = unat address" "unat (ucast endpoint :: u32) = unat endpoint" using assms(5,6) by (simp_all add: unsigned_ucast_eq take_bit_eq_mod)
  then have p: "uhci_packet m' ?d = (\<lparr>tok_pid = bl_usb_pid_format_check (ucast pid), tok_address = unat address, tok_endpoint = unat endpoint,
      tok_toggle = b, tok_length = unat sz, tok_low = (speed = BL_USB_LOW_SPEED)\<rparr>, buffer)"
    using tf uhci_status_fields(1) [of speed sz]
    by (simp add: uhci_packet_def uhci_td_token_def Let_def td_token_def td_control_status_def td_buffer_pointer_def w c_def)
  have "bit (ld32 m' (td_control_status ?d)) 23" using uhci_status_fields(2) by (simp add: td_control_status_def w c_def)
  moreover have "uhci_td_flag tds m' i = 1" by (simp add: uhci_td_flag_def td_used_def w)
  ultimately show ?thesis using i run fr w p by blast
qed

lemma td_same:
  assumes "fits tds 32768" "i < 1024" "\<forall>x. \<not> off_range (uhci_td_at tds i) 20 x \<longrightarrow> m' x = m x"
  shows "ld32 m' (uhci_td_at tds i) = ld32 m (uhci_td_at tds i)" "uhci_packet m' (uhci_td_at tds i) = uhci_packet m (uhci_td_at tds i)"
    "ld32 m' (td_control_status (uhci_td_at tds i)) = ld32 m (td_control_status (uhci_td_at tds i))" "uhci_td_flag tds m' i = uhci_td_flag tds m i"
proof -
  let ?d = "uhci_td_at tds i"
  note u = td_words [OF assms(1,2) refl]
  have f: "fits ?d 4" "fits (?d + 4) 4" "fits (?d + 8) 4" "fits (?d + 12) 4" "fits (?d + 16) 4" using u by (simp_all add: fits_def)
  have w: "ld32 m' ?d = ld32 m ?d" "ld32 m' (?d + 4) = ld32 m (?d + 4)" "ld32 m' (?d + 8) = ld32 m (?d + 8)"
      "ld32 m' (?d + 12) = ld32 m (?d + 12)" "ld32 m' (?d + 16) = ld32 m (?d + 16)"
    using f assms(3) u by (auto intro!: ld_same(2) simp: off_range_def)
  then show "ld32 m' ?d = ld32 m ?d" "uhci_packet m' ?d = uhci_packet m ?d" "ld32 m' (td_control_status ?d) = ld32 m (td_control_status ?d)"
      "uhci_td_flag tds m' i = uhci_td_flag tds m i"
    by (simp_all add: uhci_packet_def uhci_td_token_def Let_def td_token_def td_control_status_def td_buffer_pointer_def uhci_td_flag_def td_used_def)
qed

text \<open>Descriptors linked to a queue, the last of them terminated.\<close>

definition uhci_chain :: "mem \<Rightarrow> addr list \<Rightarrow> bool" where
  "uhci_chain m as \<longleftrightarrow> as \<noteq> [] \<and> (\<forall>i. Suc i < length as \<longrightarrow> ld32 m (as ! i) = as ! Suc i OR 4) \<and> ld32 m (last as) = 1"

definition uhci_built :: "addr \<Rightarrow> mem \<Rightarrow> mem \<Rightarrow> nat list \<Rightarrow> (usb_token \<times> addr) list \<Rightarrow> bool" where
  "uhci_built tds m0 m is ps \<longleftrightarrow> distinct is \<and> (\<forall>i\<in>set is. i < 1024 \<and> uhci_td_flag tds m0 i = 0) \<and>
     (\<forall>x. off_range tds 32768 x \<longrightarrow> m x = m0 x) \<and> (\<forall>i<1024. uhci_td_flag tds m i = (if i \<in> set is then 1 else uhci_td_flag tds m0 i)) \<and>
     uhci_chain m (map (uhci_td_at tds) is) \<and> (\<forall>i\<in>set is. bit (ld32 m (td_control_status (uhci_td_at tds i))) 23) \<and>
     map (\<lambda>i. uhci_packet m (uhci_td_at tds i)) is = ps"

lemma td_off_other:
  assumes "fits tds 32768" "i < 1024" "j < 1024" "i \<noteq> j" "\<not> off_range (uhci_td_at tds i) 20 x"
  shows "off_range (uhci_td_at tds j) 20 x"
  using assms(4,5) uhci_td_unat(1) [OF assms(1,2)] uhci_td_unat(1) [OF assms(1,3)] mult_step_cases [OF assms(4), of 32]
  by (auto simp: off_range_def)

lemma td_inside_pool: "fits tds 32768 \<Longrightarrow> i < 1024 \<Longrightarrow> off_range tds 32768 x \<Longrightarrow> off_range (uhci_td_at tds i) 20 x"
  using uhci_td_unat(1) [of tds i] by (auto simp: off_range_def)

lemma built_first:
  assumes "fits tds 32768" "i < 1024" "uhci_td_flag tds m i = 0" "\<forall>x. off_range (uhci_td_at tds i) 20 x \<longrightarrow> m' x = m x"
    "ld32 m' (uhci_td_at tds i) = 1" "bit (ld32 m' (td_control_status (uhci_td_at tds i))) 23" "uhci_td_flag tds m' i = 1"
    "uhci_packet m' (uhci_td_at tds i) = p"
  shows "uhci_built tds m m' [i] [p]"
proof -
  have "uhci_td_flag tds m' j = uhci_td_flag tds m j" if "j < 1024" "j \<noteq> i" for j
    using td_same(4) [OF assms(1) that(1), of m' m] td_off_other [OF assms(1) that(1) assms(2) that(2)] assms(4) by blast
  then show ?thesis
    using assms td_inside_pool [OF assms(1,2)] by (auto simp: uhci_built_def uhci_chain_def)
qed

lemma built_append:
  assumes fit: "fits tds 32768" and b: "uhci_built tds m0 m is ps" and j: "j < 1024" "uhci_td_flag tds m j = 0"
    "\<forall>x. off_range (uhci_td_at tds j) 20 x \<longrightarrow> m1 x = m x" "ld32 m1 (uhci_td_at tds j) = 1"
    "bit (ld32 m1 (td_control_status (uhci_td_at tds j))) 23" "uhci_td_flag tds m1 j = 1" "uhci_packet m1 (uhci_td_at tds j) = p"
    and m2: "m2 = st32 m1 (uhci_td_at tds (last is)) (uhci_td_at tds j OR 4)"
  shows "uhci_built tds m0 m2 (is @ [j]) (ps @ [p])"
proof -
  note d = b [unfolded uhci_built_def uhci_chain_def]
  have ne: "is \<noteq> []" using d by auto
  define l where "l = last is"
  have l: "l \<in> set is" "l < 1024" using ne d by (auto simp: l_def)
  have jn: "j \<notin> set is" using j(1,2) d by auto
  then have jl: "l \<noteq> j" using l(1) by auto
  note ul = td_words [OF fit l(2) refl]
  have fl: "fits (uhci_td_at tds l) 4" using ul by (simp add: fits_def)
  have fr: "m2 x = m1 x" if "off_range (uhci_td_at tds l) 4 x" for x
    unfolding m2 l_def [symmetric] using st_frame(2) [OF fl that] by simp
  have lk: "ld32 m2 (uhci_td_at tds l) = uhci_td_at tds j OR 4" unfolding m2 l_def [symmetric] by (rule ld_st_same)
  have sm: "ld32 m2 (uhci_td_at tds i) = ld32 m (uhci_td_at tds i)" if "i \<in> set is" "i \<noteq> l" for i
  proof -
    have i: "i < 1024" "i \<noteq> j" using that(1) d jn by auto
    have "m2 x = m x" if "\<not> off_range (uhci_td_at tds i) 20 x" for x
      using td_off_other [OF fit i(1) l(2) \<open>i \<noteq> l\<close> that] td_off_other [OF fit i(1) j(1) i(2) that] fr j(3) by (auto simp: off_range_def)
    then show ?thesis using td_same(1) [OF fit i(1)] by blast
  qed
  have ws: "uhci_packet m2 (uhci_td_at tds i) = uhci_packet m1 (uhci_td_at tds i) \<and>
      ld32 m2 (td_control_status (uhci_td_at tds i)) = ld32 m1 (td_control_status (uhci_td_at tds i)) \<and> uhci_td_flag tds m2 i = uhci_td_flag tds m1 i"
      if "i < 1024" for i
  proof -
    note u = td_words [OF fit that refl]
    have a: "unat (uhci_td_at tds l) + 4 \<le> unat (uhci_td_at tds i + of_nat k) \<or> unat (uhci_td_at tds i + of_nat k) + 4 \<le> unat (uhci_td_at tds l)"
      if "k \<in> {4, 8, 12, 16}" for k :: nat
      using that ul(1) uhci_td_unat(2) [OF fit \<open>i < 1024\<close>, of k] mult_step_cases [of i l 32] by (cases "i = l") auto
    have "ld32 m2 (uhci_td_at tds i + of_nat k) = ld32 m1 (uhci_td_at tds i + of_nat k)" if "k \<in> {4, 8, 12, 16}" for k :: nat
      unfolding m2 l_def [symmetric] using that u by (intro ld32_store_other [OF a [OF that] fl]) (auto simp: fits_def)
    from this [of 4] this [of 8] this [of 12] this [of 16] show ?thesis
      by (simp add: uhci_packet_def uhci_td_token_def Let_def td_token_def td_control_status_def td_buffer_pointer_def uhci_td_flag_def td_used_def)
  qed
  have w1: "uhci_packet m1 (uhci_td_at tds i) = uhci_packet m (uhci_td_at tds i) \<and>
      ld32 m1 (td_control_status (uhci_td_at tds i)) = ld32 m (td_control_status (uhci_td_at tds i)) \<and> uhci_td_flag tds m1 i = uhci_td_flag tds m i"
      if "i < 1024" "i \<noteq> j" for i
    using td_same [OF fit that(1), of m1 m] td_off_other [OF fit that(1) j(1) that(2)] j(3) by blast
  have w: "uhci_packet m2 (uhci_td_at tds i) = uhci_packet m (uhci_td_at tds i)" "ld32 m2 (td_control_status (uhci_td_at tds i)) = ld32 m (td_control_status (uhci_td_at tds i))"
      "uhci_td_flag tds m2 i = uhci_td_flag tds m i" if "i < 1024" "i \<noteq> j" for i
    using ws [OF that(1)] w1 [OF that] by auto
  have lj: "ld32 m2 (uhci_td_at tds j) = 1"
    unfolding m2 l_def [symmetric] using j(4) ul td_words [OF fit j(1) refl] mult_step_cases [OF jl, of 32]
    by (subst ld32_store_other) (auto simp: fits_def)
  have c1: "ld32 m2 (map (uhci_td_at tds) (is @ [j]) ! i) = map (uhci_td_at tds) (is @ [j]) ! Suc i OR 4" if "Suc i < length (is @ [j])" for i
  proof (cases "Suc i = length is")
    case True
    then have "is ! i = l" by (simp add: l_def last_conv_nth ne True [symmetric])
    then show ?thesis using True lk by (simp add: nth_append)
  next
    case False
    then have i: "Suc i < length is" using that by simp
    then have "is ! i \<noteq> l" using d ne by (simp add: l_def last_conv_nth nth_eq_iff_index_eq) 
    then have "ld32 m2 (uhci_td_at tds (is ! i)) = ld32 m (uhci_td_at tds (is ! i))" using sm i by simp
    then show ?thesis using d i by (simp add: nth_append)
  qed
  have c2: "uhci_chain m2 (map (uhci_td_at tds) (is @ [j]))" unfolding uhci_chain_def using c1 lj by simp
  have out: "m2 x = m0 x" if "off_range tds 32768 x" for x
    using td_inside_pool [OF fit j(1) that] td_inside_pool [OF fit l(2) that] fr [of x] j(3) d that by (auto simp: off_range_def)
  have fg: "uhci_td_flag tds m2 i = (if i \<in> set (is @ [j]) then 1 else uhci_td_flag tds m0 i)" if "i < 1024" for i
    using w(3) [OF that] ws [OF j(1)] j(6) d that jn by (cases "i = j") auto
  have j0: "uhci_td_flag tds m0 j = 0" using j(1,2) d jn by auto
  have st: "bit (ld32 m2 (td_control_status (uhci_td_at tds i))) 23" if "i \<in> set (is @ [j])" for i
    using that w(2) [of i] ws [OF j(1)] j(5) d jn by (cases "i = j") auto
  have "map (\<lambda>i. uhci_packet m2 (uhci_td_at tds i)) is = ps" using w(1) d jn by (metis (no_types, lifting) map_cong)
  then have pk: "map (\<lambda>i. uhci_packet m2 (uhci_td_at tds i)) (is @ [j]) = ps @ [p]" using ws [OF j(1)] j(7) by simp
  show ?thesis unfolding uhci_built_def using c2 out fg st pk d jn j(1) j0 by auto
qed

subsection \<open>Packets of a control transfer\<close>

lemma sless_of_nat: "i < 2 ^ 31 \<Longrightarrow> j < 2 ^ 31 \<Longrightarrow> (of_nat i <s (of_nat j :: u32)) = (i < j)"
proof -
  assume a: "i < 2 ^ 31" "j < 2 ^ 31"
  have "sint (of_nat k :: u32) = int k" if "k < 2 ^ 31" for k :: nat
    using that by (simp add: sint_uint take_bit_eq_mod signed_take_bit_eq_take_bit_shift unsigned_of_nat)
  then show ?thesis using a by (simp add: word_sless_alt)
qed

lemma not_positive: "n \<le> N \<Longrightarrow> N - n < 2 ^ 31 \<Longrightarrow> \<not> 0 <s (of_nat n - of_nat N :: u32)"
proof -
  assume a: "n \<le> N" "N - n < 2 ^ 31"
  have e: "(of_nat n - of_nat N :: u32) = word_of_int (- int (N - n))" using a(1) by (simp add: of_nat_diff)
  have "sint (word_of_int (- int (N - n)) :: u32) = - int (N - n)"
    using a(2) signed_take_bit_int_eq_self [of 31 "- int (N - n)"] by (simp only: signed_of_int) simp
  then show ?thesis unfolding e by (simp add: word_sless_alt)
qed

text \<open>The transactions of a control transfer by the USB specification: the stages, the data toggles, and the parts of the buffer.\<close>

definition usb_tok :: "u8 \<Rightarrow> nat \<Rightarrow> bool \<Rightarrow> nat \<Rightarrow> bool \<Rightarrow> usb_token" where
  "usb_tok pid address toggle len low =
     \<lparr>tok_pid = pid, tok_address = address, tok_endpoint = 0, tok_toggle = toggle, tok_length = len, tok_low = low\<rparr>"

definition data_packet :: "u8 \<Rightarrow> nat \<Rightarrow> bool \<Rightarrow> nat \<Rightarrow> addr \<Rightarrow> nat \<Rightarrow> nat \<Rightarrow> usb_token \<times> addr" where
  "data_packet pid address low packet data n k = (usb_tok pid address (even k) (min packet (n - packet * k)) low, data + of_nat (packet * k))"

definition packet_count :: "nat \<Rightarrow> nat \<Rightarrow> nat" where "packet_count packet n = (n + packet - 1) div packet"

definition control_packets :: "bool \<Rightarrow> nat \<Rightarrow> bool \<Rightarrow> nat \<Rightarrow> addr \<Rightarrow> addr \<Rightarrow> nat \<Rightarrow> (usb_token \<times> addr) list" where
  "control_packets is_in address low packet setup data n =
     (usb_tok 0x2d address False 8 low, setup) #
     map (data_packet (if is_in then 0x69 else 0xe1) address low packet data n) [0..<packet_count packet n] @
     [(usb_tok (if is_in then 0xe1 else 0x69) address True 0 low, 0)]"

lemma packet_count_less: "0 < packet \<Longrightarrow> (k < packet_count packet n) = (packet * k < n)"
proof -
  assume a: "0 < packet"
  have "(k < packet_count packet n) = (Suc k \<le> (n + packet - 1) div packet)" by (simp add: packet_count_def Suc_le_eq)
  also have "\<dots> = (Suc k * packet \<le> n + packet - 1)" using less_eq_div_iff_mult_less_eq [OF a, of "Suc k"] by simp
  also have "\<dots> = (packet * k < n)" using a by (auto simp: algebra_simps)
  finally show ?thesis .
qed

lemma pid_bytes:
  "bl_usb_pid_format_check (ucast BL_USB_PID_TOKEN_SETUP) = 0x2d" "bl_usb_pid_format_check (ucast BL_USB_PID_TOKEN_IN) = 0x69"
  "bl_usb_pid_format_check (ucast BL_USB_PID_TOKEN_OUT) = 0xe1"
  by (simp_all add: bl_usb_pid_format_check_def BL_USB_PID_TOKEN_SETUP_def BL_USB_PID_TOKEN_IN_def BL_USB_PID_TOKEN_OUT_def)

definition uhci_free :: "addr \<Rightarrow> mem \<Rightarrow> nat set" where "uhci_free tds m = {i. i < 1024 \<and> uhci_td_flag tds m i = 0}"

lemma built_free:
  assumes "uhci_built tds m0 m is ps" "length is < card (uhci_free tds m0)"
  shows "\<exists>i<1024. uhci_td_flag tds m i = 0"
proof -
  have "card (set is) < card (uhci_free tds m0)" using assms by (simp add: uhci_built_def distinct_card)
  then obtain i where "i \<in> uhci_free tds m0" "i \<notin> set is"
    by (metis card_mono finite_set linorder_not_less subsetI)
  then show ?thesis using assms(1) by (auto simp: uhci_free_def uhci_built_def)
qed

lemma uh_tds_same:
  assumes "fits uhci 20" "apart uhci 20 tds 32768" "\<forall>x. off_range tds 32768 x \<longrightarrow> m x = m0 x"
  shows "uh_tds m uhci = uh_tds m0 uhci"
proof -
  have "unat (uhci + 8) = unat uhci + 8" using unat_add_lt [of uhci 8] assms(1) by (simp add: fits_def)
  then show ?thesis unfolding uh_tds_def using assms by (intro ld_same(2)) (auto simp: fits_def apart_def off_range_def)
qed

text \<open>One more packet.\<close>

lemma init_td_append:
  assumes "fits tds 32768" "tds \<noteq> 0" "fits uhci 20" "apart uhci 20 tds 32768" "uh_tds m0 uhci = tds"
    "uhci_built tds m0 m is ps" "length is < card (uhci_free tds m0)" "unat address < 128" "toggle = (if b then 1 else 0)" "unat sz \<le> 1280"
  shows "\<exists>j m1. bl_uhci_init_td uhci speed pid address 0 toggle sz buffer m = (uhci_td_at tds j, m1) \<and> uhci_td_at tds j \<noteq> 0 \<and>
    uhci_built tds m0 (st32 m1 (td_link_pointer (uhci_td_at tds (last is))) (uhci_td_at tds j OR BL_UHCI_TD_LINK_POINTER_VF)) (is @ [j])
      (ps @ [(usb_tok (bl_usb_pid_format_check (ucast pid)) (unat address) b (unat sz) (speed = BL_USB_LOW_SPEED), buffer)])"
proof -
  have "uh_tds m uhci = tds" using uh_tds_same [OF assms(3,4)] assms(5,6) by (auto simp: uhci_built_def)
  from init_td_ok [OF assms(1,2) this built_free [OF assms(6,7)] assms(8) _ assms(9,10), of 0 speed pid buffer]
  obtain j m1 where j: "j < 1024" "bl_uhci_init_td uhci speed pid address 0 toggle sz buffer m = (uhci_td_at tds j, m1)" "uhci_td_flag tds m j = 0"
      "uhci_td_at tds j \<noteq> 0" "\<forall>x. off_range (uhci_td_at tds j) 20 x \<longrightarrow> m1 x = m x" "ld32 m1 (uhci_td_at tds j) = 1"
      "bit (ld32 m1 (td_control_status (uhci_td_at tds j))) 23" "uhci_td_flag tds m1 j = 1"
      "uhci_packet m1 (uhci_td_at tds j) = (usb_tok (bl_usb_pid_format_check (ucast pid)) (unat address) b (unat sz) (speed = BL_USB_LOW_SPEED), buffer)"
    by (auto simp: usb_tok_def)
  have "uhci_built tds m0 (st32 m1 (uhci_td_at tds (last is)) (uhci_td_at tds j OR 4)) (is @ [j])
      (ps @ [(usb_tok (bl_usb_pid_format_check (ucast pid)) (unat address) b (unat sz) (speed = BL_USB_LOW_SPEED), buffer)])"
    by (rule built_append [OF assms(1,6) j(1,3,5-9) refl])
  then show ?thesis using j(2,4) by (auto simp: td_link_pointer_def BL_UHCI_TD_LINK_POINTER_VF_def)
qed

lemma data_loop_ok:
  assumes "fits tds 32768" "tds \<noteq> 0" "fits uhci 20" "apart uhci 20 tds 32768" "uh_tds m0 uhci = tds" "unat address < 128"
    "0 < packet" "packet \<le> 1280" "n < 2 ^ 31"
  shows "uhci_built tds m0 m is ps \<Longrightarrow> k \<le> packet_count packet n \<Longrightarrow> length is + (packet_count packet n - k) \<le> card (uhci_free tds m0) \<Longrightarrow>
    \<exists>is' m'. uhci_data_loop uhci speed pid address (of_nat packet) data (uhci_td_at tds (last is)) (if odd k then 1 else 0)
      (of_nat n - of_nat (packet * k)) (of_nat (packet * k)) m = Some (uhci_td_at tds (last is'), m') \<and> hd is' = hd is \<and> is \<noteq> [] \<and>
      length is' = length is + (packet_count packet n - k) \<and> (uhci_td_at tds (last is) \<noteq> 0 \<longrightarrow> uhci_td_at tds (last is') \<noteq> 0) \<and>
      uhci_built tds m0 m' is' (ps @ map (data_packet (bl_usb_pid_format_check (ucast pid)) (unat address) (speed = BL_USB_LOW_SPEED) packet data n)
        [k..<packet_count packet n])"
proof (induction "packet_count packet n - k" arbitrary: k m "is" ps)
  case 0
  have ne: "is \<noteq> []" using 0(2) by (auto simp: uhci_built_def uhci_chain_def)
  have k: "k = packet_count packet n" using 0(1,3) by simp
  have "n \<le> packet * k" "packet * k - n < 2 ^ 31"
  proof -
    show "n \<le> packet * k" using packet_count_less [OF assms(7), of k n] k by simp
    have "packet * k < n + packet"
    proof (cases k)
      case (Suc j)
      then have "packet * j < n" using packet_count_less [OF assms(7), of j n] k by simp
      then show ?thesis using Suc by simp
    qed (use assms(7) in simp)
    then show "packet * k - n < 2 ^ 31" using assms(8) by simp
  qed
  then have "\<not> 0 <s (of_nat n - of_nat (packet * k) :: u32)" by (rule not_positive)
  then show ?case using 0(2) ne k by (subst uhci_data_loop.simps) auto
next
  case (Suc d)
  let ?K = "packet_count packet n"
  have ne: "is \<noteq> []" using Suc(3) by (auto simp: uhci_built_def uhci_chain_def)
  have k: "k < ?K" using Suc(2) by simp
  then have n: "packet * k < n" using packet_count_less [OF assms(7)] by simp
  have len: "(of_nat n - of_nat (packet * k) :: u32) = of_nat (n - packet * k)" using n by (simp only: of_nat_diff less_imp_le)
  have pos: "0 <s (of_nat (n - packet * k) :: u32)" using sless_of_nat [of 0 "n - packet * k"] n assms(9) by simp
  have mn: "int_min (of_nat (n - packet * k)) (of_nat packet) = of_nat (min packet (n - packet * k))"
    using sless_of_nat [of "n - packet * k" packet] assms(8,9) by (simp add: int_min_def min_def)
  have sz: "unat (of_nat (min packet (n - packet * k)) :: u32) = min packet (n - packet * k)" using assms(8) by (intro unat_of_nat_eq) simp
  have room: "length is < card (uhci_free tds m0)" "min packet (n - packet * k) \<le> 1280" using Suc(5) k assms(8) by simp_all
  have tg: "int_not (if odd k then 1 else 0) = (if even k then 1 else 0)" by (simp add: int_not_def)
  obtain j m1 where j: "bl_uhci_init_td uhci speed pid address 0 (if even k then 1 else 0) (of_nat (min packet (n - packet * k))) (data + of_nat (packet * k)) m = (uhci_td_at tds j, m1)"
      "uhci_td_at tds j \<noteq> 0"
      "uhci_built tds m0 (st32 m1 (td_link_pointer (uhci_td_at tds (last is))) (uhci_td_at tds j OR BL_UHCI_TD_LINK_POINTER_VF)) (is @ [j])
        (ps @ [data_packet (bl_usb_pid_format_check (ucast pid)) (unat address) (speed = BL_USB_LOW_SPEED) packet data n k])"
    using init_td_append [OF assms(1-5) Suc(3) _ assms(6) refl, of "of_nat (min packet (n - packet * k))" speed pid "even k" "data + of_nat (packet * k)"]
      sz room by (auto simp: data_packet_def)
  let ?m2 = "st32 m1 (td_link_pointer (uhci_td_at tds (last is))) (uhci_td_at tds j OR BL_UHCI_TD_LINK_POINTER_VF)"
  have l1: "(of_nat (n - packet * k) - of_nat packet :: u32) = of_nat n - of_nat (packet * Suc k)" unfolding len [symmetric] by simp
  have o1: "(of_nat (packet * k) + of_nat packet :: u32) = of_nat (packet * Suc k)" by simp
  have run: "uhci_data_loop uhci speed pid address (of_nat packet) data (uhci_td_at tds (last is)) (if odd k then 1 else 0)
      (of_nat n - of_nat (packet * k)) (of_nat (packet * k)) m =
    uhci_data_loop uhci speed pid address (of_nat packet) data (uhci_td_at tds j) (if odd (Suc k) then 1 else 0)
      (of_nat n - of_nat (packet * Suc k)) (of_nat (packet * Suc k)) ?m2"
    unfolding len by (subst uhci_data_loop.simps) (use pos j(1,2) in \<open>simp only: mn tg l1 o1 prod.case if_False if_True not_True_eq_False\<close>, simp)
  have sp: "[k..<?K] = k # [Suc k..<?K]" using k by (simp add: upt_conv_Cons)
  have a: "d = ?K - Suc k" "Suc k \<le> ?K" "length (is @ [j]) + (?K - Suc k) \<le> card (uhci_free tds m0)"
      "length (is @ [j]) + (?K - Suc k) = length is + (?K - k)"
    using Suc(2,5) k by auto
  have hd: "hd (is @ [j]) = hd is" using ne by simp
  from Suc(1) [OF a(1) j(3) a(2,3)] show ?case unfolding run sp using ne j(2) a(4) by (simp only: last_snoc hd list.map append_assoc append.simps) blast
qed

lemma control_tds_ok:
  assumes geo: "fits tds 32768" "tds \<noteq> 0" "fits uhci 20" "apart uhci 20 tds 32768" "uh_tds m0 uhci = tds" and a: "unat address < 128"
    and p: "0 < packet" "packet \<le> 1280" "n < 2 ^ 31" and s: "off_range tds 32768 setup"
    and room: "packet_count packet n + 2 \<le> card (uhci_free tds m0)"
  shows "\<exists>is m'. uhci_control_tds uhci speed address (of_nat packet) setup data (of_nat n) m0 = Some (uhci_td_at tds (hd is), m') \<and> uhci_td_at tds (hd is) \<noteq> 0 \<and>
    uhci_built tds m0 m' is (control_packets (bit (m0 setup) 7) (unat address) (speed = BL_USB_LOW_SPEED) packet setup data n)"
proof -
  have pid_differ: "BL_USB_PID_TOKEN_IN \<noteq> BL_USB_PID_TOKEN_OUT" by (simp add: BL_USB_PID_TOKEN_IN_def BL_USB_PID_TOKEN_OUT_def)
  let ?low = "speed = BL_USB_LOW_SPEED" and ?inp = "bit (m0 setup) 7"
  have "card (uhci_free tds m0) \<noteq> 0" using room by simp
  then have ex: "\<exists>i<1024. uhci_td_flag tds m0 i = 0" by (metis (mono_tags, lifting) card_eq_0_iff ex_in_conv mem_Collect_eq uhci_free_def)
  from init_td_ok [OF geo(1,2,5) ex a, of 0 0 False 8 speed BL_USB_PID_TOKEN_SETUP "setup"]
  obtain i m1 where i: "i < 1024" "bl_uhci_init_td uhci speed BL_USB_PID_TOKEN_SETUP address 0 0 8 setup m0 = (uhci_td_at tds i, m1)" "uhci_td_at tds i \<noteq> 0"
      "uhci_built tds m0 m1 [i] [(usb_tok 0x2d (unat address) False 8 ?low, setup)]"
    using built_first [OF geo(1)] by (auto simp: usb_tok_def pid_bytes)
  have "m1 setup = m0 setup" using i(4) s by (simp add: uhci_built_def)
  moreover have "(ucast (m0 setup) AND push_bit 7 1 \<noteq> (0 :: u32)) = ?inp"
    using and_exp_eq_0_iff_not_bit [of "ucast (m0 setup) :: u32" 7] by (simp add: bit_ucast_iff)
  ultimately have pid: "bl_usb_direction_pid m1 setup = (if ?inp then BL_USB_PID_TOKEN_IN else BL_USB_PID_TOKEN_OUT)"
    by (simp add: bl_usb_direction_pid_def BL_USB_SETUP_REQUEST_TYPE_DEVICE_TO_HOST_def)
  define dp where "dp = (if ?inp then BL_USB_PID_TOKEN_IN else BL_USB_PID_TOKEN_OUT)"
  have dpb: "bl_usb_pid_format_check (ucast dp) = (if ?inp then 0x69 else 0xe1)" by (simp add: dp_def pid_bytes)
  have spb: "bl_usb_pid_format_check (ucast (bl_usb_status_pid dp)) = (if ?inp then 0xe1 else 0x69)"
    using pid_differ by (simp add: dp_def bl_usb_status_pid_def pid_bytes)
  obtain is' m2 where l: "uhci_data_loop uhci speed dp address (of_nat packet) data (uhci_td_at tds i) 0 (of_nat n) 0 m1 = Some (uhci_td_at tds (last is'), m2)"
      "hd is' = i" "length is' = 1 + packet_count packet n" "uhci_td_at tds (last is') \<noteq> 0"
      "uhci_built tds m0 m2 is' ((usb_tok 0x2d (unat address) False 8 ?low, setup) #
        map (data_packet (if ?inp then 0x69 else 0xe1) (unat address) ?low packet data n) [0..<packet_count packet n])"
    using data_loop_ok [OF geo a p i(4), of 0 speed dp data] room i(3) dpb by auto
  obtain j m3 where j: "bl_uhci_init_td uhci speed (bl_usb_status_pid dp) address 0 1 0 0 m2 = (uhci_td_at tds j, m3)" "uhci_td_at tds j \<noteq> 0"
      "uhci_built tds m0 (st32 m3 (td_link_pointer (uhci_td_at tds (last is'))) (uhci_td_at tds j OR BL_UHCI_TD_LINK_POINTER_VF)) (is' @ [j])
        (control_packets ?inp (unat address) ?low packet setup data n)"
    using init_td_append [OF geo l(5) _ a, of 1 True 0 speed "bl_usb_status_pid dp" 0] l(3) room spb by (auto simp: control_packets_def)
  have "is' \<noteq> []" using l(3) by auto
  then have h: "hd (is' @ [j]) = i" using l(2) by simp
  have "uhci_control_tds uhci speed address (of_nat packet) setup data (of_nat n) m0 =
      Some (uhci_td_at tds i, st32 m3 (td_link_pointer (uhci_td_at tds (last is'))) (uhci_td_at tds j OR BL_UHCI_TD_LINK_POINTER_VF))"
    unfolding uhci_control_tds_def sizeof_setup_data_def i(2) prod.case using i(3) l(1,4) j(1,2) by (simp add: pid dp_def [symmetric])
  then show ?thesis using i(3) j(3) h by blast
qed

subsection \<open>Freeing\<close>

lemma aligned_bits: "16 dvd unat (x :: u32) \<Longrightarrow> k < 4 \<Longrightarrow> \<not> bit x k"
proof -
  assume a: "16 dvd unat x" "k < 4"
  have "(2 :: nat) ^ Suc k dvd 2 ^ 4" using a(2) by (intro le_imp_power_dvd) simp
  then have "2 ^ Suc k dvd (16 :: nat)" by simp
  then have "2 ^ Suc k dvd unat x" using a(1) by (rule dvd_trans)
  then obtain q where "unat x = 2 ^ k * (2 * q)" by (auto elim!: dvdE simp: ac_simps)
  then have "even (unat x div 2 ^ k)" by simp
  then have "\<not> bit (unat x) k" by (simp add: bit_iff_odd)
  then show ?thesis by (simp add: bit_unsigned_iff bit_imp_le_length)
qed

lemma link_to_td:
  assumes "16 dvd unat (td :: u32)"
  shows "(td OR 4) AND NOT 0xf = td" "(td OR 4) AND 1 = 0"
proof -
  have k: "(0xf :: u32) = mask 4" "(4 :: int) = 2 ^ 2" by (simp_all add: mask_eq_exp_minus_1)
  have b4: "bit (4 :: int) j \<Longrightarrow> j = 2" for j unfolding k(2) by (simp only: bit_exp_iff)
  have low: "bit td j \<Longrightarrow> 4 \<le> j" for j using aligned_bits [OF assms, of j] by (meson not_le)
  show "(td OR 4) AND NOT 0xf = td"
    unfolding k(1) by (rule bit_eqI) (auto simp: bit_or_iff bit_and_iff bit_not_iff bit_mask_iff not_less dest: b4 low)
  have "even td" using aligned_bits [OF assms, of 0] by (simp add: bit_0)
  then have "even (td OR 4)" by (simp add: even_or_iff)
  then show "(td OR 4) AND 1 = 0" by (simp only: and_one_eq even_iff_mod_2_eq_zero)
qed

lemma free_list_ok:
  assumes "fits tds 32768" "16 dvd unat tds"
  shows "distinct is \<Longrightarrow> \<forall>i\<in>set is. i < 1024 \<Longrightarrow> uhci_chain m (map (uhci_td_at tds) is) \<Longrightarrow>
    \<exists>m'. bl_uhci_free_td_list (uhci_td_at tds (hd is)) m = Some m' \<and> (\<forall>x. (\<forall>i\<in>set is. off_range (td_used (uhci_td_at tds i)) 4 x) \<longrightarrow> m' x = m x) \<and>
      (\<forall>i<1024. uhci_td_flag tds m' i = (if i \<in> set is then 0 else uhci_td_flag tds m i))"
proof (induction "is" arbitrary: m)
  case (Cons i "is")
  have i: "i < 1024" "i \<notin> set is" using Cons.prems by auto
  let ?d = "uhci_td_at tds i"
  note u = td_words [OF assms(1) i(1) refl]
  define m1 where "m1 = st32 m (td_used ?d) 0"
  have f: "fits (td_used ?d) 4" using u by (simp add: fits_def td_used_def)
  have fr: "m1 x = m x" if "off_range (td_used ?d) 4 x" for x unfolding m1_def by (rule st_frame(2) [OF f that])
  have lk: "ld32 m1 (uhci_td_at tds j) = ld32 m (uhci_td_at tds j)" if "j < 1024" for j
    unfolding m1_def using f u td_words [OF assms(1) that refl] mult_step_cases [of i j 32]
    by (intro ld32_store_other) (cases "i = j", auto simp: td_used_def fits_def)
  have fl: "uhci_td_flag tds m1 j = (if j = i then 0 else uhci_td_flag tds m j)" if "j < 1024" for j
    using uhci_td.flag_store [of tds i j m 0] i(1) that assms(1) unfolding uhci_flags
    by (simp add: m1_def uhci_td_at_def td_used_def uhci_sizes add.commute)
  show ?case
  proof (cases "is")
    case Nil
    then have "ld32 m ?d = 1" using Cons.prems(3) by (simp add: uhci_chain_def)
    then have "bl_uhci_free_td_list ?d m = Some m1"
      by (subst bl_uhci_free_td_list.simps) (simp add: m1_def [symmetric] td_link_pointer_def lk i(1) BL_UHCI_TD_LINK_POINTER_T_def)
    then show ?thesis using Nil fr fl by auto
  next
    case (Cons j is')
    have j: "j < 1024" using Cons.prems(2) Cons by simp
    have l: "ld32 m ?d = uhci_td_at tds j OR 4" using Cons.prems(3) Cons by (force simp: uhci_chain_def)
    have al: "16 dvd unat (uhci_td_at tds j)" using assms(2) uhci_td_unat(1) [OF assms(1) j] by (simp add: dvd_add)
    have run: "bl_uhci_free_td_list ?d m = bl_uhci_free_td_list (uhci_td_at tds (hd is)) m1"
      using link_to_td [OF al]
      by (subst bl_uhci_free_td_list.simps) (simp add: m1_def [symmetric] td_link_pointer_def BL_UHCI_TD_LINK_POINTER_NEXT_def lk i(1) l BL_UHCI_TD_LINK_POINTER_T_def Cons)
    have "ld32 m1 (map (uhci_td_at tds) is ! k) = map (uhci_td_at tds) is ! Suc k OR 4" if "Suc k < length (map (uhci_td_at tds) is)" for k
    proof -
      have "ld32 m (map (uhci_td_at tds) (i # is) ! Suc k) = map (uhci_td_at tds) (i # is) ! Suc (Suc k) OR 4"
        using Cons.prems(3) that unfolding uhci_chain_def by (metis Suc_less_eq length_Cons length_map)
      moreover have "is ! k < 1024" using Cons.prems(2) that by simp
      ultimately show ?thesis using lk that by simp
    qed
    moreover have "ld32 m1 (last (map (uhci_td_at tds) is)) = 1"
    proof -
      have "last is < 1024" using Cons.prems(2) Cons by (metis last_in_set list.set_intros(2) list.discI)
      moreover have "last (map (uhci_td_at tds) (i # is)) = uhci_td_at tds (last is)" using Cons by (simp add: last_map)
      ultimately show ?thesis using Cons.prems(3) lk Cons unfolding uhci_chain_def by (metis last_map list.discI)
    qed
    ultimately have "uhci_chain m1 (map (uhci_td_at tds) is)" using Cons by (simp add: uhci_chain_def)
    with Cons.IH [of m1] obtain m' where m': "bl_uhci_free_td_list (uhci_td_at tds (hd is)) m1 = Some m'"
        "\<forall>x. (\<forall>i\<in>set is. off_range (td_used (uhci_td_at tds i)) 4 x) \<longrightarrow> m' x = m1 x"
        "\<forall>i<1024. uhci_td_flag tds m' i = (if i \<in> set is then 0 else uhci_td_flag tds m1 i)"
      using Cons.prems by auto
    then show ?thesis unfolding list.sel run using fr fl i(2) by auto
  qed
qed (simp add: uhci_chain_def)

subsection \<open>The controller\<close>

text \<open>
  The schedule: every frame leads to the first queue head, the queue heads are linked in order, and only the queue \<open>q\<close> may have work.
\<close>

definition uhci_schedule :: "addr \<Rightarrow> addr \<Rightarrow> nat \<Rightarrow> mem \<Rightarrow> bool" where
  "uhci_schedule frames qhs q m \<longleftrightarrow> (\<forall>i<1024. ld32 m (frames + of_nat (4 * i)) = qhs OR 2) \<and>
     (\<forall>i<255. ld32 m (uhci_qh_at qhs i) = uhci_qh_at qhs (Suc i) OR 2) \<and> ld32 m (uhci_qh_at qhs 255) = 1 \<and>
     (\<forall>i<256. i \<noteq> q \<longrightarrow> bit (ld32 m (qh_element_link_pointer (uhci_qh_at qhs i))) 0)"

text \<open>What goes over the bus: a token, and the data that follows it unless the device sends it.\<close>

definition transactions :: "mem \<Rightarrow> (usb_token \<times> addr) list \<Rightarrow> (usb_token \<times> u8 list) list" where
  "transactions m ps = map (\<lambda>(t, b). (t, if tok_pid t = 0x69 then [] else mem_get m b (tok_length t))) ps"

text \<open>A queue carried out: the data received, the status of the descriptors, and the queue empty.\<close>

definition uhci_done :: "(addr \<Rightarrow> u32) \<Rightarrow> u8 list \<Rightarrow> addr \<Rightarrow> addr list \<Rightarrow> (usb_token \<times> addr) list \<Rightarrow> mem \<Rightarrow> mem" where
  "uhci_done f bs qh as ps m = scatter (map (\<lambda>(t, b). (b, tok_length t)) (filter (\<lambda>(t, b). tok_pid t = 0x69) ps)) bs
     (fold (\<lambda>a m. st32 m (td_control_status a) (f a)) as (st32 m (qh_element_link_pointer qh) 1))"

text \<open>
  A controller with a device: the device turns transactions into the bytes it sends and its next state. A chain of at most 1024 active descriptors in a
  queue of the schedule is carried out within 98 ms; until then the queue is not marked empty.
\<close>

definition uhci_hc :: "'d hci_st hci_env \<Rightarrow> addr \<Rightarrow> addr \<Rightarrow> ('d \<Rightarrow> 'v) \<Rightarrow> ((usb_token \<times> u8 list) list \<Rightarrow> 'v \<Rightarrow> u8 list \<times> 'v) \<Rightarrow> bool" where
  "uhci_hc env frames qhs view dev \<longleftrightarrow> (\<forall>s q as ps. q < 256 \<longrightarrow> uhci_schedule frames qhs q (mem s) \<longrightarrow> uhci_chain (mem s) as \<longrightarrow>
     length as \<le> 1024 \<longrightarrow> (\<forall>a\<in>set as. 16 dvd unat a) \<longrightarrow>
     ld32 (mem s) (qh_element_link_pointer (uhci_qh_at qhs q)) = hd as \<longrightarrow> (\<forall>a\<in>set as. bit (ld32 (mem s) (td_control_status a)) 23) \<longrightarrow>
     map (uhci_packet (mem s)) as = ps \<longrightarrow>
     (\<exists>n\<le>98. (\<forall>k<n. \<not> bit (ld32 (mem ((hi_sleep env 1 ^^ k) s)) (qh_element_link_pointer (uhci_qh_at qhs q))) 0) \<and>
        (\<exists>f d. (hi_sleep env 1 ^^ n) s = s\<lparr>mem := uhci_done f (fst (dev (transactions (mem s) ps) (view (hci_dev (usb_hw s))))) (uhci_qh_at qhs q) as ps (mem s),
             usb_hw := (usb_hw s)\<lparr>hci_dev := d\<rparr>\<rparr> \<and> view d = snd (dev (transactions (mem s) ps) (view (hci_dev (usb_hw s)))))))"

lemma uhci_hcD:
  assumes "uhci_hc env frames qhs view dev" "q < 256" "uhci_schedule frames qhs q (mem s)" "uhci_chain (mem s) as" "length as \<le> 1024" "\<forall>a\<in>set as. 16 dvd unat a"
    "ld32 (mem s) (qh_element_link_pointer (uhci_qh_at qhs q)) = hd as" "\<forall>a\<in>set as. bit (ld32 (mem s) (td_control_status a)) 23" "map (uhci_packet (mem s)) as = ps"
    "dev (transactions (mem s) ps) (view (hci_dev (usb_hw s))) = answer"
  shows "\<exists>n\<le>98. (\<forall>k<n. \<not> bit (ld32 (mem ((hi_sleep env 1 ^^ k) s)) (qh_element_link_pointer (uhci_qh_at qhs q))) 0) \<and>
    (\<exists>f d. (hi_sleep env 1 ^^ n) s = s\<lparr>mem := uhci_done f (fst answer) (uhci_qh_at qhs q) as ps (mem s), usb_hw := (usb_hw s)\<lparr>hci_dev := d\<rparr>\<rparr> \<and> view d = snd answer)"
  using assms unfolding uhci_hc_def by blast

fun all_apart :: "(addr \<times> nat) list \<Rightarrow> bool" where
  "all_apart [] \<longleftrightarrow> True"
| "all_apart ((a, n) # rs) \<longleftrightarrow> fits a n \<and> (\<forall>(b, k)\<in>set rs. apart a n b k) \<and> all_apart rs"

text \<open>The driver between transfers: its structures are apart from each other and from the buffer.\<close>

definition uhci_ready :: "addr \<Rightarrow> addr \<Rightarrow> addr \<Rightarrow> addr \<Rightarrow> addr \<Rightarrow> addr \<Rightarrow> nat \<Rightarrow> mem \<Rightarrow> bool" where
  "uhci_ready uhci frames qhs tds setup data n m \<longleftrightarrow>
     all_apart [(uhci, 20), (frames, 4096), (qhs, 4096), (tds, 32768), (data, n)] \<and> all_apart [(setup, 8), (qhs, 4096), (tds, 32768)] \<and>
     tds \<noteq> 0 \<and> qhs \<noteq> 0 \<and> 16 dvd unat tds \<and> uh_tds m uhci = tds \<and> uh_qhs m uhci = qhs \<and> uhci_schedule frames qhs 256 m"

subsection \<open>The data received\<close>

lemma scatter_pieces:
  assumes "length bs = n" "n \<le> 2 ^ 32" "0 < packet"
  shows "k \<le> packet_count packet n \<Longrightarrow>
    scatter (map (\<lambda>j. (buf + of_nat (packet * j), min packet (n - packet * j))) [k..<packet_count packet n]) (drop (packet * k) bs) m =
    mem_put m (buf + of_nat (packet * k)) (drop (packet * k) bs)"
proof (induction "packet_count packet n - k" arbitrary: k m)
  case 0
  then have "n \<le> packet * k" using packet_count_less [OF assms(3), of k n] by simp
  then show ?case using 0 assms(1) by simp
next
  case (Suc d)
  let ?r = "drop (packet * k) bs" and ?c = "min packet (n - packet * k)"
  have k: "k < packet_count packet n" using Suc(2) by simp
  have sp: "[k..<packet_count packet n] = k # [Suc k..<packet_count packet n]" using k by (simp add: upt_conv_Cons)
  have c: "length ?r = n - packet * k" using assms(1) by simp
  have IH: "scatter (map (\<lambda>j. (buf + of_nat (packet * j), min packet (n - packet * j))) [Suc k..<packet_count packet n]) (drop (packet * Suc k) bs) m' =
      mem_put m' (buf + of_nat (packet * Suc k)) (drop (packet * Suc k) bs)" for m'
    using Suc(1) [of "Suc k"] Suc(2) k by simp
  show ?case
  proof (cases "n - packet * k \<le> packet")
    case True
    then have "drop (packet * Suc k) bs = []" "take ?c ?r = ?r" "drop ?c ?r = []" using assms(1) by simp_all
    then show ?thesis unfolding sp list.map scatter.simps using IH [of "mem_put m (buf + of_nat (packet * k)) ?r"] by simp
  next
    case False
    then have cp: "?c = packet" "length (take ?c ?r) = packet" using c by simp_all
    have dr: "drop ?c ?r = drop (packet * Suc k) bs" unfolding cp(1) by (simp add: add.commute)
    have ad: "buf + of_nat (packet * Suc k) = buf + of_nat (packet * k) + of_nat (length (take ?c ?r))" unfolding cp(2) by (simp add: algebra_simps)
    have "length (take ?c ?r) + length (drop ?c ?r) \<le> 2 ^ 32" using assms(1,2) by simp
    then show ?thesis unfolding sp list.map scatter.simps dr IH ad unfolding dr [symmetric] by (simp only: mem_put_append append_take_drop_id)
  qed
qed

lemma scatter_control:
  assumes "0 < packet" "n \<le> 2 ^ 32" "length bs = (if is_in then n else 0)"
  shows "scatter (map (\<lambda>(t, b). (b, tok_length t)) (filter (\<lambda>(t, b). tok_pid t = 0x69) (control_packets is_in address low packet setup data n))) bs m =
    (if is_in then mem_put m data bs else m)"
proof -
  let ?ds = "map (data_packet (if is_in then 0x69 else 0xe1) address low packet data n) [0..<packet_count packet n]"
  show ?thesis
  proof (cases is_in)
    case True
    have "filter (\<lambda>(t, b). tok_pid t = 0x69) ?ds = ?ds" using True by (intro filter_True) (auto simp: data_packet_def usb_tok_def)
    moreover have "(\<lambda>(t, b). (b, tok_length t)) \<circ> data_packet 0x69 address low packet data n = (\<lambda>j. (data + of_nat (packet * j), min packet (n - packet * j)))"
      by (rule ext) (simp add: data_packet_def usb_tok_def)
    ultimately show ?thesis using True scatter_pieces [OF _ assms(2,1), of bs 0 data m] assms(3)
      by (simp add: control_packets_def usb_tok_def)
  next
    case False
    have "filter (\<lambda>(t, b). tok_pid t = 0x69) ?ds = []" using False by (intro filter_False) (auto simp: data_packet_def usb_tok_def)
    then show ?thesis using False assms(3) by (simp add: control_packets_def usb_tok_def)
  qed
qed

text \<open>The status words written.\<close>

lemma fold_status_frame:
  "\<forall>a\<in>set as. fits (td_control_status a) 4 \<and> off_range (td_control_status a) 4 x \<Longrightarrow>
   fold (\<lambda>a m. st32 m (td_control_status a) (f a)) as m x = m x"
  by (induction as arbitrary: m) (simp_all add: st_frame)

subsection \<open>Polling\<close>

lemma timeout_polls:
  assumes "n \<le> N" "\<forall>k<n. \<not> bit (ld32 (mem ((hi_sleep env 1 ^^ k) s)) (qh_element_link_pointer qh)) 0"
    "bl_uhci_transfer_finished qh (mem ((hi_sleep env 1 ^^ n) s)) = Some (BL_STATUS_SUCCESS, m')"
  shows "uhci_timeout_loop env qh (Suc N) s = Some (BL_STATUS_SUCCESS, ((hi_sleep env 1 ^^ n) s)\<lparr>mem := m'\<rparr>)"
  using assms
proof (induction n arbitrary: s N)
  case 0
  then show ?case by simp
next
  case (Suc n)
  obtain N' where N': "N = Suc N'" using Suc.prems(1) by (cases N) auto
  have nf: "\<not> bit (ld32 (mem s) (qh_element_link_pointer qh)) 0" using Suc.prems(2) by (metis funpow_0 zero_less_Suc)
  then have "bl_uhci_transfer_finished qh (mem s) = Some (BL_STATUS_USB_ACTION_NOT_FINISHED, mem s)"
    by (simp add: bl_uhci_transfer_finished_def BL_UHCI_QH_ELEMENT_LINK_POINTER_T_def and_one_eq bit_0 even_iff_mod_2_eq_zero [symmetric])
  then have "uhci_timeout_loop env qh (Suc N) s = uhci_timeout_loop env qh (Suc N') (hi_sleep env 1 s)"
    unfolding N' by (subst uhci_timeout_loop.simps(2)) (simp add: failed_def)
  moreover have "uhci_timeout_loop env qh (Suc N') (hi_sleep env 1 s) = Some (BL_STATUS_SUCCESS, ((hi_sleep env 1 ^^ n) (hi_sleep env 1 s))\<lparr>mem := m'\<rparr>)"
  proof (rule Suc.IH)
    show "\<forall>k<n. \<not> bit (ld32 (mem ((hi_sleep env 1 ^^ k) (hi_sleep env 1 s))) (qh_element_link_pointer qh)) 0"
      using Suc.prems(2) by (metis Suc_mono funpow_Suc_right o_apply)
  qed (use Suc.prems N' in \<open>simp_all add: funpow_Suc_right del: funpow.simps(2)\<close>)
  ultimately show ?case by (simp add: funpow_Suc_right del: funpow.simps(2))
qed

lemma qh_words:
  assumes "fits qhs 4096" "i < 256" "qh = uhci_qh_at qhs i"
  shows "unat qh = unat qhs + 16 * i" "unat (qh + 4) = unat qhs + 16 * i + 4" "unat (qh + 8) = unat qhs + 16 * i + 8"
    "unat (qh + 12) = unat qhs + 16 * i + 12" "unat qh + 16 \<le> 2 ^ 32" "unat qhs + 16 * i + 16 \<le> unat qhs + 4096"
  using uhci_qh_unat [OF assms(1,2)] uhci_qh_unat(2) [OF assms(1,2), of 4] uhci_qh_unat(2) [OF assms(1,2), of 8]
    uhci_qh_unat(2) [OF assms(1,2), of 12] assms by (simp_all add: fits_def)

text \<open>The schedule depends on the frame list and on the words of the queue heads.\<close>

lemma schedule_same:
  assumes fit: "fits frames 4096" "fits qhs 4096" and s: "uhci_schedule frames qhs q m"
    and f: "\<forall>x. \<not> off_range frames 4096 x \<longrightarrow> m' x = m x"
    and l: "\<forall>i<256. ld32 m' (uhci_qh_at qhs i) = ld32 m (uhci_qh_at qhs i)"
    and e: "\<forall>i<256. i \<noteq> q' \<longrightarrow> bit (ld32 m' (qh_element_link_pointer (uhci_qh_at qhs i))) 0"
  shows "uhci_schedule frames qhs q' m'"
proof -
  have "ld32 m' (frames + of_nat (4 * i)) = ld32 m (frames + of_nat (4 * i))" if "i < 1024" for i
  proof -
    have "unat (frames + of_nat (4 * i)) = unat frames + 4 * i" using fit(1) that by (intro unat_add_lt) (simp add: fits_def)
    then show ?thesis using fit(1) that f by (intro ld_same(2)) (auto simp: fits_def off_range_def)
  qed
  then show ?thesis using s l e by (simp add: uhci_schedule_def)
qed

text \<open>The descriptors in a chain are not touched from outside the pool.\<close>

lemma built_same:
  assumes "fits tds 32768" "uhci_built tds m0 m is ps" "\<forall>x. \<not> off_range tds 32768 x \<longrightarrow> m' x = m x"
  shows "uhci_chain m' (map (uhci_td_at tds) is)" "\<forall>i\<in>set is. bit (ld32 m' (td_control_status (uhci_td_at tds i))) 23"
    "map (uhci_packet m') (map (uhci_td_at tds) is) = ps" "\<forall>i<1024. uhci_td_flag tds m' i = (if i \<in> set is then 1 else uhci_td_flag tds m0 i)"
proof -
  have w: "ld32 m' (uhci_td_at tds i) = ld32 m (uhci_td_at tds i) \<and> uhci_packet m' (uhci_td_at tds i) = uhci_packet m (uhci_td_at tds i) \<and>
      ld32 m' (td_control_status (uhci_td_at tds i)) = ld32 m (td_control_status (uhci_td_at tds i)) \<and> uhci_td_flag tds m' i = uhci_td_flag tds m i" if "i < 1024" for i
    using td_same [OF assms(1) that, of m' m] td_inside_pool [OF assms(1) that] assms(3) by blast
  note d = assms(2) [unfolded uhci_built_def uhci_chain_def]
  have "last is \<in> set is" using d by simp
  then have "last is < 1024" using d by blast
  moreover have "is ! i < 1024" if "i < length is" for i using d that by auto
  ultimately show "uhci_chain m' (map (uhci_td_at tds) is)" using d w by (auto simp: uhci_chain_def last_map)
  show "\<forall>i\<in>set is. bit (ld32 m' (td_control_status (uhci_td_at tds i))) 23" using d w by auto
  show "\<forall>i<1024. uhci_td_flag tds m' i = (if i \<in> set is then 1 else uhci_td_flag tds m0 i)" using d w by simp
  have "map (\<lambda>i. uhci_packet m' (uhci_td_at tds i)) is = map (\<lambda>i. uhci_packet m (uhci_td_at tds i)) is" using d w by (intro map_cong refl) simp
  then show "map (uhci_packet m') (map (uhci_td_at tds) is) = ps" using d by (simp add: comp_def)
qed

lemma transactions_same:
  assumes "mem_get m' setup 8 = mem_get m setup 8" "mem_get m' data n = mem_get m data n" "0 < packet"
  shows "transactions m' (control_packets is_in address low packet setup data n) = transactions m (control_packets is_in address low packet setup data n)"
proof -
  have "mem_get m' (data + of_nat (packet * k)) (min packet (n - packet * k)) = mem_get m (data + of_nat (packet * k)) (min packet (n - packet * k))"
    if "k < packet_count packet n" for k
  proof -
    have kn: "packet * k < n" using that packet_count_less [OF assms(3)] by simp
    then have "mem_get m' (data + of_nat (packet * k)) (n - packet * k) = mem_get m (data + of_nat (packet * k)) (n - packet * k)"
      using assms(2) mem_get_add [of m' data "packet * k" "n - packet * k"] mem_get_add [of m data "packet * k" "n - packet * k"] by simp
    then show ?thesis by (metis min.cobounded2 take_mem_get)
  qed
  then show ?thesis using assms(1) by (simp add: transactions_def control_packets_def data_packet_def usb_tok_def)
qed

text \<open>The memory after the queue is carried out.\<close>

lemma done_ok:
  assumes fit: "fits tds 32768" "fits qhs 4096" "q < 256" and is1: "\<forall>i\<in>set is. i < 1024"
    and ap: "apart qhs 4096 tds 32768" "apart tds 32768 data n" "apart qhs 4096 data n" and dat: "fits data n"
    and sc: "scatter (map (\<lambda>(t, b). (b, tok_length t)) (filter (\<lambda>(t, b). tok_pid t = 0x69) ps)) bs = (\<lambda>m. if is_in then mem_put m data bs else m)"
    and len: "length bs = (if is_in then n else 0)"
    and m': "m' = uhci_done f bs (uhci_qh_at qhs q) (map (uhci_td_at tds) is) ps m"
  shows "ld32 m' (uhci_qh_at qhs q + 4) = 1" "mem_get m' data n = (if is_in then bs else mem_get m data n)"
    "off_range (uhci_qh_at qhs q + 4) 4 x \<Longrightarrow> off_range data n x \<Longrightarrow> (\<forall>i\<in>set is. off_range (uhci_td_at tds i + 4) 4 x) \<Longrightarrow> m' x = m x"
proof -
  let ?q = "uhci_qh_at qhs q"
  define b where "b = fold (\<lambda>a m. st32 m (td_control_status a) (f a)) (map (uhci_td_at tds) is) (st32 m (?q + 4) 1)"
  note u = qh_words [OF fit(2,3) refl]
  have fq: "fits (?q + 4) 4" using u fit(2) by (simp add: fits_def)
  have td: "fits (td_control_status (uhci_td_at tds i)) 4" "unat (td_control_status (uhci_td_at tds i)) = unat tds + 32 * i + 4" if "i \<in> set is" for i
    using td_words [OF fit(1) _ refl, of i] is1 that by (simp_all add: td_control_status_def fits_def)
  have m'b: "m' = (if is_in then mem_put b data bs else b)"
    unfolding m' uhci_done_def sc b_def by (simp add: qh_element_link_pointer_def)
  have fb: "b x = st32 m (?q + 4) 1 x" if "\<forall>i\<in>set is. off_range (uhci_td_at tds i + 4) 4 x" for x
    unfolding b_def using that td by (intro fold_status_frame) (auto simp: td_control_status_def)
  have m'out: "m' x = b x" if "off_range data n x" for x
    unfolding m'b using that mem_put_frame [of data bs x] dat len by simp
  have pool: "\<forall>i\<in>set is. off_range (uhci_td_at tds i + 4) 4 x" if "off_range tds 32768 x" for x
  proof
    fix i assume "i \<in> set is"
    then show "off_range (uhci_td_at tds i + 4) 4 x" using that td(2) [of i] is1 by (auto simp: off_range_def td_control_status_def)
  qed
  show "m' x = m x" if "off_range (?q + 4) 4 x" "off_range data n x" "\<forall>i\<in>set is. off_range (uhci_td_at tds i + 4) 4 x" for x
    using m'out [OF that(2)] fb [OF that(3)] st_frame(2) [OF fq that(1)] by simp
  have qt: "off_range tds 32768 x" "off_range data n x" if "\<not> off_range qhs 4096 x" for x
    using that ap by (auto simp: off_range_def apart_def)
  have "ld32 m' (?q + 4) = ld32 (st32 m (?q + 4) 1) (?q + 4)"
  proof (rule ld_same(2) [OF fq], intro allI impI)
    fix x assume "\<not> off_range (?q + 4) 4 x"
    then have "\<not> off_range qhs 4096 x" using u by (auto simp: off_range_def)
    then show "m' x = st32 m (?q + 4) 1 x" using m'out fb pool qt by auto
  qed
  then show "ld32 m' (?q + 4) = 1" by (simp add: ld_st_same)
  show "mem_get m' data n = (if is_in then bs else mem_get m data n)"
  proof (cases is_in)
    case True
    then show ?thesis unfolding m'b using len dat by (simp add: mem_get_put_same fits_def)
  next
    case False
    have "b x = m x" if "\<not> off_range data n x" for x
    proof -
      have "off_range tds 32768 x" "off_range qhs 4096 x" using that ap by (auto simp: off_range_def apart_def)
      then show ?thesis using fb pool st_frame(2) [OF fq, of x] u by (auto simp: off_range_def)
    qed
    then show ?thesis unfolding m'b using False mem_get_same [OF dat, of b m] by (auto simp: off_range_def)
  qed
qed

text \<open>The queue head taken, and the chain put into it.\<close>

lemma start_ok:
  assumes fit: "fits tds 32768" "fits qhs 4096" "q < 256" and ap: "apart qhs 4096 tds 32768"
    and m2: "\<forall>x. off_range tds 32768 x \<longrightarrow> m2 x = st32 m (uhci_qh_at qhs q + 8) 1 x"
    and m3: "m3 = uhci_start (uhci_qh_at qhs q) a m2"
  shows "\<And>x. off_range tds 32768 x \<Longrightarrow> off_range (uhci_qh_at qhs q + 4) 12 x \<Longrightarrow> m3 x = m x"
    "\<And>x. \<not> off_range tds 32768 x \<Longrightarrow> m3 x = m2 x"
    "ld32 m3 (uhci_qh_at qhs q + 4) = a" "ld32 m3 (uhci_qh_at qhs q + 12) = a" "ld32 m3 (uhci_qh_at qhs q + 8) = 1"
proof -
  let ?q = "uhci_qh_at qhs q"
  note u = qh_words [OF fit(2,3) refl]
  have f: "fits (?q + 4) 4" "fits (?q + 8) 4" "fits (?q + 12) 4" using u by (simp_all add: fits_def)
  have e: "m3 = st32 (st32 m2 (?q + 12) a) (?q + 4) a" unfolding m3 uhci_start_def qh_original_element_def qh_element_link_pointer_def ..
  show "m3 x = m x" if "off_range tds 32768 x" "off_range (?q + 4) 12 x" for x
    unfolding e using that u m2 by (auto simp: st_frame f off_range_def)
  show "m3 x = m2 x" if "\<not> off_range tds 32768 x" for x
    unfolding e using that u ap by (auto simp: st_frame f off_range_def apart_def)
  show "ld32 m3 (?q + 4) = a" "ld32 m3 (?q + 12) = a" unfolding e using u f by (simp_all add: ld_st_same ld32_store_other)
  have "ld32 m3 (?q + 8) = ld32 m2 (?q + 8)" unfolding e using u f by (simp add: ld32_store_other)
  also have "\<dots> = ld32 (st32 m (?q + 8) 1) (?q + 8)"
    using u ap m2 by (intro ld_same(2) [OF f(2)]) (auto simp: off_range_def apart_def)
  finally show "ld32 m3 (?q + 8) = 1" by (simp add: ld_st_same)
qed

lemmas qh_word_off = uhci_qh.word_off [folded uhci_qh_at_def, unfolded uhci_sizes, simplified]
lemmas qh_word_fits = uhci_qh.word_fits [folded uhci_qh_at_def, unfolded uhci_sizes, simplified]
lemmas td_word_off = uhci_td.word_off [folded uhci_td_at_def, unfolded uhci_sizes, simplified]
lemmas td_word_fits = uhci_td.word_fits [folded uhci_td_at_def, unfolded uhci_sizes, simplified]

lemma ready_facts:
  assumes "uhci_ready uhci frames qhs tds setup data n m"
  shows "fits uhci 20" "fits frames 4096" "fits qhs 4096" "fits tds 32768" "fits data n" "fits setup 8" "apart uhci 20 frames 4096" "apart uhci 20 qhs 4096"
    "apart uhci 20 tds 32768" "apart uhci 20 data n" "apart frames 4096 qhs 4096" "apart frames 4096 tds 32768" "apart frames 4096 data n"
    "apart qhs 4096 tds 32768" "apart qhs 4096 data n" "apart tds 32768 data n" "apart setup 8 qhs 4096" "apart setup 8 tds 32768"
    "tds \<noteq> 0" "qhs \<noteq> 0" "16 dvd unat tds" "uh_tds m uhci = tds" "uh_qhs m uhci = qhs" "uhci_schedule frames qhs 256 m"
  using assms by (simp_all add: uhci_ready_def)

text \<open>The pools and the schedule are as before when the memory differs in the buffer and in words that do not count.\<close>

lemma ready_same:
  assumes r: "uhci_ready uhci frames qhs tds setup data n m"
    and out: "\<And>x. off_range tds 32768 x \<Longrightarrow> off_range qhs 4096 x \<Longrightarrow> off_range data n x \<Longrightarrow> m' x = m x"
    and l: "\<forall>i<256. ld32 m' (uhci_qh_at qhs i) = ld32 m (uhci_qh_at qhs i)"
    and e: "\<forall>i<256. bit (ld32 m' (qh_element_link_pointer (uhci_qh_at qhs i))) 0"
  shows "uhci_ready uhci frames qhs tds setup data n m'"
proof -
  note f = ready_facts [OF r]
  have u: "unat (uhci + 8) = unat uhci + 8" "unat (uhci + 12) = unat uhci + 12"
    using unat_add_lt [of uhci 8] unat_add_lt [of uhci 12] f(1) by (simp_all add: fits_def)
  have "uh_tds m' uhci = uh_tds m uhci" "uh_qhs m' uhci = uh_qhs m uhci" unfolding uh_tds_def uh_qhs_def
    by (rule ld_same(2); use u f(1,8,9,10) out in \<open>auto simp: fits_def off_range_def apart_def\<close>)+
  moreover have "uhci_schedule frames qhs 256 m'"
    by (rule schedule_same [OF f(2,3,24)]) (use l e out f(11-13) in \<open>auto simp: off_range_def apart_def\<close>)
  ultimately show ?thesis using r by (simp add: uhci_ready_def)
qed

text \<open>A chain in a queue of the schedule, ready for the controller; the rest of the memory is as before.\<close>

definition uhci_prepared :: "addr \<Rightarrow> addr \<Rightarrow> addr \<Rightarrow> mem \<Rightarrow> nat \<Rightarrow> nat list \<Rightarrow> (usb_token \<times> addr) list \<Rightarrow> mem \<Rightarrow> bool" where
  "uhci_prepared frames qhs tds m q is ps m' \<longleftrightarrow> q < 256 \<and> uhci_qh_flag qhs m q = 0 \<and> is \<noteq> [] \<and> distinct is \<and>
     (\<forall>i\<in>set is. i < 1024 \<and> uhci_td_flag tds m i = 0) \<and> uhci_chain m' (map (uhci_td_at tds) is) \<and>
     (\<forall>i\<in>set is. bit (ld32 m' (td_control_status (uhci_td_at tds i))) 23) \<and> map (uhci_packet m') (map (uhci_td_at tds) is) = ps \<and>
     (\<forall>i<1024. uhci_td_flag tds m' i = (if i \<in> set is then 1 else uhci_td_flag tds m i)) \<and> uhci_schedule frames qhs q m' \<and>
     ld32 m' (uhci_qh_at qhs q + 4) = uhci_td_at tds (hd is) \<and> ld32 m' (uhci_qh_at qhs q + 12) = uhci_td_at tds (hd is) \<and>
     (\<forall>x. off_range tds 32768 x \<longrightarrow> off_range qhs 4096 x \<longrightarrow> m' x = m x) \<and>
     (\<forall>i<256. \<forall>k\<le>12. i \<noteq> q \<or> k = 0 \<longrightarrow> ld32 m' (uhci_qh_at qhs i + of_nat k) = ld32 m (uhci_qh_at qhs i + of_nat k))"

lemma control_prepared:
  assumes r: "uhci_ready uhci frames qhs tds setup data (unat len) (mem s)" "hc_data (mem s) hc = uhci"
    and pk: "packet = (if packet_size = 0 then 8 else unat packet_size)" "packet \<le> 1280" and ad: "unat address < 128" and ln: "unat len < 2 ^ 31"
    and room: "\<exists>i<256. uhci_qh_flag qhs (mem s) i = 0" "packet_count packet (unat len) + 2 \<le> card (uhci_free tds (mem s))"
    and tr: "is_in = bit (mem s setup) 7"
  shows "\<exists>q is m'. uhci_prepared frames qhs tds (mem s) q is (control_packets is_in (unat address) (speed = BL_USB_LOW_SPEED) packet setup data (unat len)) m' \<and>
    bl_uhci_control_transfer env hc packet_size address speed setup data len s = uhci_timeout_loop env (uhci_qh_at qhs q) (Suc 98) (s\<lparr>mem := m'\<rparr>)"
proof -
  let ?n = "unat len" and ?low = "speed = BL_USB_LOW_SPEED"
  let ?ps = "control_packets is_in (unat address) ?low packet setup data ?n"
  note f = ready_facts [OF r(1)]
  have pk0: "0 < packet" using pk(1) by (auto simp: unat_gt_0)
  obtain q where q: "q < 256" "uhci_qh_flag qhs (mem s) q = 0" "uhci_qh_at qhs q \<noteq> 0"
      "bl_uhci_alloc_qh uhci (mem s) = (uhci_qh_at qhs q, st32 (mem s) (uhci_qh_at qhs q + 8) 1)"
    using uhci_qh.alloc_takes [of qhs "mem s"] f(3,20,23) room(1) unfolding uhci_flags bl_uhci_alloc_qh_def
    by (auto simp: uhci_sizes uhci_qh_at_def qh_used_def)
  let ?q = "uhci_qh_at qhs q"
  note u = qh_words [OF f(3) q(1) refl]
  define m1 where "m1 = st32 (mem s) (?q + 8) 1"
  have fq: "fits (?q + 4) 4" "fits (?q + 8) 4" "fits (?q + 12) 4" using u by (simp_all add: fits_def)
  have m1: "m1 x = mem s x" if "off_range qhs 4096 x" for x
    unfolding m1_def using that u by (intro st_frame(2) [OF fq(2)]) (auto simp: off_range_def)
  have td1: "uhci_td_flag tds m1 i = uhci_td_flag tds (mem s) i" if "i < 1024" for i
  proof (rule td_same(4) [OF f(4) that], intro allI impI)
    fix x assume "\<not> off_range (uhci_td_at tds i) 20 x"
    then have "\<not> off_range tds 32768 x" using td_inside_pool [OF f(4) that] by blast
    then show "m1 x = mem s x" using m1 f(14) by (auto simp: off_range_def apart_def)
  qed
  have free1: "uhci_free tds m1 = uhci_free tds (mem s)" using td1 by (auto simp: uhci_free_def)
  have tds1: "uh_tds m1 uhci = tds"
  proof -
    have "unat (uhci + 8) = unat uhci + 8" using unat_add_lt [of uhci 8] f(1) by (simp add: fits_def)
    then have "uh_tds m1 uhci = uh_tds (mem s) uhci"
      unfolding uh_tds_def using f(1,8) m1 by (intro ld_same(2)) (auto simp: fits_def apart_def off_range_def)
    then show ?thesis using f(22) by simp
  qed
  have set1: "m1 setup = mem s setup" "off_range tds 32768 setup" using m1 f(6,17,18) by (auto simp: off_range_def apart_def)
  have pw: "of_nat packet = (if packet_size = 0 then 8 else packet_size)" "unat (ucast address :: u8) = unat address"
    using pk(1) ad by (simp_all add: unsigned_ucast_eq take_bit_eq_mod)
  obtain "is" m2 where b: "uhci_control_tds uhci speed (ucast address) (of_nat packet) setup data len m1 = Some (uhci_td_at tds (hd is), m2)"
      "uhci_td_at tds (hd is) \<noteq> 0" "uhci_built tds m1 m2 is ?ps"
    using control_tds_ok [OF f(4,19,1,9) tds1 _ pk0 pk(2) ln set1(2), of "ucast address" speed data] room(2) ad pw(2) free1 set1(1) tr by auto
  note bd = b(3) [unfolded uhci_built_def uhci_chain_def]
  have ne: "is \<noteq> []" and is1: "\<forall>i\<in>set is. i < 1024" "distinct is" using bd by auto
  let ?as = "map (uhci_td_at tds) is"
  define m3 where "m3 = uhci_start ?q (hd ?as) m2"
  have hd_as: "hd ?as = uhci_td_at tds (hd is)" using ne by (simp add: list.map_sel)
  note st = start_ok [OF f(4,3) q(1) f(14), of m2 "mem s" m3 "hd ?as", folded m1_def, OF _ m3_def]
  have A: "m3 x = mem s x" if "off_range tds 32768 x" "off_range (?q + 4) 12 x" for x using st(1) bd that by blast
  have B: "\<forall>x. \<not> off_range tds 32768 x \<longrightarrow> m3 x = m2 x" and W: "ld32 m3 (?q + 4) = hd ?as" "ld32 m3 (?q + 12) = hd ?as" "ld32 m3 (?q + 8) = 1"
    using st bd by blast+
  have A': "m3 x = mem s x" if "off_range tds 32768 x" "off_range qhs 4096 x" for x using A that u by (auto simp: off_range_def)
  note bs = built_same [OF f(4) b(3) B]
  have word3: "ld32 m3 (uhci_qh_at qhs i + of_nat k) = ld32 (mem s) (uhci_qh_at qhs i + of_nat k)" if "i < 256" "k \<le> 12" "i \<noteq> q \<or> k = 0" for i k
  proof (rule ld_same(2) [OF qh_word_fits [OF f(3) that(1,2)]], intro allI impI)
    fix x assume "\<not> off_range (uhci_qh_at qhs i + of_nat k) 4 x"
    then have "off_range (?q + of_nat 4) 12 x" "\<not> off_range qhs 4096 x" using qh_word_off [OF f(3) that(1) q(1) _ that(2), of x 4 12] that(3) by auto
    then show "m3 x = mem s x" using A f(14) by (auto simp: off_range_def apart_def)
  qed
  have sch: "uhci_schedule frames qhs q m3"
  proof (rule schedule_same [OF f(2,3,24)])
    show "\<forall>x. \<not> off_range frames 4096 x \<longrightarrow> m3 x = mem s x" using A' f(11,12) by (auto simp: off_range_def apart_def)
    show "\<forall>i<256. i \<noteq> q \<longrightarrow> bit (ld32 m3 (qh_element_link_pointer (uhci_qh_at qhs i))) 0"
      using word3 [of _ 4] f(24) by (simp add: uhci_schedule_def qh_element_link_pointer_def)
    show "\<forall>i<256. ld32 m3 (uhci_qh_at qhs i) = ld32 (mem s) (uhci_qh_at qhs i)" using word3 [of _ 0] by simp
  qed
  have run: "bl_uhci_control_transfer env hc packet_size address speed setup data len s = uhci_timeout_loop env ?q (Suc 98) (s\<lparr>mem := m3\<rparr>)"
    using q(3,4) b(1,2) pw(1) r(2)
    by (simp add: bl_uhci_control_transfer_def Let_def m1_def [symmetric] bl_uhci_check_transfer_timeout_def m3_def hd_as del: uhci_timeout_loop.simps)
  have "\<forall>i\<in>set is. i < 1024 \<and> uhci_td_flag tds (mem s) i = 0" using bd td1 by auto
  moreover have "\<forall>i<1024. uhci_td_flag tds m3 i = (if i \<in> set is then 1 else uhci_td_flag tds (mem s) i)" using bs(4) td1 by auto
  ultimately have "uhci_prepared frames qhs tds (mem s) q is ?ps m3"
    unfolding uhci_prepared_def using q(1,2) ne is1(2) bs(1-3) sch W hd_as A' word3 by auto
  then show ?thesis using run by blast
qed

text \<open>The queue carried out: only the status words, the queue and the buffer change.\<close>

lemma carried_keeps:
  assumes r: "uhci_ready uhci frames qhs tds setup data n m0" and q: "q < 256" and is1: "\<forall>i\<in>set is. i < 1024"
    and fr: "\<forall>x. off_range (uhci_qh_at qhs q + 4) 4 x \<and> off_range data n x \<and> (\<forall>i\<in>set is. off_range (uhci_td_at tds i + 4) 4 x) \<longrightarrow> m4 x = m3 x"
  shows "i < 1024 \<Longrightarrow> ld32 m4 (uhci_td_at tds i) = ld32 m3 (uhci_td_at tds i)" "i < 1024 \<Longrightarrow> uhci_td_flag tds m4 i = uhci_td_flag tds m3 i"
    "j < 256 \<Longrightarrow> k \<le> 12 \<Longrightarrow> j \<noteq> q \<or> k = 0 \<or> 8 \<le> k \<Longrightarrow> ld32 m4 (uhci_qh_at qhs j + of_nat k) = ld32 m3 (uhci_qh_at qhs j + of_nat k)"
proof -
  let ?q = "uhci_qh_at qhs q"
  note f = ready_facts [OF r]
  have dn: "m4 x = m3 x" if "off_range (?q + 4) 4 x" "off_range data n x" "\<forall>i\<in>set is. off_range (uhci_td_at tds i + 4) 4 x" for x
    using fr that by blast
  note u = qh_words [OF f(3) q refl]
  have link4: "ld32 m4 (uhci_td_at tds i) = ld32 m3 (uhci_td_at tds i)" "uhci_td_flag tds m4 i = uhci_td_flag tds m3 i" if "i < 1024" for i
  proof -
    have w: "ld32 m4 (uhci_td_at tds i + of_nat k) = ld32 m3 (uhci_td_at tds i + of_nat k)" if k: "k \<le> 28" "k = 0 \<or> 8 \<le> k" for k
    proof (rule ld_same(2) [OF td_word_fits [OF f(4) \<open>i < 1024\<close> k(1)]], intro allI impI)
      fix x assume x: "\<not> off_range (uhci_td_at tds i + of_nat k) 4 x"
      have p: "\<not> off_range tds 32768 x" using td_word_off(2) [OF f(4) \<open>i < 1024\<close> \<open>i < 1024\<close> x k(1), of 4 4] k(2) by auto
      show "m4 x = m3 x"
      proof (rule dn)
        show "off_range (?q + 4) 4 x" "off_range data n x" using p u f(14,16) by (auto simp: off_range_def apart_def)
        show "\<forall>j\<in>set is. off_range (uhci_td_at tds j + 4) 4 x"
          using td_word_off(1) [OF f(4) \<open>i < 1024\<close> _ x k(1), of _ 4 4] k(2) is1 by auto
      qed
    qed
    show "ld32 m4 (uhci_td_at tds i) = ld32 m3 (uhci_td_at tds i)" "uhci_td_flag tds m4 i = uhci_td_flag tds m3 i"
      using w [of 0] w [of 16] by (simp_all add: uhci_td_flag_def td_used_def)
  qed
  have word4: "ld32 m4 (uhci_qh_at qhs i + of_nat k) = ld32 m3 (uhci_qh_at qhs i + of_nat k)" if "i < 256" "k \<le> 12" "i \<noteq> q \<or> k = 0 \<or> 8 \<le> k" for i k
  proof (rule ld_same(2) [OF qh_word_fits [OF f(3) that(1,2)]], intro allI impI)
    fix x assume "\<not> off_range (uhci_qh_at qhs i + of_nat k) 4 x"
    then have o: "off_range (?q + of_nat 4) 4 x" "\<not> off_range qhs 4096 x" using qh_word_off [OF f(3) that(1) q _ that(2), of x 4 4] that(3) by auto
    show "m4 x = m3 x"
    proof (rule dn)
      show "off_range data n x" using o(2) f(15) by (auto simp: off_range_def apart_def)
      show "\<forall>j\<in>set is. off_range (uhci_td_at tds j + 4) 4 x"
        using o(2) f(14) is1 td_words [OF f(4) _ refl] by (auto simp: off_range_def apart_def)
    qed (use o(1) in simp)
  qed
  show "i < 1024 \<Longrightarrow> ld32 m4 (uhci_td_at tds i) = ld32 m3 (uhci_td_at tds i)" "i < 1024 \<Longrightarrow> uhci_td_flag tds m4 i = uhci_td_flag tds m3 i"
    "j < 256 \<Longrightarrow> k \<le> 12 \<Longrightarrow> j \<noteq> q \<or> k = 0 \<or> 8 \<le> k \<Longrightarrow> ld32 m4 (uhci_qh_at qhs j + of_nat k) = ld32 m3 (uhci_qh_at qhs j + of_nat k)"
    using link4 word4 by blast+
qed

text \<open>The descriptors and the queue head returned.\<close>

lemma released:
  assumes r: "uhci_ready uhci frames qhs tds setup data n m0" and q: "q < 256" and is1: "\<forall>i\<in>set is. i < 1024" "distinct is" "is \<noteq> []"
    and m4: "ld32 m4 (uhci_qh_at qhs q + 4) = 1" "ld32 m4 (uhci_qh_at qhs q + 12) = uhci_td_at tds (hd is)" "uhci_chain m4 (map (uhci_td_at tds) is)"
  shows "\<exists>m6. bl_uhci_transfer_finished (uhci_qh_at qhs q) m4 = Some (BL_STATUS_SUCCESS, m6) \<and>
    (\<forall>x. off_range (uhci_qh_at qhs q + 8) 4 x \<longrightarrow> off_range tds 32768 x \<longrightarrow> m6 x = m4 x) \<and>
    (\<forall>i<256. \<forall>k\<le>12. i \<noteq> q \<or> k \<le> 4 \<or> k = 12 \<longrightarrow> ld32 m6 (uhci_qh_at qhs i + of_nat k) = ld32 m4 (uhci_qh_at qhs i + of_nat k)) \<and>
    uhci_qh_flag qhs m6 q = 0 \<and> (\<forall>i<1024. uhci_td_flag tds m6 i = (if i \<in> set is then 0 else uhci_td_flag tds m4 i))"
proof -
  let ?q = "uhci_qh_at qhs q"
  note f = ready_facts [OF r]
  note u = qh_words [OF f(3) q refl]
  have fq: "fits (?q + 8) 4" using u by (simp add: fits_def)
  obtain m5 where m5: "bl_uhci_free_td_list (uhci_td_at tds (hd is)) m4 = Some m5"
      "\<forall>x. (\<forall>i\<in>set is. off_range (td_used (uhci_td_at tds i)) 4 x) \<longrightarrow> m5 x = m4 x"
      "\<forall>i<1024. uhci_td_flag tds m5 i = (if i \<in> set is then 0 else uhci_td_flag tds m4 i)"
    using free_list_ok [OF f(4,21) is1(2,1) m4(3)] by blast
  define m6 where "m6 = st32 m5 (?q + 8) 0"
  have fin: "bl_uhci_transfer_finished ?q m4 = Some (BL_STATUS_SUCCESS, m6)"
    using m4(1,2) m5(1)
    by (simp add: bl_uhci_transfer_finished_def qh_element_link_pointer_def BL_UHCI_QH_ELEMENT_LINK_POINTER_def BL_UHCI_QH_ELEMENT_LINK_POINTER_T_def
        qh_original_element_def qh_used_def m6_def)
  have p6: "m6 x = m4 x" if "off_range (?q + 8) 4 x" "off_range tds 32768 x" for x
  proof -
    have "\<forall>i\<in>set is. off_range (td_used (uhci_td_at tds i)) 4 x"
      using that(2) is1(1) td_words [OF f(4) _ refl] by (auto simp: off_range_def td_used_def)
    then show ?thesis using m5(2) st_frame(2) [OF fq that(1)] by (simp add: m6_def)
  qed
  have q6: "ld32 m6 (uhci_qh_at qhs i + of_nat k) = ld32 m4 (uhci_qh_at qhs i + of_nat k)" if "i < 256" "k \<le> 12" "i \<noteq> q \<or> k \<le> 4 \<or> k = 12" for i k
  proof (rule ld_same(2) [OF qh_word_fits [OF f(3) that(1,2)]], intro allI impI)
    fix x assume "\<not> off_range (uhci_qh_at qhs i + of_nat k) 4 x"
    then have "off_range (?q + of_nat 8) 4 x" "\<not> off_range qhs 4096 x" using qh_word_off [OF f(3) that(1) q _ that(2), of x 8 4] that(3) by auto
    then show "m6 x = m4 x" using p6 f(14) by (auto simp: off_range_def apart_def)
  qed
  have td6: "uhci_td_flag tds m6 i = uhci_td_flag tds m5 i" if "i < 1024" for i
  proof (rule td_same(4) [OF f(4) that], intro allI impI)
    fix x assume "\<not> off_range (uhci_td_at tds i) 20 x"
    then have "\<not> off_range tds 32768 x" using td_inside_pool [OF f(4) that] by blast
    then show "m6 x = m5 x" unfolding m6_def using u f(14) by (intro st_frame(2) [OF fq]) (auto simp: off_range_def apart_def)
  qed
  have "uhci_qh_flag qhs m6 q = 0" by (simp add: uhci_qh_flag_def qh_used_def m6_def ld_st_same)
  then show ?thesis using fin p6 q6 td6 m5(3) by (intro exI [of _ m6]) auto
qed

lemma uhci_control_ok:
  assumes hc: "uhci_hc env frames qhs view dev" and r: "uhci_ready uhci frames qhs tds setup data (unat len) (mem s)" "hc_data (mem s) hc = uhci"
    and pk: "packet = (if packet_size = 0 then 8 else unat packet_size)" "packet \<le> 1280" and ad: "unat address < 128" and ln: "unat len < 2 ^ 31"
    and room: "\<exists>i<256. uhci_qh_flag qhs (mem s) i = 0" "packet_count packet (unat len) + 2 \<le> card (uhci_free tds (mem s))"
    and tr: "tr = transactions (mem s) (control_packets is_in (unat address) (speed = BL_USB_LOW_SPEED) packet setup data (unat len))"
      "is_in = bit (mem s setup) 7" "answer = dev tr (view (hci_dev (usb_hw s)))" "length (fst answer) = (if is_in then unat len else 0)"
  shows "\<exists>s'. bl_uhci_control_transfer env hc packet_size address speed setup data len s = Some (BL_STATUS_SUCCESS, s') \<and>
    view (hci_dev (usb_hw s')) = snd answer \<and> mem_get (mem s') data (unat len) = (if is_in then fst answer else mem_get (mem s) data (unat len)) \<and>
    uhci_ready uhci frames qhs tds setup data (unat len) (mem s') \<and>
    (\<forall>i<1024. uhci_td_flag tds (mem s') i = uhci_td_flag tds (mem s) i) \<and> (\<forall>i<256. uhci_qh_flag qhs (mem s') i = uhci_qh_flag qhs (mem s) i)"
proof -
  let ?n = "unat len" and ?low = "speed = BL_USB_LOW_SPEED"
  let ?ps = "control_packets is_in (unat address) ?low packet setup data ?n"
  note f = ready_facts [OF r(1)]
  have pk0: "0 < packet" using pk(1) by (auto simp: unat_gt_0)
  obtain q "is" m3 where pr: "uhci_prepared frames qhs tds (mem s) q is ?ps m3"
      "bl_uhci_control_transfer env hc packet_size address speed setup data len s = uhci_timeout_loop env (uhci_qh_at qhs q) (Suc 98) (s\<lparr>mem := m3\<rparr>)"
    using control_prepared [OF r pk ad ln room tr(2)] by blast
  note p = pr(1) [unfolded uhci_prepared_def]
  have q: "q < 256" and is1: "\<forall>i\<in>set is. i < 1024" "distinct is" and ne: "is \<noteq> []" and out3: "\<And>x. off_range tds 32768 x \<Longrightarrow> off_range qhs 4096 x \<Longrightarrow> m3 x = mem s x"
    and word3: "\<And>i k. i < 256 \<Longrightarrow> k \<le> 12 \<Longrightarrow> i \<noteq> q \<or> k = 0 \<Longrightarrow> ld32 m3 (uhci_qh_at qhs i + of_nat k) = ld32 (mem s) (uhci_qh_at qhs i + of_nat k)"
    using p by blast+
  let ?q = "uhci_qh_at qhs q" and ?as = "map (uhci_td_at tds) is"
  note u = qh_words [OF f(3) q refl]
  have dat3: "mem_get m3 data ?n = mem_get (mem s) data ?n" "mem_get m3 setup 8 = mem_get (mem s) setup 8"
    using f(5,6,15-18) out3 by (auto intro!: mem_get_same simp: off_range_def apart_def)
  define s3 where "s3 = s\<lparr>mem := m3\<rparr>"
  have tr3: "transactions (mem s3) ?ps = tr" using transactions_same [OF dat3(2,1) pk0] tr(1) by (simp add: s3_def)
  have ans: "dev tr (view (hci_dev (usb_hw s3))) = answer" using tr(3) by (simp add: s3_def)
  have hd_as: "hd ?as = uhci_td_at tds (hd is)" using ne by (simp add: list.map_sel)
  have short: "length ?as \<le> 1024" "\<forall>a\<in>set ?as. 16 dvd unat a"
  proof -
    have "card (set is) \<le> card {..<1024 :: nat}" using is1(1) by (intro card_mono) auto
    then show "length ?as \<le> 1024" using is1(2) by (simp add: distinct_card)
    show "\<forall>a\<in>set ?as. 16 dvd unat a" using is1(1) uhci_td_unat(1) [OF f(4)] f(21) by (auto simp: dvd_add)
  qed
  obtain k g d where k: "k \<le> 98" "\<forall>j<k. \<not> bit (ld32 (mem ((hi_sleep env 1 ^^ j) s3)) (qh_element_link_pointer ?q)) 0"
      "(hi_sleep env 1 ^^ k) s3 = s3\<lparr>mem := uhci_done g (fst answer) ?q ?as ?ps m3, usb_hw := (usb_hw s3)\<lparr>hci_dev := d\<rparr>\<rparr>" "view d = snd answer"
    using uhci_hcD [OF hc q, of s3 ?as ?ps answer] p short tr3 ans hd_as by (auto simp: s3_def qh_element_link_pointer_def)
  define m4 where "m4 = uhci_done g (fst answer) ?q ?as ?ps m3"
  have n32: "?n \<le> 2 ^ 32" using ln by simp
  note dn = done_ok [OF f(4,3) q is1(1) f(14,16,15,5) _ tr(4) m4_def, OF ext, OF scatter_control [OF pk0 n32 tr(4)]]
  have ca: "\<And>i. i < 1024 \<Longrightarrow> ld32 m4 (uhci_td_at tds i) = ld32 m3 (uhci_td_at tds i)" "\<And>i. i < 1024 \<Longrightarrow> uhci_td_flag tds m4 i = uhci_td_flag tds m3 i"
      "\<And>j k. j < 256 \<Longrightarrow> k \<le> 12 \<Longrightarrow> j \<noteq> q \<or> k = 0 \<or> 8 \<le> k \<Longrightarrow> ld32 m4 (uhci_qh_at qhs j + of_nat k) = ld32 m3 (uhci_qh_at qhs j + of_nat k)"
    using carried_keeps [OF r(1) q is1(1), of m4 m3] dn(3) by blast+
  have chain4: "uhci_chain m4 ?as"
  proof -
    have "is ! j < 1024" if "j < length is" for j using is1(1) that by simp
    moreover have "last is < 1024" using is1(1) ne by simp
    ultimately show ?thesis using p ca(1) ne by (simp add: uhci_chain_def last_map)
  qed
  have or4: "ld32 m4 (?q + 12) = uhci_td_at tds (hd is)" using ca(3) [of q 12] p q by simp
  obtain m6 where m6: "bl_uhci_transfer_finished ?q m4 = Some (BL_STATUS_SUCCESS, m6)" "\<And>x. off_range (?q + 8) 4 x \<Longrightarrow> off_range tds 32768 x \<Longrightarrow> m6 x = m4 x"
      "\<And>i k. i < 256 \<Longrightarrow> k \<le> 12 \<Longrightarrow> i \<noteq> q \<or> k \<le> 4 \<or> k = 12 \<Longrightarrow> ld32 m6 (uhci_qh_at qhs i + of_nat k) = ld32 m4 (uhci_qh_at qhs i + of_nat k)"
      "uhci_qh_flag qhs m6 q = 0" "\<forall>i<1024. uhci_td_flag tds m6 i = (if i \<in> set is then 0 else uhci_td_flag tds m4 i)"
    using released [OF r(1) q is1 ne dn(1) or4 chain4] by blast
  let ?s' = "s\<lparr>mem := m6, usb_hw := (usb_hw s)\<lparr>hci_dev := d\<rparr>\<rparr>"
  have run: "bl_uhci_control_transfer env hc packet_size address speed setup data len s = Some (BL_STATUS_SUCCESS, ?s')"
    using timeout_polls [OF k(1,2), of m6] m6(1) pr(2) unfolding k(3) by (simp add: s3_def m4_def [symmetric] del: uhci_timeout_loop.simps)
  have td6: "\<forall>i<1024. uhci_td_flag tds m6 i = uhci_td_flag tds (mem s) i" using m6(5) ca(2) p by simp
  have qf: "uhci_qh_flag qhs m6 i = uhci_qh_flag qhs (mem s) i" if "i < 256" for i
    using m6(4) p m6(3) [OF that, of 8] ca(3) [OF that, of 8] word3 [OF that, of 8] by (cases "i = q") (simp_all add: uhci_qh_flag_def qh_used_def)
  have dat6: "mem_get m6 data ?n = mem_get m4 data ?n"
    using f(5,15,16) u by (intro mem_get_same) (auto simp: off_range_def apart_def intro!: m6(2))
  have el: "bit (ld32 m6 (qh_element_link_pointer (uhci_qh_at qhs i))) 0" if "i < 256" for i
    using m6(3) [OF that, of 4] ca(3) [OF that, of 4] word3 [OF that, of 4] dn(1) f(24) that
    by (cases "i = q") (simp_all add: qh_element_link_pointer_def uhci_schedule_def bit_0)
  have rd: "uhci_ready uhci frames qhs tds setup data ?n m6"
  proof (rule ready_same [OF r(1)])
    fix x assume x: "off_range tds 32768 x" "off_range qhs 4096 x" "off_range data ?n x"
    have "m4 x = m3 x"
      using x u is1(1) td_words [OF f(4) _ refl] by (intro dn(3)) (auto simp: off_range_def)
    then show "m6 x = mem s x" using m6(2) out3 x u by (auto simp: off_range_def)
  qed (use m6(3) [of _ 0] ca(3) [of _ 0] word3 [of _ 0] el in simp_all)
  show ?thesis using run k(4) dat6 dn(2) dat3(1) rd td6 qf by (intro exI [of _ ?s']) simp
qed

subsection \<open>The schedule built by the initialisation\<close>

lemma frames_loop_ok:
  "fits frames 4096 \<Longrightarrow> i + n \<le> 1024 \<Longrightarrow>
   (\<forall>x. unat x < unat frames + 4 * i \<or> unat frames + 4 * (i + n) \<le> unat x \<longrightarrow> frames_loop frames v n i m x = m x) \<and>
   (\<forall>j. i \<le> j \<and> j < i + n \<longrightarrow> ld32 (frames_loop frames v n i m) (frames + of_nat (4 * j)) = v)"
proof (induction n arbitrary: i m)
  case (Suc n)
  have u: "unat (frames + of_nat (4 * j)) = unat frames + 4 * j" if "j < 1024" for j
    using Suc.prems(1) that by (intro unat_add_lt) (simp add: fits_def)
  define m1 where "m1 = st32 m (frames + of_nat (4 * i)) v"
  have f: "fits (frames + of_nat (4 * i)) 4" using u [of i] Suc.prems by (simp add: fits_def)
  note IH = Suc.IH [of "Suc i" m1, OF Suc.prems(1)]
  have out: "frames_loop frames v (Suc n) i m x = m x" if "unat x < unat frames + 4 * i \<or> unat frames + 4 * (i + Suc n) \<le> unat x" for x
  proof -
    have "frames_loop frames v n (Suc i) m1 x = m1 x" using IH Suc.prems(2) that by auto
    moreover have "m1 x = m x" unfolding m1_def using that u [of i] Suc.prems(2) by (intro st_frame(2) [OF f]) (auto simp: off_range_def)
    ultimately show ?thesis by (simp add: m1_def)
  qed
  have "ld32 (frames_loop frames v (Suc n) i m) (frames + of_nat (4 * j)) = v" if "i \<le> j" "j < i + Suc n" for j
  proof (cases "j = i")
    case True
    have "ld32 (frames_loop frames v n (Suc i) m1) (frames + of_nat (4 * i)) = ld32 m1 (frames + of_nat (4 * i))"
      using IH Suc.prems(2) u [of i] by (intro ld_same(2) [OF f]) (auto simp: off_range_def)
    then show ?thesis using True by (simp add: m1_def ld_st_same)
  next
    case False
    then show ?thesis using IH Suc.prems(2) that by (simp add: m1_def)
  qed
  then show ?case using out by blast
qed auto

lemma uhci_tds_loop_ok:
  "fits tds 32768 \<Longrightarrow> i + n \<le> 1024 \<Longrightarrow>
   (\<forall>x. unat x < unat tds + 32 * i \<or> unat tds + 32 * (i + n) \<le> unat x \<longrightarrow> uhci_tds_loop tds n i m x = m x) \<and>
   (\<forall>j. i \<le> j \<and> j < i + n \<longrightarrow> uhci_td_flag tds (uhci_tds_loop tds n i m) j = 0)"
proof (induction n arbitrary: i m)
  case (Suc n)
  have i: "i < 1024" using Suc.prems(2) by simp
  note u = td_words [OF Suc.prems(1) i refl]
  define m1 where "m1 = st32 m (td_used (uhci_td_at tds i)) 0"
  have f: "fits (td_used (uhci_td_at tds i)) 4" using u by (simp add: fits_def td_used_def)
  have step: "uhci_tds_loop tds (Suc n) i m = uhci_tds_loop tds n (Suc i) m1" by (simp add: m1_def uhci_td_at_def desc_at_def)
  note IH = Suc.IH [of "Suc i" m1, OF Suc.prems(1)]
  have out: "uhci_tds_loop tds (Suc n) i m x = m x" if "unat x < unat tds + 32 * i \<or> unat tds + 32 * (i + Suc n) \<le> unat x" for x
  proof -
    have "uhci_tds_loop tds n (Suc i) m1 x = m1 x" using IH Suc.prems(2) that by auto
    moreover have "m1 x = m x" unfolding m1_def using that u by (intro st_frame(2) [OF f]) (auto simp: off_range_def td_used_def)
    ultimately show ?thesis by (simp only: step)
  qed
  have "uhci_td_flag tds (uhci_tds_loop tds (Suc n) i m) j = 0" if "i \<le> j" "j < i + Suc n" for j
  proof (cases "j = i")
    case True
    have "uhci_td_flag tds (uhci_tds_loop tds n (Suc i) m1) i = uhci_td_flag tds m1 i" unfolding uhci_td_flag_def
      using IH Suc.prems(2) u by (intro ld_same(2) [OF f]) (auto simp: off_range_def td_used_def)
    then show ?thesis unfolding step using True by (simp add: m1_def uhci_td_flag_def ld_st_same)
  next
    case False
    then show ?thesis unfolding step using IH Suc.prems(2) that by simp
  qed
  then show ?case using out by blast
qed auto

lemma uhci_qhs_loop_ok:
  "fits qhs 4096 \<Longrightarrow> i + n \<le> 255 \<Longrightarrow>
   (\<forall>x. unat x < unat qhs + 16 * i \<or> unat qhs + 16 * (i + n) \<le> unat x \<longrightarrow> uhci_qhs_loop qhs n i m x = m x) \<and>
   (\<forall>j. i \<le> j \<and> j < i + n \<longrightarrow> ld32 (uhci_qhs_loop qhs n i m) (uhci_qh_at qhs j) = uhci_qh_at qhs (Suc j) OR 2 \<and>
      ld32 (uhci_qhs_loop qhs n i m) (uhci_qh_at qhs j + 4) = 1 \<and> ld32 (uhci_qhs_loop qhs n i m) (uhci_qh_at qhs j + 8) = 0)"
proof (induction n arbitrary: i m)
  case (Suc n)
  let ?q = "uhci_qh_at qhs i"
  have i: "i < 256" using Suc.prems(2) by simp
  note u = qh_words [OF Suc.prems(1) i refl]
  define m1 where "m1 = st32 (st32 (st32 m ?q (uhci_qh_at qhs (Suc i) OR 2)) (?q + 4) 1) (?q + 8) 0"
  have f: "fits ?q 4" "fits (?q + 4) 4" "fits (?q + 8) 4" using u by (simp_all add: fits_def)
  have step: "uhci_qhs_loop qhs (Suc n) i m = uhci_qhs_loop qhs n (Suc i) m1"
    by (simp add: m1_def uhci_qh_at_def desc_at_def Let_def qh_head_link_pointer_def qh_element_link_pointer_def qh_used_def
        BL_UHCI_QH_HEAD_LINK_POINTER_Q_def BL_UHCI_QH_ELEMENT_LINK_POINTER_T_def)
  note IH = Suc.IH [of "Suc i" m1, OF Suc.prems(1)]
  have out: "uhci_qhs_loop qhs (Suc n) i m x = m x" if "unat x < unat qhs + 16 * i \<or> unat qhs + 16 * (i + Suc n) \<le> unat x" for x
  proof -
    have "uhci_qhs_loop qhs n (Suc i) m1 x = m1 x" using IH Suc.prems(2) that by auto
    moreover have "m1 x = m x" unfolding m1_def using that u by (auto simp: st_frame f off_range_def)
    ultimately show ?thesis by (simp only: step)
  qed
  have w1: "ld32 m1 ?q = uhci_qh_at qhs (Suc i) OR 2" "ld32 m1 (?q + 4) = 1" "ld32 m1 (?q + 8) = 0"
    unfolding m1_def using u f by (simp_all add: ld_st_same ld32_store_other)
  have later: "ld32 (uhci_qhs_loop qhs n (Suc i) m1) a = ld32 m1 a" if "a \<in> {?q, ?q + 4, ?q + 8}" for a
    using that IH Suc.prems(2) u f by (intro ld_same(2)) (auto simp: off_range_def)
  have "ld32 (uhci_qhs_loop qhs (Suc n) i m) (uhci_qh_at qhs j) = uhci_qh_at qhs (Suc j) OR 2 \<and>
      ld32 (uhci_qhs_loop qhs (Suc n) i m) (uhci_qh_at qhs j + 4) = 1 \<and> ld32 (uhci_qhs_loop qhs (Suc n) i m) (uhci_qh_at qhs j + 8) = 0"
    if "i \<le> j" "j < i + Suc n" for j
  proof (cases "j = i")
    case True
    then show ?thesis unfolding step using w1 later by simp
  next
    case False
    then show ?thesis unfolding step using IH Suc.prems(2) that by simp
  qed
  then show ?case using out by blast
qed auto

text \<open>The queue heads, descriptors and frames as \<open>bl_uhci_init_data_structures\<close> writes them.\<close>

definition uhci_structures :: "addr \<Rightarrow> addr \<Rightarrow> addr \<Rightarrow> mem \<Rightarrow> mem" where
  "uhci_structures frames qhs tds m = frames_loop frames (qhs OR BL_UHCI_FRAME_LIST_POINTER_Q) 1024 0 (uhci_tds_loop tds BL_UHCI_NUM_TD 0
     (st32 (uhci_qhs_loop qhs (BL_UHCI_NUM_QH - 1) 0 m) (uhci_qh_at qhs (BL_UHCI_NUM_QH - 1)) BL_UHCI_QH_HEAD_LINK_POINTER_T))"

lemma structures_ok:
  assumes fit: "fits frames 4096" "fits qhs 4096" "fits tds 32768" and ap: "apart frames 4096 qhs 4096" "apart frames 4096 tds 32768" "apart qhs 4096 tds 32768"
    and m': "m' = uhci_structures frames qhs tds m"
  shows "uhci_schedule frames qhs 255 m'" "\<forall>i<1024. uhci_td_flag tds m' i = 0" "\<forall>i<255. uhci_qh_flag qhs m' i = 0"
    "ld32 m' (qh_element_link_pointer (uhci_qh_at qhs 255)) = ld32 m (qh_element_link_pointer (uhci_qh_at qhs 255))"
    "uhci_qh_flag qhs m' 255 = uhci_qh_flag qhs m 255"
    "\<And>x. off_range frames 4096 x \<Longrightarrow> off_range qhs 4096 x \<Longrightarrow> off_range tds 32768 x \<Longrightarrow> m' x = m x"
proof -
  define m1 where "m1 = uhci_qhs_loop qhs 255 0 m"
  define m2 where "m2 = st32 m1 (uhci_qh_at qhs 255) 1"
  define m3 where "m3 = uhci_tds_loop tds 1024 0 m2"
  have m'3: "m' = frames_loop frames (qhs OR 2) 1024 0 m3"
    by (simp add: m' uhci_structures_def m3_def m2_def m1_def uhci_sizes BL_UHCI_FRAME_LIST_POINTER_Q_def BL_UHCI_QH_HEAD_LINK_POINTER_T_def)
  note u = qh_words [OF fit(2), of 255, OF _ refl]
  have f: "fits (uhci_qh_at qhs 255) 4" "fits (uhci_qh_at qhs 255 + 4) 4" "fits (uhci_qh_at qhs 255 + 8) 4" using u by (simp_all add: fits_def)
  have l1: "\<And>x. off_range qhs 4080 x \<Longrightarrow> m1 x = m x" "\<And>j. j < 255 \<Longrightarrow> ld32 m1 (uhci_qh_at qhs j) = uhci_qh_at qhs (Suc j) OR 2 \<and>
      ld32 m1 (uhci_qh_at qhs j + 4) = 1 \<and> ld32 m1 (uhci_qh_at qhs j + 8) = 0"
    using uhci_qhs_loop_ok [OF fit(2), of 0 255 m] by (auto simp: m1_def off_range_def)
  have l3: "\<And>x. off_range tds 32768 x \<Longrightarrow> m3 x = m2 x" "\<And>j. j < 1024 \<Longrightarrow> uhci_td_flag tds m3 j = 0"
    using uhci_tds_loop_ok [OF fit(3), of 0 1024 m2] by (auto simp: m3_def off_range_def)
  have l4: "\<And>x. off_range frames 4096 x \<Longrightarrow> m' x = m3 x" "\<And>j. j < 1024 \<Longrightarrow> ld32 m' (frames + of_nat (4 * j)) = qhs OR 2"
    using frames_loop_ok [OF fit(1), of 0 1024 "qhs OR 2" m3] by (auto simp: m'3 off_range_def)
  have qh: "ld32 m' (uhci_qh_at qhs j + of_nat k) = ld32 m2 (uhci_qh_at qhs j + of_nat k)" if "j < 256" "k \<le> 12" for j k
  proof (rule ld_same(2) [OF qh_word_fits [OF fit(2) that]], intro allI impI)
    fix x assume "\<not> off_range (uhci_qh_at qhs j + of_nat k) 4 x"
    then have "\<not> off_range qhs 4096 x" using qh_word_off(2) [OF fit(2) that(1) that(1) _ that(2), of x 0 0] by auto
    then show "m' x = m2 x" using l3(1) l4(1) ap by (auto simp: off_range_def apart_def)
  qed
  have q2: "ld32 m2 (uhci_qh_at qhs j + of_nat k) = ld32 m1 (uhci_qh_at qhs j + of_nat k)" if "j < 256" "k \<le> 12" "j \<noteq> 255 \<or> 4 \<le> k" for j k
  proof (rule ld_same(2) [OF qh_word_fits [OF fit(2) that(1,2)]], intro allI impI)
    fix x assume "\<not> off_range (uhci_qh_at qhs j + of_nat k) 4 x"
    then have "off_range (uhci_qh_at qhs 255 + of_nat 0) 4 x" using qh_word_off(1) [OF fit(2) that(1) _ _ that(2), of 255 x 0 4] that(3) by auto
    then show "m2 x = m1 x" unfolding m2_def by (intro st_frame(2) [OF f(1)]) simp
  qed
  have q1: "ld32 m1 (uhci_qh_at qhs 255 + of_nat k) = ld32 m (uhci_qh_at qhs 255 + of_nat k)" if "k \<le> 12" for k
    using qh_word_fits [OF fit(2) _ that] uhci_qh_unat(2) [OF fit(2), of 255 k] that l1(1)
    by (intro ld_same(2)) (auto simp: off_range_def)
  have lnk: "ld32 m' (uhci_qh_at qhs j) = (if j = 255 then 1 else uhci_qh_at qhs (Suc j) OR 2)" if "j < 256" for j
    using qh [OF that, of 0] q2 [OF that, of 0] l1(2) [of j] that by (auto simp: m2_def ld_st_same)
  have ele: "ld32 m' (uhci_qh_at qhs j + 4) = 1" "ld32 m' (uhci_qh_at qhs j + 8) = 0" if "j < 255" for j
    using qh [of j 4] qh [of j 8] q2 [of j 4] q2 [of j 8] l1(2) [OF that] that by simp_all
  show "uhci_schedule frames qhs 255 m'" using l4(2) lnk ele by (simp add: uhci_schedule_def qh_element_link_pointer_def bit_0)
  show "\<forall>i<255. uhci_qh_flag qhs m' i = 0" using ele by (simp add: uhci_qh_flag_def qh_used_def)
  show "ld32 m' (qh_element_link_pointer (uhci_qh_at qhs 255)) = ld32 m (qh_element_link_pointer (uhci_qh_at qhs 255))"
    "uhci_qh_flag qhs m' 255 = uhci_qh_flag qhs m 255"
    using qh [of 255 4] q2 [of 255 4] q1 [of 4] qh [of 255 8] q2 [of 255 8] q1 [of 8]
    by (simp_all add: qh_element_link_pointer_def uhci_qh_flag_def qh_used_def)
  show "\<forall>i<1024. uhci_td_flag tds m' i = 0"
  proof (intro allI impI)
    fix i :: nat assume i: "i < 1024"
    have "uhci_td_flag tds m' i = uhci_td_flag tds m3 i"
    proof (rule td_same(4) [OF fit(3) i], intro allI impI)
      fix x assume "\<not> off_range (uhci_td_at tds i) 20 x"
      then have "\<not> off_range tds 32768 x" using td_inside_pool [OF fit(3) i] by blast
      then show "m' x = m3 x" using l4(1) ap(2) by (auto simp: off_range_def apart_def)
    qed
    then show "uhci_td_flag tds m' i = 0" using l3(2) [OF i] by simp
  qed
  show "m' x = m x" if "off_range frames 4096 x" "off_range qhs 4096 x" "off_range tds 32768 x" for x
  proof -
    have "m2 x = m1 x" unfolding m2_def using that(2) u by (intro st_frame(2) [OF f(1)]) (auto simp: off_range_def)
    then show ?thesis using that l1(1) [of x] l3(1) [of x] l4(1) [of x] by (auto simp: off_range_def)
  qed
qed

end
