(* ===== verification/Bl_Ohci.thy ===== *)
theory Bl_Ohci
  imports Bl_UhciTransfers
begin

text \<open>The OHCI driver: src/boot-loader/modules/usb/ohci. Its registers are memory-mapped words.\<close>

unbundle bit_operations_syntax

definition BL_OHCI_PCI_BAR0_INDICATPR :: u32 where "BL_OHCI_PCI_BAR0_INDICATPR = push_bit 0 1"
definition BL_OHCI_PCI_BAR0_BASE_ADDRESS :: u32 where "BL_OHCI_PCI_BAR0_BASE_ADDRESS = push_bit 12 0xfffff"
definition BL_PCI_PROG_IF_SERIAL_USB_OHCI :: int where "BL_PCI_PROG_IF_SERIAL_USB_OHCI = 0x10"
definition BL_OHCI_REG_REVISION_REV :: u32 where "BL_OHCI_REG_REVISION_REV = push_bit 0 0xff"
definition BL_OHCI_REG_CONTROL_CLE :: u32 where "BL_OHCI_REG_CONTROL_CLE = push_bit 4 1"
definition BL_OHCI_REG_CONTROL_BLE :: u32 where "BL_OHCI_REG_CONTROL_BLE = push_bit 5 1"
definition BL_OHCI_REG_CONTROL_HCFS :: u32 where "BL_OHCI_REG_CONTROL_HCFS = push_bit 6 3"
definition BL_OHCI_REG_CONTROL_IR :: u32 where "BL_OHCI_REG_CONTROL_IR = push_bit 8 1"
definition BL_OHCI_HCFS_USB_RESET :: u32 where "BL_OHCI_HCFS_USB_RESET = push_bit 6 0"
definition BL_OHCI_HCFS_USB_RESUME :: u32 where "BL_OHCI_HCFS_USB_RESUME = push_bit 6 1"
definition BL_OHCI_HCFS_USB_OPERATIONAL :: u32 where "BL_OHCI_HCFS_USB_OPERATIONAL = push_bit 6 2"
definition BL_OHCI_REG_COMMAND_STATUS_HCR :: u32 where "BL_OHCI_REG_COMMAND_STATUS_HCR = push_bit 0 1"
definition BL_OHCI_REG_COMMAND_STATUS_CLF :: u32 where "BL_OHCI_REG_COMMAND_STATUS_CLF = push_bit 1 1"
definition BL_OHCI_REG_COMMAND_STATUS_BLF :: u32 where "BL_OHCI_REG_COMMAND_STATUS_BLF = push_bit 2 1"
definition BL_OHCI_REG_COMMAND_STATUS_OCR :: u32 where "BL_OHCI_REG_COMMAND_STATUS_OCR = push_bit 3 1"
definition BL_OHCI_REG_INTERRUPT_STATUS_SO :: u32 where "BL_OHCI_REG_INTERRUPT_STATUS_SO = push_bit 0 1"
definition BL_OHCI_REG_INTERRUPT_STATUS_WDH :: u32 where "BL_OHCI_REG_INTERRUPT_STATUS_WDH = push_bit 1 1"
definition BL_OHCI_REG_INTERRUPT_STATUS_RD :: u32 where "BL_OHCI_REG_INTERRUPT_STATUS_RD = push_bit 3 1"
definition BL_OHCI_REG_INTERRUPT_STATUS_UE :: u32 where "BL_OHCI_REG_INTERRUPT_STATUS_UE = push_bit 4 1"
definition BL_OHCI_REG_INTERRUPT_STATUS_FNO :: u32 where "BL_OHCI_REG_INTERRUPT_STATUS_FNO = push_bit 5 1"
definition BL_OHCI_REG_INTERRUPT_STATUS_RHSC :: u32 where "BL_OHCI_REG_INTERRUPT_STATUS_RHSC = push_bit 6 1"
definition BL_OHCI_REG_INTERRUPT_STATUS_OC :: u32 where "BL_OHCI_REG_INTERRUPT_STATUS_OC = push_bit 30 1"
definition BL_OHCI_REG_INTERRUPT_ENABLE_SO :: u32 where "BL_OHCI_REG_INTERRUPT_ENABLE_SO = push_bit 0 1"
definition BL_OHCI_REG_INTERRUPT_ENABLE_WDH :: u32 where "BL_OHCI_REG_INTERRUPT_ENABLE_WDH = push_bit 1 1"
definition BL_OHCI_REG_INTERRUPT_ENABLE_RD :: u32 where "BL_OHCI_REG_INTERRUPT_ENABLE_RD = push_bit 3 1"
definition BL_OHCI_REG_INTERRUPT_ENABLE_UE :: u32 where "BL_OHCI_REG_INTERRUPT_ENABLE_UE = push_bit 4 1"
definition BL_OHCI_REG_INTERRUPT_ENABLE_FNO :: u32 where "BL_OHCI_REG_INTERRUPT_ENABLE_FNO = push_bit 5 1"
definition BL_OHCI_REG_INTERRUPT_ENABLE_RHSC :: u32 where "BL_OHCI_REG_INTERRUPT_ENABLE_RHSC = push_bit 6 1"
definition BL_OHCI_REG_INTERRUPT_ENABLE_OC :: u32 where "BL_OHCI_REG_INTERRUPT_ENABLE_OC = push_bit 30 1"
definition BL_OHCI_REG_INTERRUPT_ENABLE_MIE :: u32 where "BL_OHCI_REG_INTERRUPT_ENABLE_MIE = push_bit 31 1"
definition BL_OHCI_REG_INTERRUPT_DISABLE_MIE :: u32 where "BL_OHCI_REG_INTERRUPT_DISABLE_MIE = push_bit 31 1"
definition BL_OHCI_REG_FM_INTERVAL_FI :: u32 where "BL_OHCI_REG_FM_INTERVAL_FI = push_bit 0 0x3fff"
definition BL_OHCI_REG_RH_DESCRIPTOR_A_NDP :: u32 where "BL_OHCI_REG_RH_DESCRIPTOR_A_NDP = push_bit 0 0xff"
definition BL_OHCI_REG_RH_PORT_STATUS_CCS :: u32 where "BL_OHCI_REG_RH_PORT_STATUS_CCS = push_bit 0 1"
definition BL_OHCI_REG_RH_PORT_STATUS_PES :: u32 where "BL_OHCI_REG_RH_PORT_STATUS_PES = push_bit 1 1"
definition BL_OHCI_REG_RH_PORT_STATUS_PRS :: u32 where "BL_OHCI_REG_RH_PORT_STATUS_PRS = push_bit 4 1"
definition BL_OHCI_REG_RH_PORT_STATUS_LSDA :: u32 where "BL_OHCI_REG_RH_PORT_STATUS_LSDA = push_bit 9 1"
definition BL_OHCI_REG_RH_PORT_STATUS_PESC :: u32 where "BL_OHCI_REG_RH_PORT_STATUS_PESC = push_bit 16 1"
definition BL_OHCI_REG_RH_PORT_STATUS_PRSC :: u32 where "BL_OHCI_REG_RH_PORT_STATUS_PRSC = push_bit 20 1"

subsection \<open>Structures\<close>

text \<open>Registers.\<close>

definition or_revision :: "addr \<Rightarrow> addr" where "or_revision r = r"
definition or_control :: "addr \<Rightarrow> addr" where "or_control r = r + 0x04"
definition or_command_status :: "addr \<Rightarrow> addr" where "or_command_status r = r + 0x08"
definition or_interrupt_status :: "addr \<Rightarrow> addr" where "or_interrupt_status r = r + 0x0c"
definition or_interrupt_enable :: "addr \<Rightarrow> addr" where "or_interrupt_enable r = r + 0x10"
definition or_interrupt_disable :: "addr \<Rightarrow> addr" where "or_interrupt_disable r = r + 0x14"
definition or_hcca :: "addr \<Rightarrow> addr" where "or_hcca r = r + 0x18"
definition or_control_head_ed :: "addr \<Rightarrow> addr" where "or_control_head_ed r = r + 0x20"
definition or_control_current_ed :: "addr \<Rightarrow> addr" where "or_control_current_ed r = r + 0x24"
definition or_bulk_head_ed :: "addr \<Rightarrow> addr" where "or_bulk_head_ed r = r + 0x28"
definition or_bulk_current_ed :: "addr \<Rightarrow> addr" where "or_bulk_current_ed r = r + 0x2c"
definition or_fm_interval :: "addr \<Rightarrow> addr" where "or_fm_interval r = r + 0x34"
definition or_periodic_start :: "addr \<Rightarrow> addr" where "or_periodic_start r = r + 0x40"
definition or_rh_descriptor_a :: "addr \<Rightarrow> addr" where "or_rh_descriptor_a r = r + 0x48"
definition or_rh_port_status :: "addr \<Rightarrow> u32 \<Rightarrow> addr" where "or_rh_port_status r port = r + 0x54 + 4 * port"

text \<open>The communications area, endpoint and transfer descriptors.\<close>

definition hcca_frame_number :: "addr \<Rightarrow> addr" where "hcca_frame_number h = h + 128"
definition hcca_done_head :: "addr \<Rightarrow> addr" where "hcca_done_head h = h + 132"
definition sizeof_ohci_hcca :: u32 where "sizeof_ohci_hcca = 252"

definition ed_flags :: "addr \<Rightarrow> addr" where "ed_flags ed = ed"
definition ed_td_tail_pointer :: "addr \<Rightarrow> addr" where "ed_td_tail_pointer ed = ed + 4"
definition ed_td_head_pointer :: "addr \<Rightarrow> addr" where "ed_td_head_pointer ed = ed + 8"
definition ed_next_ed :: "addr \<Rightarrow> addr" where "ed_next_ed ed = ed + 12"
definition sizeof_ohci_ed :: nat where "sizeof_ohci_ed = 16"

definition BL_OHCI_ED_FLAGS_ADDRESS :: u32 where "BL_OHCI_ED_FLAGS_ADDRESS = push_bit 0 0x7f"
definition BL_OHCI_ED_FLAGS_ENDPOINT :: u32 where "BL_OHCI_ED_FLAGS_ENDPOINT = push_bit 7 0xf"
definition BL_OHCI_ED_FLAGS_SPEED :: u32 where "BL_OHCI_ED_FLAGS_SPEED = push_bit 13 1"
definition BL_OHCI_ED_FLAGS_SKIP :: u32 where "BL_OHCI_ED_FLAGS_SKIP = push_bit 14 1"
definition BL_OHCI_ED_FLAGS_MPS :: u32 where "BL_OHCI_ED_FLAGS_MPS = push_bit 16 0x7ff"
definition BL_OHCI_ED_TD_HEAD_POINTER_HALTED :: u32 where "BL_OHCI_ED_TD_HEAD_POINTER_HALTED = push_bit 0 1"
definition BL_OHCI_ED_FLAGS_ADDRESS_ENDPOINT :: u32 where
  "BL_OHCI_ED_FLAGS_ADDRESS_ENDPOINT = BL_OHCI_ED_FLAGS_ADDRESS OR BL_OHCI_ED_FLAGS_ENDPOINT"
definition BL_OHCI_ED_ADDRESS_ENDPOINT :: "u32 \<Rightarrow> u32 \<Rightarrow> u32" where
  "BL_OHCI_ED_ADDRESS_ENDPOINT address endpoint =
     (push_bit 0 address AND BL_OHCI_ED_FLAGS_ADDRESS) OR (push_bit 7 endpoint AND BL_OHCI_ED_FLAGS_ENDPOINT)"
definition BL_OHCI_ED_MPS :: "u32 \<Rightarrow> u32" where "BL_OHCI_ED_MPS max_packet_size = push_bit 16 max_packet_size AND BL_OHCI_ED_FLAGS_MPS"
definition BL_OHCI_ED_TD_POINTER :: "u32 \<Rightarrow> addr" where "BL_OHCI_ED_TD_POINTER td_pointer = td_pointer AND NOT 0xf"

definition gtd_flags :: "addr \<Rightarrow> addr" where "gtd_flags td = td"
definition gtd_current_buffer_pointer :: "addr \<Rightarrow> addr" where "gtd_current_buffer_pointer td = td + 4"
definition gtd_next_td :: "addr \<Rightarrow> addr" where "gtd_next_td td = td + 8"
definition gtd_buffer_end :: "addr \<Rightarrow> addr" where "gtd_buffer_end td = td + 12"
definition gtd_used :: "addr \<Rightarrow> addr" where "gtd_used td = td + 16"
definition gtd_original_next_td :: "addr \<Rightarrow> addr" where "gtd_original_next_td td = td + 20"
definition sizeof_ohci_general_td :: nat where "sizeof_ohci_general_td = 32"

definition BL_OHCI_CC_NOT_ACCESSED :: u32 where "BL_OHCI_CC_NOT_ACCESSED = 0x0f"
definition BL_OHCI_TD_FLAGS_DP_SETUP :: u32 where "BL_OHCI_TD_FLAGS_DP_SETUP = push_bit 19 0"
definition BL_OHCI_TD_FLAGS_DP_OUT :: u32 where "BL_OHCI_TD_FLAGS_DP_OUT = push_bit 19 1"
definition BL_OHCI_TD_FLAGS_DP_IN :: u32 where "BL_OHCI_TD_FLAGS_DP_IN = push_bit 19 2"
definition BL_OHCI_TD_FLAGS_T :: "u32 \<Rightarrow> u32" where "BL_OHCI_TD_FLAGS_T toggle = push_bit 24 (0x2 OR (toggle AND 0x1))"
definition BL_OHCI_TD_FLAGS_EC :: "u32 \<Rightarrow> u32" where "BL_OHCI_TD_FLAGS_EC count = push_bit 26 (count AND 0x3)"
definition BL_OHCI_TD_FLAGS_CC :: "u32 \<Rightarrow> u32" where "BL_OHCI_TD_FLAGS_CC code = push_bit 28 (code AND 0xf)"
definition BL_OHCI_TD_FLAGS_TO_CC :: "u32 \<Rightarrow> u32" where "BL_OHCI_TD_FLAGS_TO_CC flags = drop_bit 28 flags AND 0xf"

definition BL_OHCI_NUM_CONTROL_EDS :: nat where "BL_OHCI_NUM_CONTROL_EDS = 128"
definition BL_OHCI_NUM_BULK_EDS :: nat where "BL_OHCI_NUM_BULK_EDS = 128"
definition BL_OHCI_NUM_GENERAL_TDS :: nat where "BL_OHCI_NUM_GENERAL_TDS = 512"

definition oh_regs :: "mem \<Rightarrow> addr \<Rightarrow> addr" where "oh_regs m o' = ld32 m o'"
definition oh_hcca :: "mem \<Rightarrow> addr \<Rightarrow> addr" where "oh_hcca m o' = ld32 m (o' + 4)"
definition oh_control_eds :: "mem \<Rightarrow> addr \<Rightarrow> addr" where "oh_control_eds m o' = ld32 m (o' + 8)"
definition oh_bulk_eds :: "mem \<Rightarrow> addr \<Rightarrow> addr" where "oh_bulk_eds m o' = ld32 m (o' + 12)"
definition oh_tds :: "mem \<Rightarrow> addr \<Rightarrow> addr" where "oh_tds m o' = ld32 m (o' + 16)"
definition oh_next :: "mem \<Rightarrow> addr \<Rightarrow> addr" where "oh_next m o' = ld32 m (o' + 20)"
definition sizeof_ohci_controller :: u32 where "sizeof_ohci_controller = 24"

definition bl_ohci_controller_add :: "addr \<Rightarrow> 'd hci_st \<Rightarrow> 'd hci_st" where
  "bl_ohci_controller_add ohci s = s\<lparr>mem := st32 (mem s) (ohci + 20) (ohci_list (usb_hw s)), usb_hw := (usb_hw s)\<lparr>ohci_list := ohci\<rparr>\<rparr>"

subsection \<open>Ports\<close>

definition ohci_port :: "mem \<Rightarrow> addr \<Rightarrow> u32 \<Rightarrow> addr" where
  "ohci_port m hc port = or_rh_port_status (oh_regs m (hc_data m hc)) port"

definition bl_ohci_port_device_connected :: "'d hci_st hci_env \<Rightarrow> addr \<Rightarrow> u32 \<Rightarrow> 'd hci_st \<Rightarrow> bool \<times> 'd hci_st" where
  "bl_ohci_port_device_connected env hc port s =
     (case hi_read env (ohci_port (mem s) hc port) s of (v, s1) \<Rightarrow> (v AND BL_OHCI_REG_RH_PORT_STATUS_CCS \<noteq> 0, s1))"

definition bl_ohci_port_reset :: "'d hci_st hci_env \<Rightarrow> addr \<Rightarrow> u32 \<Rightarrow> 'd hci_st \<Rightarrow> 'd hci_st" where
  "bl_ohci_port_reset env hc port s =
     (let p = ohci_port (mem s) hc port;
          (v, s1) = hi_read env p (hi_sleep env 50 (hci_modify env p (\<lambda>v. v OR BL_OHCI_REG_RH_PORT_STATUS_PRS) s))
      in if v AND BL_OHCI_REG_RH_PORT_STATUS_PRSC = 0 then s1
         else let s2 = hci_modify env p (\<lambda>v. v OR BL_OHCI_REG_RH_PORT_STATUS_PRSC) s1;
                  (w, s3) = hi_read env p (hi_sleep env 10 (hci_modify env p (\<lambda>v. v OR BL_OHCI_REG_RH_PORT_STATUS_PES) s2))
              in if w AND BL_OHCI_REG_RH_PORT_STATUS_PES = 0 then s3
                 else hci_modify env p (\<lambda>v. v OR BL_OHCI_REG_RH_PORT_STATUS_PESC) s3)"

definition bl_ohci_port_device_get_speed :: "'d hci_st hci_env \<Rightarrow> addr \<Rightarrow> u32 \<Rightarrow> 'd hci_st \<Rightarrow> u32 \<times> 'd hci_st" where
  "bl_ohci_port_device_get_speed env hc port s =
     (case hi_read env (ohci_port (mem s) hc port) s of
        (v, s1) \<Rightarrow> (if v AND BL_OHCI_REG_RH_PORT_STATUS_LSDA \<noteq> 0 then BL_USB_LOW_SPEED else BL_USB_FULL_SPEED, s1))"

subsection \<open>Descriptors\<close>

text \<open>An endpoint descriptor that already has the address, or the first that has none, linked behind its predecessor.\<close>

fun ohci_ed_loop :: "addr \<Rightarrow> u32 \<Rightarrow> nat \<Rightarrow> nat \<Rightarrow> mem \<Rightarrow> addr \<times> mem" where
  "ohci_ed_loop eds ae 0 i m = (0, m)"
| "ohci_ed_loop eds ae (Suc n) i m =
     (let ed = eds + of_nat (sizeof_ohci_ed * i); v = ld32 m (ed_flags ed) AND BL_OHCI_ED_FLAGS_ADDRESS_ENDPOINT
      in if v = ae then (ed, m)
         else if v = 0 then (ed, if i > 0 then st32 m (ed_next_ed (eds + of_nat (sizeof_ohci_ed * (i - 1)))) (ed AND NOT 0xf) else m)
         else ohci_ed_loop eds ae n (i + 1) m)"

definition bl_ohci_alloc_ed :: "addr \<Rightarrow> nat \<Rightarrow> u32 \<Rightarrow> mem \<Rightarrow> addr \<times> mem" where
  "bl_ohci_alloc_ed eds count address_endpoint m = ohci_ed_loop eds address_endpoint count 0 m"

definition ohci_ed_set :: "u32 \<Rightarrow> u32 \<Rightarrow> u32 \<Rightarrow> u32 \<Rightarrow> u32" where
  "ohci_ed_set ae speed max_packet_size v =
     (let v1 = (v AND NOT BL_OHCI_ED_FLAGS_ADDRESS_ENDPOINT) OR ae;
          v2 = (v1 AND NOT BL_OHCI_ED_FLAGS_SPEED) OR (if speed = BL_USB_LOW_SPEED then BL_OHCI_ED_FLAGS_SPEED else 0)
      in (v2 AND NOT BL_OHCI_ED_FLAGS_MPS) OR BL_OHCI_ED_MPS max_packet_size)"

definition bl_ohci_init_ed :: "addr \<Rightarrow> u32 \<Rightarrow> u32 \<Rightarrow> u32 \<Rightarrow> u32 \<Rightarrow> u32 \<Rightarrow> mem \<Rightarrow> addr \<times> mem" where
  "bl_ohci_init_ed ohci transfer address endpoint speed max_packet_size m =
     (let ae = BL_OHCI_ED_ADDRESS_ENDPOINT address endpoint;
          (ed, m1) =
            (if transfer = BL_USB_TRANSFER_CONTROL
             then if ae = 0 then (oh_control_eds m ohci, m) else bl_ohci_alloc_ed (oh_control_eds m ohci) BL_OHCI_NUM_CONTROL_EDS ae m
             else if transfer = BL_USB_TRANSFER_BULK then bl_ohci_alloc_ed (oh_bulk_eds m ohci) BL_OHCI_NUM_BULK_EDS ae m
             else (0, m))
      in if ed = 0 then (0, m1) else (ed, st32 m1 (ed_flags ed) (ohci_ed_set ae speed max_packet_size (ld32 m1 (ed_flags ed)))))"

definition bl_ohci_alloc_general_td :: "addr \<Rightarrow> mem \<Rightarrow> addr \<times> mem" where
  "bl_ohci_alloc_general_td ohci m = alloc_unused (oh_tds m ohci) sizeof_ohci_general_td (gtd_used 0) BL_OHCI_NUM_GENERAL_TDS m"

definition ohci_td_flags :: "u32 \<Rightarrow> u32 \<Rightarrow> u32" where
  "ohci_td_flags toggle pid =
     ((((if pid = BL_USB_PID_TOKEN_SETUP then BL_OHCI_TD_FLAGS_DP_SETUP else if pid = BL_USB_PID_TOKEN_OUT then BL_OHCI_TD_FLAGS_DP_OUT
         else if pid = BL_USB_PID_TOKEN_IN then BL_OHCI_TD_FLAGS_DP_IN else 0) OR
        BL_OHCI_TD_FLAGS_CC BL_OHCI_CC_NOT_ACCESSED) OR BL_OHCI_TD_FLAGS_T toggle) OR BL_OHCI_TD_FLAGS_EC 3)"

definition bl_ohci_init_general_td :: "addr \<Rightarrow> addr \<Rightarrow> u32 \<Rightarrow> u32 \<Rightarrow> u32 \<Rightarrow> mem \<Rightarrow> addr \<times> mem" where
  "bl_ohci_init_general_td ohci buf length' toggle pid m =
     (case bl_ohci_alloc_general_td ohci m of
        (td, m1) \<Rightarrow> if td = 0 then (0, m1)
          else let m2 = st32 m1 (gtd_flags td) (ohci_td_flags toggle pid);
                   m3 = (if buf \<noteq> 0 \<and> 0 <s length'
                     then st32 (st32 m2 (gtd_current_buffer_pointer td) buf) (gtd_buffer_end td) (buf + (length' - 1))
                     else st32 (st32 m2 (gtd_buffer_end td) 0) (gtd_current_buffer_pointer td) 0)
               in (td, st32 m3 (gtd_next_td td) 0))"

text \<open>The descriptors from \<open>td\<close> on, up to the first.\<close>

partial_function (option) ohci_free_loop :: "addr \<Rightarrow> addr \<Rightarrow> mem \<Rightarrow> mem option" where
  "ohci_free_loop td_head td m =
     (let next_td = ld32 m (gtd_original_next_td td);
          m1 = snd (bl_memset m td 0 (of_nat sizeof_ohci_general_td));
          td1 = BL_OHCI_ED_TD_POINTER next_td
      in if td1 \<noteq> td_head then ohci_free_loop td_head td1 m1 else Some m1)"

definition bl_ohci_free_td_list :: "addr \<Rightarrow> mem \<Rightarrow> mem option" where
  "bl_ohci_free_td_list ed m =
     (let td = BL_OHCI_ED_TD_POINTER (ld32 m (ed_td_head_pointer ed)) in ohci_free_loop td td m)"

subsection \<open>The end of a transfer\<close>

definition bl_ohci_transfer_status :: "mem \<Rightarrow> addr \<Rightarrow> bl_status" where
  "bl_ohci_transfer_status m ed =
     (let c = BL_OHCI_TD_FLAGS_TO_CC (ld32 m (gtd_flags (BL_OHCI_ED_TD_POINTER (ld32 m (ed_td_head_pointer ed)))))
      in if c = 0x00 then BL_STATUS_SUCCESS
         else if c = 0x01 then BL_STATUS_USB_CRC_ERROR
         else if c = 0x02 then BL_STATUS_USB_BITSTUFF_ERROR
         else if c = 0x03 then BL_STATUS_USB_CRC_ERROR
         else if c = 0x04 then BL_STATUS_USB_STALLED
         else if c = 0x05 then BL_STATUS_USB_TIMEOUT_ERROR
         else if c = 0x06 then BL_STATUS_USB_CRC_ERROR
         else if c = 0x07 then BL_STATUS_USB_BABBLE_DETECTED
         else if c = 0x08 \<or> c = 0x09 \<or> c = 0x0c \<or> c = 0x0d then BL_STATUS_USB_DATA_BUFFER_ERROR
         else BL_STATUS_USB_NAK_RECEIVED)"

definition bl_ohci_transfer_finished :: "addr \<Rightarrow> mem \<Rightarrow> (bl_status \<times> mem) option" where
  "bl_ohci_transfer_finished ed m =
     (if ld32 m (ed_td_head_pointer ed) AND BL_OHCI_ED_TD_HEAD_POINTER_HALTED \<noteq> 0 then Some (BL_STATUS_USB_SHOULD_CHECK_STATUS, m)
      else if BL_OHCI_ED_TD_POINTER (ld32 m (ed_td_head_pointer ed)) = BL_OHCI_ED_TD_POINTER (ld32 m (ed_td_tail_pointer ed))
      then do {
        m1 \<leftarrow> bl_ohci_free_td_list ed (st32 m (ed_flags ed) (ld32 m (ed_flags ed) OR BL_OHCI_ED_FLAGS_SKIP));
        Some (BL_STATUS_SUCCESS, m1) }
      else Some (BL_STATUS_USB_ACTION_NOT_FINISHED, m))"

fun ohci_timeout_loop :: "'d hci_st hci_env \<Rightarrow> addr \<Rightarrow> nat \<Rightarrow> 'd hci_st \<Rightarrow> (bl_status \<times> 'd hci_st) option" where
  "ohci_timeout_loop env ed 0 s = Some (bl_ohci_transfer_status (mem s) ed, s)"
| "ohci_timeout_loop env ed (Suc n) s = do {
     (status, m) \<leftarrow> bl_ohci_transfer_finished ed (mem s);
     let s1 = s\<lparr>mem := m\<rparr>;
     if \<not> failed status then Some (status, s1)
     else if status = BL_STATUS_USB_SHOULD_CHECK_STATUS then Some (bl_ohci_transfer_status m ed, s1)
     else ohci_timeout_loop env ed n (hi_sleep env 1 s1) }"

definition bl_ohci_check_transfer_timeout :: "'d hci_st hci_env \<Rightarrow> addr \<Rightarrow> nat \<Rightarrow> 'd hci_st \<Rightarrow> (bl_status \<times> 'd hci_st) option" where
  "bl_ohci_check_transfer_timeout env ed timeout s = ohci_timeout_loop env ed (timeout - 1) s"

subsection \<open>Transfers\<close>

definition ohci_link :: "addr \<Rightarrow> addr \<Rightarrow> mem \<Rightarrow> mem" where
  "ohci_link td_prev td m = st32 (st32 m (gtd_next_td td_prev) td) (gtd_original_next_td td_prev) td"

text \<open>The data stage: the last descriptor, or 0 when none is left.\<close>

partial_function (option) ohci_data_loop :: "addr \<Rightarrow> u32 \<Rightarrow> u32 \<Rightarrow> addr \<Rightarrow> addr \<Rightarrow> u32 \<Rightarrow> u32 \<Rightarrow> u32 \<Rightarrow> mem \<Rightarrow> (addr \<times> mem) option" where
  "ohci_data_loop ohci pid packet_size data td toggle length' off m =
     (if \<not> 0 <s length' then Some (td, m)
      else case bl_ohci_init_general_td ohci (data + off) (int_min length' packet_size) (int_not toggle) pid m of
        (td1, m1) \<Rightarrow> if td1 = 0 then Some (0, m1)
          else ohci_data_loop ohci pid packet_size data td1 (int_not toggle) (length' - packet_size) (off + packet_size) (ohci_link td td1 m1))"

text \<open>The descriptors of a control transfer, linked in a circle: the first and the last, or nothing when none is left.\<close>

definition ohci_control_tds :: "addr \<Rightarrow> u32 \<Rightarrow> addr \<Rightarrow> addr \<Rightarrow> u32 \<Rightarrow> mem \<Rightarrow> ((addr \<times> addr) option \<times> mem) option" where
  "ohci_control_tds ohci packet_size setup data length' m =
     (let data_pid = bl_usb_direction_pid m setup; status_pid = bl_usb_status_pid data_pid
      in case bl_ohci_init_general_td ohci setup sizeof_setup_data 0 BL_USB_PID_TOKEN_SETUP m of
        (td_head, m1) \<Rightarrow> if td_head = 0 then Some (None, m1)
          else do {
            (td_prev, m2) \<leftarrow>
              (if length' = 0
               then case bl_ohci_init_general_td ohci 0 0 1 status_pid m1 of
                 (td, m1') \<Rightarrow> Some (if td = 0 then (0, m1') else (td, ohci_link td_head td m1'))
               else ohci_data_loop ohci data_pid packet_size data td_head 0 length' 0 m1);
            if td_prev = 0 then Some (None, m2)
            else case bl_ohci_init_general_td ohci 0 0 1 status_pid m2 of
              (td, m3) \<Rightarrow> if td = 0 then Some (None, m3)
                else Some (Some (td_head, td), st32 (st32 (ohci_link td_prev td m3) (gtd_next_td td) 0) (gtd_original_next_td td) td_head) })"

text \<open>The chain put into the endpoint, which is not skipped any more.\<close>

definition ohci_start :: "addr \<Rightarrow> addr \<Rightarrow> addr \<Rightarrow> mem \<Rightarrow> mem" where
  "ohci_start ed td_head td m =
     (let m1 = st32 (st32 m (ed_td_head_pointer ed) td_head) (ed_td_tail_pointer ed) td
      in st32 m1 (ed_flags ed) (ld32 m1 (ed_flags ed) AND NOT BL_OHCI_ED_FLAGS_SKIP))"

definition ohci_command :: "'d hci_st hci_env \<Rightarrow> addr \<Rightarrow> u32 \<Rightarrow> 'd hci_st \<Rightarrow> 'd hci_st" where
  "ohci_command env ohci v s = hci_modify env (or_command_status (oh_regs (mem s) ohci)) (\<lambda>c. c OR v) s"

definition bl_ohci_control_transfer :: "'d hci_st hci_env \<Rightarrow> addr \<Rightarrow> u32 \<Rightarrow> u32 \<Rightarrow> u32 \<Rightarrow> addr \<Rightarrow> addr \<Rightarrow> u32 \<Rightarrow> 'd hci_st \<Rightarrow>
    (bl_status \<times> 'd hci_st) option" where
  "bl_ohci_control_transfer env hc packet_size0 address speed setup data length' s =
     (let ohci = hc_data (mem s) hc; packet_size = (if packet_size0 = 0 then 8 else packet_size0)
      in case bl_ohci_init_ed ohci BL_USB_TRANSFER_CONTROL address 0 speed packet_size (mem s) of
        (ed, m1) \<Rightarrow> if ed = 0 then Some (BL_STATUS_USB_INTERNAL_ERROR, s\<lparr>mem := m1\<rparr>)
          else do {
            (r, m2) \<leftarrow> ohci_control_tds ohci packet_size setup data length' m1;
            case r of None \<Rightarrow> Some (BL_STATUS_USB_INTERNAL_ERROR, s\<lparr>mem := m2\<rparr>)
            | Some (td_head, td) \<Rightarrow> bl_ohci_check_transfer_timeout env ed 100
                (ohci_command env ohci BL_OHCI_REG_COMMAND_STATUS_CLF (s\<lparr>mem := ohci_start ed td_head td m2\<rparr>)) })"

text \<open>The packets of a bulk transfer: the first and the last descriptor and the toggle, or nothing when no descriptor is left.\<close>

partial_function (option) ohci_packets_loop :: "addr \<Rightarrow> u32 \<Rightarrow> u32 \<Rightarrow> addr \<Rightarrow> addr \<Rightarrow> addr \<Rightarrow> u32 \<Rightarrow> u32 \<Rightarrow> u32 \<Rightarrow> mem \<Rightarrow>
    ((addr \<times> addr \<times> u32) option \<times> mem) option" where
  "ohci_packets_loop ohci pid packet_size data td_head td toggle length' off m =
     (if \<not> 0 <s length' then Some (Some (td_head, td, toggle), m)
      else case bl_ohci_init_general_td ohci (data + off) (int_min length' packet_size) toggle pid m of
        (td1, m1) \<Rightarrow> if td1 = 0 then Some (None, m1)
          else ohci_packets_loop ohci pid packet_size data (if td_head = 0 then td1 else td_head) td1 (int_not toggle)
            (length' - packet_size) (off + packet_size) (if td_head = 0 then m1 else ohci_link td td1 m1))"

definition bl_ohci_bulk_interrupt_prepare :: "addr \<Rightarrow> u32 \<Rightarrow> addr \<Rightarrow> u32 \<Rightarrow> u32 \<Rightarrow> addr \<Rightarrow> u32 \<Rightarrow> mem \<Rightarrow> (addr \<times> mem) option" where
  "bl_ohci_bulk_interrupt_prepare ohci address endp speed direction data length' m =
     (let packet_size = ucast (ed_max_packet_size m (endp_descriptor m endp)); toggle = endp_toggle m endp
      in case bl_ohci_init_ed ohci BL_USB_TRANSFER_BULK address (ucast (ed_endpoint_address m (endp_descriptor m endp) AND 0xf)) speed packet_size m of
        (ed, m1) \<Rightarrow> if ed = 0 then Some (0, m1)
          else do {
            (r, m2) \<leftarrow> ohci_packets_loop ohci (if direction \<noteq> 0 then BL_USB_PID_TOKEN_OUT else BL_USB_PID_TOKEN_IN) packet_size data 0 0 toggle length' 0 m1;
            case r of None \<Rightarrow> Some (0, m2)
            | Some (td_head, td_prev, toggle1) \<Rightarrow>
                (case bl_ohci_init_general_td ohci 0 0 (int_not toggle1) (if direction \<noteq> 0 then BL_USB_PID_TOKEN_IN else BL_USB_PID_TOKEN_OUT) m2 of
                   (td, m3) \<Rightarrow> if td = 0 then Some (0, m3)
                     else let m4 = st32 (st32 (ohci_link td_prev td m3) (gtd_next_td td) 0) (gtd_original_next_td td) td_head
                          in Some (ed, ohci_start ed td_head td (st32 m4 endp (int_not toggle1)))) })"

definition bl_ohci_bulk_transfer :: "'d hci_st hci_env \<Rightarrow> addr \<Rightarrow> u32 \<Rightarrow> addr \<Rightarrow> u32 \<Rightarrow> u32 \<Rightarrow> addr \<Rightarrow> u32 \<Rightarrow> 'd hci_st \<Rightarrow> 'd hci_st option" where
  "bl_ohci_bulk_transfer env hc address endp speed direction data length' s =
     (if length' = 0 then Some s
      else do {
        let ohci = hc_data (mem s) hc;
        (ed, m) \<leftarrow> bl_ohci_bulk_interrupt_prepare ohci address endp speed direction data length' (mem s);
        (_, s1) \<leftarrow> bl_ohci_check_transfer_timeout env ed 100 (ohci_command env ohci BL_OHCI_REG_COMMAND_STATUS_BLF (s\<lparr>mem := m\<rparr>));
        Some s1 })"

subsection \<open>Controllers\<close>

definition bl_ohci_controller_uninit :: "addr \<Rightarrow> 'd hci_st \<Rightarrow> 'd hci_st" where
  "bl_ohci_controller_uninit ohci s = bl_heap_free s ohci sizeof_ohci_controller"

fun ohci_tds_loop :: "addr \<Rightarrow> nat \<Rightarrow> nat \<Rightarrow> mem \<Rightarrow> mem" where
  "ohci_tds_loop tds 0 i m = m"
| "ohci_tds_loop tds (Suc n) i m =
     ohci_tds_loop tds n (i + 1) (snd (bl_memset m (tds + of_nat (sizeof_ohci_general_td * i)) 0 (of_nat sizeof_ohci_general_td)))"

text \<open>The flags of \<open>eds\<close>, and the pointers of the descriptors at \<open>ptrs\<close>: the second loop of the code clears those of the control list again.\<close>

fun ohci_eds_loop :: "addr \<Rightarrow> addr \<Rightarrow> nat \<Rightarrow> nat \<Rightarrow> mem \<Rightarrow> mem" where
  "ohci_eds_loop eds ptrs 0 i m = m"
| "ohci_eds_loop eds ptrs (Suc n) i m =
     (let ed = eds + of_nat (sizeof_ohci_ed * i); p = ptrs + of_nat (sizeof_ohci_ed * i);
          m1 = st32 m (ed_flags ed) BL_OHCI_ED_FLAGS_SKIP;
          m2 = st32 (st32 m1 (ed_td_tail_pointer p) 0) (ed_td_head_pointer p) 0
      in ohci_eds_loop eds ptrs n (i + 1) (st32 m2 (ed_next_ed p) 0))"

definition bl_ohci_init_data_structures :: "addr \<Rightarrow> 'd hci_st \<Rightarrow> (bl_status \<times> 'd hci_st) option" where
  "bl_ohci_init_data_structures ohci s = do {
     (hcca, s0) \<leftarrow> bl_heap_alloc_align s sizeof_ohci_hcca 256;
     let s1 = s0\<lparr>mem := st32 (mem s0) (ohci + 4) hcca\<rparr>;
     if hcca = 0 then Some (BL_STATUS_MEMORY_ALLOCATION_FAILED, s1)
     else do {
       (tds, s2) \<leftarrow> bl_heap_alloc_align (s1\<lparr>mem := st32 (st16 (mem s1) (hcca_frame_number hcca) 0) (hcca_done_head hcca) 0\<rparr>)
         (of_nat (sizeof_ohci_general_td * BL_OHCI_NUM_GENERAL_TDS)) 16;
       let s3 = s2\<lparr>mem := st32 (mem s2) (ohci + 16) tds\<rparr>;
       if tds = 0 then Some (BL_STATUS_MEMORY_ALLOCATION_FAILED, s3)
       else do {
         (ceds, s4) \<leftarrow> bl_heap_alloc_align (s3\<lparr>mem := ohci_tds_loop tds BL_OHCI_NUM_GENERAL_TDS 0 (mem s3)\<rparr>) (of_nat (sizeof_ohci_ed * BL_OHCI_NUM_CONTROL_EDS)) 16;
         let s5 = s4\<lparr>mem := st32 (mem s4) (ohci + 8) ceds\<rparr>;
         if ceds = 0 then Some (BL_STATUS_MEMORY_ALLOCATION_FAILED, s5)
         else do {
           (beds, s6) \<leftarrow> bl_heap_alloc_align (s5\<lparr>mem := ohci_eds_loop ceds ceds BL_OHCI_NUM_CONTROL_EDS 0 (mem s5)\<rparr>) (of_nat (sizeof_ohci_ed * BL_OHCI_NUM_BULK_EDS)) 16;
           let s7 = s6\<lparr>mem := st32 (mem s6) (ohci + 12) beds\<rparr>;
           if beds = 0 then Some (BL_STATUS_MEMORY_ALLOCATION_FAILED, s7)
           else Some (BL_STATUS_SUCCESS, s7\<lparr>mem := ohci_eds_loop beds (oh_control_eds (mem s7) ohci) BL_OHCI_NUM_BULK_EDS 0 (mem s7)\<rparr>) } } } }"

text \<open>The controller is taken from the system management mode, or reset or resumed: a status ends the initialisation.\<close>

definition ohci_ownership :: "'d hci_st hci_env \<Rightarrow> addr \<Rightarrow> 'd hci_st \<Rightarrow> bl_status option \<times> 'd hci_st" where
  "ohci_ownership env r s =
     (case hi_read env (or_control r) s of
        (v, s1) \<Rightarrow>
          if v AND BL_OHCI_REG_CONTROL_IR \<noteq> 0
          then let s2 = hci_wait_loop env (or_control r) BL_OHCI_REG_CONTROL_IR 9 (hci_modify env (or_command_status r) (\<lambda>c. c OR BL_OHCI_REG_COMMAND_STATUS_OCR) s1);
                   (w, s3) = hi_read env (or_control r) s2
               in (if w AND BL_OHCI_REG_CONTROL_IR \<noteq> 0 then Some BL_STATUS_USB_INTERNAL_ERROR else None, s3)
          else case hi_read env (or_control r) s1 of
            (w, s2) \<Rightarrow> (None,
              if w AND BL_OHCI_REG_CONTROL_HCFS = BL_OHCI_HCFS_USB_RESET then hi_sleep env 10 s2
              else if w AND BL_OHCI_REG_CONTROL_HCFS = BL_OHCI_HCFS_USB_OPERATIONAL then s2
              else hi_sleep env 10 (hci_modify env (or_control r) (\<lambda>c. c OR BL_OHCI_HCFS_USB_RESUME)
                (hci_modify env (or_control r) (\<lambda>c. c AND NOT BL_OHCI_REG_CONTROL_HCFS) s2))))"

text \<open>The software reset, the lists, the interrupts, and the operational state.\<close>

definition ohci_run :: "'d hci_st hci_env \<Rightarrow> addr \<Rightarrow> addr \<Rightarrow> 'd hci_st \<Rightarrow> 'd hci_st" where
  "ohci_run env ohci r s =
     (let (fm, s1) = hi_read env (or_fm_interval r) s;
          s2 = hi_write env (or_fm_interval r) fm (hi_sleep env 1 (hci_modify env (or_command_status r) (\<lambda>c. c OR BL_OHCI_REG_COMMAND_STATUS_HCR) s1));
          s3 = hi_write env (or_control_current_ed r) 0 (hi_write env (or_control_head_ed r) (oh_control_eds (mem s2) ohci) s2);
          s4 = hi_write env (or_bulk_current_ed r) 0 (hi_write env (or_bulk_head_ed r) (oh_bulk_eds (mem s3) ohci) s3);
          s5 = hi_write env (or_hcca r) (oh_hcca (mem s4) ohci) s4;
          s6 = hci_modify env (or_interrupt_disable r) (\<lambda>c. c OR BL_OHCI_REG_INTERRUPT_DISABLE_MIE) s5;
          s7 = hci_modify env (or_interrupt_enable r) (\<lambda>c. c OR (BL_OHCI_REG_INTERRUPT_ENABLE_MIE OR BL_OHCI_REG_INTERRUPT_ENABLE_SO OR
                 BL_OHCI_REG_INTERRUPT_ENABLE_WDH OR BL_OHCI_REG_INTERRUPT_ENABLE_RD OR BL_OHCI_REG_INTERRUPT_ENABLE_UE OR
                 BL_OHCI_REG_INTERRUPT_ENABLE_FNO OR BL_OHCI_REG_INTERRUPT_ENABLE_RHSC OR BL_OHCI_REG_INTERRUPT_ENABLE_OC)) s6;
          s8 = hci_modify env (or_interrupt_status r) (\<lambda>c. c AND NOT (BL_OHCI_REG_INTERRUPT_STATUS_SO OR BL_OHCI_REG_INTERRUPT_STATUS_WDH OR
                 BL_OHCI_REG_INTERRUPT_STATUS_RD OR BL_OHCI_REG_INTERRUPT_STATUS_UE OR BL_OHCI_REG_INTERRUPT_STATUS_FNO OR
                 BL_OHCI_REG_INTERRUPT_STATUS_RHSC OR BL_OHCI_REG_INTERRUPT_STATUS_OC)) s7;
          s9 = hci_modify env (or_control r) (\<lambda>c. c OR (BL_OHCI_REG_CONTROL_CLE OR BL_OHCI_REG_CONTROL_BLE)) s8;
          (fi, s10) = hi_read env (or_fm_interval r) s9;
          s11 = hi_write env (or_periodic_start r) (9 * (fi AND BL_OHCI_REG_FM_INTERVAL_FI) div 10) s10;
          s12 = hci_modify env (or_control r) (\<lambda>c. c AND NOT BL_OHCI_REG_CONTROL_HCFS) s11
      in hci_modify env (or_control r) (\<lambda>c. c OR BL_OHCI_HCFS_USB_OPERATIONAL) s12)"

definition bl_ohci_controller_init :: "'d hci_st hci_env \<Rightarrow> addr \<Rightarrow> 'd hci_st \<Rightarrow> (bl_status \<times> 'd hci_st) option" where
  "bl_ohci_controller_init env ohci s =
     (let r = oh_regs (mem s) ohci; (rev', s1) = hi_read env (or_revision r) s
      in if rev' AND BL_OHCI_REG_REVISION_REV \<noteq> 0x10 then Some (BL_STATUS_USB_INVALID_DEVICE, s1)
         else case hi_read env (or_rh_descriptor_a r) s1 of
           (a, s2) \<Rightarrow>
             if a AND BL_OHCI_REG_RH_DESCRIPTOR_A_NDP > 0xf then Some (BL_STATUS_USB_INVALID_DEVICE, s2)
             else case ohci_ownership env r s2 of
               (Some status, s3) \<Rightarrow> Some (status, s3)
             | (None, s3) \<Rightarrow> do {
                 (status, s4) \<leftarrow> bl_ohci_init_data_structures ohci s3;
                 if failed status then Some (status, s4) else Some (BL_STATUS_SUCCESS, ohci_run env ohci r s4) })"

definition bl_ohci_pci_init :: "'d hci_st hci_env \<Rightarrow> 'd hci_st pci_hook" where
  "bl_ohci_pci_init env i s =
     (case bl_pci_check_device_class (hi_io env) i BL_PCI_BASE_CLASS_SERIAL BL_PCI_SUBCLASS_SERIAL_USB BL_PCI_PROG_IF_SERIAL_USB_OHCI s of
        (status, s1) \<Rightarrow> if failed status then Some (status, s1)
          else case bl_pci_read_config_long (hi_io env) i BL_PCI_CONFIG_REG_BAR0 s1 of
            (base, s2) \<Rightarrow>
              if base AND BL_OHCI_PCI_BAR0_INDICATPR \<noteq> 0 \<or> base AND BL_OHCI_PCI_BAR0_BASE_ADDRESS = 0 then Some (BL_STATUS_USB_INVALID_DEVICE, s2)
              else do {
                (ohci, s3) \<leftarrow> bl_heap_alloc s2 sizeof_ohci_controller;
                if ohci = 0 then Some (BL_STATUS_MEMORY_ALLOCATION_FAILED, s3)
                else do {
                  (status1, s4) \<leftarrow> bl_ohci_controller_init env ohci (s3\<lparr>mem := st32 (mem s3) ohci (base AND BL_OHCI_PCI_BAR0_BASE_ADDRESS)\<rparr>);
                  if failed status1 then Some (status1, bl_ohci_controller_uninit ohci s4)
                  else Some (BL_STATUS_SUCCESS, bl_ohci_controller_add ohci s4) } })"

definition ohci_functions :: "'d hci_st hci_env \<Rightarrow> 'd hci_st hc_funcs" where
  "ohci_functions env = \<lparr>
     hc_port_connected = (\<lambda>hc port s. Some (bl_ohci_port_device_connected env hc port s)),
     hc_port_get_speed = (\<lambda>hc port s. Some (bl_ohci_port_device_get_speed env hc port s)),
     hc_port_reset = (\<lambda>hc port s. Some (bl_ohci_port_reset env hc port s)),
     hc_port_init = (\<lambda>_ _ _ _. None),
     hc_control = (\<lambda>hc packet_size address speed su data n s. do {
       (_, s1) \<leftarrow> bl_ohci_control_transfer env hc packet_size address speed (hi_setup env) (hi_data env) n
         (s\<lparr>mem := mem_put (mem_put (mem s) (hi_setup env) (setup_bytes su)) (hi_data env) data\<rparr>);
       Some (mem_get (mem s1) (hi_data env) (length data), s1) }),
     hc_bulk = (\<lambda>hc address endp speed direction data n s. do {
       s1 \<leftarrow> bl_ohci_bulk_transfer env hc address endp speed direction (hi_data env) n (s\<lparr>mem := mem_put (mem s) (hi_data env) data\<rparr>);
       Some (mem_get (mem s1) (hi_data env) (length data), s1) }),
     hc_interrupt = None, hc_check_status = None\<rparr>"

partial_function (option) ohci_register_loop :: "'d hci_st hci_env \<Rightarrow> addr \<Rightarrow> 'd hci_st \<Rightarrow> 'd hci_st option" where
  "ohci_register_loop env ohci s =
     (if ohci = 0 then Some s
      else do {
        (hc, s1) \<leftarrow> bl_heap_alloc s sizeof_host_controller;
        if hc = 0 then Some s1
        else do {
          let s2 = s1\<lparr>mem := hc_fill BL_USB_HC_OHCI (hi_funcs env) ohci hc (mem s1)\<rparr>;
          let (a, s3) = hi_read env (or_rh_descriptor_a (oh_regs (mem s2) ohci)) s2;
          let s4 = bl_usb_host_controller_register hc (s3\<lparr>mem := hc_set_ports hc (a AND BL_OHCI_REG_RH_DESCRIPTOR_A_NDP) (mem s3)\<rparr>);
          ohci_register_loop env (oh_next (mem s4) ohci) s4 } })"

definition ohci_module_init :: "'d hci_st hci_env \<Rightarrow> 'd hci_st \<Rightarrow> 'd hci_st option" where
  "ohci_module_init env s = do {
     s1 \<leftarrow> bl_pci_iterate_devices (hi_io env) (hi_print env) (Some (bl_ohci_pci_init env)) s;
     ohci_register_loop env (ohci_list (usb_hw s1)) s1 }"

end
