(* ===== verification/Bl_Ehci.thy ===== *)
theory Bl_Ehci
  imports Bl_Ohci
begin

text \<open>
  The EHCI driver: src/boot-loader/modules/usb/ehci. The capability and the operational registers are memory-mapped; the driver has no bulk transfer.
  A queue head for a bulk transfer would be an uninitialised pointer: \<open>bl_ehci_init_qh\<close> has no result there.
\<close>

unbundle bit_operations_syntax

definition BL_EHCI_PCI_BAR0_TYPE :: u32 where "BL_EHCI_PCI_BAR0_TYPE = push_bit 1 0x3"
definition BL_EHCI_PCI_BAR0_TYPE_32_BIT :: u32 where "BL_EHCI_PCI_BAR0_TYPE_32_BIT = push_bit 1 0x0"
definition BL_EHCI_PCI_BAR0_BASE_ADDRESS :: u32 where "BL_EHCI_PCI_BAR0_BASE_ADDRESS = push_bit 8 0xffffff"
definition BL_EHCI_PCI_SBRN :: u8 where "BL_EHCI_PCI_SBRN = 0x20"
definition BL_PCI_SUBCLASS_SERIAL_USB_EHCI :: int where "BL_PCI_SUBCLASS_SERIAL_USB_EHCI = 0x03"
definition BL_PCI_PROG_IF_SERIAL_USB_EHCI :: int where "BL_PCI_PROG_IF_SERIAL_USB_EHCI = 0x20"
definition BL_EHCI_CAP_REG_HCI_VERSION :: u16 where "BL_EHCI_CAP_REG_HCI_VERSION = 0x100"
definition BL_EHCI_CAP_REG_HCSPARAMS_N_PORTS :: u32 where "BL_EHCI_CAP_REG_HCSPARAMS_N_PORTS = push_bit 0 0xf"
definition BL_EHCI_OP_REG_USBCMD_RUN_STOP :: u32 where "BL_EHCI_OP_REG_USBCMD_RUN_STOP = push_bit 0 1"
definition BL_EHCI_OP_REG_USBCMD_HC_RESET :: u32 where "BL_EHCI_OP_REG_USBCMD_HC_RESET = push_bit 1 1"
definition BL_EHCI_OP_REG_USBCMD_PERIODIC_ENABLE :: u32 where "BL_EHCI_OP_REG_USBCMD_PERIODIC_ENABLE = push_bit 4 1"
definition BL_EHCI_OP_REG_USBCMD_ASYNC_ENABLE :: u32 where "BL_EHCI_OP_REG_USBCMD_ASYNC_ENABLE = push_bit 5 1"
definition BL_EHCI_OP_REG_USBSTS_HC_HALTED :: u32 where "BL_EHCI_OP_REG_USBSTS_HC_HALTED = push_bit 12 1"
definition BL_EHCI_OP_REG_CONFIGFLAG_HC_ROUTE :: u32 where "BL_EHCI_OP_REG_CONFIGFLAG_HC_ROUTE = push_bit 0 1"
definition BL_EHCI_OP_REG_PORTSC_CONNECT_STATUS :: u32 where "BL_EHCI_OP_REG_PORTSC_CONNECT_STATUS = push_bit 0 1"
definition BL_EHCI_OP_REG_PORTSC_ENABLED :: u32 where "BL_EHCI_OP_REG_PORTSC_ENABLED = push_bit 2 1"
definition BL_EHCI_OP_REG_PORTSC_ENABLED_CHANGE :: u32 where "BL_EHCI_OP_REG_PORTSC_ENABLED_CHANGE = push_bit 3 1"
definition BL_EHCI_OP_REG_PORTSC_PORT_RESET :: u32 where "BL_EHCI_OP_REG_PORTSC_PORT_RESET = push_bit 8 1"
definition BL_EHCI_OP_REG_PORTSC_LINE_STATUS :: u32 where "BL_EHCI_OP_REG_PORTSC_LINE_STATUS = push_bit 10 3"
definition BL_EHCI_OP_REG_PORTSC_LINE_STATUS_K :: u32 where "BL_EHCI_OP_REG_PORTSC_LINE_STATUS_K = push_bit 10 1"
definition BL_EHCI_OP_REG_PORTSC_PORT_OWNER :: u32 where "BL_EHCI_OP_REG_PORTSC_PORT_OWNER = push_bit 13 1"
definition BL_EHCI_FRAME_LIST_PTR_T :: u32 where "BL_EHCI_FRAME_LIST_PTR_T = push_bit 0 1"

definition BL_EHCI_QTD_LINK_T :: u32 where "BL_EHCI_QTD_LINK_T = push_bit 0 1"
definition BL_EHCI_QTD_TOKEN_MISSED_MICRO_FRAME :: u32 where "BL_EHCI_QTD_TOKEN_MISSED_MICRO_FRAME = push_bit 2 1"
definition BL_EHCI_QTD_TOKEN_XACTERR :: u32 where "BL_EHCI_QTD_TOKEN_XACTERR = push_bit 3 1"
definition BL_EHCI_QTD_TOKEN_BABBLE_DETECTED :: u32 where "BL_EHCI_QTD_TOKEN_BABBLE_DETECTED = push_bit 4 1"
definition BL_EHCI_QTD_TOKEN_DATA_BUFFER_ERROR :: u32 where "BL_EHCI_QTD_TOKEN_DATA_BUFFER_ERROR = push_bit 5 1"
definition BL_EHCI_QTD_TOKEN_HALTED :: u32 where "BL_EHCI_QTD_TOKEN_HALTED = push_bit 6 1"
definition BL_EHCI_QTD_TOKEN_ACTIVE :: u32 where "BL_EHCI_QTD_TOKEN_ACTIVE = push_bit 7 1"
definition BL_EHCI_QTD_TOKEN_PID_SETUP :: u32 where "BL_EHCI_QTD_TOKEN_PID_SETUP = push_bit 8 2"
definition BL_EHCI_QTD_TOKEN_PID_OUT :: u32 where "BL_EHCI_QTD_TOKEN_PID_OUT = push_bit 8 0"
definition BL_EHCI_QTD_TOKEN_PID_IN :: u32 where "BL_EHCI_QTD_TOKEN_PID_IN = push_bit 8 1"
definition BL_EHCI_QTD_TOKEN_CERR :: u32 where "BL_EHCI_QTD_TOKEN_CERR = push_bit 10 0x3"
definition BL_EHCI_QTD_TOKEN_C_PAGE :: u32 where "BL_EHCI_QTD_TOKEN_C_PAGE = push_bit 12 0x5"
definition BL_EHCI_QTD_TOKEN_BUFFER_SIZE :: u32 where "BL_EHCI_QTD_TOKEN_BUFFER_SIZE = 0x1000"
definition BL_EHCI_QTD_TOKEN_MAX_BUFFER_SIZE :: u32 where "BL_EHCI_QTD_TOKEN_MAX_BUFFER_SIZE = 0x5000"
definition BL_EHCI_QTD_TOKEN_TOGGLE :: u32 where "BL_EHCI_QTD_TOKEN_TOGGLE = push_bit 31 1"
definition BL_EHCI_QTD_TOKEN_STATUS :: "u32 \<Rightarrow> u32" where "BL_EHCI_QTD_TOKEN_STATUS token = token AND 0xff"
definition BL_EHCI_MAKE_QTD_CERR :: "u32 \<Rightarrow> u32" where "BL_EHCI_MAKE_QTD_CERR cerr = push_bit 10 cerr AND BL_EHCI_QTD_TOKEN_CERR"
definition BL_EHCI_MAKE_QTD_C_PAGE :: "u32 \<Rightarrow> u32" where "BL_EHCI_MAKE_QTD_C_PAGE page = push_bit 12 page AND BL_EHCI_QTD_TOKEN_C_PAGE"
definition BL_EHCI_MAKE_QTD_BUFFER_SIZE :: "u32 \<Rightarrow> u32" where "BL_EHCI_MAKE_QTD_BUFFER_SIZE sz = push_bit 16 sz"
definition BL_EHCI_MAKE_QTD_TOGGLE :: "u32 \<Rightarrow> u32" where "BL_EHCI_MAKE_QTD_TOGGLE toggle = push_bit 31 toggle AND BL_EHCI_QTD_TOKEN_TOGGLE"

definition BL_EHCI_QH_LINK_T :: u32 where "BL_EHCI_QH_LINK_T = push_bit 0 1"
definition BL_EHCI_QH_LINK_TYPE_QH :: u32 where "BL_EHCI_QH_LINK_TYPE_QH = push_bit 1 1"
definition BL_EHCI_QH_CHARS_ADDRESS :: u32 where "BL_EHCI_QH_CHARS_ADDRESS = push_bit 0 0x7f"
definition BL_EHCI_QH_CHARS_ENDPOINT :: u32 where "BL_EHCI_QH_CHARS_ENDPOINT = push_bit 8 0xf"
definition BL_EHCI_QH_CHARS_FULL_SPEED :: u32 where "BL_EHCI_QH_CHARS_FULL_SPEED = push_bit 12 0"
definition BL_EHCI_QH_CHARS_LOW_SPEED :: u32 where "BL_EHCI_QH_CHARS_LOW_SPEED = push_bit 12 1"
definition BL_EHCI_QH_CHARS_HIGH_SPEED :: u32 where "BL_EHCI_QH_CHARS_HIGH_SPEED = push_bit 12 2"
definition BL_EHCI_QH_CHARS_DTC :: u32 where "BL_EHCI_QH_CHARS_DTC = push_bit 14 1"
definition BL_EHCI_QH_CHARS_H :: u32 where "BL_EHCI_QH_CHARS_H = push_bit 15 1"
definition BL_EHCI_QH_CHARS_MAX_PACKET_LEN :: u32 where "BL_EHCI_QH_CHARS_MAX_PACKET_LEN = push_bit 16 0x3ff"
definition BL_EHCI_QH_CHARS_C :: u32 where "BL_EHCI_QH_CHARS_C = push_bit 27 1"
definition BL_EHCI_MAKE_QH_ADDRESS :: "u32 \<Rightarrow> u32" where "BL_EHCI_MAKE_QH_ADDRESS address = push_bit 0 address AND BL_EHCI_QH_CHARS_ADDRESS"
definition BL_EHCI_MAKE_QH_ENDPOINT :: "u32 \<Rightarrow> u32" where "BL_EHCI_MAKE_QH_ENDPOINT endpoint = push_bit 8 endpoint AND BL_EHCI_QH_CHARS_ENDPOINT"
definition BL_EHCI_MAKE_QH_MAX_PACKET_LEN :: "u32 \<Rightarrow> u32" where
  "BL_EHCI_MAKE_QH_MAX_PACKET_LEN len = push_bit 16 len AND BL_EHCI_QH_CHARS_MAX_PACKET_LEN"

subsection \<open>Structures\<close>

definition ec_cap_length :: "addr \<Rightarrow> addr" where "ec_cap_length c = c"
definition ec_hci_version :: "addr \<Rightarrow> addr" where "ec_hci_version c = c + 2"
definition ec_hc_sparams :: "addr \<Rightarrow> addr" where "ec_hc_sparams c = c + 4"

definition eo_usb_cmd :: "addr \<Rightarrow> addr" where "eo_usb_cmd r = r"
definition eo_usb_sts :: "addr \<Rightarrow> addr" where "eo_usb_sts r = r + 4"
definition eo_periodic_list_base :: "addr \<Rightarrow> addr" where "eo_periodic_list_base r = r + 0x14"
definition eo_async_list_addr :: "addr \<Rightarrow> addr" where "eo_async_list_addr r = r + 0x18"
definition eo_config_flag :: "addr \<Rightarrow> addr" where "eo_config_flag r = r + 0x40"
definition eo_port_sc :: "addr \<Rightarrow> u32 \<Rightarrow> addr" where "eo_port_sc r port = r + 0x44 + 4 * port"

definition qtd_next_qtd :: "addr \<Rightarrow> addr" where "qtd_next_qtd qtd = qtd"
definition qtd_alternate_next_qtd :: "addr \<Rightarrow> addr" where "qtd_alternate_next_qtd qtd = qtd + 4"
definition qtd_token :: "addr \<Rightarrow> addr" where "qtd_token qtd = qtd + 8"
definition qtd_buffer_pointer :: "addr \<Rightarrow> u32 \<Rightarrow> addr" where "qtd_buffer_pointer qtd i = qtd + 12 + 4 * i"
definition qtd_extended_buffer_pointer :: "addr \<Rightarrow> addr" where "qtd_extended_buffer_pointer qtd = qtd + 32"
definition qtd_used :: "addr \<Rightarrow> addr" where "qtd_used qtd = qtd + 52"
definition qtd_original_next_qtd :: "addr \<Rightarrow> addr" where "qtd_original_next_qtd qtd = qtd + 56"
definition sizeof_ehci_qtd :: nat where "sizeof_ehci_qtd = 64"

definition eqh_link :: "addr \<Rightarrow> addr" where "eqh_link qh = qh"
definition eqh_chars :: "addr \<Rightarrow> addr" where "eqh_chars qh = qh + 4"
definition eqh_current_qtd :: "addr \<Rightarrow> addr" where "eqh_current_qtd qh = qh + 12"
definition eqh_overlay :: "addr \<Rightarrow> addr" where "eqh_overlay qh = qh + 16"
definition eqh_used :: "addr \<Rightarrow> addr" where "eqh_used qh = qh + 80"
definition eqh_first_qtd :: "addr \<Rightarrow> addr" where "eqh_first_qtd qh = qh + 84"
definition eqh_last_qtd :: "addr \<Rightarrow> addr" where "eqh_last_qtd qh = qh + 88"
definition sizeof_ehci_qh :: nat where "sizeof_ehci_qh = 96"

definition BL_EHCI_NUM_QTDS :: nat where "BL_EHCI_NUM_QTDS = 256"
definition BL_EHCI_NUM_QHS :: nat where "BL_EHCI_NUM_QHS = 64"

definition eh_cap_regs :: "mem \<Rightarrow> addr \<Rightarrow> addr" where "eh_cap_regs m e = ld32 m e"
definition eh_op_regs :: "mem \<Rightarrow> addr \<Rightarrow> addr" where "eh_op_regs m e = ld32 m (e + 4)"
definition eh_framelist_ptrs :: "mem \<Rightarrow> addr \<Rightarrow> addr" where "eh_framelist_ptrs m e = ld32 m (e + 12)"
definition eh_qh_head :: "mem \<Rightarrow> addr \<Rightarrow> addr" where "eh_qh_head m e = ld32 m (e + 16)"
definition eh_qhs :: "mem \<Rightarrow> addr \<Rightarrow> addr" where "eh_qhs m e = ld32 m (e + 20)"
definition eh_qtds :: "mem \<Rightarrow> addr \<Rightarrow> addr" where "eh_qtds m e = ld32 m (e + 24)"
definition eh_next :: "mem \<Rightarrow> addr \<Rightarrow> addr" where "eh_next m e = ld32 m (e + 28)"
definition sizeof_ehci_controller :: u32 where "sizeof_ehci_controller = 32"

definition bl_ehci_controller_add :: "addr \<Rightarrow> 'd hci_st \<Rightarrow> 'd hci_st" where
  "bl_ehci_controller_add ehci s = s\<lparr>mem := st32 (mem s) (ehci + 28) (ehci_list (usb_hw s)), usb_hw := (usb_hw s)\<lparr>ehci_list := ehci\<rparr>\<rparr>"

text \<open>A word of memory changed in place.\<close>

definition mem_modify :: "addr \<Rightarrow> (u32 \<Rightarrow> u32) \<Rightarrow> mem \<Rightarrow> mem" where "mem_modify a f m = st32 m a (f (ld32 m a))"

definition bl_ehci_reset_qh :: "addr \<Rightarrow> mem \<Rightarrow> mem" where
  "bl_ehci_reset_qh qh m =
     (let m1 = st32 (st32 m (qtd_next_qtd (eqh_overlay qh)) BL_EHCI_QTD_LINK_T) (qtd_alternate_next_qtd (eqh_overlay qh)) BL_EHCI_QTD_LINK_T;
          m2 = snd (bl_memset m1 (eqh_overlay qh) 0 (of_nat sizeof_ehci_qtd));
          m3 = mem_modify (qtd_token (eqh_overlay qh)) (\<lambda>v. v AND NOT BL_EHCI_QTD_TOKEN_ACTIVE) m2
      in mem_modify (qtd_token (eqh_overlay qh)) (\<lambda>v. v OR BL_EHCI_QTD_TOKEN_HALTED) m3)"

subsection \<open>Ports\<close>

definition bl_ehci_number_of_ports :: "'d hci_st hci_env \<Rightarrow> addr \<Rightarrow> 'd hci_st \<Rightarrow> u32 \<times> 'd hci_st" where
  "bl_ehci_number_of_ports env ehci s =
     (case hi_read env (ec_hc_sparams (eh_cap_regs (mem s) ehci)) s of (v, s1) \<Rightarrow> (v AND BL_EHCI_CAP_REG_HCSPARAMS_N_PORTS, s1))"

definition ehci_no_port :: "'d hci_st hci_env \<Rightarrow> addr \<Rightarrow> u32 \<Rightarrow> 'd hci_st \<Rightarrow> bool \<times> 'd hci_st" where
  "ehci_no_port env hc port s = (case bl_ehci_number_of_ports env (hc_data (mem s) hc) s of (n, s1) \<Rightarrow> (n <s port \<or> port <s 0, s1))"

definition ehci_port :: "mem \<Rightarrow> addr \<Rightarrow> u32 \<Rightarrow> addr" where "ehci_port m hc port = eo_port_sc (eh_op_regs m (hc_data m hc)) port"

definition bl_ehci_port_device_connected :: "'d hci_st hci_env \<Rightarrow> addr \<Rightarrow> u32 \<Rightarrow> 'd hci_st \<Rightarrow> bool \<times> 'd hci_st" where
  "bl_ehci_port_device_connected env hc port s =
     (case ehci_no_port env hc port s of
        (none, s1) \<Rightarrow> if none then (False, s1)
          else let p = ehci_port (mem s1) hc port; (v, s2) = hi_read env p s1
               in if v AND BL_EHCI_OP_REG_PORTSC_CONNECT_STATUS \<noteq> 0
                  then (True, hci_modify env p (\<lambda>v. v OR BL_EHCI_OP_REG_PORTSC_CONNECT_STATUS) s2)
                  else (False, s2))"

text \<open>The speed \<open>-1\<close> is no speed.\<close>

definition bl_ehci_port_device_get_speed :: "'d hci_st hci_env \<Rightarrow> addr \<Rightarrow> u32 \<Rightarrow> 'd hci_st \<Rightarrow> u32 \<times> 'd hci_st" where
  "bl_ehci_port_device_get_speed env hc port s =
     (case ehci_no_port env hc port s of
        (none, s1) \<Rightarrow> if none then (- 1, s1)
          else let p = ehci_port (mem s1) hc port; (v, s2) = hi_read env p s1
               in if v AND BL_EHCI_OP_REG_PORTSC_PORT_OWNER \<noteq> 0 then (- 1, s2)
                  else case hi_read env p s2 of
                    (w, s3) \<Rightarrow> if w AND BL_EHCI_OP_REG_PORTSC_ENABLED \<noteq> 0 then (BL_USB_HIGH_SPEED, s3)
                      else case bl_ehci_port_device_connected env hc port s3 of
                        (connected, s4) \<Rightarrow> if \<not> connected then (- 1, s4)
                          else case hi_read env p s4 of
                            (x, s5) \<Rightarrow> (if x AND BL_EHCI_OP_REG_PORTSC_LINE_STATUS = BL_EHCI_OP_REG_PORTSC_LINE_STATUS_K then - 1 else BL_USB_HIGH_SPEED, s5))"

definition bl_ehci_port_reset :: "'d hci_st hci_env \<Rightarrow> addr \<Rightarrow> u32 \<Rightarrow> 'd hci_st \<Rightarrow> 'd hci_st" where
  "bl_ehci_port_reset env hc port s =
     (case ehci_no_port env hc port s of
        (none, s1) \<Rightarrow> if none then s1
          else let p = ehci_port (mem s1) hc port;
                   s2 = hci_wait_loop env p BL_EHCI_OP_REG_PORTSC_ENABLED 9 (hci_modify env p (\<lambda>v. v AND NOT BL_EHCI_OP_REG_PORTSC_ENABLED) s1);
                   (v, s3) = hi_read env p s2
               in if v AND BL_EHCI_OP_REG_PORTSC_ENABLED_CHANGE \<noteq> 0 then s3
                  else let s4 = hi_sleep env 50 (hci_modify env p (\<lambda>v. v OR BL_EHCI_OP_REG_PORTSC_PORT_RESET) s3);
                           s5 = hi_sleep env 10 (hci_modify env p (\<lambda>v. v AND NOT BL_EHCI_OP_REG_PORTSC_PORT_RESET) s4)
                       in snd (hi_read env p s5))"

subsection \<open>Queue heads\<close>

definition bl_ehci_set_qh :: "addr \<Rightarrow> u32 \<Rightarrow> u32 \<Rightarrow> u32 \<Rightarrow> u32 \<Rightarrow> u32 \<Rightarrow> mem \<Rightarrow> mem" where
  "bl_ehci_set_qh qh transfer address endpoint speed max_packet_length m =
     (let put = (\<lambda>v. mem_modify (eqh_chars qh) (\<lambda>c. c OR v));
          m1 = put (BL_EHCI_MAKE_QH_ENDPOINT endpoint) (put (BL_EHCI_MAKE_QH_ADDRESS address) m)
      in if speed \<notin> {BL_USB_LOW_SPEED, BL_USB_FULL_SPEED, BL_USB_HIGH_SPEED} then m1
         else let m2 = put (if speed = BL_USB_LOW_SPEED then BL_EHCI_QH_CHARS_LOW_SPEED
                            else if speed = BL_USB_FULL_SPEED then BL_EHCI_QH_CHARS_FULL_SPEED else BL_EHCI_QH_CHARS_HIGH_SPEED) m1;
                  m3 = put (BL_EHCI_MAKE_QH_MAX_PACKET_LEN max_packet_length) (put BL_EHCI_QH_CHARS_DTC m2)
              in if speed \<noteq> BL_USB_HIGH_SPEED \<and> transfer = BL_USB_TRANSFER_CONTROL then put BL_EHCI_QH_CHARS_C m3 else m3)"

definition bl_ehci_link_qh :: "addr \<Rightarrow> addr \<Rightarrow> mem \<Rightarrow> mem" where
  "bl_ehci_link_qh ehci qh m =
     (let m1 = st32 m (eqh_link qh) (ld32 m (eqh_link (eh_qh_head m ehci)) OR BL_EHCI_QH_LINK_TYPE_QH)
      in st32 m1 (eqh_link (eh_qh_head m1 ehci)) (qh OR BL_EHCI_QH_LINK_TYPE_QH))"

text \<open>The queue heads from \<open>i\<close> on: one with the address and the endpoint, or one without either; 0 when there is none.\<close>

fun ehci_qh_loop :: "addr \<Rightarrow> u32 \<Rightarrow> u32 \<Rightarrow> nat \<Rightarrow> nat \<Rightarrow> mem \<Rightarrow> addr" where
  "ehci_qh_loop qhs qh_address qh_endpoint 0 i m = 0"
| "ehci_qh_loop qhs qh_address qh_endpoint (Suc n) i m =
     (let qh = qhs + of_nat (sizeof_ehci_qh * i); c = ld32 m (eqh_chars qh)
      in if c AND BL_EHCI_QH_CHARS_ADDRESS = qh_address \<and> c AND BL_EHCI_QH_CHARS_ENDPOINT = qh_endpoint then qh
         else if c AND BL_EHCI_QH_CHARS_ADDRESS = 0 \<and> c AND BL_EHCI_QH_CHARS_ENDPOINT = 0 then qh
         else ehci_qh_loop qhs qh_address qh_endpoint n (i + 1) m)"

definition bl_ehci_alloc_qh :: "addr \<Rightarrow> u32 \<Rightarrow> u32 \<Rightarrow> mem \<Rightarrow> addr" where
  "bl_ehci_alloc_qh ehci address endpoint m =
     ehci_qh_loop (eh_qhs m ehci) (BL_EHCI_MAKE_QH_ADDRESS address) (BL_EHCI_MAKE_QH_ENDPOINT endpoint) (BL_EHCI_NUM_QHS - 1) 1 m"

definition bl_ehci_init_qh :: "addr \<Rightarrow> u32 \<Rightarrow> u32 \<Rightarrow> u32 \<Rightarrow> u32 \<Rightarrow> u32 \<Rightarrow> mem \<Rightarrow> (addr \<times> mem) option" where
  "bl_ehci_init_qh ehci transfer address endpoint speed max_packet_length m = do {
     qh \<leftarrow> (if transfer = BL_USB_TRANSFER_CONTROL
            then Some (if address = 0 \<and> endpoint = 0 then eh_qhs m ehci else bl_ehci_alloc_qh ehci address endpoint m)
            else if transfer = BL_USB_TRANSFER_BULK then None else Some 0);
     Some (if qh = 0 then (0, m)
           else if ld32 m (eqh_used qh) = 0
           then (qh, st32 (bl_ehci_link_qh ehci qh (bl_ehci_set_qh qh transfer address endpoint speed max_packet_length m)) (eqh_used qh) 1)
           else (qh, m)) }"

subsection \<open>Transfer descriptors\<close>

definition bl_ehci_alloc_qtd :: "addr \<Rightarrow> mem \<Rightarrow> addr \<times> mem" where
  "bl_ehci_alloc_qtd ehci m = alloc_unused (eh_qtds m ehci) sizeof_ehci_qtd (qtd_used 0) BL_EHCI_NUM_QTDS m"

definition ehci_pid :: "u32 \<Rightarrow> u32" where
  "ehci_pid pid =
     (if pid = BL_USB_PID_TOKEN_SETUP then BL_EHCI_QTD_TOKEN_PID_SETUP
      else if pid = BL_USB_PID_TOKEN_OUT then BL_EHCI_QTD_TOKEN_PID_OUT
      else if pid = BL_USB_PID_TOKEN_IN then BL_EHCI_QTD_TOKEN_PID_IN else 0)"

text \<open>What is left of the buffer behind its page \<open>i\<close>, and the pages behind the first: the loop of the code does not advance its index.\<close>

definition TD_BUFFER_ALIGNMENT :: "addr \<Rightarrow> u32 \<Rightarrow> u32 \<Rightarrow> mem \<Rightarrow> u32" where
  "TD_BUFFER_ALIGNMENT qtd i left m =
     (let p = ld32 m (qtd_buffer_pointer qtd i)
      in if p mod BL_EHCI_QTD_TOKEN_BUFFER_SIZE \<noteq> 0 then left - (BL_MEMORY_ALIGN_UP p BL_EHCI_QTD_TOKEN_BUFFER_SIZE - p)
         else left - BL_EHCI_QTD_TOKEN_BUFFER_SIZE)"

partial_function (option) ehci_pages_loop :: "addr \<Rightarrow> u32 \<Rightarrow> u32 \<Rightarrow> mem \<Rightarrow> mem option" where
  "ehci_pages_loop qtd i left m =
     (if \<not> 0 <s left then Some m
      else let m1 = st32 m (qtd_buffer_pointer qtd i) (BL_MEMORY_ALIGN_UP (ld32 m (qtd_buffer_pointer qtd (i - 1))) BL_EHCI_QTD_TOKEN_BUFFER_SIZE)
           in ehci_pages_loop qtd i (TD_BUFFER_ALIGNMENT qtd i left m1) m1)"

definition bl_ehci_init_qtd :: "addr \<Rightarrow> addr \<Rightarrow> u32 \<Rightarrow> u32 \<Rightarrow> u32 \<Rightarrow> mem \<Rightarrow> (addr \<times> mem) option" where
  "bl_ehci_init_qtd ehci buf length' toggle pid m =
     (if BL_EHCI_QTD_TOKEN_MAX_BUFFER_SIZE <s length' \<or> length' <s 0 then Some (0, m)
      else case bl_ehci_alloc_qtd ehci m of
        (qtd, m1) \<Rightarrow> if qtd = 0 then Some (0, m1)
          else do {
            let m2 = st32 (st32 (st32 m1 (qtd_alternate_next_qtd qtd) BL_EHCI_QTD_LINK_T) (qtd_next_qtd qtd) BL_EHCI_QTD_LINK_T) (qtd_original_next_qtd qtd) BL_EHCI_QTD_LINK_T;
            let m3 = st32 m2 (qtd_token qtd) (((BL_EHCI_QTD_TOKEN_ACTIVE OR ehci_pid pid) OR BL_EHCI_MAKE_QTD_CERR 3) OR BL_EHCI_MAKE_QTD_C_PAGE 0);
            let m4 = snd (bl_memset (snd (bl_memset m3 (qtd_buffer_pointer qtd 0) 0 20)) (qtd_extended_buffer_pointer qtd) 0 20);
            m5 \<leftarrow> (if buf \<noteq> 0 \<and> length' \<noteq> 0
                    then let m4' = st32 (mem_modify (qtd_token qtd) (\<lambda>v. v OR BL_EHCI_MAKE_QTD_BUFFER_SIZE length') m4) (qtd_buffer_pointer qtd 0) buf
                         in ehci_pages_loop qtd 1 (TD_BUFFER_ALIGNMENT qtd 0 length' m4') m4'
                    else Some (mem_modify (qtd_token qtd) (\<lambda>v. v OR BL_EHCI_MAKE_QTD_BUFFER_SIZE 0) m4));
            Some (qtd, mem_modify (qtd_token qtd) (\<lambda>v. v OR BL_EHCI_MAKE_QTD_TOGGLE toggle) m5) })"

partial_function (option) ehci_free_loop :: "addr \<Rightarrow> mem \<Rightarrow> mem option" where
  "ehci_free_loop qtd m =
     (let m1 = st32 m (qtd_used qtd) 0; next_qtd = ld32 m1 (qtd_original_next_qtd qtd)
      in if next_qtd AND BL_EHCI_QTD_LINK_T \<noteq> 0 then Some m1 else ehci_free_loop next_qtd m1)"

definition bl_ehci_free_qtd_list :: "addr \<Rightarrow> mem \<Rightarrow> mem option" where
  "bl_ehci_free_qtd_list qh m = (let m1 = bl_ehci_reset_qh qh m in ehci_free_loop (ld32 m1 (eqh_first_qtd qh)) m1)"

subsection \<open>The end of a transfer\<close>

definition bl_ehci_transfer_status :: "mem \<Rightarrow> addr \<Rightarrow> bl_status" where
  "bl_ehci_transfer_status m qh =
     (let c = BL_EHCI_QTD_TOKEN_STATUS (ld32 m (qtd_token (eqh_overlay qh)))
      in if c = BL_EHCI_QTD_TOKEN_BABBLE_DETECTED then BL_STATUS_USB_BABBLE_DETECTED
         else if c = BL_EHCI_QTD_TOKEN_MISSED_MICRO_FRAME \<or> c = BL_EHCI_QTD_TOKEN_XACTERR \<or> c = BL_EHCI_QTD_TOKEN_DATA_BUFFER_ERROR
         then BL_STATUS_USB_DATA_BUFFER_ERROR
         else BL_STATUS_USB_NAK_RECEIVED)"

definition bl_ehci_transfer_finished :: "mem \<Rightarrow> addr \<Rightarrow> bl_status" where
  "bl_ehci_transfer_finished m qh =
     (let token = ld32 m (qtd_token (eqh_overlay qh))
      in if token AND BL_EHCI_QTD_TOKEN_HALTED \<noteq> 0 then BL_STATUS_USB_SHOULD_CHECK_STATUS
         else if token AND BL_EHCI_QTD_TOKEN_ACTIVE = 0 \<and> ld32 m (qtd_next_qtd (eqh_overlay qh)) = BL_EHCI_QTD_LINK_T \<and>
           ld32 m (eqh_last_qtd qh) = ld32 m (eqh_current_qtd qh) then BL_STATUS_SUCCESS
         else BL_STATUS_USB_ACTION_NOT_FINISHED)"

definition ehci_transfer_error :: "'d hci_st hci_env \<Rightarrow> addr \<Rightarrow> 'd hci_st \<Rightarrow> bl_status \<times> 'd hci_st" where
  "ehci_transfer_error env qh s =
     (let s1 = bl_print_str (hi_print env) (ascii ''EHCI transfer error'' @ [0xa]) s in (bl_ehci_transfer_status (mem s1) qh, s1))"

fun ehci_timeout_loop :: "'d hci_st hci_env \<Rightarrow> addr \<Rightarrow> nat \<Rightarrow> 'd hci_st \<Rightarrow> (bl_status \<times> 'd hci_st) option" where
  "ehci_timeout_loop env qh 0 s = Some (ehci_transfer_error env qh s)"
| "ehci_timeout_loop env qh (Suc n) s =
     (let s1 = hi_sleep env 1 s; status = bl_ehci_transfer_finished (mem s1) qh
      in if \<not> failed status then do { m \<leftarrow> bl_ehci_free_qtd_list qh (mem s1); Some (status, s1\<lparr>mem := m\<rparr>) }
         else if status = BL_STATUS_USB_SHOULD_CHECK_STATUS then Some (ehci_transfer_error env qh s1)
         else ehci_timeout_loop env qh n s1)"

definition bl_ehci_check_transfer_timeout :: "'d hci_st hci_env \<Rightarrow> addr \<Rightarrow> nat \<Rightarrow> 'd hci_st \<Rightarrow> (bl_status \<times> 'd hci_st) option" where
  "bl_ehci_check_transfer_timeout env qh timeout s = ehci_timeout_loop env qh (timeout - 1) s"

subsection \<open>The control transfer\<close>

definition ehci_link :: "addr \<Rightarrow> addr \<Rightarrow> mem \<Rightarrow> mem" where
  "ehci_link qtd_prev qtd m = st32 (st32 m (qtd_next_qtd qtd_prev) qtd) (qtd_original_next_qtd qtd_prev) qtd"

text \<open>A descriptor linked behind another; 0 when none is left.\<close>

definition ehci_append :: "addr \<Rightarrow> addr \<Rightarrow> u32 \<Rightarrow> u32 \<Rightarrow> u32 \<Rightarrow> addr \<Rightarrow> mem \<Rightarrow> (addr \<times> mem) option" where
  "ehci_append ehci buf length' toggle pid qtd_prev m = do {
     (qtd, m1) \<leftarrow> bl_ehci_init_qtd ehci buf length' toggle pid m;
     Some (if qtd = 0 then (0, m1) else (qtd, ehci_link qtd_prev qtd m1)) }"

partial_function (option) ehci_data_loop :: "addr \<Rightarrow> addr \<Rightarrow> u32 \<Rightarrow> addr \<Rightarrow> addr \<Rightarrow> u32 \<Rightarrow> u32 \<Rightarrow> u32 \<Rightarrow> mem \<Rightarrow> (addr \<times> mem) option" where
  "ehci_data_loop ehci setup packet_size data qtd toggle length' off m =
     (if \<not> 0 <s length' then Some (qtd, m)
      else do {
        (qtd1, m1) \<leftarrow> ehci_append ehci (data + off) (int_min length' packet_size) (int_not toggle) (bl_usb_direction_pid m setup) qtd m;
        if qtd1 = 0 then Some (0, m1)
        else ehci_data_loop ehci setup packet_size data qtd1 (int_not toggle) (length' - packet_size) (off + packet_size) m1 })"

text \<open>The descriptors of a control transfer, linked: the first and the last, or nothing when none is left.\<close>

definition ehci_control_qtds :: "addr \<Rightarrow> u32 \<Rightarrow> addr \<Rightarrow> addr \<Rightarrow> u32 \<Rightarrow> mem \<Rightarrow> ((addr \<times> addr) option \<times> mem) option" where
  "ehci_control_qtds ehci packet_size setup data length' m = do {
     (qtd_head, m1) \<leftarrow> bl_ehci_init_qtd ehci setup sizeof_setup_data 0 BL_USB_PID_TOKEN_SETUP m;
     if qtd_head = 0 then Some (None, m1)
     else do {
       (qtd, m2) \<leftarrow>
         (if length' = 0 then ehci_append ehci 0 0 1 BL_USB_PID_TOKEN_IN qtd_head m1
          else do {
            (qtd_prev, m1') \<leftarrow> ehci_data_loop ehci setup packet_size data qtd_head 0 length' 0 m1;
            if qtd_prev = 0 then Some (0, m1') else ehci_append ehci 0 0 1 (bl_usb_direction_pid m1' setup) qtd_prev m1' });
       Some (if qtd = 0 then None else Some (qtd_head, qtd), m2) } }"

definition ehci_start :: "addr \<Rightarrow> addr \<Rightarrow> addr \<Rightarrow> mem \<Rightarrow> mem" where
  "ehci_start qh qtd_head qtd m =
     (let m1 = st32 (st32 (st32 m (qtd_next_qtd (eqh_overlay qh)) qtd_head) (eqh_first_qtd qh) qtd_head) (eqh_last_qtd qh) qtd
      in mem_modify (qtd_token (eqh_overlay qh)) (\<lambda>v. v AND NOT (BL_EHCI_QTD_TOKEN_HALTED OR BL_EHCI_QTD_TOKEN_ACTIVE)) m1)"

definition bl_ehci_control_transfer :: "'d hci_st hci_env \<Rightarrow> addr \<Rightarrow> u32 \<Rightarrow> u32 \<Rightarrow> u32 \<Rightarrow> addr \<Rightarrow> addr \<Rightarrow> u32 \<Rightarrow> 'd hci_st \<Rightarrow>
    (bl_status \<times> 'd hci_st) option" where
  "bl_ehci_control_transfer env hc packet_size0 address speed setup data length' s = do {
     let ehci = hc_data (mem s) hc;
     let packet_size = (if packet_size0 = 0 then 8 else packet_size0);
     (qh, m1) \<leftarrow> bl_ehci_init_qh ehci BL_USB_TRANSFER_CONTROL address 0 speed packet_size (mem s);
     if qh = 0 then Some (BL_STATUS_USB_INTERNAL_ERROR, s\<lparr>mem := m1\<rparr>)
     else do {
       (r, m2) \<leftarrow> ehci_control_qtds ehci packet_size setup data length' m1;
       case r of None \<Rightarrow> Some (BL_STATUS_USB_INTERNAL_ERROR, s\<lparr>mem := m2\<rparr>)
       | Some (qtd_head, qtd) \<Rightarrow> bl_ehci_check_transfer_timeout env qh 100 (s\<lparr>mem := ehci_start qh qtd_head qtd m2\<rparr>) } }"

subsection \<open>Controllers\<close>

definition bl_ehci_controller_uninit :: "addr \<Rightarrow> 'd hci_st \<Rightarrow> 'd hci_st" where
  "bl_ehci_controller_uninit ehci s =
     (if ehci = 0 then s
      else let s1 = free_member (ehci + 16) (of_nat sizeof_ehci_qh) s;
               s2 = free_member (ehci + 20) (of_nat (BL_EHCI_NUM_QHS * sizeof_ehci_qh)) s1
           in bl_heap_free s2 ehci sizeof_ehci_controller)"

fun ehci_qhs_loop :: "addr \<Rightarrow> nat \<Rightarrow> nat \<Rightarrow> mem \<Rightarrow> mem" where
  "ehci_qhs_loop qhs 0 i m = m"
| "ehci_qhs_loop qhs (Suc n) i m =
     (let qh = qhs + of_nat (sizeof_ehci_qh * i);
          m1 = st32 (st32 m (eqh_used qh) 0) (eqh_link qh) ((qh OR BL_EHCI_QH_LINK_TYPE_QH) OR BL_EHCI_QH_LINK_T)
      in ehci_qhs_loop qhs n (i + 1) (bl_ehci_reset_qh qh m1))"

fun ehci_qtds_loop :: "addr \<Rightarrow> nat \<Rightarrow> nat \<Rightarrow> mem \<Rightarrow> mem" where
  "ehci_qtds_loop qtds 0 i m = m"
| "ehci_qtds_loop qtds (Suc n) i m =
     (let qtd = qtds + of_nat (sizeof_ehci_qtd * i);
          m1 = st32 (st32 m (qtd_alternate_next_qtd qtd) BL_EHCI_QTD_LINK_T) (qtd_next_qtd qtd) BL_EHCI_QTD_LINK_T
      in ehci_qtds_loop qtds n (i + 1) (st32 m1 (qtd_original_next_qtd qtd) BL_EHCI_QTD_LINK_T))"

definition bl_ehci_init_data_structures :: "'d hci_st hci_env \<Rightarrow> addr \<Rightarrow> 'd hci_st \<Rightarrow> (bl_status \<times> 'd hci_st) option" where
  "bl_ehci_init_data_structures env ehci s = do {
     (frames, s0) \<leftarrow> bl_heap_alloc_align s 0x1000 0x1000;
     let s1 = s0\<lparr>mem := st32 (mem s0) (ehci + 12) frames\<rparr>;
     if frames = 0 then Some (BL_STATUS_MEMORY_ALLOCATION_FAILED, s1)
     else do {
       (head, s2) \<leftarrow> bl_heap_alloc_align (s1\<lparr>mem := frames_loop frames BL_EHCI_FRAME_LIST_PTR_T 1024 0 (mem s1)\<rparr>) (of_nat sizeof_ehci_qh) 0x20;
       let s3 = s2\<lparr>mem := st32 (mem s2) (ehci + 16) head\<rparr>;
       if head = 0 then Some (BL_STATUS_MEMORY_ALLOCATION_FAILED, s3)
       else do {
         let m4 = bl_ehci_reset_qh head (st32 (mem s3) (eqh_link head) ((head OR BL_EHCI_QH_LINK_TYPE_QH) OR BL_EHCI_QH_LINK_T));
         (qhs, s5) \<leftarrow> bl_heap_alloc_align (s3\<lparr>mem := st32 m4 (eqh_chars head) BL_EHCI_QH_CHARS_H\<rparr>) (of_nat (BL_EHCI_NUM_QHS * sizeof_ehci_qh)) 0x20;
         let s6 = s5\<lparr>mem := st32 (mem s5) (ehci + 20) qhs\<rparr>;
         if qhs = 0 then Some (BL_STATUS_MEMORY_ALLOCATION_FAILED, s6)
         else do {
           (qtds, s7) \<leftarrow> bl_heap_alloc_align (s6\<lparr>mem := ehci_qhs_loop qhs BL_EHCI_NUM_QHS 0 (mem s6)\<rparr>) (of_nat (BL_EHCI_NUM_QTDS * sizeof_ehci_qtd)) 0x20;
           let s8 = s7\<lparr>mem := st32 (mem s7) (ehci + 24) qtds\<rparr>;
           if qtds = 0 then Some (BL_STATUS_MEMORY_ALLOCATION_FAILED, s8)
           else do {
             let s9 = s8\<lparr>mem := ehci_qtds_loop qtds BL_EHCI_NUM_QTDS 0 (mem s8)\<rparr>;
             let s10 = hi_write env (eo_periodic_list_base (eh_op_regs (mem s9) ehci)) (eh_framelist_ptrs (mem s9) ehci) s9;
             let s11 = hi_write env (eo_async_list_addr (eh_op_regs (mem s10) ehci)) (eh_qh_head (mem s10) ehci) s10;
             Some (BL_STATUS_SUCCESS, hci_modify env (eo_usb_cmd (eh_op_regs (mem s11) ehci))
               (\<lambda>v. v OR (BL_EHCI_OP_REG_USBCMD_PERIODIC_ENABLE OR BL_EHCI_OP_REG_USBCMD_ASYNC_ENABLE)) s11) } } } } }"

definition bl_ehci_controller_init :: "'d hci_st hci_env \<Rightarrow> addr \<Rightarrow> 'd hci_st \<Rightarrow> (bl_status \<times> 'd hci_st) option" where
  "bl_ehci_controller_init env ehci s =
     (let c = eh_cap_regs (mem s) ehci; (version, s1) = hi_read16 env (ec_hci_version c) s
      in if version \<noteq> BL_EHCI_CAP_REG_HCI_VERSION then Some (BL_STATUS_USB_INVALID_HOST_CONTROLLER, s1)
         else let (cap_length, s2) = hi_read8 env (ec_cap_length c) s1; r = c + ucast cap_length;
                  s3 = hi_sleep env 2 (hci_modify env (eo_usb_cmd r) (\<lambda>v. v AND NOT BL_EHCI_OP_REG_USBCMD_RUN_STOP) (s2\<lparr>mem := st32 (mem s2) (ehci + 4) r\<rparr>));
                  (sts, s4) = hi_read env (eo_usb_sts r) s3
              in if sts AND BL_EHCI_OP_REG_USBSTS_HC_HALTED = 0 then Some (BL_STATUS_USB_INTERNAL_ERROR, s4)
                 else let s5 = hci_wait_loop env (eo_usb_cmd r) BL_EHCI_OP_REG_USBCMD_HC_RESET 49
                            (hci_modify env (eo_usb_cmd r) (\<lambda>v. v OR BL_EHCI_OP_REG_USBCMD_HC_RESET) s4);
                          (cmd, s6) = hi_read env (eo_usb_cmd r) s5
                      in if cmd AND BL_EHCI_OP_REG_USBSTS_HC_HALTED \<noteq> 0 then Some (BL_STATUS_USB_INTERNAL_ERROR, s6)
                         else do {
                           (status, s7) \<leftarrow> bl_ehci_init_data_structures env ehci s6;
                           if failed status then Some (status, s7)
                           else Some (BL_STATUS_SUCCESS, hci_modify env (eo_usb_cmd r) (\<lambda>v. v OR BL_EHCI_OP_REG_USBCMD_RUN_STOP)
                             (hci_modify env (eo_config_flag r) (\<lambda>v. v OR BL_EHCI_OP_REG_CONFIGFLAG_HC_ROUTE) s7)) })"

definition bl_ehci_pci_init :: "'d hci_st hci_env \<Rightarrow> 'd hci_st pci_hook" where
  "bl_ehci_pci_init env i s =
     (case bl_pci_check_device_class (hi_io env) i BL_PCI_BASE_CLASS_SERIAL BL_PCI_SUBCLASS_SERIAL_USB_EHCI BL_PCI_PROG_IF_SERIAL_USB_EHCI s of
        (status, s1) \<Rightarrow> if failed status then Some (status, s1)
          else case bl_pci_read_config_byte (hi_io env) i BL_PCI_CONFIG_REG_60H s1 of
            (sbrn, s2) \<Rightarrow> if sbrn \<noteq> BL_EHCI_PCI_SBRN then Some (BL_STATUS_USB_INVALID_HOST_CONTROLLER, s2)
              else case bl_pci_read_config_long (hi_io env) i BL_PCI_CONFIG_REG_BAR0 s2 of
                (base, s3) \<Rightarrow>
                  if base AND BL_EHCI_PCI_BAR0_TYPE \<noteq> BL_EHCI_PCI_BAR0_TYPE_32_BIT then Some (BL_STATUS_USB_INVALID_HOST_CONTROLLER, s3)
                  else do {
                    (ehci, s4) \<leftarrow> bl_heap_alloc s3 sizeof_ehci_controller;
                    if ehci = 0 then Some (BL_STATUS_MEMORY_ALLOCATION_FAILED, s4)
                    else do {
                      (status1, s5) \<leftarrow> bl_ehci_controller_init env ehci (s4\<lparr>mem := st32 (mem s4) ehci (base AND BL_EHCI_PCI_BAR0_BASE_ADDRESS)\<rparr>);
                      if failed status1 then Some (status1, bl_ehci_controller_uninit ehci s5)
                      else Some (BL_STATUS_SUCCESS, bl_ehci_controller_add ehci s5) } })"

definition ehci_functions :: "'d hci_st hci_env \<Rightarrow> 'd hci_st hc_funcs" where
  "ehci_functions env = \<lparr>
     hc_port_connected = (\<lambda>hc port s. Some (bl_ehci_port_device_connected env hc port s)),
     hc_port_get_speed = (\<lambda>hc port s. Some (bl_ehci_port_device_get_speed env hc port s)),
     hc_port_reset = (\<lambda>hc port s. Some (bl_ehci_port_reset env hc port s)),
     hc_port_init = (\<lambda>_ _ _ _. None),
     hc_control = (\<lambda>hc packet_size address speed su data n s. do {
       (_, s1) \<leftarrow> bl_ehci_control_transfer env hc packet_size address speed (hi_setup env) (hi_data env) n
         (s\<lparr>mem := mem_put (mem_put (mem s) (hi_setup env) (setup_bytes su)) (hi_data env) data\<rparr>);
       Some (mem_get (mem s1) (hi_data env) (length data), s1) }),
     hc_bulk = (\<lambda>_ _ _ _ _ _ _ _. None),
     hc_interrupt = None, hc_check_status = None\<rparr>"

partial_function (option) ehci_register_loop :: "'d hci_st hci_env \<Rightarrow> addr \<Rightarrow> 'd hci_st \<Rightarrow> 'd hci_st option" where
  "ehci_register_loop env ehci s =
     (if ehci = 0 then Some s
      else do {
        (hc, s1) \<leftarrow> bl_heap_alloc s sizeof_host_controller;
        if hc = 0 then Some s1
        else do {
          let (ports', s2) = bl_ehci_number_of_ports env ehci (s1\<lparr>mem := hc_fill BL_USB_HC_EHCI (hi_funcs env) ehci hc (mem s1)\<rparr>);
          let s3 = bl_usb_host_controller_register hc (s2\<lparr>mem := hc_set_ports hc ports' (mem s2)\<rparr>);
          ehci_register_loop env (eh_next (mem s3) ehci) s3 } })"

definition ehci_module_init :: "'d hci_st hci_env \<Rightarrow> 'd hci_st \<Rightarrow> 'd hci_st option" where
  "ehci_module_init env s = do {
     s1 \<leftarrow> bl_pci_iterate_devices (hi_io env) (hi_print env) (Some (bl_ehci_pci_init env)) s;
     ehci_register_loop env (ehci_list (usb_hw s1)) s1 }"

end
