(* ===== verification/Bl_Xhci.thy ===== *)
theory Bl_Xhci
  imports Bl_Ehci
begin

text \<open>
  The XHCI driver: src/boot-loader/modules/usb/xhci. The rings and the contexts are in memory, where the controller reads requests and stores events.
  A pointer converted to 64 bits is extended with its sign, as the compiler does; a 64-bit register is written in two halves, the low one first. A bit field
  is read and written in the unit that holds it. The request blocks on the stack are cleared with \<open>bl_memset\<close>, which leaves their last byte: \<open>stale\<close>
  gives that byte for the block of a number (0 for a bulk transfer, 1 to 3 for the stages of a control transfer).
\<close>

unbundle bit_operations_syntax

definition BL_PCI_SUBCLASS_SERIAL_USB_XHCI :: int where "BL_PCI_SUBCLASS_SERIAL_USB_XHCI = 0x03"
definition BL_PCI_PROG_IF_SERIAL_USB_XHCI :: int where "BL_PCI_PROG_IF_SERIAL_USB_XHCI = 0x30"
definition BL_XHCI_PCI_BAR0_BASE_ADDRESS :: u32 where "BL_XHCI_PCI_BAR0_BASE_ADDRESS = push_bit 8 0xffffff"
definition BL_XHCI_PCI_SBRN_2_0 :: u8 where "BL_XHCI_PCI_SBRN_2_0 = 0x20"
definition BL_XHCI_PCI_SBRN_3_0 :: u8 where "BL_XHCI_PCI_SBRN_3_0 = 0x30"
definition BL_XHCI_PCI_SBRN_3_1 :: u8 where "BL_XHCI_PCI_SBRN_3_1 = 0x31"
definition BL_XHCI_HCSPARAMS1_MAXSLOTS :: u32 where "BL_XHCI_HCSPARAMS1_MAXSLOTS = push_bit 0 0xff"
definition BL_XHCI_HCSPARAMS1_MAXPORTS :: "u32 \<Rightarrow> u32" where "BL_XHCI_HCSPARAMS1_MAXPORTS hcsparams1 = drop_bit 24 hcsparams1 AND 0xff"
definition BL_XHCI_HCCPARAMS1_XECP :: "u32 \<Rightarrow> u32" where "BL_XHCI_HCCPARAMS1_XECP hccparams1 = drop_bit 16 hccparams1 AND 0xffff"
definition BL_XHCI_RTSOFF_RSVD :: u32 where "BL_XHCI_RTSOFF_RSVD = NOT (push_bit 0 0x1f)"
definition BL_XHCI_DBOFF_RSVD :: u32 where "BL_XHCI_DBOFF_RSVD = NOT (push_bit 0 0x3)"
definition BL_XHCI_USBCMD_RS :: u32 where "BL_XHCI_USBCMD_RS = push_bit 0 1"
definition BL_XHCI_USBCMD_HCRST :: u32 where "BL_XHCI_USBCMD_HCRST = push_bit 1 1"
definition BL_XHCI_USBSTS_HCH :: u32 where "BL_XHCI_USBSTS_HCH = push_bit 0 1"
definition BL_XHCI_USBSTS_CNR :: u32 where "BL_XHCI_USBSTS_CNR = push_bit 11 1"
definition BL_XHCI_CONFIG_MAXSLOTSEN :: u32 where "BL_XHCI_CONFIG_MAXSLOTSEN = push_bit 0 0xff"
definition BL_XHCI_PORTSC_CCS :: u32 where "BL_XHCI_PORTSC_CCS = push_bit 0 1"
definition BL_XHCI_PORTSC_PED :: u32 where "BL_XHCI_PORTSC_PED = push_bit 1 1"
definition BL_XHCI_PORTSC_PR :: u32 where "BL_XHCI_PORTSC_PR = push_bit 4 1"
definition BL_XHCI_PORTSC_CSC :: u32 where "BL_XHCI_PORTSC_CSC = push_bit 17 1"
definition BL_XHCI_PORTSC_PRC :: u32 where "BL_XHCI_PORTSC_PRC = push_bit 21 1"
definition BL_XHCI_PORTSC_PLS_U0 :: u32 where "BL_XHCI_PORTSC_PLS_U0 = 0"
definition BL_XHCI_PORTSC_PLS :: "u32 \<Rightarrow> u32" where "BL_XHCI_PORTSC_PLS portsc = drop_bit 5 portsc AND 0xf"
definition BL_XHCI_PORTSC_PORT_SPEED :: "u32 \<Rightarrow> u32" where "BL_XHCI_PORTSC_PORT_SPEED portsc = drop_bit 10 portsc AND 0xf"
definition BL_XHCI_USB_FULL_SPEED :: u32 where "BL_XHCI_USB_FULL_SPEED = 1"
definition BL_XHCI_USB_LOW_SPEED :: u32 where "BL_XHCI_USB_LOW_SPEED = 2"
definition BL_XHCI_USB_HIGH_SPEED :: u32 where "BL_XHCI_USB_HIGH_SPEED = 3"
definition BL_XHCI_USB_SUPER_SPEED :: u32 where "BL_XHCI_USB_SUPER_SPEED = 4"
definition BL_XHCI_USB_SUPER_SPEED_PLUS :: u32 where "BL_XHCI_USB_SUPER_SPEED_PLUS = 5"
definition BL_XHCI_TR_TRB_NORMAL :: u32 where "BL_XHCI_TR_TRB_NORMAL = 1"
definition BL_XHCI_TR_TRB_SETUP :: u32 where "BL_XHCI_TR_TRB_SETUP = 2"
definition BL_XHCI_TR_TRB_DATA :: u32 where "BL_XHCI_TR_TRB_DATA = 3"
definition BL_XHCI_TR_TRB_STATUS :: u32 where "BL_XHCI_TR_TRB_STATUS = 4"
definition BL_XHCI_TR_TRB_LINK :: u32 where "BL_XHCI_TR_TRB_LINK = 6"
definition BL_XHCI_CR_TRB_LINK :: u32 where "BL_XHCI_CR_TRB_LINK = 6"
definition BL_XHCI_CR_TRB_ENABLE_SLOT :: u32 where "BL_XHCI_CR_TRB_ENABLE_SLOT = 9"
definition BL_XHCI_CR_TRB_ADDRESS_DEVICE :: u32 where "BL_XHCI_CR_TRB_ADDRESS_DEVICE = 11"
definition BL_XHCI_CR_TRB_CONFIGURE_ENDPOINT :: u32 where "BL_XHCI_CR_TRB_CONFIGURE_ENDPOINT = 12"
definition BL_XHCI_TRB_CC_SUCCESS :: u32 where "BL_XHCI_TRB_CC_SUCCESS = 1"
definition BL_XHCI_TRB_CC :: "u32 \<Rightarrow> u32" where "BL_XHCI_TRB_CC status = drop_bit 24 status AND 0xff"
definition BL_XHCI_TRB_C :: u32 where "BL_XHCI_TRB_C = push_bit 0 1"
definition BL_XHCI_TRB_TYPE :: "u32 \<Rightarrow> u32" where "BL_XHCI_TRB_TYPE type = push_bit 10 (type AND 0x3f)"
definition BL_XHCI_TRB_SLOT_ID :: "u32 \<Rightarrow> u32" where "BL_XHCI_TRB_SLOT_ID control = drop_bit 24 control AND 0xff"
definition BL_XHCI_TRB_SET_SLOT_ID :: "u32 \<Rightarrow> u32" where "BL_XHCI_TRB_SET_SLOT_ID slot_id = push_bit 24 (slot_id AND 0xff)"
definition BL_XHCI_TRB_INPUT_CONTEXT_PTR_RSVD :: u64 where "BL_XHCI_TRB_INPUT_CONTEXT_PTR_RSVD = NOT (push_bit 0 0xf)"
definition BL_XHCI_TRB_PORT_ID :: "u64 \<Rightarrow> u64" where "BL_XHCI_TRB_PORT_ID parameter = drop_bit 24 parameter AND 0xff"
definition BL_XHCI_CONTROL_TRT_IN_DATA_STAGE :: u32 where "BL_XHCI_CONTROL_TRT_IN_DATA_STAGE = 3"
definition BL_XHCI_EXTENDED_CAPABILITY_SUPPORTED_PROTOCOL :: u8 where "BL_XHCI_EXTENDED_CAPABILITY_SUPPORTED_PROTOCOL = 2"
definition BL_XHCI_EP_STATE_RUNNING :: u8 where "BL_XHCI_EP_STATE_RUNNING = 1"
definition BL_XHCI_EP_TYPE_NOT_VALID :: u8 where "BL_XHCI_EP_TYPE_NOT_VALID = 0"
definition BL_XHCI_EP_TYPE_BULK_OUT :: u8 where "BL_XHCI_EP_TYPE_BULK_OUT = 2"
definition BL_XHCI_EP_TYPE_CONTROL :: u8 where "BL_XHCI_EP_TYPE_CONTROL = 4"
definition BL_XHCI_EP_TYPE_BULK_IN :: u8 where "BL_XHCI_EP_TYPE_BULK_IN = 6"
definition BL_XHCI_INPUT_CONTROL_CONTEXT_A :: "u32 \<Rightarrow> u32" where "BL_XHCI_INPUT_CONTROL_CONTEXT_A n = push_bit (unat n) 1"
definition BL_USB_ENDPOINT_ADDRESS :: "u8 \<Rightarrow> u32" where "BL_USB_ENDPOINT_ADDRESS a = ucast a AND 0xf"
definition BL_USB_ENDPOINT_DIRECTION :: "u8 \<Rightarrow> u32" where "BL_USB_ENDPOINT_DIRECTION a = drop_bit 7 (ucast a) AND 0x1"

definition BL_XHCI_TR_TRBS :: nat where "BL_XHCI_TR_TRBS = 128"
definition BL_XHCI_CR_TRBS :: nat where "BL_XHCI_CR_TRBS = 128"
definition BL_XHCI_ER_TRBS :: nat where "BL_XHCI_ER_TRBS = 32"

subsection \<open>Structures\<close>

definition xc_caplength :: "addr \<Rightarrow> addr" where "xc_caplength c = c"
definition xc_hcsparams1 :: "addr \<Rightarrow> addr" where "xc_hcsparams1 c = c + 4"
definition xc_hccparams1 :: "addr \<Rightarrow> addr" where "xc_hccparams1 c = c + 16"
definition xc_dboff :: "addr \<Rightarrow> addr" where "xc_dboff c = c + 20"
definition xc_rtsoff :: "addr \<Rightarrow> addr" where "xc_rtsoff c = c + 24"

definition xo_usbcmd :: "addr \<Rightarrow> addr" where "xo_usbcmd r = r"
definition xo_usbsts :: "addr \<Rightarrow> addr" where "xo_usbsts r = r + 4"
definition xo_crcr :: "addr \<Rightarrow> addr" where "xo_crcr r = r + 24"
definition xo_dcbaap :: "addr \<Rightarrow> addr" where "xo_dcbaap r = r + 48"
definition xo_config :: "addr \<Rightarrow> addr" where "xo_config r = r + 56"

definition xp_portsc :: "addr \<Rightarrow> u32 \<Rightarrow> addr" where "xp_portsc ports' port = ports' + 16 * port"

definition trb_parameter :: "addr \<Rightarrow> addr" where "trb_parameter t = t"
definition trb_status :: "addr \<Rightarrow> addr" where "trb_status t = t + 8"
definition trb_control :: "addr \<Rightarrow> addr" where "trb_control t = t + 12"
definition sizeof_xhci_trb :: nat where "sizeof_xhci_trb = 16"

definition sizeof_xhci_erst :: u32 where "sizeof_xhci_erst = 16"
definition rt_interrupters :: "addr \<Rightarrow> addr" where "rt_interrupters r = r + 32"
definition ir_erstsz :: "addr \<Rightarrow> addr" where "ir_erstsz r = r + 8"
definition ir_erstba :: "addr \<Rightarrow> addr" where "ir_erstba r = r + 16"
definition ir_erdp :: "addr \<Rightarrow> addr" where "ir_erdp r = r + 24"

definition sc_context_entries :: "u32 \<Rightarrow> addr \<Rightarrow> mem \<Rightarrow> mem" where
  "sc_context_entries n slot m = st32 m slot ((ld32 m slot AND 0x7ffffff) OR push_bit 27 (n AND 0x1f))"
definition sc_root_hub_port_number :: "addr \<Rightarrow> addr" where "sc_root_hub_port_number slot = slot + 6"
definition sc_usb_device_address :: "addr \<Rightarrow> addr" where "sc_usb_device_address slot = slot + 12"

definition ec_ep_state :: "mem \<Rightarrow> addr \<Rightarrow> u8" where "ec_ep_state m ep = m ep AND 0x7"
definition ec_ep_type :: "mem \<Rightarrow> addr \<Rightarrow> u8" where "ec_ep_type m ep = drop_bit 3 (m (ep + 4)) AND 0x7"
definition ec_set_mult :: "u8 \<Rightarrow> addr \<Rightarrow> mem \<Rightarrow> mem" where "ec_set_mult v ep m = m(ep + 1 := (m (ep + 1) AND NOT 0x3) OR (v AND 0x3))"
definition ec_set_max_pstreams :: "u8 \<Rightarrow> addr \<Rightarrow> mem \<Rightarrow> mem" where
  "ec_set_max_pstreams v ep m = m(ep + 1 := (m (ep + 1) AND NOT 0x7c) OR push_bit 2 (v AND 0x1f))"
definition ec_set_interval :: "u8 \<Rightarrow> addr \<Rightarrow> mem \<Rightarrow> mem" where "ec_set_interval v ep m = m(ep + 2 := v)"
definition ec_set_cerr :: "u8 \<Rightarrow> addr \<Rightarrow> mem \<Rightarrow> mem" where "ec_set_cerr v ep m = m(ep + 4 := (m (ep + 4) AND NOT 0x6) OR push_bit 1 (v AND 0x3))"
definition ec_set_ep_type :: "u8 \<Rightarrow> addr \<Rightarrow> mem \<Rightarrow> mem" where
  "ec_set_ep_type v ep m = m(ep + 4 := (m (ep + 4) AND NOT 0x38) OR push_bit 3 (v AND 0x7))"
definition ec_set_max_burst_size :: "u8 \<Rightarrow> addr \<Rightarrow> mem \<Rightarrow> mem" where "ec_set_max_burst_size v ep m = m(ep + 5 := v)"
definition ec_max_packet_size :: "addr \<Rightarrow> addr" where "ec_max_packet_size ep = ep + 6"
definition ec_tr_dequeue_pointer :: "addr \<Rightarrow> addr" where "ec_tr_dequeue_pointer ep = ep + 8"

definition ic_drop_context_flags :: "addr \<Rightarrow> addr" where "ic_drop_context_flags ic = ic"
definition ic_add_context_flags :: "addr \<Rightarrow> addr" where "ic_add_context_flags ic = ic + 4"
definition ic_slot :: "addr \<Rightarrow> addr" where "ic_slot ic = ic + 32"
definition ic_ep_context0 :: "addr \<Rightarrow> addr" where "ic_ep_context0 ic = ic + 64"
definition ic_ep_context :: "addr \<Rightarrow> u32 \<Rightarrow> addr" where "ic_ep_context ic i = ic + 96 + 32 * i"
definition sizeof_xhci_input_context :: u32 where "sizeof_xhci_input_context = 1056"
definition dc_ep_context :: "addr \<Rightarrow> u32 \<Rightarrow> addr" where "dc_ep_context dc i = dc + 64 + 32 * i"
definition sizeof_xhci_device_context :: u32 where "sizeof_xhci_device_context = 1024"

definition xd_slot_id :: "mem \<Rightarrow> addr \<Rightarrow> u32" where "xd_slot_id m d = ld32 m d"
definition xd_tr_enqueue :: "addr \<Rightarrow> u32 \<Rightarrow> addr" where "xd_tr_enqueue d i = d + 4 + 4 * i"
definition xd_tr :: "addr \<Rightarrow> u32 \<Rightarrow> addr" where "xd_tr d i = d + 128 + 4 * i"
definition xd_ic :: "mem \<Rightarrow> addr \<Rightarrow> addr" where "xd_ic m d = ld32 m (d + 252)"
definition xd_dc :: "mem \<Rightarrow> addr \<Rightarrow> addr" where "xd_dc m d = ld32 m (d + 256)"
definition sizeof_xhci_device :: u32 where "sizeof_xhci_device = 260"

definition xh_cap_regs :: "mem \<Rightarrow> addr \<Rightarrow> addr" where "xh_cap_regs m x = ld32 m x"
definition xh_op_regs :: "mem \<Rightarrow> addr \<Rightarrow> addr" where "xh_op_regs m x = ld32 m (x + 4)"
definition xh_ports :: "mem \<Rightarrow> addr \<Rightarrow> addr" where "xh_ports m x = ld32 m (x + 8)"
definition xh_port_usb_type :: "mem \<Rightarrow> addr \<Rightarrow> addr" where "xh_port_usb_type m x = ld32 m (x + 12)"
definition xh_dcbaa :: "mem \<Rightarrow> addr \<Rightarrow> addr" where "xh_dcbaa m x = ld32 m (x + 16)"
definition xh_command_ring :: "mem \<Rightarrow> addr \<Rightarrow> addr" where "xh_command_ring m x = ld32 m (x + 20)"
definition xh_cr_enqueue :: "mem \<Rightarrow> addr \<Rightarrow> addr" where "xh_cr_enqueue m x = ld32 m (x + 24)"
definition xh_erst :: "mem \<Rightarrow> addr \<Rightarrow> addr" where "xh_erst m x = ld32 m (x + 32)"
definition xh_event_ring :: "mem \<Rightarrow> addr \<Rightarrow> addr" where "xh_event_ring m x = ld32 m (x + 36)"
definition xh_er_dequeue :: "mem \<Rightarrow> addr \<Rightarrow> addr" where "xh_er_dequeue m x = ld32 m (x + 40)"
definition xh_db_regs :: "mem \<Rightarrow> addr \<Rightarrow> addr" where "xh_db_regs m x = ld32 m (x + 48)"
definition xh_interrupter :: "mem \<Rightarrow> addr \<Rightarrow> addr" where "xh_interrupter m x = ld32 m (x + 52)"
definition xh_devices :: "mem \<Rightarrow> addr \<Rightarrow> addr" where "xh_devices m x = ld32 m (x + 56)"
definition xh_next :: "mem \<Rightarrow> addr \<Rightarrow> addr" where "xh_next m x = ld32 m (x + 60)"
definition sizeof_xhci_controller :: u32 where "sizeof_xhci_controller = 64"

definition xh_device :: "mem \<Rightarrow> addr \<Rightarrow> u32 \<Rightarrow> addr" where "xh_device m xhci address = ld32 m (xh_devices m xhci + 4 * address)"
definition xhci_port :: "mem \<Rightarrow> addr \<Rightarrow> u32 \<Rightarrow> addr" where "xhci_port m xhci port = xp_portsc (xh_ports m xhci) port"

definition ptr64 :: "addr \<Rightarrow> u64" where "ptr64 p = scast p"

definition hci_write64 :: "'s hci_env \<Rightarrow> addr \<Rightarrow> u64 \<Rightarrow> 's \<Rightarrow> 's" where
  "hci_write64 env a v s = hi_write env (a + 4) (ucast (drop_bit 32 v)) (hi_write env a (ucast v) s)"

definition bl_xhci_controller_add :: "addr \<Rightarrow> 'd hci_st \<Rightarrow> 'd hci_st" where
  "bl_xhci_controller_add xhci s = s\<lparr>mem := st32 (mem s) (xhci + 60) (bl_xhci_list (usb_hw s)), usb_hw := (usb_hw s)\<lparr>bl_xhci_list := xhci\<rparr>\<rparr>"

subsection \<open>Rings\<close>

definition foo :: "'d hci_st hci_env \<Rightarrow> addr \<Rightarrow> 'd hci_st \<Rightarrow> 'd hci_st" where
  "foo env trb s =
     (let cb = hi_print env;
          s1 = bl_print_str cb (ascii '' '') (bl_print_hex cb trb s);
          s2 = bl_print_str cb (ascii '' '') (bl_print_hex64 cb (ld64 (mem s1) (trb_parameter trb)) s1);
          s3 = bl_print_str cb (ascii '' '') (bl_print_hex cb (ld32 (mem s2) (trb_status trb)) s2)
      in bl_print_str cb [0xa] (bl_print_hex cb (ld32 (mem s3) (trb_control trb)) s3))"

text \<open>The next event of the event ring, or 0.\<close>

definition bl_xhci_get_last_event :: "addr \<Rightarrow> mem \<Rightarrow> addr \<times> mem" where
  "bl_xhci_get_last_event xhci m =
     (let trb = xh_er_dequeue m xhci
      in if ld32 m (trb_control trb) AND BL_XHCI_TRB_C \<noteq> 0 then (trb, st32 m (xhci + 40) (trb + of_nat sizeof_xhci_trb)) else (0, m))"

fun xhci_event_loop :: "'d hci_st hci_env \<Rightarrow> addr \<Rightarrow> nat \<Rightarrow> 'd hci_st \<Rightarrow> addr \<times> 'd hci_st" where
  "xhci_event_loop env xhci 0 s = (0, s)"
| "xhci_event_loop env xhci (Suc n) s =
     (case bl_xhci_get_last_event xhci (mem s) of
        (event, m) \<Rightarrow> if event \<noteq> 0 then (event, foo env event (s\<lparr>mem := m\<rparr>)) else xhci_event_loop env xhci n (hi_sleep env 1 (s\<lparr>mem := m\<rparr>)))"

definition put_trb :: "addr \<Rightarrow> u64 \<Rightarrow> u32 \<Rightarrow> u32 \<Rightarrow> mem \<Rightarrow> mem" where
  "put_trb trb parameter status control m =
     st32 (st32 (st64 m (trb_parameter trb) parameter) (trb_status trb) status) (trb_control trb) control"

definition bl_xhci_cr_queue_trb :: "'d hci_st hci_env \<Rightarrow> addr \<Rightarrow> u64 \<Rightarrow> u32 \<Rightarrow> u32 \<Rightarrow> 'd hci_st \<Rightarrow> addr \<times> 'd hci_st" where
  "bl_xhci_cr_queue_trb env xhci parameter status control s =
     (let s1 = s\<lparr>mem := put_trb (xh_cr_enqueue (mem s) xhci) parameter status control (mem s)\<rparr>;
          (event, s2) = xhci_event_loop env xhci 19 (hi_write env (xh_db_regs (mem s1) xhci) 0 s1)
      in if event = 0 then (0, s2)
         else (event, s2\<lparr>mem := st32 (mem s2) (xhci + 24) (xh_cr_enqueue (mem s2) xhci + of_nat sizeof_xhci_trb)\<rparr>))"

definition bl_xhci_cr_enable_slot :: "'d hci_st hci_env \<Rightarrow> addr \<Rightarrow> 'd hci_st \<Rightarrow> u32 \<times> 'd hci_st" where
  "bl_xhci_cr_enable_slot env xhci s =
     (case bl_xhci_cr_queue_trb env xhci 0 0 (BL_XHCI_TRB_TYPE BL_XHCI_CR_TRB_ENABLE_SLOT OR BL_XHCI_TRB_C) s of
        (event, s1) \<Rightarrow>
          (if event = 0 \<or> BL_XHCI_TRB_CC (ld32 (mem s1) (trb_status event)) \<noteq> BL_XHCI_TRB_CC_SUCCESS then - 1
           else BL_XHCI_TRB_SLOT_ID (ld32 (mem s1) (trb_control event)), s1))"

text \<open>The two commands on an input context; their completion codes decide nothing.\<close>

definition xhci_context_command :: "'d hci_st hci_env \<Rightarrow> u32 \<Rightarrow> addr \<Rightarrow> addr \<Rightarrow> u32 \<Rightarrow> 'd hci_st \<Rightarrow> 'd hci_st" where
  "xhci_context_command env type xhci ic slot_id s =
     snd (bl_xhci_cr_queue_trb env xhci (ptr64 ic AND BL_XHCI_TRB_INPUT_CONTEXT_PTR_RSVD) 0
       ((BL_XHCI_TRB_SET_SLOT_ID slot_id OR BL_XHCI_TRB_TYPE type) OR BL_XHCI_TRB_C) s)"

definition bl_xhci_cr_address_device :: "'d hci_st hci_env \<Rightarrow> addr \<Rightarrow> addr \<Rightarrow> u32 \<Rightarrow> 'd hci_st \<Rightarrow> 'd hci_st" where
  "bl_xhci_cr_address_device env = xhci_context_command env BL_XHCI_CR_TRB_ADDRESS_DEVICE"

definition bl_xhci_cr_configure_endpoint :: "'d hci_st hci_env \<Rightarrow> addr \<Rightarrow> addr \<Rightarrow> u32 \<Rightarrow> 'd hci_st \<Rightarrow> 'd hci_st" where
  "bl_xhci_cr_configure_endpoint env = xhci_context_command env BL_XHCI_CR_TRB_CONFIGURE_ENDPOINT"

fun clear_trbs_loop :: "addr \<Rightarrow> nat \<Rightarrow> nat \<Rightarrow> mem \<Rightarrow> mem" where
  "clear_trbs_loop ring 0 i m = m"
| "clear_trbs_loop ring (Suc n) i m =
     clear_trbs_loop ring n (i + 1) (snd (bl_memset m (ring + of_nat (sizeof_xhci_trb * i)) 0 (of_nat sizeof_xhci_trb)))"

text \<open>The link at the end of a ring.\<close>

definition link_trb :: "addr \<Rightarrow> u64 \<Rightarrow> u32 \<Rightarrow> mem \<Rightarrow> mem" where
  "link_trb trb segment type m = mem_modify (trb_control trb) (\<lambda>v. v OR BL_XHCI_TRB_TYPE type) (st64 m (trb_parameter trb) segment)"

definition bl_xhci_alloc_transfer_ring :: "'d hci_st \<Rightarrow> (addr \<times> 'd hci_st) option" where
  "bl_xhci_alloc_transfer_ring s = do {
     (tr, s1) \<leftarrow> bl_heap_alloc_align s (of_nat (BL_XHCI_TR_TRBS * sizeof_xhci_trb)) 0x10;
     if tr = 0 then Some (0, s1)
     else do {
       let m = clear_trbs_loop tr BL_XHCI_TR_TRBS 0 (mem s1);
       Some (tr, s1\<lparr>mem := link_trb (tr + of_nat (sizeof_xhci_trb * (BL_XHCI_TR_TRBS - 1))) (ptr64 tr) BL_XHCI_TR_TRB_LINK m\<rparr>) } }"

subsection \<open>Slots and ports\<close>

definition xhci_default_packet_size :: "u32 \<Rightarrow> u16 option" where
  "xhci_default_packet_size speed =
     (if speed = BL_USB_LOW_SPEED \<or> speed = BL_USB_FULL_SPEED then Some 8
      else if speed = BL_USB_HIGH_SPEED then Some 64
      else if speed = BL_USB_SUPER_SPEED \<or> speed = BL_USB_SUPER_SPEED_PLUS then Some 512 else None)"

text \<open>The input context before the transfer ring is there, and the context of endpoint 0.\<close>

definition xhci_slot_context :: "u32 \<Rightarrow> addr \<Rightarrow> mem \<Rightarrow> mem" where
  "xhci_slot_context port ic m =
     (let m1 = snd (bl_memset m ic 0 sizeof_xhci_input_context);
          m2 = mem_modify (ic_add_context_flags ic) (\<lambda>v. v OR (BL_XHCI_INPUT_CONTROL_CONTEXT_A 0 OR BL_XHCI_INPUT_CONTROL_CONTEXT_A 1)) m1;
          m3 = m2(sc_root_hub_port_number (ic_slot ic) := ucast (port + 1))
      in sc_context_entries 1 (ic_slot ic) m3)"

definition xhci_ep0_context :: "u32 \<Rightarrow> addr \<Rightarrow> addr \<Rightarrow> mem \<Rightarrow> mem" where
  "xhci_ep0_context speed tr ep m =
     (let m1 = ec_set_ep_type BL_XHCI_EP_TYPE_CONTROL ep m;
          m2 = (case xhci_default_packet_size speed of None \<Rightarrow> m1 | Some n \<Rightarrow> st16 m1 (ec_max_packet_size ep) n);
          m3 = st64 (ec_set_max_burst_size 0 ep m2) (ec_tr_dequeue_pointer ep) (ptr64 tr OR 1)
      in ec_set_cerr 3 ep (ec_set_mult 0 ep (ec_set_max_pstreams 0 ep (ec_set_interval 0 ep m3))))"

definition bl_xhci_device_slot_init :: "'d hci_st hci_env \<Rightarrow> addr \<Rightarrow> u32 \<Rightarrow> u32 \<Rightarrow> u32 \<Rightarrow> u32 \<Rightarrow> 'd hci_st \<Rightarrow> 'd hci_st option" where
  "bl_xhci_device_slot_init env xhci port slot_id speed address s = do {
     (ic, s1) \<leftarrow> bl_heap_alloc_align s sizeof_xhci_input_context 0x10;
     if ic = 0 then Some s1
     else do {
       (tr, s2) \<leftarrow> bl_xhci_alloc_transfer_ring (s1\<lparr>mem := xhci_slot_context port ic (mem s1)\<rparr>);
       if tr = 0 then Some s2
       else do {
         (dc, s3) \<leftarrow> bl_heap_alloc_align (s2\<lparr>mem := xhci_ep0_context speed tr (ic_ep_context0 ic) (mem s2)\<rparr>) sizeof_xhci_device_context 0x40;
         if dc = 0 then Some s3
         else do {
           let m4 = snd (bl_memset (mem s3) dc 0 sizeof_xhci_device_context);
           let m5 = st64 m4 (xh_dcbaa m4 xhci + 8 * slot_id) (ptr64 dc);
           let s6 = bl_xhci_cr_address_device env xhci ic slot_id (s3\<lparr>mem := m5(sc_usb_device_address (ic_slot ic) := ucast address)\<rparr>);
           (d, s7) \<leftarrow> bl_heap_alloc s6 sizeof_xhci_device;
           let s8 = s7\<lparr>mem := st32 (mem s7) (xh_devices (mem s7) xhci + 4 * address) d\<rparr>;
           if d = 0 then Some s8
           else do {
             let m9 = st32 (st32 (st32 (mem s8) d slot_id) (xd_tr d 0) tr) (xd_tr_enqueue d 0) tr;
             Some (s8\<lparr>mem := st32 (st32 m9 (d + 252) ic) (d + 256) dc\<rparr>) } } } } }"

text \<open>A test of a port that reads the register again.\<close>

definition xhci_portsc :: "'d hci_st hci_env \<Rightarrow> addr \<Rightarrow> (u32 \<Rightarrow> bool) \<Rightarrow> 'd hci_st \<Rightarrow> bool \<times> 'd hci_st" where
  "xhci_portsc env p f s = (case hi_read env p s of (v, s1) \<Rightarrow> (f v, s1))"

text \<open>The port of a USB 3 device: its speed, or \<open>None\<close> when the port is not enabled or the speed is not known.\<close>

definition xhci_usb3_port :: "'d hci_st hci_env \<Rightarrow> addr \<Rightarrow> 'd hci_st \<Rightarrow> u32 option \<times> 'd hci_st" where
  "xhci_usb3_port env p s =
     (let s0 = bl_print_str (hi_print env) (ascii ''Wow1'' @ [0xa]) s; (ped, s1) = xhci_portsc env p (\<lambda>v. v AND BL_XHCI_PORTSC_PED \<noteq> 0) s0
      in if \<not> ped then (None, s1)
         else case xhci_portsc env p (\<lambda>v. v AND BL_XHCI_PORTSC_PR \<noteq> 0) s1 of
           (pr, s2) \<Rightarrow> if pr then (None, s2)
             else case xhci_portsc env p (\<lambda>v. BL_XHCI_PORTSC_PLS v = BL_XHCI_PORTSC_PLS_U0) s2 of
               (u0, s3) \<Rightarrow> if \<not> u0 then (None, s3)
                 else case hi_read env p (bl_print_str (hi_print env) (ascii ''Wow2'' @ [0xa]) s3) of
                   (v, s4) \<Rightarrow> let n = BL_XHCI_PORTSC_PORT_SPEED v
                     in (if n = BL_XHCI_USB_SUPER_SPEED then Some BL_USB_SUPER_SPEED
                         else if n = BL_XHCI_USB_SUPER_SPEED_PLUS then Some BL_USB_SUPER_SPEED_PLUS else None, s4))"

text \<open>The port of an older device is reset; the event of the change has to be the next one.\<close>

definition xhci_reset_done :: "'d hci_st hci_env \<Rightarrow> addr \<Rightarrow> u32 \<Rightarrow> addr \<Rightarrow> 'd hci_st \<Rightarrow> bool \<times> 'd hci_st" where
  "xhci_reset_done env p port event s =
     (case xhci_portsc env p (\<lambda>v. v AND BL_XHCI_PORTSC_PRC \<noteq> 0) s of
        (prc, s1) \<Rightarrow> if \<not> prc then (False, s1)
          else case xhci_portsc env p (\<lambda>v. v AND BL_XHCI_PORTSC_PED \<noteq> 0) s1 of
            (ped, s2) \<Rightarrow> if \<not> ped then (False, s2)
              else case xhci_portsc env p (\<lambda>v. BL_XHCI_PORTSC_PLS v = BL_XHCI_PORTSC_PLS_U0) s2 of
                (u0, s3) \<Rightarrow> (u0 \<and> BL_XHCI_TRB_CC (ld32 (mem s3) (trb_status event)) = BL_XHCI_TRB_CC_SUCCESS \<and>
                  BL_XHCI_TRB_PORT_ID (ld64 (mem s3) (trb_parameter event)) = scast (port + 1), s3))"

definition xhci_usb2_port :: "'d hci_st hci_env \<Rightarrow> addr \<Rightarrow> addr \<Rightarrow> u32 \<Rightarrow> 'd hci_st \<Rightarrow> u32 option \<times> 'd hci_st" where
  "xhci_usb2_port env xhci p port s =
     (let s1 = hi_sleep env 50 (hci_modify env p (\<lambda>v. v OR BL_XHCI_PORTSC_PR) s); (event, m2) = bl_xhci_get_last_event xhci (mem s1)
      in if event = 0 then (None, s1\<lparr>mem := m2\<rparr>)
         else case xhci_reset_done env p port event (foo env event (s1\<lparr>mem := m2\<rparr>)) of
           (done, s3) \<Rightarrow> if \<not> done then (None, s3)
             else case hi_read env p (hci_modify env p (\<lambda>v. v OR BL_XHCI_PORTSC_PRC) s3) of
               (v, s4) \<Rightarrow> let n = BL_XHCI_PORTSC_PORT_SPEED v
                 in (if n = BL_XHCI_USB_LOW_SPEED then Some BL_USB_LOW_SPEED
                     else if n = BL_XHCI_USB_FULL_SPEED then Some BL_USB_FULL_SPEED
                     else if n = BL_XHCI_USB_HIGH_SPEED then Some BL_USB_HIGH_SPEED else None, s4))"

definition bl_xhci_port_init :: "'d hci_st hci_env \<Rightarrow> addr \<Rightarrow> u32 \<Rightarrow> u32 \<Rightarrow> 'd hci_st \<Rightarrow> (u32 \<times> 'd hci_st) option" where
  "bl_xhci_port_init env hc port address s =
     (let xhci = hc_data (mem s) hc;
          s1 = bl_print_str (hi_print env) [0xa] (bl_print_hex (hi_print env) (port + 1) s);
          kind = mem s1 (xh_port_usb_type (mem s1) xhci + port); p = xhci_port (mem s1) xhci port;
          (r, s2) = (if kind = 0x3 then xhci_usb3_port env p s1 else if kind \<le> 0x2 then xhci_usb2_port env xhci p port s1 else (Some (- 1), s1))
      in case r of None \<Rightarrow> Some (- 1, s2)
         | Some speed \<Rightarrow> (case bl_xhci_cr_enable_slot env xhci s2 of
             (slot_id, s3) \<Rightarrow> if slot_id = - 1 then Some (- 1, s3)
               else do { s4 \<leftarrow> bl_xhci_device_slot_init env xhci port slot_id speed address s3; Some (speed, s4) }))"

definition bl_xhci_port_device_connected :: "'d hci_st hci_env \<Rightarrow> addr \<Rightarrow> u32 \<Rightarrow> 'd hci_st \<Rightarrow> bool \<times> 'd hci_st" where
  "bl_xhci_port_device_connected env hc port s =
     (let xhci = hc_data (mem s) hc; p = xhci_port (mem s) xhci port;
          (csc, s1) = xhci_portsc env p (\<lambda>v. v AND BL_XHCI_PORTSC_CSC \<noteq> 0) s;
          (result, s2) = xhci_portsc env p (\<lambda>v. v AND BL_XHCI_PORTSC_CCS \<noteq> 0) (if csc then hci_modify env p (\<lambda>v. v OR BL_XHCI_PORTSC_CSC) s1 else s1)
      in if \<not> result then (False, s2)
         else case bl_xhci_get_last_event xhci (mem s2) of
           (event, m3) \<Rightarrow>
             if event \<noteq> 0 \<and> (BL_XHCI_TRB_CC (ld32 m3 (trb_status event)) \<noteq> BL_XHCI_TRB_CC_SUCCESS \<or>
               BL_XHCI_TRB_PORT_ID (ld64 m3 (trb_parameter event)) \<noteq> scast (port + 1)) then (False, s2\<lparr>mem := m3\<rparr>)
             else (True, foo env event (s2\<lparr>mem := m3\<rparr>)))"

subsection \<open>Transfers\<close>

text \<open>A request put at the end of the ring of endpoint \<open>i\<close>, which advances.\<close>

definition xhci_enqueue :: "addr \<Rightarrow> u32 \<Rightarrow> u64 \<Rightarrow> u32 \<Rightarrow> u32 \<Rightarrow> mem \<Rightarrow> mem" where
  "xhci_enqueue d i parameter status control m =
     (let m1 = put_trb (ld32 m (xd_tr_enqueue d i)) parameter status control m
      in mem_modify (xd_tr_enqueue d i) (\<lambda>t. t + of_nat sizeof_xhci_trb) m1)"

definition trb_fields :: "u8 \<Rightarrow> u32 \<Rightarrow> u32 \<Rightarrow> u32" where
  "trb_fields stale type flags = (push_bit 24 (ucast stale) OR push_bit 10 (type AND 0x3f)) OR flags"

definition setup_trb_control :: "u8 \<Rightarrow> u32" where
  "setup_trb_control stale =
     trb_fields stale BL_XHCI_TR_TRB_SETUP ((push_bit 16 (BL_XHCI_CONTROL_TRT_IN_DATA_STAGE AND 3) OR push_bit 6 1) OR push_bit 0 1)"

definition data_trb_control :: "u8 \<Rightarrow> u32" where
  "data_trb_control stale = trb_fields stale BL_XHCI_TR_TRB_DATA (push_bit 16 1 OR push_bit 0 1)"

definition status_trb_control :: "u8 \<Rightarrow> u32" where
  "status_trb_control stale = trb_fields stale BL_XHCI_TR_TRB_STATUS (push_bit 5 1 OR push_bit 0 1)"

definition normal_trb_control :: "u8 \<Rightarrow> bool \<Rightarrow> u32" where
  "normal_trb_control stale ch = trb_fields stale BL_XHCI_TR_TRB_NORMAL (if ch then push_bit 4 1 else 0)"

partial_function (option) xhci_data_loop :: "u8 \<Rightarrow> addr \<Rightarrow> u32 \<Rightarrow> u32 \<Rightarrow> addr \<Rightarrow> u32 \<Rightarrow> u32 \<Rightarrow> mem \<Rightarrow> mem option" where
  "xhci_data_loop stale xhci address packet_size data length' off m =
     (if \<not> 0 <s length' then Some m
      else xhci_data_loop stale xhci address packet_size data (length' - packet_size) (off + packet_size)
        (xhci_enqueue (xh_device m xhci address) 0 (ptr64 data + scast off) (int_min length' packet_size AND 0x1ffff) (data_trb_control stale) m))"

definition bl_xhci_control_transfer :: "'d hci_st hci_env \<Rightarrow> (nat \<Rightarrow> 'd hci_st \<Rightarrow> u8) \<Rightarrow> addr \<Rightarrow> u32 \<Rightarrow> u32 \<Rightarrow> u32 \<Rightarrow> addr \<Rightarrow> addr \<Rightarrow> u32 \<Rightarrow>
    'd hci_st \<Rightarrow> (bl_status \<times> 'd hci_st) option" where
  "bl_xhci_control_transfer env stale hc packet_size0 address speed setup data length' s = do {
     let xhci = hc_data (mem s) hc;
     let d = xh_device (mem s) xhci address;
     let packet_size = (if packet_size0 = 0 then ucast (ld16 (mem s) (ec_max_packet_size (ic_ep_context0 (xd_ic (mem s) d)))) else packet_size0);
     let m1 = xhci_enqueue d 0 (ld64 (mem s) setup) sizeof_setup_data (setup_trb_control (stale 1 s)) (mem s);
     m2 \<leftarrow> xhci_data_loop (stale 2 s) xhci address packet_size data length' 0 m1;
     let m3 = xhci_enqueue (xh_device m2 xhci address) 0 0 0 (status_trb_control (stale 3 s)) m2;
     let s4 = hi_write env (xh_db_regs m3 xhci + 4 * xd_slot_id m3 (xh_device m3 xhci address)) 1 (s\<lparr>mem := m3\<rparr>);
     Some (BL_STATUS_SUCCESS, snd (xhci_event_loop env xhci 19 s4)) }"

text \<open>The first bulk transfer of an endpoint sets it up: whether the transfer goes on.\<close>

definition xhci_ep_context :: "u32 \<Rightarrow> u32 \<Rightarrow> addr \<Rightarrow> mem \<Rightarrow> mem" where
  "xhci_ep_context direction packet_size ep m =
     (let m1 = ec_set_ep_type (if direction \<noteq> 0 then BL_XHCI_EP_TYPE_BULK_IN else BL_XHCI_EP_TYPE_BULK_OUT) ep m;
          m2 = ec_set_max_burst_size 0 ep (st16 m1 (ec_max_packet_size ep) (ucast packet_size))
      in ec_set_max_pstreams 0 ep (ec_set_cerr 3 ep m2))"

definition xhci_setup_endpoint :: "'d hci_st hci_env \<Rightarrow> addr \<Rightarrow> u32 \<Rightarrow> u32 \<Rightarrow> u32 \<Rightarrow> u32 \<Rightarrow> 'd hci_st \<Rightarrow> (bool \<times> 'd hci_st) option" where
  "xhci_setup_endpoint env xhci address ep direction packet_size s = do {
     let ep_context = ic_ep_context (xd_ic (mem s) (xh_device (mem s) xhci address)) (ep - 2);
     if ec_ep_type (mem s) ep_context \<noteq> BL_XHCI_EP_TYPE_NOT_VALID then Some (True, s)
     else do {
       (tr, s1) \<leftarrow> bl_xhci_alloc_transfer_ring (s\<lparr>mem := xhci_ep_context direction packet_size ep_context (mem s)\<rparr>);
       if tr = 0 then Some (False, s1)
       else do {
         let m2 = st64 (mem s1) (ec_tr_dequeue_pointer ep_context) (ptr64 tr OR 1);
         let d = xh_device m2 xhci address;
         let m3 = st32 (st32 m2 (xd_tr d (ep - 1)) tr) (xd_tr_enqueue d (ep - 1)) tr;
         let ic = xd_ic m3 d;
         let m4 = mem_modify (ic_add_context_flags ic) (\<lambda>v. v OR BL_XHCI_INPUT_CONTROL_CONTEXT_A ep) m3;
         let m5 = mem_modify (ic_drop_context_flags ic) (\<lambda>v. v AND NOT (BL_XHCI_INPUT_CONTROL_CONTEXT_A ep)) m4;
         let m6 = sc_context_entries ep (ic_slot ic) m5;
         let s7 = bl_xhci_cr_configure_endpoint env xhci ic (xd_slot_id m6 d) (s1\<lparr>mem := m6\<rparr>);
         let dc = xd_dc (mem s7) (xh_device (mem s7) xhci address);
         Some (ec_ep_state (mem s7) (dc_ep_context dc (ep - 2)) = BL_XHCI_EP_STATE_RUNNING, s7) } } }"

partial_function (option) xhci_bulk_loop :: "'d hci_st hci_env \<Rightarrow> u8 \<Rightarrow> addr \<Rightarrow> u32 \<Rightarrow> u32 \<Rightarrow> u32 \<Rightarrow> addr \<Rightarrow> u32 \<Rightarrow> u32 \<Rightarrow> 'd hci_st \<Rightarrow> 'd hci_st option" where
  "xhci_bulk_loop env stale xhci address ep packet_size data length' off s =
     (if \<not> 0 <s length' then Some s
      else let trb = ld32 (mem s) (xd_tr_enqueue (xh_device (mem s) xhci address) (ep - 1));
               s1 = foo env trb (s\<lparr>mem := put_trb trb (ptr64 data + scast off) (int_min length' packet_size AND 0x1ffff)
                 (normal_trb_control stale (packet_size <s length')) (mem s)\<rparr>);
               s2 = s1\<lparr>mem := mem_modify (xd_tr_enqueue (xh_device (mem s1) xhci address) (ep - 1)) (\<lambda>t. t + of_nat sizeof_xhci_trb) (mem s1)\<rparr>
           in xhci_bulk_loop env stale xhci address ep packet_size data (length' - packet_size) (off + packet_size) s2)"

definition xhci_bulk_banner :: "'d hci_st hci_env \<Rightarrow> u32 \<Rightarrow> u32 \<Rightarrow> 'd hci_st \<Rightarrow> 'd hci_st" where
  "xhci_bulk_banner env ep address s =
     (let cb = hi_print env; s1 = bl_print_hex cb ep (bl_print_str cb (ascii ''EP : '') s)
      in bl_print_str cb [0xa] (bl_print_hex cb address (bl_print_str cb (ascii '' '') s1)))"

definition bl_xhci_bulk_transfer :: "'d hci_st hci_env \<Rightarrow> (nat \<Rightarrow> 'd hci_st \<Rightarrow> u8) \<Rightarrow> addr \<Rightarrow> u32 \<Rightarrow> addr \<Rightarrow> u32 \<Rightarrow> u32 \<Rightarrow> addr \<Rightarrow> u32 \<Rightarrow>
    'd hci_st \<Rightarrow> 'd hci_st option" where
  "bl_xhci_bulk_transfer env stale hc address endp speed direction data length' s = do {
     let s1 = bl_print_str (hi_print env) (ascii ''Bulk'' @ [0xa]) s;
     let xhci = hc_data (mem s1) hc;
     let a = ed_endpoint_address (mem s1) (endp_descriptor (mem s1) endp);
     let ep = 2 * BL_USB_ENDPOINT_ADDRESS a + BL_USB_ENDPOINT_DIRECTION a;
     let s2 = xhci_bulk_banner env ep address s1;
     let packet_size = ucast (ed_max_packet_size (mem s2) (endp_descriptor (mem s2) endp));
     (ready, s3) \<leftarrow> xhci_setup_endpoint env xhci address ep (BL_USB_ENDPOINT_DIRECTION a) packet_size s2;
     if \<not> ready then Some s3
     else do {
       s4 \<leftarrow> xhci_bulk_loop env (stale 0 s3) xhci address ep packet_size data length' 0 s3;
       let s5 = hi_write env (xh_db_regs (mem s4) xhci + 4 * xd_slot_id (mem s4) (xh_device (mem s4) xhci address)) ep s4;
       Some (snd (xhci_event_loop env xhci 19 s5)) } }"

subsection \<open>Controllers\<close>

definition bl_xhci_init_event_ring :: "'d hci_st hci_env \<Rightarrow> addr \<Rightarrow> 'd hci_st \<Rightarrow> (bl_status \<times> 'd hci_st) option" where
  "bl_xhci_init_event_ring env xhci s = do {
     (ring, s0) \<leftarrow> bl_heap_alloc_align s (of_nat (BL_XHCI_ER_TRBS * sizeof_xhci_trb)) 0x40;
     let s1 = s0\<lparr>mem := st32 (mem s0) (xhci + 36) ring\<rparr>;
     if ring = 0 then Some (BL_STATUS_MEMORY_ALLOCATION_FAILED, s1)
     else do {
       (erst, s2) \<leftarrow> bl_heap_alloc_align (s1\<lparr>mem := clear_trbs_loop ring BL_XHCI_ER_TRBS 0 (mem s1)\<rparr>) sizeof_xhci_erst 0x40;
       let s3 = s2\<lparr>mem := st32 (mem s2) (xhci + 32) erst\<rparr>;
       if erst = 0 then Some (BL_STATUS_MEMORY_ALLOCATION_FAILED, s3)
       else do {
         let m4 = st16 (st64 (mem s3) erst (ptr64 (xh_event_ring (mem s3) xhci))) (erst + 8) (of_nat BL_XHCI_ER_TRBS);
         let (rtsoff, s5) = hi_read env (xc_rtsoff (xh_cap_regs m4 xhci)) (s3\<lparr>mem := m4\<rparr>);
         let rt = xh_cap_regs (mem s5) xhci + (rtsoff AND BL_XHCI_RTSOFF_RSVD);
         let s6 = hi_write env (ir_erstsz (rt_interrupters rt)) 1 (s5\<lparr>mem := st32 (st32 (mem s5) (xhci + 44) rt) (xhci + 52) (rt_interrupters rt)\<rparr>);
         let s7 = hci_write64 env (ir_erdp (xh_interrupter (mem s6) xhci)) (ld64 (mem s6) (xh_erst (mem s6) xhci)) s6;
         let s8 = s7\<lparr>mem := st32 (mem s7) (xhci + 40) (xh_event_ring (mem s7) xhci)\<rparr>;
         Some (BL_STATUS_SUCCESS, hci_write64 env (ir_erstba (xh_interrupter (mem s8) xhci)) (ptr64 (xh_erst (mem s8) xhci)) s8) } } }"

definition bl_xhci_init_command_ring :: "'d hci_st hci_env \<Rightarrow> addr \<Rightarrow> 'd hci_st \<Rightarrow> (bl_status \<times> 'd hci_st) option" where
  "bl_xhci_init_command_ring env xhci s = do {
     (ring, s0) \<leftarrow> bl_heap_alloc_align s (of_nat (BL_XHCI_CR_TRBS * sizeof_xhci_trb)) 0x40;
     let s1 = s0\<lparr>mem := st32 (mem s0) (xhci + 20) ring\<rparr>;
     if ring = 0 then Some (BL_STATUS_MEMORY_ALLOCATION_FAILED, s1)
     else do {
       let m2 = clear_trbs_loop ring BL_XHCI_CR_TRBS 0 (mem s1);
       let m3 = link_trb (ring + of_nat (sizeof_xhci_trb * (BL_XHCI_CR_TRBS - 1))) (ptr64 ring OR 1) BL_XHCI_CR_TRB_LINK m2;
       let s4 = hci_write64 env (xo_crcr (xh_op_regs m3 xhci)) (ptr64 (xh_command_ring m3 xhci) OR 1) (s1\<lparr>mem := m3\<rparr>);
       let c = xh_command_ring (mem s4) xhci;
       Some (BL_STATUS_SUCCESS, s4\<lparr>mem := st32 (st32 (mem s4) (xhci + 28) c) (xhci + 24) c\<rparr>) } }"

text \<open>The ports of one protocol, whose fields are read again for each of them, and the list of capabilities.\<close>

partial_function (option) protocol_ports_loop :: "'d hci_st hci_env \<Rightarrow> addr \<Rightarrow> addr \<Rightarrow> u32 \<Rightarrow> 'd hci_st \<Rightarrow> 'd hci_st option" where
  "protocol_ports_loop env xhci protocol i s =
     (let (off, s1) = hi_read8 env (protocol + 6) s; (count, s2) = hi_read8 env (protocol + 7) s1
      in if \<not> i <s ucast off + ucast count then Some s2
         else let (major, s3) = hi_read8 env (protocol + 1) s2
              in protocol_ports_loop env xhci protocol (i + 1) (s3\<lparr>mem := (mem s3)(xh_port_usb_type (mem s3) xhci + (i - 1) := major)\<rparr>))"

definition print_protocol :: "'d hci_st hci_env \<Rightarrow> addr \<Rightarrow> 'd hci_st \<Rightarrow> 'd hci_st" where
  "print_protocol env protocol s =
     (let cb = hi_print env; show_hex = (\<lambda>v end' s. bl_print_str cb end' (bl_print_hex cb v s)); sp = ascii '' '';
          (major, s1) = hi_read8 env (protocol + 1) s; (minor, s2) = hi_read8 env protocol (show_hex (ucast major) sp s1);
          (name, s3) = hi_read env (protocol + 2) (show_hex (ucast minor) sp s2); (off, s4) = hi_read8 env (protocol + 6) (show_hex name sp s3);
          (count, s5) = hi_read8 env (protocol + 7) (show_hex (ucast off) sp s4); (defined', s6) = hi_read16 env (protocol + 8) (show_hex (ucast count) sp s5);
          (psic, s7) = hi_read16 env (protocol + 8) (show_hex (ucast defined' AND 0xfff) sp s6);
          (slot, s8) = hi_read env (protocol + 10) (show_hex (drop_bit 12 (ucast psic)) sp s7)
      in show_hex (slot AND 0x1f) [0xa] s8)"

partial_function (option) capabilities_loop :: "'d hci_st hci_env \<Rightarrow> addr \<Rightarrow> addr \<Rightarrow> 'd hci_st \<Rightarrow> 'd hci_st option" where
  "capabilities_loop env xhci ecpr s = do {
     let (cap_id, s1) = hi_read8 env ecpr s;
     s2 \<leftarrow> (if cap_id \<noteq> BL_XHCI_EXTENDED_CAPABILITY_SUPPORTED_PROTOCOL then Some s1
             else let (off, s1') = hi_read8 env (ecpr + 2 + 6) (print_protocol env (ecpr + 2) s1) in protocol_ports_loop env xhci (ecpr + 2) (ucast off) s1');
     let (next, s3) = hi_read8 env (ecpr + 1) s2;
     if next = 0 then Some s3
     else let (next', s4) = hi_read8 env (ecpr + 1) s3 in capabilities_loop env xhci (ecpr + push_bit 2 (ucast next')) s4 }"

definition bl_xhci_get_supported_protocol :: "'d hci_st hci_env \<Rightarrow> addr \<Rightarrow> 'd hci_st \<Rightarrow> (bl_status \<times> 'd hci_st) option" where
  "bl_xhci_get_supported_protocol env xhci s =
     (let (v, s1) = hi_read env (xc_hccparams1 (xh_cap_regs (mem s) xhci)) s; xecp = BL_XHCI_HCCPARAMS1_XECP v
      in if xecp = 0 then Some (BL_STATUS_USB_INTERNAL_ERROR, s1)
         else do {
           let (w, s2) = hi_read env (xc_hcsparams1 (xh_cap_regs (mem s1) xhci)) s1;
           (types, s3) \<leftarrow> bl_heap_alloc s2 (BL_XHCI_HCSPARAMS1_MAXPORTS w);
           let s4 = s3\<lparr>mem := st32 (mem s3) (xhci + 12) types\<rparr>;
           if types = 0 then Some (BL_STATUS_MEMORY_ALLOCATION_FAILED, s4)
           else do { s5 \<leftarrow> capabilities_loop env xhci (xh_cap_regs (mem s4) xhci + push_bit 2 xecp) s4; Some (BL_STATUS_SUCCESS, s5) } })"

definition bl_xhci_get_extended_capabilities :: "'d hci_st hci_env \<Rightarrow> addr \<Rightarrow> 'd hci_st \<Rightarrow> (bl_status \<times> 'd hci_st) option" where
  "bl_xhci_get_extended_capabilities env xhci s = bl_xhci_get_supported_protocol env xhci s"

text \<open>One step of the initialisation after another, up to the first that fails.\<close>

definition and_then :: "('s \<Rightarrow> (bl_status \<times> 's) option) \<Rightarrow> ('s \<Rightarrow> (bl_status \<times> 's) option) \<Rightarrow> 's \<Rightarrow> (bl_status \<times> 's) option" where
  "and_then f g s = do { (status, s1) \<leftarrow> f s; if failed status then Some (status, s1) else g s1 }"

definition xhci_init_devices :: "'d hci_st hci_env \<Rightarrow> addr \<Rightarrow> 'd hci_st \<Rightarrow> (bl_status \<times> 'd hci_st) option" where
  "xhci_init_devices env xhci s = do {
     let s1 = s\<lparr>mem := st32 (mem s) (xhci + 8) (xh_op_regs (mem s) xhci + 0x400)\<rparr>;
     let (dboff, s2) = hi_read env (xc_dboff (xh_cap_regs (mem s1) xhci)) s1;
     (devices, s3) \<leftarrow> bl_heap_alloc (s2\<lparr>mem := st32 (mem s2) (xhci + 48) (xh_cap_regs (mem s2) xhci + (dboff AND BL_XHCI_DBOFF_RSVD))\<rparr>) (127 * 4);
     Some (if devices = 0 then BL_STATUS_MEMORY_ALLOCATION_FAILED else BL_STATUS_SUCCESS, s3\<lparr>mem := st32 (mem s3) (xhci + 56) devices\<rparr>) }"

definition bl_xhci_init_data_structures :: "'d hci_st hci_env \<Rightarrow> addr \<Rightarrow> 'd hci_st \<Rightarrow> (bl_status \<times> 'd hci_st) option" where
  "bl_xhci_init_data_structures env xhci s = do {
     let (v, s1) = hi_read env (xc_hcsparams1 (xh_cap_regs (mem s) xhci)) s;
     let s2 = hci_modify env (xo_config (xh_op_regs (mem s1) xhci)) (\<lambda>c. c OR (v AND BL_XHCI_HCSPARAMS1_MAXSLOTS)) s1;
     let (config, s3) = hi_read env (xo_config (xh_op_regs (mem s2) xhci)) s2;
     (dcbaa, s4) \<leftarrow> bl_heap_alloc_align s3 ((1 + (config AND BL_XHCI_CONFIG_MAXSLOTSEN)) * 8) 0x40;
     let s5 = s4\<lparr>mem := st32 (mem s4) (xhci + 16) dcbaa\<rparr>;
     if dcbaa = 0 then Some (BL_STATUS_MEMORY_ALLOCATION_FAILED, s5)
     else and_then (bl_xhci_init_command_ring env xhci)
       (and_then (bl_xhci_init_event_ring env xhci)
         (and_then (bl_xhci_get_extended_capabilities env xhci) (xhci_init_devices env xhci)))
       (hci_write64 env (xo_dcbaap (xh_op_regs (mem s5) xhci)) (ptr64 (xh_dcbaa (mem s5) xhci)) s5) }"

definition bl_xhci_controller_init :: "'d hci_st hci_env \<Rightarrow> addr \<Rightarrow> 'd hci_st \<Rightarrow> (bl_status \<times> 'd hci_st) option" where
  "bl_xhci_controller_init env xhci s =
     (let (caplength, s1) = hi_read8 env (xc_caplength (xh_cap_regs (mem s) xhci)) s; r = xh_cap_regs (mem s1) xhci + ucast caplength;
          s2 = hci_wait_loop env (xo_usbsts r) BL_XHCI_USBSTS_CNR 999 (s1\<lparr>mem := st32 (mem s1) (xhci + 4) r\<rparr>);
          (sts, s3) = hi_read env (xo_usbsts r) s2
      in if sts AND BL_XHCI_USBSTS_CNR \<noteq> 0 then Some (BL_STATUS_USB_INTERNAL_ERROR, s3)
         else let s4 = hi_sleep env 16 (hci_modify env (xo_usbcmd r) (\<lambda>v. v AND NOT BL_XHCI_USBCMD_RS) s3);
                  (sts', s5) = hi_read env (xo_usbsts r) s4
              in if sts' AND BL_XHCI_USBSTS_HCH = 0 then Some (BL_STATUS_USB_INTERNAL_ERROR, s5)
                 else let s6 = hci_wait_loop env (xo_usbcmd r) BL_XHCI_USBCMD_HCRST 49 (hci_modify env (xo_usbcmd r) (\<lambda>v. v OR BL_XHCI_USBCMD_HCRST) s5);
                          (cmd, s7) = hi_read env (xo_usbcmd r) s6
                      in if cmd AND BL_XHCI_USBCMD_HCRST \<noteq> 0 then Some (BL_STATUS_USB_INTERNAL_ERROR, s7)
                         else and_then (bl_xhci_init_data_structures env xhci)
                           (\<lambda>s. Some (BL_STATUS_SUCCESS, hci_modify env (xo_usbcmd r) (\<lambda>v. v OR BL_XHCI_USBCMD_RS) s)) s7)"

definition bl_xhci_pci_init :: "'d hci_st hci_env \<Rightarrow> 'd hci_st pci_hook" where
  "bl_xhci_pci_init env i s =
     (case bl_pci_check_device_class (hi_io env) i BL_PCI_BASE_CLASS_SERIAL BL_PCI_SUBCLASS_SERIAL_USB_XHCI BL_PCI_PROG_IF_SERIAL_USB_XHCI s of
        (status, s1) \<Rightarrow> if failed status then Some (status, s1)
          else case bl_pci_read_config_byte (hi_io env) i BL_PCI_CONFIG_REG_60H s1 of
            (sbrn, s2) \<Rightarrow>
              if sbrn \<noteq> BL_XHCI_PCI_SBRN_3_0 \<and> sbrn \<noteq> BL_XHCI_PCI_SBRN_3_1 \<and> sbrn \<noteq> BL_XHCI_PCI_SBRN_2_0
              then Some (BL_STATUS_USB_INVALID_HOST_CONTROLLER, s2)
              else case bl_pci_read_config_long (hi_io env) i BL_PCI_CONFIG_REG_BAR0 s2 of
                (base, s3) \<Rightarrow> do {
                  (xhci, s4) \<leftarrow> bl_heap_alloc s3 sizeof_xhci_controller;
                  if xhci = 0 then Some (BL_STATUS_MEMORY_ALLOCATION_FAILED, s4)
                  else do {
                    (_, s5) \<leftarrow> bl_xhci_controller_init env xhci (s4\<lparr>mem := st32 (mem s4) xhci (base AND BL_XHCI_PCI_BAR0_BASE_ADDRESS)\<rparr>);
                    Some (BL_STATUS_SUCCESS, bl_xhci_controller_add xhci s5) } })"

definition bl_xhci_functions :: "'d hci_st hci_env \<Rightarrow> (nat \<Rightarrow> 'd hci_st \<Rightarrow> u8) \<Rightarrow> 'd hci_st hc_funcs" where
  "bl_xhci_functions env stale = \<lparr>
     hc_port_connected = (\<lambda>hc port s. Some (bl_xhci_port_device_connected env hc port s)),
     hc_port_get_speed = (\<lambda>_ _ _. None),
     hc_port_reset = (\<lambda>_ _ _. None),
     hc_port_init = bl_xhci_port_init env,
     hc_control = (\<lambda>hc packet_size address speed su data n s. do {
       (_, s1) \<leftarrow> bl_xhci_control_transfer env stale hc packet_size address speed (hi_setup env) (hi_data env) n
         (s\<lparr>mem := mem_put (mem_put (mem s) (hi_setup env) (setup_bytes su)) (hi_data env) data\<rparr>);
       Some (mem_get (mem s1) (hi_data env) (length data), s1) }),
     hc_bulk = (\<lambda>hc address endp speed direction data n s. do {
       s1 \<leftarrow> bl_xhci_bulk_transfer env stale hc address endp speed direction (hi_data env) n (s\<lparr>mem := mem_put (mem s) (hi_data env) data\<rparr>);
       Some (mem_get (mem s1) (hi_data env) (length data), s1) }),
     hc_interrupt = None, hc_check_status = None\<rparr>"

partial_function (option) xhci_register_loop :: "'d hci_st hci_env \<Rightarrow> addr \<Rightarrow> 'd hci_st \<Rightarrow> 'd hci_st option" where
  "xhci_register_loop env xhci s =
     (if xhci = 0 then Some s
      else do {
        (hc, s1) \<leftarrow> bl_heap_alloc s sizeof_host_controller;
        if hc = 0 then Some s1
        else do {
          let s2 = s1\<lparr>mem := hc_fill BL_USB_HC_XHCI (hi_funcs env) xhci hc (mem s1)\<rparr>;
          let (v, s3) = hi_read env (xc_hcsparams1 (xh_cap_regs (mem s2) xhci)) s2;
          let s4 = bl_usb_host_controller_register hc (s3\<lparr>mem := hc_set_ports hc (BL_XHCI_HCSPARAMS1_MAXPORTS v) (mem s3)\<rparr>);
          xhci_register_loop env (xh_next (mem s4) xhci) s4 } })"

definition xhci_module_init :: "'d hci_st hci_env \<Rightarrow> 'd hci_st \<Rightarrow> 'd hci_st option" where
  "xhci_module_init env s = do {
     s1 \<leftarrow> bl_pci_iterate_devices (hi_io env) (hi_print env) (Some (bl_xhci_pci_init env)) s;
     xhci_register_loop env (bl_xhci_list (usb_hw s1)) s1 }"

end
