(* ===== verification/Bl_XhciTransfers.thy ===== *)
theory Bl_XhciTransfers
  imports Bl_Xhci
begin

text \<open>
  What the XHCI driver hands to the controller and takes from it: the requests of a control transfer in the transfer ring of the endpoint,
  with the pointer behind them, and the events taken from the event ring.
\<close>

unbundle bit_operations_syntax

subsection \<open>Requests in an XHCI ring\<close>

type_synonym xhci_request = "u64 \<times> u32 \<times> u32"

definition trb_at :: "mem \<Rightarrow> addr \<Rightarrow> xhci_request" where
  "trb_at m t = (ld64 m (trb_parameter t), ld32 m (trb_status t), ld32 m (trb_control t))"

definition ring_at :: "addr \<Rightarrow> nat \<Rightarrow> addr" where "ring_at t i = t + of_nat (16 * i)"

lemma ld64_same: "fits a 8 \<Longrightarrow> \<forall>x. \<not> off_range a 8 x \<longrightarrow> m' x = m x \<Longrightarrow> ld64 m' a = ld64 m a"
  using mem_get_same [of a 8 m' m] by (simp add: ld64_def off_range_def not_less not_le)

lemma st64_frame: "fits a 8 \<Longrightarrow> off_range a 8 x \<Longrightarrow> st64 m a v x = m x"
  using mem_put_frame [of a "to_le 8 (unat v)" x] by (simp add: st64_def)

lemma trb_words:
  assumes "fits t 16"
  shows "unat (t + 8) = unat t + 8" "unat (t + 12) = unat t + 12" "fits t 8" "fits (t + 8) 4" "fits (t + 12) 4"
  using assms unat_add_lt [of t 8] unat_add_lt [of t 12] by (simp_all add: fits_def)

lemma put_trb_ok:
  assumes "fits t 16"
  shows "trb_at (put_trb t p s c m) t = (p, s, c)" "off_range t 16 x \<Longrightarrow> put_trb t p s c m x = m x"
proof -
  note u = trb_words [OF assms]
  note d = put_trb_def trb_parameter_def trb_status_def trb_control_def
  have "ld64 (put_trb t p s c m) t = ld64 (st64 m t p) t"
    unfolding d by (rule ld64_same [OF u(3)]) (use u in \<open>auto simp: st_frame off_range_def\<close>)
  moreover have "ld32 (put_trb t p s c m) (t + 8) = s"
    unfolding d by (subst ld32_store_other) (use u in \<open>auto simp: ld_st_same\<close>)
  ultimately show "trb_at (put_trb t p s c m) t = (p, s, c)" by (simp add: trb_at_def d ld_st_same)
  show "put_trb t p s c m x = m x" if "off_range t 16 x"
    using that u unfolding d by (auto simp: st_frame st64_frame off_range_def)
qed

lemma trb_same: "fits t 16 \<Longrightarrow> \<forall>x. \<not> off_range t 16 x \<longrightarrow> m' x = m x \<Longrightarrow> trb_at m' t = trb_at m t"
  using trb_words [of t] unfolding trb_at_def trb_parameter_def trb_status_def trb_control_def
  by (auto intro!: ld_same(2) ld64_same simp: off_range_def)

lemma ring_at_unat: "fits t (16 * n) \<Longrightarrow> i < n \<Longrightarrow> unat (ring_at t i) = unat t + 16 * i \<and> fits (ring_at t i) 16"
  using unat_add_lt [of t "16 * i"] by (simp add: ring_at_def fits_def)

text \<open>A driver structure, its entry for a device, the device, and room for \<open>n\<close> requests in the ring of endpoint 0, off one another.\<close>

definition xhci_room :: "mem \<Rightarrow> addr \<Rightarrow> u32 \<Rightarrow> addr \<Rightarrow> addr \<Rightarrow> nat \<Rightarrow> bool" where
  "xhci_room m xhci address d t n \<longleftrightarrow> xh_device m xhci address = d \<and> ld32 m (xd_tr_enqueue d 0) = t \<and>
     fits xhci 64 \<and> fits (xh_devices m xhci + 4 * address) 4 \<and> fits d 260 \<and> fits t (16 * n) \<and>
     all_apart [(t, 16 * n), (xhci, 64), (d, 260)] \<and> apart t (16 * n) (xh_devices m xhci + 4 * address) 4 \<and> apart d 260 (xh_devices m xhci + 4 * address) 4"

text \<open>The first requests of the ring, and nothing else but the pointer behind them, changed.\<close>

definition xhci_queued :: "addr \<Rightarrow> addr \<Rightarrow> nat \<Rightarrow> mem \<Rightarrow> mem \<Rightarrow> xhci_request list \<Rightarrow> bool" where
  "xhci_queued d t n m0 m rs \<longleftrightarrow> length rs \<le> n \<and> map (\<lambda>i. trb_at m (ring_at t i)) [0..<length rs] = rs \<and>
     ld32 m (xd_tr_enqueue d 0) = ring_at t (length rs) \<and> (\<forall>x. off_range t (16 * n) x \<longrightarrow> off_range (d + 4) 4 x \<longrightarrow> m x = m0 x)"

lemma queued_none: "xhci_room m xhci address d t n \<Longrightarrow> xhci_queued d t n m m []"
  by (simp add: xhci_room_def xhci_queued_def ring_at_def)

lemma queued_enqueue:
  assumes r: "xhci_room m0 xhci address d t n" and q: "xhci_queued d t n m0 m rs" and l: "length rs < n"
  shows "xhci_queued d t n m0 (xhci_enqueue d 0 p s c m) (rs @ [(p, s, c)])"
proof -
  define k where "k = length rs"
  define m1 where "m1 = put_trb (ring_at t k) p s c m"
  have fit: "fits t (16 * n)" "fits d 260" "apart t (16 * n) d 260" using r by (auto simp: xhci_room_def)
  have kn: "k < n" using l by (simp add: k_def)
  have d4: "unat (d + 4) = unat d + 4" "fits (d + 4) 4" using fit(2) unat_add_lt [of d 4] by (simp_all add: fits_def)
  have eq: "ld32 m (d + 4) = ring_at t k" using q by (simp add: xhci_queued_def k_def xd_tr_enqueue_def)
  note u = ring_at_unat [OF fit(1)]
  have "ld32 m1 (d + 4) = ld32 m (d + 4)" unfolding m1_def
    by (rule ld_same(2) [OF d4(2)]) (use u [OF kn] kn d4 fit(3) in \<open>auto intro!: put_trb_ok(2) simp: off_range_def apart_def\<close>)
  then have e1: "ld32 m1 (d + 4) = ring_at t k" using eq by simp
  have m2: "xhci_enqueue d 0 p s c m = st32 m1 (d + 4) (ring_at t (Suc k))"
    unfolding xhci_enqueue_def Let_def xd_tr_enqueue_def mem_modify_def using eq e1
    by (simp add: m1_def [symmetric]) (simp add: ring_at_def sizeof_xhci_trb_def algebra_simps)
  have fr: "xhci_enqueue d 0 p s c m x = m x" if "off_range (ring_at t k) 16 x" "off_range (d + 4) 4 x" for x
    unfolding m2 using that u [OF kn] d4 by (simp add: st_frame m1_def put_trb_ok(2))
  have off: "off_range (d + 4) 4 x" if "i < n" "\<not> off_range (ring_at t i) 16 x" for i x
    using that u [OF that(1)] fit(3) d4 by (auto simp: off_range_def apart_def)
  have new: "trb_at (xhci_enqueue d 0 p s c m) (ring_at t k) = (p, s, c)"
    using trb_same [of "ring_at t k" "xhci_enqueue d 0 p s c m" m1] off [OF kn] u [OF kn] put_trb_ok(1) [of "ring_at t k" p s c m] d4
    by (simp add: m2 st_frame m1_def)
  have old: "trb_at (xhci_enqueue d 0 p s c m) (ring_at t i) = trb_at m (ring_at t i)" if "i < k" for i
    using that u [of i] u [OF kn] kn off [of i] by (intro trb_same) (auto intro!: fr simp: off_range_def)
  have "map (\<lambda>i. trb_at (xhci_enqueue d 0 p s c m) (ring_at t i)) [0..<k] = map (\<lambda>i. trb_at m (ring_at t i)) [0..<k]"
    using old by (intro map_cong) auto
  also have "\<dots> = rs" using q by (simp add: xhci_queued_def k_def [symmetric])
  finally have "map (\<lambda>i. trb_at (xhci_enqueue d 0 p s c m) (ring_at t i)) [0..<k] = rs" .
  moreover have "\<forall>x. off_range t (16 * n) x \<longrightarrow> off_range (d + 4) 4 x \<longrightarrow> xhci_enqueue d 0 p s c m x = m0 x"
    using q fr u [OF kn] kn by (auto simp: xhci_queued_def off_range_def)
  moreover have "ld32 (xhci_enqueue d 0 p s c m) (d + 4) = ring_at t (Suc k)" unfolding m2 by (rule ld_st_same)
  ultimately show ?thesis using kn new by (simp add: xhci_queued_def k_def [symmetric] xd_tr_enqueue_def)
qed

lemma queued_keeps:
  assumes "xhci_room m0 xhci address d t n" "xhci_queued d t n m0 m rs"
  shows "xh_device m xhci address = d" "xh_db_regs m xhci = xh_db_regs m0 xhci" "xd_slot_id m d = xd_slot_id m0 d"
proof -
  have r: "fits xhci 64" "fits (xh_devices m0 xhci + 4 * address) 4" "fits d 260" "fits t (16 * n)" "apart t (16 * n) xhci 64"
      "apart t (16 * n) d 260" "apart xhci 64 d 260" "apart t (16 * n) (xh_devices m0 xhci + 4 * address) 4"
      "apart d 260 (xh_devices m0 xhci + 4 * address) 4" "xh_device m0 xhci address = d"
    using assms(1) by (auto simp: xhci_room_def)
  have fr: "m x = m0 x" if "off_range t (16 * n) x" "off_range (d + 4) 4 x" for x using assms(2) that by (simp add: xhci_queued_def)
  have d4: "unat (d + 4) = unat d + 4" using r(3) unat_add_lt [of d 4] by (simp add: fits_def)
  have x: "unat (xhci + 48) = unat xhci + 48" "unat (xhci + 56) = unat xhci + 56"
    using r(1) unat_add_lt [of xhci 48] unat_add_lt [of xhci 56] by (simp_all add: fits_def)
  have same: "ld32 m a = ld32 m0 a" if "fits a 4" "unat t + 16 * n \<le> unat a \<or> unat a + 4 \<le> unat t" "unat a + 4 \<le> unat d + 4 \<or> unat d + 8 \<le> unat a" for a
  proof (rule ld_same(2) [OF that(1)], intro allI impI)
    fix x assume "\<not> off_range a 4 x"
    then show "m x = m0 x" using that(2,3) by (intro fr) (auto simp: off_range_def d4)
  qed
  have dv: "xh_devices m xhci = xh_devices m0 xhci"
    unfolding xh_devices_def using x r by (intro same) (auto simp: fits_def apart_def)
  show "xh_db_regs m xhci = xh_db_regs m0 xhci"
    unfolding xh_db_regs_def using x r by (intro same) (auto simp: fits_def apart_def)
  show "xd_slot_id m d = xd_slot_id m0 d"
    unfolding xd_slot_id_def using r by (intro same) (auto simp: fits_def apart_def)
  show "xh_device m xhci address = d"
    unfolding xh_device_def dv r(10) [symmetric, unfolded xh_device_def] by (rule same) (use r in \<open>auto simp: apart_def\<close>)
qed

text \<open>The requests of the stages; the last bytes of their blocks on the stack are \<open>c1\<close>, \<open>c2\<close> and \<open>c3\<close>.\<close>

definition data_request :: "u8 \<Rightarrow> nat \<Rightarrow> addr \<Rightarrow> nat \<Rightarrow> nat \<Rightarrow> xhci_request" where
  "data_request c packet data n k = (ptr64 data + of_nat (packet * k), of_nat (min packet (n - packet * k)), data_trb_control c)"

definition control_requests :: "(nat \<Rightarrow> u8) \<Rightarrow> nat \<Rightarrow> u64 \<Rightarrow> addr \<Rightarrow> nat \<Rightarrow> xhci_request list" where
  "control_requests c packet setup data n =
     (setup, 8, setup_trb_control (c 1)) # map (data_request (c 2) packet data n) [0..<packet_count packet n] @ [(0, 0, status_trb_control (c 3))]"

lemma scast_of_nat: "k < 2 ^ 31 \<Longrightarrow> (scast (of_nat k :: u32) :: u64) = of_nat k"
proof -
  assume k: "k < 2 ^ 31"
  have "sint (of_nat k :: u32) = int k"
    using k by (simp add: sint_uint take_bit_eq_mod signed_take_bit_eq_take_bit_shift unsigned_of_nat)
  then show ?thesis by (simp add: scast_eq)
qed

lemma xhci_data_loop_ok:
  assumes "xhci_room m0 xhci address d t N" "0 < packet" "packet < 2 ^ 17" "n + packet < 2 ^ 31"
  shows "xhci_queued d t N m0 m rs \<Longrightarrow> k \<le> packet_count packet n \<Longrightarrow> length rs + (packet_count packet n - k) \<le> N \<Longrightarrow>
    \<exists>m'. xhci_data_loop c xhci address (of_nat packet) data (of_nat n - of_nat (packet * k)) (of_nat (packet * k)) m = Some m' \<and>
      xhci_queued d t N m0 m' (rs @ map (data_request c packet data n) [k..<packet_count packet n])"
proof (induction "packet_count packet n - k" arbitrary: k m rs)
  case 0
  have k: "k = packet_count packet n" using 0(1,3) by simp
  have "n \<le> packet * k" using packet_count_less [OF assms(2), of k n] k by simp
  moreover have "packet * k < n + packet"
  proof (cases k)
    case (Suc j)
    then have "packet * j < n" using packet_count_less [OF assms(2), of j n] k by simp
    then show ?thesis using Suc by simp
  qed (use assms(2) in simp)
  ultimately have "\<not> 0 <s (of_nat n - of_nat (packet * k) :: u32)" using assms(4) by (intro not_positive) simp_all
  then show ?case using 0(2) k by (subst xhci_data_loop.simps) simp
next
  case (Suc j)
  let ?K = "packet_count packet n"
  have k: "k < ?K" using Suc(2) by simp
  then have n: "packet * k < n" using packet_count_less [OF assms(2)] by simp
  have len: "(of_nat n - of_nat (packet * k) :: u32) = of_nat (n - packet * k)" using n by (simp only: of_nat_diff less_imp_le)
  have pos: "0 <s (of_nat (n - packet * k) :: u32)" using sless_of_nat [of 0 "n - packet * k"] n assms(4) by simp
  have mn: "int_min (of_nat (n - packet * k)) (of_nat packet) = of_nat (min packet (n - packet * k))"
    using sless_of_nat [of "n - packet * k" packet] assms(3,4) by (simp add: int_min_def min_def)
  have cut: "(of_nat (min packet (n - packet * k)) :: u32) AND 0x1ffff = of_nat (min packet (n - packet * k))"
  proof -
    have "unat (of_nat (min packet (n - packet * k)) AND mask 17 :: u32) = unat (of_nat (min packet (n - packet * k)) :: u32)"
      unfolding and_mask_unat using assms(3) by (subst (1 2) unat_of_nat_eq) simp_all
    then show ?thesis by (simp only: word_unat_eq_iff mask_eq_exp_minus_1) simp
  qed
  have sc: "(scast (of_nat (packet * k) :: u32) :: u64) = of_nat (packet * k)" using n assms(4) by (intro scast_of_nat) simp
  let ?m1 = "xhci_enqueue d 0 (ptr64 data + of_nat (packet * k)) (of_nat (min packet (n - packet * k))) (data_trb_control c) m"
  have q: "xhci_queued d t N m0 ?m1 (rs @ [data_request c packet data n k])"
    using queued_enqueue [OF assms(1) Suc(3)] Suc(4) k Suc(5) by (simp add: data_request_def)
  have l1: "(of_nat (n - packet * k) - of_nat packet :: u32) = of_nat n - of_nat (packet * Suc k)" unfolding len [symmetric] by simp
  have o1: "(of_nat (packet * k) + of_nat packet :: u32) = of_nat (packet * Suc k)" by simp
  have run: "xhci_data_loop c xhci address (of_nat packet) data (of_nat n - of_nat (packet * k)) (of_nat (packet * k)) m =
      xhci_data_loop c xhci address (of_nat packet) data (of_nat n - of_nat (packet * Suc k)) (of_nat (packet * Suc k)) ?m1"
    unfolding len by (subst xhci_data_loop.simps) (use pos in \<open>simp only: queued_keeps(1) [OF assms(1) Suc(3)] mn cut sc l1 o1 not_True_eq_False if_False\<close>)
  have a: "j = ?K - Suc k" "Suc k \<le> ?K" "length (rs @ [data_request c packet data n k]) + (?K - Suc k) \<le> N"
    using Suc(2,5) k by auto
  have sp: "[k..<?K] = k # [Suc k..<?K]" using k by (simp add: upt_conv_Cons)
  from Suc(1) [OF a(1) q a(2,3)] show ?case unfolding run sp by simp
qed

lemma xhci_control_ok:
  assumes r: "xhci_room (mem s) xhci address d t N" and hc: "hc_data (mem s) hc = xhci"
    and p: "packet = (if packet_size = 0 then unat (ld16 (mem s) (ec_max_packet_size (ic_ep_context0 (xd_ic (mem s) d)))) else unat packet_size)"
    "0 < packet" "packet < 2 ^ 17" "n = unat len" "n + packet < 2 ^ 31" and room: "packet_count packet n + 2 \<le> N"
  shows "\<exists>m'. bl_xhci_control_transfer env stale hc packet_size address speed setup data len s =
      Some (BL_STATUS_SUCCESS, snd (xhci_event_loop env xhci 19 (hi_write env (xh_db_regs (mem s) xhci + 4 * xd_slot_id (mem s) d) 1 (s\<lparr>mem := m'\<rparr>)))) \<and>
    xhci_queued d t N (mem s) m' (control_requests (\<lambda>i. stale i s) packet (ld64 (mem s) setup) data n)"
proof -
  let ?m1 = "xhci_enqueue d 0 (ld64 (mem s) setup) 8 (setup_trb_control (stale 1 s)) (mem s)"
  have dv: "xh_device (mem s) xhci address = d" using r by (simp add: xhci_room_def)
  have q1: "xhci_queued d t N (mem s) ?m1 [(ld64 (mem s) setup, 8, setup_trb_control (stale 1 s))]"
    using queued_enqueue [OF r queued_none [OF r]] room by simp
  have ps: "(if packet_size = 0 then ucast (ld16 (mem s) (ec_max_packet_size (ic_ep_context0 (xd_ic (mem s) d)))) else packet_size) = (of_nat packet :: u32)"
    unfolding p(1) by simp
  obtain m2 where m2: "xhci_data_loop (stale 2 s) xhci address (of_nat packet) data len 0 ?m1 = Some m2"
      "xhci_queued d t N (mem s) m2 ((ld64 (mem s) setup, 8, setup_trb_control (stale 1 s)) # map (data_request (stale 2 s) packet data n) [0..<packet_count packet n])"
    using xhci_data_loop_ok [OF r p(2,3,5) q1, of 0 "stale 2 s" data] room p(4) by auto
  define m3 where "m3 = xhci_enqueue d 0 0 0 (status_trb_control (stale 3 s)) m2"
  have q3: "xhci_queued d t N (mem s) m3 (control_requests (\<lambda>i. stale i s) packet (ld64 (mem s) setup) data n)"
    using queued_enqueue [OF r m2(2), of 0 0 "status_trb_control (stale 3 s)"] room by (simp add: m3_def control_requests_def)
  have "bl_xhci_control_transfer env stale hc packet_size address speed setup data len s =
      Some (BL_STATUS_SUCCESS, snd (xhci_event_loop env xhci 19 (hi_write env (xh_db_regs (mem s) xhci + 4 * xd_slot_id (mem s) d) 1 (s\<lparr>mem := m3\<rparr>))))"
    unfolding bl_xhci_control_transfer_def sizeof_setup_data_def Let_def hc dv ps m2(1)
    using queued_keeps(1) [OF r m2(2)] queued_keeps [OF r q3] by (simp add: m3_def [symmetric])
  then show ?thesis using q3 by blast
qed

subsection \<open>Events\<close>

text \<open>The events are taken in the order of the ring, from its first request on; the size of the ring does not matter, so that the pointer leaves it.\<close>

lemma next_event:
  assumes "fits xhci 64" "fits ring (16 * n)" "apart xhci 64 ring (16 * n)" "bit (ld32 m (trb_control (ring_at ring i))) 0"
    "i < n" "\<forall>x. off_range (xhci + 40) 4 x \<longrightarrow> m' x = m x" "xh_er_dequeue m' xhci = ring_at ring i"
  shows "bl_xhci_get_last_event xhci m' = (ring_at ring i, st32 m' (xhci + 40) (ring_at ring (Suc i)))"
proof -
  have x40: "unat (xhci + 40) = unat xhci + 40" using assms(1) unat_add_lt [of xhci 40] by (simp add: fits_def)
  have u: "unat (ring_at ring i + 12) = unat ring + 16 * i + 12"
    using ring_at_unat [OF assms(2,5)] trb_words(2) [of "ring_at ring i"] by auto
  have "ld32 m' (ring_at ring i + 12) = ld32 m (ring_at ring i + 12)"
    using assms(2,3,5,6) u x40 by (intro ld_same(2)) (auto simp: fits_def off_range_def apart_def)
  then have "bit (ld32 m' (trb_control (ring_at ring i))) 0" using assms(4) by (simp add: trb_control_def)
  then have "ld32 m' (trb_control (ring_at ring i)) AND BL_XHCI_TRB_C \<noteq> 0"
    by (auto simp: BL_XHCI_TRB_C_def bit_0 and_one_eq odd_iff_mod_2_eq_one)
  then show ?thesis unfolding bl_xhci_get_last_event_def Let_def assms(7)
    by (simp add: ring_at_def sizeof_xhci_trb_def algebra_simps)
qed

lemma xhci_events_run_off:
  assumes "fits xhci 64" "fits ring (16 * n)" "apart xhci 64 ring (16 * n)" "\<forall>i<n. bit (ld32 m (trb_control (ring_at ring i))) 0" "xh_er_dequeue m xhci = ring"
  shows "k \<le> n \<Longrightarrow> \<exists>m'. ((\<lambda>m. snd (bl_xhci_get_last_event xhci m)) ^^ k) m = m' \<and> xh_er_dequeue m' xhci = ring_at ring k \<and>
    (\<forall>x. off_range (xhci + 40) 4 x \<longrightarrow> m' x = m x) \<and> (k < n \<longrightarrow> fst (bl_xhci_get_last_event xhci m') = ring_at ring k)"
proof (induction k)
  case 0
  have "xh_er_dequeue m xhci = ring_at ring 0" using assms(5) by (simp add: ring_at_def)
  then show ?case using next_event [OF assms(1-3), of m 0 m] assms(4) by auto
next
  case (Suc k)
  then obtain m1 where m1: "((\<lambda>m. snd (bl_xhci_get_last_event xhci m)) ^^ k) m = m1" "xh_er_dequeue m1 xhci = ring_at ring k" "\<forall>x. off_range (xhci + 40) 4 x \<longrightarrow> m1 x = m x"
    by auto
  have fit: "fits (xhci + 40) 4" using assms(1) unat_add_lt [of xhci 40] by (simp add: fits_def)
  define m2 where "m2 = st32 m1 (xhci + 40) (ring_at ring (Suc k))"
  have "bl_xhci_get_last_event xhci m1 = (ring_at ring k, m2)"
    using next_event [OF assms(1-3) _ _ m1(3,2)] assms(4) Suc.prems by (simp add: m2_def)
  then have "((\<lambda>m. snd (bl_xhci_get_last_event xhci m)) ^^ Suc k) m = m2" using m1(1) by simp
  moreover have e: "xh_er_dequeue m2 xhci = ring_at ring (Suc k)" by (simp add: xh_er_dequeue_def m2_def ld_st_same)
  moreover have f: "\<forall>x. off_range (xhci + 40) 4 x \<longrightarrow> m2 x = m x" using m1(3) fit by (simp add: m2_def st_frame)
  moreover have "Suc k < n \<longrightarrow> fst (bl_xhci_get_last_event xhci m2) = ring_at ring (Suc k)"
    using next_event [OF assms(1-3) _ _ f e] assms(4) by auto
  ultimately show ?case by blast
qed

end
