(* ===== verification/Bl_EhciTransfers.thy ===== *)
theory Bl_EhciTransfers
  imports Bl_Ehci
begin

text \<open>
  The transfer descriptors of the EHCI driver: how a buffer is cut into pages, and what the initialised descriptor holds; what the driver
  makes of a halted queue.
\<close>

unbundle bit_operations_syntax

subsection \<open>Halted queues and transfer descriptors\<close>

text \<open>A halted queue is always reported as a device that does not answer.\<close>

lemma ehci_halted_is_nak:
  assumes "bl_ehci_transfer_finished m qh = BL_STATUS_USB_SHOULD_CHECK_STATUS"
  shows "bl_ehci_transfer_status m qh = BL_STATUS_USB_NAK_RECEIVED"
proof -
  define t where "t = ld32 m (qtd_token (eqh_overlay qh))"
  have "t AND BL_EHCI_QTD_TOKEN_HALTED \<noteq> 0"
    using assms by (auto simp: bl_ehci_transfer_finished_def Let_def t_def split: if_splits)
  then have "bit t 6" using and_exp_eq_0_iff_not_bit [of t 6] by (simp add: BL_EHCI_QTD_TOKEN_HALTED_def)
  then have b: "bit (t AND 0xff) 6" by (simp add: bit_and_iff)
  have "t AND 0xff \<noteq> v" if "\<not> bit v 6" for v using that b by blast
  then show ?thesis
    unfolding bl_ehci_transfer_status_def Let_def t_def [symmetric] BL_EHCI_QTD_TOKEN_STATUS_def
    by (simp add: BL_EHCI_QTD_TOKEN_BABBLE_DETECTED_def BL_EHCI_QTD_TOKEN_MISSED_MICRO_FRAME_def BL_EHCI_QTD_TOKEN_XACTERR_def
        BL_EHCI_QTD_TOKEN_DATA_BUFFER_ERROR_def bit_iff_odd)
qed

text \<open>The transfer descriptors.\<close>

interpretation ehci_qtd: descriptor_pool sizeof_ehci_qtd "qtd_used 0" BL_EHCI_NUM_QTDS
  by unfold_locales (simp add: qtd_used_def sizeof_ehci_qtd_def)

definition ehci_qtd_at :: "addr \<Rightarrow> nat \<Rightarrow> addr" where "ehci_qtd_at qtds i = desc_at qtds sizeof_ehci_qtd i"
definition ehci_qtd_flag :: "addr \<Rightarrow> mem \<Rightarrow> nat \<Rightarrow> u32" where "ehci_qtd_flag qtds m i = ld32 m (qtd_used (ehci_qtd_at qtds i))"

lemma ehci_flags: "desc_flag sizeof_ehci_qtd (qtd_used 0) qtds m i = ehci_qtd_flag qtds m i"
  by (simp add: desc_flag_def ehci_qtd_flag_def qtd_used_def ehci_qtd_at_def add.commute)

lemma ld32_zero: "\<forall>k<4. m (a + of_nat k) = 0 \<Longrightarrow> ld32 m a = 0"
proof -
  assume "\<forall>k<4. m (a + of_nat k) = 0"
  then have "mem_get m a 4 = replicate 4 0" by (intro nth_equalityI) simp_all
  then have "mem_get m a 4 = [0, 0, 0, 0]" by (simp add: numeral_eq_Suc)
  then show ?thesis by (simp add: ld32_def)
qed

lemma sless_of_int: "- (2 ^ 31) \<le> z \<Longrightarrow> z < 2 ^ 31 \<Longrightarrow> (0 <s (word_of_int z :: u32)) = (0 < z)"
proof -
  assume z: "- (2 ^ 31) \<le> z" "z < 2 ^ 31"
  have "sint (word_of_int z :: u32) = z" using z signed_take_bit_int_eq_self [of 31 z] by (simp only: signed_of_int) simp
  then show ?thesis by (simp add: word_sless_alt)
qed

lemma st32_again: "st32 (st32 m a v) a v = st32 m a v"
  by (rule ext) (simp add: st32_def mem_put_def)

lemma qtd_pages: "qtd_buffer_pointer qtd 0 = qtd + 12" "qtd_buffer_pointer qtd 1 = qtd + 16" "qtd_buffer_pointer qtd 2 = qtd + 20" "qtd_buffer_pointer qtd 3 = qtd + 24"
  by (simp_all add: qtd_buffer_pointer_def add.assoc)

lemma ehci_pages_stored:
  assumes "ld32 m (qtd + 12) = p" "A = BL_MEMORY_ALIGN_UP p 0x1000" "A mod 0x1000 = 0" "st32 m (qtd + 16) A = m"
  shows "- 0x5000 \<le> z \<Longrightarrow> z \<le> 0x5000 \<Longrightarrow> ehci_pages_loop qtd 1 (word_of_int z) m = Some m"
proof (induction "nat z" arbitrary: z rule: less_induct)
  case less
  have e: "ld32 m (qtd + 16) = A" using ld_st_same(2) [of m "qtd + 16" A] assms(4) by simp
  show ?case
  proof (cases "0 < z")
    case True
    then have p: "0 <s (word_of_int z :: u32)" using sless_of_int [of z] less.prems by simp
    have l: "TD_BUFFER_ALIGNMENT qtd 1 (word_of_int z) m = word_of_int (z - 0x1000)"
      by (simp add: TD_BUFFER_ALIGNMENT_def Let_def qtd_pages e BL_EHCI_QTD_TOKEN_BUFFER_SIZE_def assms(3))
    have "ehci_pages_loop qtd 1 (word_of_int (z - 0x1000)) m = Some m"
      by (rule less.hyps) (use True less.prems in \<open>auto simp: nat_less_iff\<close>)
    then show ?thesis
      using p l assms(1,4) by (subst ehci_pages_loop.simps) (simp add: Let_def qtd_pages BL_EHCI_QTD_TOKEN_BUFFER_SIZE_def assms(2) [symmetric])
  next
    case False
    then have "\<not> 0 <s (word_of_int z :: u32)" using sless_of_int [of z] less.prems by simp
    then show ?thesis by (subst ehci_pages_loop.simps) simp
  qed
qed

lemma ehci_pages_ok:
  assumes "fits qtd 64" "ld32 m (qtd + 12) = p" "A = BL_MEMORY_ALIGN_UP p 0x1000" "A mod 0x1000 = 0" "- 0x4000 \<le> z" "z \<le> 0x5000"
  shows "ehci_pages_loop qtd 1 (word_of_int z) m = Some (if 0 < z then st32 m (qtd + 16) A else m)"
proof (cases "0 < z")
  case True
  define m1 where "m1 = st32 m (qtd + 16) A"
  have u: "unat (qtd + 12) = unat qtd + 12" "unat (qtd + 16) = unat qtd + 16"
    using assms(1) unat_add_lt [of qtd 12] unat_add_lt [of qtd 16] by (simp_all add: fits_def)
  have e: "ld32 m1 (qtd + 16) = A" "ld32 m1 (qtd + 12) = p"
    using assms(1,2) u by (simp_all add: m1_def ld_st_same ld32_store_other fits_def)
  have p: "0 <s (word_of_int z :: u32)" using sless_of_int [of z] True assms(6) by simp
  have l: "TD_BUFFER_ALIGNMENT qtd 1 (word_of_int z) m1 = word_of_int (z - 0x1000)"
    by (simp add: TD_BUFFER_ALIGNMENT_def Let_def qtd_pages e BL_EHCI_QTD_TOKEN_BUFFER_SIZE_def assms(4))
  have "ehci_pages_loop qtd 1 (word_of_int (z - 0x1000)) m1 = Some m1"
    by (rule ehci_pages_stored [OF e(2) assms(3,4)]) (use assms(5,6) True in \<open>auto simp: m1_def st32_again\<close>)
  then show ?thesis
    using p l True assms(2) by (subst ehci_pages_loop.simps) (simp add: Let_def qtd_pages BL_EHCI_QTD_TOKEN_BUFFER_SIZE_def assms(3) [symmetric] m1_def [symmetric])
next
  case False
  then have "\<not> 0 <s (word_of_int z :: u32)" using sless_of_int [of z] assms(5) by simp
  then show ?thesis using False by (subst ehci_pages_loop.simps) simp
qed

lemma ehci_first_page:
  assumes "unat (buf :: u32) + 4096 \<le> 2 ^ 32" "ld32 m (qtd + 12) = buf"
  shows "TD_BUFFER_ALIGNMENT qtd 0 (of_nat len) m = word_of_int (int len - int (4096 - unat buf mod 4096))"
    "BL_MEMORY_ALIGN_UP buf 0x1000 mod 0x1000 = 0" "unat (BL_MEMORY_ALIGN_UP buf 0x1000) = round_up (unat buf) 4096"
proof -
  let ?A = "BL_MEMORY_ALIGN_UP buf 0x1000"
  have a: "unat ?A = round_up (unat buf) 4096" using align_up_unat [of 12 buf] assms(1) by (simp add: round_up_def)
  show "unat ?A = round_up (unat buf) 4096" by (rule a)
  have "4096 dvd unat ?A" using a round_up_dvd [of 4096 "unat buf"] by simp
  then show "?A mod 0x1000 = 0" by (simp add: word_unat_eq_iff unat_mod)
  show "TD_BUFFER_ALIGNMENT qtd 0 (of_nat len) m = word_of_int (int len - int (4096 - unat buf mod 4096))"
  proof (cases "unat buf mod 4096 = 0")
    case True
    then have "buf mod 0x1000 = 0" by (simp add: word_unat_eq_iff unat_mod)
    then show ?thesis using True by (simp add: TD_BUFFER_ALIGNMENT_def Let_def qtd_pages assms(2) BL_EHCI_QTD_TOKEN_BUFFER_SIZE_def)
  next
    case False
    then have n: "buf mod 0x1000 \<noteq> 0" by (simp add: word_unat_eq_iff unat_mod)
    have r: "round_up (unat buf) 4096 = unat buf + (4096 - unat buf mod 4096)"
    proof -
      have d: "unat buf div 4096 * 4096 + unat buf mod 4096 = unat buf" "unat buf mod 4096 < 4096" by (rule div_mult_mod_eq) simp
      have "(unat buf + 4095) div 4096 = Suc (unat buf div 4096)"
        by (rule div_nat_eqI; unfold mult_Suc_right; use d False in linarith)
      then have "round_up (unat buf) 4096 = unat buf div 4096 * 4096 + 4096" by (simp add: round_up_def add.commute)
      then show ?thesis using d by linarith
    qed
    have "of_nat (unat ?A) = ?A" by simp
    then have "of_nat (unat buf + (4096 - unat buf mod 4096)) = ?A" unfolding a r .
    moreover have "of_nat (unat buf) = buf" by simp
    ultimately have "?A - buf = of_nat (4096 - unat buf mod 4096)" by (metis of_nat_add add_diff_cancel_left')
    then show ?thesis using n by (simp add: TD_BUFFER_ALIGNMENT_def Let_def qtd_pages assms(2) BL_EHCI_QTD_TOKEN_BUFFER_SIZE_def)
  qed
qed

definition ehci_token :: "u32 \<Rightarrow> u32 \<Rightarrow> u32 \<Rightarrow> u32" where
  "ehci_token len toggle pid =
     ((((BL_EHCI_QTD_TOKEN_ACTIVE OR ehci_pid pid) OR BL_EHCI_MAKE_QTD_CERR 3) OR BL_EHCI_MAKE_QTD_C_PAGE 0) OR BL_EHCI_MAKE_QTD_BUFFER_SIZE len) OR
       BL_EHCI_MAKE_QTD_TOGGLE toggle"

lemma qtd_words:
  assumes "fits q 64"
  shows "unat (q + 4) = unat q + 4" "unat (q + 8) = unat q + 8" "unat (q + 12) = unat q + 12" "unat (q + 16) = unat q + 16"
    "unat (q + 20) = unat q + 20" "unat (q + 24) = unat q + 24" "unat (q + 32) = unat q + 32" "unat (q + 52) = unat q + 52" "unat (q + 56) = unat q + 56"
    "unat q + 64 \<le> 2 ^ 32"
proof -
  note t = table_addr [OF assms]
  show "unat (q + 4) = unat q + 4" using t [of 4] by simp
  show "unat (q + 8) = unat q + 8" using t [of 8] by simp
  show "unat (q + 12) = unat q + 12" using t [of 12] by simp
  show "unat (q + 16) = unat q + 16" using t [of 16] by simp
  show "unat (q + 20) = unat q + 20" using t [of 20] by simp
  show "unat (q + 24) = unat q + 24" using t [of 24] by simp
  show "unat (q + 32) = unat q + 32" using t [of 32] by simp
  show "unat (q + 52) = unat q + 52" using t [of 52] by simp
  show "unat (q + 56) = unat q + 56" using t [of 56] by simp
  show "unat q + 64 \<le> 2 ^ 32" using assms by (simp add: fits_def)
qed

text \<open>The descriptor before its buffer is set.\<close>

definition ehci_blank :: "addr \<Rightarrow> u32 \<Rightarrow> mem \<Rightarrow> mem" where
  "ehci_blank q t m =
     (let m1 = st32 (st32 (st32 (st32 (st32 m (q + 52) 1) (q + 4) 1) q 1) (q + 56) 1) (q + 8) t
      in mem_put (mem_put m1 (q + 12) (replicate 19 0)) (q + 32) (replicate 19 0))"

lemma ehci_blank_words:
  assumes "fits q 64"
  shows "ld32 (ehci_blank q t m) q = 1" "ld32 (ehci_blank q t m) (q + 4) = 1" "ld32 (ehci_blank q t m) (q + 8) = t"
    "ld32 (ehci_blank q t m) (q + 16) = 0" "ld32 (ehci_blank q t m) (q + 20) = 0" "ld32 (ehci_blank q t m) (q + 24) = 0"
    "ld32 (ehci_blank q t m) (q + 52) = 1" "ld32 (ehci_blank q t m) (q + 56) = 1" "off_range q 64 x \<Longrightarrow> ehci_blank q t m x = m x"
proof -
  note u = qtd_words [OF assms]
  define m1 where "m1 = st32 (st32 (st32 (st32 (st32 m (q + 52) 1) (q + 4) 1) q 1) (q + 56) 1) (q + 8) t"
  define m2 where "m2 = mem_put m1 (q + 12) (replicate 19 0)"
  have e: "ehci_blank q t m = mem_put m2 (q + 32) (replicate 19 0)" by (simp add: ehci_blank_def m1_def m2_def)
  have f2: "m2 x = m1 x" if "off_range (q + 12) 19 x" for x
    unfolding m2_def using mem_put_frame [of "q + 12" "replicate 19 0" x] that u by (simp add: fits_def)
  have f3: "ehci_blank q t m x = m2 x" if "off_range (q + 32) 19 x" for x
    unfolding e using mem_put_frame [of "q + 32" "replicate 19 0" x] that u by (simp add: fits_def)
  have k: "ld32 (ehci_blank q t m) a = ld32 m1 a" if "a \<in> {q, q + 4, q + 8, q + 52, q + 56}" for a
  proof (rule ld_same(2))
    have a: "unat a + 4 \<le> unat q + 12 \<or> unat q + 52 \<le> unat a" "unat a + 4 \<le> unat q + 64" using that u(1-9) by auto
    show "fits a 4" using a(2) u(10) by (simp add: fits_def)
    show "\<forall>x. \<not> off_range a 4 x \<longrightarrow> ehci_blank q t m x = m1 x"
    proof (intro allI impI)
      fix x assume "\<not> off_range a 4 x"
      then have "off_range (q + 32) 19 x" "off_range (q + 12) 19 x" using a unfolding off_range_def u(3,7) by linarith+
      then show "ehci_blank q t m x = m1 x" by (simp add: f2 f3)
    qed
  qed
  have f: "fits q 4" "fits (q + 4) 4" "fits (q + 8) 4" "fits (q + 52) 4" "fits (q + 56) 4" unfolding fits_def u(1-9) using u(10) by simp_all
  have w: "ld32 m1 q = 1" "ld32 m1 (q + 4) = 1" "ld32 m1 (q + 8) = t" "ld32 m1 (q + 52) = 1" "ld32 m1 (q + 56) = 1"
    unfolding m1_def by (simp_all add: ld_st_same ld32_store_other f u(1-9))
  show "ld32 (ehci_blank q t m) q = 1" by (rule trans [OF k w(1)]) simp
  show "ld32 (ehci_blank q t m) (q + 4) = 1" by (rule trans [OF k w(2)]) simp
  show "ld32 (ehci_blank q t m) (q + 8) = t" by (rule trans [OF k w(3)]) simp
  show "ld32 (ehci_blank q t m) (q + 52) = 1" by (rule trans [OF k w(4)]) simp
  show "ld32 (ehci_blank q t m) (q + 56) = 1" by (rule trans [OF k w(5)]) simp
  have z: "ehci_blank q t m (q + 12 + of_nat i) = 0" if "i < 19" for i
  proof -
    have "unat (q + 12 + of_nat i) = unat q + 12 + i" using unat_add_lt [of "q + 12" i] u that by simp
    then have "ehci_blank q t m (q + 12 + of_nat i) = m2 (q + 12 + of_nat i)" using that u by (intro f3) (simp add: off_range_def)
    then show ?thesis using that mem_put_in [of i "replicate 19 0" m1 "q + 12"] by (simp add: m2_def)
  qed
  have zw: "ld32 (ehci_blank q t m) (q + 12 + of_nat j) = 0" if "j + 4 \<le> 19" for j
    using z [of "j + _"] that by (intro ld32_zero) (auto simp: add.assoc simp flip: of_nat_add)
  show "ld32 (ehci_blank q t m) (q + 16) = 0" "ld32 (ehci_blank q t m) (q + 20) = 0" "ld32 (ehci_blank q t m) (q + 24) = 0"
    using zw [of 4] zw [of 8] zw [of 12] by (simp_all add: add.assoc)
  show "ehci_blank q t m x = m x" if "off_range q 64 x"
  proof -
    have "off_range (q + 32) 19 x" "off_range (q + 12) 19 x" using that unfolding off_range_def u(3,7) by linarith+
    then have "ehci_blank q t m x = m1 x" by (simp add: f2 f3)
    also have "\<dots> = m x"
    proof -
      have "fits a 4 \<and> off_range a 4 x" if "a \<in> {q, q + 4, q + 8, q + 52, q + 56}" for a
      proof -
        have "unat q \<le> unat a" "unat a + 4 \<le> unat q + 64" using that by (auto simp: u(1-9))
        then show ?thesis using u(10) \<open>off_range q 64 x\<close> unfolding fits_def off_range_def by linarith
      qed
      then show ?thesis by (simp add: m1_def st_frame)
    qed
    finally show ?thesis .
  qed
qed

lemma ehci_qtd_ok:
  assumes "fits qtds 16384" "qtds \<noteq> 0" "eh_qtds m ehci = qtds" "\<exists>i<256. ehci_qtd_flag qtds m i = 0"
    "buf \<noteq> 0" "unat buf + 4096 \<le> 2 ^ 32" "0 < unat len" "unat len \<le> 0x5000"
  shows "\<exists>i<256. \<exists>m'. bl_ehci_init_qtd ehci buf len toggle pid m = Some (ehci_qtd_at qtds i, m') \<and> ehci_qtd_flag qtds m i = 0 \<and>
    ehci_qtd_flag qtds m' i = 1 \<and> (\<forall>x. off_range (ehci_qtd_at qtds i) 64 x \<longrightarrow> m' x = m x) \<and>
    ld32 m' (qtd_next_qtd (ehci_qtd_at qtds i)) = 1 \<and> ld32 m' (qtd_original_next_qtd (ehci_qtd_at qtds i)) = 1 \<and>
    ld32 m' (qtd_token (ehci_qtd_at qtds i)) = ehci_token len toggle pid \<and>
    map (\<lambda>k. ld32 m' (qtd_buffer_pointer (ehci_qtd_at qtds i) k)) [0, 1, 2, 3] =
      [buf, if unat len \<le> 4096 - unat buf mod 4096 then 0 else of_nat (round_up (unat buf) 4096), 0, 0]"
proof -
  obtain i where i: "i < 256" "ehci_qtd_flag qtds m i = 0" "ehci_qtd_at qtds i \<noteq> 0"
      "bl_ehci_alloc_qtd ehci m = (ehci_qtd_at qtds i, st32 m (qtd_used (ehci_qtd_at qtds i)) 1)"
    using ehci_qtd.alloc_takes [of qtds m] assms(1-4) unfolding ehci_flags bl_ehci_alloc_qtd_def
    by (auto simp: sizeof_ehci_qtd_def BL_EHCI_NUM_QTDS_def ehci_qtd_at_def qtd_used_def add.commute)
  define q where "q = ehci_qtd_at qtds i"
  have uq: "unat q = unat qtds + 64 * i"
    using ehci_qtd.addr_unat [of qtds i] assms(1) i(1) by (simp add: q_def ehci_qtd_at_def sizeof_ehci_qtd_def BL_EHCI_NUM_QTDS_def)
  have fq: "fits q 64" using uq assms(1) i(1) by (simp add: fits_def)
  note u = qtd_words [OF fq]
  have f: "fits (q + 8) 4" "fits (q + 12) 4" "fits (q + 16) 4" "fits (q + 20) 4" "fits (q + 24) 4" "fits (q + 52) 4" "fits (q + 56) 4" "fits q 4"
    unfolding fits_def u(1-9) using u(10) by simp_all
  define t where "t = ((BL_EHCI_QTD_TOKEN_ACTIVE OR ehci_pid pid) OR BL_EHCI_MAKE_QTD_CERR 3) OR BL_EHCI_MAKE_QTD_C_PAGE 0"
  define m4 where "m4 = ehci_blank q t m"
  have ne: "q + 12 \<noteq> 0" "q + 32 \<noteq> 0" using u(3,7) by (metis add_is_0 unat_0 zero_neq_numeral)+
  have run4: "snd (bl_memset (snd (bl_memset (st32 (st32 (st32 (st32 (st32 m (qtd_used q) 1) (qtd_alternate_next_qtd q) BL_EHCI_QTD_LINK_T) (qtd_next_qtd q) BL_EHCI_QTD_LINK_T)
      (qtd_original_next_qtd q) BL_EHCI_QTD_LINK_T) (qtd_token q) t) (qtd_buffer_pointer q 0) 0 20)) (qtd_extended_buffer_pointer q) 0 20) = m4"
    using bl_memset_correct [OF ne(1), of _ 0 20] bl_memset_correct [OF ne(2), of _ 0 20]
    by (simp add: m4_def ehci_blank_def Let_def qtd_used_def qtd_alternate_next_qtd_def qtd_next_qtd_def qtd_original_next_qtd_def qtd_token_def
        qtd_extended_buffer_pointer_def qtd_pages BL_EHCI_QTD_LINK_T_def)
  note w4 = ehci_blank_words [OF fq, where t = t and m = m, folded m4_def]
  define m5 where "m5 = st32 (mem_modify (q + 8) (\<lambda>v. v OR BL_EHCI_MAKE_QTD_BUFFER_SIZE len) m4) (q + 12) buf"
  have w5: "ld32 m5 (q + 12) = buf" by (simp add: m5_def ld_st_same)
  define A where "A = BL_MEMORY_ALIGN_UP buf 0x1000"
  note fp = ehci_first_page(2,3) [OF assms(6) w5, folded A_def]
  define z where "z = int (unat len) - int (4096 - unat buf mod 4096)"
  have "unat buf mod 4096 < 4096" by simp
  then have z: "- 0x4000 \<le> z" "z \<le> 0x5000" unfolding z_def using assms(7,8) by linarith+
  have z3: "(0 < z) = (\<not> unat len \<le> 4096 - unat buf mod 4096)" by (simp only: z_def diff_gt_0_iff_gt of_nat_less_iff not_le)
  define m6 where "m6 = (if 0 < z then st32 m5 (q + 16) A else m5)"
  have pages: "ehci_pages_loop q 1 (word_of_int z) m5 = Some m6"
    unfolding m6_def by (rule ehci_pages_ok [OF fq w5]) (use fp z in \<open>simp_all add: A_def\<close>)
  define m7 where "m7 = mem_modify (q + 8) (\<lambda>v. v OR BL_EHCI_MAKE_QTD_TOGGLE toggle) m6"
  have first: "TD_BUFFER_ALIGNMENT q 0 len m5 = word_of_int z" using ehci_first_page(1) [OF assms(6) w5, of "unat len"] by (simp add: z_def)
  have "\<not> 0x5000 <s len" "\<not> len <s 0"
    using sless_of_nat [of "0x5000" "unat len"] sless_of_nat [of "unat len" 0] assms(8) by simp_all
  then have run: "bl_ehci_init_qtd ehci buf len toggle pid m = Some (q, m7)"
    using assms(5,7) i(3) unfolding bl_ehci_init_qtd_def i(4) q_def [symmetric] prod.case t_def [symmetric] Let_def run4 BL_EHCI_QTD_TOKEN_MAX_BUFFER_SIZE_def
    by (simp add: m5_def [symmetric] qtd_token_def qtd_pages first pages m7_def unat_gt_0)
  have e5: "ld32 m5 a = ld32 m4 a" if "a \<in> {q, q + 16, q + 20, q + 24, q + 52, q + 56}" for a
    unfolding m5_def mem_modify_def using that by (auto simp: ld32_store_other f u(1-9))
  have e7: "ld32 m7 a = ld32 m5 a" if "a \<in> {q, q + 12, q + 20, q + 24, q + 52, q + 56}" for a
    unfolding m7_def m6_def mem_modify_def using that by (auto simp: ld32_store_other f u(1-9))
  have t5: "ld32 m5 (q + 8) = t OR BL_EHCI_MAKE_QTD_BUFFER_SIZE len"
    by (simp add: m5_def mem_modify_def ld32_store_other f u(1-9) ld_st_same w4)
  have "ld32 m6 (q + 8) = ld32 m5 (q + 8)" by (simp add: m6_def ld32_store_other f u(1-9))
  then have t7: "ld32 m7 (q + 8) = ehci_token len toggle pid" by (simp add: m7_def mem_modify_def ld_st_same t5 ehci_token_def t_def)
  have w7: "ld32 m7 q = 1" "ld32 m7 (q + 56) = 1" "ld32 m7 (q + 52) = 1" "ld32 m7 (q + 12) = buf" "ld32 m7 (q + 20) = 0" "ld32 m7 (q + 24) = 0"
    using e7 e5 w4 w5 by (simp_all only: insert_iff simp_thms)
  have s7: "ld32 m7 (q + 16) = (if 0 < z then A else 0)"
    by (simp add: m7_def m6_def mem_modify_def ld32_store_other f u(1-9) ld_st_same e5 w4)
  have "of_nat (unat A) = A" by simp
  then have A: "A = of_nat (round_up (unat buf) 4096)" unfolding fp(2) by (rule sym)
  have fr: "m7 x = m x" if "off_range q 64 x" for x
  proof -
    have "off_range (q + 8) 4 x" "off_range (q + 12) 4 x" "off_range (q + 16) 4 x" using that unfolding off_range_def u(2-4) by linarith+
    then have "m7 x = m4 x" by (simp add: m7_def m6_def m5_def mem_modify_def st_frame f)
    then show ?thesis using w4(9) [OF that] by simp
  qed
  have "ehci_qtd_flag qtds m7 i = 1" by (simp add: ehci_qtd_flag_def qtd_used_def q_def [symmetric] w7)
  then show ?thesis using i(1,2) run fr t7 w7 s7 A z3
    by (intro exI [of _ i] conjI exI [of _ m7]) (simp_all add: q_def [symmetric] qtd_next_qtd_def qtd_original_next_qtd_def qtd_token_def qtd_pages)
qed

end
