(* ===== verification/Bl_OhciTransfers.thy ===== *)
theory Bl_OhciTransfers
  imports Bl_Ohci
begin

text \<open>
  What the OHCI driver hands to the controller: initialised transfer and endpoint descriptors, the list of a control transfer, and the transactions
  a controller finds in the queue between the head and the tail pointer of the endpoint.
\<close>

unbundle bit_operations_syntax

subsection \<open>Queues of an OHCI endpoint\<close>

interpretation ohci_td: descriptor_pool sizeof_ohci_general_td "gtd_used 0" BL_OHCI_NUM_GENERAL_TDS
  by unfold_locales (simp add: gtd_used_def sizeof_ohci_general_td_def)

definition ohci_td_at :: "addr \<Rightarrow> nat \<Rightarrow> addr" where "ohci_td_at tds i = desc_at tds sizeof_ohci_general_td i"
definition ohci_td_flag :: "addr \<Rightarrow> mem \<Rightarrow> nat \<Rightarrow> u32" where "ohci_td_flag tds m i = ld32 m (gtd_used (ohci_td_at tds i))"

text \<open>The transaction a descriptor asks for: the packet identifier and the toggle from the descriptor, the address, the endpoint and the speed from the endpoint descriptor.\<close>

definition ohci_td_token :: "usb_token \<Rightarrow> mem \<Rightarrow> addr \<Rightarrow> usb_token \<times> addr" where
  "ohci_td_token endpoint m td =
     (let t = ld32 m (gtd_flags td); p = ld32 m (gtd_current_buffer_pointer td)
      in (endpoint\<lparr>tok_pid := (if drop_bit 19 t AND 3 = 0 then 0x2d else if drop_bit 19 t AND 3 = 1 then 0xe1 else 0x69), tok_toggle := bit t 24,
           tok_length := (if p = 0 then 0 else unat (ld32 m (gtd_buffer_end td) - p) + 1)\<rparr>, p))"

lemma ohci_flags: "desc_flag sizeof_ohci_general_td (gtd_used 0) tds m i = ohci_td_flag tds m i"
  by (simp add: desc_flag_def ohci_td_flag_def gtd_used_def ohci_td_at_def add.commute)

lemma ohci_td_unat: "fits tds 16384 \<Longrightarrow> i < 512 \<Longrightarrow> unat (ohci_td_at tds i) = unat tds + 32 * i \<and> fits (ohci_td_at tds i) 32"
  using ohci_td.addr_unat [of tds i] by (simp add: ohci_td_at_def sizeof_ohci_general_td_def BL_OHCI_NUM_GENERAL_TDS_def fits_def)

lemma gtd_words:
  assumes "fits q 32"
  shows "unat (q + 4) = unat q + 4" "unat (q + 8) = unat q + 8" "unat (q + 12) = unat q + 12" "unat (q + 16) = unat q + 16" "unat (q + 20) = unat q + 20"
    "unat q + 32 \<le> 2 ^ 32" "fits q 4" "fits (q + 4) 4" "fits (q + 8) 4" "fits (q + 12) 4" "fits (q + 16) 4" "fits (q + 20) 4"
proof -
  note t = table_addr [OF assms]
  show u: "unat (q + 4) = unat q + 4" "unat (q + 8) = unat q + 8" "unat (q + 12) = unat q + 12" "unat (q + 16) = unat q + 16" "unat (q + 20) = unat q + 20"
    using t [of 4] t [of 8] t [of 12] t [of 16] t [of 20] by simp_all
  show "unat q + 32 \<le> 2 ^ 32" using assms by (simp add: fits_def)
  then show "fits q 4" "fits (q + 4) 4" "fits (q + 8) 4" "fits (q + 12) 4" "fits (q + 16) 4" "fits (q + 20) 4"
    unfolding fits_def u by simp_all
qed

lemmas gtd_fields = gtd_flags_def gtd_current_buffer_pointer_def gtd_next_td_def gtd_buffer_end_def gtd_used_def gtd_original_next_td_def

definition ohci_pid_byte :: "u32 \<Rightarrow> u8" where
  "ohci_pid_byte pid = (if pid = BL_USB_PID_TOKEN_SETUP then 0x2d else if pid = BL_USB_PID_TOKEN_OUT then 0xe1 else 0x69)"

lemma ohci_flag_fields:
  assumes "pid \<in> {BL_USB_PID_TOKEN_SETUP, BL_USB_PID_TOKEN_OUT, BL_USB_PID_TOKEN_IN}" "toggle = (if b then 1 else 0)"
  shows "(if drop_bit 19 (ohci_td_flags toggle pid) AND 3 = 0 then 0x2d else if drop_bit 19 (ohci_td_flags toggle pid) AND 3 = 1 then 0xe1 else 0x69) = ohci_pid_byte pid"
    "bit (ohci_td_flags toggle pid) 24 = b"
  using assms
  by (auto simp: ohci_pid_byte_def ohci_td_flags_def BL_USB_PID_TOKEN_SETUP_def BL_USB_PID_TOKEN_OUT_def BL_USB_PID_TOKEN_IN_def BL_OHCI_TD_FLAGS_DP_SETUP_def
      BL_OHCI_TD_FLAGS_DP_OUT_def BL_OHCI_TD_FLAGS_DP_IN_def BL_OHCI_TD_FLAGS_CC_def BL_OHCI_TD_FLAGS_T_def BL_OHCI_TD_FLAGS_EC_def BL_OHCI_CC_NOT_ACCESSED_def
      drop_bit_eq_div bit_iff_odd)

lemma ohci_init_ok:
  assumes "fits tds 16384" "tds \<noteq> 0" "oh_tds m ohci = tds" "\<exists>i<512. ohci_td_flag tds m i = 0"
    "pid \<in> {BL_USB_PID_TOKEN_SETUP, BL_USB_PID_TOKEN_OUT, BL_USB_PID_TOKEN_IN}" "toggle = (if b then 1 else 0)"
    "buf = 0 \<and> n = 0 \<or> buf \<noteq> 0 \<and> 0 < n" "n < 2 ^ 31" "len = of_nat n"
  shows "\<exists>i<512. \<exists>m'. bl_ohci_init_general_td ohci buf len toggle pid m = (ohci_td_at tds i, m') \<and> ohci_td_flag tds m i = 0 \<and> ohci_td_at tds i \<noteq> 0 \<and>
    (\<forall>x. off_range (ohci_td_at tds i) 24 x \<longrightarrow> m' x = m x) \<and> ohci_td_flag tds m' i = 1 \<and> ld32 m' (gtd_next_td (ohci_td_at tds i)) = 0 \<and>
    (\<forall>e. ohci_td_token e m' (ohci_td_at tds i) = (e\<lparr>tok_pid := ohci_pid_byte pid, tok_toggle := b, tok_length := n\<rparr>, buf))"
proof -
  obtain i where i: "i < 512" "ohci_td_flag tds m i = 0" "ohci_td_at tds i \<noteq> 0"
      "bl_ohci_alloc_general_td ohci m = (ohci_td_at tds i, st32 m (gtd_used (ohci_td_at tds i)) 1)"
    using ohci_td.alloc_takes [of tds m] assms(1-4) unfolding ohci_flags bl_ohci_alloc_general_td_def
    by (auto simp: sizeof_ohci_general_td_def BL_OHCI_NUM_GENERAL_TDS_def ohci_td_at_def gtd_used_def add.commute)
  define q where "q = ohci_td_at tds i"
  define e where "e = (if n = 0 then 0 else buf + (len - 1))"
  have "fits q 32" using ohci_td_unat [OF assms(1) i(1)] by (simp add: q_def)
  note u = gtd_words [OF this]
  define m2 where "m2 = st32 (st32 m (q + 16) 1) q (ohci_td_flags toggle pid)"
  define m3 where "m3 = (if n = 0 then st32 (st32 m2 (q + 12) 0) (q + 4) 0 else st32 (st32 m2 (q + 4) buf) (q + 12) e)"
  define m' where "m' = st32 m3 (q + 8) 0"
  have "(buf \<noteq> 0 \<and> 0 <s len) = (n \<noteq> 0)" using assms(7-9) sless_of_nat [of 0 n] by auto
  then have run: "bl_ohci_init_general_td ohci buf len toggle pid m = (q, m')"
    unfolding bl_ohci_init_general_td_def i(4) q_def [symmetric] prod.case using i(3)
    by (simp add: q_def [symmetric] gtd_fields m2_def [symmetric] m3_def m'_def e_def)
  have w: "ld32 m' q = ohci_td_flags toggle pid" "ld32 m' (q + 4) = buf" "ld32 m' (q + 12) = e" "ld32 m' (q + 8) = 0" "ld32 m' (q + 16) = 1"
    using assms(7) by (auto simp: m'_def m3_def m2_def e_def ld_st_same ld32_store_other u)
  have "e - buf = len - 1" if "n \<noteq> 0" using that by (simp add: e_def)
  moreover have "unat (len - 1) + 1 = n" if "n \<noteq> 0"
  proof -
    have "len - 1 = of_nat (n - 1)" using that assms(9) by (simp add: of_nat_diff)
    moreover have "unat (of_nat (n - 1) :: u32) = n - 1" using assms(8) by (intro unat_of_nat_eq) simp
    ultimately show ?thesis using that by simp
  qed
  ultimately have tk: "ohci_td_token e' m' q = (e'\<lparr>tok_pid := ohci_pid_byte pid, tok_toggle := b, tok_length := n\<rparr>, buf)" for e'
    using assms(7) ohci_flag_fields [OF assms(5,6)] by (auto simp: ohci_td_token_def Let_def gtd_fields w)
  have fr: "m' x = m x" if "off_range q 24 x" for x
  proof -
    have "off_range q 4 x" "off_range (q + 4) 4 x" "off_range (q + 8) 4 x" "off_range (q + 12) 4 x" "off_range (q + 16) 4 x"
      using that unfolding off_range_def u(1-5) by linarith+
    then show ?thesis by (simp add: m'_def m3_def m2_def st_frame u)
  qed
  have "ohci_td_flag tds m' i = 1" "ld32 m' (gtd_next_td q) = 0" by (simp_all add: ohci_td_flag_def gtd_fields q_def [symmetric] w)
  then show ?thesis using i(1-3) run fr tk unfolding q_def by blast
qed

lemma ohci_same:
  assumes "fits tds 16384" "i < 512" "\<forall>x. \<not> off_range (ohci_td_at tds i) 20 x \<longrightarrow> m' x = m x"
  shows "ohci_td_flag tds m' i = ohci_td_flag tds m i" "ld32 m' (gtd_next_td (ohci_td_at tds i)) = ld32 m (gtd_next_td (ohci_td_at tds i))"
    "ohci_td_token e m' (ohci_td_at tds i) = ohci_td_token e m (ohci_td_at tds i)"
proof -
  define q where "q = ohci_td_at tds i"
  have "fits q 32" using ohci_td_unat [OF assms(1,2)] by (simp add: q_def)
  note u = gtd_words [OF this]
  have w: "ld32 m' a = ld32 m a" if "fits a 4" "unat q \<le> unat a" "unat a + 4 \<le> unat q + 20" for a
  proof (rule ld_same(2) [OF that(1)], intro allI impI)
    fix x assume "\<not> off_range a 4 x"
    then have "\<not> off_range q 20 x" using that(2,3) unfolding off_range_def by linarith
    then show "m' x = m x" using assms(3) by (simp add: q_def)
  qed
  have "ld32 m' q = ld32 m q" "ld32 m' (q + 4) = ld32 m (q + 4)" "ld32 m' (q + 8) = ld32 m (q + 8)" "ld32 m' (q + 12) = ld32 m (q + 12)"
      "ld32 m' (q + 16) = ld32 m (q + 16)"
    by (rule w; simp add: u)+
  then show "ohci_td_flag tds m' i = ohci_td_flag tds m i" "ld32 m' (gtd_next_td (ohci_td_at tds i)) = ld32 m (gtd_next_td (ohci_td_at tds i))"
      "ohci_td_token e m' (ohci_td_at tds i) = ohci_td_token e m (ohci_td_at tds i)"
    by (simp_all add: ohci_td_flag_def ohci_td_token_def Let_def gtd_fields q_def)
qed

lemma ohci_link_ok:
  fixes m :: mem and c d :: u32
  assumes "fits tds 16384" "l < 512"
  defines "m' \<equiv> st32 (st32 m (gtd_next_td (ohci_td_at tds l)) c) (gtd_original_next_td (ohci_td_at tds l)) d"
  shows "off_range (ohci_td_at tds l) 24 x \<Longrightarrow> m' x = m x" "ld32 m' (gtd_next_td (ohci_td_at tds l)) = c" "ohci_td_flag tds m' l = ohci_td_flag tds m l"
    "ohci_td_token e m' (ohci_td_at tds l) = ohci_td_token e m (ohci_td_at tds l)"
proof -
  define q where "q = ohci_td_at tds l"
  have "fits q 32" using ohci_td_unat [OF assms(1,2)] by (simp add: q_def)
  note u = gtd_words [OF this]
  have e: "m' = st32 (st32 m (q + 8) c) (q + 20) d" by (simp add: m'_def q_def gtd_fields)
  show "m' x = m x" if "off_range (ohci_td_at tds l) 24 x"
  proof -
    have "off_range (q + 8) 4 x" "off_range (q + 20) 4 x" using that unfolding q_def [symmetric] off_range_def u(2,5) by linarith+
    then show ?thesis unfolding e by (simp add: st_frame u)
  qed
  have w: "ld32 m' q = ld32 m q" "ld32 m' (q + 4) = ld32 m (q + 4)" "ld32 m' (q + 12) = ld32 m (q + 12)" "ld32 m' (q + 16) = ld32 m (q + 16)" "ld32 m' (q + 8) = c"
    unfolding e by (simp_all add: ld32_store_other u ld_st_same)
  then show "ld32 m' (gtd_next_td (ohci_td_at tds l)) = c" "ohci_td_flag tds m' l = ohci_td_flag tds m l"
      "ohci_td_token e m' (ohci_td_at tds l) = ohci_td_token e m (ohci_td_at tds l)"
    by (simp_all add: q_def ohci_td_flag_def ohci_td_token_def Let_def gtd_fields)
qed

lemma ohci_off_other:
  assumes "fits tds 16384" "i < 512" "j < 512" "i \<noteq> j" "\<not> off_range (ohci_td_at tds i) 24 x"
  shows "off_range (ohci_td_at tds j) 24 x"
  using assms(4,5) ohci_td_unat [OF assms(1,2)] ohci_td_unat [OF assms(1,3)] mult_step_cases [OF assms(4), of 32]
  by (auto simp: off_range_def)

lemma ohci_inside: "fits tds 16384 \<Longrightarrow> i < 512 \<Longrightarrow> off_range tds 16384 x \<Longrightarrow> off_range (ohci_td_at tds i) 24 x"
  using ohci_td_unat [of tds i] by (auto simp: off_range_def)

lemma ohci_same_other:
  assumes "fits tds 16384" "i < 512" "j < 512" "i \<noteq> j" "\<forall>x. off_range (ohci_td_at tds j) 24 x \<longrightarrow> m' x = m x"
  shows "ohci_td_flag tds m' i = ohci_td_flag tds m i" "ld32 m' (gtd_next_td (ohci_td_at tds i)) = ld32 m (gtd_next_td (ohci_td_at tds i))"
    "ohci_td_token e m' (ohci_td_at tds i) = ohci_td_token e m (ohci_td_at tds i)"
proof -
  have "\<forall>x. \<not> off_range (ohci_td_at tds i) 20 x \<longrightarrow> m' x = m x"
  proof (intro allI impI)
    fix x assume "\<not> off_range (ohci_td_at tds i) 20 x"
    then have "\<not> off_range (ohci_td_at tds i) 24 x" by (auto simp: off_range_def)
    then show "m' x = m x" using ohci_off_other [OF assms(1-4)] assms(5) by blast
  qed
  from ohci_same [OF assms(1,2) this] show "ohci_td_flag tds m' i = ohci_td_flag tds m i"
      "ld32 m' (gtd_next_td (ohci_td_at tds i)) = ld32 m (gtd_next_td (ohci_td_at tds i))"
      "ohci_td_token e m' (ohci_td_at tds i) = ohci_td_token e m (ohci_td_at tds i)" by simp_all
qed

text \<open>The descriptors \<open>is\<close> taken and linked, asking for the transactions \<open>ps\<close>.\<close>

definition ohci_built :: "addr \<Rightarrow> usb_token \<Rightarrow> mem \<Rightarrow> mem \<Rightarrow> nat list \<Rightarrow> (usb_token \<times> addr) list \<Rightarrow> bool" where
  "ohci_built tds e m0 m is ps \<longleftrightarrow> is \<noteq> [] \<and> distinct is \<and> (\<forall>i\<in>set is. i < 512 \<and> ohci_td_flag tds m0 i = 0) \<and>
     (\<forall>x. off_range tds 16384 x \<longrightarrow> m x = m0 x) \<and> (\<forall>i<512. ohci_td_flag tds m i = (if i \<in> set is then 1 else ohci_td_flag tds m0 i)) \<and>
     (\<forall>k. Suc k < length is \<longrightarrow> ld32 m (gtd_next_td (ohci_td_at tds (is ! k))) = ohci_td_at tds (is ! Suc k)) \<and>
     map (\<lambda>i. ohci_td_token e m (ohci_td_at tds i)) is = ps"

lemma ohci_built_first:
  assumes "fits tds 16384" "i < 512" "ohci_td_flag tds m i = 0" "\<forall>x. off_range (ohci_td_at tds i) 24 x \<longrightarrow> m' x = m x"
    "ohci_td_flag tds m' i = 1" "ohci_td_token e m' (ohci_td_at tds i) = p"
  shows "ohci_built tds e m m' [i] [p]"
  using assms ohci_same_other(1) [OF assms(1) _ assms(2) _ assms(4)] ohci_inside [OF assms(1,2)] by (auto simp: ohci_built_def)

lemma ohci_built_append:
  assumes fit: "fits tds 16384" and b: "ohci_built tds e m0 m is ps" and j: "j < 512" "ohci_td_flag tds m j = 0"
    "\<forall>x. off_range (ohci_td_at tds j) 24 x \<longrightarrow> m1 x = m x" "ohci_td_flag tds m1 j = 1" "ohci_td_token e m1 (ohci_td_at tds j) = p"
  shows "ohci_built tds e m0 (ohci_link (ohci_td_at tds (last is)) (ohci_td_at tds j) m1) (is @ [j]) (ps @ [p])"
proof -
  note d = b [unfolded ohci_built_def]
  define l where "l = last is"
  define m2 where "m2 = ohci_link (ohci_td_at tds l) (ohci_td_at tds j) m1"
  have l: "l \<in> set is" "l < 512" using d by (auto simp: l_def)
  have jn: "j \<notin> set is" using j(1,2) d by auto
  then have jl: "j \<noteq> l" using l(1) by auto
  have fr: "\<forall>x. off_range (ohci_td_at tds l) 24 x \<longrightarrow> m2 x = m1 x" using ohci_link_ok(1) [OF fit l(2)] by (simp add: m2_def ohci_link_def)
  have keep: "ohci_td_flag tds m2 i = ohci_td_flag tds m1 i \<and> ohci_td_token e m2 (ohci_td_at tds i) = ohci_td_token e m1 (ohci_td_at tds i)" if "i < 512" for i
    using ohci_link_ok(3,4) [OF fit l(2)] ohci_same_other(1,3) [OF fit that l(2) _ fr] by (cases "i = l") (simp_all add: m2_def ohci_link_def)
  have old: "ohci_td_flag tds m2 i = ohci_td_flag tds m i \<and> ohci_td_token e m2 (ohci_td_at tds i) = ohci_td_token e m (ohci_td_at tds i)" if "i < 512" "i \<noteq> j" for i
    using keep [OF that(1)] ohci_same_other(1,3) [OF fit that(1) j(1) that(2) j(3)] by simp
  have nx: "ld32 m2 (gtd_next_td (ohci_td_at tds ((is @ [j]) ! k))) = ohci_td_at tds ((is @ [j]) ! Suc k)" if "Suc k < length (is @ [j])" for k
  proof (cases "Suc k = length is")
    case True
    then have "is ! k = l" using d by (simp add: l_def last_conv_nth True [symmetric])
    then show ?thesis using True ohci_link_ok(2) [OF fit l(2)] by (simp add: nth_append m2_def ohci_link_def)
  next
    case False
    then have k: "Suc k < length is" using that by simp
    then have i: "is ! k < 512" "is ! k \<noteq> l" "is ! k \<noteq> j" using d jn nth_mem [of k "is"] by (auto simp: l_def last_conv_nth nth_eq_iff_index_eq)
    have "ld32 m2 (gtd_next_td (ohci_td_at tds (is ! k))) = ld32 m (gtd_next_td (ohci_td_at tds (is ! k)))"
      using ohci_same_other(2) [OF fit i(1) l(2) i(2) fr] ohci_same_other(2) [OF fit i(1) j(1) i(3) j(3)] by simp
    then show ?thesis using d k by (simp add: nth_append)
  qed
  have out: "m2 x = m0 x" if "off_range tds 16384 x" for x
    using fr j(3) ohci_inside [OF fit l(2) that] ohci_inside [OF fit j(1) that] d that by auto
  have fg: "ohci_td_flag tds m2 i = (if i \<in> set (is @ [j]) then 1 else ohci_td_flag tds m0 i)" if "i < 512" for i
    using old [OF that] keep [OF j(1)] j(4) d that jn by (cases "i = j") auto
  have j0: "ohci_td_flag tds m0 j = 0" using j(1,2) d jn by auto
  have "map (\<lambda>i. ohci_td_token e m2 (ohci_td_at tds i)) is = map (\<lambda>i. ohci_td_token e m (ohci_td_at tds i)) is"
    using old d jn by (intro map_cong) auto
  also have "\<dots> = ps" using d by blast
  finally have "map (\<lambda>i. ohci_td_token e m2 (ohci_td_at tds i)) (is @ [j]) = ps @ [p]" using keep [OF j(1)] j(5) by simp
  then show ?thesis unfolding l_def [symmetric] m2_def [symmetric] unfolding ohci_built_def using nx out fg d jn j(1) j0 by auto
qed

lemma ohci_built_end:
  fixes m :: mem and c d :: u32
  assumes fit: "fits tds 16384" and b: "ohci_built tds e m0 m is ps"
  defines "m' \<equiv> st32 (st32 m (gtd_next_td (ohci_td_at tds (last is))) c) (gtd_original_next_td (ohci_td_at tds (last is))) d"
  shows "ohci_built tds e m0 m' is ps" "ld32 m' (gtd_next_td (ohci_td_at tds (last is))) = c"
proof -
  note d = b [unfolded ohci_built_def]
  define l where "l = last is"
  have l: "l \<in> set is" "l < 512" using d by (auto simp: l_def)
  note k = ohci_link_ok [OF fit l(2), where m = m and c = c and d = d, unfolded l_def, folded m'_def]
  have fr: "\<forall>x. off_range (ohci_td_at tds l) 24 x \<longrightarrow> m' x = m x" using k(1) by (simp add: l_def)
  have keep: "ohci_td_flag tds m' i = ohci_td_flag tds m i \<and> ohci_td_token e m' (ohci_td_at tds i) = ohci_td_token e m (ohci_td_at tds i)" if "i < 512" for i
    using k(3,4) ohci_same_other(1,3) [OF fit that l(2) _ fr] by (cases "i = l") (simp_all add: l_def)
  have nx: "ld32 m' (gtd_next_td (ohci_td_at tds (is ! i))) = ohci_td_at tds (is ! Suc i)" if "Suc i < length is" for i
  proof -
    have "is ! i < 512" "is ! i \<noteq> l" using d that nth_mem [of i "is"] by (auto simp: l_def last_conv_nth nth_eq_iff_index_eq)
    then show ?thesis using ohci_same_other(2) [OF fit _ l(2) _ fr] d that by simp
  qed
  have "map (\<lambda>i. ohci_td_token e m' (ohci_td_at tds i)) is = map (\<lambda>i. ohci_td_token e m (ohci_td_at tds i)) is"
    using keep d by (intro map_cong) auto
  then show "ohci_built tds e m0 m' is ps" unfolding ohci_built_def using d nx keep fr ohci_inside [OF fit l(2)] by auto
  show "ld32 m' (gtd_next_td (ohci_td_at tds (last is))) = c" using k(2) .
qed

definition ohci_free :: "addr \<Rightarrow> mem \<Rightarrow> nat set" where "ohci_free tds m = {i. i < 512 \<and> ohci_td_flag tds m i = 0}"

lemma ohci_built_free:
  assumes "ohci_built tds e m0 m is ps" "length is < card (ohci_free tds m0)"
  shows "\<exists>i<512. ohci_td_flag tds m i = 0"
proof -
  note d = assms(1) [unfolded ohci_built_def]
  have "card (set is) < card (ohci_free tds m0)" using assms(2) d by (simp add: distinct_card)
  then have "\<not> ohci_free tds m0 \<subseteq> set is" by (meson List.finite_set card_mono linorder_not_less)
  then show ?thesis using d by (auto simp: ohci_free_def)
qed

lemma ohci_append:
  assumes "fits tds 16384" "tds \<noteq> 0" "fits ohci 24" "apart ohci 24 tds 16384" "oh_tds m0 ohci = tds" "ohci_built tds e m0 m is ps"
    "length is < card (ohci_free tds m0)" "pid \<in> {BL_USB_PID_TOKEN_SETUP, BL_USB_PID_TOKEN_OUT, BL_USB_PID_TOKEN_IN}" "toggle = (if b then 1 else 0)"
    "buf = 0 \<and> n = 0 \<or> buf \<noteq> 0 \<and> 0 < n" "n < 2 ^ 31" "len = of_nat n"
  shows "\<exists>j<512. \<exists>m1. bl_ohci_init_general_td ohci buf len toggle pid m = (ohci_td_at tds j, m1) \<and> ohci_td_at tds j \<noteq> 0 \<and>
    ohci_built tds e m0 (ohci_link (ohci_td_at tds (last is)) (ohci_td_at tds j) m1) (is @ [j])
      (ps @ [(e\<lparr>tok_pid := ohci_pid_byte pid, tok_toggle := b, tok_length := n\<rparr>, buf)])"
proof -
  have u: "unat (ohci + 16) = unat ohci + 16" using unat_add_lt [of ohci 16] assms(3) by (simp add: fits_def)
  have "\<forall>x. off_range tds 16384 x \<longrightarrow> m x = m0 x" using assms(6) by (simp add: ohci_built_def)
  then have "ld32 m (ohci + 16) = ld32 m0 (ohci + 16)" using assms(3,4) u by (intro ld_same(2)) (auto simp: fits_def apart_def off_range_def)
  then have "oh_tds m ohci = tds" using assms(5) by (simp add: oh_tds_def)
  from ohci_init_ok [OF assms(1,2) this ohci_built_free [OF assms(6,7)] assms(8-12)] ohci_built_append [OF assms(1,6)]
  show ?thesis by metis
qed

lemma ohci_data_loop_ok:
  assumes geo: "fits tds 16384" "tds \<noteq> 0" "fits ohci 24" "apart ohci 24 tds 16384" "oh_tds m0 ohci = tds"
    and e: "e = usb_tok 0 address False 0 low" and pid: "pid \<in> {BL_USB_PID_TOKEN_OUT, BL_USB_PID_TOKEN_IN}"
    and p: "0 < packet" "n + packet < 2 ^ 31" and data: "data \<noteq> 0" "fits data n"
  shows "ohci_built tds e m0 m is ps \<Longrightarrow> k \<le> packet_count packet n \<Longrightarrow> length is + (packet_count packet n - k) \<le> card (ohci_free tds m0) \<Longrightarrow>
    ohci_td_at tds (last is) \<noteq> 0 \<Longrightarrow>
    \<exists>is' m'. ohci_data_loop ohci pid (of_nat packet) data (ohci_td_at tds (last is)) (if odd k then 1 else 0)
      (of_nat n - of_nat (packet * k)) (of_nat (packet * k)) m = Some (ohci_td_at tds (last is'), m') \<and> hd is' = hd is \<and>
      length is' = length is + (packet_count packet n - k) \<and> ohci_td_at tds (last is') \<noteq> 0 \<and>
      ohci_built tds e m0 m' is' (ps @ map (data_packet (ohci_pid_byte pid) address low packet data n) [k..<packet_count packet n])"
proof (induction "packet_count packet n - k" arbitrary: k m "is" ps)
  case 0
  have k: "k = packet_count packet n" using 0(1,3) by simp
  have "n \<le> packet * k" using packet_count_less [OF p(1), of k n] k by simp
  moreover have "packet * k < n + packet"
  proof (cases k)
    case (Suc j)
    then have "packet * j < n" using packet_count_less [OF p(1), of j n] k by simp
    then show ?thesis using Suc by simp
  qed (use p(1) in simp)
  ultimately have "\<not> 0 <s (of_nat n - of_nat (packet * k) :: u32)" using p(2) by (intro not_positive) simp_all
  then show ?case using 0(2,5) k by (subst ohci_data_loop.simps) auto
next
  case (Suc d)
  let ?K = "packet_count packet n"
  have k: "k < ?K" using Suc(2) by simp
  then have n: "packet * k < n" using packet_count_less [OF p(1)] by simp
  have len: "(of_nat n - of_nat (packet * k) :: u32) = of_nat (n - packet * k)" using n by (simp only: of_nat_diff less_imp_le)
  have pos: "0 <s (of_nat (n - packet * k) :: u32)" using sless_of_nat [of 0 "n - packet * k"] n p(2) by simp
  have mn: "int_min (of_nat (n - packet * k)) (of_nat packet) = of_nat (min packet (n - packet * k))"
    using sless_of_nat [of "n - packet * k" packet] p by (simp add: int_min_def min_def)
  have "unat (data + of_nat (packet * k)) = unat data + packet * k" using n data(2) by (intro unat_add_lt) (simp add: fits_def)
  then have ne: "data + of_nat (packet * k) \<noteq> 0" using data(1) by (metis add_is_0 unat_0 unat_eq_0)
  have tg: "int_not (if odd k then 1 else 0) = (if even k then 1 else 0)" by (simp add: int_not_def)
  have room: "length is < card (ohci_free tds m0)" using Suc(5) k by simp
  have sz: "data + of_nat (packet * k) = 0 \<and> min packet (n - packet * k) = 0 \<or> data + of_nat (packet * k) \<noteq> 0 \<and> 0 < min packet (n - packet * k)"
      "min packet (n - packet * k) < 2 ^ 31" using ne n p by auto
  have pids: "pid \<in> {BL_USB_PID_TOKEN_SETUP, BL_USB_PID_TOKEN_OUT, BL_USB_PID_TOKEN_IN}" using pid by blast
  obtain j m1 where j: "bl_ohci_init_general_td ohci (data + of_nat (packet * k)) (of_nat (min packet (n - packet * k))) (if even k then 1 else 0) pid m = (ohci_td_at tds j, m1)"
      "ohci_td_at tds j \<noteq> 0" "ohci_built tds e m0 (ohci_link (ohci_td_at tds (last is)) (ohci_td_at tds j) m1) (is @ [j])
        (ps @ [data_packet (ohci_pid_byte pid) address low packet data n k])"
    using ohci_append [OF geo Suc(3) room pids refl sz refl, of "even k"] by (auto simp: data_packet_def e usb_tok_def)
  let ?m2 = "ohci_link (ohci_td_at tds (last is)) (ohci_td_at tds j) m1"
  have l1: "(of_nat (n - packet * k) - of_nat packet :: u32) = of_nat n - of_nat (packet * Suc k)" unfolding len [symmetric] by simp
  have o1: "(of_nat (packet * k) + of_nat packet :: u32) = of_nat (packet * Suc k)" by simp
  have run: "ohci_data_loop ohci pid (of_nat packet) data (ohci_td_at tds (last is)) (if odd k then 1 else 0)
      (of_nat n - of_nat (packet * k)) (of_nat (packet * k)) m =
    ohci_data_loop ohci pid (of_nat packet) data (ohci_td_at tds j) (if odd (Suc k) then 1 else 0)
      (of_nat n - of_nat (packet * Suc k)) (of_nat (packet * Suc k)) ?m2"
    unfolding len by (subst ohci_data_loop.simps) (use pos j(1,2) in \<open>simp only: mn tg l1 o1 prod.case if_False if_True not_True_eq_False\<close>, simp)
  have sp: "[k..<?K] = k # [Suc k..<?K]" using k by (simp add: upt_conv_Cons)
  have a: "d = ?K - Suc k" "Suc k \<le> ?K" "length (is @ [j]) + (?K - Suc k) \<le> card (ohci_free tds m0)"
      "length (is @ [j]) + (?K - Suc k) = length is + (?K - k)"
    using Suc(2,5) k by auto
  have hd: "hd (is @ [j]) = hd is" using Suc(3) by (auto simp: ohci_built_def)
  have nz: "ohci_td_at tds (last (is @ [j])) \<noteq> 0" using j(2) by simp
  from Suc(1) [OF a(1) j(3) a(2,3) nz] show ?case unfolding run sp using a(4) by (simp only: last_snoc hd list.map append_assoc append.simps)
qed

text \<open>The transactions of the queue: with data the status stage is its end, without data it is there twice.\<close>

definition ohci_stages :: "bool \<Rightarrow> nat \<Rightarrow> bool \<Rightarrow> nat \<Rightarrow> addr \<Rightarrow> addr \<Rightarrow> nat \<Rightarrow> (usb_token \<times> addr) list" where
  "ohci_stages is_in address low packet setup data n =
     control_packets is_in address low packet setup data n @ (if n = 0 then [last (control_packets is_in address low packet setup data n)] else [])"

lemma ohci_control_tds_ok:
  assumes geo: "fits tds 16384" "tds \<noteq> 0" "fits ohci 24" "apart ohci 24 tds 16384" "oh_tds m0 ohci = tds"
    and e: "e = usb_tok 0 address False 0 low" and p: "0 < packet" "n + packet < 2 ^ 31" and su: "setup \<noteq> 0" and data: "n \<noteq> 0 \<longrightarrow> data \<noteq> 0 \<and> fits data n"
    and room: "packet_count packet n + 3 \<le> card (ohci_free tds m0)"
  shows "\<exists>is m'. ohci_control_tds ohci (of_nat packet) setup data (of_nat n) m0 = Some (Some (ohci_td_at tds (hd is), ohci_td_at tds (last is)), m') \<and>
    ohci_built tds e m0 m' is (ohci_stages (bit (m0 setup) 7) address low packet setup data n) \<and> ld32 m' (gtd_next_td (ohci_td_at tds (last is))) = 0"
proof -
  have pid_differ: "BL_USB_PID_TOKEN_IN \<noteq> BL_USB_PID_TOKEN_OUT" "BL_USB_PID_TOKEN_SETUP \<noteq> BL_USB_PID_TOKEN_OUT" "BL_USB_PID_TOKEN_SETUP \<noteq> BL_USB_PID_TOKEN_IN"
    by (simp_all add: BL_USB_PID_TOKEN_IN_def BL_USB_PID_TOKEN_OUT_def BL_USB_PID_TOKEN_SETUP_def)
  let ?inp = "bit (m0 setup) 7"
  have "card (ohci_free tds m0) \<noteq> 0" using room by simp
  then have ex: "\<exists>i<512. ohci_td_flag tds m0 i = 0" by (metis (mono_tags, lifting) card_eq_0_iff ex_in_conv mem_Collect_eq ohci_free_def)
  have b8: "setup = 0 \<and> (8 :: nat) = 0 \<or> setup \<noteq> 0 \<and> 0 < (8 :: nat)" using su by simp
  obtain i m1 where i: "i < 512" "bl_ohci_init_general_td ohci setup 8 0 BL_USB_PID_TOKEN_SETUP m0 = (ohci_td_at tds i, m1)" "ohci_td_at tds i \<noteq> 0"
      "ohci_built tds e m0 m1 [i] [(usb_tok 0x2d address False 8 low, setup)]"
    using ohci_init_ok [OF geo(1,2,5) ex, of BL_USB_PID_TOKEN_SETUP 0 False "setup" 8 8] b8 ohci_built_first [OF geo(1)]
    by (auto simp: e usb_tok_def ohci_pid_byte_def)
  have "(ucast (m0 setup) AND push_bit 7 1 \<noteq> (0 :: u32)) = ?inp"
    using and_exp_eq_0_iff_not_bit [of "ucast (m0 setup) :: u32" 7] by (simp add: bit_ucast_iff)
  then have pid: "bl_usb_direction_pid m0 setup = (if ?inp then BL_USB_PID_TOKEN_IN else BL_USB_PID_TOKEN_OUT)"
    by (simp add: bl_usb_direction_pid_def BL_USB_SETUP_REQUEST_TYPE_DEVICE_TO_HOST_def)
  define dp where "dp = (if ?inp then BL_USB_PID_TOKEN_IN else BL_USB_PID_TOKEN_OUT)"
  define sp where "sp = bl_usb_status_pid dp"
  have dpb: "ohci_pid_byte dp = (if ?inp then 0x69 else 0xe1)" "dp \<in> {BL_USB_PID_TOKEN_OUT, BL_USB_PID_TOKEN_IN}"
    using pid_differ by (auto simp: dp_def ohci_pid_byte_def)
  have spb: "ohci_pid_byte sp = (if ?inp then 0xe1 else 0x69)" "sp \<in> {BL_USB_PID_TOKEN_SETUP, BL_USB_PID_TOKEN_OUT, BL_USB_PID_TOKEN_IN}"
    using pid_differ by (auto simp: sp_def dp_def bl_usb_status_pid_def ohci_pid_byte_def)
  let ?status = "(usb_tok (if ?inp then 0xe1 else 0x69) address True 0 low, 0 :: addr)"
  note status = ohci_append [OF geo _ _ spb(2), of e _ _ _ 1 True 0 0 0]
  have st: "\<exists>j<512. \<exists>m'. bl_ohci_init_general_td ohci 0 0 1 sp m = (ohci_td_at tds j, m') \<and> ohci_td_at tds j \<noteq> 0 \<and>
      ohci_built tds e m0 (ohci_link (ohci_td_at tds (last is)) (ohci_td_at tds j) m') (is @ [j]) (ps @ [?status])"
    if "ohci_built tds e m0 m is ps" "length is < card (ohci_free tds m0)" for m "is" ps
    using status [OF that] spb(1) by (auto simp: e usb_tok_def)
  define stages where "stages = (usb_tok 0x2d address False 8 low, setup) #
      (if n = 0 then [?status] else map (data_packet (if ?inp then 0x69 else 0xe1) address low packet data n) [0..<packet_count packet n])"
  obtain is' m2 where l: "(if of_nat n = (0 :: u32) then case bl_ohci_init_general_td ohci 0 0 1 sp m1 of
        (td, m1') \<Rightarrow> Some (if td = 0 then (0, m1') else (td, ohci_link (ohci_td_at tds i) td m1'))
      else ohci_data_loop ohci dp (of_nat packet) data (ohci_td_at tds i) 0 (of_nat n) 0 m1) = Some (ohci_td_at tds (last is'), m2)"
      "hd is' = i" "is' \<noteq> []" "length is' < card (ohci_free tds m0)" "ohci_td_at tds (last is') \<noteq> 0" "ohci_built tds e m0 m2 is' stages"
  proof (cases "n = 0")
    case True
    obtain j m' where j: "bl_ohci_init_general_td ohci 0 0 1 sp m1 = (ohci_td_at tds j, m')" "ohci_td_at tds j \<noteq> 0"
        "ohci_built tds e m0 (ohci_link (ohci_td_at tds i) (ohci_td_at tds j) m') [i, j] stages"
      using st [OF i(4)] room True by (auto simp: stages_def)
    show thesis by (rule that [of "[i, j]"]) (use True j room in auto)
  next
    case False
    have "unat (of_nat n :: u32) = n" using p(2) by (intro unat_of_nat_eq) simp
    then have n0: "of_nat n \<noteq> (0 :: u32)" using False by auto
    have "data \<noteq> 0" "fits data n" using data False by auto
    from ohci_data_loop_ok [OF geo e dpb(2) p this i(4), of 0] room i(3)
    obtain is' m' where "ohci_data_loop ohci dp (of_nat packet) data (ohci_td_at tds i) 0 (of_nat n) 0 m1 = Some (ohci_td_at tds (last is'), m')" "hd is' = i"
        "length is' = 1 + packet_count packet n" "ohci_td_at tds (last is') \<noteq> 0" "ohci_built tds e m0 m' is' stages"
      using False dpb(1) by (auto simp: stages_def)
    then show thesis using n0 room by (intro that [of is' m']) auto
  qed
  obtain j m3 where j: "j < 512" "bl_ohci_init_general_td ohci 0 0 1 sp m2 = (ohci_td_at tds j, m3)" "ohci_td_at tds j \<noteq> 0"
      "ohci_built tds e m0 (ohci_link (ohci_td_at tds (last is')) (ohci_td_at tds j) m3) (is' @ [j]) (stages @ [?status])"
    using st [OF l(6,4)] by blast
  define m4 where "m4 = ohci_link (ohci_td_at tds (last is')) (ohci_td_at tds j) m3"
  define m5 where "m5 = st32 (st32 m4 (gtd_next_td (ohci_td_at tds j)) 0) (gtd_original_next_td (ohci_td_at tds j)) (ohci_td_at tds i)"
  note built = ohci_built_end [OF geo(1) j(4) [folded m4_def], of 0 "ohci_td_at tds i", unfolded last_snoc, folded m5_def]
  have stg: "stages @ [?status] = ohci_stages ?inp address low packet setup data n"
    using p(1) by (simp add: stages_def ohci_stages_def control_packets_def packet_count_def)
  have "ohci_control_tds ohci (of_nat packet) setup data (of_nat n) m0 = Some (Some (ohci_td_at tds i, ohci_td_at tds j), m5)"
    unfolding ohci_control_tds_def sizeof_setup_data_def i(2) prod.case pid dp_def [symmetric] sp_def [symmetric] Let_def
    using i(3) l(1,5) j(2,3) by (simp add: m4_def m5_def)
  moreover have "hd (is' @ [j]) = i" using l(2,3) by simp
  ultimately show ?thesis using built stg by (intro exI [of _ "is' @ [j]"] exI [of _ m5]) simp
qed

text \<open>Endpoint descriptors.\<close>

definition ohci_ed_at :: "addr \<Rightarrow> nat \<Rightarrow> addr" where "ohci_ed_at eds i = eds + of_nat (sizeof_ohci_ed * i)"

definition ohci_endpoint :: "mem \<Rightarrow> addr \<Rightarrow> usb_token" where
  "ohci_endpoint m ed = (let f = ld32 m (ed_flags ed) in
     \<lparr>tok_pid = 0, tok_address = unat (f AND mask 7), tok_endpoint = unat (drop_bit 7 f AND mask 4), tok_toggle = False, tok_length = 0, tok_low = bit f 13\<rparr>)"

lemma ohci_ed_fields:
  fixes speed mps v :: u32
  assumes "unat address < 128"
  defines "f \<equiv> ohci_ed_set (BL_OHCI_ED_ADDRESS_ENDPOINT address 0) speed mps v"
  shows "f AND mask 7 = address" "drop_bit 7 f AND mask 4 = 0" "bit f 13 = (speed = BL_USB_LOW_SPEED)"
proof -
  have "\<And>j. 7 \<le> j \<Longrightarrow> \<not> bit address j" using high_bit_clear [of address 7] assms(1) by auto
  then have h: "\<And>j. bit address j \<Longrightarrow> j < 7" by (meson not_le)
  note u = f_def ohci_ed_set_def Let_def BL_OHCI_ED_ADDRESS_ENDPOINT_def BL_OHCI_ED_FLAGS_ADDRESS_ENDPOINT_def BL_OHCI_ED_FLAGS_ADDRESS_def BL_OHCI_ED_FLAGS_ENDPOINT_def
    BL_OHCI_ED_FLAGS_SPEED_def BL_OHCI_ED_FLAGS_MPS_def BL_OHCI_ED_MPS_def
  have k: "(0x7f :: u32) = mask 7" "(0xf :: u32) = mask 4" "(0x7ff :: u32) = mask 11" by (simp_all add: mask_eq_exp_minus_1)
  note b = bit_and_iff bit_or_iff bit_not_iff bit_mask_iff bit_push_bit_iff bit_drop_bit_eq
  show "f AND mask 7 = address"
    unfolding u k by (cases "speed = BL_USB_LOW_SPEED"; rule bit_eqI; simp only: b o_apply bit_1_iff if_True if_False refl; auto dest: h)
  show "drop_bit 7 f AND mask 4 = 0"
    unfolding u k by (cases "speed = BL_USB_LOW_SPEED"; rule bit_eqI; simp only: b o_apply bit_1_iff if_True if_False refl; auto dest: h)
  show "bit f 13 = (speed = BL_USB_LOW_SPEED)"
    unfolding u k by (cases "speed = BL_USB_LOW_SPEED"; simp only: b o_apply bit_1_iff if_True if_False refl; auto dest: h)
qed

lemma ohci_ed_unat: "fits eds 2048 \<Longrightarrow> i < 128 \<Longrightarrow> unat (ohci_ed_at eds i) = unat eds + 16 * i \<and> fits (ohci_ed_at eds i) 16"
  using unat_add_lt [of eds "16 * i"] by (simp add: ohci_ed_at_def sizeof_ohci_ed_def fits_def)

lemma ed_words:
  assumes "fits q 16"
  shows "unat (q + 4) = unat q + 4" "unat (q + 8) = unat q + 8" "unat (q + 12) = unat q + 12" "unat q + 16 \<le> 2 ^ 32"
    "fits q 4" "fits (q + 4) 4" "fits (q + 8) 4" "fits (q + 12) 4"
proof -
  note t = table_addr [OF assms]
  show u: "unat (q + 4) = unat q + 4" "unat (q + 8) = unat q + 8" "unat (q + 12) = unat q + 12" using t [of 4] t [of 8] t [of 12] by simp_all
  show "unat q + 16 \<le> 2 ^ 32" using assms by (simp add: fits_def)
  then show "fits q 4" "fits (q + 4) 4" "fits (q + 8) 4" "fits (q + 12) 4" unfolding fits_def u by simp_all
qed

text \<open>Whether a descriptor from \<open>i\<close> on has the address or none.\<close>

definition ohci_ed_free :: "addr \<Rightarrow> u32 \<Rightarrow> mem \<Rightarrow> nat \<Rightarrow> bool" where
  "ohci_ed_free eds ae m i \<longleftrightarrow> ld32 m (ed_flags (ohci_ed_at eds i)) AND BL_OHCI_ED_FLAGS_ADDRESS_ENDPOINT \<in> {ae, 0}"

lemma ohci_ed_loop_ok:
  assumes "fits eds 2048"
  shows "i + n \<le> 128 \<Longrightarrow> \<exists>j<n. ohci_ed_free eds ae m (i + j) \<Longrightarrow>
    \<exists>j<128. \<exists>m'. ohci_ed_loop eds ae n i m = (ohci_ed_at eds j, m') \<and> (\<forall>x. off_range eds 2048 x \<longrightarrow> m' x = m x)"
proof (induction n arbitrary: i)
  case (Suc n)
  note step = ohci_ed_loop.simps(2) [folded ohci_ed_at_def]
  show ?case
  proof (cases "ohci_ed_free eds ae m i")
    case True
    have i: "i < 128" using Suc.prems(1) by simp
    have "st32 m (ed_next_ed (ohci_ed_at eds (i - 1))) v x = m x" if "off_range eds 2048 x" for v x
    proof -
      have "unat (ohci_ed_at eds (i - 1)) = unat eds + 16 * (i - 1)" "fits (ohci_ed_at eds (i - 1)) 16" using ohci_ed_unat [OF assms, of "i - 1"] i by auto
      note u = this ed_words [OF this(2)]
      have "off_range (ohci_ed_at eds (i - 1) + 12) 4 x" using that u(1,5) i unfolding off_range_def by linarith
      then show ?thesis unfolding ed_next_ed_def by (rule st_frame(2) [OF ed_words(8) [OF u(2)]])
    qed
    then show ?thesis using True i
      by (intro exI [of _ i]) (auto simp only: step ohci_ed_free_def Let_def split: if_splits)
  next
    case False
    then obtain j where j: "j < n" "ohci_ed_free eds ae m (Suc i + j)"
      using Suc.prems(2) by (metis add_0_right add_Suc_right add_Suc less_Suc_eq_0_disj)
    then show ?thesis using Suc.IH [of "Suc i"] Suc.prems(1) False
      by (auto simp only: step ohci_ed_free_def Let_def insert_iff empty_iff split: if_splits) auto
  qed
qed simp

lemma ohci_init_ed_ok:
  assumes "fits eds 2048" "eds \<noteq> 0" "oh_control_eds m ohci = eds" "unat address < 128"
    "\<exists>i<128. ohci_ed_free eds (BL_OHCI_ED_ADDRESS_ENDPOINT address 0) m i"
  shows "\<exists>i<128. \<exists>m'. bl_ohci_init_ed ohci BL_USB_TRANSFER_CONTROL address 0 speed mps m = (ohci_ed_at eds i, m') \<and> ohci_ed_at eds i \<noteq> 0 \<and>
    (\<forall>x. off_range eds 2048 x \<longrightarrow> m' x = m x) \<and> ohci_endpoint m' (ohci_ed_at eds i) = usb_tok 0 (unat address) False 0 (speed = BL_USB_LOW_SPEED)"
proof -
  let ?ae = "BL_OHCI_ED_ADDRESS_ENDPOINT address 0"
  obtain j m1 where j: "j < 128" "(if ?ae = 0 then (oh_control_eds m ohci, m) else bl_ohci_alloc_ed (oh_control_eds m ohci) BL_OHCI_NUM_CONTROL_EDS ?ae m) = (ohci_ed_at eds j, m1)"
      "\<forall>x. off_range eds 2048 x \<longrightarrow> m1 x = m x"
  proof (cases "?ae = 0")
    case True
    then show thesis using that [of 0 m] assms(3) by (simp add: ohci_ed_at_def)
  next
    case False
    then show thesis using ohci_ed_loop_ok [OF assms(1), of 0 128 ?ae m] assms(3,5) that by (auto simp: bl_ohci_alloc_ed_def BL_OHCI_NUM_CONTROL_EDS_def)
  qed
  define q where "q = ohci_ed_at eds j"
  have q: "unat q = unat eds + 16 * j" "fits q 16" using ohci_ed_unat [OF assms(1) j(1)] by (auto simp: q_def)
  note u = ed_words [OF q(2)]
  have nz: "q \<noteq> 0" using assms(2) q(1) by (metis add_is_0 unat_0 unat_eq_0)
  define f where "f = ohci_ed_set ?ae speed mps (ld32 m1 q)"
  have run: "bl_ohci_init_ed ohci BL_USB_TRANSFER_CONTROL address 0 speed mps m = (q, st32 m1 q f)"
    unfolding bl_ohci_init_ed_def Let_def using j(2) nz by (simp add: q_def [symmetric] f_def ed_flags_def)
  have "\<forall>x. off_range eds 2048 x \<longrightarrow> st32 m1 q f x = m x"
  proof (intro allI impI)
    fix x assume x: "off_range eds 2048 x"
    then have "off_range q 4 x" using q(1) j(1) unfolding off_range_def by linarith
    then show "st32 m1 q f x = m x" using j(3) x by (simp add: st_frame u)
  qed
  moreover have "ohci_endpoint (st32 m1 q f) q = usb_tok 0 (unat address) False 0 (speed = BL_USB_LOW_SPEED)"
    using ohci_ed_fields [OF assms(4), of speed mps "ld32 m1 q"] by (simp add: ohci_endpoint_def Let_def ed_flags_def ld_st_same f_def [symmetric] usb_tok_def)
  ultimately show ?thesis using j(1) run nz unfolding q_def by blast
qed

text \<open>The controller works through the descriptors from the head up to the tail, which it leaves.\<close>

fun ohci_queue :: "mem \<Rightarrow> addr \<Rightarrow> nat \<Rightarrow> addr \<Rightarrow> addr list" where
  "ohci_queue m tail 0 td = []"
| "ohci_queue m tail (Suc n) td = (if td = tail then [] else td # ohci_queue m tail n (ld32 m (gtd_next_td td) AND NOT 0xf))"

lemma ohci_queue_ok:
  "as \<noteq> [] \<Longrightarrow> distinct as \<Longrightarrow> \<forall>k. Suc k < length as \<longrightarrow> ld32 m (gtd_next_td (as ! k)) = as ! Suc k \<Longrightarrow> \<forall>a\<in>set as. 16 dvd unat a \<Longrightarrow>
    length as \<le> n \<Longrightarrow> ohci_queue m (last as) n (hd as) = butlast as"
proof (induction as arbitrary: n)
  case (Cons a as)
  obtain n' where n: "n = Suc n'" using Cons.prems(5) by (cases n) auto
  show ?case
  proof (cases as)
    case Nil
    then show ?thesis using n by simp
  next
    case (Cons b bs)
    have "ld32 m (gtd_next_td a) = b" using Cons.prems(3) Cons by force
    moreover have "b AND NOT 0xf = b"
    proof -
      have "16 dvd unat b" using Cons.prems(4) Cons by simp
      then have "unat (b AND NOT (mask 4)) = unat b" unfolding and_not_mask_unat by (simp add: dvd_div_mult_self)
      then show ?thesis by (simp add: word_unat_eq_iff mask_eq_exp_minus_1)
    qed
    moreover have "a \<noteq> last as" using Cons.prems(2) Cons by (metis distinct.simps(2) last_in_set list.distinct(1))
    moreover have "\<forall>k. Suc k < length as \<longrightarrow> ld32 m (gtd_next_td (as ! k)) = as ! Suc k"
      using Cons.prems(3) by (metis Suc_less_eq length_Cons nth_Cons_Suc)
    ultimately show ?thesis using Cons.IH [of n'] Cons.prems(2,4,5) Cons n by simp
  qed
qed simp

lemma ohci_skip_fields:
  "(f AND NOT BL_OHCI_ED_FLAGS_SKIP) AND mask 7 = f AND mask 7" "drop_bit 7 (f AND NOT BL_OHCI_ED_FLAGS_SKIP) AND mask 4 = drop_bit 7 f AND mask 4"
  "bit (f AND NOT BL_OHCI_ED_FLAGS_SKIP) 13 = bit f 13" "\<not> bit (f AND NOT BL_OHCI_ED_FLAGS_SKIP) 14"
proof -
  note b = bit_and_iff bit_not_iff bit_mask_iff bit_push_bit_iff bit_drop_bit_eq o_apply bit_1_iff
  show "(f AND NOT BL_OHCI_ED_FLAGS_SKIP) AND mask 7 = f AND mask 7"
    unfolding BL_OHCI_ED_FLAGS_SKIP_def by (rule bit_eqI; simp only: b; auto)
  show "drop_bit 7 (f AND NOT BL_OHCI_ED_FLAGS_SKIP) AND mask 4 = drop_bit 7 f AND mask 4"
    unfolding BL_OHCI_ED_FLAGS_SKIP_def by (rule bit_eqI; simp only: b; auto)
  show "bit (f AND NOT BL_OHCI_ED_FLAGS_SKIP) 13 = bit f 13" "\<not> bit (f AND NOT BL_OHCI_ED_FLAGS_SKIP) 14"
    unfolding BL_OHCI_ED_FLAGS_SKIP_def by (simp_all only: b) auto
qed

lemma ohci_start_ok:
  assumes "fits ed 16"
  shows "off_range ed 16 x \<Longrightarrow> ohci_start ed h t m x = m x" "ld32 (ohci_start ed h t m) (ed_td_head_pointer ed) = h" "ld32 (ohci_start ed h t m) (ed_td_tail_pointer ed) = t"
    "ohci_endpoint (ohci_start ed h t m) ed = ohci_endpoint m ed" "\<not> bit (ld32 (ohci_start ed h t m) (ed_flags ed)) 14"
proof -
  note u = ed_words [OF assms]
  define m1 where "m1 = st32 (st32 m (ed + 8) h) (ed + 4) t"
  have e: "ohci_start ed h t m = st32 m1 ed (ld32 m1 ed AND NOT BL_OHCI_ED_FLAGS_SKIP)"
    by (simp add: ohci_start_def Let_def m1_def ed_flags_def ed_td_head_pointer_def ed_td_tail_pointer_def)
  show "ohci_start ed h t m x = m x" if "off_range ed 16 x"
  proof -
    have "off_range ed 4 x" "off_range (ed + 4) 4 x" "off_range (ed + 8) 4 x" using that unfolding off_range_def u(1,2) by linarith+
    then show ?thesis by (simp add: e m1_def st_frame u)
  qed
  show "ld32 (ohci_start ed h t m) (ed_td_head_pointer ed) = h" "ld32 (ohci_start ed h t m) (ed_td_tail_pointer ed) = t"
    by (simp_all add: e m1_def ed_td_head_pointer_def ed_td_tail_pointer_def ld32_store_other u ld_st_same)
  have f: "ld32 m1 ed = ld32 m ed" by (simp add: m1_def ld32_store_other u)
  show "ohci_endpoint (ohci_start ed h t m) ed = ohci_endpoint m ed" "\<not> bit (ld32 (ohci_start ed h t m) (ed_flags ed)) 14"
    by (simp_all only: ohci_endpoint_def Let_def ed_flags_def e ld_st_same f ohci_skip_fields not_False_eq_True)
qed

lemma ohci_control_ok:
  assumes hc: "hc_data (mem s) hc = ohci" "oh_control_eds (mem s) ohci = eds" "oh_tds (mem s) ohci = tds"
    and geo: "fits ohci 24" "fits eds 2048" "eds \<noteq> 0" "fits tds 16384" "tds \<noteq> 0" "16 dvd unat tds" "all_apart [(ohci, 24), (eds, 2048), (tds, 16384)]"
    and ed: "unat address < 128" "\<exists>i<128. ohci_ed_free eds (BL_OHCI_ED_ADDRESS_ENDPOINT address 0) (mem s) i"
    and p: "packet = (if packet_size = 0 then 8 else unat packet_size)" "n = unat len" "n + packet < 2 ^ 31"
    and su: "setup \<noteq> 0" "off_range eds 2048 setup" "n \<noteq> 0 \<longrightarrow> data \<noteq> 0 \<and> fits data n"
    and room: "packet_count packet n + 3 \<le> card (ohci_free tds (mem s))"
  shows "\<exists>ed m'. bl_ohci_control_transfer env hc packet_size address speed setup data len s =
      bl_ohci_check_transfer_timeout env ed 100 (ohci_command env ohci BL_OHCI_REG_COMMAND_STATUS_CLF (s\<lparr>mem := m'\<rparr>)) \<and>
    (\<exists>i<128. ed = ohci_ed_at eds i) \<and> \<not> bit (ld32 m' (ed_flags ed)) 14 \<and> (\<forall>x. off_range eds 2048 x \<longrightarrow> off_range tds 16384 x \<longrightarrow> m' x = mem s x) \<and>
    map (ohci_td_token (ohci_endpoint m' ed) m') (ohci_queue m' (ld32 m' (ed_td_tail_pointer ed)) 512 (ld32 m' (ed_td_head_pointer ed))) =
      (if n = 0 then control_packets (bit (mem s setup) 7) (unat address) (speed = BL_USB_LOW_SPEED) packet setup data n
       else butlast (control_packets (bit (mem s setup) 7) (unat address) (speed = BL_USB_LOW_SPEED) packet setup data n))"
proof -
  let ?low = "speed = BL_USB_LOW_SPEED" and ?in = "bit (mem s setup) 7"
  have ap: "apart ohci 24 eds 2048" "apart ohci 24 tds 16384" "apart eds 2048 tds 16384" using geo(7) by auto
  define ps :: u32 where "ps = (if packet_size = 0 then 8 else packet_size)"
  have pk: "ps = of_nat packet" "0 < packet" using p(1) by (simp_all add: ps_def unat_gt_0)
  obtain i m1 where i: "i < 128" "bl_ohci_init_ed ohci BL_USB_TRANSFER_CONTROL address 0 speed ps (mem s) = (ohci_ed_at eds i, m1)" "ohci_ed_at eds i \<noteq> 0"
      "\<forall>x. off_range eds 2048 x \<longrightarrow> m1 x = mem s x" "ohci_endpoint m1 (ohci_ed_at eds i) = usb_tok 0 (unat address) False 0 ?low"
    using ohci_init_ed_ok [OF geo(2,3) hc(2) ed, of speed ps] by blast
  define q where "q = ohci_ed_at eds i"
  have q: "unat q = unat eds + 16 * i" "fits q 16" using ohci_ed_unat [OF geo(2) i(1)] by (auto simp: q_def)
  have off_tds: "off_range eds 2048 x" if "\<not> off_range tds 16384 x" for x using that ap(3) by (auto simp: off_range_def apart_def)
  have td_out: "\<not> off_range tds 16384 x" if "k < 512" "\<not> off_range (ohci_td_at tds k) 24 x" for k x
    using ohci_inside [OF geo(4) that(1)] that(2) by blast
  have "ohci_td_flag tds m1 k = ohci_td_flag tds (mem s) k" if "k < 512" for k
  proof (rule ohci_same(1) [OF geo(4) that], intro allI impI)
    fix x assume "\<not> off_range (ohci_td_at tds k) 20 x"
    then have "\<not> off_range (ohci_td_at tds k) 24 x" by (auto simp: off_range_def)
    then show "m1 x = mem s x" using i(4) off_tds td_out [OF that] by blast
  qed
  then have free: "ohci_free tds m1 = ohci_free tds (mem s)" by (auto simp: ohci_free_def)
  have "unat (ohci + 16) = unat ohci + 16" using unat_add_lt [of ohci 16] geo(1) by (simp add: fits_def)
  then have "ld32 m1 (ohci + 16) = ld32 (mem s) (ohci + 16)" using geo(1) ap(1) i(4) by (intro ld_same(2)) (auto simp: fits_def apart_def off_range_def)
  then have tds1: "oh_tds m1 ohci = tds" using hc(3) by (simp add: oh_tds_def)
  have s1: "m1 setup = mem s setup" using i(4) su(2) by blast
  define e where "e = usb_tok 0 (unat address) False 0 ?low"
  obtain ds m2 where t: "ohci_control_tds ohci ps setup data len m1 = Some (Some (ohci_td_at tds (hd ds), ohci_td_at tds (last ds)), m2)"
      "ohci_built tds e m1 m2 ds (ohci_stages ?in (unat address) ?low packet setup data n)"
    using ohci_control_tds_ok [OF geo(4,5,1) ap(2) tds1 e_def pk(2) p(3) su(1,3)] room s1 p(2) unfolding free pk(1) by auto
  note d = t(2) [unfolded ohci_built_def]
  define m3 where "m3 = ohci_start q (ohci_td_at tds (hd ds)) (ohci_td_at tds (last ds)) m2"
  note st = ohci_start_ok [OF q(2), where h = "ohci_td_at tds (hd ds)" and t = "ohci_td_at tds (last ds)" and m = m2, folded m3_def]
  have q_out: "off_range q 16 x" if "off_range eds 2048 x" for x using that q i(1) unfolding off_range_def by linarith
  have q_in: "off_range tds 16384 x" if "\<not> off_range q 16 x" for x
  proof -
    have "\<not> off_range eds 2048 x" using that q_out by blast
    then show ?thesis using off_tds by blast
  qed
  have tdm: "\<forall>x. \<not> off_range (ohci_td_at tds k) 20 x \<longrightarrow> m3 x = m2 x" if "k < 512" for k
  proof (intro allI impI)
    fix x assume "\<not> off_range (ohci_td_at tds k) 20 x"
    then have "\<not> off_range (ohci_td_at tds k) 24 x" by (auto simp: off_range_def)
    then show "m3 x = m2 x" using st(1) q_out off_tds td_out [OF that] by blast
  qed
  note same = ohci_same [OF geo(4) _ tdm]
  have "ld32 m2 q = ld32 m1 q"
  proof (rule ld_same(2), goal_cases)
    case 1
    show ?case using q(2) by (simp add: fits_def)
  next
    case 2
    show ?case
    proof (intro allI impI)
    fix x assume "\<not> off_range q 4 x"
    then have "\<not> off_range q 16 x" by (auto simp: off_range_def)
    then show "m2 x = m1 x" using d q_in by blast
    qed
  qed
  then have ep: "ohci_endpoint m3 q = e" using st(4) i(5) by (simp add: e_def ohci_endpoint_def ed_flags_def q_def)
  have nx: "\<forall>k. Suc k < length (map (ohci_td_at tds) ds) \<longrightarrow> ld32 m3 (gtd_next_td (map (ohci_td_at tds) ds ! k)) = map (ohci_td_at tds) ds ! Suc k"
  proof (intro allI impI)
    fix k assume k: "Suc k < length (map (ohci_td_at tds) ds)"
    then have "ds ! k \<in> set ds" by simp
    then have "ds ! k < 512" using d by blast
    then show "ld32 m3 (gtd_next_td (map (ohci_td_at tds) ds ! k)) = map (ohci_td_at tds) ds ! Suc k" using same(2) d k by simp
  qed
  have inj: "inj_on (ohci_td_at tds) (set ds)"
  proof (rule inj_onI)
    fix a b assume "a \<in> set ds" "b \<in> set ds" "ohci_td_at tds a = ohci_td_at tds b"
    moreover have "x < 512" if "x \<in> set ds" for x using d that by blast
    ultimately have "unat tds + 32 * a = unat tds + 32 * b" using ohci_td_unat [OF geo(4), of a] ohci_td_unat [OF geo(4), of b] by metis
    then show "a = b" by simp
  qed
  have al: "\<forall>a\<in>set (map (ohci_td_at tds) ds). 16 dvd unat a" 
  proof
    fix a assume "a \<in> set (map (ohci_td_at tds) ds)"
    then obtain k where "a = ohci_td_at tds k" "k < 512" using d by auto
    then show "16 dvd unat a" using ohci_td_unat [OF geo(4), of k] geo(6) by simp
  qed
  have "length ds \<le> 512"
  proof -
    have "set ds \<subseteq> {..<512}" using d by blast
    then have "card (set ds) \<le> 512" using card_mono [of "{..<512}" "set ds"] by simp
    then show ?thesis using d by (simp add: distinct_card)
  qed
  then have queue: "ohci_queue m3 (ohci_td_at tds (last ds)) 512 (ohci_td_at tds (hd ds)) = map (ohci_td_at tds) (butlast ds)"
    using ohci_queue_ok [OF _ _ nx al, of 512] d inj by (simp add: distinct_map last_map hd_map map_butlast)
  have "map (ohci_td_token e m3) (map (ohci_td_at tds) ds) = map (\<lambda>k. ohci_td_token e m2 (ohci_td_at tds k)) ds"
    unfolding map_map
  proof (rule map_cong [OF refl])
    fix k assume "k \<in> set ds"
    then have "k < 512" using d by blast
    then show "(ohci_td_token e m3 \<circ> ohci_td_at tds) k = ohci_td_token e m2 (ohci_td_at tds k)" using same(3) by simp
  qed
  also have "\<dots> = ohci_stages ?in (unat address) ?low packet setup data n" using d by blast
  finally have "map (ohci_td_token e m3) (map (ohci_td_at tds) (butlast ds)) = butlast (ohci_stages ?in (unat address) ?low packet setup data n)"
    by (metis map_butlast)
  also have "\<dots> = (if n = 0 then control_packets ?in (unat address) ?low packet setup data n else butlast (control_packets ?in (unat address) ?low packet setup data n))"
    by (simp add: ohci_stages_def)
  finally have run: "map (ohci_td_token (ohci_endpoint m3 q) m3) (ohci_queue m3 (ld32 m3 (ed_td_tail_pointer q)) 512 (ld32 m3 (ed_td_head_pointer q))) =
      (if n = 0 then control_packets ?in (unat address) ?low packet setup data n else butlast (control_packets ?in (unat address) ?low packet setup data n))"
    unfolding ep st(2,3) queue .
  have "m3 x = mem s x" if "off_range eds 2048 x" "off_range tds 16384 x" for x
    using st(1) [OF q_out [OF that(1)]] d i(4) that by metis
  moreover have "bl_ohci_control_transfer env hc packet_size address speed setup data len s =
      bl_ohci_check_transfer_timeout env q 100 (ohci_command env ohci BL_OHCI_REG_COMMAND_STATUS_CLF (s\<lparr>mem := m3\<rparr>))"
    unfolding bl_ohci_control_transfer_def hc(1) Let_def ps_def [symmetric] i(2) prod.case using i(3) t(1) by (simp add: q_def [symmetric] m3_def)
  ultimately show ?thesis using i(1) st(5) run unfolding q_def by blast
qed

end
