(* ===== verification/Spec2Isabelle.thy ===== *)
theory Spec2Isabelle
  imports Bl_XhciTransfers Bl_EhciTransfers Bl_OhciTransfers
begin

text \<open>A model of bl-boot-loader, an i386 boot loader written in C (src/), and the properties
  that span its parts. Pointers and integers are 32-bit words and wrap; memory is one map from
  addresses to bytes; a routine that may loop forever or that the processor stops (a division by
  zero, a call through a null pointer) has an optional result, None being no result; error
  codes are the datatype \<open>bl_status\<close>.

  The parts and where they are modelled:

  \<^item> Bl_Prelude: the memory, little-endian loads and stores and their evaluation, regions that
    fit and lie apart, status codes, and the byte swaps of include/types.h.
  \<^item> Bl_Utils: core/utils/divmod64.c and log2.c.
  \<^item> Bl_String: core/utils/string.c but its allocating routines.
  \<^item> Bl_Heap: core/memory/heap.c. The block headers are in memory; \<open>heap_inv\<close> relates them
    to a list of blocks, and the lemmas show that allocation and release refine a first-fit
    allocator on that list. The locale \<open>allocator\<close>, interpreted as \<open>heap\<close>, is the interface the other parts use:
    live blocks, room, and what each call keeps; \<open>heap_ok s B L\<close> says that \<open>L\<close> are the live blocks
    and that \<open>B\<close> more bytes fit, so that the allocations of a routine succeed.
  \<^item> Bl_Print: core/video/print.c and screen.c over an output callback.
  \<^item> Bl_Elf: core/loader (elf.c, symbols.c, loader.c): checks, image layout, symbols,
    relocation and the list of modules, on the heap. Its lemmas show that the sections end up in
    the image one after the other, aligned, and that each relocation adds the symbol's value to its place.
  \<^item> Bl_Storage: core/storage, core/partition-table and modules/partition-table: the
    registries (locale \<open>registry\<close>), the byte read on top of a controller's sector
    read, and the partitions the MBR and GPT readers find on a disk with given bytes.
  \<^item> Bl_Tokens: strdup, strndup and strtok of string.c on the heap; strtok hands out the tokens of a list.
  \<^item> Bl_Keyboard: core/keyboard and modules/keyboard/ps2-kbd: registries, layout and the scan-code
    machine; key events are related to the characters getchar returns.
  \<^item> Bl_Fs: core/fs/fs.c and file.c: mounting and the path iteration over any file system, whose
    contract is \<open>fs_env\<close>.
  \<^item> Bl_Ntfs and Bl_Ext: modules/fs/ntfs and modules/fs/ext on top of both.
  \<^item> Bl_Usb: core/bus/usb over a record of a host controller driver's functions: transfers,
    identification, hubs, polling and the traversal queue. Devices and descriptors are memory; the lemmas relate lists of
    descriptors to what the loops store.
  \<^item> Bl_UsbDrivers: modules/keyboard/usb-kbd and modules/storage/usb-scsi; a read refines the disk
    behind a bulk-only device.
  \<^item> Bl_Pci: core/bus/pci/pci.c and pci.h over the port instructions; the functions found are those of
    the configuration space.
  \<^item> Bl_Pata: modules/storage/pata over the ports: detection and reads; a read refines the disk behind the task file.
  \<^item> Bl_Ahci: modules/storage/ahci over memory-mapped registers: start-up, detection and reads; a read refines the disk
    behind a controller that executes the command tables in memory.
  \<^item> Bl_Hci, Bl_Uhci, Bl_Ohci, Bl_Ehci, Bl_Xhci: what modules/usb shares, and the drivers uhci, ohci, ehci and xhci: registers,
    initialisation, ports, descriptors, control and bulk transfers; the structures the controllers read are memory. Bl_UhciTransfers: a control transfer refines the
    transactions of the USB specification on a controller that works through its schedule. Bl_OhciTransfers, Bl_EhciTransfers, Bl_XhciTransfers: what
    the other drivers hand to their controllers, queues, page pointers and rings of requests. The locale \<open>descriptor_pool\<close> is the
    allocation from an array of flagged descriptors, interpreted for the descriptors of UHCI, OHCI and EHCI.
  \<^item> Bl_Font, Bl_Video: the font of core/gui/font.c; core/video/fb.c, alpha-blending.c and video.c, with pixels as bytes of
    memory. Bl_Pixels: rows, rectangles, the dirty area and the invariant that the frame buffer shows the double
    buffer outside it. Bl_Glyphs: pixels, colours and glyphs read back.
  \<^item> Bl_Gui: core/gui/bitmap.c and gui-app.c, the shell window; its pages stay in their vectors and every print is shown.
  \<^item> Bl_Shell: core/shell, the commands, the splitting of a line into arguments, and the choice of disk and partition.

  How they interact: the drivers register records of functions in the registries of the layers; the
  layers call through these records; all of them allocate on the one heap, and every result about
  a driver carries the blocks that stay live.

  Parameters. A disk controller's sector read, the ports of the keyboard controller, a USB host controller's functions, a video
  driver's functions, the registers of an AHCI controller and of the USB host controllers, the
  output callback and the directory callback of a file system are arguments of the
  definitions. What a property needs of them is a named hypothesis: \<open>disk_reads\<close> (the
  controller returns the bytes of the disk), \<open>ps2_port\<close> (the status bit and the data port of the
  i8042), \<open>fs_env\<close>, \<open>config_read\<close> (a control transfer returns the descriptors and keeps the live
  blocks) \<open>bulk_only_disk\<close> (the phases of the bulk-only transport), \<open>pci_mechanism\<close> (configuration mechanism #1 of PCI),
  \<open>ata_drive\<close> (the task file and the command READ SECTORS) and \<open>uhci_hc\<close> (a UHCI controller executes the queue it finds in the schedule). The padding
  of the structures the XHCI driver has on its stack is its argument \<open>stale\<close>. What a local variable holds
  before it is stored is the argument \<open>ue_stack\<close>.

  Bounds. Loops over counters recurse on the counter. \<open>strtok_all\<close> takes a number of
  calls, which one more than the length of the string suffices for. No other definition has fuel: a loop without a bound is
  a partial function, and the properties prove that it returns.

  Not modelled: FAT, which
  does not compile, and ACPI, which is disabled; mode switches, port and MSR set-up, assembly and firmware
  calls, whose effect is on the processor and not on data.
\<close>

unbundle bit_operations_syntax

text \<open>Concrete states the examples below start from.\<close>

definition heap0 :: heap_st where
  "heap0 = \<lparr>mem = (\<lambda>_. 0), bl_heap = 0x100000, occupied_blocks = 0, free_blocks = 0\<rparr>"

definition heap1 :: heap_st where
  "heap1 = heap0\<lparr>occupied_blocks := 1,
     mem := st32 (st32 (st32 (\<lambda>_. 0) 0x100000 0) 0x100004 BL_HEAP_BLOCK_HEAD_USED_MAGIC) 0x100008 16\<rparr>"

lemma heap0_inv: "heap_inv heap0 []"
  by (simp add: heap_inv_def heap0_def)

lemma heap1_inv: "heap_inv heap1 [HBlock 0x100000 16 True]"
  by (simp add: heap1_def heap0_def heap_inv_def bh_size_def bh_next_def bh_magic_def mem_eval
      BL_HEAP_BLOCK_HEAD_USED_MAGIC_def layout_def block_ok_def hb_end_def)














definition loader0 :: loader_st where
  "loader0 = \<lparr>mem = (\<lambda>_. 0), bl_heap = 0x100000, occupied_blocks = 0, free_blocks = 0,
     bl_mod_list = 0, bl_mods = 0, console_log = []\<rparr>"

text \<open>A file whose one section is its string table, holding "."; a module of that name is loaded at 0x5000.\<close>

definition loader1 :: loader_st where
  "loader1 = loader0\<lparr>bl_mods := 0x5000,
     mem := (\<lambda>_. 0)(0x1000 := 0x7f, 0x1001 := 0x45, 0x1002 := 0x4c, 0x1003 := 0x46, 0x1004 := 1, 0x1005 := 1,
       0x1006 := 1, 0x1010 := 1, 0x1012 := 3, 0x1014 := 1, 0x1020 := 92, 0x102e := 40, 0x1030 := 1,
       0x1034 := 46, 0x106c := 52, 0x5000 := 46)\<rparr>"

definition link0 :: link_map where
  "link0 = \<lparr>bl_executable = True, bl_symtab_start = 0, bl_symtab_end = 0, bl_hash_start = 0, bl_dynsym_start = 0,
     bl_dynstr_start = 0, bl_image_start = 0, str_mod_name = 0x1034, str_initialize = 0x1035, str_uninitialize = 0x1035\<rparr>"

lemma loader1_modules: "module_list (mem loader1) (bl_mods loader1) [(0x5000, [46])]"
  by (simp add: loader1_def mem_eval)

lemma loader1_check: "bl_elf_check (mem loader1) 0x1000 132 = BL_STATUS_SUCCESS"
  by (simp add: loader1_def bl_elf_check_def rd_Ehdr_def mem_eval)

lemma loader1_cstr: "cstr (mem loader1) 0x1034 [46]"
  by (simp add: loader1_def)

lemma loader1_name: "bl_elf_section_by_name (mem loader1) 0x1000 (str_mod_name link0) = 0x1034"
proof -
  have "rd_Ehdr (mem loader1) 0x1000 = \<lparr>e_ident = [0x7f, 0x45, 0x4c, 0x46, 1, 1, 1, 0, 0, 0, 0, 0, 0, 0, 0, 0],
      e_type = 1, e_machine = 3, e_version = 1, e_shoff = 92, e_shentsize = 40, e_shnum = 1, e_shstrndx = 0\<rparr>"
    by (simp add: loader1_def rd_Ehdr_def mem_eval)
  moreover have "sh_offset (rd_Shdr (mem loader1) 0x105c) = 52" "sh_name (rd_Shdr (mem loader1) 0x105c) = 0"
    by (simp_all add: loader1_def rd_Shdr_def mem_eval)
  moreover have "bl_strncmp (mem loader1) 0x1034 0x1034 BL_MODULE_MAX_NAME_LEN = 0"
    using strncmp_names [OF loader1_cstr loader1_cstr] by simp
  ultimately show ?thesis
    by (simp add: bl_elf_section_by_name_def elf_shnum_def section_at_def link0_def sizeof_Shdr_def)
qed

lemma heap0_room: "B \<le> 0x100000 \<Longrightarrow> heap_ok heap0 B {}"
  unfolding heap_ok_def by (rule exI [of _ "[]"]) (simp add: heap0_inv live_def heap_top_def, simp add: heap0_def)

definition disk_of :: "(nat \<Rightarrow> u8) \<Rightarrow> 'a device" where
  "disk_of D = (\<lparr>dev_type = BL_STORAGE_TYPE_HARD_DRIVE, sector_size = 512, sector_count = 100, partitions = [], dev_data = 0\<rparr>,
     Some \<lparr>ctl_type = BL_DISK_CONTROLLER_TYPE_PATA, 
       ctl_read = (\<lambda>info start n s. Some (BL_STATUS_SUCCESS, map (\<lambda>i. D (512 * unat start + i)) [0..<512 * unat n], s)),
       ctl_get_info = None\<rparr>)"

lemma disk_of_reads: "disk_reads (disk_of D) D"
  by (simp add: disk_reads_def disk_of_def)

definition mbr_disk :: "nat \<Rightarrow> u8" where
  "mbr_disk = (\<lambda>_. 0)(450 := 7, 454 := 63, 458 := 5, 482 := 0x0b, 486 := 68, 490 := 9, 510 := 0x55, 511 := 0xaa)"

definition gpt_disk :: "nat \<Rightarrow> u8" where
  "gpt_disk = (\<lambda>_. 0)(450 := 0xee, 510 := 0x55, 511 := 0xaa,
     512 := 0x45, 513 := 0x46, 514 := 0x49, 515 := 0x20, 516 := 0x50, 517 := 0x41, 518 := 0x52, 519 := 0x54,
     584 := 2, 592 := 1, 596 := 128, 1024 := 1, 1056 := 34, 1064 := 99)"

lemma gpt_disk_header: "rd_gpt_header (disk_bytes gpt_disk 512 92) =
    \<lparr>gpt_signature = BL_GPT_SIGNATURE, partitions_lba = 2, partitions_count = 1, partition_entry_size = 128\<rparr>"
  by (simp add: rd_gpt_header_def disk_eval gpt_disk_def BL_GPT_SIGNATURE_def ascii_def)

lemma gpt_disk_entries: "filter gpt_used (gpt_entries gpt_disk (rd_gpt_header (disk_bytes gpt_disk 512 92)) 1 0) =
    [rd_gpt_entry (disk_bytes gpt_disk 1024 128)]"
proof -
  have "hd (disk_bytes gpt_disk 1024 16) = 1" by (simp add: disk_bytes_def hd_map gpt_disk_def)
  then have "take 16 (disk_bytes gpt_disk 1024 128) \<noteq> replicate 16 0" by (auto simp: take_disk)
  then show ?thesis
    by (auto simp: gpt_entries_def gpt_entry_at_def gpt_disk_header gpt_used_def rd_gpt_entry_def BL_GPT_UNUSED_ENTRY_def)
qed

definition tok0 :: tok_st where
  "tok0 = \<lparr>mem = (\<lambda>_. 0)(0x2000 := 0x2f, 0x2001 := 0x61, 0x2002 := 0x62, 0x2003 := 0x2f, 0x2004 := 0x63, 0x3000 := 0x2f),
     bl_heap = 0x100000, occupied_blocks = 0, free_blocks = 0, bl_strtok_str = 0x2000\<rparr>"

lemma tok0_inv: "tok_inv tok0 [0x2f, 0x61, 0x62, 0x2f, 0x63] 0x3000 [0x2f]"
  by (simp add: tok_inv_def tok0_def tok_extent_def fits_def apart_def)

definition ps2_wire :: "u8 list port_io" where
  "ps2_wire = \<lparr>io_inb = (\<lambda>p d. if p = PS2_STATUS then (if d = [] then 0 else 1, d) else (hd d, tl d)), io_outb = (\<lambda>_ _ d. d)\<rparr>"

lemma ps2_wire_port: "ps2_port ps2_wire (\<lambda>d. d)"
  by (auto simp: ps2_port_def ps2_wire_def PS2_STATUS_def PS2_DATA_def)

definition ps2_idle :: ps2_st where
  "ps2_idle = \<lparr>key_released = False, lshift_pressed = False, rshift_pressed = False\<rparr>"

definition counting_kbd :: "nat keyboard_controller" where
  "counting_kbd = \<lparr>kc_type = BL_KEYBOARD_PS2, kc_initialize = Some (\<lambda>_ d. Some (BL_STATUS_SUCCESS, Suc d)), kc_getchar = Some (\<lambda>_ d. Some (65, d))\<rparr>"

definition run_attr :: mem where
  "run_attr = (\<lambda>_. 0)(0x1020 := 64, 0x1040 := 0x11, 0x1041 := 4, 0x1042 := 10, 0x1043 := 0x11, 0x1044 := 3, 0x1045 := 90)"

lemma run_attr_runs:
  "mem_get run_attr (0x1000 + ucast (attr_data_run_offset run_attr 0x1000)) (length (encode_runs [Run 1 1 4 10, Run 1 1 3 90])) =
     encode_runs [Run 1 1 4 10, Run 1 1 3 90]"
  by (simp add: run_attr_def attr_data_run_offset_def mem_eval)

definition ntfs_names :: mem where
  "ntfs_names = (\<lambda>_. 0)(0x2000 := 0x62, 0x2001 := 0x6f, 0x2002 := 0x6f, 0x2003 := 0x74, 0x3040 := 2, 0x3042 := 0x42, 0x3044 := 0x4f)"

definition ntfs_dir :: "'a tok_st_ext device \<Rightarrow> 'a ntfs_file_data" where
  "ntfs_dir disk = \<lparr>nf_addr = 0x9000, nf_dir = 1, nf_iroot = 0x100010, nf_rootdir = True, nf_mft_record = 0xa000,
     nf_info = \<lparr>nt_addr = 0xb000, nt_lba = 0, nt_disk = disk, nt_sector_size = 512, nt_cluster_size = 4096, nt_mft_lba = 8,
       nt_mft_record_size = 1024, nt_mft_root = 0xa000, nt_iroot = 0x100010\<rparr>\<rparr>"

text \<open>A heap block with an index root: one entry, the file "a", and the end marker.\<close>

definition tok1 :: tok_st where
  "tok1 = tok0\<lparr>occupied_blocks := 1, mem := (\<lambda>_. 0)(0x100004 := 0x55, 0x100005 := 0x53, 0x100006 := 0x45, 0x100007 := 0x44, 0x100009 := 1,
     0x100018 := 5, 0x100020 := 16, 0x100038 := 96, 0x100080 := 1, 0x100082 := 0x41, 0x10009c := 2, 0x2000 := 0x61)\<rparr>"

lemma tok1_inv: "heap_inv tok1 [HBlock 0x100000 256 True]"
  by (simp add: tok1_def tok0_def heap_inv_def bh_size_def bh_next_def bh_magic_def mem_eval
      BL_HEAP_BLOCK_HEAD_USED_MAGIC_def layout_def block_ok_def hb_end_def)

lemma tok1_ok: "B \<le> 0x100000 \<Longrightarrow> heap_ok tok1 B {(0x100010, 256)}"
proof -
  assume "B \<le> 0x100000"
  moreover have "live [HBlock 0x100000 256 True] = {(0x100010, 256)}" 
  proof -
    have "{b \<in> set [HBlock 0x100000 256 True]. hb_used b} = {HBlock 0x100000 256 True}" by (simp add: set_eq_iff) (metis hblock.sel(3))
    then show ?thesis by (simp add: live_def hb_data_def)
  qed
  moreover have "bl_heap tok1 = 0x100000" by (simp add: tok1_def tok0_def)
  ultimately show ?thesis
    unfolding heap_ok_def by - (rule exI [of _ "[HBlock 0x100000 256 True]"], simp add: tok1_inv heap_top_def hb_end_def)
qed

lemma tok1_entries: "leaf_entries (mem tok1) (bl_ntfs_iroot_get_first_entry (mem tok1) 0x100010) [0x100030]"
  by (simp add: bl_ntfs_iroot_get_first_entry_def bl_ntfs_get_next_entry_def entry_flags_def entry_total_size_def
      BL_NTFS_INDEX_ENTRY_PARENT_def BL_NTFS_INDEX_ENTRY_LAST_ENTRY_def tok1_def mem_eval)

lemma tok1_match: "bl_ntfs_strcmp (mem tok1) 0x2000 (entry_data 0x100030) = 0"
  by (subst bl_ntfs_strcmp_def, subst ntfs_strcmp_loop.simps)
     (simp add: entry_data_def fname_length_def fname_char_def bl_toupper_def tok1_def mem_eval)

definition ext_info0 :: "'a tok_st_ext device \<Rightarrow> 'a ext_info" where
  "ext_info0 disk = \<lparr>ei_addr = 0x9000, ei_type = BL_EXT2_TYPE, ei_lba = 63, ei_disk = disk, ei_block_size = 4096,
     ei_blocks_count = 1000, ei_blocks_per_group = 8192, ei_inode_size = 128, ei_inodes_per_group = 32, ei_groups_count = 1,
     ei_groups = 0x100010\<rparr>"


text \<open>A file system in which every directory has every name: its data is the depth.\<close>

definition deep_look :: "nat \<Rightarrow> u8 list \<Rightarrow> bool \<Rightarrow> bl_status + nat" where
  "deep_look f w dir = Inr (Suc f)"

definition deep_callback :: "(nat, unit) dir_callback" where
  "deep_callback name dir f s = Some (BL_STATUS_SUCCESS, Some (0x500000, Suc f), s)"

definition deep_close :: "(nat, unit) fs_close" where
  "deep_close f s = Some (BL_STATUS_SUCCESS, s)"

definition deep_strings :: path_strings where
  "deep_strings = \<lparr>bl_path_delimiter = 0x3000, bl_current_directory = 0x3010, bl_previous_directory = 0x3020\<rparr>"

definition deep_path :: "u8 list" where
  "deep_path = [0x2f, 0x61, 0x2f, 0x2e, 0x2e, 0x2f, 0x62, 0x2f, 0x63]"

definition tok2 :: tok_st where
  "tok2 = tok0\<lparr>mem := mem_put ((\<lambda>_. 0)(0x3000 := 0x2f, 0x3010 := 0x2e, 0x3020 := 0x2e, 0x3021 := 0x2e)) 0x2000 deep_path\<rparr>"

lemma deep_env: "\<forall>(p, k) \<in> set R. fits p k \<and> unat p + k \<le> 0x200000 \<Longrightarrow> fs_env (\<lambda>_. True) R deep_close deep_callback deep_look"
  by (auto simp: fs_env_def deep_close_def deep_callback_def deep_look_def regions_kept_def node_apart_def fits_def apart_def)

lemma deep_cstr: "cstr (mem tok2) 0x2000 deep_path"
  by (simp add: tok2_def deep_path_def mem_eval)

definition tok3 :: tok_st where
  "tok3 = tok2\<lparr>occupied_blocks := 1, mem := mem_put ((st32 (st32 (st32 (mem tok2) 0x100000 0) 0x100004 BL_HEAP_BLOCK_HEAD_USED_MAGIC)
     0x100008 10)(0x10001a := 0)) 0x100010 (deep_path @ [0])\<rparr>"

lemma tok2_alloc: "bl_heap_alloc tok2 10 = Some (0x100010, tok2\<lparr>occupied_blocks := 1, 
    mem := st32 (st32 (st32 (mem tok2) 0x100000 0) 0x100004 BL_HEAP_BLOCK_HEAD_USED_MAGIC) 0x100008 10\<rparr>)"
  by (simp add: bl_heap_alloc_def bl_heap_alloc_align_def tok2_def tok0_def sizeof_block_head_def)

lemma tok2_copy: "bl_strndup 0x2000 (of_nat (length deep_path)) tok2 = Some (0x100010, tok3)"
proof -
  let ?m = "(st32 (st32 (st32 (mem tok2) 0x100000 0) 0x100004 BL_HEAP_BLOCK_HEAD_USED_MAGIC) 0x100008 10)(0x10001a := 0)"
  have l: "length deep_path = 9" by (simp add: deep_path_def)
  have "bl_strlen (mem tok2) 0x2000 = Some 9" using bl_strlen_cstr [OF deep_cstr] by (simp add: l)
  moreover have "mem_get ?m 0x2000 10 = deep_path @ [0]"
    by (simp add: tok2_def deep_path_def mem_eval BL_HEAP_BLOCK_HEAD_USED_MAGIC_def)
  moreover from this have "bl_memcpy ?m 0x100010 0x2000 10 = (0x100010, mem_put ?m 0x100010 (deep_path @ [0]))"
    using bl_memcpy_correct [of "0x100010" "0x2000" 10 ?m] by (simp add: fits_def)
  ultimately show ?thesis by (simp add: bl_strndup_def tok2_alloc tok3_def l)
qed

lemma tok3_static: "path_static deep_strings 0x2000 deep_path 0x100010 tok3"
  by (simp add: path_static_def path_regions_def deep_strings_def dot_def dotdot_def fits_def apart_def)
     (simp add: tok3_def tok2_def deep_path_def mem_eval BL_HEAP_BLOCK_HEAD_USED_MAGIC_def)

lemma tok3_cstr: "cstr (mem tok3) 0x100010 deep_path" "mem tok3 (0x100010 + of_nat (length deep_path) + 1) = 0"
  by (simp_all add: tok3_def tok2_def deep_path_def mem_eval BL_HEAP_BLOCK_HEAD_USED_MAGIC_def)

text \<open>A USB device with its interfaces and its descriptors, in three heap blocks.\<close>

definition usb1 :: "unit usb_st" where
  "usb1 = \<lparr>mem = mem_put (mem_put ((\<lambda>_. 0)(
       0x100000 := 0x70, 0x100002 := 0x10, 0x100004 := 0x55, 0x100005 := 0x53, 0x100006 := 0x45, 0x100007 := 0x44, 0x100008 := 96,
       0x100070 := 0xa0, 0x100072 := 0x10, 0x100074 := 0x55, 0x100075 := 0x53, 0x100076 := 0x45, 0x100077 := 0x44, 0x100078 := 32,
       0x1000a4 := 0x55, 0x1000a5 := 0x53, 0x1000a6 := 0x45, 0x1000a7 := 0x44, 0x1000a8 := 64,
       0x10003c := 0x80, 0x10003e := 0x10, 0x100082 := 1))
       0x100032 [9, 2, 36, 0, 2, 1, 0, 0, 0])
       0x1000b0 [9, 4, 0, 0, 1, 8, 6, 80, 0, 7, 5, 129, 2, 0, 2, 0, 9, 4, 1, 0, 0, 3, 1, 1, 0],
     bl_heap = 0x100000, occupied_blocks = 3, free_blocks = 0, usb_hw = (), bl_usb_buses = 0, bl_usb_host_controllers = 0,
     bl_root_hubs = 0, usb_kbds = [], usb_disks = [], usb_bbb_tag = 0\<rparr>"

lemma usb1_ok: "B \<le> 0x100000 \<Longrightarrow> heap_ok usb1 B {(0x100010, 96), (0x100080, 32), (0x1000b0, 64)}"
proof -
  assume "B \<le> 0x100000"
  let ?bs = "[HBlock 0x100000 96 True, HBlock 0x100070 32 True, HBlock 0x1000a0 64 True]"
  have "heap_inv usb1 ?bs"
    by (simp add: usb1_def heap_inv_def bh_size_def bh_next_def bh_magic_def mem_eval
        BL_HEAP_BLOCK_HEAD_USED_MAGIC_def layout_def block_ok_def hb_end_def)
  moreover have "{b \<in> set ?bs. hb_used b} = set ?bs" by auto
  then have "live ?bs = {(0x100010, 96), (0x100080, 32), (0x1000b0, 64)}" by (simp add: live_def hb_data_def)
  moreover have "bl_heap usb1 = 0x100000" by (simp add: usb1_def)
  ultimately show ?thesis
    using \<open>B \<le> 0x100000\<close> unfolding heap_ok_def by - (rule exI [of _ ?bs], simp add: heap_top_def hb_end_def)
qed

text \<open>A controller that answers every control transfer with the bytes \<open>cs\<close>.\<close>

definition usb_reading :: "u8 list \<Rightarrow> unit usb_st usb_env" where
  "usb_reading cs = \<lparr>ue_funcs = (\<lambda>_. \<lparr>hc_port_connected = (\<lambda>_ _ s. Some (True, s)), hc_port_get_speed = (\<lambda>_ _ s. Some (0, s)),
     hc_port_reset = (\<lambda>_ _ s. Some s), hc_port_init = (\<lambda>_ _ _ s. Some (0, s)), hc_control = (\<lambda>_ _ _ _ _ _ _ s. Some (cs, s)),
     hc_bulk = (\<lambda>_ _ _ _ _ data _ s. Some (data, s)), hc_interrupt = None, hc_check_status = None\<rparr>),
     ue_stack = (\<lambda>n. replicate n 0), ue_sleep = (\<lambda>_ s. s), ue_print = None\<rparr>"

text \<open>The descriptors of a disk's interface with one endpoint, of a keyboard's interface, and a HID descriptor.\<close>

definition disk_ifc :: "u8 list" where "disk_ifc = [9, 4, 0, 0, 1, 8, 6, 80, 0]"
definition disk_ep :: "u8 list" where "disk_ep = [7, 5, 129, 2, 0, 2, 0]"
definition kbd_ifc :: "u8 list" where "kbd_ifc = [9, 4, 1, 0, 0, 3, 1, 1, 0]"
definition kbd_hid :: "u8 list" where "kbd_hid = [9, 0x21, 1, 1, 0, 1, 0x22, 63, 0]"

lemma usb1_descs: "descriptors_at (mem usb1) 0x1000b0 [disk_ifc, disk_ep, kbd_ifc]"
  "parse_interfaces 2 [disk_ifc, disk_ep, kbd_ifc] = Some [(disk_ifc, [disk_ep]), (kbd_ifc, [])]"
proof -
  show "descriptors_at (mem usb1) 0x1000b0 [disk_ifc, disk_ep, kbd_ifc]"
    by (simp add: descriptors_at_def desc_ok_def is_interface_def is_endpoint_def disk_ifc_def disk_ep_def kbd_ifc_def
        BL_USB_DESCRIPTOR_TYPE_INTERFACE_def BL_USB_DESCRIPTOR_TYPE_ENDPOINT_def usb1_def mem_get_put_same)
  have "parse_interfaces (Suc (Suc 0)) [disk_ifc, disk_ep, kbd_ifc] = Some [(disk_ifc, [disk_ep]), (kbd_ifc, [])]"
    by (simp add: is_interface_def is_endpoint_def disk_ifc_def disk_ep_def kbd_ifc_def
        BL_USB_DESCRIPTOR_TYPE_INTERFACE_def BL_USB_DESCRIPTOR_TYPE_ENDPOINT_def)
  then show "parse_interfaces 2 [disk_ifc, disk_ep, kbd_ifc] = Some [(disk_ifc, [disk_ep]), (kbd_ifc, [])]"
    by (simp add: numeral_2_eq_2)
qed

text \<open>A bulk-only disk behind the controller: it answers the commands it is sent.\<close>

definition bbb_env :: "(nat \<Rightarrow> u8) \<Rightarrow> nat \<Rightarrow> bbb_phase usb_st usb_env" where
  "bbb_env D N = \<lparr>ue_funcs = (\<lambda>_. \<lparr>hc_port_connected = (\<lambda>_ _ s. Some (True, s)), hc_port_get_speed = (\<lambda>_ _ s. Some (0, s)),
     hc_port_reset = (\<lambda>_ _ s. Some s), hc_port_init = (\<lambda>_ _ _ s. Some (0, s)), hc_control = (\<lambda>_ _ _ _ _ data _ s. Some (data, s)),
     hc_bulk = (\<lambda>_ _ _ _ _ data n s. case usb_hw s of
         BBB_Idle \<Rightarrow> Some (data, s\<lparr>usb_hw := BBB_Data (take (unat (get8 data 14)) (drop 15 data))\<rparr>)
       | BBB_Data cdb \<Rightarrow> Some (if hd cdb = BL_SCSI_COMMAND_READ10 then disk_bytes D (512 * read10_lba cdb) (unat n)
           else if hd cdb = BL_SCSI_COMMAND_READ_CAPACITY10 then rev (to_le 4 (min (N - 1) (2 ^ 32 - 1))) @ rev (to_le 4 512)
           else data, s\<lparr>usb_hw := BBB_Status\<rparr>)
       | BBB_Status \<Rightarrow> Some (data, s\<lparr>usb_hw := BBB_Idle\<rparr>)), hc_interrupt = None, hc_check_status = None\<rparr>),
     ue_stack = (\<lambda>n. replicate n 0xff), ue_sleep = (\<lambda>_ s. s), ue_print = None\<rparr>"

lemma bbb_env_disk: "bulk_only_disk (bbb_env D N) device (\<lambda>ph s. usb_hw s = ph) D N"
  by (auto simp: bulk_only_disk_def bbb_env_def bl_usb_bulk_transfer_def funcs_of_def bbb_answer_def cbw_ok_def unat_of_nat
      BL_SCSI_COMMAND_READ10_def BL_SCSI_COMMAND_READ_CAPACITY10_def)

definition bbb0 :: "bbb_phase usb_st" where
  "bbb0 = \<lparr>mem = (\<lambda>_. 0), bl_heap = 0x100000, occupied_blocks = 0, free_blocks = 0, usb_hw = BBB_Idle, bl_usb_buses = 0,
     bl_usb_host_controllers = 0, bl_root_hubs = 0, usb_kbds = [], usb_disks = [], usb_bbb_tag = 0\<rparr>"

definition usb_stick :: device_info where
  "usb_stick = \<lparr>dev_type = BL_STORAGE_TYPE_USB_DRIVE, sector_size = 512, sector_count = 0, partitions = [], dev_data = 0x5000\<rparr>"


text \<open>A configuration space with one device of two functions, on ports that remember the address.\<close>

definition pci_toy :: pci_space where
  "pci_toy b d f r = (if b = 0 \<and> d = 1 \<and> (f = 0 \<or> f = 2) then (if r = 0x0e then 0x80 else 0) else 0xff)"

definition pci_byte :: "u32 \<Rightarrow> nat \<Rightarrow> u8" where
  "pci_byte a k = (let n = unat a in pci_toy (n div 2 ^ 16 mod 256) (n div 2 ^ 11 mod 32) (n div 2 ^ 8 mod 8) (4 * (n div 4 mod 64) + k))"

definition pci_toy_ports :: "(u32 \<times> bl_pci_index list) ports" where
  "pci_toy_ports = \<lparr>p_inb = (\<lambda>p s. (pci_byte (fst s) (unat (p - 0xcfc)), s)),
     p_inw = (\<lambda>p s. (ucast (pci_byte (fst s) (unat (p - 0xcfc))) OR push_bit 8 (ucast (pci_byte (fst s) (unat (p - 0xcfc) + 1))), s)),
     p_inl = (\<lambda>p s. (0, s)), p_outb = (\<lambda>v p s. s), p_outw = (\<lambda>v p s. s), p_outl = (\<lambda>v p s. (v, snd s))\<rparr>"


lemma pci_byte_at:
  assumes "b < 256" "d < 32" "f < 8" "r < 256" "k < 4"
  shows "pci_byte (cfg_addr b d f r) k = pci_toy b d f (4 * (r div 4) + k)"
proof -
  let ?n = "2 ^ 31 + 2 ^ 16 * b + 2 ^ 11 * d + 2 ^ 8 * f + r"
  have dm: "(x + m * y) div m = y" "(x + m * y) mod m = x" if "x < m" for x y m :: nat using that by simp_all
  have q: "?n = r + 2 ^ 8 * (f + 8 * (d + 32 * (b + 256 * 2 ^ 7)))" "?n = (r + 2 ^ 8 * f) + 2 ^ 11 * (d + 32 * (b + 256 * 2 ^ 7))"
      "?n = (r + 2 ^ 8 * f + 2 ^ 11 * d) + 2 ^ 16 * (b + 256 * 2 ^ 7)" "?n = r mod 4 + 4 * (r div 4 + 64 * (f + 8 * (d + 32 * (b + 256 * 2 ^ 7))))"
    by simp_all
  have 1: "?n div 2 ^ 8 = f + 8 * (d + 32 * (b + 256 * 2 ^ 7))" unfolding q(1) by (rule dm) (use assms in simp)
  have 2: "?n div 2 ^ 11 = d + 32 * (b + 256 * 2 ^ 7)" unfolding q(2) by (rule dm) (use assms in simp)
  have 3: "?n div 2 ^ 16 = b + 256 * 2 ^ 7" unfolding q(3) by (rule dm) (use assms in simp)
  have 4: "?n div 4 = r div 4 + 64 * (f + 8 * (d + 32 * (b + 256 * 2 ^ 7)))" unfolding q(4) by (rule dm) simp
  have "r div 4 < 64" using assms(4) by simp
  have "?n div 2 ^ 16 mod 256 = b" "?n div 2 ^ 11 mod 32 = d" "?n div 2 ^ 8 mod 8 = f" "?n div 4 mod 64 = r div 4"
    unfolding 1 2 3 4 by (rule dm(2), fact)+
  then show ?thesis unfolding pci_byte_def cfg_addr_sum [OF assms(1-4)] Let_def by (simp only:)
qed

lemma pci_toy_mechanism: "pci_mechanism pci_toy_ports snd pci_toy"
proof -
  have k: "unat (0xcfc + of_nat (r mod 4) - 0xcfc :: u16) = r mod 4" for r
  proof -
    have "r mod 4 < 2 ^ 16" by (rule less_trans [of _ 4]) simp_all
    then show ?thesis by (simp add: unsigned_of_nat take_bit_eq_mod)
  qed
  have e: "r mod 4 + 1 < 4" "4 * (r div 4) + (r mod 4 + 1) = r + 1" if "even r" for r :: nat using that by presburger+
  have n: "4 * (r div 4) + r mod 4 = r" for r :: nat by simp
  show ?thesis
    unfolding pci_mechanism_def Let_def pci_toy_ports_def BL_PCI_CONFIG_DATA_def BL_PCI_CONFIG_ADDRESS_def ports.simps fst_conv snd_conv k
    by (auto simp: pci_byte_at n e simp del: add_Suc_right One_nat_def)
qed

lemma pci_toy_devices: "pci_devices pci_toy = [pci_index 0 1 0, pci_index 0 1 2]"
proof -
  have p: "pci_present pci_toy b d f \<longleftrightarrow> b = 0 \<and> d = 1 \<and> (f = 0 \<or> f = 2)" for b d f
    by (simp add: pci_present_def cfg_word_def pci_toy_def)
  have "dev_functions pci_toy b d = (if b = 0 \<and> d = 1 then [0, 2] else [])" for b d
  proof (cases "b = 0 \<and> d = 1")
    case True
    then have "\<not> single_function pci_toy b d" by (simp add: single_function_def pci_toy_def)
    then show ?thesis using True by (simp add: dev_functions_def p upt_rec)
  next
    case False
    then have "\<not> pci_present pci_toy b d f" for f using p by blast
    then show ?thesis using False by (simp add: dev_functions_def)
  qed
  then have i: "dev_indices pci_toy b d = (if b = 0 \<and> d = 1 then [pci_index 0 1 0, pci_index 0 1 2] else [])" for b d
    by (simp add: dev_indices_def)
  have l: "concat (map (dev_indices pci_toy b) [0..<32]) = (if b = 0 then [pci_index 0 1 0, pci_index 0 1 2] else [])" for b
  proof -
    have "[0..<32] = 0 # 1 # [2..<32]" by (simp add: upt_conv_Cons numeral_2_eq_2)
    moreover have "map (dev_indices pci_toy b) [2..<32] = map (\<lambda>_. []) [2..<32]" by (rule map_cong) (auto simp: i)
    ultimately show ?thesis by (simp add: i)
  qed
  have "[0..<256] = 0 # [Suc 0..<256]" by (simp add: upt_conv_Cons)
  then show ?thesis unfolding pci_devices_def l by (auto simp: concat_eq_Nil_conv)
qed


text \<open>An ATA drive on the primary port: it is busy for two polls before each sector.\<close>

definition ata_toy_out :: "(nat \<Rightarrow> u8) \<Rightarrow> u8 \<Rightarrow> u16 \<Rightarrow> ata_view \<Rightarrow> ata_view" where
  "ata_toy_out D v p h = (if p = 0x1f7 then h\<lparr>ata_busy := 2, ata_words := disk_words D (512 * ata_lba28 (ata_reg h)) (256 * ata_count (ata_reg h))\<rparr>
     else h\<lparr>ata_reg := (ata_reg h)(unat (p - 0x1f0) := v)\<rparr>)"

definition ata_toy_env :: "(nat \<Rightarrow> u8) \<Rightarrow> ata_view pata_st pata_env" where
  "ata_toy_env D = \<lparr>pe_io = \<lparr>
       p_inb = (\<lambda>p s. (if ata_busy (pata_hw s) = 0 then 0x48 else 0x80, s\<lparr>pata_hw := (pata_hw s)\<lparr>ata_busy := ata_busy (pata_hw s) - 1\<rparr>\<rparr>)),
       p_inw = (\<lambda>p s. case ata_words (pata_hw s) of [] \<Rightarrow> (0, s)
         | w # ws \<Rightarrow> (w, s\<lparr>pata_hw := (pata_hw s)\<lparr>ata_words := ws, ata_busy := (if length ws mod 256 = 0 then 2 else 0)\<rparr>\<rparr>)),
       p_inl = (\<lambda>p s. (0, s)), p_outb = (\<lambda>v p s. s\<lparr>pata_hw := ata_toy_out D v p (pata_hw s)\<rparr>),
       p_outw = (\<lambda>v p s. s), p_outl = (\<lambda>v p s. s)\<rparr>,
     pe_sleep = (\<lambda>_ s. s), pe_stack = (\<lambda>n. replicate n 0), pe_print = None\<rparr>"

lemma ata_toy_drive: "ata_drive (ata_toy_env D) 0x1f0 id D"
proof -
  have r: "unat (of_nat r :: u16) = r" "(0x1f0 + of_nat r :: u16) \<noteq> 0x1f7" if "r \<le> 6" for r
  proof -
    show u: "unat (of_nat r :: u16) = r" using that by (simp add: unsigned_of_nat take_bit_eq_mod)
    have "(of_nat r :: u16) \<noteq> 7" using u that by auto
    moreover have "(0x1f0 + of_nat r = (0x1f0 + 7 :: u16)) = (of_nat r = (7 :: u16))" by (rule add_left_cancel)
    ultimately show "(0x1f0 + of_nat r :: u16) \<noteq> 0x1f7" by simp
  qed
  have hw: "\<exists>h. s\<lparr>pata_hw := x\<rparr> = s\<lparr>pata_hw := h\<rparr> \<and> P h" if "P x" for s :: "ata_view pata_st" and x P using that by blast
  show ?thesis
    unfolding ata_drive_def ata_toy_env_def
    by (intro conjI allI impI) (auto simp: ata_toy_out_def r BL_PATA_REG_STATUS_BSY_def BL_PATA_REG_STATUS_ERR_def intro!: hw)
qed

text \<open>A device record for drive 0 of the primary port at address 0x1000.\<close>

definition pata0 :: "ata_view pata_st" where
  "pata0 = \<lparr>mem = (\<lambda>_. 0)(0x1000 := 0xf0, 0x1001 := 1), bl_heap = 0, occupied_blocks = 0, free_blocks = 0,
     pata_hw = \<lparr>ata_reg = (\<lambda>_. 0), ata_words = [], ata_busy = 0\<rparr>, bl_pata_device_list = 0\<rparr>"

definition pata_disk :: device_info where
  "pata_disk = \<lparr>dev_type = BL_STORAGE_TYPE_HARD_DRIVE, sector_size = 512, sector_count = 0, partitions = [], dev_data = 0x1000\<rparr>"

text \<open>A screen of one glyph, 16 bits a pixel, and a shell window of one line on it.\<close>

definition tiny_info :: bl_video_info where
  "tiny_info = \<lparr>vi_width = 8, vi_height = 16, vi_pitch = 16, vi_frame_buffer = 0x1000, vi_video_memory_size = 256,
     vi_bits_per_pixel = 16, vi_bytes_per_pixel = 2, vi_red = \<lparr>cm_position = 11, cm_mask_size = 5\<rparr>,
     vi_green = \<lparr>cm_position = 5, cm_mask_size = 6\<rparr>, vi_blue = \<lparr>cm_position = 0, cm_mask_size = 5\<rparr>,
     vi_reserved = \<lparr>cm_position = 0, cm_mask_size = 0\<rparr>\<rparr>"

definition tiny_screen :: gui_st where
  "tiny_screen = \<lparr>mem = (\<lambda>_. 0), bl_heap = 0, occupied_blocks = 0, free_blocks = 0, fb_info = tiny_info, fb_renderer = 0,
     fb_dirty_x = BL_FB_INVALID_POS, fb_dirty_y = BL_FB_INVALID_POS, fb_dirty_w = BL_FB_INVALID_POS, fb_dirty_h = BL_FB_INVALID_POS,
     fb_double_buffer = 0x2000, bl_gui_app = None, gui_prepared = True, gui_output = True\<rparr>"



lemma tiny_geometry: "fb_geometry tiny_screen" "fb_geometry (tiny_screen\<lparr>bl_gui_app := g\<rparr>)"
proof -
  have "(8 :: u32) \<noteq> BL_FB_INVALID_POS" "(16 :: u32) \<noteq> BL_FB_INVALID_POS" by (simp_all add: BL_FB_INVALID_POS_def)
  then show "fb_geometry tiny_screen" "fb_geometry (tiny_screen\<lparr>bl_gui_app := g\<rparr>)"
    by (simp_all add: fb_geometry_def tiny_screen_def tiny_info_def buffer_ok_def fits_def apart_def)
qed

lemma tiny_inv: "fb_inv (tiny_screen\<lparr>bl_gui_app := g\<rparr>) {}"
  using tiny_geometry by (simp add: fb_inv_def dirty_ok_def dirty_none_def tiny_screen_def)

text \<open>A shell with its string constants and a line, on an empty heap.\<close>

definition shell_ports :: "'s ports" where
  "shell_ports = \<lparr>p_inb = (\<lambda>p s. (0xff, s)), p_inw = (\<lambda>p s. (0xffff, s)), p_inl = (\<lambda>p s. (0, s)), p_outb = (\<lambda>v p s. s), p_outw = (\<lambda>v p s. s), p_outl = (\<lambda>v p s. s)\<rparr>"

definition shell_names :: "addr list" where "shell_names = [0x200a, 0x200f, 0x2014, 0x201a, 0x2026, 0x202f]"

definition shell_env0 :: "shell_st shell_env" where
  "shell_env0 = \<lparr>se_arguments = 0x4000, se_delimiter = 0x2008, se_names = shell_names, se_helps = [0x2008, 0x2008, 0x2008, 0x2008, 0x2008, 0x2008],
     se_print = None, se_ports = shell_ports, se_usb_dump = Some\<rparr>"

definition shell_line :: "u8 list" where "shell_line = ascii ''false x''"

definition shell_data :: "u8 list" where
  "shell_data = shell_line @ [0, 0x20, 0] @ concat (map (\<lambda>n. n @ [0]) command_names)"

definition shell_mem :: mem where "shell_mem = mem_put (\<lambda>_. 0) 0x2000 shell_data"

lemma length_shell_data: "length shell_data = 56" by (simp add: shell_data_def shell_line_def command_names_def ascii_def)

lemma mem_get_block: "k + n \<le> length bs \<Longrightarrow> length bs \<le> 2 ^ 32 \<Longrightarrow> mem_get (mem_put m a bs) (a + of_nat k) n = take n (drop k bs)"
proof (rule nth_equalityI)
  fix i assume "k + n \<le> length bs" "length bs \<le> 2 ^ 32" "i < length (mem_get (mem_put m a bs) (a + of_nat k) n)"
  then show "mem_get (mem_put m a bs) (a + of_nat k) n ! i = take n (drop k bs) ! i"
    using mem_put_in [of "k + i" bs m a] by (simp add: add.assoc)
qed simp

lemma shell_mem_cstr: "k + Suc (length w) \<le> 56 \<Longrightarrow> 0 \<notin> set w \<Longrightarrow> take (Suc (length w)) (drop k shell_data) = w @ [0] \<Longrightarrow> cstr shell_mem (0x2000 + of_nat k) w"
  unfolding shell_mem_def cstr_mem_get by (subst mem_get_block) (simp_all add: length_shell_data)

lemma shell_mem_zero: "0x3000 \<le> unat x \<Longrightarrow> shell_mem x = 0"
  unfolding shell_mem_def by (subst mem_put_out) (simp_all add: length_shell_data unat_diff_wrap)

definition shell0 :: shell_st where
  "shell0 = \<lparr>mem = shell_mem, bl_heap = 0x100000, occupied_blocks = 0, free_blocks = 0, bl_strtok_str = 0, bl_last_result = 0,
     bl_argv = map (argument_addr 0x4000) [0..<4]\<rparr>"

definition shell1 :: shell_st where
  "shell1 = shell0\<lparr>occupied_blocks := 1, mem := mem_put ((st32 (st32 (st32 shell_mem 0x100000 0) 0x100004 BL_HEAP_BLOCK_HEAD_USED_MAGIC)
     0x100008 8)(0x100018 := 0)) 0x100010 (shell_line @ [0])\<rparr>"

lemma shell0_line: "cstr (mem shell0) 0x2000 shell_line"
  using shell_mem_cstr [of 0 shell_line] by (simp add: shell0_def shell_data_def shell_line_def ascii_def)

lemma shell0_copy: "bl_strndup 0x2000 (of_nat (length shell_line)) shell0 = Some (0x100010, shell1)"
proof -
  let ?m = "(st32 (st32 (st32 shell_mem 0x100000 0) 0x100004 BL_HEAP_BLOCK_HEAD_USED_MAGIC) 0x100008 8)(0x100018 := 0)"
  have l: "length shell_line = 7" by (simp add: shell_line_def ascii_def)
  have "bl_strlen (mem shell0) 0x2000 = Some 7" using bl_strlen_cstr [OF shell0_line] by (simp add: l)
  moreover have "mem_get ?m 0x2000 8 = shell_line @ [0]"
  proof -
    have "mem_get ?m 0x2000 8 = mem_get shell_mem 0x2000 8"
      by (rule mem_get_same) (auto simp: fits_def st32_def mem_put_out unat_diff_wrap)
    then show ?thesis using shell0_line by (simp add: shell0_def cstr_mem_get l)
  qed
  moreover from this have "bl_memcpy ?m 0x100010 0x2000 8 = (0x100010, mem_put ?m 0x100010 (shell_line @ [0]))"
    using bl_memcpy_correct [of "0x100010" "0x2000" 8 ?m] by (simp add: fits_def)
  moreover have "bl_heap_alloc shell0 8 = Some (0x100010, shell0\<lparr>occupied_blocks := 1,
      mem := st32 (st32 (st32 shell_mem 0x100000 0) 0x100004 BL_HEAP_BLOCK_HEAD_USED_MAGIC) 0x100008 8\<rparr>)"
    by (simp add: bl_heap_alloc_def bl_heap_alloc_align_def shell0_def sizeof_block_head_def)
  ultimately show ?thesis by (simp add: bl_strndup_def shell1_def l)
qed

lemma shell1_low: "unat x < 0x100000 \<Longrightarrow> mem shell1 x = shell_mem x"
proof -
  assume "unat x < 0x100000"
  moreover from this have "x \<noteq> 0x100018" by auto
  moreover have "length (shell_line @ [0]) = 8" by (simp add: shell_line_def ascii_def)
  ultimately show ?thesis by (simp add: shell1_def st32_def mem_put_out unat_diff_wrap del: length_append)
qed

lemma shell1_line: "cstr (mem shell1) 0x100010 shell_line" "mem shell1 (0x100010 + of_nat (length shell_line) + 1) = 0"
proof -
  have l: "length shell_line = 7" by (simp add: shell_line_def ascii_def)
  show "cstr (mem shell1) 0x100010 shell_line" using cstr_no_zero [OF shell0_line] by (simp add: cstr_mem_get shell1_def l mem_get_put_same)
  show "mem shell1 (0x100010 + of_nat (length shell_line) + 1) = 0" by (simp add: shell1_def l mem_put_out)
qed

lemma shell1_cstr: "cstr shell_mem p w \<Longrightarrow> unat p + Suc (length w) \<le> 0x100000 \<Longrightarrow> cstr (mem shell1) p w"
  by (rule cstr_same) (auto simp: fits_def shell1_low)

lemma shell_names_mem: "i < 6 \<Longrightarrow> cstr shell_mem (shell_names ! i) (command_names ! i)"
proof -
  define offs :: "nat list" where "offs = [10, 15, 20, 26, 38, 47]"
  assume "i < 6"
  then have i: "i \<in> set [0, 1, 2, 3, 4, 5]" by auto
  have "\<forall>i \<in> set [0, 1, 2, 3, 4, 5]. offs ! i + Suc (length (command_names ! i)) \<le> 56 \<and> 0 \<notin> set (command_names ! i) \<and>
      take (Suc (length (command_names ! i))) (drop (offs ! i) shell_data) = command_names ! i @ [0] \<and> shell_names ! i = 0x2000 + of_nat (offs ! i)"
    by (simp add: offs_def shell_names_def command_names_def shell_data_def shell_line_def ascii_def)
  with i show ?thesis using shell_mem_cstr [of "offs ! i" "command_names ! i"] by metis
qed

lemma shell1_static: "shell_static shell_env0 0x100010 (length shell_line + 2) (mem shell1)"
proof -
  have l: "length shell_line = 7" by (simp add: shell_line_def ascii_def)
  have d: "cstr shell_mem 0x2008 [0x20]" using shell_mem_cstr [of 8 "[0x20]"] by (simp add: shell_data_def l)
  have ln: "length shell_names = 6" "length command_names = 6" by (simp_all add: shell_names_def command_names_def)
  have z: "set (zip shell_names command_names) = (\<lambda>i. (shell_names ! i, command_names ! i)) ` {0..<6}"
    by (auto simp: set_zip ln)
  have n: "0x2000 \<le> unat (shell_names ! i)" "unat (shell_names ! i) < 0x2100" "length (command_names ! i) \<le> 32" if "i < 6" for i
  proof -
    have "i \<in> set [0, 1, 2, 3, 4, 5]" using that by auto
    moreover have "\<forall>i \<in> set [0, 1, 2, 3, 4, 5]. 0x2000 \<le> unat (shell_names ! i) \<and> unat (shell_names ! i) < 0x2100 \<and> length (command_names ! i) \<le> 32"
      by (simp add: shell_names_def command_names_def ascii_def)
    ultimately show "0x2000 \<le> unat (shell_names ! i)" "unat (shell_names ! i) < 0x2100" "length (command_names ! i) \<le> 32" by blast+
  qed
  have k: "p \<noteq> 0 \<and> cstr (mem shell1) p w \<and> fits p (Suc (length w)) \<and> apart 0x100010 9 p (Suc (length w)) \<and> apart 0x4000 132 p (Suc (length w))"
    if "cstr shell_mem p w" "0x2000 \<le> unat p" "unat p < 0x2100" "length w \<le> 32" for p w
    using that shell1_cstr [OF that(1)] by (auto simp: fits_def apart_def)
  have kd: "fits 0x100010 9" "apart 0x4000 132 0x100010 9" by (simp_all add: fits_def apart_def)
  have "\<forall>(p, w) \<in> set ((0x2008, [0x20]) # zip shell_names command_names).
      p \<noteq> 0 \<and> cstr (mem shell1) p w \<and> fits p (Suc (length w)) \<and> apart 0x100010 9 p (Suc (length w)) \<and> apart 0x4000 132 p (Suc (length w))"
    unfolding list.set z using k [OF d] k [OF shell_names_mem n] by auto
  then show ?thesis unfolding shell_static_def shell_env0_def shell_env.simps l using kd by (simp add: ln BL_COMMAND_TOTAL_def)
qed

lemma shell1_args: "args_ok (mem shell1) 0x4000 [[], [], [], []]"
proof -
  have f: "fits 0x4000 132" by (simp add: fits_def)
  have "mem shell1 (argument_addr 0x4000 j + of_nat k) = 0" if "j < 4" "k \<le> 32" for j k
    using slot_addr [OF f that] that shell1_low shell_mem_zero by simp
  note slots = this [of _ 0] this [of _ 32]
  have "[[], [], [], []] ! j = ([] :: u8 list)" if "j < 4" for j :: nat using that by (auto simp: numeral_eq_Suc less_Suc_eq)
  then show ?thesis using slots f by (simp add: args_ok_def)
qed






lemma ahci_no_hw [simp]: "(s :: unit ahci_st)\<lparr>ahci_hw := u\<rparr> = s"
  by (cases s) simp


text \<open>A UHCI controller that works through the queue in the first millisecond, and the driver's structures for it.\<close>

fun uhci_walk :: "nat \<Rightarrow> mem \<Rightarrow> addr \<Rightarrow> addr list" where
  "uhci_walk 0 m a = []"
| "uhci_walk (Suc n) m a = a # (if ld32 m a = 1 then [] else uhci_walk n m (ld32 m a AND NOT 0xf))"

definition descriptor_device :: "(usb_token \<times> u8 list) list \<Rightarrow> unit \<Rightarrow> u8 list \<times> unit" where
  "descriptor_device tr u = ([18, 1, 0, 2, 9, 0, 0, 8], ())"

definition uhci_toy :: "unit hci_st hci_env" where
  "uhci_toy = \<lparr>hi_io = shell_ports, hi_read8 = (\<lambda>a s. (0, s)), hi_read16 = (\<lambda>a s. (0, s)), hi_read = (\<lambda>a s. (0, s)), hi_write = (\<lambda>a v s. s),
     hi_sleep = (\<lambda>n s. case find (\<lambda>q. \<not> bit (ld32 (mem s) (qh_element_link_pointer (uhci_qh_at 0x2000 q))) 0) [0..<256] of None \<Rightarrow> s
       | Some q \<Rightarrow> let as = uhci_walk 1024 (mem s) (ld32 (mem s) (qh_element_link_pointer (uhci_qh_at 0x2000 q))); ps = map (uhci_packet (mem s)) as
           in s\<lparr>mem := uhci_done (\<lambda>_. 0) (fst (descriptor_device (transactions (mem s) ps) ())) (uhci_qh_at 0x2000 q) as ps (mem s)\<rparr>),
     hi_print = None, hi_funcs = 0x80, hi_setup = 0xc000, hi_data = 0xd000\<rparr>"

definition uhci_base :: mem where
  "uhci_base = mem_put (st32 (st32 (st32 (st32 (\<lambda>_. 0) 0x108 0x3000) 0x10c 0x2000) 0x228 0x100) 0x2ff4 1) 0xc000 [0x80, 6, 0, 1, 0, 0, 8, 0]"

definition uhci0 :: "unit hci_st" where
  "uhci0 = \<lparr>mem = uhci_structures 0x1000 0x2000 0x3000 uhci_base, bl_heap = 0x100000, occupied_blocks = 0, free_blocks = 0,
     usb_hw = \<lparr>uhci_list = 0x100, ohci_list = 0, ehci_list = 0, bl_xhci_list = 0, hci_dev = ()\<rparr>, bl_usb_buses = 0, bl_usb_host_controllers = 0x200,
     bl_root_hubs = 0, usb_kbds = [], usb_disks = [], usb_bbb_tag = 0\<rparr>"

lemma uhci_walk_chain:
  "uhci_chain m as \<Longrightarrow> length as \<le> n \<Longrightarrow> \<forall>a\<in>set as. 16 dvd unat a \<Longrightarrow> uhci_walk n m (hd as) = as"
proof (induction as arbitrary: n)
  case (Cons a as)
  obtain k where k: "n = Suc k" using Cons.prems(2) by (cases n) auto
  show ?case
  proof (cases as)
    case Nil
    then show ?thesis using Cons.prems(1) k by (simp add: uhci_chain_def)
  next
    case (Cons b bs)
    have l: "ld32 m a = b OR 4" using Cons.prems(1) Cons by (force simp: uhci_chain_def)
    have "bit (b OR (4 :: u32)) 2" by (simp add: bit_or_iff)
    then have "b OR 4 \<noteq> (1 :: u32)" by (auto simp: bit_1_iff)
    moreover have "(b OR 4) AND NOT 0xf = b" using link_to_td(1) [of b] Cons.prems(3) Cons by simp
    moreover have "uhci_chain m as" unfolding uhci_chain_def
    proof (intro conjI allI impI)
      show "ld32 m (as ! i) = as ! Suc i OR 4" if "Suc i < length as" for i
        using Cons.prems(1) that unfolding uhci_chain_def by (metis Suc_less_eq length_Cons nth_Cons_Suc)
    qed (use Cons.prems(1) Cons in \<open>simp_all add: uhci_chain_def\<close>)
    ultimately show ?thesis using Cons.IH [of k] Cons.prems(2,3) Cons k l by simp
  qed
qed (simp add: uhci_chain_def)

lemma hci_no_dev [simp]: "(h :: unit hci_hw)\<lparr>hci_dev := u\<rparr> = h"
  by (cases h) simp

lemma usb_hw_same [simp]: "s\<lparr>mem := m, usb_hw := usb_hw s\<rparr> = s\<lparr>mem := m\<rparr>"
  by simp

lemma uhci_toy_ok: "uhci_hc uhci_toy 0x1000 0x2000 (\<lambda>_. ()) descriptor_device"
  unfolding uhci_hc_def
proof (intro allI impI)
  fix s :: "unit hci_st" and q as ps
  assume a: "q < 256" "uhci_schedule 0x1000 0x2000 q (mem s)" "uhci_chain (mem s) as" "length as \<le> 1024" "\<forall>a\<in>set as. 16 dvd unat a"
    "ld32 (mem s) (qh_element_link_pointer (uhci_qh_at 0x2000 q)) = hd as" "map (uhci_packet (mem s)) as = ps"
  have "as \<noteq> []" using a(3) by (simp add: uhci_chain_def)
  then have b: "\<not> bit (hd as) 0" using a(5) aligned_bits [of "hd as" 0] by simp
  have "find (\<lambda>q. \<not> bit (ld32 (mem s) (qh_element_link_pointer (uhci_qh_at 0x2000 q))) 0) [0..<256] = Some q"
    unfolding find_Some_iff using a(1,2,6) b by (intro exI [of _ q]) (auto simp: uhci_schedule_def)
  then have "hi_sleep uhci_toy 1 s = s\<lparr>mem := uhci_done (\<lambda>_. 0) (fst (descriptor_device (transactions (mem s) ps) ())) (uhci_qh_at 0x2000 q) as ps (mem s)\<rparr>"
    using a(6,7) uhci_walk_chain [OF a(3-5)] by (simp add: uhci_toy_def Let_def)
  then show "\<exists>n\<le>98. (\<forall>k<n. \<not> bit (ld32 (mem ((hi_sleep uhci_toy 1 ^^ k) s)) (qh_element_link_pointer (uhci_qh_at 0x2000 q))) 0) \<and>
      (\<exists>f d. (hi_sleep uhci_toy 1 ^^ n) s = s\<lparr>mem := uhci_done f (fst (descriptor_device (transactions (mem s) ps) ())) (uhci_qh_at 0x2000 q) as ps (mem s),
        usb_hw := (usb_hw s)\<lparr>hci_dev := d\<rparr>\<rparr> \<and> () = snd (descriptor_device (transactions (mem s) ps) ()))"
    using a(6) b by (intro exI [of _ 1] conjI exI [of _ "\<lambda>_. 0"] exI [of _ "()"]) simp_all
qed

lemma uhci0_same: "off_range 0x1000 40960 x \<Longrightarrow> mem uhci0 x = uhci_base x"
  unfolding uhci0_def by (simp, rule structures_ok(6) [OF _ _ _ _ _ _ refl]) (auto simp: fits_def apart_def off_range_def)

lemma uhci0_words: "uh_tds (mem uhci0) 0x100 = 0x3000" "uh_qhs (mem uhci0) 0x100 = 0x2000" "hc_data (mem uhci0) 0x200 = 0x100"
proof -
  have "ld32 (mem uhci0) a = ld32 uhci_base a" if "a \<in> {0x108, 0x10c, 0x228}" for a
    by (rule ld_same(2)) (use that in \<open>auto simp: fits_def off_range_def intro!: uhci0_same\<close>)
  moreover have "ld32 uhci_base 0x108 = 0x3000" "ld32 uhci_base 0x10c = 0x2000" "ld32 uhci_base 0x228 = 0x100" by (simp_all add: uhci_base_def mem_eval)
  ultimately show "uh_tds (mem uhci0) 0x100 = 0x3000" "uh_qhs (mem uhci0) 0x100 = 0x2000" "hc_data (mem uhci0) 0x200 = 0x100"
    by (simp_all add: uh_tds_def uh_qhs_def hc_data_def)
qed

lemma uhci0_ready: "uhci_ready 0x100 0x1000 0x2000 0x3000 0xc000 0xd000 8 (mem uhci0)" "uhci_qh_flag 0x2000 (mem uhci0) 0 = 0" "card (uhci_free 0x3000 (mem uhci0)) = 1024"
proof -
  have m: "mem uhci0 = uhci_structures 0x1000 0x2000 0x3000 uhci_base" by (simp add: uhci0_def)
  have e: "ld32 uhci_base 0x2ff4 = 1" by (simp add: uhci_base_def mem_eval)
  have "bit (ld32 (mem uhci0) (qh_element_link_pointer (uhci_qh_at 0x2000 255))) 0"
    using structures_ok(4) [of "0x1000" "0x2000" "0x3000" "mem uhci0" uhci_base] m e
    by (simp add: fits_def apart_def qh_element_link_pointer_def uhci_qh_at_def desc_at_def sizeof_uhci_qh_def bit_0)
  moreover have "uhci_schedule 0x1000 0x2000 255 (mem uhci0)" using structures_ok(1) [of "0x1000" "0x2000" "0x3000" "mem uhci0" uhci_base] m by (simp add: fits_def apart_def)
  ultimately have "uhci_schedule 0x1000 0x2000 256 (mem uhci0)" unfolding uhci_schedule_def by metis
  then show "uhci_ready 0x100 0x1000 0x2000 0x3000 0xc000 0xd000 8 (mem uhci0)"
    by (simp add: uhci_ready_def fits_def apart_def uhci0_words)
  show "uhci_qh_flag 0x2000 (mem uhci0) 0 = 0" using structures_ok(3) [of "0x1000" "0x2000" "0x3000" "mem uhci0" uhci_base] m by (simp add: fits_def apart_def)
  have "uhci_free 0x3000 (mem uhci0) = {..<1024}"
    using structures_ok(2) [of "0x1000" "0x2000" "0x3000" "mem uhci0" uhci_base] m by (auto simp: uhci_free_def fits_def apart_def)
  then show "card (uhci_free 0x3000 (mem uhci0)) = 1024" by simp
qed

text \<open>The structures of an EHCI, an XHCI and an OHCI driver in an otherwise blank memory, and a device that answers nothing.\<close>

definition quiet_env :: "unit hci_st hci_env" where
  "quiet_env = \<lparr>hi_io = shell_ports, hi_read8 = (\<lambda>a s. (0, s)), hi_read16 = (\<lambda>a s. (0, s)), hi_read = (\<lambda>a s. (0, s)), hi_write = (\<lambda>a v s. s),
     hi_sleep = (\<lambda>n s. s), hi_print = None, hi_funcs = 0x80, hi_setup = 0xc000, hi_data = 0xd000\<rparr>"

definition hci_with :: "mem \<Rightarrow> unit hci_st" where
  "hci_with m = \<lparr>mem = m, bl_heap = 0x100000, occupied_blocks = 0, free_blocks = 0,
     usb_hw = \<lparr>uhci_list = 0, ohci_list = 0, ehci_list = 0, bl_xhci_list = 0, hci_dev = ()\<rparr>, bl_usb_buses = 0, bl_usb_host_controllers = 0x200,
     bl_root_hubs = 0, usb_kbds = [], usb_disks = [], usb_bbb_tag = 0\<rparr>"

text \<open>XHCI: controller 0x100, table of devices 0x400, device 5 at 0x800, its ring at 0x1000. OHCI: controller 0x100, endpoint descriptors 0x1000,
  transfer descriptors 0x4000.\<close>

definition xhci0 :: "unit hci_st" where
  "xhci0 = hci_with (mem_put (st32 (st32 (st32 (st32 (\<lambda>_. 0) 0x228 0x100) 0x138 0x400) 0x414 0x800) 0x804 0x1000) 0xc000 [0x80, 6, 0, 1, 0, 0, 8, 0])"


lemma hci_with_mem [simp]: "mem (hci_with m) = m"
  by (simp add: hci_with_def)

lemma xhci0_words: "hc_data (mem xhci0) 0x200 = 0x100" "xh_devices (mem xhci0) 0x100 = 0x400" "xh_device (mem xhci0) 0x100 5 = 0x800"
  "ld32 (mem xhci0) (xd_tr_enqueue 0x800 0) = 0x1000" "ld64 (mem xhci0) 0xc000 = 0x8000001000680"
proof -
  show "hc_data (mem xhci0) 0x200 = 0x100" "xh_devices (mem xhci0) 0x100 = 0x400" by (simp_all add: xhci0_def hc_data_def xh_devices_def mem_eval)
  then show "xh_device (mem xhci0) 0x100 5 = 0x800" by (simp add: xh_device_def) (simp add: xhci0_def mem_eval)
  show "ld32 (mem xhci0) (xd_tr_enqueue 0x800 0) = 0x1000" by (simp add: xhci0_def xd_tr_enqueue_def mem_eval)
  show "ld64 (mem xhci0) 0xc000 = 0x8000001000680" by (simp add: xhci0_def mem_eval)
qed





section \<open>The heap\<close>

text \<open>C1. Allocation refines first fit. On a heap whose memory holds the block list \<open>bs\<close>, and for a
  power-of-two alignment and a request that fits into the address space,
  \<open>bl_heap_alloc_align\<close> returns the address the abstract first-fit allocator returns, leaves a
  heap whose memory holds the abstract allocator's new block list, and changes neither the
  contents of any existing block nor the rest of the state.\<close>

theorem heap_alloc_refines_first_fit:
  assumes "heap_inv s bs" "k < 32" "heap_room (bl_heap s) (unat sz) (2 ^ k) bs"
  shows "\<exists>s'. bl_heap_alloc_align s sz (2 ^ k) = Some (fst (abs_alloc (bl_heap s) (unat sz) (2 ^ k) bs), s') \<and>
           heap_inv s' (snd (abs_alloc (bl_heap s) (unat sz) (2 ^ k) bs)) \<and>
           heap_st.more s' = heap_st.more s \<and> payload_kept s s' bs"
  by (rule alloc_align_refines [OF assms])

theorem heap_alloc_refines_first_fit_witness:
  "\<exists>s'. bl_heap_alloc_align heap1 100 32 = Some (0x100040, s') \<and>
     heap_inv s' [HBlock 0x100000 16 True, HBlock 0x100030 100 True]"
  using heap_alloc_refines_first_fit [OF heap1_inv, of 5 100]
  by (auto simp: heap_room_def abs_alloc_def fresh_data_def round_up_def hb_end_def)

text \<open>C2. Releasing a block of the list marks exactly that block free: the memory then holds the same
  block list with that block free, and no block's contents change.\<close>

theorem heap_free_marks_block:
  assumes "heap_inv s bs" "b \<in> set bs"
  shows "heap_inv (bl_heap_free s (hb_data b) sz) (set_used False (hb_addr b) bs) \<and>
         payload_kept s (bl_heap_free s (hb_data b) sz) bs"
  using free_refines [OF assms, of sz] by simp

theorem heap_free_marks_block_witness:
  "heap_inv (bl_heap_free heap1 0x100010 16) [HBlock 0x100000 16 False]"
  using heap_free_marks_block [OF heap1_inv, of "HBlock 0x100000 16 True" 16]
  by (simp add: set_used_def hb_data_def)



text \<open>C4. Alignment. A block served from a non-empty heap starts at a multiple of the requested
  alignment, and every block at a multiple of 16.\<close>

theorem heap_alloc_aligned:
  assumes "heap_inv s bs" "k < 32" "heap_room (bl_heap s) (unat sz) (2 ^ k) bs"
    and "bl_heap_alloc_align s sz (2 ^ k) = Some (a, s')"
  shows "16 dvd unat a \<and> (bs \<noteq> [] \<longrightarrow> 2 ^ k dvd unat a)"
proof -
  obtain t where t: "bl_heap_alloc_align s sz (2 ^ k) = Some (fst (abs_alloc (bl_heap s) (unat sz) (2 ^ k) bs), t)"
      "heap_inv t (snd (abs_alloc (bl_heap s) (unat sz) (2 ^ k) bs))"
    using alloc_align_refines [OF assms(1-3)] by blast
  then show ?thesis
    using assms(4) abs_alloc_aligned [OF _ assms(3,2)]
      abs_alloc_aligned16 [OF heap_inv_layout [OF t(2)] _ heap_inv_layout [OF assms(1)]] by auto
qed

theorem heap_alloc_aligned_witness:
  "\<exists>a s'. bl_heap_alloc_align heap1 100 (2 ^ 12) = Some (a, s') \<and> 4096 dvd unat a"
proof -
  have room: "heap_room (bl_heap heap1) (unat (100 :: u32)) (2 ^ 12) [HBlock 0x100000 16 True]"
    by (simp add: heap_room_def fresh_data_def round_up_def hb_end_def)
  obtain a s' where "bl_heap_alloc_align heap1 100 (2 ^ 12) = Some (a, s')"
    using alloc_align_refines [OF heap1_inv _ room] by auto
  then show ?thesis
    using heap_alloc_aligned [OF heap1_inv _ room, of a s'] by auto
qed

section \<open>The module loader\<close>







section \<open>Paths and file systems\<close>

text \<open>C8. Path iteration refines the walk over the path's components. For a file system whose callback
  and \<open>close\<close> keep the strings of the walk and whose callback answers as the look-up
  \<open>look\<close> does, \<open>bl_file_iterate_path\<close> returns: the status of the first component
  that fails and no node, or success and the directory data \<open>resolve\<close> ends at, where "." stays,
  ".." leaves a directory but the root, and any other name is looked up.\<close>

theorem path_iteration_resolves:
  assumes "cstr (mem s) path cs" "bl_strndup path (of_nat (length cs)) s = Some (copy, s1)"
    and "path_static ps path cs copy s1" "cstr (mem s1) copy cs" "mem s1 (copy + of_nat (length cs) + 1) = 0"
    and "fs_env I (path_regions ps path cs copy) close callback look" "I s1"
    and "node_apart (path_regions ps path cs copy) (fst root)"
  shows "\<exists>r fd s'. bl_file_iterate_path ps close path root callback s = Some (r, fd, s') \<and>
    (case resolve look (last cs = 0x2f) (tokens slash cs) [snd root] of
       Inl e \<Rightarrow> r = e \<and> failed e \<and> fd = None
     | Inr fs \<Rightarrow> r = BL_STATUS_SUCCESS \<and> fd = Some (hd fs))"
  by (rule iterate_path_resolves [OF assms])

theorem path_iteration_resolves_witness:
  "\<exists>s'. bl_file_iterate_path deep_strings deep_close 0x2000 (0x500000, 0) deep_callback tok2 = Some (BL_STATUS_SUCCESS, Some 2, s')"
proof -
  have t: "tokens slash deep_path = [[0x61], dotdot, [0x62], [0x63]]" 
    by (simp add: deep_path_def tokens.simps dotdot_def)
  have "fs_env (\<lambda>_. True) (path_regions deep_strings 0x2000 deep_path 0x100010) deep_close deep_callback deep_look"
    by (rule deep_env) (simp add: path_regions_def deep_strings_def deep_path_def fits_def)
  moreover have "node_apart (path_regions deep_strings 0x2000 deep_path 0x100010) 0x500000"
    by (simp add: node_apart_def path_regions_def deep_strings_def deep_path_def fits_def apart_def)
  ultimately show ?thesis
    using path_iteration_resolves [OF deep_cstr tok2_copy tok3_static tok3_cstr, of "\<lambda>_. True" deep_close deep_callback deep_look "(0x500000, 0)"]
    unfolding t by (auto simp: resolve_one_def dotdot_def dot_def deep_look_def)
qed

text \<open>C9. Successive calls of \<open>bl_strtok\<close> hand out exactly the maximal runs of non-delimiters of
  the string, in order, each as a C string, and then a null pointer; nothing before the string
  changes. The string needs one zero byte behind its terminator, which the tokenizer reads after
  the last token.\<close>

theorem strtok_yields_tokens:
  assumes "tok_inv s w d ds" "length w < n"
  shows "\<exists>qs s'. strtok_all n d s = Some (qs, s') \<and> list_all2 (cstr (mem s')) qs (tokens (\<lambda>c. c \<in> set ds) w) \<and>
    (\<forall>x. unat x < unat (bl_strtok_str s) \<longrightarrow> mem s' x = mem s x)"
  by (rule strtok_all_tokens [OF assms])

theorem strtok_yields_tokens_witness:
  "\<exists>qs s'. strtok_all 6 0x3000 tok0 = Some (qs, s') \<and> list_all2 (cstr (mem s')) qs [[0x61, 0x62], [0x63]]"
  using strtok_yields_tokens [OF tok0_inv, of 6] by (simp add: tokens.simps) blast



text \<open>C11. The look-up of a file in a directory whose index is one leaf returns a node and its data in
  live heap blocks, but the MFT record the data points to is no live block: the exit path has
  released it.\<close>

theorem ntfs_file_record_released:
  assumes "nf_dir fdata \<noteq> 0" "leaf_entries (mem s) (bl_ntfs_iroot_get_first_entry (mem s) (nf_iroot fdata)) es"
    and "find (\<lambda>x. bl_ntfs_strcmp (mem s) name (entry_data x) = 0) es = Some e" "e \<noteq> 0"
    and "disk_reads (nt_disk (nf_info fdata)) D" "heap_ok s (B + 2 * unat (nt_mft_record_size (nf_info fdata)) + 800) L"
    and "(p, k) \<in> L" "unat p \<le> unat (entry_data e + 56)" "unat (entry_data e + 56) + 4 \<le> unat p + k"
      "BL_NTFS_IS_DIRECTORY (mem s) (entry_data e) = 0"
  shows "\<exists>node fd s' L'. bl_ntfs_iterate_directory_callback env name False fdata s = Some (BL_STATUS_SUCCESS, Some (node, fd), s') \<and>
    heap_ok s' B L' \<and> L \<subseteq> L' \<and> (\<exists>j. (node, j) \<in> L') \<and> (\<exists>j. (nf_addr fd, j) \<in> L') \<and> nf_rootdir fd = False \<and>
    (\<forall>j. (nf_mft_record fd, j) \<notin> L')"
  by (rule callback_file [OF assms])

theorem ntfs_file_record_released_witness:
  "\<exists>node fd s' L'. bl_ntfs_iterate_directory_callback \<lparr>ne_paths = deep_strings, BL_NTFS_I30 = 0x3030, ne_print = None\<rparr> 0x2000 False (ntfs_dir (disk_of (\<lambda>_. 0))) tok1 =
       Some (BL_STATUS_SUCCESS, Some (node, fd), s') \<and> (\<exists>j. (node, j) \<in> L') \<and> (\<forall>j. (nf_mft_record fd, j) \<notin> L')"
proof -
  have d: "nf_dir (ntfs_dir (disk_of (\<lambda>_. 0))) \<noteq> 0" "nt_disk (nf_info (ntfs_dir d)) = d" "nf_iroot (ntfs_dir d) = 0x100010"
      "nt_mft_record_size (nf_info (ntfs_dir d)) = 1024" for d by (simp_all add: ntfs_dir_def)
  have f: "BL_NTFS_IS_DIRECTORY (mem tok1) (entry_data 0x100030) = 0"
    by (simp add: BL_NTFS_IS_DIRECTORY_def fname_flags_def entry_data_def tok1_def mem_eval)
  show ?thesis
    using ntfs_file_record_released [where fdata = "ntfs_dir (disk_of (\<lambda>_. 0))" and s = tok1 and e = "0x100030" and p = "0x100010" and k = 256,
        unfolded d, OF _ tok1_entries _ _ disk_of_reads tok1_ok _ _ _ f, of "0x2000" 0 "\<lparr>ne_paths = deep_strings, BL_NTFS_I30 = 0x3030, ne_print = None\<rparr>"] tok1_match d
    by (simp add: entry_data_def) blast
qed


text \<open>C13. \<open>bl_ext_get_inode\<close> reads the 128 bytes of the inode: those at the inode's index in its
  group times the inode size, behind the first block of the group's inode table, provided that the table's
  byte offset and the sector numbers fit 32 bits. Other live blocks keep their contents.\<close>

theorem ext_inode_read:
  assumes "disk_reads (ei_disk info) D" "heap_ok s (B + 1200) L" "(buf, k) \<in> L" "128 \<le> k"
    and "ei_inodes_per_group info \<noteq> 0" "it = group_inode_table (mem s) (ei_groups info) ((n - 1) div ei_inodes_per_group info)"
    and "ext_block_fits info it"
    and "o' = unat (ei_inode_size info) * (unat (n - 1) mod unat (ei_inodes_per_group info))" "o' < 2 ^ 32"
      "unat (bl_ext_block_to_lba info it) + o' div 512 < 2 ^ 32"
  shows "\<exists>s'. bl_ext_get_inode info n buf s = Some (BL_STATUS_SUCCESS, s') \<and> heap_ok s' B L \<and>
    mem_get (mem s') buf 128 = disk_bytes D (512 * unat (ei_lba info) + unat it * unat (ei_block_size info) + o') 128 \<and>
    (\<forall>(b, j) \<in> L. b \<noteq> buf \<longrightarrow> mem_get (mem s') b j = mem_get (mem s) b j)"
  by (rule get_inode_ok [OF assms])

theorem ext_inode_read_witness:
  "\<exists>s'. bl_ext_get_inode (ext_info0 (disk_of of_nat)) 13 0x100010 tok1 = Some (BL_STATUS_SUCCESS, s') \<and>
     mem_get (mem s') 0x100010 128 = disk_bytes of_nat 54272 128"
proof -
  have i: "ei_disk (ext_info0 d) = d" "ei_inodes_per_group (ext_info0 d) = 32" "ei_groups (ext_info0 d) = 0x100010"
      "ei_inode_size (ext_info0 d) = 128" "ei_lba (ext_info0 d) = 63" "ei_block_size (ext_info0 d) = 4096"
    for d :: "'a tok_st_ext device" by (simp_all add: ext_info0_def)
  have g: "5 = group_inode_table (mem tok1) 0x100010 0"
    by (simp add: group_inode_table_def tok1_def mem_eval)
  have f: "ext_block_fits (ext_info0 (disk_of of_nat)) 5" by (simp add: ext_block_fits_def i)
  show ?thesis
    using ext_inode_read [where info = "ext_info0 (disk_of of_nat)" and n = 13 and it = 5 and o' = 1536 and k = 256,
        unfolded i, OF disk_of_reads tok1_ok, of 0 "0x100010"] g f
    by (simp add: bl_ext_block_to_lba_def i BL_STORAGE_SECTOR_SIZE_def) blast
qed



section \<open>Storage\<close>

text \<open>C15. \<open>bl_storage_device_read\<close> reads whole sectors into a heap block and hands out exactly the bytes
  of the disk at the start sector and byte offset, for any offset and size that do not overflow 32 bits;
  its buffer is released and the other live blocks keep their contents.\<close>

theorem storage_read_returns_disk_bytes:
  assumes "disk_reads disk D" "heap_ok s (B + unat off + unat sz + 560) L" "unat off + unat sz + 512 \<le> 2 ^ 32"
  shows "\<exists>s'. bl_storage_device_read disk start sz off s =
      Some (BL_STATUS_SUCCESS, disk_bytes D (512 * unat start + unat off) (unat sz), s') \<and>
    heap_ok s' B L \<and> (\<forall>(b, k) \<in> L. mem_get (mem s') b k = mem_get (mem s) b k)"
  using storage_device_read_ok [OF assms] by blast

theorem storage_read_returns_disk_bytes_witness:
  "\<exists>s'. bl_storage_device_read (disk_of (\<lambda>i. of_nat (i mod 7))) 1 4 510 heap0 = Some (BL_STATUS_SUCCESS, [0, 1, 2, 3], s')"
  using storage_read_returns_disk_bytes [OF disk_of_reads heap0_room, of 0 510 4 "\<lambda>i. of_nat (i mod 7)" 1]
  by (auto simp: disk_bytes_def upt_rec)

text \<open>C16. The MBR reader adds to the disk exactly the used entries of a signed master boot record, the last entry
  first, with the start and the length of the record, and refuses a sector without the signature.\<close>

theorem mbr_partitions_found:
  assumes "disk_reads disk D" "heap_ok s (B + 1344) L"
  shows "\<exists>s' L'. bl_mbr_iterate disk s =
      (if mbr_signature (disk_bytes D 0 512) \<noteq> BL_MBR_SIGNATURE then Some (BL_STATUS_UNSUPPORTED, disk, s')
       else Some (BL_STATUS_SUCCESS, with_partitions disk
         (rev (map mbr_partition (filter mbr_used (map (mbr_entry (disk_bytes D 0 512)) [0, 1, 2, 3])))), s')) \<and>
      heap_ok s' B L' \<and> L \<subseteq> L'"
  using mbr_iterate_ok [OF assms] by blast

theorem mbr_partitions_found_witness:
  "\<exists>d s'. bl_mbr_iterate (disk_of mbr_disk) heap0 = Some (BL_STATUS_SUCCESS, d, s') \<and>
     partitions (fst d) = [\<lparr>lba = 68, sectors_n = 9\<rparr>, \<lparr>lba = 63, sectors_n = 5\<rparr>]"
proof -
  have e: "mbr_signature (disk_bytes mbr_disk 0 512) = BL_MBR_SIGNATURE" 
    by (simp add: mbr_signature_def BL_MBR_SIGNATURE_def disk_eval mbr_disk_def)
  have p: "map mbr_partition (filter mbr_used (map (mbr_entry (disk_bytes mbr_disk 0 512)) [0, 1, 2, 3])) =
      [\<lparr>lba = 63, sectors_n = 5\<rparr>, \<lparr>lba = 68, sectors_n = 9\<rparr>]"
    by (simp add: mbr_entry_def disk_eval mbr_disk_def mbr_used_def BL_MBR_PARTITION_TYPE_NONE_def mbr_partition_def)
  from mbr_partitions_found [OF disk_of_reads heap0_room, of 0 mbr_disk] show ?thesis
    unfolding e p by (auto simp: with_partitions_def disk_of_def)
qed

text \<open>C17. The GPT reader adds exactly the used entries of the partition array of a disk with a protective
  MBR entry and a signed header, the last entry first, at their first sector; the number of sectors it gives
  is the last sector minus the first, one less than the entry spans.\<close>

theorem gpt_partitions_found:
  assumes "disk_reads disk D" "mbr_signature (disk_bytes D 0 512) = BL_MBR_SIGNATURE"
    "\<exists>i \<in> {0, 1, 2, 3}. partition_type (mbr_entry (disk_bytes D 0 512) i) = BL_MBR_PARTITION_TYPE_GPT_DISK"
    and "gpt = rd_gpt_header (disk_bytes D 512 92)" "gpt_signature gpt = BL_GPT_SIGNATURE" "n = unat (partitions_count gpt)"
    "heap_ok s (B + 1268 * n + 1724) L" "unat (partitions_lba gpt) + n * unat (partition_entry_size gpt) < 2 ^ 64"
  shows "\<exists>s' L'. bl_gpt_iterate disk s = Some (BL_STATUS_SUCCESS,
      with_partitions disk (rev (map gpt_partition (filter gpt_used (gpt_entries D gpt n 0)))), s') \<and>
      heap_ok s' B L' \<and> L \<subseteq> L'"
  using gpt_iterate_ok [OF assms(1-3), of s B L] assms(4-8) by blast

theorem gpt_partitions_found_witness:
  "\<exists>d s'. bl_gpt_iterate (disk_of gpt_disk) heap0 = Some (BL_STATUS_SUCCESS, d, s') \<and>
     partitions (fst d) = [\<lparr>lba = 34, sectors_n = 65\<rparr>]"
proof -
  have e: "mbr_signature (disk_bytes gpt_disk 0 512) = BL_MBR_SIGNATURE"
      "partition_type (mbr_entry (disk_bytes gpt_disk 0 512) 0) = BL_MBR_PARTITION_TYPE_GPT_DISK"
    by (simp_all add: mbr_signature_def BL_MBR_SIGNATURE_def mbr_entry_def BL_MBR_PARTITION_TYPE_GPT_DISK_def disk_eval gpt_disk_def)
  have p: "gpt_partition (rd_gpt_entry (disk_bytes gpt_disk 1024 128)) = \<lparr>lba = 34, sectors_n = 65\<rparr>"
    by (simp add: gpt_partition_def rd_gpt_entry_def disk_eval gpt_disk_def)
  from gpt_partitions_found [OF disk_of_reads e(1) _ refl _ _ heap0_room, of 1 0] e(2) gpt_disk_entries p show ?thesis
    by (auto simp: with_partitions_def disk_of_def gpt_disk_header)
qed

section \<open>PCI and PATA\<close>

text \<open>C18. The iteration over the PCI bus returns and calls the hook once for each function that is present, in the order of bus, device and
  function: function 0 of a device and, if its header type says that it has several, the others.\<close>

theorem pci_functions_enumerated:
  assumes "pci_mechanism io obs cfg" "hook_does hook obs h"
  shows "(\<exists>s'. bl_pci_iterate_devices io cb (Some hook) s = Some s' \<and> obs s' = fold h (pci_devices cfg) (obs s)) \<and>
    (b < 256 \<longrightarrow> d < 32 \<longrightarrow> f < 8 \<longrightarrow>
      (pci_index b d f \<in> set (pci_devices cfg) \<longleftrightarrow> pci_present cfg b d f \<and> (f = 0 \<or> \<not> single_function cfg b d)))"
  using iterate_devices_ok [OF assms, of cb s] pci_devices_mem [of b d f cfg] by simp

theorem pci_functions_enumerated_witness:
  "\<exists>a. bl_pci_iterate_devices pci_toy_ports None (Some (\<lambda>i s. Some (BL_STATUS_FAILURE, fst s, snd s @ [i]))) (0, []) =
     Some (a, [pci_index 0 1 0, pci_index 0 1 2])"
proof -
  have "hook_does (\<lambda>i s. Some (BL_STATUS_FAILURE, fst s, snd s @ [i])) snd (\<lambda>i l. l @ [i])" by (simp add: hook_does_def)
  from pci_functions_enumerated [OF pci_toy_mechanism this, of None "(0, [])" 0 1 0] show ?thesis
    by (auto simp: pci_toy_devices)
qed

text \<open>C19. On an ATA drive that keeps the register protocol, a read of up to 256 sectors succeeds and returns the bytes of the disk from the
  sector on that the low 24 bits of the block number name: the driver sends the 48-bit address with the 28-bit
  command, so that block 2^24 reads block 0.\<close>

theorem pata_read_returns_sectors:
  assumes "ata_drive env base view D" "pd_io (mem s) (dev_data disk) = base" "pd_type (mem s) (dev_data disk) = 0"
    "ata_words (view (pata_hw s)) = []" "0 < n" "unat n \<le> 256" "length buf = 512 * unat n"
  shows "\<exists>h. bl_pata_read env disk buf l n s =
      (BL_STATUS_SUCCESS, disk_bytes D (512 * (unat l mod 2 ^ 24)) (512 * unat n), s\<lparr>pata_hw := h\<rparr>) \<and> ata_words (view h) = []"
  using pata_read_ok [OF assms] .

theorem pata_read_returns_sectors_witness:
  "\<exists>s'. bl_pata_read (ata_toy_env of_nat) pata_disk (replicate 1024 0) (2 ^ 24 + 3) 2 pata0 =
     (BL_STATUS_SUCCESS, disk_bytes of_nat 1536 1024, s')"
proof -
  have "pd_io (mem pata0) (dev_data pata_disk) = 0x1f0" "pd_type (mem pata0) (dev_data pata_disk) = 0"
    by (simp_all add: pata0_def pata_disk_def pd_io_def pd_type_def mem_eval)
  from pata_read_returns_sectors [OF ata_toy_drive [of of_nat] this, of 2 "replicate 1024 0" "2 ^ 24 + 3"] show ?thesis
    by (auto simp: pata0_def)
qed



section \<open>USB\<close>

text \<open>C21. A fresh traversal lies in a live heap block, and every sequence of pushes and pops on it answers as a queue does, first in
  first out, that takes no more than 126 pushes in all: later ones are dropped without a word, and a pop of the
  empty queue gives a null pointer.\<close>

theorem usb_traversal_is_bounded_queue:
  assumes "heap_ok s (B + 564) L"
  shows "\<exists>t k s'. bl_usb_traversal_init s = Some (t, s') \<and> heap_ok s' B (insert (t, k) L) \<and> 516 \<le> k \<and>
    (\<forall>ops. fst (traversal_run t ops (mem s')) = queue_run ops [] 0)"
  using traversal_init_ok [OF assms] traversal_run_ok by blast

theorem usb_traversal_is_bounded_queue_witness:
  "\<exists>t s'. bl_usb_traversal_init heap0 = Some (t, s') \<and>
    fst (traversal_run t [Tr_Push 8, Tr_Push 9, Tr_Pop, Tr_Push 7, Tr_Pop, Tr_Pop, Tr_Pop] (mem s')) = [8, 9, 7, 0]"
proof -
  have "heap_ok heap0 (0 + 564) {}" using heap0_room [of 564] by simp
  from usb_traversal_is_bounded_queue [OF this] obtain t s' where "bl_usb_traversal_init heap0 = Some (t, s')"
      "\<And>ops. fst (traversal_run t ops (mem s')) = queue_run ops [] 0" by blast
  moreover have "queue_run [Tr_Push 8, Tr_Push 9, Tr_Pop, Tr_Push 7, Tr_Pop, Tr_Pop, Tr_Pop] [] 0 = [8, 9, 7, 0]" by simp
  ultimately show ?thesis by metis
qed

text \<open>C22. On well-formed descriptors the identification loop returns and stores each interface's descriptor in the array and its
  endpoints, as many as the descriptor says and whatever class-specific descriptors lie between, in a live
  block of its own; no other live block changes. The array must have room for the interfaces at 16 bytes each.\<close>

theorem usb_interfaces_parsed:
  assumes "heap_ok s (Suc B + endpoint_rooms ifs) L" "(device, kd) \<in> L" "48 \<le> kd" "(arr, ka) \<in> L" "(config_data, kc) \<in> L"
    and "arr \<noteq> device" "arr \<noteq> config_data" "dev_interfaces (mem s) device = arr" "16 * n \<le> ka"
    and "descriptors_at (mem s) (config_data + off) ds" "parse_interfaces n ds = Some ifs" "unat off + length (concat ds) \<le> kc"
  shows "\<exists>s' L'. interfaces_loop device config_data n 0 off s = Some (True, s') \<and> heap_ok s' (Suc B) L' \<and> L \<subseteq> L' \<and>
    (\<forall>(b, j) \<in> L. b \<noteq> arr \<longrightarrow> mem_get (mem s') b j = mem_get (mem s) b j) \<and>
    (\<forall>x < n. interface_in L' (mem s') (interface_at (mem s) device (of_nat x)) (ifs ! x))"
proof -
  have "16 * (0 + n) \<le> ka" using assms(9) by simp
  from interfaces_loop_ok [OF assms(1-8) this assms(10-12)] obtain s' L' where
    "interfaces_loop device config_data n 0 off s = Some (True, s')" "heap_ok s' (Suc B) L'" "L \<subseteq> L'"
    "\<forall>(b, j) \<in> L. b \<noteq> arr \<longrightarrow> mem_get (mem s') b j = mem_get (mem s) b j"
    "\<forall>x < n. interface_in L' (mem s') (arr + of_nat (16 * (0 + x))) (ifs ! x)" by auto
  then show ?thesis by (intro exI [of _ s'] exI [of _ L']) (simp add: interface_at_def assms(8))
qed

theorem usb_interfaces_parsed_witness:
  "\<exists>s' L'. interfaces_loop 0x100010 0x1000b0 2 0 0 usb1 = Some (True, s') \<and>
    interface_in L' (mem s') 0x100080 (disk_ifc, [disk_ep]) \<and> interface_in L' (mem s') 0x100090 (kbd_ifc, [])"
proof -
  let ?L = "{(0x100010, 96), (0x100080, 32), (0x1000b0, 64)}"
  have "heap_ok usb1 (Suc 0 + endpoint_rooms [(disk_ifc, [disk_ep]), (kbd_ifc, [])]) ?L"
    by (rule usb1_ok) (simp add: endpoint_rooms_def)
  moreover have d: "dev_interfaces (mem usb1) 0x100010 = 0x100080" by (simp add: dev_interfaces_def usb1_def mem_eval)
  moreover have "descriptors_at (mem usb1) (0x1000b0 + 0) [disk_ifc, disk_ep, kbd_ifc]" using usb1_descs(1) by simp
  moreover have "unat (0 :: u32) + length (concat [disk_ifc, disk_ep, kbd_ifc]) \<le> 64" by (simp add: disk_ifc_def disk_ep_def kbd_ifc_def)
  ultimately obtain s' L' where "interfaces_loop 0x100010 0x1000b0 2 0 0 usb1 = Some (True, s')"
      "\<forall>x < 2. interface_in L' (mem s') (interface_at (mem usb1) 0x100010 (of_nat x)) ([(disk_ifc, [disk_ep]), (kbd_ifc, [])] ! x)"
    using usb_interfaces_parsed [of usb1 0 "[(disk_ifc, [disk_ep]), (kbd_ifc, [])]" ?L "0x100010" 96 "0x100080" 32 "0x1000b0" 64 2 0
        "[disk_ifc, disk_ep, kbd_ifc]"] usb1_descs(2) by auto
  moreover from this(2) have "interface_in L' (mem s') 0x100080 (disk_ifc, [disk_ep])" "interface_in L' (mem s') 0x100090 (kbd_ifc, [])"
    by (auto simp: interface_at_def d dest: spec [of _ "0 :: nat"] spec [of _ "1 :: nat"])
  ultimately show ?thesis by blast
qed

text \<open>C23. Reading the HID descriptor of a keyboard succeeds, stores it in the device and releases the buffer
  if the first interface of the configuration is the keyboard's; if it is not, the function does not return, since the search does
  not step over an interface.\<close>

theorem usb_hid_info_read_or_hangs:
  assumes "config_read env device (concat (config # ds))" "heap_ok s (Suc B + n + 48) L"
    and "n = length (concat (config # ds))" "n < 2 ^ 16" "(device, kd) \<in> L" "88 \<le> kd"
    and "cd_total_length (mem s) (dev_config device) = of_nat n" "mem s (dev_config device) = of_nat (length config)"
    and "(arr, ka) \<in> L" "arr \<noteq> device" "dev_interfaces (mem s) device = arr" "ld32 (mem s) (dev_specific device) = of_nat i"
    and "16 * Suc i \<le> ka" "id_interface_number (mem s) (arr + of_nat (16 * i)) = num"
    and "\<forall>d \<in> set (config # ds). desc_ok d" "dropWhile (\<lambda>d. \<not> is_interface d) ds = d # ds'"
    and "dropWhile (\<lambda>d. \<not> is_hid d) ds' = hid # rest" "9 \<le> length hid"
  shows "if d ! 2 = num
    then \<exists>s'. bl_usb_get_hid_info env device s = Some (BL_STATUS_SUCCESS, s') \<and> heap_ok s' (Suc B) L \<and>
      mem_get (mem s') (dev_specific device + 4) 9 = take 9 hid
    else bl_usb_get_hid_info env device s = None"
  by (rule get_hid_info_ok [OF assms])

theorem usb_hid_info_read_or_hangs_witness:
  "bl_usb_get_hid_info (usb_reading ([9, 2, 36, 0, 2, 1, 0, 0, 0] @ disk_ifc @ kbd_ifc @ kbd_hid)) 0x100010 usb1 = None"
proof -
  let ?L = "{(0x100010, 96), (0x100080, 32), (0x1000b0, 64)}" and ?config = "[9, 2, 36, 0, 2, 1, 0, 0, 0] :: u8 list"
  let ?ds = "[disk_ifc, kbd_ifc, kbd_hid]"
  note d = disk_ifc_def kbd_ifc_def kbd_hid_def is_interface_def is_endpoint_def is_hid_def desc_ok_def
    BL_USB_DESCRIPTOR_TYPE_INTERFACE_def BL_USB_DESCRIPTOR_TYPE_ENDPOINT_def BL_USB_DESCRIPTOR_TYPE_HID_def
  have cr: "config_read (usb_reading cs) 0x100010 cs" for cs
    by (simp add: config_read_def bl_usb_control_transfer_def usb_reading_def funcs_of_def)
  have 1: "heap_ok usb1 (Suc 0 + 36 + 48) ?L" by (rule usb1_ok) simp
  have 2: "cd_total_length (mem usb1) (dev_config 0x100010) = of_nat 36" "mem usb1 (dev_config 0x100010) = of_nat (length ?config)"
    "dev_interfaces (mem usb1) 0x100010 = 0x100080" "ld32 (mem usb1) (dev_specific 0x100010) = of_nat 0"
    "id_interface_number (mem usb1) (0x100080 + of_nat (16 * 0)) = 1"
    by (simp_all add: cd_total_length_def dev_config_def dev_interfaces_def dev_specific_def id_interface_number_def usb1_def mem_eval)
  have 3: "36 = length (concat (?config # ?ds))" "\<forall>d \<in> set (?config # ?ds). desc_ok d"
    "dropWhile (\<lambda>d. \<not> is_interface d) ?ds = disk_ifc # [kbd_ifc, kbd_hid]"
    "dropWhile (\<lambda>d. \<not> is_hid d) [kbd_ifc, kbd_hid] = kbd_hid # []" "9 \<le> length kbd_hid" "disk_ifc ! 2 \<noteq> 1"
    by (simp_all add: d)
  show ?thesis
    using usb_hid_info_read_or_hangs [OF cr 1 3(1) _ _ _ 2(1,2) _ _ 2(3,4) _ 2(5) 3(2-5), of 96 32] 3(6) by simp
qed



text \<open>C25. On a UHCI controller that works through the queue it finds in memory, a control transfer succeeds: the device sees exactly the transactions the USB
  specification asks for (the set-up packet, the data in packets of the maximal size with alternating toggles, the status stage in the other direction), the
  buffer holds what the device sent, and every queue head and transfer descriptor is free again, the schedule ready for the next transfer.\<close>

theorem uhci_control_transfer_completes:
  assumes "uhci_hc env frames qhs view dev" "uhci_ready (hc_data (mem s) hc) frames qhs tds setup data (unat len) (mem s)"
    "packet = (if packet_size = 0 then 8 else unat packet_size)" "packet \<le> 1280" "unat address < 128" "unat len < 2 ^ 31"
    "\<exists>i<256. uhci_qh_flag qhs (mem s) i = 0" "packet_count packet (unat len) + 2 \<le> card (uhci_free tds (mem s))"
    "is_in = bit (mem s setup) 7"
    "answer = dev (transactions (mem s) (control_packets is_in (unat address) (speed = BL_USB_LOW_SPEED) packet setup data (unat len))) (view (hci_dev (usb_hw s)))"
    "length (fst answer) = (if is_in then unat len else 0)"
  shows "\<exists>s'. bl_uhci_control_transfer env hc packet_size address speed setup data len s = Some (BL_STATUS_SUCCESS, s') \<and>
    view (hci_dev (usb_hw s')) = snd answer \<and> mem_get (mem s') data (unat len) = (if is_in then fst answer else mem_get (mem s) data (unat len)) \<and>
    uhci_ready (hc_data (mem s) hc) frames qhs tds setup data (unat len) (mem s') \<and>
    (\<forall>i<1024. uhci_td_flag tds (mem s') i = uhci_td_flag tds (mem s) i) \<and> (\<forall>i<256. uhci_qh_flag qhs (mem s') i = uhci_qh_flag qhs (mem s) i)"
  by (rule uhci_control_ok [OF assms(1,2) refl assms(3-8) refl assms(9-11)])

theorem uhci_control_transfer_completes_witness:
  "\<exists>s'. bl_uhci_control_transfer uhci_toy 0x200 8 0 BL_USB_FULL_SPEED 0xc000 0xd000 8 uhci0 = Some (BL_STATUS_SUCCESS, s') \<and>
     mem_get (mem s') 0xd000 8 = [18, 1, 0, 2, 9, 0, 0, 8]"
proof -
  have "mem uhci0 0xc000 = uhci_base 0xc000" by (rule uhci0_same) (simp add: off_range_def)
  then have b: "bit (mem uhci0 0xc000) 7" by (simp add: uhci_base_def mem_eval bit_iff_odd)
  have f: "\<exists>i<256. uhci_qh_flag 0x2000 (mem uhci0) i = 0" using uhci0_ready(2) by (intro exI [of _ 0]) simp
  have p: "packet_count 8 (unat (8 :: u32)) + 2 \<le> card (uhci_free 0x3000 (mem uhci0))" unfolding uhci0_ready(3) by (simp add: packet_count_def)
  have r: "uhci_ready (hc_data (mem uhci0) 0x200) 0x1000 0x2000 0x3000 0xc000 0xd000 (unat (8 :: u32)) (mem uhci0)"
    using uhci0_ready(1) by (simp add: uhci0_words)
  show ?thesis
    using uhci_control_transfer_completes [OF uhci_toy_ok r _ _ _ _ f p, where packet_size = 8 and address = 0 and speed = BL_USB_FULL_SPEED and is_in = True, OF _ _ _ _ _ refl] b
    by (auto simp: descriptor_device_def)
qed





text \<open>C28. A control transfer of the XHCI driver puts the set-up request with the eight bytes of the request in it, a data request for every packet and the status request one after the other into the ring of
  endpoint 0, moves the enqueue pointer behind them, changes nothing else in memory, rings the doorbell of the slot, and reports a success whatever the events say.\<close>

theorem xhci_control_requests_queued:
  assumes "xhci_room (mem s) (hc_data (mem s) hc) address d t N"
    "packet = (if packet_size = 0 then unat (ld16 (mem s) (ec_max_packet_size (ic_ep_context0 (xd_ic (mem s) d)))) else unat packet_size)"
    "0 < packet" "packet < 2 ^ 17" "unat len + packet < 2 ^ 31" "packet_count packet (unat len) + 2 \<le> N"
  shows "\<exists>m'. bl_xhci_control_transfer env stale hc packet_size address speed request data len s =
      Some (BL_STATUS_SUCCESS, snd (xhci_event_loop env (hc_data (mem s) hc) 19
        (hi_write env (xh_db_regs (mem s) (hc_data (mem s) hc) + 4 * xd_slot_id (mem s) d) 1 (s\<lparr>mem := m'\<rparr>)))) \<and>
    xhci_queued d t N (mem s) m' (control_requests (\<lambda>i. stale i s) packet (ld64 (mem s) request) data (unat len))"
  by (rule xhci_control_ok [OF assms(1) refl assms(2-4) refl assms(5,6)])

theorem xhci_control_requests_queued_witness:
  "\<exists>m'. bl_xhci_control_transfer quiet_env (\<lambda>_ _. 0) 0x200 8 5 BL_USB_FULL_SPEED 0xc000 0xd000 8 xhci0 =
      Some (BL_STATUS_SUCCESS, snd (xhci_event_loop quiet_env 0x100 19 (hi_write quiet_env (xh_db_regs (mem xhci0) 0x100 + 4 * xd_slot_id (mem xhci0) 0x800) 1 (xhci0\<lparr>mem := m'\<rparr>)))) \<and>
    map (\<lambda>i. trb_at m' (ring_at 0x1000 i)) [0..<3] = [(0x8000001000680, 8, setup_trb_control 0), (ptr64 0xd000, 8, data_trb_control 0), (0, 0, status_trb_control 0)]"
proof -
  note w = xhci0_words
  have r: "xhci_room (mem xhci0) (hc_data (mem xhci0) 0x200) 5 0x800 0x1000 4" unfolding xhci_room_def w by (simp add: fits_def apart_def)
  have c: "control_requests (\<lambda>_. 0) 8 0x8000001000680 0xd000 8 =
      [(0x8000001000680, 8, setup_trb_control 0), (ptr64 0xd000, 8, data_trb_control 0), (0, 0, status_trb_control 0)]"
    by (simp add: control_requests_def packet_count_def data_request_def)
  have u: "unat (8 :: u32) = 8" by simp
  obtain m' where run: "bl_xhci_control_transfer quiet_env (\<lambda>_ _. 0) 0x200 8 5 BL_USB_FULL_SPEED 0xc000 0xd000 8 xhci0 =
      Some (BL_STATUS_SUCCESS, snd (xhci_event_loop quiet_env 0x100 19 (hi_write quiet_env (xh_db_regs (mem xhci0) 0x100 + 4 * xd_slot_id (mem xhci0) 0x800) 1 (xhci0\<lparr>mem := m'\<rparr>))))"
    and q: "xhci_queued 0x800 0x1000 4 (mem xhci0) m' [(0x8000001000680, 8, setup_trb_control 0), (ptr64 0xd000, 8, data_trb_control 0), (0, 0, status_trb_control 0)]"
    using xhci_control_requests_queued [OF r, where packet = 8 and packet_size = 8 and len = 8 and env = quiet_env and stale = "\<lambda>_ _. 0" and speed = BL_USB_FULL_SPEED
        and request = "0xc000" and data = "0xd000", unfolded w u c] by (force simp: packet_count_def)
  have "length [(0x8000001000680, 8, setup_trb_control 0), (ptr64 0xd000, 8, data_trb_control 0), (0 :: u64, 0 :: u32, status_trb_control 0)] = 3" by simp
  then show ?thesis using run q unfolding xhci_queued_def by metis
qed

section \<open>Keyboard\<close>

text \<open>C29. \<open>getchar\<close> returns: while the pending scan codes hold a printable key, it consumes the codes up to the
  first one and returns its character, shifted exactly if a shift key is down then; what is left types the
  rest. Pressed shift keys must not repeat.\<close>

theorem ps2_getchar_returns_next_key:
  assumes "ps2_port io pending" "ps2_tracks s D" "events_ok es D" "typed es D = c # cs"
    "pending d = concat (map event_codes es)"
  shows "\<exists>s' d' es' D'. ps2_getchar_loop io (s, d) = Some (c, s', d') \<and> pending d' = concat (map event_codes es') \<and>
    ps2_tracks s' D' \<and> events_ok es' D' \<and> typed es' D' = cs"
  by (rule getchar_next_typed [OF assms])

theorem ps2_getchar_returns_next_key_witness:
  "\<exists>s' d'. ps2_getchar_loop ps2_wire (ps2_idle, [0x12, 0x1c, 0xf0, 0x1c, 0xf0, 0x12]) = Some (0x41, s', d')"
proof -
  let ?es = "[Press 0x12, Press 0x1c, Release 0x1c, Release 0x12]"
  have "ps2_tracks ps2_idle {}" "events_ok ?es {}" "typed ?es {} = [0x41]"
    by (simp_all add: ps2_tracks_def ps2_idle_def is_shift_def code_lshift_def code_rshift_def key_char_def scan_code_set2_with_shift_def)
  from ps2_getchar_returns_next_key [OF ps2_wire_port this, of "[0x12, 0x1c, 0xf0, 0x1c, 0xf0, 0x12]"]
  show ?thesis by auto
qed

text \<open>C30. When the keyboard layer reports success, the active keyboard is a registered one, its controller is the one registered for its type,
  has a \<open>getchar\<close>, and its \<open>initialize\<close> succeeded on that keyboard as the last thing done to the devices.\<close>

theorem keyboard_init_selects_initialised:
  assumes "bl_keyboard_init st d = Some (BL_STATUS_SUCCESS, st', d')"
  shows "\<exists>kbd c. bl_active_kbd st' = Some (kbd, c) \<and> kbd \<in> set (bl_kbds st) \<and>
    bl_keyboard_controller_match_type (kbd_type kbd) st = Some c \<and> kc_getchar c \<noteq> None \<and>
    (\<exists>ini d0. kc_initialize c = Some ini \<and> ini kbd d0 = Some (BL_STATUS_SUCCESS, d'))"
  using keyboard_init_active [OF assms] by blast

theorem keyboard_init_selects_initialised_witness:
  "\<exists>kbd c ini d0. bl_keyboard_init \<lparr>bl_kbds = [\<lparr>kbd_type = BL_KEYBOARD_USB, kbd_data = 0\<rparr>, \<lparr>kbd_type = BL_KEYBOARD_PS2, kbd_data = 1\<rparr>],
       bl_active_kbd = None, bl_kbd_ctrls = [counting_kbd]\<rparr> 0 = Some (BL_STATUS_SUCCESS,
     \<lparr>bl_kbds = [\<lparr>kbd_type = BL_KEYBOARD_USB, kbd_data = 0\<rparr>, \<lparr>kbd_type = BL_KEYBOARD_PS2, kbd_data = 1\<rparr>],
       bl_active_kbd = Some (kbd, c), bl_kbd_ctrls = [counting_kbd]\<rparr>, 1) \<and>
     kc_initialize c = Some ini \<and> ini kbd d0 = Some (BL_STATUS_SUCCESS, 1)"
proof -
  have "bl_keyboard_init \<lparr>bl_kbds = [\<lparr>kbd_type = BL_KEYBOARD_USB, kbd_data = 0\<rparr>, \<lparr>kbd_type = BL_KEYBOARD_PS2, kbd_data = 1\<rparr>],
       bl_active_kbd = None, bl_kbd_ctrls = [counting_kbd]\<rparr> 0 = Some (BL_STATUS_SUCCESS,
     \<lparr>bl_kbds = [\<lparr>kbd_type = BL_KEYBOARD_USB, kbd_data = 0\<rparr>, \<lparr>kbd_type = BL_KEYBOARD_PS2, kbd_data = 1\<rparr>],
       bl_active_kbd = Some (\<lparr>kbd_type = BL_KEYBOARD_PS2, kbd_data = 1\<rparr>, counting_kbd), bl_kbd_ctrls = [counting_kbd]\<rparr>, 1)"
    by (simp add: bl_keyboard_init_def bl_keyboard_scan_type_def bl_keyboard_controller_match_type_def counting_kbd_def failed_def)
  from keyboard_init_selects_initialised [OF this] this show ?thesis by auto
qed



section \<open>The screen\<close>

text \<open>C32. Outside the dirty area the frame buffer shows what the double buffer holds, and every drawing of rectangles and glyphs inside the screen
  keeps this: after any sequence of them one update shows exactly the drawn pixels, and nothing is dirty. The dirty area may be one
  rectangle, since it covers the union.\<close>

theorem fb_update_shows_drawing:
  assumes "fb_inv s A" "\<forall>op \<in> set ops. op_in_screen (fb_info s) op"
  shows "let s1 = fold fb_run ops s; s2 = bl_fb_update_from_double_buffer s1
    in dirty_none s2 \<and> fb_inv s2 (A \<union> (\<Union>op \<in> set ops. op_rect op)) \<and>
       (\<forall>q \<in> A \<union> (\<Union>op \<in> set ops. op_rect op). pixel_bytes (fb_info s) (mem s2) (vi_frame_buffer (fb_info s)) q =
          pixel_bytes (fb_info s) (mem s1) (fb_double_buffer s1) q)"
proof -
  let ?s1 = "fold fb_run ops s" and ?B = "A \<union> (\<Union>op \<in> set ops. op_rect op)"
  have 1: "fb_inv ?s1 ?B" "fb_info ?s1 = fb_info s" using fb_runs_inv [OF assms] by auto
  then have "fb_inv (fold fb_run ops s) ?B" "fb_info (fold fb_run ops s) = fb_info s" by simp_all
  from updated_pixels [OF this(1)] update_shows [OF this(1)] show ?thesis unfolding Let_def 1(2) by blast
qed

theorem fb_update_shows_drawing_witness:
  "let s1 = fold fb_run [Fill 0x1234 1 2 3 4, Glyph 0x41 0x3000 0 0] tiny_screen; s2 = bl_fb_update_from_double_buffer s1
   in dirty_none s2 \<and> pixel_bytes tiny_info (mem s2) 0x1000 (2, 3) = pixel_bytes tiny_info (mem s1) (fb_double_buffer s1) (2, 3)"
proof -
  have e: "tiny_screen\<lparr>bl_gui_app := None\<rparr> = tiny_screen" "fb_info tiny_screen = tiny_info" "vi_frame_buffer tiny_info = 0x1000"
    by (simp_all add: tiny_screen_def tiny_info_def)
  have "\<forall>op \<in> set [Fill 0x1234 1 2 3 4, Glyph 0x41 0x3000 0 0]. op_in_screen (fb_info tiny_screen) op"
    by (simp add: in_screen_def tiny_screen_def tiny_info_def)
  from fb_update_shows_drawing [OF tiny_inv [of None, unfolded e(1)] this] show ?thesis
    unfolding e Let_def by (simp add: rect_def del: fold_simps)
qed

text \<open>C33. With 16 bits a pixel, a printable character drawn inside the screen shows its 8 by 16 glyph: white where the bit of the font is
  set, the background's pixel elsewhere.\<close>

theorem fb_glyph_drawn:
  assumes "fb_geometry s" "pixel_format (fb_info s)" "vi_bytes_per_pixel (fb_info s) = 2"
    "unat (bl_fb_prepare_color (fb_info s) 0xff 0xff 0xff 0xff) < 2 ^ 16" "buffer_ok (fb_info s) bg"
    "apart (fb_double_buffer s) (pitch (fb_info s) * height (fb_info s)) bg (pitch (fb_info s) * height (fb_info s))"
    "in_screen (fb_info s) x y 8 16" "\<not> sint ch < 0x20" "c < 8" "r < 16"
  shows "bl_fb_get_pixel (x + of_nat c) (y + of_nat r) (bl_fb_blit_glyph ch bg x y s) =
    (if bit (bl_font ! unat ch ! r) (7 - c) then bl_fb_prepare_color (fb_info s) 0xff 0xff 0xff 0xff
     else bl_fb_get_pixel_ptr (fb_info s) (mem s) bg (x + of_nat c) (y + of_nat r))"
  using assms by (rule blit_glyph_pixels)

theorem fb_glyph_drawn_witness:
  "bl_fb_get_pixel 3 3 (bl_fb_blit_glyph 0x21 0x3000 0 0 tiny_screen) = 0xffff"
proof -
  have i: "fb_info tiny_screen = tiny_info" "fb_double_buffer tiny_screen = 0x2000" by (simp_all add: tiny_screen_def)
  have w: "bl_fb_prepare_color tiny_info 0xff 0xff 0xff 0xff = 0xffff" by code_simp
  have g: "bl_font ! 33 ! 3 = 0x18" by code_simp
  have "bl_fb_get_pixel (0 + of_nat 3) (0 + of_nat 3) (bl_fb_blit_glyph 0x21 0x3000 0 0 tiny_screen) =
    (if bit (bl_font ! unat (0x21 :: u8) ! 3) (7 - 3) then bl_fb_prepare_color tiny_info 0xff 0xff 0xff 0xff
     else bl_fb_get_pixel_ptr tiny_info (mem tiny_screen) 0x3000 (0 + of_nat 3) (0 + of_nat 3))"
    unfolding i(1) [symmetric] by (rule fb_glyph_drawn [OF tiny_geometry(1)])
      (unfold i w, simp_all add: tiny_info_def pixel_format_def buffer_ok_def fits_def apart_def in_screen_def sint_u8)
  then show ?thesis by (simp add: g w)
qed

text \<open>C34. In every pixel size, the pixels of a filled rectangle read back as the colour cut to the bytes of a pixel, all other pixels of the screen
  read as before.\<close>

theorem fb_rectangle_filled:
  assumes "fb_geometry s" "pixel_format (fb_info s)" "in_screen (fb_info s) x y w h" "unat c < width (fb_info s)" "unat j < height (fb_info s)"
  shows "bl_fb_get_pixel c j (bl_fb_fill_rectangle color x y w h s) =
    (if (unat c, unat j) \<in> rect x y w h then of_nat (unat color mod 256 ^ bpp (fb_info s)) else bl_fb_get_pixel c j s)"
  using assms by (rule fill_rectangle_pixels)

theorem fb_rectangle_filled_witness:
  "bl_fb_get_pixel 3 5 (bl_fb_fill_rectangle 0x51234 1 2 3 4 tiny_screen) = 0x1234"
proof -
  have i: "fb_info tiny_screen = tiny_info" by (simp add: tiny_screen_def)
  have "in_screen (fb_info tiny_screen) 1 2 3 4" "pixel_format (fb_info tiny_screen)"
    unfolding i by (simp_all add: in_screen_def pixel_format_def tiny_info_def)
  from fb_rectangle_filled [OF tiny_geometry(1) this(2,1), of 3 5 "0x51234"] show ?thesis
    unfolding i by (simp add: rect_def tiny_info_def)
qed

text \<open>C35. Where the masks of the mode do not overlap, the components of a prepared colour read back, cut to the width of their masks.\<close>

theorem fb_colors_round_trip:
  assumes "colors_ok i"
  shows "bl_fb_get_red i (bl_fb_prepare_color i r g b a) = take_bit (unat (cm_mask_size (vi_red i))) r \<and>
    bl_fb_get_green i (bl_fb_prepare_color i r g b a) = take_bit (unat (cm_mask_size (vi_green i))) g \<and>
    bl_fb_get_blue i (bl_fb_prepare_color i r g b a) = take_bit (unat (cm_mask_size (vi_blue i))) b \<and>
    bl_fb_get_reserved i (bl_fb_prepare_color i r g b a) = take_bit (unat (cm_mask_size (vi_reserved i))) a"
  by (simp add: prepared_components [OF assms])

theorem fb_colors_round_trip_witness:
  "bl_fb_get_red tiny_info (bl_fb_prepare_color tiny_info 0x15 0x2a 7 0) = 0x15 \<and> bl_fb_get_green tiny_info (bl_fb_prepare_color tiny_info 0x15 0x2a 7 0) = 0x2a"
proof -
  have "colors_ok tiny_info" by (auto simp: colors_ok_def tiny_info_def component_ok_def component_bits_def)
  from fb_colors_round_trip [OF this, of "0x15" "0x2a" 7 0] show ?thesis by (simp add: tiny_info_def take_bit_eq_mod)
qed



section \<open>The shell\<close>

text \<open>C37. A line handed to the shell is split at the spaces; the first four words, cut to 32 characters, become the arguments and the command
  of the table with the name of the first is executed, its result stored. Without a match the copy of the line is released
  (a match leaks it). The slots keep what the line does not overwrite, so a line of spaces runs the previous command again.\<close>

theorem shell_line_runs_command:
  assumes "cstr (mem s) p cs" "p \<noteq> 0" "cs \<noteq> []" "length cs + 2 < 2 ^ 32"
    and "bl_strndup p (of_nat (length cs)) s = Some (copy, s1)" "copy \<noteq> 0" "cstr (mem s1) copy cs" "mem s1 (copy + of_nat (length cs) + 1) = 0"
    and "shell_static env copy (length cs + 2) (mem s1)" "args_ok (mem s1) (se_arguments env) olds"
    and "bl_argv s1 = map (argument_addr (se_arguments env)) [0..<4]"
  shows "\<exists>s2. let words = tokens (\<lambda>x. x = 0x20) cs; args = new_args olds 0 BL_ARGUMENTS words
    in args_ok (mem s2) (se_arguments env) args \<and> bl_argv s2 = bl_argv s1 \<and> bl_last_result s2 = bl_last_result s1 \<and>
       bl_command_run env p s = (case command_named env (hd args) of
         None \<Rightarrow> Some (bl_heap_free s2 copy (of_nat (length cs)))
       | Some c \<Rightarrow> run_command env c (min BL_ARGUMENTS (length words)) s2)"
  using assms by (rule command_run_ok)

theorem shell_line_runs_command_witness:
  "\<exists>s'. bl_command_run shell_env0 0x2000 shell0 = Some s' \<and> bl_last_result s' = 1"
proof -
  have t: "tokens (\<lambda>x. x = 0x20) shell_line = [ascii ''false'', ascii ''x'']" by (simp add: shell_line_def ascii_def tokens.simps)
  have n: "shell_line \<noteq> []" "length shell_line + 2 < 2 ^ 32" by (simp_all add: shell_line_def ascii_def)
  have e: "se_arguments shell_env0 = 0x4000" "bl_argv shell1 = map (argument_addr 0x4000) [0..<4]"
    by (simp_all add: shell_env0_def shell1_def shell0_def)
  have h: "hd (new_args [[], [], [], []] 0 BL_ARGUMENTS [ascii ''false'', ascii ''x'']) = ascii ''false''"
    by (simp add: new_args_def BL_ARGUMENTS_def ascii_def BL_SHELL_BUFFER_LENGTH_def)
  have c: "command_named shell_env0 (ascii ''false'') = Some \<lparr>ci_command = 0x2014, ci_help = 0x2008, ci_execute = bl_command_false\<rparr>"
    by (simp add: command_named_def command_names_def bl_commands_def shell_env0_def shell_names_def ascii_def)
  from shell_line_runs_command [OF shell0_line _ n shell0_copy _ shell1_line shell1_static, unfolded e t Let_def, OF _ _ shell1_args]
  show ?thesis unfolding h c by (auto simp: run_command_def bl_command_false_def)
qed

section \<open>Strings, memory and arithmetic\<close>

text \<open>C38. \<open>bl_memcpy\<close> copies correctly for overlapping blocks too: the destination ends up with the bytes
  the source had before the call, everything else is unchanged.\<close>

theorem memcpy_moves:
  assumes "dest \<noteq> 0" "src \<noteq> 0" "fits dest (unat n)" "fits src (unat n)"
  shows "bl_memcpy m dest src n = (dest, mem_put m dest (mem_get m src (unat n)))"
  by (rule bl_memcpy_correct [OF assms])

theorem memcpy_moves_witness:
  "mem_get (snd (bl_memcpy ((\<lambda>_. 0)(1 := 5, 2 := 6, 3 := 7)) 2 1 3)) 1 4 = [5, 5, 6, 7]"
  using memcpy_moves [of 2 1 3 "(\<lambda>_. 0)(1 := 5, 2 := 6, 3 := 7)"] by (simp add: fits_def mem_eval)

text \<open>C39. The string comparisons return 0 exactly on equal strings: \<open>bl_strcmp\<close> on the whole strings,
  \<open>bl_strncmp\<close> on their first \<open>n\<close> bytes, \<open>bl_strcasecmp\<close> up to letter case.\<close>

theorem string_comparisons_decide_equality:
  assumes "cstr m p as" "cstr m q bs" "p \<noteq> 0" "q \<noteq> 0"
  shows "(bl_strcmp m p q = Some 0 \<longleftrightarrow> as = bs) \<and>
    (bl_strncmp m p q n = 0 \<longleftrightarrow> take (unat n) as = take (unat n) bs) \<and>
    (bl_strcasecmp m p q = Some 0 \<longleftrightarrow> lower as = lower bs)"
proof (intro conjI)
  note z = cstr_no_zero [OF assms(1)] cstr_no_zero [OF assms(2)]
  then have "0 \<notin> set (take (unat n) as)" "0 \<notin> set (take (unat n) bs)" by (auto dest: in_set_takeD)
  then show "bl_strncmp m p q n = 0 \<longleftrightarrow> take (unat n) as = take (unat n) bs"
    by (simp add: bl_strncmp_cstr [OF assms] strdiff_eq_0)
  show "bl_strcmp m p q = Some 0 \<longleftrightarrow> as = bs" by (simp add: bl_strcmp_cstr [OF assms] strdiff_eq_0 z)
  show "bl_strcasecmp m p q = Some 0 \<longleftrightarrow> lower as = lower bs"
    using bl_strcasecmp_loop_cstr [OF assms(1,2)] assms(3,4) by (auto simp: bl_strcasecmp_def null_order_None)
qed

theorem string_comparisons_decide_equality_witness:
  "bl_strcmp ((\<lambda>_. 0)(8 := 65, 16 := 97)) 8 16 \<noteq> Some 0 \<and> bl_strcasecmp ((\<lambda>_. 0)(8 := 65, 16 := 97)) 8 16 = Some 0"
  using string_comparisons_decide_equality [of "(\<lambda>_. 0)(8 := 65, 16 := 97)" 8 "[65]" 16 "[97]"]
  by (simp add: lower_def bl_tolower_def)

text \<open>C40. The shift-and-subtract loop of \<open>bl_divmod64\<close> computes quotient and remainder of every 64-bit
  number by every non-zero divisor; for divisor 0 it returns all ones and the number.\<close>

theorem divmod64_divides:
  "bl_divmod64 n d = (if d = 0 then (-1, n) else (n div d, n mod d))"
  by (simp add: bl_divmod64_correct bl_divmod64_zero)

section \<open>Further properties\<close>

text \<open>The first block ever served is not aligned: the header is placed at the aligned address, so
  a request aligned to 32 bytes on a fresh heap at 0x100000 gets address 0x100010.\<close>

theorem heap_first_alloc_misaligned:
  "\<exists>s'. bl_heap_alloc_align heap0 100 32 = Some (0x100010, s')"
  by (simp add: bl_heap_alloc_align_def heap0_def sizeof_block_head_def)

text \<open>Section numbers resolve to load addresses. In a module whose segment array holds the records
  of a placement with distinct section numbers, the look-up by number returns the placed
  address of a loaded section and 0 for every other number.\<close>

theorem elf_section_by_index_resolves:
  assumes "\<forall>k < length pl. segment_is m (ld32 m (md + 68)) k (pl ! k)" "mod_count m md = length pl"
    "distinct (map fst pl)" "\<forall>(i, q, sh) \<in> set pl. i < 65536" "i < 65536"
  shows "bl_elf_section_by_index m md (of_nat i) =
    (case map_of (map (\<lambda>(i, q, sh). (i, q)) pl) i of Some q \<Rightarrow> of_nat q | None \<Rightarrow> 0)"
proof (cases "i \<in> fst ` set pl")
  case True
  then obtain q sh where x: "(i, q, sh) \<in> set pl" by force
  have "map fst (map (\<lambda>(i, q, sh). (i, q)) pl) = map fst pl" by (simp add: case_prod_unfold)
  then have "map_of (map (\<lambda>(i, q, sh). (i, q)) pl) i = Some q"
    using assms(3) x by (intro map_of_is_SomeI) (simp only:, force)
  then show ?thesis using section_by_index_segments(1) [OF assms(1-4) x] by simp
next
  case False
  then have "map_of (map (\<lambda>(i, q, sh). (i, q)) pl) i = None"
    by (auto simp: map_of_eq_None_iff image_iff)
  then show ?thesis using section_by_index_segments(2) [OF assms(1-5) False] by simp
qed

theorem elf_section_by_index_resolves_witness:
  "bl_elf_section_by_index ((\<lambda>_. 0)(0x3040 := 1, 0x3045 := 0x40, 0x4001 := 0x50, 0x4008 := 7)) 0x3000 7 = 0x5000"
  using elf_section_by_index_resolves [of "[(7, 0x5000, snd (hd (zip [0..<1] small_image))\<lparr>sh_size := 0\<rparr>)]"
      "(\<lambda>_. 0)(0x3040 := 1, 0x3045 := 0x40, 0x4001 := 0x50, 0x4008 := 7)" "0x3000" 7]
  by (simp add: segment_is_def mod_count_def mem_eval sizeof_segment_def)

text \<open>The image size \<open>bl_elf_load_image\<close> allocates can be too small: for a one-byte section followed
  by a four-byte section aligned to 16 it computes 5 bytes, while the loader places the
  second section 16 bytes into the image and fills 20.\<close>

theorem elf_image_size_too_small:
  "image_extent small_image 0 1 0 = (5, 16, 2) \<and>
   place_end (zip [0..<2] small_image) 0x100020 = 0x100020 + 20"
  using image_extent_too_small by simp

text \<open>The comparison \<open>vcn <= cluster\<close> accepts one cluster too many: the first cluster of
  the second run is taken for the one behind the end of the first run, whatever the second run says.\<close>

theorem ntfs_second_run_off_by_one:
  assumes "run_ok r" "mem_get m (attr + ucast (attr_data_run_offset m attr)) (length (encode_runs (r # rs))) = encode_runs (r # rs)"
    "run_len r < 2 ^ 24"
  shows "bl_ntfs_vcn_to_lcn m attr (of_nat (run_len r)) = Some (of_nat (run_delta r + run_len r))"
  by (rule vcn_second_run [OF assms])

theorem ntfs_second_run_off_by_one_witness:
  "bl_ntfs_vcn_to_lcn run_attr 0x1000 4 = Some 14 \<and> runs_lookup [Run 1 1 4 10, Run 1 1 3 90] 0 4 = Some 100"
  using ntfs_second_run_off_by_one [OF _ run_attr_runs] by (simp add: run_ok_def)

text \<open>The directory look-up compares names case-insensitively over the length of the entry only: an
  entry matches every name that has it as a prefix.\<close>

theorem ntfs_names_match_prefixes:
  assumes "cstr m name w" "fname_length m f \<noteq> 0" "0 \<notin> set (fname_bytes m f)"
  shows "bl_ntfs_strcmp m name f = 0 \<longleftrightarrow>
    length (fname_bytes m f) \<le> length w \<and> upper (take (length (fname_bytes m f)) w) = upper (fname_bytes m f)"
  by (rule ntfs_strcmp_prefix [OF assms])

theorem ntfs_names_match_prefixes_witness:
  "cstr ntfs_names 0x2000 [0x62, 0x6f, 0x6f, 0x74] \<and> fname_bytes ntfs_names 0x3000 = [0x42, 0x4f] \<and> bl_ntfs_strcmp ntfs_names 0x2000 0x3000 = 0"
proof -
  have c: "cstr ntfs_names 0x2000 [0x62, 0x6f, 0x6f, 0x74]" by (simp add: ntfs_names_def)
  moreover have l: "fname_length ntfs_names 0x3000 = 2" by (simp add: fname_length_def ntfs_names_def)
  moreover have "fname_bytes ntfs_names 0x3000 = [0x42, 0x4f]"
  proof -
    have "fname_bytes ntfs_names 0x3000 = [fname_char ntfs_names 0x3000 0, fname_char ntfs_names 0x3000 1]"
      by (simp add: fname_bytes_def l upt_rec)
    then show ?thesis by (simp add: fname_char_def ntfs_names_def mem_eval)
  qed
  moreover have "upper [0x62, 0x6f] = upper [0x42, 0x4f]" by (simp add: upper_def bl_toupper_def)
  ultimately show ?thesis using ntfs_names_match_prefixes [OF c, where f = "0x3000"] by simp
qed

text \<open>After any sequence of registrations, the controller found for a type is the one of that type registered
  last, and the one found before where none of them has the type.\<close>

theorem last_registered_controller_matches:
  "bl_disk_controller_match_type t (fold bl_disk_controller_register cs st) =
     (case find (\<lambda>c. t = ctl_type c) (rev cs) of Some c \<Rightarrow> Some c | None \<Rightarrow> bl_disk_controller_match_type t st)"
  by (simp add: bl_disk_controller_match_type_def match_type_find controllers.entries_fold find_append split: option.split)

text \<open>A read from a USB disk that returns reports success, whatever the device's status and sense data
  were.\<close>

theorem usb_disk_errors_unreported:
  "bl_usb_scsi_read env disk buf start n s = Some (status, data, s') \<Longrightarrow> status = BL_STATUS_SUCCESS"
  by (rule scsi_read_status)

theorem usb_disk_errors_unreported_witness:
  "\<exists>data s'. bl_usb_scsi_read (bbb_env (\<lambda>_. 0) 4) usb_stick [] 7 1 bbb0 = Some (BL_STATUS_SUCCESS, data, s')"
proof -
  obtain status data s' where "bl_usb_scsi_read (bbb_env (\<lambda>_. 0) 4) usb_stick [] 7 1 bbb0 = Some (status, data, s')"
    using scsi_read_ok [OF bbb_env_disk [of "\<lambda>_. 0" 4 "dev_data usb_stick"], where s = bbb0 and n = 1 and l = 7 and buf = "[]"]
    by (auto simp: bbb0_def usb_stick_def)
  with usb_disk_errors_unreported [OF this] show ?thesis by blast
qed

text \<open>The initialisation of the UHCI structures readies every queue head but the last: its flag keeps what the memory held, and whether the controller finds the queue of it empty
  depends on that.\<close>

theorem uhci_last_queue_head_uninitialised:
  assumes "fits frames 4096" "fits qhs 4096" "fits tds 32768" "apart frames 4096 qhs 4096" "apart frames 4096 tds 32768" "apart qhs 4096 tds 32768"
  shows "uhci_schedule frames qhs 255 (uhci_structures frames qhs tds m) \<and>
    (uhci_schedule frames qhs 256 (uhci_structures frames qhs tds m) \<longleftrightarrow> bit (ld32 m (qh_element_link_pointer (uhci_qh_at qhs 255))) 0) \<and>
    (\<forall>i<255. uhci_qh_flag qhs (uhci_structures frames qhs tds m) i = 0) \<and>
    uhci_qh_flag qhs (uhci_structures frames qhs tds m) 255 = uhci_qh_flag qhs m 255"
proof -
  note st = structures_ok [OF assms, of _ m, OF refl]
  have one: "(\<forall>i<256. i \<noteq> 256 \<longrightarrow> P i) = P 255" if "\<forall>i<256. i \<noteq> 255 \<longrightarrow> P i" for P :: "nat \<Rightarrow> bool"
  proof
    show "\<forall>i<256. i \<noteq> 256 \<longrightarrow> P i \<Longrightarrow> P 255" by simp
    show "P 255 \<Longrightarrow> \<forall>i<256. i \<noteq> 256 \<longrightarrow> P i" using that by metis
  qed
  have "uhci_schedule frames qhs 256 (uhci_structures frames qhs tds m) = bit (ld32 m (qh_element_link_pointer (uhci_qh_at qhs 255))) 0"
    unfolding uhci_schedule_def using st(1) [unfolded uhci_schedule_def] one [of "\<lambda>i. bit (ld32 (uhci_structures frames qhs tds m) (qh_element_link_pointer (uhci_qh_at qhs i))) 0"]
    by (simp only: st(4)) blast
  then show ?thesis using st by blast
qed

text \<open>The hexadecimal printers print the number: reading the printed digits back gives the value, at
  32 and at 64 bits, and there is no leading zero except for the number 0 itself.\<close>

theorem print_hex_reads_back:
  "hex_read (bl_print_hex collect n []) = unat n \<and> hex_read (bl_print_hex64 collect n' []) = unat n' \<and>
   (n \<noteq> 0 \<longrightarrow> bl_print_hex collect n [] \<noteq> [] \<and> hd (bl_print_hex collect n []) \<noteq> 0x30)"
proof (intro conjI)
  show r: "hex_read (bl_print_hex collect n []) = unat n"
    unfolding bl_print_hex_def by (rule BL_PRINT_HEX_reads) simp
  show "hex_read (bl_print_hex64 collect n' []) = unat n'"
    unfolding bl_print_hex64_def by (rule BL_PRINT_HEX_reads) simp
  have "bl_print_hex collect n [] \<noteq> []" if "n \<noteq> 0"
    using r that by (auto simp: hex_read_def unat_eq_zero)
  then show "n \<noteq> 0 \<longrightarrow> bl_print_hex collect n [] \<noteq> [] \<and> hd (bl_print_hex collect n []) \<noteq> 0x30"
    by (auto simp: bl_print_hex_def BL_PRINT_HEX_def bl_print_hex_loop_eq hd_dropWhile_hex [OF refl])
qed

theorem print_hex_reads_back_witness:
  "hd (bl_print_hex collect 0xbeef []) \<noteq> 0x30"
  using print_hex_reads_back [of "0xbeef"] by simp

text \<open>The decimal printer prints the decimal digits, most significant first, of every number below
  10^9 that does not end in the digit 0.\<close>

theorem print_decimal_digits:
  assumes "unat n < 10 ^ 9" "unat n mod 10 \<noteq> 0"
  shows "bl_print_decimal collect n [] = map (\<lambda>d. 0x30 + of_nat d) (rev (lsb_digits (unat n)))"
  by (rule bl_print_decimal_digits [OF assms])

theorem print_decimal_digits_witness:
  "bl_print_decimal collect 1203 [] = [0x31, 0x32, 0x30, 0x33]"
  using print_decimal_digits [of 1203] by (simp add: lsb_digits.simps)

text \<open>The decimal printer loses trailing zeros: a number and its tenfold print the same text, and 0
  prints nothing.\<close>

theorem print_decimal_drops_zeros:
  assumes "unat n * 10 < 2 ^ 32"
  shows "bl_print_decimal collect (n * 10) out = bl_print_decimal collect n out \<and> bl_print_decimal collect 0 out = out"
  using bl_print_decimal_times10 [OF assms]
  by (simp add: bl_print_decimal_def bl_decimal_reverse.simps [of 0] bl_decimal_emit.simps [of _ 0])

theorem print_decimal_drops_zeros_witness:
  "bl_print_decimal collect 100 [] = bl_print_decimal collect 10 []"
  using print_decimal_drops_zeros [of 10 "[]"] by simp

text \<open>The text console keeps its cursor inside a row, and a text without line breaks moves the
  cursor by its length; the cursor position is what the last four port writes announce.\<close>

theorem screen_cursor_follows_text:
  assumes "screen_ok s" "0xa \<notin> set str"
  shows "screen_ok (bl_screen_puts str s) \<and> cursor (bl_screen_puts str s) = cursor s + int (length str) \<and>
    drop (length (ports s)) (ports (bl_screen_puts str s)) =
      [(bl_vidport, 14), (bl_vidport + 1, of_int (cursor (bl_screen_puts str s) div 256)),
       (bl_vidport, 15), (bl_vidport + 1, of_int (cursor (bl_screen_puts str s)))]"
proof -
  let ?t = "fold bl_screen_char str s"
  have "ports ?t = ports s"
    by (induction str arbitrary: s) (auto simp: bl_screen_char_def Let_def)
  moreover have "cursor (bl_screen_puts str s) = cursor ?t" "screen_ok (bl_screen_puts str s) = screen_ok ?t"
    by (simp_all add: bl_screen_puts_def bl_outb_def cursor_def screen_ok_def Let_def)
  moreover have "(bl_cols ?t + 80 * bl_rows ?t) * 2 = cursor ?t * 2" by (simp add: cursor_def)
  moreover have "cursor ?t * 2 div 2 ^ 9 = cursor ?t div 256" "cursor ?t * 2 div 2 = cursor ?t" by simp_all
  ultimately have "ports (bl_screen_puts str s) = ports s @
      [(bl_vidport, 14), (bl_vidport + 1, of_int (cursor (bl_screen_puts str s) div 256)),
       (bl_vidport, 15), (bl_vidport + 1, of_int (cursor (bl_screen_puts str s)))]"
    and "cursor (bl_screen_puts str s) = cursor ?t" "screen_ok (bl_screen_puts str s) = screen_ok ?t"
    by (simp_all only: bl_screen_puts_def Let_def) (simp add: bl_outb_def)
  then show ?thesis
    using bl_screen_fold_ok [OF assms(1)] bl_screen_fold_cursor [OF assms] by simp
qed

theorem screen_cursor_follows_text_witness:
  "cursor (bl_screen_puts [72, 105] \<lparr>vidmem = (\<lambda>_. 0), bl_rows = 0, bl_cols = 79, ports = []\<rparr>) = 81"
  using screen_cursor_follows_text [of "\<lparr>vidmem = (\<lambda>_. 0), bl_rows = 0, bl_cols = 79, ports = []\<rparr>" "[72, 105]"]
  by (simp add: screen_ok_def cursor_def)

text \<open>\<open>bl_strlen\<close> returns exactly when the pointer is NULL or there is a zero byte somewhere in
  memory, and on a terminated string it returns the number of bytes before the terminator.\<close>

theorem strlen_returns:
  "((\<exists>len. bl_strlen m s = Some len) \<longleftrightarrow> s = 0 \<or> (\<exists>a. m a = 0)) \<and>
   (cstr m s cs \<longrightarrow> s \<noteq> 0 \<longrightarrow> bl_strlen m s = Some (of_nat (length cs)))"
  by (simp add: bl_strlen_returns_iff bl_strlen_cstr)

theorem strlen_returns_witness:
  "bl_strlen ((\<lambda>_. 0)(8 := 65, 9 := 66)) 8 = Some 2"
  using strlen_returns [of "(\<lambda>_. 0)(8 := 65, 9 := 66)" 8 "[65, 66]"] by simp

text \<open>The 16- and 32-bit swaps reverse the bytes of a number and undo themselves. The 64-bit swap does not:
  its last line shifts by 58 and drops the lowest two bits of the top byte.\<close>

theorem bytes_swap_reverses_bytes:
  "to_le 2 (unat (bytes_swap16 v)) = rev (to_le 2 (unat v)) \<and> bytes_swap16 (bytes_swap16 v) = v \<and>
   to_le 4 (unat (bytes_swap32 w)) = rev (to_le 4 (unat w)) \<and> bytes_swap32 (bytes_swap32 w) = w \<and>
   bytes_swap64 0x0100000000000000 = 0"
proof -
  have "bytes_swap16 (bytes_swap16 v) = v" by (rule to_le_eqD [of 2]) (simp_all add: bytes_swap16_bytes)
  moreover have "bytes_swap32 (bytes_swap32 w) = w" by (rule to_le_eqD [of 4]) (simp_all add: bytes_swap32_bytes)
  moreover have "bytes_swap64 0x0100000000000000 = 0" by (simp add: bytes_swap64_def)
  ultimately show ?thesis by (simp add: bytes_swap16_bytes bytes_swap32_bytes)
qed

end
